(* ===== verification/Rsap_Prelude.thy ===== *)
theory Rsap_Prelude
  imports Complex_Main "HOL-Library.AList"
begin

section \<open>Shared types, errors, and lemmas\<close>

text \<open>
  What every component theory uses: the type names of the model, the sum-typed results that
  stand for Python exceptions, Python's string and rounding helpers, and dictionaries as
  association lists.

  Conventions. A \<open>datetime\<close> in UTC is the number of microseconds since the epoch
  (\<open>time\<close>), which is what Python compares and subtracts; \<open>timedelta\<close> is a number of
  microseconds. A Python \<open>float\<close> that has passed validation is an exact \<open>real\<close>; rounding
  of IEEE doubles is not modelled. Strings are lists of 8-bit characters, and the code's string
  tests are all on ASCII characters. A function that can raise returns \<open>Inl\<close> of the exception.
\<close>

named_theorems op_defs \<open>definitions of operations, unfolded in proofs about every branch\<close>
named_theorems inv_intros \<open>one preservation lemma per operation\<close>

type_synonym time = int
type_synonym ident = string

datatype py_error =
    ValueError string
  | RuntimeError string
  | KeyError string
  | IntegrityError
  | FloatConversionError \<comment> \<open>\<open>float(x)\<close> raised \<open>TypeError\<close> or \<open>ValueError\<close>\<close>
  | LibraryError string \<comment> \<open>raised by a third-party library, by class name\<close>

text \<open>Strings are bytes; \<open>hmac.compare_digest\<close> accepts only texts whose characters are all ASCII.\<close>

definition ascii :: "string \<Rightarrow> bool" where
  "ascii s \<longleftrightarrow> list_all (\<lambda>c. \<not> digit7 c) s"

subsection \<open>Results of fallible operations\<close>

definition bindE :: "'e + 'a \<Rightarrow> ('a \<Rightarrow> 'e + 'b) \<Rightarrow> 'e + 'b" where
  "bindE r f = (case r of Inl e \<Rightarrow> Inl e | Inr a \<Rightarrow> f a)"

lemma bindE_simps [simp]:
  "bindE (Inl e) f = Inl e"
  "bindE (Inr a) f = f a"
  by (simp_all add: bindE_def)

lemma bindE_eq_Inr: "bindE r f = Inr b \<longleftrightarrow> (\<exists>a. r = Inr a \<and> f a = Inr b)"
  by (cases r) auto

lemma bindE_split: "P (bindE r f) \<longleftrightarrow> (\<forall>e. r = Inl e \<longrightarrow> P (Inl e)) \<and> (\<forall>a. r = Inr a \<longrightarrow> P (f a))"
  by (cases r) auto

definition guardE :: "bool \<Rightarrow> 'e \<Rightarrow> 'e + unit" where
  "guardE b e = (if b then Inr () else Inl e)"

lemma guardE_simps [simp]:
  "b \<Longrightarrow> guardE b e = Inr ()"
  "\<not> b \<Longrightarrow> guardE b e = Inl e"
  by (simp_all add: guardE_def)

lemma guardE_eq_Inr [simp]: "guardE b e = Inr u \<longleftrightarrow> b"
  by (simp add: guardE_def)

lemma guardE_eq_Inl [simp]: "guardE b e = Inl e' \<longleftrightarrow> \<not> b \<and> e' = e"
  by (auto simp: guardE_def)

fun mapE :: "('a \<Rightarrow> 'e + 'b) \<Rightarrow> 'a list \<Rightarrow> 'e + 'b list" where
  "mapE f [] = Inr []"
| "mapE f (x # xs) = bindE (f x) (\<lambda>y. bindE (mapE f xs) (\<lambda>ys. Inr (y # ys)))"

lemma mapE_eq_Inr: "mapE f xs = Inr ys \<longleftrightarrow> list_all2 (\<lambda>x y. f x = Inr y) xs ys"
  by (induction xs arbitrary: ys) (auto simp: bindE_eq_Inr list_all2_Cons1)

subsection \<open>Floats as the code receives them\<close>

text \<open>
  A value the code passes to \<open>float\<close>: a finite number, one of the three non-finite doubles,
  or something \<open>float\<close> rejects with \<open>TypeError\<close> or \<open>ValueError\<close>.
\<close>

datatype raw_float = Finite real | PosInf | NegInf | NotANumber | NotNumeric

fun is_numeric :: "raw_float \<Rightarrow> bool" where
  "is_numeric NotNumeric = False"
| "is_numeric _ = True"

fun isfinite :: "raw_float \<Rightarrow> bool" where
  "isfinite (Finite _) = True"
| "isfinite _ = False"

fun float_val :: "raw_float \<Rightarrow> real" where
  "float_val (Finite r) = r"
| "float_val _ = 0"

text \<open>IEEE comparison with a finite bound: every comparison with NaN is false.\<close>

fun raw_le :: "raw_float \<Rightarrow> real \<Rightarrow> bool" where
  "raw_le (Finite r) b = (r \<le> b)"
| "raw_le NegInf b = True"
| "raw_le _ b = False"

fun raw_ge :: "raw_float \<Rightarrow> real \<Rightarrow> bool" where
  "raw_ge (Finite r) b = (b \<le> r)"
| "raw_ge PosInf b = True"
| "raw_ge _ b = False"

fun raw_less :: "raw_float \<Rightarrow> real \<Rightarrow> bool" where
  "raw_less (Finite r) b = (r < b)"
| "raw_less NegInf b = True"
| "raw_less _ b = False"

fun raw_greater :: "raw_float \<Rightarrow> real \<Rightarrow> bool" where
  "raw_greater (Finite r) b = (b < r)"
| "raw_greater PosInf b = True"
| "raw_greater _ b = False"

lemma isfinite_iff: "isfinite x \<longleftrightarrow> (\<exists>r. x = Finite r)"
  by (cases x) auto

text \<open>\<open>round\<close> of one argument: to the nearest integer, ties to the even one.\<close>

definition py_round :: "real \<Rightarrow> int" where
  "py_round x =
     (let f = \<lfloor>x\<rfloor>; d = x - of_int f
      in if d < 1/2 then f else if d > 1/2 then f + 1 else if even f then f else f + 1)"

text \<open>\<open>timedelta(seconds=s)\<close>, rounded to microseconds.\<close>

definition timedelta_seconds :: "real \<Rightarrow> time" where
  "timedelta_seconds s = py_round (s * 1000000)"

lemma py_round_of_int [simp]: "py_round (of_int n) = n"
  by (simp add: py_round_def)

lemma py_round_nonneg: "0 \<le> x \<Longrightarrow> 0 \<le> py_round x"
  by (simp add: py_round_def Let_def)

lemma timedelta_nonneg: "0 \<le> s \<Longrightarrow> 0 \<le> timedelta_seconds s"
  by (simp add: timedelta_seconds_def py_round_nonneg)

lemma timedelta_of_int [simp]: "timedelta_seconds (of_int n) = n * 1000000"
proof -
  have "py_round (of_int (n * 1000000)) = n * 1000000" by (rule py_round_of_int)
  then show ?thesis by (simp add: timedelta_seconds_def)
qed

subsection \<open>Strings\<close>

definition py_is_space :: "char \<Rightarrow> bool" where
  "py_is_space c = (let n = (of_char c :: nat) in n = 32 \<or> (9 \<le> n \<and> n \<le> 13) \<or> (28 \<le> n \<and> n \<le> 31))"

definition py_strip :: "string \<Rightarrow> string" where
  "py_strip s = rev (dropWhile py_is_space (rev (dropWhile py_is_space s)))"

definition py_lower_char :: "char \<Rightarrow> char" where
  "py_lower_char c =
     (let n = (of_char c :: nat) in if 65 \<le> n \<and> n \<le> 90 then char_of (n + 32) else c)"

definition py_lower :: "string \<Rightarrow> string" where
  "py_lower s = map py_lower_char s"

definition starts_with :: "string \<Rightarrow> string \<Rightarrow> bool" where
  "starts_with p s = (take (length p) s = p)"

fun contains_sub :: "string \<Rightarrow> string \<Rightarrow> bool" where
  "contains_sub p [] = (p = [])"
| "contains_sub p (c # cs) = (starts_with p (c # cs) \<or> contains_sub p cs)"

lemma contains_sub_iff: "contains_sub p s \<longleftrightarrow> (\<exists>u v. s = u @ p @ v)"
proof (induction s)
  case Nil
  show ?case by auto
next
  case (Cons c cs)
  show ?case
  proof
    assume "contains_sub p (c # cs)"
    then consider "starts_with p (c # cs)" | "contains_sub p cs" by auto
    then show "\<exists>u v. c # cs = u @ p @ v"
    proof cases
      case 1
      then have "c # cs = [] @ p @ drop (length p) (c # cs)"
        by (metis append_Nil append_take_drop_id starts_with_def)
      then show ?thesis by blast
    next
      case 2
      with Cons obtain u v where "cs = u @ p @ v" by blast
      then have "c # cs = (c # u) @ p @ v" by simp
      then show ?thesis by blast
    qed
  next
    assume "\<exists>u v. c # cs = u @ p @ v"
    then obtain u v where uv: "c # cs = u @ p @ v" by blast
    show "contains_sub p (c # cs)"
    proof (cases u)
      case Nil
      with uv have "starts_with p (c # cs)" by (simp add: starts_with_def)
      then show ?thesis by simp
    next
      case (Cons a u')
      with uv have "cs = u' @ p @ v" by simp
      with Cons.IH show ?thesis by auto
    qed
  qed
qed

text \<open>\<open>str\<close> of a natural number.\<close>

fun nat_text :: "nat \<Rightarrow> string" where
  "nat_text n = (if n < 10 then [char_of (48 + n)] else nat_text (n div 10) @ [char_of (48 + n mod 10)])"

declare nat_text.simps [simp del]

fun digits_value :: "nat \<Rightarrow> string \<Rightarrow> nat" where
  "digits_value n [] = n"
| "digits_value n (c # cs) = digits_value (10 * n + (of_char c - 48)) cs"

definition is_digit_char :: "char \<Rightarrow> bool" where
  "is_digit_char c = (let n = (of_char c :: nat) in 48 \<le> n \<and> n \<le> 57)"

subsection \<open>Dictionaries\<close>

text \<open>
  A Python \<open>dict\<close> is an association list with distinct keys, in insertion order: \<open>d[k] = v\<close>
  overwrites in place or appends, as \<open>AList.update\<close> does; \<open>d.get(k)\<close> is \<open>map_of d k\<close>;
  \<open>d.pop(k, None)\<close> is \<open>AList.delete\<close>; a comprehension with a filter is \<open>filter\<close>.
\<close>

definition dict_ok :: "('k \<times> 'v) list \<Rightarrow> bool" where
  "dict_ok d \<longleftrightarrow> distinct (map fst d)"

definition dict_get :: "('k \<times> 'v) list \<Rightarrow> 'k \<Rightarrow> 'v \<Rightarrow> 'v" where
  "dict_get d k v = (case map_of d k of None \<Rightarrow> v | Some w \<Rightarrow> w)"

lemma dict_ok_Nil [simp, inv_intros]: "dict_ok []"
  by (simp add: dict_ok_def)

lemma dict_ok_update [simp, inv_intros]: "dict_ok d \<Longrightarrow> dict_ok (AList.update k v d)"
  by (simp add: dict_ok_def distinct_update)

lemma dict_ok_delete [simp, inv_intros]: "dict_ok d \<Longrightarrow> dict_ok (AList.delete k d)"
  by (simp add: dict_ok_def distinct_delete)

lemma dict_ok_filter [simp, inv_intros]: "dict_ok d \<Longrightarrow> dict_ok (filter P d)"
  unfolding dict_ok_def by (rule distinct_map_filter)

lemma map_of_update [simp]: "map_of (AList.update k v d) = (map_of d)(k \<mapsto> v)"
  by (rule update_conv')

lemma map_of_delete [simp]: "map_of (AList.delete k d) = (map_of d)(k := None)"
  by (rule delete_conv')

lemma map_of_filter_key:
  "map_of (filter (\<lambda>(k, v). P k) d) k = (if P k then map_of d k else None)"
  by (induction d) auto

lemma map_of_filter_dict:
  "dict_ok d \<Longrightarrow> map_of (filter (\<lambda>(k, v). P k v) d) k =
     (case map_of d k of None \<Rightarrow> None | Some v \<Rightarrow> if P k v then Some v else None)"
proof (induction d)
  case Nil
  then show ?case by simp
next
  case (Cons p d)
  obtain k' v' where p: "p = (k', v')" by (cases p)
  from Cons.prems p have "k' \<notin> fst ` set d" "dict_ok d" by (auto simp: dict_ok_def)
  then have "map_of d k' = None" by (simp add: map_of_eq_None_iff)
  with Cons.IH [OF \<open>dict_ok d\<close>] p show ?case by (auto split: option.splits)
qed

lemma map_of_Some_dom: "map_of d k = Some v \<Longrightarrow> (k, v) \<in> set d"
  by (rule map_of_SomeD)

end
