(* ===== verification/Cv_Types.thy ===== *)
theory Cv_Types
  imports Rsap_Prelude
begin

section \<open>Data contracts of the computer-vision engine\<close>

text \<open>
  The dataclasses of \<open>packages/cv-engine/cv_engine/types.py\<close> with the validation their
  \<open>__post_init__\<close> methods run, in the code's order of checks. A constructor takes the raw
  values and returns the dataclass instance or the exception. The geometry of
  \<open>_segments_intersect\<close> is related to the segments as point sets.
\<close>

type_synonym point = "real \<times> real"
type_synonym bbox = "real \<times> real \<times> real \<times> real"

subsection \<open>Bounding boxes and scores\<close>

definition validate_bbox :: "raw_float list option \<Rightarrow> py_error + bbox" where
  "validate_bbox b =
     (case b of
        None \<Rightarrow> Inl (ValueError ''bbox must contain exactly four numeric coordinates'')
      | Some vs \<Rightarrow>
          if \<not> list_all is_numeric vs
          then Inl (ValueError ''bbox must contain exactly four numeric coordinates'')
          else if length vs \<noteq> 4
          then Inl (ValueError ''bbox must contain exactly four numeric coordinates'')
          else if \<not> list_all isfinite vs
          then Inl (ValueError ''bbox coordinates must be finite'')
          else if list_ex (\<lambda>v. raw_less v 0) vs
          then Inl (ValueError ''bbox coordinates must not be negative'')
          else (let x1 = float_val (vs ! 0); y1 = float_val (vs ! 1);
                    x2 = float_val (vs ! 2); y2 = float_val (vs ! 3)
                in if x2 \<le> x1 \<or> y2 \<le> y1
                   then Inl (ValueError ''bbox must have positive width and height'')
                   else Inr (x1, y1, x2, y2)))"

definition validate_score :: "raw_float \<Rightarrow> string \<Rightarrow> py_error + real" where
  "validate_score v name =
     (if \<not> is_numeric v then Inl (ValueError (name @ '' must be numeric''))
      else if \<not> isfinite v \<or> \<not> (raw_ge v 0 \<and> raw_le v 1)
      then Inl (ValueError (name @ '' must be finite and between 0 and 1''))
      else Inr (float_val v))"

fun bbox_ok :: "bbox \<Rightarrow> bool" where
  "bbox_ok (x1, y1, x2, y2) \<longleftrightarrow> 0 \<le> x1 \<and> 0 \<le> y1 \<and> x1 < x2 \<and> y1 < y2"

fun raw_of_bbox :: "bbox \<Rightarrow> raw_float list" where
  "raw_of_bbox (x1, y1, x2, y2) = [Finite x1, Finite y1, Finite x2, Finite y2]"

fun centroid :: "bbox \<Rightarrow> point" where
  "centroid (x1, y1, x2, y2) = ((x1 + x2) / 2, (y1 + y2) / 2)"

lemma list_all_isfinite: "list_all isfinite vs \<longleftrightarrow> (\<exists>rs. vs = map Finite rs)"
proof
  assume "list_all isfinite vs"
  then have "vs = map Finite (map float_val vs)"
    by (induction vs) (auto simp: isfinite_iff)
  then show "\<exists>rs. vs = map Finite rs" by blast
qed (auto simp: list_all_length)

lemma length4E:
  assumes "length vs = 4"
  obtains a b c d where "vs = [a, b, c, d]"
  using assms by (auto simp: numeral_eq_Suc length_Suc_conv)

lemma validate_bbox_Inr:
  "validate_bbox b = Inr bb \<longleftrightarrow> b = Some (raw_of_bbox bb) \<and> bbox_ok bb"
proof
  assume v: "validate_bbox b = Inr bb"
  then obtain vs where b: "b = Some vs" and len: "length vs = 4" and fin: "list_all isfinite vs"
    by (auto simp: validate_bbox_def split: option.splits if_splits)
  from fin obtain rs where rs: "vs = map Finite rs" by (auto simp: list_all_isfinite)
  with len obtain x1 y1 x2 y2 where "vs = [Finite x1, Finite y1, Finite x2, Finite y2]"
    by (auto elim!: length4E)
  with v b show "b = Some (raw_of_bbox bb) \<and> bbox_ok bb"
    by (auto simp: validate_bbox_def Let_def split: if_splits)
next
  assume "b = Some (raw_of_bbox bb) \<and> bbox_ok bb"
  then show "validate_bbox b = Inr bb"
    by (cases bb) (auto simp: validate_bbox_def Let_def)
qed

lemma validate_score_Inr: "validate_score v n = Inr r \<longleftrightarrow> v = Finite r \<and> 0 \<le> r \<and> r \<le> 1"
  by (cases v) (auto simp: validate_score_def)

lemma centroid_inside:
  "bbox_ok (x1, y1, x2, y2) \<Longrightarrow> centroid (x1, y1, x2, y2) = (cx, cy) \<Longrightarrow>
    x1 < cx \<and> cx < x2 \<and> y1 < cy \<and> cy < y2"
  by auto

subsection \<open>Detections, tracks, faces\<close>

record detection =
  det_bbox :: bbox
  det_confidence :: real
  det_class_id :: int
  det_class_name :: string

record tracked_object =
  trk_bbox :: bbox
  trk_track_id :: int
  trk_class_id :: int
  trk_class_name :: string
  trk_confidence :: real

record face_match =
  fm_bbox :: bbox
  fm_name :: string
  fm_confidence :: real
  fm_person_id :: "ident option"

definition mk_detection ::
  "raw_float list option \<Rightarrow> raw_float \<Rightarrow> int \<Rightarrow> string \<Rightarrow> py_error + detection" where
  "mk_detection b c cid name =
     bindE (validate_bbox b) (\<lambda>bb.
     bindE (validate_score c ''detection confidence'') (\<lambda>s.
     Inr \<lparr>det_bbox = bb, det_confidence = s, det_class_id = cid, det_class_name = name\<rparr>))"

definition mk_tracked_object ::
  "raw_float list option \<Rightarrow> int \<Rightarrow> int \<Rightarrow> string \<Rightarrow> raw_float \<Rightarrow> py_error + tracked_object" where
  "mk_tracked_object b tid cid name c =
     bindE (validate_bbox b) (\<lambda>bb.
     bindE (guardE (\<not> tid < 0) (ValueError ''track_id must not be negative'')) (\<lambda>_.
     bindE (validate_score c ''track confidence'') (\<lambda>s.
     Inr \<lparr>trk_bbox = bb, trk_track_id = tid, trk_class_id = cid, trk_class_name = name,
          trk_confidence = s\<rparr>)))"

definition mk_face_match ::
  "raw_float list option \<Rightarrow> string \<Rightarrow> raw_float \<Rightarrow> ident option \<Rightarrow> py_error + face_match" where
  "mk_face_match b name c pid =
     bindE (validate_bbox b) (\<lambda>bb.
     bindE (validate_score c ''face similarity'') (\<lambda>s.
     Inr \<lparr>fm_bbox = bb, fm_name = name, fm_confidence = s, fm_person_id = pid\<rparr>))"

definition detection_ok :: "detection \<Rightarrow> bool" where
  "detection_ok d \<longleftrightarrow> bbox_ok (det_bbox d) \<and> 0 \<le> det_confidence d \<and> det_confidence d \<le> 1"

definition tracked_ok :: "tracked_object \<Rightarrow> bool" where
  "tracked_ok t \<longleftrightarrow> bbox_ok (trk_bbox t) \<and> 0 \<le> trk_track_id t
     \<and> 0 \<le> trk_confidence t \<and> trk_confidence t \<le> 1"

lemma mk_detection_ok: "mk_detection b c cid n = Inr d \<Longrightarrow> detection_ok d"
  by (auto simp: mk_detection_def bindE_eq_Inr validate_bbox_Inr validate_score_Inr detection_ok_def)

lemma mk_tracked_ok: "mk_tracked_object b t cid n c = Inr d \<Longrightarrow> tracked_ok d"
  by (auto simp: mk_tracked_object_def bindE_eq_Inr validate_bbox_Inr validate_score_Inr tracked_ok_def)

end
