(* ===== verification/Cv_Zones.thy ===== *)
theory Cv_Zones
  imports Cv_Types
begin

section \<open>Zone polygons and counting lines\<close>

text \<open>
  \<open>_orientation\<close>, \<open>_segments_intersect\<close>, \<open>Zone.__post_init__\<close> and
  \<open>CountingLine.__post_init__\<close> of \<open>cv_engine/types.py\<close>. The lemmas say what the
  tolerance \<open>1e-12\<close> of the segment test does: outside it the test decides exactly whether two
  segments share a point, and inside it a crossing can be missed.
\<close>

subsection \<open>Segments\<close>

definition orientation :: "point \<Rightarrow> point \<Rightarrow> point \<Rightarrow> real" where
  "orientation a b c =
     (fst b - fst a) * (snd c - snd a) - (snd b - snd a) * (fst c - fst a)"

definition epsilon :: real where
  "epsilon = 1 / 10 ^ 12"

definition on_segment :: "point \<Rightarrow> point \<Rightarrow> point \<Rightarrow> bool" where
  "on_segment start p fin \<longleftrightarrow>
     min (fst start) (fst fin) - epsilon \<le> fst p \<and> fst p \<le> max (fst start) (fst fin) + epsilon
   \<and> min (snd start) (snd fin) - epsilon \<le> snd p \<and> snd p \<le> max (snd start) (snd fin) + epsilon"

definition segments_intersect :: "point \<Rightarrow> point \<Rightarrow> point \<Rightarrow> point \<Rightarrow> bool" where
  "segments_intersect a b c d =
     (let ab_c = orientation a b c; ab_d = orientation a b d;
          cd_a = orientation c d a; cd_b = orientation c d b
      in if ((ab_c > epsilon \<and> ab_d < - epsilon) \<or> (ab_c < - epsilon \<and> ab_d > epsilon))
          \<and> ((cd_a > epsilon \<and> cd_b < - epsilon) \<or> (cd_a < - epsilon \<and> cd_b > epsilon))
         then True
         else (\<bar>ab_c\<bar> \<le> epsilon \<and> on_segment a c b)
            \<or> (\<bar>ab_d\<bar> \<le> epsilon \<and> on_segment a d b)
            \<or> (\<bar>cd_a\<bar> \<le> epsilon \<and> on_segment c a d)
            \<or> (\<bar>cd_b\<bar> \<le> epsilon \<and> on_segment c b d))"

text \<open>The point of the segment from \<open>a\<close> to \<open>b\<close> at parameter \<open>t\<close>, and meeting segments.\<close>

definition point_at :: "point \<Rightarrow> point \<Rightarrow> real \<Rightarrow> point" where
  "point_at a b t = (fst a + t * (fst b - fst a), snd a + t * (snd b - snd a))"

definition segment :: "point \<Rightarrow> point \<Rightarrow> point set" where
  "segment a b = point_at a b ` {0..1}"

definition segments_meet :: "point \<Rightarrow> point \<Rightarrow> point \<Rightarrow> point \<Rightarrow> bool" where
  "segments_meet a b c d \<longleftrightarrow> segment a b \<inter> segment c d \<noteq> {}"

definition clear_position :: "point \<Rightarrow> point \<Rightarrow> point \<Rightarrow> point \<Rightarrow> bool" where
  "clear_position a b c d \<longleftrightarrow>
     \<bar>orientation a b c\<bar> > epsilon \<and> \<bar>orientation a b d\<bar> > epsilon
   \<and> \<bar>orientation c d a\<bar> > epsilon \<and> \<bar>orientation c d b\<bar> > epsilon"

lemma epsilon_pos: "0 < epsilon"
  by (simp add: epsilon_def)

lemma segments_meetI:
  "point_at a b s = point_at c d t \<Longrightarrow> 0 \<le> s \<Longrightarrow> s \<le> 1 \<Longrightarrow> 0 \<le> t \<Longrightarrow> t \<le> 1 \<Longrightarrow>
    segments_meet a b c d"
  unfolding segments_meet_def segment_def
  by (metis IntI atLeastAtMost_iff emptyE imageI)

lemma segments_meetE:
  assumes "segments_meet a b c d"
  obtains s t where "point_at a b s = point_at c d t" "0 \<le> s" "s \<le> 1" "0 \<le> t" "t \<le> 1"
  using assms unfolding segments_meet_def segment_def by fastforce

text \<open>The orientation is affine along a segment, and a point of the base line has none.\<close>

lemma orientation_affine:
  "orientation a b (point_at c d t) = (1 - t) * orientation a b c + t * orientation a b d"
  by (simp add: orientation_def point_at_def algebra_simps)

lemma orientation_on_line [simp]: "orientation a b (point_at a b s) = 0"
  by (simp add: orientation_def point_at_def algebra_simps)

lemma zero_convex_combination:
  fixes p q t :: real
  assumes "(1 - t) * p + t * q = 0" "0 \<le> t" "t \<le> 1" "p > 0"
  shows "q \<le> 0"
proof (rule ccontr)
  assume "\<not> q \<le> 0"
  with assms(2,3,4) have "0 \<le> (1 - t) * p" "0 \<le> t * q" by simp_all
  with assms(1) have "(1 - t) * p = 0" "t * q = 0" by linarith+
  with assms(4) \<open>\<not> q \<le> 0\<close> show False by simp
qed

lemma opposite_signs:
  fixes p q t :: real
  assumes "(1 - t) * p + t * q = 0" "0 \<le> t" "t \<le> 1" "\<bar>p\<bar> > e" "\<bar>q\<bar> > e" "0 < e"
  shows "(p > e \<and> q < - e) \<or> (p < - e \<and> q > e)"
proof (cases "p > 0")
  case True
  with assms zero_convex_combination [of t p q] show ?thesis by linarith
next
  case False
  have "(1 - t) * (- p) + t * (- q) = 0" using assms(1) by (simp add: algebra_simps)
  with False assms zero_convex_combination [of t "- p" "- q"] show ?thesis by linarith
qed

text \<open>A shared point outside the tolerance band is always seen.\<close>

lemma meet_clear_intersect:
  assumes "segments_meet a b c d" "clear_position a b c d"
  shows "segments_intersect a b c d"
proof -
  from assms(1) obtain s t where eq: "point_at a b s = point_at c d t"
    and st: "0 \<le> s" "s \<le> 1" "0 \<le> t" "t \<le> 1" by (rule segments_meetE)
  have 1: "(1 - t) * orientation a b c + t * orientation a b d = 0"
    using orientation_affine [of a b c d t] eq [symmetric] by simp
  have 2: "(1 - s) * orientation c d a + s * orientation c d b = 0"
    using orientation_affine [of c d a b s] eq by simp
  from assms(2) show ?thesis
    using opposite_signs [OF 1 st(3,4), of epsilon] opposite_signs [OF 2 st(1,2), of epsilon]
    by (simp add: clear_position_def segments_intersect_def Let_def epsilon_pos)
qed

text \<open>
  Conversely a proper crossing has a shared point: the parameter at which the orientation
  along one segment vanishes.
\<close>

lemma crossing_parameter:
  fixes p q :: real
  assumes "p > 0 \<and> q < 0 \<or> p < 0 \<and> q > 0"
  shows "0 \<le> p / (p - q)" "p / (p - q) \<le> 1" "p \<noteq> q"
  using assms by (auto simp: divide_simps)

lemma crossing_point:
  assumes "orientation a b c \<noteq> orientation a b d"
  defines "t \<equiv> orientation a b c / (orientation a b c - orientation a b d)"
  defines "s \<equiv> orientation c d a / (orientation c d a - orientation c d b)"
  shows "point_at a b s = point_at c d t"
proof -
  define D where "D = orientation a b c - orientation a b d"
  have D: "D \<noteq> 0" using assms(1) by (simp add: D_def)
  have D': "orientation c d a - orientation c d b = - D"
    by (simp add: D_def orientation_def algebra_simps)
  have ts: "t * D = orientation a b c" "s * D = - orientation c d a"
    using D by (simp_all add: t_def s_def D' D_def [symmetric])
  have "fst (point_at a b s) * D = fst (point_at c d t) * D"
  proof -
    have "fst (point_at a b s) * D = fst a * D + (s * D) * (fst b - fst a)"
      by (simp add: point_at_def algebra_simps)
    also have "\<dots> = fst c * D + (t * D) * (fst d - fst c)"
      unfolding ts by (simp add: D_def orientation_def algebra_simps)
    also have "\<dots> = fst (point_at c d t) * D"
      by (simp add: point_at_def algebra_simps)
    finally show ?thesis .
  qed
  moreover have "snd (point_at a b s) * D = snd (point_at c d t) * D"
  proof -
    have "snd (point_at a b s) * D = snd a * D + (s * D) * (snd b - snd a)"
      by (simp add: point_at_def algebra_simps)
    also have "\<dots> = snd c * D + (t * D) * (snd d - snd c)"
      unfolding ts by (simp add: D_def orientation_def algebra_simps)
    also have "\<dots> = snd (point_at c d t) * D"
      by (simp add: point_at_def algebra_simps)
    finally show ?thesis .
  qed
  ultimately show ?thesis using D by (simp add: prod_eq_iff)
qed

lemma clear_intersect_meet:
  assumes "segments_intersect a b c d" "clear_position a b c d"
  shows "segments_meet a b c d"
proof -
  from assms have ab: "orientation a b c > 0 \<and> orientation a b d < 0
      \<or> orientation a b c < 0 \<and> orientation a b d > 0"
    and cd: "orientation c d a > 0 \<and> orientation c d b < 0
      \<or> orientation c d a < 0 \<and> orientation c d b > 0"
    using epsilon_pos by (auto simp: segments_intersect_def clear_position_def Let_def split: if_splits)
  from crossing_parameter [OF ab] crossing_parameter [OF cd] show ?thesis
    using crossing_point [of a b c d] by (auto intro: segments_meetI)
qed

text \<open>A touching end point is seen exactly, with no clear position needed.\<close>

lemma point_at_between:
  assumes "0 \<le> t" "t \<le> 1"
  shows "on_segment a (point_at a b t) b"
proof -
  have between: "min p q - epsilon \<le> p + t * (q - p) \<and> p + t * (q - p) \<le> max p q + epsilon" for p q :: real
  proof -
    have e: "0 < epsilon" by (rule epsilon_pos)
    show ?thesis
    proof (cases "p \<le> q")
      case True
      then have "0 \<le> t * (q - p)" "t * (q - p) \<le> q - p"
        using assms mult_right_mono [of t 1 "q - p"] by simp_all
      with True e show ?thesis by simp
    next
      case False
      then have "0 \<le> t * (p - q)" "t * (p - q) \<le> p - q"
        using assms mult_right_mono [of t 1 "p - q"] by simp_all
      with False e show ?thesis by (simp add: algebra_simps)
    qed
  qed
  show ?thesis
    unfolding on_segment_def point_at_def
    using between [of "fst a" "fst b"] between [of "snd a" "snd b"] by simp
qed

lemma on_segment_touch:
  assumes "r \<in> segment p q"
  shows "\<bar>orientation p q r\<bar> \<le> epsilon \<and> on_segment p r q"
proof -
  from assms obtain t where "r = point_at p q t" "0 \<le> t" "t \<le> 1"
    by (auto simp: segment_def)
  then show ?thesis using epsilon_pos point_at_between [of t p q] by simp
qed

lemma touch_intersect:
  assumes "c \<in> segment a b \<or> d \<in> segment a b \<or> a \<in> segment c d \<or> b \<in> segment c d"
  shows "segments_intersect a b c d"
proof -
  from assms have "\<bar>orientation a b c\<bar> \<le> epsilon \<and> on_segment a c b
      \<or> \<bar>orientation a b d\<bar> \<le> epsilon \<and> on_segment a d b
      \<or> \<bar>orientation c d a\<bar> \<le> epsilon \<and> on_segment c a d
      \<or> \<bar>orientation c d b\<bar> \<le> epsilon \<and> on_segment c b d"
    using on_segment_touch by blast
  then show ?thesis unfolding segments_intersect_def Let_def by simp
qed

subsection \<open>Zones\<close>

record zone =
  zone_id :: ident
  zone_name :: string
  zone_vertices :: "point list"
  zone_color :: "int \<times> int \<times> int"
  zone_alert_on_entry :: bool
  zone_normalized :: bool

text \<open>The edge from vertex \<open>i\<close> to its cyclic successor.\<close>

definition next_index :: "nat \<Rightarrow> nat \<Rightarrow> nat" where
  "next_index n i = (i + 1) mod n"

definition shoelace :: "point list \<Rightarrow> real" where
  "shoelace vs =
     (\<Sum>i \<leftarrow> [0..<length vs].
        fst (vs ! i) * snd (vs ! next_index (length vs) i)
        - fst (vs ! next_index (length vs) i) * snd (vs ! i))"

definition polygon_area :: "point list \<Rightarrow> real" where
  "polygon_area vs = \<bar>shoelace vs\<bar> / 2"

definition adjacent_edges :: "nat \<Rightarrow> nat \<Rightarrow> nat \<Rightarrow> bool" where
  "adjacent_edges n first second \<longleftrightarrow>
     second = first \<or> second = next_index n first \<or> first = next_index n second"

definition self_intersects :: "point list \<Rightarrow> bool" where
  "self_intersects vs =
     (let n = length vs in
      list_ex (\<lambda>first. list_ex (\<lambda>second. \<not> adjacent_edges n first second
          \<and> segments_intersect (vs ! first) (vs ! next_index n first)
               (vs ! second) (vs ! next_index n second))
        [first + 1..<n]) [0..<n])"

definition convert_vertices :: "(raw_float \<times> raw_float) list \<Rightarrow> py_error + (raw_float \<times> raw_float) list" where
  "convert_vertices raw =
     (if list_all (\<lambda>(x, y). is_numeric x \<and> is_numeric y) raw then Inr raw
      else Inl FloatConversionError)"

text \<open>The checks on the converted vertices, in order.\<close>

definition validate_polygon :: "bool \<Rightarrow> point list \<Rightarrow> py_error + unit" where
  "validate_polygon normd vs =
     (let n = length vs in
      if normd \<and> list_ex (\<lambda>(x, y). x < 0 \<or> x > 1 \<or> y < 0 \<or> y > 1) vs
      then Inl (ValueError ''normalized zone coordinates must be between 0 and 1'')
      else if length (remdups vs) < 3
      then Inl (ValueError ''a zone requires at least three distinct vertices'')
      else if list_ex (\<lambda>i. vs ! i = vs ! next_index n i) [0..<n]
      then Inl (ValueError ''zone contains duplicate adjacent vertices'')
      else if polygon_area vs \<le> epsilon
      then Inl (ValueError ''zone polygon must have nonzero area'')
      else if self_intersects vs
      then Inl (ValueError ''zone polygon must not self-intersect'')
      else Inr ())"

definition mk_zone ::
  "ident \<Rightarrow> string \<Rightarrow> (raw_float \<times> raw_float) list \<Rightarrow> int \<times> int \<times> int \<Rightarrow> bool \<Rightarrow> bool
    \<Rightarrow> py_error + zone" where
  "mk_zone zid name raw color alert normd =
     (if length raw < 3 then Inl (ValueError ''a zone requires at least three vertices'')
      else bindE (convert_vertices raw) (\<lambda>conv.
        if py_strip zid = [] then Inl (ValueError ''zone id must not be empty'')
        else if \<not> list_all (\<lambda>(x, y). isfinite x \<and> isfinite y) conv
        then Inl (ValueError ''zone coordinates must be finite'')
        else (let vs = map (\<lambda>(x, y). (float_val x, float_val y)) conv in
          bindE (validate_polygon normd vs) (\<lambda>_.
          Inr \<lparr>zone_id = zid, zone_name = name, zone_vertices = vs, zone_color = color,
               zone_alert_on_entry = alert, zone_normalized = normd\<rparr>))))"

definition zone_ok :: "zone \<Rightarrow> bool" where
  "zone_ok z \<longleftrightarrow> py_strip (zone_id z) \<noteq> []
     \<and> card (set (zone_vertices z)) \<ge> 3
     \<and> (zone_normalized z \<longrightarrow> (\<forall>(x, y) \<in> set (zone_vertices z). 0 \<le> x \<and> x \<le> 1 \<and> 0 \<le> y \<and> y \<le> 1))
     \<and> (\<forall>i < length (zone_vertices z).
          zone_vertices z ! i \<noteq> zone_vertices z ! next_index (length (zone_vertices z)) i)
     \<and> polygon_area (zone_vertices z) > epsilon
     \<and> \<not> self_intersects (zone_vertices z)"

lemma validate_polygon_Inr:
  "validate_polygon normd vs = Inr u \<longleftrightarrow>
     (normd \<longrightarrow> (\<forall>(x, y) \<in> set vs. 0 \<le> x \<and> x \<le> 1 \<and> 0 \<le> y \<and> y \<le> 1))
     \<and> card (set vs) \<ge> 3
     \<and> (\<forall>i < length vs. vs ! i \<noteq> vs ! next_index (length vs) i)
     \<and> polygon_area vs > epsilon \<and> \<not> self_intersects vs"
proof -
  have range: "list_ex (\<lambda>(x, y). x < 0 \<or> x > 1 \<or> y < 0 \<or> y > (1::real)) vs \<longleftrightarrow>
      \<not> (\<forall>(x, y) \<in> set vs. 0 \<le> x \<and> x \<le> 1 \<and> 0 \<le> y \<and> y \<le> 1)"
    by (fastforce simp: list_ex_iff)
  have adj: "list_ex (\<lambda>i. vs ! i = vs ! next_index n i) [0..<length vs] \<longleftrightarrow>
      \<not> (\<forall>i < length vs. vs ! i \<noteq> vs ! next_index n i)" for n
    by (auto simp: list_ex_iff)
  show ?thesis
    unfolding validate_polygon_def Let_def range adj
    by (auto simp: length_remdups_card_conv)
qed

lemma mk_zone_ok: "mk_zone zid name raw color alert normd = Inr z \<Longrightarrow> zone_ok z"
  by (auto simp: mk_zone_def zone_ok_def Let_def bindE_eq_Inr validate_polygon_Inr split: if_splits)

lemma self_intersectsD:
  assumes ns: "\<not> self_intersects vs" and ij: "i < j" "j < length vs"
    and na: "\<not> adjacent_edges (length vs) i j"
  shows "\<not> segments_intersect (vs ! i) (vs ! next_index (length vs) i)
           (vs ! j) (vs ! next_index (length vs) j)"
proof -
  have "i \<in> set [0..<length vs]" "j \<in> set [i + 1..<length vs]" using ij by auto
  with ns na show ?thesis unfolding self_intersects_def Let_def list_ex_iff by blast
qed

subsection \<open>Counting lines\<close>

record counting_line =
  line_start :: point
  line_end :: point
  line_normalized :: bool

definition mk_counting_line ::
  "raw_float list \<Rightarrow> raw_float list \<Rightarrow> bool \<Rightarrow> py_error + counting_line" where
  "mk_counting_line start fin normd =
     (if \<not> list_all is_numeric start \<or> \<not> list_all is_numeric fin then Inl FloatConversionError
      else if length start \<noteq> 2 \<or> length fin \<noteq> 2
      then Inl (ValueError ''counting line endpoints must contain exactly two coordinates'')
      else if \<not> list_all isfinite (start @ fin)
      then Inl (ValueError ''counting line coordinates must be finite'')
      else if normd \<and> list_ex (\<lambda>v. raw_less v 0 \<or> \<not> raw_le v 1) (start @ fin)
      then Inl (ValueError ''normalized counting line coordinates must be between 0 and 1'')
      else (let s = (float_val (start ! 0), float_val (start ! 1));
                e = (float_val (fin ! 0), float_val (fin ! 1))
            in if s = e then Inl (ValueError ''counting line endpoints must differ'')
               else Inr \<lparr>line_start = s, line_end = e, line_normalized = normd\<rparr>))"

definition counting_line_ok :: "counting_line \<Rightarrow> bool" where
  "counting_line_ok l \<longleftrightarrow> line_start l \<noteq> line_end l"

lemma mk_counting_line_ok: "mk_counting_line s e normd = Inr l \<Longrightarrow> counting_line_ok l"
  by (auto simp: mk_counting_line_def counting_line_ok_def Let_def split: if_splits)

subsection \<open>Properties\<close>

text \<open>
  The point set of a segment is symmetric in its end points, so the vertices themselves lie on
  the edges.
\<close>

lemma start_in_segment: "a \<in> segment a b"
proof -
  have "point_at a b 0 = a" by (simp add: point_at_def)
  then show ?thesis unfolding segment_def by (metis atLeastAtMost_iff imageI order_refl zero_le_one)
qed

text \<open>
  A zone polygon the constructor accepts is simple up to the tolerance of the test: two
  non-adjacent edges share no end point with each other, and if they are in clear position
  (no vertex of one within the tolerance of the other's line) they share no point at all.
\<close>

theorem accepted_zone_simple:
  assumes "mk_zone zid name raw color alert normd = Inr z"
    and "n = length (zone_vertices z)" and "i < j" "j < n" "\<not> adjacent_edges n i j"
    and "a = zone_vertices z ! i" "b = zone_vertices z ! next_index n i"
    and "c = zone_vertices z ! j" "d = zone_vertices z ! next_index n j"
  shows "a \<notin> segment c d \<and> b \<notin> segment c d \<and> c \<notin> segment a b \<and> d \<notin> segment a b
    \<and> (clear_position a b c d \<longrightarrow> \<not> segments_meet a b c d)"
proof -
  from mk_zone_ok [OF assms(1)] have "\<not> self_intersects (zone_vertices z)"
    by (simp add: zone_ok_def)
  then have ni: "\<not> segments_intersect a b c d"
    using self_intersectsD assms(2-) by simp
  then show ?thesis using touch_intersect meet_clear_intersect by blast
qed

definition square_zone :: "(raw_float \<times> raw_float) list" where
  "square_zone = [(Finite 0, Finite 0), (Finite 1, Finite 0), (Finite 1, Finite 1), (Finite 0, Finite 1)]"

lemma square_zone_accepted:
  "mk_zone ''z'' ''n'' square_zone (0, 255, 0) False True =
     Inr \<lparr>zone_id = ''z'', zone_name = ''n'', zone_vertices = [(0, 0), (1, 0), (1, 1), (0, 1)],
          zone_color = (0, 255, 0), zone_alert_on_entry = False, zone_normalized = True\<rparr>"
  by (simp add: mk_zone_def square_zone_def convert_vertices_def validate_polygon_def Let_def
      py_strip_def py_is_space_def next_index_def polygon_area_def shoelace_def epsilon_def
      self_intersects_def adjacent_edges_def segments_intersect_def orientation_def on_segment_def
      upt_rec)

theorem accepted_zone_simple_witness:
  "((0, 0) :: point) \<notin> segment (1, 1) (0, 1) \<and> ((1, 0) :: point) \<notin> segment (1, 1) (0, 1)
   \<and> ((1, 1) :: point) \<notin> segment (0, 0) (1, 0) \<and> ((0, 1) :: point) \<notin> segment (0, 0) (1, 0)
   \<and> \<not> segments_meet (0, 0) (1, 0) (1, 1) (0, 1)"
proof -
  have "clear_position (0, 0) (1, 0) (1, 1) (0, 1)"
    by (simp add: clear_position_def orientation_def epsilon_def)
  then show ?thesis
    using accepted_zone_simple [OF square_zone_accepted, of 4 0 2]
    by (simp add: adjacent_edges_def next_index_def)
qed

text \<open>
  In clear position the segment test is exact: it answers true precisely when the two
  segments have a common point.
\<close>

theorem segments_intersect_exact:
  assumes "clear_position a b c d"
  shows "segments_intersect a b c d \<longleftrightarrow> segments_meet a b c d"
  using assms meet_clear_intersect clear_intersect_meet by blast

theorem segments_intersect_exact_witness:
  "segments_intersect (0, 0) (2, 2) (0, 2) (2, 0) \<longleftrightarrow> segments_meet (0, 0) (2, 2) (0, 2) (2, 0)"
  by (rule segments_intersect_exact) (simp add: clear_position_def orientation_def epsilon_def)

text \<open>
  Inside the tolerance band the test misses a proper crossing: the short segment from
  \<open>(0, 1/2)\<close> to \<open>(1/1000, 1/2)\<close> is crossed by a vertical segment that starts
  \<open>9e-10\<close> above it, and the test says no.
\<close>

theorem segments_intersect_misses_crossing:
  "segments_meet (0, 1/2) (1/1000, 1/2) (1/2000, 1/2 + 9/10^10) (1/2000, 0)
   \<and> \<not> segments_intersect (0, 1/2) (1/1000, 1/2) (1/2000, 1/2 + 9/10^10) (1/2000, 0)"
proof
  show "segments_meet (0, 1/2) (1/1000, 1/2) (1/2000, 1/2 + 9/10^10) (1/2000, 0)"
    by (rule segments_meetI [where s = "1/2" and t = "(9/10^10) / (1/2 + 9/10^10)"])
      (simp_all add: point_at_def)
  show "\<not> segments_intersect (0, 1/2) (1/1000, 1/2) (1/2000, 1/2 + 9/10^10) (1/2000, 0)"
    by (simp add: segments_intersect_def on_segment_def orientation_def epsilon_def)
qed

end
