(* ===== verification/Zone_Analyzer.thy ===== *)
theory Zone_Analyzer
  imports Cv_Zones
begin

section \<open>Entry and exit analysis\<close>

text \<open>
  \<open>ZoneAnalyzer\<close> of \<open>packages/cv-engine/cv_engine/pipeline/zone_analyzer.py\<close>. The polygon
  test is OpenCV's, so it is a parameter: \<open>contains poly p\<close> stands for
  \<open>cv2.pointPolygonTest(np.asarray(poly, float32), p, False) >= 0\<close>. A frame shape is its
  \<open>(height, width)\<close>.
\<close>

datatype zone_event_type = ENTER | EXIT

record zone_event =
  ze_zone_id :: ident
  ze_zone_name :: string
  ze_track_id :: int
  ze_event_type :: zone_event_type
  ze_timestamp :: time
  ze_confidence :: real

record zone_analyzer =
  za_zones :: "zone list"
  za_stale_after :: int
  za_presence :: "((ident \<times> int) \<times> bool) list"
  za_last_seen :: "(int \<times> int) list"
  za_frame_index :: int

type_synonym contains_test = "point list \<Rightarrow> point \<Rightarrow> bool"

definition za_init :: "zone list \<Rightarrow> int \<Rightarrow> zone_analyzer" where
  "za_init zones stale =
     \<lparr>za_zones = zones, za_stale_after = stale, za_presence = [], za_last_seen = [],
      za_frame_index = 0\<rparr>"

definition pixel_vertices :: "zone \<Rightarrow> int \<times> int \<Rightarrow> point list" where
  "pixel_vertices z shape =
     (let (height, width) = shape
      in if zone_normalized z
         then map (\<lambda>(x, y). (x * of_int width, y * of_int height)) (zone_vertices z)
         else zone_vertices z)"

definition zone_polygons :: "zone list \<Rightarrow> int \<times> int \<Rightarrow> (ident \<times> point list) list" where
  "zone_polygons zones shape =
     foldl (\<lambda>d z. AList.update (zone_id z) (pixel_vertices z shape) d) [] zones"

definition zone_inside ::
  "contains_test \<Rightarrow> (ident \<times> point list) list \<Rightarrow> zone \<Rightarrow> tracked_object \<Rightarrow> bool" where
  "zone_inside contains polygons z item =
     contains (the (map_of polygons (zone_id z))) (centroid (trk_bbox item))"

definition mk_zone_event :: "zone \<Rightarrow> tracked_object \<Rightarrow> bool \<Rightarrow> time \<Rightarrow> zone_event" where
  "mk_zone_event z item inside now =
     \<lparr>ze_zone_id = zone_id z, ze_zone_name = zone_name z, ze_track_id = trk_track_id item,
      ze_event_type = (if inside then ENTER else EXIT), ze_timestamp = now,
      ze_confidence = trk_confidence item\<rparr>"

text \<open>The body of the inner loop, for one track and one zone.\<close>

definition zone_step ::
  "contains_test \<Rightarrow> (ident \<times> point list) list \<Rightarrow> time \<Rightarrow> tracked_object
    \<Rightarrow> zone_event list \<times> ((ident \<times> int) \<times> bool) list \<Rightarrow> zone
    \<Rightarrow> zone_event list \<times> ((ident \<times> int) \<times> bool) list" where
  "zone_step contains polygons now item acc z =
     (let inside = zone_inside contains polygons z item;
          key = (zone_id z, trk_track_id item);
          was_inside = dict_get (snd acc) key False
      in (if inside \<noteq> was_inside then fst acc @ [mk_zone_event z item inside now] else fst acc,
          AList.update key inside (snd acc)))"

text \<open>The body of the outer loop: the whole row of zones for one track.\<close>

definition track_step ::
  "contains_test \<Rightarrow> (ident \<times> point list) list \<Rightarrow> time \<Rightarrow> zone_event list \<times> zone_analyzer
    \<Rightarrow> tracked_object \<Rightarrow> zone_event list \<times> zone_analyzer" where
  "track_step contains polygons now acc item =
     (let za = (snd acc)\<lparr>za_last_seen :=
                 AList.update (trk_track_id item) (za_frame_index (snd acc)) (za_last_seen (snd acc))\<rparr>;
          (events, presence) =
            foldl (zone_step contains polygons now item) (fst acc, za_presence za) (za_zones za)
      in (events, za\<lparr>za_presence := presence\<rparr>))"

definition za_stale :: "zone_analyzer \<Rightarrow> int \<Rightarrow> bool" where
  "za_stale za tid =
     (case map_of (za_last_seen za) tid of
        None \<Rightarrow> False
      | Some frame \<Rightarrow> za_frame_index za - frame > za_stale_after za)"

definition za_discard_stale :: "zone_analyzer \<Rightarrow> zone_analyzer" where
  "za_discard_stale za =
     za\<lparr>za_last_seen := filter (\<lambda>(tid, _). \<not> za_stale za tid) (za_last_seen za),
        za_presence := filter (\<lambda>(key, _). \<not> za_stale za (snd key)) (za_presence za)\<rparr>"

definition za_analyze ::
  "contains_test \<Rightarrow> zone_analyzer \<Rightarrow> tracked_object list \<Rightarrow> int \<times> int \<Rightarrow> time
    \<Rightarrow> zone_event list \<times> zone_analyzer" where
  "za_analyze contains za tracked shape now =
     (let za1 = za\<lparr>za_frame_index := za_frame_index za + 1\<rparr>;
          polygons = zone_polygons (za_zones za1) shape;
          (events, za2) = foldl (track_step contains polygons now) ([], za1) tracked
      in (events, za_discard_stale za2))"

lemmas za_defs [op_defs] =
  za_analyze_def track_step_def zone_step_def za_discard_stale_def mk_zone_event_def

subsection \<open>One row of zones\<close>

text \<open>The events of one \<open>(zone, track)\<close> pair in a list of events, as their kinds.\<close>

definition kinds :: "ident \<Rightarrow> int \<Rightarrow> zone_event list \<Rightarrow> zone_event_type list" where
  "kinds zid tid es =
     map ze_event_type (filter (\<lambda>e. ze_zone_id e = zid \<and> ze_track_id e = tid) es)"

lemma kinds_append [simp]: "kinds zid tid (xs @ ys) = kinds zid tid xs @ kinds zid tid ys"
  by (simp add: kinds_def)

lemma kinds_Nil [simp]: "kinds zid tid [] = []"
  by (simp add: kinds_def)

text \<open>
  The kinds of events a monitor of one pair accepts from \<open>was\<close>, the presence before, and the
  presence it ends with: \<open>ENTER\<close> only from outside, \<open>EXIT\<close> only from inside.
\<close>

fun alternates :: "bool \<Rightarrow> zone_event_type list \<Rightarrow> bool" where
  "alternates was [] = True"
| "alternates was (ENTER # ks) = (\<not> was \<and> alternates True ks)"
| "alternates was (EXIT # ks) = (was \<and> alternates False ks)"

fun final_presence :: "bool \<Rightarrow> zone_event_type list \<Rightarrow> bool" where
  "final_presence was [] = was"
| "final_presence was (ENTER # ks) = final_presence True ks"
| "final_presence was (EXIT # ks) = final_presence False ks"

lemma final_presence_append [simp]:
  "final_presence was (xs @ ys) = final_presence (final_presence was xs) ys"
  by (induction was xs rule: final_presence.induct) auto

lemma alternates_append [simp]:
  "alternates was (xs @ ys) \<longleftrightarrow> alternates was xs \<and> alternates (final_presence was xs) ys"
  by (induction was xs rule: alternates.induct) auto

text \<open>
  \<open>sound was es presence\<close>: the events \<open>es\<close> of the pair explain how the presence entry came
  from \<open>was\<close>.
\<close>

definition sound :: "(ident \<times> int \<Rightarrow> bool) \<Rightarrow> zone_event list \<Rightarrow> ((ident \<times> int) \<times> bool) list \<Rightarrow> bool" where
  "sound was es presence \<longleftrightarrow>
     (\<forall>zid tid. alternates (was (zid, tid)) (kinds zid tid es)
        \<and> final_presence (was (zid, tid)) (kinds zid tid es) = dict_get presence (zid, tid) False)"

lemma dict_get_update [simp]:
  "dict_get (AList.update k v d) k' w = (if k' = k then v else dict_get d k' w)"
  by (simp add: dict_get_def)

lemma kinds_mk [simp]:
  "kinds zid tid [mk_zone_event z item inside now] =
     (if zone_id z = zid \<and> trk_track_id item = tid then [if inside then ENTER else EXIT] else [])"
  by (auto simp: kinds_def mk_zone_event_def)

lemma zone_step_sound:
  "sound was (fst acc) (snd acc) \<Longrightarrow>
   sound was (fst (zone_step contains polygons now item acc z))
     (snd (zone_step contains polygons now item acc z))"
  by (auto simp: sound_def zone_step_def Let_def)

lemma zones_fold_sound:
  "sound was (fst acc) (snd acc) \<Longrightarrow>
   sound was (fst (foldl (zone_step contains polygons now item) acc zs))
     (snd (foldl (zone_step contains polygons now item) acc zs))"
  by (induction zs arbitrary: acc) (simp_all add: zone_step_sound)

lemma track_step_sound:
  "sound was (fst acc) (za_presence (snd acc)) \<Longrightarrow>
   sound was (fst (track_step contains polygons now acc item))
     (za_presence (snd (track_step contains polygons now acc item)))"
  using zones_fold_sound [of was "(fst acc, za_presence (snd acc))"]
  by (auto simp: track_step_def Let_def split: prod.splits) (metis fst_conv snd_conv)+

lemma tracks_fold_sound:
  "sound was (fst acc) (za_presence (snd acc)) \<Longrightarrow>
   sound was (fst (foldl (track_step contains polygons now) acc items))
     (za_presence (snd (foldl (track_step contains polygons now) acc items)))"
  by (induction items arbitrary: acc) (simp_all add: track_step_sound)

lemma track_step_frame [simp]:
  "za_zones (snd (track_step contains polygons now acc item)) = za_zones (snd acc)"
  "za_stale_after (snd (track_step contains polygons now acc item)) = za_stale_after (snd acc)"
  "za_frame_index (snd (track_step contains polygons now acc item)) = za_frame_index (snd acc)"
  "za_last_seen (snd (track_step contains polygons now acc item)) =
     AList.update (trk_track_id item) (za_frame_index (snd acc)) (za_last_seen (snd acc))"
  by (simp_all add: track_step_def Let_def split: prod.splits)

lemma tracks_fold_frame [simp]:
  "za_zones (snd (foldl (track_step contains polygons now) acc items)) = za_zones (snd acc)"
  "za_stale_after (snd (foldl (track_step contains polygons now) acc items)) = za_stale_after (snd acc)"
  "za_frame_index (snd (foldl (track_step contains polygons now) acc items)) = za_frame_index (snd acc)"
  by (induction items arbitrary: acc) simp_all

lemma tracks_fold_last_seen:
  "map_of (za_last_seen (snd (foldl (track_step contains polygons now) acc items))) tid =
     (if tid \<in> trk_track_id ` set items then Some (za_frame_index (snd acc))
      else map_of (za_last_seen (snd acc)) tid)"
  by (induction items arbitrary: acc) auto

subsection \<open>One frame\<close>

lemma dict_get_filter_key [simp]:
  "dict_get (filter (\<lambda>(k, v). P k) d) k w = (if P k then dict_get d k w else w)"
  by (simp add: dict_get_def map_of_filter_key)

text \<open>The track's entry as the frame leaves it, before the stale entries are dropped.\<close>

definition expired :: "zone_analyzer \<Rightarrow> tracked_object list \<Rightarrow> int \<Rightarrow> bool" where
  "expired za tracked tid \<longleftrightarrow>
     (if tid \<in> trk_track_id ` set tracked then za_stale_after za < 0
      else case map_of (za_last_seen za) tid of
             None \<Rightarrow> False
           | Some f \<Rightarrow> za_frame_index za + 1 - f > za_stale_after za)"

lemma za_analyze_frame:
  assumes "za_analyze contains za tracked shape now = (es, za')"
  shows "za_zones za' = za_zones za" "za_stale_after za' = za_stale_after za"
    "za_frame_index za' = za_frame_index za + 1"
proof -
  define r where "r = foldl (track_step contains (zone_polygons (za_zones za) shape) now)
      ([], za\<lparr>za_frame_index := za_frame_index za + 1\<rparr>) tracked"
  from assms have "za' = za_discard_stale (snd r)"
    by (auto simp: za_analyze_def Let_def r_def split: prod.splits)
  then show "za_zones za' = za_zones za" "za_stale_after za' = za_stale_after za"
    "za_frame_index za' = za_frame_index za + 1"
    by (simp_all add: za_discard_stale_def r_def)
qed

lemma za_analyze_pair:
  assumes "za_analyze contains za tracked shape now = (es, za')"
  shows "alternates (dict_get (za_presence za) (zid, tid) False) (kinds zid tid es)"
    and "dict_get (za_presence za') (zid, tid) False =
      (\<not> expired za tracked tid
        \<and> final_presence (dict_get (za_presence za) (zid, tid) False) (kinds zid tid es))"
    and "map_of (za_last_seen za') tid =
      (if expired za tracked tid then None
       else if tid \<in> trk_track_id ` set tracked then Some (za_frame_index za + 1)
       else map_of (za_last_seen za) tid)"
proof -
  let ?za1 = "za\<lparr>za_frame_index := za_frame_index za + 1\<rparr>"
  let ?step = "track_step contains (zone_polygons (za_zones za) shape) now"
  define r where "r = foldl ?step ([], ?za1) tracked"
  from assms have es: "es = fst r" and za': "za' = za_discard_stale (snd r)"
    by (auto simp: za_analyze_def Let_def r_def split: prod.splits)
  have "sound (\<lambda>k. dict_get (za_presence za) k False) (fst r) (za_presence (snd r))"
    unfolding r_def by (rule tracks_fold_sound) (simp add: sound_def)
  then have alt: "alternates (dict_get (za_presence za) (zid, tid) False) (kinds zid tid es)"
    and fin: "final_presence (dict_get (za_presence za) (zid, tid) False) (kinds zid tid es)
        = dict_get (za_presence (snd r)) (zid, tid) False" for zid tid
    by (auto simp: sound_def es)
  show "alternates (dict_get (za_presence za) (zid, tid) False) (kinds zid tid es)" by (rule alt)
  have "za_frame_index (snd r) = za_frame_index za + 1" "za_stale_after (snd r) = za_stale_after za"
    by (simp_all add: r_def)
  moreover have "map_of (za_last_seen (snd r)) tid =
      (if tid \<in> trk_track_id ` set tracked then Some (za_frame_index za + 1) else map_of (za_last_seen za) tid)"
    by (simp add: r_def tracks_fold_last_seen)
  ultimately have stale: "za_stale (snd r) tid = expired za tracked tid"
    by (simp add: za_stale_def expired_def split: option.splits)
  show "dict_get (za_presence za') (zid, tid) False =
      (\<not> expired za tracked tid
        \<and> final_presence (dict_get (za_presence za) (zid, tid) False) (kinds zid tid es))"
    by (simp add: za' za_discard_stale_def stale fin)
  show "map_of (za_last_seen za') tid =
      (if expired za tracked tid then None
       else if tid \<in> trk_track_id ` set tracked then Some (za_frame_index za + 1)
       else map_of (za_last_seen za) tid)"
    by (simp add: za' za_discard_stale_def map_of_filter_key stale)
      (simp add: r_def tracks_fold_last_seen)
qed

subsection \<open>Runs\<close>

type_synonym frame_input = "tracked_object list \<times> (int \<times> int) \<times> time"

fun za_run :: "contains_test \<Rightarrow> zone_analyzer \<Rightarrow> frame_input list \<Rightarrow> zone_event list \<times> zone_analyzer" where
  "za_run contains za [] = ([], za)"
| "za_run contains za ((tracked, shape, now) # fs) =
     (let (es, za1) = za_analyze contains za tracked shape now;
          (es', za2) = za_run contains za1 fs
      in (es @ es', za2))"

text \<open>
  \<open>seen_often stale g fs\<close>: the track, last seen \<open>g\<close> frames ago, never stays away from more
  than \<open>stale\<close> frames in a row.
\<close>

fun seen_often :: "int \<Rightarrow> int \<Rightarrow> int \<Rightarrow> frame_input list \<Rightarrow> bool" where
  "seen_often tid stale g [] = True"
| "seen_often tid stale g ((tracked, _, _) # fs) =
     (if tid \<in> trk_track_id ` set tracked then seen_often tid stale 0 fs
      else g + 1 \<le> stale \<and> seen_often tid stale (g + 1) fs)"

lemma za_run_alternates:
  assumes "0 \<le> za_stale_after za" "seen_often tid (za_stale_after za) g fs"
    and "map_of (za_last_seen za) tid \<in> {None, Some (za_frame_index za - g)}"
  shows "alternates (dict_get (za_presence za) (zid, tid) False) (kinds zid tid (fst (za_run contains za fs)))
    \<and> dict_get (za_presence (snd (za_run contains za fs))) (zid, tid) False =
        final_presence (dict_get (za_presence za) (zid, tid) False) (kinds zid tid (fst (za_run contains za fs)))"
  using assms
proof (induction fs arbitrary: za g)
  case Nil
  then show ?case by simp
next
  case (Cons f fs)
  obtain tracked shape now where f: "f = (tracked, shape, now)" by (cases f)
  obtain es za1 where a: "za_analyze contains za tracked shape now = (es, za1)" by fastforce
  note fr = za_analyze_frame [OF a] and pr = za_analyze_pair [OF a, where tid = tid]
  have live: "\<not> expired za tracked tid"
    using Cons.prems f by (auto simp: expired_def split: option.splits if_splits)
  define g' where "g' = (if tid \<in> trk_track_id ` set tracked then 0 else g + 1)"
  have "seen_often tid (za_stale_after za1) g' fs"
    using Cons.prems(2) f fr(2) by (auto simp: g'_def split: if_splits)
  moreover have "map_of (za_last_seen za1) tid \<in> {None, Some (za_frame_index za1 - g')}"
    using Cons.prems(3) pr(3) live by (auto simp: g'_def fr(3))
  ultimately have "alternates (dict_get (za_presence za1) (zid, tid) False)
        (kinds zid tid (fst (za_run contains za1 fs)))
      \<and> dict_get (za_presence (snd (za_run contains za1 fs))) (zid, tid) False =
        final_presence (dict_get (za_presence za1) (zid, tid) False)
          (kinds zid tid (fst (za_run contains za1 fs)))"
    using Cons.IH [of za1 g'] Cons.prems(1) fr(2) by simp
  then show ?case
    using pr(1) [of zid] pr(2) [of zid] live by (simp add: f a Let_def case_prod_unfold)
qed

subsection \<open>Properties\<close>

text \<open>
  For every zone and every track that never stays unseen for more than the stale limit,
  the events of a run alternate, starting with an entry, so no exit is reported without an entry
  and no entry is reported twice; and the recorded presence is the one the events lead to.
\<close>

theorem zone_events_alternate:
  assumes "0 \<le> stale" "seen_often tid stale 0 frames"
  shows "alternates False (kinds zid tid (fst (za_run contains (za_init zones stale) frames)))
    \<and> dict_get (za_presence (snd (za_run contains (za_init zones stale) frames))) (zid, tid) False =
        final_presence False (kinds zid tid (fst (za_run contains (za_init zones stale) frames)))"
  using za_run_alternates [of "za_init zones stale" tid 0 frames zid contains] assms
  by (simp add: za_init_def dict_get_def)

definition demo_zone :: zone where
  "demo_zone = \<lparr>zone_id = ''z'', zone_name = ''gate'', zone_vertices = [(0, 0), (1, 0), (1, 1)],
     zone_color = (0, 255, 0), zone_alert_on_entry = True, zone_normalized = True\<rparr>"

definition demo_track :: "real \<Rightarrow> tracked_object" where
  "demo_track x = \<lparr>trk_bbox = (x, 0, x + 2, 2), trk_track_id = 7, trk_class_id = 0,
     trk_class_name = ''person'', trk_confidence = 1\<rparr>"

definition demo_run :: "zone_event list \<times> zone_analyzer" where
  "demo_run = za_run (\<lambda>poly p. fst p < 10) (za_init [demo_zone] 30)
     [([demo_track 0], (10, 10), 0), ([], (10, 10), 1), ([demo_track 20], (10, 10), 2)]"

theorem zone_events_alternate_witness:
  "kinds ''z'' 7 (fst demo_run) = [ENTER, EXIT] \<and> alternates False (kinds ''z'' 7 (fst demo_run))
   \<and> dict_get (za_presence (snd demo_run)) (''z'', 7) False
     = final_presence False (kinds ''z'' 7 (fst demo_run))"
proof -
  have "kinds ''z'' 7 (fst demo_run) = [ENTER, EXIT]"
    by (simp add: demo_run_def demo_track_def demo_zone_def za_init_def za_analyze_def track_step_def
        zone_step_def zone_inside_def zone_polygons_def za_discard_stale_def za_stale_def
        dict_get_def Let_def mk_zone_event_def kinds_def)
  then show ?thesis
    using zone_events_alternate [of 30 7 "[([demo_track 0], (10, 10), 0), ([], (10, 10), 1),
      ([demo_track 20], (10, 10), 2)]" "''z''" "\<lambda>poly p. fst p < 10" "[demo_zone]"]
    by (simp add: demo_run_def demo_track_def)
qed

definition za_inv :: "zone_analyzer \<Rightarrow> bool" where
  "za_inv za \<longleftrightarrow> (\<forall>zid tid. map_of (za_presence za) (zid, tid) \<noteq> None \<longrightarrow> map_of (za_last_seen za) tid \<noteq> None)"

lemma za_inv_init [inv_intros]: "za_inv (za_init zones stale)"
  by (simp add: za_inv_def za_init_def)

lemma zones_fold_dom:
  "map_of (snd (foldl (zone_step contains polygons now item) acc zs)) (zid, tid) \<noteq> None \<Longrightarrow>
    tid = trk_track_id item \<or> map_of (snd acc) (zid, tid) \<noteq> None"
  by (induction zs arbitrary: acc) (fastforce simp: zone_step_def Let_def split: if_splits)+

lemma track_step_inv:
  assumes "za_inv (snd acc)"
  shows "za_inv (snd (track_step contains polygons now acc item))"
proof -
  have "map_of (snd (foldl (zone_step contains polygons now item) (fst acc, za_presence (snd acc))
      (za_zones (snd acc)))) (zid, tid) \<noteq> None \<Longrightarrow>
      tid = trk_track_id item \<or> map_of (za_last_seen (snd acc)) tid \<noteq> None" for zid tid
    using zones_fold_dom [of contains polygons now item "(fst acc, za_presence (snd acc))"] assms
    by (fastforce simp: za_inv_def)
  then show ?thesis
    by (fastforce simp: za_inv_def track_step_def Let_def split: prod.splits)
qed

lemma tracks_fold_inv:
  "za_inv (snd acc) \<Longrightarrow> za_inv (snd (foldl (track_step contains polygons now) acc items))"
  by (induction items arbitrary: acc) (simp_all add: track_step_inv)

lemma za_analyze_inv [inv_intros]:
  assumes "za_inv za" "za_analyze contains za tracked shape now = (es, za')"
  shows "za_inv za'"
proof -
  define r where "r = foldl (track_step contains (zone_polygons (za_zones za) shape) now)
      ([], za\<lparr>za_frame_index := za_frame_index za + 1\<rparr>) tracked"
  have "za_inv (snd r)" unfolding r_def
    by (rule tracks_fold_inv) (use assms(1) in \<open>simp add: za_inv_def\<close>)
  moreover have "za' = za_discard_stale (snd r)"
    using assms(2) by (auto simp: za_analyze_def Let_def r_def split: prod.splits)
  ultimately show ?thesis
    by (auto simp: za_inv_def za_discard_stale_def map_of_filter_key)
qed

text \<open>
  The analyzer's memory is bounded by what was recently seen: after a frame every remembered
  track was seen within the stale limit, and presence is remembered only for remembered tracks.
\<close>

theorem zone_analyzer_bounded:
  assumes "za_inv za" "za_analyze contains za tracked shape now = (es, za')"
    and "map_of (za_presence za') (zid, tid) = Some inside"
  shows "\<exists>f. map_of (za_last_seen za') tid = Some f \<and> za_frame_index za' - f \<le> za_stale_after za'"
proof -
  from za_analyze_inv [OF assms(1,2)] assms(3) obtain f where f: "map_of (za_last_seen za') tid = Some f"
    by (fastforce simp: za_inv_def)
  moreover from za_analyze_pair(3) [OF assms(2), of tid] f have "\<not> expired za tracked tid"
    by (auto split: if_splits)
  ultimately show ?thesis
    using za_analyze_pair(3) [OF assms(2), of tid] za_analyze_frame [OF assms(2)]
    by (auto simp: expired_def split: if_splits)
qed

theorem zone_analyzer_bounded_witness:
  "\<exists>f. map_of (za_last_seen (snd (za_analyze (\<lambda>poly p. fst p < 10) (za_init [demo_zone] 30)
        [demo_track 0] (10, 10) 0))) 7 = Some f
     \<and> za_frame_index (snd (za_analyze (\<lambda>poly p. fst p < 10) (za_init [demo_zone] 30)
        [demo_track 0] (10, 10) 0)) - f
     \<le> za_stale_after (snd (za_analyze (\<lambda>poly p. fst p < 10) (za_init [demo_zone] 30)
        [demo_track 0] (10, 10) 0))"
  by (rule zone_analyzer_bounded [OF za_inv_init prod.collapse [symmetric], where zid = "''z''" and inside = True])
    (simp add: demo_track_def demo_zone_def za_init_def za_analyze_def track_step_def
        zone_step_def zone_inside_def zone_polygons_def za_discard_stale_def za_stale_def
        dict_get_def Let_def mk_zone_event_def)

end
