(* ===== verification/Intrusion_Detector.thy ===== *)
theory Intrusion_Detector
  imports Zone_Analyzer
begin

section \<open>Rate-limited intrusion alerts\<close>

text \<open>
  \<open>IntrusionDetector\<close> of \<open>packages/cv-engine/cv_engine/pipeline/intrusion_detector.py\<close>: zone
  entries become alerts, at most one per zone and track in a cooldown period. The main lemma
  says when the rate limit really holds, and a counterexample says when it does not.
\<close>

record intrusion_event =
  ie_zone_id :: ident
  ie_zone_name :: string
  ie_track_id :: int
  ie_timestamp :: time
  ie_confidence :: real

record intrusion_detector =
  id_zone_ids :: "ident list"
  id_cooldown :: time
  id_retention :: time
  id_last_alert :: "((ident \<times> int) \<times> time) list"

definition id_init :: "ident list \<Rightarrow> real \<Rightarrow> real \<Rightarrow> py_error + intrusion_detector" where
  "id_init zone_ids cooldown_seconds retention_margin_seconds =
     (if cooldown_seconds < 0 \<or> retention_margin_seconds < 0
      then Inl (ValueError ''cooldown and retention margin must not be negative'')
      else (let cooldown = timedelta_seconds cooldown_seconds
            in Inr \<lparr>id_zone_ids = zone_ids, id_cooldown = cooldown,
                    id_retention = cooldown + timedelta_seconds retention_margin_seconds,
                    id_last_alert = []\<rparr>))"

definition id_is_stale :: "intrusion_detector \<Rightarrow> time \<Rightarrow> int list option \<Rightarrow> (ident \<times> int) \<times> time \<Rightarrow> bool" where
  "id_is_stale d timestamp active entry \<longleftrightarrow>
     snd entry < timestamp - id_retention d
     \<or> (case active of None \<Rightarrow> False | Some tids \<Rightarrow> snd (fst entry) \<notin> set tids)"

definition id_cleanup ::
  "intrusion_detector \<Rightarrow> time \<Rightarrow> int list option \<Rightarrow> nat \<times> intrusion_detector" where
  "id_cleanup d timestamp active =
     (length (filter (id_is_stale d timestamp active) (id_last_alert d)),
      d\<lparr>id_last_alert := filter (\<lambda>e. \<not> id_is_stale d timestamp active e) (id_last_alert d)\<rparr>)"

definition mk_intrusion :: "zone_event \<Rightarrow> intrusion_event" where
  "mk_intrusion e =
     \<lparr>ie_zone_id = ze_zone_id e, ie_zone_name = ze_zone_name e, ie_track_id = ze_track_id e,
      ie_timestamp = ze_timestamp e, ie_confidence = ze_confidence e\<rparr>"

text \<open>The body of the loop of \<open>check\<close>.\<close>

definition id_step ::
  "intrusion_event list \<times> intrusion_detector \<Rightarrow> zone_event \<Rightarrow> intrusion_event list \<times> intrusion_detector" where
  "id_step acc e =
     (let (out, d) = acc; key = (ze_zone_id e, ze_track_id e) in
      if ze_zone_id e \<notin> set (id_zone_ids d) \<or> ze_event_type e \<noteq> ENTER then (out, d)
      else (case map_of (id_last_alert d) key of
              Some previous \<Rightarrow>
                if ze_timestamp e - previous < id_cooldown d then (out, d)
                else (out @ [mk_intrusion e],
                      d\<lparr>id_last_alert := AList.update key (ze_timestamp e) (id_last_alert d)\<rparr>)
            | None \<Rightarrow> (out @ [mk_intrusion e],
                      d\<lparr>id_last_alert := AList.update key (ze_timestamp e) (id_last_alert d)\<rparr>)))"

definition id_check ::
  "intrusion_detector \<Rightarrow> zone_event list \<Rightarrow> intrusion_event list \<times> intrusion_detector" where
  "id_check d events =
     (let d1 = (if events = [] then d
                else snd (id_cleanup d (Max (set (map ze_timestamp events))) None))
      in foldl id_step ([], d1) events)"

definition id_retained_state_count :: "intrusion_detector \<Rightarrow> nat" where
  "id_retained_state_count d = length (id_last_alert d)"

lemmas id_defs [op_defs] = id_check_def id_step_def id_cleanup_def id_is_stale_def mk_intrusion_def

subsection \<open>Invariant\<close>

definition id_inv :: "intrusion_detector \<Rightarrow> bool" where
  "id_inv d \<longleftrightarrow> dict_ok (id_last_alert d) \<and> 0 \<le> id_cooldown d \<and> id_cooldown d \<le> id_retention d"

lemma id_init_inv [inv_intros]: "id_init zs c m = Inr d \<Longrightarrow> id_inv d"
  by (auto simp: id_init_def id_inv_def Let_def not_less timedelta_nonneg split: if_splits)

lemma id_cleanup_inv [inv_intros]: "id_inv d \<Longrightarrow> id_inv (snd (id_cleanup d t a))"
  by (simp add: id_inv_def id_cleanup_def)

lemma id_step_inv: "id_inv (snd acc) \<Longrightarrow> id_inv (snd (id_step acc e))"
  by (auto simp: id_inv_def id_step_def Let_def split: prod.splits option.splits)

lemma id_fold_inv: "id_inv (snd acc) \<Longrightarrow> id_inv (snd (foldl id_step acc es))"
  by (induction es arbitrary: acc) (simp_all add: id_step_inv)

lemma id_check_inv [inv_intros]: "id_inv d \<Longrightarrow> id_inv (snd (id_check d es))"
  by (auto simp: id_check_def Let_def intro!: id_fold_inv id_cleanup_inv)

lemma id_cleanup_frame [simp]:
  "id_cooldown (snd (id_cleanup d t a)) = id_cooldown d"
  "id_retention (snd (id_cleanup d t a)) = id_retention d"
  "id_zone_ids (snd (id_cleanup d t a)) = id_zone_ids d"
  by (simp_all add: id_cleanup_def)

lemma id_cleanup_lookup:
  "dict_ok (id_last_alert d) \<Longrightarrow>
   map_of (id_last_alert (snd (id_cleanup d t a))) k =
     (case map_of (id_last_alert d) k of None \<Rightarrow> None
      | Some v \<Rightarrow> if id_is_stale d t a (k, v) then None else Some v)"
  using map_of_filter_dict [of "id_last_alert d" "\<lambda>k v. \<not> id_is_stale d t a (k, v)" k]
  by (auto simp: id_cleanup_def case_prod_unfold split: option.splits if_splits)

lemma id_cleanup_count:
  "fst (id_cleanup d t a) + id_retained_state_count (snd (id_cleanup d t a)) = id_retained_state_count d"
  by (simp add: id_cleanup_def id_retained_state_count_def sum_length_filter_compl)

subsection \<open>The rate limit\<close>

text \<open>The alert times of one key in a list of alerts.\<close>

definition alerts_of :: "ident \<times> int \<Rightarrow> intrusion_event list \<Rightarrow> time list" where
  "alerts_of key xs =
     map ie_timestamp (filter (\<lambda>i. (ie_zone_id i, ie_track_id i) = key) xs)"

lemma alerts_of_append [simp]: "alerts_of k (xs @ ys) = alerts_of k xs @ alerts_of k ys"
  by (simp add: alerts_of_def)

lemma alerts_of_Nil [simp]: "alerts_of k [] = []"
  by (simp add: alerts_of_def)

lemma alerts_of_mk [simp]:
  "alerts_of k [mk_intrusion e] = (if (ze_zone_id e, ze_track_id e) = k then [ze_timestamp e] else [])"
  by (simp add: alerts_of_def mk_intrusion_def)

text \<open>
  \<open>spaced c prev ts\<close>: the alert times \<open>ts\<close> keep the distance \<open>c\<close> from the recorded alert
  \<open>prev\<close> and from each other.
\<close>

definition spaced :: "time \<Rightarrow> time option \<Rightarrow> time list \<Rightarrow> bool" where
  "spaced c prev ts \<longleftrightarrow>
     (\<forall>l. prev = Some l \<longrightarrow> (\<forall>t \<in> set ts. l + c \<le> t)) \<and> sorted_wrt (\<lambda>a b. a + c \<le> b) ts"

lemma spaced_Nil [simp]: "spaced c prev []"
  by (simp add: spaced_def)

lemma spaced_append:
  assumes "spaced c p xs" "spaced c p' ys" "0 \<le> c" "\<forall>a \<in> set xs. a = t"
    and "p' = (if xs = [] then p else Some t)"
  shows "spaced c p (xs @ ys)"
proof (cases "xs = []")
  case True
  with assms show ?thesis by simp
next
  case False
  with assms(5,2) have ys: "\<forall>y \<in> set ys. t + c \<le> y" "sorted_wrt (\<lambda>a b. a + c \<le> b) ys"
    by (auto simp: spaced_def)
  from False obtain a where "a \<in> set xs" by (cases xs) auto
  with assms(1,4) have "l + c \<le> t" if "p = Some l" for l using that by (auto simp: spaced_def)
  with ys assms(3) have "l + c \<le> y" if "p = Some l" "y \<in> set ys" for l y
    using that by fastforce
  with ys assms(1,4) show ?thesis by (auto simp: spaced_def sorted_wrt_append)
qed

lemma spaced_weaken:
  assumes "spaced c q xs" "\<And>l. p = Some l \<Longrightarrow> q = Some l \<or> (\<forall>x \<in> set xs. l + c \<le> x)"
  shows "spaced c p xs"
  using assms by (auto simp: spaced_def)

lemma id_fold_spaced:
  assumes "\<forall>e \<in> set es. ze_timestamp e = t" "0 \<le> c" "id_cooldown d = c"
    and "foldl id_step (out, d) es = (out', d')"
  shows "\<exists>new. out' = out @ new \<and> spaced c (map_of (id_last_alert d) k) (alerts_of k new)
     \<and> (\<forall>a \<in> set (alerts_of k new). a = t)
     \<and> map_of (id_last_alert d') k = (if alerts_of k new = [] then map_of (id_last_alert d) k else Some t)
     \<and> id_cooldown d' = c \<and> id_retention d' = id_retention d"
  using assms
proof (induction es arbitrary: out d)
  case Nil
  then show ?case by auto
next
  case (Cons e es)
  obtain o1 d1 where step: "id_step (out, d) e = (o1, d1)" by fastforce
  then have rest: "foldl id_step (o1, d1) es = (out', d')" using Cons.prems(4) by simp
  have et: "ze_timestamp e = t" using Cons.prems(1) by simp
  have d1: "id_cooldown d1 = c" "id_retention d1 = id_retention d"
    using step Cons.prems(3) by (auto simp: id_step_def Let_def split: if_splits option.splits)
  from Cons.IH [OF _ Cons.prems(2) d1(1) rest] Cons.prems(1) obtain new where
    new: "out' = o1 @ new" "spaced c (map_of (id_last_alert d1) k) (alerts_of k new)"
      "\<forall>a \<in> set (alerts_of k new). a = t"
      "map_of (id_last_alert d') k = (if alerts_of k new = [] then map_of (id_last_alert d1) k else Some t)"
      "id_cooldown d' = c" "id_retention d' = id_retention d1" by auto
  consider (skip) "o1 = out" "d1 = d"
    | (alert) "o1 = out @ [mk_intrusion e]"
        "id_last_alert d1 = AList.update (ze_zone_id e, ze_track_id e) t (id_last_alert d)"
        "\<forall>l. map_of (id_last_alert d) (ze_zone_id e, ze_track_id e) = Some l \<longrightarrow> l + c \<le> t"
    using step et Cons.prems(3)
    by (auto simp: id_step_def Let_def split: if_splits option.splits)
  then show ?case
  proof cases
    case skip
    with new d1 show ?thesis by auto
  next
    case alert
    show ?thesis
      by (rule exI [of _ "mk_intrusion e # new"])
        (use new alert d1 et Cons.prems(2) alerts_of_append [of k "[mk_intrusion e]" new] in
          \<open>auto simp: spaced_def split: if_splits\<close>)
  qed
qed

text \<open>A caller's history of the detector.\<close>

datatype id_call = Check "zone_event list" | Cleanup time "int list option"

fun id_run :: "intrusion_detector \<Rightarrow> id_call list \<Rightarrow> intrusion_event list \<times> intrusion_detector" where
  "id_run d [] = ([], d)"
| "id_run d (Check es # cs) =
     (let (out, d1) = id_check d es; (out', d2) = id_run d1 cs in (out @ out', d2))"
| "id_run d (Cleanup t a # cs) = id_run (snd (id_cleanup d t a)) cs"

text \<open>
  Histories in which time does not run backwards, every batch carries one timestamp (as the zone
  analyzer's do) and no cleanup declares the track inactive.
\<close>

fun steady :: "int \<Rightarrow> time \<Rightarrow> id_call list \<Rightarrow> bool" where
  "steady tid now [] = True"
| "steady tid now (Check es # cs) =
     (case es of [] \<Rightarrow> steady tid now cs
      | e # _ \<Rightarrow> now \<le> ze_timestamp e \<and> list_all (\<lambda>e'. ze_timestamp e' = ze_timestamp e) es
                \<and> steady tid (ze_timestamp e) cs)"
| "steady tid now (Cleanup t a # cs) =
     (now \<le> t \<and> (case a of None \<Rightarrow> True | Some tids \<Rightarrow> tid \<in> set tids) \<and> steady tid t cs)"

lemma steady_run_spaced:
  assumes "steady tid now cs" "id_inv d"
  shows "spaced (id_cooldown d) (map_of (id_last_alert d) (zid, tid)) (alerts_of (zid, tid) (fst (id_run d cs)))
    \<and> (\<forall>t \<in> set (alerts_of (zid, tid) (fst (id_run d cs))). now \<le> t)"
  using assms
proof (induction tid now cs arbitrary: d rule: steady.induct)
  case (1 tid now)
  then show ?case by simp
next
  case (2 tid now es cs)
  show ?case
  proof (cases es)
    case Nil
    then show ?thesis using 2 by (simp add: id_check_def)
  next
    case (Cons e es')
    let ?k = "(zid, tid)" and ?t = "ze_timestamp e" and ?c = "id_cooldown d"
    from Cons 2(3) have now: "now \<le> ?t" and same: "\<forall>e' \<in> set es. ze_timestamp e' = ?t"
      and st: "steady tid ?t cs" by (auto simp: list_all_iff)
    have mx: "Max (set (map ze_timestamp es)) = ?t"
      using same Cons by (intro Max_eqI) auto
    define d0 where "d0 = snd (id_cleanup d ?t None)"
    obtain out d1 where chk: "id_check d es = (out, d1)" by fastforce
    have fold: "foldl id_step ([], d0) es = (out, d1)"
      using chk Cons mx by (simp add: id_check_def d0_def)
    from 2(4) have inv: "dict_ok (id_last_alert d)" "0 \<le> ?c" "?c \<le> id_retention d"
      by (auto simp: id_inv_def)
    from id_fold_spaced [OF same inv(2) _ fold, of ?k]
    have sp: "spaced ?c (map_of (id_last_alert d0) ?k) (alerts_of ?k out)"
      and at: "\<forall>a \<in> set (alerts_of ?k out). a = ?t"
      and d1: "map_of (id_last_alert d1) ?k =
        (if alerts_of ?k out = [] then map_of (id_last_alert d0) ?k else Some ?t)" "id_cooldown d1 = ?c"
      by (auto simp: d0_def)
    have "id_inv d1" using id_check_inv [OF 2(4), of es] chk by simp
    with 2(2) [OF Cons st, of d1]
    have IH: "spaced ?c (map_of (id_last_alert d1) ?k) (alerts_of ?k (fst (id_run d1 cs)))"
      "\<forall>t \<in> set (alerts_of ?k (fst (id_run d1 cs))). ?t \<le> t"
      unfolding d1(2) by blast+
    have run: "fst (id_run d (Check es # cs)) = out @ fst (id_run d1 cs)"
      by (simp add: chk case_prod_unfold Let_def)
    have all: "spaced ?c (map_of (id_last_alert d0) ?k) (alerts_of ?k out @ alerts_of ?k (fst (id_run d1 cs)))"
      by (rule spaced_append [OF sp IH(1) inv(2) at d1(1)])
    have late: "\<forall>t \<in> set (alerts_of ?k out @ alerts_of ?k (fst (id_run d1 cs))). ?t \<le> t"
      using at IH(2) by auto
    have "spaced ?c (map_of (id_last_alert d) ?k) (alerts_of ?k out @ alerts_of ?k (fst (id_run d1 cs)))"
    proof (rule spaced_weaken [OF all])
      fix l assume l: "map_of (id_last_alert d) ?k = Some l"
      show "map_of (id_last_alert d0) ?k = Some l
          \<or> (\<forall>x \<in> set (alerts_of ?k out @ alerts_of ?k (fst (id_run d1 cs))). l + ?c \<le> x)"
      proof (cases "id_is_stale d ?t None (?k, l)")
        case True
        then have "l + ?c \<le> ?t" using inv(2,3) by (simp add: id_is_stale_def)
        with late show ?thesis by fastforce
      next
        case False
        with l show ?thesis using id_cleanup_lookup [OF inv(1), of ?t None ?k] by (simp add: d0_def)
      qed
    qed
    then show ?thesis unfolding run using late now by (simp, blast intro: order_trans)
  qed
next
  case (3 tid now t a cs)
  let ?k = "(zid, tid)" and ?d0 = "snd (id_cleanup d t a)"
  from 3(2) have now: "now \<le> t" and act: "case a of None \<Rightarrow> True | Some tids \<Rightarrow> tid \<in> set tids"
    and st: "steady tid t cs" by auto
  from 3(1) [OF st id_cleanup_inv [OF 3(3)]]
  have IH: "spaced (id_cooldown d) (map_of (id_last_alert ?d0) ?k) (alerts_of ?k (fst (id_run ?d0 cs)))"
    "\<forall>u \<in> set (alerts_of ?k (fst (id_run ?d0 cs))). t \<le> u" by auto
  from 3(3) have "dict_ok (id_last_alert d)" "id_cooldown d \<le> id_retention d" by (auto simp: id_inv_def)
  then have "spaced (id_cooldown d) (map_of (id_last_alert d) ?k) (alerts_of ?k (fst (id_run ?d0 cs)))"
  proof (intro spaced_weaken [OF IH(1)])
    fix l assume l: "map_of (id_last_alert d) ?k = Some l"
    show "map_of (id_last_alert ?d0) ?k = Some l
        \<or> (\<forall>x \<in> set (alerts_of ?k (fst (id_run ?d0 cs))). l + id_cooldown d \<le> x)"
    proof (cases "id_is_stale d t a (?k, l)")
      case True
      then have "l + id_cooldown d \<le> t"
        using \<open>id_cooldown d \<le> id_retention d\<close> act by (auto simp: id_is_stale_def split: option.splits)
      with IH(2) show ?thesis by fastforce
    next
      case False
      with l show ?thesis
        using id_cleanup_lookup [OF \<open>dict_ok (id_last_alert d)\<close>, of t a ?k] by simp
    qed
  qed
  with IH(2) now show ?case by (auto intro: order_trans)
qed

subsection \<open>Properties\<close>

text \<open>
  Rate limit: in every history whose timestamps do not run backwards, whose batches carry one
  timestamp, and whose cleanups keep the track active, two alerts for the same zone and track are
  at least the cooldown apart.
\<close>

theorem intrusion_rate_limit:
  assumes "id_init zone_ids cooldown_seconds margin_seconds = Inr d" "steady tid now calls"
  shows "sorted_wrt (\<lambda>a b. a + timedelta_seconds cooldown_seconds \<le> b)
    (alerts_of (zid, tid) (fst (id_run d calls)))"
proof -
  have "id_cooldown d = timedelta_seconds cooldown_seconds"
    using assms(1) by (auto simp: id_init_def Let_def split: if_splits)
  then show ?thesis
    using steady_run_spaced [OF assms(2) id_init_inv [OF assms(1)], of zid]
    by (simp add: spaced_def)
qed

definition entry_at :: "time \<Rightarrow> zone_event" where
  "entry_at t = \<lparr>ze_zone_id = ''z'', ze_zone_name = ''gate'', ze_track_id = 7, ze_event_type = ENTER,
     ze_timestamp = t, ze_confidence = 1\<rparr>"

definition demo_detector :: intrusion_detector where
  "demo_detector = \<lparr>id_zone_ids = [''z''], id_cooldown = 5000000, id_retention = 65000000,
     id_last_alert = []\<rparr>"

lemma demo_detector_init: "id_init [''z''] 5 60 = Inr demo_detector"
  using timedelta_of_int [of 5] timedelta_of_int [of 60]
  by (simp add: id_init_def demo_detector_def Let_def)

lemmas id_eval = id_check_def id_cleanup_def id_step_def id_is_stale_def mk_intrusion_def
  entry_at_def demo_detector_def alerts_of_def Let_def

theorem intrusion_rate_limit_witness:
  "alerts_of (''z'', 7) (fst (id_run demo_detector
      [Check [entry_at 0], Check [entry_at 4000000], Cleanup 4500000 (Some [7]), Check [entry_at 6000000]]))
     = [0, 6000000]
   \<and> sorted_wrt (\<lambda>a b. a + timedelta_seconds 5 \<le> b) (alerts_of (''z'', 7) (fst (id_run demo_detector
      [Check [entry_at 0], Check [entry_at 4000000], Cleanup 4500000 (Some [7]), Check [entry_at 6000000]])))"
proof
  show "alerts_of (''z'', 7) (fst (id_run demo_detector
      [Check [entry_at 0], Check [entry_at 4000000], Cleanup 4500000 (Some [7]), Check [entry_at 6000000]]))
     = [0, 6000000]"
    by (simp add: id_eval)
  show "sorted_wrt (\<lambda>a b. a + timedelta_seconds 5 \<le> b) (alerts_of (''z'', 7) (fst (id_run demo_detector
      [Check [entry_at 0], Check [entry_at 4000000], Cleanup 4500000 (Some [7]), Check [entry_at 6000000]])))"
    by (rule intrusion_rate_limit [OF demo_detector_init, where now = 0]) (simp add: entry_at_def)
qed

text \<open>
  A cleanup that does not list the track, as the pipeline issues for every frame in which
  the tracker reports nothing for it, forgets the cooldown: two alerts for the same zone and
  track come two seconds apart under a five-second cooldown.
\<close>

theorem cleanup_defeats_cooldown:
  "id_init [''z''] 5 60 = Inr demo_detector
   \<and> alerts_of (''z'', 7) (fst (id_run demo_detector
       [Check [entry_at 0], Cleanup 0 (Some [7]), Cleanup 1000000 (Some []), Check [entry_at 2000000]]))
     = [0, 2000000]"
  by (simp add: demo_detector_init) (simp add: id_eval)

end
