(* ===== verification/People_Counter.thy ===== *)
theory People_Counter
  imports Cv_Zones
begin

section \<open>The directional people counter\<close>

text \<open>
  \<open>PeopleCounter\<close> of \<open>packages/cv-engine/cv_engine/pipeline/people_counter.py\<close>. A side is
  \<open>1\<close> or \<open>-1\<close>; \<open>track_states\<close> is the dictionary of \<open>_TrackState\<close> objects, whose in-place
  updates are updates of the dictionary. \<open>update\<close> returns its result or exception together with
  the counter as it leaves it.
\<close>

datatype count_direction = IN | OUT

record count_event =
  ce_track_id :: int
  ce_direction :: count_direction
  ce_timestamp :: time

record count_update =
  cu_count_in :: int
  cu_count_out :: int
  cu_events :: "count_event list"

record track_state =
  ts_stable_side :: int
  ts_last_seen_frame :: int

record people_counter =
  pc_line :: "counting_line option"
  pc_hysteresis :: real
  pc_stale_after :: int
  pc_count_in :: int
  pc_count_out :: int
  pc_track_states :: "(int \<times> track_state) list"
  pc_frame_index :: int

definition pc_init :: "counting_line option \<Rightarrow> real \<Rightarrow> int \<Rightarrow> py_error + people_counter" where
  "pc_init line hysteresis_pixels stale_after_frames =
     (if hysteresis_pixels < 0 then Inl (ValueError ''hysteresis_pixels must not be negative'')
      else if stale_after_frames < 0 then Inl (ValueError ''stale_after_frames must not be negative'')
      else Inr \<lparr>pc_line = line, pc_hysteresis = hysteresis_pixels, pc_stale_after = stale_after_frames,
                pc_count_in = 0, pc_count_out = 0, pc_track_states = [], pc_frame_index = 0\<rparr>)"

definition pixel_line :: "counting_line \<Rightarrow> int \<times> int \<Rightarrow> point \<times> point" where
  "pixel_line line shape =
     (if \<not> line_normalized line then (line_start line, line_end line)
      else (let (height, width) = shape
            in ((fst (line_start line) * of_int width, snd (line_start line) * of_int height),
                (fst (line_end line) * of_int width, snd (line_end line) * of_int height))))"

definition hypot :: "real \<Rightarrow> real \<Rightarrow> real" where
  "hypot x y = sqrt (x\<^sup>2 + y\<^sup>2)"

definition signed_distance :: "point \<Rightarrow> point \<Rightarrow> point \<Rightarrow> py_error + real" where
  "signed_distance p start fin =
     (let delta_x = fst fin - fst start; delta_y = snd fin - snd start;
          len = hypot delta_x delta_y
      in if len = 0 then Inl (ValueError ''counting line endpoints must differ'')
         else Inr ((delta_x * (snd p - snd start) - delta_y * (fst p - fst start)) / len))"

text \<open>What one tracked person does to the counter, given the signed distance of its centroid.\<close>

definition pc_crossing ::
  "time \<Rightarrow> tracked_object \<Rightarrow> real \<Rightarrow> count_event list \<times> people_counter \<Rightarrow> count_event list \<times> people_counter" where
  "pc_crossing now item side_value acc =
     (let (events, c) = acc; tid = trk_track_id item; idx = pc_frame_index c in
      if \<bar>side_value\<bar> \<le> pc_hysteresis c
      then (events,
            (case map_of (pc_track_states c) tid of
               None \<Rightarrow> c
             | Some st \<Rightarrow> c\<lparr>pc_track_states :=
                 AList.update tid (st\<lparr>ts_last_seen_frame := idx\<rparr>) (pc_track_states c)\<rparr>))
      else (let side = (if side_value > 0 then 1 else - 1) in
        (case map_of (pc_track_states c) tid of
           None \<Rightarrow>
             (events, c\<lparr>pc_track_states :=
                AList.update tid \<lparr>ts_stable_side = side, ts_last_seen_frame = idx\<rparr> (pc_track_states c)\<rparr>)
         | Some st \<Rightarrow>
             if ts_stable_side st = side
             then (events, c\<lparr>pc_track_states :=
                AList.update tid (st\<lparr>ts_last_seen_frame := idx\<rparr>) (pc_track_states c)\<rparr>)
             else (let direction = (if ts_stable_side st < side then IN else OUT);
                       c1 = c\<lparr>pc_track_states :=
                          AList.update tid \<lparr>ts_stable_side = side, ts_last_seen_frame = idx\<rparr>
                            (pc_track_states c)\<rparr>
                   in (events @ [\<lparr>ce_track_id = tid, ce_direction = direction, ce_timestamp = now\<rparr>],
                       if direction = IN then c1\<lparr>pc_count_in := pc_count_in c1 + 1\<rparr>
                       else c1\<lparr>pc_count_out := pc_count_out c1 + 1\<rparr>)))))"

text \<open>The loop of \<open>update\<close>; it stops at the first exception.\<close>

fun pc_loop ::
  "point \<Rightarrow> point \<Rightarrow> time \<Rightarrow> tracked_object list \<Rightarrow> count_event list \<times> people_counter
    \<Rightarrow> py_error option \<times> count_event list \<times> people_counter" where
  "pc_loop start fin now [] acc = (None, acc)"
| "pc_loop start fin now (item # items) acc =
     (if trk_class_id item \<noteq> 0 then pc_loop start fin now items acc
      else (case signed_distance (centroid (trk_bbox item)) start fin of
              Inl e \<Rightarrow> (Some e, acc)
            | Inr side_value \<Rightarrow> pc_loop start fin now items (pc_crossing now item side_value acc)))"

definition pc_is_stale :: "people_counter \<Rightarrow> int list option \<Rightarrow> int \<times> track_state \<Rightarrow> bool" where
  "pc_is_stale c active entry \<longleftrightarrow>
     (case active of
        None \<Rightarrow> pc_frame_index c - ts_last_seen_frame (snd entry) > pc_stale_after c
      | Some tids \<Rightarrow> fst entry \<notin> set tids)"

definition pc_cleanup :: "people_counter \<Rightarrow> int list option \<Rightarrow> nat \<times> people_counter" where
  "pc_cleanup c active =
     (length (filter (pc_is_stale c active) (pc_track_states c)),
      c\<lparr>pc_track_states := filter (\<lambda>e. \<not> pc_is_stale c active e) (pc_track_states c)\<rparr>)"

definition pc_update ::
  "people_counter \<Rightarrow> tracked_object list \<Rightarrow> int \<times> int \<Rightarrow> time
    \<Rightarrow> (py_error + count_update) \<times> people_counter" where
  "pc_update c tracked shape now =
     (let c0 = c\<lparr>pc_frame_index := pc_frame_index c + 1\<rparr> in
      case pc_line c0 of
        None \<Rightarrow> (Inr \<lparr>cu_count_in = pc_count_in c0, cu_count_out = pc_count_out c0, cu_events = []\<rparr>, c0)
      | Some line \<Rightarrow>
          (let (start, fin) = pixel_line line shape;
               (err, events, c1) = pc_loop start fin now tracked ([], c0)
           in case err of
                Some e \<Rightarrow> (Inl e, c1)
              | None \<Rightarrow>
                  (let c2 = snd (pc_cleanup c1 None)
                   in (Inr \<lparr>cu_count_in = pc_count_in c2, cu_count_out = pc_count_out c2,
                           cu_events = events\<rparr>, c2))))"

definition pc_reset :: "people_counter \<Rightarrow> people_counter" where
  "pc_reset c = c\<lparr>pc_count_in := 0, pc_count_out := 0, pc_track_states := [], pc_frame_index := 0\<rparr>"

definition pc_tracked_state_count :: "people_counter \<Rightarrow> nat" where
  "pc_tracked_state_count c = length (pc_track_states c)"

lemmas pc_defs [op_defs] = pc_update_def pc_crossing_def pc_cleanup_def pc_is_stale_def

subsection \<open>The signed distance\<close>

lemma hypot_zero [simp]: "hypot x y = 0 \<longleftrightarrow> x = 0 \<and> y = 0"
  by (simp add: hypot_def sum_power2_eq_zero_iff)

lemma hypot_nonneg [simp]: "0 \<le> hypot x y"
  by (simp add: hypot_def)

text \<open>It is the orientation divided by the length of the line.\<close>

lemma signed_distance_orientation:
  "signed_distance p start fin = Inr v \<longleftrightarrow>
     start \<noteq> fin \<and> v = orientation start fin p / hypot (fst fin - fst start) (snd fin - snd start)"
  by (cases start; cases fin) (auto simp: signed_distance_def Let_def orientation_def)

subsection \<open>Balance of one track\<close>

fun sgn_dir :: "count_direction \<Rightarrow> int" where
  "sgn_dir IN = 1"
| "sgn_dir OUT = - 1"

text \<open>Net crossings, inward minus outward, of one track and of all tracks in a list of events.\<close>

definition net :: "int \<Rightarrow> count_event list \<Rightarrow> int" where
  "net tid es = sum_list (map (sgn_dir \<circ> ce_direction) (filter (\<lambda>e. ce_track_id e = tid) es))"

definition count_dir :: "count_direction \<Rightarrow> count_event list \<Rightarrow> int" where
  "count_dir d es = int (length (filter (\<lambda>e. ce_direction e = d) es))"

lemma net_simps [simp]:
  "net tid [] = 0"
  "net tid (xs @ ys) = net tid xs + net tid ys"
  "net tid [e] = (if ce_track_id e = tid then sgn_dir (ce_direction e) else 0)"
  by (simp_all add: net_def)

lemma count_dir_simps [simp]:
  "count_dir d [] = 0"
  "count_dir d (xs @ ys) = count_dir d xs + count_dir d ys"
  "count_dir d [e] = (if ce_direction e = d then 1 else 0)"
  by (simp_all add: count_dir_def)

definition sides_ok :: "people_counter \<Rightarrow> bool" where
  "sides_ok c \<longleftrightarrow> dict_ok (pc_track_states c)
     \<and> (\<forall>tid st. map_of (pc_track_states c) tid = Some st \<longrightarrow> ts_stable_side st \<in> {1, - 1})"

definition side_of :: "people_counter \<Rightarrow> int \<Rightarrow> int option" where
  "side_of c tid = map_option ts_stable_side (map_of (pc_track_states c) tid)"

lemma pc_init_ok [inv_intros]: "pc_init l h s = Inr c \<Longrightarrow> sides_ok c"
  by (auto simp: pc_init_def sides_ok_def split: if_splits)

text \<open>
  The ledger of a piece of execution: the events \<open>new\<close> lead from \<open>c\<close> to \<open>c'\<close> and both counters
  grew by the events of their direction.
\<close>

definition ledger :: "people_counter \<Rightarrow> count_event list \<Rightarrow> people_counter \<Rightarrow> bool" where
  "ledger c new c' \<longleftrightarrow> sides_ok c'
   \<and> pc_count_in c' = pc_count_in c + count_dir IN new
   \<and> pc_count_out c' = pc_count_out c + count_dir OUT new"

lemma sides_ok_cases: "sides_ok c \<Longrightarrow> side_of c tid = None \<or> side_of c tid = Some 1 \<or> side_of c tid = Some (- 1)"
  by (auto simp: sides_ok_def side_of_def)

lemma ledger_refl [simp]: "sides_ok c \<Longrightarrow> ledger c [] c"
  by (simp add: ledger_def)

lemma ledger_trans: "ledger c xs c1 \<Longrightarrow> ledger c1 ys c2 \<Longrightarrow> ledger c (xs @ ys) c2"
  by (auto simp: ledger_def)

text \<open>
  The walk of one person, told without the counter: the sides of the line it was seen on, beyond
  the hysteresis distance, one after the other; \<open>changes\<close> are the crossings this walk contains.
\<close>

fun outside :: "real \<Rightarrow> py_error + real \<Rightarrow> int list" where
  "outside h (Inl _) = []"
| "outside h (Inr v) = (if \<bar>v\<bar> \<le> h then [] else if v > 0 then [1] else [- 1])"

definition sides_in ::
  "counting_line \<Rightarrow> real \<Rightarrow> int \<Rightarrow> tracked_object list \<times> (int \<times> int) \<times> time \<Rightarrow> int list" where
  "sides_in line h tid f =
     (case f of (tracked, shape, now) \<Rightarrow>
        concat (map (\<lambda>i. outside h (signed_distance (centroid (trk_bbox i))
                             (fst (pixel_line line shape)) (snd (pixel_line line shape))))
          (filter (\<lambda>i. trk_class_id i = 0 \<and> trk_track_id i = tid) tracked)))"

definition sides_seen ::
  "counting_line \<Rightarrow> real \<Rightarrow> int \<Rightarrow> (tracked_object list \<times> (int \<times> int) \<times> time) list \<Rightarrow> int list" where
  "sides_seen line h tid frames = concat (map (sides_in line h tid) frames)"

fun changes :: "int list \<Rightarrow> count_direction list" where
  "changes (a # b # ss) = (if a = b then [] else if a < b then [IN] else [OUT]) @ changes (b # ss)"
| "changes ss = []"

text \<open>The walk as the counter meets it, from the side it remembers.\<close>

definition onto :: "int option \<Rightarrow> int list \<Rightarrow> count_direction list \<times> int option" where
  "onto before ss =
     (case before of
        None \<Rightarrow> (changes ss, if ss = [] then None else Some (last ss))
      | Some s \<Rightarrow> (changes (s # ss), Some (last (s # ss))))"

definition dirs :: "int \<Rightarrow> count_event list \<Rightarrow> count_direction list" where
  "dirs tid es = map ce_direction (filter (\<lambda>e. ce_track_id e = tid) es)"

lemma dirs_simps [simp]:
  "dirs tid [] = []"
  "dirs tid (xs @ ys) = dirs tid xs @ dirs tid ys"
  "dirs tid [e] = (if ce_track_id e = tid then [ce_direction e] else [])"
  by (simp_all add: dirs_def)

lemma net_dirs: "net tid es = sum_list (map sgn_dir (dirs tid es))"
  by (simp add: net_def dirs_def)

lemma changes_append: "changes (ss @ s # ts) = changes (ss @ [s]) @ changes (s # ts)"
  by (induction ss rule: changes.induct) auto

lemma onto_Nil [simp]: "onto b [] = ([], b)"
  by (simp add: onto_def split: option.splits)

lemma onto_one [simp]:
  "onto None [s] = ([], Some s)"
  "onto (Some r) [s] = ((if r = s then [] else if r < s then [IN] else [OUT]), Some s)"
  by (simp_all add: onto_def)

lemma onto_append: "onto b (xs @ ys) = (fst (onto b xs) @ fst (onto (snd (onto b xs)) ys), snd (onto (snd (onto b xs)) ys))"
proof (cases xs rule: rev_cases)
  case (snoc us u)
  then show ?thesis
    using changes_append [of us u ys] changes_append [of "the b # us" u ys]
    by (auto simp: onto_def split: option.splits)
qed simp

text \<open>Over two sides, the crossings of a walk add up to the way from its first side to its last.\<close>

lemma changes_net:
  "set (s # ss) \<subseteq> {1, - 1} \<Longrightarrow> 2 * sum_list (map sgn_dir (changes (s # ss))) = last (s # ss) - s"
  by (induction ss arbitrary: s) auto

lemma sides_seen_sides: "set (sides_seen line h tid frames) \<subseteq> {1, - 1}"
proof -
  have "set (outside h v) \<subseteq> {1, - 1}" for v by (cases "(h, v)" rule: outside.cases) auto
  then show ?thesis by (auto simp: sides_seen_def sides_in_def)
qed

text \<open>A crossing step, seen through the sides only.\<close>

lemma pc_crossing_cases:
  assumes "sides_ok c"
  obtains (band) "\<bar>v\<bar> \<le> pc_hysteresis c" "fst (pc_crossing now item v (es, c)) = es"
      "pc_count_in (snd (pc_crossing now item v (es, c))) = pc_count_in c"
      "pc_count_out (snd (pc_crossing now item v (es, c))) = pc_count_out c"
      "\<And>tid. side_of (snd (pc_crossing now item v (es, c))) tid = side_of c tid"
    | (first) side where "\<bar>v\<bar> > pc_hysteresis c" "side = (if v > 0 then 1 else - 1)"
      "side_of c (trk_track_id item) \<in> {None, Some side}" "fst (pc_crossing now item v (es, c)) = es"
      "pc_count_in (snd (pc_crossing now item v (es, c))) = pc_count_in c"
      "pc_count_out (snd (pc_crossing now item v (es, c))) = pc_count_out c"
      "\<And>tid. side_of (snd (pc_crossing now item v (es, c))) tid =
        (if tid = trk_track_id item then Some side else side_of c tid)"
    | (cross) side where "\<bar>v\<bar> > pc_hysteresis c" "side = (if v > 0 then 1 else - 1)"
      "side_of c (trk_track_id item) = Some (- side)"
      "fst (pc_crossing now item v (es, c)) =
        es @ [\<lparr>ce_track_id = trk_track_id item, ce_direction = (if side = 1 then IN else OUT), ce_timestamp = now\<rparr>]"
      "pc_count_in (snd (pc_crossing now item v (es, c))) = pc_count_in c + (if side = 1 then 1 else 0)"
      "pc_count_out (snd (pc_crossing now item v (es, c))) = pc_count_out c + (if side = 1 then 0 else 1)"
      "\<And>tid. side_of (snd (pc_crossing now item v (es, c))) tid =
        (if tid = trk_track_id item then Some side else side_of c tid)"
proof (cases "\<bar>v\<bar> \<le> pc_hysteresis c")
  case True
  then show ?thesis
    by (intro band) (auto simp: pc_crossing_def side_of_def Let_def split: option.splits)
next
  case False
  define side :: int where "side = (if v > 0 then 1 else - 1)"
  show ?thesis
  proof (cases "side_of c (trk_track_id item) \<in> {None, Some side}")
    case True
    with False show ?thesis
      by (intro first [of side])
        (cases "v > 0"; auto simp: pc_crossing_def side_of_def side_def Let_def split: option.splits)+
  next
    case other: False
    then have "side_of c (trk_track_id item) = Some (- side)"
      using sides_ok_cases [OF assms, of "trk_track_id item"] by (auto simp: side_def)
    then obtain st where st: "map_of (pc_track_states c) (trk_track_id item) = Some st" "ts_stable_side st = - side"
      by (auto simp: side_of_def)
    from False show ?thesis
      by (intro cross [of side]) (auto simp: pc_crossing_def side_of_def side_def Let_def st)
  qed
qed

lemma pc_crossing_frame [simp]:
  "pc_frame_index (snd (pc_crossing now item v acc)) = pc_frame_index (snd acc)"
  "pc_hysteresis (snd (pc_crossing now item v acc)) = pc_hysteresis (snd acc)"
  "pc_stale_after (snd (pc_crossing now item v acc)) = pc_stale_after (snd acc)"
  "pc_line (snd (pc_crossing now item v acc)) = pc_line (snd acc)"
  by (auto simp: pc_crossing_def Let_def split: prod.splits option.splits)

lemma pc_crossing_sides: "sides_ok c \<Longrightarrow> sides_ok (snd (pc_crossing now item v (es, c)))"
  by (auto simp: pc_crossing_def Let_def sides_ok_def split: option.splits if_splits)

lemma pc_crossing_ledger:
  assumes "sides_ok c"
  shows "\<exists>new. fst (pc_crossing now item v (es, c)) = es @ new
    \<and> ledger c new (snd (pc_crossing now item v (es, c)))"
  using pc_crossing_sides [OF assms, of now item v es]
  by (cases rule: pc_crossing_cases [OF assms, of v now item es]; simp add: ledger_def)

lemma pc_crossing_onto:
  fixes item v c
  defines "ss tid \<equiv> if trk_track_id item = tid then outside (pc_hysteresis c) (Inr v) else []"
  assumes "sides_ok c"
  shows "dirs tid (fst (pc_crossing now item v (es, c))) = dirs tid es @ fst (onto (side_of c tid) (ss tid))
    \<and> side_of (snd (pc_crossing now item v (es, c))) tid = snd (onto (side_of c tid) (ss tid))"
  by (cases rule: pc_crossing_cases [OF assms(2), of v now item es])
    (auto simp: ss_def split: if_splits)

text \<open>The state entry of a track is refreshed by every frame that shows it as a person.\<close>

definition seen_at :: "people_counter \<Rightarrow> int \<Rightarrow> int option" where
  "seen_at c tid = map_option ts_last_seen_frame (map_of (pc_track_states c) tid)"

lemma pc_crossing_seen:
  "seen_at (snd (pc_crossing now item v (es, c))) tid =
     (if tid = trk_track_id item \<and> (seen_at c tid \<noteq> None \<or> \<bar>v\<bar> > pc_hysteresis c)
      then Some (pc_frame_index c) else seen_at c tid)"
  by (auto simp: pc_crossing_def seen_at_def Let_def split: option.splits)

text \<open>
  The loop. Whether \<open>signed_distance\<close> raises depends on the line alone, so the loop raises
  at its first person or not at all.
\<close>

lemma pc_loop_degenerate:
  "start = fin \<Longrightarrow> pc_loop start fin now items acc =
     (if \<exists>i \<in> set items. trk_class_id i = 0
      then (Some (ValueError ''counting line endpoints must differ''), acc) else (None, acc))"
  by (induction items) (auto simp: signed_distance_def Let_def)

definition pc_fold ::
  "point \<Rightarrow> point \<Rightarrow> time \<Rightarrow> tracked_object list \<Rightarrow> count_event list \<times> people_counter
    \<Rightarrow> count_event list \<times> people_counter" where
  "pc_fold start fin now items acc =
     foldl (\<lambda>acc i. pc_crossing now i
         (orientation start fin (centroid (trk_bbox i)) / hypot (fst fin - fst start) (snd fin - snd start)) acc)
       acc (filter (\<lambda>i. trk_class_id i = 0) items)"

lemma signed_distance_ne:
  "start \<noteq> fin \<Longrightarrow> signed_distance p start fin =
     Inr (orientation start fin p / hypot (fst fin - fst start) (snd fin - snd start))"
  by (simp add: signed_distance_orientation)

lemma pc_loop_fold:
  "start \<noteq> fin \<Longrightarrow> pc_loop start fin now items acc = (None, pc_fold start fin now items acc)"
  by (induction items arbitrary: acc) (auto simp: pc_fold_def signed_distance_ne)

lemma pc_fold_Cons:
  "pc_fold start fin now (i # is) acc =
     (if trk_class_id i = 0
      then pc_fold start fin now is (pc_crossing now i
         (orientation start fin (centroid (trk_bbox i)) / hypot (fst fin - fst start) (snd fin - snd start)) acc)
      else pc_fold start fin now is acc)"
  by (simp add: pc_fold_def)

lemma pc_fold_frame [simp]:
  "pc_frame_index (snd (pc_fold start fin now items acc)) = pc_frame_index (snd acc)"
  "pc_hysteresis (snd (pc_fold start fin now items acc)) = pc_hysteresis (snd acc)"
  "pc_stale_after (snd (pc_fold start fin now items acc)) = pc_stale_after (snd acc)"
  "pc_line (snd (pc_fold start fin now items acc)) = pc_line (snd acc)"
  by (induction items arbitrary: acc) (simp_all add: pc_fold_def pc_fold_Cons)

lemma pc_fold_ledger:
  "sides_ok c \<Longrightarrow> \<exists>new. fst (pc_fold start fin now items (es, c)) = es @ new
     \<and> ledger c new (snd (pc_fold start fin now items (es, c)))"
proof (induction items arbitrary: es c)
  case Nil
  then show ?case by (simp add: pc_fold_def)
next
  case (Cons i items)
  let ?v = "orientation start fin (centroid (trk_bbox i)) / hypot (fst fin - fst start) (snd fin - snd start)"
  obtain es1 c1 where cr: "pc_crossing now i ?v (es, c) = (es1, c1)" by fastforce
  from pc_crossing_ledger [OF Cons.prems, of now i ?v es] cr obtain n1 where
    n1: "es1 = es @ n1" "ledger c n1 c1" by auto
  then have "sides_ok c1" by (simp add: ledger_def)
  from Cons.IH [OF this, of es1] obtain n2 where
    "fst (pc_fold start fin now items (es1, c1)) = es1 @ n2"
    "ledger c1 n2 (snd (pc_fold start fin now items (es1, c1)))" by blast
  with n1 have "trk_class_id i = 0 \<Longrightarrow> ?case"
    using ledger_trans by (auto simp: pc_fold_Cons cr)
  moreover have "trk_class_id i \<noteq> 0 \<Longrightarrow> ?case"
    using Cons.IH [OF Cons.prems, of es] by (simp add: pc_fold_Cons)
  ultimately show ?case by blast
qed

lemma pc_fold_onto:
  assumes "start \<noteq> fin"
  defines "ss h tid items \<equiv> concat (map (\<lambda>i. outside h (signed_distance (centroid (trk_bbox i)) start fin))
      (filter (\<lambda>i. trk_class_id i = 0 \<and> trk_track_id i = tid) items))"
  shows "sides_ok c \<Longrightarrow>
      dirs tid (fst (pc_fold start fin now items (es, c)))
        = dirs tid es @ fst (onto (side_of c tid) (ss (pc_hysteresis c) tid items))
    \<and> side_of (snd (pc_fold start fin now items (es, c))) tid
        = snd (onto (side_of c tid) (ss (pc_hysteresis c) tid items))"
proof (induction items arbitrary: es c)
  case Nil
  then show ?case by (simp add: pc_fold_def ss_def)
next
  case (Cons i items)
  let ?v = "orientation start fin (centroid (trk_bbox i)) / hypot (fst fin - fst start) (snd fin - snd start)"
  obtain es1 c1 where cr: "pc_crossing now i ?v (es, c) = (es1, c1)" by fastforce
  from pc_crossing_frame [of now i ?v "(es, c)"] pc_crossing_sides [OF Cons.prems, of now i ?v es] cr
  have c1: "pc_hysteresis c1 = pc_hysteresis c" "sides_ok c1" by simp_all
  from pc_crossing_onto [OF Cons.prems, of tid now i ?v es] cr
  have one: "dirs tid es1 = dirs tid es @ fst (onto (side_of c tid)
        (if trk_track_id i = tid then outside (pc_hysteresis c) (Inr ?v) else []))"
    "side_of c1 tid = snd (onto (side_of c tid)
        (if trk_track_id i = tid then outside (pc_hysteresis c) (Inr ?v) else []))"
    by simp_all
  show ?case
  proof (cases "trk_class_id i = 0")
    case True
    then have "ss h tid (i # items) = (if trk_track_id i = tid then outside h (Inr ?v) else []) @ ss h tid items"
      for h using assms(1) by (simp add: ss_def signed_distance_ne)
    then show ?thesis
      using True cr c1 one Cons.IH [of c1 es1] by (simp add: pc_fold_Cons onto_append del: outside.simps)
  next
    case False
    then show ?thesis using Cons.IH [OF Cons.prems] by (simp add: pc_fold_Cons ss_def)
  qed
qed

definition person_ids :: "tracked_object list \<Rightarrow> int set" where
  "person_ids items = trk_track_id ` {i \<in> set items. trk_class_id i = 0}"

lemma person_ids_Cons [simp]:
  "person_ids (i # is) = (if trk_class_id i = 0 then {trk_track_id i} else {}) \<union> person_ids is"
  by (auto simp: person_ids_def)

lemma pc_fold_seen:
  "seen_at (snd (pc_fold start fin now items acc)) tid = Some (pc_frame_index (snd acc))
   \<or> seen_at (snd (pc_fold start fin now items acc)) tid = seen_at (snd acc) tid
     \<and> (seen_at (snd acc) tid \<noteq> None \<longrightarrow> tid \<notin> person_ids items)"
proof (induction items arbitrary: acc)
  case Nil
  then show ?case by (simp add: pc_fold_def person_ids_def)
next
  case (Cons i items)
  let ?v = "orientation start fin (centroid (trk_bbox i)) / hypot (fst fin - fst start) (snd fin - snd start)"
  let ?acc = "pc_crossing now i ?v acc"
  have seen: "seen_at (snd ?acc) tid =
     (if tid = trk_track_id i \<and> (seen_at (snd acc) tid \<noteq> None \<or> \<bar>?v\<bar> > pc_hysteresis (snd acc))
      then Some (pc_frame_index (snd acc)) else seen_at (snd acc) tid)"
    using pc_crossing_seen [of now i ?v "fst acc" "snd acc" tid] by simp
  show ?case
  proof (cases "trk_class_id i = 0")
    case True
    have "seen_at (snd (pc_fold start fin now items ?acc)) tid = Some (pc_frame_index (snd acc))
      \<or> seen_at (snd (pc_fold start fin now items ?acc)) tid = seen_at (snd ?acc) tid
       \<and> (seen_at (snd ?acc) tid \<noteq> None \<longrightarrow> tid \<notin> person_ids items)"
      using Cons.IH [of ?acc] by simp
    with True seen show ?thesis by (auto simp: pc_fold_Cons split: if_splits)
  next
    case False
    with Cons.IH [of acc] show ?thesis by (simp add: pc_fold_Cons)
  qed
qed

subsection \<open>One update and runs\<close>

text \<open>An update is a loop over the persons, then the expiry of what was not seen.\<close>

lemma pc_update_cases:
  assumes "pc_update c tracked shape now = (res, c')"
  defines "c0 \<equiv> c\<lparr>pc_frame_index := pc_frame_index c + 1\<rparr>"
  obtains (noline) "pc_line c = None" "c' = c0"
      "res = Inr \<lparr>cu_count_in = pc_count_in c, cu_count_out = pc_count_out c, cu_events = []\<rparr>"
    | (degenerate) e where "res = Inl e" "c' = c0"
    | (counted) line start fin events c1 where "pc_line c = Some line" "pixel_line line shape = (start, fin)"
      "pc_fold start fin now tracked ([], c0) = (events, c1)"
      "c' = snd (pc_cleanup c1 None)"
      "res = Inr \<lparr>cu_count_in = pc_count_in c', cu_count_out = pc_count_out c', cu_events = events\<rparr>"
proof (cases "pc_line c")
  case None
  with assms(1) noline show ?thesis by (simp add: pc_update_def c0_def Let_def)
next
  case (Some line)
  obtain start fin where sf: "pixel_line line shape = (start, fin)"
    by (cases "pixel_line line shape")
  show ?thesis
  proof (cases "start = fin \<and> (\<exists>i \<in> set tracked. trk_class_id i = 0)")
    case True
    with assms(1) Some sf degenerate show ?thesis
      by (auto simp: pc_update_def c0_def Let_def pc_loop_degenerate)
  next
    case False
    have "pc_loop start fin now tracked ([], c0) = (None, pc_fold start fin now tracked ([], c0))"
    proof (cases "start = fin")
      case True
      with False have "filter (\<lambda>i. trk_class_id i = 0) tracked = []" by (auto simp: filter_empty_conv)
      with True False show ?thesis by (simp add: pc_loop_degenerate pc_fold_def)
    qed (rule pc_loop_fold)
    moreover obtain events c1 where "pc_fold start fin now tracked ([], c0) = (events, c1)" by fastforce
    ultimately show ?thesis
      using assms(1) Some sf counted [of line start fin events c1]
      by (auto simp: pc_update_def c0_def Let_def)
  qed
qed

definition update_events :: "py_error + count_update \<Rightarrow> count_event list" where
  "update_events r = (case r of Inl _ \<Rightarrow> [] | Inr u \<Rightarrow> cu_events u)"

fun pc_run :: "people_counter \<Rightarrow> (tracked_object list \<times> (int \<times> int) \<times> time) list
    \<Rightarrow> count_event list \<times> people_counter" where
  "pc_run c [] = ([], c)"
| "pc_run c ((tracked, shape, now) # fs) =
     (let (r, c1) = pc_update c tracked shape now; (es, c2) = pc_run c1 fs
      in (update_events r @ es, c2))"

lemma pc_cleanup_frame [simp]:
  "pc_count_in (snd (pc_cleanup c a)) = pc_count_in c"
  "pc_count_out (snd (pc_cleanup c a)) = pc_count_out c"
  "pc_frame_index (snd (pc_cleanup c a)) = pc_frame_index c"
  "pc_stale_after (snd (pc_cleanup c a)) = pc_stale_after c"
  "pc_hysteresis (snd (pc_cleanup c a)) = pc_hysteresis c"
  "pc_line (snd (pc_cleanup c a)) = pc_line c"
  by (simp_all add: pc_cleanup_def)

lemma pc_cleanup_lookup:
  "sides_ok c \<Longrightarrow> map_of (pc_track_states (snd (pc_cleanup c None))) tid =
     (case map_of (pc_track_states c) tid of None \<Rightarrow> None
      | Some st \<Rightarrow> if pc_frame_index c - ts_last_seen_frame st > pc_stale_after c then None else Some st)"
  using map_of_filter_dict [of "pc_track_states c" "\<lambda>k v. \<not> pc_is_stale c None (k, v)" tid]
  by (auto simp: pc_cleanup_def case_prod_unfold sides_ok_def pc_is_stale_def split: option.splits if_splits)

lemma pc_cleanup_ok [inv_intros]: "sides_ok c \<Longrightarrow> sides_ok (snd (pc_cleanup c None))"
  using pc_cleanup_lookup [of c] dict_ok_filter
  by (fastforce simp: sides_ok_def pc_cleanup_def split: option.splits if_splits)

text \<open>Counts are the totals of the events, in every run.\<close>

lemma pc_update_counts:
  assumes "sides_ok c" "pc_update c tracked shape now = (r, c')"
  shows "sides_ok c' \<and> pc_count_in c' = pc_count_in c + count_dir IN (update_events r)
    \<and> pc_count_out c' = pc_count_out c + count_dir OUT (update_events r)"
proof -
  let ?c0 = "c\<lparr>pc_frame_index := pc_frame_index c + 1\<rparr>"
  have c0: "sides_ok ?c0" using assms(1) by (simp add: sides_ok_def)
  from assms(2) show ?thesis
  proof (cases rule: pc_update_cases)
    case (counted line start fin events c1)
    with pc_fold_ledger [OF c0, of start fin now tracked "[]"] have "ledger ?c0 events c1" by auto
    then show ?thesis using counted by (auto simp: update_events_def ledger_def pc_cleanup_ok)
  qed (use c0 in \<open>auto simp: update_events_def\<close>)
qed

lemma pc_run_counts:
  "sides_ok c \<Longrightarrow> pc_count_in (snd (pc_run c fs)) = pc_count_in c + count_dir IN (fst (pc_run c fs))
    \<and> pc_count_out (snd (pc_run c fs)) = pc_count_out c + count_dir OUT (fst (pc_run c fs))"
proof (induction fs arbitrary: c)
  case Nil
  then show ?case by simp
next
  case (Cons f fs)
  obtain tracked shape now where f: "f = (tracked, shape, now)" by (cases f)
  obtain r c1 where u: "pc_update c tracked shape now = (r, c1)" by fastforce
  from pc_update_counts [OF Cons.prems u] Cons.IH [of c1] show ?case
    by (simp add: f u Let_def case_prod_unfold)
qed

lemma pc_run_sides: "sides_ok c \<Longrightarrow> sides_ok (snd (pc_run c fs))"
proof (induction fs arbitrary: c)
  case Nil
  then show ?case by simp
next
  case (Cons f fs)
  obtain tracked shape now where f: "f = (tracked, shape, now)" by (cases f)
  obtain r c1 where u: "pc_update c tracked shape now = (r, c1)" by fastforce
  from pc_update_counts [OF Cons.prems u] Cons.IH [of c1] show ?case
    by (simp add: f u Let_def case_prod_unfold)
qed

text \<open>
  \<open>followed\<close>: the track is shown as a person at least once in every \<open>stale\<close> frames, \<open>g\<close> being
  the frames since it was last shown.
\<close>

fun followed :: "int \<Rightarrow> int \<Rightarrow> int \<Rightarrow> (tracked_object list \<times> (int \<times> int) \<times> time) list \<Rightarrow> bool" where
  "followed tid stale g [] = True"
| "followed tid stale g ((tracked, _, _) # fs) =
     (if tid \<in> person_ids tracked then followed tid stale 0 fs
      else g + 1 \<le> stale \<and> followed tid stale (g + 1) fs)"

definition fresh_enough :: "people_counter \<Rightarrow> int \<Rightarrow> int \<Rightarrow> bool" where
  "fresh_enough c tid g \<longleftrightarrow> (\<forall>f. seen_at c tid = Some f \<longrightarrow> pc_frame_index c - f \<le> g)"

lemma side_frame_index: "side_of (c\<lparr>pc_frame_index := n\<rparr>) tid = side_of c tid"
  "seen_at (c\<lparr>pc_frame_index := n\<rparr>) tid = seen_at c tid"
  by (simp_all add: side_of_def seen_at_def)

text \<open>The line has two ends in every frame, so no update raises.\<close>

definition visible :: "counting_line \<Rightarrow> tracked_object list \<times> (int \<times> int) \<times> time \<Rightarrow> bool" where
  "visible line f \<longleftrightarrow> (case f of (_, shape, _) \<Rightarrow> fst (pixel_line line shape) \<noteq> snd (pixel_line line shape))"

lemma pc_update_onto:
  assumes ok: "sides_ok c" and u: "pc_update c tracked shape now = (r, c')"
    and line: "pc_line c = Some line" "visible line (tracked, shape, now)"
    and fresh: "fresh_enough c tid g" and g: "0 \<le> pc_stale_after c"
    and seen: "tid \<in> person_ids tracked \<or> g + 1 \<le> pc_stale_after c" and gpos: "0 \<le> g"
  defines "ss \<equiv> sides_in line (pc_hysteresis c) tid (tracked, shape, now)"
  shows "dirs tid (update_events r) = fst (onto (side_of c tid) ss)
    \<and> side_of c' tid = snd (onto (side_of c tid) ss)
    \<and> fresh_enough c' tid (if tid \<in> person_ids tracked then 0 else g + 1)
    \<and> pc_stale_after c' = pc_stale_after c \<and> pc_line c' = pc_line c \<and> pc_hysteresis c' = pc_hysteresis c"
proof -
  let ?c0 = "c\<lparr>pc_frame_index := pc_frame_index c + 1\<rparr>"
  have c0: "sides_ok ?c0" using ok by (simp add: sides_ok_def)
  obtain start fin where sf: "pixel_line line shape = (start, fin)" by (cases "pixel_line line shape")
  with line(2) have ne: "start \<noteq> fin" by (simp add: visible_def)
  obtain events c1 where fold: "pc_fold start fin now tracked ([], ?c0) = (events, c1)" by force
  have c': "c' = snd (pc_cleanup c1 None)" and r: "update_events r = events"
    using u line(1) sf fold pc_loop_fold [OF ne, of now tracked "([], ?c0)"]
    by (auto simp: pc_update_def Let_def update_events_def)
  have idx: "pc_frame_index c1 = pc_frame_index c + 1" "pc_stale_after c1 = pc_stale_after c"
    "pc_line c1 = pc_line c" "pc_hysteresis c1 = pc_hysteresis c"
    using pc_fold_frame [of start fin now tracked "([], ?c0)"] fold by simp_all
  have ok1: "sides_ok c1"
    using pc_fold_ledger [OF c0, of start fin now tracked "[]"] fold by (auto simp: ledger_def)
  have on: "dirs tid events = fst (onto (side_of c tid) ss)" "side_of c1 tid = snd (onto (side_of c tid) ss)"
    using pc_fold_onto [OF ne c0, of tid now tracked "[]"] fold sf
    by (simp_all add: ss_def sides_in_def side_frame_index)
  have s1: "seen_at c1 tid = Some (pc_frame_index c + 1)
      \<or> seen_at c1 tid = seen_at c tid \<and> (seen_at c tid \<noteq> None \<longrightarrow> tid \<notin> person_ids tracked)"
    using pc_fold_seen [of start fin now tracked "([], ?c0)" tid] fold by (simp add: side_frame_index)
  define gap where "gap = (if tid \<in> person_ids tracked then 0 else g + 1)"
  have f1: "pc_frame_index c + 1 - f \<le> gap \<and> pc_frame_index c + 1 - f \<le> pc_stale_after c"
    if f: "seen_at c1 tid = Some f" for f
  proof (cases "f = pc_frame_index c + 1")
    case True
    have "0 \<le> gap" using gpos by (simp add: gap_def)
    with True g show ?thesis by simp
  next
    case False
    with s1 f have old: "seen_at c tid = Some f" and out: "tid \<notin> person_ids tracked" by auto
    from old fresh have "pc_frame_index c - f \<le> g" by (simp add: fresh_enough_def)
    with out seen show ?thesis by (simp add: gap_def)
  qed
  have kept: "map_of (pc_track_states c') tid = map_of (pc_track_states c1) tid"
    using pc_cleanup_lookup [of c1 tid] ok1 f1 c'
    by (auto simp: idx seen_at_def split: option.splits)
  have "side_of c' tid = side_of c1 tid" "seen_at c' tid = seen_at c1 tid"
    by (simp_all add: side_of_def seen_at_def kept)
  then show ?thesis
    using on f1 idx by (auto simp: r c' fresh_enough_def gap_def)
qed

lemma pc_run_onto:
  assumes "sides_ok c" "pc_line c = Some line" "list_all (visible line) fs" "0 \<le> pc_stale_after c"
    "followed tid (pc_stale_after c) g fs" "fresh_enough c tid g" "0 \<le> g"
  shows "dirs tid (fst (pc_run c fs)) = fst (onto (side_of c tid) (sides_seen line (pc_hysteresis c) tid fs))"
  using assms
proof (induction fs arbitrary: c g)
  case Nil
  then show ?case by (simp add: sides_seen_def)
next
  case (Cons f fs)
  obtain tracked shape now where f: "f = (tracked, shape, now)" by (cases f)
  obtain r c1 where u: "pc_update c tracked shape now = (r, c1)" by fastforce
  have vis: "visible line (tracked, shape, now)" and rest: "list_all (visible line) fs"
    using Cons.prems(3) by (simp_all add: f)
  define g' where "g' = (if tid \<in> person_ids tracked then 0 else g + 1)"
  have seen: "tid \<in> person_ids tracked \<or> g + 1 \<le> pc_stale_after c"
    and fol: "followed tid (pc_stale_after c) g' fs" and g': "0 \<le> g'"
    using Cons.prems(5,7) by (auto simp: f g'_def split: if_splits)
  note now = pc_update_onto [OF Cons.prems(1) u Cons.prems(2) vis Cons.prems(6,4) seen Cons.prems(7), folded g'_def]
  have "dirs tid (fst (pc_run c1 fs)) = fst (onto (side_of c1 tid) (sides_seen line (pc_hysteresis c1) tid fs))"
    by (rule Cons.IH) (use now pc_update_counts [OF Cons.prems(1) u] rest fol g' Cons.prems(2,4) in auto)
  with now show ?case by (simp add: f u Let_def case_prod_unfold sides_seen_def onto_append)
qed

subsection \<open>Properties\<close>

text \<open>
  C38. A person followed from a fresh counter without a gap longer than the stale limit is reported
  crossing exactly when it changes sides: the directions of its events are, in order, the changes
  between the sides of the line its centroid was seen on beyond the hysteresis distance, whatever
  the other tracks do. So its entries minus exits lead from the side it was first seen on to the
  side it was last seen on.
\<close>

theorem people_count_conserved:
  assumes "pc_init (Some line) hysteresis stale = Inr c" "list_all (visible line) frames"
    and "followed tid stale 0 frames"
  shows "dirs tid (fst (pc_run c frames)) = changes (sides_seen line hysteresis tid frames)
    \<and> (case sides_seen line hysteresis tid frames of
         [] \<Rightarrow> net tid (fst (pc_run c frames)) = 0
       | s # ss \<Rightarrow> 2 * net tid (fst (pc_run c frames)) = last (s # ss) - s)"
proof -
  from assms(1) have c: "pc_line c = Some line" "0 \<le> pc_stale_after c" "pc_stale_after c = stale"
    "side_of c tid = None" "fresh_enough c tid 0" "pc_hysteresis c = hysteresis"
    by (auto simp: pc_init_def side_of_def fresh_enough_def seen_at_def split: if_splits)
  have d: "dirs tid (fst (pc_run c frames)) = changes (sides_seen line hysteresis tid frames)"
    using pc_run_onto [OF pc_init_ok [OF assms(1)] c(1) assms(2) c(2) _ c(5)] assms(3) c
    by (simp add: onto_def)
  moreover have "2 * net tid (fst (pc_run c frames)) = last (s # ss) - s"
    if "sides_seen line hysteresis tid frames = s # ss" for s ss
    using changes_net [of s ss] sides_seen_sides [of line hysteresis tid frames] that d
    by (simp add: net_dirs)
  ultimately show ?thesis by (auto simp: net_dirs split: list.splits)
qed

definition demo_line :: counting_line where
  "demo_line = \<lparr>line_start = (0, 10), line_end = (100, 10), line_normalized = False\<rparr>"

definition demo_person :: "real \<Rightarrow> tracked_object" where
  "demo_person y = \<lparr>trk_bbox = (0, y - 1, 2, y + 1), trk_track_id = 3, trk_class_id = 0,
     trk_class_name = ''person'', trk_confidence = 1\<rparr>"

definition demo_counter :: people_counter where
  "demo_counter = \<lparr>pc_line = Some demo_line, pc_hysteresis = 2, pc_stale_after = 30, pc_count_in = 0,
     pc_count_out = 0, pc_track_states = [], pc_frame_index = 0\<rparr>"

lemma demo_counter_init: "pc_init (Some demo_line) 2 30 = Inr demo_counter"
  by (simp add: pc_init_def demo_counter_def)

lemma hypot_axis [simp]: "hypot x 0 = \<bar>x\<bar>" "hypot 0 y = \<bar>y\<bar>"
  by (simp_all add: hypot_def)

lemmas pc_eval = pc_update_def pc_crossing_def pc_cleanup_def pc_is_stale_def pixel_line_def
  signed_distance_def demo_counter_def demo_line_def demo_person_def Let_def

definition demo_walk :: "(tracked_object list \<times> (int \<times> int) \<times> time) list" where
  "demo_walk = [([demo_person 5], (50, 50), 0), ([demo_person 11], (50, 50), 1), ([demo_person 15], (50, 50), 2)]"

theorem people_count_conserved_witness:
  "sides_seen demo_line 2 3 demo_walk = [- 1, 1]
   \<and> dirs 3 (fst (pc_run demo_counter demo_walk)) = [IN]
   \<and> 2 * net 3 (fst (pc_run demo_counter demo_walk)) = 2"
proof -
  have s: "sides_seen demo_line 2 3 demo_walk = [- 1, 1]"
    by (simp add: demo_walk_def pc_eval sides_seen_def sides_in_def)
  have "list_all (visible demo_line) demo_walk" "followed 3 30 0 demo_walk"
    by (simp_all add: demo_walk_def pc_eval person_ids_def visible_def)
  from people_count_conserved [OF demo_counter_init this] s show ?thesis by simp
qed

fun stays_above :: "people_counter \<Rightarrow> int \<Rightarrow> (tracked_object list \<times> (int \<times> int) \<times> time) list \<Rightarrow> bool" where
  "stays_above c tid [] = True"
| "stays_above c tid ((tracked, shape, _) # fs) =
     ((\<forall>i \<in> set tracked. \<forall>line v. trk_track_id i = tid \<longrightarrow> pc_line c = Some line \<longrightarrow>
         signed_distance (centroid (trk_bbox i)) (fst (pixel_line line shape)) (snd (pixel_line line shape)) = Inr v
         \<longrightarrow> - pc_hysteresis c \<le> v)
      \<and> stays_above c tid fs)"

definition never_negative :: "people_counter \<Rightarrow> int \<Rightarrow> bool" where
  "never_negative c tid \<longleftrightarrow> side_of c tid \<in> {None, Some 1}"

definition no_events :: "int \<Rightarrow> count_event list \<Rightarrow> bool" where
  "no_events tid es \<longleftrightarrow> (\<forall>e \<in> set es. ce_track_id e \<noteq> tid)"

lemma pc_crossing_above:
  assumes "sides_ok c" "never_negative c tid" "trk_track_id i = tid \<Longrightarrow> - pc_hysteresis c \<le> v" "no_events tid es"
  shows "never_negative (snd (pc_crossing now i v (es, c))) tid
    \<and> no_events tid (fst (pc_crossing now i v (es, c)))"
  by (rule pc_crossing_cases [OF assms(1), of v now i es])
    (use assms(2-4) in \<open>auto simp: never_negative_def no_events_def split: if_splits\<close>)

lemma pc_fold_above:
  assumes "sides_ok c" "never_negative c tid" "no_events tid es" "start \<noteq> fin"
    and "\<forall>i \<in> set items. \<forall>v. trk_track_id i = tid \<longrightarrow>
      signed_distance (centroid (trk_bbox i)) start fin = Inr v \<longrightarrow> - pc_hysteresis c \<le> v"
  shows "never_negative (snd (pc_fold start fin now items (es, c))) tid
    \<and> no_events tid (fst (pc_fold start fin now items (es, c)))"
  using assms
proof (induction items arbitrary: es c)
  case Nil
  then show ?case by (simp add: pc_fold_def)
next
  case (Cons i items)
  let ?v = "orientation start fin (centroid (trk_bbox i)) / hypot (fst fin - fst start) (snd fin - snd start)"
  obtain es1 c1 where cr: "pc_crossing now i ?v (es, c) = (es1, c1)" by fastforce
  show ?case
  proof (cases "trk_class_id i = 0")
    case True
    have v: "trk_track_id i = tid \<Longrightarrow> - pc_hysteresis c \<le> ?v"
      using Cons.prems(4,5) by (simp add: signed_distance_ne)
    from pc_crossing_above [OF Cons.prems(1,2) v Cons.prems(3), where i = i and now = now]
      pc_crossing_sides [OF Cons.prems(1), of now i ?v es] pc_crossing_frame [of now i ?v "(es, c)"] cr
    have "never_negative c1 tid" "no_events tid es1" "sides_ok c1" "pc_hysteresis c1 = pc_hysteresis c"
      by simp_all
    then show ?thesis using Cons.IH [of c1 es1] Cons.prems(4,5) True by (simp add: pc_fold_Cons cr)
  next
    case False
    then show ?thesis using Cons.IH [OF Cons.prems(1,2,3,4)] Cons.prems(5) by (simp add: pc_fold_Cons)
  qed
qed

lemma pc_update_frame:
  assumes "pc_update c tracked shape now = (r, c')"
  shows "pc_line c' = pc_line c \<and> pc_hysteresis c' = pc_hysteresis c"
  using assms
proof (cases rule: pc_update_cases)
  case (counted line start fin events c1)
  then show ?thesis
    using pc_fold_frame [of start fin now tracked "([], c\<lparr>pc_frame_index := pc_frame_index c + 1\<rparr>)"]
    by simp
qed auto

lemma pc_update_above:
  assumes "sides_ok c" "never_negative c tid" "pc_update c tracked shape now = (r, c')"
    and "stays_above c tid ((tracked, shape, now) # fs)"
  shows "never_negative c' tid \<and> no_events tid (update_events r)"
proof -
  let ?c0 = "c\<lparr>pc_frame_index := pc_frame_index c + 1\<rparr>"
  have c0: "sides_ok ?c0" "never_negative ?c0 tid"
    using assms(1,2) by (simp_all add: sides_ok_def never_negative_def side_frame_index)
  from assms(3) show ?thesis
  proof (cases rule: pc_update_cases)
    case (counted line start fin events c1)
    have nn: "never_negative c1 tid \<and> no_events tid events"
    proof (cases "start = fin")
      case True
      have "snd (pc_update c tracked shape now) = c'" using assms(3) by simp
      have "filter (\<lambda>i. trk_class_id i = 0) tracked = []"
      proof (rule ccontr)
        assume "filter (\<lambda>i. trk_class_id i = 0) tracked \<noteq> []"
        then have "\<exists>i \<in> set tracked. trk_class_id i = 0" by (auto simp: filter_empty_conv)
        with True counted assms(3) show False
          by (simp add: pc_update_def Let_def pc_loop_degenerate)
      qed
      then have "pc_fold start fin now tracked ([], ?c0) = ([], ?c0)" by (simp add: pc_fold_def)
      with counted c0 show ?thesis by (simp add: no_events_def)
    next
      case False
      then show ?thesis
        using pc_fold_above [OF c0, of "[]" start fin tracked now] assms(4) counted
        by (simp add: no_events_def)
    qed
    have "sides_ok c1" using pc_fold_ledger [OF c0(1), of start fin now tracked "[]"] counted
      by (auto simp: ledger_def)
    then show ?thesis
      using nn counted pc_cleanup_lookup [of c1 tid]
      by (auto simp: update_events_def never_negative_def side_of_def split: option.splits)
  qed (use c0 in \<open>auto simp: update_events_def no_events_def\<close>)
qed

lemma stays_above_cong:
  "pc_line c' = pc_line c \<Longrightarrow> pc_hysteresis c' = pc_hysteresis c \<Longrightarrow> stays_above c' tid fs = stays_above c tid fs"
  by (induction c tid fs rule: stays_above.induct) auto

lemma pc_run_above:
  "sides_ok c \<Longrightarrow> never_negative c tid \<Longrightarrow> stays_above c tid fs \<Longrightarrow> no_events tid (fst (pc_run c fs))"
proof (induction fs arbitrary: c)
  case Nil
  then show ?case by (simp add: no_events_def)
next
  case (Cons f fs)
  obtain tracked shape now where f: "f = (tracked, shape, now)" by (cases f)
  obtain r c1 where u: "pc_update c tracked shape now = (r, c1)" by fastforce
  from pc_update_above [OF Cons.prems(1,2) u] Cons.prems(3) f
  have "never_negative c1 tid" "no_events tid (update_events r)" by auto
  moreover have "no_events tid (fst (pc_run c1 fs))"
    using Cons.IH [of c1] pc_update_counts [OF Cons.prems(1) u] \<open>never_negative c1 tid\<close>
      stays_above_cong [of c1 c tid fs] pc_update_frame [OF u] Cons.prems(3) by (simp add: f)
  ultimately show ?case by (simp add: f u Let_def case_prod_unfold no_events_def ball_Un)
qed

text \<open>
  Hysteresis: a person whose centroid, relative to the line, is never further than the
  hysteresis distance on the negative side is never counted, however it moves about the line.
\<close>

theorem hysteresis_never_counts:
  assumes "pc_init line hysteresis stale = Inr c" "stays_above c tid frames"
  shows "no_events tid (fst (pc_run c frames))"
proof (rule pc_run_above [OF pc_init_ok [OF assms(1)] _ assms(2)])
  show "never_negative c tid"
    using assms(1) by (auto simp: pc_init_def never_negative_def side_of_def split: if_splits)
qed

theorem hysteresis_never_counts_witness:
  "no_events 3 (fst (pc_run demo_counter
     [([demo_person 15], (50, 50), 0), ([demo_person 9], (50, 50), 1), ([demo_person 15], (50, 50), 2)]))"
  by (rule hysteresis_never_counts [OF demo_counter_init])
    (simp add: pc_eval)

text \<open>
  The two counters are, in every run from a fresh counter, the numbers of inward and outward
  events reported.
\<close>

theorem counts_are_event_totals:
  assumes "pc_init line hysteresis stale = Inr c"
  shows "pc_count_in (snd (pc_run c frames)) = count_dir IN (fst (pc_run c frames))
    \<and> pc_count_out (snd (pc_run c frames)) = count_dir OUT (fst (pc_run c frames))"
  using pc_run_counts [OF pc_init_ok [OF assms], of frames] assms
  by (auto simp: pc_init_def split: if_splits)

theorem counts_are_event_totals_witness:
  "pc_count_in (snd (pc_run demo_counter [([demo_person 5], (50, 50), 0), ([demo_person 15], (50, 50), 2)])) =
     count_dir IN (fst (pc_run demo_counter [([demo_person 5], (50, 50), 0), ([demo_person 15], (50, 50), 2)]))
   \<and> pc_count_out (snd (pc_run demo_counter [([demo_person 5], (50, 50), 0), ([demo_person 15], (50, 50), 2)])) =
     count_dir OUT (fst (pc_run demo_counter [([demo_person 5], (50, 50), 0), ([demo_person 15], (50, 50), 2)]))"
  by (rule counts_are_event_totals [OF demo_counter_init])

end
