(* ===== verification/Frame_Buffer.thy ===== *)
theory Frame_Buffer
  imports Rsap_Prelude
begin

section \<open>The bounded latest-frame buffer\<close>

text \<open>
  \<open>FrameBuffer\<close> of \<open>packages/cv-engine/cv_engine/streaming/buffer.py\<close>. Every method body
  runs under the buffer's condition lock, so an operation is one atomic step on the state; the
  only point where other threads run inside a method is \<open>Condition.wait_for\<close>, which is the
  boundary between \<open>wait_begin\<close> and \<open>wait_finish\<close>. A frame is of any type \<open>'f\<close>; the copy the
  code takes makes it a value.
\<close>

record 'f frame_buffer =
  fb_frames :: "(nat \<times> 'f) list"
  fb_maxsize :: nat
  fb_sequence :: nat

definition fb_init :: "int \<Rightarrow> py_error + 'f frame_buffer" where
  "fb_init maxsize =
     (if maxsize < 1 then Inl (ValueError ''maxsize must be positive'')
      else Inr \<lparr>fb_frames = [], fb_maxsize = nat maxsize, fb_sequence = 0\<rparr>)"

text \<open>\<open>deque(maxlen=n).append\<close> drops from the left what exceeds \<open>n\<close>.\<close>

definition deque_append :: "nat \<Rightarrow> 'a list \<Rightarrow> 'a \<Rightarrow> 'a list" where
  "deque_append n xs x = drop (length xs + 1 - n) (xs @ [x])"

text \<open>\<open>valid\<close> is \<open>isinstance(frame, np.ndarray) and frame.size != 0\<close>.\<close>

definition fb_put :: "bool \<Rightarrow> 'f \<Rightarrow> 'f frame_buffer \<Rightarrow> py_error + nat \<times> 'f frame_buffer" where
  "fb_put valid frame b =
     (if \<not> valid then Inl (ValueError ''frame must be a non-empty numpy array'')
      else (let s = fb_sequence b + 1
            in Inr (s, b\<lparr>fb_sequence := s,
                         fb_frames := deque_append (fb_maxsize b) (fb_frames b) (s, frame)\<rparr>)))"

definition fb_get_latest_with_sequence :: "'f frame_buffer \<Rightarrow> (nat \<times> 'f) option" where
  "fb_get_latest_with_sequence b =
     (if fb_frames b = [] then None else Some (last (fb_frames b)))"

definition fb_get_latest :: "'f frame_buffer \<Rightarrow> 'f option" where
  "fb_get_latest b = (if fb_frames b = [] then None else Some (snd (last (fb_frames b))))"

definition fb_clear :: "'f frame_buffer \<Rightarrow> 'f frame_buffer" where
  "fb_clear b = b\<lparr>fb_frames := []\<rparr>"

definition fb_len :: "'f frame_buffer \<Rightarrow> nat" where
  "fb_len b = length (fb_frames b)"

text \<open>
  \<open>wait_for_frame_with_sequence\<close>. Before the wait the code either answers at once
  (\<open>Inr (Inl answer)\<close>), or has a target and may block until the sequence passes it
  (\<open>Inr (Inr target)\<close>). After the wait it looks at the buffer as it then is.
\<close>

definition wait_begin ::
  "real \<Rightarrow> nat option \<Rightarrow> 'f frame_buffer \<Rightarrow> py_error + ((nat \<times> 'f) option + nat)" where
  "wait_begin timeout after b =
     (if timeout < 0 then Inl (ValueError ''timeout must not be negative'')
      else if after = None \<and> fb_frames b \<noteq> []
      then Inr (Inl (Some (last (fb_frames b))))
      else Inr (Inr (case after of None \<Rightarrow> fb_sequence b | Some n \<Rightarrow> n)))"

definition wait_finish :: "nat \<Rightarrow> 'f frame_buffer \<Rightarrow> (nat \<times> 'f) option" where
  "wait_finish target b =
     (if fb_frames b = [] \<or> fb_sequence b \<le> target then None else Some (last (fb_frames b)))"

text \<open>
  The whole method: \<open>b\<close> is the buffer when it is called, \<open>b'\<close> the buffer when
  \<open>Condition.wait_for\<close> gives the lock back, which is \<open>b\<close> itself when the code does not wait.
\<close>

definition wait_blocks :: "nat \<Rightarrow> 'f frame_buffer \<Rightarrow> bool" where
  "wait_blocks target b \<longleftrightarrow> (fb_frames b = [] \<or> fb_sequence b \<le> target) \<and> fb_sequence b \<le> target"

definition fb_wait ::
  "real \<Rightarrow> nat option \<Rightarrow> 'f frame_buffer \<Rightarrow> 'f frame_buffer \<Rightarrow> py_error + (nat \<times> 'f) option" where
  "fb_wait timeout after b b' =
     bindE (wait_begin timeout after b)
       (\<lambda>r. case r of Inl answer \<Rightarrow> Inr answer
          | Inr target \<Rightarrow> Inr (wait_finish target (if wait_blocks target b then b' else b)))"

definition fb_wait_for_frame ::
  "real \<Rightarrow> nat option \<Rightarrow> 'f frame_buffer \<Rightarrow> 'f frame_buffer \<Rightarrow> py_error + 'f option" where
  "fb_wait_for_frame timeout after b b' =
     bindE (fb_wait timeout after b b') (\<lambda>r. Inr (map_option snd r))"

lemmas fb_defs [op_defs] =
  fb_put_def fb_get_latest_def fb_get_latest_with_sequence_def fb_clear_def fb_len_def

subsection \<open>Invariant\<close>

text \<open>The stored frames are the most recent ones, numbered consecutively up to the sequence.\<close>

definition fb_inv :: "'f frame_buffer \<Rightarrow> bool" where
  "fb_inv b \<longleftrightarrow> 1 \<le> fb_maxsize b \<and> length (fb_frames b) \<le> fb_maxsize b
     \<and> length (fb_frames b) \<le> fb_sequence b
     \<and> map fst (fb_frames b) = [fb_sequence b + 1 - length (fb_frames b)..<fb_sequence b + 1]"

lemma fb_init_inv [inv_intros]: "fb_init n = Inr b \<Longrightarrow> fb_inv b"
  by (auto simp: fb_init_def fb_inv_def split: if_splits)

lemma fb_clear_inv [inv_intros]: "fb_inv b \<Longrightarrow> fb_inv (fb_clear b)"
  by (simp add: fb_inv_def fb_clear_def)

lemma length_deque_append [simp]:
  "1 \<le> n \<Longrightarrow> length (deque_append n xs x) = min n (length xs + 1)"
  by (auto simp: deque_append_def)

lemma deque_append_nonempty [simp]: "1 \<le> n \<Longrightarrow> deque_append n xs x \<noteq> []"
  by (auto simp: deque_append_def)

lemma last_deque_append [simp]: "1 \<le> n \<Longrightarrow> last (deque_append n xs x) = x"
  by (auto simp: deque_append_def last_drop)

lemma map_deque_append: "map f (deque_append n xs x) = deque_append n (map f xs) (f x)"
  by (cases n) (simp_all add: deque_append_def drop_map)

lemma fb_put_inv [inv_intros]:
  assumes "fb_inv b" "fb_put v f b = Inr (s, b')"
  shows "fb_inv b'"
proof -
  let ?k = "length (fb_frames b)" and ?q = "fb_sequence b" and ?n = "fb_maxsize b"
  from assms(2) have b': "b' = b\<lparr>fb_sequence := ?q + 1,
      fb_frames := deque_append ?n (fb_frames b) (?q + 1, f)\<rparr>"
    by (auto simp: fb_put_def Let_def split: if_splits)
  from assms(1) have n: "1 \<le> ?n" "?k \<le> ?n" "?k \<le> ?q"
    and m: "map fst (fb_frames b) = [?q + 1 - ?k..<?q + 1]"
    by (auto simp: fb_inv_def)
  have "map fst (fb_frames b') = deque_append ?n [?q + 1 - ?k..<?q + 1] (?q + 1)"
    by (simp add: b' map_deque_append m del: upt_Suc)
  also have "\<dots> = drop (?k + 1 - ?n) ([?q + 1 - ?k..<?q + 1] @ [?q + 1])"
    using n(3) by (simp add: deque_append_def del: upt_Suc)
  also have "[?q + 1 - ?k..<?q + 1] @ [?q + 1] = [?q + 1 - ?k..<?q + 2]"
    using upt_Suc_append [of "?q + 1 - ?k" "?q + 1"] by simp
  also have "drop (?k + 1 - ?n) [?q + 1 - ?k..<?q + 2] = [?q + 1 - ?k + (?k + 1 - ?n)..<?q + 2]"
    by (rule drop_upt)
  also have "\<dots> = [?q + 2 - min ?n (?k + 1)..<?q + 2]"
  proof -
    have "?q + 1 - ?k + (?k + 1 - ?n) = ?q + 2 - min ?n (?k + 1)"
      using n by (simp add: min_def)
    then show ?thesis by simp
  qed
  finally show ?thesis using n by (simp add: fb_inv_def b' del: upt_Suc)
qed

lemma fb_inv_last:
  assumes "fb_inv b" "fb_frames b \<noteq> []"
  shows "fst (last (fb_frames b)) = fb_sequence b"
proof -
  from assms have "length (fb_frames b) > 0" "length (fb_frames b) \<le> fb_sequence b" 
    and m: "map fst (fb_frames b) = [fb_sequence b + 1 - length (fb_frames b)..<fb_sequence b + 1]"
    by (auto simp: fb_inv_def)
  have "fst (last (fb_frames b)) = last (map fst (fb_frames b))"
    using assms(2) by (simp add: last_map)
  also have "\<dots> = fb_sequence b"
    unfolding m using \<open>length (fb_frames b) > 0\<close>
    by (simp only: add_Suc_right Suc_eq_plus1 [symmetric] add_0_right) (subst last_upt, auto)
  finally show ?thesis .
qed

subsection \<open>What the producers and consumers do to the buffer\<close>

datatype 'f fb_op = Put 'f | Clear

fun fb_step :: "'f frame_buffer \<Rightarrow> 'f fb_op \<Rightarrow> 'f frame_buffer" where
  "fb_step b (Put f) = (case fb_put True f b of Inl _ \<Rightarrow> b | Inr (_, b') \<Rightarrow> b')"
| "fb_step b Clear = fb_clear b"

definition fb_run :: "'f frame_buffer \<Rightarrow> 'f fb_op list \<Rightarrow> 'f frame_buffer" where
  "fb_run = foldl fb_step"

lemma fb_run_simps [simp]:
  "fb_run b [] = b"
  "fb_run b (x # xs) = fb_run (fb_step b x) xs"
  "fb_run b (xs @ ys) = fb_run (fb_run b xs) ys"
  by (simp_all add: fb_run_def)

lemma fb_step_inv: "fb_inv b \<Longrightarrow> fb_inv (fb_step b op)"
  by (cases op) (auto intro: inv_intros split: sum.split)

lemma fb_run_inv: "fb_inv b \<Longrightarrow> fb_inv (fb_run b ops)"
  by (induction ops arbitrary: b) (auto intro: fb_step_inv)

lemma fb_step_sequence: "fb_sequence b \<le> fb_sequence (fb_step b op)"
  by (cases op) (auto simp: fb_put_def fb_clear_def Let_def)

lemma fb_run_sequence: "fb_sequence b \<le> fb_sequence (fb_run b ops)"
  by (induction ops arbitrary: b) (auto intro: order_trans [OF fb_step_sequence])

subsection \<open>The abstract source and its refinement\<close>

text \<open>
  Abstractly the buffer is the number of frames ever put and all the frames put since the
  last \<open>clear\<close>. The concrete buffer keeps the last \<open>maxsize\<close> of them.
\<close>

type_synonym 'f history = "nat \<times> (nat \<times> 'f) list"

fun hist_step :: "'f history \<Rightarrow> 'f fb_op \<Rightarrow> 'f history" where
  "hist_step (n, h) (Put f) = (n + 1, h @ [(n + 1, f)])"
| "hist_step (n, h) Clear = (n, [])"

definition take_last :: "nat \<Rightarrow> 'a list \<Rightarrow> 'a list" where
  "take_last n xs = drop (length xs - n) xs"

definition fb_abs :: "'f frame_buffer \<Rightarrow> 'f history \<Rightarrow> bool" where
  "fb_abs b H \<longleftrightarrow> fb_sequence b = fst H \<and> fb_frames b = take_last (fb_maxsize b) (snd H)"

lemma deque_append_take_last:
  assumes "1 \<le> n"
  shows "deque_append n (take_last n xs) x = take_last n (xs @ [x])"
proof (cases "length xs < n")
  case True
  then show ?thesis by (simp add: take_last_def deque_append_def)
next
  case False
  then have "length (take_last n xs) = n" by (simp add: take_last_def)
  moreover have "take_last n xs @ [x] = drop (length xs - n) (xs @ [x])"
    by (simp add: take_last_def)
  ultimately have "deque_append n (take_last n xs) x = drop 1 (drop (length xs - n) (xs @ [x]))"
    by (simp add: deque_append_def)
  also have "\<dots> = drop (length (xs @ [x]) - n) (xs @ [x])"
    using False unfolding drop_drop by (simp add: Suc_diff_le)
  finally show ?thesis by (simp add: take_last_def)
qed

lemma fb_step_maxsize [simp]: "fb_maxsize (fb_step b op) = fb_maxsize b"
  by (cases op) (auto simp: fb_put_def fb_clear_def Let_def)

lemma fb_step_refines:
  assumes "fb_abs b H" "1 \<le> fb_maxsize b"
  shows "fb_abs (fb_step b op) (hist_step H op)"
proof (cases op)
  case (Put f)
  with assms show ?thesis
    by (cases H) (auto simp: fb_abs_def fb_put_def Let_def deque_append_take_last)
next
  case Clear
  with assms show ?thesis
    by (cases H) (auto simp: fb_abs_def fb_clear_def take_last_def)
qed

lemma fb_run_refines:
  "fb_abs b H \<Longrightarrow> 1 \<le> fb_maxsize b \<Longrightarrow> fb_abs (fb_run b ops) (foldl hist_step H ops)"
  by (induction ops arbitrary: b H) (auto simp: fb_step_refines)

subsection \<open>The interface a consumer relies on\<close>

text \<open>
  A consumer asks, again and again, for a frame newer than the last one it got. All it needs
  is that an answer is numbered and newer than what was asked for.
\<close>

locale frame_source =
  fixes recv :: "'s \<Rightarrow> nat option \<Rightarrow> (nat \<times> 'f) option"
    and ok :: "'s \<Rightarrow> bool"
  assumes recv_newer: "ok s \<Longrightarrow> recv s (Some n) = Some (q, f) \<Longrightarrow> n < q"
begin

fun consume :: "nat option \<Rightarrow> 's list \<Rightarrow> (nat \<times> 'f) list" where
  "consume after [] = []"
| "consume after (s # ss) =
     (case recv s after of
        None \<Rightarrow> consume after ss
      | Some (q, f) \<Rightarrow> (q, f) # consume (Some q) ss)"

lemma consume_newer:
  "list_all ok ss \<Longrightarrow> (q, f) \<in> set (consume (Some n) ss) \<Longrightarrow> n < q"
proof (induction ss arbitrary: n)
  case Nil
  then show ?case by simp
next
  case (Cons s ss)
  show ?case
  proof (cases "recv s (Some n)")
    case None
    with Cons show ?thesis by simp
  next
    case (Some p)
    obtain q' f' where p: "p = (q', f')" by (cases p)
    with Some Cons.prems(1) have "n < q'" by (auto intro: recv_newer [of s n q' f'])
    moreover from Some p Cons.prems(2) have "(q, f) = (q', f') \<or> (q, f) \<in> set (consume (Some q') ss)"
      by simp
    ultimately show ?thesis using Cons.IH [of q'] Cons.prems(1) by auto
  qed
qed

lemma consume_increasing: "list_all ok ss \<Longrightarrow> sorted_wrt (<) (map fst (consume after ss))"
proof (induction ss arbitrary: after)
  case Nil
  then show ?case by simp
next
  case (Cons s ss)
  then show ?case
    by (auto split: option.splits prod.splits dest: consume_newer)
qed

end

text \<open>The buffer as the worker calls it: \<open>(b, b')\<close> are the buffer at the call and after a wait.\<close>

definition fb_recv ::
  "real \<Rightarrow> 'f frame_buffer \<times> 'f frame_buffer \<Rightarrow> nat option \<Rightarrow> (nat \<times> 'f) option" where
  "fb_recv timeout v after =
     (case fb_wait timeout after (fst v) (snd v) of Inl _ \<Rightarrow> None | Inr r \<Rightarrow> r)"

definition fb_view_ok :: "'f frame_buffer \<times> 'f frame_buffer \<Rightarrow> bool" where
  "fb_view_ok v \<longleftrightarrow> fb_inv (fst v) \<and> fb_inv (snd v)"

lemma wait_finish_newer:
  "fb_inv b \<Longrightarrow> wait_finish target b = Some (q, f) \<Longrightarrow> target < q \<and> q = fb_sequence b"
  using fb_inv_last [of b] by (auto simp: wait_finish_def split: if_splits)

lemma fb_recv_newer: "fb_view_ok v \<Longrightarrow> fb_recv t v (Some n) = Some (q, f) \<Longrightarrow> n < q"
  by (auto simp: fb_recv_def fb_wait_def wait_begin_def fb_view_ok_def split: if_splits
      dest: wait_finish_newer)

interpretation fbsrc: frame_source "fb_recv t" fb_view_ok for t
  by unfold_locales (rule fb_recv_newer)

subsection \<open>Properties\<close>

text \<open>
  C40. Refinement: after any sequence of puts and clears a new buffer of size \<open>n\<close> holds exactly
  the last \<open>n\<close> frames put since the last clear, oldest first, with their global numbers, and
  its sequence counts all puts ever made.
\<close>

theorem frame_buffer_refines_history:
  assumes "fb_init n = Inr b"
  shows "fb_frames (fb_run b ops) = take_last (nat n) (snd (foldl hist_step (0, []) ops))
    \<and> fb_sequence (fb_run b ops) = fst (foldl hist_step (0, []) ops)"
proof -
  from assms have "fb_abs b (0, [])" "1 \<le> fb_maxsize b" "fb_maxsize b = nat n"
    by (auto simp: fb_init_def fb_abs_def take_last_def split: if_splits)
  moreover have "fb_maxsize (fb_run b ops) = fb_maxsize b"
    by (induction ops arbitrary: b) simp_all
  ultimately show ?thesis using fb_run_refines [of b "(0, [])" ops] by (simp add: fb_abs_def)
qed

theorem frame_buffer_refines_history_witness:
  "fb_frames (fb_run \<lparr>fb_frames = [], fb_maxsize = 2, fb_sequence = 0\<rparr>
      [Put (10::int), Clear, Put 20, Put 30, Put 40]) = [(3, 30), (4, 40)]
   \<and> fb_sequence (fb_run \<lparr>fb_frames = [], fb_maxsize = 2, fb_sequence = 0\<rparr>
      [Put (10::int), Clear, Put 20, Put 30, Put 40]) = 4"
proof -
  have "fb_init 2 = Inr \<lparr>fb_frames = [], fb_maxsize = 2, fb_sequence = 0\<rparr>"
    by (simp add: fb_init_def)
  from frame_buffer_refines_history [OF this, of "[Put (10::int), Clear, Put 20, Put 30, Put 40]"]
  show ?thesis by (simp add: take_last_def numeral_eq_Suc)
qed

fun analytics_reads ::
  "real \<Rightarrow> nat option \<Rightarrow> ('f frame_buffer \<times> 'f frame_buffer) list \<Rightarrow> (nat \<times> 'f) list" where
  "analytics_reads t after [] = []"
| "analytics_reads t after (v # vs) =
     (case fb_recv t v after of
        None \<Rightarrow> analytics_reads t after vs
      | Some (q, f) \<Rightarrow> (q, f) # analytics_reads t (Some q) vs)"

lemma analytics_reads_consume: "analytics_reads t after vs = fbsrc.consume t after vs"
  by (induction vs arbitrary: after) (auto split: option.splits)

text \<open>
  A consumer that always passes the last sequence it received never gets a frame twice nor
  an older frame after a newer one, whatever the producers do between its calls.
\<close>

theorem consumer_sees_increasing_frames:
  assumes "list_all fb_view_ok vs"
  shows "sorted_wrt (<) (map fst (analytics_reads t after vs))"
  unfolding analytics_reads_consume by (rule fbsrc.consume_increasing) (rule assms)

theorem consumer_sees_increasing_frames_witness:
  "sorted_wrt (<) (map fst (analytics_reads 1 None
     [(\<lparr>fb_frames = [(1, ''a'')], fb_maxsize = 2, fb_sequence = 1\<rparr>,
       \<lparr>fb_frames = [(1, ''a'')], fb_maxsize = 2, fb_sequence = 1\<rparr>),
      (\<lparr>fb_frames = [(1, ''a'')], fb_maxsize = 2, fb_sequence = 1\<rparr>,
       \<lparr>fb_frames = [(1, ''a''), (2, ''b'')], fb_maxsize = 2, fb_sequence = 2\<rparr>)]))"
  by (rule consumer_sees_increasing_frames) (simp add: fb_view_ok_def fb_inv_def upt_rec)

end
