(* ===== verification/Sort_Tracker.thy ===== *)
theory Sort_Tracker
  imports Cv_Types
begin

section \<open>SORT tracking\<close>

text \<open>
  \<open>packages/cv-engine/cv_engine/models/tracker.py\<close>: the IoU matrix, the Kalman filter of one
  track with its counters, the association of detections with predicted boxes, and the
  \<open>Sort\<close> object that spawns, updates, reports and drops tracks. Arrays of doubles are lists of
  reals. Three things are parameters: \<open>np.linalg.solve\<close> (\<open>solve\<close>, \<open>None\<close> for a singular
  matrix), \<open>scipy.optimize.linear_sum_assignment\<close> (\<open>lsa\<close>, the zipped pairs) and the test
  whether a predicted box is finite (\<open>fin\<close>, which depends on the overflow of doubles).
  The class attribute \<open>_next_id\<close>, shared by all \<open>Sort\<close> objects of the process, is passed along.
\<close>

subsection \<open>Vectors and matrices of numpy\<close>

type_synonym vec = "real list"
type_synonym mat = "real list list"

definition dot :: "vec \<Rightarrow> vec \<Rightarrow> real" where
  "dot u v = sum_list (map2 (*) u v)"

definition mat_vec :: "mat \<Rightarrow> vec \<Rightarrow> vec" where
  "mat_vec a v = map (\<lambda>r. dot r v) a"

definition mat_trans :: "mat \<Rightarrow> mat" where
  "mat_trans a = (case a of [] \<Rightarrow> [] | r # _ \<Rightarrow> map (\<lambda>j. map (\<lambda>r. r ! j) a) [0..<length r])"

definition mat_mul :: "mat \<Rightarrow> mat \<Rightarrow> mat" where
  "mat_mul a b = (let cols = mat_trans b in map (\<lambda>r. map (dot r) cols) a)"

definition vec_add :: "vec \<Rightarrow> vec \<Rightarrow> vec" where
  "vec_add u v = map2 (+) u v"

definition vec_sub :: "vec \<Rightarrow> vec \<Rightarrow> vec" where
  "vec_sub u v = map2 (-) u v"

definition mat_add :: "mat \<Rightarrow> mat \<Rightarrow> mat" where
  "mat_add a b = map2 vec_add a b"

definition mat_sub :: "mat \<Rightarrow> mat \<Rightarrow> mat" where
  "mat_sub a b = map2 vec_sub a b"

definition eye :: "nat \<Rightarrow> mat" where
  "eye n = map (\<lambda>i. map (\<lambda>j. if i = j then 1 else 0) [0..<n]) [0..<n]"

text \<open>\<open>a[k:, k:] *= c\<close>\<close>

definition scale_from :: "nat \<Rightarrow> real \<Rightarrow> mat \<Rightarrow> mat" where
  "scale_from k c a =
     map (\<lambda>i. map (\<lambda>j. if k \<le> i \<and> k \<le> j then a ! i ! j * c else a ! i ! j) [0..<length (a ! i)])
       [0..<length a]"

definition set_entry :: "nat \<Rightarrow> nat \<Rightarrow> real \<Rightarrow> mat \<Rightarrow> mat" where
  "set_entry i j v a = a[i := (a ! i)[j := v]]"

subsection \<open>Intersection over union\<close>

fun iou :: "bbox \<Rightarrow> bbox \<Rightarrow> real" where
  "iou (ax1, ay1, ax2, ay2) (bx1, by1, bx2, by2) =
     (let xx1 = max ax1 bx1; yy1 = max ay1 by1; xx2 = min ax2 bx2; yy2 = min ay2 by2;
          intersection = max 0 (xx2 - xx1) * max 0 (yy2 - yy1);
          area_a = max 0 (ax2 - ax1) * max 0 (ay2 - ay1);
          area_b = max 0 (bx2 - bx1) * max 0 (by2 - by1);
          union = area_a + area_b - intersection
      in if union > 0 then intersection / union else 0)"

definition iou_batch :: "bbox list \<Rightarrow> bbox list \<Rightarrow> mat" where
  "iou_batch as bs = map (\<lambda>a. map (iou a) bs) as"

subsection \<open>Boxes and filter states\<close>

definition bbox_to_measurement :: "bbox \<Rightarrow> py_error + vec" where
  "bbox_to_measurement b =
     bindE (validate_bbox (Some (raw_of_bbox b))) (\<lambda>(x1, y1, x2, y2).
       let width = x2 - x1; height = y2 - y1
       in Inr [x1 + width / 2, y1 + height / 2, width * height, width / height])"

definition state_to_bbox :: "vec \<Rightarrow> bbox" where
  "state_to_bbox s =
     (let x = s ! 0; y = s ! 1; scale = max (s ! 2) (1 / 1000000); ratio = max (s ! 3) (1 / 1000000);
          width = sqrt (scale * ratio); height = scale / width
      in (x - width / 2, y - height / 2, x + width / 2, y + height / 2))"

subsection \<open>One track\<close>

record track_metadata =
  tm_class_id :: int
  tm_class_name :: string
  tm_confidence :: real

definition default_metadata :: track_metadata where
  "default_metadata = \<lparr>tm_class_id = 0, tm_class_name = ''person'', tm_confidence = 1\<rparr>"

record kalman_tracker =
  kt_x :: vec
  kt_P :: mat
  kt_id :: int
  kt_time_since_update :: nat
  kt_hits :: nat
  kt_hit_streak :: nat
  kt_age :: nat
  kt_metadata :: track_metadata

text \<open>The matrices the constructor builds and never changes, and the initial covariance.\<close>

definition kf_F :: mat where
  "kf_F = set_entry 2 6 1 (set_entry 1 5 1 (set_entry 0 4 1 (eye 7)))"

definition kf_H :: mat where
  "kf_H = map (\<lambda>r. r @ replicate 3 0) (eye 4)"

definition kf_P0 :: mat where
  "kf_P0 = scale_from 0 10 (scale_from 4 1000 (eye 7))"

definition kf_Q :: mat where
  "kf_Q = scale_from 4 (1 / 100) (eye 7)"

definition kf_R :: mat where
  "kf_R = scale_from 2 10 (eye 4)"

text \<open>The constructor takes the next identity only after the box was accepted. It reads the class
  attribute, and reads and writes it once more to increment it; one call is one step here, so what
  another thread does to the attribute in between is not seen.\<close>

definition kalman_new ::
  "bbox \<Rightarrow> track_metadata option \<Rightarrow> int \<Rightarrow> py_error + kalman_tracker \<times> int" where
  "kalman_new b meta next_id =
     bindE (bbox_to_measurement b) (\<lambda>z.
       Inr (\<lparr>kt_x = z @ replicate 3 0, kt_P = kf_P0, kt_id = next_id, kt_time_since_update = 0,
             kt_hits = 1, kt_hit_streak = 1, kt_age = 0,
             kt_metadata = (case meta of None \<Rightarrow> default_metadata | Some m \<Rightarrow> m)\<rparr>,
            next_id + 1))"

definition kalman_predict :: "kalman_tracker \<Rightarrow> kalman_tracker \<times> bbox" where
  "kalman_predict t =
     (let x = (if kt_x t ! 2 + kt_x t ! 6 \<le> 0 then (kt_x t)[6 := 0] else kt_x t);
          x' = mat_vec kf_F x;
          t' = t\<lparr>kt_x := x',
                 kt_P := mat_add (mat_mul (mat_mul kf_F (kt_P t)) (mat_trans kf_F)) kf_Q,
                 kt_age := kt_age t + 1,
                 kt_hit_streak := (if kt_time_since_update t > 0 then 0 else kt_hit_streak t),
                 kt_time_since_update := kt_time_since_update t + 1\<rparr>
      in (t', state_to_bbox x'))"

definition kalman_update ::
  "(mat \<Rightarrow> mat \<Rightarrow> mat option) \<Rightarrow> bbox \<Rightarrow> track_metadata option \<Rightarrow> kalman_tracker
    \<Rightarrow> py_error + kalman_tracker" where
  "kalman_update solve b meta t =
     bindE (bbox_to_measurement b) (\<lambda>z.
       let innovation = vec_sub z (mat_vec kf_H (kt_x t));
           covariance = mat_add (mat_mul (mat_mul kf_H (kt_P t)) (mat_trans kf_H)) kf_R
       in case solve (mat_trans covariance) (mat_trans (mat_mul (kt_P t) (mat_trans kf_H))) of
            None \<Rightarrow> Inl (LibraryError ''LinAlgError'')
          | Some s \<Rightarrow>
              (let gain = mat_trans s
               in Inr (t\<lparr>kt_x := vec_add (kt_x t) (mat_vec gain innovation),
                         kt_P := mat_mul (mat_sub (eye 7) (mat_mul gain kf_H)) (kt_P t),
                         kt_time_since_update := 0,
                         kt_hits := kt_hits t + 1,
                         kt_hit_streak := kt_hit_streak t + 1,
                         kt_metadata := (case meta of None \<Rightarrow> kt_metadata t | Some m \<Rightarrow> m)\<rparr>)))"

definition kalman_get_state :: "kalman_tracker \<Rightarrow> bbox" where
  "kalman_get_state t = state_to_bbox (kt_x t)"

subsection \<open>Association\<close>

text \<open>Matches, detections left over and tracks left over; the pairs of \<open>lsa\<close> below the threshold
  are not matches.\<close>

definition associate ::
  "(mat \<Rightarrow> (nat \<times> nat) list) \<Rightarrow> bbox list \<Rightarrow> bbox list \<Rightarrow> real
    \<Rightarrow> (nat \<times> nat) list \<times> nat list \<times> nat list" where
  "associate lsa detections trackers threshold =
     (if trackers = [] then ([], [0..<length detections], [])
      else
        (let ious = iou_batch detections trackers;
             pairs = lsa (map (map uminus) ious);
             matched = filter (\<lambda>(r, c). \<not> ious ! r ! c < threshold) pairs
         in (matched,
             filter (\<lambda>d. d \<notin> fst ` set matched) [0..<length detections],
             filter (\<lambda>t. t \<notin> snd ` set matched) [0..<length trackers])))"

text \<open>What the documentation of \<open>linear_sum_assignment\<close> promises and the code uses: the pairs are
  entries of the matrix, no row and no column occurs twice.\<close>

definition assignment_spec :: "(mat \<Rightarrow> (nat \<times> nat) list) \<Rightarrow> bool" where
  "assignment_spec lsa \<longleftrightarrow>
     (\<forall>c n. list_all (\<lambda>r. length r = n) c \<longrightarrow>
        distinct (map fst (lsa c)) \<and> distinct (map snd (lsa c)) \<and>
        (\<forall>(i, j) \<in> set (lsa c). i < length c \<and> j < n))"

subsection \<open>The tracker\<close>

text \<open>An argument of the constructor, as the \<open>isinstance\<close> tests tell them apart.\<close>

datatype py_number = PyBool bool | PyInt int | PyFloat raw_float | NoNumber

record sort_tracker =
  so_max_age :: nat
  so_min_hits :: nat
  so_iou_threshold :: real
  so_trackers :: "kalman_tracker list"
  so_frame_count :: nat

fun integral_from :: "int \<Rightarrow> py_number \<Rightarrow> nat option" where
  "integral_from lo (PyInt n) = (if n < lo then None else Some (nat n))"
| "integral_from lo _ = None"

fun unit_real :: "py_number \<Rightarrow> real option" where
  "unit_real (PyInt n) = (if 0 \<le> n \<and> n \<le> 1 then Some (of_int n) else None)"
| "unit_real (PyFloat v) = (if isfinite v \<and> raw_ge v 0 \<and> raw_le v 1 then Some (float_val v) else None)"
| "unit_real _ = None"

definition mk_sort :: "py_number \<Rightarrow> py_number \<Rightarrow> py_number \<Rightarrow> py_error + sort_tracker" where
  "mk_sort max_age min_hits iou_threshold =
     (case integral_from 0 max_age of
        None \<Rightarrow> Inl (ValueError ''max_age must be an integer greater than or equal to zero'')
      | Some a \<Rightarrow>
     (case integral_from 1 min_hits of
        None \<Rightarrow> Inl (ValueError ''min_hits must be an integer greater than or equal to one'')
      | Some h \<Rightarrow>
     (case unit_real iou_threshold of
        None \<Rightarrow> Inl (ValueError ''iou_threshold must be finite and between zero and one'')
      | Some r \<Rightarrow>
          Inr \<lparr>so_max_age = a, so_min_hits = h, so_iou_threshold = r, so_trackers = [],
               so_frame_count = 0\<rparr>)))"

text \<open>The loops of \<open>_update\<close>. A raise ends a loop; the tracks changed before it stay changed.\<close>

fun predict_all :: "(bbox \<Rightarrow> bool) \<Rightarrow> kalman_tracker list \<Rightarrow> (kalman_tracker \<times> bbox) list" where
  "predict_all fin ts = filter (\<lambda>(t, b). fin b) (map kalman_predict ts)"

fun apply_matches ::
  "(mat \<Rightarrow> mat \<Rightarrow> mat option) \<Rightarrow> bbox list \<Rightarrow> track_metadata list \<Rightarrow> (nat \<times> nat) list
    \<Rightarrow> kalman_tracker list \<Rightarrow> py_error option \<times> kalman_tracker list" where
  "apply_matches solve boxes metas [] ts = (None, ts)"
| "apply_matches solve boxes metas ((d, k) # ms) ts =
     (case kalman_update solve (boxes ! d) (Some (metas ! d)) (ts ! k) of
        Inl e \<Rightarrow> (Some e, ts)
      | Inr t \<Rightarrow> apply_matches solve boxes metas ms (ts[k := t]))"

fun spawn_tracks ::
  "bbox list \<Rightarrow> track_metadata list \<Rightarrow> nat list \<Rightarrow> kalman_tracker list \<Rightarrow> int
    \<Rightarrow> py_error option \<times> kalman_tracker list \<times> int" where
  "spawn_tracks boxes metas [] ts next_id = (None, ts, next_id)"
| "spawn_tracks boxes metas (d # ds) ts next_id =
     (case kalman_new (boxes ! d) (Some (metas ! d)) next_id of
        Inl e \<Rightarrow> (Some e, ts, next_id)
      | Inr (t, next_id') \<Rightarrow> spawn_tracks boxes metas ds (ts @ [t]) next_id')"

definition reported :: "nat \<Rightarrow> nat \<Rightarrow> kalman_tracker \<Rightarrow> bool" where
  "reported min_hits frame_count t \<longleftrightarrow>
     kt_time_since_update t = 0 \<and> (kt_hits t \<ge> min_hits \<or> frame_count \<le> min_hits)"

definition clamped_bbox :: "kalman_tracker \<Rightarrow> bbox" where
  "clamped_bbox t = (case kalman_get_state t of (a, b, c, d) \<Rightarrow> (max 0 a, max 0 b, c, d))"

definition empty_bbox :: "bbox \<Rightarrow> bool" where
  "empty_bbox b = (case b of (x1, y1, x2, y2) \<Rightarrow> x2 \<le> x1 \<or> y2 \<le> y1)"

fun report_tracks :: "nat \<Rightarrow> nat \<Rightarrow> kalman_tracker list \<Rightarrow> py_error + tracked_object list" where
  "report_tracks min_hits frame_count [] = Inr []"
| "report_tracks min_hits frame_count (t # ts) =
     (if reported min_hits frame_count t \<and> \<not> empty_bbox (clamped_bbox t)
      then bindE (mk_tracked_object (Some (raw_of_bbox (clamped_bbox t))) (kt_id t)
                    (tm_class_id (kt_metadata t)) (tm_class_name (kt_metadata t))
                    (Finite (tm_confidence (kt_metadata t))))
             (\<lambda>ob. bindE (report_tracks min_hits frame_count ts) (\<lambda>obs. Inr (ob # obs)))
      else report_tracks min_hits frame_count ts)"

definition sort_step ::
  "(mat \<Rightarrow> mat \<Rightarrow> mat option) \<Rightarrow> (mat \<Rightarrow> (nat \<times> nat) list) \<Rightarrow> (bbox \<Rightarrow> bool)
    \<Rightarrow> bbox list \<Rightarrow> track_metadata list \<Rightarrow> int \<times> sort_tracker
    \<Rightarrow> (py_error + tracked_object list) \<times> int \<times> sort_tracker" where
  "sort_step solve lsa fin boxes metas st =
     (let next_id = fst st; s = (snd st)\<lparr>so_frame_count := so_frame_count (snd st) + 1\<rparr>;
          valid = predict_all fin (so_trackers s);
          (matches, fresh, _) = associate lsa boxes (map snd valid) (so_iou_threshold s);
          (err, ts) = apply_matches solve boxes metas matches (map fst valid)
      in case err of
           Some e \<Rightarrow> (Inl e, next_id, s\<lparr>so_trackers := ts\<rparr>)
         | None \<Rightarrow>
        (let (err, ts, next_id') = spawn_tracks boxes metas fresh ts next_id
         in case err of
              Some e \<Rightarrow> (Inl e, next_id', s\<lparr>so_trackers := ts\<rparr>)
            | None \<Rightarrow>
           (case report_tracks (so_min_hits s) (so_frame_count s) ts of
              Inl e \<Rightarrow> (Inl e, next_id', s\<lparr>so_trackers := ts\<rparr>)
            | Inr obs \<Rightarrow>
                (Inr obs, next_id',
                 s\<lparr>so_trackers := filter (\<lambda>t. kt_time_since_update t \<le> so_max_age s) ts\<rparr>))))"

definition sort_update_objects ::
  "(mat \<Rightarrow> mat \<Rightarrow> mat option) \<Rightarrow> (mat \<Rightarrow> (nat \<times> nat) list) \<Rightarrow> (bbox \<Rightarrow> bool)
    \<Rightarrow> detection list \<Rightarrow> int \<times> sort_tracker
    \<Rightarrow> (py_error + tracked_object list) \<times> int \<times> sort_tracker" where
  "sort_update_objects solve lsa fin detections =
     sort_step solve lsa fin (map det_bbox detections)
       (map (\<lambda>d. \<lparr>tm_class_id = det_class_id d, tm_class_name = det_class_name d,
                   tm_confidence = det_confidence d\<rparr>) detections)"

text \<open>The array interface: a two-dimensional array by its rows, or an array of another
  dimension by its size.\<close>

datatype nd_array = Matrix nat "raw_float list list" | OtherDim nat

definition nd_size :: "nd_array \<Rightarrow> nat" where
  "nd_size a = (case a of Matrix n rows \<Rightarrow> n * length rows | OtherDim n \<Rightarrow> n)"

definition check_row :: "raw_float list \<Rightarrow> py_error + bbox \<times> track_metadata" where
  "check_row row =
     bindE (validate_bbox (Some (take 4 row))) (\<lambda>b.
     bindE (guardE (\<not> (length row = 5
                     \<and> (\<not> isfinite (row ! 4) \<or> \<not> (raw_ge (row ! 4) 0 \<and> raw_le (row ! 4) 1))))
              (ValueError ''detection confidence must be finite and between 0 and 1'')) (\<lambda>_.
     Inr (b, default_metadata\<lparr>tm_confidence := (if length row > 4 then float_val (row ! 4) else 1)\<rparr>)))"

definition sort_update ::
  "(mat \<Rightarrow> mat \<Rightarrow> mat option) \<Rightarrow> (mat \<Rightarrow> (nat \<times> nat) list) \<Rightarrow> (bbox \<Rightarrow> bool)
    \<Rightarrow> nd_array \<Rightarrow> int \<times> sort_tracker \<Rightarrow> (py_error + real list list) \<times> int \<times> sort_tracker" where
  "sort_update solve lsa fin detections st =
     (case (if nd_size detections = 0 then Matrix 5 [] else detections) of
        OtherDim _ \<Rightarrow> (Inl (ValueError ''detections must have shape (N, 4) or (N, 5)''), st)
      | Matrix n rows \<Rightarrow>
          if n \<noteq> 4 \<and> n \<noteq> 5
          then (Inl (ValueError ''detections must have shape (N, 4) or (N, 5)''), st)
          else (case mapE check_row rows of
                  Inl e \<Rightarrow> (Inl e, st)
                | Inr checked \<Rightarrow>
                    (case sort_step solve lsa fin (map fst checked) (map snd checked) st of
                       (Inl e, st') \<Rightarrow> (Inl e, st')
                     | (Inr obs, st') \<Rightarrow>
                         (Inr (map (\<lambda>ob. case trk_bbox ob of (x1, y1, x2, y2) \<Rightarrow>
                                      [x1, y1, x2, y2, of_int (trk_track_id ob)]) obs), st'))))"

text \<open>
  A run of one \<open>Sort\<close> object: the frames it processes, each after other objects of the process
  took some identities of the shared counter. The trace lists result and state of every frame.
\<close>

fun sort_run ::
  "(mat \<Rightarrow> mat \<Rightarrow> mat option) \<Rightarrow> (mat \<Rightarrow> (nat \<times> nat) list) \<Rightarrow> (bbox \<Rightarrow> bool)
    \<Rightarrow> (nat \<times> detection list) list \<Rightarrow> int \<times> sort_tracker
    \<Rightarrow> ((py_error + tracked_object list) \<times> int \<times> sort_tracker) list" where
  "sort_run solve lsa fin [] st = []"
| "sort_run solve lsa fin ((others, ds) # fs) st =
     (let r = sort_update_objects solve lsa fin ds (fst st + int others, snd st)
      in r # sort_run solve lsa fin fs (snd r))"

end
