(* ===== verification/Sort_Props.thy ===== *)
theory Sort_Props
  imports Sort_Tracker
begin

section \<open>Properties of the SORT tracker\<close>

text \<open>
  Intersection over union is a similarity of boxes with values in the unit interval; the filter
  state of a fresh track gives back the box it was made of; identities are unique, below the
  shared counter and never used again after a track was dropped, as long as no other tracker makes a
  track at the same time; every reported object is one detection of the frame.
\<close>

subsection \<open>Intersection over union\<close>

definition overlap_len :: "real \<Rightarrow> real \<Rightarrow> real \<Rightarrow> real \<Rightarrow> real" where
  "overlap_len a1 a2 b1 b2 = max 0 (min a2 b2 - max a1 b1)"

lemma overlap_len_bounds:
  assumes "a1 < a2" "b1 < b2"
  shows "0 \<le> overlap_len a1 a2 b1 b2" "overlap_len a1 a2 b1 b2 \<le> a2 - a1"
    "overlap_len a1 a2 b1 b2 \<le> b2 - b1"
  using assms by (auto simp: overlap_len_def)

lemma overlap_len_commute: "overlap_len a1 a2 b1 b2 = overlap_len b1 b2 a1 a2"
  by (simp add: overlap_len_def min.commute max.commute)

lemma overlap_len_pos:
  assumes "a1 < a2" "b1 < b2"
  shows "0 < overlap_len a1 a2 b1 b2 \<longleftrightarrow> a1 < b2 \<and> b1 < a2"
  using assms by (auto simp: overlap_len_def)

lemma overlap_len_full:
  assumes "a1 < a2" "b1 < b2" "overlap_len a1 a2 b1 b2 = a2 - a1" "overlap_len a1 a2 b1 b2 = b2 - b1"
  shows "a1 = b1 \<and> a2 = b2"
  using assms by (auto simp: overlap_len_def max_def min_def split: if_splits)

lemma product_full:
  fixes p q w h :: real
  assumes "0 \<le> p" "p \<le> w" "0 \<le> q" "q \<le> h" "0 < w" "0 < h" "p * q = w * h"
  shows "p = w \<and> q = h"
proof -
  have "p * q \<le> w * q" "w * q \<le> w * h" using assms(1-6) by (auto intro: mult_right_mono mult_left_mono)
  with assms(7) have "w * q = w * h" by linarith
  with assms(5) have q: "q = h" by auto
  with assms(6,7) have "p = w" by auto
  with q show ?thesis by simp
qed

lemma iou_areas:
  assumes "bbox_ok (ax1, ay1, ax2, ay2)" "bbox_ok (bx1, by1, bx2, by2)"
  shows "iou (ax1, ay1, ax2, ay2) (bx1, by1, bx2, by2) =
    (let i = overlap_len ax1 ax2 bx1 bx2 * overlap_len ay1 ay2 by1 by2;
         u = (ax2 - ax1) * (ay2 - ay1) + (bx2 - bx1) * (by2 - by1) - i
     in if u > 0 then i / u else 0)"
  using assms by (simp add: overlap_len_def Let_def)

lemma intersection_bounds:
  assumes "a1 < a2" "b1 < b2" "c1 < c2" "d1 < d2"
  shows "0 \<le> overlap_len a1 a2 b1 b2 * overlap_len c1 c2 d1 d2"
    "overlap_len a1 a2 b1 b2 * overlap_len c1 c2 d1 d2 \<le> (a2 - a1) * (c2 - c1)"
    "overlap_len a1 a2 b1 b2 * overlap_len c1 c2 d1 d2 \<le> (b2 - b1) * (d2 - d1)"
  using overlap_len_bounds [OF assms(1,2)] overlap_len_bounds [OF assms(3,4)] assms
  by (auto intro!: mult_mono)

text \<open>
  Intersection over union of two valid boxes is symmetric, lies between zero and one, is
  positive exactly when the boxes overlap in more than an edge, and is one exactly for equal boxes.
\<close>

theorem iou_exact:
  assumes a: "bbox_ok (ax1, ay1, ax2, ay2)" and b: "bbox_ok (bx1, by1, bx2, by2)"
  shows "iou (ax1, ay1, ax2, ay2) (bx1, by1, bx2, by2) = iou (bx1, by1, bx2, by2) (ax1, ay1, ax2, ay2)
    \<and> 0 \<le> iou (ax1, ay1, ax2, ay2) (bx1, by1, bx2, by2)
    \<and> iou (ax1, ay1, ax2, ay2) (bx1, by1, bx2, by2) \<le> 1
    \<and> (0 < iou (ax1, ay1, ax2, ay2) (bx1, by1, bx2, by2)
         \<longleftrightarrow> ax1 < bx2 \<and> bx1 < ax2 \<and> ay1 < by2 \<and> by1 < ay2)
    \<and> (iou (ax1, ay1, ax2, ay2) (bx1, by1, bx2, by2) = 1
         \<longleftrightarrow> (ax1, ay1, ax2, ay2) = (bx1, by1, bx2, by2))"
proof -
  define p where "p = overlap_len ax1 ax2 bx1 bx2"
  define q where "q = overlap_len ay1 ay2 by1 by2"
  define A where "A = (ax2 - ax1) * (ay2 - ay1)"
  define B where "B = (bx2 - bx1) * (by2 - by1)"
  note lt = a [unfolded bbox_ok.simps] b [unfolded bbox_ok.simps]
  have pos: "0 < A" "0 < B" using lt by (simp_all add: A_def B_def)
  have le: "0 \<le> p * q" "p * q \<le> A" "p * q \<le> B"
    using intersection_bounds [of ax1 ax2 bx1 bx2 ay1 ay2 by1 by2] lt
    by (simp_all add: p_def q_def A_def B_def)
  then have u: "0 < A + B - p * q" using pos by linarith
  have com: "overlap_len bx1 bx2 ax1 ax2 = p" "overlap_len by1 by2 ay1 ay2 = q"
    unfolding p_def q_def by (rule overlap_len_commute)+
  have i: "iou (ax1, ay1, ax2, ay2) (bx1, by1, bx2, by2) = p * q / (A + B - p * q)"
    unfolding iou_areas [OF a b] using u by (simp add: p_def q_def A_def B_def Let_def)
  have j: "iou (bx1, by1, bx2, by2) (ax1, ay1, ax2, ay2) = p * q / (A + B - p * q)"
    unfolding iou_areas [OF b a] com using u by (simp add: A_def B_def Let_def add.commute)
  have nn: "0 \<le> p" "0 \<le> q" by (simp_all add: p_def q_def overlap_len_def)
  then have pq: "0 < p * q \<longleftrightarrow> 0 < p \<and> 0 < q" by (auto simp: zero_less_mult_iff)
  have "0 < p * q / (A + B - p * q) \<longleftrightarrow> 0 < p \<and> 0 < q"
    unfolding zero_less_divide_iff pq using u le by (metis less_asym not_less)
  moreover have "0 < p \<longleftrightarrow> ax1 < bx2 \<and> bx1 < ax2" "0 < q \<longleftrightarrow> ay1 < by2 \<and> by1 < ay2"
    unfolding p_def q_def by (rule overlap_len_pos; use lt in blast)+
  ultimately have gt: "0 < p * q / (A + B - p * q)
      \<longleftrightarrow> ax1 < bx2 \<and> bx1 < ax2 \<and> ay1 < by2 \<and> by1 < ay2"
    by blast
  have one: "(ax1, ay1, ax2, ay2) = (bx1, by1, bx2, by2)" if e: "p * q / (A + B - p * q) = 1"
  proof -
    have "p * q = A + B - p * q" using e u by (simp add: field_simps)
    then have full: "p * q = A" "p * q = B" using le by linarith+
    have "p = ax2 - ax1 \<and> q = ay2 - ay1" "p = bx2 - bx1 \<and> q = by2 - by1"
      by (rule product_full;
          use full overlap_len_bounds [of ax1 ax2 bx1 bx2] overlap_len_bounds [of ay1 ay2 by1 by2] lt
          in \<open>simp add: p_def q_def A_def B_def\<close>)+
    then show ?thesis
      using overlap_len_full [of ax1 ax2 bx1 bx2] overlap_len_full [of ay1 ay2 by1 by2] lt
      by (simp add: p_def q_def)
  qed
  have self: "p * q / (A + B - p * q) = 1" if e: "(ax1, ay1, ax2, ay2) = (bx1, by1, bx2, by2)"
    using e lt by (simp add: p_def q_def A_def B_def overlap_len_def)
  have unit: "0 \<le> p * q / (A + B - p * q)" "p * q / (A + B - p * q) \<le> 1"
    using le u pos by (simp_all add: divide_le_eq)
  show ?thesis
    unfolding i j by (intro conjI refl unit gt iffI; (erule one | erule self))
qed

lemma iou_exact_witness:
  "iou (0, 0, 2, 2) (1, 0, 3, 2) = iou (1, 0, 3, 2) (0, 0, 2, 2) \<and> iou (0, 0, 2, 2) (1, 0, 3, 2) \<le> 1"
  using iou_exact [of 0 0 2 2 1 0 3 2] by simp

subsection \<open>Boxes and filter states\<close>

lemma state_to_bbox_Cons:
  "state_to_bbox (x # y # c # d # r) =
    (let scale = max c (1 / 1000000); ratio = max d (1 / 1000000);
         width = sqrt (scale * ratio); height = scale / width
     in (x - width / 2, y - height / 2, x + width / 2, y + height / 2))"
  by (simp add: state_to_bbox_def numeral_eq_Suc)

lemma fresh_track_state:
  assumes "bbox_ok (x1, y1, x2, y2)"
    and "1 / 1000000 \<le> (x2 - x1) * (y2 - y1)" and "1 / 1000000 \<le> (x2 - x1) / (y2 - y1)"
  shows "\<exists>t. kalman_new (x1, y1, x2, y2) m n = Inr (t, n + 1)
    \<and> kalman_get_state t = (x1, y1, x2, y2)"
proof -
  have lt: "x1 < x2" "y1 < y2" using assms(1) by auto
  have v: "validate_bbox (Some (raw_of_bbox (x1, y1, x2, y2))) = Inr (x1, y1, x2, y2)"
    using assms(1) by (simp add: validate_bbox_Inr del: raw_of_bbox.simps)
  have "sqrt ((x2 - x1) * (y2 - y1) * ((x2 - x1) / (y2 - y1))) = sqrt ((x2 - x1)\<^sup>2)"
    using lt by (simp add: power2_eq_square)
  then have s: "sqrt ((x2 - x1) * (y2 - y1) * ((x2 - x1) / (y2 - y1))) = x2 - x1"
    using lt by (simp only: real_sqrt_abs)
  have m: "max ((x2 - x1) * (y2 - y1)) (1 / 1000000) = (x2 - x1) * (y2 - y1)"
    "max ((x2 - x1) / (y2 - y1)) (1 / 1000000) = (x2 - x1) / (y2 - y1)"
    using assms(2,3) by (simp_all add: max_absorb1)
  have h: "(x2 - x1) * (y2 - y1) / (x2 - x1) = y2 - y1" using lt by simp
  have "state_to_bbox ([x1 + (x2 - x1) / 2, y1 + (y2 - y1) / 2, (x2 - x1) * (y2 - y1),
      (x2 - x1) / (y2 - y1)] @ replicate 3 0) = (x1, y1, x2, y2)"
    unfolding append_Cons state_to_bbox_Cons Let_def m s h by simp
  then show ?thesis
    unfolding kalman_new_def bbox_to_measurement_def kalman_get_state_def v Let_def by simp
qed

text \<open>
  The filter state of a fresh track stands for the box it was made of, unless the box is
  smaller or flatter than the clamps of the conversion.
\<close>

theorem measurement_round_trip:
  assumes "bbox_ok (x1, y1, x2, y2)"
    and "1 / 1000000 \<le> (x2 - x1) * (y2 - y1)" and "1 / 1000000 \<le> (x2 - x1) / (y2 - y1)"
  shows "\<exists>t. kalman_new (x1, y1, x2, y2) m n = Inr (t, n + 1)
    \<and> kalman_get_state t = (x1, y1, x2, y2)"
  by (rule fresh_track_state [OF assms])

lemma measurement_round_trip_witness:
  "\<exists>t. kalman_new (10, 20, 40, 80) None 7 = Inr (t, 8) \<and> kalman_get_state t = (10, 20, 40, 80)"
  using measurement_round_trip [of 10 20 40 80 None 7] by simp

subsection \<open>The loops of one frame\<close>

lemma predict_fields [simp]:
  "kt_id (fst (kalman_predict t)) = kt_id t"
  "kt_metadata (fst (kalman_predict t)) = kt_metadata t"
  "kt_time_since_update (fst (kalman_predict t)) = Suc (kt_time_since_update t)"
  by (simp_all add: kalman_predict_def Let_def)

lemma kalman_update_Inr:
  assumes "kalman_update solve b (Some m) t = Inr t'"
  shows "kt_id t' = kt_id t \<and> kt_time_since_update t' = 0 \<and> kt_metadata t' = m"
  using assms by (auto simp: kalman_update_def bindE_eq_Inr Let_def split: option.splits)

lemma kalman_update_Inl:
  assumes "kalman_update solve b m t = Inl e" "bbox_ok b"
  shows "e = LibraryError ''LinAlgError''"
proof -
  have "validate_bbox (Some (raw_of_bbox b)) = Inr b"
    using assms(2) by (simp add: validate_bbox_Inr)
  with assms(1) show ?thesis
    by (cases b) (auto simp: kalman_update_def bbox_to_measurement_def Let_def split: option.splits)
qed

lemma kalman_new_Inr:
  assumes "kalman_new b (Some m) n = Inr (t, n')"
  shows "kt_id t = n \<and> n' = n + 1 \<and> kt_time_since_update t = 0 \<and> kt_metadata t = m"
  using assms by (auto simp: kalman_new_def bindE_eq_Inr)

lemma kalman_new_ok: "bbox_ok b \<Longrightarrow> \<exists>t. kalman_new b m n = Inr (t, n + 1)"
proof -
  assume "bbox_ok b"
  then have "validate_bbox (Some (raw_of_bbox b)) = Inr b" by (simp add: validate_bbox_Inr)
  then show ?thesis by (cases b) (simp add: kalman_new_def bbox_to_measurement_def Let_def)
qed

lemma predict_all_ids:
  "set (map kt_id (map fst (predict_all fin ts))) \<subseteq> kt_id ` set ts"
  "distinct (map kt_id ts) \<Longrightarrow> distinct (map kt_id (map fst (predict_all fin ts)))"
proof -
  show sub: "set (map kt_id (map fst (predict_all fin ts))) \<subseteq> kt_id ` set ts" for ts
    by (auto simp: case_prod_unfold)
  show "distinct (map kt_id (map fst (predict_all fin ts)))" if "distinct (map kt_id ts)"
    using that
  proof (induction ts)
    case (Cons t ts)
    then show ?case using sub [of ts] by (auto simp: case_prod_unfold)
  qed simp
qed

lemma predict_all_ages: "t \<in> set (map fst (predict_all fin ts)) \<Longrightarrow> kt_time_since_update t > 0"
  by (auto simp: case_prod_unfold)

lemma predict_all_metadata:
  "t \<in> set (map fst (predict_all fin ts)) \<Longrightarrow> \<exists>t' \<in> set ts. kt_metadata t = kt_metadata t'"
  by (auto simp: case_prod_unfold)

lemma apply_matches_ids:
  "apply_matches solve boxes metas ms ts = (err, ts') \<Longrightarrow> map kt_id ts' = map kt_id ts"
proof (induction ms arbitrary: ts)
  case (Cons m ms)
  obtain d k where m: "m = (d, k)" by (cases m)
  show ?case
  proof (cases "kalman_update solve (boxes ! d) (Some (metas ! d)) (ts ! k)")
    case (Inl e)
    with Cons.prems m show ?thesis by simp
  next
    case (Inr t)
    then have "kt_id t = kt_id (ts ! k)" by (blast dest: kalman_update_Inr)
    then have "map kt_id (ts[k := t]) = map kt_id ts"
      by (cases "k < length ts") (simp_all add: map_update list_update_same_conv list_update_beyond)
    with Cons.IH [of "ts[k := t]"] Cons.prems m Inr show ?thesis by simp
  qed
qed simp

lemma apply_matches_track:
  assumes "apply_matches solve boxes metas ms ts = (None, ts')" "distinct (map snd ms)"
    "i < length ts"
  shows "(\<forall>d. (d, i) \<in> set ms \<longrightarrow> kt_time_since_update (ts' ! i) = 0 \<and> kt_metadata (ts' ! i) = metas ! d)
    \<and> (i \<notin> snd ` set ms \<longrightarrow> ts' ! i = ts ! i)"
  using assms
proof (induction ms arbitrary: ts)
  case (Cons m ms)
  obtain d k where m: "m = (d, k)" by (cases m)
  obtain t where t: "kalman_update solve (boxes ! d) (Some (metas ! d)) (ts ! k) = Inr t"
    and rest: "apply_matches solve boxes metas ms (ts[k := t]) = (None, ts')"
    using Cons.prems(1) m by (auto split: sum.splits)
  note up = kalman_update_Inr [OF t]
  have IH: "(\<forall>d. (d, i) \<in> set ms \<longrightarrow> kt_time_since_update (ts' ! i) = 0 \<and> kt_metadata (ts' ! i) = metas ! d)
    \<and> (i \<notin> snd ` set ms \<longrightarrow> ts' ! i = ts[k := t] ! i)"
    by (rule Cons.IH) (use rest Cons.prems in auto)
  have k: "k \<notin> snd ` set ms" using Cons.prems(2) m by auto
  show ?case
  proof (cases "i = k")
    case True
    with IH k up Cons.prems(3) m show ?thesis by (force simp: image_iff)
  next
    case False
    with IH m show ?thesis by auto
  qed
qed simp

lemma apply_matches_error:
  assumes "apply_matches solve boxes metas ms ts = (Some e, ts')"
    "\<forall>(d, k) \<in> set ms. bbox_ok (boxes ! d)"
  shows "e = LibraryError ''LinAlgError''"
  using assms
proof (induction ms arbitrary: ts)
  case (Cons m ms)
  then show ?case by (cases m) (auto split: sum.splits dest: kalman_update_Inl)
qed simp

lemma spawn_tracks_fresh:
  "spawn_tracks boxes metas ds ts n = (err, ts', n') \<Longrightarrow>
     n \<le> n' \<and> (\<exists>new. ts' = ts @ new \<and> map kt_id new = [n..n' - 1]
        \<and> (err = None \<longrightarrow> map kt_metadata new = map ((!) metas) ds))"
proof (induction ds arbitrary: ts n)
  case (Cons d ds)
  show ?case
  proof (cases "kalman_new (boxes ! d) (Some (metas ! d)) n")
    case (Inl e)
    with Cons.prems show ?thesis by auto
  next
    case (Inr p)
    then obtain t m where p: "kalman_new (boxes ! d) (Some (metas ! d)) n = Inr (t, m)"
      by (cases p) auto
    note new = kalman_new_Inr [OF p]
    from Cons.prems p new have "spawn_tracks boxes metas ds (ts @ [t]) (n + 1) = (err, ts', n')"
      by simp
    from Cons.IH [OF this] obtain new' where le: "n + 1 \<le> n'"
      and app: "ts' = ts @ [t] @ new'" "map kt_id new' = [n + 1..n' - 1]"
      and meta: "err = None \<longrightarrow> map kt_metadata new' = map ((!) metas) ds"
      by auto
    have "map kt_id (t # new') = [n..n' - 1]" using app new le by (simp add: upto_rec1)
    moreover have "err = None \<longrightarrow> map kt_metadata (t # new') = map ((!) metas) (d # ds)"
      using meta new by simp
    ultimately show ?thesis using app(1) le by (intro conjI exI [of _ "t # new'"]) auto
  qed
qed auto

lemma spawn_tracks_ok:
  "\<forall>d \<in> set ds. bbox_ok (boxes ! d) \<Longrightarrow> fst (spawn_tracks boxes metas ds ts n) = None"
proof (induction ds arbitrary: ts n)
  case (Cons d ds)
  then have "bbox_ok (boxes ! d)" by simp
  then obtain t where "kalman_new (boxes ! d) (Some (metas ! d)) n = Inr (t, n + 1)"
    using kalman_new_ok by blast
  moreover have "fst (spawn_tracks boxes metas ds (ts @ [t]) (n + 1)) = None"
    by (rule Cons.IH) (use Cons.prems in simp)
  ultimately show ?case by simp
qed simp

definition shows_track :: "tracked_object \<Rightarrow> kalman_tracker \<Rightarrow> bool" where
  "shows_track ob t \<longleftrightarrow> tracked_ok ob \<and> trk_track_id ob = kt_id t
     \<and> trk_class_id ob = tm_class_id (kt_metadata t)
     \<and> trk_class_name ob = tm_class_name (kt_metadata t)
     \<and> trk_confidence ob = tm_confidence (kt_metadata t)"

lemma mk_tracked_shows:
  assumes "mk_tracked_object b (kt_id t) (tm_class_id (kt_metadata t)) (tm_class_name (kt_metadata t))
    (Finite (tm_confidence (kt_metadata t))) = Inr ob"
  shows "shows_track ob t"
proof -
  have "tracked_ok ob" using assms by (rule mk_tracked_ok)
  with assms show ?thesis
    by (auto simp: shows_track_def mk_tracked_object_def bindE_eq_Inr validate_score_Inr)
qed

lemma report_tracks_Inr:
  "report_tracks h f ts = Inr obs \<Longrightarrow>
     list_all2 shows_track obs (filter (\<lambda>t. reported h f t \<and> \<not> empty_bbox (clamped_bbox t)) ts)"
  by (induction ts arbitrary: obs) (auto simp: bindE_eq_Inr mk_tracked_shows split: if_splits)

lemma clamped_bbox_ok: "\<not> empty_bbox (clamped_bbox t) \<Longrightarrow> bbox_ok (clamped_bbox t)"
  by (cases "kalman_get_state t") (auto simp: clamped_bbox_def empty_bbox_def)

lemma mk_tracked_accepts:
  "bbox_ok b \<Longrightarrow> 0 \<le> i \<Longrightarrow> 0 \<le> c \<Longrightarrow> c \<le> 1 \<Longrightarrow>
    \<exists>ob. mk_tracked_object (Some (raw_of_bbox b)) i k n (Finite c) = Inr ob"
proof -
  assume "bbox_ok b" "0 \<le> i" "0 \<le> c" "c \<le> 1"
  then have "validate_bbox (Some (raw_of_bbox b)) = Inr b"
    "validate_score (Finite c) ''track confidence'' = Inr c"
    by (simp_all add: validate_bbox_Inr validate_score_Inr)
  with \<open>0 \<le> i\<close> show ?thesis by (simp add: mk_tracked_object_def)
qed

definition meta_ok :: "track_metadata \<Rightarrow> bool" where
  "meta_ok m \<longleftrightarrow> 0 \<le> tm_confidence m \<and> tm_confidence m \<le> 1"

lemma report_tracks_ok:
  "\<forall>t \<in> set ts. 0 \<le> kt_id t \<and> meta_ok (kt_metadata t) \<Longrightarrow> \<exists>obs. report_tracks h f ts = Inr obs"
proof (induction ts)
  case (Cons t ts)
  then obtain obs where "report_tracks h f ts = Inr obs" by auto
  moreover have "\<exists>ob. mk_tracked_object (Some (raw_of_bbox (clamped_bbox t))) (kt_id t)
      (tm_class_id (kt_metadata t)) (tm_class_name (kt_metadata t))
      (Finite (tm_confidence (kt_metadata t))) = Inr ob"
    if "\<not> empty_bbox (clamped_bbox t)"
    by (rule mk_tracked_accepts [OF clamped_bbox_ok]) (use that Cons.prems in \<open>auto simp: meta_ok_def\<close>)
  ultimately show ?case by auto
qed simp

subsection \<open>Identities\<close>

definition track_ids :: "int \<times> sort_tracker \<Rightarrow> int set" where
  "track_ids st = kt_id ` set (so_trackers (snd st))"

text \<open>A track can be reported: its identity is not negative and its confidence is one.\<close>

definition tracks_ok :: "sort_tracker \<Rightarrow> bool" where
  "tracks_ok s \<longleftrightarrow> (\<forall>t \<in> set (so_trackers s). 0 \<le> kt_id t \<and> meta_ok (kt_metadata t))"

definition reported_ids :: "(py_error + tracked_object list) \<times> int \<times> sort_tracker \<Rightarrow> int list" where
  "reported_ids r = (case fst r of Inl _ \<Rightarrow> [] | Inr obs \<Rightarrow> map trk_track_id obs)"

lemma mk_sort_ok: "mk_sort a h r = Inr s \<Longrightarrow> tracks_ok s"
  by (auto simp: mk_sort_def tracks_ok_def split: option.splits)

text \<open>What the tracks before the report look like, and how a step ends.\<close>

lemma step_ids:
  assumes "apply_matches solve boxes metas ms (map fst (predict_all fin (so_trackers s))) = (err, ts1)"
    and "spawn_tracks boxes metas ds ts1 n = (err', ts2, n')"
  shows "kt_id ` set ts1 \<subseteq> kt_id ` set (so_trackers s)"
    "kt_id ` set ts2 \<subseteq> kt_id ` set (so_trackers s) \<union> {n..<n'}" "n \<le> n'"
proof -
  show sub: "kt_id ` set ts1 \<subseteq> kt_id ` set (so_trackers s)"
    using arg_cong [OF apply_matches_ids [OF assms(1)], of set] predict_all_ids(1) [of fin "so_trackers s"] by simp
  from spawn_tracks_fresh [OF assms(2)] obtain new where le: "n \<le> n'" and ts2: "ts2 = ts1 @ new"
    and new: "map kt_id new = [n..n' - 1]" by blast
  have "kt_id ` set new = {n..<n'}" using arg_cong [OF new, of set] by auto
  then show "kt_id ` set ts2 \<subseteq> kt_id ` set (so_trackers s) \<union> {n..<n'}" using ts2 sub by auto
  show "n \<le> n'" by (rule le)
qed

lemma step_tracks:
  assumes "apply_matches solve boxes metas ms (map fst (predict_all fin (so_trackers s))) = (err, ts1)"
    and "spawn_tracks boxes metas ds ts1 n = (err', ts2, n')"
    and "distinct (map kt_id (so_trackers s))" "kt_id ` set (so_trackers s) \<subseteq> {0..<n}"
  shows "n \<le> n'" "distinct (map kt_id ts2)"
    "kt_id ` set ts2 \<subseteq> kt_id ` set (so_trackers s) \<union> {n..<n'}"
    "kt_id ` set ts1 \<subseteq> kt_id ` set (so_trackers s)" "distinct (map kt_id ts1)"
proof -
  have ids1: "map kt_id ts1 = map kt_id (map fst (predict_all fin (so_trackers s)))"
    by (rule apply_matches_ids [OF assms(1)])
  then have sub: "set (map kt_id ts1) \<subseteq> kt_id ` set (so_trackers s)"
    using predict_all_ids(1) by simp
  show d1: "distinct (map kt_id ts1)" unfolding ids1 by (rule predict_all_ids(2) [OF assms(3)])
  from spawn_tracks_fresh [OF assms(2)] obtain new where le: "n \<le> n'" and ts2: "ts2 = ts1 @ new"
    and new: "map kt_id new = [n..n' - 1]" by blast
  have new_set: "kt_id ` set new = {n..<n'}" using arg_cong [OF new, of set] by auto
  show "n \<le> n'" by (rule le)
  show "kt_id ` set ts1 \<subseteq> kt_id ` set (so_trackers s)" using sub by simp
  then show "kt_id ` set ts2 \<subseteq> kt_id ` set (so_trackers s) \<union> {n..<n'}"
    using ts2 new_set by auto
  have "set (map kt_id ts1) \<inter> set (map kt_id new) = {}" using sub assms(4) new_set by force
  then show "distinct (map kt_id ts2)" using ts2 d1 new by (simp add: distinct_upto)
qed

lemma all2_track_ids:
  "list_all2 shows_track obs ts \<Longrightarrow> map trk_track_id obs = map kt_id ts"
  by (induction rule: list_all2_induct) (auto simp: shows_track_def)

lemma report_ids:
  assumes "report_tracks h f ts = Inr obs" "distinct (map kt_id ts)"
  shows "distinct (map trk_track_id obs)" "set (map trk_track_id obs) \<subseteq> kt_id ` set ts"
  using all2_track_ids [OF report_tracks_Inr [OF assms(1)]] assms(2)
  by (auto simp: distinct_map_filter)

lemma sort_step_ids:
  assumes "sort_step solve lsa fin boxes metas (n, s) = r"
    and "distinct (map kt_id (so_trackers s))" "track_ids (n, s) \<subseteq> {0..<n}"
  shows "n \<le> fst (snd r) \<and> distinct (map kt_id (so_trackers (snd (snd r))))
    \<and> track_ids (snd r) \<subseteq> track_ids (n, s) \<union> {n..<fst (snd r)}
    \<and> distinct (reported_ids r) \<and> set (reported_ids r) \<subseteq> track_ids (n, s) \<union> {n..<fst (snd r)}"
proof -
  obtain ms ds ut where a: "associate lsa boxes (map snd (predict_all fin (so_trackers s)))
      (so_iou_threshold s) = (ms, ds, ut)" by (metis prod_cases3)
  obtain err ts1 where m: "apply_matches solve boxes metas ms
      (map fst (predict_all fin (so_trackers s))) = (err, ts1)" by force
  obtain err' ts2 n' where f: "spawn_tracks boxes metas ds ts1 n = (err', ts2, n')"
    by (metis prod_cases3)
  note st = step_tracks [OF m f assms(2) assms(3) [unfolded track_ids_def, simplified]]
  note simps = assms(1) [symmetric] sort_step_def Let_def a m f track_ids_def reported_ids_def
  show ?thesis
  proof (cases err)
    case (Some e)
    with st show ?thesis by (simp add: simps del: predict_all.simps)
  next
    case None
    show ?thesis
    proof (cases err')
      case (Some e)
      with None st show ?thesis by (simp add: simps del: predict_all.simps)
    next
      case ok: None
      show ?thesis
      proof (cases "report_tracks (so_min_hits s) (so_frame_count s + 1) ts2")
        case (Inl e)
        with None ok st show ?thesis by (simp add: simps del: predict_all.simps)
      next
        case (Inr obs)
        note rep = report_ids [OF Inr st(2)]
        have "kt_id ` {t \<in> set ts2. kt_time_since_update t \<le> so_max_age s} \<subseteq> kt_id ` set ts2" by auto
        from order_trans [OF this st(3)] order_trans [OF rep(2) st(3)] rep(1)
        have subs: "kt_id ` {t \<in> set ts2. kt_time_since_update t \<le> so_max_age s}
            \<subseteq> kt_id ` set (so_trackers s) \<union> {n..<n'}"
          "set (map trk_track_id obs) \<subseteq> kt_id ` set (so_trackers s) \<union> {n..<n'}"
          "distinct (map trk_track_id obs)" .
        have r: "r = (Inr obs, n', s\<lparr>so_frame_count := so_frame_count s + 1,
            so_trackers := filter (\<lambda>t. kt_time_since_update t \<le> so_max_age s) ts2\<rparr>)"
          using None ok Inr by (simp add: simps del: predict_all.simps)
        show ?thesis
          unfolding r track_ids_def reported_ids_def using subs st(1,2)
          by (simp add: distinct_map_filter)
      qed
    qed
  qed
qed

lemma sort_run_nth:
  assumes "i < length fs"
  shows "\<exists>st. sort_run solve lsa fin fs st0 ! i
      = sort_update_objects solve lsa fin (snd (fs ! i)) (fst st + int (fst (fs ! i)), snd st)
    \<and> st = (if i = 0 then st0 else snd (sort_run solve lsa fin fs st0 ! (i - 1)))"
  using assms
proof (induction fs arbitrary: i st0)
  case (Cons f fs)
  obtain others ds where f: "f = (others, ds)" by (cases f)
  show ?case
  proof (cases i)
    case 0
    with f show ?thesis by (intro exI [of _ st0]) (simp add: Let_def)
  next
    case (Suc j)
    with Cons.prems have "j < length fs" by simp
    from Cons.IH [OF this] show ?thesis using f Suc by (cases j) (auto simp: Let_def)
  qed
qed simp

lemma length_sort_run [simp]: "length (sort_run solve lsa fin fs st) = length fs"
  by (induction solve lsa fin fs st rule: sort_run.induct) (simp_all add: Let_def)

text \<open>An identity below the counter that no track has is never seen again.\<close>

definition ids_ok :: "int \<times> sort_tracker \<Rightarrow> bool" where
  "ids_ok st \<longleftrightarrow> 0 \<le> fst st \<and> distinct (map kt_id (so_trackers (snd st))) \<and> track_ids st \<subseteq> {0..<fst st}"

lemma run_step_ids:
  assumes "r = sort_update_objects solve lsa fin ds (fst st + int k, snd st)" "ids_ok st"
  shows "ids_ok (snd r) \<and> fst st \<le> fst (snd r) \<and> distinct (reported_ids r)
    \<and> set (reported_ids r) \<subseteq> {0..<fst (snd r)}
    \<and> track_ids (snd r) \<subseteq> track_ids st \<union> {fst st..}
    \<and> set (reported_ids r) \<subseteq> track_ids st \<union> {fst st..}"
proof -
  have ids: "track_ids (fst st + int k, snd st) = track_ids st" by (simp add: track_ids_def)
  have sub: "track_ids st \<subseteq> {0..<fst st + int k}" "track_ids st \<subseteq> {0..<fst st}"
    using assms(2) by (auto simp: ids_ok_def)
  note s = sort_step_ids [OF assms(1) [unfolded sort_update_objects_def, symmetric]]
  have "fst st + int k \<le> fst (snd r) \<and> distinct (map kt_id (so_trackers (snd (snd r))))
    \<and> track_ids (snd r) \<subseteq> track_ids st \<union> {fst st + int k..<fst (snd r)}
    \<and> distinct (reported_ids r) \<and> set (reported_ids r) \<subseteq> track_ids st \<union> {fst st + int k..<fst (snd r)}"
    using s sub(1) assms(2) unfolding ids by (simp add: ids_ok_def)
  moreover have "{0..<fst st} \<union> {fst st + int k..<fst (snd r)} \<subseteq> {0..<fst (snd r)}"
    "{fst st + int k..<fst (snd r)} \<subseteq> {fst st..}"
    using calculation assms(2) by (auto simp: ids_ok_def)
  moreover have "0 \<le> fst st" using assms(2) by (simp add: ids_ok_def)
  ultimately show ?thesis using sub(2) unfolding ids_ok_def by (intro conjI; (linarith | blast))
qed

lemma run_ids_ok:
  assumes "ids_ok st0" "i < length fs"
  shows "ids_ok (snd (sort_run solve lsa fin fs st0 ! i))"
  using assms(2)
proof (induction i)
  case 0
  obtain st where "sort_run solve lsa fin fs st0 ! 0
      = sort_update_objects solve lsa fin (snd (fs ! 0)) (fst st + int (fst (fs ! 0)), snd st)"
    "st = st0"
    using sort_run_nth [OF 0] by metis
  then show ?case using run_step_ids assms(1) by blast
next
  case (Suc i)
  then have "ids_ok (snd (sort_run solve lsa fin fs st0 ! i))" by simp
  with sort_run_nth [OF Suc.prems, of solve lsa fin st0] show ?case
    using run_step_ids by (metis diff_Suc_1 nat.distinct(1))
qed

lemma run_frame_ids:
  assumes "ids_ok st0" "Suc i < length fs"
  shows "fst (snd (sort_run solve lsa fin fs st0 ! i)) \<le> fst (snd (sort_run solve lsa fin fs st0 ! Suc i))
    \<and> track_ids (snd (sort_run solve lsa fin fs st0 ! Suc i))
        \<subseteq> track_ids (snd (sort_run solve lsa fin fs st0 ! i)) \<union> {fst (snd (sort_run solve lsa fin fs st0 ! i))..}
    \<and> set (reported_ids (sort_run solve lsa fin fs st0 ! Suc i))
        \<subseteq> track_ids (snd (sort_run solve lsa fin fs st0 ! i)) \<union> {fst (snd (sort_run solve lsa fin fs st0 ! i))..}"
proof -
  have "ids_ok (snd (sort_run solve lsa fin fs st0 ! i))" using run_ids_ok assms by simp
  with sort_run_nth [OF assms(2), of solve lsa fin st0] show ?thesis
    using run_step_ids by (metis diff_Suc_1 nat.distinct(1))
qed

lemma run_reported:
  assumes "ids_ok st0" "i < length fs"
  shows "distinct (reported_ids (sort_run solve lsa fin fs st0 ! i))
    \<and> set (reported_ids (sort_run solve lsa fin fs st0 ! i))
        \<subseteq> {0..<fst (snd (sort_run solve lsa fin fs st0 ! i))}"
proof -
  obtain st where st: "sort_run solve lsa fin fs st0 ! i
      = sort_update_objects solve lsa fin (snd (fs ! i)) (fst st + int (fst (fs ! i)), snd st)"
    "st = (if i = 0 then st0 else snd (sort_run solve lsa fin fs st0 ! (i - 1)))"
    using sort_run_nth [OF assms(2)] by metis
  have "ids_ok st" using st(2) run_ids_ok [OF assms(1)] assms by simp
  from run_step_ids [OF st(1) this] show ?thesis by simp
qed

lemma gone_stays_gone:
  assumes "ids_ok st0" "j < k" "k < length fs"
    and "x < fst (snd (sort_run solve lsa fin fs st0 ! j))"
    and "x \<notin> track_ids (snd (sort_run solve lsa fin fs st0 ! j))"
  shows "x < fst (snd (sort_run solve lsa fin fs st0 ! k))
    \<and> x \<notin> track_ids (snd (sort_run solve lsa fin fs st0 ! k))
    \<and> x \<notin> set (reported_ids (sort_run solve lsa fin fs st0 ! k))"
  using assms(2,3)
proof (induction k)
  case (Suc k)
  from run_frame_ids [OF assms(1) Suc.prems(2), of solve lsa fin]
  have step: "x < fst (snd (sort_run solve lsa fin fs st0 ! k)) \<Longrightarrow>
      x \<notin> track_ids (snd (sort_run solve lsa fin fs st0 ! k)) \<Longrightarrow> ?case"
    by (auto dest: less_le_trans)
  show ?case
  proof (cases "j = k")
    case True
    with assms(4,5) step show ?thesis by simp
  next
    case False
    with Suc step show ?thesis by simp
  qed
qed simp

lemma run_counter_mono:
  assumes "ids_ok st0" "i \<le> j" "j < length fs"
  shows "fst (snd (sort_run solve lsa fin fs st0 ! i)) \<le> fst (snd (sort_run solve lsa fin fs st0 ! j))"
  using assms(2,3)
proof (induction j)
  case (Suc j)
  then show ?case
    using run_frame_ids [OF assms(1) Suc.prems(2), of solve lsa fin] by (cases "i = Suc j") force+
qed simp

text \<open>
  As long as no two trackers of the process make a track at the same time: the identities reported
  in a frame are distinct, and an identity that was reported and whose track was dropped is never
  reported again, whatever identities the trackers of the other cameras take between the frames of
  this one. The class counter has no lock, so two threads that read it together can break this.
\<close>

lemma track_identities:
  assumes "mk_sort max_age min_hits threshold = Inr s" and "1 \<le> n"
    and "i \<le> j" "j < k" "k < length fs"
    and "x \<in> set (reported_ids (sort_run solve lsa fin fs (n, s) ! i))"
    and "x \<notin> track_ids (snd (sort_run solve lsa fin fs (n, s) ! j))"
  shows "distinct (reported_ids (sort_run solve lsa fin fs (n, s) ! k))
    \<and> x \<notin> set (reported_ids (sort_run solve lsa fin fs (n, s) ! k))"
proof -
  have "so_trackers s = []" using assms(1) by (auto simp: mk_sort_def split: option.splits)
  then have ok: "ids_ok (n, s)" using assms(2) by (simp add: ids_ok_def track_ids_def)
  have i: "i < length fs" and jn: "j < length fs" using assms(3-5) by simp_all
  have "x < fst (snd (sort_run solve lsa fin fs (n, s) ! i))"
    using run_reported [OF ok i, of solve lsa fin] assms(6) by auto
  then have "x < fst (snd (sort_run solve lsa fin fs (n, s) ! j))"
    using run_counter_mono [OF ok assms(3) jn, of solve lsa fin] by simp
  then show ?thesis
    using gone_stays_gone [OF ok assms(4,5)] assms(7) run_reported [OF ok assms(5)] by blast
qed

subsection \<open>Every reported object is one detection\<close>

definition same_subject :: "tracked_object \<Rightarrow> detection \<Rightarrow> bool" where
  "same_subject ob d \<longleftrightarrow> tracked_ok ob \<and> trk_class_id ob = det_class_id d
     \<and> trk_class_name ob = det_class_name d \<and> trk_confidence ob = det_confidence d"

lemma associate_ok:
  assumes "assignment_spec lsa" "associate lsa ds ts th = (ms, fresh, lost)"
  shows "distinct (map fst ms)" "distinct (map snd ms)" "\<forall>(d, k) \<in> set ms. d < length ds \<and> k < length ts"
    "distinct fresh" "set fresh = {..<length ds} - fst ` set ms"
proof -
  define c where "c = map (map uminus) (iou_batch ds ts)"
  have rect: "list_all (\<lambda>r. length r = length ts) c" "length c = length ds"
    by (auto simp: c_def iou_batch_def list_all_iff)
  have spec: "distinct (map fst (lsa c))" "distinct (map snd (lsa c))"
    "\<forall>(i, j) \<in> set (lsa c). i < length ds \<and> j < length ts"
    using assms(1) rect unfolding assignment_spec_def by metis+
  have ms: "ts = [] \<and> ms = [] \<or> (\<exists>P. ms = filter P (lsa c))"
    using assms(2) by (auto simp: associate_def Let_def c_def split: if_splits)
  with spec show "distinct (map fst ms)" "distinct (map snd ms)"
    "\<forall>(d, k) \<in> set ms. d < length ds \<and> k < length ts"
    by (auto simp: distinct_map_filter)
  have "fresh = filter (\<lambda>d. d \<notin> fst ` set ms) [0..<length ds]"
    using assms(2) by (auto simp: associate_def Let_def split: if_splits)
  then show "distinct fresh" "set fresh = {..<length ds} - fst ` set ms" by auto
qed

lemma filter_by_index: "filter P xs = map ((!) xs) (filter (\<lambda>i. P (xs ! i)) [0..<length xs])"
proof -
  have "filter P (map ((!) xs) [0..<length xs]) = map ((!) xs) (filter (\<lambda>i. P (xs ! i)) [0..<length xs])"
    by (simp add: filter_map comp_def)
  then show ?thesis by (simp add: map_nth)
qed

text \<open>The tracks that are up to date after the matches and the new tracks, by position, and the
  detections they were updated with or made of.\<close>

definition owner :: "(nat \<times> nat) list \<Rightarrow> nat list \<Rightarrow> nat \<Rightarrow> nat \<Rightarrow> nat" where
  "owner ms fresh n i =
     (if i < n then the (map_of (map prod.swap ms) i) else fresh ! (i - n))"

lemma owner_matched:
  assumes "distinct (map snd ms)" "(d, i) \<in> set ms" "i < n"
  shows "owner ms fresh n i = d"
proof -
  have "distinct (map fst (map prod.swap ms))" using assms(1) by (simp add: comp_def)
  moreover have "(i, d) \<in> set (map prod.swap ms)" using assms(2) by force
  ultimately have "map_of (map prod.swap ms) i = Some d" by (rule map_of_is_SomeI)
  with assms(3) show ?thesis by (simp add: owner_def)
qed

lemma step_owners:
  assumes match: "apply_matches solve boxes metas ms ts = (None, ts1)"
    and spawn: "spawn_tracks boxes metas fresh ts1 n = (None, ts2, n')"
    and dist: "distinct (map fst ms)" "distinct (map snd ms)" "distinct fresh"
    and range: "\<forall>(d, k) \<in> set ms. d < m \<and> k < length ts" "set fresh = {..<m} - fst ` set ms"
    and old: "\<forall>t \<in> set ts. kt_time_since_update t > 0"
  shows "\<forall>i < length ts2. kt_time_since_update (ts2 ! i) = 0 \<longrightarrow>
      owner ms fresh (length ts) i < m \<and> kt_metadata (ts2 ! i) = metas ! owner ms fresh (length ts) i"
    and "inj_on (owner ms fresh (length ts))
      {i. i < length ts2 \<and> kt_time_since_update (ts2 ! i) = 0}"
proof -
  have len1: "length ts1 = length ts"
    using arg_cong [OF apply_matches_ids [OF match], of length] by simp
  from spawn_tracks_fresh [OF spawn] obtain new where ts2: "ts2 = ts1 @ new"
    and new: "map kt_metadata new = map ((!) metas) fresh" by auto
  have len2: "length new = length fresh" using arg_cong [OF new, of length] by simp
  have matched: "(owner ms fresh (length ts) i, i) \<in> set ms"
    if "i < length ts" "kt_time_since_update (ts2 ! i) = 0" for i
  proof -
    have "ts2 ! i = ts1 ! i" using that(1) ts2 len1 by (simp add: nth_append)
    then have "i \<in> snd ` set ms"
      using that old apply_matches_track [OF match dist(2) that(1)] by (metis nth_mem less_numeral_extra(3))
    then obtain d where "(d, i) \<in> set ms" by auto
    with owner_matched [OF dist(2) this that(1)] show ?thesis by simp
  qed
  have made: "owner ms fresh (length ts) i = fresh ! (i - length ts)"
    "owner ms fresh (length ts) i \<in> set fresh" if "\<not> i < length ts" "i < length ts2" for i
    using that ts2 len1 len2 by (simp_all add: owner_def)
  show "\<forall>i < length ts2. kt_time_since_update (ts2 ! i) = 0 \<longrightarrow>
      owner ms fresh (length ts) i < m \<and> kt_metadata (ts2 ! i) = metas ! owner ms fresh (length ts) i"
  proof (intro allI impI)
    fix i assume i: "i < length ts2" "kt_time_since_update (ts2 ! i) = 0"
    show "owner ms fresh (length ts) i < m \<and> kt_metadata (ts2 ! i) = metas ! owner ms fresh (length ts) i"
    proof (cases "i < length ts")
      case True
      have "ts2 ! i = ts1 ! i" using True ts2 len1 by (simp add: nth_append)
      with matched [OF True i(2)] range(1) apply_matches_track [OF match dist(2) True]
      show ?thesis by auto
    next
      case False
      have "kt_metadata (ts2 ! i) = map kt_metadata new ! (i - length ts)"
        using False i(1) ts2 len1 by (simp add: nth_append)
      also have "\<dots> = metas ! (fresh ! (i - length ts))"
        using False i(1) ts2 len1 len2 unfolding new by simp
      finally show ?thesis using made [OF False i(1)] range(2) by auto
    qed
  qed
  show "inj_on (owner ms fresh (length ts)) {i. i < length ts2 \<and> kt_time_since_update (ts2 ! i) = 0}"
  proof (rule inj_onI, clarsimp)
    fix i j
    assume i: "i < length ts2" "kt_time_since_update (ts2 ! i) = 0"
      and j: "j < length ts2" "kt_time_since_update (ts2 ! j) = 0"
      and eq: "owner ms fresh (length ts) i = owner ms fresh (length ts) j"
    have mixed: "i < length ts \<longleftrightarrow> j < length ts"
      using matched i j eq made range(2) by (metis DiffD2 image_eqI fst_conv)
    show "i = j"
    proof (cases "i < length ts")
      case True
      with mixed matched i j eq dist(1) show ?thesis by (metis eq_key_imp_eq_value)
    next
      case False
      with mixed made i j eq have "fresh ! (i - length ts) = fresh ! (j - length ts)" by metis
      moreover have "i - length ts < length fresh" "j - length ts < length fresh"
        using False mixed i j ts2 len1 len2 by auto
      ultimately have "i - length ts = j - length ts" using dist(3) by (simp add: nth_eq_iff_index_eq)
      with False mixed show ?thesis by simp
    qed
  qed
qed

lemma apply_matches_meta_ok:
  assumes "apply_matches solve boxes metas ms ts = (err, ts')"
    "\<forall>t \<in> set ts. meta_ok (kt_metadata t)" "\<forall>(d, k) \<in> set ms. meta_ok (metas ! d)"
  shows "\<forall>t \<in> set ts'. meta_ok (kt_metadata t)"
  using assms
proof (induction ms arbitrary: ts)
  case (Cons m ms)
  obtain d k where m: "m = (d, k)" by (cases m)
  show ?case
  proof (cases "kalman_update solve (boxes ! d) (Some (metas ! d)) (ts ! k)")
    case (Inl e)
    with Cons.prems m show ?thesis by simp
  next
    case (Inr t)
    have "\<forall>t' \<in> set (ts[k := t]). meta_ok (kt_metadata t')"
      using Cons.prems(2,3) m kalman_update_Inr [OF Inr] set_update_subset_insert [of ts k t] by auto
    with Cons.IH [of "ts[k := t]"] Cons.prems m Inr show ?thesis by simp
  qed
qed simp

lemma spawn_tracks_meta_ok:
  assumes "spawn_tracks boxes metas ds ts n = (err, ts', n')"
    "\<forall>t \<in> set ts. meta_ok (kt_metadata t)" "\<forall>d \<in> set ds. meta_ok (metas ! d)"
  shows "\<forall>t \<in> set ts'. meta_ok (kt_metadata t)"
  using assms
proof (induction ds arbitrary: ts n)
  case (Cons d ds)
  show ?case
  proof (cases "kalman_new (boxes ! d) (Some (metas ! d)) n")
    case (Inl e)
    with Cons.prems show ?thesis by simp
  next
    case (Inr p)
    then obtain t m where p: "kalman_new (boxes ! d) (Some (metas ! d)) n = Inr (t, m)"
      by (cases p) auto
    have "\<forall>t' \<in> set (ts @ [t]). meta_ok (kt_metadata t')"
      using Cons.prems(2,3) kalman_new_Inr [OF p] by simp
    with Cons.IH [of "ts @ [t]" m] Cons.prems p show ?thesis by simp
  qed
qed simp

text \<open>The metadata of a detection.\<close>

abbreviation detection_meta :: "detection \<Rightarrow> track_metadata" where
  "detection_meta d \<equiv> \<lparr>tm_class_id = det_class_id d, tm_class_name = det_class_name d,
     tm_confidence = det_confidence d\<rparr>"

lemma shows_detection:
  "shows_track ob t \<Longrightarrow> kt_metadata t = detection_meta d \<Longrightarrow> same_subject ob d"
  by (simp add: shows_track_def same_subject_def)

lemma reported_subjects:
  assumes rep: "report_tracks h f ts = Inr obs"
    and own: "\<forall>i < length ts. kt_time_since_update (ts ! i) = 0 \<longrightarrow>
      own i < length ds \<and> kt_metadata (ts ! i) = map detection_meta ds ! own i"
    and inj: "inj_on own {i. i < length ts \<and> kt_time_since_update (ts ! i) = 0}"
  shows "\<exists>js. distinct js \<and> set js \<subseteq> {..<length ds} \<and> list_all2 (\<lambda>ob j. same_subject ob (ds ! j)) obs js"
proof -
  define sel where "sel = (\<lambda>t. reported h f t \<and> \<not> empty_bbox (clamped_bbox t))"
  define ks where "ks = filter (\<lambda>i. sel (ts ! i)) [0..<length ts]"
  have ks: "set ks \<subseteq> {i. i < length ts \<and> kt_time_since_update (ts ! i) = 0}" "distinct ks"
    by (auto simp: ks_def sel_def reported_def)
  have "distinct (map own ks)" using ks inj by (simp add: distinct_map inj_on_subset)
  moreover have "set (map own ks) \<subseteq> {..<length ds}" using ks(1) own by auto
  moreover have "list_all2 (\<lambda>ob k. shows_track ob (ts ! k)) obs ks"
    using report_tracks_Inr [OF rep] filter_by_index [of sel ts]
    by (simp add: sel_def ks_def list_all2_map2)
  then have "list_all2 (\<lambda>ob k. same_subject ob (ds ! own k)) obs ks"
  proof (rule list.rel_mono_strong)
    fix ob k assume k: "k \<in> set ks" and "shows_track ob (ts ! k)"
    moreover have "kt_metadata (ts ! k) = detection_meta (ds ! own k)" using own k ks(1) by auto
    ultimately show "same_subject ob (ds ! own k)" by (blast intro: shows_detection)
  qed
  then have "list_all2 (\<lambda>ob j. same_subject ob (ds ! j)) obs (map own ks)"
    by (simp add: list_all2_map2)
  ultimately show ?thesis by blast
qed

text \<open>The tracks after a frame, whatever its end.\<close>

definition subjects_ok :: "detection list \<times> (py_error + tracked_object list) \<Rightarrow> bool" where
  "subjects_ok f \<longleftrightarrow>
     (case f of (ds, r) \<Rightarrow>
        r = Inl (LibraryError ''LinAlgError'')
        \<or> (\<exists>obs js. r = Inr obs \<and> distinct js \<and> set js \<subseteq> {..<length ds}
             \<and> list_all2 (\<lambda>ob j. same_subject ob (ds ! j)) obs js))"

lemma frame_subjects:
  assumes spec: "assignment_spec lsa" and ok: "tracks_ok s" and n: "0 \<le> n" and ds: "list_all detection_ok ds"
    and r: "r = sort_update_objects solve lsa fin ds (n, s)"
  shows "tracks_ok (snd (snd r)) \<and> subjects_ok (ds, fst r)"
proof -
  let ?boxes = "map det_bbox ds" and ?metas = "map detection_meta ds"
  obtain ms fresh ut where a: "associate lsa ?boxes (map snd (predict_all fin (so_trackers s)))
      (so_iou_threshold s) = (ms, fresh, ut)" by (metis prod_cases3)
  obtain err ts1 where m: "apply_matches solve ?boxes ?metas ms
      (map fst (predict_all fin (so_trackers s))) = (err, ts1)" by force
  obtain err' ts2 n' where f: "spawn_tracks ?boxes ?metas fresh ts1 n = (err', ts2, n')"
    by (metis prod_cases3)
  note ao = associate_ok [OF spec a, simplified length_map]
  have range: "\<forall>(d, k) \<in> set ms. d < length ds" "\<forall>d \<in> set fresh. d < length ds" using ao by auto
  have valid: "d < length ds \<Longrightarrow> bbox_ok (?boxes ! d) \<and> meta_ok (?metas ! d)" for d
    using ds by (simp add: list_all_length detection_ok_def meta_ok_def)
  have meta: "\<forall>t \<in> set ts1. meta_ok (kt_metadata t)" "\<forall>t \<in> set ts2. meta_ok (kt_metadata t)"
  proof -
    have "\<forall>t \<in> set (map fst (predict_all fin (so_trackers s))). meta_ok (kt_metadata t)"
      using ok predict_all_metadata unfolding tracks_ok_def by fastforce
    from apply_matches_meta_ok [OF m this] range(1) valid
    show ts1: "\<forall>t \<in> set ts1. meta_ok (kt_metadata t)" by blast
    show "\<forall>t \<in> set ts2. meta_ok (kt_metadata t)"
      by (rule spawn_tracks_meta_ok [OF f ts1]) (use range(2) valid in blast)
  qed
  have "kt_id ` set (so_trackers s) \<subseteq> {0..}" using ok by (auto simp: tracks_ok_def)
  with step_ids [OF m f] n have "kt_id ` set ts1 \<subseteq> {0..}" "kt_id ` set ts2 \<subseteq> {0..}" by fastforce+
  with meta have tracks: "\<forall>t \<in> set ts1. 0 \<le> kt_id t \<and> meta_ok (kt_metadata t)"
    "\<forall>t \<in> set ts2. 0 \<le> kt_id t \<and> meta_ok (kt_metadata t)" by auto
  note simps = r sort_update_objects_def sort_step_def Let_def a m f
  show ?thesis
  proof (cases err)
    case (Some e)
    have "e = LibraryError ''LinAlgError''"
      using apply_matches_error m [unfolded Some] range(1) valid by blast
    moreover have "r = (Inl e, n, s\<lparr>so_frame_count := so_frame_count s + 1, so_trackers := ts1\<rparr>)"
      using Some by (simp add: simps del: predict_all.simps)
    ultimately show ?thesis using tracks(1) by (simp add: tracks_ok_def subjects_ok_def)
  next
    case None
    have none': "err' = None"
      using spawn_tracks_ok [of fresh ?boxes ?metas ts1 n] f range(2) valid by simp
    obtain obs where rep: "report_tracks (so_min_hits s) (so_frame_count s + 1) ts2 = Inr obs"
      using report_tracks_ok [OF tracks(2)] by blast
    have res: "r = (Inr obs, n', s\<lparr>so_frame_count := so_frame_count s + 1,
        so_trackers := filter (\<lambda>t. kt_time_since_update t \<le> so_max_age s) ts2\<rparr>)"
      using None none' rep by (simp add: simps del: predict_all.simps)
    have cand: "\<forall>(d, k) \<in> set ms. d < length ds \<and> k < length (map fst (predict_all fin (so_trackers s)))"
      using ao(3) by simp
    have ages: "\<forall>t \<in> set (map fst (predict_all fin (so_trackers s))). kt_time_since_update t > 0"
      using predict_all_ages by blast
    note own = step_owners [OF m [unfolded None] f [unfolded none'] ao(1,2,4) cand ao(5) ages]
    from reported_subjects [OF rep own] show ?thesis
      using tracks(2) by (auto simp: res tracks_ok_def subjects_ok_def)
  qed
qed

text \<open>The frames of one tracker; each finds the class counter at some value, whatever the other
  trackers of the process have done to it since the last frame.\<close>

fun sort_frames ::
  "(mat \<Rightarrow> mat \<Rightarrow> mat option) \<Rightarrow> (mat \<Rightarrow> (nat \<times> nat) list) \<Rightarrow> (bbox \<Rightarrow> bool)
    \<Rightarrow> (int \<times> detection list) list \<Rightarrow> sort_tracker
    \<Rightarrow> (detection list \<times> (py_error + tracked_object list)) list" where
  "sort_frames solve lsa fin [] s = []"
| "sort_frames solve lsa fin ((next_id, ds) # fs) s =
     (case sort_update_objects solve lsa fin ds (next_id, s) of
        (r, _, s') \<Rightarrow> (ds, r) # sort_frames solve lsa fin fs s')"

text \<open>
  C37. In every frame of a tracker that is given valid detections, whatever the frames before were
  and whatever the other trackers did to the identity counter in between: either the linear solver
  fails, or every object reported is valid and carries class, name and confidence of a detection of
  this very frame, and no detection is reported twice.
\<close>

theorem one_detection_per_track:
  assumes "assignment_spec lsa" and "mk_sort max_age min_hits threshold = Inr s"
    and "list_all (\<lambda>(n, ds). 0 \<le> n \<and> list_all detection_ok ds) frames"
  shows "list_all subjects_ok (sort_frames solve lsa fin frames s)"
proof -
  have "tracks_ok s \<Longrightarrow> list_all subjects_ok (sort_frames solve lsa fin frames s)" for s
    using assms(3)
  proof (induction frames arbitrary: s)
    case (Cons f fs)
    obtain n ds where f: "f = (n, ds)" by (cases f)
    obtain r n' s' where u: "sort_update_objects solve lsa fin ds (n, s) = (r, n', s')" by (metis prod_cases3)
    from frame_subjects [OF assms(1) Cons.prems(1) _ _ u [symmetric]] Cons.prems(2)
    have "tracks_ok s'" "subjects_ok (ds, r)" by (simp_all add: f)
    with Cons.IH [of s'] Cons.prems(2) show ?case by (simp add: f u)
  qed simp
  from this [OF mk_sort_ok [OF assms(2)]] show ?thesis .
qed

subsection \<open>Witnesses\<close>

text \<open>A legal assignment, and two frames of a tracker that forgets at once: the person of the
  first frame is gone in the second.\<close>

definition diagonal_assignment :: "mat \<Rightarrow> (nat \<times> nat) list" where
  "diagonal_assignment c =
     (case c of [] \<Rightarrow> [] | r # _ \<Rightarrow> map (\<lambda>i. (i, i)) [0..<min (length c) (length r)])"

lemma diagonal_assignment_spec: "assignment_spec diagonal_assignment"
  unfolding assignment_spec_def
proof (intro allI impI)
  fix c :: mat and n assume "list_all (\<lambda>r. length r = n) c"
  then show "distinct (map fst (diagonal_assignment c)) \<and> distinct (map snd (diagonal_assignment c)) \<and>
      (\<forall>(i, j) \<in> set (diagonal_assignment c). i < length c \<and> j < n)"
    by (cases c) (auto simp: diagonal_assignment_def comp_def)
qed

definition fresh_sort :: sort_tracker where
  "fresh_sort = \<lparr>so_max_age = 0, so_min_hits = 1, so_iou_threshold = 3 / 10, so_trackers = [],
     so_frame_count = 0\<rparr>"

definition walker :: detection where
  "walker = \<lparr>det_bbox = (10, 20, 40, 80), det_confidence = 9 / 10, det_class_id = 0,
     det_class_name = ''person''\<rparr>"

lemma fresh_sort_made: "mk_sort (PyInt 0) (PyInt 1) (PyFloat (Finite (3 / 10))) = Inr fresh_sort"
  by (simp add: mk_sort_def fresh_sort_def)

lemma first_frame_returns:
  assumes "so_trackers s = []" "0 \<le> n" "list_all detection_ok ds"
  shows "\<exists>obs. fst (sort_update_objects solve lsa fin ds (n, s)) = Inr obs"
proof -
  let ?boxes = "map det_bbox ds" and ?metas = "map detection_meta ds"
  have ds: "d < length ds \<Longrightarrow> bbox_ok (?boxes ! d) \<and> meta_ok (?metas ! d)" for d
    using assms(3) by (simp add: list_all_length detection_ok_def meta_ok_def)
  obtain err ts n' where f: "spawn_tracks ?boxes ?metas [0..<length ds] [] n = (err, ts, n')"
    by (metis prod_cases3)
  have err: "err = None" using spawn_tracks_ok [of "[0..<length ds]" ?boxes ?metas "[]" n] f ds by simp
  have "\<forall>t \<in> set ts. meta_ok (kt_metadata t)" by (rule spawn_tracks_meta_ok [OF f]) (use ds in auto)
  moreover have "\<forall>t \<in> set ts. 0 \<le> kt_id t"
  proof -
    have "map kt_id ts = [n..n' - 1]" using spawn_tracks_fresh [OF f] by auto
    then have "set (map kt_id ts) = {n..n' - 1}" by (simp only: set_upto)
    then have "kt_id ` set ts = {n..n' - 1}" by (simp only: set_map)
    then have "t \<in> set ts \<Longrightarrow> kt_id t \<in> {n..n' - 1}" for t by blast
    with assms(2) show ?thesis by fastforce
  qed
  ultimately obtain obs where "report_tracks (so_min_hits s) (so_frame_count s + 1) ts = Inr obs"
    using report_tracks_ok by blast
  then show ?thesis
    using assms(1) f err by (simp add: sort_update_objects_def sort_step_def associate_def Let_def)
qed

lemma walker_ok: "detection_ok walker"
  by (simp add: detection_ok_def walker_def)

lemma one_detection_per_track_witness:
  "\<exists>obs js. sort_frames (\<lambda>_ _. Some []) diagonal_assignment (\<lambda>_. True) [(1, [walker, walker])] fresh_sort
        = [([walker, walker], Inr obs)]
     \<and> distinct js \<and> set js \<subseteq> {..<2} \<and> list_all2 (\<lambda>ob j. same_subject ob ([walker, walker] ! j)) obs js"
proof -
  let ?r = "sort_update_objects (\<lambda>_ _. Some []) diagonal_assignment (\<lambda>_. True) [walker, walker] (1, fresh_sort)"
  have "\<exists>obs. fst ?r = Inr obs" by (rule first_frame_returns) (simp_all add: fresh_sort_def walker_ok)
  then obtain obs n s where r: "?r = (Inr obs, n, s)" by (metis prod.collapse)
  have "subjects_ok ([walker, walker], Inr obs)"
    using one_detection_per_track [OF diagonal_assignment_spec fresh_sort_made,
        of "[(1, [walker, walker])]" "\<lambda>_ _. Some []" "\<lambda>_. True"] r walker_ok by simp
  with r show ?thesis by (auto simp: subjects_ok_def numeral_2_eq_2)
qed

text \<open>A person seen once: reported in the first frame, dropped in the second.\<close>

abbreviation brief_visit :: "((py_error + tracked_object list) \<times> int \<times> sort_tracker) list" where
  "brief_visit \<equiv> sort_run (\<lambda>_ _. None) diagonal_assignment (\<lambda>_. True) [(0, [walker]), (5, []), (0, [])]
     (1, fresh_sort)"

lemma first_visit:
  obtains t ob where "sort_update_objects solve lsa fin [walker] (1, fresh_sort)
      = (Inr [ob], 2, fresh_sort\<lparr>so_frame_count := 1, so_trackers := [t]\<rparr>)"
    "trk_track_id ob = 1" "trk_class_id ob = 0" "kt_time_since_update t = 0" "kt_id t = 1"
proof -
  obtain t where t: "kalman_new (10, 20, 40, 80) (Some (detection_meta walker)) 1 = Inr (t, 2)"
    and g: "kalman_get_state t = (10, 20, 40, 80)"
    using fresh_track_state [of 10 20 40 80 "Some (detection_meta walker)" 1] by auto
  have f: "kt_time_since_update t = 0" "kt_id t = 1" "kt_metadata t = detection_meta walker" "kt_hits t = 1"
    using t by (auto simp: kalman_new_def bindE_eq_Inr)
  obtain ob where ob: "mk_tracked_object (Some (raw_of_bbox (10, 20, 40, 80))) 1
      (det_class_id walker) (det_class_name walker) (Finite (det_confidence walker)) = Inr ob"
    using mk_tracked_accepts [of "(10, 20, 40, 80)" 1 "det_confidence walker"] by (auto simp: walker_def)
  then have "trk_track_id ob = 1" "trk_class_id ob = 0"
    by (auto simp: mk_tracked_object_def bindE_eq_Inr walker_def)
  moreover have "sort_update_objects solve lsa fin [walker] (1, fresh_sort)
      = (Inr [ob], 2, fresh_sort\<lparr>so_frame_count := 1, so_trackers := [t]\<rparr>)"
    using t g f ob
    by (simp add: sort_update_objects_def sort_step_def associate_def Let_def fresh_sort_def walker_def
        reported_def clamped_bbox_def empty_bbox_def)
  ultimately show ?thesis using f that by blast
qed

lemma brief_visit_frames:
  "reported_ids (brief_visit ! 0) = [1] \<and> track_ids (snd (brief_visit ! 1)) = {}"
proof -
  obtain t ob where r: "sort_update_objects (\<lambda>_ _. None) diagonal_assignment (\<lambda>_. True) [walker] (1, fresh_sort)
      = (Inr [ob], 2, fresh_sort\<lparr>so_frame_count := 1, so_trackers := [t]\<rparr>)"
    "trk_track_id ob = 1" "kt_time_since_update t = 0"
    by (rule first_visit)
  then show ?thesis
    by (simp add: Let_def reported_ids_def)
      (simp add: sort_update_objects_def sort_step_def associate_def Let_def fresh_sort_def
        iou_batch_def diagonal_assignment_def reported_def track_ids_def case_prod_unfold)
qed

lemma track_identities_witness:
  "reported_ids (brief_visit ! 0) = [1] \<and> track_ids (snd (brief_visit ! 1)) = {}
    \<and> 1 \<notin> set (reported_ids (brief_visit ! 2))"
proof -
  have "distinct (reported_ids (brief_visit ! 2)) \<and> 1 \<notin> set (reported_ids (brief_visit ! 2))"
    by (rule track_identities [OF fresh_sort_made, where i = 0 and j = 1])
      (use brief_visit_frames in \<open>simp_all del: sort_run.simps\<close>)
  with brief_visit_frames show ?thesis by (simp del: sort_run.simps)
qed

end
