(* ===== verification/Capture.thy ===== *)
theory Capture
  imports Rsap_Prelude "HOL-Library.Multiset"
begin

section \<open>Resilient capture\<close>

text \<open>
  \<open>packages/cv-engine/cv_engine/streaming/capture.py\<close>: \<open>ResilientCapture\<close> reads frames from a
  source that may break, reconnects after a delay, and may be closed by another thread at any
  time. The OpenCV capture objects are handles, numbered in the order the factory makes them. A
  thread inside \<open>read\<close> or \<open>close\<close> is at one of the points where it takes or has left the state
  lock; a step runs one such segment. What OpenCV and the clock answer in a segment is its
  environment. \<open>capture.release()\<close> does not raise.
\<close>

subsection \<open>Source and settings\<close>

datatype capture_source = Device int | Address string

definition is_rtsp :: "capture_source \<Rightarrow> bool" where
  "is_rtsp s = (case s of Device _ \<Rightarrow> False
     | Address a \<Rightarrow> starts_with ''rtsp://'' (py_lower a) \<or> starts_with ''rtsps://'' (py_lower a))"

datatype capture_setting = BufferSize real | FourCC string | FrameWidth real | FrameHeight real | Fps real

record capture_config =
  cc_source :: capture_source
  cc_reconnect_delay :: real
  cc_width :: "int option"
  cc_height :: "int option"
  cc_fps :: "real option"

text \<open>The properties set on a candidate that opened, in order.\<close>

definition connect_settings :: "capture_config \<Rightarrow> capture_setting list" where
  "connect_settings c =
     [BufferSize 1]
     @ (if is_rtsp (cc_source c) then [FourCC ''H264''] else [])
     @ (case cc_width c of None \<Rightarrow> [] | Some w \<Rightarrow> [FrameWidth (of_int w)])
     @ (case cc_height c of None \<Rightarrow> [] | Some h \<Rightarrow> [FrameHeight (of_int h)])
     @ (case cc_fps c of None \<Rightarrow> [] | Some f \<Rightarrow> [Fps f])"

subsection \<open>State and program points\<close>

datatype capture_result = NoFrame | GotFrame nat | FactoryRaised | Closed

text \<open>
  \<open>ReadStart\<close>: the top of the loop of \<open>read\<close>. \<open>ReadWaiting\<close>: in \<open>_stop_event.wait\<close>.
  \<open>ReadCheck\<close>: the segment that decides to connect. \<open>Connecting g\<close>: in the factory, for
  generation \<open>g\<close>. \<open>Installing g h b\<close>: candidate \<open>h\<close> made, \<open>b\<close> whether it opened.
  \<open>ReadFrame\<close>: the segment that reads. \<open>CloseStart\<close>, \<open>CloseLock\<close>: \<open>close\<close>.
  \<open>Releasing hs k\<close>: the handles to release outside the lock, then \<open>k\<close>.
\<close>

datatype capture_pc =
    ReadStart | ReadWaiting | ReadCheck | Connecting nat | Installing nat nat bool | ReadFrame
  | CloseStart | CloseLock
  | Releasing "nat list" capture_pc
  | Finished capture_result

record capture =
  cp_config :: capture_config
  cp_cap :: "nat option"
  cp_stop :: bool
  cp_closed :: bool
  cp_next_reconnect_at :: real
  cp_generation :: nat
  cp_made :: nat
  cp_settings :: "(nat \<times> capture_setting list) list"
  cp_released :: "nat list"
  cp_threads :: "capture_pc list"

definition capture_init ::
  "capture_source \<Rightarrow> real \<Rightarrow> int option \<Rightarrow> int option \<Rightarrow> real option \<Rightarrow> py_error + capture" where
  "capture_init source delay width height fps =
     (if delay < 0 then Inl (ValueError ''reconnect_delay must not be negative'')
      else Inr \<lparr>cp_config = \<lparr>cc_source = source, cc_reconnect_delay = delay, cc_width = width,
                              cc_height = height, cc_fps = fps\<rparr>,
                cp_cap = None, cp_stop = False, cp_closed = False, cp_next_reconnect_at = 0,
                cp_generation = 0, cp_made = 0, cp_settings = [], cp_released = [], cp_threads = []\<rparr>)"

text \<open>What OpenCV and the clock answer in a segment: \<open>isOpened\<close> of the current or the new handle,
  whether \<open>read\<close> delivers a frame and which, whether the factory raises, the monotonic time.\<close>

record capture_env =
  ce_opened :: bool
  ce_frame :: "nat option"
  ce_raises :: bool
  ce_now :: real

definition is_opened :: "capture_env \<Rightarrow> capture \<Rightarrow> bool" where
  "is_opened e c \<longleftrightarrow> cp_cap c \<noteq> None \<and> ce_opened e"

definition releasing :: "nat list \<Rightarrow> capture_pc \<Rightarrow> capture_pc" where
  "releasing hs k = (if hs = [] then k else Releasing hs k)"

definition handles :: "nat option \<Rightarrow> nat list" where
  "handles h = (case h of None \<Rightarrow> [] | Some x \<Rightarrow> [x])"

subsection \<open>Segments\<close>

text \<open>One segment of a thread: the new state and the point where the thread is then.\<close>

definition read_start :: "capture_env \<Rightarrow> capture \<Rightarrow> capture \<times> capture_pc" where
  "read_start e c =
     (if cp_closed c then (c, Finished NoFrame)
      else if max 0 (cp_next_reconnect_at c - ce_now e) > 0 then (c, ReadWaiting)
      else (c, ReadCheck))"

definition read_waiting :: "capture \<Rightarrow> capture \<times> capture_pc" where
  "read_waiting c = (if cp_stop c then (c, Finished NoFrame) else (c, ReadStart))"

definition read_check :: "capture_env \<Rightarrow> capture \<Rightarrow> capture \<times> capture_pc" where
  "read_check e c =
     (if cp_closed c then (c, Finished NoFrame)
      else if \<not> is_opened e c
      then (let g = cp_generation c + 1
            in (c\<lparr>cp_cap := None, cp_generation := g\<rparr>, releasing (handles (cp_cap c)) (Connecting g)))
      else (c, ReadFrame))"

definition connect_make :: "capture_env \<Rightarrow> nat \<Rightarrow> capture \<Rightarrow> capture \<times> capture_pc" where
  "connect_make e g c =
     (if ce_raises e then (c, Finished FactoryRaised)
      else (let h = cp_made c
            in (c\<lparr>cp_made := h + 1,
                  cp_settings := (if ce_opened e then cp_settings c @ [(h, connect_settings (cp_config c))]
                                  else cp_settings c)\<rparr>,
                Installing g h (ce_opened e))))"

definition connect_install :: "capture_env \<Rightarrow> nat \<Rightarrow> nat \<Rightarrow> bool \<Rightarrow> capture \<Rightarrow> capture \<times> capture_pc" where
  "connect_install e g h opened c =
     (if opened \<and> \<not> cp_closed c \<and> g = cp_generation c
      then (c\<lparr>cp_cap := Some h\<rparr>, releasing (handles (cp_cap c)) ReadFrame)
      else if g = cp_generation c \<and> \<not> cp_closed c
      then (c\<lparr>cp_next_reconnect_at := ce_now e + cc_reconnect_delay (cp_config c)\<rparr>,
            releasing [h] (Finished NoFrame))
      else (c, releasing [h] (Finished NoFrame)))"

definition read_frame :: "capture_env \<Rightarrow> capture \<Rightarrow> capture \<times> capture_pc" where
  "read_frame e c =
     (if cp_closed c \<or> cp_cap c = None then (c, Finished NoFrame)
      else case ce_frame e of
             Some f \<Rightarrow> (c, Finished (GotFrame f))
           | None \<Rightarrow>
               (c\<lparr>cp_cap := None,
                  cp_next_reconnect_at := ce_now e + cc_reconnect_delay (cp_config c)\<rparr>,
                releasing (handles (cp_cap c)) (Finished NoFrame)))"

definition close_lock :: "capture \<Rightarrow> capture \<times> capture_pc" where
  "close_lock c =
     (if cp_closed c then (c, Finished Closed)
      else (c\<lparr>cp_closed := True, cp_generation := cp_generation c + 1, cp_cap := None\<rparr>,
            releasing (handles (cp_cap c)) (Finished Closed)))"

definition release_capture :: "nat list \<Rightarrow> capture_pc \<Rightarrow> capture \<Rightarrow> capture \<times> capture_pc" where
  "release_capture hs k c =
     (case hs of [] \<Rightarrow> (c, k)
      | h # hs' \<Rightarrow> (c\<lparr>cp_released := cp_released c @ [h]\<rparr>, releasing hs' k))"

fun segment_step :: "capture_env \<Rightarrow> capture_pc \<Rightarrow> capture \<Rightarrow> capture \<times> capture_pc" where
  "segment_step e ReadStart c = read_start e c"
| "segment_step e ReadWaiting c = read_waiting c"
| "segment_step e ReadCheck c = read_check e c"
| "segment_step e (Connecting g) c = connect_make e g c"
| "segment_step e (Installing g h opened) c = connect_install e g h opened c"
| "segment_step e ReadFrame c = read_frame e c"
| "segment_step e CloseStart c = (c\<lparr>cp_stop := True\<rparr>, CloseLock)"
| "segment_step e CloseLock c = close_lock c"
| "segment_step e (Releasing hs k) c = release_capture hs k c"
| "segment_step e (Finished r) c = (c, Finished r)"

text \<open>Any number of threads call \<open>read\<close> and \<open>close\<close>; the scheduler runs one segment at a time.\<close>

datatype capture_event = CallRead | CallClose | RunThread nat capture_env

fun capture_perform :: "capture_event \<Rightarrow> capture \<Rightarrow> capture" where
  "capture_perform CallRead c = c\<lparr>cp_threads := cp_threads c @ [ReadStart]\<rparr>"
| "capture_perform CallClose c = c\<lparr>cp_threads := cp_threads c @ [CloseStart]\<rparr>"
| "capture_perform (RunThread i e) c =
     (if i < length (cp_threads c)
      then (let (c', pc) = segment_step e (cp_threads c ! i) c
            in c'\<lparr>cp_threads := (cp_threads c)[i := pc]\<rparr>)
      else c)"

definition capture_run :: "capture_event list \<Rightarrow> capture \<Rightarrow> capture" where
  "capture_run es c = fold capture_perform es c"

subsection \<open>Every handle has one owner\<close>

fun held :: "capture_pc \<Rightarrow> nat list" where
  "held (Installing g h opened) = [h]"
| "held (Releasing hs k) = hs @ held k"
| "held _ = []"

definition thread_handles :: "capture_pc list \<Rightarrow> nat multiset" where
  "thread_handles pcs = sum_list (map (mset \<circ> held) pcs)"

text \<open>Installed, in the hands of one thread, or released: each handle in exactly one place.\<close>

definition capture_books :: "capture \<Rightarrow> bool" where
  "capture_books c \<longleftrightarrow>
     mset (handles (cp_cap c)) + thread_handles (cp_threads c) + mset (cp_released c)
       = mset [0..<cp_made c]
     \<and> (cp_closed c \<longrightarrow> cp_cap c = None)"

lemma thread_handles_append [simp]: "thread_handles (xs @ ys) = thread_handles xs + thread_handles ys"
  by (simp add: thread_handles_def)

lemma thread_handles_simps [simp]:
  "thread_handles [] = {#}" "thread_handles (pc # pcs) = mset (held pc) + thread_handles pcs"
  by (simp_all add: thread_handles_def)

lemma thread_handles_update:
  assumes "i < length pcs"
  shows "thread_handles (pcs[i := pc]) + mset (held (pcs ! i)) = thread_handles pcs + mset (held pc)"
  using assms
proof (induction pcs arbitrary: i)
  case (Cons q qs)
  then show ?case by (cases i) (auto simp: ac_simps)
qed simp

lemma held_releasing [simp]: "held (releasing hs k) = hs @ held k"
  by (simp add: releasing_def)

text \<open>What a segment does to the handles: nothing is lost, nothing is owned twice.\<close>

lemma segment_books:
  assumes "segment_step e pc c = (c', pc')" "cp_closed c \<longrightarrow> cp_cap c = None"
  shows "mset (handles (cp_cap c')) + mset (held pc') + mset (cp_released c') + mset [0..<cp_made c]
      = mset (handles (cp_cap c)) + mset (held pc) + mset (cp_released c) + mset [0..<cp_made c']
    \<and> (cp_closed c' \<longrightarrow> cp_cap c' = None) \<and> cp_threads c' = cp_threads c"
  using assms
  by (cases pc)
    (auto simp: read_start_def read_waiting_def read_check_def connect_make_def
      connect_install_def read_frame_def close_lock_def release_capture_def Let_def handles_def
      atLeast0_lessThan_Suc split: if_splits option.splits list.splits)

lemma perform_books: "capture_books c \<Longrightarrow> capture_books (capture_perform ev c)"
proof (cases ev)
  case (RunThread i e)
  assume b: "capture_books c"
  show ?thesis
  proof (cases "i < length (cp_threads c)")
    case True
    obtain c' pc' where s: "segment_step e (cp_threads c ! i) c = (c', pc')" by force
    have "cp_closed c \<longrightarrow> cp_cap c = None" using b by (simp add: capture_books_def)
    note sb = segment_books [OF s this]
    have "mset (handles (cp_cap c')) + thread_handles ((cp_threads c)[i := pc']) + mset (cp_released c')
        = mset [0..<cp_made c']"
    proof -
      let ?n = "mset [0..<cp_made c]" and ?h = "mset (held (cp_threads c ! i))"
      have "(mset (handles (cp_cap c')) + thread_handles ((cp_threads c)[i := pc']) + mset (cp_released c'))
          + (?h + ?n)
        = (mset (handles (cp_cap c')) + mset (cp_released c') + ?n)
          + (thread_handles ((cp_threads c)[i := pc']) + ?h)" by (simp add: ac_simps)
      also have "\<dots> = (mset (handles (cp_cap c')) + mset (held pc') + mset (cp_released c') + ?n)
          + thread_handles (cp_threads c)"
        unfolding thread_handles_update [OF True] by (simp add: ac_simps)
      also have "\<dots> = (mset (handles (cp_cap c)) + thread_handles (cp_threads c) + mset (cp_released c))
          + (?h + mset [0..<cp_made c'])"
        unfolding sb [THEN conjunct1] by (simp add: ac_simps)
      also have "\<dots> = mset [0..<cp_made c'] + (?h + ?n)"
        using b by (simp add: capture_books_def ac_simps)
      finally show ?thesis by (simp only: add_right_cancel)
    qed
    with True s sb RunThread show ?thesis by (simp add: capture_books_def Let_def)
  next
    case False
    with b RunThread show ?thesis by simp
  qed
qed (simp_all add: capture_books_def)

lemma run_books: "capture_books c \<Longrightarrow> capture_books (capture_run es c)"
  unfolding capture_run_def by (induction es arbitrary: c) (simp_all add: perform_books)

lemma capture_init_books: "capture_init s d w h f = Inr c \<Longrightarrow> capture_books c"
  by (auto simp: capture_init_def capture_books_def handles_def split: if_splits)

definition all_finished :: "capture \<Rightarrow> bool" where
  "all_finished c \<longleftrightarrow> list_all (\<lambda>pc. case pc of Finished _ \<Rightarrow> True | _ \<Rightarrow> False) (cp_threads c)"

definition frames_read :: "capture \<Rightarrow> nat" where
  "frames_read c = length (filter (\<lambda>pc. case pc of Finished (GotFrame _) \<Rightarrow> True | _ \<Rightarrow> False) (cp_threads c))"

lemma finished_handles: "all_finished c \<Longrightarrow> thread_handles (cp_threads c) = {#}"
proof -
  have "\<forall>pc \<in> set pcs. (case pc of Finished _ \<Rightarrow> True | _ \<Rightarrow> False) \<Longrightarrow> thread_handles pcs = {#}" for pcs
    by (induction pcs) (auto split: capture_pc.splits)
  then show "all_finished c \<Longrightarrow> thread_handles (cp_threads c) = {#}"
    by (simp add: all_finished_def list_all_iff)
qed

text \<open>
  C29. However many threads read and close, in whatever order their segments run: the installed
  handle is not released and not in the hands of a thread, no handle is released twice, a closed
  capture has no handle installed, and when it is closed and every call has returned, every
  handle the factory ever made has been released exactly once.
\<close>

theorem capture_handles_accounted:
  assumes "capture_init source delay width height fps = Inr c0" "c = capture_run es c0"
  shows "distinct (cp_released c)
    \<and> (cp_cap c = Some h \<longrightarrow> h \<notin> set (cp_released c) \<and> h \<notin># thread_handles (cp_threads c) \<and> \<not> cp_closed c)
    \<and> (cp_closed c \<and> all_finished c \<longrightarrow> mset (cp_released c) = mset [0..<cp_made c])"
proof -
  have b: "capture_books c" using capture_init_books [OF assms(1)] run_books assms(2) by simp
  then have eq: "mset (handles (cp_cap c)) + thread_handles (cp_threads c) + mset (cp_released c)
      = mset [0..<cp_made c]" by (simp add: capture_books_def)
  have "count (mset [0..<cp_made c]) x \<le> 1" for x
    by (simp only: distinct_count_atmost_1 [THEN iffD1, rule_format, OF distinct_upt]) auto
  then have once: "count (mset (handles (cp_cap c))) x + count (thread_handles (cp_threads c)) x
      + count (mset (cp_released c)) x \<le> 1" for x
    unfolding eq [symmetric] by (simp only: count_union)
  have "distinct (cp_released c)"
    unfolding distinct_count_atmost_1
  proof (intro allI)
    fix x
    show "count (mset (cp_released c)) x = (if x \<in> set (cp_released c) then 1 else 0)"
    proof (cases "x \<in> set (cp_released c)")
      case True
      then have "x \<in># mset (cp_released c)" by simp
      then have "0 < count (mset (cp_released c)) x" by (simp only: count_greater_zero_iff)
      with once [of x] have "count (mset (cp_released c)) x = 1" by linarith
      with True show ?thesis by simp
    next
      case False
      then show ?thesis by (simp add: count_mset_0_iff)
    qed
  qed
  moreover have "h \<notin> set (cp_released c) \<and> h \<notin># thread_handles (cp_threads c) \<and> \<not> cp_closed c"
    if cap: "cp_cap c = Some h"
  proof -
    have "count (mset (handles (cp_cap c))) h = 1" using cap by (simp add: handles_def)
    with once [of h] have "count (thread_handles (cp_threads c)) h = 0" "count (mset (cp_released c)) h = 0"
      by linarith+
    then have "h \<notin># thread_handles (cp_threads c)" "h \<notin># mset (cp_released c)"
      by (simp_all only: count_eq_zero_iff not_False_eq_True)
    with b cap show ?thesis by (auto simp: capture_books_def)
  qed
  moreover have "mset (cp_released c) = mset [0..<cp_made c]" if "cp_closed c" "all_finished c"
    using eq b that finished_handles by (simp add: capture_books_def handles_def)
  ultimately show ?thesis by blast
qed

text \<open>A reader that connects while another thread closes: its late candidate is released.\<close>

definition env_ok :: capture_env where
  "env_ok = \<lparr>ce_opened = True, ce_frame = Some 1, ce_raises = False, ce_now = 10\<rparr>"

definition close_race :: "capture_event list" where
  "close_race = [CallRead, RunThread 0 env_ok, RunThread 0 env_ok, CallClose, RunThread 1 env_ok,
     RunThread 0 env_ok, RunThread 1 env_ok, RunThread 0 env_ok, RunThread 0 env_ok]"

lemma capture_handles_accounted_witness:
  "\<exists>c0. capture_init (Address ''RTSP://gate'') 2 None None None = Inr c0
     \<and> cp_closed (capture_run close_race c0) \<and> all_finished (capture_run close_race c0)
     \<and> mset (cp_released (capture_run close_race c0)) = {#0#}"
proof -
  define c0 where "c0 = \<lparr>cp_config = \<lparr>cc_source = Address ''RTSP://gate'', cc_reconnect_delay = 2,
      cc_width = None, cc_height = None, cc_fps = None\<rparr>, cp_cap = None, cp_stop = False,
      cp_closed = False, cp_next_reconnect_at = 0, cp_generation = 0, cp_made = 0, cp_settings = [],
      cp_released = [], cp_threads = []\<rparr>"
  have c0: "capture_init (Address ''RTSP://gate'') 2 None None None = Inr c0"
    by (simp add: capture_init_def c0_def)
  have ends: "cp_closed (capture_run close_race c0)" "all_finished (capture_run close_race c0)"
    "cp_made (capture_run close_race c0) = 1"
    unfolding capture_run_def close_race_def c0_def
    by (simp_all add: Let_def env_ok_def
        read_start_def read_check_def connect_make_def connect_install_def close_lock_def
        release_capture_def releasing_def handles_def is_opened_def all_finished_def)
  with capture_handles_accounted [OF c0 refl, of close_race]
  have "mset (cp_released (capture_run close_race c0)) = {#0#}" by simp
  with c0 ends show ?thesis by blast
qed

subsection \<open>Closing ends every call\<close>

fun capture_rank :: "capture_pc \<Rightarrow> nat" where
  "capture_rank ReadStart = 1"
| "capture_rank ReadWaiting = 1"
| "capture_rank ReadCheck = 1"
| "capture_rank (Connecting g) = 4"
| "capture_rank (Installing g h b) = 3"
| "capture_rank ReadFrame = 1"
| "capture_rank CloseStart = 2"
| "capture_rank CloseLock = 1"
| "capture_rank (Releasing hs k) = length hs + capture_rank k + 1"
| "capture_rank (Finished r) = 0"

text \<open>Segments of calls that have not returned, one after the other.\<close>

fun drains :: "capture_event list \<Rightarrow> capture \<Rightarrow> bool" where
  "drains [] c = True"
| "drains (ev # es) c =
     (case ev of
        RunThread i e \<Rightarrow> i < length (cp_threads c) \<and> capture_rank (cp_threads c ! i) > 0
                          \<and> drains es (capture_perform ev c)
      | _ \<Rightarrow> False)"

definition open_ranks :: "capture \<Rightarrow> nat" where
  "open_ranks c = sum_list (map capture_rank (cp_threads c))"

text \<open>The stop event is set before any thread reaches the closing segment.\<close>

definition stop_first :: "capture \<Rightarrow> bool" where
  "stop_first c \<longleftrightarrow> (cp_closed c \<or> CloseLock \<in> set (cp_threads c) \<longrightarrow> cp_stop c)"

fun tail_pc :: "capture_pc \<Rightarrow> capture_pc" where
  "tail_pc (Releasing hs k) = tail_pc k"
| "tail_pc pc = pc"

definition no_late_close :: "capture_pc \<Rightarrow> bool" where
  "no_late_close pc \<longleftrightarrow> (tail_pc pc = CloseLock \<longrightarrow> pc = CloseLock)"

lemma tail_releasing [simp]: "tail_pc (releasing hs k) = tail_pc k"
  by (simp add: releasing_def)

lemma segment_stop:
  assumes "segment_step e pc c = (c', pc')" "cp_closed c \<longrightarrow> cp_stop c" "pc = CloseLock \<longrightarrow> cp_stop c"
    "no_late_close pc"
  shows "(cp_closed c' \<longrightarrow> cp_stop c') \<and> (cp_stop c \<longrightarrow> cp_stop c') \<and> (cp_closed c \<longrightarrow> cp_closed c')
    \<and> (pc' = CloseLock \<longrightarrow> cp_stop c') \<and> no_late_close pc' \<and> cp_threads c' = cp_threads c"
  using assms
  by (cases pc)
    (auto simp: read_start_def read_waiting_def read_check_def connect_make_def
      connect_install_def read_frame_def close_lock_def release_capture_def Let_def
      no_late_close_def releasing_def split: if_splits option.splits list.splits)

lemma segment_rank:
  assumes "segment_step e pc c = (c', pc')" "cp_closed c" "cp_stop c" "cp_cap c = None"
    "capture_rank pc > 0"
  shows "capture_rank pc' < capture_rank pc"
  using assms
  by (cases pc)
    (auto simp: read_start_def read_waiting_def read_check_def connect_make_def
      connect_install_def read_frame_def close_lock_def release_capture_def Let_def
      releasing_def split: if_splits option.splits list.splits)

definition closing_inv :: "capture \<Rightarrow> bool" where
  "closing_inv c \<longleftrightarrow> capture_books c \<and> stop_first c \<and> list_all no_late_close (cp_threads c)"

lemma perform_closing: "closing_inv c \<Longrightarrow> closing_inv (capture_perform ev c)"
proof (cases ev)
  case (RunThread i e)
  assume inv: "closing_inv c"
  show ?thesis
  proof (cases "i < length (cp_threads c)")
    case True
    obtain c' pc' where s: "segment_step e (cp_threads c ! i) c = (c', pc')" by force
    have mem: "cp_threads c ! i \<in> set (cp_threads c)" using True by simp
    have pre: "cp_closed c \<longrightarrow> cp_stop c" "no_late_close (cp_threads c ! i)"
      using inv mem by (simp_all add: closing_inv_def stop_first_def list_all_iff)
    have "cp_threads c ! i = CloseLock \<longrightarrow> cp_stop c"
      using inv mem unfolding closing_inv_def stop_first_def by metis
    note st = segment_stop [OF s pre(1) this pre(2)]
    have "CloseLock \<in> set ((cp_threads c)[i := pc']) \<longrightarrow> cp_stop c'"
      using st inv set_update_subset_insert [of "cp_threads c" i pc']
      by (auto simp: closing_inv_def stop_first_def)
    moreover have "list_all no_late_close ((cp_threads c)[i := pc'])"
      using st inv set_update_subset_insert [of "cp_threads c" i pc']
      by (auto simp: closing_inv_def list_all_iff)
    moreover have "capture_books (capture_perform (RunThread i e) c)"
      using inv perform_books by (simp add: closing_inv_def del: capture_perform.simps)
    ultimately show ?thesis
      using st True s RunThread by (simp add: closing_inv_def stop_first_def Let_def)
  next
    case False
    with inv RunThread show ?thesis by simp
  qed
qed (auto simp: closing_inv_def stop_first_def no_late_close_def capture_books_def)

lemma run_closing: "closing_inv c \<Longrightarrow> closing_inv (capture_run es c)"
  unfolding capture_run_def by (induction es arbitrary: c) (simp_all add: perform_closing)

lemma open_ranks_update:
  assumes "i < length pcs" "f pc < f (pcs ! i)"
  shows "sum_list (map f (pcs[i := pc])) < (sum_list (map f pcs) :: nat)"
  using assms
proof (induction pcs arbitrary: i)
  case (Cons q qs)
  then show ?case by (cases i) auto
qed simp

lemma drain_step:
  assumes "closing_inv c" "cp_closed c" "drains (ev # es) c"
  shows "open_ranks (capture_perform ev c) < open_ranks c \<and> cp_closed (capture_perform ev c)
    \<and> drains es (capture_perform ev c)"
proof -
  from assms(3) obtain i e where ev: "ev = RunThread i e" and i: "i < length (cp_threads c)"
    and r: "capture_rank (cp_threads c ! i) > 0" and rest: "drains es (capture_perform ev c)"
    by (auto split: capture_event.splits)
  obtain c' pc' where s: "segment_step e (cp_threads c ! i) c = (c', pc')" by force
  have pre: "cp_stop c" "cp_cap c = None" "no_late_close (cp_threads c ! i)"
    using assms(1,2) nth_mem [OF i]
    by (auto simp: closing_inv_def stop_first_def capture_books_def list_all_iff)
  have "capture_rank pc' < capture_rank (cp_threads c ! i)"
    by (rule segment_rank [OF s assms(2) pre(1,2) r])
  from open_ranks_update [OF i this] segment_stop [OF s _ _ pre(3)] pre(1) assms(2) rest i s ev
  show ?thesis by (simp add: open_ranks_def Let_def)
qed

text \<open>
  C30. Once a capture is closed, the calls that are still inside it return after at most as many
  segments as their ranks add up to, however they are interleaved and
  whatever OpenCV answers: nobody waits for the reconnect delay or connects again.
\<close>

theorem capture_close_terminates:
  assumes "capture_init source delay width height fps = Inr c0" "c = capture_run es c0"
    and "cp_closed c" and "drains fs c"
  shows "length fs \<le> open_ranks c"
proof -
  have "stop_first c0" "cp_threads c0 = []"
    using assms(1) by (auto simp: capture_init_def stop_first_def split: if_splits)
  then have "closing_inv c0" using capture_init_books [OF assms(1)] by (simp add: closing_inv_def)
  then have "closing_inv c" using run_closing assms(2) by simp
  from this assms(3,4) show ?thesis
  proof (induction fs arbitrary: c)
    case (Cons ev fs)
    note d = drain_step [OF Cons.prems]
    from Cons.IH [of "capture_perform ev c"] d perform_closing [OF Cons.prems(1)]
    show ?case by fastforce
  qed simp
qed

text \<open>The reader of \<open>close_race\<close> is in the factory when the capture is closed.\<close>

lemma capture_close_terminates_witness:
  "\<exists>c. cp_closed c \<and> drains (replicate 3 (RunThread 0 env_ok)) c \<and> 3 \<le> open_ranks c"
proof -
  define c0 where "c0 = \<lparr>cp_config = \<lparr>cc_source = Device 0, cc_reconnect_delay = 2,
      cc_width = None, cc_height = None, cc_fps = None\<rparr>, cp_cap = None, cp_stop = False,
      cp_closed = False, cp_next_reconnect_at = 0, cp_generation = 0, cp_made = 0, cp_settings = [],
      cp_released = [], cp_threads = []\<rparr>"
  have c0: "capture_init (Device 0) 2 None None None = Inr c0"
    by (simp add: capture_init_def c0_def)
  let ?es = "[CallRead, RunThread 0 env_ok, RunThread 0 env_ok, CallClose, RunThread 1 env_ok,
    RunThread 1 env_ok]"
  have ends: "cp_closed (capture_run ?es c0)"
    "drains (replicate 3 (RunThread 0 env_ok)) (capture_run ?es c0)"
    unfolding capture_run_def c0_def
    by (simp_all add: Let_def env_ok_def numeral_3_eq_3
        read_start_def read_check_def connect_make_def connect_install_def close_lock_def
        release_capture_def releasing_def handles_def is_opened_def)
  with capture_close_terminates [OF c0 refl ends] show ?thesis by auto
qed

end
