(* ===== verification/Cv_Config.thy ===== *)
theory Cv_Config
  imports Cv_Zones
begin

section \<open>Configuration of a camera pipeline\<close>

text \<open>
  \<open>packages/cv-engine/cv_engine/device.py\<close> and \<open>config.py\<close>: the syntax of device names and the
  choice of a device, and the checks of \<open>CVConfig.__post_init__\<close> in the order of the code.
  Whether PyTorch is installed and what it says of CUDA is a parameter. Floats are unchecked
  (\<open>raw_float\<close>): the constructor lets some of them through. \<open>Path(model_path)\<close> is not modelled.
\<close>

subsection \<open>Devices\<close>

text \<open>The regular expression \<open>cuda(?::(0|[1-9][0-9]*))?\Z\<close>, for a full match.\<close>

definition index_text :: "string \<Rightarrow> bool" where
  "index_text s \<longleftrightarrow>
     s = ''0'' \<or> (s \<noteq> [] \<and> is_digit_char (hd s) \<and> hd s \<noteq> CHR ''0'' \<and> list_all is_digit_char (tl s))"

definition cuda_pattern :: "string \<Rightarrow> bool" where
  "cuda_pattern s \<longleftrightarrow> s = ''cuda'' \<or> (starts_with ''cuda:'' s \<and> index_text (drop 5 s))"

definition validate_device_syntax :: "string \<Rightarrow> py_error + unit" where
  "validate_device_syntax requested =
     guardE (requested = ''auto'' \<or> requested = ''cpu'' \<or> cuda_pattern requested)
       (ValueError ''device must be auto, cpu, cuda, or cuda:<non-negative integer>'')"

record device_selection =
  ds_requested :: string
  ds_resolved :: string
  ds_accelerated :: bool
  ds_reason :: string

text \<open>An installed PyTorch: whether CUDA is available, and the number of its devices.\<close>

type_synonym torch = "bool \<times> nat"

definition selection :: "string \<Rightarrow> string \<Rightarrow> bool \<Rightarrow> string \<Rightarrow> device_selection" where
  "selection requested resolved accelerated reason =
     \<lparr>ds_requested = requested, ds_resolved = resolved, ds_accelerated = accelerated, ds_reason = reason\<rparr>"

definition select_device :: "torch option \<Rightarrow> string \<Rightarrow> py_error + device_selection" where
  "select_device torch requested =
     bindE (validate_device_syntax requested) (\<lambda>_.
       if requested = ''cpu'' then Inr (selection requested ''cpu'' False ''CPU explicitly requested'')
       else case torch of
         None \<Rightarrow> Inr (selection requested ''cpu'' False ''PyTorch is not installed'')
       | Some (available, device_count) \<Rightarrow>
           if starts_with ''cuda'' requested
           then if available
             then (if CHR '':'' \<in> set requested \<and> digits_value 0 (drop 5 requested) \<ge> device_count
                   then Inl (ValueError (''CUDA device index '' @ nat_text (digits_value 0 (drop 5 requested))
                          @ '' is unavailable; found '' @ nat_text device_count @ '' device(s)''))
                   else Inr (selection requested requested True ''CUDA available''))
             else Inr (selection requested ''cpu'' False ''CUDA unavailable; using CPU'')
           else if available
             then Inr (selection requested ''cuda:0'' True ''CUDA auto-selected'')
             else Inr (selection requested ''cpu'' False ''no accelerator available''))"

subsection \<open>Pipeline configuration\<close>

record cv_config =
  cv_device :: string
  cv_confidence_threshold :: raw_float
  cv_iou_threshold :: raw_float
  cv_target_class_ids :: "int list"
  cv_analytics_fps :: raw_float
  cv_face_recognition :: bool
  cv_face_interval :: int
  cv_face_tolerance :: raw_float
  cv_zones :: "zone list"
  cv_counting_line :: "counting_line option"
  cv_intrusion_zone_ids :: "ident list"
  cv_intrusion_cooldown :: raw_float
  cv_intrusion_margin :: raw_float
  cv_counter_stale_after :: int
  cv_tracker_max_age :: int
  cv_tracker_min_hits :: int
  cv_tracker_iou_threshold :: raw_float
  cv_executor_workers :: int

definition in_unit :: "raw_float \<Rightarrow> bool" where
  "in_unit v \<longleftrightarrow> raw_ge v 0 \<and> raw_le v 1"

text \<open>The message about missing zones is without the list of them.\<close>

definition cv_config_check :: "cv_config \<Rightarrow> py_error + unit" where
  "cv_config_check c =
     bindE (validate_device_syntax (cv_device c)) (\<lambda>_.
     bindE (guardE (in_unit (cv_confidence_threshold c))
       (ValueError ''confidence_threshold must be between 0 and 1'')) (\<lambda>_.
     bindE (guardE (in_unit (cv_iou_threshold c))
       (ValueError ''iou_threshold must be between 0 and 1'')) (\<lambda>_.
     bindE (guardE (in_unit (cv_tracker_iou_threshold c))
       (ValueError ''tracker_iou_threshold must be between 0 and 1'')) (\<lambda>_.
     bindE (guardE (\<not> (raw_le (cv_analytics_fps c) 0 \<or> cv_face_interval c < 1))
       (ValueError ''fps and face interval must be positive'')) (\<lambda>_.
     bindE (guardE (cv_executor_workers c = 1)
       (ValueError ''stateful per-camera processing requires executor_workers=1'')) (\<lambda>_.
     bindE (guardE (\<not> (cv_tracker_max_age c < 0 \<or> cv_tracker_min_hits c < 1))
       (ValueError ''invalid tracker age/hit configuration'')) (\<lambda>_.
     bindE (guardE (\<not> cv_counter_stale_after c < 0)
       (ValueError ''people counter stale-frame expiry must not be negative'')) (\<lambda>_.
     bindE (guardE (\<not> (raw_less (cv_intrusion_cooldown c) 0 \<or> raw_less (cv_intrusion_margin c) 0))
       (ValueError ''intrusion cooldown and retention margin must not be negative'')) (\<lambda>_.
     bindE (guardE (distinct (map zone_id (cv_zones c)))
       (ValueError ''zone IDs must be unique'')) (\<lambda>_.
     guardE (set (cv_intrusion_zone_ids c) \<subseteq> zone_id ` set (cv_zones c))
       (ValueError ''intrusion zones are not configured'')))))))))))"

subsection \<open>Accepted devices\<close>

lemma starts_with_prefix: "starts_with p s \<longleftrightarrow> (\<exists>r. s = p @ r)"
  by (auto simp: starts_with_def) (metis append_take_drop_id)

lemma cuda_pattern_cases:
  assumes "cuda_pattern s"
  shows "starts_with ''cuda'' s \<and> s \<noteq> ''auto'' \<and> s \<noteq> ''cpu''"
  using assms by (auto simp: cuda_pattern_def starts_with_prefix)

lemma digits_not_colon: "list_all is_digit_char s \<Longrightarrow> CHR '':'' \<notin> set s"
  by (induction s) (auto simp: is_digit_char_def)

text \<open>
  A device that is selected runs: it is the CPU, or CUDA is there and the index, if one was
  asked for, is one of its devices; and only a CUDA device counts as accelerated.
\<close>

theorem selected_device_exists:
  assumes "select_device torch requested = Inr d"
  shows "ds_requested d = requested
    \<and> (ds_accelerated d \<longleftrightarrow> ds_resolved d \<noteq> ''cpu'')
    \<and> (ds_resolved d \<noteq> ''cpu'' \<longrightarrow>
        (\<exists>n. torch = Some (True, n)
           \<and> (\<forall>i. requested = ''cuda:'' @ i \<longrightarrow> index_text i \<and> digits_value 0 i < n)))"
proof -
  have v: "requested = ''auto'' \<or> requested = ''cpu'' \<or> cuda_pattern requested"
    using assms by (auto simp: select_device_def bindE_eq_Inr validate_device_syntax_def)
  have idx: "index_text i" if "requested = ''cuda:'' @ i" for i
    using v that by (auto simp: cuda_pattern_def starts_with_prefix)
  show ?thesis
    using assms v idx
    by (auto simp: select_device_def bindE_eq_Inr selection_def starts_with_prefix
        split: if_splits option.splits prod.splits dest: cuda_pattern_cases)
qed

lemma selected_device_exists_witness:
  "\<exists>d. select_device (Some (True, 2)) ''cuda:1'' = Inr d \<and> ds_resolved d = ''cuda:1'' \<and> ds_accelerated d"
proof -
  obtain d where d: "select_device (Some (True, 2)) ''cuda:1'' = Inr d" "ds_resolved d = ''cuda:1''"
    by (auto simp: select_device_def validate_device_syntax_def cuda_pattern_def index_text_def
        is_digit_char_def starts_with_def selection_def)
  with selected_device_exists [OF d(1)] show ?thesis by auto
qed

end
