(* ===== verification/Cv_Models.thy ===== *)
theory Cv_Models
  imports Cv_Config Cv_Types
begin

section \<open>Detector and face engine\<close>

text \<open>
  \<open>packages/cv-engine/cv_engine/models/detector.py\<close> and \<open>face_engine.py\<close>: what the code does
  with the results of the third-party models. The YOLO model, its factory and the
  \<open>face_recognition\<close> functions are parameters or arguments. An image is a matrix of pixel values.
\<close>

subsection \<open>Images\<close>

datatype image = Gray "real list list" | Color "real list list list"

fun image_shape :: "image \<Rightarrow> int \<times> int" where
  "image_shape (Gray rows) = (int (length rows), case rows of [] \<Rightarrow> 0 | r # _ \<Rightarrow> int (length r))"
| "image_shape (Color rows) = (int (length rows), case rows of [] \<Rightarrow> 0 | r # _ \<Rightarrow> int (length r))"

text \<open>\<open>_to_rgb\<close>: a grey value three times, or the first three channels in reverse.\<close>

fun to_rgb :: "image \<Rightarrow> image" where
  "to_rgb (Gray rows) = Color (map (map (\<lambda>v. [v, v, v])) rows)"
| "to_rgb (Color rows) = Color (map (map (\<lambda>px. rev (take 3 px))) rows)"

definition slice :: "nat \<Rightarrow> nat \<Rightarrow> 'a list \<Rightarrow> 'a list" where
  "slice a b xs = take (b - a) (drop a xs)"

fun crop :: "int \<Rightarrow> int \<Rightarrow> int \<Rightarrow> int \<Rightarrow> image \<Rightarrow> image" where
  "crop x1 y1 x2 y2 (Gray rows) = Gray (map (slice (nat x1) (nat x2)) (slice (nat y1) (nat y2) rows))"
| "crop x1 y1 x2 y2 (Color rows) = Color (map (slice (nat x1) (nat x2)) (slice (nat y1) (nat y2) rows))"

subsection \<open>Detector\<close>

text \<open>The shape of the array the detector is given: \<open>None\<close> if it is no array at all.\<close>

type_synonym array_shape = "nat list"

record yolo_detector =
  yd_path :: string
  yd_selection :: device_selection
  yd_confidence :: raw_float
  yd_iou :: raw_float
  yd_targets :: "int list"

definition detector_init ::
  "torch option \<Rightarrow> string \<Rightarrow> string \<Rightarrow> raw_float \<Rightarrow> raw_float \<Rightarrow> int list \<Rightarrow> py_error + yolo_detector" where
  "detector_init torch path device confidence iou targets =
     bindE (guardE (in_unit confidence \<and> in_unit iou)
       (ValueError ''confidence and IoU thresholds must be between 0 and 1'')) (\<lambda>_.
     bindE (guardE (\<not> list_ex (\<lambda>c. c < 0) targets)
       (ValueError ''target class IDs must not be negative'')) (\<lambda>_.
     bindE (select_device torch device) (\<lambda>sel.
       Inr \<lparr>yd_path = path, yd_selection = sel, yd_confidence = confidence, yd_iou = iou,
            yd_targets = targets\<rparr>)))"

text \<open>The class-wide cache of models, one per path and device; \<open>factory\<close> makes them.\<close>

type_synonym 'm model_cache = "((string \<times> string) \<times> 'm) list"

definition cached_model ::
  "(string \<Rightarrow> py_error + 'm) \<Rightarrow> yolo_detector \<Rightarrow> 'm model_cache \<Rightarrow> (py_error + 'm) \<times> 'm model_cache" where
  "cached_model factory d cache =
     (let key = (yd_path d, ds_resolved (yd_selection d))
      in case map_of cache key of
           Some m \<Rightarrow> (Inr m, cache)
         | None \<Rightarrow> (case factory (yd_path d) of
                      Inl e \<Rightarrow> (Inl e, cache)
                    | Inr m \<Rightarrow> (Inr m, AList.update key m cache)))"

text \<open>One result of the model: the names, and the boxes with confidences and classes (\<open>zip\<close> is
  strict, so the three lists have one length or the loop raises at the end of the shortest).\<close>

record yolo_result =
  yr_name :: "int \<Rightarrow> string option"
  yr_boxes :: "(raw_float list list \<times> raw_float list \<times> int list) option"

definition clip :: "real \<Rightarrow> real \<Rightarrow> real \<Rightarrow> real" where
  "clip v lo hi = min hi (max lo v)"

text \<open>One box: \<open>None\<close> where the loop goes on without a detection.\<close>

definition detect_box ::
  "int list \<Rightarrow> int \<times> int \<Rightarrow> (int \<Rightarrow> string option) \<Rightarrow> raw_float list \<Rightarrow> raw_float \<Rightarrow> int
    \<Rightarrow> py_error + detection option" where
  "detect_box targets shape names box confidence class_id =
     (if class_id \<notin> set targets then Inr None
      else if length box \<noteq> 4 \<or> \<not> list_all isfinite box then Inr None
      else (let h = of_int (fst shape); w = of_int (snd shape);
                a = clip (float_val (box ! 0)) 0 w; b = clip (float_val (box ! 1)) 0 h;
                c = clip (float_val (box ! 2)) 0 w; d = clip (float_val (box ! 3)) 0 h
            in if c \<le> a \<or> d \<le> b then Inr None
               else if \<not> isfinite confidence \<or> \<not> in_unit confidence then Inr None
               else (case names class_id of
                       None \<Rightarrow> Inl (KeyError ''class name'')
                     | Some name \<Rightarrow>
                         bindE (mk_detection (Some [Finite a, Finite b, Finite c, Finite d]) confidence class_id name)
                           (\<lambda>det. Inr (Some det)))))"

fun detect_boxes ::
  "int list \<Rightarrow> int \<times> int \<Rightarrow> (int \<Rightarrow> string option) \<Rightarrow> raw_float list list \<Rightarrow> raw_float list \<Rightarrow> int list
    \<Rightarrow> py_error + detection list" where
  "detect_boxes ts sh nm [] [] [] = Inr []"
| "detect_boxes ts sh nm (b # bs) (c # cs) (k # ks) =
     bindE (detect_box ts sh nm b c k) (\<lambda>d.
     bindE (detect_boxes ts sh nm bs cs ks) (\<lambda>ds.
     Inr (case d of None \<Rightarrow> ds | Some x \<Rightarrow> x # ds)))"
| "detect_boxes ts sh nm _ _ _ = Inl (ValueError ''zip() arguments have different lengths'')"

fun detect_results ::
  "int list \<Rightarrow> int \<times> int \<Rightarrow> yolo_result list \<Rightarrow> py_error + detection list" where
  "detect_results ts sh [] = Inr []"
| "detect_results ts sh (r # rs) =
     bindE (case yr_boxes r of None \<Rightarrow> Inr []
            | Some (bs, cs, ks) \<Rightarrow> detect_boxes ts sh (yr_name r) bs cs ks) (\<lambda>ds.
     bindE (detect_results ts sh rs) (\<lambda>es. Inr (ds @ es)))"

text \<open>\<open>detect\<close>: the checks of the frame, the model from the cache, its results.\<close>

definition detect ::
  "(string \<Rightarrow> py_error + 'm) \<Rightarrow> ('m \<Rightarrow> array_shape \<Rightarrow> py_error + yolo_result list) \<Rightarrow> yolo_detector
    \<Rightarrow> array_shape option \<Rightarrow> 'm model_cache \<Rightarrow> (py_error + detection list) \<times> 'm model_cache" where
  "detect factory predict d frame cache =
     (case frame of
        None \<Rightarrow> (Inl (ValueError ''frame must be a non-empty 2D or 3D image array''), cache)
      | Some shape \<Rightarrow>
          if prod_list shape = 0 \<or> length shape \<notin> {2, 3}
          then (Inl (ValueError ''frame must be a non-empty 2D or 3D image array''), cache)
          else if length shape = 3 \<and> shape ! 2 \<notin> {1, 3, 4}
          then (Inl (ValueError ''frame must have 1, 3, or 4 channels''), cache)
          else (case cached_model factory d cache of
                  (Inl e, cache') \<Rightarrow> (Inl e, cache')
                | (Inr m, cache') \<Rightarrow>
                    (bindE (predict m shape)
                       (detect_results (yd_targets d) (int (shape ! 0), int (shape ! 1))), cache')))"

subsection \<open>Face engine\<close>

record known_face =
  kf_person_id :: ident
  kf_name :: string
  kf_encoding :: "raw_float list"

record face_engine =
  fe_tolerance :: raw_float
  fe_dimension :: nat
  fe_known :: "known_face list"

definition face_engine_init :: "raw_float \<Rightarrow> int \<Rightarrow> py_error + face_engine" where
  "face_engine_init tolerance dimension =
     (if \<not> (raw_greater tolerance 0 \<and> raw_le tolerance 1)
      then Inl (ValueError ''tolerance must be between 0 and 1'')
      else if dimension < 1 then Inl (ValueError ''encoding_dimension must be positive'')
      else Inr \<lparr>fe_tolerance = tolerance, fe_dimension = nat dimension, fe_known = []\<rparr>)"

text \<open>Encodings are one-dimensional arrays.\<close>

definition validate_encoding :: "face_engine \<Rightarrow> raw_float list \<Rightarrow> py_error + unit" where
  "validate_encoding fe enc =
     bindE (guardE (length enc = fe_dimension fe)
       (ValueError ''face encodings must be one-dimensional with the configured length'')) (\<lambda>_.
     guardE (list_all isfinite enc) (ValueError ''face encodings must contain only finite values''))"

definition set_known_faces :: "known_face list \<Rightarrow> face_engine \<Rightarrow> (py_error + unit) \<times> face_engine" where
  "set_known_faces faces fe =
     (case mapE (\<lambda>f. bindE (validate_encoding fe (kf_encoding f)) (\<lambda>_. Inr f)) faces of
        Inl e \<Rightarrow> (Inl e, fe)
      | Inr checked \<Rightarrow> (Inr (), fe\<lparr>fe_known := checked\<rparr>))"

definition enroll ::
  "(image \<Rightarrow> raw_float list list) \<Rightarrow> ident \<Rightarrow> string \<Rightarrow> image \<Rightarrow> face_engine
    \<Rightarrow> (py_error + known_face) \<times> face_engine" where
  "enroll face_encodings person_id name img fe =
     (case face_encodings (to_rgb img) of
        [enc] \<Rightarrow>
          (case validate_encoding fe enc of
             Inl e \<Rightarrow> (Inl e, fe)
           | Inr _ \<Rightarrow>
               (let face = \<lparr>kf_person_id = person_id, kf_name = name, kf_encoding = enc\<rparr>
                in (Inr face, fe\<lparr>fe_known := fe_known fe @ [face]\<rparr>)))
      | encs \<Rightarrow>
          (Inl (ValueError (''enrollment image must contain exactly one face; found ''
                  @ nat_text (length encs))), fe))"

definition py_int :: "real \<Rightarrow> int" where
  "py_int r = (if r \<ge> 0 then \<lfloor>r\<rfloor> else \<lceil>r\<rceil>)"

fun clamp_bbox :: "bbox \<Rightarrow> int \<Rightarrow> int \<Rightarrow> int \<times> int \<times> int \<times> int" where
  "clamp_bbox (x1, y1, x2, y2) width height =
     (max 0 (py_int x1), max 0 (py_int y1), min width (py_int x2), min height (py_int y2))"

text \<open>\<open>np.argmin\<close> of a non-empty list: the first position of the least value.\<close>

fun argmin :: "real list \<Rightarrow> nat" where
  "argmin (x # y # ys) = (let i = argmin (y # ys) in if x \<le> (y # ys) ! i then 0 else Suc i)"
| "argmin xs = 0"

text \<open>The backend: locations (top, right, bottom, left) of the faces in a crop, their encodings,
  the distances of the known encodings to one encoding.\<close>

record face_backend =
  fb_locations :: "image \<Rightarrow> (int \<times> int \<times> int \<times> int) list"
  fb_encodings :: "image \<Rightarrow> (int \<times> int \<times> int \<times> int) list \<Rightarrow> raw_float list list"
  fb_distance :: "raw_float list list \<Rightarrow> raw_float list \<Rightarrow> real list"

definition match_face ::
  "face_backend \<Rightarrow> face_engine \<Rightarrow> int \<times> int \<Rightarrow> int \<times> int \<times> int \<times> int \<Rightarrow> raw_float list
    \<Rightarrow> py_error + face_match" where
  "match_face be fe origin location enc =
     bindE (validate_encoding fe enc) (\<lambda>_.
       let (top, right, bottom, left) = location; (x1, y1) = origin;
           box = map (\<lambda>i. Finite (of_int i)) [x1 + left, y1 + top, x1 + right, y1 + bottom]
       in if fe_known fe = [] then mk_face_match (Some box) ''Unknown'' (Finite 0) None
          else (let distances = fb_distance be (map kf_encoding (fe_known fe)) enc;
                    best = argmin distances; distance = distances ! best;
                    confidence = max 0 (min 1 (1 - distance));
                    face = (if raw_ge (fe_tolerance fe) distance then Some (fe_known fe ! best) else None)
                in mk_face_match (Some box)
                     (case face of None \<Rightarrow> ''Unknown'' | Some f \<Rightarrow> kf_name f) (Finite confidence)
                     (map_option kf_person_id face)))"

definition faces_in_detection ::
  "face_backend \<Rightarrow> face_engine \<Rightarrow> image \<Rightarrow> detection \<Rightarrow> py_error + face_match list" where
  "faces_in_detection be fe frame d =
     (let (height, width) = image_shape frame in
      if det_class_id d \<noteq> 0 then Inr []
      else (let (x1, y1, x2, y2) = clamp_bbox (det_bbox d) width height in
        if x2 \<le> x1 \<or> y2 \<le> y1 then Inr []
        else (let img = to_rgb (crop x1 y1 x2 y2 frame); locations = fb_locations be img;
                  encodings = fb_encodings be img locations
              in bindE (mapE (\<lambda>(l, e). match_face be fe (x1, y1) l e) (zip locations encodings)) (\<lambda>ms.
                 bindE (guardE (length locations = length encodings)
                   (ValueError ''zip() arguments have different lengths'')) (\<lambda>_. Inr ms)))))"

definition recognize ::
  "face_backend \<Rightarrow> face_engine \<Rightarrow> image \<Rightarrow> detection list \<Rightarrow> py_error + face_match list" where
  "recognize be fe frame detections =
     bindE (mapE (faces_in_detection be fe frame) detections) (\<lambda>mss. Inr (concat mss))"

subsection \<open>Detections lie in the frame\<close>

fun box_in_frame :: "int \<times> int \<Rightarrow> bbox \<Rightarrow> bool" where
  "box_in_frame (height, width) (x1, y1, x2, y2) \<longleftrightarrow> x2 \<le> of_int width \<and> y2 \<le> of_int height"

definition wanted :: "int list \<Rightarrow> int \<times> int \<Rightarrow> detection \<Rightarrow> bool" where
  "wanted targets shape d \<longleftrightarrow>
     detection_ok d \<and> det_class_id d \<in> set targets \<and> box_in_frame shape (det_bbox d)"

lemma clip_bounds: "0 \<le> hi \<Longrightarrow> 0 \<le> clip v 0 hi \<and> clip v 0 hi \<le> hi"
  by (simp add: clip_def)

lemma mk_detection_Finite:
  assumes "bbox_ok (a, b, c, d)" "in_unit conf"
  shows "\<exists>r. conf = Finite r \<and> mk_detection (Some [Finite a, Finite b, Finite c, Finite d]) conf k n
    = Inr \<lparr>det_bbox = (a, b, c, d), det_confidence = r, det_class_id = k, det_class_name = n\<rparr>"
proof -
  obtain r where r: "conf = Finite r" "0 \<le> r" "r \<le> 1"
    using assms(2) by (cases conf) (auto simp: in_unit_def)
  have "validate_bbox (Some (raw_of_bbox (a, b, c, d))) = Inr (a, b, c, d)"
    using assms(1) by (simp only: validate_bbox_Inr)
  moreover have "validate_score conf ''detection confidence'' = Inr r"
    using r by (simp add: validate_score_Inr)
  ultimately show ?thesis using r by (simp add: mk_detection_def)
qed

text \<open>A box gives a wanted detection, or none, or its class has no name; the constructor of
  \<open>Detection\<close> never refuses.\<close>

lemma detect_box_cases:
  assumes "0 \<le> fst shape" "0 \<le> snd shape"
  shows "case detect_box targets shape names box conf k of
      Inl e \<Rightarrow> e = KeyError ''class name'' \<and> names k = None
    | Inr None \<Rightarrow> True
    | Inr (Some d) \<Rightarrow> wanted targets shape d \<and> names k = Some (det_class_name d)"
proof (cases "detect_box targets shape names box conf k = Inr None")
  case True
  then show ?thesis by simp
next
  case False
  define a where "a = clip (float_val (box ! 0)) 0 (of_int (snd shape))"
  define b where "b = clip (float_val (box ! Suc 0)) 0 (of_int (fst shape))"
  define c where "c = clip (float_val (box ! 2)) 0 (of_int (snd shape))"
  define d where "d = clip (float_val (box ! 3)) 0 (of_int (fst shape))"
  have sides: "0 \<le> a" "0 \<le> b" "c \<le> of_int (snd shape)" "d \<le> of_int (fst shape)"
    using assms clip_bounds by (simp_all add: a_def b_def c_def d_def)
  have go: "k \<in> set targets" "a < c" "b < d" "in_unit conf"
    using False unfolding a_def b_def c_def d_def
    by (auto simp: detect_box_def Let_def split: if_splits)
  have eq: "detect_box targets shape names box conf k = (case names k of
        None \<Rightarrow> Inl (KeyError ''class name'')
      | Some name \<Rightarrow> bindE (mk_detection (Some [Finite a, Finite b, Finite c, Finite d]) conf k name)
          (\<lambda>det. Inr (Some det)))"
    using False unfolding a_def b_def c_def d_def
    by (auto simp: detect_box_def Let_def split: if_splits)
  have ok: "bbox_ok (a, b, c, d)" using sides go by simp
  show ?thesis
  proof (cases "names k")
    case None
    with eq show ?thesis by simp
  next
    case (Some name)
    obtain r where r: "conf = Finite r" "mk_detection (Some [Finite a, Finite b, Finite c, Finite d]) conf k name
        = Inr \<lparr>det_bbox = (a, b, c, d), det_confidence = r, det_class_id = k, det_class_name = name\<rparr>"
      using mk_detection_Finite [OF ok go(4)] by blast
    have "detection_ok \<lparr>det_bbox = (a, b, c, d), det_confidence = r, det_class_id = k, det_class_name = name\<rparr>"
      using r(2) by (rule mk_detection_ok)
    with Some eq r go sides show ?thesis by (cases shape) (simp add: wanted_def)
  qed
qed

lemma detect_boxes_wanted:
  assumes "0 \<le> fst shape" "0 \<le> snd shape" "detect_boxes targets shape names bs cs ks = Inr ds"
  shows "list_all (wanted targets shape) ds"
  using assms(3)
proof (induction bs arbitrary: cs ks ds)
  case Nil
  then show ?case by (cases cs; cases ks) simp_all
next
  case (Cons b bs)
  from Cons.prems obtain c cs' k ks' where lists: "cs = c # cs'" "ks = k # ks'"
    by (cases cs; cases ks) simp_all
  with Cons.prems obtain r es where r: "detect_box targets shape names b c k = Inr r"
    and es: "detect_boxes targets shape names bs cs' ks' = Inr es"
    and ds: "ds = (case r of None \<Rightarrow> es | Some x \<Rightarrow> x # es)"
    by (auto simp: bindE_eq_Inr)
  have "list_all (wanted targets shape) es" using es by (rule Cons.IH)
  with ds detect_box_cases [OF assms(1,2), where targets = targets and names = names and box = b and conf = c and k = k] r show ?case
    by (cases r) simp_all
qed

lemma detect_results_wanted:
  assumes "0 \<le> fst shape" "0 \<le> snd shape" "detect_results targets shape rs = Inr ds"
  shows "list_all (wanted targets shape) ds"
  using assms(3)
proof (induction rs arbitrary: ds)
  case (Cons r rs)
  then show ?case
    using detect_boxes_wanted [OF assms(1,2)]
    by (cases "yr_boxes r") (auto simp: bindE_eq_Inr split: prod.splits)
qed simp

text \<open>
  Whatever the model answers, every detection returned is valid, has one of the target
  classes and lies inside the frame.
\<close>

theorem detections_inside_frame:
  assumes "detect factory predict d (Some (height # width # channels)) cache = (Inr ds, cache')"
  shows "list_all (wanted (yd_targets d) (int height, int width)) ds"
proof -
  obtain m c' where "cached_model factory d cache = (Inr m, c')"
    and r: "bindE (predict m (height # width # channels))
      (detect_results (yd_targets d) (int height, int width)) = Inr ds"
    using assms by (auto simp: detect_def split: if_splits prod.splits sum.splits)
  then obtain rs where "detect_results (yd_targets d) (int height, int width) rs = Inr ds"
    by (auto simp: bindE_eq_Inr)
  from detect_results_wanted [OF _ _ this] show ?thesis by simp
qed

definition gate_detector :: yolo_detector where
  "gate_detector = \<lparr>yd_path = ''yolov8n.pt'', yd_selection = selection ''cpu'' ''cpu'' False [],
     yd_confidence = Finite (1 / 2), yd_iou = Finite (1 / 2), yd_targets = [0]\<rparr>"

definition gate_result :: yolo_result where
  "gate_result = \<lparr>yr_name = (\<lambda>k. if k = 0 then Some ''person'' else None),
     yr_boxes = Some ([[Finite (- 5), Finite 10, Finite 700, Finite 200],
                       [Finite 1, Finite 1, Finite 9, Finite 9], [NotANumber, Finite 1, Finite 9, Finite 9]],
                      [Finite (9 / 10), Finite (9 / 10), Finite (9 / 10)], [0, 2, 0])\<rparr>"

lemma detections_inside_frame_witness:
  "\<exists>d cache'. detect (\<lambda>_. Inr ()) (\<lambda>_ _. Inr [gate_result]) gate_detector (Some [480, 640, 3]) []
       = (Inr [d], cache')
     \<and> det_bbox d = (0, 10, 640, 200) \<and> wanted [0] (480, 640) d"
proof -
  let ?d = "\<lparr>det_bbox = (0, 10, 640, 200), det_confidence = 9 / 10, det_class_id = 0,
    det_class_name = ''person''\<rparr>"
  have "\<exists>c. detect (\<lambda>_. Inr ()) (\<lambda>_ _. Inr [gate_result]) gate_detector (Some [480, 640, 3]) [] = (Inr [?d], c)"
    by (simp add: detect_def cached_model_def gate_detector_def gate_result_def Let_def detect_box_def
        clip_def in_unit_def mk_detection_def validate_bbox_def validate_score_def)
  then obtain c where "detect (\<lambda>_. Inr ()) (\<lambda>_ _. Inr [gate_result]) gate_detector (Some [480, 640, 3]) []
      = (Inr [?d], c)" by blast
  with detections_inside_frame [OF this] show ?thesis by (simp add: gate_detector_def)
qed

subsection \<open>A recognised face is the nearest known face\<close>

lemma argmin_least:
  assumes "xs \<noteq> []"
  shows "argmin xs < length xs \<and> (\<forall>j < length xs. xs ! argmin xs \<le> xs ! j)"
  using assms
proof (induction xs rule: argmin.induct)
  case (1 x y ys)
  then have IH: "argmin (y # ys) < length (y # ys)"
    "\<forall>j < length (y # ys). (y # ys) ! argmin (y # ys) \<le> (y # ys) ! j" by simp_all
  have "(x # y # ys) ! argmin (x # y # ys) \<le> (x # y # ys) ! j" if "j < length (x # y # ys)" for j
    using IH(2) that by (cases j) (auto simp: Let_def dest: order_trans)
  with IH(1) show ?case by (simp add: Let_def)
qed simp_all

text \<open>What \<open>face_distance\<close> promises: one distance for each known encoding.\<close>

definition distance_spec :: "face_backend \<Rightarrow> bool" where
  "distance_spec be \<longleftrightarrow> (\<forall>encs e. length (fb_distance be encs e) = length encs)"

definition face_distance_at :: "face_backend \<Rightarrow> face_engine \<Rightarrow> raw_float list \<Rightarrow> nat \<Rightarrow> real" where
  "face_distance_at be fe enc i = fb_distance be (map kf_encoding (fe_known fe)) enc ! i"

text \<open>\<open>enc\<close> is the encoding found, \<open>i\<close> the position of the known face.\<close>

definition nearest_known :: "face_backend \<Rightarrow> face_engine \<Rightarrow> raw_float list \<Rightarrow> nat \<Rightarrow> bool" where
  "nearest_known be fe enc i \<longleftrightarrow>
     i < length (fe_known fe)
     \<and> list_all (\<lambda>j. face_distance_at be fe enc i \<le> face_distance_at be fe enc j) [0..<length (fe_known fe)]
     \<and> raw_ge (fe_tolerance fe) (face_distance_at be fe enc i)"

definition recognised :: "face_backend \<Rightarrow> face_engine \<Rightarrow> raw_float list \<Rightarrow> face_match \<Rightarrow> bool" where
  "recognised be fe enc m \<longleftrightarrow>
     bbox_ok (fm_bbox m) \<and> 0 \<le> fm_confidence m \<and> fm_confidence m \<le> 1
     \<and> (case fm_person_id m of
          None \<Rightarrow> fm_name m = ''Unknown''
        | Some p \<Rightarrow> \<exists>i. nearest_known be fe enc i \<and> kf_person_id (fe_known fe ! i) = p
                     \<and> kf_name (fe_known fe ! i) = fm_name m)"

lemma match_face_nearest:
  assumes "distance_spec be" "match_face be fe origin loc enc = Inr m"
  shows "recognised be fe enc m"
proof -
  have fields: "\<exists>bb. m = \<lparr>fm_bbox = bb, fm_name = n, fm_confidence = c, fm_person_id = p\<rparr>
      \<and> bbox_ok bb \<and> 0 \<le> c \<and> c \<le> 1"
    if "mk_face_match b n (Finite c) p = Inr m" for b n c p
    using that by (auto simp: mk_face_match_def bindE_eq_Inr validate_bbox_Inr validate_score_Inr)
  show ?thesis
  proof (cases "fe_known fe = []")
    case True
    with assms(2) show ?thesis
      by (auto simp: recognised_def match_face_def bindE_eq_Inr Let_def split: prod.splits dest!: fields)
  next
    case False
    let ?ds = "fb_distance be (map kf_encoding (fe_known fe)) enc"
    have len: "length ?ds = length (fe_known fe)" using assms(1) by (simp add: distance_spec_def)
    have "?ds \<noteq> []" using len False by (metis length_0_conv)
    from argmin_least [OF this]
    have best: "argmin ?ds < length (fe_known fe)"
      "\<forall>j < length (fe_known fe). ?ds ! argmin ?ds \<le> ?ds ! j"
      unfolding len by blast+
    have near: "nearest_known be fe enc (argmin ?ds)" if "raw_ge (fe_tolerance fe) (?ds ! argmin ?ds)"
      using best that by (simp add: nearest_known_def face_distance_at_def list_all_iff)
    show ?thesis
    proof (cases "raw_ge (fe_tolerance fe) (?ds ! argmin ?ds)")
      case True
      with assms(2) False near best(1) show ?thesis
        by (auto simp: recognised_def match_face_def bindE_eq_Inr Let_def split: prod.splits dest!: fields)
    next
      case far: False
      with assms(2) False show ?thesis
        by (auto simp: recognised_def match_face_def bindE_eq_Inr Let_def split: prod.splits dest!: fields)
    qed
  qed
qed

lemma mapE_list_all:
  assumes "mapE f xs = Inr ys" "\<And>x y. x \<in> set xs \<Longrightarrow> f x = Inr y \<Longrightarrow> P y"
  shows "list_all P ys"
proof -
  have "list_all2 (\<lambda>x y. f x = Inr y) xs ys" using assms(1) by (simp add: mapE_eq_Inr)
  then show ?thesis
    unfolding list_all_length list_all2_conv_all_nth by (metis assms(2) nth_mem)
qed

text \<open>
  A face that is recognised as a person is the known face nearest to the encoding found, and
  within the tolerance; every other face is reported as unknown; the similarity lies between zero
  and one.
\<close>

theorem recognised_face_is_nearest:
  assumes spec: "distance_spec be" and r: "recognize be fe frame detections = Inr ms"
  shows "list_all (\<lambda>m. \<exists>enc. recognised be fe enc m) ms"
proof -
  have one: "list_all (\<lambda>m. \<exists>enc. recognised be fe enc m) xs"
    if f: "faces_in_detection be fe frame d = Inr xs" for d xs
  proof -
    have "xs = [] \<or> (\<exists>o1 ps. mapE (\<lambda>(l, e). match_face be fe o1 l e) ps = Inr xs)"
      using f by (auto simp: faces_in_detection_def Let_def bindE_eq_Inr split: prod.splits if_splits)
    then show ?thesis
      by (auto elim!: mapE_list_all dest: match_face_nearest [OF spec])
  qed
  obtain mss where m: "mapE (faces_in_detection be fe frame) detections = Inr mss" "ms = concat mss"
    using r by (auto simp: recognize_def bindE_eq_Inr)
  have "list_all (list_all (\<lambda>m. \<exists>enc. recognised be fe enc m)) mss"
    by (rule mapE_list_all [OF m(1)]) (rule one)
  with m(2) show ?thesis by (auto simp: list_all_iff)
qed

text \<open>One face in the crop, two known faces on a line, the second one nearer.\<close>

definition line_backend :: face_backend where
  "line_backend = \<lparr>fb_locations = (\<lambda>_. [(1, 5, 6, 2)]), fb_encodings = (\<lambda>_ ls. map (\<lambda>_. [Finite 1]) ls),
     fb_distance = (\<lambda>encs e. map (\<lambda>k. \<bar>float_val (hd k) - float_val (hd e)\<bar>) encs)\<rparr>"

definition two_known :: face_engine where
  "two_known = \<lparr>fe_tolerance = Finite (6 / 10), fe_dimension = 1,
     fe_known = [\<lparr>kf_person_id = ''a'', kf_name = ''Ann'', kf_encoding = [Finite 9]\<rparr>,
                 \<lparr>kf_person_id = ''b'', kf_name = ''Bob'', kf_encoding = [Finite (3 / 2)]\<rparr>]\<rparr>"

definition grey_frame :: image where
  "grey_frame = Gray (replicate 20 (replicate 20 0))"

lemma recognised_face_is_nearest_witness:
  "\<exists>m enc. recognize line_backend two_known grey_frame
       [\<lparr>det_bbox = (2, 3, 12, 13), det_confidence = 1, det_class_id = 0, det_class_name = []\<rparr>] = Inr [m]
     \<and> fm_name m = ''Bob'' \<and> recognised line_backend two_known enc m"
proof -
  have spec: "distance_spec line_backend" by (simp add: distance_spec_def line_backend_def)
  have "\<exists>m. recognize line_backend two_known grey_frame
       [\<lparr>det_bbox = (2, 3, 12, 13), det_confidence = 1, det_class_id = 0, det_class_name = []\<rparr>] = Inr [m]
     \<and> fm_name m = ''Bob''"
    by (simp add: recognize_def faces_in_detection_def Let_def py_int_def grey_frame_def numeral_eq_Suc
        match_face_def validate_encoding_def two_known_def line_backend_def mk_face_match_def
        validate_bbox_def validate_score_def)
  then obtain m where m: "recognize line_backend two_known grey_frame
       [\<lparr>det_bbox = (2, 3, 12, 13), det_confidence = 1, det_class_id = 0, det_class_name = []\<rparr>] = Inr [m]"
    "fm_name m = ''Bob''" by blast
  with recognised_face_is_nearest [OF spec m(1)] show ?thesis by auto
qed

end
