(* ===== verification/Json.thy ===== *)
theory Json
  imports Rsap_Prelude
begin

section \<open>JSON values\<close>

text \<open>
  The values the services exchange and store as JSON (\<open>dict[str, Any]\<close> in the code), and the
  dictionary access the code uses on them. A JSON object is an association list; the text form
  and its parser are the standard library's.
\<close>

datatype json =
    JNull
  | JBool bool
  | JInt int
  | JNum real
  | JStr string
  | JList "json list"
  | JObj "(string \<times> json) list"

text \<open>\<open>value.get(key)\<close> on a dictionary; \<open>None\<close> also where the value is no dictionary.\<close>

fun jget :: "json \<Rightarrow> string \<Rightarrow> json option" where
  "jget (JObj fields) k = map_of fields k"
| "jget _ k = None"

fun is_dict :: "json \<Rightarrow> bool" where
  "is_dict (JObj _) = True"
| "is_dict _ = False"

text \<open>Python's truth value of a JSON value.\<close>

fun truthy :: "json \<Rightarrow> bool" where
  "truthy JNull = False"
| "truthy (JBool b) = b"
| "truthy (JInt i) = (i \<noteq> 0)"
| "truthy (JNum x) = (x \<noteq> 0)"
| "truthy (JStr s) = (s \<noteq> [])"
| "truthy (JList xs) = (xs \<noteq> [])"
| "truthy (JObj fs) = (fs \<noteq> [])"

fun elements :: "json \<Rightarrow> json list" where
  "elements (JList xs) = xs"
| "elements _ = []"

definition jopt :: "('a \<Rightarrow> json) \<Rightarrow> 'a option \<Rightarrow> json" where
  "jopt f x = (case x of None \<Rightarrow> JNull | Some v \<Rightarrow> f v)"

definition field_if :: "string \<Rightarrow> json option \<Rightarrow> (string \<times> json) list" where
  "field_if k v = (case v of None \<Rightarrow> [] | Some x \<Rightarrow> [(k, x)])"

lemma jget_Cons [simp]: "jget (JObj ((k, v) # fs)) k' = (if k' = k then Some v else jget (JObj fs) k')"
  by simp

end
