(* ===== verification/Frame_Pipeline.thy ===== *)
theory Frame_Pipeline
  imports Cv_Models Sort_Tracker Zone_Analyzer People_Counter Intrusion_Detector Json
begin

section \<open>One frame through the pipeline\<close>

text \<open>
  The sequential part of \<open>packages/cv-engine/cv_engine/pipeline/frame_pipeline.py\<close>: the
  constructor, which builds the stages from the configuration, and \<open>_process_locked\<close>, which runs
  detector, tracker, faces, zones, counter and intrusion detector on a frame and emits the events.
  The threads and the shutdown are in \<open>Pipeline_Life\<close>.
\<close>

subsection \<open>Analytics events and results\<close>

record pipeline_event =
  pe_event_type :: string
  pe_timestamp :: time
  pe_track_id :: "int option"
  pe_zone_id :: "ident option"
  pe_payload :: json

record overlay_data =
  ov_tracks :: "tracked_object list"
  ov_zones :: "zone list"
  ov_face_matches :: "face_match list"
  ov_count_in :: int
  ov_count_out :: int

record analytics_result =
  ar_timestamp :: time
  ar_detections :: "detection list"
  ar_tracked :: "tracked_object list"
  ar_face_matches :: "face_match list"
  ar_zone_events :: "zone_event list"
  ar_people_count :: count_update
  ar_intrusions :: "intrusion_event list"
  ar_overlay :: overlay_data

fun zone_kind_value :: "zone_event_type \<Rightarrow> string" where
  "zone_kind_value ENTER = ''enter''"
| "zone_kind_value EXIT = ''exit''"

fun direction_value :: "count_direction \<Rightarrow> string" where
  "direction_value IN = ''in''"
| "direction_value OUT = ''out''"

definition zone_analytics :: "time \<Rightarrow> zone_event \<Rightarrow> pipeline_event" where
  "zone_analytics now e =
     \<lparr>pe_event_type = ''zone_'' @ zone_kind_value (ze_event_type e), pe_timestamp = now,
      pe_track_id = Some (ze_track_id e), pe_zone_id = Some (ze_zone_id e),
      pe_payload = JObj [(''zone_name'', JStr (ze_zone_name e))]\<rparr>"

definition count_analytics :: "time \<Rightarrow> count_update \<Rightarrow> count_event \<Rightarrow> pipeline_event" where
  "count_analytics now u e =
     \<lparr>pe_event_type = ''count_'' @ direction_value (ce_direction e), pe_timestamp = now,
      pe_track_id = Some (ce_track_id e), pe_zone_id = None,
      pe_payload = JObj [(''count_in'', JInt (cu_count_in u)), (''count_out'', JInt (cu_count_out u))]\<rparr>"

definition intrusion_analytics :: "time \<Rightarrow> intrusion_event \<Rightarrow> pipeline_event" where
  "intrusion_analytics now e =
     \<lparr>pe_event_type = ''intrusion'', pe_timestamp = now, pe_track_id = Some (ie_track_id e),
      pe_zone_id = Some (ie_zone_id e),
      pe_payload = JObj [(''zone_name'', JStr (ie_zone_name e)), (''confidence'', JNum (ie_confidence e))]\<rparr>"

definition frame_events ::
  "time \<Rightarrow> zone_event list \<Rightarrow> count_update \<Rightarrow> intrusion_event list \<Rightarrow> pipeline_event list" where
  "frame_events now zs u xs =
     map (zone_analytics now) zs @ map (count_analytics now u) (cu_events u)
     @ map (intrusion_analytics now) xs"

subsection \<open>The stages\<close>

text \<open>The third-party code the stages call.\<close>

record 'm engines =
  en_torch :: "torch option"
  en_factory :: "string \<Rightarrow> py_error + 'm"
  en_predict :: "'m \<Rightarrow> array_shape \<Rightarrow> py_error + yolo_result list"
  en_solve :: "mat \<Rightarrow> mat \<Rightarrow> mat option"
  en_lsa :: "mat \<Rightarrow> (nat \<times> nat) list"
  en_finite :: "bbox \<Rightarrow> bool"
  en_contains :: contains_test
  en_faces :: face_backend

record stages =
  st_detector :: yolo_detector
  st_faces :: "face_engine option"
  st_tracker :: sort_tracker
  st_zones :: zone_analyzer
  st_counter :: people_counter
  st_intrusion :: intrusion_detector
  st_frame_count :: nat
  st_last_faces :: "face_match list"

text \<open>\<open>timedelta(seconds=x)\<close> raises for a value that is not finite.\<close>

definition intrusion_init :: "ident list \<Rightarrow> raw_float \<Rightarrow> raw_float \<Rightarrow> py_error + intrusion_detector" where
  "intrusion_init ids cooldown margin =
     (if raw_less cooldown 0 \<or> raw_less margin 0
      then Inl (ValueError ''cooldown and retention margin must not be negative'')
      else if \<not> isfinite cooldown \<or> \<not> isfinite margin then Inl (LibraryError ''timedelta'')
      else id_init ids (float_val cooldown) (float_val margin))"

definition stages_init :: "'m engines \<Rightarrow> string \<Rightarrow> cv_config \<Rightarrow> py_error + stages" where
  "stages_init en path c =
     bindE (detector_init (en_torch en) path (cv_device c) (cv_confidence_threshold c)
              (cv_iou_threshold c) (cv_target_class_ids c)) (\<lambda>det.
     bindE (if cv_face_recognition c
            then bindE (face_engine_init (cv_face_tolerance c) 128) (\<lambda>f. Inr (Some f))
            else Inr None) (\<lambda>faces.
     bindE (mk_sort (PyInt (cv_tracker_max_age c)) (PyInt (cv_tracker_min_hits c))
              (PyFloat (cv_tracker_iou_threshold c))) (\<lambda>trk.
     bindE (pc_init (cv_counting_line c) 2 (cv_counter_stale_after c)) (\<lambda>cnt.
     bindE (intrusion_init (cv_intrusion_zone_ids c) (cv_intrusion_cooldown c)
              (cv_intrusion_margin c)) (\<lambda>intr.
     Inr \<lparr>st_detector = det, st_faces = faces, st_tracker = trk, st_zones = za_init (cv_zones c) 30,
          st_counter = cnt, st_intrusion = intr, st_frame_count = 0, st_last_faces = []\<rparr>)))))"

text \<open>What the process shares between pipelines: the model cache and the track identities.\<close>

record 'm shared =
  sh_cache :: "'m model_cache"
  sh_next_id :: int

fun array_shape_of :: "image \<Rightarrow> array_shape" where
  "array_shape_of (Gray rows) = [length rows, case rows of [] \<Rightarrow> 0 | r # _ \<Rightarrow> length r]"
| "array_shape_of (Color rows) =
     [length rows, case rows of [] \<Rightarrow> 0 | r # _ \<Rightarrow> length r,
      case rows of ((px # _) # _) \<Rightarrow> length px | _ \<Rightarrow> 0]"

text \<open>The faces of a frame: recognised again every \<open>face_interval\<close> frames, else the last ones.\<close>

definition frame_faces :: "'m engines \<Rightarrow> cv_config \<Rightarrow> image \<Rightarrow> detection list \<Rightarrow> stages \<Rightarrow> py_error + face_match list" where
  "frame_faces en c frame detections s =
     (case st_faces s of
        None \<Rightarrow> Inr (st_last_faces s)
      | Some fe \<Rightarrow>
          if int (st_frame_count s) mod cv_face_interval c = 0
          then recognize (en_faces en) fe frame detections
          else Inr (st_last_faces s))"

text \<open>The events are handed to \<open>_emit\<close> one by one; \<open>emit\<close> tells which call raises.\<close>

fun emit_events :: "(pipeline_event \<Rightarrow> py_error option) \<Rightarrow> pipeline_event list
    \<Rightarrow> py_error option \<times> pipeline_event list" where
  "emit_events emit [] = (None, [])"
| "emit_events emit (e # es) =
     (case emit e of
        Some err \<Rightarrow> (Some err, [])
      | None \<Rightarrow> (case emit_events emit es of (r, out) \<Rightarrow> (r, e # out)))"

definition frame_result ::
  "cv_config \<Rightarrow> time \<Rightarrow> detection list \<Rightarrow> tracked_object list \<Rightarrow> zone_event list \<Rightarrow> count_update
    \<Rightarrow> intrusion_event list \<Rightarrow> face_match list \<Rightarrow> analytics_result" where
  "frame_result c now detections tracked zs u xs faces =
     \<lparr>ar_timestamp = now, ar_detections = detections, ar_tracked = tracked, ar_face_matches = faces,
      ar_zone_events = zs, ar_people_count = u, ar_intrusions = xs,
      ar_overlay = \<lparr>ov_tracks = tracked, ov_zones = cv_zones c, ov_face_matches = faces,
                    ov_count_in = cu_count_in u, ov_count_out = cu_count_out u\<rparr>\<rparr>"

text \<open>After the detector and the tracker: the analytics stages and the events.\<close>

definition analyse_tracked ::
  "'m engines \<Rightarrow> cv_config \<Rightarrow> (pipeline_event \<Rightarrow> py_error option) \<Rightarrow> image \<Rightarrow> time
    \<Rightarrow> detection list \<Rightarrow> tracked_object list \<Rightarrow> stages
    \<Rightarrow> (py_error + analytics_result) \<times> pipeline_event list \<times> stages" where
  "analyse_tracked en c emit frame now detections tracked s =
     (case frame_faces en c frame detections s of
        Inl e \<Rightarrow> (Inl e, [], s)
      | Inr faces \<Rightarrow>
         (let s1 = s\<lparr>st_last_faces := faces\<rparr>; shape = image_shape frame;
              (zs, za) = za_analyze (en_contains en) (st_zones s1) tracked shape now;
              (u, cnt) = pc_update (st_counter s1) tracked shape now;
              s2 = s1\<lparr>st_zones := za, st_counter := cnt\<rparr>
          in case u of
               Inl e \<Rightarrow> (Inl e, [], s2)
             | Inr u \<Rightarrow>
                (let (xs, d1) = id_check (st_intrusion s2) zs;
                     (_, d2) = id_cleanup d1 now (Some (map trk_track_id tracked));
                     s3 = s2\<lparr>st_intrusion := d2\<rparr>;
                     (err, out) = emit_events emit (frame_events now zs u xs)
                 in case err of
                      Some e \<Rightarrow> (Inl e, out, s3)
                    | None \<Rightarrow>
                        (Inr (frame_result c now detections tracked zs u xs faces), out,
                         s3\<lparr>st_frame_count := st_frame_count s3 + 1\<rparr>))))"

definition process_locked ::
  "'m engines \<Rightarrow> cv_config \<Rightarrow> (pipeline_event \<Rightarrow> py_error option) \<Rightarrow> image \<Rightarrow> time
    \<Rightarrow> 'm shared \<times> stages
    \<Rightarrow> (py_error + analytics_result) \<times> pipeline_event list \<times> 'm shared \<times> stages" where
  "process_locked en c emit frame now st =
     (let (sh, s) = st;
          (ds, cache) = detect (en_factory en) (en_predict en) (st_detector s)
                          (Some (array_shape_of frame)) (sh_cache sh);
          sh1 = sh\<lparr>sh_cache := cache\<rparr>
      in case ds of
           Inl e \<Rightarrow> (Inl e, [], sh1, s)
         | Inr detections \<Rightarrow>
            (let (tr, next_id, trk) = sort_update_objects (en_solve en) (en_lsa en) (en_finite en)
                    detections (sh_next_id sh1, st_tracker s);
                 sh2 = sh1\<lparr>sh_next_id := next_id\<rparr>; s1 = s\<lparr>st_tracker := trk\<rparr>
             in case tr of
                  Inl e \<Rightarrow> (Inl e, [], sh2, s1)
                | Inr tracked \<Rightarrow>
                   (let (r, out, s2) = analyse_tracked en c emit frame now detections tracked s1
                    in (r, out, sh2, s2))))"

subsection \<open>Pacing\<close>

text \<open>\<open>process_if_due\<close>: whether a frame is due at a time, and the time of the last submission.\<close>

definition frame_due :: "real \<Rightarrow> real \<Rightarrow> real \<Rightarrow> bool \<times> real" where
  "frame_due fps now last_submit = (if now - last_submit < 1 / fps then (False, last_submit) else (True, now))"

fun due_times :: "real \<Rightarrow> real \<Rightarrow> real list \<Rightarrow> real list" where
  "due_times fps previous [] = []"
| "due_times fps previous (now # nows) =
     (case frame_due fps now previous of
        (due, previous') \<Rightarrow> (if due then [now] else []) @ due_times fps previous' nows)"

end
