(* ===== verification/Pipeline_Props.thy ===== *)
theory Pipeline_Props
  imports Frame_Pipeline Sort_Props
begin

section \<open>Properties of the frame pipeline\<close>

text \<open>
  The stages together: an accepted configuration builds a pipeline, and the events of a frame
  come from this frame's tracks, the configured zones and the restricted zones only, in the
  order zones, counts, intrusions.
\<close>

subsection \<open>What the stages emit\<close>

lemma foldl_invariant:
  assumes "P a" "\<And>a x. x \<in> set xs \<Longrightarrow> P a \<Longrightarrow> P (f a x)"
  shows "P (foldl f a xs)"
  using assms by (induction xs arbitrary: a) auto

definition zone_event_from :: "zone list \<Rightarrow> tracked_object list \<Rightarrow> time \<Rightarrow> zone_event \<Rightarrow> bool" where
  "zone_event_from zones tracked now e \<longleftrightarrow>
     ze_timestamp e = now \<and> ze_zone_id e \<in> zone_id ` set zones
     \<and> ze_track_id e \<in> trk_track_id ` set tracked"

lemma zone_step_from:
  assumes "z \<in> set zones" "item \<in> set tracked" "\<forall>e \<in> set (fst acc). zone_event_from zones tracked now e"
  shows "\<forall>e \<in> set (fst (zone_step contains polygons now item acc z)). zone_event_from zones tracked now e"
  using assms by (auto simp: zone_step_def Let_def mk_zone_event_def zone_event_from_def)

lemma track_step_from:
  assumes "item \<in> set tracked" "za_zones (snd acc) = zones"
    "\<forall>e \<in> set (fst acc). zone_event_from zones tracked now e"
  shows "za_zones (snd (track_step contains polygons now acc item)) = zones
    \<and> (\<forall>e \<in> set (fst (track_step contains polygons now acc item)). zone_event_from zones tracked now e)"
proof -
  let ?f = "zone_step contains polygons now item"
  have "\<forall>e \<in> set (fst (foldl ?f (fst acc, p) zones)). zone_event_from zones tracked now e" for p
    by (rule foldl_invariant) (use assms in \<open>auto dest: zone_step_from\<close>)
  with assms(2) show ?thesis by (auto simp: track_step_def Let_def split: prod.splits) (metis fst_conv)
qed

lemma za_analyze_from:
  assumes "za_analyze contains za tracked shape now = (zs, za')"
  shows "za_zones za' = za_zones za \<and> (\<forall>e \<in> set zs. zone_event_from (za_zones za) tracked now e)"
proof -
  define za1 where "za1 = za\<lparr>za_frame_index := za_frame_index za + 1\<rparr>"
  let ?P = "\<lambda>acc :: zone_event list \<times> zone_analyzer. za_zones (snd acc) = za_zones za
    \<and> (\<forall>e \<in> set (fst acc). zone_event_from (za_zones za) tracked now e)"
  let ?r = "foldl (track_step contains (zone_polygons (za_zones za1) shape) now) ([], za1) tracked"
  have "?P ?r"
  proof (rule foldl_invariant [where P = ?P])
    show "?P ([], za1)" by (simp add: za1_def)
  next
    fix acc :: "zone_event list \<times> zone_analyzer" and item assume "item \<in> set tracked" "?P acc"
    then show "?P (track_step contains (zone_polygons (za_zones za1) shape) now acc item)"
      by (intro track_step_from) blast+
  qed
  moreover obtain evs za2 where r: "?r = (evs, za2)" by force
  moreover have "zs = evs" "za' = za_discard_stale za2"
    using assms r by (simp_all add: za_analyze_def Let_def za1_def)
  ultimately show ?thesis by (simp add: za_discard_stale_def)
qed

lemma pc_crossing_from:
  "\<forall>e \<in> set (fst (pc_crossing now item v (evs, c))).
     e \<in> set evs \<or> (ce_track_id e = trk_track_id item \<and> ce_timestamp e = now)"
  by (auto simp: pc_crossing_def Let_def split: option.splits if_splits)

lemma pc_loop_from:
  "pc_loop start fin now items (evs, c) = (err, evs', c') \<Longrightarrow>
     \<forall>e \<in> set evs'. e \<in> set evs \<or> ce_track_id e \<in> trk_track_id ` set items"
proof (induction items arbitrary: evs c)
  case (Cons item items)
  show ?case
  proof (cases "trk_class_id item \<noteq> 0")
    case True
    with Cons show ?thesis by fastforce
  next
    case False
    show ?thesis
    proof (cases "signed_distance (centroid (trk_bbox item)) start fin")
      case (Inl e)
      with False Cons.prems show ?thesis by simp
    next
      case (Inr v)
      obtain evs1 c1 where c1: "pc_crossing now item v (evs, c) = (evs1, c1)" by force
      with False Inr Cons.prems have "pc_loop start fin now items (evs1, c1) = (err, evs', c')" by simp
      from Cons.IH [OF this] pc_crossing_from [of now item v evs c] c1 show ?thesis by auto
    qed
  qed
qed auto

lemma pc_update_from:
  assumes "pc_update c tracked shape now = (Inr u, c')"
  shows "\<forall>e \<in> set (cu_events u). ce_track_id e \<in> trk_track_id ` set tracked"
  using assms
  by (auto simp: pc_update_def Let_def split: option.splits prod.splits dest!: pc_loop_from)

definition intrusion_from :: "ident list \<Rightarrow> zone_event list \<Rightarrow> intrusion_event \<Rightarrow> bool" where
  "intrusion_from ids zs x \<longleftrightarrow>
     (\<exists>e \<in> set zs. x = mk_intrusion e \<and> ze_zone_id e \<in> set ids \<and> ze_event_type e = ENTER)"

lemma id_step_from:
  assumes "e \<in> set zs" "id_zone_ids (snd acc) = ids" "\<forall>x \<in> set (fst acc). intrusion_from ids zs x"
  shows "id_zone_ids (snd (id_step acc e)) = ids
    \<and> (\<forall>x \<in> set (fst (id_step acc e)). intrusion_from ids zs x)"
  using assms
  by (cases acc) (auto simp: id_step_def Let_def intrusion_from_def split: option.splits if_splits)

lemma id_check_from:
  assumes "id_check d zs = (xs, d')"
  shows "id_zone_ids d' = id_zone_ids d \<and> (\<forall>x \<in> set xs. intrusion_from (id_zone_ids d) zs x)"
proof -
  define d1 where "d1 = (if zs = [] then d else snd (id_cleanup d (Max (set (map ze_timestamp zs))) None))"
  let ?P = "\<lambda>acc :: intrusion_event list \<times> intrusion_detector. id_zone_ids (snd acc) = id_zone_ids d
    \<and> (\<forall>x \<in> set (fst acc). intrusion_from (id_zone_ids d) zs x)"
  have "?P (foldl id_step ([], d1) zs)"
  proof (rule foldl_invariant [where P = ?P])
    show "?P ([], d1)" by (simp add: d1_def id_cleanup_def)
  next
    fix acc :: "intrusion_event list \<times> intrusion_detector" and e assume "e \<in> set zs" "?P acc"
    then show "?P (id_step acc e)" by (intro id_step_from) blast+
  qed
  with assms show ?thesis by (simp add: id_check_def d1_def Let_def)
qed

subsection \<open>The events of a frame\<close>

text \<open>An event names a track of the frame and, if it names a zone, a configured one; an intrusion
  names a restricted zone.\<close>

definition event_sound :: "cv_config \<Rightarrow> time \<Rightarrow> tracked_object list \<Rightarrow> pipeline_event \<Rightarrow> bool" where
  "event_sound c now tracked ev \<longleftrightarrow>
     pe_timestamp ev = now
     \<and> (\<exists>t \<in> set tracked. pe_track_id ev = Some (trk_track_id t))
     \<and> (case pe_zone_id ev of None \<Rightarrow> True | Some z \<Rightarrow> z \<in> zone_id ` set (cv_zones c))
     \<and> (pe_event_type ev = ''intrusion'' \<longrightarrow> (\<exists>z \<in> set (cv_intrusion_zone_ids c). pe_zone_id ev = Some z))"

definition stages_inv :: "cv_config \<Rightarrow> stages \<Rightarrow> bool" where
  "stages_inv c s \<longleftrightarrow>
     za_zones (st_zones s) = cv_zones c \<and> id_zone_ids (st_intrusion s) = cv_intrusion_zone_ids c"

lemma stages_init_inv: "stages_init en path c = Inr s \<Longrightarrow> stages_inv c s"
  by (auto simp: stages_init_def bindE_eq_Inr stages_inv_def za_init_def intrusion_init_def id_init_def
      Let_def split: if_splits)

lemma emit_events_prefix:
  "emit_events emit es = (r, out) \<Longrightarrow> \<exists>rest. es = out @ rest \<and> (r = None \<longrightarrow> rest = [])"
proof (induction es arbitrary: out)
  case (Cons e es)
  show ?case
  proof (cases "emit e")
    case None
    with Cons show ?thesis by (auto split: prod.splits)
  next
    case (Some err)
    with Cons.prems have "r = Some err" "out = []" by simp_all
    then show ?thesis by simp
  qed
qed simp

lemma zone_analytics_sound:
  "zone_event_from (cv_zones c) tracked now e \<Longrightarrow> event_sound c now tracked (zone_analytics now e)"
  by (cases "ze_event_type e") (auto simp: zone_event_from_def event_sound_def zone_analytics_def)

lemma count_analytics_sound:
  "ce_track_id e \<in> trk_track_id ` set tracked \<Longrightarrow> event_sound c now tracked (count_analytics now u e)"
  by (cases "ce_direction e") (auto simp: event_sound_def count_analytics_def)

lemma intrusion_analytics_sound:
  assumes "\<forall>e \<in> set zs. zone_event_from (cv_zones c) tracked now e"
    "intrusion_from (cv_intrusion_zone_ids c) zs x"
  shows "event_sound c now tracked (intrusion_analytics now x)"
proof -
  obtain e where e: "e \<in> set zs" "x = mk_intrusion e" "ze_zone_id e \<in> set (cv_intrusion_zone_ids c)"
    using assms(2) by (auto simp: intrusion_from_def)
  with assms(1) have "ze_zone_id e \<in> zone_id ` set (cv_zones c)" "ze_track_id e \<in> trk_track_id ` set tracked"
    by (auto simp: zone_event_from_def)
  with e(2,3) show ?thesis by (auto simp: event_sound_def intrusion_analytics_def mk_intrusion_def)
qed

text \<open>What a frame may emit, given the tracks its tracker reported: the events of some zone
  events, then of a count update, then of intrusions, all of them sound for these tracks; a frame
  that raises may stop in between, a frame that returns has emitted what it reports.\<close>

definition emission_sound ::
  "cv_config \<Rightarrow> time \<Rightarrow> tracked_object list \<Rightarrow> py_error + analytics_result \<Rightarrow> pipeline_event list \<Rightarrow> bool" where
  "emission_sound c now tracked r out \<longleftrightarrow>
     (\<exists>zs u xs rest.
        map (zone_analytics now) zs @ map (count_analytics now u) (cu_events u)
          @ map (intrusion_analytics now) xs = out @ rest
      \<and> list_all (event_sound c now tracked) (out @ rest)
      \<and> (case r of Inl _ \<Rightarrow> True
         | Inr a \<Rightarrow> rest = [] \<and> ar_timestamp a = now \<and> ar_tracked a = tracked
             \<and> ar_zone_events a = zs \<and> ar_people_count a = u \<and> ar_intrusions a = xs))"

lemma emission_nothing: "emission_sound c now tracked (Inl e) []"
  unfolding emission_sound_def
  by (rule exI [of _ "[]"], rule exI [of _ "\<lparr>cu_count_in = 0, cu_count_out = 0, cu_events = []\<rparr>"],
      rule exI [of _ "[]"], rule exI [of _ "[]"]) simp

lemma analyse_tracked_sound:
  assumes "analyse_tracked en c emit frame now ds tracked s = (r, out, s')" "stages_inv c s"
  shows "stages_inv c s' \<and> emission_sound c now tracked r out"
proof (cases "frame_faces en c frame ds s")
  case (Inl e)
  with assms show ?thesis by (auto simp: analyse_tracked_def emission_nothing)
next
  case (Inr faces)
  define s1 where "s1 = s\<lparr>st_last_faces := faces\<rparr>"
  obtain zs za where z: "za_analyze (en_contains en) (st_zones s1) tracked (image_shape frame) now = (zs, za)"
    by force
  obtain u cnt where p: "pc_update (st_counter s1) tracked (image_shape frame) now = (u, cnt)" by force
  have inv1: "za_zones (st_zones s1) = cv_zones c" "id_zone_ids (st_intrusion s1) = cv_intrusion_zone_ids c"
    using assms(2) by (simp_all add: stages_inv_def s1_def)
  note zf = za_analyze_from [OF z, unfolded inv1]
  note step = assms(1) [unfolded analyse_tracked_def Inr sum.case Let_def, folded s1_def]
  show ?thesis
  proof (cases u)
    case (Inl e)
    with step z p inv1 zf show ?thesis by (auto simp: stages_inv_def emission_nothing)
  next
    case u: (Inr v)
    obtain xs d1 where x: "id_check (st_intrusion s1) zs = (xs, d1)" by force
    note xf = id_check_from [OF x, unfolded inv1]
    note cf = pc_update_from [OF p [unfolded u]]
    obtain err out' where e: "emit_events emit (frame_events now zs v xs) = (err, out')" by force
    from emit_events_prefix [OF e] obtain rest
      where pre: "frame_events now zs v xs = out' @ rest" "err = None \<longrightarrow> rest = []" by blast
    have all: "list_all (event_sound c now tracked) (frame_events now zs v xs)"
      using zf cf xf zone_analytics_sound count_analytics_sound intrusion_analytics_sound
      by (fastforce simp: frame_events_def list_all_iff)
    have out: "out = out'" and r: "case r of Inl _ \<Rightarrow> True
        | Inr a \<Rightarrow> err = None \<and> a = frame_result c now ds tracked zs v xs faces"
      and inv: "stages_inv c s'"
      using step z p x e zf xf inv1 u
      by (cases err; auto simp: stages_inv_def id_cleanup_def split: prod.splits)+
    have "emission_sound c now tracked r out'"
      unfolding emission_sound_def
      by (rule exI [of _ zs], rule exI [of _ v], rule exI [of _ xs], rule exI [of _ rest])
        (use pre all r in \<open>auto simp: frame_events_def frame_result_def split: sum.splits\<close>)
    with out inv show ?thesis by simp
  qed
qed

text \<open>The tracks the tracker of a pipeline reports for a frame; none if the detector or the tracker
  raises.\<close>

definition frame_tracks :: "'m engines \<Rightarrow> image \<Rightarrow> 'm shared \<times> stages \<Rightarrow> tracked_object list option" where
  "frame_tracks en frame st =
     (case fst (detect (en_factory en) (en_predict en) (st_detector (snd st)) (Some (array_shape_of frame))
          (sh_cache (fst st))) of
        Inl _ \<Rightarrow> None
      | Inr ds \<Rightarrow>
         (case fst (sort_update_objects (en_solve en) (en_lsa en) (en_finite en) ds
              (sh_next_id (fst st), st_tracker (snd st))) of
            Inl _ \<Rightarrow> None
          | Inr tracked \<Rightarrow> Some tracked))"

text \<open>A run of one pipeline: of every frame its time, the tracks of its tracker, what it returns
  and what it emits.\<close>

type_synonym frame_outcome =
  "time \<times> tracked_object list option \<times> (py_error + analytics_result) \<times> pipeline_event list"

fun pipeline_run ::
  "'m engines \<Rightarrow> cv_config \<Rightarrow> (pipeline_event \<Rightarrow> py_error option) \<Rightarrow> (image \<times> time) list
    \<Rightarrow> 'm shared \<times> stages \<Rightarrow> frame_outcome list" where
  "pipeline_run en c emit [] st = []"
| "pipeline_run en c emit ((frame, now) # fs) st =
     (case process_locked en c emit frame now st of
        (r, out, st') \<Rightarrow> (now, frame_tracks en frame st, r, out) # pipeline_run en c emit fs st')"

fun frame_sound :: "cv_config \<Rightarrow> frame_outcome \<Rightarrow> bool" where
  "frame_sound c (now, None, r, out) \<longleftrightarrow> isl r \<and> out = []"
| "frame_sound c (now, Some tracked, r, out) \<longleftrightarrow> emission_sound c now tracked r out"

lemma process_locked_sound:
  assumes "process_locked en c emit frame now (sh, s) = (r, out, sh', s')" "stages_inv c s"
  shows "stages_inv c s' \<and> frame_sound c (now, frame_tracks en frame (sh, s), r, out)"
proof -
  obtain ds cache where d: "detect (en_factory en) (en_predict en) (st_detector s)
      (Some (array_shape_of frame)) (sh_cache sh) = (ds, cache)" by force
  show ?thesis
  proof (cases ds)
    case (Inl e)
    with assms d show ?thesis by (auto simp: process_locked_def Let_def frame_tracks_def)
  next
    case (Inr dets)
    obtain tr n trk where t: "sort_update_objects (en_solve en) (en_lsa en) (en_finite en) dets
        (sh_next_id sh, st_tracker s) = (tr, n, trk)" by (metis prod_cases3)
    show ?thesis
    proof (cases tr)
      case (Inl e)
      with assms d Inr t show ?thesis
        by (auto simp: process_locked_def Let_def frame_tracks_def stages_inv_def)
    next
      case tr: (Inr tracked)
      have inv: "stages_inv c (s\<lparr>st_tracker := trk\<rparr>)" using assms(2) by (simp add: stages_inv_def)
      obtain r1 out1 s1 where a: "analyse_tracked en c emit frame now dets tracked (s\<lparr>st_tracker := trk\<rparr>)
          = (r1, out1, s1)" by (metis prod_cases3)
      from analyse_tracked_sound [OF a inv] assms(1) d Inr t tr a show ?thesis
        by (auto simp: process_locked_def Let_def frame_tracks_def)
    qed
  qed
qed

text \<open>
  C28. In every frame a pipeline processes, whatever its stages answered before: a frame whose
  detector or tracker raises emits nothing; otherwise every event emitted, also when the frame
  raises half-way, carries the time of the frame, a track the tracker reported for this very frame
  and a configured zone, an intrusion a restricted one; the events come in the order zones, counts,
  intrusions; and a frame that succeeds has emitted all of those it reports and no others.
\<close>

theorem pipeline_events_sound:
  assumes "stages_init en path c = Inr s"
  shows "list_all (frame_sound c) (pipeline_run en c emit frames (sh, s))"
proof -
  have "stages_inv c s \<Longrightarrow> list_all (frame_sound c) (pipeline_run en c emit frames (sh, s))" for s sh
  proof (induction frames arbitrary: sh s)
    case (Cons f fs)
    obtain frame now where f: "f = (frame, now)" by (cases f)
    obtain r out sh' s' where p: "process_locked en c emit frame now (sh, s) = (r, out, sh', s')"
      by (metis prod_cases4)
    from process_locked_sound [OF p Cons.prems] Cons.IH f p show ?case by simp
  qed simp
  from this [OF stages_init_inv [OF assms]] show ?thesis .
qed

text \<open>One person appears inside a restricted zone.\<close>

definition gate_zone :: zone where
  "gate_zone = \<lparr>zone_id = ''gate'', zone_name = ''Gate'', zone_vertices = [(0, 0), (1, 0), (1, 1)],
     zone_color = (0, 255, 0), zone_alert_on_entry = True, zone_normalized = True\<rparr>"

definition gate_config :: cv_config where
  "gate_config = \<lparr>cv_device = ''cpu'', cv_confidence_threshold = Finite (1 / 2),
     cv_iou_threshold = Finite (9 / 20), cv_target_class_ids = [0, 1, 2, 3], cv_analytics_fps = Finite 10,
     cv_face_recognition = False, cv_face_interval = 5, cv_face_tolerance = Finite (6 / 10),
     cv_zones = [gate_zone], cv_counting_line = None, cv_intrusion_zone_ids = [''gate''],
     cv_intrusion_cooldown = Finite 5, cv_intrusion_margin = Finite 60, cv_counter_stale_after = 30,
     cv_tracker_max_age = 0, cv_tracker_min_hits = 1, cv_tracker_iou_threshold = Finite (3 / 10),
     cv_executor_workers = 1\<rparr>"

definition gate_engines :: "unit engines" where
  "gate_engines = \<lparr>en_torch = None, en_factory = (\<lambda>_. Inr ()),
     en_predict = (\<lambda>_ _. Inr [\<lparr>yr_name = (\<lambda>_. Some ''person''),
        yr_boxes = Some ([[Finite 10, Finite 20, Finite 40, Finite 80]], [Finite (9 / 10)], [0])\<rparr>]),
     en_solve = (\<lambda>_ _. None), en_lsa = diagonal_assignment, en_finite = (\<lambda>_. True),
     en_contains = (\<lambda>_ _. True), en_faces = line_backend\<rparr>"

definition gate_frame :: image where
  "gate_frame = Gray (replicate 100 (replicate 100 0))"

definition gate_stages :: stages where
  "gate_stages = \<lparr>st_detector = \<lparr>yd_path = [], yd_selection = selection ''cpu'' ''cpu'' False ''CPU explicitly requested'',
       yd_confidence = Finite (1 / 2), yd_iou = Finite (9 / 20), yd_targets = [0, 1, 2, 3]\<rparr>,
     st_faces = None, st_tracker = fresh_sort, st_zones = za_init [gate_zone] 30,
     st_counter = \<lparr>pc_line = None, pc_hysteresis = 2, pc_stale_after = 30, pc_count_in = 0, pc_count_out = 0,
       pc_track_states = [], pc_frame_index = 0\<rparr>,
     st_intrusion = \<lparr>id_zone_ids = [''gate''], id_cooldown = 5000000, id_retention = 65000000,
       id_last_alert = []\<rparr>,
     st_frame_count = 0, st_last_faces = []\<rparr>"

lemma gate_init: "stages_init gate_engines [] gate_config = Inr gate_stages"
proof -
  have "timedelta_seconds 5 = 5000000" "timedelta_seconds 60 = 60000000"
    using timedelta_of_int [of 5] timedelta_of_int [of 60] by simp_all
  then show ?thesis
    by (simp add: stages_init_def detector_init_def gate_config_def in_unit_def select_device_def
        validate_device_syntax_def gate_engines_def mk_sort_def pc_init_def intrusion_init_def id_init_def
        gate_stages_def fresh_sort_def)
qed

lemma gate_detects:
  "detect (en_factory gate_engines) (en_predict gate_engines) (st_detector gate_stages)
     (Some (array_shape_of gate_frame)) [] = (Inr [walker], [(([], ''cpu''), ())])"
proof -
  have "array_shape_of gate_frame = [100, 100]" by (simp add: gate_frame_def numeral_eq_Suc)
  then show ?thesis
    by (simp add: detect_def cached_model_def gate_engines_def gate_stages_def selection_def Let_def
        detect_box_def clip_def in_unit_def mk_detection_def validate_bbox_def validate_score_def walker_def)
qed

lemma gate_run:
  "\<exists>ob r out. pipeline_run gate_engines gate_config (\<lambda>_. None) [(gate_frame, 7)]
       (\<lparr>sh_cache = [], sh_next_id = 1\<rparr>, gate_stages) = [(7, Some [ob], Inr r, out)]
     \<and> map pe_event_type out = [''zone_enter'', ''intrusion'']"
proof -
  obtain t ob where t: "sort_update_objects (en_solve gate_engines) (en_lsa gate_engines)
        (en_finite gate_engines) [walker] (1, fresh_sort)
      = (Inr [ob], 2, fresh_sort\<lparr>so_frame_count := 1, so_trackers := [t]\<rparr>)"
    and ob: "trk_track_id ob = 1"
    by (rule first_visit)
  have st: "st_tracker gate_stages = fresh_sort" by (simp add: gate_stages_def)
  obtain r out s' where a: "analyse_tracked gate_engines gate_config (\<lambda>_. None) gate_frame 7 [walker] [ob]
      (gate_stages\<lparr>st_tracker := fresh_sort\<lparr>so_frame_count := 1, so_trackers := [t]\<rparr>\<rparr>) = (Inr r, out, s')"
    and ev: "map pe_event_type out = [''zone_enter'', ''intrusion'']"
    by (simp add: analyse_tracked_def frame_faces_def Let_def gate_stages_def za_analyze_def za_init_def
        track_step_def zone_step_def zone_inside_def gate_engines_def ob dict_get_def za_discard_stale_def
        mk_zone_event_def pc_update_def id_check_def id_cleanup_def id_step_def gate_zone_def frame_events_def
        zone_analytics_def intrusion_analytics_def mk_intrusion_def frame_result_def)
  have "pipeline_run gate_engines gate_config (\<lambda>_. None) [(gate_frame, 7)]
       (\<lparr>sh_cache = [], sh_next_id = 1\<rparr>, gate_stages) = [(7, Some [ob], Inr r, out)]"
    by (simp add: process_locked_def frame_tracks_def Let_def gate_detects st t a [simplified])
  with ev show ?thesis by auto
qed

lemma pipeline_events_sound_witness:
  "\<exists>ob r out. pipeline_run gate_engines gate_config (\<lambda>_. None) [(gate_frame, 7)]
       (\<lparr>sh_cache = [], sh_next_id = 1\<rparr>, gate_stages) = [(7, Some [ob], Inr r, out)]
     \<and> map pe_event_type out = [''zone_enter'', ''intrusion''] \<and> frame_sound gate_config (7, Some [ob], Inr r, out)"
proof -
  from gate_run obtain ob r out where run: "pipeline_run gate_engines gate_config (\<lambda>_. None) [(gate_frame, 7)]
       (\<lparr>sh_cache = [], sh_next_id = 1\<rparr>, gate_stages) = [(7, Some [ob], Inr r, out)]"
    and types: "map pe_event_type out = [''zone_enter'', ''intrusion'']"
    by (elim exE conjE)
  have "frame_sound gate_config (7, Some [ob], Inr r, out)"
    using pipeline_events_sound [OF gate_init, of "\<lambda>_. None" "[(gate_frame, 7)]" "\<lparr>sh_cache = [], sh_next_id = 1\<rparr>"]
    unfolding run by simp
  with run types show ?thesis by (intro exI conjI)
qed

subsection \<open>Building the stages\<close>

lemma in_unit_iff: "in_unit v \<longleftrightarrow> (\<exists>r. v = Finite r \<and> 0 \<le> r \<and> r \<le> 1)"
  by (cases v) (auto simp: in_unit_def)

lemma cv_config_check_Inr:
  "cv_config_check c = Inr () \<Longrightarrow>
     in_unit (cv_confidence_threshold c) \<and> in_unit (cv_iou_threshold c) \<and> in_unit (cv_tracker_iou_threshold c)
     \<and> 0 \<le> cv_tracker_max_age c \<and> 1 \<le> cv_tracker_min_hits c \<and> 0 \<le> cv_counter_stale_after c
     \<and> \<not> raw_less (cv_intrusion_cooldown c) 0 \<and> \<not> raw_less (cv_intrusion_margin c) 0"
  by (auto simp: cv_config_check_def bindE_eq_Inr)

text \<open>The values the configuration accepts without looking at them.\<close>

definition unchecked_ok :: "cv_config \<Rightarrow> bool" where
  "unchecked_ok c \<longleftrightarrow>
     list_all (\<lambda>k. 0 \<le> k) (cv_target_class_ids c)
     \<and> (cv_face_recognition c \<longrightarrow> raw_greater (cv_face_tolerance c) 0 \<and> raw_le (cv_face_tolerance c) 1)
     \<and> isfinite (cv_intrusion_cooldown c) \<and> isfinite (cv_intrusion_margin c)"

text \<open>
  A configuration that \<open>CVConfig\<close> accepts builds every stage of a pipeline, if its device
  exists and the values it does not check are sensible.
\<close>

theorem accepted_config_builds:
  assumes "cv_config_check c = Inr ()" "select_device (en_torch en) (cv_device c) = Inr d"
    and "unchecked_ok c"
  shows "\<exists>s. stages_init en path c = Inr s"
proof -
  note ok = cv_config_check_Inr [OF assms(1)]
  obtain t where t: "cv_tracker_iou_threshold c = Finite t" "0 \<le> t" "t \<le> 1"
    using ok by (auto simp: in_unit_iff)
  obtain a m where am: "cv_intrusion_cooldown c = Finite a" "cv_intrusion_margin c = Finite m"
    using assms(3) by (auto simp: unchecked_ok_def isfinite_iff)
  have "\<exists>det. detector_init (en_torch en) path (cv_device c) (cv_confidence_threshold c)
      (cv_iou_threshold c) (cv_target_class_ids c) = Inr det"
    using ok assms(2,3) by (simp add: detector_init_def unchecked_ok_def list_all_iff list_ex_iff not_less)
  moreover have "\<exists>f. (if cv_face_recognition c
      then bindE (face_engine_init (cv_face_tolerance c) 128) (\<lambda>f. Inr (Some f)) else Inr None) = Inr f"
    using assms(3) by (simp add: face_engine_init_def unchecked_ok_def)
  moreover have "\<exists>k. mk_sort (PyInt (cv_tracker_max_age c)) (PyInt (cv_tracker_min_hits c))
      (PyFloat (cv_tracker_iou_threshold c)) = Inr k"
    using ok t by (simp add: mk_sort_def)
  moreover have "\<exists>k. pc_init (cv_counting_line c) 2 (cv_counter_stale_after c) = Inr k"
    using ok by (simp add: pc_init_def)
  moreover have "\<exists>k. intrusion_init (cv_intrusion_zone_ids c) (cv_intrusion_cooldown c)
      (cv_intrusion_margin c) = Inr k"
    using ok am by (simp add: intrusion_init_def id_init_def Let_def)
  ultimately show ?thesis unfolding stages_init_def by fastforce
qed

lemma gate_config_accepted: "cv_config_check gate_config = Inr ()"
  by (simp add: cv_config_check_def gate_config_def validate_device_syntax_def in_unit_def gate_zone_def)

lemma accepted_config_builds_witness:
  "cv_config_check gate_config = Inr () \<and> (\<exists>s. stages_init gate_engines ''yolov8n.pt'' gate_config = Inr s)"
proof -
  have "select_device (en_torch gate_engines) (cv_device gate_config)
      = Inr (selection ''cpu'' ''cpu'' False ''CPU explicitly requested'')"
    by (simp add: select_device_def validate_device_syntax_def gate_config_def gate_engines_def)
  from accepted_config_builds [OF gate_config_accepted this] gate_config_accepted
  show ?thesis by (simp add: unchecked_ok_def gate_config_def)
qed

text \<open>A face tolerance outside the unit interval passes the configuration and fails only here.\<close>

lemma unchecked_face_tolerance:
  "cv_config_check (gate_config\<lparr>cv_face_recognition := True, cv_face_tolerance := Finite 2\<rparr>) = Inr ()
    \<and> stages_init gate_engines path (gate_config\<lparr>cv_face_recognition := True, cv_face_tolerance := Finite 2\<rparr>)
        = Inl (ValueError ''tolerance must be between 0 and 1'')"
  by (simp add: cv_config_check_def gate_config_def validate_device_syntax_def in_unit_def gate_zone_def
      stages_init_def detector_init_def select_device_def gate_engines_def face_engine_init_def)

subsection \<open>Pacing\<close>

fun spaced_by :: "real \<Rightarrow> real \<Rightarrow> real list \<Rightarrow> bool" where
  "spaced_by gap previous [] = True"
| "spaced_by gap previous (t # ts) = (previous + gap \<le> t \<and> spaced_by gap t ts)"

text \<open>Submissions are at least one frame interval apart, at whatever times frames arrive.\<close>

lemma submissions_paced: "spaced_by (1 / fps) previous (due_times fps previous arrivals)"
  by (induction arrivals arbitrary: previous) (auto simp: frame_due_def)

end
