(* ===== verification/Pipeline_Life.thy ===== *)
theory Pipeline_Life
  imports Frame_Pipeline
begin

section \<open>Threads, callbacks and shutdown of the pipeline\<close>

text \<open>
  The concurrent part of \<open>packages/cv-engine/cv_engine/pipeline/frame_pipeline.py\<close>. The first
  half has one function per critical section (a \<open>with\<close> block over one of the locks) on the
  counters, flags and sets of the object. The second half gives every thread that calls
  \<open>process\<close>, the event loop's tasks, \<open>aclose\<close>, \<open>close\<close> and \<open>wait_for_callbacks\<close> a program
  counter, and interleaves the critical sections one by one.

  A callback task is named by its number in the list of tasks created so far. The events of a
  frame are any list; \<open>Frame_Pipeline.process_locked\<close> says which.
\<close>

subsection \<open>The fields and their critical sections\<close>

record life =
  lf_max_pending :: nat
  lf_callback :: bool
  lf_loop :: "nat option"
  lf_active :: nat
  lf_closing :: bool
  lf_closed :: bool
  lf_close_task :: bool
  lf_last_submit :: real
  lf_futures :: "nat set"
  lf_errors :: "py_error list"
  lf_accepting :: bool
  lf_submissions :: nat
  lf_reservations :: nat
  lf_executor_open :: bool

definition life_init :: "int \<Rightarrow> bool \<Rightarrow> nat option \<Rightarrow> py_error + life" where
  "life_init max_pending callback loop =
     (if max_pending < 1 then Inl (ValueError ''max_pending_callbacks must be positive'')
      else Inr \<lparr>lf_max_pending = nat max_pending, lf_callback = callback, lf_loop = loop,
                lf_active = 0, lf_closing = False, lf_closed = False, lf_close_task = False,
                lf_last_submit = 0, lf_futures = {}, lf_errors = [], lf_accepting = True,
                lf_submissions = 0, lf_reservations = 0, lf_executor_open = True\<rparr>)"

abbreviation closed_error :: py_error where
  "closed_error \<equiv> RuntimeError ''FramePipeline is closing or closed''"

definition ensure_open :: "life \<Rightarrow> py_error option" where
  "ensure_open l = (if lf_closing l \<or> lf_closed l then Some closed_error else None)"

definition enter_process :: "life \<Rightarrow> py_error + life" where
  "enter_process l =
     (if lf_closing l \<or> lf_closed l then Inl closed_error
      else Inr (l\<lparr>lf_active := lf_active l + 1\<rparr>))"

definition leave_process :: "life \<Rightarrow> life" where
  "leave_process l = l\<lparr>lf_active := lf_active l - 1\<rparr>"

definition bind_event_loop :: "nat \<Rightarrow> life \<Rightarrow> py_error option \<times> life" where
  "bind_event_loop loop l =
     (case lf_loop l of
        None \<Rightarrow> (None, l\<lparr>lf_loop := Some loop\<rparr>)
      | Some bound \<Rightarrow>
          if bound \<noteq> loop
          then (Some (RuntimeError ''FramePipeline cannot dispatch callbacks across multiple event loops''), l)
          else (None, l))"

text \<open>\<open>process_async\<close> up to the point where the call is in the executor's queue: the check and the
  binding of the loop, then \<open>run_in_executor\<close>, which an executor that was shut down refuses.\<close>

definition submit_begin :: "nat \<Rightarrow> life \<Rightarrow> py_error option \<times> life" where
  "submit_begin loop l =
     (case ensure_open l of Some e \<Rightarrow> (Some e, l) | None \<Rightarrow> bind_event_loop loop l)"

definition executor_submit :: "life \<Rightarrow> py_error option" where
  "executor_submit l =
     (if lf_executor_open l then None
      else Some (RuntimeError ''cannot schedule new futures after shutdown''))"

definition process_async :: "nat \<Rightarrow> life \<Rightarrow> py_error option \<times> life" where
  "process_async loop l =
     (case submit_begin loop l of (Some e, l) \<Rightarrow> (Some e, l) | (None, l) \<Rightarrow> (executor_submit l, l))"

text \<open>\<open>process_if_due\<close>: \<open>Inr False\<close> when the frame is skipped.\<close>

definition process_if_due :: "nat \<Rightarrow> real \<Rightarrow> real \<Rightarrow> life \<Rightarrow> (py_error + bool) \<times> life" where
  "process_if_due loop fps now l =
     (case ensure_open l of
        Some e \<Rightarrow> (Inl e, l)
      | None \<Rightarrow>
          (case frame_due fps now (lf_last_submit l) of
             (False, _) \<Rightarrow> (Inr False, l)
           | (True, submitted) \<Rightarrow>
               (case process_async loop (l\<lparr>lf_last_submit := submitted\<rparr>) of
                  (Some e, l) \<Rightarrow> (Inl e, l)
                | (None, l) \<Rightarrow> (Inr True, l))))"

subsection \<open>Emitting one event\<close>

definition emit_admit :: "life \<Rightarrow> py_error + life" where
  "emit_admit l =
     (if \<not> lf_accepting l then Inl (RuntimeError ''FramePipeline is no longer accepting callbacks'')
      else Inr (l\<lparr>lf_submissions := lf_submissions l + 1\<rparr>))"

text \<open>\<open>running\<close> holds the event loops that are running.\<close>

definition emit_reserve :: "nat set \<Rightarrow> life \<Rightarrow> py_error + life" where
  "emit_reserve running l =
     (if (case lf_loop l of None \<Rightarrow> True | Some loop \<Rightarrow> loop \<notin> running)
      then Inl (RuntimeError ''async event callbacks require process_async() or an explicit running event_loop'')
      else if card (lf_futures l) + lf_reservations l \<ge> lf_max_pending l
      then Inl (RuntimeError ''event callback backlog limit reached'')
      else Inr (l\<lparr>lf_reservations := lf_reservations l + 1\<rparr>))"

definition emit_unreserve :: "life \<Rightarrow> life" where
  "emit_unreserve l = l\<lparr>lf_reservations := lf_reservations l - 1\<rparr>"

definition add_future :: "nat \<Rightarrow> life \<Rightarrow> life" where
  "add_future t l = l\<lparr>lf_futures := insert t (lf_futures l)\<rparr>"

definition emit_leave :: "life \<Rightarrow> life" where
  "emit_leave l = l\<lparr>lf_submissions := lf_submissions l - 1\<rparr>"

text \<open>How a callback task ends, and \<open>_callback_finished\<close>; the error deque keeps a hundred.\<close>

datatype callback_end = Ended_Ok | Ended_Error py_error | Ended_Cancelled

definition keep_errors :: "py_error list \<Rightarrow> py_error list" where
  "keep_errors es = drop (length es - 100) es"

definition callback_finished :: "nat \<Rightarrow> callback_end \<Rightarrow> life \<Rightarrow> life" where
  "callback_finished t out l =
     (let l = l\<lparr>lf_futures := lf_futures l - {t}\<rparr>
      in case out of
           Ended_Cancelled \<Rightarrow> l
         | Ended_Ok \<Rightarrow> l
         | Ended_Error e \<Rightarrow> l\<lparr>lf_errors := keep_errors (lf_errors l @ [e])\<rparr>)"

subsection \<open>Closing\<close>

text \<open>\<open>close\<close>: \<open>Inr None\<close> returns at once.\<close>

definition close_begin :: "life \<Rightarrow> py_error + life option" where
  "close_begin l =
     (if lf_closed l then Inr None
      else if lf_close_task l
      then Inl (RuntimeError ''asynchronous shutdown is in progress; await aclose()'')
      else Inr (Some (l\<lparr>lf_closing := True\<rparr>)))"

definition close_check :: "life \<Rightarrow> (py_error + py_error list) \<times> life" where
  "close_check l =
     (if lf_futures l \<noteq> {} then Inl (RuntimeError ''async callback(s) are pending; await aclose() instead'')
      else Inr (lf_errors l),
      l\<lparr>lf_accepting := False\<rparr>)"

definition mark_closed :: "life \<Rightarrow> life" where
  "mark_closed l = l\<lparr>lf_closed := True\<rparr>"

text \<open>\<open>aclose\<close> before it awaits the shutdown task; \<open>caller\<close> is the task that calls it when that
  is a callback task. \<open>Inr (l, True)\<close> starts the shutdown task, \<open>Inr (l, False)\<close> joins it or
  returns.\<close>

definition own_callback :: "nat option \<Rightarrow> life \<Rightarrow> bool" where
  "own_callback caller l = (case caller of None \<Rightarrow> False | Some t \<Rightarrow> t \<in> lf_futures l)"

definition aclose_begin :: "nat option \<Rightarrow> nat \<Rightarrow> life \<Rightarrow> py_error + life \<times> bool" where
  "aclose_begin caller loop l =
     (if own_callback caller l
      then Inl (RuntimeError ''aclose() cannot be awaited from its own event callback'')
      else if lf_closed l then Inr (l, False)
      else case bind_event_loop loop l of
             (Some e, _) \<Rightarrow> Inl e
           | (None, l) \<Rightarrow>
               if lf_close_task l then Inr (l, False)
               else Inr (l\<lparr>lf_closing := True, lf_accepting := False, lf_close_task := True\<rparr>, True))"

text \<open>The check after the callbacks settled, in \<open>_aclose_impl\<close>.\<close>

definition aclose_collect :: "life \<Rightarrow> (py_error + py_error list) \<times> life" where
  "aclose_collect l =
     (if lf_submissions l \<noteq> 0 \<or> lf_futures l \<noteq> {}
      then (Inl (RuntimeError ''callback shutdown did not settle all submissions''), l)
      else (Inr (lf_errors l), l\<lparr>lf_errors := []\<rparr>))"

definition shut_executor :: "life \<Rightarrow> life" where
  "shut_executor l = l\<lparr>lf_executor_open := False\<rparr>"

definition callbacks_begin :: "nat option \<Rightarrow> nat \<Rightarrow> life \<Rightarrow> py_error option \<times> life" where
  "callbacks_begin caller loop l =
     (case bind_event_loop loop l of
        (Some e, l) \<Rightarrow> (Some e, l)
      | (None, l) \<Rightarrow>
          (if own_callback caller l
           then Some (RuntimeError ''wait_for_callbacks() cannot be awaited from its own event callback'')
           else None, l))"

definition wait_collect :: "life \<Rightarrow> py_error list \<times> life" where
  "wait_collect l = (lf_errors l, l\<lparr>lf_errors := []\<rparr>)"

text \<open>Callback errors become one exception of the call that collects them.\<close>

definition raise_collected :: "py_error list \<Rightarrow> py_error option" where
  "raise_collected es =
     (if es = [] then None else Some (RuntimeError ''event callback(s) failed''))"

subsection \<open>Program counters\<close>

text \<open>
  A thread slot calls \<open>process\<close> over and over: directly, or through the executor's queue. The list
  in a counter holds the events of the frame that are still to be emitted; in the finally block of
  an emission the flag says whether it raised, which ends the frame.
\<close>

datatype 'e caller_pc =
    Idle
  | Submitting
  | Queued
  | Entered
  | Emitting "'e list"
  | Calling "'e list"
  | Awaitable "'e list"
  | Reserved "'e list"
  | Posted "'e list"
  | Created nat "'e list"
  | Unreserved nat "'e list"
  | Added nat "'e list"
  | Finishing bool "'e list"
  | Unlocked

text \<open>A callback task: scheduled, running, or ended with \<open>_callback_finished\<close> not yet run or run.\<close>

datatype task_phase = Scheduled | Executing | Over callback_end | Settled callback_end

record callback_task =
  ct_phase :: task_phase
  ct_watched :: bool
  ct_cancel :: bool

definition new_task :: callback_task where
  "new_task = \<lparr>ct_phase = Scheduled, ct_watched = False, ct_cancel = False\<rparr>"

fun settled_phase :: "task_phase \<Rightarrow> bool" where
  "settled_phase (Settled _) = True"
| "settled_phase _ = False"

fun finished_phase :: "task_phase \<Rightarrow> bool" where
  "finished_phase Scheduled = False"
| "finished_phase Executing = False"
| "finished_phase _ = True"

definition settled :: "callback_task \<Rightarrow> bool" where
  "settled t = settled_phase (ct_phase t)"

definition finished :: "callback_task \<Rightarrow> bool" where
  "finished t = finished_phase (ct_phase t)"

definition cancel_task :: "callback_task \<Rightarrow> callback_task" where
  "cancel_task t = (if finished t then t else t\<lparr>ct_cancel := True\<rparr>)"

text \<open>\<open>_aclose_impl\<close>, the flag being \<open>cancel_pending\<close>; \<open>Shut_Raised\<close> when the shutdown task was
  cancelled or its check failed, \<open>Shut\<close> with the errors it raises otherwise.\<close>

datatype aclose_pc =
    No_Shutdown
  | Wait_Active bool
  | Wait_Submissions bool
  | Settling
  | Gathering "nat set"
  | Collecting
  | Stopping_Executor "py_error list"
  | Joining_Executor "py_error list"
  | Unsettled
  | Shut "py_error list"
  | Shut_Raised

text \<open>\<open>close\<close>; the flag says whether it was called on the event loop's own thread.\<close>

datatype closer_pc =
    No_Closer
  | Close_Executor bool
  | Close_Wait bool
  | Close_Mark "py_error list"
  | Close_Refused
  | Close_Done "py_error list"

datatype waiter_pc =
    W_Out
  | W_Submissions
  | W_Settling
  | W_Gathering "nat set"
  | W_Collect
  | W_Done "py_error list"

record 'e world =
  wd_life :: life
  wd_callers :: "'e caller_pc list"
  wd_lock :: "nat option"
  wd_tasks :: "callback_task list"
  wd_shutdown :: aclose_pc
  wd_closer :: closer_pc
  wd_waiters :: "waiter_pc list"
  wd_running :: "nat set"

fun closer_blocks_loop :: "closer_pc \<Rightarrow> bool" where
  "closer_blocks_loop (Close_Executor on_loop) = on_loop"
| "closer_blocks_loop (Close_Wait on_loop) = on_loop"
| "closer_blocks_loop _ = False"

text \<open>The bound loop takes a step when it runs and its thread is not inside a blocking \<open>close\<close>.\<close>

definition loop_free :: "'e world \<Rightarrow> bool" where
  "loop_free w =
     (\<not> closer_blocks_loop (wd_closer w)
      \<and> (case lf_loop (wd_life w) of None \<Rightarrow> False | Some loop \<Rightarrow> loop \<in> wd_running w))"

definition move_caller :: "nat \<Rightarrow> 'e caller_pc \<Rightarrow> 'e world \<Rightarrow> 'e world" where
  "move_caller i pc w = w\<lparr>wd_callers := (wd_callers w)[i := pc]\<rparr>"

definition set_life :: "life \<Rightarrow> 'e world \<Rightarrow> 'e world" where
  "set_life l w = w\<lparr>wd_life := l\<rparr>"

definition set_phase :: "nat \<Rightarrow> task_phase \<Rightarrow> 'e world \<Rightarrow> 'e world" where
  "set_phase t ph w = w\<lparr>wd_tasks := (wd_tasks w)[t := (wd_tasks w ! t)\<lparr>ct_phase := ph\<rparr>]\<rparr>"

definition watch_task :: "nat \<Rightarrow> 'e world \<Rightarrow> 'e world" where
  "watch_task t w = w\<lparr>wd_tasks := (wd_tasks w)[t := (wd_tasks w ! t)\<lparr>ct_watched := True\<rparr>]\<rparr>"

text \<open>\<open>_create_callback_task\<close>: the emission gets the number of the task it created.\<close>

definition create_task :: "nat \<Rightarrow> 'e list \<Rightarrow> 'e world \<Rightarrow> 'e world" where
  "create_task i evs w =
     move_caller i (Created (length (wd_tasks w)) evs) (w\<lparr>wd_tasks := wd_tasks w @ [new_task]\<rparr>)"

text \<open>\<open>executor.shutdown(cancel_futures=True)\<close> drops the calls that are still queued.\<close>

definition drop_queued :: "'e caller_pc \<Rightarrow> 'e caller_pc" where
  "drop_queued pc = (case pc of Queued \<Rightarrow> Idle | _ \<Rightarrow> pc)"

text \<open>\<open>_aclose_impl\<close> cancels the callbacks it found pending.\<close>

definition cancel_tasks :: "nat set \<Rightarrow> callback_task list \<Rightarrow> callback_task list" where
  "cancel_tasks pending ts =
     map (\<lambda>t. if t \<in> pending then cancel_task (ts ! t) else ts ! t) [0..<length ts]"

definition world_init :: "life \<Rightarrow> nat \<Rightarrow> nat \<Rightarrow> nat set \<Rightarrow> 'e world" where
  "world_init l callers waiters running =
     \<lparr>wd_life = l, wd_callers = replicate callers Idle, wd_lock = None, wd_tasks = [],
      wd_shutdown = No_Shutdown, wd_closer = No_Closer, wd_waiters = replicate waiters W_Out,
      wd_running = running\<rparr>"

subsection \<open>Steps\<close>

text \<open>The calls of \<open>process\<close>, on whichever thread, one critical section at a time.\<close>

inductive caller_step :: "nat \<Rightarrow> 'e world \<Rightarrow> 'e world \<Rightarrow> bool" for i where
  call_submit: "i < length (wd_callers w) \<Longrightarrow> wd_callers w ! i = Idle \<Longrightarrow>
    submit_begin loop (wd_life w) = (None, l) \<Longrightarrow>
    caller_step i w (move_caller i Submitting (set_life l w))"
| call_queued: "i < length (wd_callers w) \<Longrightarrow> wd_callers w ! i = Submitting \<Longrightarrow>
    executor_submit (wd_life w) = None \<Longrightarrow> caller_step i w (move_caller i Queued w)"
| call_unqueued: "i < length (wd_callers w) \<Longrightarrow> wd_callers w ! i = Submitting \<Longrightarrow>
    executor_submit (wd_life w) = Some e \<Longrightarrow> caller_step i w (move_caller i Idle w)"
| call_enter: "i < length (wd_callers w) \<Longrightarrow> wd_callers w ! i \<in> {Idle, Queued} \<Longrightarrow>
    enter_process (wd_life w) = Inr l \<Longrightarrow> caller_step i w (move_caller i Entered (set_life l w))"
| call_rejected: "i < length (wd_callers w) \<Longrightarrow> wd_callers w ! i = Queued \<Longrightarrow>
    enter_process (wd_life w) = Inl e \<Longrightarrow> caller_step i w (move_caller i Idle w)"
| call_lock: "i < length (wd_callers w) \<Longrightarrow> wd_callers w ! i = Entered \<Longrightarrow> wd_lock w = None \<Longrightarrow>
    caller_step i w (move_caller i (Emitting evs) (w\<lparr>wd_lock := Some i\<rparr>))"
| call_no_callback: "i < length (wd_callers w) \<Longrightarrow> wd_callers w ! i = Emitting (e # evs) \<Longrightarrow>
    \<not> lf_callback (wd_life w) \<Longrightarrow> caller_step i w (move_caller i (Emitting evs) w)"
| call_admit: "i < length (wd_callers w) \<Longrightarrow> wd_callers w ! i = Emitting (e # evs) \<Longrightarrow>
    lf_callback (wd_life w) \<Longrightarrow> emit_admit (wd_life w) = Inr l \<Longrightarrow>
    caller_step i w (move_caller i (Calling evs) (set_life l w))"
| call_not_admitted: "i < length (wd_callers w) \<Longrightarrow> wd_callers w ! i = Emitting (e # evs) \<Longrightarrow>
    lf_callback (wd_life w) \<Longrightarrow> emit_admit (wd_life w) = Inl err \<Longrightarrow>
    caller_step i w (move_caller i (Emitting []) w)"
| call_plain: "i < length (wd_callers w) \<Longrightarrow> wd_callers w ! i = Calling evs \<Longrightarrow>
    caller_step i w (move_caller i (Finishing raised evs) w)"
| call_awaitable: "i < length (wd_callers w) \<Longrightarrow> wd_callers w ! i = Calling evs \<Longrightarrow>
    caller_step i w (move_caller i (Awaitable evs) w)"
| call_reserve: "i < length (wd_callers w) \<Longrightarrow> wd_callers w ! i = Awaitable evs \<Longrightarrow>
    emit_reserve (wd_running w) (wd_life w) = Inr l \<Longrightarrow>
    caller_step i w (move_caller i (Reserved evs) (set_life l w))"
| call_refused: "i < length (wd_callers w) \<Longrightarrow> wd_callers w ! i = Awaitable evs \<Longrightarrow>
    emit_reserve (wd_running w) (wd_life w) = Inl e \<Longrightarrow>
    caller_step i w (move_caller i (Finishing True evs) w)"
| call_create: "i < length (wd_callers w) \<Longrightarrow> wd_callers w ! i = Reserved evs \<Longrightarrow>
    caller_step i w (create_task i evs w)"
| call_post: "i < length (wd_callers w) \<Longrightarrow> wd_callers w ! i = Reserved evs \<Longrightarrow>
    caller_step i w (move_caller i (Posted evs) w)"
| call_not_created: "i < length (wd_callers w) \<Longrightarrow> wd_callers w ! i = Reserved evs \<Longrightarrow>
    caller_step i w (move_caller i (Finishing True evs) (set_life (emit_unreserve (wd_life w)) w))"
| call_unreserve: "i < length (wd_callers w) \<Longrightarrow> wd_callers w ! i = Created t evs \<Longrightarrow>
    caller_step i w (move_caller i (Unreserved t evs) (set_life (emit_unreserve (wd_life w)) w))"
| call_add: "i < length (wd_callers w) \<Longrightarrow> wd_callers w ! i = Unreserved t evs \<Longrightarrow>
    caller_step i w (move_caller i (Added t evs) (set_life (add_future t (wd_life w)) w))"
| call_watch: "i < length (wd_callers w) \<Longrightarrow> wd_callers w ! i = Added t evs \<Longrightarrow>
    caller_step i w (move_caller i (Finishing False evs) (watch_task t w))"
| call_finish: "i < length (wd_callers w) \<Longrightarrow> wd_callers w ! i = Finishing raised evs \<Longrightarrow>
    caller_step i w (move_caller i (Emitting (if raised then [] else evs))
      (set_life (emit_leave (wd_life w)) w))"
| call_unlock: "i < length (wd_callers w) \<Longrightarrow> wd_callers w ! i = Emitting [] \<Longrightarrow>
    caller_step i w (move_caller i Unlocked (w\<lparr>wd_lock := None\<rparr>))"
| call_leave: "i < length (wd_callers w) \<Longrightarrow> wd_callers w ! i = Unlocked \<Longrightarrow>
    caller_step i w (move_caller i Idle (set_life (leave_process (wd_life w)) w))"

text \<open>
  The event loop: it creates the tasks other threads posted (or passes the failure back), starts
  them (\<open>_await_callback\<close> registers the task itself), lets them end and runs
  \<open>_callback_finished\<close>. A task that was cancelled before it started ends without running.
\<close>

inductive loop_step :: "'e world \<Rightarrow> 'e world \<Rightarrow> bool" where
  loop_create: "loop_free w \<Longrightarrow> i < length (wd_callers w) \<Longrightarrow> wd_callers w ! i = Posted evs \<Longrightarrow>
    loop_step w (create_task i evs w)"
| loop_not_created: "loop_free w \<Longrightarrow> i < length (wd_callers w) \<Longrightarrow> wd_callers w ! i = Posted evs \<Longrightarrow>
    loop_step w (move_caller i (Finishing True evs) (set_life (emit_unreserve (wd_life w)) w))"
| loop_start: "loop_free w \<Longrightarrow> t < length (wd_tasks w) \<Longrightarrow> ct_phase (wd_tasks w ! t) = Scheduled \<Longrightarrow>
    \<not> ct_cancel (wd_tasks w ! t) \<Longrightarrow>
    loop_step w (set_phase t Executing (set_life (add_future t (wd_life w)) w))"
| loop_cancelled: "loop_free w \<Longrightarrow> t < length (wd_tasks w) \<Longrightarrow> ct_phase (wd_tasks w ! t) = Scheduled \<Longrightarrow>
    ct_cancel (wd_tasks w ! t) \<Longrightarrow> loop_step w (set_phase t (Over Ended_Cancelled) w)"
| loop_end: "loop_free w \<Longrightarrow> t < length (wd_tasks w) \<Longrightarrow> ct_phase (wd_tasks w ! t) = Executing \<Longrightarrow>
    loop_step w (set_phase t (Over out) w)"
| loop_finished: "loop_free w \<Longrightarrow> t < length (wd_tasks w) \<Longrightarrow> ct_phase (wd_tasks w ! t) = Over out \<Longrightarrow>
    ct_watched (wd_tasks w ! t) \<Longrightarrow>
    loop_step w (set_phase t (Settled out) (set_life (callback_finished t out (wd_life w)) w))"

text \<open>
  A gather over tasks returns when they have ended; the callbacks of an ended task run in the order
  they were added, so those that were added to a task before the gather have run by then.
\<close>

definition gathered :: "nat set \<Rightarrow> callback_task list \<Rightarrow> bool" where
  "gathered pending ts =
     (\<forall>t\<in>pending. finished (ts ! t) \<and> (ct_watched (ts ! t) \<longrightarrow> settled (ts ! t)))"

inductive shutdown_step :: "'e world \<Rightarrow> 'e world \<Rightarrow> bool" where
  shut_active: "loop_free w \<Longrightarrow> wd_shutdown w = Wait_Active c \<Longrightarrow> lf_active (wd_life w) = 0 \<Longrightarrow>
    shutdown_step w (w\<lparr>wd_shutdown := Wait_Submissions c\<rparr>)"
| shut_submissions: "loop_free w \<Longrightarrow> wd_shutdown w = Wait_Submissions c \<Longrightarrow>
    lf_submissions (wd_life w) = 0 \<Longrightarrow>
    shutdown_step w (w\<lparr>wd_shutdown := Settling, wd_tasks :=
      (if c then cancel_tasks (lf_futures (wd_life w)) (wd_tasks w) else wd_tasks w)\<rparr>)"
| shut_gather: "loop_free w \<Longrightarrow> wd_shutdown w = Settling \<Longrightarrow> lf_futures (wd_life w) \<noteq> {} \<Longrightarrow>
    shutdown_step w (w\<lparr>wd_shutdown := Gathering (lf_futures (wd_life w))\<rparr>)"
| shut_gathered: "loop_free w \<Longrightarrow> wd_shutdown w = Gathering pending \<Longrightarrow> gathered pending (wd_tasks w) \<Longrightarrow>
    shutdown_step w (w\<lparr>wd_shutdown := Settling\<rparr>)"
| shut_settled: "loop_free w \<Longrightarrow> wd_shutdown w = Settling \<Longrightarrow> lf_futures (wd_life w) = {} \<Longrightarrow>
    shutdown_step w (w\<lparr>wd_shutdown := Collecting\<rparr>)"
| shut_collect: "loop_free w \<Longrightarrow> wd_shutdown w = Collecting \<Longrightarrow>
    aclose_collect (wd_life w) = (Inr errors, l) \<Longrightarrow>
    shutdown_step w (w\<lparr>wd_life := l, wd_shutdown := Stopping_Executor errors\<rparr>)"
| shut_unsettled: "loop_free w \<Longrightarrow> wd_shutdown w = Collecting \<Longrightarrow>
    aclose_collect (wd_life w) = (Inl e, l) \<Longrightarrow> shutdown_step w (w\<lparr>wd_shutdown := Unsettled\<rparr>)"
| shut_executor_shut: "loop_free w \<Longrightarrow> wd_shutdown w = Stopping_Executor errors \<Longrightarrow>
    shutdown_step w (w\<lparr>wd_life := shut_executor (wd_life w), wd_shutdown := Joining_Executor errors\<rparr>)"
| shut_joined: "loop_free w \<Longrightarrow> wd_shutdown w = Joining_Executor errors \<Longrightarrow>
    Queued \<notin> set (wd_callers w) \<Longrightarrow>
    shutdown_step w (w\<lparr>wd_life := mark_closed (wd_life w), wd_shutdown := Shut errors\<rparr>)"
| shut_raised: "loop_free w \<Longrightarrow> wd_shutdown w = Unsettled \<Longrightarrow>
    shutdown_step w (w\<lparr>wd_life := mark_closed (wd_life w), wd_shutdown := Shut_Raised\<rparr>)"

text \<open>
  The rest: calls of \<open>aclose\<close>, \<open>close\<close> and \<open>wait_for_callbacks\<close>, cancellation of the shutdown task
  by its loop, and loops that start or stop. A call that raises or returns at once and changes no
  field is no step. One thread at a time is inside \<open>close\<close>.
\<close>

inductive closer_step :: "'e world \<Rightarrow> 'e world \<Rightarrow> bool" where
  close_call: "wd_closer w \<in> {No_Closer, Close_Refused} \<Longrightarrow>
    close_begin (wd_life w) = Inr (Some l) \<Longrightarrow>
    closer_step w (w\<lparr>wd_life := l, wd_closer := Close_Executor on_loop\<rparr>)"
| close_executor: "wd_closer w = Close_Executor on_loop \<Longrightarrow>
    closer_step w (w\<lparr>wd_life := shut_executor (wd_life w),
      wd_callers := map drop_queued (wd_callers w), wd_closer := Close_Wait on_loop\<rparr>)"
| close_checked: "wd_closer w = Close_Wait on_loop \<Longrightarrow> lf_active (wd_life w) = 0 \<Longrightarrow>
    close_check (wd_life w) = (Inr errors, l) \<Longrightarrow>
    closer_step w (w\<lparr>wd_life := l, wd_closer := Close_Mark errors\<rparr>)"
| close_refused: "wd_closer w = Close_Wait on_loop \<Longrightarrow> lf_active (wd_life w) = 0 \<Longrightarrow>
    close_check (wd_life w) = (Inl e, l) \<Longrightarrow>
    closer_step w (w\<lparr>wd_life := l, wd_closer := Close_Refused\<rparr>)"
| close_marked: "wd_closer w = Close_Mark errors \<Longrightarrow>
    closer_step w (w\<lparr>wd_life := mark_closed (wd_life w), wd_closer := Close_Done errors\<rparr>)"

fun shutdown_running :: "aclose_pc \<Rightarrow> bool" where
  "shutdown_running No_Shutdown = False"
| "shutdown_running (Shut _) = False"
| "shutdown_running Shut_Raised = False"
| "shutdown_running _ = True"

inductive outside_step :: "'e world \<Rightarrow> 'e world \<Rightarrow> bool" where
  aclose_call: "wd_shutdown w = No_Shutdown \<Longrightarrow> loop \<in> wd_running w \<Longrightarrow>
    \<not> closer_blocks_loop (wd_closer w) \<Longrightarrow>
    aclose_begin caller loop (wd_life w) = Inr (l, True) \<Longrightarrow>
    outside_step w (w\<lparr>wd_life := l, wd_shutdown := Wait_Active cancel_pending\<rparr>)"
| aclose_cancelled: "loop_free w \<Longrightarrow> shutdown_running (wd_shutdown w) \<Longrightarrow>
    outside_step w (w\<lparr>wd_life := mark_closed (wd_life w), wd_shutdown := Shut_Raised\<rparr>)"
| loops_change: "outside_step w (w\<lparr>wd_running := running\<rparr>)"

inductive waiter_step :: "nat \<Rightarrow> 'e world \<Rightarrow> 'e world \<Rightarrow> bool" for j where
  wait_call: "j < length (wd_waiters w) \<Longrightarrow> wd_waiters w ! j = W_Out \<Longrightarrow> loop \<in> wd_running w \<Longrightarrow>
    \<not> closer_blocks_loop (wd_closer w) \<Longrightarrow> callbacks_begin caller loop (wd_life w) = (None, l) \<Longrightarrow>
    waiter_step j w (w\<lparr>wd_life := l, wd_waiters := (wd_waiters w)[j := W_Submissions]\<rparr>)"
| wait_submissions: "j < length (wd_waiters w) \<Longrightarrow> wd_waiters w ! j = W_Submissions \<Longrightarrow> loop_free w \<Longrightarrow>
    lf_submissions (wd_life w) = 0 \<Longrightarrow>
    waiter_step j w (w\<lparr>wd_waiters := (wd_waiters w)[j := W_Settling]\<rparr>)"
| wait_gather: "j < length (wd_waiters w) \<Longrightarrow> wd_waiters w ! j = W_Settling \<Longrightarrow> loop_free w \<Longrightarrow>
    lf_futures (wd_life w) \<noteq> {} \<Longrightarrow>
    waiter_step j w (w\<lparr>wd_waiters := (wd_waiters w)[j := W_Gathering (lf_futures (wd_life w))]\<rparr>)"
| wait_gathered: "j < length (wd_waiters w) \<Longrightarrow> wd_waiters w ! j = W_Gathering pending \<Longrightarrow> loop_free w \<Longrightarrow>
    gathered pending (wd_tasks w) \<Longrightarrow>
    waiter_step j w (w\<lparr>wd_waiters := (wd_waiters w)[j := W_Settling]\<rparr>)"
| wait_settled: "j < length (wd_waiters w) \<Longrightarrow> wd_waiters w ! j = W_Settling \<Longrightarrow> loop_free w \<Longrightarrow>
    lf_futures (wd_life w) = {} \<Longrightarrow>
    waiter_step j w (w\<lparr>wd_waiters := (wd_waiters w)[j := W_Collect]\<rparr>)"
| wait_collected: "j < length (wd_waiters w) \<Longrightarrow> wd_waiters w ! j = W_Collect \<Longrightarrow> loop_free w \<Longrightarrow>
    wait_collect (wd_life w) = (errors, l) \<Longrightarrow>
    waiter_step j w (w\<lparr>wd_life := l, wd_waiters := (wd_waiters w)[j := W_Done errors]\<rparr>)"
| wait_returned: "j < length (wd_waiters w) \<Longrightarrow> wd_waiters w ! j = W_Done errors \<Longrightarrow>
    waiter_step j w (w\<lparr>wd_waiters := (wd_waiters w)[j := W_Out]\<rparr>)"

inductive life_step :: "'e world \<Rightarrow> 'e world \<Rightarrow> bool" where
  step_caller: "caller_step i w w' \<Longrightarrow> life_step w w'"
| step_loop: "loop_step w w' \<Longrightarrow> life_step w w'"
| step_shutdown: "shutdown_step w w' \<Longrightarrow> life_step w w'"
| step_closer: "closer_step w w' \<Longrightarrow> life_step w w'"
| step_outside: "outside_step w w' \<Longrightarrow> life_step w w'"
| step_waiter: "waiter_step j w w' \<Longrightarrow> life_step w w'"

inductive life_reachable :: "'e world \<Rightarrow> 'e world \<Rightarrow> bool" for w0 where
  life_start: "life_reachable w0 w0"
| life_next: "life_reachable w0 w \<Longrightarrow> life_step w w' \<Longrightarrow> life_reachable w0 w'"

text \<open>The world around a pipeline that was just constructed.\<close>

definition fresh_world :: "'e world \<Rightarrow> bool" where
  "fresh_world w =
     (\<exists>max_pending callback loop l callers waiters running.
        life_init max_pending callback loop = Inr l \<and> w = world_init l callers waiters running)"

end
