(* ===== verification/Pipeline_Life_Props.thy ===== *)
theory Pipeline_Life_Props
  imports Pipeline_Life
begin

section \<open>Shutdown of the pipeline settles everything\<close>

text \<open>
  An invariant of the interleaved pipeline: the counters count the threads at the program points
  they stand for, the process lock has one holder, every unfinished callback task is registered or
  in the hands of the thread that creates it, and the phases of the shutdown have done what they
  waited for. Then: the bound on pending callbacks, what \<open>aclose\<close> leaves behind, and its
  termination.
\<close>

subsection \<open>Program points\<close>

fun in_process :: "'e caller_pc \<Rightarrow> bool" where
  "in_process Idle = False"
| "in_process Submitting = False"
| "in_process Queued = False"
| "in_process _ = True"

fun in_emission :: "'e caller_pc \<Rightarrow> bool" where
  "in_emission (Calling _) = True"
| "in_emission (Awaitable _) = True"
| "in_emission (Reserved _) = True"
| "in_emission (Posted _) = True"
| "in_emission (Created _ _) = True"
| "in_emission (Unreserved _ _) = True"
| "in_emission (Added _ _) = True"
| "in_emission (Finishing _ _) = True"
| "in_emission _ = False"

fun locked :: "'e caller_pc \<Rightarrow> bool" where
  "locked (Emitting _) = True"
| "locked pc = in_emission pc"

fun reserving :: "'e caller_pc \<Rightarrow> bool" where
  "reserving (Reserved _) = True"
| "reserving (Posted _) = True"
| "reserving (Created _ _) = True"
| "reserving _ = False"

fun promised :: "'e caller_pc \<Rightarrow> bool" where
  "promised (Reserved _) = True"
| "promised (Posted _) = True"
| "promised _ = False"

text \<open>The task a thread has created and not yet added, or not yet watched.\<close>

fun unadded :: "'e caller_pc \<Rightarrow> nat option" where
  "unadded (Created t _) = Some t"
| "unadded (Unreserved t _) = Some t"
| "unadded _ = None"

fun unwatched :: "'e caller_pc \<Rightarrow> nat option" where
  "unwatched (Added t _) = Some t"
| "unwatched pc = unadded pc"

definition how_many :: "('a \<Rightarrow> bool) \<Rightarrow> 'a list \<Rightarrow> nat" where
  "how_many P xs = length (filter P xs)"

lemma how_many_pos: "i < length xs \<Longrightarrow> P (xs ! i) \<Longrightarrow> 0 < how_many P xs"
  using nth_mem [of i xs] by (auto simp: how_many_def filter_empty_conv)

lemma how_many_zero: "how_many P xs = 0 \<longleftrightarrow> (\<forall>i<length xs. \<not> P (xs ! i))"
  by (simp add: how_many_def filter_empty_conv all_set_conv_all_nth)

lemma how_many_mono: "(\<And>x. P x \<Longrightarrow> Q x) \<Longrightarrow> how_many P xs \<le> how_many Q xs"
  by (induction xs) (auto simp: how_many_def intro: le_SucI)

lemma how_many_move:
  "i < length xs \<Longrightarrow>
   how_many P (xs[i := y]) =
     (if P (xs ! i) then (if P y then how_many P xs else how_many P xs - 1)
      else if P y then Suc (how_many P xs) else how_many P xs)"
proof (induction xs arbitrary: i)
  case (Cons x xs)
  show ?case
  proof (cases i)
    case (Suc k)
    then have "k < length xs" using Cons.prems by simp
    then show ?thesis using Cons.IH [of k] Suc how_many_pos [of k xs P] by (auto simp: how_many_def)
  qed (simp add: how_many_def)
qed simp

lemma how_many_drop_queued:
  "P Queued = P Idle \<Longrightarrow> how_many P (map drop_queued pcs) = how_many P pcs"
  by (induction pcs) (auto simp: how_many_def drop_queued_def split: caller_pc.splits)

lemmas caller_points = how_many_move move_caller_def set_life_def create_task_def watch_task_def set_phase_def

subsection \<open>The counters\<close>

definition counts_ok :: "'e world \<Rightarrow> bool" where
  "counts_ok w \<longleftrightarrow>
     lf_active (wd_life w) = how_many in_process (wd_callers w)
   \<and> lf_submissions (wd_life w) = how_many in_emission (wd_callers w)
   \<and> lf_reservations (wd_life w) = how_many reserving (wd_callers w)"

lemma bind_event_loop_same:
  "bind_event_loop loop l = (r, l') \<Longrightarrow> l' = l\<lparr>lf_loop := lf_loop l'\<rparr>"
  by (auto simp: bind_event_loop_def split: option.splits if_splits)

lemma submit_begin_same: "submit_begin loop l = (r, l') \<Longrightarrow> l' = l\<lparr>lf_loop := lf_loop l'\<rparr>"
  by (auto simp: submit_begin_def dest: bind_event_loop_same split: option.splits)

lemma callbacks_begin_same: "callbacks_begin caller loop l = (r, l') \<Longrightarrow> l' = l\<lparr>lf_loop := lf_loop l'\<rparr>"
  by (auto simp: callbacks_begin_def dest: bind_event_loop_same split: option.splits prod.splits)

lemma aclose_begin_same:
  assumes "aclose_begin caller loop l = Inr (l', True)"
  shows "l' = l\<lparr>lf_loop := lf_loop l', lf_closing := True, lf_accepting := False, lf_close_task := True\<rparr>
    \<and> \<not> lf_closed l"
  using assms
  by (auto simp: aclose_begin_def bind_event_loop_def split: option.splits if_splits prod.splits)

lemma enter_process_Inr:
  "enter_process l = Inr l' \<longleftrightarrow> \<not> lf_closing l \<and> \<not> lf_closed l \<and> l' = l\<lparr>lf_active := lf_active l + 1\<rparr>"
  by (auto simp: enter_process_def)

lemma emit_admit_Inr:
  "emit_admit l = Inr l' \<longleftrightarrow> lf_accepting l \<and> l' = l\<lparr>lf_submissions := lf_submissions l + 1\<rparr>"
  by (auto simp: emit_admit_def)

lemma emit_reserve_Inr:
  "emit_reserve running l = Inr l' \<Longrightarrow>
     card (lf_futures l) + lf_reservations l < lf_max_pending l
     \<and> l' = l\<lparr>lf_reservations := lf_reservations l + 1\<rparr>"
  by (auto simp: emit_reserve_def split: if_splits option.splits)

lemma caller_counts:
  assumes "caller_step i w w'" "counts_ok w"
  shows "counts_ok w'"
  using assms
proof cases
  case (call_submit loop l)
  note same = submit_begin_same [OF call_submit(4)]
  show ?thesis using assms(2) call_submit(1-3)
    by (subst call_submit(1), subst same) (simp add: counts_ok_def caller_points)
next
  case (call_finish raised evs)
  then show ?thesis using assms(2) by (simp add: counts_ok_def caller_points emit_leave_def)
qed (use assms(2) in \<open>auto simp: counts_ok_def caller_points enter_process_Inr emit_admit_Inr
      emit_unreserve_def add_future_def leave_process_def dest!: emit_reserve_Inr\<close>)

lemma loop_counts:
  assumes "loop_step w w'" "counts_ok w"
  shows "counts_ok w'"
  using assms(1)
  by cases (use assms(2) in \<open>auto simp: counts_ok_def caller_points emit_unreserve_def add_future_def
      callback_finished_def Let_def split: callback_end.splits\<close>)

text \<open>The steps of the other actors leave the counters alone.\<close>

definition same_counters :: "life \<Rightarrow> life \<Rightarrow> bool" where
  "same_counters l l' \<longleftrightarrow>
     lf_active l' = lf_active l \<and> lf_submissions l' = lf_submissions l
   \<and> lf_reservations l' = lf_reservations l \<and> lf_max_pending l' = lf_max_pending l
   \<and> lf_futures l' = lf_futures l"

lemma same_counters_refl [simp]: "same_counters l l"
  by (simp add: same_counters_def)

lemma same_counters_loop: "l' = l\<lparr>lf_loop := x\<rparr> \<Longrightarrow> same_counters l l'"
  by (simp add: same_counters_def)

definition other_step :: "'e world \<Rightarrow> 'e world \<Rightarrow> bool" where
  "other_step w w' \<longleftrightarrow>
     shutdown_step w w' \<or> closer_step w w' \<or> outside_step w w' \<or> (\<exists>j. waiter_step j w w')"

lemma life_step_cases:
  assumes "life_step w w'"
  obtains (Caller) i where "caller_step i w w'" | (Loop) "loop_step w w'" | (Other) "other_step w w'"
  using assms by cases (auto simp: other_step_def)

lemma shutdown_frame:
  assumes "shutdown_step w w'"
  shows "same_counters (wd_life w) (wd_life w') \<and> wd_lock w' = wd_lock w \<and> wd_callers w' = wd_callers w
    \<and> (\<exists>ts. wd_tasks w' = cancel_tasks ts (wd_tasks w) \<or> wd_tasks w' = wd_tasks w)"
  using assms
  by cases (auto simp: same_counters_def aclose_collect_def shut_executor_def mark_closed_def
      split: if_splits)

lemma closer_frame:
  assumes "closer_step w w'"
  shows "same_counters (wd_life w) (wd_life w') \<and> wd_lock w' = wd_lock w \<and> wd_tasks w' = wd_tasks w
    \<and> (wd_callers w' = wd_callers w \<or> wd_callers w' = map drop_queued (wd_callers w))"
  using assms
  by cases (auto simp: same_counters_def close_begin_def close_check_def shut_executor_def
      mark_closed_def split: if_splits)

lemma outside_frame:
  assumes "outside_step w w'"
  shows "same_counters (wd_life w) (wd_life w') \<and> wd_lock w' = wd_lock w \<and> wd_tasks w' = wd_tasks w
    \<and> wd_callers w' = wd_callers w"
  using assms
proof cases
  case (aclose_call loop caller l c)
  have "same_counters (wd_life w) l" using aclose_call(5)
    by (auto simp: aclose_begin_def bind_event_loop_def same_counters_def
        split: option.splits if_splits prod.splits)
  then show ?thesis using aclose_call(1) by simp
qed (auto simp: same_counters_def mark_closed_def)

lemma waiter_frame:
  assumes "waiter_step j w w'"
  shows "same_counters (wd_life w) (wd_life w') \<and> wd_lock w' = wd_lock w \<and> wd_tasks w' = wd_tasks w
    \<and> wd_callers w' = wd_callers w"
  using assms
proof cases
  case (wait_call loop caller l)
  from same_counters_loop [OF callbacks_begin_same [OF wait_call(6)]] show ?thesis using wait_call(1) by simp
qed (auto simp: same_counters_def wait_collect_def)

lemma other_frame:
  assumes "other_step w w'"
  shows "same_counters (wd_life w) (wd_life w')" "wd_lock w' = wd_lock w"
    "wd_callers w' = wd_callers w \<or> wd_callers w' = map drop_queued (wd_callers w)"
    "\<exists>ts. wd_tasks w' = cancel_tasks ts (wd_tasks w) \<or> wd_tasks w' = wd_tasks w"
  using assms shutdown_frame [of w w'] closer_frame [of w w'] outside_frame [of w w'] waiter_frame [of _ w w']
  unfolding other_step_def by blast+

lemma other_counts:
  assumes "other_step w w'" "counts_ok w"
  shows "counts_ok w'"
  using other_frame [OF assms(1)] assms(2)
  by (auto simp: counts_ok_def same_counters_def how_many_drop_queued)

lemma step_counts: "life_step w w' \<Longrightarrow> counts_ok w \<Longrightarrow> counts_ok w'"
  by (erule life_step_cases) (auto intro: caller_counts loop_counts other_counts)

subsection \<open>The process lock\<close>

definition lock_ok :: "'e world \<Rightarrow> bool" where
  "lock_ok w \<longleftrightarrow>
     (\<forall>i<length (wd_callers w). locked (wd_callers w ! i) \<longleftrightarrow> wd_lock w = Some i)
   \<and> (\<forall>i. wd_lock w = Some i \<longrightarrow> i < length (wd_callers w))"

lemma lock_okD: "lock_ok w \<Longrightarrow> i < length (wd_callers w) \<Longrightarrow> locked (wd_callers w ! i) \<Longrightarrow> wd_lock w = Some i"
  by (simp add: lock_ok_def)

lemma emission_locked: "in_emission pc \<Longrightarrow> locked pc"
  by (cases pc) auto

lemma unwatched_locked: "unwatched pc = Some t \<Longrightarrow> locked pc"
  by (cases pc) auto

lemma unadded_unwatched: "unadded pc = Some t \<Longrightarrow> unwatched pc = Some t"
  by (cases pc) auto

lemma caller_lock:
  assumes "caller_step i w w'" "lock_ok w"
  shows "lock_ok w'"
  using assms(1)
proof cases
  case (call_lock evs)
  then show ?thesis using assms(2) by (auto simp: lock_ok_def caller_points nth_list_update)
next
  case call_unlock
  then have "wd_lock w = Some i" by (intro lock_okD [OF assms(2)]) simp_all
  then show ?thesis using call_unlock assms(2) by (auto simp: lock_ok_def caller_points nth_list_update)
qed (use assms(2) in \<open>auto simp: lock_ok_def caller_points nth_list_update\<close>)

lemma loop_lock:
  assumes "loop_step w w'" "lock_ok w"
  shows "lock_ok w'"
  using assms(1)
  by cases (use assms(2) in \<open>auto simp: lock_ok_def caller_points nth_list_update\<close>)

lemma drop_queued_points [simp]:
  "locked (drop_queued pc) = locked pc" "unadded (drop_queued pc) = unadded pc"
  "unwatched (drop_queued pc) = unwatched pc" "in_process (drop_queued pc) = in_process pc"
  "promised (drop_queued pc) = promised pc"
  by (cases pc; simp add: drop_queued_def)+

lemma other_lock:
  assumes "other_step w w'" "lock_ok w"
  shows "lock_ok w'"
  using other_frame(2,3) [OF assms(1)] assms(2) by (auto simp: lock_ok_def)

lemma step_lock: "life_step w w' \<Longrightarrow> lock_ok w \<Longrightarrow> lock_ok w'"
  by (erule life_step_cases) (auto intro: caller_lock loop_lock other_lock)

subsection \<open>The callback tasks\<close>

text \<open>What the thread that holds the lock has in hand.\<close>

definition in_hand :: "('e caller_pc \<Rightarrow> nat option) \<Rightarrow> 'e world \<Rightarrow> nat option" where
  "in_hand f w = (case wd_lock w of None \<Rightarrow> None | Some i \<Rightarrow> f (wd_callers w ! i))"

text \<open>
  A registered task is not settled; a task that is not settled is registered, or the thread that
  created it has yet to add it; only that thread's unfinished emission leaves a task unwatched.
\<close>

definition registered_ok :: "'e world \<Rightarrow> bool" where
  "registered_ok w \<longleftrightarrow>
     (\<forall>t\<in>lf_futures (wd_life w). t < length (wd_tasks w) \<and> \<not> settled (wd_tasks w ! t))"

definition unsettled_ok :: "'e world \<Rightarrow> bool" where
  "unsettled_ok w \<longleftrightarrow>
     (\<forall>t<length (wd_tasks w). \<not> settled (wd_tasks w ! t) \<longrightarrow>
        t \<in> lf_futures (wd_life w) \<or> in_hand unadded w = Some t)"

definition watching_ok :: "'e world \<Rightarrow> bool" where
  "watching_ok w \<longleftrightarrow>
     (\<forall>t. in_hand unwatched w = Some t \<longleftrightarrow>
        t < length (wd_tasks w) \<and> \<not> ct_watched (wd_tasks w ! t))
   \<and> (\<forall>t<length (wd_tasks w). settled (wd_tasks w ! t) \<longrightarrow> ct_watched (wd_tasks w ! t))"

definition tasks_ok :: "'e world \<Rightarrow> bool" where
  "tasks_ok w \<longleftrightarrow> registered_ok w \<and> unsettled_ok w \<and> watching_ok w"

lemma caller_in_hand:
  assumes "lock_ok w" "i < length (wd_callers w)" "locked (wd_callers w ! i)"
  shows "in_hand f w = f (wd_callers w ! i)" "wd_lock w = Some i"
  using lock_okD [OF assms] by (simp_all add: in_hand_def)

lemma in_hand_frame [simp]: "in_hand f (set_life l w) = in_hand f w"
  by (simp add: in_hand_def set_life_def split: option.splits)

lemma in_hand_move:
  "i < length (wd_callers w) \<Longrightarrow>
   in_hand f (move_caller i pc w) = (if wd_lock w = Some i then f pc else in_hand f w)"
  by (auto simp: in_hand_def move_caller_def nth_list_update split: option.splits)

lemma world_frame [simp]:
  "wd_tasks (move_caller i pc w) = wd_tasks w" "wd_tasks (set_life l w) = wd_tasks w"
  "wd_life (move_caller i pc w) = wd_life w" "wd_life (set_life l w) = l"
  "wd_lock (move_caller i pc w) = wd_lock w" "wd_lock (set_life l w) = wd_lock w"
  "wd_callers (set_life l w) = wd_callers w" "wd_callers (move_caller i pc w) = (wd_callers w)[i := pc]"
  by (simp_all add: move_caller_def set_life_def)

lemma tasks_ok_cong:
  assumes "tasks_ok w" "wd_tasks w' = wd_tasks w" "lf_futures (wd_life w') = lf_futures (wd_life w)"
    and "in_hand unadded w' = in_hand unadded w" "in_hand unwatched w' = in_hand unwatched w"
  shows "tasks_ok w'"
  using assms by (simp add: tasks_ok_def registered_ok_def unsettled_ok_def watching_ok_def)

text \<open>A thread that has no task in hand, before and after, leaves the tasks' books as they are.\<close>

lemma idle_hand:
  assumes "tasks_ok w" "i < length (wd_callers w)" "unwatched (wd_callers w ! i) = None" "unwatched pc = None"
    and "lf_futures l = lf_futures (wd_life w)"
  shows "tasks_ok (move_caller i pc (set_life l w))"
proof -
  have none: "unadded x = None" if "unwatched x = None" for x :: "'a caller_pc"
    using that by (cases x) auto
  have "in_hand f (move_caller i pc (set_life l w)) = in_hand f w"
    if "f (wd_callers w ! i) = None" "f pc = None" for f
    using that assms(2) by (auto simp: in_hand_move) (auto simp: in_hand_def)
  with none assms(3,4) show ?thesis
    by (intro tasks_ok_cong [OF assms(1)]) (simp_all add: assms(5))
qed

lemma idle_move:
  assumes "tasks_ok w" "i < length (wd_callers w)" "unwatched (wd_callers w ! i) = None" "unwatched pc = None"
  shows "tasks_ok (move_caller i pc w)"
  using idle_hand [OF assms, of "wd_life w"] by (simp add: set_life_def)

lemma task_created:
  assumes "lock_ok w" "tasks_ok w" "i < length (wd_callers w)" "promised (wd_callers w ! i)"
  shows "tasks_ok (create_task i evs w)"
proof -
  have lk: "locked (wd_callers w ! i)" "unadded (wd_callers w ! i) = None" "unwatched (wd_callers w ! i) = None"
    using assms(4) by (cases "wd_callers w ! i"; simp)+
  note hand = caller_in_hand [OF assms(1,3) lk(1)]
  let ?w = "create_task i evs w" and ?n = "length (wd_tasks w)"
  have after: "in_hand unadded ?w = Some ?n" "in_hand unwatched ?w = Some ?n"
    "wd_tasks ?w = wd_tasks w @ [new_task]" "wd_life ?w = wd_life w"
    using assms(3) hand(2) by (simp_all add: create_task_def in_hand_move)
  have before: "in_hand unadded w = None" "in_hand unwatched w = None"
    using hand(1) lk by simp_all
  have "registered_ok ?w" using assms(2)
    by (auto simp: tasks_ok_def registered_ok_def after nth_append dest: bspec)
  moreover have "unsettled_ok ?w" using assms(2)
    by (auto simp: tasks_ok_def unsettled_ok_def after before nth_append less_Suc_eq)
  moreover have "watching_ok ?w" using assms(2)
    by (auto simp: tasks_ok_def watching_ok_def after before nth_append less_Suc_eq new_task_def settled_def)
  ultimately show ?thesis by (simp add: tasks_ok_def)
qed

lemma task_added:
  assumes "lock_ok w" "tasks_ok w" "i < length (wd_callers w)" "wd_callers w ! i = Unreserved t evs"
  shows "tasks_ok (move_caller i (Added t evs) (set_life (add_future t (wd_life w)) w))"
proof -
  have lk: "locked (wd_callers w ! i)" using assms(4) by simp
  note hand = caller_in_hand [OF assms(1,3) lk]
  have t: "t < length (wd_tasks w)" "\<not> settled (wd_tasks w ! t)"
    using assms(2,4) hand(1) by (auto simp: tasks_ok_def watching_ok_def)
  show ?thesis using assms(2,3,4) hand t
    by (auto simp: tasks_ok_def registered_ok_def unsettled_ok_def watching_ok_def in_hand_move
        add_future_def)
qed

lemma task_watched:
  assumes "lock_ok w" "tasks_ok w" "i < length (wd_callers w)" "wd_callers w ! i = Added t evs"
  shows "tasks_ok (move_caller i (Finishing False evs) (watch_task t w))"
proof -
  have lk: "locked (wd_callers w ! i)" using assms(4) by simp
  note hand = caller_in_hand [OF assms(1,3) lk]
  have frame: "wd_callers (watch_task t w) = wd_callers w" "wd_lock (watch_task t w) = wd_lock w"
    "wd_life (watch_task t w) = wd_life w" by (simp_all add: watch_task_def)
  have set: "settled (wd_tasks (watch_task t w) ! k) = settled (wd_tasks w ! k)" if "k < length (wd_tasks w)" for k
    using that by (cases "k = t") (simp_all add: watch_task_def settled_def)
  have len: "length (wd_tasks (watch_task t w)) = length (wd_tasks w)" by (simp add: watch_task_def)
  have wat: "ct_watched (wd_tasks (watch_task t w) ! k) = (k = t \<or> ct_watched (wd_tasks w ! k))"
    if "k < length (wd_tasks w)" for k using that by (cases "k = t") (simp_all add: watch_task_def)
  show ?thesis using assms(2,3,4) hand set wat
    by (auto simp: tasks_ok_def registered_ok_def unsettled_ok_def watching_ok_def in_hand_move frame len) metis
qed

lemma caller_tasks:
  assumes step: "caller_step i w w'" and inv: "lock_ok w" "tasks_ok w"
  shows "tasks_ok w'"
  using step
proof cases
  case (call_create evs)
  then show ?thesis using task_created [OF inv call_create(2)] by simp
next
  case (call_unreserve t evs)
  have "locked (wd_callers w ! i)" using call_unreserve(3) by simp
  note hand = caller_in_hand [OF inv(1) call_unreserve(2) this]
  show ?thesis unfolding call_unreserve(1) using hand call_unreserve(2,3)
    by (intro tasks_ok_cong [OF inv(2)]) (simp_all add: in_hand_move emit_unreserve_def)
next
  case (call_add t evs)
  then show ?thesis using task_added [OF inv call_add(2,3)] by simp
next
  case (call_watch t evs)
  then show ?thesis using task_watched [OF inv call_watch(2,3)] by simp
next
  case (call_submit loop l)
  note same = submit_begin_same [OF call_submit(4)]
  show ?thesis unfolding call_submit(1)
    by (rule idle_hand [OF inv(2) call_submit(2)]) (use call_submit(3) same in \<open>simp_all, metis life.select_convs(9) life.surjective life.update_convs(3)\<close>)
next
  case (call_lock evs)
  then show ?thesis
    by (intro tasks_ok_cong [OF inv(2)]) (auto simp: in_hand_def move_caller_def)
next
  case call_unlock
  have "locked (wd_callers w ! i)" using call_unlock(3) by simp
  note hand = caller_in_hand [OF inv(1) call_unlock(2) this]
  show ?thesis unfolding call_unlock(1) using hand(1) call_unlock(3)
    by (intro tasks_ok_cong [OF inv(2)]) (simp_all add: in_hand_def [of _ "move_caller i Unlocked _"])
qed (auto intro!: idle_hand [OF inv(2)] idle_move [OF inv(2)] simp: enter_process_Inr emit_admit_Inr
    emit_unreserve_def leave_process_def emit_leave_def dest!: emit_reserve_Inr)

lemma set_phase_frame [simp]:
  "wd_life (set_phase t ph w) = wd_life w" "wd_lock (set_phase t ph w) = wd_lock w"
  "wd_callers (set_phase t ph w) = wd_callers w" "in_hand f (set_phase t ph w) = in_hand f w"
  "length (wd_tasks (set_phase t ph w)) = length (wd_tasks w)"
  by (simp_all add: set_phase_def in_hand_def split: option.splits)

lemma set_phase_watched [simp]: "ct_watched (wd_tasks (set_phase t ph w) ! k) = ct_watched (wd_tasks w ! k)"
  by (cases "k = t"; cases "t < length (wd_tasks w)") (simp_all add: set_phase_def list_update_beyond)

lemma set_phase_settled:
  "t < length (wd_tasks w) \<Longrightarrow> settled (wd_tasks (set_phase t ph w) ! k) =
     (if k = t then settled_phase ph else settled (wd_tasks w ! k))"
  by (cases "k = t") (simp_all add: set_phase_def settled_def)

lemma phase_tasks:
  assumes "tasks_ok w" "t < length (wd_tasks w)" "\<not> settled (wd_tasks w ! t)" "\<not> settled_phase ph"
    and "lf_futures l = lf_futures (wd_life w) \<or> lf_futures l = insert t (lf_futures (wd_life w))"
  shows "tasks_ok (set_phase t ph (set_life l w))"
  using assms
  by (auto simp: tasks_ok_def registered_ok_def unsettled_ok_def watching_ok_def set_phase_settled)

lemma settle_task:
  assumes "tasks_ok w" "t < length (wd_tasks w)" "ct_watched (wd_tasks w ! t)"
  shows "tasks_ok (set_phase t (Settled out) (set_life (callback_finished t out (wd_life w)) w))"
proof -
  have futures: "lf_futures (callback_finished t out (wd_life w)) = lf_futures (wd_life w) - {t}"
    by (simp add: callback_finished_def Let_def split: callback_end.splits)
  show ?thesis using assms
    by (auto simp: tasks_ok_def registered_ok_def unsettled_ok_def watching_ok_def set_phase_settled futures)
qed

lemma loop_tasks:
  assumes step: "loop_step w w'" and inv: "lock_ok w" "tasks_ok w"
  shows "tasks_ok w'"
  using step
proof cases
  case (loop_create i evs)
  then show ?thesis using task_created [OF inv loop_create(3)] by simp
next
  case (loop_not_created i evs)
  then show ?thesis by (auto intro!: idle_hand [OF inv(2)] simp: emit_unreserve_def)
next
  case (loop_cancelled t)
  then show ?thesis
    using phase_tasks [OF inv(2) loop_cancelled(3), of "Over Ended_Cancelled" "wd_life w"]
    by (simp add: set_life_def settled_def)
next
  case (loop_end t out)
  then show ?thesis using phase_tasks [OF inv(2) loop_end(3), of "Over out" "wd_life w"]
    by (simp add: set_life_def settled_def)
next
  case (loop_finished t out)
  then show ?thesis using settle_task [OF inv(2)] by simp
qed (auto intro!: phase_tasks [OF inv(2)] simp: settled_def add_future_def)

lemma cancel_tasks_frame [simp]:
  "length (cancel_tasks pending ts) = length ts"
  "k < length ts \<Longrightarrow> ct_phase (cancel_tasks pending ts ! k) = ct_phase (ts ! k)"
  "k < length ts \<Longrightarrow> ct_watched (cancel_tasks pending ts ! k) = ct_watched (ts ! k)"
  by (simp_all add: cancel_tasks_def cancel_task_def)

lemma other_tasks:
  assumes step: "other_step w w'" and inv: "lock_ok w" "tasks_ok w"
  shows "tasks_ok w'"
proof -
  note frame = other_frame [OF step]
  have hand: "in_hand f w' = in_hand f w" if "\<And>pc. f (drop_queued pc) = f pc" for f
  proof (cases "wd_lock w")
    case None
    then show ?thesis by (simp add: in_hand_def frame(2))
  next
    case (Some i)
    then have "i < length (wd_callers w)" using inv(1) by (simp add: lock_ok_def)
    then show ?thesis using Some frame(2,3) that by (auto simp: in_hand_def)
  qed
  show ?thesis using inv(2) frame(1,4) hand
    by (auto simp: tasks_ok_def registered_ok_def unsettled_ok_def watching_ok_def same_counters_def settled_def)
qed

lemma step_tasks: "life_step w w' \<Longrightarrow> lock_ok w \<Longrightarrow> tasks_ok w \<Longrightarrow> tasks_ok w'"
  by (erule life_step_cases) (auto intro: caller_tasks loop_tasks other_tasks)

subsection \<open>The bound on pending callbacks\<close>

definition open_tasks :: "'e world \<Rightarrow> nat set" where
  "open_tasks w = {t. t < length (wd_tasks w) \<and> \<not> settled (wd_tasks w ! t)}"

definition bound_ok :: "'e world \<Rightarrow> bool" where
  "bound_ok w \<longleftrightarrow> card (open_tasks w) + how_many promised (wd_callers w) \<le> lf_max_pending (wd_life w)"

lemma finite_open [simp]: "finite (open_tasks w)"
  by (simp add: open_tasks_def)

lemma open_tasks_cong:
  "wd_tasks w' = wd_tasks w \<Longrightarrow> open_tasks w' = open_tasks w"
  by (simp add: open_tasks_def)

lemma open_tasks_frame [simp]:
  "open_tasks (move_caller i pc w) = open_tasks w" "open_tasks (set_life l w) = open_tasks w"
  by (simp_all add: open_tasks_def)

lemma open_tasks_create:
  "open_tasks (create_task i evs w) = insert (length (wd_tasks w)) (open_tasks w)"
  by (auto simp: open_tasks_def create_task_def nth_append new_task_def settled_def less_Suc_eq)

lemma open_tasks_watch [simp]: "open_tasks (watch_task t w) = open_tasks w"
proof -
  have "settled (wd_tasks (watch_task t w) ! k) = settled (wd_tasks w ! k)" for k
    by (cases "k = t"; cases "t < length (wd_tasks w)")
      (simp_all add: watch_task_def settled_def list_update_beyond)
  then show ?thesis by (simp add: open_tasks_def watch_task_def)
qed

lemma open_tasks_phase:
  "t < length (wd_tasks w) \<Longrightarrow> \<not> settled (wd_tasks w ! t) \<Longrightarrow>
   open_tasks (set_phase t ph w) = (if settled_phase ph then open_tasks w - {t} else open_tasks w)"
  by (auto simp: open_tasks_def set_phase_settled)

lemma bound_mono:
  assumes "bound_ok w" "open_tasks w' \<subseteq> open_tasks w"
    and "how_many promised (wd_callers w') \<le> how_many promised (wd_callers w)"
    and "lf_max_pending (wd_life w') = lf_max_pending (wd_life w)"
  shows "bound_ok w'"
  using card_mono [OF finite_open assms(2)] assms(1,3,4) by (simp add: bound_ok_def)

lemma bound_create:
  assumes "bound_ok w" "i < length (wd_callers w)" "promised (wd_callers w ! i)"
  shows "bound_ok (create_task i evs w)"
proof -
  have new: "length (wd_tasks w) \<notin> open_tasks w" by (simp add: open_tasks_def)
  have frame: "wd_callers (create_task i evs w) = (wd_callers w)[i := Created (length (wd_tasks w)) evs]"
    "wd_life (create_task i evs w) = wd_life w"
    by (simp_all add: create_task_def move_caller_def)
  show ?thesis
    using assms new how_many_pos [of i "wd_callers w" promised]
    by (simp add: bound_ok_def open_tasks_create frame how_many_move)
qed

text \<open>Only the holder of the lock reserves a place, and then every open task is registered.\<close>

lemma bound_reserve:
  assumes inv: "counts_ok w" "lock_ok w" "tasks_ok w"
    and i: "i < length (wd_callers w)" "wd_callers w ! i = Awaitable evs"
    and l: "emit_reserve (wd_running w) (wd_life w) = Inr l"
  shows "bound_ok (move_caller i (Reserved evs) (set_life l w))"
proof -
  have "locked (wd_callers w ! i)" using i(2) by simp
  note hand = caller_in_hand [OF inv(2) i(1) this]
  have "in_hand unadded w = None" using hand(1) i(2) by simp
  then have "open_tasks w = lf_futures (wd_life w)"
    using inv(3) by (auto simp: open_tasks_def tasks_ok_def registered_ok_def unsettled_ok_def)
  moreover have "how_many promised (wd_callers w) \<le> lf_reservations (wd_life w)"
    using inv(1) how_many_mono [of promised reserving "wd_callers w"]
    by (simp add: counts_ok_def) (metis promised.elims(2) reserving.simps(1,2))
  ultimately show ?thesis using emit_reserve_Inr [OF l] i
    by (simp add: bound_ok_def how_many_move)
qed

lemma caller_max:
  assumes "caller_step i w w'"
  shows "lf_max_pending (wd_life w') = lf_max_pending (wd_life w)"
  using assms
proof cases
  case (call_submit loop l)
  from submit_begin_same [OF call_submit(4)] show ?thesis unfolding call_submit(1)
    by (simp add: move_caller_def set_life_def) (metis life.select_convs(1) life.surjective life.update_convs(3))
qed (auto simp: caller_points enter_process_Inr emit_admit_Inr emit_unreserve_def leave_process_def
    emit_leave_def add_future_def dest!: emit_reserve_Inr)

lemma caller_bound:
  assumes step: "caller_step i w w'" and inv: "counts_ok w" "lock_ok w" "tasks_ok w" "bound_ok w"
  shows "bound_ok w'"
  using step
proof cases
  case (call_reserve evs l)
  then show ?thesis using bound_reserve [OF inv(1-3)] by simp
next
  case (call_create evs)
  then show ?thesis using bound_create [OF inv(4)] by simp
next
  case (call_watch t evs)
  have "wd_callers (watch_task t w) = wd_callers w" by (simp add: watch_task_def)
  then show ?thesis using call_watch
    by (intro bound_mono [OF inv(4) _ _ caller_max [OF step]]) (simp_all add: how_many_move)
qed (rule bound_mono [OF inv(4) _ _ caller_max [OF step]]; simp add: how_many_move open_tasks_def; fail)+

lemma loop_bound:
  assumes step: "loop_step w w'" and inv: "bound_ok w"
  shows "bound_ok w'"
  using step
proof cases
  case (loop_create i evs)
  then show ?thesis using bound_create [OF inv] by simp
next
  case (loop_finished t out)
  then show ?thesis
    by (intro bound_mono [OF inv])
      (auto simp: open_tasks_phase settled_def callback_finished_def Let_def split: callback_end.splits)
qed (auto intro!: bound_mono [OF inv] simp: how_many_move emit_unreserve_def add_future_def open_tasks_phase settled_def)

lemma other_bound:
  assumes "other_step w w'" "bound_ok w"
  shows "bound_ok w'"
proof -
  note frame = other_frame [OF assms(1)]
  have "open_tasks w' = open_tasks w" using frame(4)
    by (auto simp: open_tasks_def settled_def)
  moreover have "how_many promised (wd_callers w') = how_many promised (wd_callers w)"
    using frame(3) by (auto simp: how_many_drop_queued)
  ultimately show ?thesis using assms(2) frame(1) by (simp add: bound_ok_def same_counters_def)
qed

definition life_inv :: "'e world \<Rightarrow> bool" where
  "life_inv w \<longleftrightarrow> counts_ok w \<and> lock_ok w \<and> tasks_ok w \<and> bound_ok w"

lemma life_inv_step:
  assumes "life_step w w'" "life_inv w"
  shows "life_inv w'"
  using assms(2) step_counts [OF assms(1)] step_lock [OF assms(1)] step_tasks [OF assms(1)]
  by (cases rule: life_step_cases [OF assms(1)])
    (auto simp: life_inv_def intro: caller_bound loop_bound other_bound)

lemma how_many_replicate: "\<not> P x \<Longrightarrow> how_many P (replicate n x) = 0"
  by (simp add: how_many_def)

lemma life_inv_fresh: "fresh_world w \<Longrightarrow> life_inv w"
  by (auto simp: fresh_world_def life_init_def world_init_def life_inv_def counts_ok_def lock_ok_def
      tasks_ok_def registered_ok_def unsettled_ok_def watching_ok_def bound_ok_def open_tasks_def
      in_hand_def how_many_replicate split: if_splits)

lemma life_inv_reachable: "life_reachable w0 w \<Longrightarrow> fresh_world w0 \<Longrightarrow> life_inv w"
  by (induction rule: life_reachable.induct) (auto intro: life_inv_fresh life_inv_step)

subsection \<open>The phases of a shutdown\<close>

fun past_active :: "aclose_pc \<Rightarrow> bool" where
  "past_active No_Shutdown = False"
| "past_active (Wait_Active _) = False"
| "past_active Shut_Raised = False"
| "past_active _ = True"

fun past_settling :: "aclose_pc \<Rightarrow> bool" where
  "past_settling Collecting = True"
| "past_settling (Stopping_Executor _) = True"
| "past_settling (Joining_Executor _) = True"
| "past_settling (Shut _) = True"
| "past_settling _ = False"

fun past_executor :: "aclose_pc \<Rightarrow> bool" where
  "past_executor (Joining_Executor _) = True"
| "past_executor (Shut _) = True"
| "past_executor _ = False"

fun close_drained :: "closer_pc \<Rightarrow> bool" where
  "close_drained (Close_Mark _) = True"
| "close_drained (Close_Done _) = True"
| "close_drained _ = False"

definition quiet :: "'e world \<Rightarrow> bool" where
  "quiet w \<longleftrightarrow> lf_closing (wd_life w) \<and> lf_active (wd_life w) = 0"

definition drained :: "'e world \<Rightarrow> bool" where
  "drained w \<longleftrightarrow> quiet w \<and> lf_futures (wd_life w) = {}"

definition phases_ok :: "'e world \<Rightarrow> bool" where
  "phases_ok w \<longleftrightarrow>
     (lf_closed (wd_life w) \<longrightarrow> lf_closing (wd_life w))
   \<and> (wd_shutdown w \<noteq> No_Shutdown \<longrightarrow> lf_closing (wd_life w) \<and> \<not> lf_accepting (wd_life w))
   \<and> (past_active (wd_shutdown w) \<longrightarrow> quiet w)
   \<and> (past_settling (wd_shutdown w) \<or> close_drained (wd_closer w) \<longrightarrow> drained w)
   \<and> (past_executor (wd_shutdown w) \<longrightarrow> \<not> lf_executor_open (wd_life w))
   \<and> (\<forall>es. wd_shutdown w = Shut es \<longrightarrow> Queued \<notin> set (wd_callers w) \<and> lf_closed (wd_life w))
   \<and> wd_shutdown w \<noteq> Unsettled
   \<and> (wd_closer w \<notin> {No_Closer} \<longrightarrow> lf_closing (wd_life w))
   \<and> (close_drained (wd_closer w) \<longrightarrow> \<not> lf_accepting (wd_life w))"

text \<open>The flags only the closing operations write.\<close>

definition same_flags :: "'e world \<Rightarrow> 'e world \<Rightarrow> bool" where
  "same_flags w w' \<longleftrightarrow>
     lf_closing (wd_life w') = lf_closing (wd_life w) \<and> lf_closed (wd_life w') = lf_closed (wd_life w)
   \<and> lf_accepting (wd_life w') = lf_accepting (wd_life w)
   \<and> lf_executor_open (wd_life w') = lf_executor_open (wd_life w)
   \<and> wd_shutdown w' = wd_shutdown w \<and> wd_closer w' = wd_closer w"

lemma bind_event_loop_flags:
  "bind_event_loop loop l = (r, l') \<Longrightarrow>
     lf_closing l' = lf_closing l \<and> lf_closed l' = lf_closed l \<and> lf_accepting l' = lf_accepting l
   \<and> lf_executor_open l' = lf_executor_open l \<and> lf_active l' = lf_active l \<and> lf_futures l' = lf_futures l"
  by (auto simp: bind_event_loop_def split: option.splits if_splits)

lemma submit_begin_flags:
  "submit_begin loop l = (r, l') \<Longrightarrow>
     lf_closing l' = lf_closing l \<and> lf_closed l' = lf_closed l \<and> lf_accepting l' = lf_accepting l
   \<and> lf_executor_open l' = lf_executor_open l \<and> lf_active l' = lf_active l \<and> lf_futures l' = lf_futures l"
  by (auto simp: submit_begin_def dest: bind_event_loop_flags split: option.splits)

lemma submit_begin_open: "submit_begin loop l = (None, l') \<Longrightarrow> \<not> lf_closing l"
  by (auto simp: submit_begin_def ensure_open_def split: if_splits)

lemma caller_flags:
  assumes "caller_step i w w'"
  shows "same_flags w w'"
  using assms
  by cases (auto simp: same_flags_def caller_points enter_process_Inr emit_admit_Inr emit_unreserve_def
      leave_process_def emit_leave_def add_future_def dest!: emit_reserve_Inr submit_begin_flags)

lemma loop_flags:
  assumes "loop_step w w'"
  shows "same_flags w w'"
  using assms
  by cases (auto simp: same_flags_def caller_points emit_unreserve_def add_future_def
      callback_finished_def Let_def split: callback_end.splits)

text \<open>A quiet pipeline: no thread is in \<open>process\<close>, and none gets in.\<close>

lemma quiet_callers:
  assumes "counts_ok w" "quiet w" "i < length (wd_callers w)"
  shows "\<not> in_process (wd_callers w ! i)"
  using assms how_many_zero [of in_process "wd_callers w"] by (simp add: counts_ok_def quiet_def)

lemma quiet_caller_step:
  assumes step: "caller_step i w w'" and inv: "counts_ok w" "quiet w"
  shows "wd_life w' = wd_life w \<and> wd_tasks w' = wd_tasks w
    \<and> (wd_callers w' = (wd_callers w)[i := Idle]
       \<or> lf_executor_open (wd_life w) \<and> wd_callers w' = (wd_callers w)[i := Queued])"
  using step
proof cases
  case (call_submit loop l)
  from submit_begin_open [OF call_submit(4)] inv(2) show ?thesis by (simp add: quiet_def)
next
  case (call_queued)
  then show ?thesis by (auto simp: executor_submit_def split: if_splits)
next
  case (call_unqueued e)
  then show ?thesis by simp
next
  case (call_rejected e)
  then show ?thesis by simp
next
  case (call_enter l)
  then show ?thesis using inv(2) by (simp add: enter_process_Inr quiet_def)
qed (use quiet_callers [OF inv(1,2), of i] in auto)

lemma quiet_loop_step:
  assumes step: "loop_step w w'" and inv: "life_inv w" "quiet w"
  shows "quiet w' \<and> lf_futures (wd_life w') \<subseteq> lf_futures (wd_life w) \<and> wd_callers w' = wd_callers w
    \<and> lf_futures (wd_life w) \<noteq> {}"
proof -
  have counts: "counts_ok w" and lock: "lock_ok w" and tasks: "tasks_ok w"
    using inv(1) by (simp_all add: life_inv_def)
  have none: "in_hand unadded w = None"
  proof (cases "wd_lock w")
    case (Some k)
    then have "k < length (wd_callers w)" using lock by (simp add: lock_ok_def)
    from quiet_callers [OF counts inv(2) this] Some show ?thesis
      by (cases "wd_callers w ! k") (simp_all add: in_hand_def)
  qed (simp add: in_hand_def)
  have reg: "t \<in> lf_futures (wd_life w)" if "t < length (wd_tasks w)" "\<not> settled (wd_tasks w ! t)" for t
    using tasks none that by (auto simp: tasks_ok_def unsettled_ok_def)
  from step show ?thesis
  proof cases
    case (loop_create i evs)
    then show ?thesis using quiet_callers [OF counts inv(2), of i] by simp
  next
    case (loop_not_created i evs)
    then show ?thesis using quiet_callers [OF counts inv(2), of i] by simp
  next
    case (loop_start t)
    then show ?thesis using inv(2) reg [of t] by (auto simp: quiet_def add_future_def settled_def)
  next
    case (loop_cancelled t)
    then show ?thesis using inv(2) reg [of t] by (auto simp: quiet_def settled_def)
  next
    case (loop_end t out)
    then show ?thesis using inv(2) reg [of t] by (auto simp: quiet_def settled_def)
  next
    case (loop_finished t out)
    then show ?thesis using inv(2) reg [of t]
      by (auto simp: quiet_def settled_def callback_finished_def Let_def split: callback_end.splits)
  qed
qed

lemma quiet_submissions:
  assumes "counts_ok w" "quiet w"
  shows "lf_submissions (wd_life w) = 0" "lf_reservations (wd_life w) = 0"
proof -
  have "in_process pc" if "in_emission pc \<or> reserving pc" for pc :: "'a caller_pc"
    using that by (cases pc) auto
  then have "how_many in_emission (wd_callers w) \<le> how_many in_process (wd_callers w)"
    "how_many reserving (wd_callers w) \<le> how_many in_process (wd_callers w)"
    by (auto intro: how_many_mono)
  then show "lf_submissions (wd_life w) = 0" "lf_reservations (wd_life w) = 0"
    using assms by (simp_all add: counts_ok_def quiet_def)
qed

lemma caller_phases:
  assumes step: "caller_step i w w'" and inv: "life_inv w" "phases_ok w"
  shows "phases_ok w'"
proof (cases "quiet w")
  case True
  have counts: "counts_ok w" using inv(1) by (simp add: life_inv_def)
  from quiet_caller_step [OF step counts True] caller_flags [OF step] inv(2) show ?thesis
    by (auto simp: phases_ok_def same_flags_def quiet_def drained_def dest: set_mp [OF set_update_subset_insert])
next
  case False
  then have "\<not> past_active (wd_shutdown w)" "\<not> past_settling (wd_shutdown w)"
    "\<not> close_drained (wd_closer w)"
    using inv(2) by (auto simp: phases_ok_def drained_def)
  moreover from this have "wd_shutdown w \<noteq> Shut es" for es by auto
  ultimately show ?thesis using caller_flags [OF step] inv(2)
    by (auto simp: phases_ok_def same_flags_def)
qed

lemma loop_phases:
  assumes step: "loop_step w w'" and inv: "life_inv w" "phases_ok w"
  shows "phases_ok w'"
proof (cases "quiet w")
  case True
  from quiet_loop_step [OF step inv(1) True] loop_flags [OF step] inv(2) show ?thesis
    by (auto simp: phases_ok_def same_flags_def drained_def)
next
  case False
  then have "\<not> past_active (wd_shutdown w)" "\<not> past_settling (wd_shutdown w)"
    "\<not> close_drained (wd_closer w)"
    using inv(2) by (auto simp: phases_ok_def drained_def)
  moreover from this have "wd_shutdown w \<noteq> Shut es" for es by auto
  ultimately show ?thesis using loop_flags [OF step] inv(2)
    by (auto simp: phases_ok_def same_flags_def)
qed

lemma shutdown_phases:
  assumes step: "shutdown_step w w'" and inv: "life_inv w" "phases_ok w"
  shows "phases_ok w'"
proof -
  have subs: "quiet w \<Longrightarrow> lf_submissions (wd_life w) = 0"
    using inv(1) by (intro quiet_submissions(1)) (simp_all add: life_inv_def)
  from step show ?thesis
  proof cases
    case (shut_unsettled e l)
    then show ?thesis using inv(2) subs
      by (auto simp: phases_ok_def aclose_collect_def drained_def split: if_splits)
  qed (use inv(2) in \<open>auto simp: phases_ok_def quiet_def drained_def aclose_collect_def
      shut_executor_def mark_closed_def split: if_splits\<close>)
qed

lemma closer_phases:
  assumes step: "closer_step w w'" and inv: "phases_ok w"
  shows "phases_ok w'"
  using step
proof cases
  case (close_call l on_loop)
  from close_call(3) have "\<not> lf_closed (wd_life w)" "l = (wd_life w)\<lparr>lf_closing := True\<rparr>"
    by (auto simp: close_begin_def split: if_splits)
  then show ?thesis using inv close_call(1)
    by (simp add: phases_ok_def quiet_def drained_def)
next
  case (close_executor on_loop)
  have "Queued \<notin> set (map drop_queued (wd_callers w))"
    by (auto simp: drop_queued_def split: caller_pc.splits)
  then show ?thesis using close_executor inv
    by (simp add: phases_ok_def quiet_def drained_def shut_executor_def)
next
  case (close_checked on_loop errors l)
  then show ?thesis using inv
    by (simp add: phases_ok_def quiet_def drained_def close_check_def split: if_splits) auto
next
  case (close_refused on_loop e l)
  then show ?thesis using inv
    by (simp add: phases_ok_def quiet_def drained_def close_check_def split: if_splits) auto
next
  case (close_marked errors)
  then show ?thesis using inv by (simp add: phases_ok_def quiet_def drained_def mark_closed_def)
qed

lemma aclose_begin_flags:
  "aclose_begin caller loop l = Inr (l', True) \<Longrightarrow>
     lf_closing l' \<and> lf_closed l' = lf_closed l \<and> \<not> lf_accepting l'
   \<and> lf_executor_open l' = lf_executor_open l \<and> lf_active l' = lf_active l \<and> lf_futures l' = lf_futures l"
  by (auto simp: aclose_begin_def bind_event_loop_def split: option.splits if_splits prod.splits)

lemma outside_phases:
  assumes step: "outside_step w w'" and inv: "phases_ok w"
  shows "phases_ok w'"
  using step
  by cases (use inv in \<open>auto simp: phases_ok_def quiet_def drained_def mark_closed_def
      dest!: aclose_begin_flags elim: shutdown_running.elims\<close>)

lemma callbacks_begin_flags:
  "callbacks_begin caller loop l = (r, l') \<Longrightarrow>
     lf_closing l' = lf_closing l \<and> lf_closed l' = lf_closed l \<and> lf_accepting l' = lf_accepting l
   \<and> lf_executor_open l' = lf_executor_open l \<and> lf_active l' = lf_active l \<and> lf_futures l' = lf_futures l"
  by (auto simp: callbacks_begin_def dest: bind_event_loop_flags split: option.splits prod.splits)

lemma waiter_phases:
  assumes step: "waiter_step j w w'" and inv: "phases_ok w"
  shows "phases_ok w'"
  using step
proof cases
  case (wait_call loop caller l)
  from callbacks_begin_flags [OF wait_call(6)] wait_call(1) inv show ?thesis
    by (simp add: phases_ok_def quiet_def drained_def)
next
  case (wait_collected errors l)
  have "l = (wd_life w)\<lparr>lf_errors := []\<rparr>" using wait_collected(5) by (simp add: wait_collect_def)
  then show ?thesis using inv wait_collected(1) by (simp add: phases_ok_def quiet_def drained_def)
qed (use inv in \<open>simp_all add: phases_ok_def quiet_def drained_def\<close>)

lemma step_phases:
  assumes "life_step w w'" "life_inv w" "phases_ok w"
  shows "phases_ok w'"
  using assms
  by (cases rule: life_step_cases [OF assms(1)])
    (auto simp: other_step_def intro: caller_phases loop_phases shutdown_phases closer_phases
      outside_phases waiter_phases)

lemma phases_fresh: "fresh_world w \<Longrightarrow> phases_ok w"
  by (auto simp: fresh_world_def life_init_def world_init_def phases_ok_def split: if_splits)

lemma phases_reachable: "life_reachable w0 w \<Longrightarrow> fresh_world w0 \<Longrightarrow> phases_ok w"
proof (induction rule: life_reachable.induct)
  case (life_next w w')
  then show ?case using step_phases life_inv_reachable by blast
qed (rule phases_fresh)

text \<open>
  C15. At no moment are there more callback tasks that are not settled than the configured bound,
  and at most one thread is inside an emission.
\<close>

theorem pending_callbacks_bounded:
  assumes "fresh_world w0" "life_reachable w0 w"
  shows "card {t. t < length (wd_tasks w) \<and> \<not> settled (wd_tasks w ! t)} \<le> lf_max_pending (wd_life w)
    \<and> (\<forall>i<length (wd_callers w). in_emission (wd_callers w ! i) \<longrightarrow> wd_lock w = Some i)"
proof -
  from life_inv_reachable [OF assms(2,1)] have inv: "bound_ok w" "lock_ok w" by (simp_all add: life_inv_def)
  then show ?thesis
    by (auto simp: bound_ok_def open_tasks_def intro: lock_okD emission_locked)
qed

lemma quiet_in_hand:
  assumes "counts_ok w" "lock_ok w" "quiet w" "\<And>pc. f pc \<noteq> None \<Longrightarrow> in_process pc"
  shows "in_hand f w = None"
proof (cases "wd_lock w")
  case (Some k)
  then have "k < length (wd_callers w)" using assms(2) by (simp add: lock_ok_def)
  from quiet_callers [OF assms(1,3) this] assms(4) [of "wd_callers w ! k"] Some show ?thesis
    by (cases "f (wd_callers w ! k)") (auto simp: in_hand_def)
qed (simp add: in_hand_def)

lemma in_hand_process: "unwatched pc \<noteq> None \<Longrightarrow> in_process pc" "unadded pc \<noteq> None \<Longrightarrow> in_process pc"
  by (cases pc; simp)+

lemma quiet_tasks:
  assumes "life_inv w" "quiet w" "t < length (wd_tasks w)"
  shows "ct_watched (wd_tasks w ! t)" "settled (wd_tasks w ! t) \<or> t \<in> lf_futures (wd_life w)"
proof -
  from assms(1) have inv: "counts_ok w" "lock_ok w" "tasks_ok w" by (simp_all add: life_inv_def)
  have none: "in_hand unwatched w = None" "in_hand unadded w = None"
    by (rule quiet_in_hand [OF inv(1,2) assms(2) in_hand_process(1)], assumption)
      (rule quiet_in_hand [OF inv(1,2) assms(2) in_hand_process(2)], assumption)
  show "ct_watched (wd_tasks w ! t)"
    using inv(3) none(1) assms(3) by (auto simp: tasks_ok_def watching_ok_def)
  show "settled (wd_tasks w ! t) \<or> t \<in> lf_futures (wd_life w)"
    using inv(3) none(2) assms(3) by (auto simp: tasks_ok_def unsettled_ok_def)
qed

text \<open>
  C13. Once \<open>aclose\<close> has run its course, or \<open>close\<close> has succeeded, no thread is processing a frame,
  no emission is under way, every callback task ever created has ended and been accounted for, and
  a new frame is refused. The check inside \<open>aclose\<close> that all submissions settled never fails.
\<close>

theorem shutdown_settles_everything:
  assumes "fresh_world w0" "life_reachable w0 w"
  shows "wd_shutdown w \<noteq> Unsettled
    \<and> ((\<exists>es. wd_shutdown w = Shut es) \<or> (\<exists>es. wd_closer w = Close_Done es) \<longrightarrow>
      (\<forall>t<length (wd_tasks w). settled (wd_tasks w ! t)) \<and> lf_futures (wd_life w) = {}
      \<and> (\<forall>i<length (wd_callers w). wd_callers w ! i \<in> {Idle, Submitting, Queued})
      \<and> lf_active (wd_life w) = 0 \<and> lf_submissions (wd_life w) = 0 \<and> lf_reservations (wd_life w) = 0
      \<and> \<not> lf_accepting (wd_life w) \<and> enter_process (wd_life w) = Inl closed_error)"
proof (intro conjI impI)
  note inv = life_inv_reachable [OF assms(2,1)] phases_reachable [OF assms(2,1)]
  show "wd_shutdown w \<noteq> Unsettled" using inv(2) by (simp add: phases_ok_def)
  assume over: "(\<exists>es. wd_shutdown w = Shut es) \<or> (\<exists>es. wd_closer w = Close_Done es)"
  then have "past_settling (wd_shutdown w) \<or> close_drained (wd_closer w)" by auto
  with inv(2) have dr: "drained w" by (simp add: phases_ok_def)
  then have q: "quiet w" by (simp add: drained_def)
  have counts: "counts_ok w" using inv(1) by (simp add: life_inv_def)
  show "\<forall>i<length (wd_callers w). wd_callers w ! i \<in> {Idle, Submitting, Queued}"
  proof (intro allI impI)
    fix i
    assume "i < length (wd_callers w)"
    from quiet_callers [OF counts q this] show "wd_callers w ! i \<in> {Idle, Submitting, Queued}"
      by (cases "wd_callers w ! i") auto
  qed
  show "\<forall>t<length (wd_tasks w). settled (wd_tasks w ! t)" "lf_futures (wd_life w) = {}"
    using dr quiet_tasks(2) [OF inv(1) q] by (auto simp: drained_def)
  show "lf_active (wd_life w) = 0" "enter_process (wd_life w) = Inl closed_error"
    using q by (simp_all add: quiet_def enter_process_def)
  show "lf_submissions (wd_life w) = 0" "lf_reservations (wd_life w) = 0"
    using quiet_submissions [OF counts q] by simp_all
  show "\<not> lf_accepting (wd_life w)" using over inv(2) by (auto simp: phases_ok_def)
qed

subsection \<open>The shutdown ends\<close>

text \<open>How many critical sections a call still has before it, and a task, and the shutdown.\<close>

fun caller_rank :: "'e caller_pc \<Rightarrow> nat" where
  "caller_rank Idle = 0"
| "caller_rank Submitting = 2"
| "caller_rank Queued = 1"
| "caller_rank Entered = 0"
| "caller_rank (Emitting evs) = length evs + 2"
| "caller_rank (Calling evs) = length evs + 13"
| "caller_rank (Awaitable evs) = length evs + 12"
| "caller_rank (Reserved evs) = length evs + 11"
| "caller_rank (Posted evs) = length evs + 10"
| "caller_rank (Created _ evs) = length evs + 6"
| "caller_rank (Unreserved _ evs) = length evs + 5"
| "caller_rank (Added _ evs) = length evs + 4"
| "caller_rank (Finishing _ evs) = length evs + 3"
| "caller_rank Unlocked = 1"

fun entering :: "'e caller_pc \<Rightarrow> bool" where
  "entering Entered = True"
| "entering _ = False"

fun phase_rank :: "task_phase \<Rightarrow> nat" where
  "phase_rank Scheduled = 3"
| "phase_rank Executing = 2"
| "phase_rank (Over _) = 1"
| "phase_rank (Settled _) = 0"

fun aclose_rank :: "bool \<Rightarrow> aclose_pc \<Rightarrow> nat" where
  "aclose_rank _ (Wait_Active _) = 8"
| "aclose_rank _ (Wait_Submissions _) = 7"
| "aclose_rank pending Settling = (if pending then 6 else 4)"
| "aclose_rank _ (Gathering _) = 5"
| "aclose_rank _ Collecting = 3"
| "aclose_rank _ (Stopping_Executor _) = 2"
| "aclose_rank _ (Joining_Executor _) = 1"
| "aclose_rank _ Unsettled = 1"
| "aclose_rank _ _ = 0"

definition life_rank :: "'e world \<Rightarrow> nat \<times> nat" where
  "life_rank w =
     (how_many entering (wd_callers w),
      sum_list (map caller_rank (wd_callers w)) + sum_list (map (phase_rank \<circ> ct_phase) (wd_tasks w))
      + aclose_rank (lf_futures (wd_life w) \<noteq> {}) (wd_shutdown w))"

definition pipeline_step :: "'e world \<Rightarrow> 'e world \<Rightarrow> bool" where
  "pipeline_step w w' \<longleftrightarrow> (\<exists>i. caller_step i w w') \<or> loop_step w w' \<or> shutdown_step w w'"

definition lower :: "((nat \<times> nat) \<times> nat \<times> nat) set" where
  "lower = less_than <*lex*> less_than"

lemma lower_iff: "((a, b), c, d) \<in> lower \<longleftrightarrow> a < c \<or> a = c \<and> b < d"
  by (auto simp: lower_def)

lemma wf_lower: "wf lower"
  by (simp add: lower_def wf_lex_prod)

lemma sum_list_move:
  fixes f :: "'a \<Rightarrow> nat"
  assumes "i < length xs"
  shows "sum_list (map f (xs[i := y])) + f (xs ! i) = sum_list (map f xs) + f y"
  using assms
proof (induction xs arbitrary: i)
  case (Cons x xs)
  then show ?case by (cases i) auto
qed simp

text \<open>During the shutdown nothing new comes in, and no event is admitted.\<close>

definition shutting :: "'e world \<Rightarrow> bool" where
  "shutting w \<longleftrightarrow> lf_closing (wd_life w) \<and> \<not> lf_accepting (wd_life w)"

lemma shutting_refuses:
  assumes "shutting w"
  shows "enter_process (wd_life w) = Inl closed_error" "emit_admit (wd_life w) \<noteq> Inr l"
    "submit_begin loop (wd_life w) = (r, l) \<Longrightarrow> r \<noteq> None"
  using assms by (auto simp: shutting_def enter_process_def emit_admit_def submit_begin_def ensure_open_def)

lemma caller_rank_move:
  assumes i: "i < length (wd_callers w)"
    and w': "wd_callers w' = (wd_callers w)[i := pc]" "wd_shutdown w' = wd_shutdown w"
    and tasks: "sum_list (map (phase_rank \<circ> ct_phase) (wd_tasks w')) = sum_list (map (phase_rank \<circ> ct_phase) (wd_tasks w)) + new"
    and settling: "lf_futures (wd_life w') = lf_futures (wd_life w) \<or> wd_shutdown w \<noteq> Settling"
    and pc: "\<not> entering pc" "entering (wd_callers w ! i) \<or> caller_rank pc + new < caller_rank (wd_callers w ! i)"
  shows "(life_rank w', life_rank w) \<in> lower"
proof -
  have sd: "aclose_rank (lf_futures (wd_life w') \<noteq> {}) (wd_shutdown w')
      = aclose_rank (lf_futures (wd_life w) \<noteq> {}) (wd_shutdown w)"
    using settling w'(2) by (cases "wd_shutdown w") auto
  show ?thesis
  proof (cases "entering (wd_callers w ! i)")
    case True
    then show ?thesis using i pc(1) how_many_pos [of i "wd_callers w" entering]
      by (simp add: life_rank_def lower_iff w'(1) how_many_move)
  next
    case False
    then have "caller_rank pc + new < caller_rank (wd_callers w ! i)" using pc(2) by simp
    then show ?thesis using False pc(1) i sum_list_move [OF i, of caller_rank pc] sd tasks
      by (simp add: life_rank_def lower_iff w'(1) how_many_move)
  qed
qed

lemma caller_rank_plain:
  assumes "i < length (wd_callers w)" "\<not> entering pc"
    and "entering (wd_callers w ! i) \<or> caller_rank pc < caller_rank (wd_callers w ! i)"
    and "lf_futures l = lf_futures (wd_life w)"
  shows "(life_rank (move_caller i pc (set_life l w)), life_rank w) \<in> lower"
  by (rule caller_rank_move [OF assms(1), where new = 0 and pc = pc])
    (use assms(2-4) in \<open>simp_all add: move_caller_def set_life_def\<close>)

lemma caller_rank_same:
  assumes "i < length (wd_callers w)" "\<not> entering pc"
    and "entering (wd_callers w ! i) \<or> caller_rank pc < caller_rank (wd_callers w ! i)"
  shows "(life_rank (move_caller i pc w), life_rank w) \<in> lower"
    "(life_rank (move_caller i pc (w\<lparr>wd_lock := lock\<rparr>)), life_rank w) \<in> lower"
proof -
  show low: "(life_rank (move_caller i pc w), life_rank w) \<in> lower"
    using caller_rank_plain [OF assms, of "wd_life w"] by (simp add: set_life_def)
  have "life_rank (move_caller i pc (w\<lparr>wd_lock := lock\<rparr>)) = life_rank (move_caller i pc w)"
    by (simp add: life_rank_def move_caller_def)
  with low show "(life_rank (move_caller i pc (w\<lparr>wd_lock := lock\<rparr>)), life_rank w) \<in> lower" by simp
qed

lemma watch_rank:
  "map (phase_rank \<circ> ct_phase) (wd_tasks (watch_task t w)) = map (phase_rank \<circ> ct_phase) (wd_tasks w)"
  by (intro nth_equalityI; cases "t < length (wd_tasks w)")
    (auto simp: watch_task_def nth_list_update list_update_beyond)

lemma create_rank:
  "sum_list (map (phase_rank \<circ> ct_phase) (wd_tasks (create_task i evs w)))
     = sum_list (map (phase_rank \<circ> ct_phase) (wd_tasks w)) + 3"
  by (simp add: create_task_def new_task_def)

lemma caller_lowers:
  assumes step: "caller_step i w w'" and inv: "life_inv w" "phases_ok w" "shutdown_running (wd_shutdown w)"
  shows "(life_rank w', life_rank w) \<in> lower"
proof -
  have shut: "shutting w" using inv(2,3) by (cases "wd_shutdown w") (auto simp: phases_ok_def shutting_def)
  have counts: "counts_ok w" using inv(1) by (simp add: life_inv_def)
  have busy: "wd_shutdown w \<noteq> Settling" if "i < length (wd_callers w)" "in_process (wd_callers w ! i)"
  proof
    assume "wd_shutdown w = Settling"
    then have "quiet w" using inv(2) by (simp add: phases_ok_def)
    from quiet_callers [OF counts this that(1)] that(2) show False by simp
  qed
  from step show ?thesis
  proof cases
    case (call_submit loop l)
    then show ?thesis using shutting_refuses(3) [OF shut] by blast
  next
    case (call_enter l)
    then show ?thesis using shutting_refuses(1) [OF shut] by simp
  next
    case (call_admit e evs l)
    then show ?thesis using shutting_refuses(2) [OF shut] by simp
  next
    case (call_create evs)
    show ?thesis unfolding call_create(1)
      by (rule caller_rank_move [OF call_create(2) _ _ create_rank, where pc = "Created (length (wd_tasks w)) evs"])
        (use call_create(3) in \<open>simp_all add: create_task_def move_caller_def\<close>)
  next
    case (call_watch t evs)
    have frame: "wd_callers (watch_task t w) = wd_callers w" "wd_shutdown (watch_task t w) = wd_shutdown w"
      "wd_life (watch_task t w) = wd_life w" by (simp_all add: watch_task_def)
    show ?thesis unfolding call_watch(1)
      by (rule caller_rank_move [OF call_watch(2), where new = 0 and pc = "Finishing False evs"])
        (use call_watch(3) in \<open>simp_all add: watch_rank frame\<close>, simp_all add: move_caller_def frame)
  next
    case (call_add t evs)
    show ?thesis unfolding call_add(1)
      by (rule caller_rank_move [OF call_add(2), where new = 0 and pc = "Added t evs"])
        (use call_add(2,3) busy in \<open>simp_all add: move_caller_def set_life_def\<close>)
  qed (auto intro!: caller_rank_plain caller_rank_same simp: emit_unreserve_def emit_leave_def
      leave_process_def dest!: emit_reserve_Inr)
qed

definition gather_ok :: "'e world \<Rightarrow> bool" where
  "gather_ok w \<longleftrightarrow>
     (\<forall>pending. wd_shutdown w = Gathering pending \<longrightarrow>
        lf_futures (wd_life w) \<subseteq> pending \<and> (\<forall>t\<in>pending. t < length (wd_tasks w)))"

lemma loop_tasks_length: "loop_step w w' \<Longrightarrow> length (wd_tasks w) \<le> length (wd_tasks w')"
  by (erule loop_step.cases) (auto simp: caller_points)

lemma gather_quiet:
  "wd_shutdown w = Gathering pending \<Longrightarrow> phases_ok w \<Longrightarrow> quiet w"
  by (simp add: phases_ok_def)

lemma gather_step:
  assumes step: "life_step w w'" and inv: "life_inv w" "phases_ok w" "gather_ok w"
  shows "gather_ok w'"
  using step
proof (cases rule: life_step_cases)
  case (Caller i)
  have counts: "counts_ok w" using inv(1) by (simp add: life_inv_def)
  show ?thesis
    using inv(3) caller_flags [OF Caller] gather_quiet [OF _ inv(2)] quiet_caller_step [OF Caller counts]
    by (simp add: gather_ok_def same_flags_def)
next
  case Loop
  have "lf_futures (wd_life w') \<subseteq> pending \<and> (\<forall>t\<in>pending. t < length (wd_tasks w'))"
    if "wd_shutdown w' = Gathering pending" for pending
  proof -
    have g: "wd_shutdown w = Gathering pending" using that loop_flags [OF Loop] by (simp add: same_flags_def)
    from quiet_loop_step [OF Loop inv(1) gather_quiet [OF g inv(2)]] g inv(3) loop_tasks_length [OF Loop]
    show ?thesis by (auto simp: gather_ok_def dest: order_less_le_trans)
  qed
  then show ?thesis by (simp add: gather_ok_def)
next
  case Other
  note frame = other_frame [OF Other]
  have same: "lf_futures (wd_life w') = lf_futures (wd_life w)" "length (wd_tasks w') = length (wd_tasks w)"
    using frame(1,4) by (auto simp: same_counters_def)
  have reg: "\<forall>t\<in>lf_futures (wd_life w). t < length (wd_tasks w)"
    using inv(1) by (simp add: life_inv_def tasks_ok_def registered_ok_def)
  have "wd_shutdown w' = wd_shutdown w \<or> wd_shutdown w' = Gathering (lf_futures (wd_life w))
      \<or> (\<forall>p. wd_shutdown w' \<noteq> Gathering p)"
  proof -
    from Other consider (S) "shutdown_step w w'" | (C) "closer_step w w'" | (U) "outside_step w w'"
      | (W) j where "waiter_step j w w'" by (auto simp: other_step_def)
    then show ?thesis
    proof cases
      case S then show ?thesis by cases simp_all
    next
      case C then show ?thesis by cases simp_all
    next
      case U then show ?thesis by cases simp_all
    next
      case W then show ?thesis by cases simp_all
    qed
  qed
  then show ?thesis using inv(3) same reg by (auto simp: gather_ok_def)
qed

lemma gather_reachable: "life_reachable w0 w \<Longrightarrow> fresh_world w0 \<Longrightarrow> gather_ok w"
proof (induction rule: life_reachable.induct)
  case life_start
  then show ?case by (auto simp: fresh_world_def world_init_def gather_ok_def)
next
  case (life_next w w')
  then show ?case using gather_step life_inv_reachable phases_reachable by blast
qed

lemma phase_rank_move:
  assumes "t < length (wd_tasks w)"
  shows "sum_list (map (phase_rank \<circ> ct_phase) (wd_tasks (set_phase t ph w))) + phase_rank (ct_phase (wd_tasks w ! t))
    = sum_list (map (phase_rank \<circ> ct_phase) (wd_tasks w)) + phase_rank ph"
  using sum_list_move [OF assms, of "phase_rank \<circ> ct_phase" "(wd_tasks w ! t)\<lparr>ct_phase := ph\<rparr>"]
  by (simp add: set_phase_def)

lemma loop_aclose_rank:
  assumes step: "loop_step w w'" and inv: "life_inv w" "phases_ok w"
  shows "aclose_rank (lf_futures (wd_life w') \<noteq> {}) (wd_shutdown w')
    \<le> aclose_rank (lf_futures (wd_life w) \<noteq> {}) (wd_shutdown w)"
proof -
  have same: "wd_shutdown w' = wd_shutdown w" using loop_flags [OF step] by (simp add: same_flags_def)
  show ?thesis
  proof (cases "wd_shutdown w = Settling")
    case True
    then have "quiet w" using inv(2) by (simp add: phases_ok_def)
    from quiet_loop_step [OF step inv(1) this] show ?thesis using same True by simp
  next
    case False
    then show ?thesis using same by (cases "wd_shutdown w") simp_all
  qed
qed

lemma phase_lowers:
  assumes "w' = set_phase t ph (set_life l w)" "t < length (wd_tasks w)"
    and "phase_rank ph < phase_rank (ct_phase (wd_tasks w ! t))"
    and "aclose_rank (lf_futures (wd_life w') \<noteq> {}) (wd_shutdown w')
      \<le> aclose_rank (lf_futures (wd_life w) \<noteq> {}) (wd_shutdown w)"
  shows "(life_rank w', life_rank w) \<in> lower"
proof -
  have "map (phase_rank \<circ> ct_phase) (wd_tasks w') = map (phase_rank \<circ> ct_phase) (wd_tasks (set_phase t ph w))"
    by (simp add: assms(1) set_phase_def)
  then show ?thesis using assms(3,4) phase_rank_move [OF assms(2), of ph]
    by (simp add: life_rank_def lower_iff assms(1))
qed

lemma set_life_same [simp]: "set_life (wd_life w) w = w"
  by (simp add: set_life_def)

lemma loop_lowers:
  assumes step: "loop_step w w'" and inv: "life_inv w" "phases_ok w"
  shows "(life_rank w', life_rank w) \<in> lower"
  using step
proof cases
  case (loop_create i evs)
  have "wd_shutdown w \<noteq> Settling"
  proof
    assume "wd_shutdown w = Settling"
    then have "quiet w" using inv(2) by (simp add: phases_ok_def)
    from quiet_callers [OF _ this loop_create(3)] inv(1) loop_create(4) show False
      by (simp add: life_inv_def)
  qed
  then show ?thesis unfolding loop_create(1)
    by (intro caller_rank_move [OF loop_create(3) _ _ create_rank, where pc = "Created (length (wd_tasks w)) evs"])
      (use loop_create(4) in \<open>simp_all add: create_task_def move_caller_def\<close>)
next
  case (loop_not_created i evs)
  then show ?thesis by (auto intro!: caller_rank_plain simp: emit_unreserve_def)
next
  case (loop_start t)
  then show ?thesis using loop_aclose_rank [OF step inv]
    by (intro phase_lowers [OF loop_start(1)]) simp_all
next
  case (loop_cancelled t)
  then show ?thesis using loop_aclose_rank [OF step inv]
    by (intro phase_lowers [of w' t "Over Ended_Cancelled" "wd_life w" w]) simp_all
next
  case (loop_end t out)
  then show ?thesis using loop_aclose_rank [OF step inv]
    by (intro phase_lowers [of w' t "Over out" "wd_life w" w]) simp_all
next
  case (loop_finished t out)
  then show ?thesis using loop_aclose_rank [OF step inv]
    by (intro phase_lowers [OF loop_finished(1)]) simp_all
qed

lemma gathered_empty:
  assumes inv: "life_inv w" "phases_ok w" "gather_ok w"
    and g: "wd_shutdown w = Gathering pending" "gathered pending (wd_tasks w)"
  shows "lf_futures (wd_life w) = {}"
proof -
  have q: "quiet w" by (rule gather_quiet [OF g(1) inv(2)])
  have "settled (wd_tasks w ! t)" if "t \<in> lf_futures (wd_life w)" for t
  proof -
    have t: "t \<in> pending" "t < length (wd_tasks w)" using that inv(3) g(1) by (auto simp: gather_ok_def)
    then show ?thesis using g(2) quiet_tasks(1) [OF inv(1) q t(2)] by (simp add: gathered_def)
  qed
  then show ?thesis using inv(1) by (auto simp: life_inv_def tasks_ok_def registered_ok_def)
qed

lemma cancel_tasks_rank:
  "map (phase_rank \<circ> ct_phase) (cancel_tasks pending ts) = map (phase_rank \<circ> ct_phase) ts"
  by (intro nth_equalityI) simp_all

lemma shutdown_lowers:
  assumes step: "shutdown_step w w'" and inv: "life_inv w" "phases_ok w" "gather_ok w"
  shows "(life_rank w', life_rank w) \<in> lower"
  using step
proof cases
  case (shut_gathered pending)
  then show ?thesis using gathered_empty [OF inv] by (simp add: life_rank_def lower_iff)
qed (simp_all add: life_rank_def lower_iff cancel_tasks_rank aclose_collect_def shut_executor_def
    mark_closed_def split: if_splits)

lemma own_lowers:
  assumes "pipeline_step w w'" "life_inv w" "phases_ok w" "gather_ok w" "shutdown_running (wd_shutdown w)"
  shows "(life_rank w', life_rank w) \<in> lower"
  using assms caller_lowers loop_lowers shutdown_lowers unfolding pipeline_step_def by blast

text \<open>While the loop is free, a thread that holds the lock can move, and so can an unsettled task.\<close>

lemma locked_moves:
  assumes "i < length (wd_callers w)" "locked (wd_callers w ! i)" "loop_free w"
  shows "\<exists>w'. pipeline_step w w'"
proof (cases "wd_callers w ! i")
  case (Emitting evs)
  show ?thesis
  proof (cases evs)
    case Nil
    then show ?thesis using Emitting assms(1) by (auto simp: pipeline_step_def intro: call_unlock)
  next
    case (Cons e es)
    then show ?thesis using Emitting assms(1)
      by (cases "emit_admit (wd_life w)"; cases "lf_callback (wd_life w)")
        (auto simp: pipeline_step_def intro: call_no_callback call_admit call_not_admitted)
  qed
next
  case (Awaitable evs)
  then show ?thesis using assms(1)
    by (cases "emit_reserve (wd_running w) (wd_life w)")
      (auto simp: pipeline_step_def intro: call_reserve call_refused)
next
  case (Posted evs)
  then show ?thesis using assms(1,3) by (auto simp: pipeline_step_def intro: loop_create)
qed (use assms(1,2) in \<open>auto simp: pipeline_step_def intro: call_plain call_create call_unreserve call_add
    call_watch call_finish\<close>)

lemma unsettled_moves:
  assumes "t < length (wd_tasks w)" "\<not> settled (wd_tasks w ! t)" "ct_watched (wd_tasks w ! t)" "loop_free w"
  shows "\<exists>w'. pipeline_step w w'"
proof (cases "ct_phase (wd_tasks w ! t)")
  case Scheduled
  then show ?thesis using assms
    by (cases "ct_cancel (wd_tasks w ! t)") (auto simp: pipeline_step_def intro: loop_start loop_cancelled)
next
  case Executing
  then have "loop_step w (set_phase t (Over Ended_Ok) w)" using assms by (intro loop_end)
  then show ?thesis by (auto simp: pipeline_step_def)
next
  case (Over out)
  from loop_finished [OF assms(4,1) Over assms(3)] show ?thesis by (auto simp: pipeline_step_def)
qed (use assms(2) in \<open>simp add: settled_def\<close>)

lemma processing_moves:
  assumes inv: "life_inv w" and act: "lf_active (wd_life w) \<noteq> 0" and free: "loop_free w"
  shows "\<exists>w'. pipeline_step w w'"
proof -
  from inv have counts: "counts_ok w" and lock: "lock_ok w" by (simp_all add: life_inv_def)
  from counts act obtain i where i: "i < length (wd_callers w)" "in_process (wd_callers w ! i)"
    using how_many_zero [of in_process "wd_callers w"] by (auto simp: counts_ok_def)
  show ?thesis
  proof (cases "wd_lock w")
    case (Some k)
    then have "k < length (wd_callers w)" "locked (wd_callers w ! k)" using lock by (auto simp: lock_ok_def)
    then show ?thesis using locked_moves free by blast
  next
    case None
    then have "\<not> locked (wd_callers w ! i)" using lock i(1) by (simp add: lock_ok_def)
    with i(2) have "wd_callers w ! i = Entered \<or> wd_callers w ! i = Unlocked"
      by (cases "wd_callers w ! i") auto
    then show ?thesis
    proof
      assume "wd_callers w ! i = Entered"
      from call_lock [OF i(1) this None] show ?thesis by (auto simp: pipeline_step_def)
    next
      assume "wd_callers w ! i = Unlocked"
      from call_leave [OF i(1) this] show ?thesis by (auto simp: pipeline_step_def)
    qed
  qed
qed

lemma shutdown_moves:
  assumes inv: "life_inv w" "phases_ok w" "gather_ok w"
    and sd: "shutdown_running (wd_shutdown w)" and free: "loop_free w"
  shows "\<exists>w'. pipeline_step w w'"
proof (cases "wd_shutdown w")
  case (Wait_Active c)
  then show ?thesis using processing_moves [OF inv(1) _ free] free
    by (cases "lf_active (wd_life w) = 0") (auto simp: pipeline_step_def intro: shut_active)
next
  case (Wait_Submissions c)
  then have "quiet w" using inv(2) by (simp add: phases_ok_def)
  from quiet_submissions(1) [OF _ this] inv(1) have "lf_submissions (wd_life w) = 0"
    by (simp add: life_inv_def)
  from shut_submissions [OF free Wait_Submissions this] show ?thesis by (auto simp: pipeline_step_def)
next
  case Settling
  then show ?thesis using free
    by (cases "lf_futures (wd_life w) = {}") (auto simp: pipeline_step_def intro: shut_gather shut_settled)
next
  case (Gathering pending)
  have q: "quiet w" by (rule gather_quiet [OF Gathering inv(2)])
  show ?thesis
  proof (cases "gathered pending (wd_tasks w)")
    case True
    from shut_gathered [OF free Gathering True] show ?thesis by (auto simp: pipeline_step_def)
  next
    case False
    have "finished x" if "settled x" for x
      using that by (cases "ct_phase x") (simp_all add: settled_def finished_def)
    with False obtain t where "t \<in> pending" "\<not> settled (wd_tasks w ! t)"
      by (auto simp: gathered_def)
    moreover from this(1) have "t < length (wd_tasks w)" using inv(3) Gathering by (simp add: gather_ok_def)
    ultimately show ?thesis using unsettled_moves quiet_tasks(1) [OF inv(1) q] free by blast
  qed
next
  case Collecting
  obtain r l where "aclose_collect (wd_life w) = (r, l)" by fastforce
  then show ?thesis using Collecting free
    by (cases r) (auto simp: pipeline_step_def intro: shut_collect shut_unsettled)
next
  case (Stopping_Executor errors)
  from shut_executor_shut [OF free this] show ?thesis by (auto simp: pipeline_step_def)
next
  case (Joining_Executor errors)
  show ?thesis
  proof (cases "Queued \<in> set (wd_callers w)")
    case True
    then obtain i where i: "i < length (wd_callers w)" "wd_callers w ! i = Queued"
      by (auto simp: in_set_conv_nth)
    have "enter_process (wd_life w) = Inl closed_error"
      using inv(2) Joining_Executor by (simp add: phases_ok_def enter_process_def)
    from call_rejected [OF i this] show ?thesis by (auto simp: pipeline_step_def)
  next
    case False
    from shut_joined [OF free Joining_Executor False] show ?thesis by (auto simp: pipeline_step_def)
  qed
next
  case Unsettled
  from shut_raised [OF free this] show ?thesis by (auto simp: pipeline_step_def)
qed (use sd in simp_all)

text \<open>
  C14. \<open>aclose\<close> terminates: while its shutdown task runs, every step of a thread that still processes
  a frame, of the event loop and of the shutdown itself lowers a well-founded rank, and while the
  loop runs and is not blocked one of them can be taken.
\<close>

theorem aclose_terminates:
  assumes "fresh_world w0" "life_reachable w0 w" "shutdown_running (wd_shutdown w)"
  shows "wf lower
    \<and> (\<forall>w'. pipeline_step w w' \<longrightarrow> (life_rank w', life_rank w) \<in> lower)
    \<and> (loop_free w \<longrightarrow> (\<exists>w'. pipeline_step w w'))"
  using wf_lower own_lowers [OF _ life_inv_reachable [OF assms(2,1)] phases_reachable [OF assms(2,1)]
      gather_reachable [OF assms(2,1)] assms(3)]
    shutdown_moves [OF life_inv_reachable [OF assms(2,1)] phases_reachable [OF assms(2,1)]
      gather_reachable [OF assms(2,1)] assms(3)]
  by blast

subsection \<open>Closing on the loop's thread\<close>

text \<open>
  C39. A synchronous \<open>close\<close> that the event loop's own thread calls while another thread waits for
  the loop to create a callback task never returns: it waits for that thread, which waits for the
  loop.
\<close>

theorem close_on_loop_deadlocks:
  assumes "fresh_world w0" "life_reachable w0 w"
    and "wd_closer w = Close_Wait True" "i < length (wd_callers w)" "wd_callers w ! i = Posted evs"
    and "life_reachable w w'"
  shows "wd_closer w' = Close_Wait True \<and> wd_callers w' ! i = Posted evs"
proof -
  from assms(6) have "wd_closer w' = Close_Wait True \<and> length (wd_callers w') = length (wd_callers w)
    \<and> wd_callers w' ! i = Posted evs \<and> counts_ok w'"
  proof (induction rule: life_reachable.induct)
    case life_start
    then show ?case using assms life_inv_reachable by (auto simp: life_inv_def)
  next
    case (life_next u v)
    then have u: "wd_closer u = Close_Wait True" "i < length (wd_callers u)"
      "wd_callers u ! i = Posted evs" "counts_ok u" "length (wd_callers u) = length (wd_callers w)"
      using assms(4) by simp_all
    have act: "lf_active (wd_life u) \<noteq> 0"
      using u how_many_pos [of i "wd_callers u" in_process] by (simp add: counts_ok_def)
    have blocked: "\<not> loop_free u" using u(1) by (simp add: loop_free_def)
    have "wd_closer v = Close_Wait True \<and> length (wd_callers v) = length (wd_callers u)
        \<and> wd_callers v ! i = Posted evs"
      using life_next(2)
    proof cases
      case (step_caller j)
      then show ?thesis using u by cases (auto simp: caller_points nth_list_update)
    next
      case step_loop
      then show ?thesis using blocked by cases simp_all
    next
      case step_shutdown
      then show ?thesis using blocked by cases simp_all
    next
      case step_closer
      then show ?thesis using u act by cases auto
    next
      case step_outside
      then show ?thesis using u by cases auto
    next
      case (step_waiter j)
      then show ?thesis using u by cases auto
    qed
    then show ?case using u step_counts [OF life_next(2) u(4)] by simp
  qed
  then show ?thesis by simp
qed

subsection \<open>A run with one callback\<close>

definition demo_life :: "nat set \<Rightarrow> nat \<Rightarrow> nat \<Rightarrow> nat \<Rightarrow> bool \<Rightarrow> bool \<Rightarrow> bool \<Rightarrow> bool \<Rightarrow> bool \<Rightarrow> life" where
  "demo_life futures active submissions reservations closing accepting task executor ended =
     \<lparr>lf_max_pending = 1, lf_callback = True, lf_loop = Some 0, lf_active = active, lf_closing = closing,
      lf_closed = ended, lf_close_task = task, lf_last_submit = 0, lf_futures = futures, lf_errors = [],
      lf_accepting = accepting, lf_submissions = submissions, lf_reservations = reservations,
      lf_executor_open = executor\<rparr>"

definition demo_task :: "task_phase \<Rightarrow> bool \<Rightarrow> callback_task" where
  "demo_task phase watched = \<lparr>ct_phase = phase, ct_watched = watched, ct_cancel = False\<rparr>"

definition demo_world :: "unit caller_pc \<Rightarrow> nat option \<Rightarrow> callback_task list \<Rightarrow> aclose_pc \<Rightarrow> closer_pc
    \<Rightarrow> nat set \<Rightarrow> nat \<Rightarrow> nat \<Rightarrow> nat \<Rightarrow> bool \<Rightarrow> bool \<Rightarrow> bool \<Rightarrow> bool \<Rightarrow> bool \<Rightarrow> unit world" where
  "demo_world pc lock tasks sd cl futures active submissions reservations closing accepting task executor ended =
     \<lparr>wd_life = demo_life futures active submissions reservations closing accepting task executor ended,
      wd_callers = [pc], wd_lock = lock, wd_tasks = tasks, wd_shutdown = sd, wd_closer = cl,
      wd_waiters = [], wd_running = {0}\<rparr>"

lemmas demo_defs = demo_world_def demo_life_def demo_task_def move_caller_def set_life_def set_phase_def
  watch_task_def create_task_def new_task_def loop_free_def enter_process_def emit_admit_def
  emit_reserve_def emit_unreserve_def emit_leave_def leave_process_def add_future_def
  callback_finished_def aclose_begin_def own_callback_def bind_event_loop_def aclose_collect_def
  shut_executor_def mark_closed_def close_begin_def drop_queued_def gathered_def settled_def
  finished_def

lemma caller_then: "life_reachable w0 w \<Longrightarrow> caller_step 0 w u \<Longrightarrow> u = w' \<Longrightarrow> life_reachable w0 w'"
  by (auto intro: life_next step_caller)

lemma loop_then: "life_reachable w0 w \<Longrightarrow> loop_step w u \<Longrightarrow> u = w' \<Longrightarrow> life_reachable w0 w'"
  by (auto intro: life_next step_loop)

lemma shutdown_then: "life_reachable w0 w \<Longrightarrow> shutdown_step w u \<Longrightarrow> u = w' \<Longrightarrow> life_reachable w0 w'"
  by (auto intro: life_next step_shutdown)

lemma closer_then: "life_reachable w0 w \<Longrightarrow> closer_step w u \<Longrightarrow> u = w' \<Longrightarrow> life_reachable w0 w'"
  by (auto intro: life_next step_closer)

lemma outside_then: "life_reachable w0 w \<Longrightarrow> outside_step w u \<Longrightarrow> u = w' \<Longrightarrow> life_reachable w0 w'"
  by (auto intro: life_next step_outside)

abbreviation demo_start :: "unit world" where
  "demo_start \<equiv> demo_world (Idle) None [] (No_Shutdown) (No_Closer) {} 0 0 0 False True False True False"

lemma demo_fresh: "fresh_world demo_start"
proof -
  have "life_init 1 True (Some 0) = Inr (demo_life {} 0 0 0 False True False True False)"
    by (simp add: life_init_def demo_life_def)
  moreover have "demo_start = world_init (demo_life {} 0 0 0 False True False True False) 1 0 {0}"
    by (simp add: demo_world_def world_init_def)
  ultimately show ?thesis unfolding fresh_world_def by blast
qed

lemma demo_posted:
  "life_reachable w0 (demo_world (Idle) None [] (No_Shutdown) (No_Closer) {} 0 0 0 False True False True False) \<Longrightarrow>
   life_reachable w0 (demo_world (Posted []) (Some 0) [] (No_Shutdown) (No_Closer) {} 1 1 1 False True False True False)"
proof -
  let ?r = "life_reachable w0"
  assume "?r (demo_world (Idle) None [] (No_Shutdown) (No_Closer) {} 0 0 0 False True False True False)"
  then have "?r (demo_world (Entered) None [] (No_Shutdown) (No_Closer) {} 1 0 0 False True False True False)"
    by (rule caller_then [OF _ call_enter [where l = "(demo_life {} 1 0 0 False True False True False)"]]) (simp_all add: demo_defs)
  then have "?r (demo_world (Emitting [()]) (Some 0) [] (No_Shutdown) (No_Closer) {} 1 0 0 False True False True False)"
    by (rule caller_then [OF _ call_lock [where evs = "[()]"]]) (simp_all add: demo_defs)
  then have "?r (demo_world (Calling []) (Some 0) [] (No_Shutdown) (No_Closer) {} 1 1 0 False True False True False)"
    by (rule caller_then [OF _ call_admit [where l = "(demo_life {} 1 1 0 False True False True False)" and e = "()"]]) (simp_all add: demo_defs)
  then have "?r (demo_world (Awaitable []) (Some 0) [] (No_Shutdown) (No_Closer) {} 1 1 0 False True False True False)"
    by (rule caller_then [OF _ call_awaitable]) (simp_all add: demo_defs)
  then have "?r (demo_world (Reserved []) (Some 0) [] (No_Shutdown) (No_Closer) {} 1 1 1 False True False True False)"
    by (rule caller_then [OF _ call_reserve [where l = "(demo_life {} 1 1 1 False True False True False)"]]) (simp_all add: demo_defs)
  then show "?r (demo_world (Posted []) (Some 0) [] (No_Shutdown) (No_Closer) {} 1 1 1 False True False True False)"
    by (rule caller_then [OF _ call_post]) (simp_all add: demo_defs)
qed

lemma demo_emitted:
  "life_reachable w0 (demo_world (Posted []) (Some 0) [] (No_Shutdown) (No_Closer) {} 1 1 1 False True False True False) \<Longrightarrow>
   life_reachable w0 (demo_world (Unlocked) None [demo_task Scheduled True] (No_Shutdown) (No_Closer) {0} 1 0 0 False True False True False)"
proof -
  let ?r = "life_reachable w0"
  assume "?r (demo_world (Posted []) (Some 0) [] (No_Shutdown) (No_Closer) {} 1 1 1 False True False True False)"
  then have "?r (demo_world (Created 0 []) (Some 0) [demo_task Scheduled False] (No_Shutdown) (No_Closer) {} 1 1 1 False True False True False)"
    by (rule loop_then [OF _ loop_create [where i = 0 and evs = "[]"]]) (simp_all add: demo_defs)
  then have "?r (demo_world (Unreserved 0 []) (Some 0) [demo_task Scheduled False] (No_Shutdown) (No_Closer) {} 1 1 0 False True False True False)"
    by (rule caller_then [OF _ call_unreserve [where evs = "[]" and t = 0]]) (simp_all add: demo_defs)
  then have "?r (demo_world (Added 0 []) (Some 0) [demo_task Scheduled False] (No_Shutdown) (No_Closer) {0} 1 1 0 False True False True False)"
    by (rule caller_then [OF _ call_add [where evs = "[]" and t = 0]]) (simp_all add: demo_defs)
  then have "?r (demo_world (Finishing False []) (Some 0) [demo_task Scheduled True] (No_Shutdown) (No_Closer) {0} 1 1 0 False True False True False)"
    by (rule caller_then [OF _ call_watch [where evs = "[]" and t = 0]]) (simp_all add: demo_defs)
  then have "?r (demo_world (Emitting []) (Some 0) [demo_task Scheduled True] (No_Shutdown) (No_Closer) {0} 1 0 0 False True False True False)"
    by (rule caller_then [OF _ call_finish [where raised = False and evs = "[]"]]) (simp_all add: demo_defs)
  then show "?r (demo_world (Unlocked) None [demo_task Scheduled True] (No_Shutdown) (No_Closer) {0} 1 0 0 False True False True False)"
    by (rule caller_then [OF _ call_unlock]) (simp_all add: demo_defs)
qed

lemma demo_closing:
  "life_reachable w0 (demo_world (Unlocked) None [demo_task Scheduled True] (No_Shutdown) (No_Closer) {0} 1 0 0 False True False True False) \<Longrightarrow>
   life_reachable w0 (demo_world (Unlocked) None [demo_task Scheduled True] (Wait_Active False) (No_Closer) {0} 1 0 0 True False True True False)"
proof -
  let ?r = "life_reachable w0"
  assume "?r (demo_world (Unlocked) None [demo_task Scheduled True] (No_Shutdown) (No_Closer) {0} 1 0 0 False True False True False)"
  then show "?r (demo_world (Unlocked) None [demo_task Scheduled True] (Wait_Active False) (No_Closer) {0} 1 0 0 True False True True False)"
    by (rule outside_then [OF _ aclose_call [where loop = 0 and caller = None and cancel_pending = False and l = "(demo_life {0} 1 0 0 True False True True False)"]]) (simp_all add: demo_defs)
qed

lemma demo_settling:
  "life_reachable w0 (demo_world (Unlocked) None [demo_task Scheduled True] (Wait_Active False) (No_Closer) {0} 1 0 0 True False True True False) \<Longrightarrow>
   life_reachable w0 (demo_world (Idle) None [demo_task (Settled Ended_Ok) True] (Gathering {0}) (No_Closer) {} 0 0 0 True False True True False)"
proof -
  let ?r = "life_reachable w0"
  assume "?r (demo_world (Unlocked) None [demo_task Scheduled True] (Wait_Active False) (No_Closer) {0} 1 0 0 True False True True False)"
  then have "?r (demo_world (Idle) None [demo_task Scheduled True] (Wait_Active False) (No_Closer) {0} 0 0 0 True False True True False)"
    by (rule caller_then [OF _ call_leave]) (simp_all add: demo_defs)
  then have "?r (demo_world (Idle) None [demo_task Scheduled True] (Wait_Submissions False) (No_Closer) {0} 0 0 0 True False True True False)"
    by (rule shutdown_then [OF _ shut_active [where c = False]]) (simp_all add: demo_defs)
  then have "?r (demo_world (Idle) None [demo_task Scheduled True] (Settling) (No_Closer) {0} 0 0 0 True False True True False)"
    by (rule shutdown_then [OF _ shut_submissions [where c = False]]) (simp_all add: demo_defs)
  then have "?r (demo_world (Idle) None [demo_task Scheduled True] (Gathering {0}) (No_Closer) {0} 0 0 0 True False True True False)"
    by (rule shutdown_then [OF _ shut_gather]) (simp_all add: demo_defs)
  then have "?r (demo_world (Idle) None [demo_task Executing True] (Gathering {0}) (No_Closer) {0} 0 0 0 True False True True False)"
    by (rule loop_then [OF _ loop_start [where t = 0]]) (simp_all add: demo_defs)
  then have "?r (demo_world (Idle) None [demo_task (Over Ended_Ok) True] (Gathering {0}) (No_Closer) {0} 0 0 0 True False True True False)"
    by (rule loop_then [OF _ loop_end [where t = 0 and out = Ended_Ok]]) (simp_all add: demo_defs)
  then show "?r (demo_world (Idle) None [demo_task (Settled Ended_Ok) True] (Gathering {0}) (No_Closer) {} 0 0 0 True False True True False)"
    by (rule loop_then [OF _ loop_finished [where t = 0 and out = Ended_Ok]]) (simp_all add: demo_defs)
qed

lemma demo_shut:
  "life_reachable w0 (demo_world (Idle) None [demo_task (Settled Ended_Ok) True] (Gathering {0}) (No_Closer) {} 0 0 0 True False True True False) \<Longrightarrow>
   life_reachable w0 (demo_world (Idle) None [demo_task (Settled Ended_Ok) True] (Shut []) (No_Closer) {} 0 0 0 True False True False True)"
proof -
  let ?r = "life_reachable w0"
  assume "?r (demo_world (Idle) None [demo_task (Settled Ended_Ok) True] (Gathering {0}) (No_Closer) {} 0 0 0 True False True True False)"
  then have "?r (demo_world (Idle) None [demo_task (Settled Ended_Ok) True] (Settling) (No_Closer) {} 0 0 0 True False True True False)"
    by (rule shutdown_then [OF _ shut_gathered [where pending = "{0}"]]) (simp_all add: demo_defs)
  then have "?r (demo_world (Idle) None [demo_task (Settled Ended_Ok) True] (Collecting) (No_Closer) {} 0 0 0 True False True True False)"
    by (rule shutdown_then [OF _ shut_settled]) (simp_all add: demo_defs)
  then have "?r (demo_world (Idle) None [demo_task (Settled Ended_Ok) True] (Stopping_Executor []) (No_Closer) {} 0 0 0 True False True True False)"
    by (rule shutdown_then [OF _ shut_collect [where errors = "[]" and l = "(demo_life {} 0 0 0 True False True True False)"]]) (simp_all add: demo_defs)
  then have "?r (demo_world (Idle) None [demo_task (Settled Ended_Ok) True] (Joining_Executor []) (No_Closer) {} 0 0 0 True False True False False)"
    by (rule shutdown_then [OF _ shut_executor_shut [where errors = "[]"]]) (simp_all add: demo_defs)
  then show "?r (demo_world (Idle) None [demo_task (Settled Ended_Ok) True] (Shut []) (No_Closer) {} 0 0 0 True False True False True)"
    by (rule shutdown_then [OF _ shut_joined [where errors = "[]"]]) (simp_all add: demo_defs)
qed

lemma demo_blocked:
  "life_reachable w0 (demo_world (Posted []) (Some 0) [] (No_Shutdown) (No_Closer) {} 1 1 1 False True False True False) \<Longrightarrow>
   life_reachable w0 (demo_world (Posted []) (Some 0) [] (No_Shutdown) (Close_Wait True) {} 1 1 1 True True False False False)"
proof -
  let ?r = "life_reachable w0"
  assume "?r (demo_world (Posted []) (Some 0) [] (No_Shutdown) (No_Closer) {} 1 1 1 False True False True False)"
  then have "?r (demo_world (Posted []) (Some 0) [] (No_Shutdown) (Close_Executor True) {} 1 1 1 True True False True False)"
    by (rule closer_then [OF _ close_call [where l = "(demo_life {} 1 1 1 True True False True False)" and on_loop = True]]) (simp_all add: demo_defs)
  then show "?r (demo_world (Posted []) (Some 0) [] (No_Shutdown) (Close_Wait True) {} 1 1 1 True True False False False)"
    by (rule closer_then [OF _ close_executor [where on_loop = True]]) (simp_all add: demo_defs)
qed

lemma demo_runs:
  "life_reachable demo_start (demo_world (Posted []) (Some 0) [] (No_Shutdown) (No_Closer) {} 1 1 1 False True False True False)"
  "life_reachable demo_start (demo_world (Unlocked) None [demo_task Scheduled True] (Wait_Active False) (No_Closer) {0} 1 0 0 True False True True False)"
  "life_reachable demo_start (demo_world (Idle) None [demo_task (Settled Ended_Ok) True] (Shut []) (No_Closer) {} 0 0 0 True False True False True)"
  "life_reachable demo_start (demo_world (Posted []) (Some 0) [] (No_Shutdown) (Close_Wait True) {} 1 1 1 True True False False False)"
  by (rule demo_posted demo_closing demo_emitted demo_shut demo_settling demo_blocked life_start)+

lemma pending_callbacks_bounded_witness:
  "card {t. t < length (wd_tasks (demo_world (Unlocked) None [demo_task Scheduled True] (Wait_Active False) (No_Closer) {0} 1 0 0 True False True True False)) \<and> \<not> settled (wd_tasks (demo_world (Unlocked) None [demo_task Scheduled True] (Wait_Active False) (No_Closer) {0} 1 0 0 True False True True False) ! t)} \<le> 1"
  using conjunct1 [OF pending_callbacks_bounded [OF demo_fresh demo_runs(2)]]
  by (simp add: demo_world_def demo_life_def)

lemma shutdown_settles_everything_witness:
  "enter_process (wd_life (demo_world (Idle) None [demo_task (Settled Ended_Ok) True] (Shut []) (No_Closer) {} 0 0 0 True False True False True)) = Inl closed_error"
  using shutdown_settles_everything [OF demo_fresh demo_runs(3)] by (simp add: demo_world_def)

lemma aclose_terminates_witness: "\<exists>w'. pipeline_step (demo_world (Unlocked) None [demo_task Scheduled True] (Wait_Active False) (No_Closer) {0} 1 0 0 True False True True False) w'"
  using aclose_terminates [OF demo_fresh demo_runs(2)] by (simp add: demo_defs)

lemma close_on_loop_deadlocks_witness:
  "wd_closer (demo_world (Posted []) (Some 0) [] (No_Shutdown) (Close_Wait True) {} 1 1 1 True True False False False) = Close_Wait True"
  using close_on_loop_deadlocks [OF demo_fresh demo_runs(4), of 0 "[]", OF _ _ _ life_start]
  by (simp add: demo_world_def)

end
