(* ===== verification/Sync_Queue.thy ===== *)
theory Sync_Queue
  imports Rsap_Prelude "HOL-Library.Product_Lexorder" "HOL-Library.List_Lexorder" "HOL-Library.Char_ord"
begin

section \<open>The durable synchronization queue of the desktop edge\<close>

text \<open>
  Model of table \<open>sync_queue\<close> and of the statements that change it:
  \<open>_enqueue\<close> and \<open>SyncQueueRepository\<close> in \<open>app/repositories.py\<close> of the desktop backend.
  The table is the list of its rows in insertion order, \<open>UPDATE \<dots> WHERE\<close> a \<open>map\<close>,
  \<open>DELETE\<close> a \<open>filter\<close>, and \<open>SELECT \<dots> ORDER BY \<dots> LIMIT n\<close> a sort, a filter and a \<open>take\<close>. Every
  operation is one \<open>BEGIN IMMEDIATE\<close> transaction, hence one function on the table. What the
  code draws from outside is an argument: the clock (\<open>now\<close>) and \<open>uuid4\<close> (\<open>uuid\<close>, \<open>token\<close>).
  ISO-8601 time stamps in UTC compare as the instants they denote, so a stored time is a \<open>time\<close>.
  The JSON text of a payload is represented by the value it encodes, of type \<open>'p\<close>.
\<close>

subsection \<open>Rows\<close>

datatype sync_state = Pending | Inflight | RetryWait | Succeeded | DeadLetter | Cancelled

datatype failure_class = Transient | Permanent

record 'p sync_row =
  sq_id :: ident
  sq_endpoint :: string
  sq_payload :: 'p
  sq_key :: string
  sq_version :: int
  sq_pred :: "ident option"
  sq_dep :: "ident option"
  sq_state :: sync_state
  sq_attempts :: int
  sq_max :: int
  sq_next :: time
  sq_last_attempt :: "time option"
  sq_lease :: "time option"
  sq_token :: "ident option"
  sq_owner :: "ident option"
  sq_err_code :: "string option"
  sq_err_msg :: "string option"
  sq_class :: "failure_class option"
  sq_failed_at :: "time option"
  sq_completed_at :: "time option"
  sq_created :: time

type_synonym 'p queue = "'p sync_row list"

definition sql_less :: "time option \<Rightarrow> time \<Rightarrow> bool" where
  "sql_less a b = (case a of None \<Rightarrow> False | Some x \<Rightarrow> x < b)"

definition sql_greater :: "time option \<Rightarrow> time \<Rightarrow> bool" where
  "sql_greater a b = (case a of None \<Rightarrow> False | Some x \<Rightarrow> b < x)"

definition update_where :: "('p sync_row \<Rightarrow> bool) \<Rightarrow> ('p sync_row \<Rightarrow> 'p sync_row) \<Rightarrow> 'p queue \<Rightarrow> 'p queue" where
  "update_where P f q = map (\<lambda>r. if P r then f r else r) q"

definition row_with_id :: "'p queue \<Rightarrow> ident \<Rightarrow> 'p sync_row option" where
  "row_with_id q i = List.find (\<lambda>r. sq_id r = i) q"

definition seconds :: "int \<Rightarrow> time" where
  "seconds n = n * 1000000"

definition days :: "int \<Rightarrow> time" where
  "days n = seconds (n * 86400)"

subsection \<open>\<open>_enqueue\<close>\<close>

fun newest :: "'p sync_row \<Rightarrow> 'p queue \<Rightarrow> 'p sync_row" where
  "newest r [] = r"
| "newest r (s # q) = newest (if sq_version r < sq_version s then s else r) q"

definition latest_row :: "'p queue \<Rightarrow> string \<Rightarrow> 'p sync_row option" where
  "latest_row q k = (case filter (\<lambda>r. sq_key r = k) q of [] \<Rightarrow> None | r # rs \<Rightarrow> Some (newest r rs))"

definition py_or :: "ident option \<Rightarrow> ident option \<Rightarrow> ident option" where
  "py_or a b = (case a of Some (c # cs) \<Rightarrow> a | _ \<Rightarrow> b)"

definition coalescable :: "'p sync_row \<Rightarrow> bool" where
  "coalescable r \<longleftrightarrow> sq_state r = Pending \<and> sq_last_attempt r = None"

definition coalesce_row :: "string \<Rightarrow> 'p \<Rightarrow> ident option \<Rightarrow> time \<Rightarrow> 'p sync_row \<Rightarrow> 'p sync_row \<Rightarrow> 'p sync_row" where
  "coalesce_row endpoint payload dep now latest r = r\<lparr>sq_endpoint := endpoint, sq_payload := payload,
     sq_state := Pending, sq_attempts := 0, sq_next := now, sq_dep := py_or dep (sq_dep latest),
     sq_err_code := None, sq_err_msg := None, sq_class := None, sq_failed_at := None\<rparr>"

definition new_row ::
  "ident \<Rightarrow> string \<Rightarrow> 'p \<Rightarrow> string \<Rightarrow> int \<Rightarrow> ident option \<Rightarrow> ident option \<Rightarrow> int \<Rightarrow> time \<Rightarrow> 'p sync_row" where
  "new_row uuid endpoint payload key version pred dep max_attempts now =
     \<lparr>sq_id = uuid, sq_endpoint = endpoint, sq_payload = payload, sq_key = key, sq_version = version,
      sq_pred = pred, sq_dep = dep, sq_state = Pending, sq_attempts = 0, sq_max = max_attempts,
      sq_next = now, sq_last_attempt = None, sq_lease = None, sq_token = None, sq_owner = None,
      sq_err_code = None, sq_err_msg = None, sq_class = None, sq_failed_at = None,
      sq_completed_at = None, sq_created = now\<rparr>"

definition enqueue ::
  "'p queue \<Rightarrow> ident \<Rightarrow> time \<Rightarrow> string \<Rightarrow> 'p \<Rightarrow> string \<Rightarrow> int \<Rightarrow> ident option \<Rightarrow> 'p queue \<times> ident" where
  "enqueue q uuid now endpoint payload key max_attempts dep =
     (case latest_row q key of
        None \<Rightarrow> (q @ [new_row uuid endpoint payload key 1 None dep max_attempts now], uuid)
      | Some latest \<Rightarrow>
          if coalescable latest
          then (update_where (\<lambda>r. sq_id r = sq_id latest \<and> sq_state r \<in> {Pending, RetryWait})
                  (coalesce_row endpoint payload dep now latest) q, sq_id latest)
          else (q @ [new_row uuid endpoint payload key (sq_version latest + 1) (Some (sq_id latest)) dep
                       max_attempts now], uuid))"

subsection \<open>\<open>SyncQueueRepository\<close>\<close>

definition queue_count :: "sync_state list \<Rightarrow> 'p queue \<Rightarrow> nat" where
  "queue_count states q = length (filter (\<lambda>r. sq_state r \<in> set states) q)"

definition active_states :: "sync_state list" where
  "active_states = [Pending, Inflight, RetryWait]"

definition dead_letter_count :: "'p queue \<Rightarrow> nat" where
  "dead_letter_count = queue_count [DeadLetter]"

text \<open>The three steps of \<open>claim\<close>: expired leases return, eligible rows are selected, and leased.\<close>

definition expire_row :: "time \<Rightarrow> 'p sync_row \<Rightarrow> 'p sync_row" where
  "expire_row now r = r\<lparr>sq_state := RetryWait, sq_token := None, sq_owner := None, sq_lease := None,
     sq_next := now\<rparr>"

definition expire_leases :: "time \<Rightarrow> 'p queue \<Rightarrow> 'p queue" where
  "expire_leases now = update_where (\<lambda>r. sq_state r = Inflight \<and> sql_less (sq_lease r) now) (expire_row now)"

definition pred_done :: "'p queue \<Rightarrow> 'p sync_row \<Rightarrow> bool" where
  "pred_done q r = (case sq_pred r of None \<Rightarrow> True
     | Some p \<Rightarrow> \<exists>x \<in> set q. sq_id x = p \<and> sq_state x \<in> {Succeeded, Cancelled})"

definition dep_done :: "'p queue \<Rightarrow> 'p sync_row \<Rightarrow> bool" where
  "dep_done q r = (case sq_dep r of None \<Rightarrow> True
     | Some d \<Rightarrow> \<exists>x \<in> set q. sq_id x = d \<and> sq_state x = Succeeded)"

definition claimable :: "'p queue \<Rightarrow> time \<Rightarrow> string option \<Rightarrow> 'p sync_row \<Rightarrow> bool" where
  "claimable q now key r \<longleftrightarrow> sq_state r \<in> {Pending, RetryWait} \<and> sq_next r \<le> now
     \<and> (case key of None \<Rightarrow> True | Some k \<Rightarrow> k = [] \<or> sq_key r = k) \<and> pred_done q r \<and> dep_done q r"

definition by_age :: "'p queue \<Rightarrow> 'p queue" where
  "by_age = sort_key (\<lambda>r. (sq_created r, sq_version r, sq_id r))"

definition lease_row :: "ident \<Rightarrow> ident \<Rightarrow> time \<Rightarrow> time \<Rightarrow> 'p sync_row \<Rightarrow> 'p sync_row" where
  "lease_row token owner expires now r = r\<lparr>sq_state := Inflight, sq_token := Some token,
     sq_owner := Some owner, sq_lease := Some expires, sq_last_attempt := Some now,
     sq_attempts := sq_attempts r + 1\<rparr>"

definition claimed_ids :: "'p queue \<Rightarrow> time \<Rightarrow> nat \<Rightarrow> string option \<Rightarrow> ident list" where
  "claimed_ids q now limit key = map sq_id (take limit (by_age (filter (claimable q now key) q)))"

definition claim ::
  "int \<Rightarrow> 'p queue \<Rightarrow> ident \<Rightarrow> time \<Rightarrow> ident \<Rightarrow> int \<Rightarrow> string option \<Rightarrow> py_error + 'p queue \<times> 'p sync_row list" where
  "claim lease_seconds q token now owner limit key =
     (if owner = [] \<or> \<not> (1 \<le> limit \<and> limit \<le> 500) then Inl (ValueError ''owner and claim limit are invalid'')
      else let q1 = expire_leases now q; ids = claimed_ids q1 now (nat limit) key in
        if ids = [] then Inr (q1, [])
        else let q2 = update_where (\<lambda>r. sq_id r \<in> set ids \<and> sq_state r \<in> {Pending, RetryWait})
                        (lease_row token owner (now + seconds lease_seconds) now) q1
             in Inr (q2, by_age (filter (\<lambda>r. sq_token r = Some token \<and> sq_owner r = Some owner) q2)))"

definition owned :: "ident \<Rightarrow> ident \<Rightarrow> ident \<Rightarrow> time \<Rightarrow> 'p sync_row \<Rightarrow> bool" where
  "owned item token owner now r \<longleftrightarrow> sq_id r = item \<and> sq_token r = Some token \<and> sq_owner r = Some owner
     \<and> sq_state r = Inflight \<and> sql_greater (sq_lease r) now"

definition succeed_row :: "time \<Rightarrow> 'p sync_row \<Rightarrow> 'p sync_row" where
  "succeed_row now r = r\<lparr>sq_state := Succeeded, sq_completed_at := Some now, sq_token := None,
     sq_owner := None, sq_lease := None\<rparr>"

definition complete :: "'p queue \<Rightarrow> ident \<Rightarrow> ident \<Rightarrow> ident \<Rightarrow> time \<Rightarrow> 'p queue \<times> 'p sync_row option" where
  "complete q item token owner now =
     (update_where (owned item token owner now) (succeed_row now) q, List.find (owned item token owner now) q)"

definition retry_delay :: "int \<Rightarrow> int" where
  "retry_delay attempts = min 300 (2 ^ nat (min attempts 8))"

definition fail_row :: "bool \<Rightarrow> string \<Rightarrow> string \<Rightarrow> bool \<Rightarrow> int \<Rightarrow> time \<Rightarrow> 'p sync_row \<Rightarrow> 'p sync_row" where
  "fail_row dead code message permanent delay now r = r\<lparr>
     sq_state := if dead then DeadLetter else RetryWait, sq_token := None, sq_owner := None,
     sq_lease := None, sq_next := now + seconds delay, sq_err_code := Some (take 100 code),
     sq_err_msg := Some (take 200 message), sq_class := Some (if permanent then Permanent else Transient),
     sq_failed_at := if dead then Some now else None\<rparr>"

definition fail ::
  "'p queue \<Rightarrow> ident \<Rightarrow> ident \<Rightarrow> ident \<Rightarrow> string \<Rightarrow> string \<Rightarrow> bool \<Rightarrow> time \<Rightarrow> 'p queue \<times> bool" where
  "fail q item token owner code message permanent now =
     (case List.find (owned item token owner now) q of
        None \<Rightarrow> (q, False)
      | Some row \<Rightarrow>
          let dead = permanent \<or> sq_max row \<le> sq_attempts row;
              delay = retry_delay (sq_attempts row);
              mine = (\<lambda>r. sq_id r = item \<and> sq_token r = Some token \<and> sq_owner r = Some owner)
          in (update_where mine (fail_row dead code message permanent delay now) q,
              length (filter mine q) = 1))"

definition list_dead_letters :: "'p queue \<Rightarrow> nat \<Rightarrow> nat \<Rightarrow> 'p sync_row list \<times> nat" where
  "list_dead_letters q limit off =
     (take limit (drop off (sort_key (\<lambda>r. (case sq_failed_at r of None \<Rightarrow> (1 :: int, 0) | Some t \<Rightarrow> (0, - t), sq_id r))
        (filter (\<lambda>r. sq_state r = DeadLetter) q))),
      length (filter (\<lambda>r. sq_state r = DeadLetter) q))"

definition revive_row :: "time \<Rightarrow> 'p sync_row \<Rightarrow> 'p sync_row" where
  "revive_row now r = r\<lparr>sq_state := Pending, sq_attempts := 0, sq_next := now, sq_failed_at := None,
     sq_class := None, sq_err_code := None, sq_err_msg := None\<rparr>"

definition dead_with_id :: "ident \<Rightarrow> 'p sync_row \<Rightarrow> bool" where
  "dead_with_id item r \<longleftrightarrow> sq_id r = item \<and> sq_state r = DeadLetter"

definition retry_dead_letter :: "'p queue \<Rightarrow> ident \<Rightarrow> time \<Rightarrow> 'p queue \<times> bool" where
  "retry_dead_letter q item now =
     (update_where (dead_with_id item) (revive_row now) q, length (filter (dead_with_id item) q) = 1)"

definition discard_dead_letter :: "'p queue \<Rightarrow> ident \<Rightarrow> time \<Rightarrow> 'p queue \<times> bool" where
  "discard_dead_letter q item now =
     (update_where (dead_with_id item) (\<lambda>r. r\<lparr>sq_state := Cancelled, sq_completed_at := Some now\<rparr>) q,
      length (filter (dead_with_id item) q) = 1)"

subsection \<open>Statements of the other repositories on the queue\<close>

text \<open>
  A login withdraws the revocations that are not under way (\<open>SessionRepository.save\<close>), a logout
  leases the row it has just queued without asking for its predecessor
  (\<open>SessionRepository.begin_revocation\<close>), and the deletion of a camera that was never registered
  withdraws the newest row of the camera and what depends on it (\<open>CameraRepository.delete\<close>).
\<close>

abbreviation "revoke_key \<equiv> ''session:revoke''"

definition cancel_revocations :: "time \<Rightarrow> 'p queue \<Rightarrow> 'p queue" where
  "cancel_revocations now = update_where
     (\<lambda>r. sq_key r = revoke_key \<and> sq_state r \<in> {Pending, RetryWait, DeadLetter})
     (\<lambda>r. r\<lparr>sq_state := Cancelled, sq_completed_at := Some now\<rparr>)"

definition lease_new ::
  "ident \<Rightarrow> ident \<Rightarrow> ident \<Rightarrow> time \<Rightarrow> time \<Rightarrow> 'p queue \<Rightarrow> 'p queue" where
  "lease_new item token owner expires now =
     update_where (\<lambda>r. sq_id r = item \<and> sq_state r = Pending) (lease_row token owner expires now)"

definition cancel_with_dependents :: "time \<Rightarrow> ident \<Rightarrow> 'p queue \<Rightarrow> 'p queue" where
  "cancel_with_dependents now item = update_where
     (\<lambda>r. (sq_id r = item \<or> sq_dep r = Some item) \<and> sq_state r \<in> {Pending, RetryWait})
     (\<lambda>r. r\<lparr>sq_state := Cancelled, sq_completed_at := Some now\<rparr>)"

definition cancel_newest :: "time \<Rightarrow> string \<Rightarrow> 'p queue \<Rightarrow> 'p queue" where
  "cancel_newest now key q = (case latest_row q key of None \<Rightarrow> q
     | Some latest \<Rightarrow> if sq_state latest \<in> {Pending, RetryWait} then cancel_with_dependents now (sq_id latest) q else q)"

subsection \<open>\<open>purge_retained\<close>\<close>

definition cancel_row :: "time \<Rightarrow> 'p sync_row \<Rightarrow> 'p sync_row" where
  "cancel_row now r = r\<lparr>sq_state := Cancelled, sq_completed_at := Some now, sq_token := None,
     sq_owner := None, sq_lease := None\<rparr>"

text \<open>The links of the recursive query: from a row to the rows that name it.\<close>

definition links :: "'p queue \<Rightarrow> (ident \<times> ident) set" where
  "links q = set (concat (map (\<lambda>r. (case sq_pred r of None \<Rightarrow> [] | Some p \<Rightarrow> [(p, sq_id r)])
     @ (case sq_dep r of None \<Rightarrow> [] | Some d \<Rightarrow> [(d, sq_id r)])) q))"

definition descendants :: "'p queue \<Rightarrow> ident \<Rightarrow> ident set" where
  "descendants q item = (links q)\<^sup>+ `` {item}"

definition unlink_row :: "ident \<Rightarrow> 'p sync_row \<Rightarrow> 'p sync_row" where
  "unlink_row item r = r\<lparr>sq_pred := if sq_pred r = Some item then None else sq_pred r,
     sq_dep := if sq_dep r = Some item then None else sq_dep r\<rparr>"

definition purge_links :: "'p queue \<Rightarrow> time \<Rightarrow> ident \<times> sync_state \<Rightarrow> 'p queue" where
  "purge_links q now c =
     (case c of (item, state) \<Rightarrow>
        if state = DeadLetter
        then update_where (\<lambda>r. sq_id r \<in> descendants q item \<and> sq_state r \<noteq> Inflight) (cancel_row now) q
        else if state = Cancelled
        then update_where (\<lambda>r. sq_dep r = Some item \<and> sq_state r \<noteq> Inflight) (cancel_row now) q
        else q)"

definition purge_one :: "time \<Rightarrow> 'p queue \<Rightarrow> ident \<times> sync_state \<Rightarrow> 'p queue" where
  "purge_one now q c =
     filter (\<lambda>r. sq_id r \<noteq> fst c) (map (unlink_row (fst c)) (purge_links q now c))"

definition purge_candidate :: "time \<Rightarrow> time \<Rightarrow> 'p sync_row \<Rightarrow> bool" where
  "purge_candidate succeeded_before dead_before r \<longleftrightarrow>
     (sq_state r \<in> {Succeeded, Cancelled} \<and> sql_less (sq_completed_at r) succeeded_before)
     \<or> (sq_state r = DeadLetter \<and> sql_less (sq_failed_at r) dead_before)"

definition purge_candidates :: "'p queue \<Rightarrow> time \<Rightarrow> int \<Rightarrow> int \<Rightarrow> (ident \<times> sync_state) list" where
  "purge_candidates q now succeeded_days dead_days =
     map (\<lambda>r. (sq_id r, sq_state r)) (sort_key (\<lambda>r. (sq_created r, sq_id r))
       (filter (purge_candidate (now - days succeeded_days) (now - days dead_days)) q))"

definition purge_retained :: "'p queue \<Rightarrow> time \<Rightarrow> int \<Rightarrow> int \<Rightarrow> 'p queue \<times> nat" where
  "purge_retained q now succeeded_days dead_days =
     (let cs = purge_candidates q now succeeded_days dead_days; q' = foldl (purge_one now) q cs
      in (q', length q - length q'))"

end
