(* ===== verification/Sync_Order.thy ===== *)
theory Sync_Order
  imports Sync_Queue
begin

section \<open>Invariants of the synchronization queue\<close>

text \<open>
  All statements that change the queue as one step function, the invariant all of them keep, and
  the properties of runs: per logical key the rows are processed strictly in version order, at most
  one at a time. The key \<open>session:revoke\<close> is the exception: a logout leases its row at once and a
  login withdraws rows, so its rows are left out of the order and keep only well-formed links.
\<close>

datatype 'p queue_op =
    Enqueue ident time string 'p string int "ident option"
  | Claim ident time ident int "string option"
  | Complete ident ident ident time
  | Fail ident ident ident string string bool time
  | RetryDead ident time
  | DiscardDead ident time
  | Purge time int int
  | Revoke ident ident time 'p int int
  | CancelRevocations time
  | CancelNewest time string

fun q_step :: "int \<Rightarrow> 'p queue \<Rightarrow> 'p queue_op \<Rightarrow> 'p queue" where
  "q_step L q (Enqueue uuid now endpoint payload key m dep) = fst (enqueue q uuid now endpoint payload key m dep)"
| "q_step L q (Claim token now owner limit key) =
     (case claim L q token now owner limit key of Inl e \<Rightarrow> q | Inr (q', rows) \<Rightarrow> q')"
| "q_step L q (Complete item token owner now) = fst (complete q item token owner now)"
| "q_step L q (Fail item token owner code message permanent now) =
     fst (fail q item token owner code message permanent now)"
| "q_step L q (RetryDead item now) = fst (retry_dead_letter q item now)"
| "q_step L q (DiscardDead item now) = fst (discard_dead_letter q item now)"
| "q_step L q (Purge now sd dd) = fst (purge_retained q now sd dd)"
| "q_step L q (Revoke uuid token now payload m lease_seconds) =
     (case enqueue q uuid now ''/api/v1/auth/logout'' payload revoke_key m None of (q1, item) \<Rightarrow>
        lease_new item token ''auth-logout'' (now + seconds lease_seconds) now q1)"
| "q_step L q (CancelRevocations now) = cancel_revocations now q"
| "q_step L q (CancelNewest now key) = cancel_newest now key q"

definition ordered :: "'p sync_row \<Rightarrow> bool" where
  "ordered r \<longleftrightarrow> sq_key r \<noteq> revoke_key"

definition terminal :: "'p sync_row \<Rightarrow> bool" where
  "terminal r \<longleftrightarrow> sq_state r \<in> {Succeeded, Cancelled}"

definition older :: "'p sync_row \<Rightarrow> 'p sync_row \<Rightarrow> bool" where
  "older a b \<longleftrightarrow> sq_key a = sq_key b \<and> sq_version a < sq_version b"

definition older_done :: "'p queue \<Rightarrow> 'p sync_row \<Rightarrow> bool" where
  "older_done q b \<longleftrightarrow> (\<forall>a \<in> set q. older a b \<longrightarrow> terminal a)"

definition top_row :: "'p queue \<Rightarrow> 'p sync_row \<Rightarrow> bool" where
  "top_row q b \<longleftrightarrow> (\<forall>a \<in> set q. \<not> older b a)"

text \<open>
  What the callers guarantee: \<open>uuid4\<close> is fresh; a dependency names a camera's row of the table
  (\<open>_camera_dependency\<close> reads it there); only keys used once (one event, alert or count, whose
  local row is inserted in the same transaction) carry a dependency; and nothing is queued for a
  key whose newest row was withdrawn before its turn, since the camera is deleted with it.
\<close>

fun op_ok :: "'p queue \<Rightarrow> 'p queue_op \<Rightarrow> bool" where
  "op_ok q (Enqueue uuid now endpoint payload key m dep) \<longleftrightarrow>
     uuid \<notin> sq_id ` set q \<and> (\<forall>d. dep = Some d \<longrightarrow> key \<noteq> revoke_key \<and> (\<exists>x \<in> set q. sq_id x = d \<and> ordered x))
     \<and> (\<forall>r \<in> set q. sq_key r = key \<longrightarrow> dep = None \<and> sq_dep r = None)
     \<and> (key \<noteq> revoke_key \<longrightarrow> (\<forall>r \<in> set q. sq_key r = key \<and> sq_state r = Cancelled \<longrightarrow> older_done q r))"
| "op_ok q (Revoke uuid token now payload m lease_seconds) \<longleftrightarrow> uuid \<notin> sq_id ` set q"
| "op_ok q _ \<longleftrightarrow> True"

fun q_run :: "int \<Rightarrow> 'p queue \<Rightarrow> 'p queue_op list \<Rightarrow> 'p queue" where
  "q_run L q [] = q"
| "q_run L q (op # ops) = q_run L (q_step L q op) ops"

fun run_ok :: "int \<Rightarrow> 'p queue \<Rightarrow> 'p queue_op list \<Rightarrow> bool" where
  "run_ok L q [] \<longleftrightarrow> True"
| "run_ok L q (op # ops) \<longleftrightarrow> op_ok q op \<and> run_ok L (q_step L q op) ops"

subsection \<open>The invariant\<close>

definition pred_ok :: "'p queue \<Rightarrow> 'p sync_row \<Rightarrow> bool" where
  "pred_ok q b \<longleftrightarrow> (case sq_pred b of None \<Rightarrow> older_done q b
     | Some p \<Rightarrow> \<exists>x \<in> set q. sq_id x = p \<and> older x b \<and> (\<forall>a \<in> set q. older a b \<longrightarrow> a = x \<or> older a x))"

definition dep_ok :: "'p queue \<Rightarrow> 'p sync_row \<Rightarrow> bool" where
  "dep_ok q b \<longleftrightarrow> (\<forall>d. sq_dep b = Some d \<longrightarrow> (\<exists>x \<in> set q. sq_id x = d \<and> ordered x) \<and> (\<forall>a \<in> set q. sq_key a = sq_key b \<longrightarrow> a = b))
     \<and> (sq_state b \<notin> {Pending, Cancelled} \<longrightarrow> dep_done q b)"

definition lease_ok :: "'p sync_row \<Rightarrow> bool" where
  "lease_ok r \<longleftrightarrow> (sq_state r = Inflight \<longleftrightarrow> sq_token r \<noteq> None) \<and> (sq_token r = None \<longleftrightarrow> sq_owner r = None)
     \<and> (sq_token r = None \<longleftrightarrow> sq_lease r = None) \<and> 0 \<le> sq_attempts r"

definition order_ok :: "'p queue \<Rightarrow> 'p sync_row \<Rightarrow> bool" where
  "order_ok q b \<longleftrightarrow> (sq_state b \<noteq> Pending \<longrightarrow> older_done q b \<or> (sq_state b = Cancelled \<and> top_row q b))
     \<and> pred_ok q b \<and> dep_ok q b"

definition links_ok :: "'p queue \<Rightarrow> 'p sync_row \<Rightarrow> bool" where
  "links_ok q b \<longleftrightarrow> sq_dep b = None \<and> (\<forall>p. sq_pred b = Some p \<longrightarrow> (\<exists>x \<in> set q. sq_id x = p \<and> \<not> ordered x))"

definition row_ok :: "'p queue \<Rightarrow> 'p sync_row \<Rightarrow> bool" where
  "row_ok q b \<longleftrightarrow> lease_ok b \<and> (ordered b \<longrightarrow> order_ok q b) \<and> (\<not> ordered b \<longrightarrow> links_ok q b)"

definition queue_inv :: "'p queue \<Rightarrow> bool" where
  "queue_inv q \<longleftrightarrow> distinct (map sq_id q) \<and> distinct (map (\<lambda>r. (sq_key r, sq_version r)) q)
     \<and> (\<forall>r \<in> set q. row_ok q r)"

lemma queue_inv_Nil [simp, inv_intros]: "queue_inv []"
  by (simp add: queue_inv_def)

lemma terminal_not_pending: "terminal r \<Longrightarrow> sq_state r \<noteq> Pending \<and> sq_state r \<noteq> Inflight \<and> sq_state r \<noteq> DeadLetter"
  by (auto simp: terminal_def)

lemma older_trans: "older a b \<Longrightarrow> older b c \<Longrightarrow> older a c"
  by (auto simp: older_def)

lemma older_irrefl [simp]: "\<not> older a a"
  by (simp add: older_def)

lemma row_by_id:
  assumes "queue_inv q" "a \<in> set q" "b \<in> set q" "sq_id a = sq_id b"
  shows "a = b"
  using assms by (auto simp: queue_inv_def distinct_map inj_on_def)

lemma row_okD:
  assumes "queue_inv q" "r \<in> set q"
  shows "lease_ok r"
    "ordered r \<Longrightarrow> sq_state r \<noteq> Pending \<Longrightarrow> older_done q r \<or> (sq_state r = Cancelled \<and> top_row q r)"
    "ordered r \<Longrightarrow> pred_ok q r" "ordered r \<Longrightarrow> dep_ok q r" "sq_state r \<notin> {Pending, Cancelled} \<Longrightarrow> dep_done q r"
    "sq_dep r \<noteq> None \<Longrightarrow> ordered r" "\<not> ordered r \<Longrightarrow> links_ok q r"
  using assms by (auto simp: queue_inv_def row_ok_def order_ok_def dep_ok_def links_ok_def dep_done_def)

lemma ordered_older: "older a b \<Longrightarrow> ordered a \<longleftrightarrow> ordered b"
  by (simp add: older_def ordered_def)

lemma under_done:
  assumes inv: "queue_inv q" and a: "a \<in> set q" "ordered a" "sq_state a \<noteq> Pending"
    and b: "b \<in> set q" "older a b"
  shows "older_done q a"
  using row_okD(2) [OF inv a] b by (auto simp: top_row_def)

lemma pred_done_older:
  assumes inv: "queue_inv q" and b: "b \<in> set q" "ordered b" and p: "pred_done q b"
  shows "older_done q b"
proof (cases "sq_pred b")
  case None
  then show ?thesis using row_okD(3) [OF inv b] by (simp add: pred_ok_def)
next
  case (Some p')
  with row_okD(3) [OF inv b] obtain x where x: "x \<in> set q" "sq_id x = p'" "older x b"
    "\<forall>a \<in> set q. older a b \<longrightarrow> a = x \<or> older a x" by (auto simp: pred_ok_def)
  from p Some obtain y where "y \<in> set q" "sq_id y = p'" "sq_state y \<in> {Succeeded, Cancelled}"
    by (auto simp: pred_done_def)
  with row_by_id [OF inv] x have t: "terminal x" by (metis terminal_def)
  then have "older_done q x"
    using under_done [OF inv x(1) _ _ b(1) x(3)] terminal_not_pending [OF t] ordered_older [OF x(3)] b(2) by simp
  with x(4) t show ?thesis by (auto simp: older_done_def)
qed

subsection \<open>Updates in place\<close>

text \<open>
  A statement that keeps the identity, order and links of every row preserves the invariant when
  finished rows stay finished and whatever leaves \<open>pending\<close> had nothing open before it.
\<close>

definition same_place :: "'p sync_row \<Rightarrow> 'p sync_row \<Rightarrow> bool" where
  "same_place r r' \<longleftrightarrow> sq_id r' = sq_id r \<and> sq_key r' = sq_key r \<and> sq_version r' = sq_version r
     \<and> sq_pred r' = sq_pred r \<and> sq_dep r' = sq_dep r"

definition lawful :: "'p queue \<Rightarrow> 'p sync_row \<Rightarrow> 'p sync_row \<Rightarrow> bool" where
  "lawful q r r' \<longleftrightarrow> same_place r r' \<and> lease_ok r' \<and> (ordered r \<longrightarrow>
     (sq_state r = Cancelled \<longrightarrow> sq_state r' = Cancelled) \<and> (sq_state r = Succeeded \<longrightarrow> sq_state r' = Succeeded)
     \<and> (sq_state r' \<noteq> Pending \<longrightarrow>
          sq_state r \<noteq> Pending \<or> older_done q r \<or> (sq_state r' = Cancelled \<and> top_row q r))
     \<and> (sq_state r' \<notin> {Pending, Cancelled} \<longrightarrow> dep_done q r))"

lemma lawfulD:
  assumes "lawful q r r'"
  shows "sq_id r' = sq_id r" "sq_key r' = sq_key r" "sq_version r' = sq_version r"
    "sq_pred r' = sq_pred r" "sq_dep r' = sq_dep r" "lease_ok r'"
  using assms by (simp_all add: lawful_def same_place_def)

lemma map_lawful_inv:
  assumes inv: "queue_inv q" and law: "\<And>r. r \<in> set q \<Longrightarrow> lawful q r (g r)"
  shows "queue_inv (map g q)"
proof -
  have ids: "map sq_id (map g q) = map sq_id q"
    using law by (auto simp: lawful_def same_place_def)
  have keys: "map (\<lambda>r. (sq_key r, sq_version r)) (map g q) = map (\<lambda>r. (sq_key r, sq_version r)) q"
    using law by (auto simp: lawful_def same_place_def)
  have old: "older (g a) (g b) \<longleftrightarrow> older a b" if "a \<in> set q" "b \<in> set q" for a b
    using lawfulD [OF law [OF that(1)]] lawfulD [OF law [OF that(2)]] by (simp add: older_def)
  have ord: "ordered (g a) \<longleftrightarrow> ordered a" if "a \<in> set q" for a
    using lawfulD [OF law [OF that]] by (simp add: ordered_def)
  have od: "older_done (map g q) (g b)" if b: "b \<in> set q" "ordered b" "older_done q b" for b
    unfolding older_done_def
  proof (intro ballI impI)
    fix a assume "a \<in> set (map g q)" "older a (g b)"
    then obtain a' where a': "a' \<in> set q" "a = g a'" by auto
    with \<open>older a (g b)\<close> old [OF a'(1) b(1)] have o: "older a' b" by simp
    with b(3) a' have "terminal a'" by (simp add: older_done_def)
    with law [OF a'(1)] ordered_older [OF o] b(2) a'(2) show "terminal a"
      by (auto simp: lawful_def terminal_def)
  qed
  have top: "top_row (map g q) (g b)" if "b \<in> set q" "top_row q b" for b
    using that old [OF that(1)] by (auto simp: top_row_def)
  have dd: "dep_done (map g q) (g b)" if b: "b \<in> set q" "ordered b" "dep_done q b" for b
  proof (cases "sq_dep b")
    case None
    then show ?thesis using lawfulD [OF law [OF b(1)]] by (simp add: dep_done_def)
  next
    case (Some d)
    with b(3) obtain x where x: "x \<in> set q" "sq_id x = d" "sq_state x = Succeeded"
      by (auto simp: dep_done_def)
    from row_okD(4) [OF inv b(1,2)] Some obtain y where y: "y \<in> set q" "sq_id y = d" "ordered y"
      by (auto simp: dep_ok_def)
    have "ordered x" using row_by_id [OF inv x(1) y(1)] x(2) y(2,3) by simp
    then have "sq_id (g x) = d" "sq_state (g x) = Succeeded"
      using law [OF x(1)] x by (simp_all add: lawful_def same_place_def)
    with x(1) Some show ?thesis using lawfulD [OF law [OF b(1)]] by (auto simp: dep_done_def)
  qed
  have "order_ok (map g q) (g b)" if b: "b \<in> set q" "ordered b" for b
  proof -
    have l: "lawful q b (g b)" using law b(1) by simp
    have fifo: "sq_state (g b) \<noteq> Pending \<longrightarrow>
        older_done (map g q) (g b) \<or> (sq_state (g b) = Cancelled \<and> top_row (map g q) (g b))"
      using row_okD(2) [OF inv b] l b(2) od [OF b] top [OF b(1)] by (auto simp: lawful_def)
    have pr: "pred_ok (map g q) (g b)"
    proof (cases "sq_pred b")
      case None
      then show ?thesis using row_okD(3) [OF inv b] l od [OF b]
        by (simp add: pred_ok_def lawful_def same_place_def)
    next
      case (Some p)
      with row_okD(3) [OF inv b] obtain x where x: "x \<in> set q" "sq_id x = p" "older x b"
        "\<forall>a \<in> set q. older a b \<longrightarrow> a = x \<or> older a x" by (auto simp: pred_ok_def)
      have "sq_id (g x) = p" "older (g x) (g b)" "sq_pred (g b) = Some p"
        using x lawfulD [OF law [OF x(1)]] old [OF x(1) b(1)] lawfulD [OF l] Some by simp_all
      moreover have "\<forall>a \<in> set (map g q). older a (g b) \<longrightarrow> a = g x \<or> older a (g x)"
      proof (intro ballI impI)
        fix a assume "a \<in> set (map g q)" "older a (g b)"
        then obtain a' where a': "a' \<in> set q" "a = g a'" by auto
        with \<open>older a (g b)\<close> old [OF a'(1) b(1)] have "older a' b" by simp
        with x(4) a'(1) have "a' = x \<or> older a' x" by simp
        with a' old [OF a'(1) x(1)] show "a = g x \<or> older a (g x)" by auto
      qed
      ultimately show ?thesis using x(1) by (auto simp: pred_ok_def)
    qed
    have same: "sq_dep (g b) = sq_dep b" "sq_key (g b) = sq_key b" using lawfulD [OF l] by simp_all
    have "dep_ok (map g q) (g b)"
      unfolding dep_ok_def same
    proof (intro conjI allI impI ballI)
      fix d assume d: "sq_dep b = Some d"
      with row_okD(4) [OF inv b] obtain x where "x \<in> set q" "sq_id x = d" "ordered x"
        by (auto simp: dep_ok_def)
      then show "\<exists>x \<in> set (map g q). sq_id x = d \<and> ordered x"
        using lawfulD(1) [OF law] ord by auto
    next
      fix d a assume d: "sq_dep b = Some d" and a: "a \<in> set (map g q)" "sq_key a = sq_key b"
      from a(1) obtain a' where a': "a' \<in> set q" "a = g a'" by auto
      with a(2) have "sq_key a' = sq_key b" using lawfulD [OF law [OF a'(1)]] by simp
      with row_okD(4) [OF inv b] d a'(1) have "a' = b" by (auto simp: dep_ok_def)
      with a' show "a = g b" by simp
    next
      assume "sq_state (g b) \<notin> {Pending, Cancelled}"
      with l b(2) have "dep_done q b" by (simp add: lawful_def)
      then show "dep_done (map g q) (g b)" by (rule dd [OF b])
    qed
    with fifo pr show ?thesis by (simp add: order_ok_def)
  qed
  moreover have "links_ok (map g q) (g b)" if b: "b \<in> set q" "\<not> ordered b" for b
  proof -
    have l: "sq_dep (g b) = None" "sq_pred (g b) = sq_pred b"
      using row_okD(7) [OF inv b] lawfulD [OF law [OF b(1)]] by (simp_all add: links_ok_def)
    moreover have "\<exists>x \<in> set (map g q). sq_id x = p \<and> \<not> ordered x" if p: "sq_pred b = Some p" for p
    proof -
      from row_okD(7) [OF inv b] p obtain x where "x \<in> set q" "sq_id x = p" "\<not> ordered x"
        by (auto simp: links_ok_def)
      then show ?thesis using lawfulD(1) [OF law] ord by auto
    qed
    ultimately show ?thesis by (simp add: links_ok_def)
  qed
  ultimately have "row_ok (map g q) (g b)" if "b \<in> set q" for b
    using that ord [OF that] lawfulD(6) [OF law [OF that]] by (simp add: row_ok_def)
  then have "\<forall>r \<in> set (map g q). row_ok (map g q) r" by auto
  with inv ids keys show ?thesis unfolding queue_inv_def by metis
qed

lemma lawful_refl: "queue_inv q \<Longrightarrow> r \<in> set q \<Longrightarrow> lawful q r r"
  using row_okD(1,5) [of q r] by (auto simp: lawful_def same_place_def)

lemma update_lawful_inv:
  assumes "queue_inv q" and "\<And>r. r \<in> set q \<Longrightarrow> P r \<Longrightarrow> lawful q r (f r)"
  shows "queue_inv (update_where P f q)"
  unfolding update_where_def by (rule map_lawful_inv) (use assms lawful_refl in auto)

subsection \<open>Enqueue\<close>

lemma newest_in: "newest r q \<in> insert r (set q)"
proof (induction q arbitrary: r)
  case (Cons s q)
  from Cons.IH [of "if sq_version r < sq_version s then s else r"] show ?case by (auto split: if_splits)
qed simp

lemma newest_max: "a \<in> insert r (set q) \<Longrightarrow> sq_version a \<le> sq_version (newest r q)"
proof (induction q arbitrary: r a)
  case (Cons s q)
  let ?m = "if sq_version r < sq_version s then s else r"
  have m: "sq_version ?m \<le> sq_version (newest ?m q)" by (rule Cons.IH) simp
  show ?case
  proof (cases "a \<in> set q")
    case True
    then show ?thesis using Cons.IH [of a ?m] by simp
  next
    case False
    then have "a = r \<or> a = s" using Cons.prems by auto
    then have "sq_version a \<le> sq_version ?m" by auto
    with m show ?thesis by simp
  qed
qed simp

lemma latest_row_None: "latest_row q k = None \<longleftrightarrow> (\<forall>r \<in> set q. sq_key r \<noteq> k)"
proof -
  have "latest_row q k = None \<longleftrightarrow> filter (\<lambda>r. sq_key r = k) q = []"
    by (simp add: latest_row_def split: list.splits)
  then show ?thesis by (simp add: filter_empty_conv)
qed

lemma latest_row_Some:
  assumes "latest_row q k = Some r"
  shows "r \<in> set q" "sq_key r = k" "a \<in> set q \<Longrightarrow> sq_key a = k \<Longrightarrow> sq_version a \<le> sq_version r"
proof -
  obtain x xs where f: "filter (\<lambda>r. sq_key r = k) q = x # xs" and r: "r = newest x xs"
    using assms by (auto simp: latest_row_def split: list.splits)
  have s: "set (x # xs) = {r \<in> set q. sq_key r = k}" using f by (metis set_filter)
  have "r \<in> set (x # xs)" using newest_in [of x xs] r by simp
  then show "r \<in> set q" "sq_key r = k" unfolding s by auto
  show "sq_version a \<le> sq_version r" if "a \<in> set q" "sq_key a = k"
  proof -
    have "a \<in> set (x # xs)" unfolding s using that by simp
    then show ?thesis unfolding r using newest_max [of a x xs] by simp
  qed
qed

lemma append_row_inv:
  assumes inv: "queue_inv q" and fresh: "sq_id n \<notin> sq_id ` set q"
    and new: "sq_state n = Pending" "lease_ok n"
    and top: "\<And>a. a \<in> set q \<Longrightarrow> sq_key a = sq_key n \<Longrightarrow> sq_version a < sq_version n"
    and pred: "case sq_pred n of None \<Rightarrow> \<forall>a \<in> set q. sq_key a \<noteq> sq_key n
      | Some p \<Rightarrow> \<exists>x \<in> set q. sq_id x = p \<and> older x n \<and> (\<forall>a \<in> set q. older a n \<longrightarrow> a = x \<or> older a x)"
    and dep: "\<forall>d. sq_dep n = Some d \<longrightarrow> ordered n \<and> (\<exists>x \<in> set q. sq_id x = d \<and> ordered x)"
      "\<And>r. r \<in> set q \<Longrightarrow> sq_key r = sq_key n \<Longrightarrow> sq_dep n = None \<and> sq_dep r = None"
    and under: "\<And>r. ordered n \<Longrightarrow> r \<in> set q \<Longrightarrow> sq_key r = sq_key n \<Longrightarrow> sq_state r = Cancelled \<Longrightarrow> older_done q r"
  shows "queue_inv (q @ [n])"
proof -
  have not_older: "\<not> older n b" if "b \<in> set (q @ [n])" for b
  proof
    assume "older n b"
    then have "sq_key b = sq_key n" "sq_version n < sq_version b" by (auto simp: older_def)
    with top that show False by fastforce
  qed
  have od: "older_done (q @ [n]) b \<longleftrightarrow> older_done q b" if "b \<in> set (q @ [n])" for b
    using not_older [OF that] by (auto simp: older_done_def)
  have "order_ok (q @ [n]) b" if b: "b \<in> set q" "ordered b" for b
  proof -
    note r = row_okD [OF inv b(1)]
    have "pred_ok (q @ [n]) b"
    proof (cases "sq_pred b")
      case None
      then show ?thesis using r(3) od b by (simp add: pred_ok_def)
    next
      case (Some p)
      with r(3) b(2) obtain x where "x \<in> set q" "sq_id x = p" "older x b"
        "\<forall>a \<in> set q. older a b \<longrightarrow> a = x \<or> older a x" by (auto simp: pred_ok_def)
      with Some not_older b show ?thesis by (auto simp: pred_ok_def)
    qed
    moreover have "dep_ok (q @ [n]) b"
    proof -
      have "a = b" if "a \<in> set (q @ [n])" "sq_key a = sq_key b" "sq_dep b = Some d" for a d
        using that dep(2) [OF b(1)] r(4) b by (auto simp: dep_ok_def)
      moreover have "dep_done q b \<Longrightarrow> dep_done (q @ [n]) b"
        by (auto simp: dep_done_def split: option.splits)
      ultimately show ?thesis using r(4) b(2) by (auto simp: dep_ok_def)
    qed
    moreover have "older_done q b \<or> (sq_state b = Cancelled \<and> top_row (q @ [n]) b)" if "sq_state b \<noteq> Pending"
    proof (rule disjCI)
      assume h: "\<not> (sq_state b = Cancelled \<and> top_row (q @ [n]) b)"
      show "older_done q b"
      proof (rule ccontr)
        assume no: "\<not> older_done q b"
        with r(2) [OF b(2) that] have c: "sq_state b = Cancelled" "top_row q b" by auto
        with h have "older b n" by (auto simp: top_row_def)
        then have "sq_key b = sq_key n" "ordered n" using b(2) by (auto simp: older_def ordered_def)
        with under [OF _ b(1)] c(1) no show False by simp
      qed
    qed
    ultimately show ?thesis using od b by (auto simp: order_ok_def)
  qed
  moreover have "links_ok (q @ [n]) b" if b: "b \<in> set q" "\<not> ordered b" for b
    using row_okD(7) [OF inv b] by (auto simp: links_ok_def)
  moreover have "row_ok (q @ [n]) n"
  proof -
    have "pred_ok (q @ [n]) n" using pred
      by (auto simp: pred_ok_def older_done_def older_def split: option.splits)
    moreover have "dep_ok (q @ [n]) n" using dep(1) new by (auto simp: dep_ok_def dest: dep(2))
    moreover have "links_ok (q @ [n]) n" if "\<not> ordered n"
      using pred dep(1) that by (cases "sq_dep n"; cases "sq_pred n")
        (auto simp: links_ok_def older_def ordered_def)
    ultimately show ?thesis using new by (simp add: row_ok_def order_ok_def)
  qed
  ultimately have "\<forall>b \<in> set (q @ [n]). row_ok (q @ [n]) b"
    using row_okD(1) [OF inv] by (auto simp: row_ok_def)
  moreover have "distinct (map sq_id (q @ [n]))" using inv fresh by (auto simp: queue_inv_def)
  moreover have "distinct (map (\<lambda>r. (sq_key r, sq_version r)) (q @ [n]))"
    using inv top by (fastforce simp: queue_inv_def)
  ultimately show ?thesis unfolding queue_inv_def by simp
qed

lemma enqueue_inv [inv_intros]:
  assumes inv: "queue_inv q" and ok: "op_ok q (Enqueue uuid now endpoint payload key m dep)"
  shows "queue_inv (fst (enqueue q uuid now endpoint payload key m dep))"
proof (cases "latest_row q key")
  case None
  then have none: "\<forall>r \<in> set q. sq_key r \<noteq> key" by (simp add: latest_row_None)
  have "queue_inv (q @ [new_row uuid endpoint payload key 1 None dep m now])"
    using ok none by (intro append_row_inv [OF inv]) (auto simp: new_row_def lease_ok_def ordered_def)
  with None show ?thesis by (simp add: enqueue_def)
next
  case (Some l)
  note l = latest_row_Some [OF Some]
  show ?thesis
  proof (cases "coalescable l")
    case True
    have "queue_inv (update_where (\<lambda>r. sq_id r = sq_id l \<and> sq_state r \<in> {Pending, RetryWait})
        (coalesce_row endpoint payload dep now l) q)"
    proof (rule update_lawful_inv [OF inv])
      fix r assume r: "r \<in> set q" "sq_id r = sq_id l \<and> sq_state r \<in> {Pending, RetryWait}"
      then have "r = l" using row_by_id [OF inv _ l(1)] by simp
      moreover have "dep = None" "sq_dep l = None" using ok l by auto
      moreover have "lease_ok l" using inv l(1) by (simp add: queue_inv_def row_ok_def)
      ultimately show "lawful q r (coalesce_row endpoint payload dep now l r)"
        using True by (auto simp: lawful_def same_place_def coalesce_row_def py_or_def lease_ok_def
            coalescable_def terminal_def)
    qed
    with Some True show ?thesis by (simp add: enqueue_def)
  next
    case False
    let ?n = "new_row uuid endpoint payload key (sq_version l + 1) (Some (sq_id l)) dep m now"
    have "older l (new_row uuid endpoint payload key (sq_version l + 1) (Some (sq_id l)) dep m now)"
      using l by (simp add: older_def new_row_def)
    moreover have "a = l \<or> older a l" if "a \<in> set q"
      "older a (new_row uuid endpoint payload key (sq_version l + 1) (Some (sq_id l)) dep m now)" for a
    proof -
      have k: "sq_key a = key" "sq_version a \<le> sq_version l" using that by (auto simp: older_def new_row_def)
      show ?thesis
      proof (cases "sq_version a = sq_version l")
        case True
        with k l that(1) inv have "a = l" by (auto simp: queue_inv_def distinct_map inj_on_def)
        then show ?thesis ..
      next
        case False
        with k l show ?thesis by (simp add: older_def)
      qed
    qed
    ultimately have p: "\<exists>x \<in> set q. sq_id x = sq_id l \<and> older x ?n \<and> (\<forall>a \<in> set q. older a ?n \<longrightarrow> a = x \<or> older a x)"
      using l(1) by blast
    have "queue_inv (q @ [?n])"
    proof (rule append_row_inv [OF inv])
      show "case sq_pred ?n of None \<Rightarrow> \<forall>a \<in> set q. sq_key a \<noteq> sq_key ?n
        | Some p \<Rightarrow> \<exists>x \<in> set q. sq_id x = p \<and> older x ?n \<and> (\<forall>a \<in> set q. older a ?n \<longrightarrow> a = x \<or> older a x)"
        using p by (simp add: new_row_def)
      show "sq_version a < sq_version ?n" if "a \<in> set q" "sq_key a = sq_key ?n" for a
        using l(3) [OF that(1)] that(2) by (simp add: new_row_def)
    qed (use ok in \<open>auto simp: new_row_def lease_ok_def ordered_def\<close>)
    with Some False show ?thesis by (simp add: enqueue_def)
  qed
qed

subsection \<open>Claim, complete, fail, retry and discard\<close>

lemma expire_leases_inv [inv_intros]:
  assumes inv: "queue_inv q"
  shows "queue_inv (expire_leases now q)"
  unfolding expire_leases_def
proof (rule update_lawful_inv [OF inv])
  fix r assume r: "r \<in> set q" "sq_state r = Inflight \<and> sql_less (sq_lease r) now"
  with row_okD [OF inv r(1)] show "lawful q r (expire_row now r)"
    by (auto simp: lawful_def same_place_def expire_row_def lease_ok_def terminal_def)
qed

lemma set_by_age [simp]: "set (by_age q) = set q"
  by (simp add: by_age_def)

lemma claimed_ids_claimable:
  assumes inv: "queue_inv q" and r: "r \<in> set q" "sq_id r \<in> set (claimed_ids q now limit key)"
  shows "claimable q now key r"
proof -
  from r(2) obtain x where "x \<in> set (take limit (by_age (filter (claimable q now key) q)))" "sq_id x = sq_id r"
    by (auto simp: claimed_ids_def)
  then have x: "x \<in> set q" "claimable q now key x" by (auto dest!: in_set_takeD)
  with row_by_id [OF inv x(1) r(1) \<open>sq_id x = sq_id r\<close>] show ?thesis by simp
qed

lemma lease_claimed_inv:
  assumes inv: "queue_inv q"
  shows "queue_inv (update_where (\<lambda>r. sq_id r \<in> set (claimed_ids q now limit key) \<and> sq_state r \<in> {Pending, RetryWait})
           (lease_row token owner expires now) q)"
proof (rule update_lawful_inv [OF inv])
  fix r assume r: "r \<in> set q" "sq_id r \<in> set (claimed_ids q now limit key) \<and> sq_state r \<in> {Pending, RetryWait}"
  then have "claimable q now key r" by (blast intro: claimed_ids_claimable [OF inv])
  then have "pred_done q r" "dep_done q r" "sq_state r \<noteq> Cancelled" by (auto simp: claimable_def)
  with pred_done_older [OF inv r(1)] r(2) row_okD(1) [OF inv r(1)]
  show "lawful q r (lease_row token owner expires now r)"
    by (auto simp: lawful_def same_place_def lease_row_def lease_ok_def terminal_def)
qed

lemma claim_inv [inv_intros]:
  assumes "queue_inv q" "claim L q token now owner limit key = Inr (q', rows)"
  shows "queue_inv q'"
  using assms lease_claimed_inv [OF expire_leases_inv [OF assms(1)]] expire_leases_inv [OF assms(1)]
  by (auto simp: claim_def Let_def split: if_splits)

lemma complete_inv [inv_intros]:
  assumes inv: "queue_inv q"
  shows "queue_inv (fst (complete q item token owner now))"
  unfolding complete_def fst_conv
proof (rule update_lawful_inv [OF inv])
  fix r assume r: "r \<in> set q" "owned item token owner now r"
  with row_okD [OF inv r(1)] show "lawful q r (succeed_row now r)"
    by (auto simp: lawful_def same_place_def succeed_row_def lease_ok_def terminal_def owned_def)
qed

lemma fail_inv [inv_intros]:
  assumes inv: "queue_inv q"
  shows "queue_inv (fst (fail q item token owner code message permanent now))"
proof (cases "List.find (owned item token owner now) q")
  case None
  then show ?thesis using inv by (simp add: fail_def)
next
  case (Some row)
  have "queue_inv (update_where (\<lambda>r. sq_id r = item \<and> sq_token r = Some token \<and> sq_owner r = Some owner)
      (fail_row dead code message permanent delay now) q)" for dead delay
  proof (rule update_lawful_inv [OF inv])
    fix r assume r: "r \<in> set q" "sq_id r = item \<and> sq_token r = Some token \<and> sq_owner r = Some owner"
    then have "sq_state r = Inflight" using row_okD(1) [OF inv r(1)] by (simp add: lease_ok_def)
    with row_okD [OF inv r(1)] show "lawful q r (fail_row dead code message permanent delay now r)"
      by (auto simp: lawful_def same_place_def fail_row_def lease_ok_def terminal_def)
  qed
  with Some show ?thesis by (simp add: fail_def Let_def)
qed

lemma retry_inv [inv_intros]:
  assumes inv: "queue_inv q"
  shows "queue_inv (fst (retry_dead_letter q item now))"
  unfolding retry_dead_letter_def fst_conv
proof (rule update_lawful_inv [OF inv])
  fix r assume r: "r \<in> set q" "dead_with_id item r"
  with row_okD [OF inv r(1)] show "lawful q r (revive_row now r)"
    by (auto simp: lawful_def same_place_def revive_row_def lease_ok_def terminal_def dead_with_id_def)
qed

lemma discard_inv [inv_intros]:
  assumes inv: "queue_inv q"
  shows "queue_inv (fst (discard_dead_letter q item now))"
  unfolding discard_dead_letter_def fst_conv
proof (rule update_lawful_inv [OF inv])
  fix r assume r: "r \<in> set q" "dead_with_id item r"
  with row_okD [OF inv r(1)] show "lawful q r (r\<lparr>sq_state := Cancelled, sq_completed_at := Some now\<rparr>)"
    by (auto simp: lawful_def same_place_def lease_ok_def terminal_def dead_with_id_def)
qed

lemma lease_new_inv:
  assumes inv: "queue_inv q" and free: "\<And>r. r \<in> set q \<Longrightarrow> sq_id r = item \<Longrightarrow> \<not> ordered r"
  shows "queue_inv (lease_new item token owner expires now q)"
  unfolding lease_new_def
proof (rule update_lawful_inv [OF inv])
  fix r assume r: "r \<in> set q" "sq_id r = item \<and> sq_state r = Pending"
  with free row_okD(1) [OF inv r(1)] show "lawful q r (lease_row token owner expires now r)"
    by (auto simp: lawful_def same_place_def lease_row_def lease_ok_def)
qed

lemma new_row_key: "sq_key (new_row uuid endpoint payload key v pred dep m now) = key"
  by (simp add: new_row_def)

lemma enqueue_result:
  assumes inv: "queue_inv q" and fresh: "uuid \<notin> sq_id ` set q"
    and e: "enqueue q uuid now endpoint payload key m dep = (q', i)" and r: "r \<in> set q'" "sq_id r = i"
  shows "sq_key r = key"
proof -
  have new: "sq_key r = key" if "q' = q @ [n]" "i = uuid" "sq_key n = key" for n
  proof -
    from that(1) r(1) have "r \<in> set q \<or> r = n" by auto
    with that(2,3) r(2) fresh show ?thesis by auto
  qed
  show ?thesis
  proof (cases "latest_row q key")
    case None
    have f: "enqueue q uuid now endpoint payload key m dep = (q @ [new_row uuid endpoint payload key 1 None dep m now], uuid)"
      by (simp add: enqueue_def None)
    show ?thesis by (rule new [OF _ _ new_row_key]) (use trans [OF e [symmetric] f] in blast)+
  next
    case (Some l)
    note l = latest_row_Some [OF Some]
    show ?thesis
    proof (cases "coalescable l")
      case True
      let ?P = "\<lambda>r. sq_id r = sq_id l \<and> sq_state r \<in> {Pending, RetryWait}"
      let ?f = "coalesce_row endpoint payload dep now l"
      have f: "enqueue q uuid now endpoint payload key m dep = (update_where ?P ?f q, sq_id l)"
        by (simp add: enqueue_def Some True)
      from trans [OF e [symmetric] f] have q': "q' = update_where ?P ?f q" "i = sq_id l" by blast+
      from r(1) obtain b where b: "b \<in> set q" "r = (if ?P b then ?f b else b)"
        unfolding q'(1) update_where_def by auto
      then have k: "sq_id b = sq_id l" "sq_key r = sq_key b" using r(2) q'(2) by (auto simp: coalesce_row_def split: if_splits)
      have "b = l" by (rule row_by_id [OF inv b(1) l(1) k(1)])
      with k(2) l(2) show ?thesis by simp
    next
      case False
      let ?n = "new_row uuid endpoint payload key (sq_version l + 1) (Some (sq_id l)) dep m now"
      have f: "enqueue q uuid now endpoint payload key m dep = (q @ [?n], uuid)"
        by (simp add: enqueue_def Some False)
      show ?thesis by (rule new [OF _ _ new_row_key]) (use trans [OF e [symmetric] f] in blast)+
    qed
  qed
qed

lemma unordered_no_dep: "queue_inv q \<Longrightarrow> r \<in> set q \<Longrightarrow> sq_key r = revoke_key \<Longrightarrow> sq_dep r = None"
  using row_okD(7) [of q r] by (simp add: ordered_def links_ok_def)

lemma revoke_inv:
  assumes inv: "queue_inv q" and ok: "op_ok q (Revoke uuid token now payload m s)"
  shows "queue_inv (q_step L q (Revoke uuid token now payload m s))"
proof -
  obtain q1 item where e: "enqueue q uuid now ''/api/v1/auth/logout'' payload revoke_key m None = (q1, item)"
    by (metis prod.collapse)
  have "queue_inv (fst (enqueue q uuid now ''/api/v1/auth/logout'' payload revoke_key m None))"
    by (rule enqueue_inv [OF inv]) (use ok unordered_no_dep [OF inv] in auto)
  with e have inv1: "queue_inv q1" by simp
  have "\<not> ordered r" if "r \<in> set q1" "sq_id r = item" for r
    using enqueue_result [OF inv _ e that] ok by (simp add: ordered_def)
  with lease_new_inv [OF inv1] e show ?thesis by simp
qed

lemma cancel_revocations_inv:
  assumes inv: "queue_inv q"
  shows "queue_inv (cancel_revocations now q)"
  unfolding cancel_revocations_def
proof (rule update_lawful_inv [OF inv])
  fix r assume r: "r \<in> set q" "sq_key r = revoke_key \<and> sq_state r \<in> {Pending, RetryWait, DeadLetter}"
  with row_okD(1) [OF inv r(1)] show "lawful q r (r\<lparr>sq_state := Cancelled, sq_completed_at := Some now\<rparr>)"
    by (auto simp: lawful_def same_place_def lease_ok_def ordered_def)
qed

lemma cancel_newest_inv:
  assumes inv: "queue_inv q"
  shows "queue_inv (cancel_newest now key q)"
proof (cases "latest_row q key")
  case None
  with inv show ?thesis by (simp add: cancel_newest_def)
next
  case (Some l)
  note l = latest_row_Some [OF Some]
  have top: "top_row q l" using l by (fastforce simp: top_row_def older_def)
  have "queue_inv (cancel_with_dependents now (sq_id l) q)"
    unfolding cancel_with_dependents_def
  proof (rule update_lawful_inv [OF inv])
    fix r assume r: "r \<in> set q" "(sq_id r = sq_id l \<or> sq_dep r = Some (sq_id l)) \<and> sq_state r \<in> {Pending, RetryWait}"
    have "top_row q r"
    proof (cases "sq_id r = sq_id l")
      case True
      with row_by_id [OF inv r(1) l(1)] top show ?thesis by simp
    next
      case False
      with r(2) have d: "sq_dep r = Some (sq_id l)" by simp
      then have "dep_ok q r" using row_okD(4,6) [OF inv r(1)] by simp
      with d show ?thesis by (auto simp: dep_ok_def top_row_def older_def)
    qed
    with r row_okD(1) [OF inv r(1)] show "lawful q r (r\<lparr>sq_state := Cancelled, sq_completed_at := Some now\<rparr>)"
      by (auto simp: lawful_def same_place_def lease_ok_def)
  qed
  with Some inv show ?thesis by (simp add: cancel_newest_def)
qed

subsection \<open>Purge\<close>

text \<open>Whatever hangs on a dead letter is still waiting, or was cancelled while it waited.\<close>

lemma links_iff: "(p, c) \<in> links q \<longleftrightarrow> (\<exists>r \<in> set q. sq_id r = c \<and> (sq_pred r = Some p \<or> sq_dep r = Some p))"
proof -
  have "(p, c) \<in> set ((case sq_pred r of None \<Rightarrow> [] | Some p \<Rightarrow> [(p, sq_id r)])
      @ (case sq_dep r of None \<Rightarrow> [] | Some d \<Rightarrow> [(d, sq_id r)]))
    \<longleftrightarrow> sq_id r = c \<and> (sq_pred r = Some p \<or> sq_dep r = Some p)" for r :: "'a sync_row"
    by (auto split: option.splits)
  then show ?thesis by (simp add: links_def)
qed

definition waiting :: "'p queue \<Rightarrow> 'p sync_row \<Rightarrow> bool" where
  "waiting q r \<longleftrightarrow> sq_state r = Pending \<or> (sq_state r = Cancelled \<and> top_row q r)"

lemma dep_not_done:
  assumes inv: "queue_inv q" and x: "x \<in> set q" "sq_state x \<noteq> Succeeded" and d: "sq_dep r = Some (sq_id x)"
  shows "\<not> dep_done q r"
proof
  assume "dep_done q r"
  with d obtain y where "y \<in> set q" "sq_id y = sq_id x" "sq_state y = Succeeded"
    by (auto simp: dep_done_def)
  with row_by_id [OF inv this(1) x(1)] x(2) show False by simp
qed

lemma linked_ordered:
  assumes inv: "queue_inv q" and x: "x \<in> set q" and r: "r \<in> set q" "sq_pred r = Some (sq_id x) \<or> sq_dep r = Some (sq_id x)"
  shows "ordered r \<longleftrightarrow> ordered x"
proof (cases "ordered r")
  case True
  from r(2) show ?thesis
  proof
    assume "sq_pred r = Some (sq_id x)"
    with row_okD(3) [OF inv r(1) True] obtain y where y: "y \<in> set q" "sq_id y = sq_id x" "older y r"
      by (auto simp: pred_ok_def)
    with row_by_id [OF inv y(1) x y(2)] ordered_older [OF y(3)] show ?thesis by simp
  next
    assume "sq_dep r = Some (sq_id x)"
    with row_okD(4) [OF inv r(1) True] obtain y where y: "y \<in> set q" "sq_id y = sq_id x" "ordered y"
      by (auto simp: dep_ok_def)
    with row_by_id [OF inv y(1) x y(2)] True show ?thesis by simp
  qed
next
  case False
  with row_okD(7) [OF inv r(1)] r(2) obtain y where y: "y \<in> set q" "sq_id y = sq_id x" "\<not> ordered y"
    by (auto simp: links_ok_def)
  with row_by_id [OF inv y(1) x y(2)] False show ?thesis by simp
qed

lemma child_waiting:
  assumes inv: "queue_inv q" and x: "x \<in> set q" "ordered x" "waiting q x \<or> sq_state x = DeadLetter"
    and r: "r \<in> set q" "sq_pred r = Some (sq_id x) \<or> sq_dep r = Some (sq_id x)"
  shows "waiting q r"
proof -
  have o: "ordered r" using linked_ordered [OF inv x(1) r] x(2) by simp
  from r(2) show ?thesis
  proof
    assume p: "sq_pred r = Some (sq_id x)"
    from row_okD(3) [OF inv r(1) o] p obtain y where y: "y \<in> set q" "sq_id y = sq_id x" "older y r"
      by (auto simp: pred_ok_def)
    have "older x r" using row_by_id [OF inv y(1) x(1) y(2)] y(3) by simp
    moreover from this x(3) r(1) have "\<not> terminal x" by (auto simp: waiting_def terminal_def top_row_def)
    ultimately have "\<not> older_done q r" using x(1) by (auto simp: older_done_def)
    with row_okD(2) [OF inv r(1) o] show ?thesis by (auto simp: waiting_def)
  next
    assume d: "sq_dep r = Some (sq_id x)"
    have "sq_state x \<noteq> Succeeded" using x by (auto simp: waiting_def)
    then have "\<not> dep_done q r" using d by (rule dep_not_done [OF inv x(1)])
    moreover have "top_row q r" using row_okD(4) [OF inv r(1) o] d by (auto simp: dep_ok_def top_row_def older_def)
    ultimately show ?thesis using row_okD(5) [OF inv r(1)] by (auto simp: waiting_def)
  qed
qed

lemma descendant_cases:
  assumes "b \<in> descendants q i"
  obtains y where "(y, b) \<in> links q" "y = i \<or> y \<in> descendants q i"
  using assms unfolding descendants_def by (auto elim: tranclE)

lemma descendant_induct [consumes 1, case_names child step]:
  assumes "b \<in> descendants q i"
    and "\<And>b. (i, b) \<in> links q \<Longrightarrow> P b"
    and "\<And>y b. y \<in> descendants q i \<Longrightarrow> P y \<Longrightarrow> (y, b) \<in> links q \<Longrightarrow> P b"
  shows "P b"
proof -
  from assms(1) have "(i, b) \<in> (links q)\<^sup>+" by (simp add: descendants_def)
  then show ?thesis
    by (induction rule: trancl_induct) (auto intro: assms(2,3) simp: descendants_def)
qed

lemma links_in:
  assumes inv: "queue_inv q" and "(y, b) \<in> links q"
  shows "\<exists>x \<in> set q. sq_id x = y"
proof -
  from assms(2) obtain r where r: "r \<in> set q" "sq_id r = b" "sq_pred r = Some y \<or> sq_dep r = Some y"
    by (auto simp: links_iff)
  show ?thesis
  proof (cases "ordered r")
    case True
    with row_okD(3,4) [OF inv r(1)] r(3) show ?thesis by (auto simp: pred_ok_def dep_ok_def)
  next
    case False
    with row_okD(7) [OF inv r(1)] r(3) show ?thesis by (auto simp: links_ok_def)
  qed
qed

lemma descendants_ordered:
  assumes inv: "queue_inv q" and x: "x \<in> set q" "sq_id x = i" and b: "b \<in> descendants q i"
  shows "\<forall>r \<in> set q. sq_id r = b \<longrightarrow> (ordered r \<longleftrightarrow> ordered x)"
  using b
proof (induction rule: descendant_induct)
  case (child b)
  show ?case
  proof (intro ballI impI)
    fix r assume r: "r \<in> set q" "sq_id r = b"
    from child obtain s where "s \<in> set q" "sq_id s = b" "sq_pred s = Some i \<or> sq_dep s = Some i"
      by (auto simp: links_iff)
    with row_by_id [OF inv _ r(1)] r x linked_ordered [OF inv x(1) r(1)] show "ordered r \<longleftrightarrow> ordered x" by auto
  qed
next
  case (step y b)
  from links_in [OF inv step.hyps(2)] obtain z where z: "z \<in> set q" "sq_id z = y" by auto
  show ?case
  proof (intro ballI impI)
    fix r assume r: "r \<in> set q" "sq_id r = b"
    from step.hyps obtain s where "s \<in> set q" "sq_id s = b" "sq_pred s = Some y \<or> sq_dep s = Some y"
      by (auto simp: links_iff)
    with row_by_id [OF inv _ r(1)] r z step.IH linked_ordered [OF inv z(1) r(1)]
    show "ordered r \<longleftrightarrow> ordered x" by auto
  qed
qed

lemma descendants_waiting:
  assumes inv: "queue_inv q" and x: "x \<in> set q" "sq_id x = i" "sq_state x = DeadLetter" "ordered x"
    and b: "b \<in> descendants q i"
  shows "\<forall>r \<in> set q. sq_id r = b \<longrightarrow> waiting q r"
  using b
proof (induction rule: descendant_induct)
  case (child b)
  show ?case
  proof (intro ballI impI)
    fix r assume r: "r \<in> set q" "sq_id r = b"
    from child obtain s where "s \<in> set q" "sq_id s = b" "sq_pred s = Some i \<or> sq_dep s = Some i"
      by (auto simp: links_iff)
    with row_by_id [OF inv _ r(1)] r x show "waiting q r" by (auto intro: child_waiting [OF inv x(1)])
  qed
next
  case (step y b)
  from links_in [OF inv step.hyps(2)] obtain z where z: "z \<in> set q" "sq_id z = y" by auto
  have "ordered z" using descendants_ordered [OF inv x(1,2) step.hyps(1)] z x(4) by simp
  show ?case
  proof (intro ballI impI)
    fix r assume r: "r \<in> set q" "sq_id r = b"
    from step.hyps obtain s where "s \<in> set q" "sq_id s = b" "sq_pred s = Some y \<or> sq_dep s = Some y"
      by (auto simp: links_iff)
    with row_by_id [OF inv _ r(1)] r z step.IH \<open>ordered z\<close> show "waiting q r"
      by (auto intro: child_waiting [OF inv z(1)])
  qed
qed

text \<open>Which rows the removal of one candidate cancels.\<close>

definition cancelled_by :: "'p queue \<Rightarrow> ident \<times> sync_state \<Rightarrow> 'p sync_row \<Rightarrow> bool" where
  "cancelled_by q c r \<longleftrightarrow> sq_state r \<noteq> Inflight \<and>
     (snd c = DeadLetter \<and> sq_id r \<in> descendants q (fst c) \<or> snd c = Cancelled \<and> sq_dep r = Some (fst c))"

definition purged_row :: "time \<Rightarrow> 'p queue \<Rightarrow> ident \<times> sync_state \<Rightarrow> 'p sync_row \<Rightarrow> 'p sync_row" where
  "purged_row now q c r = unlink_row (fst c) (if cancelled_by q c r then cancel_row now r else r)"

lemma purge_one_eq: "purge_one now q c = map (purged_row now q c) (filter (\<lambda>r. sq_id r \<noteq> fst c) q)"
proof -
  have "map (unlink_row (fst c)) (purge_links q now c) = map (purged_row now q c) q"
    by (cases c) (auto simp: purge_links_def update_where_def purged_row_def cancelled_by_def)
  moreover have "sq_id (purged_row now q c r) = sq_id r" for r
    by (simp add: purged_row_def unlink_row_def cancel_row_def)
  ultimately show ?thesis by (simp add: purge_one_def filter_map o_def)
qed

lemma purged_row_simps [simp]:
  "sq_id (purged_row now q c r) = sq_id r" "sq_key (purged_row now q c r) = sq_key r"
  "sq_version (purged_row now q c r) = sq_version r"
  "sq_state (purged_row now q c r) = (if cancelled_by q c r then Cancelled else sq_state r)"
  "sq_pred (purged_row now q c r) = (if sq_pred r = Some (fst c) then None else sq_pred r)"
  "sq_dep (purged_row now q c r) = (if sq_dep r = Some (fst c) then None else sq_dep r)"
  by (simp_all add: purged_row_def unlink_row_def cancel_row_def)

lemma older_purged [simp]: "older (purged_row now q c a) (purged_row now q c b) = older a b"
  by (simp add: older_def)

lemma ordered_purged [simp]: "ordered (purged_row now q c a) = ordered a"
  by (simp add: ordered_def)

text \<open>
  A candidate is a row of the table; unless it is a revocation, which an earlier step of the purge may
  have cancelled, it is still in the state the query saw.
\<close>

definition candidate_ok :: "'p queue \<Rightarrow> ident \<times> sync_state \<Rightarrow> bool" where
  "candidate_ok q c \<longleftrightarrow> snd c \<in> {Succeeded, Cancelled, DeadLetter}
     \<and> (\<exists>x \<in> set q. sq_id x = fst c \<and> sq_state x \<in> {Succeeded, Cancelled, DeadLetter}
          \<and> (ordered x \<longrightarrow> sq_state x = snd c))"

lemma cancelled_by_candidate:
  assumes inv: "queue_inv q" and c: "candidate_ok q c" and r: "r \<in> set q" "cancelled_by q c r"
  obtains x where "x \<in> set q" "sq_id x = fst c" "ordered x \<longleftrightarrow> ordered r" "ordered x \<Longrightarrow> sq_state x = snd c"
proof -
  from c obtain x where x: "x \<in> set q" "sq_id x = fst c" "ordered x \<longrightarrow> sq_state x = snd c"
    by (auto simp: candidate_ok_def)
  from r(2) have "sq_id r \<in> descendants q (fst c) \<or> sq_dep r = Some (sq_id x)"
    using x(2) by (auto simp: cancelled_by_def)
  then have "ordered r \<longleftrightarrow> ordered x"
    using descendants_ordered [OF inv x(1,2), of "sq_id r"] linked_ordered [OF inv x(1) r(1)] r(1) by auto
  with x that show thesis by blast
qed

lemma cancelled_by_waiting:
  assumes inv: "queue_inv q" and c: "candidate_ok q c" and r: "r \<in> set q" "ordered r" "cancelled_by q c r"
  shows "waiting q r"
proof -
  obtain x where x: "x \<in> set q" "sq_id x = fst c" "ordered x" "sq_state x = snd c"
    using cancelled_by_candidate [OF inv c r(1,3)] r(2) by blast
  show ?thesis
  proof (cases "snd c = DeadLetter")
    case True
    with x r descendants_waiting [OF inv x(1,2) _ x(3)] show ?thesis by (auto simp: cancelled_by_def)
  next
    case False
    with r(3) have d: "sq_dep r = Some (fst c)" "snd c = Cancelled" by (auto simp: cancelled_by_def)
    have "\<not> dep_done q r" by (rule dep_not_done [OF inv x(1)]) (use d x in simp_all)
    moreover have "top_row q r" using row_okD(4) [OF inv r(1,2)] d by (auto simp: dep_ok_def top_row_def older_def)
    ultimately show ?thesis using row_okD(5) [OF inv r(1)] by (auto simp: waiting_def)
  qed
qed

lemma singleton_dep:
  assumes "queue_inv q" "r \<in> set q" "sq_dep r = Some d" "a \<in> set q" "sq_key a = sq_key r"
  shows "a = r"
  using row_okD(4,6) [OF assms(1,2)] assms(3-) by (auto simp: dep_ok_def)

lemma cancelled_by_older:
  assumes inv: "queue_inv q" and c: "candidate_ok q c"
    and r: "r \<in> set q" "ordered r" "cancelled_by q c r"
  shows "\<forall>a \<in> set q. older a r \<and> sq_id a \<noteq> fst c \<longrightarrow> terminal a \<or> cancelled_by q c a"
proof (cases "snd c = DeadLetter")
  case False
  with r(3) have "sq_dep r = Some (fst c)" by (auto simp: cancelled_by_def)
  with singleton_dep [OF inv r(1)] show ?thesis by (auto simp: older_def)
next
  case True
  obtain x where x: "x \<in> set q" "sq_id x = fst c" "sq_state x = DeadLetter" "ordered x"
    using cancelled_by_candidate [OF inv c r(1,3)] r(2) True by metis
  have ord: "ordered s" if "s \<in> set q" "sq_id s \<in> descendants q (fst c)" for s
    using descendants_ordered [OF inv x(1,2) that(2)] that(1) x(4) by blast
  have cb: "cancelled_by q c z" if "z \<in> set q" "sq_id z \<in> descendants q (fst c)" for z
  proof -
    have "waiting q z" using descendants_waiting [OF inv x that(2)] that(1) by blast
    then show ?thesis using that(2) True by (auto simp: cancelled_by_def waiting_def)
  qed
  have main: "\<forall>s \<in> set q. sq_id s = b \<longrightarrow>
      (\<forall>a \<in> set q. older a s \<and> sq_id a \<noteq> fst c \<longrightarrow> terminal a \<or> cancelled_by q c a)"
    if "b \<in> descendants q (fst c)" for b
    using that
  proof (induction rule: descendant_induct)
    case (child b)
    then have b: "b \<in> descendants q (fst c)" by (auto simp: descendants_def)
    show ?case
    proof (intro ballI impI, elim conjE)
      fix s a assume s: "s \<in> set q" "sq_id s = b" and a: "a \<in> set q" "older a s" "sq_id a \<noteq> fst c"
      from child obtain s' where "s' \<in> set q" "sq_id s' = b" "sq_pred s' = Some (fst c) \<or> sq_dep s' = Some (fst c)"
        by (auto simp: links_iff)
      then have l: "sq_pred s = Some (fst c) \<or> sq_dep s = Some (fst c)" using row_by_id [OF inv _ s(1)] s by auto
      have "sq_dep s = None" using singleton_dep [OF inv s(1)] a by (cases "sq_dep s") (auto simp: older_def)
      with l have "sq_pred s = Some (fst c)" by simp
      with row_okD(3) [OF inv s(1) ord] s b obtain y where y: "y \<in> set q" "sq_id y = fst c"
        "\<forall>a \<in> set q. older a s \<longrightarrow> a = y \<or> older a y" by (auto simp: pred_ok_def)
      then have "y = x" using row_by_id [OF inv y(1) x(1)] x(2) by simp
      with y(3) a x(2) have "older a x" by auto
      with row_okD(2) [OF inv x(1,4)] x(3) a(1) show "terminal a \<or> cancelled_by q c a"
        by (auto simp: older_done_def)
    qed
  next
    case (step y b)
    then have b: "b \<in> descendants q (fst c)" by (auto simp: descendants_def)
    from links_in [OF inv step.hyps(2)] obtain z where z: "z \<in> set q" "sq_id z = y" by auto
    show ?case
    proof (intro ballI impI, elim conjE)
      fix s a assume s: "s \<in> set q" "sq_id s = b" and a: "a \<in> set q" "older a s" "sq_id a \<noteq> fst c"
      from step.hyps obtain s' where "s' \<in> set q" "sq_id s' = b" "sq_pred s' = Some y \<or> sq_dep s' = Some y"
        by (auto simp: links_iff)
      then have l: "sq_pred s = Some y \<or> sq_dep s = Some y" using row_by_id [OF inv _ s(1)] s by auto
      have "sq_dep s = None" using singleton_dep [OF inv s(1)] a by (cases "sq_dep s") (auto simp: older_def)
      with l have "sq_pred s = Some y" by simp
      with row_okD(3) [OF inv s(1) ord] s b obtain w where w: "w \<in> set q" "sq_id w = y"
        "\<forall>a \<in> set q. older a s \<longrightarrow> a = w \<or> older a w" by (auto simp: pred_ok_def)
      then have "w = z" using row_by_id [OF inv w(1) z(1)] z(2) by simp
      with w(3) a have "a = z \<or> older a z" by auto
      then show "terminal a \<or> cancelled_by q c a"
      proof
        assume "a = z"
        with cb [OF z(1)] z(2) step.hyps(1) show ?thesis by simp
      next
        assume "older a z"
        with step.IH z a show ?thesis by auto
      qed
    qed
  qed
  have "sq_id r \<in> descendants q (fst c)" using r(3) True by (auto simp: cancelled_by_def)
  from main [OF this] r(1) show ?thesis by simp
qed

lemma purged_terminal: "terminal r \<Longrightarrow> terminal (purged_row now q c r)"
  by (simp add: terminal_def)

lemma candidate_closed:
  assumes inv: "queue_inv q" and c: "candidate_ok q c" and r: "r \<in> set q" "sq_id r = fst c"
  shows "ordered r \<Longrightarrow> sq_state r = snd c" "sq_state r \<in> {Succeeded, Cancelled, DeadLetter}"
    "ordered r \<Longrightarrow> b \<in> set q \<Longrightarrow> older r b \<Longrightarrow> older_done q r"
proof -
  from c obtain x where x: "x \<in> set q" "sq_id x = fst c" "ordered x \<longrightarrow> sq_state x = snd c"
    "sq_state x \<in> {Succeeded, Cancelled, DeadLetter}" by (auto simp: candidate_ok_def)
  with row_by_id [OF inv r(1) x(1)] r have "r = x" by simp
  with x show "ordered r \<Longrightarrow> sq_state r = snd c" and s: "sq_state r \<in> {Succeeded, Cancelled, DeadLetter}" by auto
  show "older_done q r" if "ordered r" "b \<in> set q" "older r b"
    using under_done [OF inv r(1) that(1) _ that(2,3)] s by auto
qed

lemma purge_one_older_done:
  assumes inv: "queue_inv q" and c: "candidate_ok q c" and b: "b \<in> set q"
    and od: "\<And>a. a \<in> set q \<Longrightarrow> older a b \<Longrightarrow> sq_id a \<noteq> fst c \<Longrightarrow> terminal a \<or> cancelled_by q c a"
  shows "older_done (purge_one now q c) (purged_row now q c b)"
  unfolding older_done_def
proof (intro ballI impI)
  fix a' assume "a' \<in> set (purge_one now q c)" and o: "older a' (purged_row now q c b)"
  then obtain a where a: "a \<in> set q" "sq_id a \<noteq> fst c" "a' = purged_row now q c a"
    by (auto simp: purge_one_eq)
  with o have "older a b" by simp
  from od [OF a(1) this a(2)] a(3) show "terminal a'" by (auto simp: terminal_def)
qed

lemma purge_one_pred_ok:
  assumes inv: "queue_inv q" and c: "candidate_ok q c" and b: "b \<in> set q" "sq_id b \<noteq> fst c" "ordered b"
  shows "pred_ok (purge_one now q c) (purged_row now q c b)"
proof -
  have fin: "older_done (purge_one now q c) (purged_row now q c b)" if "older_done q b"
    using that by (intro purge_one_older_done [OF inv c b(1)]) (auto simp: older_done_def)
  show ?thesis
  proof (cases "sq_pred b")
    case None
    with row_okD(3) [OF inv b(1,3)] fin show ?thesis by (simp add: pred_ok_def)
  next
    case (Some p)
    with row_okD(3) [OF inv b(1,3)] obtain x where x: "x \<in> set q" "sq_id x = p" "older x b"
      "\<forall>a \<in> set q. older a b \<longrightarrow> a = x \<or> older a x" by (auto simp: pred_ok_def)
    show ?thesis
    proof (cases "p = fst c")
      case True
      with candidate_closed(3) [OF inv c x(1) _ _ b(1) x(3)] x ordered_older [OF x(3)] b(3) have od: "older_done q x" by simp
      have "older_done (purge_one now q c) (purged_row now q c b)"
      proof (rule purge_one_older_done [OF inv c b(1)])
        fix a assume "a \<in> set q" "older a b" "sq_id a \<noteq> fst c"
        with x True have "older a x" by auto
        with od \<open>a \<in> set q\<close> show "terminal a \<or> cancelled_by q c a" by (simp add: older_done_def)
      qed
      with Some True show ?thesis by (simp add: pred_ok_def)
    next
      case False
      have "purged_row now q c x \<in> set (purge_one now q c)" using x False by (auto simp: purge_one_eq)
      moreover have "a' = purged_row now q c x \<or> older a' (purged_row now q c x)"
        if "a' \<in> set (purge_one now q c)" "older a' (purged_row now q c b)" for a'
      proof -
        obtain a where "a \<in> set q" "a' = purged_row now q c a" using \<open>a' \<in> _\<close> by (auto simp: purge_one_eq)
        with that(2) x(4) show ?thesis by auto
      qed
      moreover have "older (purged_row now q c x) (purged_row now q c b)" using x(3) by simp
      ultimately show ?thesis using Some False x(2) unfolding pred_ok_def
        by (auto intro!: bexI [of _ "purged_row now q c x"])
    qed
  qed
qed

lemma purge_one_dep_ok:
  assumes inv: "queue_inv q" and c: "candidate_ok q c" and b: "b \<in> set q" "sq_id b \<noteq> fst c" "ordered b"
  shows "dep_ok (purge_one now q c) (purged_row now q c b)"
proof (cases "sq_dep b")
  case None
  then show ?thesis by (simp add: dep_ok_def dep_done_def)
next
  case (Some d)
  from row_okD(4) [OF inv b(1,3)] have ok: "dep_ok q b" .
  show ?thesis
  proof (cases "d = fst c")
    case True
    with Some show ?thesis by (simp add: dep_ok_def dep_done_def)
  next
    case False
    from ok Some obtain x where x: "x \<in> set q" "sq_id x = d" "ordered x" by (auto simp: dep_ok_def)
    have "purged_row now q c x \<in> set (purge_one now q c)" using x False by (auto simp: purge_one_eq)
    then have "\<exists>z \<in> set (purge_one now q c). sq_id z = d \<and> ordered z"
      using x(2,3) by (auto intro!: bexI [of _ "purged_row now q c x"])
    moreover have "a' = purged_row now q c b"
      if "a' \<in> set (purge_one now q c)" "sq_key a' = sq_key b" for a'
    proof -
      obtain a where "a \<in> set q" "a' = purged_row now q c a" using \<open>a' \<in> _\<close> by (auto simp: purge_one_eq)
      moreover from this have "a = b"
        using that(2) by (intro singleton_dep [OF inv b(1) Some]) simp_all
      ultimately show ?thesis by simp
    qed
    moreover have "dep_done (purge_one now q c) (purged_row now q c b)"
      if s: "sq_state (purged_row now q c b) \<notin> {Pending, Cancelled}"
    proof -
      have "sq_state b \<notin> {Pending, Cancelled}" using s by (auto split: if_splits)
      with ok Some obtain y where y: "y \<in> set q" "sq_id y = d" "sq_state y = Succeeded"
        by (auto simp: dep_ok_def dep_done_def)
      moreover have "ordered y" using row_by_id [OF inv y(1) x(1)] x(2,3) y(2) by simp
      ultimately have "\<not> cancelled_by q c y" using cancelled_by_waiting [OF inv c y(1)] by (auto simp: waiting_def)
      with y have "sq_state (purged_row now q c y) = Succeeded" by simp
      moreover have "purged_row now q c y \<in> set (purge_one now q c)" using y False by (auto simp: purge_one_eq)
      ultimately have "\<exists>z \<in> set (purge_one now q c). sq_id z = d \<and> sq_state z = Succeeded"
        using y(2) purged_row_simps(1) by blast
      then show ?thesis using Some False by (simp add: dep_done_def)
    qed
    ultimately show ?thesis using Some False by (auto simp: dep_ok_def)
  qed
qed

lemma purge_one_inv:
  assumes inv: "queue_inv q" and c: "candidate_ok q c"
  shows "queue_inv (purge_one now q c)"
proof -
  have "lease_ok (purged_row now q c b)" if "b \<in> set q" for b using row_okD(1) [OF inv that]
    by (auto simp: lease_ok_def purged_row_def unlink_row_def cancel_row_def)
  moreover have "order_ok (purge_one now q c) (purged_row now q c b)"
    if b: "b \<in> set q" "sq_id b \<noteq> fst c" "ordered b" for b
  proof -
    have "older_done (purge_one now q c) (purged_row now q c b)
        \<or> (sq_state (purged_row now q c b) = Cancelled \<and> top_row (purge_one now q c) (purged_row now q c b))"
      if s: "sq_state (purged_row now q c b) \<noteq> Pending"
    proof (cases "sq_state b = Cancelled \<and> top_row q b")
      case True
      then have "top_row (purge_one now q c) (purged_row now q c b)" by (auto simp: top_row_def purge_one_eq)
      with True show ?thesis by simp
    next
      case False
      have "older_done (purge_one now q c) (purged_row now q c b)"
      proof (rule purge_one_older_done [OF inv c b(1)])
        fix a assume a: "a \<in> set q" "older a b" "sq_id a \<noteq> fst c"
        show "terminal a \<or> cancelled_by q c a"
        proof (cases "cancelled_by q c b")
          case True
          with cancelled_by_older [OF inv c b(1,3)] a show ?thesis by blast
        next
          case nc: False
          with s row_okD(2) [OF inv b(1,3)] a False show ?thesis by (auto simp: older_done_def)
        qed
      qed
      then show ?thesis ..
    qed
    then show ?thesis using purge_one_pred_ok [OF inv c b] purge_one_dep_ok [OF inv c b]
      by (simp add: order_ok_def)
  qed
  moreover have "links_ok (purge_one now q c) (purged_row now q c b)"
    if b: "b \<in> set q" "\<not> ordered b" for b
  proof -
    have "\<exists>z \<in> set (purge_one now q c). sq_id z = p \<and> \<not> ordered z" if p: "sq_pred b = Some p" "p \<noteq> fst c" for p
    proof -
      from row_okD(7) [OF inv b] p obtain x where x: "x \<in> set q" "sq_id x = p" "\<not> ordered x" by (auto simp: links_ok_def)
      then have "purged_row now q c x \<in> set (purge_one now q c)" using p(2) by (auto simp: purge_one_eq)
      with x show ?thesis by (auto intro!: bexI [of _ "purged_row now q c x"])
    qed
    with row_okD(7) [OF inv b] show ?thesis by (auto simp: links_ok_def)
  qed
  ultimately have "row_ok (purge_one now q c) (purged_row now q c b)" if "b \<in> set q" "sq_id b \<noteq> fst c" for b
    using that by (simp add: row_ok_def)
  moreover have "distinct (map sq_id (purge_one now q c))"
    using inv by (simp add: purge_one_eq o_def queue_inv_def distinct_map_filter)
  moreover have "distinct (map (\<lambda>r. (sq_key r, sq_version r)) (purge_one now q c))"
    using inv by (simp add: purge_one_eq o_def queue_inv_def distinct_map_filter)
  ultimately show ?thesis by (auto simp: queue_inv_def purge_one_eq)
qed

lemma candidate_stays:
  assumes inv: "queue_inv q" and c: "candidate_ok q c" and d: "candidate_ok q d" "fst d \<noteq> fst c"
  shows "candidate_ok (purge_one now q c) d"
proof -
  from d obtain x where x: "x \<in> set q" "sq_id x = fst d" "ordered x \<longrightarrow> sq_state x = snd d"
    "sq_state x \<in> {Succeeded, Cancelled, DeadLetter}" "snd d \<in> {Succeeded, Cancelled, DeadLetter}"
    by (auto simp: candidate_ok_def)
  have "ordered x \<longrightarrow> sq_state (purged_row now q c x) = snd d"
    using cancelled_by_waiting [OF inv c x(1)] x by (auto simp: waiting_def)
  moreover have "sq_state (purged_row now q c x) \<in> {Succeeded, Cancelled, DeadLetter}" using x(4) by simp
  moreover have "purged_row now q c x \<in> set (purge_one now q c)" using x d(2) by (auto simp: purge_one_eq)
  ultimately show ?thesis using x by (auto simp: candidate_ok_def intro!: bexI [of _ "purged_row now q c x"])
qed

lemma purge_fold_inv:
  assumes "queue_inv q" "\<forall>c \<in> set cs. candidate_ok q c" "distinct (map fst cs)"
  shows "queue_inv (foldl (purge_one now) q cs)"
  using assms
proof (induction cs arbitrary: q)
  case (Cons c cs)
  have "\<forall>d \<in> set cs. candidate_ok (purge_one now q c) d"
  proof
    fix d assume "d \<in> set cs"
    moreover have "fst c \<notin> fst ` set cs" using Cons.prems(3) by simp
    ultimately have "fst d \<noteq> fst c" by (metis image_eqI)
    with Cons.prems \<open>d \<in> set cs\<close> show "candidate_ok (purge_one now q c) d" by (auto intro: candidate_stays)
  qed
  with Cons show ?case by (auto intro: purge_one_inv)
qed simp

lemma purge_candidates_ok:
  assumes "queue_inv q"
  shows "\<forall>c \<in> set (purge_candidates q now sd dd). candidate_ok q c"
    "distinct (map fst (purge_candidates q now sd dd))"
proof -
  show "\<forall>c \<in> set (purge_candidates q now sd dd). candidate_ok q c"
    by (auto simp: purge_candidates_def purge_candidate_def candidate_ok_def)
  have "distinct (map sq_id (filter P q))" for P
    using assms by (simp add: queue_inv_def distinct_map_filter)
  then have "distinct q'" "inj_on sq_id (set q')" if "q' = filter P q" for q' P
    using that distinct_map by blast+
  then show "distinct (map fst (purge_candidates q now sd dd))"
    by (simp add: purge_candidates_def o_def distinct_map)
qed

lemma purge_inv [inv_intros]:
  assumes "queue_inv q"
  shows "queue_inv (fst (purge_retained q now sd dd))"
  using purge_fold_inv [OF assms purge_candidates_ok [OF assms]] by (simp add: purge_retained_def Let_def)

subsection \<open>Runs\<close>

lemma q_step_inv:
  assumes "queue_inv q" "op_ok q op"
  shows "queue_inv (q_step L q op)"
proof (cases op)
  case (Enqueue uuid now endpoint payload key m dep)
  with assms enqueue_inv show ?thesis by simp
next
  case (Claim token now owner limit key)
  with assms claim_inv show ?thesis by (fastforce split: sum.splits prod.splits)
next
  case (Revoke uuid token now payload m s)
  with assms(2) have "op_ok q (Revoke uuid token now payload m s)" by simp
  with revoke_inv [OF assms(1) this] Revoke show ?thesis by simp
qed (use assms cancel_revocations_inv cancel_newest_inv in \<open>auto intro: inv_intros\<close>)

lemma q_run_inv: "queue_inv q \<Longrightarrow> run_ok L q ops \<Longrightarrow> queue_inv (q_run L q ops)"
  by (induction ops arbitrary: q) (auto simp: q_step_inv)

subsection \<open>Properties\<close>


definition demo_ops :: "unit queue_op list" where
  "demo_ops = [Enqueue ''a'' 0 ''/c'' () ''k'' 8 None, Claim ''t'' 1 ''w'' 10 None,
     Enqueue ''b'' 2 ''/c'' () ''k'' 8 None]"

lemmas queue_eval = enqueue_def latest_row_def new_row_def claim_def claimed_ids_def claimable_def
  pred_done_def dep_done_def expire_leases_def update_where_def by_age_def lease_row_def Let_def
  coalescable_def seconds_def sql_less_def

lemma demo_run:
  "q_run 60 [] demo_ops =
     [(new_row ''a'' ''/c'' () ''k'' 1 None None 8 0)\<lparr>sq_state := Inflight, sq_token := Some ''t'',
         sq_owner := Some ''w'', sq_lease := Some 60000001, sq_last_attempt := Some 1, sq_attempts := 1\<rparr>,
      new_row ''b'' ''/c'' () ''k'' 2 (Some ''a'') None 8 2]"
  "run_ok 60 [] demo_ops"
  by (simp_all add: demo_ops_def queue_eval)


text \<open>
  Two revocations at once: a logout, a login while the logout's request is still under way, and a
  second logout lease two rows of \<open>session:revoke\<close> at the same time, the newer before the older
  is finished. \<open>begin_revocation\<close> asks neither for the predecessor nor for the state of the queue.
\<close>

lemma logouts_overlap:
  "map (\<lambda>r. (sq_key r, sq_version r, sq_state r))
     (q_run 60 [] [Revoke ''a'' ''t'' 0 () 8 60, CancelRevocations 1, Revoke ''b'' ''u'' 2 () 8 60])
   = [(revoke_key, 1, Inflight), (revoke_key, 2, Inflight)]"
  "run_ok 60 [] [Revoke ''a'' ''t'' 0 () 8 60, CancelRevocations 1, Revoke ''b'' ''u'' 2 () 8 60]"
  by (simp_all add: queue_eval lease_new_def cancel_revocations_def)


lemma q_run_append:
  "q_run L q (ops @ ops') = q_run L (q_run L q ops) ops'"
  "run_ok L q (ops @ ops') \<longleftrightarrow> run_ok L q ops \<and> run_ok L (q_run L q ops) ops'"
  by (induction ops arbitrary: q) auto

definition demo_more :: "unit queue_op list" where
  "demo_more = demo_ops @ [Complete ''a'' ''t'' ''w'' 3, Claim ''u'' 4 ''w'' 10 None]"

lemma demo_more_run:
  "map (\<lambda>r. (sq_id r, sq_key r, sq_version r, sq_state r)) (q_run 60 [] demo_more)
     = [(''a'', ''k'', 1, Succeeded), (''b'', ''k'', 2, Inflight)]"
  "run_ok 60 [] demo_more"
  by (simp_all add: demo_more_def q_run_append demo_run complete_def owned_def sql_greater_def succeed_row_def queue_eval)


text \<open>
  A camera deleted before its registration is confirmed: the rename is withdrawn while the
  registration is still leased.
\<close>

lemma deletion_overtakes:
  "map (\<lambda>r. (sq_version r, sq_state r)) (q_run 60 [] (demo_ops @ [CancelNewest 3 ''k'']))
     = [(1, Inflight), (2, Cancelled)]"
  by (simp add: q_run_append demo_run cancel_newest_def cancel_with_dependents_def queue_eval)

end
