(* ===== verification/Sync_Leases.thy ===== *)
theory Sync_Leases
  imports Sync_Order
begin

section \<open>Leases, payloads, dependencies and retries of the queue\<close>

text \<open>
  What a lease protects, what never changes once a row was leased, why purging old rows cannot
  release work that waits for an undelivered row, and how failures end in the dead letters.
\<close>

lemma in_update_where:
  "r \<in> set q \<Longrightarrow> (if P r then f r else r) \<in> set (update_where P f q)"
  by (auto simp: update_where_def)

lemma in_update_other: "r \<in> set q \<Longrightarrow> \<not> P r \<Longrightarrow> r \<in> set (update_where P f q)"
  using in_update_where [of r q P f] by simp

lemma update_whereE:
  assumes "r' \<in> set (update_where P f q)"
  obtains r where "r \<in> set q" "r' = (if P r then f r else r)"
  using assms by (auto simp: update_where_def)

subsection \<open>A leased row belongs to its holder\<close>

text \<open>The steps that are not the holder's own and not a claim after the lease ran out.\<close>

fun foreign :: "'p sync_row \<Rightarrow> 'p queue_op \<Rightarrow> bool" where
  "foreign r (Claim token now owner limit key) \<longleftrightarrow> (\<exists>e. sq_lease r = Some e \<and> now \<le> e)"
| "foreign r (Complete item token owner now) \<longleftrightarrow> (sq_id r, sq_token r, sq_owner r) \<noteq> (item, Some token, Some owner)"
| "foreign r (Fail item token owner code message permanent now) \<longleftrightarrow>
     (sq_id r, sq_token r, sq_owner r) \<noteq> (item, Some token, Some owner)"
| "foreign r _ \<longleftrightarrow> True"

definition same_but_links :: "'p sync_row \<Rightarrow> 'p sync_row \<Rightarrow> bool" where
  "same_but_links r r' \<longleftrightarrow>
     r'\<lparr>sq_pred := None, sq_dep := None\<rparr> = r\<lparr>sq_pred := None, sq_dep := None\<rparr>"

lemma same_but_links_refl [simp]: "same_but_links r r"
  by (simp add: same_but_links_def)

lemma same_but_links_trans: "same_but_links a b \<Longrightarrow> same_but_links b c \<Longrightarrow> same_but_links a c"
  by (simp add: same_but_links_def)

lemma same_but_links_state:
  assumes "same_but_links a b"
  shows "sq_state b = sq_state a \<and> sq_id b = sq_id a"
proof -
  from assms have "sq_state (b\<lparr>sq_pred := None, sq_dep := None\<rparr>) = sq_state (a\<lparr>sq_pred := None, sq_dep := None\<rparr>)"
    "sq_id (b\<lparr>sq_pred := None, sq_dep := None\<rparr>) = sq_id (a\<lparr>sq_pred := None, sq_dep := None\<rparr>)"
    by (simp_all add: same_but_links_def)
  then show ?thesis by simp
qed

lemma candidates_stay:
  assumes "queue_inv q" "candidate_ok q c" "\<forall>d \<in> set cs. candidate_ok q d" "fst c \<notin> fst ` set cs"
  shows "\<forall>d \<in> set cs. candidate_ok (purge_one now q c) d"
proof
  fix d assume d: "d \<in> set cs"
  with assms(4) have "fst d \<noteq> fst c" by (metis image_eqI)
  with assms d show "candidate_ok (purge_one now q c) d" by (auto intro: candidate_stays)
qed

lemma purge_one_keeps_lease:
  assumes inv: "queue_inv q" and c: "candidate_ok q c" and r: "r \<in> set q" "sq_state r = Inflight"
  shows "\<exists>r' \<in> set (purge_one now q c). same_but_links r r'"
proof -
  have "sq_id r \<noteq> fst c" using candidate_closed(2) [OF inv c r(1)] r(2) by auto
  then have "purged_row now q c r \<in> set (purge_one now q c)" using r(1) by (auto simp: purge_one_eq)
  moreover have "same_but_links r (purged_row now q c r)"
    using r(2) by (auto simp: purged_row_def cancelled_by_def unlink_row_def same_but_links_def)
  ultimately show ?thesis by blast
qed

lemma purge_fold_keeps_lease:
  assumes "queue_inv q" "\<forall>c \<in> set cs. candidate_ok q c" "distinct (map fst cs)"
    and "r \<in> set q" "sq_state r = Inflight"
  shows "\<exists>r' \<in> set (foldl (purge_one now) q cs). same_but_links r r'"
  using assms
proof (induction cs arbitrary: q r)
  case (Cons c cs)
  from purge_one_keeps_lease [of q c r now] Cons.prems
  obtain s where s: "s \<in> set (purge_one now q c)" "same_but_links r s" by auto
  have "queue_inv (purge_one now q c)" using Cons.prems by (auto intro: purge_one_inv)
  moreover have "\<forall>d \<in> set cs. candidate_ok (purge_one now q c) d"
    using Cons.prems by (intro candidates_stay) auto
  moreover have "sq_state s = Inflight" using same_but_links_state [OF s(2)] Cons.prems(5) by simp
  ultimately obtain r' where "r' \<in> set (foldl (purge_one now) (purge_one now q c) cs)" "same_but_links s r'"
    using Cons.IH [of "purge_one now q c" s] Cons.prems(3) s(1) by auto
  with same_but_links_trans [OF s(2)] show ?case by auto
next
  case Nil
  then show ?case by (intro bexI [of _ r]) simp_all
qed

lemma claim_keeps_lease:
  assumes "r \<in> set q" "sq_state r = Inflight" "sq_lease r = Some e" "now \<le> e"
    and "claim L q token now owner limit key = Inr (q', rows)"
  shows "r \<in> set q'"
proof -
  have x: "r \<in> set (expire_leases now q)"
    unfolding expire_leases_def by (rule in_update_other) (use assms in \<open>simp_all add: sql_less_def\<close>)
  have "r \<in> set (update_where (\<lambda>r. sq_id r \<in> set ids \<and> sq_state r \<in> {Pending, RetryWait})
      (lease_row token owner e' now) (expire_leases now q))" for ids e'
    by (rule in_update_other [OF x]) (use assms in simp)
  with x assms(5) show ?thesis by (auto simp: claim_def Let_def split: if_splits)
qed

lemma enqueue_keeps_lease:
  assumes "r \<in> set q" "sq_state r = Inflight"
  shows "r \<in> set (fst (enqueue q uuid now endpoint payload key m dep))"
  using assms by (auto simp: enqueue_def split: option.splits intro!: in_update_other)

text \<open>
  C3. A lease is exclusive: until it expires, no operation of anybody but its holder changes the
  leased row or removes it; a purge may only drop its links to purged rows.
\<close>

theorem leased_row_is_stable:
  assumes inv: "queue_inv q" and r: "r \<in> set q" "sq_state r = Inflight" and f: "foreign r op"
  shows "\<exists>r' \<in> set (q_step L q op). same_but_links r r'"
proof -
  have keep: ?thesis if "r \<in> set (q_step L q op)" using that same_but_links_refl by blast
  show ?thesis
  proof (cases op)
    case (Enqueue uuid now endpoint payload key m dep)
    show ?thesis by (rule keep)
      (use r Enqueue enqueue_keeps_lease in simp)
  next
    case (Claim token now owner limit key)
    then have "r \<in> set (q_step L q op)"
      using claim_keeps_lease [OF r] f r(1) by (auto split: sum.splits)
    then show ?thesis by (rule keep)
  next
    case (Complete item token owner now)
    show ?thesis by (rule keep)
      (use r f Complete in \<open>auto simp: complete_def owned_def intro!: in_update_other\<close>)
  next
    case (Fail item token owner code message permanent now)
    show ?thesis by (rule keep)
      (use r f Fail in \<open>auto simp: fail_def Let_def split: option.splits intro!: in_update_other\<close>)
  next
    case (RetryDead item now)
    show ?thesis by (rule keep)
      (use r RetryDead in \<open>auto simp: retry_dead_letter_def dead_with_id_def intro!: in_update_other\<close>)
  next
    case (DiscardDead item now)
    show ?thesis by (rule keep)
      (use r DiscardDead in \<open>auto simp: discard_dead_letter_def dead_with_id_def intro!: in_update_other\<close>)
  next
    case (Purge now sd dd)
    with purge_fold_keeps_lease [OF inv purge_candidates_ok [OF inv] r] show ?thesis
      by (simp add: purge_retained_def Let_def)
  next
    case (Revoke uuid token now payload m s)
    obtain q1 item where e: "enqueue q uuid now ''/api/v1/auth/logout'' payload revoke_key m None = (q1, item)"
      by (metis prod.collapse)
    have "r \<in> set q1" using enqueue_keeps_lease [OF r, of uuid now _ payload revoke_key m None] e by (metis fst_conv)
    then have "r \<in> set (lease_new item token ''auth-logout'' (now + seconds s) now q1)"
      unfolding lease_new_def by (rule in_update_other) (use r in simp)
    with e Revoke show ?thesis by (intro keep) simp
  next
    case (CancelRevocations now)
    show ?thesis by (rule keep)
      (use r CancelRevocations in \<open>auto simp: cancel_revocations_def intro!: in_update_other\<close>)
  next
    case (CancelNewest now key)
    show ?thesis by (rule keep)
      (use r CancelNewest in \<open>auto simp: cancel_newest_def cancel_with_dependents_def split: option.splits intro!: in_update_other\<close>)
  qed
qed

theorem leased_row_is_stable_witness:
  "\<exists>r' \<in> set (q_step 60 (q_run 60 [] demo_ops) (Claim ''u'' 5 ''x'' 10 None)).
     same_but_links (hd (q_run 60 [] demo_ops)) r'"
  by (rule leased_row_is_stable) (simp_all add: demo_run q_run_inv [OF queue_inv_Nil demo_run(2), unfolded demo_run(1)])

subsection \<open>A payload that was leased is immutable\<close>

definition content :: "'p sync_row \<Rightarrow> string \<times> 'p \<times> string \<times> int \<times> int \<times> time" where
  "content r = (sq_endpoint r, sq_payload r, sq_key r, sq_version r, sq_max r, sq_created r)"

definition kept :: "'p sync_row \<Rightarrow> 'p sync_row \<Rightarrow> bool" where
  "kept r r' \<longleftrightarrow> content r' = content r \<and> sq_last_attempt r' \<noteq> None"

lemma kept_update:
  assumes inv: "queue_inv q" and r: "r \<in> set q" "sq_last_attempt r \<noteq> None"
    and f: "\<And>s. s \<in> set q \<Longrightarrow> P s \<Longrightarrow> sq_id (f s) = sq_id s"
      "P r \<Longrightarrow> content (f r) = content r \<and> sq_last_attempt (f r) \<noteq> None"
    and r': "r' \<in> set (update_where P f q)" "sq_id r' = sq_id r"
  shows "kept r r'"
proof -
  from r'(1) obtain s where s: "s \<in> set q" "r' = (if P s then f s else s)" by (rule update_whereE)
  then have "sq_id s = sq_id r" using r'(2) f(1) by (auto split: if_splits)
  then have "s = r" using row_by_id [OF inv s(1) r(1)] by simp
  with s f(2) r(2) show ?thesis by (auto simp: kept_def)
qed

lemma purge_one_kept:
  assumes inv: "queue_inv q" and r: "r \<in> set q" "sq_last_attempt r \<noteq> None"
    and r': "r' \<in> set (purge_one now q c)" "sq_id r' = sq_id r"
  shows "kept r r'"
proof -
  from r'(1) obtain s where s: "s \<in> set q" "r' = purged_row now q c s" by (auto simp: purge_one_eq)
  with r'(2) have "s = r" using row_by_id [OF inv s(1) r(1)] by simp
  with s r(2) show ?thesis by (auto simp: kept_def content_def purged_row_def unlink_row_def cancel_row_def)
qed

lemma purge_fold_ids: "sq_id ` set (foldl (purge_one now) q cs) \<subseteq> sq_id ` set q"
proof (induction cs arbitrary: q)
  case (Cons c cs)
  have "sq_id ` set (purge_one now q c) \<subseteq> sq_id ` set q" by (auto simp: purge_one_eq)
  with Cons [of "purge_one now q c"] show ?case by simp
qed simp

lemma purge_fold_kept:
  assumes "queue_inv q" "\<forall>c \<in> set cs. candidate_ok q c" "distinct (map fst cs)"
    and "r \<in> set q" "sq_last_attempt r \<noteq> None"
    and "r' \<in> set (foldl (purge_one now) q cs)" "sq_id r' = sq_id r"
  shows "kept r r'"
  using assms
proof (induction cs arbitrary: q r)
  case Nil
  then have "r' = r" using row_by_id [of q r' r] by simp
  with Nil show ?case by (simp add: kept_def)
next
  case (Cons c cs)
  have inv: "queue_inv (purge_one now q c)" using Cons.prems by (auto intro: purge_one_inv)
  have cand: "\<forall>d \<in> set cs. candidate_ok (purge_one now q c) d"
    using Cons.prems by (intro candidates_stay) auto
  have "sq_id r' \<in> sq_id ` set (foldl (purge_one now) (purge_one now q c) cs)" using Cons.prems(6) by simp
  with purge_fold_ids [of now "purge_one now q c" cs] obtain s where s: "s \<in> set (purge_one now q c)" "sq_id s = sq_id r"
    using Cons.prems(7) by (metis (no_types, lifting) image_iff subsetD)
  have k: "kept r s" using purge_one_kept [OF Cons.prems(1,4,5) s] .
  then have "sq_last_attempt s \<noteq> None" by (simp add: kept_def)
  then have "kept s r'" using Cons.IH [OF inv cand _ s(1)] Cons.prems s(2) by simp
  with k show ?case by (simp add: kept_def)
qed

lemma new_row_id: "sq_id (new_row uuid endpoint payload key v pred dep m now) = uuid"
  by (simp add: new_row_def)

lemma enqueue_kept:
  assumes inv: "queue_inv q" and fresh: "uuid \<notin> sq_id ` set q" and r: "r \<in> set q" "sq_last_attempt r \<noteq> None"
    and e: "enqueue q uuid now endpoint payload key m dep = (q', i)" and r': "r' \<in> set q'" "sq_id r' = sq_id r"
  shows "kept r r'" "r \<in> set q'" "sq_id r \<noteq> i"
proof -
  have new: "kept r r' \<and> r \<in> set q' \<and> sq_id r \<noteq> i" if "q' = q @ [n]" "i = uuid" "sq_id n = uuid" for n
  proof -
    have "r' \<in> set q" using r' that fresh r(1) by (metis Un_iff empty_iff image_eqI insert_iff list.set(1) list.set(2) set_append)
    moreover have "sq_id r \<noteq> uuid" using r(1) fresh by (metis image_eqI)
    ultimately show ?thesis using row_by_id [OF inv _ r(1) r'(2)] r that by (auto simp: kept_def)
  qed
  have "kept r r' \<and> r \<in> set q' \<and> sq_id r \<noteq> i"
  proof (cases "latest_row q key")
    case None
    have f: "enqueue q uuid now endpoint payload key m dep = (q @ [new_row uuid endpoint payload key 1 None dep m now], uuid)"
      by (simp add: enqueue_def None)
    show ?thesis by (rule new [OF _ _ new_row_id]) (use trans [OF e [symmetric] f] in blast)+
  next
    case (Some l)
    note l = latest_row_Some [OF Some]
    show ?thesis
    proof (cases "coalescable l")
      case True
      let ?P = "\<lambda>r. sq_id r = sq_id l \<and> sq_state r \<in> {Pending, RetryWait}"
      let ?f = "coalesce_row endpoint payload dep now l"
      have f: "enqueue q uuid now endpoint payload key m dep = (update_where ?P ?f q, sq_id l)"
        by (simp add: enqueue_def Some True)
      from trans [OF e [symmetric] f] have q': "q' = update_where ?P ?f q" "i = sq_id l" by blast+
      have n: "sq_id r \<noteq> sq_id l"
      proof
        assume "sq_id r = sq_id l"
        with row_by_id [OF inv r(1) l(1)] True r(2) show False by (simp add: coalescable_def)
      qed
      have "kept r r'" by (rule kept_update [OF inv r _ _ r'(1) [unfolded q'(1)] r'(2)])
        (use n in \<open>auto simp: coalesce_row_def\<close>)
      moreover have "r \<in> set q'" unfolding q'(1) by (rule in_update_other [OF r(1)]) (use n in simp)
      ultimately show ?thesis using n q'(2) by simp
    next
      case False
      let ?n = "new_row uuid endpoint payload key (sq_version l + 1) (Some (sq_id l)) dep m now"
      have f: "enqueue q uuid now endpoint payload key m dep = (q @ [?n], uuid)"
        by (simp add: enqueue_def Some False)
      show ?thesis by (rule new [OF _ _ new_row_id]) (use trans [OF e [symmetric] f] in blast)+
    qed
  qed
  then show "kept r r'" "r \<in> set q'" "sq_id r \<noteq> i" by simp_all
qed

text \<open>
  The successor rule of \<open>_enqueue\<close>: once a row has been leased its endpoint, payload, key and
  version never change again, under any operation; newer work on the key becomes a new row.
\<close>

theorem leased_payload_immutable:
  assumes inv: "queue_inv q" and ok: "op_ok q op" and r: "r \<in> set q" "sq_last_attempt r \<noteq> None"
    and r': "r' \<in> set (q_step L q op)" "sq_id r' = sq_id r"
  shows "content r' = content r \<and> sq_last_attempt r' \<noteq> None"
proof -
  have same: "kept r r'" if "r' \<in> set q"
    using row_by_id [OF inv that r(1) r'(2)] r(2) by (simp add: kept_def)
  have "kept r r'"
  proof (cases op)
    case (Enqueue uuid now endpoint payload key m dep)
    obtain q1 i where e: "enqueue q uuid now endpoint payload key m dep = (q1, i)" by (metis prod.collapse)
    with Enqueue r'(1) have m: "r' \<in> set q1" by simp
    show ?thesis by (rule enqueue_kept(1) [OF inv _ r e m r'(2)]) (use ok Enqueue in simp)
  next
    case (Claim token now owner limit key)
    show ?thesis
    proof (cases "claim L q token now owner limit key")
      case (Inl e)
      with Claim r'(1) show ?thesis by (auto intro: same)
    next
      case (Inr res)
      obtain q' rows where res: "res = (q', rows)" by (cases res)
      have inv1: "queue_inv (expire_leases now q)" by (rule expire_leases_inv [OF inv])
      define s where "s = (if sq_state r = Inflight \<and> sql_less (sq_lease r) now then expire_row now r else r)"
      have s: "s \<in> set (expire_leases now q)" "sq_id s = sq_id r" "kept r s"
        using r in_update_where [OF r(1), of "\<lambda>r. sq_state r = Inflight \<and> sql_less (sq_lease r) now" "expire_row now"]
        by (auto simp: s_def expire_leases_def expire_row_def kept_def content_def)
      have "kept s r'" if "r' \<in> set (expire_leases now q)"
        using row_by_id [OF inv1 that s(1)] r'(2) s by (simp add: kept_def)
      moreover have "kept s r'" if "r' \<in> set (update_where (\<lambda>r. sq_id r \<in> set ids \<and> sq_state r \<in> {Pending, RetryWait})
          (lease_row token owner e now) (expire_leases now q))" for ids e
        using s that r'(2)
        by (intro kept_update [OF inv1 s(1) _ _ _ that]) (auto simp: lease_row_def content_def kept_def)
      ultimately have "kept s r'" using Inr res Claim r'(1)
        by (auto simp: claim_def Let_def split: if_splits)
      with s(3) show ?thesis by (simp add: kept_def)
    qed
  next
    case (Complete item token owner now)
    with r'(1) have u: "r' \<in> set (update_where (owned item token owner now) (succeed_row now) q)"
      by (simp add: complete_def)
    show ?thesis by (rule kept_update [OF inv r _ _ u r'(2)]) (simp_all add: succeed_row_def content_def r)
  next
    case (Fail item token owner code message permanent now)
    have u: "kept r r'" if "r' \<in> set (update_where (\<lambda>r. sq_id r = item \<and> sq_token r = Some token \<and> sq_owner r = Some owner)
        (fail_row dead code message permanent delay now) q)" for dead delay
      by (rule kept_update [OF inv r _ _ that r'(2)]) (simp_all add: fail_row_def content_def r)
    show ?thesis
    proof (cases "List.find (owned item token owner now) q")
      case None
      with Fail r'(1) show ?thesis by (auto simp: fail_def intro: same)
    next
      case (Some row)
      with Fail r'(1) show ?thesis by (auto simp: fail_def Let_def intro: u)
    qed
  next
    case (RetryDead item now)
    with r'(1) have u: "r' \<in> set (update_where (dead_with_id item) (revive_row now) q)"
      by (simp add: retry_dead_letter_def)
    show ?thesis by (rule kept_update [OF inv r _ _ u r'(2)]) (simp_all add: revive_row_def content_def r)
  next
    case (DiscardDead item now)
    with r'(1) have u: "r' \<in> set (update_where (dead_with_id item)
        (\<lambda>r. r\<lparr>sq_state := Cancelled, sq_completed_at := Some now\<rparr>) q)"
      by (simp add: discard_dead_letter_def)
    show ?thesis by (rule kept_update [OF inv r _ _ u r'(2)]) (simp_all add: content_def r)
  next
    case (Purge now sd dd)
    with purge_fold_kept [OF inv purge_candidates_ok [OF inv] r _ r'(2)] r'(1) show ?thesis
      by (simp add: purge_retained_def Let_def)
  next
    case (Revoke uuid token now payload m s)
    have fresh: "uuid \<notin> sq_id ` set q" using ok Revoke by simp
    obtain q1 item where e: "enqueue q uuid now ''/api/v1/auth/logout'' payload revoke_key m None = (q1, item)"
      by (metis prod.collapse)
    have u: "r' \<in> set (lease_new item token ''auth-logout'' (now + seconds s) now q1)"
      using r'(1) Revoke e by simp
    then obtain r1 where r1: "r1 \<in> set q1" "r' = (if sq_id r1 = item \<and> sq_state r1 = Pending
        then lease_row token ''auth-logout'' (now + seconds s) now r1 else r1)"
      unfolding lease_new_def by (rule update_whereE)
    then have id: "sq_id r1 = sq_id r" using r'(2) by (auto simp: lease_row_def split: if_splits)
    from enqueue_kept [OF inv fresh r e r1(1) id] have "kept r r1" "sq_id r \<noteq> item" by blast+
    with r1(2) id show ?thesis by simp
  next
    case (CancelRevocations now)
    with r'(1) have u: "r' \<in> set (cancel_revocations now q)" by simp
    show ?thesis by (rule kept_update [OF inv r _ _ u [unfolded cancel_revocations_def] r'(2)])
      (simp_all add: content_def r)
  next
    case (CancelNewest now key)
    have u: "kept r r'" if "r' \<in> set (cancel_with_dependents now item q)" for item
      by (rule kept_update [OF inv r _ _ that [unfolded cancel_with_dependents_def] r'(2)])
        (simp_all add: content_def r)
    with CancelNewest r'(1) same show ?thesis by (auto simp: cancel_newest_def split: option.splits if_splits)
  qed
  then show ?thesis by (simp add: kept_def)
qed

lemma demo_run_inv: "queue_inv (q_run 60 [] demo_ops)"
  by (rule q_run_inv [OF queue_inv_Nil demo_run(2)])

theorem leased_payload_immutable_witness:
  "content (hd (q_step 60 (q_run 60 [] demo_ops) (Complete ''a'' ''t'' ''w'' 3))) = (''/c'', (), ''k'', 1, 8, 0)"
proof -
  have "content (hd (q_step 60 (q_run 60 [] demo_ops) (Complete ''a'' ''t'' ''w'' 3)))
      = content (hd (q_run 60 [] demo_ops))
    \<and> sq_last_attempt (hd (q_step 60 (q_run 60 [] demo_ops) (Complete ''a'' ''t'' ''w'' 3))) \<noteq> None"
    by (rule leased_payload_immutable [OF demo_run_inv, where L = 60 and op = "Complete ''a'' ''t'' ''w'' 3"]) (simp_all add: demo_run new_row_def complete_def
        update_where_def owned_def sql_greater_def succeed_row_def)
  then show ?thesis by (simp add: demo_run content_def new_row_def)
qed

subsection \<open>Purging never releases work that waits for an undelivered row\<close>

definition unreleased :: "'p queue \<Rightarrow> ident \<Rightarrow> 'p sync_row \<Rightarrow> bool" where
  "unreleased q d b \<longleftrightarrow> sq_state b = Cancelled \<or> (sq_dep b = Some d \<and> \<not> dep_done q b)"

lemma purge_one_unreleased:
  assumes inv: "queue_inv q" and c: "candidate_ok q c" and b: "b \<in> set q" "sq_id b \<noteq> fst c"
    and u: "unreleased q d b"
  shows "unreleased (purge_one now q c) d (purged_row now q c b)"
proof (cases "sq_state b = Cancelled")
  case True
  then show ?thesis by (simp add: unreleased_def)
next
  case False
  with u have d: "sq_dep b = Some d" "\<not> dep_done q b" by (auto simp: unreleased_def)
  with row_okD(5) [OF inv b(1)] False have p: "sq_state b = Pending" by auto
  show ?thesis
  proof (cases "fst c = d")
    case True
    from c obtain x where x: "x \<in> set q" "sq_id x = fst c" "ordered x \<longrightarrow> sq_state x = snd c"
      "snd c \<in> {Succeeded, Cancelled, DeadLetter}" by (auto simp: candidate_ok_def)
    have "ordered b" using row_okD(6) [OF inv b(1)] d by simp
    then have "ordered x" using linked_ordered [OF inv x(1) b(1)] x(2) d True by simp
    with x(1-3) d True have "snd c \<noteq> Succeeded" by (auto simp: dep_done_def)
    moreover have "sq_id b \<in> descendants q (fst c)"
      using b(1) d True by (auto simp: descendants_def links_iff intro!: r_into_trancl)
    ultimately have "cancelled_by q c b" using x(4) d True p by (auto simp: cancelled_by_def)
    then show ?thesis by (simp add: unreleased_def)
  next
    case False
    have "\<not> dep_done (purge_one now q c) (purged_row now q c b)"
    proof
      assume "dep_done (purge_one now q c) (purged_row now q c b)"
      with d False obtain y' where y': "y' \<in> set (purge_one now q c)" "sq_id y' = d" "sq_state y' = Succeeded"
        by (auto simp: dep_done_def)
      then obtain y where "y \<in> set q" "y' = purged_row now q c y" by (auto simp: purge_one_eq)
      with y' have "y \<in> set q" "sq_id y = d" "sq_state y = Succeeded" by (auto split: if_splits)
      with d show False by (auto simp: dep_done_def)
    qed
    with d False show ?thesis by (simp add: unreleased_def)
  qed
qed

lemma purge_fold_unreleased:
  assumes "queue_inv q" "\<forall>c \<in> set cs. candidate_ok q c" "distinct (map fst cs)"
    and "b \<in> set q" "unreleased q d b"
    and "b' \<in> set (foldl (purge_one now) q cs)" "sq_id b' = sq_id b"
  shows "unreleased (foldl (purge_one now) q cs) d b'"
  using assms
proof (induction cs arbitrary: q b)
  case Nil
  then have "b' = b" using row_by_id [of q b' b] by simp
  with Nil show ?case by simp
next
  case (Cons c cs)
  have inv: "queue_inv (purge_one now q c)" using Cons.prems by (auto intro: purge_one_inv)
  have cand: "\<forall>d \<in> set cs. candidate_ok (purge_one now q c) d"
    using Cons.prems by (intro candidates_stay) auto
  have "sq_id b' \<in> sq_id ` set (foldl (purge_one now) (purge_one now q c) cs)" using Cons.prems(6) by simp
  with purge_fold_ids [of now "purge_one now q c" cs]
  have "sq_id b \<in> sq_id ` set (purge_one now q c)" using Cons.prems(7) by auto
  then have ne: "sq_id b \<noteq> fst c" by (auto simp: purge_one_eq)
  then have "purged_row now q c b \<in> set (purge_one now q c)" using Cons.prems(4) by (auto simp: purge_one_eq)
  moreover have "unreleased (purge_one now q c) d (purged_row now q c b)"
    using purge_one_unreleased [OF Cons.prems(1) _ Cons.prems(4) ne Cons.prems(5)] Cons.prems(2) by simp
  ultimately show ?case using Cons.IH [OF inv cand, of "purged_row now q c b"] Cons.prems by simp
qed

text \<open>
  Purging keeps dependencies: a row whose dependency was not delivered (an event of a camera
  the centre never accepted) is, after any purge, cancelled or still waiting for that dependency.
\<close>

theorem purge_keeps_dependency:
  assumes "queue_inv q" "b \<in> set q" "sq_dep b = Some d" "\<not> dep_done q b"
    and "b' \<in> set (fst (purge_retained q now sd dd))" "sq_id b' = sq_id b"
  shows "sq_state b' = Cancelled
    \<or> (sq_dep b' = Some d \<and> \<not> dep_done (fst (purge_retained q now sd dd)) b')"
  using purge_fold_unreleased [OF assms(1) purge_candidates_ok [OF assms(1)] assms(2), of d b' now now sd dd] assms(3-)
  by (simp add: unreleased_def purge_retained_def Let_def)

definition dead_camera :: "unit queue" where
  "dead_camera = q_run 60 [] [Enqueue ''a'' 0 ''/c'' () ''camera:1'' 8 None, Claim ''t'' 1 ''w'' 10 None,
     Fail ''a'' ''t'' ''w'' ''e'' ''m'' True 2, Enqueue ''b'' 3 ''/e'' () ''event:9'' 8 (Some ''a'')]"

lemmas fail_eval = fail_def owned_def fail_row_def retry_delay_def sql_greater_def

lemma dead_camera_eq:
  "dead_camera =
     [(new_row ''a'' ''/c'' () ''camera:1'' 1 None None 8 0)\<lparr>sq_state := DeadLetter, sq_next := 2000002,
         sq_last_attempt := Some 1, sq_attempts := 1, sq_err_code := Some ''e'', sq_err_msg := Some ''m'',
         sq_class := Some Permanent, sq_failed_at := Some 2\<rparr>,
      new_row ''b'' ''/e'' () ''event:9'' 1 None (Some ''a'') 8 3]"
  by (simp add: dead_camera_def queue_eval fail_eval)

lemma dead_camera_inv: "queue_inv dead_camera"
  unfolding dead_camera_def
  by (rule q_run_inv [OF queue_inv_Nil]) (simp add: queue_eval fail_eval ordered_def)

lemma dead_camera_purged:
  "map (\<lambda>r. (sq_id r, sq_state r, sq_dep r)) (fst (purge_retained dead_camera (days 40) 7 30))
     = [(''b'', Cancelled, None)]"
proof -
  have "purge_candidates dead_camera (days 40) 7 30 = [(''a'', DeadLetter)]"
    by (simp add: dead_camera_eq purge_candidates_def purge_candidate_def new_row_def sql_less_def days_def seconds_def)
  then have "fst (purge_retained dead_camera (days 40) 7 30) = purge_one (days 40) dead_camera (''a'', DeadLetter)"
    by (simp add: purge_retained_def Let_def)
  moreover define D where "D = descendants dead_camera ''a''"
  moreover have "''b'' \<in> D"
    unfolding D_def by (auto simp: descendants_def links_iff dead_camera_eq new_row_def intro!: r_into_trancl)
  ultimately show ?thesis
    unfolding purge_one_eq purged_row_def cancelled_by_def fst_conv D_def [symmetric] dead_camera_eq
    by (simp add: unlink_row_def cancel_row_def new_row_def)
qed

theorem purge_keeps_dependency_witness:
  "sq_state (hd (fst (purge_retained dead_camera (days 40) 7 30))) = Cancelled"
proof -
  obtain b' where b': "fst (purge_retained dead_camera (days 40) 7 30) = [b']" "sq_id b' = ''b''" "sq_dep b' = None"
    using dead_camera_purged by (auto simp: map_eq_Cons_conv)
  have "sq_state b' = Cancelled \<or> (sq_dep b' = Some ''a'' \<and> \<not> dep_done (fst (purge_retained dead_camera (days 40) 7 30)) b')"
    by (rule purge_keeps_dependency [OF dead_camera_inv, of "dead_camera ! 1"])
      (simp_all add: b', simp_all add: dead_camera_eq new_row_def dep_done_def)
  with b' show ?thesis by simp
qed

subsection \<open>Enqueue and fail on every branch\<close>

lemma singleton_list: "distinct xs \<Longrightarrow> set xs = {x} \<Longrightarrow> xs = [x]"
  by (cases xs; cases "tl xs") auto

lemma latest_rowI:
  assumes inv: "queue_inv q" and r: "r \<in> set q" "sq_key r = k"
    and top: "\<And>a. a \<in> set q \<Longrightarrow> sq_key a = k \<Longrightarrow> sq_version a \<le> sq_version r"
  shows "latest_row q k = Some r"
proof (cases "latest_row q k")
  case None
  with r show ?thesis by (auto simp: latest_row_None)
next
  case (Some l)
  note l = latest_row_Some [OF Some]
  from top [OF l(1,2)] l(3) [OF r] have "sq_version l = sq_version r" by simp
  with inv l r have "l = r" by (auto simp: queue_inv_def distinct_map inj_on_def)
  with Some show ?thesis by simp
qed

text \<open>
  Last write wins: after \<open>_enqueue\<close> the newest row of the key is the one whose id was returned;
  it carries the new endpoint and payload, was never leased, and every other row is untouched.
\<close>

theorem enqueue_last_write_wins:
  assumes inv: "queue_inv q" and ok: "op_ok q (Enqueue uuid now endpoint payload key m dep)"
    and e: "enqueue q uuid now endpoint payload key m dep = (q', i)"
  shows "\<exists>r. latest_row q' key = Some r \<and> sq_id r = i \<and> sq_endpoint r = endpoint \<and> sq_payload r = payload
    \<and> sq_state r = Pending \<and> sq_last_attempt r = None \<and> {s \<in> set q'. sq_id s \<noteq> i} = {s \<in> set q. sq_id s \<noteq> i}"
proof -
  have inv': "queue_inv q'" using enqueue_inv [OF inv ok] e by simp
  show ?thesis
  proof (cases "latest_row q key")
    case None
    let ?n = "new_row uuid endpoint payload key 1 None dep m now"
    have q': "q' = q @ [?n]" "i = uuid" using e None by (auto simp: enqueue_def)
    have "latest_row q' key = Some ?n"
    proof (rule latest_rowI [OF inv'])
      fix a assume "a \<in> set q'" "sq_key a = key"
      with None q' have "a = ?n" by (auto simp: latest_row_None)
      then show "sq_version a \<le> sq_version ?n" by simp
    qed (simp_all add: q' new_row_def)
    with q' ok show ?thesis by (auto simp: new_row_def)
  next
    case (Some l)
    note l = latest_row_Some [OF Some]
    show ?thesis
    proof (cases "coalescable l")
      case True
      let ?n = "coalesce_row endpoint payload dep now l l"
      let ?P = "\<lambda>r. sq_id r = sq_id l \<and> sq_state r \<in> {Pending, RetryWait}"
      have q': "q' = update_where ?P (coalesce_row endpoint payload dep now l) q" "i = sq_id l"
        using e Some True by (auto simp: enqueue_def)
      have n: "?n \<in> set q'" using in_update_where [OF l(1), of ?P "coalesce_row endpoint payload dep now l"] True
        by (simp add: q' coalescable_def)
      have v: "sq_version a \<le> sq_version ?n" if "a \<in> set q'" "sq_key a = key" for a
      proof -
        from that(1) obtain b where "b \<in> set q" "a = (if ?P b then coalesce_row endpoint payload dep now l b else b)"
          unfolding q' by (rule update_whereE)
        with that(2) l(3) [of b] show ?thesis by (auto simp: coalesce_row_def split: if_splits)
      qed
      have "latest_row q' key = Some ?n"
        by (rule latest_rowI [OF inv' n _ v]) (simp_all add: coalesce_row_def l)
      moreover have "{s \<in> set q'. sq_id s \<noteq> i} = {s \<in> set q. sq_id s \<noteq> i}"
        by (auto simp: q' update_where_def coalesce_row_def)
      ultimately show ?thesis using q'(2) True by (simp add: coalesce_row_def coalescable_def)
    next
      case False
      let ?n = "new_row uuid endpoint payload key (sq_version l + 1) (Some (sq_id l)) dep m now"
      have q': "q' = q @ [?n]" "i = uuid" using e Some False by (auto simp: enqueue_def)
      have v: "sq_version a \<le> sq_version ?n" if "a \<in> set q'" "sq_key a = key" for a
      proof (cases "a \<in> set q")
        case True
        with l(3) [OF True that(2)] show ?thesis by (simp add: new_row_def)
      next
        case False
        with that(1) q' have "a = ?n" by simp
        then show ?thesis by simp
      qed
      have "latest_row q' key = Some ?n"
        by (rule latest_rowI [OF inv' _ _ v]) (simp_all add: q' new_row_def)
      with q' ok show ?thesis by (auto simp: new_row_def)
    qed
  qed
qed

theorem enqueue_last_write_wins_witness:
  "sq_id (the (latest_row (fst (enqueue (q_run 60 [] demo_ops) ''z'' 9 ''/d'' () ''k'' 8 None)) ''k'')) = ''b''"
proof -
  have "snd (enqueue (q_run 60 [] demo_ops) ''z'' 9 ''/d'' () ''k'' 8 None) = ''b''"
    by (simp add: demo_run queue_eval)
  then have e: "enqueue (q_run 60 [] demo_ops) ''z'' 9 ''/d'' () ''k'' 8 None
      = (fst (enqueue (q_run 60 [] demo_ops) ''z'' 9 ''/d'' () ''k'' 8 None), ''b'')"
    by (metis prod.collapse)
  have "op_ok (q_run 60 [] demo_ops) (Enqueue ''z'' 9 ''/d'' () ''k'' 8 None)"
    by (simp add: demo_run new_row_def)
  from enqueue_last_write_wins [OF demo_run_inv this e] obtain r where
    "latest_row (fst (enqueue (q_run 60 [] demo_ops) ''z'' 9 ''/d'' () ''k'' 8 None)) ''k'' = Some r" "sq_id r = ''b''"
    by blast
  then show ?thesis by simp
qed

lemma retry_delay_bounds: "0 \<le> a \<Longrightarrow> 1 \<le> retry_delay a \<and> retry_delay a \<le> 300"
  by (simp add: retry_delay_def)

text \<open>
  A failure reported by the holder ends the lease: the row goes to the dead letters exactly if
  the failure is permanent or the attempts are used up, and otherwise waits between one second
  and five minutes; every other row is untouched.
\<close>

theorem fail_outcome:
  assumes inv: "queue_inv q" and r: "r \<in> set q" "owned item token owner now r"
    and f: "fail q item token owner code message permanent now = (q', res)"
  shows "res \<and> (\<exists>r' \<in> set q'. sq_id r' = item \<and> sq_token r' = None
      \<and> sq_state r' = (if permanent \<or> sq_max r \<le> sq_attempts r then DeadLetter else RetryWait)
      \<and> now + seconds 1 \<le> sq_next r' \<and> sq_next r' \<le> now + seconds 300)
    \<and> {s \<in> set q'. sq_id s \<noteq> item} = {s \<in> set q. sq_id s \<noteq> item}"
proof -
  let ?mine = "\<lambda>r. sq_id r = item \<and> sq_token r = Some token \<and> sq_owner r = Some owner"
  let ?f = "fail_row (permanent \<or> sq_max r \<le> sq_attempts r) code message permanent (retry_delay (sq_attempts r)) now"
  have id: "sq_id r = item" using r(2) by (simp add: owned_def)
  have "List.find (owned item token owner now) q = Some r"
  proof (cases "List.find (owned item token owner now) q")
    case None
    with r show ?thesis by (auto simp: find_None_iff)
  next
    case (Some s)
    then have "s \<in> set q" "owned item token owner now s" by (auto simp: find_Some_iff)
    then have "s = r" using row_by_id [OF inv _ r(1), of s] id by (simp add: owned_def)
    with Some show ?thesis by simp
  qed
  with f have q': "q' = update_where ?mine ?f q" "res \<longleftrightarrow> length (filter ?mine q) = 1"
    by (auto simp: fail_def Let_def)
  have m: "?mine r" using r(2) by (simp add: owned_def)
  have "filter ?mine q = [r]"
  proof -
    have "distinct q" using inv by (auto simp: queue_inv_def distinct_map)
    moreover have "set (filter ?mine q) = {r}"
    proof (intro equalityI subsetI)
      fix s assume "s \<in> set (filter ?mine q)"
      then have "s = r" using row_by_id [OF inv _ r(1), of s] id by simp
      then show "s \<in> {r}" by simp
    qed (use m r(1) in simp)
    ultimately show ?thesis by (intro singleton_list) simp_all
  qed
  have a: "0 \<le> sq_attempts r" using row_okD(1) [OF inv r(1)] by (simp add: lease_ok_def)
  have "?f r \<in> set q'" using in_update_where [OF r(1), of ?mine ?f] m by (simp add: q')
  moreover have "sq_id (?f r) = item \<and> sq_token (?f r) = None
      \<and> sq_state (?f r) = (if permanent \<or> sq_max r \<le> sq_attempts r then DeadLetter else RetryWait)
      \<and> now + seconds 1 \<le> sq_next (?f r) \<and> sq_next (?f r) \<le> now + seconds 300"
    using id retry_delay_bounds [OF a] by (simp add: fail_row_def seconds_def)
  moreover have "{s \<in> set q'. sq_id s \<noteq> item} = {s \<in> set q. sq_id s \<noteq> item}"
    by (auto simp: q' update_where_def fail_row_def)
  moreover have res using q'(2) \<open>filter ?mine q = [r]\<close> by simp
  ultimately show ?thesis by blast
qed

theorem fail_outcome_witness:
  "snd (fail (q_run 60 [] demo_ops) ''a'' ''t'' ''w'' ''e'' ''m'' False 3)"
  using fail_outcome [OF demo_run_inv, of "hd (q_run 60 [] demo_ops)" "''a''" "''t''" "''w''" 3 "''e''" "''m''" False]
  by (cases "fail (q_run 60 [] demo_ops) ''a'' ''t'' ''w'' ''e'' ''m'' False 3")
    (simp add: demo_run owned_def sql_greater_def new_row_def)

text \<open>
  Expired leases are not counted against the limit: a row with \<open>max_attempts = 1\<close> whose worker
  dies three times is leased a third time and never becomes a dead letter.
\<close>

theorem expired_leases_never_dead_letter:
  "map (\<lambda>r. (sq_state r, sq_attempts r, sq_max r))
     (q_run 60 [] [Enqueue ''a'' 0 ''/c'' () ''k'' 1 None, Claim ''t'' 1 ''w'' 10 None,
        Claim ''u'' (seconds 100) ''w'' 10 None, Claim ''v'' (seconds 200) ''w'' 10 None])
   = [(Inflight, 3, 1)]"
  by (simp add: queue_eval expire_row_def)

end
