(* ===== verification/Edge_Store.thy ===== *)
theory Edge_Store
  imports Sync_Leases Json
begin

section \<open>The edge database and its repositories\<close>

text \<open>
  Model of \<open>SessionRepository\<close>, \<open>CameraRepository\<close>, \<open>AnalyticsRepository\<close>, \<open>PersonRepository\<close>
  and the completing operations of \<open>SyncQueueRepository\<close> (\<open>app/repositories.py\<close>), over one record
  \<open>edge_db\<close> whose fields are the tables. Every method is one \<open>BEGIN IMMEDIATE\<close> transaction: a
  function on the database, where \<open>Inl\<close> is an exception, after which the transaction is rolled
  back and the old database stands. Columns that the code encrypts (\<open>encrypted_payload\<close>,
  \<open>stream_url_encrypted\<close>, \<open>phone_encrypted\<close>) are represented by their plain values; the cipher
  is not modelled. UUIDs and the clock are arguments.
\<close>

subsection \<open>Tables\<close>

datatype session_status = ActiveSession | RevocationPending

record local_session =
  ls_access_token :: string
  ls_session_token :: string
  ls_refresh_token :: "string option"
  ls_access_expires :: time
  ls_user :: json
  ls_license :: "json option"

record session_row =
  ss_session :: local_session
  ss_user_id :: string
  ss_license_until :: "time option"
  ss_updated :: time
  ss_generation :: int
  ss_status :: session_status
  ss_last_error :: "string option"

record camera_row =
  cam_id :: ident
  cam_server_id :: "ident option"
  cam_name :: string
  cam_url :: string
  cam_stream_type :: string
  cam_location :: "string option"
  cam_analytics :: json
  cam_zones :: json
  cam_active :: bool
  cam_sync_state :: string
  cam_created :: time
  cam_updated :: time

record event_row =
  ev_id :: ident
  ev_camera :: ident
  ev_type :: string
  ev_payload :: json
  ev_image_path :: "string option"
  ev_synced :: bool
  ev_created :: time
  ev_image_id :: "ident option"

record alert_row =
  al_id :: ident
  al_camera :: ident
  al_zone :: "string option"
  al_image_path :: "string option"
  al_confidence :: real
  al_resolved :: bool
  al_synced :: bool
  al_created :: time
  al_image_id :: "ident option"

record count_row =
  cn_id :: ident
  cn_camera :: ident
  cn_in :: int
  cn_out :: int
  cn_captured :: time
  cn_synced :: bool

record person_row =
  pe_server_id :: ident
  pe_name :: string
  pe_phone :: string
  pe_face_path :: "string option"
  pe_synced_at :: time

record edge_db =
  db_session :: "session_row option"
  db_cameras :: "camera_row list"
  db_events :: "event_row list"
  db_alerts :: "alert_row list"
  db_counts :: "count_row list"
  db_persons :: "person_row list"
  db_queue :: "json queue"

definition camera_key :: "ident \<Rightarrow> string" where
  "camera_key i = ''camera:'' @ i"

subsection \<open>\<open>SessionRepository\<close>\<close>

text \<open>\<open>str(user.get("id", ""))\<close>; other values than strings are rendered by Python.\<close>

definition user_id_of :: "(json \<Rightarrow> string) \<Rightarrow> json \<Rightarrow> string" where
  "user_id_of render user = (case jget user ''id'' of None \<Rightarrow> [] | Some (JStr s) \<Rightarrow> s | Some v \<Rightarrow> render v)"

definition session_save ::
  "(json \<Rightarrow> string) \<Rightarrow> edge_db \<Rightarrow> time \<Rightarrow> local_session \<Rightarrow> time option \<Rightarrow> py_error + edge_db \<times> session_row" where
  "session_save render db now session until =
     (let user_id = user_id_of render (ls_user session) in
      if user_id = [] then Inl (ValueError ''central login response did not include user.id'')
      else let row = \<lparr>ss_session = session, ss_user_id = user_id, ss_license_until = until, ss_updated = now,
             ss_generation = (case db_session db of None \<Rightarrow> 1 | Some s \<Rightarrow> ss_generation s + 1),
             ss_status = ActiveSession, ss_last_error = None\<rparr>
           in Inr (db\<lparr>db_session := Some row, db_queue := cancel_revocations now (db_queue db)\<rparr>, row))"

definition session_get_record :: "edge_db \<Rightarrow> session_row option" where
  "session_get_record = db_session"

definition session_get :: "edge_db \<Rightarrow> (local_session \<times> time option) option" where
  "session_get db = map_option (\<lambda>s. (ss_session s, ss_license_until s)) (db_session db)"

definition active_at :: "edge_db \<Rightarrow> int \<Rightarrow> session_row option" where
  "active_at db g = (case db_session db of None \<Rightarrow> None
     | Some s \<Rightarrow> if ss_generation s = g \<and> ss_status s = ActiveSession then Some s else None)"

definition session_replace_active ::
  "edge_db \<Rightarrow> time \<Rightarrow> local_session \<Rightarrow> time \<Rightarrow> int \<Rightarrow> edge_db \<times> bool" where
  "session_replace_active db now session until expected =
     (case active_at db expected of None \<Rightarrow> (db, False)
      | Some s \<Rightarrow> (db\<lparr>db_session := Some (s\<lparr>ss_session := session, ss_license_until := Some until,
                     ss_generation := ss_generation s + 1, ss_updated := now, ss_last_error := None\<rparr>)\<rparr>, True))"

definition session_mark_pending :: "edge_db \<Rightarrow> time \<Rightarrow> int \<Rightarrow> edge_db \<times> int option" where
  "session_mark_pending db now expected =
     (case active_at db expected of None \<Rightarrow> (db, None)
      | Some s \<Rightarrow> (db\<lparr>db_session := Some (s\<lparr>ss_status := RevocationPending,
                     ss_generation := ss_generation s + 1, ss_updated := now, ss_last_error := None\<rparr>)\<rparr>,
                  Some (expected + 1)))"

definition revoke_payload :: "int \<Rightarrow> json" where
  "revoke_payload g = JObj [(''_kind'', JStr ''session_revoke''), (''generation'', JInt g)]"

definition session_begin_revocation ::
  "edge_db \<Rightarrow> time \<Rightarrow> ident \<Rightarrow> ident \<Rightarrow> int \<Rightarrow> int \<Rightarrow> int \<Rightarrow> edge_db \<times> (int \<times> ident \<times> ident) option" where
  "session_begin_revocation db now uuid token expected max_attempts lease_seconds =
     (case active_at db expected of None \<Rightarrow> (db, None)
      | Some s \<Rightarrow>
          let generation = expected + 1;
              s' = s\<lparr>ss_status := RevocationPending, ss_generation := generation, ss_updated := now, ss_last_error := None\<rparr>;
              (q1, item) = enqueue (db_queue db) uuid now ''/api/v1/auth/logout'' (revoke_payload generation)
                             revoke_key max_attempts None;
              q2 = lease_new item token ''auth-logout'' (now + seconds lease_seconds) now q1
          in (db\<lparr>db_session := Some s', db_queue := q2\<rparr>, Some (generation, item, token)))"

definition session_set_error :: "edge_db \<Rightarrow> time \<Rightarrow> int \<Rightarrow> string \<Rightarrow> edge_db" where
  "session_set_error db now g code =
     db\<lparr>db_session := map_option (\<lambda>s. if ss_generation s = g
          then s\<lparr>ss_last_error := Some (take 100 code), ss_updated := now\<rparr> else s) (db_session db)\<rparr>"

definition session_clear :: "edge_db \<Rightarrow> int option \<Rightarrow> edge_db \<times> bool" where
  "session_clear db expected =
     (case db_session db of None \<Rightarrow> (db, False)
      | Some s \<Rightarrow> if (case expected of None \<Rightarrow> True | Some g \<Rightarrow> ss_generation s = g)
                  then (db\<lparr>db_session := None\<rparr>, True) else (db, False))"

subsection \<open>\<open>CameraRepository\<close>\<close>

record camera_create =
  cc_name :: string
  cc_url :: string
  cc_stream_type :: string
  cc_location :: "string option"
  cc_analytics :: json
  cc_zones :: json

text \<open>The fields an update sets; \<open>location_label\<close> may be set to null.\<close>

record camera_update =
  cu_name :: "string option"
  cu_url :: "string option"
  cu_stream_type :: "string option"
  cu_location :: "string option option"
  cu_analytics :: "json option"
  cu_zones :: "json option"
  cu_active :: "bool option"

definition create_body :: "ident \<Rightarrow> string \<Rightarrow> string \<Rightarrow> string \<Rightarrow> string option \<Rightarrow> json \<Rightarrow> json \<Rightarrow> json" where
  "create_body i name url stream_type location analytics zones = JObj
     [(''id'', JStr i), (''name'', JStr name), (''stream_url'', JStr url), (''stream_type'', JStr stream_type),
      (''location_label'', jopt JStr location), (''analytics_config'', analytics), (''zones'', zones)]"

definition camera_payload :: "string \<Rightarrow> ident \<Rightarrow> json \<Rightarrow> (string \<times> json) list" where
  "camera_payload verb i body =
     [(''_kind'', JStr ''camera''), (''_method'', JStr verb), (''_local_id'', JStr i), (''body'', body)]"

definition camera_with_id :: "edge_db \<Rightarrow> ident \<Rightarrow> camera_row option" where
  "camera_with_id db i = List.find (\<lambda>c. cam_id c = i) (db_cameras db)"

definition camera_create_op ::
  "edge_db \<Rightarrow> time \<Rightarrow> ident \<Rightarrow> ident \<Rightarrow> camera_create \<Rightarrow> int \<Rightarrow> int \<Rightarrow> py_error + edge_db \<times> camera_row" where
  "camera_create_op db now camera_id uuid p max_cameras max_attempts =
     (if max_cameras \<le> int (length (db_cameras db)) then Inl (ValueError ''license camera limit reached'')
      else if camera_with_id db camera_id \<noteq> None then Inl IntegrityError
      else let row = \<lparr>cam_id = camera_id, cam_server_id = None, cam_name = cc_name p, cam_url = cc_url p,
                 cam_stream_type = cc_stream_type p, cam_location = cc_location p, cam_analytics = cc_analytics p,
                 cam_zones = cc_zones p, cam_active = True, cam_sync_state = ''pending'',
                 cam_created = now, cam_updated = now\<rparr>;
               body = create_body camera_id (cc_name p) (cc_url p) (cc_stream_type p) (cc_location p)
                        (cc_analytics p) (cc_zones p);
               q = fst (enqueue (db_queue db) uuid now ''/api/v1/cameras/''
                     (JObj (camera_payload ''POST'' camera_id body)) (camera_key camera_id) max_attempts None)
           in Inr (db\<lparr>db_cameras := db_cameras db @ [row], db_queue := q\<rparr>, row))"

text \<open>\<open>ORDER BY name COLLATE NOCASE, id\<close>.\<close>

definition cameras_by_name :: "camera_row list \<Rightarrow> camera_row list" where
  "cameras_by_name = sort_key (\<lambda>c. (py_lower (cam_name c), cam_id c))"

definition camera_list :: "edge_db \<Rightarrow> nat \<Rightarrow> nat \<Rightarrow> camera_row list \<times> nat" where
  "camera_list db limit off = (take limit (drop off (cameras_by_name (db_cameras db))), length (db_cameras db))"

definition camera_list_active :: "edge_db \<Rightarrow> int \<Rightarrow> camera_row list" where
  "camera_list_active db limit =
     (if limit < 1 then [] else take (nat limit) (cameras_by_name (filter cam_active (db_cameras db))))"

definition camera_get :: "edge_db \<Rightarrow> ident \<Rightarrow> camera_row option" where
  "camera_get db i = camera_with_id db i"

definition or_else :: "'a option \<Rightarrow> 'a \<Rightarrow> 'a" where
  "or_else x d = (case x of None \<Rightarrow> d | Some v \<Rightarrow> v)"

definition update_camera_row :: "camera_update \<Rightarrow> time \<Rightarrow> camera_row \<Rightarrow> camera_row" where
  "update_camera_row u now c = c\<lparr>cam_name := or_else (cu_name u) (cam_name c),
     cam_stream_type := or_else (cu_stream_type u) (cam_stream_type c),
     cam_location := or_else (cu_location u) (cam_location c), cam_active := or_else (cu_active u) (cam_active c),
     cam_url := or_else (cu_url u) (cam_url c), cam_analytics := or_else (cu_analytics u) (cam_analytics c),
     cam_zones := or_else (cu_zones u) (cam_zones c), cam_sync_state := ''pending'', cam_updated := now\<rparr>"

definition patch_body :: "camera_update \<Rightarrow> json" where
  "patch_body u = JObj (field_if ''name'' (map_option JStr (cu_name u))
     @ field_if ''stream_url'' (map_option JStr (cu_url u))
     @ field_if ''stream_type'' (map_option JStr (cu_stream_type u))
     @ field_if ''location_label'' (map_option (jopt JStr) (cu_location u))
     @ field_if ''is_active'' (map_option JBool (cu_active u)))"

definition still_creating :: "camera_row \<Rightarrow> json sync_row option \<Rightarrow> bool" where
  "still_creating current latest \<longleftrightarrow> cam_server_id current = None \<and>
     (case latest of None \<Rightarrow> False
      | Some r \<Rightarrow> coalescable r \<and> jget (sq_payload r) ''_method'' = Some (JStr ''POST''))"

definition camera_update_op ::
  "edge_db \<Rightarrow> time \<Rightarrow> ident \<Rightarrow> ident \<Rightarrow> camera_update \<Rightarrow> int \<Rightarrow> edge_db \<times> camera_row option" where
  "camera_update_op db now i uuid u max_attempts =
     (case camera_with_id db i of None \<Rightarrow> (db, None)
      | Some current \<Rightarrow>
          let updated = update_camera_row u now current;
              cams = map (\<lambda>c. if cam_id c = i then update_camera_row u now c else c) (db_cameras db);
              create = still_creating current (latest_row (db_queue db) (camera_key i));
              payload = (if create
                then JObj (camera_payload ''POST'' i (create_body i (cam_name updated) (cam_url updated)
                       (cam_stream_type updated) (cam_location updated) (cam_analytics updated) (cam_zones updated)))
                else JObj (camera_payload ''PATCH'' i (patch_body u)
                       @ (if cu_analytics u \<noteq> None \<or> cu_zones u \<noteq> None
                          then [(''analytics'', JObj
                                 [(''analytics_config'', or_else (cu_analytics u) (cam_analytics updated)),
                                  (''zones'', or_else (cu_zones u) (cam_zones updated))])]
                          else [])));
              endpoint = (if create then ''/api/v1/cameras/'' else ''/api/v1/cameras/'' @ i);
              q = fst (enqueue (db_queue db) uuid now endpoint payload (camera_key i) max_attempts None)
          in (db\<lparr>db_cameras := cams, db_queue := q\<rparr>, Some updated))"

text \<open>\<open>DELETE FROM local_cameras\<close>, with \<open>ON DELETE CASCADE\<close> on the three dependent tables.\<close>

definition drop_camera :: "ident \<Rightarrow> edge_db \<Rightarrow> edge_db" where
  "drop_camera i db = db\<lparr>db_cameras := filter (\<lambda>c. cam_id c \<noteq> i) (db_cameras db),
     db_events := filter (\<lambda>e. ev_camera e \<noteq> i) (db_events db),
     db_alerts := filter (\<lambda>a. al_camera a \<noteq> i) (db_alerts db),
     db_counts := filter (\<lambda>c. cn_camera c \<noteq> i) (db_counts db)\<rparr>"

definition camera_delete_op :: "edge_db \<Rightarrow> time \<Rightarrow> ident \<Rightarrow> ident \<Rightarrow> int \<Rightarrow> edge_db \<times> bool" where
  "camera_delete_op db now i uuid max_attempts =
     (case camera_with_id db i of None \<Rightarrow> (db, False)
      | Some c \<Rightarrow>
          let delete = fst (enqueue (db_queue db) uuid now (''/api/v1/cameras/'' @ i)
                  (JObj (camera_payload ''DELETE'' i (JObj []))) (camera_key i) max_attempts None);
              q = (case latest_row (db_queue db) (camera_key i) of None \<Rightarrow> delete
                   | Some latest \<Rightarrow>
                       if cam_server_id c = None \<and> sq_state latest \<in> {Pending, RetryWait}
                       then cancel_with_dependents now (sq_id latest) (db_queue db)
                       else delete)
          in (drop_camera i (db\<lparr>db_queue := q\<rparr>), True))"

end
