(* ===== verification/Edge_Records.thy ===== *)
theory Edge_Records
  imports Edge_Store
begin

section \<open>Analytics records, cached persons, and completed deliveries\<close>

text \<open>
  Model of \<open>AnalyticsRepository\<close>, \<open>PersonRepository\<close> and of the \<open>complete\<close> operations of
  \<open>SyncQueueRepository\<close> that also touch the local tables (\<open>app/repositories.py\<close>, and
  \<open>require_central_image_id\<close> of \<open>app/dtos.py\<close>). The rendering of time stamps is an argument
  (\<open>stamp\<close>).
\<close>

definition oldest_row :: "'p queue \<Rightarrow> string \<Rightarrow> 'p sync_row option" where
  "oldest_row q k = (case sort_key sq_version (filter (\<lambda>r. sq_key r = k) q) of [] \<Rightarrow> None | r # _ \<Rightarrow> Some r)"

definition camera_dependency :: "edge_db \<Rightarrow> ident \<Rightarrow> py_error + ident option" where
  "camera_dependency db i =
     (case camera_with_id db i of
        None \<Rightarrow> Inl (ValueError ''camera does not exist'')
      | Some c \<Rightarrow>
          if cam_server_id c \<noteq> None then Inr None
          else (case oldest_row (db_queue db) (camera_key i) of
                  None \<Rightarrow> Inl (ValueError ''camera identity has no synchronization record'')
                | Some r \<Rightarrow> Inr (Some (sq_id r))))"

definition require_central_image_id :: "string option \<Rightarrow> ident option \<Rightarrow> py_error + ident option" where
  "require_central_image_id path image_id =
     (if or_else path [] \<noteq> [] \<and> image_id = None
      then Inl (ValueError ''capture file has no central file identifier'') else Inr image_id)"

definition event_json :: "(time \<Rightarrow> string) \<Rightarrow> event_row \<Rightarrow> json" where
  "event_json stamp e = JObj [(''id'', JStr (ev_id e)), (''camera_id'', JStr (ev_camera e)),
     (''event_type'', JStr (ev_type e)), (''payload'', ev_payload e),
     (''captured_image_id'', jopt JStr (ev_image_id e)), (''created_at'', JStr (stamp (ev_created e)))]"

definition add_event ::
  "(time \<Rightarrow> string) \<Rightarrow> edge_db \<Rightarrow> time \<Rightarrow> ident \<Rightarrow> event_row \<Rightarrow> int \<Rightarrow> py_error + edge_db \<times> json" where
  "add_event stamp db now uuid e max_attempts =
     bindE (require_central_image_id (ev_image_path e) (ev_image_id e)) (\<lambda>image.
     bindE (camera_dependency db (ev_camera e)) (\<lambda>dependency.
     if ev_id e \<in> ev_id ` set (db_events db) then Inl IntegrityError
     else Inr (db\<lparr>db_events := db_events db @ [e\<lparr>ev_synced := False\<rparr>],
            db_queue := fst (enqueue (db_queue db) uuid now ''/api/v1/sync/events''
              (JObj [(''events'', JList [event_json stamp e])]) (''event:'' @ ev_id e) max_attempts dependency)\<rparr>,
          event_json stamp e)))"

definition alert_json :: "(time \<Rightarrow> string) \<Rightarrow> alert_row \<Rightarrow> json" where
  "alert_json stamp a = JObj [(''id'', JStr (al_id a)), (''camera_id'', JStr (al_camera a)),
     (''zone_id'', jopt JStr (al_zone a)), (''captured_image_id'', jopt JStr (al_image_id a)),
     (''confidence'', JNum (al_confidence a)), (''resolved'', JBool (al_resolved a)),
     (''created_at'', JStr (stamp (al_created a)))]"

definition add_alert ::
  "(time \<Rightarrow> string) \<Rightarrow> edge_db \<Rightarrow> time \<Rightarrow> ident \<Rightarrow> alert_row \<Rightarrow> int \<Rightarrow> py_error + edge_db \<times> json" where
  "add_alert stamp db now uuid a max_attempts =
     bindE (require_central_image_id (al_image_path a) (al_image_id a)) (\<lambda>image.
     bindE (camera_dependency db (al_camera a)) (\<lambda>dependency.
     if al_id a \<in> al_id ` set (db_alerts db) then Inl IntegrityError
     else Inr (db\<lparr>db_alerts := db_alerts db @ [a\<lparr>al_synced := False\<rparr>],
            db_queue := fst (enqueue (db_queue db) uuid now ''/api/v1/sync/alerts''
              (JObj [(''alerts'', JList [alert_json stamp a])]) (''alert:'' @ al_id a) max_attempts dependency)\<rparr>,
          alert_json stamp a)))"

definition count_json :: "(time \<Rightarrow> string) \<Rightarrow> count_row \<Rightarrow> json" where
  "count_json stamp c = JObj [(''id'', JStr (cn_id c)), (''camera_id'', JStr (cn_camera c)),
     (''count_in'', JInt (cn_in c)), (''count_out'', JInt (cn_out c)), (''timestamp'', JStr (stamp (cn_captured c)))]"

definition add_people_count ::
  "(time \<Rightarrow> string) \<Rightarrow> edge_db \<Rightarrow> time \<Rightarrow> ident \<Rightarrow> count_row \<Rightarrow> int \<Rightarrow> py_error + edge_db \<times> json" where
  "add_people_count stamp db now uuid c max_attempts =
     bindE (camera_dependency db (cn_camera c)) (\<lambda>dependency.
     if cn_id c \<in> cn_id ` set (db_counts db) then Inl IntegrityError
     else Inr (db\<lparr>db_counts := db_counts db @ [c\<lparr>cn_synced := False\<rparr>],
            db_queue := fst (enqueue (db_queue db) uuid now ''/api/v1/sync/people-count''
              (JObj [(''snapshots'', JList [count_json stamp c])]) (''count:'' @ cn_id c) max_attempts dependency)\<rparr>,
          count_json stamp c))"

definition list_events :: "edge_db \<Rightarrow> nat \<Rightarrow> nat \<Rightarrow> event_row list \<times> nat" where
  "list_events db limit off =
     (take limit (drop off (sort_key (\<lambda>e. (- ev_created e, ev_id e)) (db_events db))), length (db_events db))"

subsection \<open>\<open>PersonRepository\<close>\<close>

definition upsert_person :: "person_row list \<Rightarrow> person_row \<Rightarrow> person_row list" where
  "upsert_person ps p =
     (if pe_server_id p \<in> pe_server_id ` set ps
      then map (\<lambda>x. if pe_server_id x = pe_server_id p then p else x) ps else ps @ [p])"

definition replace_cache :: "edge_db \<Rightarrow> person_row list \<Rightarrow> edge_db" where
  "replace_cache db people =
     db\<lparr>db_persons := filter (\<lambda>p. pe_server_id p \<in> pe_server_id ` set people)
          (foldl upsert_person (db_persons db) people)\<rparr>"

definition person_list :: "edge_db \<Rightarrow> nat \<Rightarrow> nat \<Rightarrow> person_row list \<times> nat" where
  "person_list db limit off =
     (take limit (drop off (sort_key (\<lambda>p. (py_lower (pe_name p), pe_server_id p)) (db_persons db))),
      length (db_persons db))"

subsection \<open>Completing a delivery\<close>

definition mark_synced :: "string \<Rightarrow> edge_db \<Rightarrow> edge_db" where
  "mark_synced key db =
     (let i = drop 6 key in
      if starts_with ''event:'' key
      then db\<lparr>db_events := map (\<lambda>e. if ev_id e = i then e\<lparr>ev_synced := True\<rparr> else e) (db_events db)\<rparr>
      else if starts_with ''alert:'' key
      then db\<lparr>db_alerts := map (\<lambda>a. if al_id a = i then a\<lparr>al_synced := True\<rparr> else a) (db_alerts db)\<rparr>
      else if starts_with ''count:'' key
      then db\<lparr>db_counts := map (\<lambda>c. if cn_id c = i then c\<lparr>cn_synced := True\<rparr> else c) (db_counts db)\<rparr>
      else db)"

definition complete_item :: "edge_db \<Rightarrow> ident \<Rightarrow> ident \<Rightarrow> ident \<Rightarrow> time \<Rightarrow> edge_db \<times> bool" where
  "complete_item db item token owner now =
     (case complete (db_queue db) item token owner now of (q, row) \<Rightarrow>
        (case row of None \<Rightarrow> (db, False)
         | Some r \<Rightarrow> (mark_synced (sq_key r) (db\<lparr>db_queue := q\<rparr>), True)))"

definition complete_camera ::
  "edge_db \<Rightarrow> ident \<Rightarrow> ident \<Rightarrow> ident \<Rightarrow> time \<Rightarrow> ident \<Rightarrow> ident \<Rightarrow> edge_db \<times> bool" where
  "complete_camera db item token owner now local_id server_id =
     (case complete (db_queue db) item token owner now of (q, row) \<Rightarrow>
        (case row of None \<Rightarrow> (db, False)
         | Some r \<Rightarrow> (db\<lparr>db_queue := q, db_cameras := map (\<lambda>c. if cam_id c = local_id
               then c\<lparr>cam_server_id := Some server_id, cam_sync_state := ''synced''\<rparr> else c) (db_cameras db)\<rparr>, True)))"

definition complete_revocation ::
  "edge_db \<Rightarrow> ident \<Rightarrow> ident \<Rightarrow> ident \<Rightarrow> time \<Rightarrow> int \<Rightarrow> edge_db \<times> bool" where
  "complete_revocation db item token owner now generation =
     (case complete (db_queue db) item token owner now of (q, row) \<Rightarrow>
        (case row of None \<Rightarrow> (db, False)
         | Some r \<Rightarrow> (db\<lparr>db_queue := q, db_session := (case db_session db of None \<Rightarrow> None
               | Some s \<Rightarrow> if ss_generation s = generation \<and> ss_status s = RevocationPending
                            then None else Some s)\<rparr>, True)))"

definition enqueue_revocation :: "edge_db \<Rightarrow> time \<Rightarrow> ident \<Rightarrow> int \<Rightarrow> int \<Rightarrow> edge_db \<times> ident" where
  "enqueue_revocation db now uuid generation max_attempts =
     (case enqueue (db_queue db) uuid now ''/api/v1/auth/logout'' (revoke_payload generation) revoke_key
        max_attempts None of (q, item) \<Rightarrow> (db\<lparr>db_queue := q\<rparr>, item))"

end
