(* ===== verification/Edge_Props.thy ===== *)
theory Edge_Props
  imports Edge_Records
begin

section \<open>Properties of the edge repositories\<close>

text \<open>
  Sessions are guarded by their generation, a logout starts its revocation in the same
  transaction, analytics of an unregistered camera wait for the registration, and the cache of
  persons is replaced as a whole. One sequence of operations that loses a deletion is recorded.
\<close>

subsection \<open>Sessions\<close>

text \<open>
  Optimistic concurrency: after a refresh, a revocation mark or a logout has been applied for
  a generation, no session of that generation is active, so every other writer that read the same
  generation is refused.
\<close>

theorem stale_session_write_rejected:
  "active_at (fst (session_replace_active db now s until g)) g = None
   \<and> active_at (fst (session_mark_pending db now g)) g = None
   \<and> active_at (fst (session_begin_revocation db now uuid token g m lease)) g = None"
  by (auto simp: session_replace_active_def session_mark_pending_def session_begin_revocation_def
      active_at_def Let_def split: option.splits prod.splits if_splits)

text \<open>
  Logout is atomic: it happens only to the active session of the expected generation; then, in
  one step, the session stops being usable and the queue holds its revocation, leased to the
  caller with the token it was given, so that no other worker can send it.
\<close>

theorem begin_revocation_atomic:
  assumes inv: "queue_inv (db_queue db)" and fresh: "uuid \<notin> sq_id ` set (db_queue db)"
    and act: "active_at db g = Some s"
    and b: "session_begin_revocation db now uuid token g m lease = (db', Some (g', item, token'))"
  shows "g' = g + 1 \<and> token' = token
    \<and> (\<exists>s'. db_session db' = Some s' \<and> ss_status s' = RevocationPending \<and> ss_generation s' = g + 1)
    \<and> (\<exists>r. latest_row (db_queue db') revoke_key = Some r \<and> sq_id r = item \<and> sq_state r = Inflight
         \<and> sq_token r = Some token \<and> sq_lease r = Some (now + seconds lease)
         \<and> sq_payload r = revoke_payload (g + 1))"
proof -
  obtain q1 item' where e': "enqueue (db_queue db) uuid now ''/api/v1/auth/logout'' (revoke_payload (g + 1)) revoke_key m None
      = (q1, item')" by (cases "enqueue (db_queue db) uuid now ''/api/v1/auth/logout'' (revoke_payload (g + 1)) revoke_key m None")
  have t: "g' = g + 1" "token' = token" "item' = item"
    and db': "db' = db\<lparr>db_session := Some (s\<lparr>ss_status := RevocationPending, ss_generation := g + 1, ss_updated := now, ss_last_error := None\<rparr>),
        db_queue := lease_new item token ''auth-logout'' (now + seconds lease) now q1\<rparr>"
    using b unfolding session_begin_revocation_def Let_def act option.case e' prod.case by auto
  note e = e' [unfolded t(3)]
  have q': "db_queue db' = lease_new item token ''auth-logout'' (now + seconds lease) now q1"
    and s': "db_session db' = Some (s\<lparr>ss_status := RevocationPending, ss_generation := g + 1, ss_updated := now, ss_last_error := None\<rparr>)"
    by (simp_all add: db')
  have ok: "op_ok (db_queue db) (Enqueue uuid now ''/api/v1/auth/logout'' (revoke_payload (g + 1)) revoke_key m None)"
    using fresh unordered_no_dep [OF inv] by simp
  from enqueue_last_write_wins [OF inv ok e] obtain r where r: "latest_row q1 revoke_key = Some r" "sq_id r = item"
    "sq_payload r = revoke_payload (g + 1)" "sq_state r = Pending" by blast
  note l = latest_row_Some [OF r(1)]
  let ?P = "\<lambda>r. sq_id r = item \<and> sq_state r = Pending"
  let ?f = "lease_row token ''auth-logout'' (now + seconds lease) now"
  have inv1: "queue_inv q1" using enqueue_inv [OF inv ok] e by simp
  have n: "?f r \<in> set (db_queue db')" using in_update_where [OF l(1), of ?P ?f] r by (simp add: q' lease_new_def)
  have "latest_row (db_queue db') revoke_key = Some (?f r)"
  proof -
    have ids: "map sq_id (db_queue db') = map sq_id q1"
      "map (\<lambda>r. (sq_key r, sq_version r)) (db_queue db') = map (\<lambda>r. (sq_key r, sq_version r)) q1"
      by (simp_all add: q' lease_new_def update_where_def lease_row_def)
    have top: "sq_version a \<le> sq_version (?f r)" if "a \<in> set (db_queue db')" "sq_key a = revoke_key" for a
    proof -
      from that(1) obtain b where "b \<in> set q1" "a = (if ?P b then ?f b else b)"
        unfolding q' lease_new_def by (rule update_whereE)
      with that(2) l(3) [of b] show ?thesis by (auto simp: lease_row_def split: if_splits)
    qed
    have un: "x = y" if "x \<in> set (db_queue db')" "y \<in> set (db_queue db')"
      "sq_key x = sq_key y" "sq_version x = sq_version y" for x y
    proof -
      have "distinct (map (\<lambda>r. (sq_key r, sq_version r)) (db_queue db'))"
        using inv1 by (simp only: ids queue_inv_def)
      with that show ?thesis by (auto simp: distinct_map inj_on_def)
    qed
    show ?thesis
    proof (cases "latest_row (db_queue db') revoke_key")
      case None
      with n l(2) show ?thesis by (auto simp: latest_row_None lease_row_def)
    next
      case (Some x)
      note x = latest_row_Some [OF Some]
      have k: "sq_key (?f r) = revoke_key" using l(2) by (simp add: lease_row_def)
      have "sq_version x = sq_version (?f r)" using top [OF x(1,2)] x(3) [OF n k] by simp
      with un [OF x(1) n] x(2) k Some show ?thesis by simp
    qed
  qed
  with t s' r show ?thesis by (simp add: lease_row_def)
qed

text \<open>
  What the repositories do to the queue is a step of the queue machine: a login withdraws
  revocations, a logout leases its own, and the deletion of a camera either withdraws the newest row
  of the camera or queues the deletion.
\<close>

lemma save_is_step:
  "session_save render db now s until = Inr (db', row) \<Longrightarrow> db_queue db' = q_step L (db_queue db) (CancelRevocations now)"
  by (auto simp: session_save_def Let_def split: if_splits)

lemma begin_revocation_is_step:
  "session_begin_revocation db now uuid token g m lease = (db', Some x)
    \<Longrightarrow> db_queue db' = q_step L (db_queue db) (Revoke uuid token now (revoke_payload (g + 1)) m lease)"
  by (auto simp: session_begin_revocation_def Let_def split: option.splits prod.splits)

lemma delete_is_step:
  assumes "camera_delete_op db now i uuid m = (db', True)"
  shows "db_queue db' = q_step L (db_queue db) (CancelNewest now (camera_key i))
    \<or> db_queue db' = q_step L (db_queue db) (Enqueue uuid now (''/api/v1/cameras/'' @ i)
        (JObj (camera_payload ''DELETE'' i (JObj []))) (camera_key i) m None)"
  using assms by (auto simp: camera_delete_op_def cancel_newest_def drop_camera_def Let_def split: option.splits if_splits)

definition demo_session :: local_session where
  "demo_session = \<lparr>ls_access_token = ''a'', ls_session_token = ''s'', ls_refresh_token = Some ''r'',
     ls_access_expires = 900, ls_user = JObj [(''id'', JStr ''u1'')], ls_license = None\<rparr>"

definition empty_db :: edge_db where
  "empty_db = \<lparr>db_session = None, db_cameras = [], db_events = [], db_alerts = [], db_counts = [],
     db_persons = [], db_queue = []\<rparr>"

definition logged_in :: edge_db where
  "logged_in = fst (projr (session_save (\<lambda>v. []) empty_db 0 demo_session (Some 1000)))"

lemma logged_in_eq:
  "logged_in = empty_db\<lparr>db_session := Some \<lparr>ss_session = demo_session, ss_user_id = ''u1'',
     ss_license_until = Some 1000, ss_updated = 0, ss_generation = 1, ss_status = ActiveSession,
     ss_last_error = None\<rparr>\<rparr>"
  by (simp add: logged_in_def session_save_def empty_db_def demo_session_def user_id_of_def
      cancel_revocations_def update_where_def Let_def)

theorem begin_revocation_atomic_witness:
  "sq_state (the (latest_row (db_queue (fst (session_begin_revocation logged_in 5 ''q'' ''t'' 1 8 60))) revoke_key)) = Inflight"
proof -
  have b: "session_begin_revocation logged_in 5 ''q'' ''t'' 1 8 60
      = (fst (session_begin_revocation logged_in 5 ''q'' ''t'' 1 8 60), Some (2, ''q'', ''t''))"
    by (simp add: logged_in_eq empty_db_def session_begin_revocation_def active_at_def Let_def enqueue_def latest_row_def)
  have "active_at logged_in 1 = db_session logged_in" by (simp add: logged_in_eq active_at_def)
  then have a: "active_at logged_in 1 = Some (the (db_session logged_in))" by (simp add: logged_in_eq)
  from begin_revocation_atomic [OF _ _ a b] obtain r where
    "latest_row (db_queue (fst (session_begin_revocation logged_in 5 ''q'' ''t'' 1 8 60))) revoke_key = Some r"
    "sq_state r = Inflight"
    by (auto simp: logged_in_eq empty_db_def)
  then show ?thesis by simp
qed

subsection \<open>Cameras and analytics\<close>

definition demo_camera :: camera_create where
  "demo_camera = \<lparr>cc_name = ''door'', cc_url = ''rtsp'', cc_stream_type = ''rtsp'', cc_location = None,
     cc_analytics = JObj [], cc_zones = JList []\<rparr>"

definition rename :: camera_update where
  "rename = \<lparr>cu_name = Some ''gate'', cu_url = None, cu_stream_type = None, cu_location = None,
     cu_analytics = None, cu_zones = None, cu_active = None\<rparr>"

definition after_create :: edge_db where
  "after_create = fst (projr (camera_create_op empty_db 0 ''c'' ''q1'' demo_camera 4 8))"

definition after_lease :: edge_db where
  "after_lease = after_create\<lparr>db_queue := q_step 60 (db_queue after_create) (Claim ''t'' 1 ''w'' 100 None)\<rparr>"

definition after_delete :: edge_db where
  "after_delete = fst (camera_delete_op (fst (camera_update_op after_lease 2 ''c'' ''q2'' rename 8)) 3 ''c'' ''q3'' 8)"

definition after_confirm :: edge_db where
  "after_confirm = fst (complete_camera after_delete ''q1'' ''t'' ''w'' 4 ''c'' ''c'')"

text \<open>
  Lost deletion: a camera that is created, leased for registration, renamed and deleted before
  the registration is confirmed leaves no deletion in the queue: the rename is cancelled, the
  registration succeeds, and the central system keeps a camera the edge no longer has.
\<close>

theorem delete_orphans_central_camera:
  "map (\<lambda>r. (jget (sq_payload r) ''_method'', sq_state r)) (db_queue after_confirm)
     = [(Some (JStr ''POST''), Succeeded), (Some (JStr ''PATCH''), Cancelled)]
   \<and> db_cameras after_confirm = []"
proof -
  have c: "after_create = \<lparr>db_session = None, db_cameras = [\<lparr>cam_id = ''c'', cam_server_id = None, cam_name = ''door'',
      cam_url = ''rtsp'', cam_stream_type = ''rtsp'', cam_location = None, cam_analytics = JObj [], cam_zones = JList [],
      cam_active = True, cam_sync_state = ''pending'', cam_created = 0, cam_updated = 0\<rparr>], db_events = [], db_alerts = [],
      db_counts = [], db_persons = [], db_queue = [new_row ''q1'' ''/api/v1/cameras/''
        (JObj (camera_payload ''POST'' ''c'' (create_body ''c'' ''door'' ''rtsp'' ''rtsp'' None (JObj []) (JList []))))
        ''camera:c'' 1 None None 8 0]\<rparr>"
    by (simp add: after_create_def camera_create_op_def empty_db_def demo_camera_def camera_with_id_def
        camera_key_def enqueue_def latest_row_def Let_def)
  have l: "q_step 60 [new_row ''q1'' e p ''camera:c'' 1 None None 8 0] (Claim ''t'' 1 ''w'' 100 None)
      = [lease_row ''t'' ''w'' 60000001 1 (new_row ''q1'' e p ''camera:c'' 1 None None 8 0)]" for e and p :: json
    by (simp add: queue_eval)
  define p where "p = JObj (camera_payload ''POST'' ''c'' (create_body ''c'' ''door'' ''rtsp'' ''rtsp'' None (JObj []) (JList [])))"
  have q: "db_queue after_lease = [lease_row ''t'' ''w'' 60000001 1 (new_row ''q1'' ''/api/v1/cameras/'' p ''camera:c'' 1 None None 8 0)]"
    unfolding after_lease_def c p_def by (simp add: l del: q_step.simps)
  have cam: "db_cameras after_lease = db_cameras after_create" by (simp add: after_lease_def)
  have u: "fst (camera_update_op after_lease 2 ''c'' ''q2'' rename 8) =
      after_lease\<lparr>db_cameras := map (\<lambda>x. if cam_id x = ''c'' then update_camera_row rename 2 x else x) (db_cameras after_lease),
        db_queue := db_queue after_lease @ [new_row ''q2'' ''/api/v1/cameras/c'' (JObj (camera_payload ''PATCH'' ''c'' (patch_body rename)))
          ''camera:c'' 2 (Some ''q1'') None 8 2]\<rparr>"
    by (simp add: camera_update_op_def camera_with_id_def cam c still_creating_def q enqueue_def latest_row_def
        camera_key_def lease_row_def new_row_def coalescable_def Let_def rename_def)
  have d: "db_queue after_delete = cancel_with_dependents 3 ''q2''
      [lease_row ''t'' ''w'' 60000001 1 (new_row ''q1'' ''/api/v1/cameras/'' p ''camera:c'' 1 None None 8 0),
       new_row ''q2'' ''/api/v1/cameras/c'' (JObj (camera_payload ''PATCH'' ''c'' (patch_body rename))) ''camera:c'' 2 (Some ''q1'') None 8 2]"
    "db_cameras after_delete = []"
    by (simp_all add: after_delete_def camera_delete_op_def u q camera_with_id_def cam c update_camera_row_def
        latest_row_def camera_key_def lease_row_def new_row_def Let_def drop_camera_def)
  show ?thesis
    by (simp add: after_confirm_def complete_camera_def complete_def d cancel_with_dependents_def update_where_def
        lease_row_def new_row_def owned_def sql_greater_def succeed_row_def camera_payload_def p_def)
qed

lemma oldest_row_Some:
  assumes "oldest_row q k = Some r"
  shows "r \<in> set q" "sq_key r = k" "a \<in> set q \<Longrightarrow> sq_key a = k \<Longrightarrow> sq_version r \<le> sq_version a"
proof -
  obtain xs where xs: "sort_key sq_version (filter (\<lambda>r. sq_key r = k) q) = r # xs"
    using assms by (auto simp: oldest_row_def split: list.splits)
  have s: "set (r # xs) = {a \<in> set q. sq_key a = k}"
    using arg_cong [OF xs, of set] by auto
  then show "r \<in> set q" "sq_key r = k" by auto
  have "sorted (map sq_version (r # xs))" unfolding xs [symmetric] by (rule sorted_sort_key)
  then show "sq_version r \<le> sq_version a" if "a \<in> set q" "sq_key a = k"
    using s that by auto
qed

text \<open>
  Analytics wait for their camera: an event of a camera the centre does not know yet is stored
  unsynchronized and queued with the camera's first row, its registration, as dependency, so it
  cannot be leased while that row has not succeeded; the queue keeps its invariant.
\<close>

theorem event_waits_for_camera:
  assumes inv: "queue_inv (db_queue db)" and fresh: "uuid \<notin> sq_id ` set (db_queue db)"
    and unused: "\<forall>r \<in> set (db_queue db). sq_key r \<noteq> ''event:'' @ ev_id e"
    and cam: "camera_with_id db (ev_camera e) = Some c" "cam_server_id c = None"
    and add: "add_event stamp db now uuid e m = Inr (db', body)"
  shows "queue_inv (db_queue db') \<and> e\<lparr>ev_synced := False\<rparr> \<in> set (db_events db')
    \<and> (\<exists>r x. latest_row (db_queue db') (''event:'' @ ev_id e) = Some r
        \<and> x \<in> set (db_queue db') \<and> sq_key x = camera_key (ev_camera e) \<and> sq_dep r = Some (sq_id x)
        \<and> (sq_state x = Succeeded \<or> \<not> claimable (db_queue db') t k r))"
proof -
  from add cam obtain x where x: "oldest_row (db_queue db) (camera_key (ev_camera e)) = Some x"
    and db': "db_events db' = db_events db @ [e\<lparr>ev_synced := False\<rparr>]"
      "db_queue db' = fst (enqueue (db_queue db) uuid now ''/api/v1/sync/events''
         (JObj [(''events'', JList [event_json stamp e])]) (''event:'' @ ev_id e) m (Some (sq_id x)))"
    by (auto simp: add_event_def bindE_eq_Inr camera_dependency_def split: if_splits option.splits)
  note o = oldest_row_Some [OF x]
  let ?op = "Enqueue uuid now ''/api/v1/sync/events'' (JObj [(''events'', JList [event_json stamp e])])
      (''event:'' @ ev_id e) m (Some (sq_id x))"
  let ?n = "new_row uuid ''/api/v1/sync/events'' (JObj [(''events'', JList [event_json stamp e])])
      (''event:'' @ ev_id e) 1 None (Some (sq_id x)) m now"
  have "ordered x" using o(2) by (simp add: ordered_def camera_key_def)
  with o(1) have "\<exists>y \<in> set (db_queue db). sq_id y = sq_id x \<and> ordered y" by blast
  with fresh unused have ok: "op_ok (db_queue db) ?op" by simp
  have inv': "queue_inv (db_queue db')" unfolding db' by (rule enqueue_inv [OF inv ok])
  have q': "db_queue db' = db_queue db @ [?n]"
    unfolding db' using unused by (simp add: enqueue_def latest_row_None [THEN iffD2])
  have n: "latest_row (db_queue db') (''event:'' @ ev_id e) = Some ?n"
  proof (rule latest_rowI [OF inv'])
    fix a assume "a \<in> set (db_queue db')" "sq_key a = ''event:'' @ ev_id e"
    with unused have "a = ?n" unfolding q' by auto
    then show "sq_version a \<le> sq_version ?n" by simp
  qed (simp_all add: q' new_row_def)
  have "sq_state x = Succeeded \<or> \<not> claimable (db_queue db') t k ?n"
  proof (rule disjCI)
    assume "\<not> \<not> claimable (db_queue db') t k ?n"
    then have "dep_done (db_queue db') ?n" by (simp add: claimable_def)
    then obtain y where y: "y \<in> set (db_queue db')" "sq_id y = sq_id x" "sq_state y = Succeeded"
      by (auto simp: dep_done_def new_row_def)
    moreover have "x \<in> set (db_queue db')" using o(1) q' by simp
    ultimately have "y = x" using row_by_id [OF inv'] by simp
    with y show "sq_state x = Succeeded" by simp
  qed
  with inv' n o(1,2) db'(1) q' show ?thesis by (auto simp: new_row_def)
qed

definition demo_event :: event_row where
  "demo_event = \<lparr>ev_id = ''e'', ev_camera = ''c'', ev_type = ''zone_enter'', ev_payload = JObj [],
     ev_image_path = None, ev_synced = False, ev_created = 7, ev_image_id = None\<rparr>"

definition created_db :: edge_db where
  "created_db = empty_db\<lparr>db_cameras := [\<lparr>cam_id = ''c'', cam_server_id = None, cam_name = ''door'', cam_url = ''rtsp'',
      cam_stream_type = ''rtsp'', cam_location = None, cam_analytics = JObj [], cam_zones = JList [], cam_active = True,
      cam_sync_state = ''pending'', cam_created = 0, cam_updated = 0\<rparr>],
     db_queue := q_step 60 [] (Enqueue ''q1'' 0 ''/api/v1/cameras/'' JNull ''camera:c'' 8 None)\<rparr>"

theorem event_waits_for_camera_witness:
  "\<exists>db'. add_event (\<lambda>t. []) created_db 8 ''q2'' demo_event 8 = Inr (db', event_json (\<lambda>t. []) demo_event)
     \<and> queue_inv (db_queue db') \<and> length (db_queue db') = 2"
proof -
  have inv: "queue_inv (db_queue created_db)"
    unfolding created_db_def by (simp add: q_step_inv del: q_step.simps)
  have q: "db_queue created_db = [new_row ''q1'' ''/api/v1/cameras/'' JNull ''camera:c'' 1 None None 8 0]"
    by (simp add: created_db_def enqueue_def latest_row_def)
  have cam: "camera_with_id created_db ''c'' = Some (hd (db_cameras created_db))"
    "cam_server_id (hd (db_cameras created_db)) = None"
    by (simp_all add: camera_with_id_def created_db_def)
  have dep: "camera_dependency created_db ''c'' = Inr (Some ''q1'')"
    by (simp add: camera_dependency_def cam q oldest_row_def camera_key_def new_row_def)
  obtain db' where db': "add_event (\<lambda>t. []) created_db 8 ''q2'' demo_event 8 = Inr (db', event_json (\<lambda>t. []) demo_event)"
    "db_queue db' = fst (enqueue (db_queue created_db) ''q2'' 8 ''/api/v1/sync/events''
       (JObj [(''events'', JList [event_json (\<lambda>t. []) demo_event])]) ''event:e'' 8 (Some ''q1''))"
    by (simp add: add_event_def require_central_image_id_def or_else_def demo_event_def dep)
      (simp add: created_db_def empty_db_def)
  have "queue_inv (db_queue db')"
    using event_waits_for_camera [OF inv _ _ _ _ db'(1)] q cam by (simp add: demo_event_def new_row_def)
  moreover have "length (db_queue db') = 2" unfolding db' q by (simp add: enqueue_def latest_row_def new_row_def)
  ultimately show ?thesis using db'(1) by blast
qed

subsection \<open>The cache of persons\<close>

definition person_map :: "person_row list \<Rightarrow> ident \<Rightarrow> person_row option" where
  "person_map ps = map_of (map (\<lambda>p. (pe_server_id p, p)) ps)"

lemma person_map_Cons: "person_map (p # ps) = (person_map ps)(pe_server_id p \<mapsto> p)"
  by (simp add: person_map_def)

lemma upsert_person_map: "person_map (upsert_person ps p) = (person_map ps)(pe_server_id p \<mapsto> p)"
proof (cases "pe_server_id p \<in> pe_server_id ` set ps")
  case True
  have "person_map (map (\<lambda>x. if pe_server_id x = pe_server_id p then p else x) qs)
      = (\<lambda>i. if i = pe_server_id p \<and> i \<in> pe_server_id ` set qs then Some p else person_map qs i)" for qs
    by (induction qs) (auto simp: person_map_def fun_eq_iff)
  with True show ?thesis by (auto simp: upsert_person_def fun_eq_iff)
next
  case False
  then have "person_map ps (pe_server_id p) = None" by (auto simp: person_map_def map_of_eq_None_iff)
  then show ?thesis using False
    by (auto simp: upsert_person_def person_map_def map_add_def fun_eq_iff split: option.splits)
qed

lemma upserts_map:
  "person_map (foldl upsert_person ps people) i =
     (case person_map (rev people) i of None \<Rightarrow> person_map ps i | Some p \<Rightarrow> Some p)"
proof (induction people arbitrary: ps)
  case (Cons p people)
  have "person_map (rev people @ [p]) i = (case person_map (rev people) i of
      None \<Rightarrow> (if i = pe_server_id p then Some p else None) | Some q \<Rightarrow> Some q)"
    by (auto simp: person_map_def map_add_def split: option.splits)
  with Cons show ?case by (auto simp: upsert_person_map split: option.splits)
qed (simp add: person_map_def)

lemma person_map_filter:
  "person_map (filter (\<lambda>p. pe_server_id p \<in> S) ps) i = (if i \<in> S then person_map ps i else None)"
  by (induction ps) (auto simp: person_map_def)

text \<open>
  Replacing the cache is a full replacement: afterwards every person is exactly the last entry
  given for its id, whatever the cache held before, and nobody else remains.
\<close>

theorem replace_cache_exact:
  "person_map (db_persons (replace_cache db people)) = person_map (rev people)"
proof
  fix i
  have "person_map (rev people) i = None \<longleftrightarrow> i \<notin> pe_server_id ` set people"
    by (simp add: person_map_def map_of_eq_None_iff image_image)
  then show "person_map (db_persons (replace_cache db people)) i = person_map (rev people) i"
    by (auto simp: replace_cache_def person_map_filter upserts_map split: option.splits)
qed

end
