(* ===== verification/Edge_Auth.thy ===== *)
theory Edge_Auth
  imports Edge_Props
begin

section \<open>Local authorization and authentication\<close>

text \<open>
  Model of \<open>AuthorizationService\<close> (\<open>app/authorization.py\<close>) and \<open>AuthService\<close>
  (\<open>app/services.py\<close>). Arguments stand for what is outside: \<open>parse\<close> is
  \<open>datetime.fromisoformat\<close> after the \<open>Z\<close> suffix is replaced, \<open>render\<close> is \<open>str\<close> of a JSON value,
  and the replies of the central service are passed to each operation. A \<open>permissions\<close> value
  that is no list grants nothing.
\<close>

subsection \<open>Errors of the services\<close>

record ext_error =
  ee_code :: string
  ee_status :: int
  ee_retryable :: bool

datatype service_error =
    AuthorizationError string
  | AuthenticationError string
  | ConflictError string
  | ExternalError ext_error
  | PermanentContract string
  | PyError py_error

datatype parsed_time = Naive | Aware time

subsection \<open>Licence and permissions\<close>

definition role_permissions :: "string \<Rightarrow> string list" where
  "role_permissions role =
     (if role = ''super_admin'' \<or> role = ''admin'' then [''*'']
      else if role = ''va_user'' then [''camera.read'', ''camera.create'', ''camera.update'', ''camera.delete'',
        ''analytics.read'', ''analytics.write'', ''persons.read'', ''sync.read'']
      else if role = ''staff'' then [''persons.read'', ''persons.write'']
      else [])"

definition resource_name :: "string \<Rightarrow> string" where
  "resource_name r = (if r = ''camera'' then ''cameras'' else r)"

definition valid_license ::
  "(string \<Rightarrow> parsed_time option) \<Rightarrow> local_session \<Rightarrow> time \<Rightarrow> service_error + json" where
  "valid_license parse session now =
     (case ls_license session of
        None \<Rightarrow> Inl (AuthorizationError ''License is inactive'')
      | Some lic \<Rightarrow>
          if \<not> is_dict lic \<or> jget lic ''is_active'' \<noteq> Some (JBool True)
          then Inl (AuthorizationError ''License is inactive'')
          else (case jget lic ''valid_until'' of
              Some (JStr expiry) \<Rightarrow>
                (case parse expiry of
                   None \<Rightarrow> Inl (AuthorizationError ''License expiry is invalid'')
                 | Some Naive \<Rightarrow> Inl (AuthorizationError ''License expiry must include a timezone'')
                 | Some (Aware t) \<Rightarrow> if t \<le> now then Inl (AuthorizationError ''License is expired'') else Inr lic)
            | _ \<Rightarrow> Inl (AuthorizationError ''License expiry is unavailable'')))"

definition user_role :: "(json \<Rightarrow> string) \<Rightarrow> json \<Rightarrow> string" where
  "user_role render user = (case jget user ''role'' of None \<Rightarrow> [] | Some (JStr s) \<Rightarrow> s | Some v \<Rightarrow> render v)"

definition split_permission :: "string \<Rightarrow> string \<times> string" where
  "split_permission p = (takeWhile (\<lambda>c. c \<noteq> CHR ''.'') p, tl (dropWhile (\<lambda>c. c \<noteq> CHR ''.'') p))"

definition grant_covers :: "string \<Rightarrow> string \<Rightarrow> json \<Rightarrow> bool" where
  "grant_covers resource action grant \<longleftrightarrow> is_dict grant
     \<and> jget grant ''resource'' \<in> {Some (JStr resource), Some (JStr ''*'')}
     \<and> (case jget grant ''actions'' of
          Some (JList actions) \<Rightarrow> JStr action \<in> set actions \<or> JStr ''*'' \<in> set actions | _ \<Rightarrow> False)"

definition user_grants :: "json \<Rightarrow> json list" where
  "user_grants user = (case jget user ''permissions'' of None \<Rightarrow> [] | Some v \<Rightarrow> elements v)"

definition require ::
  "(string \<Rightarrow> parsed_time option) \<Rightarrow> (json \<Rightarrow> string) \<Rightarrow> local_session \<Rightarrow> time \<Rightarrow> string \<Rightarrow> service_error + unit" where
  "require parse render session now permission =
     bindE (valid_license parse session now) (\<lambda>lic.
       let granted = role_permissions (user_role render (ls_user session));
           (resource, action) = split_permission permission
       in if ''*'' \<in> set granted \<or> permission \<in> set granted then Inr ()
          else if \<exists>g \<in> set (user_grants (ls_user session)). grant_covers (resource_name resource) action g then Inr ()
          else Inl (AuthorizationError ''Insufficient permission''))"

definition license_max_cameras ::
  "(string \<Rightarrow> parsed_time option) \<Rightarrow> local_session \<Rightarrow> time \<Rightarrow> service_error + int" where
  "license_max_cameras parse session now =
     bindE (valid_license parse session now) (\<lambda>lic.
       case jget lic ''max_cameras'' of
         Some (JInt n) \<Rightarrow> if n < 1 then Inl (AuthorizationError ''Camera entitlement is unavailable'') else Inr n
       | _ \<Rightarrow> Inl (AuthorizationError ''Camera entitlement is unavailable''))"

definition module_of_event :: "string \<Rightarrow> string option" where
  "module_of_event event_type =
     (let e = py_lower event_type in
      if contains_sub ''intrusion'' e then Some ''intrusion_detection''
      else if contains_sub ''people'' e then Some ''people_counting''
      else if contains_sub ''face'' e then Some ''face_recognition''
      else if contains_sub ''zone'' e then Some ''zone_analytics''
      else None)"

definition licensed :: "json \<Rightarrow> string \<Rightarrow> bool" where
  "licensed lic feature \<longleftrightarrow>
     JStr feature \<in> set (case jget lic ''analytics_modules'' of None \<Rightarrow> [] | Some v \<Rightarrow> elements v)
     \<or> (case jget lic ''features'' of None \<Rightarrow> False | Some fs \<Rightarrow> jget fs feature = Some (JBool True))"

definition require_analytics_module ::
  "(string \<Rightarrow> parsed_time option) \<Rightarrow> local_session \<Rightarrow> time \<Rightarrow> string \<Rightarrow> service_error + unit" where
  "require_analytics_module parse session now event_type =
     bindE (valid_license parse session now) (\<lambda>lic.
       case module_of_event event_type of
         None \<Rightarrow> Inr ()
       | Some m \<Rightarrow> guardE (licensed lic m) (AuthorizationError (''Analytics module is not licensed: '' @ m)))"

definition require_feature ::
  "(string \<Rightarrow> parsed_time option) \<Rightarrow> local_session \<Rightarrow> time \<Rightarrow> string \<Rightarrow> service_error + unit" where
  "require_feature parse session now feature =
     bindE (valid_license parse session now) (\<lambda>lic.
       guardE (licensed lic feature) (AuthorizationError (''Feature is not licensed: '' @ feature)))"

subsection \<open>\<open>AuthService\<close>\<close>

text \<open>
  The calls to the centre are recorded, so that a property can say which were made. The replies:
  of the login, of the licence lookup, of the logout and of the refresh.
\<close>

datatype auth_call = CallLogin string string | CallLicense local_session | CallLogout local_session | CallRefresh local_session

definition license_expiry :: "(string \<Rightarrow> parsed_time option) \<Rightarrow> json \<Rightarrow> service_error + time" where
  "license_expiry parse lic =
     (case jget lic ''valid_until'' of
        Some (JStr s) \<Rightarrow>
          (case parse s of
             None \<Rightarrow> Inl (ExternalError \<lparr>ee_code = ''invalid_response'', ee_status = 502, ee_retryable = False\<rparr>)
           | Some Naive \<Rightarrow> Inl (ExternalError \<lparr>ee_code = ''invalid_response'', ee_status = 502, ee_retryable = False\<rparr>)
           | Some (Aware t) \<Rightarrow> Inr t)
      | _ \<Rightarrow> Inl (ExternalError \<lparr>ee_code = ''invalid_response'', ee_status = 502, ee_retryable = False\<rparr>))"

definition admit_session ::
  "(string \<Rightarrow> parsed_time option) \<Rightarrow> (json \<Rightarrow> string) \<Rightarrow> edge_db \<Rightarrow> time \<Rightarrow> local_session \<Rightarrow> service_error + json
    \<Rightarrow> service_error + edge_db \<times> local_session" where
  "admit_session parse render db now session license_reply =
     bindE license_reply (\<lambda>lic.
     bindE (license_expiry parse lic) (\<lambda>expiry.
       if expiry \<le> now \<or> jget lic ''is_active'' \<noteq> Some (JBool True)
       then Inl (AuthenticationError ''License is inactive or expired'')
       else let s = session\<lparr>ls_license := Some lic\<rparr> in
         (case session_save render db now s (Some expiry) of
            Inl e \<Rightarrow> Inl (PyError e)
          | Inr (db', row) \<Rightarrow> Inr (db', s))))"

definition auth_login ::
  "(string \<Rightarrow> parsed_time option) \<Rightarrow> (json \<Rightarrow> string) \<Rightarrow> edge_db \<Rightarrow> time \<Rightarrow> string \<Rightarrow> string
    \<Rightarrow> service_error + local_session \<Rightarrow> service_error + json
    \<Rightarrow> edge_db \<times> (service_error + local_session) \<times> auth_call list" where
  "auth_login parse render db now email password login_reply license_reply =
     (case login_reply of
        Inl e \<Rightarrow> (db, Inl e, [CallLogin email password])
      | Inr session \<Rightarrow>
          (case admit_session parse render db now session license_reply of
             Inr (db', s) \<Rightarrow> (db', Inr s, [CallLogin email password, CallLicense session])
           | Inl e \<Rightarrow> (db, Inl e, [CallLogin email password, CallLicense session, CallLogout session])))"

record logout_result =
  lo_logged_out :: bool
  lo_pending :: bool

definition auth_logout ::
  "edge_db \<Rightarrow> time \<Rightarrow> time \<Rightarrow> ident \<Rightarrow> ident \<Rightarrow> int \<Rightarrow> int \<Rightarrow> ext_error option \<Rightarrow> edge_db \<times> (service_error + logout_result)" where
  "auth_logout db now later uuid token max_attempts lease_seconds reply =
     (case session_get_record db of
        None \<Rightarrow> (db, Inr \<lparr>lo_logged_out = True, lo_pending = False\<rparr>)
      | Some record \<Rightarrow>
          if ss_status record \<noteq> ActiveSession then (db, Inr \<lparr>lo_logged_out = True, lo_pending = True\<rparr>)
          else (case session_begin_revocation db now uuid token (ss_generation record) max_attempts lease_seconds of
              (db1, None) \<Rightarrow> (db1, Inl (ConflictError ''Session changed during logout''))
            | (db1, Some (generation, item, claim_token)) \<Rightarrow>
                (case reply of
                   Some e \<Rightarrow>
                     if ee_status e \<in> {401, 403}
                     then (case complete_revocation db1 item claim_token ''auth-logout'' later generation of
                             (db2, completed) \<Rightarrow> (db2, Inr \<lparr>lo_logged_out = True, lo_pending = \<not> completed\<rparr>))
                     else let db2 = session_set_error db1 later generation (ee_code e);
                              (q, ok) = fail (db_queue db2) item claim_token ''auth-logout'' (ee_code e)
                                ''Central revocation failed'' False later
                          in (db2\<lparr>db_queue := q\<rparr>, Inr \<lparr>lo_logged_out = True, lo_pending = True\<rparr>)
                 | None \<Rightarrow>
                     (case complete_revocation db1 item claim_token ''auth-logout'' later generation of
                        (db2, completed) \<Rightarrow> (db2, Inr \<lparr>lo_logged_out = True, lo_pending = \<not> completed\<rparr>)))))"

definition license_unusable :: "local_session \<Rightarrow> bool" where
  "license_unusable s \<longleftrightarrow> (case ls_license s of None \<Rightarrow> True
     | Some lic \<Rightarrow> \<not> truthy lic \<or> jget lic ''is_active'' = Some (JBool False))"

definition expired_at :: "time option \<Rightarrow> time \<Rightarrow> bool" where
  "expired_at until now \<longleftrightarrow> (case until of None \<Rightarrow> True | Some t \<Rightarrow> t \<le> now)"

text \<open>\<open>hmac.compare_digest\<close> refuses texts that are not ASCII with a \<open>TypeError\<close>.\<close>

definition compare_digest :: "string \<Rightarrow> string \<Rightarrow> service_error + bool" where
  "compare_digest a b = (if ascii a \<and> ascii b then Inr (a = b) else Inl (PyError (LibraryError ''TypeError'')))"

definition check_digest :: "string \<Rightarrow> string \<Rightarrow> string \<Rightarrow> service_error + unit" where
  "check_digest m a b = bindE (compare_digest a b) (\<lambda>equal. guardE equal (AuthenticationError m))"

definition authenticate :: "edge_db \<Rightarrow> time \<Rightarrow> string \<Rightarrow> string \<Rightarrow> edge_db \<times> (service_error + local_session)" where
  "authenticate db now bearer session_token =
     (case session_get_record db of
        None \<Rightarrow> (db, Inl (AuthenticationError ''No local session''))
      | Some record \<Rightarrow>
          let s = ss_session record in
          if ss_status record \<noteq> ActiveSession then (db, Inl (AuthenticationError ''Session revocation is pending''))
          else if license_unusable s
          then (fst (session_clear db (Some (ss_generation record))), Inl (AuthenticationError ''License is inactive''))
          else if expired_at (ss_license_until record) now
          then (fst (session_clear db (Some (ss_generation record))), Inl (AuthenticationError ''License is expired''))
          else if ls_access_expires s \<le> now then (db, Inl (AuthenticationError ''Access token is expired''))
          else (db, bindE (check_digest ''Local session token mismatch'' (ls_access_token s) bearer) (\<lambda>u.
                    bindE (check_digest ''Local session token mismatch'' (ls_session_token s) session_token) (\<lambda>u.
                    Inr s))))"

definition auth_refresh ::
  "edge_db \<Rightarrow> time \<Rightarrow> string \<Rightarrow> string \<Rightarrow> ext_error + local_session \<Rightarrow> edge_db \<times> (service_error + local_session)" where
  "auth_refresh db now refresh_token session_token reply =
     (case session_get_record db of
        None \<Rightarrow> (db, Inl (AuthenticationError ''No active local session''))
      | Some record \<Rightarrow>
          let s = ss_session record; g = ss_generation record in
          if ss_status record \<noteq> ActiveSession then (db, Inl (AuthenticationError ''No active local session''))
          else if or_else (ls_refresh_token s) [] = []
          then (db, Inl (AuthenticationError ''Refresh token mismatch''))
          else (case bindE (check_digest ''Refresh token mismatch'' (or_else (ls_refresh_token s) []) refresh_token) (\<lambda>u.
                     check_digest ''Local session token mismatch'' (ls_session_token s) session_token) of
            Inl e \<Rightarrow> (db, Inl e)
          | Inr u \<Rightarrow>
          if expired_at (ss_license_until record) now
          then (fst (session_clear db (Some g)), Inl (AuthenticationError ''License is expired''))
          else if license_unusable s
          then (fst (session_clear db (Some g)), Inl (AuthenticationError ''License is inactive''))
          else (case reply of
                  Inl e \<Rightarrow> ((if ee_code e = ''refresh_uncertain'' \<or> ee_status e \<in> {401, 403}
                              then fst (session_clear db (Some g)) else db), Inl (ExternalError e))
                | Inr replacement \<Rightarrow>
                    (case session_replace_active db now replacement (the (ss_license_until record)) g of
                       (db', True) \<Rightarrow> (db', Inr replacement)
                     | (db', False) \<Rightarrow> (db', Inl (ConflictError ''Session changed during refresh''))))))"

definition license_status_valid :: "edge_db \<Rightarrow> time \<Rightarrow> bool" where
  "license_status_valid db now \<longleftrightarrow>
     (case session_get_record db of None \<Rightarrow> False
      | Some record \<Rightarrow> ss_status record = ActiveSession \<and> \<not> license_unusable (ss_session record)
          \<and> \<not> expired_at (ss_license_until record) now)"

subsection \<open>Properties\<close>

lemma check_digest_Inr: "check_digest m a b = Inr u \<longleftrightarrow> ascii a \<and> ascii b \<and> a = b"
  by (simp add: check_digest_def compare_digest_def bindE_eq_Inr guardE_def)

lemma valid_license_Inr:
  "valid_license parse session now = Inr lic \<longleftrightarrow> ls_license session = Some lic \<and> is_dict lic
     \<and> jget lic ''is_active'' = Some (JBool True)
     \<and> (\<exists>s t. jget lic ''valid_until'' = Some (JStr s) \<and> parse s = Some (Aware t) \<and> now < t)"
  by (auto simp: valid_license_def split: option.splits json.splits parsed_time.splits)

text \<open>
  Authorization is deny by default, exactly: an operation is permitted if and only if the session
  carries an active licence that has not expired and the role, or one of the grants of the
  user, covers it.
\<close>

theorem require_exact:
  "require parse render session now permission = Inr () \<longleftrightarrow>
     (\<exists>lic s t. ls_license session = Some lic \<and> is_dict lic \<and> jget lic ''is_active'' = Some (JBool True)
        \<and> jget lic ''valid_until'' = Some (JStr s) \<and> parse s = Some (Aware t) \<and> now < t)
     \<and> (''*'' \<in> set (role_permissions (user_role render (ls_user session)))
        \<or> permission \<in> set (role_permissions (user_role render (ls_user session)))
        \<or> (\<exists>g \<in> set (user_grants (ls_user session)).
             grant_covers (resource_name (fst (split_permission permission))) (snd (split_permission permission)) g))"
proof -
  have "require parse render session now permission = Inr () \<longleftrightarrow>
     (\<exists>lic. valid_license parse session now = Inr lic)
     \<and> (''*'' \<in> set (role_permissions (user_role render (ls_user session)))
        \<or> permission \<in> set (role_permissions (user_role render (ls_user session)))
        \<or> (\<exists>g \<in> set (user_grants (ls_user session)).
             grant_covers (resource_name (fst (split_permission permission))) (snd (split_permission permission)) g))"
    by (auto simp: require_def bindE_eq_Inr Let_def case_prod_unfold)
  then show ?thesis unfolding valid_license_Inr by blast
qed

lemma not_active_denied:
  assumes "\<forall>r. db_session db = Some r \<longrightarrow> ss_status r \<noteq> ActiveSession"
  shows "\<exists>e. snd (authenticate db now b t) = Inl e"
  using assms by (auto simp: authenticate_def session_get_record_def Let_def split: option.splits)

lemma complete_revocation_not_active:
  assumes "\<forall>r. db_session db = Some r \<longrightarrow> ss_status r \<noteq> ActiveSession"
    and "complete_revocation db item token owner now g = (db', c)"
  shows "\<forall>r. db_session db' = Some r \<longrightarrow> ss_status r \<noteq> ActiveSession"
  using assms by (auto simp: complete_revocation_def split: option.splits prod.splits if_splits)

text \<open>
  After a logout nobody is authenticated: whatever the centre answered, and whether or not the
  revocation could be delivered, every later authentication on the resulting database fails.
\<close>

theorem logout_denies:
  "\<exists>e. snd (authenticate (fst (auth_logout db now later uuid token m lease reply)) now' b t) = Inl e"
proof (rule not_active_denied, cases "db_session db")
  case None
  then show "\<forall>r. db_session (fst (auth_logout db now later uuid token m lease reply)) = Some r \<longrightarrow> ss_status r \<noteq> ActiveSession"
    by (simp add: auth_logout_def session_get_record_def)
next
  case (Some r)
  show "\<forall>r. db_session (fst (auth_logout db now later uuid token m lease reply)) = Some r \<longrightarrow> ss_status r \<noteq> ActiveSession"
  proof (cases "ss_status r = ActiveSession")
    case False
    with Some show ?thesis by (simp add: auth_logout_def session_get_record_def)
  next
    case True
    with Some have a: "active_at db (ss_generation r) = Some r" by (simp add: active_at_def)
    obtain db1 g item tok where b: "session_begin_revocation db now uuid token (ss_generation r) m lease = (db1, Some (g, item, tok))"
      by (simp add: session_begin_revocation_def a Let_def case_prod_unfold)
    have n: "\<forall>r. db_session db1 = Some r \<longrightarrow> ss_status r \<noteq> ActiveSession"
      using b by (auto simp: session_begin_revocation_def a Let_def split: prod.splits)
    have c: "\<forall>r. db_session (fst (complete_revocation db1 i t' o' later g')) = Some r \<longrightarrow> ss_status r \<noteq> ActiveSession" for i t' o' g'
      using complete_revocation_not_active [OF n, of i t' o' later g'] by (metis prod.collapse)
    have f: "\<forall>r. db_session (session_set_error db1 later g code) = Some r \<longrightarrow> ss_status r \<noteq> ActiveSession" for code
      using n by (auto simp: session_set_error_def)
    show ?thesis
    proof (cases reply)
      case None
      with b c Some True show ?thesis
        by (auto simp: auth_logout_def session_get_record_def split: prod.splits) (metis fst_conv)
    next
      case e: (Some e)
      with b c f Some True show ?thesis
        by (auto simp: auth_logout_def session_get_record_def Let_def split: prod.splits) (metis fst_conv)+
    qed
  qed
qed

text \<open>
  What a successful authentication guarantees: the stored session is active, its licence and its
  access token are unexpired, both tokens are the stored ones, and nothing was changed.
\<close>

theorem authenticate_sound:
  assumes "authenticate db now bearer token = (db', Inr s)"
  shows "db' = db \<and> (\<exists>r until. db_session db = Some r \<and> ss_session r = s \<and> ss_status r = ActiveSession
    \<and> \<not> license_unusable s \<and> ss_license_until r = Some until \<and> now < until \<and> now < ls_access_expires s
    \<and> ls_access_token s = bearer \<and> ls_session_token s = token)"
  using assms by (auto simp: authenticate_def session_get_record_def Let_def expired_at_def bindE_eq_Inr check_digest_Inr
      split: option.splits if_splits)

definition demo_license :: json where
  "demo_license = JObj [(''is_active'', JBool True), (''valid_until'', JStr ''t'')]"

definition demo_parse :: "string \<Rightarrow> parsed_time option" where
  "demo_parse s = Some (Aware 1000)"

definition demo_login :: edge_db where
  "demo_login = fst (auth_login demo_parse (\<lambda>v. []) empty_db 0 ''m'' ''p'' (Inr demo_session) (Inr demo_license))"

lemma demo_login_eq:
  "demo_login = empty_db\<lparr>db_session := Some \<lparr>ss_session = demo_session\<lparr>ls_license := Some demo_license\<rparr>,
     ss_user_id = ''u1'', ss_license_until = Some 1000, ss_updated = 0, ss_generation = 1,
     ss_status = ActiveSession, ss_last_error = None\<rparr>\<rparr>"
  by (simp add: demo_login_def auth_login_def admit_session_def license_expiry_def demo_license_def demo_parse_def
      session_save_def empty_db_def demo_session_def user_id_of_def cancel_revocations_def update_where_def Let_def)

theorem authenticate_sound_witness:
  "fst (authenticate demo_login 500 ''a'' ''s'') = demo_login"
proof -
  have "authenticate demo_login 500 ''a'' ''s''
      = (fst (authenticate demo_login 500 ''a'' ''s''), Inr (demo_session\<lparr>ls_license := Some demo_license\<rparr>))"
    by (simp add: demo_login_eq authenticate_def session_get_record_def Let_def license_unusable_def demo_license_def
        demo_session_def expired_at_def check_digest_def compare_digest_def ascii_def guardE_def)
  from authenticate_sound [OF this] show ?thesis by blast
qed

text \<open>
  Login and authentication agree: after a successful login the session's own tokens, which the
  centre issues in ASCII, authenticate it at every moment before the access token and the licence
  expire.
\<close>

theorem login_then_authenticate:
  assumes "auth_login parse render db now email password (Inr session) (Inr lic) = (db', Inr s, calls)"
    and "jget lic ''valid_until'' = Some (JStr v)" "parse v = Some (Aware until)"
    and "now' < until" "now' < ls_access_expires session" "ascii (ls_access_token session)" "ascii (ls_session_token session)"
  shows "authenticate db' now' (ls_access_token session) (ls_session_token session) = (db', Inr s)"
proof -
  have e: "license_expiry parse lic = Inr until" using assms(2,3) by (simp add: license_expiry_def)
  have act: "jget lic ''is_active'' = Some (JBool True)" and s: "s = session\<lparr>ls_license := Some lic\<rparr>"
    and d: "\<exists>r. db_session db' = Some r \<and> ss_session r = s \<and> ss_status r = ActiveSession \<and> ss_license_until r = Some until"
    using assms(1) by (auto simp: auth_login_def admit_session_def e session_save_def Let_def
        split: sum.splits if_splits prod.splits)
  have "truthy lic" using act by (cases lic) auto
  then have "\<not> license_unusable s" using act s by (simp add: license_unusable_def)
  with d s assms(4-) show ?thesis
    by (auto simp: authenticate_def session_get_record_def Let_def expired_at_def check_digest_def compare_digest_def guardE_def)
qed

theorem login_then_authenticate_witness:
  "\<exists>s. authenticate demo_login 500 ''a'' ''s'' = (demo_login, Inr s)"
proof -
  obtain s calls where l: "auth_login demo_parse (\<lambda>v. []) empty_db 0 ''m'' ''p'' (Inr demo_session) (Inr demo_license)
      = (demo_login, Inr s, calls)"
    by (simp add: demo_login_def auth_login_def admit_session_def license_expiry_def demo_license_def demo_parse_def
      session_save_def empty_db_def demo_session_def user_id_of_def Let_def)
  from login_then_authenticate [OF l, of "''t''" 1000 500]
  have "authenticate demo_login 500 (ls_access_token demo_session) (ls_session_token demo_session) = (demo_login, Inr s)"
    by (simp add: demo_license_def demo_parse_def demo_session_def ascii_def)
  then show ?thesis by (auto simp: demo_session_def)
qed

text \<open>
  A login that fails after the centre accepted it leaves no trace: the database is unchanged and
  the session that was opened at the centre is closed again.
\<close>

theorem failed_login_undone:
  assumes "auth_login parse render db now email password (Inr session) license_reply = (db', Inl e, calls)"
  shows "db' = db \<and> CallLogout session \<in> set calls"
  using assms by (auto simp: auth_login_def split: sum.splits prod.splits)

theorem failed_login_undone_witness:
  "CallLogout demo_session \<in> set (snd (snd (auth_login demo_parse (\<lambda>v. []) empty_db 2000 ''m'' ''p''
     (Inr demo_session) (Inr demo_license))))"
proof -
  have "auth_login demo_parse (\<lambda>v. []) empty_db 2000 ''m'' ''p'' (Inr demo_session) (Inr demo_license)
      = (empty_db, Inl (AuthenticationError ''License is inactive or expired''),
         [CallLogin ''m'' ''p'', CallLicense demo_session, CallLogout demo_session])"
    by (simp add: auth_login_def admit_session_def license_expiry_def demo_license_def demo_parse_def)
  from failed_login_undone [OF this] show ?thesis
    unfolding \<open>auth_login demo_parse (\<lambda>v. []) empty_db 2000 ''m'' ''p'' (Inr demo_session) (Inr demo_license) = _\<close> by simp
qed

end
