(* ===== verification/Edge_Sync.thy ===== *)
theory Edge_Sync
  imports Edge_Auth
begin

section \<open>The edge services and the synchronization pass\<close>

text \<open>
  Model of \<open>CameraService\<close>, \<open>AnalyticsService\<close>, \<open>PersonService\<close> and \<open>SyncService\<close>
  (\<open>app/services.py\<close>). In \<open>flush_once\<close> the central service is the argument \<open>central\<close>: the reply to
  the \<open>n\<close>-th call; \<open>clock n\<close> is the time read for the \<open>n\<close>-th step. A pass is modelled without
  interference of other tasks between its transactions.
\<close>

subsection \<open>Services guarded by the authorization\<close>

text \<open>What a service needs from its session: the parser, \<open>str\<close>, the session and the clock.\<close>

record caller =
  ca_parse :: "string \<Rightarrow> parsed_time option"
  ca_render :: "json \<Rightarrow> string"
  ca_session :: local_session
  ca_now :: time

definition allowed :: "caller \<Rightarrow> string \<Rightarrow> service_error + unit" where
  "allowed c permission = require (ca_parse c) (ca_render c) (ca_session c) (ca_now c) permission"

definition lift_py :: "py_error + 'a \<Rightarrow> service_error + 'a" where
  "lift_py r = (case r of Inl e \<Rightarrow> Inl (PyError e) | Inr x \<Rightarrow> Inr x)"

definition camera_service_create ::
  "caller \<Rightarrow> edge_db \<Rightarrow> ident \<Rightarrow> ident \<Rightarrow> camera_create \<Rightarrow> int \<Rightarrow> service_error + edge_db \<times> camera_row" where
  "camera_service_create c db camera_id uuid p max_attempts =
     bindE (allowed c ''camera.create'') (\<lambda>u.
     bindE (license_max_cameras (ca_parse c) (ca_session c) (ca_now c)) (\<lambda>n.
       case camera_create_op db (ca_now c) camera_id uuid p n max_attempts of
         Inl e \<Rightarrow> if e = ValueError ''license camera limit reached''
                   then Inl (ConflictError ''license camera limit reached'') else Inl (PyError e)
       | Inr r \<Rightarrow> Inr r))"

definition camera_service_list :: "caller \<Rightarrow> edge_db \<Rightarrow> nat \<Rightarrow> nat \<Rightarrow> service_error + camera_row list \<times> nat" where
  "camera_service_list c db limit off = bindE (allowed c ''camera.read'') (\<lambda>u. Inr (camera_list db limit off))"

definition camera_service_get :: "caller \<Rightarrow> edge_db \<Rightarrow> ident \<Rightarrow> service_error + camera_row option" where
  "camera_service_get c db i = bindE (allowed c ''camera.read'') (\<lambda>u. Inr (camera_get db i))"

definition camera_service_update ::
  "caller \<Rightarrow> edge_db \<Rightarrow> ident \<Rightarrow> ident \<Rightarrow> camera_update \<Rightarrow> int \<Rightarrow> service_error + edge_db \<times> camera_row option" where
  "camera_service_update c db i uuid p max_attempts =
     bindE (allowed c ''camera.update'') (\<lambda>u.
     bindE (if cu_analytics p \<noteq> None \<or> cu_zones p \<noteq> None
            then require_feature (ca_parse c) (ca_session c) (ca_now c) ''zone_analytics'' else Inr ()) (\<lambda>u.
       Inr (camera_update_op db (ca_now c) i uuid p max_attempts)))"

definition camera_service_delete :: "caller \<Rightarrow> edge_db \<Rightarrow> ident \<Rightarrow> ident \<Rightarrow> int \<Rightarrow> service_error + edge_db \<times> bool" where
  "camera_service_delete c db i uuid max_attempts =
     bindE (allowed c ''camera.delete'') (\<lambda>u. Inr (camera_delete_op db (ca_now c) i uuid max_attempts))"

definition analytics_list :: "caller \<Rightarrow> edge_db \<Rightarrow> nat \<Rightarrow> nat \<Rightarrow> service_error + event_row list \<times> nat" where
  "analytics_list c db limit off = bindE (allowed c ''analytics.read'') (\<lambda>u. Inr (list_events db limit off))"

definition may_record :: "caller \<Rightarrow> string \<Rightarrow> service_error + unit" where
  "may_record c event_type =
     bindE (allowed c ''analytics.write'') (\<lambda>u. require_analytics_module (ca_parse c) (ca_session c) (ca_now c) event_type)"

definition analytics_event ::
  "(time \<Rightarrow> string) \<Rightarrow> caller \<Rightarrow> edge_db \<Rightarrow> ident \<Rightarrow> event_row \<Rightarrow> int \<Rightarrow> service_error + edge_db \<times> json" where
  "analytics_event stamp c db uuid e max_attempts =
     bindE (may_record c (ev_type e)) (\<lambda>u. lift_py (add_event stamp db (ca_now c) uuid e max_attempts))"

definition analytics_alert ::
  "(time \<Rightarrow> string) \<Rightarrow> caller \<Rightarrow> edge_db \<Rightarrow> ident \<Rightarrow> alert_row \<Rightarrow> int \<Rightarrow> service_error + edge_db \<times> json" where
  "analytics_alert stamp c db uuid a max_attempts =
     bindE (may_record c ''intrusion'') (\<lambda>u. lift_py (add_alert stamp db (ca_now c) uuid a max_attempts))"

definition analytics_people_count ::
  "(time \<Rightarrow> string) \<Rightarrow> caller \<Rightarrow> edge_db \<Rightarrow> ident \<Rightarrow> count_row \<Rightarrow> int \<Rightarrow> service_error + edge_db \<times> json" where
  "analytics_people_count stamp c db uuid n max_attempts =
     bindE (may_record c ''people'') (\<lambda>u. lift_py (add_people_count stamp db (ca_now c) uuid n max_attempts))"

definition person_service_list :: "caller \<Rightarrow> edge_db \<Rightarrow> nat \<Rightarrow> nat \<Rightarrow> service_error + person_row list \<times> nat" where
  "person_service_list c db limit off = bindE (allowed c ''persons.read'') (\<lambda>u. Inr (person_list db limit off))"

subsection \<open>One item of a pass\<close>

datatype central_call = Logout local_session | Request string string json

datatype item_error = ContractError string | CentralError ext_error | Uncaught string

datatype finish = FinishPlain | FinishCamera string string | FinishRevocation int

type_synonym central = "nat \<Rightarrow> central_call \<Rightarrow> ext_error + json"

definition payload_str :: "json \<Rightarrow> string \<Rightarrow> string \<Rightarrow> string" where
  "payload_str p k d = (case jget p k of Some (JStr s) \<Rightarrow> s | _ \<Rightarrow> d)"

definition attempt_revocation ::
  "central \<Rightarrow> nat \<Rightarrow> session_row \<Rightarrow> json \<Rightarrow> (item_error + finish) \<times> nat" where
  "attempt_revocation central n record payload =
     (case jget payload ''generation'' of
        Some (JInt g) \<Rightarrow>
          if ss_status record \<noteq> RevocationPending \<or> g \<noteq> ss_generation record then (Inr FinishPlain, n)
          else (case central n (Logout (ss_session record)) of
                  Inr _ \<Rightarrow> (Inr (FinishRevocation g), n + 1)
                | Inl e \<Rightarrow> if ee_status e \<in> {401, 403} then (Inr (FinishRevocation g), n + 1)
                            else (Inl (CentralError e), n + 1))
      | _ \<Rightarrow> (Inl (Uncaught ''generation''), n))"

text \<open>The main request of an item; a camera that is already gone counts as deleted.\<close>

definition send_body ::
  "central \<Rightarrow> nat \<Rightarrow> json \<Rightarrow> string \<Rightarrow> (item_error + json) \<times> nat" where
  "send_body central n payload endpoint =
     (let verb = payload_str payload ''_method'' ''POST'';
          body = (case jget payload ''body'' of None \<Rightarrow> payload | Some b \<Rightarrow> b) in
      if verb \<noteq> ''PATCH'' \<or> truthy body
      then (case central n (Request verb endpoint body) of
              Inr data \<Rightarrow> (Inr data, n + 1)
            | Inl e \<Rightarrow> if jget payload ''_kind'' = Some (JStr ''camera'') \<and> verb = ''DELETE'' \<and> ee_status e = 404
                        then (Inr (JObj []), n + 1) else (Inl (CentralError e), n + 1))
      else (Inr (JObj []), n))"

definition send_analytics :: "central \<Rightarrow> nat \<Rightarrow> json \<Rightarrow> string \<Rightarrow> (item_error + unit) \<times> nat" where
  "send_analytics central n payload endpoint =
     (case jget payload ''analytics'' of
        None \<Rightarrow> (Inr (), n)
      | Some a \<Rightarrow>
          if truthy a
          then (case central n (Request ''PATCH'' (endpoint @ ''/analytics-config'') a) of
                  Inr _ \<Rightarrow> (Inr (), n + 1) | Inl e \<Rightarrow> (Inl (CentralError e), n + 1))
          else (Inr (), n))"

definition confirmed_id :: "(json \<Rightarrow> string) \<Rightarrow> json \<Rightarrow> string \<Rightarrow> string" where
  "confirmed_id render data local_id =
     (if is_dict data then (case jget data ''id'' of None \<Rightarrow> local_id | Some (JStr s) \<Rightarrow> s | Some v \<Rightarrow> render v)
      else local_id)"

definition attempt_delivery ::
  "(json \<Rightarrow> string) \<Rightarrow> central \<Rightarrow> nat \<Rightarrow> json \<Rightarrow> string \<Rightarrow> (item_error + finish) \<times> nat" where
  "attempt_delivery render central n payload endpoint =
     (case send_body central n payload endpoint of
        (Inl e, n1) \<Rightarrow> (Inl e, n1)
      | (Inr data, n1) \<Rightarrow>
          (case send_analytics central n1 payload endpoint of
             (Inl e, n2) \<Rightarrow> (Inl e, n2)
           | (Inr _, n2) \<Rightarrow>
               if jget payload ''_kind'' = Some (JStr ''camera'') \<and> payload_str payload ''_method'' ''POST'' \<noteq> ''DELETE''
               then (case jget payload ''_local_id'' of
                       None \<Rightarrow> (Inl (Uncaught ''_local_id''), n2)
                     | Some v \<Rightarrow>
                         let local_id = (case v of JStr s \<Rightarrow> s | _ \<Rightarrow> render v);
                             server_id = confirmed_id render data local_id
                         in if server_id \<noteq> local_id
                            then (Inl (ContractError ''central camera identity differs from canonical UUID''), n2)
                            else (Inr (FinishCamera local_id server_id), n2))
               else (Inr FinishPlain, n2)))"

definition attempt_item ::
  "(json \<Rightarrow> string) \<Rightarrow> central \<Rightarrow> nat \<Rightarrow> session_row \<Rightarrow> json sync_row \<Rightarrow> (item_error + finish) \<times> nat" where
  "attempt_item render central n record item =
     (if jget (sq_payload item) ''_kind'' = Some (JStr ''session_revoke'')
      then attempt_revocation central n record (sq_payload item)
      else attempt_delivery render central n (sq_payload item) (sq_endpoint item))"

record tally =
  t_synced :: nat
  t_failed :: nat
  t_dead :: nat

definition finish_item ::
  "edge_db \<Rightarrow> time \<Rightarrow> ident \<Rightarrow> ident \<Rightarrow> ident \<Rightarrow> finish \<Rightarrow> edge_db \<times> bool" where
  "finish_item db now item token owner f =
     (case f of
        FinishPlain \<Rightarrow> complete_item db item token owner now
      | FinishCamera local_id server_id \<Rightarrow> complete_camera db item token owner now local_id server_id
      | FinishRevocation g \<Rightarrow> complete_revocation db item token owner now g)"

definition fail_item ::
  "edge_db \<Rightarrow> time \<Rightarrow> ident \<Rightarrow> ident \<Rightarrow> ident \<Rightarrow> string \<Rightarrow> string \<Rightarrow> bool \<Rightarrow> edge_db \<times> bool" where
  "fail_item db now item token owner code message permanent =
     (case fail (db_queue db) item token owner code message permanent now of (q, ok) \<Rightarrow> (db\<lparr>db_queue := q\<rparr>, ok))"

definition permanent_error :: "ext_error \<Rightarrow> bool" where
  "permanent_error e \<longleftrightarrow> \<not> ee_retryable e \<and> 400 \<le> ee_status e \<and> ee_status e < 500"

definition sync_item ::
  "(json \<Rightarrow> string) \<Rightarrow> central \<Rightarrow> (nat \<Rightarrow> time) \<Rightarrow> int \<Rightarrow> session_row \<Rightarrow> ident \<Rightarrow> ident
    \<Rightarrow> edge_db \<times> nat \<times> tally \<Rightarrow> json sync_row \<Rightarrow> item_error + edge_db \<times> nat \<times> tally" where
  "sync_item render central clock max_attempts record token owner state item =
     (case state of (db, n, t) \<Rightarrow>
       (case attempt_item render central n record item of
          (Inr f, n') \<Rightarrow>
            (case finish_item db (clock n') (sq_id item) token owner f of
               (db', completed) \<Rightarrow> Inr (db', n' + 1, if completed then t\<lparr>t_synced := t_synced t + 1\<rparr> else t))
        | (Inl (ContractError m), n') \<Rightarrow>
            (case fail_item db (clock n') (sq_id item) token owner ''contract_error'' m True of
               (db', ok) \<Rightarrow> Inr (db', n' + 1, if ok then t\<lparr>t_dead := t_dead t + 1\<rparr> else t))
        | (Inl (CentralError e), n') \<Rightarrow>
            (case fail_item db (clock n') (sq_id item) token owner (ee_code e) ''Central request failed'' (permanent_error e) of
               (db', ok) \<Rightarrow> Inr (db', n' + 1,
                 if \<not> ok then t
                 else if permanent_error e \<or> max_attempts \<le> sq_attempts item
                 then t\<lparr>t_failed := t_failed t + 1, t_dead := t_dead t + 1\<rparr>
                 else t\<lparr>t_failed := t_failed t + 1\<rparr>))
        | (Inl (Uncaught m), n') \<Rightarrow> Inl (Uncaught m)))"

fun sync_items ::
  "(json \<Rightarrow> string) \<Rightarrow> central \<Rightarrow> (nat \<Rightarrow> time) \<Rightarrow> int \<Rightarrow> session_row \<Rightarrow> ident \<Rightarrow> ident
    \<Rightarrow> edge_db \<times> nat \<times> tally \<Rightarrow> json sync_row list \<Rightarrow> item_error + edge_db \<times> nat \<times> tally" where
  "sync_items render central clock m record token owner state [] = Inr state"
| "sync_items render central clock m record token owner state (item # items) =
     bindE (sync_item render central clock m record token owner state item) (\<lambda>state'.
       sync_items render central clock m record token owner state' items)"

definition no_tally :: tally where
  "no_tally = \<lparr>t_synced = 0, t_failed = 0, t_dead = 0\<rparr>"

definition flush_once ::
  "(json \<Rightarrow> string) \<Rightarrow> central \<Rightarrow> (nat \<Rightarrow> time) \<Rightarrow> int \<Rightarrow> int \<Rightarrow> int \<Rightarrow> int \<Rightarrow> edge_db \<Rightarrow> ident \<Rightarrow> ident \<Rightarrow> int
    \<Rightarrow> (item_error + py_error) + edge_db \<times> nat \<times> tally" where
  "flush_once render central clock lease max_attempts succeeded_days dead_days db token owner limit =
     (case session_get_record db of
        None \<Rightarrow> Inr (db, 0, no_tally)
      | Some record \<Rightarrow>
          let key = (if ss_status record = RevocationPending then Some revoke_key else None) in
          (case claim lease (db_queue db) token (clock 0) owner limit key of
             Inl e \<Rightarrow> Inl (Inr e)
           | Inr (q, items) \<Rightarrow>
               (case sync_items render central clock max_attempts record token owner (db\<lparr>db_queue := q\<rparr>, 1, no_tally) items of
                  Inl e \<Rightarrow> Inl (Inl e)
                | Inr (db', n, t) \<Rightarrow>
                    Inr (db'\<lparr>db_queue := fst (purge_retained (db_queue db') (clock n) succeeded_days dead_days)\<rparr>,
                         length items, t))))"

end
