(* ===== verification/Edge_Sync_Props.thy ===== *)
theory Edge_Sync_Props
  imports Edge_Sync
begin

section \<open>A synchronization pass settles what it claimed\<close>

text \<open>
  The loop of \<open>flush_once\<close> keeps the set of rows that carry the token of the pass equal to the
  items it still has to treat; at the end no row does, and the counters account for every item.
\<close>

definition holding :: "'p queue \<Rightarrow> ident \<Rightarrow> ident \<Rightarrow> time \<Rightarrow> ident set \<Rightarrow> bool" where
  "holding q token owner e S \<longleftrightarrow>
     (\<forall>r \<in> set q. sq_token r = Some token \<longrightarrow> sq_id r \<in> S \<and> sq_owner r = Some owner \<and> sq_lease r = Some e)
     \<and> (\<forall>i \<in> S. \<exists>r \<in> set q. sq_id r = i \<and> sq_token r = Some token)"

lemma holding_row:
  assumes inv: "queue_inv q" and h: "holding q token owner e S" and i: "i \<in> S" and now: "now < e"
  obtains r where "r \<in> set q" "owned i token owner now r"
proof -
  from h i obtain r where r: "r \<in> set q" "sq_id r = i" "sq_token r = Some token" by (auto simp: holding_def)
  moreover have "sq_state r = Inflight" using row_okD(1) [OF inv r(1)] r(3) by (simp add: lease_ok_def)
  ultimately have "owned i token owner now r" using h now by (auto simp: holding_def owned_def sql_greater_def)
  with r(1) show ?thesis by (rule that)
qed

lemma holding_update:
  assumes inv: "queue_inv q" and h: "holding q token owner e S"
    and P: "\<And>r. r \<in> set q \<Longrightarrow> P r \<Longrightarrow> sq_id r = i" "\<And>r. r \<in> set q \<Longrightarrow> sq_id r = i \<Longrightarrow> sq_token r = Some token \<Longrightarrow> P r"
    and f: "\<And>r. sq_id (f r) = sq_id r" "\<And>r. sq_token (f r) = None"
  shows "holding (update_where P f q) token owner e (S - {i})"
  unfolding holding_def
proof (rule conjI; intro ballI impI)
  fix r' assume u: "r' \<in> set (update_where P f q)" and t: "sq_token r' = Some token"
  from u obtain r where r: "r \<in> set q" "r' = (if P r then f r else r)" by (rule update_whereE)
  with t f(2) have n: "\<not> P r" "r' = r" by (auto split: if_splits)
  with P(2) r(1) t have "sq_id r \<noteq> i" by auto
  with h r(1) n t show "sq_id r' \<in> S - {i} \<and> sq_owner r' = Some owner \<and> sq_lease r' = Some e"
    by (auto simp: holding_def)
next
  fix j assume j: "j \<in> S - {i}"
  with h obtain r where r: "r \<in> set q" "sq_id r = j" "sq_token r = Some token" by (auto simp: holding_def)
  with P(1) j have "\<not> P r" by auto
  with r show "\<exists>r \<in> set (update_where P f q). sq_id r = j \<and> sq_token r = Some token"
    using in_update_other [OF r(1)] by blast
qed

lemma complete_settles:
  assumes inv: "queue_inv q" and h: "holding q token owner e S" and i: "i \<in> S" and now: "now < e"
  shows "holding (fst (complete q i token owner now)) token owner e (S - {i})"
    "snd (complete q i token owner now) \<noteq> None"
proof -
  from holding_row [OF inv h i now] obtain r where r: "r \<in> set q" "owned i token owner now r" .
  then show "snd (complete q i token owner now) \<noteq> None" by (auto simp: complete_def find_None_iff)
  show "holding (fst (complete q i token owner now)) token owner e (S - {i})"
    unfolding complete_def fst_conv
  proof (rule holding_update [OF inv h])
    fix s assume s: "s \<in> set q" "sq_id s = i" "sq_token s = Some token"
    then have "s = r" using row_by_id [OF inv s(1) r(1)] r(2) by (simp add: owned_def)
    with r show "owned i token owner now s" by simp
  qed (auto simp: owned_def succeed_row_def)
qed

lemma fail_settles:
  assumes inv: "queue_inv q" and h: "holding q token owner e S" and i: "i \<in> S" and now: "now < e"
  shows "holding (fst (fail q i token owner code message permanent now)) token owner e (S - {i})"
    "snd (fail q i token owner code message permanent now)"
proof -
  from holding_row [OF inv h i now] obtain r where r: "r \<in> set q" "owned i token owner now r" .
  let ?F = "fail q i token owner code message permanent now"
  show "snd ?F" using fail_outcome [OF inv r, of code message permanent "fst ?F" "snd ?F"] by simp
  obtain row where row: "List.find (owned i token owner now) q = Some row"
    using r by (cases "List.find (owned i token owner now) q") (auto simp: find_None_iff)
  have "holding (update_where (\<lambda>r. sq_id r = i \<and> sq_token r = Some token \<and> sq_owner r = Some owner)
      (fail_row dead code message permanent delay now) q) token owner e (S - {i})" for dead delay
    by (rule holding_update [OF inv h]) (use h in \<open>auto simp: holding_def fail_row_def\<close>)
  with row show "holding (fst ?F) token owner e (S - {i})" by (simp add: fail_def Let_def)
qed

lemma mark_synced_queue [simp]: "db_queue (mark_synced key db) = db_queue db"
  by (simp add: mark_synced_def Let_def)

lemma finish_item_eq:
  "db_queue (fst (finish_item db now i token owner f)) = fst (complete (db_queue db) i token owner now)"
  "snd (finish_item db now i token owner f) \<longleftrightarrow> snd (complete (db_queue db) i token owner now) \<noteq> None"
proof -
  have q: "fst (complete (db_queue db) i token owner now) = db_queue db"
    if "snd (complete (db_queue db) i token owner now) = None"
    using that by (auto simp: complete_def update_where_def find_None_iff intro!: map_idI)
  then show "db_queue (fst (finish_item db now i token owner f)) = fst (complete (db_queue db) i token owner now)"
    by (auto simp: finish_item_def complete_item_def complete_camera_def complete_revocation_def
        case_prod_unfold split: finish.splits option.splits)
  show "snd (finish_item db now i token owner f) \<longleftrightarrow> snd (complete (db_queue db) i token owner now) \<noteq> None"
    by (auto simp: finish_item_def complete_item_def complete_camera_def complete_revocation_def
        case_prod_unfold split: finish.splits option.splits)
qed

lemma fail_item_eq:
  "db_queue (fst (fail_item db now i token owner code message permanent)) =
     fst (fail (db_queue db) i token owner code message permanent now)"
  "snd (fail_item db now i token owner code message permanent) =
     snd (fail (db_queue db) i token owner code message permanent now)"
  by (simp_all add: fail_item_def case_prod_unfold)

text \<open>One more item accounted for: synchronized, failed, or dead at once.\<close>

definition one_more :: "tally \<Rightarrow> tally \<Rightarrow> bool" where
  "one_more t t' \<longleftrightarrow> t_synced t + t_failed t \<le> t_synced t' + t_failed t'
     \<and> t_synced t' + t_failed t' \<le> t_synced t + t_failed t + 1
     \<and> t_synced t' + t_failed t' + t_dead t' \<ge> t_synced t + t_failed t + t_dead t + 1"

lemma sync_item_settles:
  assumes inv: "queue_inv (db_queue db)" and h: "holding (db_queue db) token owner e S" and i: "sq_id item \<in> S"
    and clock: "\<And>n. clock n < e"
    and s: "sync_item render central clock m record token owner (db, n, t) item = Inr (db', n', t')"
  shows "queue_inv (db_queue db') \<and> holding (db_queue db') token owner e (S - {sq_id item}) \<and> one_more t t'"
proof -
  note c = complete_settles [OF inv h i clock]
  note f = fail_settles [OF inv h i clock]
  obtain res k where a: "attempt_item render central n record item = (res, k)" by fastforce
  show ?thesis
  proof (cases res)
    case (Inr fin)
    with s a have "db' = fst (finish_item db (clock k) (sq_id item) token owner fin)" "t' = t\<lparr>t_synced := t_synced t + 1\<rparr>"
      using c(2) [of k] by (auto simp: sync_item_def case_prod_unfold finish_item_eq split: if_splits)
    then show ?thesis using c(1) [of k] complete_inv [OF inv] by (simp add: finish_item_eq one_more_def)
  next
    case (Inl err)
    show ?thesis
    proof (cases err)
      case (ContractError msg)
      with Inl s a have "db' = fst (fail_item db (clock k) (sq_id item) token owner ''contract_error'' msg True)"
        "t' = t\<lparr>t_dead := t_dead t + 1\<rparr>"
        using f(2) [of _ _ _ k] by (auto simp: sync_item_def case_prod_unfold fail_item_eq split: if_splits)
      then show ?thesis using f(1) fail_inv [OF inv] by (simp add: fail_item_eq one_more_def)
    next
      case (CentralError ee)
      with Inl s a have d: "db' = fst (fail_item db (clock k) (sq_id item) token owner (ee_code ee) ''Central request failed'' (permanent_error ee))"
        by (auto simp: sync_item_def case_prod_unfold split: if_splits)
      have "one_more t t'" using CentralError Inl s a f(2)
        by (auto simp: sync_item_def case_prod_unfold fail_item_eq one_more_def split: if_splits)
      then show ?thesis using d f(1) fail_inv [OF inv] by (simp add: fail_item_eq)
    next
      case (Uncaught msg)
      with Inl s a show ?thesis by (simp add: sync_item_def)
    qed
  qed
qed

lemma sync_items_settle:
  assumes "queue_inv (db_queue db)" "holding (db_queue db) token owner e (sq_id ` set items)"
    and "distinct (map sq_id items)" "\<And>n. clock n < e"
    and "sync_items render central clock m record token owner (db, n, t) items = Inr (db', n', t')"
  shows "queue_inv (db_queue db') \<and> holding (db_queue db') token owner e {}
    \<and> t_synced t' + t_failed t' \<le> t_synced t + t_failed t + length items
    \<and> t_synced t + t_failed t + t_dead t + length items \<le> t_synced t' + t_failed t' + t_dead t'"
  using assms
proof (induction items arbitrary: db n t)
  case (Cons item items)
  from Cons.prems(5) obtain db1 n1 t1 where
    s: "sync_item render central clock m record token owner (db, n, t) item = Inr (db1, n1, t1)" and
    rest: "sync_items render central clock m record token owner (db1, n1, t1) items = Inr (db', n', t')"
    by (auto simp: bindE_eq_Inr)
  have one: "queue_inv (db_queue db1) \<and> holding (db_queue db1) token owner e (sq_id ` set (item # items) - {sq_id item}) \<and> one_more t t1"
    using sync_item_settles [OF Cons.prems(1,2) _ Cons.prems(4) s] by simp
  moreover have "sq_id ` set (item # items) - {sq_id item} = sq_id ` set items" using Cons.prems(3) by auto
  ultimately show ?case
    using Cons.IH [OF _ _ _ Cons.prems(4) rest] Cons.prems(3) by (auto simp: one_more_def)
qed auto

lemma claim_holding:
  assumes inv: "queue_inv q" and fresh: "\<forall>r \<in> set q. sq_token r \<noteq> Some token"
    and c: "claim L q token now owner limit key = Inr (q', rows)"
  shows "queue_inv q'" "holding q' token owner (now + seconds L) (sq_id ` set rows)" "distinct (map sq_id rows)"
proof -
  show inv': "queue_inv q'" by (rule claim_inv [OF inv c])
  let ?q1 = "expire_leases now q"
  have fresh1: "\<forall>r \<in> set ?q1. sq_token r \<noteq> Some token"
    using fresh by (auto simp: expire_leases_def update_where_def expire_row_def)
  have rows: "set rows = {r \<in> set q'. sq_token r = Some token \<and> sq_owner r = Some owner} \<and> distinct (map sq_id rows)
    \<and> (\<forall>r \<in> set q'. sq_token r = Some token \<longrightarrow> sq_owner r = Some owner \<and> sq_lease r = Some (now + seconds L))"
  proof (cases "claimed_ids ?q1 now (nat limit) key = []")
    case True
    with c fresh1 show ?thesis by (auto simp: claim_def Let_def split: if_splits)
  next
    case False
    with c have q': "q' = update_where (\<lambda>r. sq_id r \<in> set (claimed_ids ?q1 now (nat limit) key) \<and> sq_state r \<in> {Pending, RetryWait})
        (lease_row token owner (now + seconds L) now) ?q1"
      "rows = by_age (filter (\<lambda>r. sq_token r = Some token \<and> sq_owner r = Some owner) q')"
      by (auto simp: claim_def Let_def split: if_splits)
    have "sq_owner r = Some owner \<and> sq_lease r = Some (now + seconds L)" if "r \<in> set q'" "sq_token r = Some token" for r
      using that fresh1 unfolding q'(1) by (auto simp: update_where_def lease_row_def split: if_splits)
    moreover have "distinct (map sq_id (filter P q'))" for P
      using inv' by (simp add: queue_inv_def distinct_map_filter)
    then have "distinct (map sq_id rows)" unfolding q'(2) by_age_def
      by (auto simp: distinct_map)
    ultimately show ?thesis using q'(2) by auto
  qed
  then show "distinct (map sq_id rows)" by simp
  show "holding q' token owner (now + seconds L) (sq_id ` set rows)"
    unfolding holding_def
  proof (rule conjI; intro ballI impI)
    fix r assume "r \<in> set q'" "sq_token r = Some token"
    with rows show "sq_id r \<in> sq_id ` set rows \<and> sq_owner r = Some owner \<and> sq_lease r = Some (now + seconds L)"
      by auto
  next
    fix i assume "i \<in> sq_id ` set rows"
    with rows show "\<exists>r \<in> set q'. sq_id r = i \<and> sq_token r = Some token" by auto
  qed
qed

lemma purge_token:
  assumes "\<forall>r \<in> set q. sq_token r \<noteq> Some token"
  shows "\<forall>r \<in> set (fst (purge_retained q now sd dd)). sq_token r \<noteq> Some token"
proof -
  have "\<forall>r \<in> set (foldl (purge_one now) q cs). sq_token r \<noteq> Some token" for cs
    using assms
  proof (induction cs arbitrary: q)
    case (Cons c cs)
    have "\<forall>r \<in> set (purge_one now q c). sq_token r \<noteq> Some token"
      using Cons.prems by (auto simp: purge_one_eq purged_row_def unlink_row_def cancel_row_def)
    with Cons.IH show ?case by simp
  qed simp
  then show ?thesis by (simp add: purge_retained_def Let_def)
qed

text \<open>
  C4. A pass that finishes before its leases expire leaves nothing leased to it: every claimed row
  has succeeded, waits for a retry, or is a dead letter; the counters of the result account for
  exactly the claimed items.
\<close>

theorem flush_settles_all:
  assumes inv: "queue_inv (db_queue db)" and fresh: "\<forall>r \<in> set (db_queue db). sq_token r \<noteq> Some token"
    and clock: "\<And>n. clock n < clock 0 + seconds lease"
    and f: "flush_once render central clock lease m sd dd db token owner limit = Inr (db', claimed, t)"
  shows "queue_inv (db_queue db') \<and> (\<forall>r \<in> set (db_queue db'). sq_token r \<noteq> Some token)
    \<and> t_synced t + t_failed t \<le> claimed \<and> claimed \<le> t_synced t + t_failed t + t_dead t"
proof (cases "db_session db")
  case None
  with f inv fresh show ?thesis by (auto simp: flush_once_def session_get_record_def no_tally_def)
next
  case (Some row)
  let ?key = "if ss_status row = RevocationPending then Some revoke_key else None"
  from f Some obtain q items where c: "claim lease (db_queue db) token (clock 0) owner limit ?key = Inr (q, items)"
    by (auto simp: flush_once_def session_get_record_def Let_def split: sum.splits)
  with f Some obtain db1 n1 where
    s: "sync_items render central clock m row token owner (db\<lparr>db_queue := q\<rparr>, 1, no_tally) items = Inr (db1, n1, t)"
    and d: "claimed = length items" "db' = db1\<lparr>db_queue := fst (purge_retained (db_queue db1) (clock n1) sd dd)\<rparr>"
    by (auto simp: flush_once_def session_get_record_def Let_def split: sum.splits prod.splits)
  note h = claim_holding [OF inv fresh c]
  have "queue_inv (db_queue db1) \<and> holding (db_queue db1) token owner (clock 0 + seconds lease) {}
    \<and> t_synced t + t_failed t \<le> length items \<and> length items \<le> t_synced t + t_failed t + t_dead t"
    using sync_items_settle [OF _ _ h(3) clock s] h(1,2) by (simp add: no_tally_def)
  moreover from this have "\<forall>r \<in> set (db_queue db1). sq_token r \<noteq> Some token" by (auto simp: holding_def)
  ultimately show ?thesis
    using purge_inv [of "db_queue db1" "clock n1" sd dd] purge_token [of "db_queue db1" token "clock n1" sd dd]
    by (simp add: d)
qed

definition ready_db :: edge_db where
  "ready_db = logged_in\<lparr>db_queue := q_run 60 [] [Enqueue ''e1'' 0 ''/api/v1/sync/events'' (JObj [(''events'', JList [])]) ''event:1'' 8 None,
     Enqueue ''e2'' 0 ''/api/v1/sync/events'' (JObj [(''events'', JList [])]) ''event:2'' 8 None]\<rparr>"

definition demo_central :: central where
  "demo_central n call = (if n = 1 then Inr (JObj []) else Inl \<lparr>ee_code = ''down'', ee_status = 503, ee_retryable = True\<rparr>)"

definition demo_flush :: "(item_error + py_error) + edge_db \<times> nat \<times> tally" where
  "demo_flush = flush_once (\<lambda>v. []) demo_central (\<lambda>n. 5) 60 8 7 30 ready_db ''t'' ''w'' 100"

lemma ready_db_ok:
  "queue_inv (db_queue ready_db)" "\<forall>r \<in> set (db_queue ready_db). sq_token r \<noteq> Some ''t''"
proof -
  show "queue_inv (db_queue ready_db)" unfolding ready_db_def
    by (simp del: q_run.simps) (rule q_run_inv [OF queue_inv_Nil], simp add: queue_eval)
  show "\<forall>r \<in> set (db_queue ready_db). sq_token r \<noteq> Some ''t''"
    by (simp add: ready_db_def queue_eval)
qed

lemmas flush_eval = demo_flush_def flush_once_def session_get_record_def sync_item_def attempt_item_def
  attempt_delivery_def send_body_def send_analytics_def finish_item_def complete_item_def complete_def
  fail_item_def fail_eval mark_synced_def starts_with_def payload_str_def demo_central_def no_tally_def
  succeed_row_def purge_retained_def purge_candidates_def purge_candidate_def permanent_error_def

lemma demo_flush_result: "\<exists>db'. demo_flush = Inr (db', 2, \<lparr>t_synced = 1, t_failed = 1, t_dead = 0\<rparr>)"
  by (simp add: flush_eval ready_db_def logged_in_eq empty_db_def queue_eval days_def)

theorem flush_settles_all_witness:
  "\<exists>db'. demo_flush = Inr (db', 2, \<lparr>t_synced = 1, t_failed = 1, t_dead = 0\<rparr>)
     \<and> queue_inv (db_queue db') \<and> list_all (\<lambda>r. sq_token r \<noteq> Some ''t'') (db_queue db')"
proof -
  from demo_flush_result obtain db' where d: "demo_flush = Inr (db', 2, \<lparr>t_synced = 1, t_failed = 1, t_dead = 0\<rparr>)" ..
  from flush_settles_all [OF ready_db_ok _ d [unfolded demo_flush_def]] d show ?thesis
    by (auto simp: seconds_def list_all_iff)
qed

end
