(* ===== verification/Orch_Security.thy ===== *)
theory Orch_Security
  imports Rsap_Prelude
begin

section \<open>Credential-safe error rendering\<close>

text \<open>
  \<open>apps/desktop-backend/app/orchestration/security.py\<close> and the failure types of
  \<open>errors.py\<close>. The two regular expressions are written out as the matchers they denote; in
  both, adjacent repetitions have disjoint character classes, so the greedy match is the only
  one at a position and \<open>re.sub\<close> replaces the leftmost matches from left to right. Letters are
  compared without case (\<open>re.I\<close>).
\<close>

subsection \<open>Failures\<close>

datatype failure_category =
    CONFIGURATION | CAPACITY | CAPTURE | MODEL | PIPELINE | CALLBACK | SINK | SCHEDULER
  | SHUTDOWN | INTERNAL

record orchestration_failure =
  of_category :: failure_category
  of_summary :: string

subsection \<open>The URL pattern\<close>

text \<open>\<open>[a-z][a-z0-9+.-]*://\<close> followed by one or more non-space characters.\<close>

definition is_alpha :: "char \<Rightarrow> bool" where
  "is_alpha c = (let n = (of_char (py_lower_char c) :: nat) in 97 \<le> n \<and> n \<le> 122)"

definition is_scheme_char :: "char \<Rightarrow> bool" where
  "is_scheme_char c =
     (let n = (of_char c :: nat)
      in is_alpha c \<or> (48 \<le> n \<and> n \<le> 57) \<or> c = CHR ''+'' \<or> c = CHR ''.'' \<or> c = CHR ''-'')"

definition not_space :: "char \<Rightarrow> bool" where
  "not_space c \<longleftrightarrow> \<not> py_is_space c"

text \<open>A match at the start of the text: the scheme with its \<open>://\<close>, and the text after the match.\<close>

definition match_url :: "string \<Rightarrow> (string \<times> string) option" where
  "match_url s =
     (case s of
        [] \<Rightarrow> None
      | c # cs \<Rightarrow>
          if \<not> is_alpha c then None
          else (let scheme = c # takeWhile is_scheme_char cs; rest = dropWhile is_scheme_char cs
                in if take 3 rest = ''://'' \<and> takeWhile not_space (drop 3 rest) \<noteq> []
                   then Some (scheme @ ''://'', dropWhile not_space (drop 3 rest))
                   else None))"

lemma match_url_shorter: "match_url s = Some (p, t) \<Longrightarrow> length t < length s"
proof -
  assume m: "match_url s = Some (p, t)"
  then obtain c cs where s: "s = c # cs" by (cases s) (auto simp: match_url_def)
  have "length t \<le> length (drop 3 (dropWhile is_scheme_char cs))"
    using m s length_dropWhile_le [of not_space "drop 3 (dropWhile is_scheme_char cs)"]
    by (auto simp: match_url_def Let_def split: if_splits)
  also have "\<dots> \<le> length (dropWhile is_scheme_char cs)" by simp
  also have "\<dots> \<le> length cs" by (rule length_dropWhile_le)
  finally show ?thesis by (simp add: s)
qed

definition redacted :: string where
  "redacted = ''<redacted>''"

function redact_urls :: "string \<Rightarrow> string" where
  "redact_urls s =
     (case match_url s of
        Some (scheme, t) \<Rightarrow> scheme @ redacted @ redact_urls t
      | None \<Rightarrow> (case s of [] \<Rightarrow> [] | c # cs \<Rightarrow> c # redact_urls cs))"
  by pat_completeness auto
termination
  by (relation "measure length") (auto dest: match_url_shorter)

declare redact_urls.simps [simp del]

subsection \<open>The sensitive-assignment pattern\<close>

text \<open>
  One of the keywords, then \<open>\s*[=:]\s*\<close> and one or more characters other than \<open>&\<close>, \<open>,\<close>,
  \<open>;\<close> and white space. The alternatives are tried in the order of the pattern.
\<close>

definition secret_words :: "string list" where
  "secret_words = [''api_key'', ''api-key'', ''apikey'', ''token'', ''password'', ''passwd'', ''secret'',
     ''auth'', ''credential'', ''aadhaar'']"

definition is_value_char :: "char \<Rightarrow> bool" where
  "is_value_char c \<longleftrightarrow> \<not> py_is_space c \<and> c \<noteq> CHR ''&'' \<and> c \<noteq> CHR '','' \<and> c \<noteq> CHR '';''"

definition match_value :: "string \<Rightarrow> string option" where
  "match_value s =
     (case dropWhile py_is_space s of
        [] \<Rightarrow> None
      | c # cs \<Rightarrow>
          if c = CHR ''='' \<or> c = CHR '':''
          then (let v = dropWhile py_is_space cs
                in if takeWhile is_value_char v = [] then None else Some (dropWhile is_value_char v))
          else None)"

fun match_keyword :: "string list \<Rightarrow> string \<Rightarrow> string option" where
  "match_keyword [] s = None"
| "match_keyword (k # ks) s =
     (if starts_with k (py_lower s)
      then (case match_value (drop (length k) s) of Some t \<Rightarrow> Some t | None \<Rightarrow> match_keyword ks s)
      else match_keyword ks s)"

lemma match_value_shorter: "match_value s = Some t \<Longrightarrow> length t < length s"
proof -
  assume m: "match_value s = Some t"
  then obtain c cs where s: "dropWhile py_is_space s = c # cs"
    by (auto simp: match_value_def split: list.splits)
  have "length t \<le> length (dropWhile py_is_space cs)"
    using m s by (auto simp: match_value_def Let_def split: if_splits intro: length_dropWhile_le)
  also have "\<dots> \<le> length cs" by (rule length_dropWhile_le)
  also have "\<dots> < length (dropWhile py_is_space s)" by (simp add: s)
  also have "\<dots> \<le> length s" by (rule length_dropWhile_le)
  finally show ?thesis .
qed

lemma match_keyword_shorter: "match_keyword ks s = Some t \<Longrightarrow> length t < length s"
proof (induction ks)
  case Nil
  then show ?case by simp
next
  case (Cons k ks)
  show ?case
  proof (cases "starts_with k (py_lower s) \<and> match_value (drop (length k) s) = Some t")
    case True
    then have "length t < length (drop (length k) s)" by (auto dest: match_value_shorter)
    then show ?thesis by simp
  next
    case False
    with Cons show ?thesis by (auto split: if_splits option.splits)
  qed
qed

function redact_assignments :: "string \<Rightarrow> string" where
  "redact_assignments s =
     (case match_keyword secret_words s of
        Some t \<Rightarrow> redacted @ redact_assignments t
      | None \<Rightarrow> (case s of [] \<Rightarrow> [] | c # cs \<Rightarrow> c # redact_assignments cs))"
  by pat_completeness auto
termination
  by (relation "measure length") (auto dest: match_keyword_shorter)

declare redact_assignments.simps [simp del]

definition one_line :: "string \<Rightarrow> string" where
  "one_line s = map (\<lambda>c. if c = CHR 0x0D \<or> c = CHR 0x0A then CHR '' '' else c) s"

definition sanitize_error :: "string \<Rightarrow> nat \<Rightarrow> string" where
  "sanitize_error err maximum_length =
     take maximum_length (redact_assignments (redact_urls (one_line err)))"

abbreviation sanitize :: "string \<Rightarrow> string" where
  "sanitize err \<equiv> sanitize_error err 500"

subsection \<open>What the URL pass leaves\<close>

text \<open>
  \<open>clean s\<close>: wherever the URL pattern matches, what follows the scheme up to the next white
  space is the redaction mark.
\<close>

definition secret_at :: "string \<Rightarrow> string option" where
  "secret_at s =
     (case s of
        [] \<Rightarrow> None
      | c # cs \<Rightarrow>
          if is_alpha c \<and> take 3 (dropWhile is_scheme_char cs) = ''://''
             \<and> takeWhile not_space (drop 3 (dropWhile is_scheme_char cs)) \<noteq> []
          then Some (takeWhile not_space (drop 3 (dropWhile is_scheme_char cs))) else None)"

fun clean :: "string \<Rightarrow> bool" where
  "clean [] = True"
| "clean (c # cs) = ((case secret_at (c # cs) of None \<Rightarrow> True | Some v \<Rightarrow> v = redacted) \<and> clean cs)"

lemma redact_urls_None:
  "match_url (c # cs) = None \<Longrightarrow> redact_urls (c # cs) = c # redact_urls cs"
  by (subst redact_urls.simps) simp

lemma redact_urls_Nil [simp]: "redact_urls [] = []"
  by (subst redact_urls.simps) (simp add: match_url_def)

lemma redact_urls_nonalpha [simp]: "\<not> is_alpha c \<Longrightarrow> redact_urls (c # cs) = c # redact_urls cs"
  by (rule redact_urls_None) (simp add: match_url_def)

text \<open>The first character always survives.\<close>

lemma redact_urls_first: "take 1 (redact_urls s) = take 1 s"
proof (cases "match_url s")
  case None
  then show ?thesis by (cases s) (simp_all add: redact_urls_None)
next
  case (Some m)
  then obtain p t where m: "match_url s = Some (p, t)" by (cases m) simp
  then have "take 1 p = take 1 s" by (cases s) (auto simp: match_url_def Let_def split: if_splits)
  moreover have "p \<noteq> []" using m by (cases s) (auto simp: match_url_def Let_def split: if_splits)
  ultimately show ?thesis using m by (subst redact_urls.simps) (cases p, auto)
qed

definition opens_url :: "string \<Rightarrow> bool" where
  "opens_url rest \<longleftrightarrow> take 3 rest = ''://'' \<and> takeWhile not_space (drop 3 rest) \<noteq> []"

lemma run_split:
  assumes "list_all P r" "rest = [] \<or> \<not> P (hd rest)"
  shows "takeWhile P (r @ rest) = r" "dropWhile P (r @ rest) = rest"
  using assms by (induction r) (cases rest; auto)+

lemma redact_urls_run:
  assumes "list_all is_scheme_char r" "rest = [] \<or> \<not> is_scheme_char (hd rest)" "\<not> opens_url rest"
  shows "redact_urls (r @ rest) = r @ redact_urls rest"
  using assms(1)
proof (induction r)
  case Nil
  then show ?case by simp
next
  case (Cons c r)
  then have "match_url (c # r @ rest) = None"
    using run_split [of is_scheme_char r rest] assms(2,3)
    by (auto simp: match_url_def Let_def opens_url_def)
  with Cons show ?case by (simp add: redact_urls_None)
qed

lemma char_codes [simp]:
  "\<not> is_alpha (CHR '':'')" "\<not> is_alpha (CHR ''/'')" "\<not> is_alpha (CHR ''<'')" "\<not> is_alpha (CHR ''>'')"
  "\<not> is_scheme_char (CHR '':'')" "\<not> is_scheme_char (CHR ''<'')" "\<not> is_scheme_char (CHR ''>'')"
  by (simp_all add: is_alpha_def is_scheme_char_def py_lower_char_def Let_def)

lemma space_not_alpha: "\<not> not_space c \<Longrightarrow> \<not> is_alpha c"
  by (auto simp: not_space_def py_is_space_def is_alpha_def py_lower_char_def Let_def split: if_splits)

lemma redact_urls_opens:
  assumes "\<not> opens_url rest"
  shows "\<not> opens_url (redact_urls rest)"
proof
  assume o: "opens_url (redact_urls rest)"
  then obtain v where v: "redact_urls rest = CHR '':'' # CHR ''/'' # CHR ''/'' # v" "takeWhile not_space v \<noteq> []"
    by (auto simp: opens_url_def) (metis append_Cons append_Nil append_take_drop_id)
  obtain r1 where r1: "rest = CHR '':'' # r1"
    using redact_urls_first [of rest] v by (cases rest) auto
  with v have v1: "redact_urls r1 = CHR ''/'' # CHR ''/'' # v" by simp
  obtain r2 where r2: "r1 = CHR ''/'' # r2"
    using redact_urls_first [of r1] v1 by (cases r1) auto
  with v1 have v2: "redact_urls r2 = CHR ''/'' # v" by simp
  obtain r3 where r3: "r2 = CHR ''/'' # r3"
    using redact_urls_first [of r2] v2 by (cases r2) auto
  with v2 have v3: "redact_urls r3 = v" by simp
  have "takeWhile not_space r3 \<noteq> []"
    using redact_urls_first [of r3] v(2) v3 by (cases r3; cases v) (auto split: if_splits)
  with assms r1 r2 r3 show False by (simp add: opens_url_def)
qed

lemma secret_at_opens:
  "secret_at (c # cs) = (if is_alpha c \<and> opens_url (dropWhile is_scheme_char cs)
     then Some (takeWhile not_space (drop 3 (dropWhile is_scheme_char cs))) else None)"
  by (simp add: secret_at_def opens_url_def)

lemma clean_redacted_tail:
  assumes "clean w" "w = [] \<or> \<not> not_space (hd w)"
  shows "clean (''://'' @ redacted @ w)"
proof -
  have gt: "clean (r @ CHR ''>'' # w)" if "list_all is_scheme_char r" for r
    using that
  proof (induction r)
    case Nil
    then show ?case using assms(1) by (simp add: secret_at_opens)
  next
    case (Cons c r)
    then have "dropWhile is_scheme_char (r @ CHR ''>'' # w) = CHR ''>'' # w"
      by (simp add: run_split(2))
    then show ?case using Cons by (simp add: secret_at_opens opens_url_def)
  qed
  have "clean (''redacted'' @ CHR ''>'' # w)"
    by (rule gt) (simp add: is_scheme_char_def is_alpha_def py_lower_char_def Let_def)
  then show ?thesis by (simp add: redacted_def secret_at_def)
qed

lemma clean_match:
  assumes "list_all is_scheme_char r" "clean w" "w = [] \<or> \<not> not_space (hd w)"
  shows "clean (r @ ''://'' @ redacted @ w)"
  using assms(1)
proof (induction r)
  case Nil
  then show ?case using clean_redacted_tail [OF assms(2,3)] by simp
next
  case (Cons c r)
  then have d: "dropWhile is_scheme_char (r @ ''://'' @ redacted @ w) = ''://'' @ redacted @ w"
    by (intro run_split(2)) simp_all
  have "takeWhile not_space (redacted @ w) = redacted"
    using assms(3) by (cases w) (simp_all add: redacted_def not_space_def py_is_space_def Let_def)
  with Cons d show ?case by (simp add: secret_at_opens)
qed

lemma clean_redact_urls: "clean (redact_urls s)"
proof (induction s rule: redact_urls.induct)
  case (1 s)
  show ?case
  proof (cases "match_url s")
    case (Some m)
    obtain p t where m: "m = (p, t)" by (cases m)
    with Some obtain c cs where s: "s = c # cs" "is_alpha c" "p = (c # takeWhile is_scheme_char cs) @ ''://''"
      "t = dropWhile not_space (drop 3 (dropWhile is_scheme_char cs))"
      by (cases s) (auto simp: match_url_def Let_def split: if_splits)
    have t: "t = [] \<or> \<not> not_space (hd t)" unfolding s(4) using hd_dropWhile by blast
    have "redact_urls t = [] \<or> \<not> not_space (hd (redact_urls t))"
    proof (cases t)
      case (Cons d ds)
      with t have "\<not> not_space d" by simp
      then have "redact_urls t = d # redact_urls ds" using Cons space_not_alpha by simp
      with \<open>\<not> not_space d\<close> show ?thesis by simp
    qed simp
    moreover have "clean (redact_urls t)" using 1(2) Some m by blast
    moreover have "list_all is_scheme_char (c # takeWhile is_scheme_char cs)"
      using s(2) by (auto simp: is_scheme_char_def Let_def list_all_iff dest: set_takeWhileD)
    ultimately have "clean ((c # takeWhile is_scheme_char cs) @ ''://'' @ redacted @ redact_urls t)"
      by (intro clean_match)
    moreover have "redact_urls s = p @ redacted @ redact_urls t"
      using Some m by (subst redact_urls.simps) simp
    ultimately show ?thesis unfolding s(3) by simp
  next
    case None
    show ?thesis
    proof (cases s)
      case Nil
      then show ?thesis by simp
    next
      case (Cons c cs)
      have IH: "clean (redact_urls cs)" using 1(1) None Cons by blast
      define r rest where "r = takeWhile is_scheme_char cs" and "rest = dropWhile is_scheme_char cs"
      have no: "is_alpha c \<Longrightarrow> \<not> opens_url rest"
        using None Cons by (auto simp: match_url_def Let_def opens_url_def rest_def split: if_splits)
      have "secret_at (c # redact_urls cs) = None"
      proof (cases "is_alpha c")
        case True
        have r: "list_all is_scheme_char r" by (auto simp: r_def list_all_iff dest: set_takeWhileD)
        have rest: "rest = [] \<or> \<not> is_scheme_char (hd rest)" unfolding rest_def using hd_dropWhile by blast
        have cs: "redact_urls cs = r @ redact_urls rest"
          using redact_urls_run [OF r rest no [OF True]] by (simp add: r_def rest_def)
        have "redact_urls rest = [] \<or> \<not> is_scheme_char (hd (redact_urls rest))"
          using rest redact_urls_first [of rest] by (cases rest; cases "redact_urls rest") auto
        then have "dropWhile is_scheme_char (redact_urls cs) = redact_urls rest"
          unfolding cs using run_split(2) [OF r] by blast
        then show ?thesis using redact_urls_opens [OF no [OF True]] by (simp add: secret_at_opens)
      qed (simp add: secret_at_opens)
      then show ?thesis using IH None Cons by (simp add: redact_urls_None)
    qed
  qed
qed

subsection \<open>Properties\<close>

text \<open>
  Redaction of connection strings is complete: wherever the rendered text still has a URL
  scheme followed by \<open>://\<close> and a non-space, all that follows up to the next white space is the
  redaction mark.
\<close>

theorem redact_urls_complete: "clean (redact_urls message)"
  by (rule clean_redact_urls)

text \<open>
  The assignment pattern does not match an HTTP authorization header, because \<open>auth\<close> must be
  followed at once by \<open>=\<close> or \<open>:\<close>; such a credential is rendered as it is.
\<close>

theorem bearer_header_not_redacted:
  "sanitize_error ''authorization: Bearer abc'' 500 = ''authorization: Bearer abc''
   \<and> sanitize_error ''auth: abc'' 500 = redacted"
  by (simp add: sanitize_error_def one_line_def redact_urls.simps match_url_def is_alpha_def
      is_scheme_char_def py_lower_char_def Let_def redact_assignments.simps secret_words_def
      starts_with_def py_lower_def match_value_def py_is_space_def is_value_char_def redacted_def)

end
