(* ===== verification/Orch_Models.thy ===== *)
theory Orch_Models
  imports Orch_Security Json "HOL-Library.List_Lexorder" "HOL-Library.Char_ord"
begin

section \<open>Orchestration state and boundary contracts\<close>

text \<open>
  Model of \<open>app/orchestration/models.py\<close> and of the exceptions of \<open>errors.py\<close>: the lifecycle states
  with their table of transitions, the definition, metrics and status of a camera, the frozen
  event payload, the routed event, and the aggregated health.
\<close>

subsection \<open>Errors\<close>

record orch_error =
  oe_category :: failure_category
  oe_camera :: "string option"
  oe_message :: string

text \<open>The constructor sanitizes whatever it is given.\<close>

definition orch_err :: "failure_category \<Rightarrow> string option \<Rightarrow> string \<Rightarrow> orch_error" where
  "orch_err cat camera message = \<lparr>oe_category = cat, oe_camera = camera, oe_message = sanitize message\<rparr>"

definition oe_failure :: "orch_error \<Rightarrow> orchestration_failure" where
  "oe_failure e = \<lparr>of_category = oe_category e, of_summary = oe_message e\<rparr>"

subsection \<open>Lifecycle\<close>

datatype worker_state = STOPPED | STARTING | RUNNING | RECONNECTING | STOPPING | FAILED

datatype camera_health = OK | DEGRADED | HFAILED

datatype lifecycle_operation = OpStart | OpStop | OpRestart

datatype lifecycle_outcome =
  Started | AlreadyRunning | Stopped | AlreadyStopped | Restarted | OutcomeFailed

definition active_state :: "worker_state \<Rightarrow> bool" where
  "active_state s \<longleftrightarrow> s \<in> {STARTING, RUNNING, RECONNECTING, STOPPING}"

definition running_state :: "worker_state \<Rightarrow> bool" where
  "running_state s \<longleftrightarrow> s \<in> {RUNNING, RECONNECTING}"

fun valid_transitions :: "worker_state \<Rightarrow> worker_state set" where
  "valid_transitions STOPPED = {STARTING}"
| "valid_transitions STARTING = {RUNNING, RECONNECTING, FAILED, STOPPING}"
| "valid_transitions RUNNING = {RECONNECTING, STOPPING, FAILED}"
| "valid_transitions RECONNECTING = {RUNNING, STOPPING, FAILED}"
| "valid_transitions STOPPING = {STOPPED, FAILED}"
| "valid_transitions FAILED = {STOPPING, STOPPED}"

subsection \<open>Definition of a camera\<close>

definition validate_finite :: "raw_float \<Rightarrow> string \<Rightarrow> real \<Rightarrow> real \<Rightarrow> py_error + real" where
  "validate_finite v name lo hi =
     (if \<not> isfinite v \<or> float_val v < lo \<or> hi < float_val v
      then Inl (ValueError (name @ '' must be finite and in its range'')) else Inr (float_val v))"

text \<open>A source is the text of a URL, or the index of a local device; a path is its text.\<close>

datatype camera_source = StreamUrl string | LocalDevice int

record 'c camera_definition =
  cd_camera_id :: string
  cd_source :: camera_source
  cd_config :: 'c
  cd_frame_buffer_size :: int
  cd_event_queue_size :: int
  cd_sink_timeout :: real
  cd_reconnect_delay :: real
  cd_frame_wait :: real

definition mk_camera_definition ::
  "string \<Rightarrow> camera_source \<Rightarrow> 'c \<Rightarrow> int \<Rightarrow> int \<Rightarrow> raw_float \<Rightarrow> raw_float \<Rightarrow> raw_float \<Rightarrow> py_error + 'c camera_definition" where
  "mk_camera_definition camera_id source config frame_buffer_size event_queue_size sink_timeout reconnect_delay frame_wait =
     bindE (guardE (py_strip camera_id \<noteq> []) (ValueError ''camera_id must not be empty'')) (\<lambda>u.
     bindE (guardE (\<not> (frame_buffer_size < 1 \<or> event_queue_size < 1))
              (ValueError ''buffer and event queue sizes must be positive'')) (\<lambda>u.
     bindE (validate_finite reconnect_delay ''reconnect_delay_seconds'' (1 / 20) 300) (\<lambda>delay.
     bindE (validate_finite frame_wait ''frame_wait_seconds'' (1 / 1000) 300) (\<lambda>wait.
     bindE (validate_finite sink_timeout ''event_sink_timeout_seconds'' (1 / 1000) 300) (\<lambda>timeout.
       Inr \<lparr>cd_camera_id = camera_id, cd_source = source, cd_config = config,
            cd_frame_buffer_size = frame_buffer_size, cd_event_queue_size = event_queue_size,
            cd_sink_timeout = timeout, cd_reconnect_delay = delay, cd_frame_wait = wait\<rparr>)))))"

subsection \<open>Metrics and status\<close>

record camera_metrics =
  m_frames_captured :: int
  m_frames_processed :: int
  m_capture_failures :: int
  m_events_emitted :: int
  m_events_dropped :: int
  m_sink_failures :: int
  m_worker_failures :: int
  m_reconnect_count :: int
  m_fps :: real
  m_last_frame :: "time option"
  m_last_processed :: "time option"
  m_last_event :: "time option"

definition no_metrics :: camera_metrics where
  "no_metrics = \<lparr>m_frames_captured = 0, m_frames_processed = 0, m_capture_failures = 0, m_events_emitted = 0,
     m_events_dropped = 0, m_sink_failures = 0, m_worker_failures = 0, m_reconnect_count = 0, m_fps = 0,
     m_last_frame = None, m_last_processed = None, m_last_event = None\<rparr>"

record state_transition =
  st_previous :: worker_state
  st_current :: worker_state
  st_timestamp :: time
  st_reason :: "string option"

record camera_status =
  cs_camera_id :: string
  cs_generation :: int
  cs_state :: worker_state
  cs_health :: camera_health
  cs_is_running :: bool
  cs_updated_at :: time
  cs_last_frame_at :: "time option"
  cs_last_event_at :: "time option"
  cs_last_processed_at :: "time option"
  cs_failure_category :: "failure_category option"
  cs_error_summary :: "string option"
  cs_reconnect_count :: int
  cs_fps :: real
  cs_buffer_size :: int
  cs_buffer_capacity :: int
  cs_queue_size :: int
  cs_queue_capacity :: int
  cs_backlog :: int
  cs_dropped :: int
  cs_frames_captured :: int
  cs_frames_processed :: int
  cs_capture_failures :: int
  cs_events_emitted :: int
  cs_sink_failures :: int
  cs_worker_failures :: int
  cs_transition_count :: int

definition status_metrics :: "camera_status \<Rightarrow> camera_metrics" where
  "status_metrics s = \<lparr>m_frames_captured = cs_frames_captured s, m_frames_processed = cs_frames_processed s,
     m_capture_failures = cs_capture_failures s, m_events_emitted = cs_events_emitted s,
     m_events_dropped = cs_dropped s, m_sink_failures = cs_sink_failures s,
     m_worker_failures = cs_worker_failures s, m_reconnect_count = cs_reconnect_count s, m_fps = cs_fps s,
     m_last_frame = cs_last_frame_at s, m_last_processed = cs_last_processed_at s, m_last_event = cs_last_event_at s\<rparr>"

text \<open>The \<open>StrEnum\<close> values and their parsers.\<close>

fun state_name :: "worker_state \<Rightarrow> string" where
  "state_name STOPPED = ''stopped''" | "state_name STARTING = ''starting''" | "state_name RUNNING = ''running''"
| "state_name RECONNECTING = ''reconnecting''" | "state_name STOPPING = ''stopping''" | "state_name FAILED = ''failed''"

fun health_name :: "camera_health \<Rightarrow> string" where
  "health_name OK = ''ok''" | "health_name DEGRADED = ''degraded''" | "health_name HFAILED = ''failed''"

fun category_name :: "failure_category \<Rightarrow> string" where
  "category_name CONFIGURATION = ''configuration''" | "category_name CAPACITY = ''capacity''"
| "category_name CAPTURE = ''capture''" | "category_name MODEL = ''model''" | "category_name PIPELINE = ''pipeline''"
| "category_name CALLBACK = ''callback''" | "category_name SINK = ''sink''" | "category_name SCHEDULER = ''scheduler''"
| "category_name SHUTDOWN = ''shutdown''" | "category_name INTERNAL = ''internal''"

definition parse_enum :: "('a \<Rightarrow> string) \<Rightarrow> 'a list \<Rightarrow> json option \<Rightarrow> py_error + 'a" where
  "parse_enum name all v = (case v of
     Some (JStr s) \<Rightarrow> (case List.find (\<lambda>x. name x = s) all of None \<Rightarrow> Inl (ValueError s) | Some x \<Rightarrow> Inr x)
   | None \<Rightarrow> Inl (KeyError ''enum'') | _ \<Rightarrow> Inl (ValueError ''enum''))"

definition all_states :: "worker_state list" where
  "all_states = [STOPPED, STARTING, RUNNING, RECONNECTING, STOPPING, FAILED]"

definition all_healths :: "camera_health list" where
  "all_healths = [OK, DEGRADED, HFAILED]"

definition all_categories :: "failure_category list" where
  "all_categories = [CONFIGURATION, CAPACITY, CAPTURE, MODEL, PIPELINE, CALLBACK, SINK, SCHEDULER, SHUTDOWN, INTERNAL]"

definition status_to_dict :: "(time \<Rightarrow> string) \<Rightarrow> camera_status \<Rightarrow> json" where
  "status_to_dict stamp s = JObj
     [(''camera_id'', JStr (cs_camera_id s)), (''generation'', JInt (cs_generation s)),
      (''lifecycle_state'', JStr (state_name (cs_state s))), (''health'', JStr (health_name (cs_health s))),
      (''is_running'', JBool (cs_is_running s)), (''updated_at'', JStr (stamp (cs_updated_at s))),
      (''last_frame_at'', jopt (\<lambda>t. JStr (stamp t)) (cs_last_frame_at s)),
      (''last_event_at'', jopt (\<lambda>t. JStr (stamp t)) (cs_last_event_at s)),
      (''last_processed_at'', jopt (\<lambda>t. JStr (stamp t)) (cs_last_processed_at s)),
      (''failure_category'', jopt (\<lambda>c. JStr (category_name c)) (cs_failure_category s)),
      (''error_summary'', jopt JStr (cs_error_summary s)), (''reconnect_count'', JInt (cs_reconnect_count s)),
      (''processing_fps'', JNum (cs_fps s)), (''frame_buffer_size'', JInt (cs_buffer_size s)),
      (''frame_buffer_capacity'', JInt (cs_buffer_capacity s)), (''event_queue_size'', JInt (cs_queue_size s)),
      (''event_queue_capacity'', JInt (cs_queue_capacity s)), (''callback_backlog'', JInt (cs_backlog s)),
      (''dropped_event_count'', JInt (cs_dropped s)), (''frames_captured'', JInt (cs_frames_captured s)),
      (''frames_processed'', JInt (cs_frames_processed s)), (''capture_failures'', JInt (cs_capture_failures s)),
      (''events_emitted'', JInt (cs_events_emitted s)), (''event_sink_failures'', JInt (cs_sink_failures s)),
      (''worker_failures'', JInt (cs_worker_failures s)), (''transition_count'', JInt (cs_transition_count s))]"

text \<open>
  Reading it back. The conversions of texts and foreign values by the standard library are the fields
  of \<open>conversions\<close>: \<open>datetime.fromisoformat\<close>, \<open>int\<close> and \<open>float\<close> of a string, and \<open>str\<close> of a value that is
  not a string. What they reject raises \<open>ValueError\<close>, as a value of a type they do not take raises
  \<open>TypeError\<close>; the model does not tell these two exceptions apart.
\<close>

record conversions =
  read_time :: "string \<Rightarrow> time option"
  read_int :: "string \<Rightarrow> int option"
  read_float :: "string \<Rightarrow> real option"
  show_value :: "json \<Rightarrow> string"

definition converted :: "string \<Rightarrow> 'a option \<Rightarrow> py_error + 'a" where
  "converted k x = (case x of None \<Rightarrow> Inl (ValueError k) | Some v \<Rightarrow> Inr v)"

definition truncate_real :: "real \<Rightarrow> int" where
  "truncate_real x = (if 0 \<le> x then \<lfloor>x\<rfloor> else \<lceil>x\<rceil>)"

definition get_int :: "conversions \<Rightarrow> json \<Rightarrow> string \<Rightarrow> py_error + int" where
  "get_int conv v k = (case jget v k of
     None \<Rightarrow> Inl (KeyError k)
   | Some (JInt i) \<Rightarrow> Inr i
   | Some (JBool b) \<Rightarrow> Inr (if b then 1 else 0)
   | Some (JNum x) \<Rightarrow> Inr (truncate_real x)
   | Some (JStr s) \<Rightarrow> converted k (read_int conv s)
   | Some _ \<Rightarrow> Inl (ValueError k))"

definition get_float :: "conversions \<Rightarrow> json \<Rightarrow> string \<Rightarrow> py_error + real" where
  "get_float conv v k = (case jget v k of
     None \<Rightarrow> Inl (KeyError k)
   | Some (JInt i) \<Rightarrow> Inr (real_of_int i)
   | Some (JBool b) \<Rightarrow> Inr (if b then 1 else 0)
   | Some (JNum x) \<Rightarrow> Inr x
   | Some (JStr s) \<Rightarrow> converted k (read_float conv s)
   | Some _ \<Rightarrow> Inl (ValueError k))"

definition get_str :: "conversions \<Rightarrow> json \<Rightarrow> string \<Rightarrow> py_error + string" where
  "get_str conv v k = (case jget v k of
     None \<Rightarrow> Inl (KeyError k) | Some (JStr s) \<Rightarrow> Inr s | Some x \<Rightarrow> Inr (show_value conv x))"

definition get_time :: "conversions \<Rightarrow> json \<Rightarrow> string \<Rightarrow> py_error + time" where
  "get_time conv v k = (case jget v k of
     None \<Rightarrow> Inl (KeyError k) | Some (JStr s) \<Rightarrow> converted k (read_time conv s) | Some _ \<Rightarrow> Inl (ValueError k))"

definition parsed_time_field :: "conversions \<Rightarrow> json \<Rightarrow> string \<Rightarrow> py_error + time option" where
  "parsed_time_field conv v k =
     (case jget v k of None \<Rightarrow> Inr None
      | Some raw \<Rightarrow> if truthy raw then bindE (get_time conv v k) (\<lambda>t. Inr (Some t)) else Inr None)"

text \<open>An \<open>error_summary\<close> that is neither a string nor \<open>None\<close> is against the type annotation and read as \<open>None\<close>.\<close>

definition status_from_dict :: "conversions \<Rightarrow> json \<Rightarrow> py_error + camera_status" where
  "status_from_dict conv v =
     bindE (get_str conv v ''camera_id'') (\<lambda>camera_id. bindE (get_int conv v ''generation'') (\<lambda>generation.
     bindE (parse_enum state_name all_states (jget v ''lifecycle_state'')) (\<lambda>state.
     bindE (parse_enum health_name all_healths (jget v ''health'')) (\<lambda>health.
     bindE (case jget v ''is_running'' of None \<Rightarrow> Inl (KeyError ''is_running'') | Some b \<Rightarrow> Inr (truthy b)) (\<lambda>is_running.
     bindE (get_time conv v ''updated_at'') (\<lambda>updated_at.
     bindE (parsed_time_field conv v ''last_frame_at'') (\<lambda>last_frame.
     bindE (parsed_time_field conv v ''last_event_at'') (\<lambda>last_event.
     bindE (parsed_time_field conv v ''last_processed_at'') (\<lambda>last_processed.
     bindE (case jget v ''failure_category'' of None \<Rightarrow> Inr None
            | Some c \<Rightarrow> if truthy c then bindE (parse_enum category_name all_categories (Some c)) (\<lambda>x. Inr (Some x)) else Inr None)
       (\<lambda>category.
     bindE (get_int conv v ''reconnect_count'') (\<lambda>reconnects.
     bindE (get_float conv v ''processing_fps'') (\<lambda>fps.
     bindE (get_int conv v ''frame_buffer_size'') (\<lambda>bsize. bindE (get_int conv v ''frame_buffer_capacity'') (\<lambda>bcap.
     bindE (get_int conv v ''event_queue_size'') (\<lambda>qsize. bindE (get_int conv v ''event_queue_capacity'') (\<lambda>qcap.
     bindE (get_int conv v ''callback_backlog'') (\<lambda>backlog. bindE (get_int conv v ''dropped_event_count'') (\<lambda>dropped.
     bindE (get_int conv v ''frames_captured'') (\<lambda>captured. bindE (get_int conv v ''frames_processed'') (\<lambda>processed.
     bindE (get_int conv v ''capture_failures'') (\<lambda>cfail. bindE (get_int conv v ''events_emitted'') (\<lambda>emitted.
     bindE (get_int conv v ''event_sink_failures'') (\<lambda>sfail. bindE (get_int conv v ''worker_failures'') (\<lambda>wfail.
     bindE (get_int conv v ''transition_count'') (\<lambda>transitions.
       Inr \<lparr>cs_camera_id = camera_id, cs_generation = generation, cs_state = state, cs_health = health,
            cs_is_running = is_running, cs_updated_at = updated_at, cs_last_frame_at = last_frame,
            cs_last_event_at = last_event, cs_last_processed_at = last_processed, cs_failure_category = category,
            cs_error_summary = (case jget v ''error_summary'' of Some (JStr s) \<Rightarrow> Some s | _ \<Rightarrow> None),
            cs_reconnect_count = reconnects, cs_fps = fps, cs_buffer_size = bsize, cs_buffer_capacity = bcap,
            cs_queue_size = qsize, cs_queue_capacity = qcap, cs_backlog = backlog, cs_dropped = dropped,
            cs_frames_captured = captured, cs_frames_processed = processed, cs_capture_failures = cfail,
            cs_events_emitted = emitted, cs_sink_failures = sfail, cs_worker_failures = wfail,
            cs_transition_count = transitions\<rparr>)))))))))))))))))))))))))"

subsection \<open>Frozen event payloads\<close>

text \<open>
  What a callback may put into an event payload, with lists and tuples as one kind of sequence and
  everything the code does not accept as \<open>POther\<close> (bytes included). Keys need not be strings.
\<close>

datatype pykey = KStr string | KOther

datatype pyval =
    PNone
  | PBool bool
  | PStr string
  | PInt int
  | PFloat raw_float
  | PDict "(pykey \<times> pyval) list"
  | PSeq "pyval list"
  | POther string

datatype frozen =
    FNone
  | FBool bool
  | FStr string
  | FInt int
  | FFloat real
  | FPayload "(string \<times> frozen) list"
  | FTuple "frozen list"

definition sensitive_keys :: "string list" where
  "sensitive_keys = [''source'', ''stream_url'', ''rtsp_url'', ''camera_url'', ''password'', ''token'', ''secret'',
     ''credential'', ''api_key'', ''authorization'', ''aadhaar'']"

definition sensitive :: "string \<Rightarrow> bool" where
  "sensitive k \<longleftrightarrow> py_lower k \<in> set sensitive_keys"

definition callback_err :: "string \<Rightarrow> orch_error" where
  "callback_err m = orch_err CALLBACK None m"

fun freeze_value :: "pyval \<Rightarrow> orch_error + frozen"
and freeze_items :: "(pykey \<times> pyval) list \<Rightarrow> orch_error + (string \<times> frozen) list"
and freeze_seq :: "pyval list \<Rightarrow> orch_error + frozen list" where
  "freeze_value PNone = Inr FNone"
| "freeze_value (PBool b) = Inr (FBool b)"
| "freeze_value (PStr s) =
     (if contains_sub ''://'' s then Inl (callback_err ''event payload must not contain connection URLs'')
      else Inr (FStr s))"
| "freeze_value (PInt i) = Inr (FInt i)"
| "freeze_value (PFloat x) =
     (if \<not> isfinite x then Inl (callback_err ''event payload contains a non-finite number'')
      else Inr (FFloat (float_val x)))"
| "freeze_value (PDict items) = bindE (freeze_items items) (\<lambda>fs. Inr (FPayload fs))"
| "freeze_value (PSeq xs) = bindE (freeze_seq xs) (\<lambda>fs. Inr (FTuple fs))"
| "freeze_value (POther t) = Inl (callback_err (''event payload contains unsupported type '' @ t))"
| "freeze_items [] = Inr []"
| "freeze_items ((k, v) # items) =
     (case k of
        KOther \<Rightarrow> Inl (callback_err ''event payload keys must be strings'')
      | KStr key \<Rightarrow>
          if sensitive key then Inl (callback_err ''event payload contains a prohibited sensitive field'')
          else bindE (freeze_value v) (\<lambda>f. bindE (freeze_items items) (\<lambda>fs. Inr ((key, f) # fs))))"
| "freeze_seq [] = Inr []"
| "freeze_seq (v # vs) = bindE (freeze_value v) (\<lambda>f. bindE (freeze_seq vs) (\<lambda>fs. Inr (f # fs)))"

fun thaw_value :: "frozen \<Rightarrow> pyval"
and thaw_items :: "(string \<times> frozen) list \<Rightarrow> (pykey \<times> pyval) list"
and thaw_seq :: "frozen list \<Rightarrow> pyval list" where
  "thaw_value FNone = PNone"
| "thaw_value (FBool b) = PBool b"
| "thaw_value (FStr s) = PStr s"
| "thaw_value (FInt i) = PInt i"
| "thaw_value (FFloat x) = PFloat (Finite x)"
| "thaw_value (FPayload fs) = PDict (thaw_items fs)"
| "thaw_value (FTuple fs) = PSeq (thaw_seq fs)"
| "thaw_items [] = []"
| "thaw_items ((k, f) # fs) = (KStr k, thaw_value f) # thaw_items fs"
| "thaw_seq [] = []"
| "thaw_seq (f # fs) = thaw_value f # thaw_seq fs"

definition payload_get :: "(string \<times> frozen) list \<Rightarrow> string \<Rightarrow> py_error + frozen" where
  "payload_get items key = (case map_of items key of None \<Rightarrow> Inl (KeyError key) | Some v \<Rightarrow> Inr v)"

definition payload_len :: "(string \<times> frozen) list \<Rightarrow> nat" where
  "payload_len items = length items"

subsection \<open>Routed events\<close>

text \<open>
  A callback's event as the code reads it, with \<open>getattr(event, name, None)\<close>; a timestamp is absent
  or no datetime (\<open>None\<close>), naive, or aware.
\<close>

datatype event_time = NoTime | NaiveTime | AwareTime time

record callback_event =
  ce_event_type :: pyval
  ce_when :: event_time
  ce_track :: "int option"
  ce_zone :: "string option"
  ce_payload :: pyval

record routed_event =
  re_camera_id :: string
  re_generation :: int
  re_event_type :: string
  re_timestamp :: time
  re_track_id :: "int option"
  re_zone_id :: "string option"
  re_payload :: "(string \<times> frozen) list"
  re_accepted_at :: time

definition aware_utc :: "event_time \<Rightarrow> string \<Rightarrow> orch_error + time" where
  "aware_utc t name =
     (case t of AwareTime x \<Rightarrow> Inr x | _ \<Rightarrow> Inl (callback_err (name @ '' must be timezone-aware'')))"

definition event_from_callback ::
  "string \<Rightarrow> int \<Rightarrow> callback_event \<Rightarrow> time \<Rightarrow> orch_error + routed_event" where
  "event_from_callback camera_id generation e now =
     (case ce_event_type e of
        PStr event_type \<Rightarrow>
          if py_strip event_type = []
          then Inl (orch_err CALLBACK (Some camera_id) ''event type must be a non-empty string'')
          else bindE (aware_utc (ce_when e) ''event timestamp'') (\<lambda>timestamp.
            (case ce_payload e of
               PDict items \<Rightarrow> bindE (freeze_items items) (\<lambda>payload.
                 Inr \<lparr>re_camera_id = camera_id, re_generation = generation, re_event_type = event_type,
                      re_timestamp = timestamp, re_track_id = ce_track e, re_zone_id = ce_zone e,
                      re_payload = payload, re_accepted_at = now\<rparr>)
             | _ \<Rightarrow> Inl (orch_err CALLBACK (Some camera_id) ''event payload must be a mapping'')))
      | _ \<Rightarrow> Inl (orch_err CALLBACK (Some camera_id) ''event type must be a non-empty string''))"

subsection \<open>Results and health\<close>

record lifecycle_result =
  lr_camera_id :: string
  lr_operation :: lifecycle_operation
  lr_outcome :: lifecycle_outcome
  lr_generation :: "int option"
  lr_status :: "camera_status option"
  lr_error :: "orchestration_failure option"

definition lr_state :: "lifecycle_result \<Rightarrow> worker_state" where
  "lr_state r = (case lr_status r of None \<Rightarrow> STOPPED | Some s \<Rightarrow> cs_state s)"

definition lr_metrics :: "lifecycle_result \<Rightarrow> camera_metrics" where
  "lr_metrics r = (case lr_status r of None \<Rightarrow> no_metrics | Some s \<Rightarrow> status_metrics s)"

record orchestration_health =
  oh_status :: camera_health
  oh_active :: nat
  oh_failed :: nat
  oh_cameras :: "camera_status list"

definition health_from_statuses :: "(string \<times> camera_status) list \<Rightarrow> orchestration_health" where
  "health_from_statuses statuses =
     (let snapshot = map snd (sort_key fst statuses);
          active = length (filter (\<lambda>s. active_state (cs_state s)) snapshot);
          failed = length (filter (\<lambda>s. cs_state s = FAILED) snapshot);
          degraded = 0 < failed \<or> (\<exists>s \<in> set snapshot. cs_sink_failures s \<noteq> 0 \<or> cs_worker_failures s \<noteq> 0)
      in \<lparr>oh_status = if 0 < failed then HFAILED else if degraded then DEGRADED else OK,
          oh_active = active, oh_failed = failed, oh_cameras = snapshot\<rparr>)"

text \<open>Their JSON forms.\<close>

fun frozen_json :: "frozen \<Rightarrow> json"
and frozen_items_json :: "(string \<times> frozen) list \<Rightarrow> (string \<times> json) list"
and frozen_seq_json :: "frozen list \<Rightarrow> json list" where
  "frozen_json FNone = JNull"
| "frozen_json (FBool b) = JBool b"
| "frozen_json (FStr s) = JStr s"
| "frozen_json (FInt i) = JInt i"
| "frozen_json (FFloat x) = JNum x"
| "frozen_json (FPayload fs) = JObj (frozen_items_json fs)"
| "frozen_json (FTuple fs) = JList (frozen_seq_json fs)"
| "frozen_items_json [] = []"
| "frozen_items_json ((k, f) # fs) = (k, frozen_json f) # frozen_items_json fs"
| "frozen_seq_json [] = []"
| "frozen_seq_json (f # fs) = frozen_json f # frozen_seq_json fs"

definition routed_to_dict :: "(time \<Rightarrow> string) \<Rightarrow> routed_event \<Rightarrow> json" where
  "routed_to_dict stamp r = JObj
     [(''camera_id'', JStr (re_camera_id r)), (''generation'', JInt (re_generation r)),
      (''event_type'', JStr (re_event_type r)), (''timestamp'', JStr (stamp (re_timestamp r))),
      (''track_id'', jopt JInt (re_track_id r)), (''zone_id'', jopt JStr (re_zone_id r)),
      (''payload'', JObj (frozen_items_json (re_payload r))), (''accepted_at'', JStr (stamp (re_accepted_at r)))]"

definition failure_to_dict :: "orchestration_failure \<Rightarrow> json" where
  "failure_to_dict f = JObj [(''category'', JStr (category_name (of_category f))), (''summary'', JStr (of_summary f))]"

fun operation_name :: "lifecycle_operation \<Rightarrow> string" where
  "operation_name OpStart = ''start''" | "operation_name OpStop = ''stop''" | "operation_name OpRestart = ''restart''"

fun outcome_name :: "lifecycle_outcome \<Rightarrow> string" where
  "outcome_name Started = ''started''" | "outcome_name AlreadyRunning = ''already_running''"
| "outcome_name Stopped = ''stopped''" | "outcome_name AlreadyStopped = ''already_stopped''"
| "outcome_name Restarted = ''restarted''" | "outcome_name OutcomeFailed = ''failed''"

definition result_to_dict :: "(time \<Rightarrow> string) \<Rightarrow> lifecycle_result \<Rightarrow> json" where
  "result_to_dict stamp r = JObj
     [(''camera_id'', JStr (lr_camera_id r)), (''operation'', JStr (operation_name (lr_operation r))),
      (''outcome'', JStr (outcome_name (lr_outcome r))), (''generation'', jopt JInt (lr_generation r)),
      (''state'', JStr (state_name (lr_state r))), (''status'', jopt (status_to_dict stamp) (lr_status r)),
      (''error'', jopt failure_to_dict (lr_error r))]"

definition health_to_dict :: "(time \<Rightarrow> string) \<Rightarrow> orchestration_health \<Rightarrow> json" where
  "health_to_dict stamp h = JObj
     [(''status'', JStr (health_name (oh_status h))), (''active_cameras'', JInt (int (oh_active h))),
      (''failed_cameras'', JInt (int (oh_failed h))), (''cameras'', JList (map (status_to_dict stamp) (oh_cameras h)))]"

subsection \<open>Properties\<close>

text \<open>
  A status survives serialization: \<open>from_dict\<close> of \<open>to_dict\<close> is the status itself, for every value
  of its twenty-six fields, provided reading a time stamp inverts writing it.
\<close>

theorem status_round_trip:
  assumes "\<And>t. read_time conv (stamp t) = Some t" "\<And>t. stamp t \<noteq> []"
  shows "status_from_dict conv (status_to_dict stamp s) = Inr s"
proof -
  have e: "parse_enum state_name all_states (Some (JStr (state_name x))) = Inr x" for x
    by (cases x) (simp_all add: parse_enum_def all_states_def)
  have h: "parse_enum health_name all_healths (Some (JStr (health_name x))) = Inr x" for x
    by (cases x) (simp_all add: parse_enum_def all_healths_def)
  have c: "parse_enum category_name all_categories (Some (JStr (category_name x))) = Inr x" for x
    by (cases x) (simp_all add: parse_enum_def all_categories_def)
  have cn: "category_name x \<noteq> []" for x by (cases x) simp_all
  let ?v = "status_to_dict stamp s"
  have t: "parsed_time_field conv v k = Inr x" if "jget v k = Some (jopt (\<lambda>t. JStr (stamp t)) x)" for v k x
    using that assms by (cases x) (simp_all add: parsed_time_field_def jopt_def get_time_def converted_def)
  have f: "jget ?v ''last_frame_at'' = Some (jopt (\<lambda>t. JStr (stamp t)) (cs_last_frame_at s))"
    "jget ?v ''last_event_at'' = Some (jopt (\<lambda>t. JStr (stamp t)) (cs_last_event_at s))"
    "jget ?v ''last_processed_at'' = Some (jopt (\<lambda>t. JStr (stamp t)) (cs_last_processed_at s))"
    "jget ?v ''failure_category'' = Some (jopt (\<lambda>c. JStr (category_name c)) (cs_failure_category s))"
    "jget ?v ''error_summary'' = Some (jopt JStr (cs_error_summary s))"
    "jget ?v ''lifecycle_state'' = Some (JStr (state_name (cs_state s)))"
    "jget ?v ''health'' = Some (JStr (health_name (cs_health s)))"
    "jget ?v ''is_running'' = Some (JBool (cs_is_running s))" "jget ?v ''camera_id'' = Some (JStr (cs_camera_id s))"
    "jget ?v ''updated_at'' = Some (JStr (stamp (cs_updated_at s)))" "jget ?v ''processing_fps'' = Some (JNum (cs_fps s))"
    "jget ?v ''generation'' = Some (JInt (cs_generation s))" "jget ?v ''reconnect_count'' = Some (JInt (cs_reconnect_count s))"
    "jget ?v ''frame_buffer_size'' = Some (JInt (cs_buffer_size s))" "jget ?v ''frame_buffer_capacity'' = Some (JInt (cs_buffer_capacity s))"
    "jget ?v ''event_queue_size'' = Some (JInt (cs_queue_size s))" "jget ?v ''event_queue_capacity'' = Some (JInt (cs_queue_capacity s))"
    "jget ?v ''callback_backlog'' = Some (JInt (cs_backlog s))" "jget ?v ''dropped_event_count'' = Some (JInt (cs_dropped s))"
    "jget ?v ''frames_captured'' = Some (JInt (cs_frames_captured s))" "jget ?v ''frames_processed'' = Some (JInt (cs_frames_processed s))"
    "jget ?v ''capture_failures'' = Some (JInt (cs_capture_failures s))" "jget ?v ''events_emitted'' = Some (JInt (cs_events_emitted s))"
    "jget ?v ''event_sink_failures'' = Some (JInt (cs_sink_failures s))" "jget ?v ''worker_failures'' = Some (JInt (cs_worker_failures s))"
    "jget ?v ''transition_count'' = Some (JInt (cs_transition_count s))"
    by (simp_all add: status_to_dict_def)
  have cat: "(case Some (jopt (\<lambda>c. JStr (category_name c)) x) of None \<Rightarrow> Inr None
      | Some c \<Rightarrow> if truthy c then bindE (parse_enum category_name all_categories (Some c)) (\<lambda>x. Inr (Some x)) else Inr None) = Inr x" for x
    using c cn by (cases x) (simp_all add: jopt_def)
  have err: "(case Some (jopt JStr x) of Some (JStr s) \<Rightarrow> Some s | _ \<Rightarrow> None) = x" for x
    by (cases x) (simp_all add: jopt_def)
  show ?thesis
    unfolding status_from_dict_def f cat err t [OF f(1)] t [OF f(2)] t [OF f(3)]
    by (simp add: get_int_def get_float_def get_str_def get_time_def converted_def e h f assms)
qed

definition demo_stamp :: "time \<Rightarrow> string" where
  "demo_stamp t = (if t < 0 then CHR ''-'' else CHR ''+'') # replicate (nat \<bar>t\<bar>) CHR ''x''"

definition demo_unstamp :: "string \<Rightarrow> time option" where
  "demo_unstamp s = (case s of [] \<Rightarrow> None | c # cs \<Rightarrow> Some (if c = CHR ''-'' then - int (length cs) else int (length cs)))"

definition demo_status :: camera_status where
  "demo_status = \<lparr>cs_camera_id = ''c'', cs_generation = 2, cs_state = RECONNECTING, cs_health = DEGRADED,
     cs_is_running = True, cs_updated_at = 7, cs_last_frame_at = Some 5, cs_last_event_at = None,
     cs_last_processed_at = None, cs_failure_category = Some SINK, cs_error_summary = Some ''slow'',
     cs_reconnect_count = 1, cs_fps = 1 / 2, cs_buffer_size = 0, cs_buffer_capacity = 10, cs_queue_size = 3,
     cs_queue_capacity = 100, cs_backlog = 0, cs_dropped = 4, cs_frames_captured = 9, cs_frames_processed = 8,
     cs_capture_failures = 1, cs_events_emitted = 6, cs_sink_failures = 1, cs_worker_failures = 0, cs_transition_count = 3\<rparr>"

theorem status_round_trip_witness:
  "status_from_dict \<lparr>read_time = demo_unstamp, read_int = (\<lambda>s. None), read_float = (\<lambda>s. None), show_value = (\<lambda>v. [])\<rparr>
     (status_to_dict demo_stamp demo_status) = Inr demo_status"
  by (rule status_round_trip) (simp_all add: demo_stamp_def demo_unstamp_def)

text \<open>
  What a frozen payload never contains, at any depth: a sensitive key in any letter case, or a
  string with a connection URL.
\<close>

fun secret_free :: "frozen \<Rightarrow> bool"
and secret_free_items :: "(string \<times> frozen) list \<Rightarrow> bool"
and secret_free_seq :: "frozen list \<Rightarrow> bool" where
  "secret_free (FStr s) \<longleftrightarrow> \<not> contains_sub ''://'' s"
| "secret_free (FPayload fs) \<longleftrightarrow> secret_free_items fs"
| "secret_free (FTuple fs) \<longleftrightarrow> secret_free_seq fs"
| "secret_free _ \<longleftrightarrow> True"
| "secret_free_items [] \<longleftrightarrow> True"
| "secret_free_items ((k, f) # fs) \<longleftrightarrow> \<not> sensitive k \<and> secret_free f \<and> secret_free_items fs"
| "secret_free_seq [] \<longleftrightarrow> True"
| "secret_free_seq (f # fs) \<longleftrightarrow> secret_free f \<and> secret_free_seq fs"

lemma freeze_secret_free:
  "freeze_value v = Inr f \<Longrightarrow> secret_free f"
  "freeze_items items = Inr fs \<Longrightarrow> secret_free_items fs"
  "freeze_seq vs = Inr ys \<Longrightarrow> secret_free_seq ys"
  by (induction v and items and vs arbitrary: f and fs and ys
        rule: freeze_value_freeze_items_freeze_seq.induct)
    (auto simp: bindE_eq_Inr split: if_splits pykey.splits)

lemma thaw_freeze:
  "freeze_value v = Inr f \<Longrightarrow> thaw_value f = v"
  "freeze_items items = Inr fs \<Longrightarrow> thaw_items fs = items"
  "freeze_seq vs = Inr ys \<Longrightarrow> thaw_seq ys = vs"
  by (induction v and items and vs arbitrary: f and fs and ys
        rule: freeze_value_freeze_items_freeze_seq.induct)
    (auto simp: bindE_eq_Inr split: if_splits pykey.splits elim: isfinite.elims)

text \<open>
  The event boundary leaks nothing and loses nothing: an event that is routed carries a payload
  without sensitive keys or URLs at any depth, thawing it gives back exactly the payload of the
  callback, and its type and time are those of the callback.
\<close>

theorem routed_event_clean:
  assumes "event_from_callback camera_id generation e now = Inr r"
  shows "secret_free_items (re_payload r) \<and> PDict (thaw_items (re_payload r)) = ce_payload e
    \<and> ce_event_type e = PStr (re_event_type r) \<and> py_strip (re_event_type r) \<noteq> []
    \<and> ce_when e = AwareTime (re_timestamp r) \<and> re_generation r = generation"
proof -
  from assms obtain items where p: "ce_payload e = PDict items"
    by (cases "ce_event_type e"; cases "ce_payload e") (auto simp: event_from_callback_def bindE_eq_Inr split: if_splits)
  from assms obtain t where w: "ce_when e = AwareTime t"
    by (cases "ce_event_type e"; cases "ce_when e") (auto simp: event_from_callback_def aware_utc_def split: if_splits)
  from assms obtain ty where ty: "ce_event_type e = PStr ty"
    by (cases "ce_event_type e") (auto simp: event_from_callback_def)
  from assms obtain fs where "freeze_items items = Inr fs" "re_payload r = fs" "py_strip ty \<noteq> []"
    "re_event_type r = ty" "re_timestamp r = t" "re_generation r = generation"
    by (auto simp: event_from_callback_def bindE_eq_Inr aware_utc_def p w ty split: if_splits)
  with p w ty freeze_secret_free(2) thaw_freeze(2) show ?thesis by simp
qed

definition demo_callback :: "pyval \<Rightarrow> callback_event" where
  "demo_callback v = \<lparr>ce_event_type = PStr ''zone_enter'', ce_when = AwareTime 5, ce_track = Some 3, ce_zone = None,
     ce_payload = PDict [(KStr ''zone_name'', v)]\<rparr>"

theorem routed_event_clean_witness:
  "event_from_callback ''c'' 1 (demo_callback (PSeq [PStr ''gate'', PInt 2])) 9 =
     Inr \<lparr>re_camera_id = ''c'', re_generation = 1, re_event_type = ''zone_enter'', re_timestamp = 5, re_track_id = Some 3,
          re_zone_id = None, re_payload = [(''zone_name'', FTuple [FStr ''gate'', FInt 2])], re_accepted_at = 9\<rparr>
   \<and> secret_free_items [(''zone_name'', FTuple [FStr ''gate'', FInt 2])]"
proof -
  have e: "event_from_callback ''c'' 1 (demo_callback (PSeq [PStr ''gate'', PInt 2])) 9 =
     Inr \<lparr>re_camera_id = ''c'', re_generation = 1, re_event_type = ''zone_enter'', re_timestamp = 5, re_track_id = Some 3,
          re_zone_id = None, re_payload = [(''zone_name'', FTuple [FStr ''gate'', FInt 2])], re_accepted_at = 9\<rparr>"
    by (simp add: event_from_callback_def demo_callback_def py_strip_def py_is_space_def aware_utc_def
        sensitive_def sensitive_keys_def py_lower_def py_lower_char_def starts_with_def)
  from routed_event_clean [OF e] e show ?thesis by simp
qed

text \<open>The lifecycle table: only a stop leads to \<open>STOPPED\<close>, and a stopped worker only starts.\<close>

lemma valid_transitions_irrefl: "s \<notin> valid_transitions s"
  by (cases s) simp_all

lemma all_states_reach_stopping:
  "s \<noteq> STOPPED \<Longrightarrow> s \<noteq> STOPPING \<Longrightarrow> STOPPING \<in> valid_transitions s"
  by (cases s) simp_all

end
