(* ===== verification/Orch_Adapters.thy ===== *)
theory Orch_Adapters
  imports Edge_Sync Orch_Models Cv_Config
begin

section \<open>The adapters between the orchestration and the edge services\<close>

text \<open>
  Model of \<open>Agent2CameraCatalog\<close> and \<open>Agent2EventSink\<close> of \<open>app/orchestration/adapters.py\<close>: how a camera
  record becomes the definition of a worker, which cameras the catalogue returns, and how an event
  is persisted. The UUID parser (giving the canonical text), \<open>float\<close> of a text, \<open>str\<close> of a JSON value
  and the parser of dates are arguments, as are the times read and the database each transaction
  meets. The code checks the settings in the order of a set, which is arbitrary; every failure
  ends in the same public error. JSON numbers are finite, characters are ASCII.
\<close>

subsection \<open>Reading a configuration\<close>

record adapter_env =
  ae_parse :: "string \<Rightarrow> parsed_time option"
  ae_render :: "json \<Rightarrow> string"
  ae_uuid :: "string \<Rightarrow> string option"
  ae_float :: "string \<Rightarrow> raw_float"

text \<open>\<open>str(value)\<close>, and the iteration over a value: a text by characters, an object by keys.\<close>

definition py_str :: "adapter_env \<Rightarrow> json \<Rightarrow> string" where
  "py_str env v = (case v of JStr s \<Rightarrow> s | x \<Rightarrow> ae_render env x)"

definition py_iter :: "json \<Rightarrow> py_error + json list" where
  "py_iter v = (case v of
     JList xs \<Rightarrow> Inr xs
   | JStr s \<Rightarrow> Inr (map (\<lambda>c. JStr [c]) s)
   | JObj fs \<Rightarrow> Inr (map (\<lambda>f. JStr (fst f)) fs)
   | _ \<Rightarrow> Inl (LibraryError ''TypeError''))"

definition py_float :: "adapter_env \<Rightarrow> json \<Rightarrow> raw_float" where
  "py_float env v = (case v of
     JInt i \<Rightarrow> Finite (of_int i)
   | JNum x \<Rightarrow> Finite x
   | JBool b \<Rightarrow> Finite (if b then 1 else 0)
   | JStr s \<Rightarrow> ae_float env s
   | _ \<Rightarrow> NotNumeric)"

definition field :: "json \<Rightarrow> string \<Rightarrow> py_error + json" where
  "field v key = (case jget v key of None \<Rightarrow> Inl (KeyError key) | Some x \<Rightarrow> Inr x)"

definition float_setting :: "json \<Rightarrow> string \<Rightarrow> real \<Rightarrow> py_error + raw_float" where
  "float_setting raw key preset = (case jget raw key of
     None \<Rightarrow> Inr (Finite preset)
   | Some (JInt i) \<Rightarrow> Inr (Finite (of_int i))
   | Some (JNum x) \<Rightarrow> Inr (Finite x)
   | Some v \<Rightarrow> Inl (ValueError (key @ '' must be numeric'')))"

definition int_setting :: "json \<Rightarrow> string \<Rightarrow> int \<Rightarrow> py_error + int" where
  "int_setting raw key preset = (case jget raw key of
     None \<Rightarrow> Inr preset
   | Some (JInt i) \<Rightarrow> Inr i
   | Some v \<Rightarrow> Inl (ValueError (key @ '' must be an integer'')))"

definition bool_setting :: "json \<Rightarrow> string \<Rightarrow> bool \<Rightarrow> string \<Rightarrow> py_error + bool" where
  "bool_setting raw key preset message = (case jget raw key of
     None \<Rightarrow> Inr preset
   | Some (JBool b) \<Rightarrow> Inr b
   | Some v \<Rightarrow> Inl (ValueError message))"

definition device_setting :: "json \<Rightarrow> py_error + string" where
  "device_setting raw = (case jget raw ''device'' of
     None \<Rightarrow> Inr ''auto''
   | Some (JStr s) \<Rightarrow> Inr s
   | Some v \<Rightarrow> Inl (ValueError ''device must be a string''))"

definition as_int :: "string \<Rightarrow> json \<Rightarrow> py_error + int" where
  "as_int message v = (case v of JInt i \<Rightarrow> Inr i | _ \<Rightarrow> Inl (ValueError message))"

definition class_ids_setting :: "json \<Rightarrow> py_error + int list" where
  "class_ids_setting raw = (case jget raw ''target_class_ids'' of
     None \<Rightarrow> Inr [0, 1, 2, 3]
   | Some (JList items) \<Rightarrow> mapE (as_int ''target_class_ids must contain integers'') items
   | Some v \<Rightarrow> Inl (ValueError ''target_class_ids must contain integers''))"

subsection \<open>Zones and the counting line\<close>

definition color_byte :: "json \<Rightarrow> py_error + int" where
  "color_byte v = (case v of
     JInt i \<Rightarrow> if 0 \<le> i \<and> i \<le> 255 then Inr i else Inl (ValueError ''zone color must contain three byte values'')
   | _ \<Rightarrow> Inl (ValueError ''zone color must contain three byte values''))"

definition color_setting :: "json \<Rightarrow> py_error + int \<times> int \<times> int" where
  "color_setting value = (case jget value ''color'' of
     None \<Rightarrow> Inr (0, 255, 0)
   | Some (JList [r, g, b]) \<Rightarrow>
       bindE (color_byte r) (\<lambda>x. bindE (color_byte g) (\<lambda>y. bindE (color_byte b) (\<lambda>z. Inr (x, y, z))))
   | Some v \<Rightarrow> Inl (ValueError ''zone color must contain three byte values''))"

definition point_pair :: "adapter_env \<Rightarrow> json list \<Rightarrow> py_error + raw_float \<times> raw_float" where
  "point_pair env point = (case point of
     [x, y] \<Rightarrow> Inr (py_float env x, py_float env y)
   | _ \<Rightarrow> Inl (ValueError ''wrong number of values to unpack''))"

text \<open>\<open>Zone(\<dots>)\<close>: fewer than three points are refused before a point is unpacked.\<close>

definition zone_points :: "adapter_env \<Rightarrow> json list list \<Rightarrow> py_error + (raw_float \<times> raw_float) list" where
  "zone_points env points =
     (if length points < 3 then Inl (ValueError ''a zone requires at least three vertices'')
      else mapE (point_pair env) points)"

definition zone_of :: "adapter_env \<Rightarrow> json \<Rightarrow> py_error + zone" where
  "zone_of env value =
     (if \<not> is_dict value then Inl (ValueError ''zone must be an object'') else
      bindE (bool_setting value ''normalized'' True ''zone flags must be booleans'') (\<lambda>normalized.
      bindE (bool_setting value ''alert_on_entry'' False ''zone flags must be booleans'') (\<lambda>alert.
      bindE (color_setting value) (\<lambda>color.
      bindE (field value ''id'') (\<lambda>i.
      bindE (field value ''vertices'') (\<lambda>vertices.
      bindE (py_iter vertices) (\<lambda>items.
      bindE (mapE py_iter items) (\<lambda>points.
      bindE (zone_points env points) (\<lambda>raw.
        mk_zone (py_str env i)
          (case jget value ''name'' of None \<Rightarrow> py_str env i
           | Some name \<Rightarrow> if truthy name then py_str env name else py_str env i)
          raw color alert normalized)))))))))"

definition zones_setting :: "adapter_env \<Rightarrow> json \<Rightarrow> py_error + zone list" where
  "zones_setting env value =
     (if truthy value then bindE (py_iter value) (mapE (zone_of env)) else Inr [])"

definition line_setting :: "adapter_env \<Rightarrow> json \<Rightarrow> py_error + counting_line option" where
  "line_setting env raw = (case jget raw ''counting_line'' of
     None \<Rightarrow> Inr None
   | Some JNull \<Rightarrow> Inr None
   | Some line \<Rightarrow>
       if \<not> is_dict line then Inl (ValueError ''counting_line must be an object'') else
       bindE (bool_setting line ''normalized'' True ''counting_line.normalized must be a boolean'') (\<lambda>normalized.
       bindE (bindE (field line ''start'') py_iter) (\<lambda>start.
       bindE (bindE (field line ''end'') py_iter) (\<lambda>fin.
       bindE (mk_counting_line (map (py_float env) start) (map (py_float env) fin) normalized) (\<lambda>l.
         Inr (Some l))))))"

subsection \<open>The definition of a camera\<close>

text \<open>\<open>_cv_config\<close>; the defaults are those of \<open>CVConfig\<close>, whose constructor checks the result.\<close>

definition adapter_config :: "adapter_env \<Rightarrow> camera_row \<Rightarrow> py_error + cv_config" where
  "adapter_config env r =
     (let raw = (if truthy (cam_analytics r) then cam_analytics r else JObj []) in
      if \<not> is_dict raw then Inl (ValueError ''analytics configuration must be an object'') else
      bindE (float_setting raw ''analytics_fps'' 10) (\<lambda>fps.
      bindE (float_setting raw ''confidence_threshold'' (1 / 2)) (\<lambda>confidence.
      bindE (float_setting raw ''face_tolerance'' (3 / 5)) (\<lambda>tolerance.
      bindE (float_setting raw ''intrusion_cooldown_seconds'' 5) (\<lambda>cooldown.
      bindE (float_setting raw ''intrusion_retention_margin_seconds'' 60) (\<lambda>margin.
      bindE (float_setting raw ''iou_threshold'' (9 / 20)) (\<lambda>iou.
      bindE (float_setting raw ''tracker_iou_threshold'' (3 / 10)) (\<lambda>tracker_iou.
      bindE (int_setting raw ''face_interval'' 5) (\<lambda>interval.
      bindE (int_setting raw ''people_counter_stale_after_frames'' 30) (\<lambda>stale.
      bindE (int_setting raw ''tracker_max_age'' 3) (\<lambda>age.
      bindE (int_setting raw ''tracker_min_hits'' 2) (\<lambda>hits.
      bindE (bool_setting raw ''face_recognition'' False ''face_recognition must be a boolean'') (\<lambda>face.
      bindE (device_setting raw) (\<lambda>device.
      bindE (class_ids_setting raw) (\<lambda>classes.
      bindE (zones_setting env (cam_zones r)) (\<lambda>zones.
      bindE (line_setting env raw) (\<lambda>line.
        let config = \<lparr>cv_device = device, cv_confidence_threshold = confidence, cv_iou_threshold = iou,
              cv_target_class_ids = classes, cv_analytics_fps = fps, cv_face_recognition = face,
              cv_face_interval = interval, cv_face_tolerance = tolerance, cv_zones = zones,
              cv_counting_line = line, cv_intrusion_zone_ids = map zone_id (filter zone_alert_on_entry zones),
              cv_intrusion_cooldown = cooldown, cv_intrusion_margin = margin, cv_counter_stale_after = stale,
              cv_tracker_max_age = age, cv_tracker_min_hits = hits, cv_tracker_iou_threshold = tracker_iou,
              cv_executor_workers = 1\<rparr>
        in bindE (cv_config_check config) (\<lambda>u. Inr config))))))))))))))))))"

definition is_decimal :: "string \<Rightarrow> bool" where
  "is_decimal s \<longleftrightarrow> s \<noteq> [] \<and> list_all is_digit_char s"

definition source_of :: "camera_row \<Rightarrow> camera_source" where
  "source_of r = (if cam_stream_type r = ''webcam'' \<and> is_decimal (cam_url r)
     then LocalDevice (int (digits_value 0 (cam_url r))) else StreamUrl (cam_url r))"

definition canonical_id :: "adapter_env \<Rightarrow> string \<Rightarrow> py_error + string" where
  "canonical_id env s = (case ae_uuid env s of
     None \<Rightarrow> Inl (ValueError ''badly formed hexadecimal UUID string'') | Some i \<Rightarrow> Inr i)"

definition definition_checks :: "adapter_env \<Rightarrow> camera_row \<Rightarrow> py_error + cv_config camera_definition" where
  "definition_checks env r =
     bindE (canonical_id env (cam_id r)) (\<lambda>i.
     bindE (guardE (py_strip (cam_url r) \<noteq> []) (ValueError ''camera source is unavailable'')) (\<lambda>u.
     bindE (adapter_config env r) (\<lambda>config.
       mk_camera_definition i (source_of r) config 10 100 (Finite 5) (Finite 2) (Finite (1 / 4)))))"

definition safe_camera_id :: "adapter_env \<Rightarrow> string \<Rightarrow> string option" where
  "safe_camera_id env s = ae_uuid env s"

abbreviation "bad_configuration \<equiv> ''camera runtime configuration is invalid''"

definition definition_of :: "adapter_env \<Rightarrow> camera_row \<Rightarrow> orch_error + cv_config camera_definition" where
  "definition_of env r = (case definition_checks env r of
     Inl e \<Rightarrow> Inl (orch_err CONFIGURATION (safe_camera_id env (cam_id r)) bad_configuration)
   | Inr d \<Rightarrow> Inr d)"

subsection \<open>The catalogue\<close>

datatype catalogue_error = ServiceRefused service_error | PythonRaised py_error | Orchestration orch_error

definition as_service :: "service_error + 'a \<Rightarrow> catalogue_error + 'a" where
  "as_service r = (case r of Inl e \<Rightarrow> Inl (ServiceRefused e) | Inr x \<Rightarrow> Inr x)"

definition as_python :: "py_error + 'a \<Rightarrow> catalogue_error + 'a" where
  "as_python r = (case r of Inl e \<Rightarrow> Inl (PythonRaised e) | Inr x \<Rightarrow> Inr x)"

definition as_orchestration :: "orch_error + 'a \<Rightarrow> catalogue_error + 'a" where
  "as_orchestration r = (case r of Inl e \<Rightarrow> Inl (Orchestration e) | Inr x \<Rightarrow> Inr x)"

definition background_session :: "adapter_env \<Rightarrow> edge_db \<Rightarrow> time \<Rightarrow> local_session option" where
  "background_session env db now = (case session_get_record db of
     None \<Rightarrow> None
   | Some s \<Rightarrow>
       if ss_status s \<noteq> ActiveSession then None
       else (case require (ae_parse env) (ae_render env) (ss_session s) now ''camera.read'' of
               Inl e \<Rightarrow> None | Inr u \<Rightarrow> Some (ss_session s)))"

text \<open>The session is read from one state of the database, the cameras from a later one.\<close>

definition list_enabled_cameras ::
  "adapter_env \<Rightarrow> edge_db \<Rightarrow> time \<Rightarrow> time \<Rightarrow> edge_db \<Rightarrow> catalogue_error + cv_config camera_definition list" where
  "list_enabled_cameras env db now later db' =
     (case background_session env db now of
        None \<Rightarrow> Inr []
      | Some session \<Rightarrow>
          bindE (as_service (license_max_cameras (ae_parse env) session later)) (\<lambda>limit.
            as_orchestration (mapE (definition_of env) (camera_list_active db' limit))))"

definition definition_for ::
  "adapter_env \<Rightarrow> edge_db \<Rightarrow> time \<Rightarrow> time \<Rightarrow> string \<Rightarrow> local_session \<Rightarrow> bool
    \<Rightarrow> catalogue_error + cv_config camera_definition option" where
  "definition_for env db now later camera session require_active =
     bindE (as_service (require (ae_parse env) (ae_render env) session now ''camera.read'')) (\<lambda>u.
     bindE (as_python (canonical_id env camera)) (\<lambda>i.
     bindE (if require_active
            then bindE (as_service (license_max_cameras (ae_parse env) session later)) (\<lambda>limit.
                   Inr (List.find (\<lambda>r. cam_id r = i) (camera_list_active db limit)))
            else Inr (camera_get db i)) (\<lambda>found.
       case found of None \<Rightarrow> Inr None
       | Some r \<Rightarrow> bindE (as_orchestration (definition_of env r)) (\<lambda>d. Inr (Some d)))))"

definition has_camera ::
  "adapter_env \<Rightarrow> edge_db \<Rightarrow> time \<Rightarrow> ident \<Rightarrow> local_session \<Rightarrow> service_error + bool" where
  "has_camera env db now camera session =
     bindE (require (ae_parse env) (ae_render env) session now ''camera.read'') (\<lambda>u.
       Inr (camera_get db camera \<noteq> None))"

subsection \<open>The event sink\<close>

definition event_payload :: "(time \<Rightarrow> string) \<Rightarrow> routed_event \<Rightarrow> (string \<times> json) list" where
  "event_payload stamp e =
     AList.update ''accepted_at'' (JStr (stamp (re_accepted_at e)))
       (AList.update ''zone_id'' (jopt JStr (re_zone_id e))
         (AList.update ''track_id'' (jopt JInt (re_track_id e))
           (AList.update ''generation'' (JInt (re_generation e)) (frozen_items_json (re_payload e)))))"

text \<open>\<open>AnalyticsEventCreate(\<dots>)\<close> with the identity the repository draws for it.\<close>

definition event_create ::
  "adapter_env \<Rightarrow> (time \<Rightarrow> string) \<Rightarrow> ident \<Rightarrow> routed_event \<Rightarrow> py_error + event_row" where
  "event_create env stamp event_id e =
     bindE (canonical_id env (re_camera_id e)) (\<lambda>camera.
     bindE (guardE (1 \<le> length (py_strip (re_event_type e)) \<and> length (py_strip (re_event_type e)) \<le> 50)
              (LibraryError ''ValidationError'')) (\<lambda>u.
       Inr \<lparr>ev_id = event_id, ev_camera = camera, ev_type = py_strip (re_event_type e),
            ev_payload = JObj (event_payload stamp e), ev_image_path = None, ev_synced = False,
            ev_created = re_timestamp e, ev_image_id = None\<rparr>))"

definition sink_emit ::
  "adapter_env \<Rightarrow> (time \<Rightarrow> string) \<Rightarrow> edge_db \<Rightarrow> time \<Rightarrow> ident \<Rightarrow> ident \<Rightarrow> int \<Rightarrow> edge_db \<Rightarrow> routed_event
    \<Rightarrow> orch_error + edge_db" where
  "sink_emit env stamp db now event_id uuid max_attempts db' e =
     (case session_get_record db of
        None \<Rightarrow> Inl (orch_err SINK (Some (re_camera_id e)) ''analytics persistence requires an active local session'')
      | Some s \<Rightarrow>
          if ss_status s \<noteq> ActiveSession
          then Inl (orch_err SINK (Some (re_camera_id e)) ''analytics persistence requires an active local session'')
          else (case bindE (lift_py (event_create env stamp event_id e)) (\<lambda>row.
                  analytics_event stamp \<lparr>ca_parse = ae_parse env, ca_render = ae_render env,
                    ca_session = ss_session s, ca_now = now\<rparr> db' uuid row max_attempts) of
              Inl x \<Rightarrow> Inl (orch_err SINK (Some (re_camera_id e)) ''analytics event persistence failed'')
            | Inr (db2, stored) \<Rightarrow> Inr db2))"

end
