(* ===== verification/Orch_Adapter_Props.thy ===== *)
theory Orch_Adapter_Props
  imports Orch_Adapters
begin

section \<open>Properties of the adapters\<close>

text \<open>
  The catalogue never hands the manager a camera the session, the licence or the configuration
  checks do not allow, and one bad record hides all cameras. The event sink persists under the
  authorization of the active session, and fails only with the public error of a sink.
\<close>

subsection \<open>Definitions\<close>

lemma mapE_error: "(\<exists>e. mapE f xs = Inl e) \<longleftrightarrow> (\<exists>x \<in> set xs. \<exists>e. f x = Inl e)"
proof (induction xs)
  case (Cons x xs)
  then show ?case by (cases "f x"; cases "mapE f xs") auto
qed simp

lemma list_all2_members:
  "list_all2 P xs ys \<Longrightarrow> (\<forall>y \<in> set ys. \<exists>x \<in> set xs. P x y) \<and> (\<forall>x \<in> set xs. \<exists>y \<in> set ys. P x y)"
  by (induction rule: list_all2_induct) auto

lemma zone_of_ok: "zone_of env v = Inr z \<Longrightarrow> zone_ok z"
  by (auto simp: zone_of_def bindE_eq_Inr split: if_splits intro: mk_zone_ok)

lemma zones_setting_ok:
  assumes "zones_setting env v = Inr zs" and "z \<in> set zs"
  shows "zone_ok z"
proof (cases "truthy v")
  case True
  with assms(1) obtain items where l: "list_all2 (\<lambda>x y. zone_of env x = Inr y) items zs"
    by (auto simp: zones_setting_def bindE_eq_Inr mapE_eq_Inr)
  from bspec [OF conjunct1 [OF list_all2_members [OF l]] assms(2)] obtain x where "zone_of env x = Inr z" ..
  then show ?thesis by (rule zone_of_ok)
next
  case False
  with assms show ?thesis by (simp add: zones_setting_def)
qed

definition config_ok :: "cv_config \<Rightarrow> bool" where
  "config_ok c \<longleftrightarrow> cv_config_check c = Inr () \<and> (\<forall>z \<in> set (cv_zones c). zone_ok z)
     \<and> cv_intrusion_zone_ids c = map zone_id (filter zone_alert_on_entry (cv_zones c))"

lemma adapter_config_ok:
  assumes "adapter_config env r = Inr c"
  shows "config_ok c"
  using assms unfolding adapter_config_def Let_def
  by (auto simp: bindE_eq_Inr config_ok_def split: if_splits dest: zones_setting_ok)

lemma definition_of_Inr:
  assumes "definition_of env r = Inr d"
  shows "ae_uuid env (cam_id r) = Some (cd_camera_id d) \<and> cd_source d = source_of r
    \<and> py_strip (cam_url r) \<noteq> [] \<and> config_ok (cd_config d)"
proof -
  from assms have "definition_checks env r = Inr d"
    by (simp add: definition_of_def split: sum.splits)
  then obtain i c where i: "canonical_id env (cam_id r) = Inr i" and u: "py_strip (cam_url r) \<noteq> []"
    and c: "adapter_config env r = Inr c"
    and d: "mk_camera_definition i (source_of r) c 10 100 (Finite 5) (Finite 2) (Finite (1 / 4)) = Inr d"
    by (auto simp: definition_checks_def bindE_eq_Inr)
  from d have "cd_camera_id d = i \<and> cd_source d = source_of r \<and> cd_config d = c"
    by (auto simp: mk_camera_definition_def bindE_eq_Inr)
  with i u adapter_config_ok [OF c] show ?thesis
    by (auto simp: canonical_id_def split: option.splits)
qed

subsection \<open>The catalogue\<close>

lemma camera_list_active_props:
  "int (length (camera_list_active db limit)) \<le> max 0 limit"
  "r \<in> set (camera_list_active db limit) \<Longrightarrow> r \<in> set (db_cameras db) \<and> cam_active r"
  by (auto simp: camera_list_active_def cameras_by_name_def split: if_splits dest: in_set_takeD)

lemma camera_list_active_all:
  assumes "int (length (filter cam_active (db_cameras db))) \<le> limit" "r \<in> set (db_cameras db)" "cam_active r"
  shows "r \<in> set (camera_list_active db limit)"
proof -
  from assms(2,3) have m: "r \<in> set (filter cam_active (db_cameras db))" by simp
  then have "0 < length (filter cam_active (db_cameras db))" by (rule length_pos_if_in_set)
  with assms(1) have "1 \<le> limit" "length (filter cam_active (db_cameras db)) \<le> nat limit" by linarith+
  then have "camera_list_active db limit = cameras_by_name (filter cam_active (db_cameras db))"
    by (simp add: camera_list_active_def cameras_by_name_def)
  with m show ?thesis by (simp add: cameras_by_name_def)
qed

text \<open>
  C27. Whatever the catalogue returns is allowed and complete: a non-empty answer needs a session
  that is stored and active, holds the permission to read cameras and a valid licence; it has at
  most as many cameras as the licence grants; each of them is an active stored camera with its
  canonical identity, its own source and a checked configuration whose intrusion zones are exactly
  those marked for alerts; and when the licence covers all active cameras, none is left out.
\<close>

theorem catalogue_sound:
  assumes "list_enabled_cameras env db now later db' = Inr ds" and "ds \<noteq> []"
  shows "\<exists>s limit. db_session db = Some s \<and> ss_status s = ActiveSession
    \<and> require (ae_parse env) (ae_render env) (ss_session s) now ''camera.read'' = Inr ()
    \<and> license_max_cameras (ae_parse env) (ss_session s) later = Inr limit
    \<and> int (length ds) \<le> limit
    \<and> (\<forall>d \<in> set ds. config_ok (cd_config d) \<and> (\<exists>r \<in> set (db_cameras db'). cam_active r
          \<and> ae_uuid env (cam_id r) = Some (cd_camera_id d) \<and> cd_source d = source_of r))
    \<and> (int (length (filter cam_active (db_cameras db'))) \<le> limit \<longrightarrow>
        (\<forall>r \<in> set (db_cameras db'). cam_active r \<longrightarrow> (\<exists>d \<in> set ds. definition_of env r = Inr d)))"
proof -
  from assms obtain session where bg: "background_session env db now = Some session"
    by (auto simp: list_enabled_cameras_def split: option.splits)
  then obtain s where s: "db_session db = Some s" "ss_status s = ActiveSession" "session = ss_session s"
    "require (ae_parse env) (ae_render env) (ss_session s) now ''camera.read'' = Inr ()"
    by (auto simp: background_session_def session_get_record_def split: option.splits if_splits sum.splits)
  from bg assms obtain limit where limit: "license_max_cameras (ae_parse env) session later = Inr limit"
    and m: "mapE (definition_of env) (camera_list_active db' limit) = Inr ds"
    by (auto simp: list_enabled_cameras_def bindE_eq_Inr as_service_def as_orchestration_def split: sum.splits)
  from m have l: "list_all2 (\<lambda>r d. definition_of env r = Inr d) (camera_list_active db' limit) ds"
    by (simp add: mapE_eq_Inr)
  have from_row: "\<exists>r \<in> set (camera_list_active db' limit). definition_of env r = Inr d" if "d \<in> set ds" for d
    using list_all2_members [OF l] that by blast
  have to_row: "\<exists>d \<in> set ds. definition_of env r = Inr d" if "r \<in> set (camera_list_active db' limit)" for r
    using list_all2_members [OF l] that by blast
  have "length ds = length (camera_list_active db' limit)" using list_all2_lengthD [OF l] by simp
  then have "int (length ds) \<le> max 0 limit" using camera_list_active_props(1) [of db' limit] by simp
  moreover from assms(2) have "0 < length ds" by simp
  ultimately have len: "int (length ds) \<le> limit" by linarith
  have each: "config_ok (cd_config d) \<and> (\<exists>r \<in> set (db_cameras db'). cam_active r
      \<and> ae_uuid env (cam_id r) = Some (cd_camera_id d) \<and> cd_source d = source_of r)" if "d \<in> set ds" for d
  proof -
    from from_row [OF that] obtain r where r: "r \<in> set (camera_list_active db' limit)" "definition_of env r = Inr d"
      by blast
    with camera_list_active_props(2) [OF r(1)] definition_of_Inr [OF r(2)] show ?thesis by blast
  qed
  show ?thesis
    using s limit len each to_row camera_list_active_all [of db' limit] by blast
qed

text \<open>
  The catalogue is all or nothing: with an authorized session, one active camera within the
  licensed ones whose stored configuration is refused makes the whole catalogue fail with the
  configuration error, and nothing else of that category does.
\<close>

theorem catalogue_all_or_nothing:
  assumes "background_session env db now = Some session"
    and "license_max_cameras (ae_parse env) session later = Inr limit"
  shows "(\<exists>i. list_enabled_cameras env db now later db' = Inl (Orchestration (orch_err CONFIGURATION i bad_configuration)))
    \<longleftrightarrow> (\<exists>r \<in> set (camera_list_active db' limit). \<exists>e. definition_checks env r = Inl e)"
proof -
  have err: "\<exists>i. e = orch_err CONFIGURATION i bad_configuration" if "mapE (definition_of env) rs = Inl e" for e rs
    using that by (induction rs) (auto simp: definition_of_def bindE_def split: sum.splits)
  have bad: "(\<exists>e. definition_of env r = Inl e) \<longleftrightarrow> (\<exists>e. definition_checks env r = Inl e)" for r
    by (auto simp: definition_of_def split: sum.splits)
  let ?m = "mapE (definition_of env) (camera_list_active db' limit)"
  have "list_enabled_cameras env db now later db' = as_orchestration ?m"
    using assms by (simp add: list_enabled_cameras_def as_service_def)
  then have "(\<exists>i. list_enabled_cameras env db now later db' = Inl (Orchestration (orch_err CONFIGURATION i bad_configuration)))
      \<longleftrightarrow> (\<exists>e. ?m = Inl e)"
    using err by (auto simp: as_orchestration_def split: sum.splits)
  also have "\<dots> \<longleftrightarrow> (\<exists>r \<in> set (camera_list_active db' limit). \<exists>e. definition_of env r = Inl e)"
    by (rule mapE_error)
  finally show ?thesis using bad by simp
qed

subsection \<open>The sink\<close>

definition no_session :: "routed_event \<Rightarrow> orch_error" where
  "no_session e = orch_err SINK (Some (re_camera_id e)) ''analytics persistence requires an active local session''"

definition not_persisted :: "routed_event \<Rightarrow> orch_error" where
  "not_persisted e = orch_err SINK (Some (re_camera_id e)) ''analytics event persistence failed''"

text \<open>The row the sink stores for an event of a camera.\<close>

definition sink_row :: "(time \<Rightarrow> string) \<Rightarrow> ident \<Rightarrow> ident \<Rightarrow> routed_event \<Rightarrow> event_row" where
  "sink_row stamp event_id camera e = \<lparr>ev_id = event_id, ev_camera = camera, ev_type = py_strip (re_event_type e),
     ev_payload = JObj (event_payload stamp e), ev_image_path = None, ev_synced = False,
     ev_created = re_timestamp e, ev_image_id = None\<rparr>"

lemma add_event_Inr:
  assumes "add_event stamp db now uuid row m = Inr (db2, j)"
  shows "camera_with_id db (ev_camera row) \<noteq> None \<and> ev_id row \<notin> ev_id ` set (db_events db)
    \<and> (\<exists>dependency. db2 = db\<lparr>db_events := db_events db @ [row\<lparr>ev_synced := False\<rparr>],
         db_queue := fst (enqueue (db_queue db) uuid now ''/api/v1/sync/events''
           (JObj [(''events'', JList [event_json stamp row])]) (''event:'' @ ev_id row) m dependency)\<rparr>)"
  using assms by (auto simp: add_event_def bindE_eq_Inr camera_dependency_def split: if_splits option.splits)

text \<open>
  The sink either persists an event or raises one of its two public errors. It persists only
  with a stored active session that may write analytics and whose licence covers the module of the
  event, only for a stored camera, and then the local table has exactly one new row, with the
  event's type, time and payload under a fresh identity, the sync queue has the delivery of that
  row, and no other table changes.
\<close>

theorem sink_outcomes:
  "case sink_emit env stamp db now event_id uuid m db' e of
     Inl x \<Rightarrow> x \<in> {no_session e, not_persisted e}
   | Inr db2 \<Rightarrow> \<exists>s camera dependency.
       db_session db = Some s \<and> ss_status s = ActiveSession
     \<and> require (ae_parse env) (ae_render env) (ss_session s) now ''analytics.write'' = Inr ()
     \<and> require_analytics_module (ae_parse env) (ss_session s) now (py_strip (re_event_type e)) = Inr ()
     \<and> ae_uuid env (re_camera_id e) = Some camera \<and> camera_with_id db' camera \<noteq> None
     \<and> event_id \<notin> ev_id ` set (db_events db')
     \<and> db2 = db'\<lparr>db_events := db_events db' @ [sink_row stamp event_id camera e],
         db_queue := fst (enqueue (db_queue db') uuid now ''/api/v1/sync/events''
           (JObj [(''events'', JList [event_json stamp (sink_row stamp event_id camera e)])])
           (''event:'' @ event_id) m dependency)\<rparr>"
proof (cases "sink_emit env stamp db now event_id uuid m db' e")
  case (Inl x)
  then show ?thesis
    by (auto simp: sink_emit_def no_session_def not_persisted_def split: option.splits if_splits sum.splits prod.splits)
next
  case (Inr db2)
  then obtain s j where s: "db_session db = Some s" "ss_status s = ActiveSession"
    and w: "bindE (lift_py (event_create env stamp event_id e)) (\<lambda>row.
        analytics_event stamp \<lparr>ca_parse = ae_parse env, ca_render = ae_render env,
          ca_session = ss_session s, ca_now = now\<rparr> db' uuid row m) = Inr (db2, j)"
    by (auto simp: sink_emit_def session_get_record_def split: option.splits if_splits sum.splits prod.splits)
  from w obtain row where row: "event_create env stamp event_id e = Inr row"
    and a: "analytics_event stamp \<lparr>ca_parse = ae_parse env, ca_render = ae_render env,
          ca_session = ss_session s, ca_now = now\<rparr> db' uuid row m = Inr (db2, j)"
    by (auto simp: bindE_eq_Inr lift_py_def split: sum.splits)
  from row obtain camera where camera: "ae_uuid env (re_camera_id e) = Some camera"
    and row': "row = sink_row stamp event_id camera e"
    by (auto simp: event_create_def bindE_eq_Inr canonical_id_def sink_row_def split: option.splits)
  from a have perms: "require (ae_parse env) (ae_render env) (ss_session s) now ''analytics.write'' = Inr ()"
      "require_analytics_module (ae_parse env) (ss_session s) now (ev_type row) = Inr ()"
    and add: "add_event stamp db' now uuid row m = Inr (db2, j)"
    by (auto simp: analytics_event_def may_record_def allowed_def bindE_eq_Inr lift_py_def split: sum.splits)
  from add_event_Inr [OF add] s camera perms show ?thesis
    unfolding Inr sum.case row' by (auto simp: sink_row_def)
qed

subsection \<open>A site\<close>

definition site_env :: adapter_env where
  "site_env = \<lparr>ae_parse = (\<lambda>s. Some (Aware 1000)), ae_render = (\<lambda>v. []), ae_uuid = Some, ae_float = (\<lambda>s. NotNumeric)\<rparr>"

definition site_session :: local_session where
  "site_session = \<lparr>ls_access_token = ''a'', ls_session_token = ''s'', ls_refresh_token = None, ls_access_expires = 1000,
     ls_user = JObj [(''id'', JStr ''u''), (''role'', JStr ''admin'')],
     ls_license = Some (JObj [(''is_active'', JBool True), (''valid_until'', JStr ''t''), (''max_cameras'', JInt 2)])\<rparr>"

definition corner :: "json \<Rightarrow> json \<Rightarrow> json" where
  "corner x y = JList [x, y]"

definition site_zone :: json where
  "site_zone = JObj [(''id'', JStr ''z''), (''alert_on_entry'', JBool True),
     (''vertices'', JList [corner (JInt 0) (JInt 0), corner (JInt 1) (JInt 0), corner (JInt 1) (JInt 1), corner (JInt 0) (JInt 1)])]"

definition site_camera :: "json \<Rightarrow> camera_row" where
  "site_camera zones = \<lparr>cam_id = ''cam'', cam_server_id = None, cam_name = ''Door'', cam_url = ''0'', cam_stream_type = ''webcam'',
     cam_location = None, cam_analytics = JObj [], cam_zones = zones, cam_active = True,
     cam_sync_state = ''pending'', cam_created = 0, cam_updated = 0\<rparr>"

definition site_db :: "camera_row list \<Rightarrow> edge_db" where
  "site_db cams = \<lparr>db_session = Some \<lparr>ss_session = site_session, ss_user_id = ''u'', ss_license_until = Some 1000,
       ss_updated = 0, ss_generation = 1, ss_status = ActiveSession, ss_last_error = None\<rparr>,
     db_cameras = cams, db_events = [], db_alerts = [], db_counts = [], db_persons = [], db_queue = []\<rparr>"

lemma site_authorized:
  "background_session site_env (site_db cams) 0 = Some site_session"
  "license_max_cameras (ae_parse site_env) site_session 0 = Inr 2"
  by (simp_all add: background_session_def session_get_record_def site_db_def site_env_def site_session_def
      require_def license_max_cameras_def valid_license_def role_permissions_def user_role_def Let_def split_permission_def)

lemma site_active: "camera_list_active (site_db [c]) 2 = (if cam_active c then [c] else [])"
  by (simp add: camera_list_active_def cameras_by_name_def site_db_def)

lemma site_zone_accepted:
  "zone_of site_env site_zone = Inr \<lparr>zone_id = ''z'', zone_name = ''z'', zone_vertices = [(0, 0), (1, 0), (1, 1), (0, 1)],
     zone_color = (0, 255, 0), zone_alert_on_entry = True, zone_normalized = True\<rparr>"
  by (simp add: zone_of_def site_zone_def corner_def bool_setting_def color_setting_def field_def py_iter_def zone_points_def
      point_pair_def py_float_def py_str_def mk_zone_def convert_vertices_def validate_polygon_def Let_def
      py_strip_def py_is_space_def next_index_def polygon_area_def shoelace_def epsilon_def
      self_intersects_def adjacent_edges_def segments_intersect_def orientation_def on_segment_def upt_rec)

lemma constant_image: "(\<lambda>a. c) ` X \<subseteq> {c}"
  by auto

lemma site_definition:
  "\<exists>d. definition_of site_env (site_camera (JList [site_zone])) = Inr d \<and> cd_source d = LocalDevice 0"
  by (simp add: definition_of_def definition_checks_def canonical_id_def site_env_def site_camera_def py_strip_def py_is_space_def
      adapter_config_def float_setting_def int_setting_def bool_setting_def device_setting_def class_ids_setting_def
      line_setting_def zones_setting_def py_iter_def site_zone_accepted [unfolded site_env_def] cv_config_check_def
      validate_device_syntax_def in_unit_def mk_camera_definition_def validate_finite_def source_of_def is_decimal_def
      is_digit_char_def Let_def constant_image)

lemma catalogue_sound_witness:
  "\<exists>d. list_enabled_cameras site_env (site_db []) 0 0 (site_db [site_camera (JList [site_zone])]) = Inr [d]
     \<and> config_ok (cd_config d) \<and> cd_source d = LocalDevice 0"
proof -
  obtain d where d: "definition_of site_env (site_camera (JList [site_zone])) = Inr d" "cd_source d = LocalDevice 0"
    using site_definition by blast
  have l: "list_enabled_cameras site_env (site_db []) 0 0 (site_db [site_camera (JList [site_zone])]) = Inr [d]"
    by (simp add: list_enabled_cameras_def site_authorized as_service_def as_orchestration_def site_active d)
       (simp add: site_camera_def)
  from catalogue_sound [OF l] have "config_ok (cd_config d)" by auto
  with l d(2) show ?thesis by blast
qed

lemma catalogue_all_or_nothing_witness:
  "\<exists>i. list_enabled_cameras site_env (site_db []) 0 0 (site_db [site_camera (JList [JObj []])])
     = Inl (Orchestration (orch_err CONFIGURATION i bad_configuration))"
proof -
  have "\<exists>e. definition_checks site_env (site_camera (JList [JObj []])) = Inl e"
    by (simp add: definition_checks_def canonical_id_def site_env_def site_camera_def py_strip_def py_is_space_def
      adapter_config_def float_setting_def int_setting_def bool_setting_def device_setting_def class_ids_setting_def
      line_setting_def zones_setting_def py_iter_def zone_of_def field_def color_setting_def Let_def)
  then have "\<exists>r \<in> set (camera_list_active (site_db [site_camera (JList [JObj []])]) 2). \<exists>e. definition_checks site_env r = Inl e"
    by (simp add: site_active) (simp add: site_camera_def)
  then show ?thesis
    using catalogue_all_or_nothing [OF site_authorized, where db' = "site_db [site_camera (JList [JObj []])]"] by blast
qed

text \<open>
  A configuration is coerced in places: coordinates that are booleans are read as numbers, and an
  identity that is no text is rendered.
\<close>

lemma zone_silently_coerced:
  "\<exists>z. zone_of (site_env\<lparr>ae_render := (\<lambda>v. ''7'')\<rparr>)
     (JObj [(''id'', JInt 7), (''vertices'', JList [corner (JBool False) (JBool False), corner (JBool True) (JBool False),
        corner (JBool True) (JBool True)])]) = Inr z \<and> zone_vertices z = [(0, 0), (1, 0), (1, 1)]"
  by (simp add: zone_of_def corner_def bool_setting_def color_setting_def field_def py_iter_def zone_points_def
      point_pair_def py_float_def py_str_def mk_zone_def convert_vertices_def validate_polygon_def Let_def
      py_strip_def py_is_space_def next_index_def polygon_area_def shoelace_def epsilon_def
      self_intersects_def adjacent_edges_def segments_intersect_def orientation_def on_segment_def upt_rec)

end
