(* ===== verification/Orch_Scheduler.thy ===== *)
theory Orch_Scheduler
  imports Orch_Security "HOL-Library.AList"
begin

section \<open>The periodic scheduler\<close>

text \<open>
  Model of \<open>AsyncioPeriodicScheduler\<close> in \<open>app/orchestration/adapters.py\<close>: one task per job, which
  sleeps and calls its callback in turn, and the removals, which pop the job, cancel its task and
  wait for its end. One step is the code between two suspensions. A callback that is cancelled raises
  the cancellation again, as the reconciliation it is used for does; the time that passes is not
  modelled, a sleeping task may wake at any moment. Adding a job, removing it and the shutdown may be
  called at any time and in any order.
\<close>

datatype task_pc = Sleeping | InCallback | TaskEnded

record job_task =
  jt_id :: string
  jt_pc :: task_pc
  jt_cancelled :: bool

datatype removal = RemoveCalled string | AwaitingTask nat | Removed

datatype shutdown_phase = NoShutdown | AwaitingRemovals "nat list" | ShutDown

record scheduler =
  sc_jobs :: "(string \<times> nat) list"
  sc_tasks :: "job_task list"
  sc_removals :: "removal list"
  sc_closed :: bool
  sc_closing :: shutdown_phase
  sc_last_error :: "string option"

definition scheduler_init :: scheduler where
  "scheduler_init = \<lparr>sc_jobs = [], sc_tasks = [], sc_removals = [], sc_closed = False, sc_closing = NoShutdown,
     sc_last_error = None\<rparr>"

definition add_job :: "string \<Rightarrow> string \<Rightarrow> raw_float \<Rightarrow> bool \<Rightarrow> scheduler \<Rightarrow> scheduler \<times> (py_error + nat)" where
  "add_job trigger job seconds replace_existing s =
     (if sc_closed s then (s, Inl (RuntimeError ''scheduler is closed''))
      else if trigger \<noteq> ''interval'' then (s, Inl (ValueError ''only interval scheduling is supported''))
      else if py_strip job = [] \<or> raw_less seconds (1 / 20) \<or> raw_greater seconds 86400
      then (s, Inl (ValueError ''scheduled job requires an ID and a bounded interval''))
      else if map_of (sc_jobs s) (py_strip job) \<noteq> None \<and> \<not> replace_existing
      then (s, Inl (ValueError ''scheduled job already exists''))
      else if map_of (sc_jobs s) (py_strip job) \<noteq> None
      then (s, Inl (ValueError ''replace_existing requires awaiting remove_job first''))
      else (s\<lparr>sc_jobs := sc_jobs s @ [(py_strip job, length (sc_tasks s))],
              sc_tasks := sc_tasks s @ [\<lparr>jt_id = py_strip job, jt_pc = Sleeping, jt_cancelled = False\<rparr>]\<rparr>,
            Inr (length (sc_tasks s))))"

definition set_task :: "nat \<Rightarrow> (job_task \<Rightarrow> job_task) \<Rightarrow> scheduler \<Rightarrow> scheduler" where
  "set_task t f s = s\<lparr>sc_tasks := (sc_tasks s)[t := f (sc_tasks s ! t)]\<rparr>"

text \<open>\<open>remove_job\<close> up to its suspension, as the removal with index \<open>i\<close>.\<close>

definition removal_begins :: "nat \<Rightarrow> string \<Rightarrow> scheduler \<Rightarrow> scheduler" where
  "removal_begins i job s = (case map_of (sc_jobs s) job of
     None \<Rightarrow> s\<lparr>sc_removals := (sc_removals s)[i := Removed]\<rparr>
   | Some t \<Rightarrow> set_task t (\<lambda>k. k\<lparr>jt_cancelled := True\<rparr>)
       (s\<lparr>sc_jobs := AList.delete job (sc_jobs s), sc_removals := (sc_removals s)[i := AwaitingTask t]\<rparr>))"

definition call_removals :: "string list \<Rightarrow> scheduler \<Rightarrow> scheduler" where
  "call_removals jobs s = s\<lparr>sc_removals := sc_removals s @ map RemoveCalled jobs\<rparr>"

definition shutdown_call :: "scheduler \<Rightarrow> scheduler" where
  "shutdown_call s =
     (if sc_closed s then s
      else (let jobs = map fst (sc_jobs s); n = length (sc_removals s) in
            call_removals jobs (s\<lparr>sc_closed := True, sc_closing := AwaitingRemovals [n..<n + length jobs]\<rparr>)))"

text \<open>The task: it wakes, its callback returns or fails, or the cancellation reaches it.\<close>

definition callback_returns :: "nat \<Rightarrow> string option \<Rightarrow> scheduler \<Rightarrow> scheduler" where
  "callback_returns t failed s =
     set_task t (\<lambda>k. k\<lparr>jt_pc := Sleeping\<rparr>)
       (case failed of None \<Rightarrow> s | Some text \<Rightarrow> s\<lparr>sc_last_error := Some (sanitize text)\<rparr>)"

datatype sched_step =
    AddJob string string raw_float bool
  | RemoveJob string
  | ShutdownCall
  | RemovalBegins nat
  | RemovalReturns nat
  | ShutdownReturns
  | TaskWakes nat
  | CallbackReturns nat "string option"
  | TaskCancelled nat

definition task_at :: "nat \<Rightarrow> task_pc \<Rightarrow> bool \<Rightarrow> scheduler \<Rightarrow> bool" where
  "task_at t pc cancelled s \<longleftrightarrow> t < length (sc_tasks s) \<and> jt_pc (sc_tasks s ! t) = pc
     \<and> jt_cancelled (sc_tasks s ! t) = cancelled"

fun sched_enabled :: "scheduler \<Rightarrow> sched_step \<Rightarrow> bool" where
  "sched_enabled s (AddJob trigger job seconds replace) \<longleftrightarrow> True"
| "sched_enabled s (RemoveJob job) \<longleftrightarrow> True"
| "sched_enabled s ShutdownCall \<longleftrightarrow> True"
| "sched_enabled s (RemovalBegins i) \<longleftrightarrow> i < length (sc_removals s)
     \<and> (case sc_removals s ! i of RemoveCalled job \<Rightarrow> True | _ \<Rightarrow> False)"
| "sched_enabled s (RemovalReturns i) \<longleftrightarrow> i < length (sc_removals s)
     \<and> (case sc_removals s ! i of AwaitingTask t \<Rightarrow> jt_pc (sc_tasks s ! t) = TaskEnded | _ \<Rightarrow> False)"
| "sched_enabled s ShutdownReturns \<longleftrightarrow>
     (case sc_closing s of AwaitingRemovals is \<Rightarrow> list_all (\<lambda>i. sc_removals s ! i = Removed) is | _ \<Rightarrow> False)"
| "sched_enabled s (TaskWakes t) \<longleftrightarrow> task_at t Sleeping False s"
| "sched_enabled s (CallbackReturns t failed) \<longleftrightarrow> task_at t InCallback False s"
| "sched_enabled s (TaskCancelled t) \<longleftrightarrow> task_at t Sleeping True s \<or> task_at t InCallback True s"

fun sched_perform :: "scheduler \<Rightarrow> sched_step \<Rightarrow> scheduler" where
  "sched_perform s (AddJob trigger job seconds replace) = fst (add_job trigger job seconds replace s)"
| "sched_perform s (RemoveJob job) = call_removals [job] s"
| "sched_perform s ShutdownCall = shutdown_call s"
| "sched_perform s (RemovalBegins i) =
     (case sc_removals s ! i of RemoveCalled job \<Rightarrow> removal_begins i job s | _ \<Rightarrow> s)"
| "sched_perform s (RemovalReturns i) = s\<lparr>sc_removals := (sc_removals s)[i := Removed]\<rparr>"
| "sched_perform s ShutdownReturns = s\<lparr>sc_closing := ShutDown\<rparr>"
| "sched_perform s (TaskWakes t) = set_task t (\<lambda>k. k\<lparr>jt_pc := InCallback\<rparr>) s"
| "sched_perform s (CallbackReturns t failed) = callback_returns t failed s"
| "sched_perform s (TaskCancelled t) = set_task t (\<lambda>k. k\<lparr>jt_pc := TaskEnded\<rparr>) s"

inductive sched_reachable :: "scheduler \<Rightarrow> bool" where
  sched_init: "sched_reachable scheduler_init"
| sched_step: "sched_reachable s \<Longrightarrow> sched_enabled s e \<Longrightarrow> sched_reachable (sched_perform s e)"

fun sched_run :: "scheduler \<Rightarrow> sched_step list \<Rightarrow> scheduler option" where
  "sched_run s [] = Some s"
| "sched_run s (e # es) = (if sched_enabled s e then sched_run (sched_perform s e) es else None)"

lemma sched_run_reachable: "sched_reachable s \<Longrightarrow> sched_run s es = Some s' \<Longrightarrow> sched_reachable s'"
  by (induction es arbitrary: s) (auto split: if_splits intro: sched_step)

subsection \<open>The invariant\<close>

text \<open>
  The jobs name the live tasks exactly; and while a shutdown waits, its removals are those of all
  jobs still registered, and a removal waits for a task that is cancelled.
\<close>

definition jobs_inv :: "scheduler \<Rightarrow> bool" where
  "jobs_inv s \<longleftrightarrow> distinct (map fst (sc_jobs s)) \<and> distinct (map snd (sc_jobs s))
     \<and> (\<forall>(j, t) \<in> set (sc_jobs s). t < length (sc_tasks s) \<and> jt_id (sc_tasks s ! t) = j)
     \<and> (\<forall>t < length (sc_tasks s). t \<in> snd ` set (sc_jobs s) \<longleftrightarrow> \<not> jt_cancelled (sc_tasks s ! t))
     \<and> (\<forall>t < length (sc_tasks s). jt_pc (sc_tasks s ! t) = TaskEnded \<longrightarrow> jt_cancelled (sc_tasks s ! t))"

definition closing_inv :: "scheduler \<Rightarrow> bool" where
  "closing_inv s \<longleftrightarrow> (case sc_closing s of
     NoShutdown \<Rightarrow> \<not> sc_closed s
   | AwaitingRemovals is \<Rightarrow> sc_closed s \<and> set is \<subseteq> {..<length (sc_removals s)}
       \<and> (\<forall>j \<in> fst ` set (sc_jobs s). \<exists>i \<in> set is. sc_removals s ! i = RemoveCalled j)
   | ShutDown \<Rightarrow> sc_closed s \<and> sc_jobs s = [])"

lemma jobs_inv_add:
  assumes inv: "jobs_inv s" and new: "j \<notin> fst ` set (sc_jobs s)"
  shows "jobs_inv (s\<lparr>sc_jobs := sc_jobs s @ [(j, length (sc_tasks s))],
              sc_tasks := sc_tasks s @ [\<lparr>jt_id = j, jt_pc = Sleeping, jt_cancelled = False\<rparr>]\<rparr>)"
proof -
  have "length (sc_tasks s) \<notin> snd ` set (sc_jobs s)" using inv by (auto simp: jobs_inv_def)
  with assms show ?thesis by (auto simp: jobs_inv_def nth_append less_Suc_eq image_iff)
qed

lemma jobs_inv_pc:
  assumes inv: "jobs_inv s" and t: "t < length (sc_tasks s)" and e: "pc = TaskEnded \<longrightarrow> jt_cancelled (sc_tasks s ! t)"
  shows "jobs_inv (set_task t (\<lambda>k. k\<lparr>jt_pc := pc\<rparr>) s)"
proof -
  have id: "jt_id ((sc_tasks s)[t := (sc_tasks s ! t)\<lparr>jt_pc := pc\<rparr>] ! u) = jt_id (sc_tasks s ! u)"
    and ca: "jt_cancelled ((sc_tasks s)[t := (sc_tasks s ! t)\<lparr>jt_pc := pc\<rparr>] ! u) = jt_cancelled (sc_tasks s ! u)"
    and pc: "jt_pc ((sc_tasks s)[t := (sc_tasks s ! t)\<lparr>jt_pc := pc\<rparr>] ! u) = (if u = t then pc else jt_pc (sc_tasks s ! u))" for u
    using t by (cases "u = t"; simp)+
  show ?thesis using inv e unfolding jobs_inv_def set_task_def by (auto simp: id ca pc)
qed

lemma jobs_inv_same: "sc_jobs s' = sc_jobs s \<Longrightarrow> sc_tasks s' = sc_tasks s \<Longrightarrow> jobs_inv s' = jobs_inv s"
  by (simp add: jobs_inv_def)

lemma jobs_inv_remove:
  assumes inv: "jobs_inv s" and j: "map_of (sc_jobs s) job = Some t"
  shows "jobs_inv (set_task t (\<lambda>k. k\<lparr>jt_cancelled := True\<rparr>) (s\<lparr>sc_jobs := AList.delete job (sc_jobs s), sc_removals := rs\<rparr>))"
proof -
  have dk: "distinct (map fst (sc_jobs s))" and dt: "distinct (map snd (sc_jobs s))"
    and each: "\<And>j u. (j, u) \<in> set (sc_jobs s) \<Longrightarrow> u < length (sc_tasks s) \<and> jt_id (sc_tasks s ! u) = j"
    and reg: "\<And>u. u < length (sc_tasks s) \<Longrightarrow> u \<in> snd ` set (sc_jobs s) \<longleftrightarrow> \<not> jt_cancelled (sc_tasks s ! u)"
    and fin: "\<And>u. u < length (sc_tasks s) \<Longrightarrow> jt_pc (sc_tasks s ! u) = TaskEnded \<Longrightarrow> jt_cancelled (sc_tasks s ! u)"
    using inv by (auto simp: jobs_inv_def)
  from j have m: "(job, t) \<in> set (sc_jobs s)" by (rule map_of_SomeD)
  then have t: "t < length (sc_tasks s)" using each by blast
  let ?d = "AList.delete job (sc_jobs s)"
  have d: "?d = filter (\<lambda>(k, v). job \<noteq> k) (sc_jobs s)" by (simp add: AList.delete_eq)
  have only: "(j, t) \<in> set (sc_jobs s) \<longleftrightarrow> j = job" for j
    using m each [OF m] each [of j t] by auto
  have snds: "u \<in> snd ` set ?d \<longleftrightarrow> u \<in> snd ` set (sc_jobs s) \<and> u \<noteq> t" for u
  proof
    assume "u \<in> snd ` set ?d"
    then obtain k where "(k, u) \<in> set (sc_jobs s)" "k \<noteq> job" by (auto simp: d)
    then show "u \<in> snd ` set (sc_jobs s) \<and> u \<noteq> t" using only by force
  next
    assume "u \<in> snd ` set (sc_jobs s) \<and> u \<noteq> t"
    then obtain k where k: "(k, u) \<in> set (sc_jobs s)" "u \<noteq> t" by auto
    have "k \<noteq> job" using k j dk by (metis map_of_is_SomeI option.inject)
    with k show "u \<in> snd ` set ?d" by (force simp: d)
  qed
  have ds: "distinct (map snd ?d)" unfolding d using dt by (rule distinct_map_filter)
  have dkd: "distinct (map fst ?d)" using dk by (simp add: distinct_delete)
  have upd: "((sc_tasks s)[t := (sc_tasks s ! t)\<lparr>jt_cancelled := True\<rparr>]) ! u
      = (if u = t then (sc_tasks s ! t)\<lparr>jt_cancelled := True\<rparr> else sc_tasks s ! u)" for u
    using t by simp
  show ?thesis
    unfolding jobs_inv_def set_task_def
    using dkd ds snds reg fin each upd by (auto simp: d)
qed

lemma set_task_fields [simp]:
  "sc_jobs (set_task t f s) = sc_jobs s" "sc_removals (set_task t f s) = sc_removals s"
  "sc_closed (set_task t f s) = sc_closed s" "sc_closing (set_task t f s) = sc_closing s"
  "length (sc_tasks (set_task t f s)) = length (sc_tasks s)"
  by (simp_all add: set_task_def)

lemma jobs_inv_step:
  assumes inv: "jobs_inv s" and en: "sched_enabled s e"
  shows "jobs_inv (sched_perform s e)"
proof (cases e)
  case (AddJob trigger job seconds replace)
  have "jobs_inv (fst (add_job trigger job seconds replace s))"
    using inv jobs_inv_add [OF inv, of "py_strip job"] by (auto simp: add_job_def map_of_eq_None_iff)
  with AddJob show ?thesis by simp
next
  case (RemoveJob job)
  with inv show ?thesis by (simp add: call_removals_def jobs_inv_def)
next
  case ShutdownCall
  with inv show ?thesis by (simp add: shutdown_call_def call_removals_def Let_def jobs_inv_def)
next
  case (RemovalBegins i)
  with en obtain job where r: "sc_removals s ! i = RemoveCalled job" by (auto split: removal.splits)
  have "jobs_inv (removal_begins i job s)"
  proof (cases "map_of (sc_jobs s) job")
    case None
    then show ?thesis using inv by (simp add: removal_begins_def jobs_inv_def)
  next
    case (Some t)
    then show ?thesis using jobs_inv_remove [OF inv Some] by (simp add: removal_begins_def)
  qed
  with RemovalBegins r show ?thesis by simp
next
  case (TaskWakes t)
  with en inv show ?thesis by (auto simp: task_at_def intro: jobs_inv_pc)
next
  case (CallbackReturns t failed)
  let ?s = "case failed of None \<Rightarrow> s | Some text \<Rightarrow> s\<lparr>sc_last_error := Some (sanitize text)\<rparr>"
  have f: "sc_jobs ?s = sc_jobs s" "sc_tasks ?s = sc_tasks s" by (cases failed; simp)+
  with inv have "jobs_inv ?s" by (simp add: jobs_inv_def)
  with CallbackReturns en f show ?thesis
    by (auto simp: task_at_def callback_returns_def intro!: jobs_inv_pc)
next
  case (TaskCancelled t)
  with en inv show ?thesis by (auto simp: task_at_def intro!: jobs_inv_pc)
qed (use inv in \<open>simp_all add: jobs_inv_def\<close>)

lemma closing_inv_removal:
  assumes inv: "closing_inv s" and i: "i < length (sc_removals s)" and r: "sc_removals s ! i = RemoveCalled job"
    and rs: "sc_removals s' = (sc_removals s)[i := x]" and js: "fst ` set (sc_jobs s') \<subseteq> fst ` set (sc_jobs s) - {job}"
    and cl: "sc_closed s' = sc_closed s" "sc_closing s' = sc_closing s"
  shows "closing_inv s'"
proof (cases "sc_closing s")
  case (AwaitingRemovals ks)
  have "\<exists>k \<in> set ks. sc_removals s' ! k = RemoveCalled j" if j: "j \<in> fst ` set (sc_jobs s')" for j
  proof -
    from j js have old: "j \<in> fst ` set (sc_jobs s)" and ne: "j \<noteq> job" by auto
    from inv AwaitingRemovals have "\<forall>j \<in> fst ` set (sc_jobs s). \<exists>k \<in> set ks. sc_removals s ! k = RemoveCalled j"
      by (simp add: closing_inv_def)
    from bspec [OF this old] obtain k where k: "k \<in> set ks" "sc_removals s ! k = RemoveCalled j" ..
    with r ne have "k \<noteq> i" by auto
    with k show ?thesis unfolding rs by (intro bexI [of _ k]) simp_all
  qed
  with inv AwaitingRemovals show ?thesis by (simp add: closing_inv_def cl rs)
next
  case ShutDown
  with inv js have "sc_jobs s' = []" by (auto simp: closing_inv_def)
  with inv ShutDown show ?thesis by (simp add: closing_inv_def cl)
qed (use inv in \<open>simp add: closing_inv_def cl\<close>)

lemma closing_inv_frame:
  assumes "closing_inv s" "sc_removals s' = sc_removals s" "sc_jobs s' = sc_jobs s"
    "sc_closed s' = sc_closed s" "sc_closing s' = sc_closing s"
  shows "closing_inv s'"
  using assms by (simp add: closing_inv_def split: shutdown_phase.splits)

lemma closing_inv_step:
  assumes inv: "closing_inv s" and en: "sched_enabled s e"
  shows "closing_inv (sched_perform s e)"
proof (cases e)
  case (AddJob trigger job seconds replace)
  have "closing_inv (fst (add_job trigger job seconds replace s))"
  proof (cases "sc_closed s")
    case False
    with inv have "sc_closing s = NoShutdown" by (auto simp: closing_inv_def split: shutdown_phase.splits)
    with False show ?thesis by (simp add: add_job_def closing_inv_def)
  qed (use inv in \<open>simp add: add_job_def\<close>)
  with AddJob show ?thesis by simp
next
  case (RemoveJob job)
  with inv show ?thesis
    by (auto simp: call_removals_def closing_inv_def nth_append split: shutdown_phase.splits) fastforce
next
  case ShutdownCall
  show ?thesis
  proof (cases "sc_closed s")
    case True
    with inv ShutdownCall show ?thesis by (simp add: shutdown_call_def)
  next
    case False
    let ?n = "length (sc_removals s)" and ?js = "map fst (sc_jobs s)"
    have "\<exists>i \<in> {?n..<?n + length ?js}. (sc_removals s @ map RemoveCalled ?js) ! i = RemoveCalled j"
      if "j \<in> fst ` set (sc_jobs s)" for j
    proof -
      from that obtain k where k: "k < length (sc_jobs s)" "?js ! k = j" by (auto simp: in_set_conv_nth)
      then show ?thesis by (intro bexI [of _ "?n + k"]) (simp_all add: nth_append)
    qed
    moreover have "{?n..<?n + length ?js} \<subseteq> {..<?n + length ?js}" by auto
    ultimately show ?thesis using False ShutdownCall
      by (simp add: shutdown_call_def call_removals_def Let_def closing_inv_def)
  qed
next
  case (RemovalBegins i)
  with en obtain job where i: "i < length (sc_removals s)" and r: "sc_removals s ! i = RemoveCalled job"
    by (auto split: removal.splits)
  have "closing_inv (removal_begins i job s)"
  proof (cases "map_of (sc_jobs s) job")
    case None
    then have eq: "removal_begins i job s = s\<lparr>sc_removals := (sc_removals s)[i := Removed]\<rparr>"
      by (simp add: removal_begins_def)
    from None have "job \<notin> fst ` set (sc_jobs s)" by (simp add: map_of_eq_None_iff)
    then show ?thesis unfolding eq by (intro closing_inv_removal [OF inv i r, where x = Removed]) auto
  next
    case (Some t)
    then have eq: "removal_begins i job s = set_task t (\<lambda>k. k\<lparr>jt_cancelled := True\<rparr>)
       (s\<lparr>sc_jobs := AList.delete job (sc_jobs s), sc_removals := (sc_removals s)[i := AwaitingTask t]\<rparr>)"
      by (simp add: removal_begins_def)
    show ?thesis unfolding eq
      by (rule closing_inv_removal [OF inv i r, where x = "AwaitingTask t"]) (auto simp: AList.delete_eq)
  qed
  with RemovalBegins r show ?thesis by simp
next
  case (RemovalReturns i)
  with en obtain t where i: "i < length (sc_removals s)" and r: "sc_removals s ! i = AwaitingTask t"
    by (auto split: removal.splits)
  have "(sc_removals s)[i := Removed] ! k = RemoveCalled j \<longleftrightarrow> sc_removals s ! k = RemoveCalled j" for k j
    using i r by (cases "k = i") simp_all
  with inv RemovalReturns show ?thesis by (simp add: closing_inv_def split: shutdown_phase.splits)
next
  case ShutdownReturns
  with en obtain "is" where c: "sc_closing s = AwaitingRemovals is" and all: "\<forall>i \<in> set is. sc_removals s ! i = Removed"
    by (auto simp: list_all_iff split: shutdown_phase.splits)
  from inv c have e: "\<forall>j \<in> fst ` set (sc_jobs s). \<exists>i \<in> set is. sc_removals s ! i = RemoveCalled j" and cl: "sc_closed s"
    by (simp_all add: closing_inv_def)
  have "j \<notin> fst ` set (sc_jobs s)" for j using e all by fastforce
  then have "sc_jobs s = []" by (cases "sc_jobs s") auto
  with cl ShutdownReturns show ?thesis by (simp add: closing_inv_def)
next
  case (CallbackReturns t failed)
  then show ?thesis
    by (intro closing_inv_frame [OF inv]) (simp_all add: callback_returns_def split: option.splits)
qed (use inv in \<open>auto intro: closing_inv_frame\<close>)

lemma sched_inv:
  assumes "sched_reachable s"
  shows "jobs_inv s \<and> closing_inv s"
  using assms
proof (induction rule: sched_reachable.induct)
  case sched_init
  show ?case by (simp add: scheduler_init_def jobs_inv_def closing_inv_def)
qed (simp add: jobs_inv_step closing_inv_step)

subsection \<open>Properties\<close>

text \<open>
  One task per job: a task is registered under its name exactly as long as it is not cancelled,
  two tasks of the same name that are not cancelled are the same, and a task only ends when it was
  cancelled, so no failure of a callback stops a job.
\<close>

theorem scheduler_one_task_per_job:
  assumes "sched_reachable s" and "t < length (sc_tasks s)" and "u < length (sc_tasks s)"
  shows "(map_of (sc_jobs s) (jt_id (sc_tasks s ! t)) = Some t \<longleftrightarrow> \<not> jt_cancelled (sc_tasks s ! t))
    \<and> (\<not> jt_cancelled (sc_tasks s ! t) \<and> \<not> jt_cancelled (sc_tasks s ! u)
        \<and> jt_id (sc_tasks s ! t) = jt_id (sc_tasks s ! u) \<longrightarrow> t = u)
    \<and> (jt_pc (sc_tasks s ! t) = TaskEnded \<longrightarrow> jt_cancelled (sc_tasks s ! t))"
proof -
  have inv: "jobs_inv s" using sched_inv [OF assms(1)] by simp
  have reg: "map_of (sc_jobs s) (jt_id (sc_tasks s ! x)) = Some x \<longleftrightarrow> \<not> jt_cancelled (sc_tasks s ! x)"
    if x: "x < length (sc_tasks s)" for x
  proof
    assume "map_of (sc_jobs s) (jt_id (sc_tasks s ! x)) = Some x"
    then have "x \<in> snd ` set (sc_jobs s)" by (rule rev_image_eqI [OF map_of_SomeD]) simp
    with inv x show "\<not> jt_cancelled (sc_tasks s ! x)" by (simp add: jobs_inv_def)
  next
    assume "\<not> jt_cancelled (sc_tasks s ! x)"
    with inv x have "x \<in> snd ` set (sc_jobs s)" by (simp add: jobs_inv_def)
    then obtain j where j: "(j, x) \<in> set (sc_jobs s)" by auto
    with inv have "jt_id (sc_tasks s ! x) = j" "distinct (map fst (sc_jobs s))" by (auto simp: jobs_inv_def)
    with j show "map_of (sc_jobs s) (jt_id (sc_tasks s ! x)) = Some x" by simp
  qed
  have ends: "jt_pc (sc_tasks s ! t) = TaskEnded \<longrightarrow> jt_cancelled (sc_tasks s ! t)"
    using inv assms(2) by (simp add: jobs_inv_def)
  have same: "t = u" if "\<not> jt_cancelled (sc_tasks s ! t) \<and> \<not> jt_cancelled (sc_tasks s ! u)
      \<and> jt_id (sc_tasks s ! t) = jt_id (sc_tasks s ! u)"
  proof -
    have "map_of (sc_jobs s) (jt_id (sc_tasks s ! t)) = Some t" "map_of (sc_jobs s) (jt_id (sc_tasks s ! u)) = Some u"
      using reg assms(2,3) that by blast+
    with that show ?thesis by (metis option.inject)
  qed
  show ?thesis by (rule conjI [OF reg [OF assms(2)] conjI [OF impI [OF same] ends]])
qed

lemma shut_down_run:
  assumes "sched_reachable s" and "sc_closing s = ShutDown" and "sched_run s es = Some s'"
  shows "sc_closing s' = ShutDown \<and> length (sc_tasks s') = length (sc_tasks s)"
  using assms
proof (induction es arbitrary: s)
  case (Cons e es)
  then have en: "sched_enabled s e" and run: "sched_run (sched_perform s e) es = Some s'" by (auto split: if_splits)
  have closed: "sc_closed s" using sched_inv [OF Cons.prems(1)] Cons.prems(2) by (simp add: closing_inv_def)
  have "sc_closing (sched_perform s e) = ShutDown \<and> length (sc_tasks (sched_perform s e)) = length (sc_tasks s)"
    using closed Cons.prems(2) en by (cases e)
      (auto simp: add_job_def call_removals_def shutdown_call_def removal_begins_def callback_returns_def
        split: removal.splits option.splits)
  with Cons.IH [OF sched_step [OF Cons.prems(1) en] _ run] show ?case by simp
qed simp

text \<open>
  A shutdown is complete and final: once it has returned no job is registered, every task has
  been cancelled, and in no continuation is a task created or a callback called again.
\<close>

theorem scheduler_shutdown_complete:
  assumes "sched_reachable s" and "sc_closing s = ShutDown" and "sched_run s es = Some s'"
  shows "sc_jobs s' = [] \<and> (\<forall>t < length (sc_tasks s'). jt_cancelled (sc_tasks s' ! t))
    \<and> length (sc_tasks s') = length (sc_tasks s) \<and> (\<forall>t. \<not> sched_enabled s' (TaskWakes t))"
proof -
  note r = shut_down_run [OF assms]
  from sched_inv [OF sched_run_reachable [OF assms(1,3)]] have inv: "jobs_inv s'" "closing_inv s'" by simp_all
  with r have jobs: "sc_jobs s' = []" by (simp add: closing_inv_def)
  with inv(1) have "\<forall>t < length (sc_tasks s'). jt_cancelled (sc_tasks s' ! t)" by (simp add: jobs_inv_def)
  with jobs r show ?thesis by (auto simp: task_at_def)
qed

definition demo_jobs :: "sched_step list" where
  "demo_jobs = [AddJob ''interval'' '' job '' (Finite 30) False, TaskWakes 0, CallbackReturns 0 (Some ''x''), ShutdownCall,
     RemovalBegins 0, TaskCancelled 0, RemovalReturns 0, ShutdownReturns]"

definition shut_scheduler :: scheduler where
  "shut_scheduler = the (sched_run scheduler_init demo_jobs)"

lemmas scheduler_eval = demo_jobs_def scheduler_init_def add_job_def py_strip_def py_is_space_def set_task_def removal_begins_def
  call_removals_def shutdown_call_def callback_returns_def task_at_def Let_def AList.delete_eq

lemma shut_run: "sched_run scheduler_init demo_jobs = Some shut_scheduler"
  by (simp add: shut_scheduler_def scheduler_eval)

lemma shut_reachable: "sched_reachable shut_scheduler"
  by (rule sched_run_reachable [OF sched_init shut_run])

lemma shut_fields: "length (sc_tasks shut_scheduler) = 1" "sc_closing shut_scheduler = ShutDown"
  by (simp_all add: shut_scheduler_def scheduler_eval)

lemma scheduler_one_task_per_job_witness:
  "\<exists>s. sched_run scheduler_init (take 2 demo_jobs) = Some s \<and> map_of (sc_jobs s) (jt_id (sc_tasks s ! 0)) = Some 0"
proof -
  obtain s where s: "sched_run scheduler_init (take 2 demo_jobs) = Some s" "length (sc_tasks s) = 1"
    "\<not> jt_cancelled (sc_tasks s ! 0)"
    by (simp add: scheduler_eval)
  have "sched_reachable s" by (rule sched_run_reachable [OF sched_init s(1)])
  from scheduler_one_task_per_job [OF this, of 0 0] s show ?thesis by simp
qed

lemma scheduler_shutdown_complete_witness:
  "sched_run shut_scheduler [AddJob ''interval'' ''b'' (Finite 30) False] = Some shut_scheduler \<and> sc_jobs shut_scheduler = []"
proof -
  have "sched_run shut_scheduler [AddJob ''interval'' ''b'' (Finite 30) False] = Some shut_scheduler"
    by (simp add: shut_scheduler_def scheduler_eval)
  with scheduler_shutdown_complete [OF shut_reachable shut_fields(2) this] show ?thesis by blast
qed

text \<open>The interval is not bounded as the message says: a not-a-number passes both comparisons.\<close>

lemma nan_interval_accepted:
  "snd (add_job ''interval'' ''job'' NotANumber False scheduler_init) = Inr 0"
  by (simp add: scheduler_eval)

end
