(* ===== verification/Orch_Service.thy ===== *)
theory Orch_Service
  imports Orch_Models
begin

section \<open>The orchestration service\<close>

text \<open>
  Model of \<open>CameraOrchestrationService\<close> in \<open>app/orchestration/service.py\<close>: the start task, the stop task
  and the reconciliations as program counters, one step per stretch of code between two suspensions.
  The body under \<open>_state_lock\<close> never suspends, so that lock is never contended and adds no step; the
  reconcile lock is taken by the one call that found it free. The event loop runs tasks in the order
  of their creation, so the start task, which always exists before the stop task, has begun before
  the stop task begins. The scheduler, the catalogue and the manager are outside: what they answer is
  part of the steps, what they are asked is recorded (\<open>sv_given\<close>, \<open>sv_shutdowns\<close>). Their cancellation
  is modelled for the calls of the scheduler and of others; nobody cancels the start task.
\<close>

subsection \<open>State\<close>

datatype svc_exn = SvcOrch orch_error | SvcOther string | SvcCancelled

datatype origin = ByStart | ByScheduler | ByCaller

datatype call_pc = Listing | Reconciling | CallEnded "svc_exn option"

record rcall =
  rc_origin :: origin
  rc_pc :: call_pc

datatype start_pc =
    NotStarted
  | StartScheduled
  | StartReconciling
  | RollingBack svc_exn
  | StartEnded "svc_exn option"

datatype stop_pc =
    NotStopping
  | StopScheduled
  | AwaitingStart
  | RemovingJob "nat list"
  | GatheringCalls "nat list" "orchestration_failure list"
  | ShuttingManager "orchestration_failure list"
  | StopEnded "orch_error option"

record 'd service =
  sv_has_scheduler :: bool
  sv_accepting :: bool
  sv_registered :: bool
  sv_started :: bool
  sv_start :: start_pc
  sv_stop :: stop_pc
  sv_calls :: "rcall list"
  sv_failure :: "orchestration_failure option"
  sv_job :: bool
  sv_given :: "'d list list"
  sv_shutdowns :: nat
  sv_down :: bool

definition service_init :: "bool \<Rightarrow> raw_float \<Rightarrow> py_error + 'd service" where
  "service_init has_scheduler interval =
     (if \<not> isfinite interval \<or> raw_less interval (1 / 20) \<or> raw_greater interval 86400
      then Inl (ValueError ''reconcile interval must be finite and between 0.05 and 86400 seconds'')
      else Inr \<lparr>sv_has_scheduler = has_scheduler, sv_accepting = False, sv_registered = False, sv_started = False,
        sv_start = NotStarted, sv_stop = NotStopping, sv_calls = [], sv_failure = None, sv_job = False,
        sv_given = [], sv_shutdowns = 0, sv_down = False\<rparr>)"

definition call_over :: "rcall \<Rightarrow> bool" where
  "call_over c \<longleftrightarrow> (case rc_pc c of CallEnded r \<Rightarrow> True | _ \<Rightarrow> False)"

text \<open>\<open>self._reconcile_lock.locked()\<close>.\<close>

definition reconcile_locked :: "'d service \<Rightarrow> bool" where
  "reconcile_locked s \<longleftrightarrow> list_ex (\<lambda>c. \<not> call_over c) (sv_calls s)"

subsection \<open>Start\<close>

definition svc_start :: "'d service \<Rightarrow> 'd service \<times> (orch_error + unit)" where
  "svc_start s =
     (if sv_stop s \<noteq> NotStopping then (s, Inl (orch_err SHUTDOWN None ''orchestration service is stopping''))
      else if sv_started s then (s, Inr ())
      else if sv_start s = NotStarted then (s\<lparr>sv_start := StartScheduled\<rparr>, Inr ())
      else (s, Inr ()))"

text \<open>The \<open>except\<close> branch of \<open>_start_impl\<close>: until the manager is shut down, and after it.\<close>

definition roll_back :: "svc_exn \<Rightarrow> 'd service \<Rightarrow> 'd service" where
  "roll_back e s = s\<lparr>sv_accepting := False, sv_shutdowns := sv_shutdowns s + 1, sv_start := RollingBack e\<rparr>"

definition rolled_back :: "svc_exn \<Rightarrow> 'd service \<Rightarrow> 'd service" where
  "rolled_back e s = (case e of
     SvcOrch x \<Rightarrow> s\<lparr>sv_down := True, sv_failure := Some (oe_failure x), sv_start := StartEnded (Some e)\<rparr>
   | SvcCancelled \<Rightarrow> s\<lparr>sv_down := True, sv_start := StartEnded (Some e)\<rparr>
   | SvcOther t \<Rightarrow> s\<lparr>sv_down := True, sv_failure := Some (oe_failure (orch_err INTERNAL None t)),
        sv_start := StartEnded (Some (SvcOrch (orch_err INTERNAL None t)))\<rparr>)"

text \<open>\<open>_start_impl\<close> after its reconciliation; \<open>added\<close> is the error \<open>add_job\<close> raises.\<close>

definition start_goes_on :: "svc_exn option \<Rightarrow> string option \<Rightarrow> 'd service \<Rightarrow> 'd service" where
  "start_goes_on raised added s = (case raised of
     Some e \<Rightarrow> roll_back e s
   | None \<Rightarrow>
       if \<not> sv_accepting s then s\<lparr>sv_start := StartEnded None\<rparr>
       else if sv_has_scheduler s \<and> added \<noteq> None
       then roll_back (SvcOrch (orch_err SCHEDULER None (the added))) s
       else s\<lparr>sv_job := sv_has_scheduler s, sv_registered := sv_has_scheduler s,
              sv_started := (sv_accepting s \<and> sv_stop s = NotStopping), sv_start := StartEnded None\<rparr>)"

subsection \<open>Reconciliation\<close>

definition set_call :: "nat \<Rightarrow> call_pc \<Rightarrow> 'd service \<Rightarrow> 'd service" where
  "set_call i pc s = s\<lparr>sv_calls := (sv_calls s)[i := (sv_calls s ! i)\<lparr>rc_pc := pc\<rparr>]\<rparr>"

text \<open>What a call raises for an exception inside it, and the failure it records.\<close>

fun call_raises :: "svc_exn \<Rightarrow> svc_exn" where
  "call_raises (SvcOther t) = SvcOrch (orch_err SCHEDULER None t)"
| "call_raises e = e"

fun record_svc_failure :: "svc_exn \<Rightarrow> 'd service \<Rightarrow> 'd service" where
  "record_svc_failure (SvcOrch e) s = s\<lparr>sv_failure := Some (oe_failure e)\<rparr>"
| "record_svc_failure (SvcOther t) s = s\<lparr>sv_failure := Some (oe_failure (orch_err SCHEDULER None t))\<rparr>"
| "record_svc_failure SvcCancelled s = s"

definition end_call :: "nat \<Rightarrow> svc_exn option \<Rightarrow> string option \<Rightarrow> 'd service \<Rightarrow> 'd service" where
  "end_call i raised added s =
     (let s1 = (case raised of None \<Rightarrow> s | Some e \<Rightarrow> record_svc_failure e s);
          s2 = set_call i (CallEnded (map_option call_raises raised)) s1
      in if rc_origin (sv_calls s ! i) = ByStart
         then start_goes_on (map_option call_raises raised) added s2 else s2)"

text \<open>A call up to its first suspension; it returns at once when it is not accepted or finds another one.\<close>

definition reconcile_call :: "origin \<Rightarrow> 'd service \<Rightarrow> 'd service" where
  "reconcile_call by s = s\<lparr>sv_calls := sv_calls s @ [\<lparr>rc_origin = by,
     rc_pc = if sv_accepting s \<and> \<not> reconcile_locked s then Listing else CallEnded None\<rparr>]\<rparr>"

definition svc_start_begins :: "string option \<Rightarrow> 'd service \<Rightarrow> 'd service" where
  "svc_start_begins added s =
     (let s1 = reconcile_call ByStart (s\<lparr>sv_accepting := True, sv_start := StartReconciling\<rparr>)
      in if call_over (List.last (sv_calls s1)) then start_goes_on None added s1 else s1)"

definition listed :: "nat \<Rightarrow> svc_exn + 'd list \<Rightarrow> string option \<Rightarrow> 'd service \<Rightarrow> 'd service" where
  "listed i answer added s = (case answer of
     Inl e \<Rightarrow> end_call i (Some e) added s
   | Inr desired \<Rightarrow>
       if \<not> sv_accepting s then end_call i None added s
       else (set_call i Reconciling s)\<lparr>sv_given := sv_given s @ [desired]\<rparr>)"

subsection \<open>Stop\<close>

definition svc_stop :: "'d service \<Rightarrow> 'd service" where
  "svc_stop s = (if sv_stop s = NotStopping then s\<lparr>sv_stop := StopScheduled\<rparr> else s)"

definition svc_stop_begins :: "'d service \<Rightarrow> 'd service" where
  "svc_stop_begins s = s\<lparr>sv_accepting := False, sv_stop := AwaitingStart\<rparr>"

definition shut_manager :: "orchestration_failure list \<Rightarrow> 'd service \<Rightarrow> 'd service" where
  "shut_manager fs s = s\<lparr>sv_shutdowns := sv_shutdowns s + 1, sv_stop := ShuttingManager fs\<rparr>"

definition gather_calls :: "nat list \<Rightarrow> orchestration_failure list \<Rightarrow> 'd service \<Rightarrow> 'd service" where
  "gather_calls live fs s = (if live = [] then shut_manager fs s else s\<lparr>sv_stop := GatheringCalls live fs\<rparr>)"

definition live_calls :: "'d service \<Rightarrow> nat list" where
  "live_calls s = filter (\<lambda>i. \<not> call_over (sv_calls s ! i)) [0..<length (sv_calls s)]"

definition start_settled :: "'d service \<Rightarrow> 'd service" where
  "start_settled s =
     (if sv_has_scheduler s \<and> sv_registered s then s\<lparr>sv_stop := RemovingJob (live_calls s)\<rparr>
      else gather_calls (live_calls s) [] s)"

definition job_removed :: "nat list \<Rightarrow> string option \<Rightarrow> 'd service \<Rightarrow> 'd service" where
  "job_removed live failed s =
     gather_calls live (case failed of None \<Rightarrow> [] | Some t \<Rightarrow> [oe_failure (orch_err SCHEDULER None t)])
       (s\<lparr>sv_registered := False, sv_job := (sv_job s \<and> failed \<noteq> None)\<rparr>)"

text \<open>The tasks of the gathered calls end with results of their own: the texts of those that failed.\<close>

definition calls_gathered :: "orchestration_failure list \<Rightarrow> string list \<Rightarrow> 'd service \<Rightarrow> 'd service" where
  "calls_gathered fs texts s = shut_manager (fs @ map (\<lambda>t. oe_failure (orch_err SCHEDULER None t)) texts) s"

definition manager_down :: "orchestration_failure list \<Rightarrow> string option \<Rightarrow> 'd service \<Rightarrow> 'd service" where
  "manager_down fs failed s =
     (let fs' = fs @ (case failed of None \<Rightarrow> [] | Some t \<Rightarrow> [oe_failure (orch_err SHUTDOWN None t)]);
          public = orch_err SHUTDOWN None (''service shutdown completed with '' @ nat_text (length fs') @ '' failure(s)'');
          s1 = s\<lparr>sv_down := True, sv_started := False\<rparr>
      in if fs' = [] then s1\<lparr>sv_stop := StopEnded None\<rparr>
         else s1\<lparr>sv_failure := Some (oe_failure public), sv_stop := StopEnded (Some public)\<rparr>)"

record svc_status =
  vs_running :: bool
  vs_accepting :: bool
  vs_registered :: bool
  vs_in_progress :: bool
  vs_failure :: "orchestration_failure option"

definition runtime_status :: "'d service \<Rightarrow> svc_status" where
  "runtime_status s = \<lparr>vs_running = (sv_started s \<and> sv_stop s = NotStopping), vs_accepting = sv_accepting s,
     vs_registered = sv_registered s, vs_in_progress = reconcile_locked s, vs_failure = sv_failure s\<rparr>"

subsection \<open>The step relation\<close>

datatype 'd svc_step =
    CallStart
  | CallReconcile origin
  | CallStop
  | StartBegins "string option"
  | Listed nat "svc_exn + 'd list" "string option"
  | ManagerReconciled nat "svc_exn option" "string option"
  | CallCancelled nat
  | RolledBack
  | StopBegins
  | StartSettled
  | JobRemoved "string option"
  | CallsGathered "string list"
  | ManagerDown "string option"

fun own_step :: "'d svc_step \<Rightarrow> bool" where
  "own_step CallStart = False"
| "own_step (CallReconcile by) = False"
| "own_step CallStop = False"
| "own_step s = True"

definition call_at :: "nat \<Rightarrow> call_pc \<Rightarrow> 'd service \<Rightarrow> bool" where
  "call_at i pc s \<longleftrightarrow> i < length (sv_calls s) \<and> rc_pc (sv_calls s ! i) = pc"

fun svc_enabled :: "'d service \<Rightarrow> 'd svc_step \<Rightarrow> bool" where
  "svc_enabled s CallStart \<longleftrightarrow> True"
| "svc_enabled s (CallReconcile by) \<longleftrightarrow> by = ByCaller \<or> (by = ByScheduler \<and> sv_job s)"
| "svc_enabled s CallStop \<longleftrightarrow> True"
| "svc_enabled s (StartBegins added) \<longleftrightarrow> sv_start s = StartScheduled"
| "svc_enabled s (Listed i answer added) \<longleftrightarrow> call_at i Listing s \<and> answer \<noteq> Inl SvcCancelled"
| "svc_enabled s (ManagerReconciled i raised added) \<longleftrightarrow> call_at i Reconciling s \<and> raised \<noteq> Some SvcCancelled"
| "svc_enabled s (CallCancelled i) \<longleftrightarrow> i < length (sv_calls s) \<and> \<not> call_over (sv_calls s ! i)
     \<and> rc_origin (sv_calls s ! i) \<noteq> ByStart"
| "svc_enabled s RolledBack \<longleftrightarrow> (case sv_start s of RollingBack e \<Rightarrow> True | _ \<Rightarrow> False)"
| "svc_enabled s StopBegins \<longleftrightarrow> sv_stop s = StopScheduled \<and> sv_start s \<noteq> StartScheduled"
| "svc_enabled s StartSettled \<longleftrightarrow> sv_stop s = AwaitingStart
     \<and> (case sv_start s of NotStarted \<Rightarrow> True | StartEnded r \<Rightarrow> True | _ \<Rightarrow> False)"
| "svc_enabled s (JobRemoved failed) \<longleftrightarrow> (case sv_stop s of RemovingJob live \<Rightarrow> True | _ \<Rightarrow> False)"
| "svc_enabled s (CallsGathered texts) \<longleftrightarrow> (case sv_stop s of
     GatheringCalls live fs \<Rightarrow> list_all (\<lambda>i. call_over (sv_calls s ! i)) live | _ \<Rightarrow> False)"
| "svc_enabled s (ManagerDown failed) \<longleftrightarrow> (case sv_stop s of ShuttingManager fs \<Rightarrow> True | _ \<Rightarrow> False)"

fun svc_perform :: "'d service \<Rightarrow> 'd svc_step \<Rightarrow> 'd service" where
  "svc_perform s CallStart = fst (svc_start s)"
| "svc_perform s (CallReconcile by) = reconcile_call by s"
| "svc_perform s CallStop = svc_stop s"
| "svc_perform s (StartBegins added) = svc_start_begins added s"
| "svc_perform s (Listed i answer added) = listed i answer added s"
| "svc_perform s (ManagerReconciled i raised added) = end_call i raised added s"
| "svc_perform s (CallCancelled i) = end_call i (Some SvcCancelled) None s"
| "svc_perform s RolledBack = (case sv_start s of RollingBack e \<Rightarrow> rolled_back e s | _ \<Rightarrow> s)"
| "svc_perform s StopBegins = svc_stop_begins s"
| "svc_perform s StartSettled = start_settled s"
| "svc_perform s (JobRemoved failed) = (case sv_stop s of RemovingJob live \<Rightarrow> job_removed live failed s | _ \<Rightarrow> s)"
| "svc_perform s (CallsGathered texts) = (case sv_stop s of
     GatheringCalls live fs \<Rightarrow> calls_gathered fs texts s | _ \<Rightarrow> s)"
| "svc_perform s (ManagerDown failed) = (case sv_stop s of ShuttingManager fs \<Rightarrow> manager_down fs failed s | _ \<Rightarrow> s)"

inductive svc_reachable :: "'d service \<Rightarrow> 'd service \<Rightarrow> bool" for s0 where
  svc_init: "svc_reachable s0 s0"
| svc_step: "svc_reachable s0 s \<Longrightarrow> svc_enabled s e \<Longrightarrow> svc_reachable s0 (svc_perform s e)"

inductive_cases svc_reachableE: "svc_reachable s0 s"

fun svc_run :: "'d service \<Rightarrow> 'd svc_step list \<Rightarrow> 'd service option" where
  "svc_run s [] = Some s"
| "svc_run s (e # es) = (if svc_enabled s e then svc_run (svc_perform s e) es else None)"

lemma svc_run_reachable:
  "svc_reachable s0 s \<Longrightarrow> svc_run s es = Some s' \<Longrightarrow> svc_reachable s0 s'"
  by (induction es arbitrary: s) (auto split: if_splits intro: svc_step)

end
