(* ===== verification/Orch_Service_Props.thy ===== *)
theory Orch_Service_Props
  imports Orch_Service
begin

section \<open>Properties of the orchestration service\<close>

text \<open>
  One invariant of all runs, over the calls that are live, carries the properties: reconciliations
  exclude each other, a stop leaves nothing running and nothing registered, no reconciliation reaches
  the manager after the gate is closed, and a stop takes a bounded number of steps.
\<close>

subsection \<open>Live calls\<close>

definition live_set :: "'d service \<Rightarrow> nat set" where
  "live_set s = {i. i < length (sv_calls s) \<and> \<not> call_over (sv_calls s ! i)}"

definition starts :: "'d service \<Rightarrow> nat set" where
  "starts s = {i \<in> live_set s. rc_origin (sv_calls s ! i) = ByStart}"

lemma live_calls_set: "set (live_calls s) = live_set s"
  by (auto simp: live_calls_def live_set_def)

lemma locked_live: "reconcile_locked s \<longleftrightarrow> live_set s \<noteq> {}"
  by (auto simp: reconcile_locked_def live_set_def list_ex_length)

lemma live_same_calls: "sv_calls s' = sv_calls s \<Longrightarrow> live_set s' = live_set s"
  by (simp add: live_set_def)

lemma starts_same_calls: "sv_calls s' = sv_calls s \<Longrightarrow> starts s' = starts s"
  by (simp add: starts_def live_set_def)

lemma set_call_fields [simp]:
  "sv_has_scheduler (set_call i pc s) = sv_has_scheduler s" "sv_accepting (set_call i pc s) = sv_accepting s"
  "sv_registered (set_call i pc s) = sv_registered s" "sv_started (set_call i pc s) = sv_started s"
  "sv_start (set_call i pc s) = sv_start s" "sv_stop (set_call i pc s) = sv_stop s"
  "sv_job (set_call i pc s) = sv_job s" "sv_down (set_call i pc s) = sv_down s"
  "sv_given (set_call i pc s) = sv_given s"
  by (simp_all add: set_call_def)

lemma record_svc_failure_fields [simp]:
  "sv_calls (record_svc_failure e s) = sv_calls s"
  "sv_has_scheduler (record_svc_failure e s) = sv_has_scheduler s" "sv_accepting (record_svc_failure e s) = sv_accepting s"
  "sv_registered (record_svc_failure e s) = sv_registered s" "sv_started (record_svc_failure e s) = sv_started s"
  "sv_start (record_svc_failure e s) = sv_start s" "sv_stop (record_svc_failure e s) = sv_stop s"
  "sv_job (record_svc_failure e s) = sv_job s" "sv_down (record_svc_failure e s) = sv_down s"
  "sv_given (record_svc_failure e s) = sv_given s"
  by (cases e; simp)+

lemma over_ended [simp]: "call_over (c\<lparr>rc_pc := CallEnded r\<rparr>)"
  by (simp add: call_over_def)

lemma not_over_reconciling [simp]: "\<not> call_over (c\<lparr>rc_pc := Reconciling\<rparr>)"
  by (simp add: call_over_def)

lemma origin_set_call [simp]:
  "j < length (sv_calls s) \<Longrightarrow> rc_origin (sv_calls (set_call i pc s) ! j) = rc_origin (sv_calls s ! j)"
  by (cases "i = j") (simp_all add: set_call_def)

lemma over_set_call:
  "j < length (sv_calls s) \<Longrightarrow> call_over (sv_calls (set_call i pc s) ! j) \<longleftrightarrow>
     (if j = i then call_over ((sv_calls s ! i)\<lparr>rc_pc := pc\<rparr>) else call_over (sv_calls s ! j))"
  by (cases "i = j") (simp_all add: set_call_def)

lemma length_set_call [simp]: "length (sv_calls (set_call i pc s)) = length (sv_calls s)"
  by (simp add: set_call_def)

lemma live_bound: "i \<in> live_set s \<Longrightarrow> i < length (sv_calls s)"
  by (simp add: live_set_def)

lemma live_end_call: "live_set (set_call i (CallEnded r) s) = live_set s - {i}"
  by (auto simp: live_set_def over_set_call split: if_splits)

lemma starts_end_call: "starts (set_call i (CallEnded r) s) = starts s - {i}"
  by (auto simp: starts_def live_end_call live_bound)

lemma live_reconciling: "i \<in> live_set s \<Longrightarrow> live_set (set_call i Reconciling s) = live_set s"
  by (auto simp: live_set_def over_set_call split: if_splits)

lemma starts_reconciling: "i \<in> live_set s \<Longrightarrow> starts (set_call i Reconciling s) = starts s"
  by (auto simp: starts_def live_reconciling live_bound)

lemma live_reconcile_call:
  "live_set (reconcile_call by s) =
     (if sv_accepting s \<and> live_set s = {} then {length (sv_calls s)} else live_set s)"
  by (auto simp: reconcile_call_def locked_live call_over_def) (auto simp: live_set_def call_over_def nth_append split: if_splits)

lemma starts_reconcile_call:
  "starts (reconcile_call by s) =
     (if sv_accepting s \<and> live_set s = {} \<and> by = ByStart then {length (sv_calls s)} else starts s)"
proof -
  have c: "sv_calls (reconcile_call by s) ! i = (if i = length (sv_calls s)
      then \<lparr>rc_origin = by, rc_pc = if sv_accepting s \<and> \<not> reconcile_locked s then Listing else CallEnded None\<rparr>
      else sv_calls s ! i)" if "i \<le> length (sv_calls s)" for i
    using that by (simp add: reconcile_call_def nth_append)
  have "i \<le> length (sv_calls s)" if "i \<in> live_set (reconcile_call by s)" for i
    using that by (auto simp: live_set_def reconcile_call_def)
  then show ?thesis
    unfolding starts_def live_reconcile_call using c by (auto simp: live_set_def)
qed

subsection \<open>The invariant\<close>

definition start_over :: "'d service \<Rightarrow> bool" where
  "start_over s \<longleftrightarrow> (case sv_start s of NotStarted \<Rightarrow> True | StartEnded r \<Rightarrow> True | _ \<Rightarrow> False)"

definition idle_flags :: "'d service \<Rightarrow> bool" where
  "idle_flags s \<longleftrightarrow> \<not> sv_registered s \<and> \<not> sv_started s \<and> \<not> sv_job s"

definition start_inv :: "'d service \<Rightarrow> bool" where
  "start_inv s \<longleftrightarrow> (case sv_start s of
     NotStarted \<Rightarrow> live_set s = {} \<and> \<not> sv_accepting s \<and> idle_flags s
   | StartScheduled \<Rightarrow> live_set s = {} \<and> \<not> sv_accepting s \<and> idle_flags s
   | StartReconciling \<Rightarrow> idle_flags s \<and> starts s \<noteq> {} \<and> (sv_stop s = NotStopping \<longrightarrow> sv_accepting s)
   | RollingBack e \<Rightarrow> live_set s = {} \<and> \<not> sv_accepting s \<and> idle_flags s
   | StartEnded (Some e) \<Rightarrow> live_set s = {} \<and> \<not> sv_accepting s \<and> idle_flags s \<and> sv_down s
   | StartEnded None \<Rightarrow> sv_stop s = NotStopping \<longrightarrow>
       sv_accepting s \<and> sv_started s \<and> sv_registered s = sv_has_scheduler s \<and> sv_job s = sv_has_scheduler s)"

definition stop_inv :: "'d service \<Rightarrow> bool" where
  "stop_inv s \<longleftrightarrow> (case sv_stop s of
     NotStopping \<Rightarrow> sv_job s \<longrightarrow> sv_registered s
   | StopScheduled \<Rightarrow> sv_job s \<longrightarrow> sv_registered s
   | AwaitingStart \<Rightarrow> \<not> sv_accepting s \<and> sv_start s \<noteq> StartScheduled \<and> (sv_job s \<longrightarrow> sv_registered s)
   | RemovingJob live \<Rightarrow> \<not> sv_accepting s \<and> start_over s \<and> live_set s \<subseteq> set live \<and> (sv_job s \<longrightarrow> sv_registered s)
       \<and> set live \<subseteq> {..<length (sv_calls s)}
   | GatheringCalls live fs \<Rightarrow> \<not> sv_accepting s \<and> start_over s \<and> live_set s \<subseteq> set live \<and> \<not> sv_registered s
       \<and> (sv_job s \<longrightarrow> fs \<noteq> []) \<and> set live \<subseteq> {..<length (sv_calls s)}
   | ShuttingManager fs \<Rightarrow> \<not> sv_accepting s \<and> start_over s \<and> live_set s = {} \<and> \<not> sv_registered s
       \<and> (sv_job s \<longrightarrow> fs \<noteq> []) \<and> 0 < sv_shutdowns s
   | StopEnded r \<Rightarrow> \<not> sv_accepting s \<and> start_over s \<and> live_set s = {} \<and> \<not> sv_registered s \<and> \<not> sv_started s
       \<and> (sv_job s \<longrightarrow> r \<noteq> None) \<and> sv_down s)"

definition svc_inv :: "'d service \<Rightarrow> bool" where
  "svc_inv s \<longleftrightarrow> start_inv s \<and> stop_inv s \<and> (\<forall>i \<in> live_set s. \<forall>j \<in> live_set s. i = j)
     \<and> (sv_start s \<noteq> StartReconciling \<longrightarrow> starts s = {})
     \<and> (sv_registered s \<longrightarrow> sv_has_scheduler s)"

lemmas svc_inv_defs = svc_inv_def start_inv_def stop_inv_def idle_flags_def start_over_def

lemma svc_inv_init: "service_init h n = Inr s \<Longrightarrow> svc_inv s"
  by (auto simp: service_init_def svc_inv_defs live_set_def starts_def split: if_splits)

lemma svc_inv_start: "svc_inv s \<Longrightarrow> svc_inv (fst (svc_start s))"
  by (auto simp: svc_start_def svc_inv_defs live_set_def starts_def split: start_pc.splits stop_pc.splits option.splits)

lemma svc_inv_stop_call: "svc_inv s \<Longrightarrow> svc_inv (svc_stop s)"
  by (auto simp: svc_stop_def svc_inv_defs live_set_def starts_def split: start_pc.splits stop_pc.splits option.splits)

lemma svc_inv_reconcile_call:
  assumes "svc_inv s" and "by \<noteq> ByStart"
  shows "svc_inv (reconcile_call by s)"
proof -
  have f: "sv_start (reconcile_call by s) = sv_start s" "sv_stop (reconcile_call by s) = sv_stop s"
    "sv_accepting (reconcile_call by s) = sv_accepting s" "sv_registered (reconcile_call by s) = sv_registered s"
    "sv_started (reconcile_call by s) = sv_started s" "sv_job (reconcile_call by s) = sv_job s"
    "sv_has_scheduler (reconcile_call by s) = sv_has_scheduler s" "sv_down (reconcile_call by s) = sv_down s"
    "sv_shutdowns (reconcile_call by s) = sv_shutdowns s"
    by (simp_all add: reconcile_call_def)
  have st: "starts (reconcile_call by s) = starts s" using assms(2) by (simp add: starts_reconcile_call)
  show ?thesis
  proof (cases "sv_accepting s \<and> live_set s = {}")
    case False
    then have l: "live_set (reconcile_call by s) = live_set s" by (simp add: live_reconcile_call)
    have len: "length (sv_calls (reconcile_call by s)) = Suc (length (sv_calls s))" by (simp add: reconcile_call_def)
    show ?thesis using assms(1) unfolding svc_inv_defs f l st len
      by (cases "sv_stop s") (simp_all add: lessThan_Suc subset_insertI2)
  next
    case True
    then have l: "live_set (reconcile_call by s) = {length (sv_calls s)}" by (simp add: live_reconcile_call)
    with assms(1) st True show ?thesis unfolding svc_inv_defs f
      by (auto split: start_pc.splits stop_pc.splits option.splits)
  qed
qed

lemma goes_on_fields [simp]:
  "sv_calls (start_goes_on r a s) = sv_calls s" "sv_stop (start_goes_on r a s) = sv_stop s"
  "sv_has_scheduler (start_goes_on r a s) = sv_has_scheduler s"
  by (simp_all add: start_goes_on_def roll_back_def split: option.splits)

lemma svc_inv_goes_on:
  assumes "sv_start s = StartReconciling" "live_set s = {}" "idle_flags s" "stop_inv s"
    and "sv_stop s = NotStopping \<longrightarrow> sv_accepting s"
  shows "svc_inv (start_goes_on r a s)"
proof -
  have l: "live_set (start_goes_on r a s) = {}" using assms(2) by (simp add: live_set_def)
  have st: "starts (start_goes_on r a s) = {}" using l by (simp add: starts_def)
  have stop: "sv_stop s = NotStopping \<or> sv_stop s = StopScheduled \<or> sv_stop s = AwaitingStart"
    using assms(1,4) by (auto simp: stop_inv_def start_over_def split: stop_pc.splits)
  show ?thesis
    unfolding svc_inv_def start_inv_def stop_inv_def goes_on_fields l st
    using assms(1,3,4,5) stop
    by (auto simp: start_goes_on_def roll_back_def idle_flags_def start_over_def stop_inv_def split: option.splits)
qed

definition after_end :: "svc_exn option \<Rightarrow> nat \<Rightarrow> 'd service \<Rightarrow> 'd service" where
  "after_end raised i s =
     set_call i (CallEnded (map_option call_raises raised)) (case raised of None \<Rightarrow> s | Some e \<Rightarrow> record_svc_failure e s)"

lemma after_end_fields [simp]:
  "sv_has_scheduler (after_end r i s) = sv_has_scheduler s" "sv_accepting (after_end r i s) = sv_accepting s"
  "sv_registered (after_end r i s) = sv_registered s" "sv_started (after_end r i s) = sv_started s"
  "sv_start (after_end r i s) = sv_start s" "sv_stop (after_end r i s) = sv_stop s"
  "sv_job (after_end r i s) = sv_job s" "sv_down (after_end r i s) = sv_down s"
  "sv_given (after_end r i s) = sv_given s" "sv_shutdowns (after_end r i s) = sv_shutdowns s"
  "length (sv_calls (after_end r i s)) = length (sv_calls s)"
proof -
  have "sv_shutdowns (record_svc_failure e s) = sv_shutdowns s" for e by (cases e) simp_all
  then show "sv_shutdowns (after_end r i s) = sv_shutdowns s"
    by (simp add: after_end_def set_call_def split: option.splits)
qed (simp_all add: after_end_def split: option.splits)

lemma live_record: "live_set (record_svc_failure e s) = live_set s" "starts (record_svc_failure e s) = starts s"
  by (simp_all add: live_set_def starts_def)

lemma after_end_live: "live_set (after_end r i s) = live_set s - {i}"
  by (cases r) (simp_all add: after_end_def live_end_call live_record)

lemma after_end_starts: "starts (after_end r i s) = starts s - {i}"
  by (cases r) (simp_all add: after_end_def starts_end_call live_record)

lemma end_call_eq:
  "end_call i raised added s = (if rc_origin (sv_calls s ! i) = ByStart
     then start_goes_on (map_option call_raises raised) added (after_end raised i s) else after_end raised i s)"
  by (simp add: end_call_def after_end_def Let_def)

lemma svc_inv_end_call:
  assumes inv: "svc_inv s" and i: "i \<in> live_set s"
  shows "svc_inv (end_call i raised added s)"
proof -
  have only: "live_set s = {i}" using inv i by (auto simp: svc_inv_def)
  then have l: "live_set (after_end raised i s) = {}" by (simp add: after_end_live)
  have st: "starts (after_end raised i s) = {}" using l by (simp add: starts_def)
  show ?thesis
  proof (cases "rc_origin (sv_calls s ! i) = ByStart")
    case True
    with i have "i \<in> starts s" by (simp add: starts_def)
    with inv have start: "sv_start s = StartReconciling" by (auto simp: svc_inv_def)
    have s1: "sv_start (after_end raised i s) = StartReconciling" using start by simp
    have idle: "idle_flags (after_end raised i s)" "sv_stop (after_end raised i s) = NotStopping \<longrightarrow> sv_accepting (after_end raised i s)"
      using inv start by (auto simp: svc_inv_def start_inv_def idle_flags_def)
    have stop: "stop_inv (after_end raised i s)"
      using inv l unfolding svc_inv_def stop_inv_def start_over_def by (auto split: stop_pc.splits)
    from svc_inv_goes_on [OF s1 l idle(1) stop idle(2)] True show ?thesis by (simp add: end_call_eq)
  next
    case False
    with only have no: "starts s = {}" by (auto simp: starts_def)
    then have ns: "sv_start s \<noteq> StartReconciling" using inv by (auto simp: svc_inv_def start_inv_def)
    have "svc_inv (after_end raised i s)"
      unfolding svc_inv_defs l st after_end_fields using inv ns unfolding svc_inv_defs
      by (auto split: start_pc.splits stop_pc.splits option.splits)
    with False show ?thesis by (simp add: end_call_eq)
  qed
qed

lemma svc_inv_start_begins:
  assumes inv: "svc_inv s" and b: "sv_start s = StartScheduled"
  shows "svc_inv (svc_start_begins added s)"
proof -
  let ?s = "s\<lparr>sv_accepting := True, sv_start := StartReconciling\<rparr>"
  let ?r = "reconcile_call ByStart ?s"
  from inv b have none: "live_set s = {}" and idle: "idle_flags s"
    and stop: "sv_stop s = NotStopping \<or> sv_stop s = StopScheduled"
    by (auto simp: svc_inv_defs split: stop_pc.splits)
  have live0: "live_set ?s = {}" using none by (simp add: live_set_def)
  then have nl: "\<not> reconcile_locked ?s" by (simp add: locked_live)
  have last: "\<not> call_over (List.last (sv_calls ?r))" using nl by (simp add: reconcile_call_def call_over_def)
  have l: "live_set ?r = {length (sv_calls s)}" "starts ?r = {length (sv_calls s)}"
    using live0 by (simp_all add: live_reconcile_call starts_reconcile_call)
  have "svc_inv ?r"
    unfolding svc_inv_def start_inv_def stop_inv_def l
    using stop idle by (auto simp: reconcile_call_def idle_flags_def)
  then show ?thesis using last by (simp add: svc_start_begins_def Let_def)
qed

lemma svc_inv_listed:
  assumes inv: "svc_inv s" and i: "i \<in> live_set s"
  shows "svc_inv (listed i answer added s)"
proof (cases "\<exists>desired. answer = Inr desired \<and> sv_accepting s")
  case True
  then obtain desired where d: "answer = Inr desired" "sv_accepting s" by blast
  let ?r = "(set_call i Reconciling s)\<lparr>sv_given := sv_given s @ [desired]\<rparr>"
  have l: "live_set ?r = live_set s" "starts ?r = starts s"
    using live_reconciling [OF i] starts_reconciling [OF i]
      live_same_calls [of ?r "set_call i Reconciling s"] starts_same_calls [of ?r "set_call i Reconciling s"] by simp_all
  have f: "sv_has_scheduler ?r = sv_has_scheduler s" "sv_accepting ?r = sv_accepting s"
    "sv_registered ?r = sv_registered s" "sv_started ?r = sv_started s" "sv_start ?r = sv_start s"
    "sv_stop ?r = sv_stop s" "sv_job ?r = sv_job s" "sv_down ?r = sv_down s" "sv_shutdowns ?r = sv_shutdowns s" "length (sv_calls ?r) = length (sv_calls s)"
    by (simp_all add: set_call_def)
  have "svc_inv ?r" using inv unfolding svc_inv_defs l f .
  then show ?thesis using d by (simp add: listed_def)
next
  case False
  with svc_inv_end_call [OF inv i] show ?thesis by (auto simp: listed_def split: sum.splits)
qed

lemma svc_inv_rolled_back:
  assumes "svc_inv s" and "sv_start s = RollingBack e"
  shows "svc_inv (rolled_back e s)"
proof -
  have l: "live_set (rolled_back e s) = live_set s" "starts (rolled_back e s) = starts s"
    by (cases e; simp add: rolled_back_def live_set_def starts_def)+
  show ?thesis
    unfolding svc_inv_defs l using assms unfolding svc_inv_defs
    by (cases e) (auto simp: rolled_back_def split: stop_pc.splits)
qed

lemma svc_inv_stop_begins:
  assumes "svc_inv s" and "sv_stop s = StopScheduled" and "sv_start s \<noteq> StartScheduled"
  shows "svc_inv (svc_stop_begins s)"
proof -
  have l: "live_set (svc_stop_begins s) = live_set s" "starts (svc_stop_begins s) = starts s"
    by (simp_all add: svc_stop_begins_def live_set_def starts_def)
  show ?thesis
    unfolding svc_inv_defs l using assms unfolding svc_inv_defs
    by (auto simp: svc_stop_begins_def split: start_pc.splits option.splits)
qed

text \<open>The stop task beyond the start task: what it needs to be at a given place.\<close>

definition past_start :: "'d service \<Rightarrow> bool" where
  "past_start s \<longleftrightarrow> svc_inv s \<and> start_over s \<and> \<not> sv_accepting s"

lemma svc_inv_stop_move:
  assumes "past_start s" and "stop_inv (s\<lparr>sv_stop := pc\<rparr>)" and "pc \<noteq> NotStopping"
  shows "svc_inv (s\<lparr>sv_stop := pc\<rparr>)"
proof -
  have l: "live_set (s\<lparr>sv_stop := pc\<rparr>) = live_set s" "starts (s\<lparr>sv_stop := pc\<rparr>) = starts s"
    by (simp_all add: live_set_def starts_def)
  show ?thesis
    unfolding svc_inv_def start_inv_def l using assms unfolding past_start_def svc_inv_def start_inv_def start_over_def idle_flags_def
    by (auto simp: idle_flags_def split: start_pc.splits option.splits)
qed

lemma live_update [simp]:
  "live_set (s\<lparr>sv_stop := pc\<rparr>) = live_set s" "live_set (s\<lparr>sv_shutdowns := n\<rparr>) = live_set s"
  "live_set (s\<lparr>sv_registered := b\<rparr>) = live_set s" "live_set (s\<lparr>sv_job := b\<rparr>) = live_set s"
  "live_set (s\<lparr>sv_started := b\<rparr>) = live_set s" "live_set (s\<lparr>sv_down := b\<rparr>) = live_set s"
  "live_set (s\<lparr>sv_failure := f\<rparr>) = live_set s"
  "starts (s\<lparr>sv_stop := pc\<rparr>) = starts s" "starts (s\<lparr>sv_shutdowns := n\<rparr>) = starts s"
  "starts (s\<lparr>sv_registered := b\<rparr>) = starts s" "starts (s\<lparr>sv_job := b\<rparr>) = starts s"
  "starts (s\<lparr>sv_started := b\<rparr>) = starts s" "starts (s\<lparr>sv_down := b\<rparr>) = starts s"
  "starts (s\<lparr>sv_failure := f\<rparr>) = starts s"
  by (simp_all add: live_set_def starts_def)

lemma svc_inv_gather:
  assumes "start_inv (s\<lparr>sv_stop := AwaitingStart\<rparr>)" "start_over s" "\<not> sv_accepting s" "\<not> sv_registered s"
    and "\<forall>i \<in> live_set s. \<forall>j \<in> live_set s. i = j" "starts s = {}" "live_set s \<subseteq> set live" "sv_job s \<longrightarrow> fs \<noteq> []"
    and "set live \<subseteq> {..<length (sv_calls s)}"
  shows "svc_inv (gather_calls live fs s)"
  using assms by (auto simp: gather_calls_def shut_manager_def svc_inv_defs split: start_pc.splits option.splits)

lemma svc_inv_start_settled:
  assumes inv: "svc_inv s" and a: "sv_stop s = AwaitingStart" and o1: "start_over s"
  shows "svc_inv (start_settled s)"
proof -
  have acc: "\<not> sv_accepting s" and job: "sv_job s \<longrightarrow> sv_registered s" using inv a by (simp_all add: svc_inv_def stop_inv_def)
  have no: "starts s = {}" using inv o1 by (auto simp: svc_inv_def start_over_def)
  show ?thesis
  proof (cases "sv_has_scheduler s \<and> sv_registered s")
    case True
    have "svc_inv (s\<lparr>sv_stop := RemovingJob (live_calls s)\<rparr>)"
      by (rule svc_inv_stop_move) (use inv o1 acc job in \<open>auto simp: past_start_def stop_inv_def start_over_def live_calls_set live_bound\<close>)
    with True show ?thesis by (simp add: start_settled_def)
  next
    case False
    with inv have "\<not> sv_registered s" by (auto simp: svc_inv_def)
    moreover have "start_inv (s\<lparr>sv_stop := AwaitingStart\<rparr>)"
      using inv a by (auto simp: svc_inv_def start_inv_def idle_flags_def split: start_pc.splits option.splits)
    moreover have "\<forall>i \<in> live_set s. \<forall>j \<in> live_set s. i = j" using inv by (simp add: svc_inv_def)
    moreover have "live_set s \<subseteq> {..<length (sv_calls s)}" by (auto simp: live_bound)
    ultimately have "svc_inv (gather_calls (live_calls s) [] s)"
      using o1 acc no job by (intro svc_inv_gather) (simp_all add: live_calls_set)
    with False show ?thesis by (auto simp: start_settled_def)
  qed
qed

lemma svc_inv_job_removed:
  assumes inv: "svc_inv s" and r: "sv_stop s = RemovingJob live"
  shows "svc_inv (job_removed live failed s)"
  unfolding job_removed_def
  by (rule svc_inv_gather) (use inv r in \<open>auto simp: svc_inv_defs split: start_pc.splits option.splits\<close>)

lemma svc_inv_calls_gathered:
  assumes inv: "svc_inv s" and r: "sv_stop s = GatheringCalls live fs"
    and o1: "list_all (\<lambda>i. call_over (sv_calls s ! i)) live"
  shows "svc_inv (calls_gathered fs texts s)"
proof -
  have "live_set s = {}" using inv r o1 by (auto simp: svc_inv_def stop_inv_def list_all_iff live_set_def)
  then show ?thesis using inv r
    by (auto simp: calls_gathered_def shut_manager_def svc_inv_defs split: start_pc.splits option.splits)
qed

lemma svc_inv_manager_down:
  assumes inv: "svc_inv s" and r: "sv_stop s = ShuttingManager fs"
  shows "svc_inv (manager_down fs failed s)"
proof -
  have "start_over s" "\<not> sv_accepting s" "live_set s = {}" "\<not> sv_registered s" "sv_job s \<longrightarrow> fs \<noteq> []"
    using inv r by (simp_all add: svc_inv_def stop_inv_def)
  then show ?thesis using inv
    by (auto simp: manager_down_def Let_def svc_inv_defs split: start_pc.splits option.splits)
qed

lemma svc_inv_step:
  assumes "svc_inv s" and "svc_enabled s e"
  shows "svc_inv (svc_perform s e)"
proof (cases e)
  case (Listed i answer added)
  with assms show ?thesis
    using svc_inv_listed [of s i] by (auto simp: call_at_def live_set_def call_over_def)
next
  case (ManagerReconciled i raised added)
  with assms show ?thesis
    using svc_inv_end_call [of s i] by (auto simp: call_at_def live_set_def call_over_def)
next
  case (CallCancelled i)
  with assms show ?thesis using svc_inv_end_call [of s i] by (auto simp: live_set_def)
next
  case RolledBack
  with assms show ?thesis by (auto intro: svc_inv_rolled_back split: start_pc.splits)
next
  case StartSettled
  with assms show ?thesis by (auto simp: start_over_def intro!: svc_inv_start_settled split: start_pc.splits)
next
  case (JobRemoved failed)
  with assms show ?thesis by (auto intro: svc_inv_job_removed split: stop_pc.splits)
next
  case (CallsGathered texts)
  with assms show ?thesis by (auto intro: svc_inv_calls_gathered split: stop_pc.splits)
next
  case (ManagerDown failed)
  with assms show ?thesis by (auto intro: svc_inv_manager_down split: stop_pc.splits)
qed (use assms in \<open>auto intro: svc_inv_start svc_inv_stop_call svc_inv_reconcile_call svc_inv_start_begins svc_inv_stop_begins\<close>)

lemma svc_inv_reachable:
  assumes "service_init h n = Inr s0" and "svc_reachable s0 s"
  shows "svc_inv s"
  using assms(2) by (induction rule: svc_reachable.induct) (auto intro: svc_inv_init [OF assms(1)] svc_inv_step)

subsection \<open>The gate\<close>

definition gate_closed :: "'d service \<Rightarrow> bool" where
  "gate_closed s \<longleftrightarrow> sv_stop s \<noteq> NotStopping \<and> sv_stop s \<noteq> StopScheduled"

lemma gate_not_accepting: "svc_inv s \<Longrightarrow> gate_closed s \<Longrightarrow> \<not> sv_accepting s"
  by (cases "sv_stop s") (simp_all add: svc_inv_def stop_inv_def gate_closed_def)

lemma gate_no_start: "svc_inv s \<Longrightarrow> gate_closed s \<Longrightarrow> sv_start s \<noteq> StartScheduled"
  by (cases "sv_stop s"; cases "sv_start s") (simp_all add: svc_inv_def stop_inv_def start_over_def gate_closed_def)

lemma end_call_given: "sv_given (end_call i r a s) = sv_given s" "sv_stop (end_call i r a s) = sv_stop s"
  by (simp_all add: end_call_eq start_goes_on_def roll_back_def split: option.splits)

lemma gate_step:
  assumes "svc_inv s" "gate_closed s" "svc_enabled s e"
  shows "gate_closed (svc_perform s e) \<and> sv_given (svc_perform s e) = sv_given s
    \<and> (\<forall>r. sv_stop s = StopEnded r \<longrightarrow> sv_stop (svc_perform s e) = StopEnded r)"
proof -
  have acc: "\<not> sv_accepting s" and ns: "sv_start s \<noteq> StartScheduled"
    using assms(1,2) by (rule gate_not_accepting, rule gate_no_start)
  show ?thesis
  proof (cases e)
    case (Listed i answer added)
    with acc assms(2) show ?thesis by (auto simp: listed_def end_call_given gate_closed_def split: sum.splits)
  next
    case RolledBack
    with assms(2,3) show ?thesis by (auto simp: rolled_back_def gate_closed_def split: start_pc.splits svc_exn.splits)
  qed (use assms(2,3) acc ns in \<open>auto simp: gate_closed_def svc_start_def svc_stop_def reconcile_call_def end_call_given
      svc_stop_begins_def start_settled_def gather_calls_def shut_manager_def job_removed_def calls_gathered_def
      manager_down_def Let_def split: stop_pc.splits option.splits\<close>)
qed

lemma gate_kept_run:
  assumes "svc_inv s" "gate_closed s" "svc_run s es = Some s'"
  shows "svc_inv s' \<and> gate_closed s' \<and> sv_given s' = sv_given s
    \<and> (\<forall>r. sv_stop s = StopEnded r \<longrightarrow> sv_stop s' = StopEnded r)"
  using assms
proof (induction es arbitrary: s)
  case (Cons e es)
  then have en: "svc_enabled s e" and r: "svc_run (svc_perform s e) es = Some s'" by (auto split: if_splits)
  from Cons.IH [OF svc_inv_step [OF Cons.prems(1) en] _ r] gate_step [OF Cons.prems(1,2) en] show ?case by auto
qed simp

text \<open>
  C24. At most one reconciliation is past its admission at any time, so the catalogue is read and the
  manager reconciled by one task only; and while the service has the manager shut down, in the
  rollback of a failed start or in a stop, and after a stop, there is none.
\<close>

theorem service_reconcile_exclusive:
  assumes "service_init h n = Inr s0" and "svc_reachable s0 s"
  shows "card (live_set s) \<le> 1
    \<and> (\<forall>e fs r. sv_start s = RollingBack e \<or> sv_stop s = ShuttingManager fs \<or> sv_stop s = StopEnded r \<longrightarrow> live_set s = {})"
proof -
  have inv: "svc_inv s" by (rule svc_inv_reachable [OF assms])
  then have u: "\<forall>i \<in> live_set s. \<forall>j \<in> live_set s. i = j" by (simp add: svc_inv_def)
  have "card (live_set s) \<le> 1"
  proof (cases "live_set s = {}")
    case False
    then obtain i where "i \<in> live_set s" by blast
    with u have "live_set s = {i}" by blast
    then show ?thesis by simp
  qed simp
  moreover have "live_set s = {}" if "sv_start s = RollingBack e \<or> sv_stop s = ShuttingManager fs \<or> sv_stop s = StopEnded r" for e fs r
    using inv that unfolding svc_inv_def start_inv_def stop_inv_def by (elim disjE) simp_all
  ultimately show ?thesis by blast
qed

text \<open>
  Once the stop task has closed the gate, the manager is given no desired state any more, by any
  task, in any continuation.
\<close>

theorem service_stop_gate:
  assumes "service_init h n = Inr s0" and "svc_reachable s0 s" and "gate_closed s"
    and "svc_run s es = Some s'"
  shows "sv_given s' = sv_given s \<and> gate_closed s' \<and> \<not> sv_accepting s'"
  using gate_kept_run [OF svc_inv_reachable [OF assms(1,2)] assms(3,4)] gate_not_accepting by blast

text \<open>
  C25. A stop that has returned is final: in every continuation no reconciliation is running or
  accepted, the manager has been shut down, the service is neither started nor registered with the
  scheduler, starting it again is refused, and unless the stop raised a failure the scheduler has no
  job of the service left.
\<close>

theorem service_stop_complete:
  assumes "service_init h n = Inr s0" and "svc_reachable s0 s" and "sv_stop s = StopEnded r"
    and "svc_run s es = Some s'"
  shows "live_set s' = {} \<and> \<not> sv_accepting s' \<and> sv_down s' \<and> \<not> sv_started s' \<and> \<not> sv_registered s'
    \<and> (r = None \<longrightarrow> \<not> sv_job s') \<and> (\<exists>e. snd (svc_start s') = Inl e)"
proof -
  have g: "gate_closed s" using assms(3) by (simp add: gate_closed_def)
  from gate_kept_run [OF svc_inv_reachable [OF assms(1,2)] g assms(4)] assms(3)
  have "svc_inv s'" "sv_stop s' = StopEnded r" by auto
  then show ?thesis by (auto simp: svc_inv_def stop_inv_def svc_start_def)
qed

text \<open>
  The status is honest: a service reported as running accepts reconciliations and its job is
  registered if it has a scheduler; a service whose start failed is not running, accepts nothing,
  has no job, and the manager has been shut down.
\<close>

theorem service_status_honest:
  assumes "service_init h n = Inr s0" and "svc_reachable s0 s"
  shows "(vs_running (runtime_status s) \<longrightarrow> vs_accepting (runtime_status s) \<and> sv_start s = StartEnded None
       \<and> vs_registered (runtime_status s) = sv_has_scheduler s \<and> sv_job s = sv_has_scheduler s)
    \<and> (\<forall>e. sv_start s = StartEnded (Some e) \<longrightarrow> \<not> vs_running (runtime_status s) \<and> \<not> vs_accepting (runtime_status s)
       \<and> \<not> vs_in_progress (runtime_status s) \<and> \<not> sv_job s \<and> sv_down s)"
  using svc_inv_reachable [OF assms]
  by (auto simp: svc_inv_defs runtime_status_def locked_live split: start_pc.splits option.splits)

subsection \<open>Stopping terminates\<close>

fun call_weight :: "call_pc \<Rightarrow> nat" where
  "call_weight Listing = 2"
| "call_weight Reconciling = 1"
| "call_weight (CallEnded r) = 0"

fun start_weight :: "start_pc \<Rightarrow> nat" where
  "start_weight NotStarted = 0"
| "start_weight StartScheduled = 4"
| "start_weight StartReconciling = 1"
| "start_weight (RollingBack e) = 1"
| "start_weight (StartEnded r) = 0"

fun stop_weight :: "stop_pc \<Rightarrow> nat" where
  "stop_weight NotStopping = 6"
| "stop_weight StopScheduled = 5"
| "stop_weight AwaitingStart = 4"
| "stop_weight (RemovingJob live) = 3"
| "stop_weight (GatheringCalls live fs) = 2"
| "stop_weight (ShuttingManager fs) = 1"
| "stop_weight (StopEnded r) = 0"

definition calls_weight :: "'d service \<Rightarrow> nat" where
  "calls_weight s = sum_list (map (\<lambda>c. call_weight (rc_pc c)) (sv_calls s))"

definition svc_measure :: "'d service \<Rightarrow> nat" where
  "svc_measure s = start_weight (sv_start s) + stop_weight (sv_stop s) + calls_weight s"

lemma weight_over: "call_over c \<longleftrightarrow> call_weight (rc_pc c) = 0"
  by (cases "rc_pc c") (simp_all add: call_over_def)

lemma weight_le: "call_weight pc \<le> 2"
  by (cases pc) simp_all

lemma calls_weight_set:
  assumes "i < length (sv_calls s)"
  shows "calls_weight (set_call i pc s) + call_weight (rc_pc (sv_calls s ! i)) = calls_weight s + call_weight pc"
proof -
  let ?w = "\<lambda>c. call_weight (rc_pc c)"
  have le: "?w (sv_calls s ! i) \<le> sum_list (map ?w (sv_calls s))"
    using assms by (metis length_map elem_le_sum_list nth_map)
  have "map ?w (sv_calls (set_call i pc s)) = (map ?w (sv_calls s))[i := call_weight pc]"
    by (simp add: set_call_def map_update)
  then have "calls_weight (set_call i pc s) = sum_list (map ?w (sv_calls s)) + call_weight pc - ?w (sv_calls s ! i)"
    using assms by (simp add: calls_weight_def sum_list_update)
  with le show ?thesis by (simp add: calls_weight_def)
qed

lemma calls_weight_bound:
  assumes "svc_inv s"
  shows "calls_weight s \<le> 2"
proof -
  let ?w = "\<lambda>i. call_weight (rc_pc (sv_calls s ! i))"
  have "calls_weight s = (\<Sum>i \<in> {0..<length (sv_calls s)}. ?w i)"
    by (simp add: calls_weight_def sum_list_sum_nth)
  also have "\<dots> = (\<Sum>i \<in> live_set s. ?w i)"
    by (rule sum.mono_neutral_right) (auto simp: live_set_def weight_over)
  also have "\<dots> \<le> 2"
  proof (cases "live_set s = {}")
    case False
    then obtain i where "i \<in> live_set s" by blast
    then have "live_set s = {i}" using assms unfolding svc_inv_def by blast
    then show ?thesis using weight_le by simp
  qed simp
  finally show ?thesis .
qed

lemma measure_bound:
  assumes "svc_inv s" "sv_stop s \<noteq> NotStopping"
  shows "svc_measure s \<le> 9"
proof -
  have w: "stop_weight (sv_stop s) \<le> 5" using assms(2) by (cases "sv_stop s") auto
  show ?thesis
  proof (cases "sv_start s = StartScheduled")
    case True
    then have "live_set s = {}" using assms(1) by (simp add: svc_inv_def start_inv_def)
    then have "call_weight (rc_pc c) = 0" if "c \<in> set (sv_calls s)" for c
      using that by (auto simp: live_set_def in_set_conv_nth weight_over)
    then have "calls_weight s = 0" by (simp add: calls_weight_def)
    with w True show ?thesis by (simp add: svc_measure_def)
  next
    case False
    then have "start_weight (sv_start s) \<le> 1" by (cases "sv_start s") simp_all
    with w calls_weight_bound [OF assms(1)] show ?thesis by (simp add: svc_measure_def)
  qed
qed

lemma after_end_weight:
  assumes "i \<in> live_set s"
  shows "calls_weight (after_end r i s) < calls_weight s"
proof -
  have c: "calls_weight (record_svc_failure e s) = calls_weight s" for e by (simp add: calls_weight_def)
  have i: "i < length (sv_calls s)" "0 < call_weight (rc_pc (sv_calls s ! i))"
    using assms by (auto simp: live_set_def weight_over)
  let ?s = "case r of None \<Rightarrow> s | Some e \<Rightarrow> record_svc_failure e s"
  have s: "sv_calls ?s = sv_calls s" "calls_weight ?s = calls_weight s" by (cases r; simp add: c)+
  have "calls_weight (after_end r i s) + call_weight (rc_pc (sv_calls s ! i)) = calls_weight s"
    using calls_weight_set [of i ?s "CallEnded (map_option call_raises r)"] i(1) by (simp add: after_end_def s)
  with i(2) show ?thesis by simp
qed

lemma end_call_measure:
  assumes inv: "svc_inv s" and i: "i \<in> live_set s"
  shows "svc_measure (end_call i r a s) < svc_measure s"
proof (cases "rc_origin (sv_calls s ! i) = ByStart")
  case True
  with i have "i \<in> starts s" by (simp add: starts_def)
  with inv have start: "sv_start s = StartReconciling" by (auto simp: svc_inv_def)
  let ?s = "start_goes_on (map_option call_raises r) a (after_end r i s)"
  have "start_weight (sv_start ?s) \<le> 1"
    by (simp add: start_goes_on_def roll_back_def split: option.splits)
  moreover have "calls_weight ?s = calls_weight (after_end r i s)"
    by (simp add: calls_weight_def)
  ultimately have "svc_measure ?s < svc_measure s"
    unfolding svc_measure_def start using after_end_weight [OF i, of r] by simp
  with True show ?thesis by (simp add: end_call_eq)
next
  case False
  then show ?thesis using after_end_weight [OF i, of r] by (simp add: end_call_eq svc_measure_def)
qed

lemma step_measure:
  assumes inv: "svc_inv s" and en: "svc_enabled s e" and int: "own_step e"
  shows "svc_measure (svc_perform s e) < svc_measure s"
proof -
  have gather: "svc_measure (gather_calls live fs s1) \<le> start_weight (sv_start s1) + 2 + calls_weight s1" for live fs and s1 :: "'a service"
    by (simp add: gather_calls_def shut_manager_def svc_measure_def calls_weight_def)
  show ?thesis
  proof (cases e)
    case (StartBegins added)
    with en have s: "sv_start s = StartScheduled" by simp
    with inv have "live_set s = {}" by (simp add: svc_inv_def start_inv_def)
    then have nl: "\<not> reconcile_locked (s\<lparr>sv_accepting := True, sv_start := StartReconciling\<rparr>)"
      by (simp add: locked_live live_set_def)
    then have "svc_start_begins added s = reconcile_call ByStart (s\<lparr>sv_accepting := True, sv_start := StartReconciling\<rparr>)"
      by (simp add: svc_start_begins_def Let_def reconcile_call_def call_over_def)
    then show ?thesis using StartBegins s nl by (simp add: svc_measure_def calls_weight_def reconcile_call_def)
  next
    case (Listed i answer added)
    with en have i: "i \<in> live_set s" "rc_pc (sv_calls s ! i) = Listing" by (auto simp: call_at_def live_set_def call_over_def)
    have "calls_weight ((set_call i Reconciling s)\<lparr>sv_given := g\<rparr>) < calls_weight s" for g
      using calls_weight_set [of i s Reconciling] i by (simp add: live_set_def) (simp add: calls_weight_def)
    then show ?thesis
      using Listed end_call_measure [OF inv i(1)] by (auto simp: listed_def svc_measure_def split: sum.splits)
  next
    case (ManagerReconciled i raised added)
    with en have "i \<in> live_set s" by (auto simp: call_at_def live_set_def call_over_def)
    with end_call_measure [OF inv] ManagerReconciled show ?thesis by simp
  next
    case (CallCancelled i)
    with en have "i \<in> live_set s" by (auto simp: live_set_def)
    with end_call_measure [OF inv] CallCancelled show ?thesis by simp
  next
    case RolledBack
    with en obtain x where x: "sv_start s = RollingBack x" by (auto split: start_pc.splits)
    with RolledBack show ?thesis by (cases x) (simp_all add: rolled_back_def svc_measure_def calls_weight_def)
  next
    case StartSettled
    with en gather [of "live_calls s" "[]" s] show ?thesis
      by (auto simp: start_settled_def svc_measure_def calls_weight_def)
  next
    case (JobRemoved failed)
    with en obtain live where live: "sv_stop s = RemovingJob live" by (auto split: stop_pc.splits)
    let ?s = "s\<lparr>sv_registered := False, sv_job := (sv_job s \<and> failed \<noteq> None)\<rparr>"
    have "calls_weight ?s = calls_weight s" by (simp add: calls_weight_def)
    with gather [of live _ ?s] have "svc_measure (job_removed live failed s) \<le> start_weight (sv_start s) + 2 + calls_weight s"
      unfolding job_removed_def by (metis (no_types, lifting) service.select_convs(5) service.surjective service.update_convs(3) service.update_convs(9))
    with JobRemoved live show ?thesis by (simp add: svc_measure_def)
  qed (use en int in \<open>auto simp: svc_stop_begins_def calls_gathered_def shut_manager_def manager_down_def Let_def svc_measure_def
      calls_weight_def split: stop_pc.splits\<close>)
qed

lemma live_progress:
  assumes "i \<in> live_set s"
  shows "\<exists>e. own_step e \<and> svc_enabled s e"
proof (cases "rc_pc (sv_calls s ! i)")
  case Listing
  with assms have "svc_enabled s (Listed i (Inr []) None)" by (simp add: call_at_def live_set_def)
  then show ?thesis by (intro exI [of _ "Listed i (Inr []) None"]) simp
next
  case Reconciling
  with assms have "svc_enabled s (ManagerReconciled i None None)" by (simp add: call_at_def live_set_def)
  then show ?thesis by (intro exI [of _ "ManagerReconciled i None None"]) simp
next
  case (CallEnded r)
  with assms show ?thesis by (simp add: live_set_def call_over_def)
qed

lemma stop_progress:
  assumes inv: "svc_inv s" and "sv_stop s \<noteq> NotStopping" and "\<forall>r. sv_stop s \<noteq> StopEnded r"
  shows "\<exists>e. own_step e \<and> svc_enabled s e"
proof -
  have one: ?thesis if "own_step e" "svc_enabled s e" for e using that by blast
  show ?thesis
  proof (cases "sv_stop s")
    case StopScheduled
    then show ?thesis using one [of "StartBegins None"] one [of StopBegins] by (cases "sv_start s = StartScheduled") simp_all
  next
    case AwaitingStart
    show ?thesis
    proof (cases "sv_start s")
      case StartScheduled
      then show ?thesis using one [of "StartBegins None"] by simp
    next
      case StartReconciling
      then obtain i where "i \<in> live_set s" using inv by (auto simp: svc_inv_def start_inv_def starts_def)
      then show ?thesis by (rule live_progress)
    next
      case (RollingBack e)
      then show ?thesis using one [of RolledBack] by simp
    qed (use AwaitingStart one [of StartSettled] in simp_all)
  next
    case (RemovingJob live)
    then show ?thesis using one [of "JobRemoved None"] by simp
  next
    case (GatheringCalls live fs)
    show ?thesis
    proof (cases "live_set s = {}")
      case True
      have "set live \<subseteq> {..<length (sv_calls s)}" using inv GatheringCalls by (simp add: svc_inv_def stop_inv_def)
      with True have "list_all (\<lambda>i. call_over (sv_calls s ! i)) live" by (auto simp: list_all_iff live_set_def)
      then show ?thesis using one [of "CallsGathered []"] GatheringCalls by simp
    qed (use live_progress in blast)
  next
    case (ShuttingManager fs)
    then show ?thesis using one [of "ManagerDown None"] by simp
  qed (use assms in auto)
qed

lemma step_stop_kept: "svc_inv s \<Longrightarrow> sv_stop s \<noteq> NotStopping \<Longrightarrow> svc_enabled s e \<Longrightarrow> sv_stop (svc_perform s e) \<noteq> NotStopping"
proof (cases "sv_stop s = StopScheduled")
  case True
  assume "svc_enabled s e"
  with True show ?thesis
    by (cases e) (auto simp: svc_start_def svc_stop_def reconcile_call_def end_call_given listed_def svc_start_begins_def Let_def
      rolled_back_def svc_stop_begins_def split: sum.splits start_pc.splits svc_exn.splits)
next
  case False
  assume "svc_inv s" "sv_stop s \<noteq> NotStopping" "svc_enabled s e"
  with False gate_step [of s e] show ?thesis by (simp add: gate_closed_def)
qed

text \<open>
  C26. A stop terminates: however the tasks are scheduled and whatever the outside answers, after the
  stop was called the tasks make at most nine steps of their own, and when none of them can make
  another step, the stop has returned.
\<close>

theorem service_stop_terminates:
  assumes "service_init h n = Inr s0" and "svc_reachable s0 s" and "sv_stop s \<noteq> NotStopping"
    and "svc_run s es = Some s'" and "list_all own_step es"
  shows "length es \<le> 9 \<and> ((\<forall>e. svc_enabled s' e \<longrightarrow> \<not> own_step e) \<longrightarrow> (\<exists>r. sv_stop s' = StopEnded r))"
proof -
  have run: "svc_inv s' \<and> sv_stop s' \<noteq> NotStopping \<and> length es + svc_measure s' \<le> svc_measure s"
    if "svc_inv s" "sv_stop s \<noteq> NotStopping" "svc_run s es = Some s'" "list_all own_step es" for s es
    using that
  proof (induction es arbitrary: s)
    case (Cons e es)
    then have en: "svc_enabled s e" and r: "svc_run (svc_perform s e) es = Some s'" and i: "own_step e" "list_all own_step es"
      by (auto split: if_splits)
    note next1 = svc_inv_step [OF Cons.prems(1) en] step_stop_kept [OF Cons.prems(1,2) en]
    from Cons.IH [OF next1 r i(2)] step_measure [OF Cons.prems(1) en i(1)] show ?case by simp
  qed simp
  note inv = svc_inv_reachable [OF assms(1,2)]
  from run [OF inv assms(3-5)] measure_bound [OF inv assms(3)]
  have "length es \<le> 9" "svc_inv s'" "sv_stop s' \<noteq> NotStopping" by auto
  with stop_progress [of s'] show ?thesis by blast
qed

subsection \<open>A run\<close>

definition demo_service :: "unit service" where
  "demo_service = \<lparr>sv_has_scheduler = True, sv_accepting = False, sv_registered = False, sv_started = False,
     sv_start = NotStarted, sv_stop = NotStopping, sv_calls = [], sv_failure = None, sv_job = False,
     sv_given = [], sv_shutdowns = 0, sv_down = False\<rparr>"

lemma demo_service_init: "service_init True (Finite 30) = Inr demo_service"
  by (simp add: service_init_def demo_service_def)

definition running_service :: "unit service" where
  "running_service = the (svc_run demo_service [CallStart, StartBegins None, Listed 0 (Inr [()]) None,
     ManagerReconciled 0 None None])"

lemmas service_eval = svc_start_def svc_start_begins_def reconcile_call_def reconcile_locked_def call_over_def Let_def
  listed_def set_call_def end_call_def start_goes_on_def call_at_def svc_stop_def svc_stop_begins_def start_settled_def
  live_calls_def gather_calls_def job_removed_def calls_gathered_def shut_manager_def manager_down_def

lemma running_run:
  "svc_run demo_service [CallStart, StartBegins None, Listed 0 (Inr [()]) None, ManagerReconciled 0 None None]
   = Some running_service"
  by (simp add: running_service_def demo_service_def service_eval)

lemma running_service_eq:
  "running_service = demo_service\<lparr>sv_accepting := True, sv_registered := True, sv_started := True,
     sv_start := StartEnded None, sv_calls := [\<lparr>rc_origin = ByStart, rc_pc = CallEnded None\<rparr>], sv_job := True,
     sv_given := [[()]]\<rparr>"
  using running_run by (simp add: demo_service_def service_eval)

lemma running_reachable: "svc_reachable demo_service running_service"
  by (rule svc_run_reachable [OF svc_init running_run])

abbreviation "stopping_tail \<equiv>
  [StopBegins, StartSettled, CallCancelled 1, JobRemoved None, CallsGathered [], ManagerDown None]"

definition stopping_service :: "unit service" where
  "stopping_service = the (svc_run running_service [CallReconcile ByScheduler, CallStop])"

lemma stopping_run: "svc_run running_service [CallReconcile ByScheduler, CallStop] = Some stopping_service"
  by (simp add: stopping_service_def running_service_eq demo_service_def service_eval)

lemma stopping_service_eq:
  "stopping_service = running_service\<lparr>sv_calls := [\<lparr>rc_origin = ByStart, rc_pc = CallEnded None\<rparr>,
     \<lparr>rc_origin = ByScheduler, rc_pc = Listing\<rparr>], sv_stop := StopScheduled\<rparr>"
  using stopping_run by (simp add: running_service_eq demo_service_def service_eval)

lemma stopping_reachable: "svc_reachable demo_service stopping_service"
  by (rule svc_run_reachable [OF running_reachable stopping_run])

definition stopped_service :: "unit service" where
  "stopped_service = the (svc_run stopping_service stopping_tail)"

lemma stopped_run: "svc_run stopping_service stopping_tail = Some stopped_service"
  by (simp add: stopped_service_def stopping_service_eq running_service_eq demo_service_def service_eval)

lemma stopped_stop: "sv_stop stopped_service = StopEnded None"
  by (simp add: stopped_service_def stopping_service_eq running_service_eq demo_service_def service_eval)

lemma stopped_reachable: "svc_reachable demo_service stopped_service"
  by (rule svc_run_reachable [OF stopping_reachable stopped_run])

lemma service_reconcile_exclusive_witness: "card (live_set stopping_service) \<le> 1"
  using service_reconcile_exclusive [OF demo_service_init stopping_reachable] by blast

lemma service_stop_gate_witness:
  "\<exists>s. svc_run (svc_stop_begins stopping_service) [StartSettled, CallReconcile ByCaller] = Some s \<and> sv_given s = [[()]]"
proof -
  have r: "svc_reachable demo_service (svc_stop_begins stopping_service)"
    by (rule svc_run_reachable [OF stopping_reachable, of "[StopBegins]"])
       (simp add: stopping_service_eq running_service_eq demo_service_def)
  obtain s where s: "svc_run (svc_stop_begins stopping_service) [StartSettled, CallReconcile ByCaller] = Some s"
    by (simp add: stopping_service_eq running_service_eq demo_service_def service_eval)
  have "gate_closed (svc_stop_begins stopping_service)" by (simp add: gate_closed_def svc_stop_begins_def)
  from service_stop_gate [OF demo_service_init r this s] s show ?thesis
    by (simp add: svc_stop_begins_def stopping_service_eq running_service_eq)
qed

lemma service_stop_complete_witness: "live_set stopped_service = {} \<and> sv_down stopped_service \<and> \<not> sv_job stopped_service"
  using service_stop_complete [OF demo_service_init stopped_reachable stopped_stop, of "[]"] by simp

lemma service_status_honest_witness:
  "vs_running (runtime_status running_service) \<and> sv_job running_service = sv_has_scheduler running_service"
  using service_status_honest [OF demo_service_init running_reachable]
  by (simp add: runtime_status_def running_service_eq demo_service_def)

lemma service_stop_terminates_witness: "length (stopping_tail :: unit svc_step list) \<le> 9"
  using service_stop_terminates [OF demo_service_init stopping_reachable _ stopped_run] by (simp add: stopping_service_eq)

end
