(* ===== verification/Camera_Worker.thy ===== *)
theory Camera_Worker
  imports Orch_Models Frame_Buffer
begin

section \<open>The worker of one camera\<close>

text \<open>
  Model of \<open>CameraWorker\<close> in \<open>app/orchestration/worker.py\<close>. The worker is four asyncio tasks over
  one object: the supervisor \<open>_run\<close>, the capture loop, the analytics loop and the dispatcher of
  events. Between two \<open>await\<close>s a task runs alone, so each such stretch is one step; where a task
  waits is its program counter. The outside world (factories, \<open>capture.read\<close>,
  \<open>pipeline.process_if_due\<close>, \<open>event_sink.emit\<close>, the two \<open>close\<close> calls, the clock) enters as the
  arguments of the steps. \<open>start\<close> and \<open>stop\<close> are the steps up to their \<open>await asyncio.shield\<close>.
  The tasks are never cancelled from outside (every waiter shields them), so cancellation is not
  modelled. \<open>w_accepted\<close> and the two counters of \<open>close\<close> calls only record what happened.
\<close>

subsection \<open>State\<close>

datatype worker_exn = Public orch_error | Raw string | InvalidTransition orch_error

datatype queue_item = Routed routed_event | StopMark

datatype sup_pc =
    NoTask
  | CreatingCapture
  | CreatingPipeline
  | WaitingTasks
  | Gathering
  | ClosingPipeline
  | Joining
  | AwaitingEvents
  | SupDone
  | SupCrashed orch_error

datatype cap_pc = CapNone | CapScheduled | CapReading | CapDelaying | CapFinished "worker_exn option"

datatype an_pc = AnNone | AnScheduled | AnWaiting | AnProcessing | AnFinished "worker_exn option"

datatype ev_pc = EvNone | EvGetting | EvEmitting routed_event | EvDone

datatype started = NotCreated | PendingStart | ResolvedStart | RejectedStart orch_error

record 'f worker =
  w_camera_id :: string
  w_queue_size :: nat
  w_generation :: int
  w_buffer :: "'f frame_buffer"
  w_history_size :: nat
  w_transitions :: "state_transition list"
  w_transition_count :: int
  w_state :: worker_state
  w_metrics :: camera_metrics
  w_updated_at :: time
  w_failure :: "orchestration_failure option"
  w_shutdown_failures :: "orchestration_failure list"
  w_stop :: bool
  w_accepting :: bool
  w_callbacks :: int
  w_queue :: "queue_item list"
  w_capture :: bool
  w_pipeline :: bool
  w_capture_closed :: bool
  w_pipeline_closed :: bool
  w_started :: started
  w_sup :: sup_pc
  w_terminal :: "orch_error option"
  w_cap :: cap_pc
  w_reconnecting :: bool
  w_an :: an_pc
  w_sequence :: "nat option"
  w_ev :: ev_pc
  w_accepted :: nat
  w_capture_closes :: nat
  w_pipeline_closes :: nat
  w_refused :: bool \<comment> \<open>a lifecycle transition was refused\<close>

definition worker_init ::
  "string \<Rightarrow> 'f frame_buffer \<Rightarrow> nat \<Rightarrow> int \<Rightarrow> int \<Rightarrow> time \<Rightarrow> py_error + 'f worker" where
  "worker_init camera_id buffer queue_size generation history_size now =
     (if generation < 1 then Inl (ValueError ''generation must be positive'')
      else if history_size < 1 then Inl (ValueError ''transition_history_size must be positive'')
      else Inr \<lparr>w_camera_id = camera_id, w_queue_size = queue_size, w_generation = generation, w_buffer = buffer,
        w_history_size = nat history_size, w_transitions = [], w_transition_count = 0, w_state = STOPPED,
        w_metrics = no_metrics, w_updated_at = now, w_failure = None, w_shutdown_failures = [], w_stop = False,
        w_accepting = False, w_callbacks = 0, w_queue = [], w_capture = False, w_pipeline = False,
        w_capture_closed = False, w_pipeline_closed = False, w_started = NotCreated, w_sup = NoTask,
        w_terminal = None, w_cap = CapNone, w_reconnecting = False, w_an = AnNone, w_sequence = None,
        w_ev = EvNone, w_accepted = 0, w_capture_closes = 0, w_pipeline_closes = 0, w_refused = False\<rparr>)"

definition worker_status :: "'f worker \<Rightarrow> camera_status" where
  "worker_status w = (let m = w_metrics w in \<lparr>cs_camera_id = w_camera_id w, cs_generation = w_generation w,
     cs_state = w_state w,
     cs_health = (if w_state w = FAILED then HFAILED
        else if w_failure w \<noteq> None \<or> m_sink_failures m \<noteq> 0 then DEGRADED else OK),
     cs_is_running = running_state (w_state w), cs_updated_at = w_updated_at w, cs_last_frame_at = m_last_frame m,
     cs_last_event_at = m_last_event m, cs_last_processed_at = m_last_processed m,
     cs_failure_category = map_option of_category (w_failure w), cs_error_summary = map_option of_summary (w_failure w),
     cs_reconnect_count = m_reconnect_count m, cs_fps = m_fps m, cs_buffer_size = int (fb_len (w_buffer w)),
     cs_buffer_capacity = int (fb_maxsize (w_buffer w)), cs_queue_size = int (length (w_queue w)),
     cs_queue_capacity = int (w_queue_size w), cs_backlog = w_callbacks w, cs_dropped = m_events_dropped m,
     cs_frames_captured = m_frames_captured m, cs_frames_processed = m_frames_processed m,
     cs_capture_failures = m_capture_failures m, cs_events_emitted = m_events_emitted m,
     cs_sink_failures = m_sink_failures m, cs_worker_failures = m_worker_failures m,
     cs_transition_count = w_transition_count w\<rparr>)"

subsection \<open>Helpers of the steps\<close>

definition public_error :: "'f worker \<Rightarrow> failure_category \<Rightarrow> worker_exn \<Rightarrow> orch_error" where
  "public_error w cat e = (case e of Public p \<Rightarrow> p | InvalidTransition p \<Rightarrow> p
     | Raw m \<Rightarrow> orch_err cat (Some (w_camera_id w)) (sanitize m))"

definition transition :: "worker_state \<Rightarrow> string option \<Rightarrow> time \<Rightarrow> 'f worker \<Rightarrow> orch_error + 'f worker" where
  "transition target reason now w =
     (if target = w_state w then Inr w
      else if target \<notin> valid_transitions (w_state w)
      then Inl (orch_err INTERNAL (Some (w_camera_id w))
             (''invalid lifecycle transition '' @ state_name (w_state w) @ '' -> '' @ state_name target))
      else Inr (w\<lparr>w_state := target, w_updated_at := now, w_transition_count := w_transition_count w + 1,
             w_transitions := deque_append (w_history_size w) (w_transitions w)
               \<lparr>st_previous = w_state w, st_current = target, st_timestamp = now,
                st_reason = map_option sanitize reason\<rparr>\<rparr>))"

definition resolve_started :: "'f worker \<Rightarrow> 'f worker" where
  "resolve_started w = (if w_started w = PendingStart then w\<lparr>w_started := ResolvedStart\<rparr> else w)"

definition reject_started :: "orch_error \<Rightarrow> 'f worker \<Rightarrow> 'f worker" where
  "reject_started e w = (if w_started w = PendingStart then w\<lparr>w_started := RejectedStart e\<rparr> else w)"

definition record_failure :: "orch_error \<Rightarrow> 'f worker \<Rightarrow> 'f worker" where
  "record_failure e w = w\<lparr>w_failure := Some (oe_failure e),
     w_metrics := (w_metrics w)\<lparr>m_worker_failures := m_worker_failures (w_metrics w) + 1\<rparr>\<rparr>"

text \<open>\<open>err\<close> is the message of the exception \<open>capture.close()\<close> raises, if it does.\<close>

definition close_capture_once :: "string option \<Rightarrow> 'f worker \<Rightarrow> 'f worker" where
  "close_capture_once err w =
     (if w_capture_closed w \<or> \<not> w_capture w then w
      else let w1 = w\<lparr>w_capture_closed := True, w_capture_closes := w_capture_closes w + 1\<rparr> in
        (case err of None \<Rightarrow> w1
         | Some m \<Rightarrow> let f = oe_failure (public_error w SHUTDOWN (Raw m))
                     in w1\<lparr>w_shutdown_failures := w_shutdown_failures w @ [f], w_failure := Some f\<rparr>))"

definition or_error :: "orch_error option \<Rightarrow> orch_error option \<Rightarrow> orch_error option" where
  "or_error a b = (case a of None \<Rightarrow> b | Some _ \<Rightarrow> a)"

subsection \<open>\<open>start\<close> and \<open>stop\<close>\<close>

definition w_start :: "time \<Rightarrow> 'f worker \<Rightarrow> 'f worker" where
  "w_start now w =
     (if w_sup w \<noteq> NoTask then w
      else (case transition STARTING None now (w\<lparr>w_started := PendingStart\<rparr>) of
              Inl e \<Rightarrow> w\<lparr>w_started := PendingStart, w_refused := True\<rparr>
            | Inr w' \<Rightarrow> w'\<lparr>w_sup := CreatingCapture\<rparr>))"

definition sup_over :: "sup_pc \<Rightarrow> bool" where
  "sup_over pc \<longleftrightarrow> (case pc of SupDone \<Rightarrow> True | SupCrashed _ \<Rightarrow> True | _ \<Rightarrow> False)"

definition w_stop_call :: "time \<Rightarrow> string option \<Rightarrow> 'f worker \<Rightarrow> 'f worker" where
  "w_stop_call now close_err w =
     (if w_sup w = NoTask then w
      else let moved = (if \<not> sup_over (w_sup w) \<and> w_state w \<in> {STARTING, RUNNING, RECONNECTING}
                        then transition STOPPING None now w else Inr w)
           in (case moved of Inl e \<Rightarrow> w\<lparr>w_refused := True\<rparr>
               | Inr w1 \<Rightarrow> close_capture_once close_err (w1\<lparr>w_accepting := False, w_stop := True\<rparr>)))"

subsection \<open>The supervisor\<close>

text \<open>The end of \<open>finally\<close>: clear the buffer and publish the terminal state.\<close>

definition sup_finish :: "time \<Rightarrow> 'f worker \<Rightarrow> 'f worker" where
  "sup_finish now w =
     (let w1 = w\<lparr>w_buffer := fb_clear (w_buffer w)\<rparr> in
      case w_terminal w of
        Some e \<Rightarrow>
          let w2 = record_failure e w1;
              moved = (if w_state w2 \<noteq> FAILED then transition FAILED (Some (oe_message e)) now w2 else Inr w2)
          in (case moved of Inl x \<Rightarrow> w2\<lparr>w_sup := SupCrashed x, w_refused := True\<rparr>
              | Inr w3 \<Rightarrow> (reject_started e w3)\<lparr>w_sup := SupDone\<rparr>)
      | None \<Rightarrow>
          let moved = (if w_state w1 \<noteq> STOPPING then transition STOPPING None now w1 else Inr w1)
          in (case bindE moved (transition STOPPED None now) of
                Inl x \<Rightarrow> w1\<lparr>w_sup := SupCrashed x, w_refused := True\<rparr>
              | Inr w3 \<Rightarrow> (resolve_started w3)\<lparr>w_sup := SupDone\<rparr>))"

text \<open>\<open>_settle_event_task\<close>: nothing to wait for, or wait for the queue to drain.\<close>

definition sup_settle :: "time \<Rightarrow> 'f worker \<Rightarrow> 'f worker" where
  "sup_settle now w =
     (case w_ev w of
        EvNone \<Rightarrow> sup_finish now w
      | EvDone \<Rightarrow> sup_finish now (w\<lparr>w_queue := []\<rparr>)
      | _ \<Rightarrow> w\<lparr>w_sup := Joining\<rparr>)"

text \<open>\<open>_close_pipeline_once\<close> up to its \<open>await\<close>.\<close>

definition sup_close_pipeline :: "time \<Rightarrow> 'f worker \<Rightarrow> 'f worker" where
  "sup_close_pipeline now w =
     (if w_pipeline_closed w \<or> \<not> w_pipeline w then sup_settle now w
      else w\<lparr>w_pipeline_closed := True, w_pipeline_closes := w_pipeline_closes w + 1, w_sup := ClosingPipeline\<rparr>)"

text \<open>The start of \<open>finally\<close>, with the error that led there.\<close>

definition sup_finally :: "time \<Rightarrow> string option \<Rightarrow> orch_error option \<Rightarrow> 'f worker \<Rightarrow> 'f worker" where
  "sup_finally now close_err terminal w =
     (let w1 = close_capture_once close_err (w\<lparr>w_accepting := False, w_stop := True, w_terminal := terminal\<rparr>) in
      if w_cap w \<noteq> CapNone \<or> w_an w \<noteq> AnNone then w1\<lparr>w_sup := Gathering\<rparr>
      else sup_close_pipeline now w1)"

definition sup_capture_created :: "time \<Rightarrow> string option \<Rightarrow> worker_exn option \<Rightarrow> 'f worker \<Rightarrow> 'f worker" where
  "sup_capture_created now close_err failed w =
     (case failed of
        Some e \<Rightarrow> sup_finally now close_err (Some (public_error w CAPTURE e)) w
      | None \<Rightarrow>
          let w1 = w\<lparr>w_capture := True\<rparr> in
          if w_stop w then sup_finally now close_err None w1 else w1\<lparr>w_sup := CreatingPipeline\<rparr>)"

definition sup_pipeline_created :: "time \<Rightarrow> string option \<Rightarrow> worker_exn option \<Rightarrow> 'f worker \<Rightarrow> 'f worker" where
  "sup_pipeline_created now close_err failed w =
     (case failed of
        Some e \<Rightarrow> sup_finally now close_err (Some (public_error w MODEL e)) w
      | None \<Rightarrow>
          let w1 = w\<lparr>w_pipeline := True\<rparr> in
          if w_stop w then sup_finally now close_err None w1
          else let w2 = w1\<lparr>w_accepting := True, w_ev := EvGetting, w_cap := CapScheduled, w_an := AnScheduled\<rparr> in
            (case transition RUNNING None now w2 of
               Inl e \<Rightarrow> sup_finally now close_err (Some e) (w2\<lparr>w_refused := True\<rparr>)
             | Inr w3 \<Rightarrow> (resolve_started w3)\<lparr>w_sup := WaitingTasks\<rparr>))"

definition cap_result :: "'f worker \<Rightarrow> worker_exn option option" where
  "cap_result w = (case w_cap w of CapFinished r \<Rightarrow> Some r | _ \<Rightarrow> None)"

definition an_result :: "'f worker \<Rightarrow> worker_exn option option" where
  "an_result w = (case w_an w of AnFinished r \<Rightarrow> Some r | _ \<Rightarrow> None)"

text \<open>
  The errors of the tasks in the set \<open>done\<close>. The set is traversed in an order Python does not
  fix; \<open>capture_first\<close> is that order.
\<close>

definition done_error :: "bool \<Rightarrow> 'f worker \<Rightarrow> orch_error option" where
  "done_error capture_first w =
     (let c = (case cap_result w of Some (Some e) \<Rightarrow> Some (public_error w CAPTURE e) | _ \<Rightarrow> None);
          a = (case an_result w of Some (Some e) \<Rightarrow> Some (public_error w PIPELINE e) | _ \<Rightarrow> None)
      in if capture_first then or_error c a else or_error a c)"

definition sup_tasks_done :: "time \<Rightarrow> string option \<Rightarrow> bool \<Rightarrow> 'f worker \<Rightarrow> 'f worker" where
  "sup_tasks_done now close_err capture_first w =
     (let terminal = (case done_error capture_first w of
            Some e \<Rightarrow> Some e
          | None \<Rightarrow> if w_stop w then None
                     else Some (orch_err INTERNAL (Some (w_camera_id w)) ''owned worker task exited unexpectedly''))
      in sup_finally now close_err terminal w)"

definition sup_gathered :: "time \<Rightarrow> 'f worker \<Rightarrow> 'f worker" where
  "sup_gathered now w =
     (let c = (case cap_result w of Some (Some e) \<Rightarrow> Some (public_error w INTERNAL e) | _ \<Rightarrow> None);
          a = (case an_result w of Some (Some e) \<Rightarrow> Some (public_error w INTERNAL e) | _ \<Rightarrow> None)
      in sup_close_pipeline now (w\<lparr>w_terminal := or_error (or_error (w_terminal w) c) a\<rparr>))"

text \<open>The end of \<open>pipeline.aclose\<close>; the flag tells a \<open>CallbackExecutionError\<close>.\<close>

definition sup_pipeline_closed :: "time \<Rightarrow> (bool \<times> string) option \<Rightarrow> 'f worker \<Rightarrow> 'f worker" where
  "sup_pipeline_closed now failed w =
     (case failed of
        None \<Rightarrow> sup_settle now w
      | Some (callback, m) \<Rightarrow>
          let p = public_error w (if callback then CALLBACK else SHUTDOWN) (Raw m)
          in sup_settle now (w\<lparr>w_shutdown_failures := w_shutdown_failures w @ [oe_failure p],
               w_terminal := or_error (w_terminal w) (Some p)\<rparr>))"

subsection \<open>The capture loop\<close>

definition cap_loop :: "'f worker \<Rightarrow> 'f worker" where
  "cap_loop w = w\<lparr>w_cap := if w_stop w then CapFinished None else CapReading\<rparr>"

definition upd_metrics :: "(camera_metrics \<Rightarrow> camera_metrics) \<Rightarrow> 'f worker \<Rightarrow> 'f worker" where
  "upd_metrics f w = w\<lparr>w_metrics := f (w_metrics w)\<rparr>"

text \<open>\<open>read\<close> returned; the frame is its value and whether it is a non-empty array.\<close>

definition cap_read :: "time \<Rightarrow> worker_exn + ('f \<times> bool) option \<Rightarrow> 'f worker \<Rightarrow> 'f worker" where
  "cap_read now outcome w =
     (case outcome of
        Inl e \<Rightarrow> w\<lparr>w_cap := CapFinished (Some e)\<rparr>
      | Inr frame \<Rightarrow>
          if w_stop w then w\<lparr>w_cap := CapFinished None\<rparr>
          else (case frame of
            Some (f, nonempty) \<Rightarrow>
              (case fb_put nonempty f (w_buffer w) of
                 Inl e \<Rightarrow> w\<lparr>w_cap := CapFinished (Some (Raw ''frame must be a non-empty numpy array''))\<rparr>
               | Inr (n, buffer) \<Rightarrow>
                   let w1 = upd_metrics (\<lambda>m. m\<lparr>m_frames_captured := m_frames_captured m + 1, m_last_frame := Some now\<rparr>)
                              (w\<lparr>w_buffer := buffer\<rparr>)
                   in if w_reconnecting w
                      then (case transition RUNNING (Some ''capture reconnected'') now (w1\<lparr>w_reconnecting := False\<rparr>) of
                              Inl e \<Rightarrow> w1\<lparr>w_reconnecting := False, w_cap := CapFinished (Some (InvalidTransition e)), w_refused := True\<rparr>
                            | Inr w2 \<Rightarrow> cap_loop w2)
                      else cap_loop w1)
          | None \<Rightarrow>
              let w1 = upd_metrics (\<lambda>m. m\<lparr>m_capture_failures := m_capture_failures m + 1\<rparr>) w in
              if w_reconnecting w then w1\<lparr>w_cap := CapDelaying\<rparr>
              else let w2 = upd_metrics (\<lambda>m. m\<lparr>m_reconnect_count := m_reconnect_count m + 1\<rparr>) (w1\<lparr>w_reconnecting := True\<rparr>)
                   in (case transition RECONNECTING (Some ''capture unavailable'') now w2 of
                         Inl e \<Rightarrow> w2\<lparr>w_cap := CapFinished (Some (InvalidTransition e)), w_refused := True\<rparr>
                       | Inr w3 \<Rightarrow> w3\<lparr>w_cap := CapDelaying\<rparr>)))"

subsection \<open>The analytics loop\<close>

definition an_loop :: "'f worker \<Rightarrow> 'f worker" where
  "an_loop w = w\<lparr>w_an := if w_stop w then AnFinished None else AnWaiting\<rparr>"

definition an_frame :: "(nat \<times> 'f) option \<Rightarrow> 'f worker \<Rightarrow> 'f worker" where
  "an_frame latest w =
     (case latest of
        None \<Rightarrow> an_loop w
      | Some (q, f) \<Rightarrow> if w_stop w then an_loop w else w\<lparr>w_sequence := Some q, w_an := AnProcessing\<rparr>)"

text \<open>\<open>process_if_due\<close> returned: an exception, no result, or a result after \<open>elapsed\<close> seconds of analytics.\<close>

definition an_processed :: "time \<Rightarrow> worker_exn + real option \<Rightarrow> 'f worker \<Rightarrow> 'f worker" where
  "an_processed now outcome w =
     (case outcome of
        Inl e \<Rightarrow> w\<lparr>w_an := AnFinished (Some e)\<rparr>
      | Inr None \<Rightarrow> an_loop w
      | Inr (Some elapsed) \<Rightarrow>
          an_loop (upd_metrics (\<lambda>m. m\<lparr>m_frames_processed := m_frames_processed m + 1,
             m_fps := real_of_int (m_frames_processed m + 1) / max elapsed (1 / 1000000000),
             m_last_processed := Some now\<rparr>) w))"

subsection \<open>Events\<close>

definition drop_event :: "'f worker \<Rightarrow> 'f worker" where
  "drop_event = upd_metrics (\<lambda>m. m\<lparr>m_events_dropped := m_events_dropped m + 1\<rparr>)"

text \<open>An \<open>asyncio.Queue\<close> of size 0 would be unbounded.\<close>

definition queue_event :: "time \<Rightarrow> callback_event \<Rightarrow> 'f worker \<Rightarrow> 'f worker \<times> orch_error option" where
  "queue_event now e w =
     (if \<not> w_accepting w \<or> w_stop w then (drop_event w, None)
      else (case event_from_callback (w_camera_id w) (w_generation w) e now of
              Inl err \<Rightarrow> (record_failure err w, Some err)
            | Inr routed \<Rightarrow>
                if 0 < w_queue_size w \<and> w_queue_size w \<le> length (w_queue w) then (drop_event w, None)
                else (upd_metrics (\<lambda>m. m\<lparr>m_last_event := Some (re_timestamp routed)\<rparr>)
                        (w\<lparr>w_queue := w_queue w @ [Routed routed], w_accepted := w_accepted w + 1\<rparr>), None)))"

definition ev_get :: "'f worker \<Rightarrow> 'f worker" where
  "ev_get w =
     (case w_queue w of
        [] \<Rightarrow> w
      | StopMark # q \<Rightarrow> w\<lparr>w_queue := q, w_ev := EvDone\<rparr>
      | Routed r # q \<Rightarrow> w\<lparr>w_queue := q, w_ev := EvEmitting r\<rparr>)"

definition ev_emitted :: "worker_exn option \<Rightarrow> 'f worker \<Rightarrow> 'f worker" where
  "ev_emitted failed w =
     (let w1 = w\<lparr>w_ev := EvGetting\<rparr> in
      case failed of
        None \<Rightarrow> upd_metrics (\<lambda>m. m\<lparr>m_events_emitted := m_events_emitted m + 1\<rparr>) w1
      | Some e \<Rightarrow> upd_metrics (\<lambda>m. m\<lparr>m_sink_failures := m_sink_failures m + 1\<rparr>)
          (w1\<lparr>w_failure := Some (oe_failure (public_error w SINK e))\<rparr>))"

subsection \<open>The step relation\<close>

datatype 'f wstep =
    Start time
  | Stop time "string option"
  | CaptureCreated time "string option" "worker_exn option"
  | PipelineCreated time "string option" "worker_exn option"
  | TasksDone time "string option" bool
  | Gathered time
  | PipelineClosed time "(bool \<times> string) option"
  | QueueJoined
  | EventsDone time
  | CaptureScheduled
  | CaptureRead time "worker_exn + ('f \<times> bool) option"
  | DelayOver
  | AnalyticsScheduled
  | FrameReady "(nat \<times> 'f) option"
  | Processed time "worker_exn + real option"
  | Callback time callback_event
  | EventTaken
  | EventEmitted "worker_exn option"

text \<open>An exception from outside is never an invalid transition of this worker.\<close>

definition foreign_exn :: "worker_exn option \<Rightarrow> bool" where
  "foreign_exn e \<longleftrightarrow> (\<forall>x. e \<noteq> Some (InvalidTransition x))"

definition exn_of :: "worker_exn + 'a \<Rightarrow> worker_exn option" where
  "exn_of r = (case r of Inl e \<Rightarrow> Some e | Inr _ \<Rightarrow> None)"

fun enabled :: "'f worker \<Rightarrow> 'f wstep \<Rightarrow> bool" where
  "enabled w (Start now) \<longleftrightarrow> True"
| "enabled w (Stop now c) \<longleftrightarrow> True"
| "enabled w (CaptureCreated now c failed) \<longleftrightarrow> w_sup w = CreatingCapture \<and> foreign_exn failed"
| "enabled w (PipelineCreated now c failed) \<longleftrightarrow> w_sup w = CreatingPipeline \<and> foreign_exn failed"
| "enabled w (TasksDone now c first) \<longleftrightarrow>
     w_sup w = WaitingTasks \<and> (cap_result w \<noteq> None \<or> an_result w \<noteq> None)"
| "enabled w (Gathered now) \<longleftrightarrow> w_sup w = Gathering \<and> cap_result w \<noteq> None \<and> an_result w \<noteq> None"
| "enabled w (PipelineClosed now failed) \<longleftrightarrow> w_sup w = ClosingPipeline"
| "enabled w QueueJoined \<longleftrightarrow> w_sup w = Joining \<and> w_queue w = [] \<and> w_ev w = EvGetting"
| "enabled w (EventsDone now) \<longleftrightarrow> w_sup w = AwaitingEvents \<and> w_ev w = EvDone"
| "enabled w CaptureScheduled \<longleftrightarrow> w_cap w = CapScheduled"
| "enabled w (CaptureRead now r) \<longleftrightarrow> w_cap w = CapReading \<and> foreign_exn (exn_of r)"
| "enabled w DelayOver \<longleftrightarrow> w_cap w = CapDelaying"
| "enabled w AnalyticsScheduled \<longleftrightarrow> w_an w = AnScheduled"
| "enabled w (FrameReady f) \<longleftrightarrow> w_an w = AnWaiting"
| "enabled w (Processed now r) \<longleftrightarrow> w_an w = AnProcessing \<and> foreign_exn (exn_of r)"
| "enabled w (Callback now e) \<longleftrightarrow> True"
| "enabled w EventTaken \<longleftrightarrow> w_ev w = EvGetting \<and> w_queue w \<noteq> []"
| "enabled w (EventEmitted failed) \<longleftrightarrow> (\<exists>r. w_ev w = EvEmitting r)"

fun perform :: "'f worker \<Rightarrow> 'f wstep \<Rightarrow> 'f worker" where
  "perform w (Start now) = w_start now w"
| "perform w (Stop now c) = w_stop_call now c w"
| "perform w (CaptureCreated now c failed) = sup_capture_created now c failed w"
| "perform w (PipelineCreated now c failed) = sup_pipeline_created now c failed w"
| "perform w (TasksDone now c first) = sup_tasks_done now c first w"
| "perform w (Gathered now) = sup_gathered now w"
| "perform w (PipelineClosed now failed) = sup_pipeline_closed now failed w"
| "perform w QueueJoined = w\<lparr>w_queue := [StopMark], w_sup := AwaitingEvents\<rparr>"
| "perform w (EventsDone now) = sup_finish now w"
| "perform w CaptureScheduled = cap_loop w"
| "perform w (CaptureRead now r) = cap_read now r w"
| "perform w DelayOver = cap_loop w"
| "perform w AnalyticsScheduled = an_loop w"
| "perform w (FrameReady f) = an_frame f w"
| "perform w (Processed now r) = an_processed now r w"
| "perform w (Callback now e) = fst (queue_event now e w)"
| "perform w EventTaken = ev_get w"
| "perform w (EventEmitted failed) = ev_emitted failed w"

inductive reachable :: "'f worker \<Rightarrow> 'f worker \<Rightarrow> bool" for w0 where
  reach_init: "reachable w0 w0"
| reach_step: "reachable w0 w \<Longrightarrow> enabled w s \<Longrightarrow> reachable w0 (perform w s)"

inductive_cases reachableE: "reachable w0 w"

fun w_run :: "'f worker \<Rightarrow> 'f wstep list \<Rightarrow> 'f worker option" where
  "w_run w [] = Some w"
| "w_run w (s # ss) = (if enabled w s then w_run (perform w s) ss else None)"

lemma w_run_reachable: "reachable w0 w \<Longrightarrow> w_run w ss = Some w' \<Longrightarrow> reachable w0 w'"
  by (induction ss arbitrary: w) (auto split: if_splits intro: reach_step)

end
