(* ===== verification/Worker_Inv.thy ===== *)
theory Worker_Inv
  imports Camera_Worker
begin

section \<open>The invariant of the camera worker\<close>

text \<open>
  What holds at every program counter of the supervisor (\<open>phase\<close>), the books that hold everywhere
  (\<open>books\<close>: closes counted, every accepted event accounted for), and that the steps of the capture
  loop, the analytics loop and the dispatcher keep both.
\<close>

subsection \<open>The invariant\<close>

definition cap_done :: "'f worker \<Rightarrow> bool" where
  "cap_done w \<longleftrightarrow> (case w_cap w of CapNone \<Rightarrow> True | CapFinished _ \<Rightarrow> True | _ \<Rightarrow> False)"

definition an_done :: "'f worker \<Rightarrow> bool" where
  "an_done w \<longleftrightarrow> (case w_an w of AnNone \<Rightarrow> True | AnFinished _ \<Rightarrow> True | _ \<Rightarrow> False)"

definition dispatching :: "'f worker \<Rightarrow> bool" where
  "dispatching w \<longleftrightarrow> (case w_ev w of EvGetting \<Rightarrow> True | EvEmitting _ \<Rightarrow> True | _ \<Rightarrow> False)"

definition clean_exns :: "'f worker \<Rightarrow> bool" where
  "clean_exns w \<longleftrightarrow> (\<forall>x. w_cap w \<noteq> CapFinished (Some (InvalidTransition x)))
     \<and> (\<forall>x. w_an w \<noteq> AnFinished (Some (InvalidTransition x)))"

text \<open>No loop has been created.\<close>

definition no_loops :: "'f worker \<Rightarrow> bool" where
  "no_loops w \<longleftrightarrow> w_cap w = CapNone \<and> w_an w = AnNone \<and> w_ev w = EvNone \<and> w_queue w = []
     \<and> \<not> w_accepting w \<and> \<not> w_reconnecting w"

text \<open>The phase before the loops run.\<close>

definition starting :: "'f worker \<Rightarrow> bool" where
  "starting w \<longleftrightarrow> no_loops w \<and> \<not> w_pipeline w \<and> w_started w = PendingStart \<and> w_terminal w = None
     \<and> w_state w = (if w_stop w then STOPPING else STARTING)"

text \<open>The loops exist.\<close>

definition looping :: "'f worker \<Rightarrow> bool" where
  "looping w \<longleftrightarrow> w_cap w \<noteq> CapNone \<and> w_an w \<noteq> AnNone \<and> dispatching w \<and> StopMark \<notin> set (w_queue w)
     \<and> w_capture w \<and> w_pipeline w \<and> \<not> w_pipeline_closed w \<and> clean_exns w \<and> w_started w = ResolvedStart"

text \<open>The worker is shutting down.\<close>

definition closing :: "'f worker \<Rightarrow> bool" where
  "closing w \<longleftrightarrow> w_stop w \<and> \<not> w_accepting w \<and> (w_capture w \<longrightarrow> w_capture_closed w)
     \<and> w_state w \<in> {STARTING, RUNNING, RECONNECTING, STOPPING}
     \<and> (w_terminal w = None \<longrightarrow> w_state w = STOPPING) \<and> w_started w \<noteq> NotCreated"

definition loops_over :: "'f worker \<Rightarrow> bool" where
  "loops_over w \<longleftrightarrow> cap_done w \<and> an_done w \<and> clean_exns w"

fun phase :: "sup_pc \<Rightarrow> 'f worker \<Rightarrow> bool" where
  "phase NoTask w \<longleftrightarrow> no_loops w \<and> w_state w = STOPPED \<and> \<not> w_stop w \<and> w_started w = NotCreated
     \<and> \<not> w_capture w \<and> \<not> w_pipeline w \<and> w_terminal w = None"
| "phase CreatingCapture w \<longleftrightarrow> starting w \<and> \<not> w_capture w"
| "phase CreatingPipeline w \<longleftrightarrow> starting w \<and> w_capture w \<and> (w_stop w \<longrightarrow> w_capture_closed w)"
| "phase WaitingTasks w \<longleftrightarrow> looping w \<and> w_terminal w = None
     \<and> (if w_stop w then \<not> w_accepting w \<and> w_state w = STOPPING \<and> w_capture_closed w
        else w_accepting w \<and> w_state w = (if w_reconnecting w then RECONNECTING else RUNNING))"
| "phase Gathering w \<longleftrightarrow> looping w \<and> closing w"
| "phase ClosingPipeline w \<longleftrightarrow> closing w \<and> loops_over w \<and> w_pipeline_closed w \<and> StopMark \<notin> set (w_queue w)
     \<and> (dispatching w \<or> (w_ev w = EvNone \<and> w_queue w = []))"
| "phase Joining w \<longleftrightarrow> closing w \<and> loops_over w \<and> (w_pipeline w \<longrightarrow> w_pipeline_closed w)
     \<and> dispatching w \<and> StopMark \<notin> set (w_queue w)"
| "phase AwaitingEvents w \<longleftrightarrow> closing w \<and> loops_over w \<and> (w_pipeline w \<longrightarrow> w_pipeline_closed w)
     \<and> (w_ev w = EvGetting \<and> w_queue w = [StopMark] \<or> w_ev w = EvDone \<and> w_queue w = [])"
| "phase SupDone w \<longleftrightarrow> w_stop w \<and> \<not> w_accepting w \<and> (w_capture w \<longrightarrow> w_capture_closed w)
     \<and> (w_pipeline w \<longrightarrow> w_pipeline_closed w) \<and> loops_over w \<and> w_ev w \<in> {EvNone, EvDone} \<and> w_queue w = []
     \<and> w_state w = (if w_terminal w = None then STOPPED else FAILED)
     \<and> w_started w \<notin> {NotCreated, PendingStart} \<and> fb_frames (w_buffer w) = []"
| "phase (SupCrashed e) w \<longleftrightarrow> False"

definition routed_in :: "queue_item list \<Rightarrow> nat" where
  "routed_in q = length (filter (\<lambda>i. i \<noteq> StopMark) q)"

definition books :: "'f worker \<Rightarrow> bool" where
  "books w \<longleftrightarrow> w_capture_closes w = (if w_capture_closed w then 1 else 0) \<and> (w_capture_closed w \<longrightarrow> w_capture w)
     \<and> w_pipeline_closes w = (if w_pipeline_closed w then 1 else 0) \<and> (w_pipeline_closed w \<longrightarrow> w_pipeline w)
     \<and> (0 < w_queue_size w \<longrightarrow> length (w_queue w) \<le> w_queue_size w)
     \<and> int (w_accepted w) = m_events_emitted (w_metrics w) + m_sink_failures (w_metrics w)
         + int (routed_in (w_queue w)) + (case w_ev w of EvEmitting _ \<Rightarrow> 1 | _ \<Rightarrow> 0)
     \<and> \<not> w_refused w"

definition w_inv :: "'f worker \<Rightarrow> bool" where
  "w_inv w \<longleftrightarrow> phase (w_sup w) w \<and> books w"

lemmas phase_defs = no_loops_def starting_def looping_def closing_def loops_over_def clean_exns_def
  cap_done_def an_done_def dispatching_def

lemma worker_init_inv [inv_intros]:
  assumes "worker_init c b n g h now = Inr w"
  shows "w_inv w"
  using assms by (auto simp: worker_init_def w_inv_def books_def phase_defs routed_in_def no_metrics_def split: if_splits)

lemma books_frame:
  assumes "books w" "w_capture_closes w' = w_capture_closes w" "w_capture_closed w' = w_capture_closed w"
    "w_capture w' = w_capture w" "w_pipeline_closes w' = w_pipeline_closes w" "w_pipeline_closed w' = w_pipeline_closed w"
    "w_pipeline w' = w_pipeline w" "w_queue w' = w_queue w" "w_queue_size w' = w_queue_size w" "w_accepted w' = w_accepted w"
    "m_events_emitted (w_metrics w') = m_events_emitted (w_metrics w)"
    "m_sink_failures (w_metrics w') = m_sink_failures (w_metrics w)" "w_ev w' = w_ev w" "w_refused w' = w_refused w"
  shows "books w'"
  using assms by (simp add: books_def)

subsection \<open>The tasks\<close>

lemma transition_Inr:
  assumes "transition t r now w = Inr w'"
  shows "w' = w \<or> (\<exists>x y z v. w' = w\<lparr>w_state := x, w_updated_at := y, w_transition_count := z, w_transitions := v\<rparr>)"
  using assms by (auto simp: transition_def split: if_splits)

lemma upd_metrics_fields [simp]:
  "w_sup (upd_metrics f w) = w_sup w" "w_state (upd_metrics f w) = w_state w" "w_stop (upd_metrics f w) = w_stop w"
  "w_metrics (upd_metrics f w) = f (w_metrics w)" "w_cap (upd_metrics f w) = w_cap w" "w_an (upd_metrics f w) = w_an w"
  "w_ev (upd_metrics f w) = w_ev w" "w_queue (upd_metrics f w) = w_queue w" "w_accepting (upd_metrics f w) = w_accepting w"
  "w_reconnecting (upd_metrics f w) = w_reconnecting w" "w_pipeline (upd_metrics f w) = w_pipeline w"
  "w_capture (upd_metrics f w) = w_capture w" "w_started (upd_metrics f w) = w_started w"
  "w_terminal (upd_metrics f w) = w_terminal w" "w_capture_closed (upd_metrics f w) = w_capture_closed w"
  "w_pipeline_closed (upd_metrics f w) = w_pipeline_closed w" "w_buffer (upd_metrics f w) = w_buffer w"
  "w_queue_size (upd_metrics f w) = w_queue_size w" "w_accepted (upd_metrics f w) = w_accepted w"
  "w_capture_closes (upd_metrics f w) = w_capture_closes w" "w_pipeline_closes (upd_metrics f w) = w_pipeline_closes w"
  "w_refused (upd_metrics f w) = w_refused w"
  by (simp_all add: upd_metrics_def)

lemma cap_active_phase:
  assumes "w_inv w" "w_cap w \<in> {CapScheduled, CapReading, CapDelaying}"
  shows "w_sup w = WaitingTasks \<or> w_sup w = Gathering"
  using assms by (cases "w_sup w") (auto simp: w_inv_def phase_defs)

lemma an_active_phase:
  assumes "w_inv w" "w_an w \<in> {AnScheduled, AnWaiting, AnProcessing}"
  shows "w_sup w = WaitingTasks \<or> w_sup w = Gathering"
  using assms by (cases "w_sup w") (auto simp: w_inv_def phase_defs)

text \<open>Any step of the analytics loop only moves its program counter, metrics and sequence.\<close>

lemma an_move_inv:
  assumes inv: "w_inv w" and sup: "w_sup w = WaitingTasks \<or> w_sup w = Gathering"
    and an: "a \<noteq> AnNone" "\<forall>x. a \<noteq> AnFinished (Some (InvalidTransition x))"
    and m: "m_events_emitted m = m_events_emitted (w_metrics w)" "m_sink_failures m = m_sink_failures (w_metrics w)"
  shows "w_inv (w\<lparr>w_metrics := m, w_sequence := q, w_an := a\<rparr>)"
  using sup
proof
  assume "w_sup w = WaitingTasks"
  with inv an m show ?thesis by (auto simp: w_inv_def books_def phase_defs)
next
  assume "w_sup w = Gathering"
  with inv an m show ?thesis by (auto simp: w_inv_def books_def phase_defs)
qed

lemma an_loop_inv:
  assumes "w_inv w" "w_sup w = WaitingTasks \<or> w_sup w = Gathering"
  shows "w_inv (an_loop w)"
  using an_move_inv [OF assms, of "if w_stop w then AnFinished None else AnWaiting" "w_metrics w" "w_sequence w"]
  by (simp add: an_loop_def)

lemma an_frame_inv:
  assumes "w_inv w" "w_an w = AnWaiting"
  shows "w_inv (an_frame f w)"
proof -
  have sup: "w_sup w = WaitingTasks \<or> w_sup w = Gathering" using an_active_phase [OF assms(1)] assms(2) by simp
  show ?thesis
    using an_loop_inv [OF assms(1) sup] an_move_inv [OF assms(1) sup, of AnProcessing "w_metrics w"]
    by (auto simp: an_frame_def split: option.splits)
qed

lemma an_processed_inv:
  assumes "w_inv w" "w_an w = AnProcessing" "foreign_exn (exn_of r)"
  shows "w_inv (an_processed now r w)"
proof -
  have sup: "w_sup w = WaitingTasks \<or> w_sup w = Gathering" using an_active_phase [OF assms(1)] assms(2) by simp
  have m: "w_inv (w\<lparr>w_an := AnFinished (Some e)\<rparr>)" if "r = Inl e" for e
    using an_move_inv [OF assms(1) sup, of "AnFinished (Some e)" "w_metrics w" "w_sequence w"] assms(3) that
    by (simp add: foreign_exn_def exn_of_def)
  have l: "w_inv (an_loop (upd_metrics f w))"
    if "m_events_emitted (f (w_metrics w)) = m_events_emitted (w_metrics w)"
      "m_sink_failures (f (w_metrics w)) = m_sink_failures (w_metrics w)" for f
    using an_move_inv [OF assms(1) sup _ _ that, of "if w_stop w then AnFinished None else AnWaiting" "w_sequence w"]
    by (cases "w_stop w") (simp_all add: an_loop_def upd_metrics_def)
  show ?thesis
    using m l an_loop_inv [OF assms(1) sup] by (auto simp: an_processed_def split: sum.splits option.splits)
qed

lemma cap_move_inv:
  assumes inv: "w_inv w" and sup: "w_sup w = WaitingTasks \<or> w_sup w = Gathering"
    and c: "c \<noteq> CapNone" "\<forall>x. c \<noteq> CapFinished (Some (InvalidTransition x))"
    and m: "m_events_emitted m = m_events_emitted (w_metrics w)" "m_sink_failures m = m_sink_failures (w_metrics w)"
  shows "w_inv (w\<lparr>w_buffer := b, w_metrics := m, w_cap := c\<rparr>)"
  using sup
proof
  assume "w_sup w = WaitingTasks"
  with inv c m show ?thesis by (auto simp: w_inv_def books_def phase_defs)
next
  assume "w_sup w = Gathering"
  with inv c m show ?thesis by (auto simp: w_inv_def books_def phase_defs)
qed

lemma cap_loop_inv:
  assumes "w_inv w" "w_sup w = WaitingTasks \<or> w_sup w = Gathering"
  shows "w_inv (cap_loop w)"
  using cap_move_inv [OF assms, of "if w_stop w then CapFinished None else CapReading" "w_metrics w" "w_buffer w"]
  by (simp add: cap_loop_def)

text \<open>While the stop event is clear the lifecycle state follows the local flag of the loop.\<close>

lemma running_phase:
  assumes "w_inv w" "w_cap w = CapReading" "\<not> w_stop w"
  shows "w_sup w = WaitingTasks" "w_state w = (if w_reconnecting w then RECONNECTING else RUNNING)"
  using assms by (cases "w_sup w"; auto simp: w_inv_def phase_defs)+

lemma transition_valid:
  assumes "t \<in> valid_transitions (w_state w)" "t \<noteq> w_state w"
  shows "\<exists>u n ts. transition t r now w
    = Inr (w\<lparr>w_state := t, w_updated_at := u, w_transition_count := n, w_transitions := ts\<rparr>)"
  using assms by (auto simp: transition_def)

lemma cap_read_stopped:
  assumes "w_inv w" "w_cap w = CapReading" "foreign_exn (exn_of r)" "w_stop w \<or> (\<exists>e. r = Inl e)"
  shows "w_inv (cap_read now r w)"
proof -
  have sup: "w_sup w = WaitingTasks \<or> w_sup w = Gathering" using cap_active_phase [OF assms(1)] assms(2) by simp
  have m: "w_inv (w\<lparr>w_cap := CapFinished e\<rparr>)" if "foreign_exn e" for e
    using cap_move_inv [OF assms(1) sup, of "CapFinished e" "w_metrics w" "w_buffer w"] that by (simp add: foreign_exn_def)
  show ?thesis
    using assms(3,4) m [of None] m by (auto simp: cap_read_def foreign_exn_def exn_of_def split: sum.splits)
qed

lemma cap_read_running:
  assumes inv: "w_inv w" and c: "w_cap w = CapReading" "\<not> w_stop w"
  shows "w_inv (cap_read now (Inr f) w)"
proof (cases f)
  case None
  let ?w = "upd_metrics (\<lambda>m. m\<lparr>m_reconnect_count := m_reconnect_count m + 1\<rparr>)
    ((upd_metrics (\<lambda>m. m\<lparr>m_capture_failures := m_capture_failures m + 1\<rparr>) w)\<lparr>w_reconnecting := True\<rparr>)"
  have t: "\<exists>u n ts. transition RECONNECTING (Some ''capture unavailable'') now ?w
      = Inr (?w\<lparr>w_state := RECONNECTING, w_updated_at := u, w_transition_count := n, w_transitions := ts\<rparr>)"
    if "\<not> w_reconnecting w"
    by (rule transition_valid) (use running_phase [OF inv c] that in simp_all)
  show ?thesis
  proof (cases "w_reconnecting w")
    case True
    then show ?thesis using None running_phase [OF inv c] inv c
      by (simp add: cap_read_def w_inv_def books_def phase_defs upd_metrics_def)
  next
    case False
    with t obtain u n ts where "transition RECONNECTING (Some ''capture unavailable'') now ?w
      = Inr (?w\<lparr>w_state := RECONNECTING, w_updated_at := u, w_transition_count := n, w_transitions := ts\<rparr>)"
      by blast
    then show ?thesis using None False running_phase [OF inv c] inv c
      by (simp add: cap_read_def w_inv_def books_def phase_defs upd_metrics_def)
  qed
next
  case (Some a)
  then obtain v ok where f: "f = Some (v, ok)" by (cases a) auto
  show ?thesis
  proof (cases "fb_put ok v (w_buffer w)")
    case (Inl e)
    then show ?thesis using f running_phase [OF inv c] inv c
      by (simp add: cap_read_def w_inv_def books_def phase_defs)
  next
    case (Inr p)
    then obtain k b where p: "fb_put ok v (w_buffer w) = Inr (k, b)" by (cases p) auto
    let ?w = "upd_metrics (\<lambda>m. m\<lparr>m_frames_captured := m_frames_captured m + 1, m_last_frame := Some now\<rparr>)
      (w\<lparr>w_buffer := b\<rparr>)"
    have t: "\<exists>u n ts. transition RUNNING (Some ''capture reconnected'') now (?w\<lparr>w_reconnecting := False\<rparr>)
        = Inr (?w\<lparr>w_reconnecting := False, w_state := RUNNING, w_updated_at := u, w_transition_count := n,
            w_transitions := ts\<rparr>)"
      if "w_reconnecting w"
      by (rule transition_valid) (use running_phase [OF inv c] that in simp_all)
    show ?thesis
    proof (cases "w_reconnecting w")
      case True
      with t obtain u n ts where
        "transition RUNNING (Some ''capture reconnected'') now (?w\<lparr>w_reconnecting := False\<rparr>)
        = Inr (?w\<lparr>w_reconnecting := False, w_state := RUNNING, w_updated_at := u, w_transition_count := n,
            w_transitions := ts\<rparr>)" by blast
      then show ?thesis using f p True running_phase [OF inv c] inv c
        by (simp add: cap_read_def cap_loop_def w_inv_def books_def phase_defs upd_metrics_def)
    next
      case False
      then show ?thesis using f p running_phase [OF inv c] inv c
        by (simp add: cap_read_def cap_loop_def w_inv_def books_def phase_defs upd_metrics_def)
    qed
  qed
qed

lemma cap_read_inv:
  assumes "w_inv w" "w_cap w = CapReading" "foreign_exn (exn_of r)"
  shows "w_inv (cap_read now r w)"
  using cap_read_stopped [OF assms] cap_read_running [OF assms(1,2)] by (cases r) auto

subsection \<open>Events\<close>

lemma phase_frame:
  assumes "w_state w' = w_state w" "w_stop w' = w_stop w" "w_accepting w' = w_accepting w" "w_queue w' = w_queue w"
    "w_capture w' = w_capture w" "w_pipeline w' = w_pipeline w" "w_capture_closed w' = w_capture_closed w"
    "w_pipeline_closed w' = w_pipeline_closed w" "w_started w' = w_started w" "w_terminal w' = w_terminal w"
    "w_cap w' = w_cap w" "w_reconnecting w' = w_reconnecting w" "w_an w' = w_an w" "w_ev w' = w_ev w"
    "w_buffer w' = w_buffer w" "phase pc w"
  shows "phase pc w'"
  using assms by (cases pc) (simp_all add: phase_defs)

lemma inv_frame:
  assumes "w_inv w" "m_events_emitted m = m_events_emitted (w_metrics w)"
    "m_sink_failures m = m_sink_failures (w_metrics w)"
  shows "w_inv (w\<lparr>w_failure := f, w_metrics := m\<rparr>)"
proof -
  let ?w = "w\<lparr>w_failure := f, w_metrics := m\<rparr>"
  have "phase (w_sup w) ?w" by (rule phase_frame [of _ w]) (use assms(1) in \<open>simp_all add: w_inv_def\<close>)
  moreover have "books ?w" by (rule books_frame [of w]) (use assms in \<open>simp_all add: w_inv_def\<close>)
  ultimately show ?thesis by (simp add: w_inv_def)
qed

lemma accepting_phase:
  assumes "phase pc w" "w_accepting w"
  shows "pc = WaitingTasks"
  using assms by (cases pc) (simp_all add: phase_defs)

lemma queue_push_inv:
  assumes inv: "w_inv w" and acc: "w_accepting w" and room: "0 < w_queue_size w \<longrightarrow> length (w_queue w) < w_queue_size w"
    and m: "m_events_emitted m = m_events_emitted (w_metrics w)" "m_sink_failures m = m_sink_failures (w_metrics w)"
  shows "w_inv (w\<lparr>w_queue := w_queue w @ [Routed r], w_accepted := w_accepted w + 1, w_metrics := m\<rparr>)"
proof -
  have sup: "w_sup w = WaitingTasks" using inv acc accepting_phase by (auto simp: w_inv_def)
  have "phase WaitingTasks (w\<lparr>w_queue := w_queue w @ [Routed r], w_accepted := w_accepted w + 1, w_metrics := m\<rparr>)"
    using inv sup by (auto simp: w_inv_def phase_defs)
  moreover have "books (w\<lparr>w_queue := w_queue w @ [Routed r], w_accepted := w_accepted w + 1, w_metrics := m\<rparr>)"
    using inv room m by (auto simp: w_inv_def books_def routed_in_def)
  ultimately show ?thesis using sup by (simp add: w_inv_def)
qed

lemma queue_event_inv:
  assumes "w_inv w"
  shows "w_inv (fst (queue_event now e w))"
proof (cases "\<not> w_accepting w \<or> w_stop w")
  case True
  then show ?thesis using inv_frame [OF assms, of _ "w_failure w"]
    by (simp add: queue_event_def drop_event_def upd_metrics_def)
next
  case False
  show ?thesis
  proof (cases "event_from_callback (w_camera_id w) (w_generation w) e now")
    case (Inl x)
    then show ?thesis using False inv_frame [OF assms] by (simp add: queue_event_def record_failure_def)
  next
    case (Inr r)
    show ?thesis
    proof (cases "0 < w_queue_size w \<and> w_queue_size w \<le> length (w_queue w)")
      case True
      then show ?thesis using False Inr inv_frame [OF assms, of _ "w_failure w"]
        by (simp add: queue_event_def drop_event_def upd_metrics_def)
    next
      case room: False
      then have r: "0 < w_queue_size w \<longrightarrow> length (w_queue w) < w_queue_size w" by auto
      have "fst (queue_event now e w) = w\<lparr>w_queue := w_queue w @ [Routed r], w_accepted := w_accepted w + 1,
          w_metrics := (w_metrics w)\<lparr>m_last_event := Some (re_timestamp r)\<rparr>\<rparr>"
        using False Inr room by (auto simp: queue_event_def upd_metrics_def)
      then show ?thesis using queue_push_inv [OF assms _ r] False by simp
    qed
  qed
qed

lemma dispatching_phase:
  assumes "phase pc w" "dispatching w"
  shows "pc \<in> {WaitingTasks, Gathering, ClosingPipeline, Joining, AwaitingEvents}"
  using assms by (cases pc) (auto simp: phase_defs)

lemma phase_routed_taken:
  assumes "phase pc w" "w_ev w = EvGetting" "w_queue w = Routed r # q"
  shows "phase pc (w\<lparr>w_queue := q, w_ev := EvEmitting r\<rparr>)"
  using assms by (cases pc) (simp_all add: phase_defs)

lemma phase_mark_taken:
  assumes "phase pc w" "w_ev w = EvGetting" "w_queue w = StopMark # q"
  shows "phase pc (w\<lparr>w_queue := q, w_ev := EvDone\<rparr>)"
  using assms by (cases pc) (simp_all add: phase_defs)

lemma ev_get_inv:
  assumes "w_inv w" "w_ev w = EvGetting"
  shows "w_inv (ev_get w)"
proof (cases "w_queue w")
  case Nil
  then show ?thesis using assms by (simp add: ev_get_def)
next
  case (Cons i q)
  show ?thesis
  proof (cases i)
    case (Routed r)
    then show ?thesis using assms Cons phase_routed_taken [of _ w r q]
      by (auto simp: ev_get_def w_inv_def books_def routed_in_def)
  next
    case StopMark
    then show ?thesis using assms Cons phase_mark_taken [of _ w q]
      by (auto simp: ev_get_def w_inv_def books_def routed_in_def)
  qed
qed

lemma phase_emitted:
  assumes "phase pc w" "w_ev w = EvEmitting r"
  shows "phase pc (w\<lparr>w_ev := EvGetting, w_failure := f, w_metrics := m\<rparr>)"
  using assms by (cases pc) (simp_all add: phase_defs)

lemma ev_emitted_inv:
  assumes "w_inv w" "w_ev w = EvEmitting r"
  shows "w_inv (ev_emitted failed w)"
proof -
  have p: "phase (w_sup w) (w\<lparr>w_ev := EvGetting, w_failure := f, w_metrics := m\<rparr>)"
    for f :: "orchestration_failure option" and m
    using assms phase_emitted by (auto simp: w_inv_def)
  show ?thesis
  proof (cases failed)
    case None
    have "phase (w_sup w) (ev_emitted failed w)"
      using p [of _ "w_failure w"] None by (simp add: ev_emitted_def upd_metrics_def)
    then show ?thesis using assms None
      by (simp add: w_inv_def ev_emitted_def upd_metrics_def books_def)
  next
    case (Some x)
    have "phase (w_sup w) (ev_emitted failed w)"
      using p Some by (simp add: ev_emitted_def upd_metrics_def)
    then show ?thesis using assms Some
      by (simp add: w_inv_def ev_emitted_def upd_metrics_def books_def)
  qed
qed

end
