(* ===== verification/Worker_Supervisor.thy ===== *)
theory Worker_Supervisor
  imports Worker_Inv
begin

section \<open>The supervisor of the camera worker\<close>

text \<open>
  \<open>start\<close>, \<open>stop\<close> and the steps of the supervisor keep the invariant of \<open>Worker_Inv\<close>, hence every
  reachable state has it.
\<close>

subsection \<open>The supervisor\<close>

lemma sup_finish_inv:
  assumes "closing w" "loops_over w" "w_pipeline w \<longrightarrow> w_pipeline_closed w" "w_ev w \<in> {EvNone, EvDone}"
    "w_queue w = []" "books w"
  shows "w_inv (sup_finish now w)"
proof (cases "w_terminal w")
  case None
  then have st: "w_state w = STOPPING" using assms(1) by (simp add: closing_def)
  then have "transition STOPPED None now (w\<lparr>w_buffer := fb_clear (w_buffer w)\<rparr>)
      = Inr (w\<lparr>w_buffer := fb_clear (w_buffer w), w_state := STOPPED, w_updated_at := now,
      w_transition_count := w_transition_count w + 1, w_transitions := deque_append (w_history_size w)
      (w_transitions w) \<lparr>st_previous = STOPPING, st_current = STOPPED, st_timestamp = now, st_reason = None\<rparr>\<rparr>)"
    by (simp add: transition_def)
  then show ?thesis using assms None st
    by (cases "w_started w = PendingStart")
      (simp_all add: sup_finish_def w_inv_def books_def phase_defs resolve_started_def fb_clear_def Let_def)
next
  case (Some e)
  have "transition FAILED r now v = Inr (v\<lparr>w_state := FAILED, w_updated_at := now,
      w_transition_count := w_transition_count v + 1, w_transitions := deque_append (w_history_size v)
      (w_transitions v) \<lparr>st_previous = w_state v, st_current = FAILED, st_timestamp = now,
        st_reason = map_option sanitize r\<rparr>\<rparr>)"
    if "w_state v \<in> {STARTING, RUNNING, RECONNECTING, STOPPING}" for v :: "'a worker" and r
    using that by (auto simp: transition_def)
  note m = this [of "(record_failure e (w\<lparr>w_buffer := fb_clear (w_buffer w)\<rparr>))"]
  have "w_state w \<noteq> FAILED" "w_state w \<in> {STARTING, RUNNING, RECONNECTING, STOPPING}"
    using assms(1) by (auto simp: closing_def)
  with m have t: "transition FAILED (Some (oe_message e)) now (record_failure e (w\<lparr>w_buffer := fb_clear (w_buffer w)\<rparr>))
     = Inr ((record_failure e (w\<lparr>w_buffer := fb_clear (w_buffer w)\<rparr>))\<lparr>w_state := FAILED, w_updated_at := now,
      w_transition_count := w_transition_count w + 1, w_transitions := deque_append (w_history_size w)
      (w_transitions w) \<lparr>st_previous = w_state w, st_current = FAILED, st_timestamp = now,
        st_reason = Some (sanitize (oe_message e))\<rparr>\<rparr>)"
    by (simp add: record_failure_def)
  show ?thesis using assms Some t \<open>w_state w \<noteq> FAILED\<close>
    by (cases "w_started w = PendingStart")
      (simp_all add: sup_finish_def record_failure_def w_inv_def books_def phase_defs reject_started_def fb_clear_def
        Let_def)
qed

definition settling :: "'f worker \<Rightarrow> bool" where
  "settling w \<longleftrightarrow> closing w \<and> loops_over w \<and> StopMark \<notin> set (w_queue w)
     \<and> (dispatching w \<or> w_ev w = EvNone \<and> w_queue w = [])"

lemma settlingD:
  assumes "settling w"
  shows "closing w" "loops_over w" "StopMark \<notin> set (w_queue w)" "dispatching w \<or> w_ev w = EvNone \<and> w_queue w = []"
  using assms by (simp_all add: settling_def)

lemma sup_settle_inv:
  assumes "settling w" "w_pipeline w \<longrightarrow> w_pipeline_closed w" "books w"
  shows "w_inv (sup_settle now w)"
proof (cases "w_ev w")
  case EvNone
  then have "w_queue w = []" using settlingD(4) [OF assms(1)] by (simp add: dispatching_def)
  with EvNone show ?thesis using sup_finish_inv [OF settlingD(1,2) [OF assms(1)] assms(2) _ _ assms(3)]
    by (simp add: sup_settle_def)
next
  case EvDone
  then show ?thesis using settlingD(4) [OF assms(1)] by (simp add: dispatching_def)
next
  case EvGetting
  then show ?thesis using assms by (simp add: sup_settle_def w_inv_def settling_def books_def phase_defs)
next
  case (EvEmitting r)
  then show ?thesis using assms by (simp add: sup_settle_def w_inv_def settling_def books_def phase_defs)
qed

lemma sup_close_pipeline_inv:
  assumes "settling w" "books w"
  shows "w_inv (sup_close_pipeline now w)"
proof (cases "w_pipeline_closed w \<or> \<not> w_pipeline w")
  case True
  then show ?thesis using sup_settle_inv [OF assms(1) _ assms(2)] by (auto simp: sup_close_pipeline_def)
next
  case False
  then show ?thesis using assms
    by (simp add: sup_close_pipeline_def w_inv_def settling_def books_def phase_defs)
qed

lemma close_capture_once_fields [simp]:
  "w_sup (close_capture_once c w) = w_sup w" "w_state (close_capture_once c w) = w_state w"
  "w_stop (close_capture_once c w) = w_stop w" "w_metrics (close_capture_once c w) = w_metrics w"
  "w_cap (close_capture_once c w) = w_cap w" "w_an (close_capture_once c w) = w_an w"
  "w_ev (close_capture_once c w) = w_ev w" "w_queue (close_capture_once c w) = w_queue w"
  "w_accepting (close_capture_once c w) = w_accepting w" "w_reconnecting (close_capture_once c w) = w_reconnecting w"
  "w_pipeline (close_capture_once c w) = w_pipeline w" "w_capture (close_capture_once c w) = w_capture w"
  "w_started (close_capture_once c w) = w_started w" "w_terminal (close_capture_once c w) = w_terminal w"
  "w_pipeline_closed (close_capture_once c w) = w_pipeline_closed w" "w_buffer (close_capture_once c w) = w_buffer w"
  "w_queue_size (close_capture_once c w) = w_queue_size w" "w_accepted (close_capture_once c w) = w_accepted w"
  "w_pipeline_closes (close_capture_once c w) = w_pipeline_closes w" "w_refused (close_capture_once c w) = w_refused w"
  by (simp_all add: close_capture_once_def Let_def split: option.split)

lemma close_capture_once_closed [simp]:
  "w_capture_closed (close_capture_once c w) \<longleftrightarrow> w_capture_closed w \<or> w_capture w"
  by (simp add: close_capture_once_def Let_def split: option.split)

lemma close_capture_once_books:
  assumes "books w"
  shows "books (close_capture_once c w)"
proof -
  have "w_capture_closes (close_capture_once c w) = w_capture_closes w + (if w_capture w \<and> \<not> w_capture_closed w then 1 else 0)"
    by (simp add: close_capture_once_def Let_def split: option.split)
  with assms show ?thesis by (auto simp: books_def)
qed

lemma sup_finally_inv:
  assumes b: "books w" and s: "w_state w \<in> {STARTING, RUNNING, RECONNECTING, STOPPING}"
    and t: "t = None \<longrightarrow> w_state w = STOPPING" and st: "w_started w \<noteq> NotCreated"
    and l: "looping w \<or> no_loops w \<and> \<not> w_pipeline_closed w"
  shows "w_inv (sup_finally now c t w)"
proof -
  let ?w = "close_capture_once c (w\<lparr>w_accepting := False, w_stop := True, w_terminal := t\<rparr>)"
  have b': "books ?w" by (rule close_capture_once_books) (use b in \<open>simp add: books_def\<close>)
  have c: "closing ?w" using s t st b by (auto simp: closing_def books_def)
  show ?thesis
  proof (cases "looping w")
    case True
    then have "looping ?w" by (simp add: phase_defs)
    moreover have "w_cap w \<noteq> CapNone" using True by (simp add: looping_def)
    ultimately show ?thesis using b' c
      by (simp add: sup_finally_def w_inv_def books_def phase_defs)
  next
    case False
    with l have n: "no_loops w" by simp
    then have "settling ?w" using c by (simp add: settling_def phase_defs)
    with n show ?thesis using sup_close_pipeline_inv [OF _ b'] by (simp add: sup_finally_def no_loops_def)
  qed
qed

lemma starting_pipeline [simp]: "starting w \<Longrightarrow> books w \<Longrightarrow> \<not> w_pipeline_closed w"
  by (auto simp: starting_def books_def)

lemma startingD:
  assumes "starting w"
  shows "no_loops w" "\<not> w_pipeline w" "w_started w = PendingStart" "w_terminal w = None"
    "w_stop w \<Longrightarrow> w_state w = STOPPING" "\<not> w_stop w \<Longrightarrow> w_state w = STARTING"
    "w_state w \<in> {STARTING, RUNNING, RECONNECTING, STOPPING}"
  using assms by (simp_all add: starting_def)

lemma starting_aborted:
  assumes s: "starting w" and b: "books w" "c \<or> \<not> w_capture w" and t: "w_stop w \<or> t \<noteq> None"
  shows "w_inv (sup_finally now err t (w\<lparr>w_capture := c, w_pipeline := p\<rparr>))"
proof (rule sup_finally_inv)
  have n: "\<not> w_pipeline_closed w" using b startingD(2) [OF s] by (simp add: books_def)
  then show "books (w\<lparr>w_capture := c, w_pipeline := p\<rparr>)" using b by (auto simp: books_def)
  show "t = None \<longrightarrow> w_state (w\<lparr>w_capture := c, w_pipeline := p\<rparr>) = STOPPING"
    using startingD(5) [OF s] t by auto
  show "looping (w\<lparr>w_capture := c, w_pipeline := p\<rparr>)
    \<or> no_loops (w\<lparr>w_capture := c, w_pipeline := p\<rparr>) \<and> \<not> w_pipeline_closed (w\<lparr>w_capture := c, w_pipeline := p\<rparr>)"
    using startingD(1) [OF s] n by (simp add: no_loops_def)
qed (use startingD [OF s] in simp_all)

lemma capture_ready_inv:
  assumes "starting w" "books w" "\<not> w_capture w" "\<not> w_stop w"
  shows "w_inv (w\<lparr>w_capture := True, w_sup := CreatingPipeline\<rparr>)"
proof -
  have "starting (w\<lparr>w_capture := True, w_sup := CreatingPipeline\<rparr>)"
    using assms(1) by (simp add: starting_def no_loops_def)
  moreover have "books (w\<lparr>w_capture := True, w_sup := CreatingPipeline\<rparr>)" using assms(2) by (simp add: books_def)
  ultimately show ?thesis using assms(4) by (simp add: w_inv_def)
qed

lemma sup_capture_created_inv:
  assumes "w_inv w" "w_sup w = CreatingCapture"
  shows "w_inv (sup_capture_created now c failed w)"
proof -
  have p: "starting w" "books w" "\<not> w_capture w" using assms by (simp_all add: w_inv_def)
  show ?thesis
  proof (cases failed)
    case None
    then show ?thesis
      using starting_aborted [OF p(1,2), of True None now c "w_pipeline w"] capture_ready_inv [OF p]
      by (simp add: sup_capture_created_def Let_def)
  next
    case (Some e)
    then show ?thesis
      using starting_aborted [OF p(1,2), of "w_capture w" _ now c "w_pipeline w"]
      by (simp add: sup_capture_created_def)
  qed
qed

lemma loops_started_inv:
  assumes "starting w" "books w" "w_capture w" "\<not> w_stop w"
  shows "w_inv (w\<lparr>w_pipeline := True, w_accepting := True, w_ev := EvGetting, w_cap := CapScheduled,
    w_an := AnScheduled, w_state := RUNNING, w_updated_at := u, w_transition_count := n, w_transitions := ts,
    w_started := ResolvedStart, w_sup := WaitingTasks\<rparr>)" (is "w_inv ?w")
proof -
  have n: "\<not> w_pipeline_closed w" using assms(2) startingD(2) [OF assms(1)] by (simp add: books_def)
  have "phase WaitingTasks ?w"
    using n assms(3,4) startingD(1,4) [OF assms(1)]
    by (simp add: looping_def no_loops_def dispatching_def clean_exns_def)
  moreover have "books ?w" using assms(2) startingD(1) [OF assms(1)] n by (simp add: books_def no_loops_def)
  ultimately show ?thesis by (simp add: w_inv_def)
qed

lemma sup_pipeline_created_inv:
  assumes "w_inv w" "w_sup w = CreatingPipeline"
  shows "w_inv (sup_pipeline_created now c failed w)"
proof -
  have p: "starting w" "books w" "w_capture w" using assms by (simp_all add: w_inv_def)
  let ?w = "w\<lparr>w_pipeline := True, w_accepting := True, w_ev := EvGetting, w_cap := CapScheduled, w_an := AnScheduled\<rparr>"
  have k: "w_inv (sup_pipeline_created now c None w)" if "\<not> w_stop w"
  proof -
    have "\<exists>u n ts. transition RUNNING None now ?w
        = Inr (?w\<lparr>w_state := RUNNING, w_updated_at := u, w_transition_count := n, w_transitions := ts\<rparr>)"
      by (rule transition_valid) (use startingD(6) [OF p(1) that] in simp_all)
    then obtain u n ts where "transition RUNNING None now ?w
        = Inr (?w\<lparr>w_state := RUNNING, w_updated_at := u, w_transition_count := n, w_transitions := ts\<rparr>)"
      by blast
    then show ?thesis using loops_started_inv [OF p that, where u = u and n = n and ts = ts] that startingD(3) [OF p(1)]
      by (simp add: sup_pipeline_created_def Let_def resolve_started_def)
  qed
  show ?thesis
  proof (cases failed)
    case None
    then show ?thesis
      using starting_aborted [OF p(1,2), of "w_capture w" None now c True] k
      by (cases "w_stop w") (simp_all add: sup_pipeline_created_def)
  next
    case (Some e)
    then show ?thesis
      using starting_aborted [OF p(1,2), of "w_capture w" _ now c "w_pipeline w"]
      by (simp add: sup_pipeline_created_def)
  qed
qed

lemma sup_tasks_done_inv:
  assumes "w_inv w" "w_sup w = WaitingTasks"
  shows "w_inv (sup_tasks_done now c first w)"
proof -
  have p: "looping w" "books w" "w_started w = ResolvedStart" "w_stop w \<longrightarrow> w_state w = STOPPING"
    "w_state w \<in> {RUNNING, RECONNECTING, STOPPING}"
    using assms by (auto simp: w_inv_def looping_def split: if_splits)
  show ?thesis
    unfolding sup_tasks_done_def Let_def
    by (rule sup_finally_inv) (use p in \<open>auto split: option.splits\<close>)
qed

lemma sup_gathered_inv:
  assumes "w_inv w" "w_sup w = Gathering" "cap_result w \<noteq> None" "an_result w \<noteq> None"
  shows "w_inv (sup_gathered now w)"
proof -
  have p: "looping w" "closing w" "books w" using assms by (simp_all add: w_inv_def)
  have "cap_done w" "an_done w"
    using assms(3,4) by (auto simp: cap_result_def an_result_def cap_done_def an_done_def split: cap_pc.splits an_pc.splits)
  with p have s: "settling (w\<lparr>w_terminal := t\<rparr>)" if "t = None \<longrightarrow> w_terminal w = None" for t
    using that by (auto simp: settling_def phase_defs)
  have t: "or_error (or_error (w_terminal w) x) y = None \<longrightarrow> w_terminal w = None" for x y
    by (auto simp: or_error_def split: option.splits)
  show ?thesis unfolding sup_gathered_def Let_def
    by (rule sup_close_pipeline_inv) (use p s t in \<open>auto simp: books_def\<close>)
qed

lemma sup_pipeline_closed_inv:
  assumes "w_inv w" "w_sup w = ClosingPipeline"
  shows "w_inv (sup_pipeline_closed now failed w)"
proof -
  have p: "settling w" "w_pipeline_closed w" "books w" using assms by (simp_all add: w_inv_def settling_def)
  have s: "settling (w\<lparr>w_shutdown_failures := f, w_terminal := or_error (w_terminal w) (Some e)\<rparr>)" for f e
    using p by (auto simp: settling_def phase_defs or_error_def split: option.splits)
  have b: "books (w\<lparr>w_shutdown_failures := f, w_terminal := or_error (w_terminal w) (Some e)\<rparr>)" for f e
    using p by (simp add: books_def)
  show ?thesis using sup_settle_inv [OF p(1) _ p(3)] sup_settle_inv [OF s _ b] p(2)
    by (auto simp: sup_pipeline_closed_def Let_def split: option.splits prod.splits)
qed

lemma queue_joined_inv:
  assumes "w_inv w" "enabled w QueueJoined"
  shows "w_inv (perform w QueueJoined)"
proof -
  have p: "w_sup w = Joining" "w_queue w = []" "w_ev w = EvGetting" using assms(2) by simp_all
  then have q: "closing w" "loops_over w" "w_pipeline w \<longrightarrow> w_pipeline_closed w" "books w"
    using assms(1) by (simp_all add: w_inv_def)
  have "phase AwaitingEvents (perform w QueueJoined)" using q p by (simp add: phase_defs)
  moreover have "books (perform w QueueJoined)" using q(4) p by (simp add: books_def routed_in_def)
  ultimately show ?thesis by (simp add: w_inv_def)
qed

lemma events_done_inv:
  assumes "w_inv w" "enabled w (EventsDone now)"
  shows "w_inv (perform w (EventsDone now))"
proof -
  have "closing w" "loops_over w" "w_pipeline w \<longrightarrow> w_pipeline_closed w" "w_ev w \<in> {EvNone, EvDone}" "w_queue w = []" "books w"
    using assms by (auto simp: w_inv_def)
  then show ?thesis using sup_finish_inv by auto
qed

subsection \<open>\<open>start\<close> and \<open>stop\<close>\<close>

lemma w_start_inv:
  assumes "w_inv w"
  shows "w_inv (w_start now w)"
proof (cases "w_sup w = NoTask")
  case False
  then show ?thesis using assms by (simp add: w_start_def)
next
  case True
  then have p: "no_loops w" "w_state w = STOPPED" "\<not> w_stop w" "\<not> w_capture w" "\<not> w_pipeline w" "w_terminal w = None"
    "books w"
    using assms by (simp_all add: w_inv_def)
  have "\<exists>u n ts. transition STARTING None now (w\<lparr>w_started := PendingStart\<rparr>) = Inr (w\<lparr>w_started := PendingStart,
      w_state := STARTING, w_updated_at := u, w_transition_count := n, w_transitions := ts\<rparr>)"
    by (rule transition_valid) (use p(2) in simp_all)
  then obtain u n ts where t: "transition STARTING None now (w\<lparr>w_started := PendingStart\<rparr>) = Inr (w\<lparr>w_started := PendingStart,
      w_state := STARTING, w_updated_at := u, w_transition_count := n, w_transitions := ts\<rparr>)"
    by blast
  let ?w = "w\<lparr>w_started := PendingStart, w_state := STARTING, w_updated_at := u, w_transition_count := n,
    w_transitions := ts, w_sup := CreatingCapture\<rparr>"
  have "starting ?w" using p by (simp add: starting_def no_loops_def)
  moreover have "books ?w" using p(7) by (simp add: books_def)
  ultimately show ?thesis using p(4) True t by (simp add: w_start_def w_inv_def)
qed

lemma stop_phase:
  assumes p: "phase pc w" and b: "books w" and n: "pc \<noteq> NoTask"
    and s: "s = (if \<not> sup_over pc \<and> w_state w \<in> {STARTING, RUNNING, RECONNECTING} then STOPPING else w_state w)"
  shows "phase pc (close_capture_once c (w\<lparr>w_state := s, w_updated_at := u, w_transition_count := k,
    w_transitions := ts, w_accepting := False, w_stop := True\<rparr>))" (is "phase pc ?w")
proof -
  have c: "closing w \<Longrightarrow> closing ?w" using s by (auto simp: closing_def)
  have l: "looping w \<Longrightarrow> looping ?w" by (simp add: looping_def dispatching_def clean_exns_def)
  have o: "loops_over w \<Longrightarrow> loops_over ?w" by (simp add: loops_over_def cap_done_def an_done_def clean_exns_def)
  have d: "dispatching ?w = dispatching w" by (simp add: dispatching_def)
  have z: "no_loops w \<Longrightarrow> no_loops ?w" by (simp add: no_loops_def)
  have t: "starting w \<Longrightarrow> \<not> sup_over pc \<Longrightarrow> starting ?w" using z s by (auto simp: starting_def split: if_splits)
  show ?thesis
  proof (cases pc)
    case WaitingTasks
    then show ?thesis using p s l by (auto simp: sup_over_def looping_def split: if_splits)
  next
    case SupDone
    then show ?thesis using p s o b by (auto simp: sup_over_def books_def split: if_splits)
  qed (use p n c l o d z t in \<open>simp_all add: sup_over_def\<close>)
qed

lemma w_stop_inv:
  assumes "w_inv w"
  shows "w_inv (w_stop_call now c w)"
proof (cases "w_sup w = NoTask")
  case True
  then show ?thesis using assms by (simp add: w_stop_call_def)
next
  case False
  let ?m = "\<not> sup_over (w_sup w) \<and> w_state w \<in> {STARTING, RUNNING, RECONNECTING}"
  let ?s = "if ?m then STOPPING else w_state w"
  have "\<exists>u n ts. (if ?m then transition STOPPING None now w else Inr w)
      = Inr (w\<lparr>w_state := ?s, w_updated_at := u, w_transition_count := n, w_transitions := ts\<rparr>)"
  proof (cases ?m)
    case True
    have "\<exists>u n ts. transition STOPPING None now w
        = Inr (w\<lparr>w_state := STOPPING, w_updated_at := u, w_transition_count := n, w_transitions := ts\<rparr>)"
      by (rule transition_valid) (use True in auto)
    then show ?thesis using True by simp
  next
    case False
    then show ?thesis
      by - (rule exI [of _ "w_updated_at w"], rule exI [of _ "w_transition_count w"],
        rule exI [of _ "w_transitions w"], auto)
  qed
  then obtain u n ts where m: "(if ?m then transition STOPPING None now w else Inr w)
      = Inr (w\<lparr>w_state := ?s, w_updated_at := u, w_transition_count := n, w_transitions := ts\<rparr>)"
    by blast
  let ?w = "w\<lparr>w_state := ?s, w_updated_at := u, w_transition_count := n, w_transitions := ts, w_accepting := False,
    w_stop := True\<rparr>"
  have "phase (w_sup w) (close_capture_once c ?w)"
    using assms False by (intro stop_phase) (auto simp: w_inv_def)
  moreover have "books (close_capture_once c ?w)"
    by (rule close_capture_once_books) (use assms in \<open>simp add: w_inv_def books_def\<close>)
  ultimately have "w_inv (close_capture_once c ?w)" by (simp add: w_inv_def)
  moreover have "w_stop_call now c w = close_capture_once c ?w"
    using False m by (simp only: w_stop_call_def Let_def if_False sum.case)
  ultimately show ?thesis by simp
qed

subsection \<open>Every reachable state\<close>

lemma perform_inv:
  assumes "w_inv w" "enabled w s"
  shows "w_inv (perform w s)"
proof (cases s)
  case (EventEmitted failed)
  then obtain r where "w_ev w = EvEmitting r" using assms(2) by auto
  then show ?thesis using ev_emitted_inv [OF assms(1)] EventEmitted by simp
next
  case CaptureScheduled
  then show ?thesis using assms cap_loop_inv [OF assms(1)] cap_active_phase [OF assms(1)] by simp
next
  case DelayOver
  then show ?thesis using assms cap_loop_inv [OF assms(1)] cap_active_phase [OF assms(1)] by simp
next
  case AnalyticsScheduled
  then show ?thesis using assms an_loop_inv [OF assms(1)] an_active_phase [OF assms(1)] by simp
next
  case QueueJoined
  then show ?thesis using assms queue_joined_inv by blast
next
  case (EventsDone t)
  then show ?thesis using assms events_done_inv by blast
next
  case (CaptureCreated t c f)
  then show ?thesis using assms(2) by (simp add: sup_capture_created_inv [OF assms(1)])
next
  case (PipelineCreated t c f)
  then show ?thesis using assms(2) by (simp add: sup_pipeline_created_inv [OF assms(1)])
qed (use assms(2) in \<open>simp_all add: assms(1) [THEN w_start_inv] assms(1) [THEN w_stop_inv] assms(1) [THEN sup_tasks_done_inv]
    assms(1) [THEN sup_gathered_inv] assms(1) [THEN sup_pipeline_closed_inv] assms(1) [THEN cap_read_inv] assms(1) [THEN an_frame_inv]
    assms(1) [THEN an_processed_inv] assms(1) [THEN queue_event_inv] assms(1) [THEN ev_get_inv]\<close>)

lemma worker_reachable_inv:
  assumes "reachable w0 w" "worker_init c b n g h now = Inr w0"
  shows "w_inv w"
  using assms by (induction rule: reachable.induct) (auto intro: worker_init_inv perform_inv)

end
