(* ===== verification/Worker_Props.thy ===== *)
theory Worker_Props
  imports Worker_Supervisor
begin

section \<open>Properties of the camera worker\<close>

text \<open>
  Consequences of the invariant for every run: no lifecycle transition is ever refused, resources
  are closed exactly once, no event is lost, the worker is never stuck, and a rank of the state
  bounds the number of steps of a shutdown.
\<close>

subsection \<open>Shutting down\<close>

text \<open>The steps that the worker takes by itself.\<close>

fun internal :: "'f wstep \<Rightarrow> bool" where
  "internal (Start now) = False"
| "internal (Stop now c) = False"
| "internal (Callback now e) = False"
| "internal s = True"

fun sup_rank :: "sup_pc \<Rightarrow> nat" where
  "sup_rank CreatingCapture = 24"
| "sup_rank CreatingPipeline = 20"
| "sup_rank WaitingTasks = 16"
| "sup_rank Gathering = 12"
| "sup_rank ClosingPipeline = 8"
| "sup_rank Joining = 4"
| "sup_rank AwaitingEvents = 1"
| "sup_rank pc = 0"

definition cap_rank :: "cap_pc \<Rightarrow> nat" where
  "cap_rank c = (case c of CapNone \<Rightarrow> 0 | CapFinished _ \<Rightarrow> 0 | _ \<Rightarrow> 1)"

definition an_rank :: "an_pc \<Rightarrow> nat" where
  "an_rank a = (case a of AnNone \<Rightarrow> 0 | AnFinished _ \<Rightarrow> 0 | _ \<Rightarrow> 1)"

definition ev_rank :: "ev_pc \<Rightarrow> nat" where
  "ev_rank e = (case e of EvEmitting _ \<Rightarrow> 1 | _ \<Rightarrow> 0)"

definition shutdown_rank :: "'f worker \<Rightarrow> nat" where
  "shutdown_rank w = sup_rank (w_sup w) + cap_rank (w_cap w) + an_rank (w_an w) + ev_rank (w_ev w) + 2 * length (w_queue w)"

lemmas rank_defs = shutdown_rank_def cap_rank_def an_rank_def ev_rank_def

lemma rank_zero_done:
  assumes "w_inv w" "w_sup w \<noteq> NoTask" "sup_rank (w_sup w) = 0"
  shows "w_sup w = SupDone"
  using assms by (cases "w_sup w") (auto simp: w_inv_def)

text \<open>In every reachable state before the end some step of the worker is possible.\<close>

lemma some_step:
  assumes inv: "w_inv w" and s: "w_sup w \<notin> {NoTask, SupDone}"
  shows "\<exists>s. internal s \<and> enabled w s"
proof -
  have cap: "\<exists>s. internal s \<and> enabled w s" if "\<not> cap_done w"
  proof -
    have "enabled w CaptureScheduled \<or> enabled w (CaptureRead 0 (Inr None)) \<or> enabled w DelayOver"
      using that by (cases "w_cap w") (auto simp: cap_done_def foreign_exn_def exn_of_def)
    then show ?thesis by (meson internal.simps)
  qed
  have an: "\<exists>s. internal s \<and> enabled w s" if "\<not> an_done w"
  proof -
    have "enabled w AnalyticsScheduled \<or> enabled w (FrameReady None) \<or> enabled w (Processed 0 (Inr None))"
      using that by (cases "w_an w") (auto simp: an_done_def foreign_exn_def exn_of_def)
    then show ?thesis by (meson internal.simps)
  qed
  have ev: "\<exists>s. internal s \<and> enabled w s" if "w_ev w = EvEmitting r \<or> w_ev w = EvGetting \<and> w_queue w \<noteq> []" for r
  proof -
    have "enabled w (EventEmitted None) \<or> enabled w EventTaken" using that by auto
    then show ?thesis by (meson internal.simps)
  qed
  have results: "cap_result w \<noteq> None \<and> an_result w \<noteq> None" if "looping w" "cap_done w" "an_done w"
    using that by (auto simp: looping_def cap_done_def an_done_def cap_result_def an_result_def
      split: cap_pc.splits an_pc.splits)
  have ph: "phase (w_sup w) w" using inv by (simp add: w_inv_def)
  show ?thesis
  proof (cases "w_sup w")
    case CreatingCapture
    then have "enabled w (CaptureCreated 0 None None)" by (simp add: foreign_exn_def)
    then show ?thesis by (meson internal.simps)
  next
    case CreatingPipeline
    then have "enabled w (PipelineCreated 0 None None)" by (simp add: foreign_exn_def)
    then show ?thesis by (meson internal.simps)
  next
    case WaitingTasks
    have "enabled w (TasksDone 0 None True)" if "cap_done w" "an_done w"
      using results ph WaitingTasks that by simp
    then show ?thesis using cap an by (meson internal.simps)
  next
    case Gathering
    have "enabled w (Gathered 0)" if "cap_done w" "an_done w"
      using results ph Gathering that by simp
    then show ?thesis using cap an by (meson internal.simps)
  next
    case ClosingPipeline
    then have "enabled w (PipelineClosed 0 None)" by simp
    then show ?thesis by (meson internal.simps)
  next
    case Joining
    then have "enabled w QueueJoined \<or> (\<exists>r. w_ev w = EvEmitting r) \<or> w_ev w = EvGetting \<and> w_queue w \<noteq> []"
      using ph by (cases "w_ev w") (auto simp: dispatching_def)
    then show ?thesis using ev by (meson internal.simps)
  next
    case AwaitingEvents
    then have "enabled w (EventsDone 0) \<or> w_ev w = EvGetting \<and> w_queue w \<noteq> []"
      using ph by auto
    then show ?thesis using ev by (meson internal.simps)
  qed (use s ph in simp_all)
qed

text \<open>Once the stop event is set, every step the worker takes by itself lowers a rank.\<close>

definition task_rank :: "'f worker \<Rightarrow> nat" where
  "task_rank w = cap_rank (w_cap w) + an_rank (w_an w) + ev_rank (w_ev w) + 2 * length (w_queue w)"

lemma shutdown_rank_split: "shutdown_rank w = sup_rank (w_sup w) + task_rank w"
  by (simp add: shutdown_rank_def task_rank_def)

lemma transition_fields:
  assumes "transition t r now w = Inr w'"
  shows "w_cap w' = w_cap w" "w_an w' = w_an w" "w_ev w' = w_ev w" "w_queue w' = w_queue w" "w_stop w' = w_stop w"
    "w_sup w' = w_sup w"
  using assms by (auto simp: transition_def split: if_splits)

lemma moved_fields:
  assumes "(if b then transition t r now w else Inr w) = Inr w'"
  shows "w_cap w' = w_cap w" "w_an w' = w_an w" "w_ev w' = w_ev w" "w_queue w' = w_queue w" "w_stop w' = w_stop w"
  using assms transition_fields [of t r now w w'] by (auto split: if_splits)

lemma task_rank_helpers [simp]:
  "task_rank (record_failure e w) = task_rank w" "task_rank (reject_started e w) = task_rank w"
  "task_rank (resolve_started w) = task_rank w" "task_rank (w\<lparr>w_sup := p\<rparr>) = task_rank w"
  "task_rank (w\<lparr>w_buffer := b\<rparr>) = task_rank w" "task_rank (w\<lparr>w_sup := p, w_refused := r\<rparr>) = task_rank w"
  "w_stop (record_failure e w) = w_stop w" "w_stop (reject_started e w) = w_stop w" "w_stop (resolve_started w) = w_stop w"
  by (simp_all add: task_rank_def record_failure_def reject_started_def resolve_started_def)

lemma moved_rank:
  assumes "(if b then transition t r now w else Inr w) = Inr w'"
  shows "task_rank w' = task_rank w \<and> w_stop w' = w_stop w"
  using moved_fields [OF assms] by (simp add: task_rank_def)

lemma transition_rank:
  "transition t r now w = Inr w' \<Longrightarrow> task_rank w' = task_rank w \<and> w_stop w' = w_stop w"
  using moved_rank [of True t r now w w'] by simp

lemma sup_finish_rank:
  "task_rank (sup_finish now w) = task_rank w" "sup_rank (w_sup (sup_finish now w)) = 0"
  "w_stop (sup_finish now w) = w_stop w"
proof -
  let ?w1 = "w\<lparr>w_buffer := fb_clear (w_buffer w)\<rparr>"
  have "task_rank (sup_finish now w) = task_rank w \<and> sup_rank (w_sup (sup_finish now w)) = 0
    \<and> w_stop (sup_finish now w) = w_stop w"
  proof (cases "w_terminal w")
    case (Some e)
    let ?w2 = "record_failure e ?w1"
    let ?moved = "if w_state ?w2 \<noteq> FAILED then transition FAILED (Some (oe_message e)) now ?w2 else Inr ?w2"
    have "sup_finish now w = (case ?moved of Inl x \<Rightarrow> ?w2\<lparr>w_sup := SupCrashed x, w_refused := True\<rparr>
        | Inr w3 \<Rightarrow> (reject_started e w3)\<lparr>w_sup := SupDone\<rparr>)"
      using Some by (simp only: sup_finish_def Let_def option.case)
    then show ?thesis by (auto dest: transition_rank split: sum.split)
  next
    case None
    let ?moved = "if w_state ?w1 \<noteq> STOPPING then transition STOPPING None now ?w1 else Inr ?w1"
    have e: "sup_finish now w = (case bindE ?moved (transition STOPPED None now) of Inl x \<Rightarrow> ?w1\<lparr>w_sup := SupCrashed x, w_refused := True\<rparr>
        | Inr w3 \<Rightarrow> (resolve_started w3)\<lparr>w_sup := SupDone\<rparr>)"
      using None by (simp only: sup_finish_def Let_def option.case)
    have "task_rank v = task_rank ?w1 \<and> w_stop v = w_stop ?w1" if b: "bindE ?moved (transition STOPPED None now) = Inr v" for v
    proof -
      obtain u where u: "?moved = Inr u" "transition STOPPED None now u = Inr v"
        using b unfolding bindE_eq_Inr by blast
      show ?thesis using moved_rank [OF u(1)] moved_rank [of True STOPPED None now u v] u(2) by simp
    qed
    then show ?thesis unfolding e by (auto split: sum.split)
  qed
  then show "task_rank (sup_finish now w) = task_rank w" "sup_rank (w_sup (sup_finish now w)) = 0"
    "w_stop (sup_finish now w) = w_stop w" by simp_all
qed

lemma sup_settle_rank:
  "task_rank (sup_settle now w) \<le> task_rank w" "sup_rank (w_sup (sup_settle now w)) \<le> 4"
  "w_stop (sup_settle now w) = w_stop w"
proof -
  have "task_rank (w\<lparr>w_queue := []\<rparr>) \<le> task_rank w" by (simp add: task_rank_def)
  moreover have "task_rank (w\<lparr>w_sup := Joining\<rparr>) = task_rank w" by (simp add: task_rank_def)
  ultimately show "task_rank (sup_settle now w) \<le> task_rank w" "sup_rank (w_sup (sup_settle now w)) \<le> 4"
    "w_stop (sup_settle now w) = w_stop w"
    by (simp_all add: sup_settle_def sup_finish_rank split: ev_pc.split)
qed

lemma sup_close_pipeline_rank:
  "task_rank (sup_close_pipeline now w) \<le> task_rank w" "sup_rank (w_sup (sup_close_pipeline now w)) \<le> 8"
  "w_stop (sup_close_pipeline now w) = w_stop w"
  using sup_settle_rank [of now w] by (auto simp: sup_close_pipeline_def task_rank_def)

lemma sup_finally_rank:
  "task_rank (sup_finally now c t w) \<le> task_rank w" "sup_rank (w_sup (sup_finally now c t w)) \<le> 12"
  "w_stop (sup_finally now c t w)"
proof -
  let ?w = "close_capture_once c (w\<lparr>w_accepting := False, w_stop := True, w_terminal := t\<rparr>)"
  have "task_rank ?w = task_rank w" "task_rank (?w\<lparr>w_sup := Gathering\<rparr>) = task_rank w" by (simp_all add: task_rank_def)
  then show "task_rank (sup_finally now c t w) \<le> task_rank w" "sup_rank (w_sup (sup_finally now c t w)) \<le> 12"
    "w_stop (sup_finally now c t w)"
    using sup_close_pipeline_rank [of now ?w] by (auto simp: sup_finally_def Let_def)
qed

lemma rank_drop:
  assumes "sup_rank (w_sup v) \<le> a" "task_rank v \<le> k" "w_stop v" "a < b"
  shows "shutdown_rank v < b + k \<and> w_stop v"
  using assms by (simp add: shutdown_rank_split)

lemma task_rank_frame [simp]:
  "task_rank (w\<lparr>w_capture := b\<rparr>) = task_rank w" "task_rank (w\<lparr>w_pipeline := b\<rparr>) = task_rank w"
  "task_rank (w\<lparr>w_terminal := e\<rparr>) = task_rank w"
  "task_rank (w\<lparr>w_shutdown_failures := fs\<rparr>) = task_rank w"
  by (simp_all add: task_rank_def)

lemma finally_drop:
  fixes v w :: "'f worker"
  assumes "task_rank v = task_rank w" "12 < sup_rank (w_sup w)"
  shows "shutdown_rank (sup_finally t c e v) < shutdown_rank w \<and> w_stop (sup_finally t c e v)"
  unfolding shutdown_rank_split [of w]
  by (rule rank_drop [where a = 12]) (use sup_finally_rank [of t c e v] assms in simp_all)

lemma close_drop:
  fixes v w :: "'f worker"
  assumes "task_rank v = task_rank w" "8 < sup_rank (w_sup w)" "w_stop v"
  shows "shutdown_rank (sup_close_pipeline t v) < shutdown_rank w \<and> w_stop (sup_close_pipeline t v)"
  unfolding shutdown_rank_split [of w]
  by (rule rank_drop [where a = 8]) (use sup_close_pipeline_rank [of t v] assms in simp_all)

lemma settle_drop:
  fixes v w :: "'f worker"
  assumes "task_rank v = task_rank w" "4 < sup_rank (w_sup w)" "w_stop v"
  shows "shutdown_rank (sup_settle t v) < shutdown_rank w \<and> w_stop (sup_settle t v)"
  unfolding shutdown_rank_split [of w]
  by (rule rank_drop [where a = 4]) (use sup_settle_rank [of t v] assms in simp_all)

lemma shutdown_step:
  assumes "w_stop w" "internal s" "enabled w s"
  shows "shutdown_rank (perform w s) < shutdown_rank w \<and> w_stop (perform w s)"
proof (cases s)
  case (CaptureCreated t c f)
  then show ?thesis using assms finally_drop [of _ w t c]
    by (cases f) (simp_all add: sup_capture_created_def)
next
  case (PipelineCreated t c f)
  then show ?thesis using assms finally_drop [of _ w t c]
    by (cases f) (simp_all add: sup_pipeline_created_def)
next
  case (TasksDone t c o1)
  then show ?thesis using assms finally_drop [of w w t c] by (simp add: sup_tasks_done_def Let_def)
next
  case (Gathered t)
  then show ?thesis using assms close_drop [of _ w t] by (simp add: sup_gathered_def Let_def)
next
  case (PipelineClosed t g)
  then show ?thesis using assms settle_drop [of _ w t]
    by (cases g) (simp_all add: sup_pipeline_closed_def Let_def case_prod_unfold)
next
  case (EventsDone t)
  then show ?thesis using assms sup_finish_rank [of t w] by (simp add: shutdown_rank_split)
next
  case (CaptureRead t r)
  then show ?thesis using assms by (cases r) (simp_all add: cap_read_def shutdown_rank_def cap_rank_def)
next
  case (Processed t r)
  then show ?thesis using assms
    by (auto simp: an_processed_def an_loop_def shutdown_rank_def an_rank_def split: sum.split option.split)
next
  case (FrameReady f)
  then show ?thesis using assms
    by (auto simp: an_frame_def an_loop_def shutdown_rank_def an_rank_def split: option.split)
next
  case EventTaken
  then show ?thesis using assms
    by (auto simp: ev_get_def shutdown_rank_def ev_rank_def split: list.split queue_item.split)
next
  case (EventEmitted f)
  then show ?thesis using assms
    by (cases f) (auto simp: ev_emitted_def Let_def shutdown_rank_def ev_rank_def)
qed (use assms in \<open>simp_all add: cap_loop_def an_loop_def shutdown_rank_def cap_rank_def an_rank_def\<close>)

lemma shutdown_run:
  assumes "w_stop w" "list_all internal ss" "w_run w ss = Some w'"
  shows "length ss + shutdown_rank w' \<le> shutdown_rank w \<and> w_stop w'"
  using assms
proof (induction ss arbitrary: w)
  case (Cons s ss)
  then show ?case using shutdown_step [of w s] by (fastforce split: if_splits)
qed simp

subsection \<open>Properties\<close>

lemma no_task_unstarted:
  assumes "w_inv w" "w_stop w"
  shows "w_sup w \<noteq> NoTask"
  using assms by (cases "w_sup w") (simp_all add: w_inv_def)

text \<open>
  A transition was refused, in \<open>start\<close>, \<open>stop\<close>, the supervisor or the capture loop: every branch of the model
  in which \<open>_transition\<close> raises sets \<open>w_refused\<close>. The last two also end a task with the error.
\<close>

definition lifecycle_broken :: "'f worker \<Rightarrow> bool" where
  "lifecycle_broken w \<longleftrightarrow> w_refused w \<or> (case w_sup w of SupCrashed _ \<Rightarrow> True | _ \<Rightarrow> False)
     \<or> (case w_cap w of CapFinished (Some (InvalidTransition _)) \<Rightarrow> True | _ \<Rightarrow> False)"

text \<open>A run of one camera: it starts, reads no frame, is asked to stop and shuts down.\<close>

definition example_buffer :: "nat frame_buffer" where
  "example_buffer = \<lparr>fb_frames = [], fb_maxsize = 4, fb_sequence = 0\<rparr>"

definition example_steps :: "nat wstep list" where
  "example_steps = [Start 1, CaptureCreated 2 None None, PipelineCreated 3 None None, CaptureScheduled,
     AnalyticsScheduled, CaptureRead 4 (Inr None), Stop 5 None]"

definition example_shutdown :: "nat wstep list" where
  "example_shutdown = [DelayOver, FrameReady None, TasksDone 6 None True, Gathered 7, PipelineClosed 8 None,
     QueueJoined, EventTaken, EventsDone 9]"

lemma foreign_None [simp]: "foreign_exn None" "foreign_exn (exn_of (Inr r))"
  by (simp_all add: foreign_exn_def exn_of_def)

lemmas worker_eval = worker_init_def w_start_def transition_def sup_capture_created_def
  sup_pipeline_created_def resolve_started_def cap_loop_def an_loop_def cap_read_def upd_metrics_def w_stop_call_def
  sup_over_def close_capture_once_def deque_append_def an_frame_def sup_tasks_done_def done_error_def sup_finally_def
  cap_result_def an_result_def or_error_def sup_gathered_def sup_close_pipeline_def sup_pipeline_closed_def
  sup_settle_def ev_get_def sup_finish_def no_metrics_def bindE_def example_steps_def example_shutdown_def

lemma example_run:
  obtains w0 w where "worker_init ''cam-1'' example_buffer 2 1 3 0 = Inr w0" "w_run w0 example_steps = Some w"
    "reachable w0 w" "w_sup w = WaitingTasks" "w_stop w"
proof -
  obtain w0 where w0: "worker_init ''cam-1'' example_buffer 2 1 3 0 = Inr w0" by (simp add: worker_init_def)
  have "\<exists>w. w_run w0 example_steps = Some w \<and> w_sup w = WaitingTasks \<and> w_stop w"
    using w0 [symmetric] by (simp add: worker_eval)
  then obtain w where w: "w_run w0 example_steps = Some w" "w_sup w = WaitingTasks" "w_stop w" by blast
  with w0 show ?thesis using w_run_reachable [OF reach_init] that by blast
qed

lemma example_end:
  obtains w0 w w' where "worker_init ''cam-1'' example_buffer 2 1 3 0 = Inr w0" "reachable w0 w" "w_stop w" "0 < w_queue_size w"
    "list_all internal example_shutdown" "w_run w example_shutdown = Some w'" "w_sup w' = SupDone" "reachable w0 w'"
proof -
  obtain w0 where w0: "worker_init ''cam-1'' example_buffer 2 1 3 0 = Inr w0" by (simp add: worker_init_def)
  have "\<exists>w w'. w_run w0 example_steps = Some w \<and> w_stop w \<and> 0 < w_queue_size w \<and> w_run w example_shutdown = Some w' \<and> w_sup w' = SupDone"
    using w0 [symmetric] by (simp add: worker_eval)
  then obtain w w' where w: "w_run w0 example_steps = Some w" "w_stop w" "0 < w_queue_size w" "w_run w example_shutdown = Some w'"
    "w_sup w' = SupDone" by blast
  have "reachable w0 w" using w_run_reachable [OF reach_init w(1)] .
  moreover have "reachable w0 w'" using w_run_reachable [OF calculation w(4)] .
  moreover have "list_all internal example_shutdown" by (simp add: example_shutdown_def)
  ultimately show ?thesis using w0 w that by blast
qed

text \<open>
  C16. No run of a camera worker, whatever the factories, the capture device, the pipeline, the sink
  and the callers of \<open>start\<close> and \<open>stop\<close> do and in whatever order, refuses a lifecycle transition:
  \<open>start\<close> and \<open>stop\<close> never raise one, the supervisor never fails or dies on one, on its way to RUNNING
  or at its end, and the capture loop never ends with one.
\<close>
theorem worker_no_refused_transition:
  assumes "worker_init c b n g h now = Inr w0" "reachable w0 w"
  shows "\<not> lifecycle_broken w"
proof -
  have "w_inv w" using worker_reachable_inv assms by blast
  then show ?thesis
    by (cases "w_sup w") (auto simp: lifecycle_broken_def w_inv_def books_def phase_defs split: cap_pc.splits option.splits
        worker_exn.splits)
qed

lemma worker_no_refused_transition_witness:
  "\<exists>w0 w. worker_init ''cam-1'' example_buffer 2 1 3 0 = Inr w0 \<and> w_run w0 example_steps = Some w \<and> \<not> lifecycle_broken w"
proof -
  obtain w0 w where e: "worker_init ''cam-1'' example_buffer 2 1 3 0 = Inr w0" "w_run w0 example_steps = Some w"
    "reachable w0 w" by (rule example_run)
  have "\<not> lifecycle_broken w" by (rule worker_no_refused_transition [OF e(1) e(3)])
  with e show ?thesis by blast
qed

text \<open>
  C17. When the supervisor task of a camera has finished, the published state is STOPPED, or FAILED if an
  error ended it; the waiters of \<open>start\<close> have been answered; the capture device and the pipeline, if they
  were created, have been closed exactly once; both loops and the dispatcher have ended; and the frame
  buffer and the event queue are empty.
\<close>
theorem worker_terminal_clean:
  assumes "worker_init c b n g h now = Inr w0" "reachable w0 w" "w_sup w = SupDone"
  shows "w_state w = (if w_terminal w = None then STOPPED else FAILED) \<and> w_started w \<notin> {NotCreated, PendingStart}
    \<and> w_capture_closes w = (if w_capture w then 1 else 0) \<and> w_pipeline_closes w = (if w_pipeline w then 1 else 0)
    \<and> cap_done w \<and> an_done w \<and> w_ev w \<in> {EvNone, EvDone} \<and> w_queue w = [] \<and> fb_frames (w_buffer w) = []
    \<and> \<not> w_accepting w"
proof -
  have "w_inv w" using worker_reachable_inv assms by blast
  with assms(3) have p: "phase SupDone w" "books w" by (simp_all add: w_inv_def)
  then have "w_capture_closed w = w_capture w" "w_pipeline_closed w = w_pipeline w" by (auto simp: books_def)
  with p show ?thesis by (simp add: books_def loops_over_def)
qed

lemma worker_terminal_clean_witness:
  "\<exists>w0 w w' :: nat worker. reachable w0 w \<and> w_run w example_shutdown = Some w' \<and> w_queue w' = []
     \<and> w_capture_closes w' = (if w_capture w' then 1 else 0)"
proof -
  obtain w0 w w' where e: "worker_init ''cam-1'' example_buffer 2 1 3 0 = Inr w0" "reachable w0 w"
    "w_run w example_shutdown = Some w'" "w_sup w' = SupDone" "reachable w0 w'" by (rule example_end)
  have "w_queue w' = [] \<and> w_capture_closes w' = (if w_capture w' then 1 else 0)"
    using worker_terminal_clean [OF e(1) e(5,4)] by simp
  with e show ?thesis by blast
qed

text \<open>
  C18. Accounting of events. At every moment each event the queue accepted has been delivered, has been
  counted as a failure of the sink, is still in the queue or is being delivered; the queue never exceeds
  its capacity; and once the supervisor has finished, every accepted event has been handed to the sink.
\<close>
theorem worker_event_accounts:
  assumes "worker_init c b n g h now = Inr w0" "reachable w0 w"
  shows "int (w_accepted w) = m_events_emitted (w_metrics w) + m_sink_failures (w_metrics w)
      + int (routed_in (w_queue w)) + (case w_ev w of EvEmitting _ \<Rightarrow> 1 | _ \<Rightarrow> 0)
    \<and> (0 < w_queue_size w \<longrightarrow> length (w_queue w) \<le> w_queue_size w)
    \<and> (w_sup w = SupDone \<longrightarrow> int (w_accepted w) = m_events_emitted (w_metrics w) + m_sink_failures (w_metrics w))"
proof -
  have "w_inv w" using worker_reachable_inv assms by blast
  then show ?thesis by (auto simp: w_inv_def books_def routed_in_def)
qed

lemma worker_event_accounts_witness:
  "\<exists>w0 w. worker_init ''cam-1'' example_buffer 2 1 3 0 = Inr w0 \<and> w_run w0 example_steps = Some w
     \<and> int (w_accepted w) = m_events_emitted (w_metrics w) + m_sink_failures (w_metrics w)
         + int (routed_in (w_queue w)) + (case w_ev w of EvEmitting _ \<Rightarrow> 1 | _ \<Rightarrow> 0)"
proof -
  obtain w0 w where e: "worker_init ''cam-1'' example_buffer 2 1 3 0 = Inr w0" "w_run w0 example_steps = Some w"
    "reachable w0 w" by (rule example_run)
  show ?thesis using worker_event_accounts [OF e(1) e(3)] e by auto
qed

text \<open>
  C19. A started worker never deadlocks: in every reachable state before the supervisor has finished, some
  task of the worker can take a step, without any further call of \<open>start\<close> or \<open>stop\<close> and any further event.
\<close>
theorem worker_never_stuck:
  assumes "worker_init c b n g h now = Inr w0" "reachable w0 w" "w_sup w \<notin> {NoTask, SupDone}"
  shows "\<exists>s. internal s \<and> enabled w s"
  using some_step worker_reachable_inv assms by blast

lemma worker_never_stuck_witness:
  "\<exists>w0 w s. worker_init ''cam-1'' example_buffer 2 1 3 0 = Inr w0 \<and> w_run w0 example_steps = Some w
     \<and> internal s \<and> enabled w s"
proof -
  obtain w0 w where e: "worker_init ''cam-1'' example_buffer 2 1 3 0 = Inr w0" "w_run w0 example_steps = Some w"
    "reachable w0 w" "w_sup w = WaitingTasks" by (rule example_run)
  show ?thesis using worker_never_stuck [OF e(1) e(3)] e by auto
qed

text \<open>
  C20. Shutdown terminates. Once \<open>stop\<close> has been requested, every schedule of the worker's own steps has at
  most 27 steps and two more for each slot of the (bounded) event queue, and the only states in which it can end are those
  in which the supervisor has finished.
\<close>
theorem worker_stop_terminates:
  assumes "worker_init c b n g h now = Inr w0" "reachable w0 w" "w_stop w" "0 < w_queue_size w"
    "list_all internal ss" "w_run w ss = Some w'"
  shows "length ss \<le> 27 + 2 * w_queue_size w \<and> (w_sup w' = SupDone \<or> (\<exists>s. internal s \<and> enabled w' s))"
proof -
  have inv: "w_inv w" "w_inv w'"
    using worker_reachable_inv [OF assms(2,1)] worker_reachable_inv [OF w_run_reachable [OF assms(2,6)] assms(1)] .
  have run: "length ss + shutdown_rank w' \<le> shutdown_rank w" "w_stop w'" using shutdown_run assms by blast+
  have "sup_rank (w_sup w) \<le> 24" by (cases "w_sup w") simp_all
  moreover have "length (w_queue w) \<le> w_queue_size w" using inv(1) assms(4) by (simp add: w_inv_def books_def)
  ultimately have "shutdown_rank w \<le> 27 + 2 * w_queue_size w"
    by (auto simp: rank_defs split: cap_pc.split an_pc.split ev_pc.split)
  moreover have "w_sup w' = SupDone \<or> (\<exists>s. internal s \<and> enabled w' s)"
    using some_step [OF inv(2)] no_task_unstarted [OF inv(2) run(2)] by blast
  moreover have "length ss \<le> shutdown_rank w" using run(1) by simp
  ultimately show ?thesis by auto
qed

lemma worker_stop_terminates_witness:
  "\<exists>w0 w w' :: nat worker. reachable w0 w \<and> w_run w example_shutdown = Some w' \<and> w_sup w' = SupDone
     \<and> length example_shutdown \<le> 27 + 2 * w_queue_size w"
proof -
  obtain w0 w w' where e: "worker_init ''cam-1'' example_buffer 2 1 3 0 = Inr w0" "reachable w0 w" "w_stop w" "0 < w_queue_size w"
    "list_all internal example_shutdown" "w_run w example_shutdown = Some w'" "w_sup w' = SupDone" "reachable w0 w'"
    by (rule example_end)
  have "length example_shutdown \<le> 27 + 2 * w_queue_size w"
    using worker_stop_terminates [OF e(1) e(2-6)] by simp
  with e show ?thesis by blast
qed

end
