(* ===== verification/Recent_Map.thy ===== *)
theory Recent_Map
  imports Rsap_Prelude
begin

section \<open>Bounded dictionaries in the order of use\<close>

text \<open>
  The \<open>collections.OrderedDict\<close> idiom of the code: write a key, move it to the end, and drop keys
  from the front while there are more than a limit (\<open>recent_put\<close>). Its contract is the locale
  \<open>bounded_map\<close>, which clients use instead of the list.
\<close>

definition recent_put :: "nat \<Rightarrow> 'k \<Rightarrow> 'v \<Rightarrow> ('k \<times> 'v) list \<Rightarrow> ('k \<times> 'v) list" where
  "recent_put limit k v d = (let d' = AList.delete k d @ [(k, v)] in drop (length d' - limit) d')"

locale bounded_map =
  fixes put :: "nat \<Rightarrow> 'k \<Rightarrow> 'v \<Rightarrow> 'm \<Rightarrow> 'm"
    and get :: "'m \<Rightarrow> 'k \<Rightarrow> 'v option"
    and size_of :: "'m \<Rightarrow> nat"
    and ok :: "'m \<Rightarrow> bool"
  assumes ok_put: "ok m \<Longrightarrow> ok (put n k v m)"
    and size_put: "ok m \<Longrightarrow> size_of (put n k v m) \<le> n"
    and get_put_same: "ok m \<Longrightarrow> 1 \<le> n \<Longrightarrow> get (put n k v m) k = Some v"
    and get_put_other: "ok m \<Longrightarrow> k' \<noteq> k \<Longrightarrow> get (put n k v m) k' \<in> {None, get m k'}"
begin

text \<open>What a sequence of writes leaves: a value that some write of its key stored, or the old one.\<close>

definition puts :: "nat \<Rightarrow> ('k \<times> 'v) list \<Rightarrow> 'm \<Rightarrow> 'm" where
  "puts n kvs m = fold (\<lambda>(k, v). put n k v) kvs m"

lemma puts_simps [simp]: "puts n [] m = m" "puts n ((k, v) # kvs) m = puts n kvs (put n k v m)"
  by (simp_all add: puts_def)

lemma ok_puts: "ok m \<Longrightarrow> ok (puts n kvs m)"
  by (induction kvs arbitrary: m) (auto simp: ok_put)

lemma size_puts: "ok m \<Longrightarrow> size_of m \<le> n \<Longrightarrow> size_of (puts n kvs m) \<le> n"
  by (induction kvs arbitrary: m) (auto simp: ok_put size_put)

lemma get_puts:
  assumes "ok m" "1 \<le> n" "get (puts n kvs m) k = Some v"
  shows "get m k = Some v \<or> (k, v) \<in> set kvs"
  using assms
proof (induction kvs arbitrary: m)
  case (Cons p kvs)
  obtain k1 v1 where p: "p = (k1, v1)" by (cases p)
  have "get (put n k1 v1 m) k = Some v \<or> (k, v) \<in> set kvs"
    using Cons.IH [OF ok_put [OF Cons.prems(1)]] Cons.prems(2,3) p by simp
  then show ?case
    using get_put_same [OF Cons.prems(1,2), of k1 v1] get_put_other [OF Cons.prems(1), of k k1 n v1] p
    by (cases "k = k1") auto
qed simp

end

lemma map_of_drop_distinct:
  assumes "distinct (map fst d)"
  shows "map_of (drop n d) k \<in> {None, map_of d k}"
proof (cases "map_of (drop n d) k")
  case (Some v)
  then have "(k, v) \<in> set d" by (meson in_set_dropD map_of_SomeD)
  with Some assms show ?thesis by simp
qed simp

lemma moved_to_end_ok:
  assumes "dict_ok d"
  shows "dict_ok (AList.delete k d @ [(k, v)])"
proof -
  have "k \<notin> fst ` set (AList.delete k d)" by (induction d) auto
  with assms show ?thesis by (simp add: dict_ok_def distinct_delete)
qed

lemma recent_put_keys:
  assumes "dict_ok d"
  shows "dict_ok (recent_put n k v d)"
  using moved_to_end_ok [OF assms, of k v]
  by (simp only: recent_put_def Let_def dict_ok_def drop_map [symmetric] distinct_drop)

lemma map_of_recent_put:
  assumes "dict_ok d"
  shows "map_of (recent_put n k v d) k' \<in> {None, if k' = k then Some v else map_of d k'}"
proof -
  let ?d = "AList.delete k d @ [(k, v)]"
  have "dict_ok ?d" by (rule moved_to_end_ok [OF assms])
  then have "map_of (recent_put n k v d) k' \<in> {None, map_of ?d k'}"
    unfolding recent_put_def Let_def dict_ok_def by (rule map_of_drop_distinct)
  moreover have "map_of ?d k' = (if k' = k then Some v else map_of d k')"
    by (auto simp: map_add_def split: option.split)
  ultimately show ?thesis by simp
qed

lemma recent_put_last:
  assumes "1 \<le> n" "dict_ok d"
  shows "map_of (recent_put n k v d) k = Some v"
proof -
  let ?d = "AList.delete k d @ [(k, v)]"
  have "(k, v) \<in> set (recent_put n k v d)"
  proof -
    have "drop (length ?d - n) ?d = drop (length ?d - n) (AList.delete k d) @ [(k, v)]"
      using assms(1) by simp
    then show ?thesis by (simp add: recent_put_def Let_def)
  qed
  then show ?thesis using recent_put_keys [OF assms(2)] by (simp add: dict_ok_def map_of_is_SomeI)
qed

interpretation recent: bounded_map recent_put map_of length dict_ok
proof
  show "length (recent_put n k v m) \<le> n" for n k v and m :: "('a \<times> 'b) list"
    by (simp add: recent_put_def Let_def)
  show "map_of (recent_put n k v m) k' \<in> {None, map_of m k'}" if "dict_ok m" "k' \<noteq> k"
    for n k k' v and m :: "('a \<times> 'b) list"
    using map_of_recent_put [OF that(1), of n k v k'] that(2) by simp
qed (simp_all add: recent_put_keys recent_put_last)

end
