(* ===== verification/Camera_Manager.thy ===== *)
theory Camera_Manager
  imports Orch_Models Recent_Map
begin

section \<open>The manager of all cameras\<close>

text \<open>
  Model of \<open>CameraWorkerManager\<close> in \<open>app/orchestration/manager.py\<close>. An operation (\<open>start_camera\<close>,
  \<open>restart_camera\<close>, \<open>stop_camera\<close>, \<open>_shutdown_camera\<close>) is a coroutine with a program counter; what it
  does between two \<open>await\<close>s that can suspend is one step. The body under the registry lock never
  suspends, so that lock is never contended and adds no step. The lock of a camera is free when no
  operation on the camera is between its acquisition and its return; any waiting operation may take
  it (asyncio's locks are first-in first-out, one of these orders). Workers are objects referred to
  by their index in \<open>mg_objects\<close>, as the code compares them with \<open>is\<close>. The worker itself is behind
  an interface, the record \<open>worker_api\<close>; its steps happen between the steps of the operations. The
  external transition listener is \<open>None\<close>, as in the application; waiters are not cancelled.
\<close>

subsection \<open>State\<close>

record ('c, 'w) worker_api =
  wa_new :: "'c camera_definition \<Rightarrow> int \<Rightarrow> time \<Rightarrow> py_error + 'w"
  wa_status :: "'w \<Rightarrow> camera_status"
  wa_failures :: "'w \<Rightarrow> orchestration_failure list"
  wa_answer :: "'w \<Rightarrow> orch_error option option"
  wa_over :: "'w \<Rightarrow> bool"

record ('c, 'w) managed =
  mo_definition :: "'c camera_definition"
  mo_worker :: 'w

datatype mgr_error = OrchError orch_error | ShutdownError "orchestration_failure list" | PyError py_error

datatype 'c op_kind =
    StartOp "'c camera_definition"
  | RestartOp "'c camera_definition"
  | StopOp string
  | ShutdownOp string

datatype op_value = Lifecycle lifecycle_result | CameraFailures "orchestration_failure list"

datatype op_pc =
    WaitingLock
  | StoppingOld nat
  | StartingNew nat
  | SettlingFailed nat mgr_error
  | UndoingStart nat camera_status
  | StoppingOne nat
  | ShuttingDown nat
  | Returned "mgr_error + op_value"

record 'c operation =
  op_kind :: "'c op_kind"
  op_pc :: op_pc

datatype shutdown_pc =
    NotRequested
  | ShutdownScheduled
  | ShutdownGathering "(string \<times> nat) list"
  | ShutdownFinished "orchestration_failure list"

datatype 'c reconcile_pc =
    Removing "nat list" "'c camera_definition list"
  | Applying "nat list"
  | Reconciled "mgr_error + (string \<times> camera_status) list"

record ('c, 'w) manager =
  mg_retained :: nat
  mg_max_active :: nat
  mg_objects :: "('c, 'w) managed list"
  mg_workers :: "(string \<times> nat) list"
  mg_statuses :: "(string \<times> camera_status) list"
  mg_generations :: "(string \<times> int) list"
  mg_closed :: bool
  mg_shutdown :: shutdown_pc
  mg_ops :: "'c operation list"
  mg_jobs :: "'c reconcile_pc list"

definition manager_init :: "int \<Rightarrow> int \<Rightarrow> py_error + ('c, 'w) manager" where
  "manager_init retained max_active =
     (if retained < 1 then Inl (ValueError ''retained_statuses must be positive'')
      else if max_active < 1 then Inl (ValueError ''max_active_workers must be positive'')
      else Inr \<lparr>mg_retained = nat retained, mg_max_active = nat max_active, mg_objects = [], mg_workers = [],
        mg_statuses = [], mg_generations = [], mg_closed = False, mg_shutdown = NotRequested, mg_ops = [],
        mg_jobs = []\<rparr>)"

fun op_camera :: "'c op_kind \<Rightarrow> string" where
  "op_camera (StartOp d) = cd_camera_id d"
| "op_camera (RestartOp d) = cd_camera_id d"
| "op_camera (StopOp c) = c"
| "op_camera (ShutdownOp c) = c"

fun pc_uid :: "op_pc \<Rightarrow> nat option" where
  "pc_uid WaitingLock = None"
| "pc_uid (StoppingOld u) = Some u"
| "pc_uid (StartingNew u) = Some u"
| "pc_uid (SettlingFailed u e) = Some u"
| "pc_uid (UndoingStart u s) = Some u"
| "pc_uid (StoppingOne u) = Some u"
| "pc_uid (ShuttingDown u) = Some u"
| "pc_uid (Returned r) = None"

definition lock_free :: "string \<Rightarrow> ('c, 'w) manager \<Rightarrow> bool" where
  "lock_free c m \<longleftrightarrow> list_all (\<lambda>o1. op_camera (op_kind o1) = c \<longrightarrow> pc_uid (op_pc o1) = None) (mg_ops m)"

definition worker_of :: "nat \<Rightarrow> ('c, 'w) manager \<Rightarrow> 'w" where
  "worker_of u m = mo_worker (mg_objects m ! u)"

subsection \<open>Helpers\<close>

definition set_pc :: "nat \<Rightarrow> op_pc \<Rightarrow> ('c, 'w) manager \<Rightarrow> ('c, 'w) manager" where
  "set_pc i pc m = m\<lparr>mg_ops := (mg_ops m)[i := (mg_ops m ! i)\<lparr>op_pc := pc\<rparr>]\<rparr>"

definition remember :: "camera_status \<Rightarrow> ('c, 'w) manager \<Rightarrow> ('c, 'w) manager" where
  "remember s m = m\<lparr>mg_statuses := recent_put (mg_retained m) (cs_camera_id s) s (mg_statuses m)\<rparr>"

definition remove_worker :: "string \<Rightarrow> nat \<Rightarrow> ('c, 'w) manager \<Rightarrow> ('c, 'w) manager" where
  "remove_worker c u m =
     (if map_of (mg_workers m) c = Some u then m\<lparr>mg_workers := AList.delete c (mg_workers m)\<rparr> else m)"

definition shutdown_error :: "('c, 'w) manager \<Rightarrow> mgr_error option" where
  "shutdown_error m = (case mg_shutdown m of ShutdownFinished (f # fs) \<Rightarrow> Some (ShutdownError (f # fs)) | _ \<Rightarrow> None)"

definition ensure_admission :: "string option \<Rightarrow> ('c, 'w) manager \<Rightarrow> mgr_error + unit" where
  "ensure_admission c m =
     (if mg_closed m
      then Inl (case shutdown_error m of Some e \<Rightarrow> e
                | None \<Rightarrow> OrchError (orch_err SHUTDOWN c ''camera manager is shutting down''))
      else Inr ())"

definition mk_result ::
  "lifecycle_operation \<Rightarrow> lifecycle_outcome \<Rightarrow> camera_status option \<Rightarrow> string option \<Rightarrow> lifecycle_result" where
  "mk_result operation outcome status c =
     \<lparr>lr_camera_id = (case status of Some s \<Rightarrow> cs_camera_id s | None \<Rightarrow> (case c of Some x \<Rightarrow> x | None \<Rightarrow> [])),
      lr_operation = operation, lr_outcome = outcome, lr_generation = map_option cs_generation status,
      lr_status = status,
      lr_error = (case status of None \<Rightarrow> None
        | Some s \<Rightarrow> (case (cs_failure_category s, cs_error_summary s) of
            (Some cat, Some summary) \<Rightarrow> Some \<lparr>of_category = cat, of_summary = summary\<rparr>
          | _ \<Rightarrow> None))\<rparr>"

text \<open>\<open>_new_worker\<close> and the entry into the registry; a constructor that raises leaves the generation counted.\<close>

definition new_worker ::
  "('c, 'w) worker_api \<Rightarrow> time \<Rightarrow> 'c camera_definition \<Rightarrow> ('c, 'w) manager \<Rightarrow> ('c, 'w) manager \<times> (py_error + nat)" where
  "new_worker api now d m =
     (let g = dict_get (mg_generations m) (cd_camera_id d) 0 + 1;
          m1 = m\<lparr>mg_generations := recent_put (mg_retained m) (cd_camera_id d) g (mg_generations m)\<rparr>
      in case wa_new api d g now of
           Inl e \<Rightarrow> (m1, Inl e)
         | Inr w \<Rightarrow> (m1\<lparr>mg_objects := mg_objects m @ [\<lparr>mo_definition = d, mo_worker = w\<rparr>],
                      mg_workers := AList.update (cd_camera_id d) (length (mg_objects m)) (mg_workers m)\<rparr>,
                    Inr (length (mg_objects m))))"

text \<open>Lines 88 to 100 and 150 to 161: admission, capacity, the new worker, and the call of its \<open>start\<close>.\<close>

definition admit ::
  "('c, 'w) worker_api \<Rightarrow> time \<Rightarrow> nat \<Rightarrow> 'c camera_definition \<Rightarrow> ('c, 'w) manager \<Rightarrow> ('c, 'w) manager" where
  "admit api now i d m =
     (case ensure_admission (Some (cd_camera_id d)) m of
        Inl e \<Rightarrow> set_pc i (Returned (Inl e)) m
      | Inr u \<Rightarrow>
          if mg_max_active m \<le> length (mg_workers m)
          then set_pc i (Returned (Inl (OrchError (orch_err CAPACITY (Some (cd_camera_id d)) (''active camera capacity '' @ nat_text (mg_max_active m) @ '' reached''))))) m
          else (case new_worker api now d m of
                  (m1, Inl e) \<Rightarrow> set_pc i (Returned (Inl (PyError e))) m1
                | (m1, Inr uid) \<Rightarrow> set_pc i (StartingNew uid) m1))"

subsection \<open>The operations on one camera\<close>

text \<open>Each operation from the acquisition of the camera's lock to its first suspension or its return.\<close>

definition start_begins ::
  "('c, 'w) worker_api \<Rightarrow> time \<Rightarrow> nat \<Rightarrow> 'c camera_definition \<Rightarrow> ('c, 'w) manager \<Rightarrow> ('c, 'w) manager" where
  "start_begins api now i d m =
     (case map_of (mg_workers m) (cd_camera_id d) of
        None \<Rightarrow> admit api now i d m
      | Some u \<Rightarrow>
          let s = wa_status api (worker_of u m) in
          if cs_state s \<in> {RUNNING, RECONNECTING, STARTING}
          then set_pc i (Returned (Inr (Lifecycle (mk_result OpStart AlreadyRunning (Some s) None)))) m
          else set_pc i (StoppingOld u) m)"

definition restart_begins ::
  "('c, 'w) worker_api \<Rightarrow> time \<Rightarrow> nat \<Rightarrow> 'c camera_definition \<Rightarrow> ('c, 'w) manager \<Rightarrow> ('c, 'w) manager" where
  "restart_begins api now i d m =
     (case map_of (mg_workers m) (cd_camera_id d) of
        None \<Rightarrow> admit api now i d m
      | Some u \<Rightarrow> set_pc i (StoppingOld u) m)"

definition stop_begins :: "nat \<Rightarrow> string \<Rightarrow> ('c, 'w) manager \<Rightarrow> ('c, 'w) manager" where
  "stop_begins i c m =
     (case map_of (mg_workers m) c of
        None \<Rightarrow> set_pc i (Returned (Inr (Lifecycle
          (mk_result OpStop AlreadyStopped (map_of (mg_statuses m) c) (Some c))))) m
      | Some u \<Rightarrow> set_pc i (StoppingOne u) m)"

definition shutdown_begins :: "nat \<Rightarrow> string \<Rightarrow> ('c, 'w) manager \<Rightarrow> ('c, 'w) manager" where
  "shutdown_begins i c m =
     (case map_of (mg_workers m) c of
        None \<Rightarrow> set_pc i (Returned (Inr (CameraFailures []))) m
      | Some u \<Rightarrow> set_pc i (ShuttingDown u) m)"

definition acquire :: "('c, 'w) worker_api \<Rightarrow> time \<Rightarrow> nat \<Rightarrow> ('c, 'w) manager \<Rightarrow> ('c, 'w) manager" where
  "acquire api now i m = (case op_kind (mg_ops m ! i) of
     StartOp d \<Rightarrow> start_begins api now i d m
   | RestartOp d \<Rightarrow> restart_begins api now i d m
   | StopOp c \<Rightarrow> stop_begins i c m
   | ShutdownOp c \<Rightarrow> shutdown_begins i c m)"

lemmas acquire_defs = acquire_def start_begins_def restart_begins_def stop_begins_def shutdown_begins_def

text \<open>\<open>_remember(worker.status)\<close> and \<open>_remove_worker\<close>.\<close>

definition retire :: "('c, 'w) worker_api \<Rightarrow> string \<Rightarrow> nat \<Rightarrow> ('c, 'w) manager \<Rightarrow> ('c, 'w) manager" where
  "retire api c u m = remove_worker c u (remember (wa_status api (worker_of u m)) m)"

fun started_result :: "'c op_kind \<Rightarrow> camera_status \<Rightarrow> op_pc" where
  "started_result (RestartOp d) s = Returned (Inr (Lifecycle (mk_result OpRestart Restarted (Some s) None)))"
| "started_result k s = Returned (Inr (Lifecycle (mk_result OpStart Started (Some s) None)))"

text \<open>\<open>worker.start()\<close> returned or raised.\<close>

definition resume_started :: "('c, 'w) worker_api \<Rightarrow> nat \<Rightarrow> nat \<Rightarrow> ('c, 'w) manager \<Rightarrow> ('c, 'w) manager" where
  "resume_started api i u m =
     (case wa_answer api (worker_of u m) of
        None \<Rightarrow> m
      | Some (Some e) \<Rightarrow> set_pc i (SettlingFailed u (OrchError e)) m
      | Some None \<Rightarrow>
          let s = wa_status api (worker_of u m) in
          if mg_closed m then set_pc i (UndoingStart u s) m
          else set_pc i (started_result (op_kind (mg_ops m ! i)) s) (remember s m))"

text \<open>\<open>current.stop()\<close> returned in a start or restart.\<close>

definition resume_replace :: "('c, 'w) worker_api \<Rightarrow> time \<Rightarrow> nat \<Rightarrow> nat \<Rightarrow> ('c, 'w) manager \<Rightarrow> ('c, 'w) manager" where
  "resume_replace api now i u m =
     (let kind = op_kind (mg_ops m ! i); m1 = retire api (op_camera kind) u m; fs = wa_failures api (worker_of u m) in
      if fs \<noteq> [] then set_pc i (Returned (Inl (ShutdownError fs))) m1
      else (case kind of StartOp d \<Rightarrow> admit api now i d m1 | RestartOp d \<Rightarrow> admit api now i d m1 | _ \<Rightarrow> m1))"

text \<open>The worker of a start that met a closed admission has been stopped.\<close>

definition resume_undone ::
  "('c, 'w) worker_api \<Rightarrow> nat \<Rightarrow> nat \<Rightarrow> camera_status \<Rightarrow> ('c, 'w) manager \<Rightarrow> ('c, 'w) manager" where
  "resume_undone api i u s m =
     (let kind = op_kind (mg_ops m ! i); m1 = retire api (op_camera kind) u m in
      case ensure_admission (Some (op_camera kind)) m1 of
        Inl e \<Rightarrow> set_pc i (Returned (Inl e)) m1
      | Inr x \<Rightarrow> set_pc i (started_result kind s) (remember s m1))"

text \<open>\<open>worker.stop()\<close> returned in \<open>stop_camera\<close>.\<close>

definition resume_stop :: "('c, 'w) worker_api \<Rightarrow> nat \<Rightarrow> nat \<Rightarrow> ('c, 'w) manager \<Rightarrow> ('c, 'w) manager" where
  "resume_stop api i u m =
     (let s = wa_status api (worker_of u m);
          outcome = (if cs_state s = FAILED \<or> wa_failures api (worker_of u m) \<noteq> [] then OutcomeFailed else Stopped)
      in set_pc i (Returned (Inr (Lifecycle (mk_result OpStop outcome (Some s) None))))
           (retire api (op_camera (op_kind (mg_ops m ! i))) u m))"

text \<open>\<open>failed\<close>: the exception that \<open>worker.stop()\<close> raised, which only \<open>_shutdown_camera\<close> handles.\<close>

definition resume_shutdown ::
  "('c, 'w) worker_api \<Rightarrow> string option \<Rightarrow> nat \<Rightarrow> nat \<Rightarrow> ('c, 'w) manager \<Rightarrow> ('c, 'w) manager" where
  "resume_shutdown api failed i u m =
     (let c = op_camera (op_kind (mg_ops m ! i)); fs = wa_failures api (worker_of u m);
          all = (case failed of None \<Rightarrow> fs | Some x \<Rightarrow> oe_failure (orch_err SHUTDOWN (Some c) x) # fs)
      in set_pc i (Returned (Inr (CameraFailures all))) (retire api c u m))"

definition resume ::
  "('c, 'w) worker_api \<Rightarrow> time \<Rightarrow> string option \<Rightarrow> nat \<Rightarrow> ('c, 'w) manager \<Rightarrow> ('c, 'w) manager" where
  "resume api now failed i m = (case op_pc (mg_ops m ! i) of
     StoppingOld u \<Rightarrow> resume_replace api now i u m
   | StartingNew u \<Rightarrow> resume_started api i u m
   | SettlingFailed u e \<Rightarrow> set_pc i (Returned (Inl e)) (retire api (op_camera (op_kind (mg_ops m ! i))) u m)
   | UndoingStart u s \<Rightarrow> resume_undone api i u s m
   | StoppingOne u \<Rightarrow> resume_stop api i u m
   | ShuttingDown u \<Rightarrow> resume_shutdown api failed i u m
   | _ \<Rightarrow> m)"

lemmas resume_defs = resume_def resume_replace_def resume_undone_def resume_stop_def resume_shutdown_def

text \<open>What an operation waits for.\<close>

fun ready :: "('c, 'w) worker_api \<Rightarrow> op_pc \<Rightarrow> ('c, 'w) manager \<Rightarrow> bool" where
  "ready api (StartingNew u) m \<longleftrightarrow> wa_answer api (worker_of u m) \<noteq> None"
| "ready api pc m \<longleftrightarrow> (case pc_uid pc of None \<Rightarrow> False | Some u \<Rightarrow> wa_over api (worker_of u m))"

subsection \<open>Queries\<close>

definition mgr_status :: "('c, 'w) worker_api \<Rightarrow> string \<Rightarrow> ('c, 'w) manager \<Rightarrow> camera_status option" where
  "mgr_status api c m = (case map_of (mg_workers m) c of
     Some u \<Rightarrow> Some (wa_status api (worker_of u m)) | None \<Rightarrow> map_of (mg_statuses m) c)"

definition mgr_statuses :: "('c, 'w) worker_api \<Rightarrow> ('c, 'w) manager \<Rightarrow> (string \<times> camera_status) list" where
  "mgr_statuses api m =
     fold (\<lambda>(c, u) d. AList.update c (wa_status api (worker_of u m)) d) (mg_workers m) (mg_statuses m)"

definition active_camera_ids :: "('c, 'w) worker_api \<Rightarrow> ('c, 'w) manager \<Rightarrow> string list" where
  "active_camera_ids api m =
     map fst (filter (\<lambda>(c, u). cs_state (wa_status api (worker_of u m)) \<in> {RUNNING, RECONNECTING, STARTING, STOPPING})
       (mg_workers m))"

text \<open>\<open>get_frame_buffer\<close>: the worker whose buffer it returns.\<close>

definition frame_buffer_owner :: "('c, 'w) worker_api \<Rightarrow> string \<Rightarrow> ('c, 'w) manager \<Rightarrow> py_error + 'w" where
  "frame_buffer_owner api c m = (case map_of (mg_workers m) c of
     None \<Rightarrow> Inl (KeyError (''camera is not running: '' @ c))
   | Some u \<Rightarrow> if running_state (cs_state (wa_status api (worker_of u m))) then Inr (worker_of u m)
               else Inl (KeyError (''camera is not running: '' @ c)))"

definition mgr_health :: "('c, 'w) worker_api \<Rightarrow> ('c, 'w) manager \<Rightarrow> orchestration_health" where
  "mgr_health api m = health_from_statuses (mgr_statuses api m)"

subsection \<open>Shutdown\<close>

text \<open>Spawning coroutines: their indices among the operations.\<close>

definition spawn :: "'c op_kind list \<Rightarrow> ('c, 'w) manager \<Rightarrow> ('c, 'w) manager \<times> nat list" where
  "spawn kinds m = (m\<lparr>mg_ops := mg_ops m @ map (\<lambda>k. \<lparr>op_kind = k, op_pc = WaitingLock\<rparr>) kinds\<rparr>,
     [length (mg_ops m)..<length (mg_ops m) + length kinds])"

definition request_shutdown :: "('c, 'w) manager \<Rightarrow> ('c, 'w) manager" where
  "request_shutdown m = m\<lparr>mg_closed := True,
     mg_shutdown := if mg_shutdown m = NotRequested then ShutdownScheduled else mg_shutdown m\<rparr>"

definition begin_shutdown :: "('c, 'w) manager \<Rightarrow> ('c, 'w) manager" where
  "begin_shutdown m =
     (let cs = map fst (mg_workers m); (m1, is) = spawn (map ShutdownOp cs) m
      in m1\<lparr>mg_shutdown := ShutdownGathering (zip cs is)\<rparr>)"

definition op_result :: "nat \<Rightarrow> ('c, 'w) manager \<Rightarrow> (mgr_error + op_value) option" where
  "op_result i m = (case op_pc (mg_ops m ! i) of Returned r \<Rightarrow> Some r | _ \<Rightarrow> None)"

definition all_returned :: "nat list \<Rightarrow> ('c, 'w) manager \<Rightarrow> bool" where
  "all_returned is m \<longleftrightarrow> list_all (\<lambda>i. op_result i m \<noteq> None) is"

fun py_message :: "py_error \<Rightarrow> string" where
  "py_message (ValueError s) = s"
| "py_message (RuntimeError s) = s"
| "py_message (KeyError s) = s"
| "py_message e = []"

text \<open>\<open>str\<close> of an exception.\<close>

fun error_text :: "mgr_error \<Rightarrow> string" where
  "error_text (OrchError e) = (case oe_camera e of None \<Rightarrow> [] | Some c \<Rightarrow> if c = [] then [] else ''camera '' @ c @ '': '')
     @ oe_message e"
| "error_text (ShutdownError fs) = ''orchestration shutdown completed with '' @ nat_text (length fs) @ '' failure(s)''"
| "error_text (PyError e) = py_message e"

definition camera_failures :: "string \<times> nat \<Rightarrow> ('c, 'w) manager \<Rightarrow> orchestration_failure list" where
  "camera_failures ci m = (case op_result (snd ci) m of
     Some (Inr (CameraFailures fs)) \<Rightarrow> fs
   | Some (Inl e) \<Rightarrow> [oe_failure (orch_err SHUTDOWN (Some (fst ci)) (error_text e))]
   | _ \<Rightarrow> [])"

definition end_shutdown :: "('c, 'w) manager \<Rightarrow> ('c, 'w) manager" where
  "end_shutdown m = (case mg_shutdown m of
     ShutdownGathering pairs \<Rightarrow> m\<lparr>mg_shutdown := ShutdownFinished (concat (map (\<lambda>p. camera_failures p m) pairs))\<rparr>
   | _ \<Rightarrow> m)"

subsection \<open>Reconciliation\<close>

definition desired_ops ::
  "('c, 'w) worker_api \<Rightarrow> 'c camera_definition list \<Rightarrow> ('c, 'w) manager \<Rightarrow> 'c op_kind list" where
  "desired_ops api desired m = concat (map (\<lambda>d. case map_of (mg_workers m) (cd_camera_id d) of
       None \<Rightarrow> [StartOp d]
     | Some u \<Rightarrow> if mo_definition (mg_objects m ! u) \<noteq> d \<or> \<not> running_state (cs_state (wa_status api (worker_of u m)))
                 then [RestartOp d] else []) desired)"

definition apply_desired ::
  "('c, 'w) worker_api \<Rightarrow> 'c camera_definition list \<Rightarrow> ('c, 'w) manager \<Rightarrow> ('c, 'w) manager \<times> 'c reconcile_pc" where
  "apply_desired api desired m =
     (case desired_ops api desired m of
        [] \<Rightarrow> (m, Reconciled (Inr (mgr_statuses api m)))
      | ops \<Rightarrow> (case spawn ops m of (m1, is) \<Rightarrow> (m1, Applying is)))"

definition reconcile_begin ::
  "('c, 'w) worker_api \<Rightarrow> 'c camera_definition list \<Rightarrow> ('c, 'w) manager \<Rightarrow> ('c, 'w) manager \<times> 'c reconcile_pc" where
  "reconcile_begin api desired m =
     (if \<not> distinct (map cd_camera_id desired)
      then (m, Reconciled (Inl (OrchError (orch_err CONFIGURATION None ''camera catalog returned duplicate camera IDs''))))
      else case ensure_admission None m of
        Inl e \<Rightarrow> (m, Reconciled (Inl e))
      | Inr x \<Rightarrow>
          (case filter (\<lambda>c. c \<notin> cd_camera_id ` set desired) (map fst (mg_workers m)) of
             [] \<Rightarrow> apply_desired api desired m
           | gone \<Rightarrow> (case spawn (map StopOp gone) m of (m1, is) \<Rightarrow> (m1, Removing is desired))))"

definition op_errors :: "nat list \<Rightarrow> ('c, 'w) manager \<Rightarrow> mgr_error list" where
  "op_errors is m = concat (map (\<lambda>i. case op_result i m of Some (Inl e) \<Rightarrow> [e] | _ \<Rightarrow> []) is)"

definition failed_stops :: "nat list \<Rightarrow> ('c, 'w) manager \<Rightarrow> orchestration_failure list" where
  "failed_stops is m = concat (map (\<lambda>i. case op_result i m of
       Some (Inr (Lifecycle r)) \<Rightarrow>
         if lr_outcome r = OutcomeFailed then (case lr_error r of None \<Rightarrow> [] | Some f \<Rightarrow> [f]) else []
     | _ \<Rightarrow> []) is)"

fun first_error :: "failure_category \<Rightarrow> mgr_error \<Rightarrow> mgr_error" where
  "first_error cat (PyError e) = OrchError (orch_err cat None (error_text (PyError e)))"
| "first_error cat e = e"

definition reconcile_next ::
  "('c, 'w) worker_api \<Rightarrow> 'c reconcile_pc \<Rightarrow> ('c, 'w) manager \<Rightarrow> ('c, 'w) manager \<times> 'c reconcile_pc" where
  "reconcile_next api pc m = (case pc of
     Removing is desired \<Rightarrow>
       (case op_errors is m of
          e # es \<Rightarrow> (m, Reconciled (Inl (first_error SHUTDOWN e)))
        | [] \<Rightarrow> (case failed_stops is m of
                   [] \<Rightarrow> apply_desired api desired m
                 | fs \<Rightarrow> (m, Reconciled (Inl (ShutdownError fs)))))
   | Applying is \<Rightarrow>
       (case op_errors is m of
          e # es \<Rightarrow> (m, Reconciled (Inl (first_error INTERNAL e)))
        | [] \<Rightarrow> (m, Reconciled (Inr (mgr_statuses api m))))
   | Reconciled r \<Rightarrow> (m, Reconciled r))"

subsection \<open>The step relation\<close>

datatype ('c, 'w) mstep =
    WorkerMoves nat 'w "camera_status list"
  | Call "'c op_kind"
  | Acquire time nat
  | Resume time "string option" nat
  | RequestShutdown
  | BeginShutdown
  | EndShutdown
  | Reconcile "'c camera_definition list"
  | ReconcileNext nat

fun awaited :: "'c reconcile_pc \<Rightarrow> nat list option" where
  "awaited (Removing is d) = Some is"
| "awaited (Applying is) = Some is"
| "awaited (Reconciled r) = None"

fun m_enabled ::
  "('c, 'w) worker_api \<Rightarrow> ('w \<Rightarrow> 'w \<Rightarrow> camera_status list \<Rightarrow> bool) \<Rightarrow> ('c, 'w) manager \<Rightarrow> ('c, 'w) mstep \<Rightarrow> bool" where
  "m_enabled api moves m (WorkerMoves u w pubs) \<longleftrightarrow> u < length (mg_objects m) \<and> moves (worker_of u m) w pubs"
| "m_enabled api moves m (Call k) \<longleftrightarrow> (\<forall>c. k \<noteq> ShutdownOp c)"
| "m_enabled api moves m (Acquire now i) \<longleftrightarrow> i < length (mg_ops m) \<and> op_pc (mg_ops m ! i) = WaitingLock
     \<and> lock_free (op_camera (op_kind (mg_ops m ! i))) m"
| "m_enabled api moves m (Resume now failed i) \<longleftrightarrow> i < length (mg_ops m) \<and> ready api (op_pc (mg_ops m ! i)) m"
| "m_enabled api moves m RequestShutdown \<longleftrightarrow> True"
| "m_enabled api moves m BeginShutdown \<longleftrightarrow> mg_shutdown m = ShutdownScheduled"
| "m_enabled api moves m EndShutdown \<longleftrightarrow>
     (case mg_shutdown m of ShutdownGathering pairs \<Rightarrow> all_returned (map snd pairs) m | _ \<Rightarrow> False)"
| "m_enabled api moves m (Reconcile desired) \<longleftrightarrow> True"
| "m_enabled api moves m (ReconcileNext j) \<longleftrightarrow> j < length (mg_jobs m)
     \<and> (case awaited (mg_jobs m ! j) of None \<Rightarrow> False | Some is \<Rightarrow> all_returned is m)"

text \<open>A worker's steps call \<open>_on_transition\<close> with the statuses it publishes.\<close>

definition worker_moves :: "nat \<Rightarrow> 'w \<Rightarrow> camera_status list \<Rightarrow> ('c, 'w) manager \<Rightarrow> ('c, 'w) manager" where
  "worker_moves u w pubs m =
     fold remember pubs (m\<lparr>mg_objects := (mg_objects m)[u := (mg_objects m ! u)\<lparr>mo_worker := w\<rparr>]\<rparr>)"

fun m_perform :: "('c, 'w) worker_api \<Rightarrow> ('c, 'w) manager \<Rightarrow> ('c, 'w) mstep \<Rightarrow> ('c, 'w) manager" where
  "m_perform api m (WorkerMoves u w pubs) = worker_moves u w pubs m"
| "m_perform api m (Call k) = fst (spawn [k] m)"
| "m_perform api m (Acquire now i) = acquire api now i m"
| "m_perform api m (Resume now failed i) = resume api now failed i m"
| "m_perform api m RequestShutdown = request_shutdown m"
| "m_perform api m BeginShutdown = begin_shutdown m"
| "m_perform api m EndShutdown = end_shutdown m"
| "m_perform api m (Reconcile desired) =
     (case reconcile_begin api desired m of (m1, pc) \<Rightarrow> m1\<lparr>mg_jobs := mg_jobs m @ [pc]\<rparr>)"
| "m_perform api m (ReconcileNext j) =
     (case reconcile_next api (mg_jobs m ! j) m of (m1, pc) \<Rightarrow> m1\<lparr>mg_jobs := (mg_jobs m)[j := pc]\<rparr>)"

inductive m_reachable ::
  "('c, 'w) worker_api \<Rightarrow> ('w \<Rightarrow> 'w \<Rightarrow> camera_status list \<Rightarrow> bool) \<Rightarrow> ('c, 'w) manager \<Rightarrow> ('c, 'w) manager \<Rightarrow> bool"
  for api moves m0 where
  mreach_init: "m_reachable api moves m0 m0"
| mreach_step: "m_reachable api moves m0 m \<Longrightarrow> m_enabled api moves m s \<Longrightarrow> m_reachable api moves m0 (m_perform api m s)"

inductive_cases m_reachableE: "m_reachable api moves m0 m"

fun m_run ::
  "('c, 'w) worker_api \<Rightarrow> ('w \<Rightarrow> 'w \<Rightarrow> camera_status list \<Rightarrow> bool) \<Rightarrow> ('c, 'w) manager \<Rightarrow> ('c, 'w) mstep list
    \<Rightarrow> ('c, 'w) manager option" where
  "m_run api moves m [] = Some m"
| "m_run api moves m (s # ss) = (if m_enabled api moves m s then m_run api moves (m_perform api m s) ss else None)"

lemma m_run_reachable:
  "m_reachable api moves m0 m \<Longrightarrow> m_run api moves m ss = Some m' \<Longrightarrow> m_reachable api moves m0 m'"
  by (induction ss arbitrary: m) (auto split: if_splits intro: mreach_step)

end
