(* ===== verification/Manager_Inv.thy ===== *)
theory Manager_Inv
  imports Camera_Manager
begin

section \<open>The invariant of the camera manager\<close>

text \<open>
  The contract the manager needs of its workers is the locale \<open>worker_contract\<close>. Under it every
  step keeps \<open>mg_inv\<close>: the registry refers to distinct workers and within the capacity, every worker
  that is not registered has ended, an operation that holds a worker holds the registered one of its
  camera and is the only such operation on the camera, the remembered statuses and generations are
  bounded, and a shutdown leaves no worker behind.
\<close>

subsection \<open>Frame facts\<close>

lemma set_pc_fields [simp]:
  "mg_objects (set_pc i pc m) = mg_objects m" "mg_workers (set_pc i pc m) = mg_workers m"
  "mg_statuses (set_pc i pc m) = mg_statuses m" "mg_generations (set_pc i pc m) = mg_generations m"
  "mg_closed (set_pc i pc m) = mg_closed m" "mg_shutdown (set_pc i pc m) = mg_shutdown m"
  "mg_retained (set_pc i pc m) = mg_retained m" "mg_max_active (set_pc i pc m) = mg_max_active m"
  "length (mg_ops (set_pc i pc m)) = length (mg_ops m)" "worker_of u (set_pc i pc m) = worker_of u m"
  "mg_ops (set_pc i pc m) = (mg_ops m)[i := (mg_ops m ! i)\<lparr>op_pc := pc\<rparr>]"
  by (simp_all add: set_pc_def worker_of_def)

lemma remember_fields [simp]:
  "mg_objects (remember s m) = mg_objects m" "mg_workers (remember s m) = mg_workers m"
  "mg_generations (remember s m) = mg_generations m" "mg_closed (remember s m) = mg_closed m"
  "mg_shutdown (remember s m) = mg_shutdown m" "mg_retained (remember s m) = mg_retained m"
  "mg_max_active (remember s m) = mg_max_active m" "mg_ops (remember s m) = mg_ops m"
  "worker_of u (remember s m) = worker_of u m" "mg_jobs (remember s m) = mg_jobs m"
  by (simp_all add: remember_def worker_of_def)

lemma fold_remember_fields [simp]:
  "mg_objects (fold remember ss m) = mg_objects m" "mg_workers (fold remember ss m) = mg_workers m"
  "mg_generations (fold remember ss m) = mg_generations m" "mg_closed (fold remember ss m) = mg_closed m"
  "mg_shutdown (fold remember ss m) = mg_shutdown m" "mg_retained (fold remember ss m) = mg_retained m"
  "mg_max_active (fold remember ss m) = mg_max_active m" "mg_ops (fold remember ss m) = mg_ops m"
  "worker_of u (fold remember ss m) = worker_of u m"
  by (induction ss arbitrary: m) simp_all

lemma retire_fields [simp]:
  "mg_objects (retire api c u m) = mg_objects m" "mg_generations (retire api c u m) = mg_generations m"
  "mg_closed (retire api c u m) = mg_closed m" "mg_shutdown (retire api c u m) = mg_shutdown m"
  "mg_retained (retire api c u m) = mg_retained m" "mg_max_active (retire api c u m) = mg_max_active m"
  "mg_ops (retire api c u m) = mg_ops m" "worker_of v (retire api c u m) = worker_of v m"
  "mg_statuses (retire api c u m) = mg_statuses (remember (wa_status api (worker_of u m)) m)"
  "mg_workers (retire api c u m) =
     (if map_of (mg_workers m) c = Some u then AList.delete c (mg_workers m) else mg_workers m)"
  by (simp_all add: retire_def remove_worker_def remember_def worker_of_def)

lemma spawn_fields [simp]:
  "mg_objects (fst (spawn ks m)) = mg_objects m" "mg_workers (fst (spawn ks m)) = mg_workers m"
  "mg_statuses (fst (spawn ks m)) = mg_statuses m" "mg_generations (fst (spawn ks m)) = mg_generations m"
  "mg_closed (fst (spawn ks m)) = mg_closed m" "mg_shutdown (fst (spawn ks m)) = mg_shutdown m"
  "mg_retained (fst (spawn ks m)) = mg_retained m" "mg_max_active (fst (spawn ks m)) = mg_max_active m"
  "worker_of u (fst (spawn ks m)) = worker_of u m"
  "mg_ops (fst (spawn ks m)) = mg_ops m @ map (\<lambda>k. \<lparr>op_kind = k, op_pc = WaitingLock\<rparr>) ks"
  by (simp_all add: spawn_def worker_of_def)

lemma nth_updated [simp]: "j < length xs \<Longrightarrow> xs[i := x] ! j = (if j = i then x else xs ! j)"
  by (cases "j = i") simp_all

subsection \<open>Ownership\<close>

text \<open>\<open>idle X c m\<close>: no operation outside \<open>X\<close> holds the worker of camera \<open>c\<close>.\<close>

definition idle :: "nat set \<Rightarrow> string \<Rightarrow> ('c, 'w) manager \<Rightarrow> bool" where
  "idle X c m \<longleftrightarrow> (\<forall>j < length (mg_ops m). j \<notin> X \<longrightarrow> op_camera (op_kind (mg_ops m ! j)) = c
     \<longrightarrow> pc_uid (op_pc (mg_ops m ! j)) = None)"

fun starts :: "'c op_kind \<Rightarrow> 'c camera_definition option" where
  "starts (StartOp d) = Some d"
| "starts (RestartOp d) = Some d"
| "starts k = None"

definition op_ok :: "nat \<Rightarrow> ('c, 'w) manager \<Rightarrow> bool" where
  "op_ok j m \<longleftrightarrow> (let o1 = mg_ops m ! j; c = op_camera (op_kind o1) in
     (\<forall>u. pc_uid (op_pc o1) = Some u \<longrightarrow> map_of (mg_workers m) c = Some u \<and> idle {j} c m)
     \<and> (\<forall>u. op_pc o1 = StoppingOld u \<longrightarrow> starts (op_kind o1) \<noteq> None))"

definition registry_ok :: "('w \<Rightarrow> bool) \<Rightarrow> ('w \<Rightarrow> bool) \<Rightarrow> ('c, 'w) manager \<Rightarrow> bool" where
  "registry_ok good over m \<longleftrightarrow> dict_ok (mg_workers m) \<and> distinct (map snd (mg_workers m))
     \<and> (\<forall>u \<in> snd ` set (mg_workers m). u < length (mg_objects m))
     \<and> (\<forall>u < length (mg_objects m). good (worker_of u m)
          \<and> (u \<notin> snd ` set (mg_workers m) \<longrightarrow> over (worker_of u m)))
     \<and> length (mg_workers m) \<le> mg_max_active m"

definition ownership :: "('w \<Rightarrow> bool) \<Rightarrow> ('w \<Rightarrow> bool) \<Rightarrow> nat set \<Rightarrow> ('c, 'w) manager \<Rightarrow> bool" where
  "ownership good over X m \<longleftrightarrow> registry_ok good over m \<and> (\<forall>j < length (mg_ops m). j \<notin> X \<longrightarrow> op_ok j m)"

lemma lock_free_idle: "lock_free c m \<longleftrightarrow> idle {} c m"
  by (auto simp: lock_free_def idle_def list_all_length)

lemma idle_mono: "idle X c m \<Longrightarrow> X \<subseteq> Y \<Longrightarrow> idle Y c m"
  by (auto simp: idle_def)

lemma owned_mono: "ownership good over X m \<Longrightarrow> X \<subseteq> Y \<Longrightarrow> ownership good over Y m"
  by (auto simp: ownership_def)

lemma registry_frame:
  assumes "registry_ok good over m" "mg_workers m' = mg_workers m" "mg_objects m' = mg_objects m"
    "mg_max_active m' = mg_max_active m"
  shows "registry_ok good over m'"
  using assms by (simp add: registry_ok_def worker_of_def)

text \<open>Changing the program counter of the operation \<open>i\<close> that holds the camera's lock.\<close>

lemma idle_set_pc:
  assumes "idle X c m" "i \<in> X \<or> pc_uid pc = None"
  shows "idle X c (set_pc i pc m)"
  using assms by (auto simp: idle_def)

lemma owned_set_pc:
  assumes own: "ownership good over {i} m" and i: "i < length (mg_ops m)"
    and idle: "idle {i} (op_camera (op_kind (mg_ops m ! i))) m"
    and pc: "\<And>u. pc_uid pc = Some u \<Longrightarrow> map_of (mg_workers m) (op_camera (op_kind (mg_ops m ! i))) = Some u"
    and old: "\<And>u. pc = StoppingOld u \<Longrightarrow> starts (op_kind (mg_ops m ! i)) \<noteq> None"
  shows "ownership good over {} (set_pc i pc m)"
proof -
  let ?c = "op_camera (op_kind (mg_ops m ! i))" and ?m = "set_pc i pc m"
  have "op_ok j ?m" if j: "j < length (mg_ops m)" for j
  proof (cases "j = i")
    case True
    have "idle {i} ?c ?m" by (rule idle_set_pc [OF idle]) simp
    with True i pc old show ?thesis by (auto simp: op_ok_def Let_def)
  next
    case False
    then have ok: "op_ok j m" using own j by (auto simp: ownership_def)
    have "idle {j} (op_camera (op_kind (mg_ops m ! j))) ?m" if u: "pc_uid (op_pc (mg_ops m ! j)) = Some u" for u
    proof -
      have "op_camera (op_kind (mg_ops m ! j)) \<noteq> ?c" using idle u j False by (auto simp: idle_def)
      moreover have "idle {j} (op_camera (op_kind (mg_ops m ! j))) m" using ok u by (simp add: op_ok_def Let_def)
      ultimately show ?thesis by (auto simp: idle_def)
    qed
    with ok False show ?thesis by (auto simp: op_ok_def Let_def)
  qed
  moreover have "registry_ok good over ?m" using own by (auto simp: ownership_def intro: registry_frame)
  ultimately show ?thesis by (simp add: ownership_def)
qed

lemma owned_frame:
  assumes "ownership good over X m" "mg_workers m' = mg_workers m" "mg_objects m' = mg_objects m"
    "mg_max_active m' = mg_max_active m" "mg_ops m' = mg_ops m"
  shows "ownership good over X m'"
  using assms registry_frame [of good over m m'] by (simp add: ownership_def op_ok_def idle_def)

text \<open>Removing a worker that has ended.\<close>

lemma delete_values:
  assumes "dict_ok d" "distinct (map snd d)" "map_of d c = Some u"
  shows "snd ` set (AList.delete c d) = snd ` set d - {u}" "length (AList.delete c d) \<le> length d"
    "distinct (map snd (AList.delete c d))"
proof -
  have "v \<noteq> u" if "(k, v) \<in> set d" "k \<noteq> c" for k v
    using assms that by (metis distinct_map inj_onD map_of_SomeD fst_conv snd_conv)
  moreover have "v = u" if "(c, v) \<in> set d" for v
    using assms(1,3) that by (simp add: dict_ok_def)
  ultimately show "snd ` set (AList.delete c d) = snd ` set d - {u}"
    by (auto simp: AList.delete_eq image_iff) (metis fst_conv snd_conv)+
  show "length (AList.delete c d) \<le> length d" by (simp add: AList.delete_eq)
  show "distinct (map snd (AList.delete c d))" using assms(2) by (simp add: AList.delete_eq distinct_map_filter)
qed

lemma registry_retire:
  assumes reg: "registry_ok good over m" and u: "map_of (mg_workers m) c = Some u" and over: "over (worker_of u m)"
  shows "registry_ok good over (retire api c u m)"
proof -
  let ?w = "mg_workers m"
  have ok: "dict_ok ?w" "distinct (map snd ?w)" using reg by (simp_all add: registry_ok_def)
  note d = delete_values [OF ok u]
  show ?thesis using reg u over d by (auto simp: registry_ok_def)
qed

lemma owned_retire:
  assumes own: "ownership good over {} m" and i: "i < length (mg_ops m)" and pc: "pc_uid (op_pc (mg_ops m ! i)) = Some u"
    and over: "over (worker_of u m)"
  defines "c \<equiv> op_camera (op_kind (mg_ops m ! i))"
  shows "ownership good over {i} (retire api c u m)" "idle {i} c (retire api c u m)"
    "map_of (mg_workers (retire api c u m)) c = None"
proof -
  have ok: "op_ok i m" using own i by (auto simp: ownership_def)
  then have u: "map_of (mg_workers m) c = Some u" and idle: "idle {i} c m"
    using pc by (simp_all add: op_ok_def c_def Let_def)
  then show "map_of (mg_workers (retire api c u m)) c = None" by simp
  show "idle {i} c (retire api c u m)" using idle by (simp add: idle_def)
  have "op_ok j (retire api c u m)" if j: "j < length (mg_ops m)" "j \<noteq> i" for j
  proof -
    have okj: "op_ok j m" using own j by (auto simp: ownership_def)
    have "op_camera (op_kind (mg_ops m ! j)) \<noteq> c" if "pc_uid (op_pc (mg_ops m ! j)) = Some v" for v
      using idle j that by (auto simp: idle_def)
    with okj show ?thesis by (auto simp: op_ok_def Let_def idle_def)
  qed
  moreover have "registry_ok good over (retire api c u m)"
    by (rule registry_retire) (use own u over in \<open>auto simp: ownership_def\<close>)
  ultimately show "ownership good over {i} (retire api c u m)" by (simp add: ownership_def)
qed

subsection \<open>Creating a worker\<close>

lemma new_worker_fields:
  assumes "new_worker api now d m = (m1, r)"
  shows "mg_ops m1 = mg_ops m" "mg_closed m1 = mg_closed m" "mg_shutdown m1 = mg_shutdown m"
    "mg_max_active m1 = mg_max_active m" "mg_retained m1 = mg_retained m" "mg_statuses m1 = mg_statuses m"
    "mg_generations m1 = recent_put (mg_retained m) (cd_camera_id d)
       (dict_get (mg_generations m) (cd_camera_id d) 0 + 1) (mg_generations m)"
  using assms by (auto simp: new_worker_def Let_def split: sum.splits)

lemma update_absent:
  assumes "map_of d k = None"
  shows "AList.update k v d = d @ [(k, v)]"
  using assms by (induction d) (auto split: if_splits)

lemma owned_new_worker:
  assumes own: "ownership good over {i} m" and new: "new_worker api now d m = (m1, Inr u)"
    and c: "map_of (mg_workers m) (cd_camera_id d) = None" and room: "length (mg_workers m) < mg_max_active m"
    and ctr: "\<And>g w. wa_new api d g now = Inr w \<Longrightarrow> good w"
    and idle: "idle {i} (cd_camera_id d) m"
  shows "ownership good over {i} m1" "map_of (mg_workers m1) (cd_camera_id d) = Some u" "idle {i} (cd_camera_id d) m1"
proof -
  obtain g w where w: "wa_new api d g now = Inr w" "u = length (mg_objects m)"
    "mg_objects m1 = mg_objects m @ [\<lparr>mo_definition = d, mo_worker = w\<rparr>]"
    "mg_workers m1 = mg_workers m @ [(cd_camera_id d, u)]"
    using new update_absent [OF c] by (auto simp: new_worker_def Let_def split: sum.splits)
  note f = new_worker_fields [OF new]
  have "cd_camera_id d \<notin> fst ` set (mg_workers m)" using c by (simp add: map_of_eq_None_iff)
  moreover have reg: "registry_ok good over m" using own by (simp add: ownership_def)
  ultimately have "registry_ok good over m1"
    using w f ctr [OF w(1)] room by (auto simp: registry_ok_def dict_ok_def worker_of_def nth_append less_Suc_eq)
  moreover have "op_ok j m1" if "j < length (mg_ops m)" "j \<noteq> i" for j
  proof -
    have "op_ok j m" using own that by (simp add: ownership_def)
    moreover have "pc_uid (op_pc (mg_ops m ! j)) = None" if "op_camera (op_kind (mg_ops m ! j)) = cd_camera_id d"
      using idle that \<open>j < length (mg_ops m)\<close> \<open>j \<noteq> i\<close> by (simp add: idle_def)
    ultimately show ?thesis by (auto simp: op_ok_def Let_def idle_def f w(4) map_add_def)
  qed
  ultimately show "ownership good over {i} m1" by (simp add: ownership_def f)
  show "map_of (mg_workers m1) (cd_camera_id d) = Some u" using c by (simp add: w(4) map_add_def)
  show "idle {i} (cd_camera_id d) m1" using idle by (simp add: idle_def f)
qed

lemma owned_new_worker_failed:
  assumes "ownership good over X m" "new_worker api now d m = (m1, Inl e)"
  shows "ownership good over X m1"
  by (rule owned_frame [OF assms(1)]) (use assms(2) in \<open>auto simp: new_worker_def Let_def split: sum.splits\<close>)

lemma owned_returned:
  assumes "ownership good over {i} m" "i < length (mg_ops m)" "idle {i} (op_camera (op_kind (mg_ops m ! i))) m"
  shows "ownership good over {} (set_pc i (Returned r) m)"
  by (rule owned_set_pc [OF assms]) simp_all

lemma owned_admit:
  assumes own: "ownership good over {i} m" and i: "i < length (mg_ops m)" and kind: "starts (op_kind (mg_ops m ! i)) = Some d"
    and none: "map_of (mg_workers m) (cd_camera_id d) = None" and idle: "idle {i} (cd_camera_id d) m"
    and ctr: "\<And>g w. wa_new api d g now = Inr w \<Longrightarrow> good w"
  shows "ownership good over {} (admit api now i d m)"
proof -
  have cam: "op_camera (op_kind (mg_ops m ! i)) = cd_camera_id d"
    using kind by (cases "op_kind (mg_ops m ! i)") auto
  have ret: "ownership good over {} (set_pc i (Returned r) m)" for r
    by (rule owned_returned [OF own i]) (simp add: cam idle)
  show ?thesis
  proof (cases "ensure_admission (Some (cd_camera_id d)) m")
    case (Inl e)
    then show ?thesis using ret by (simp add: admit_def)
  next
    case (Inr x)
    show ?thesis
    proof (cases "mg_max_active m \<le> length (mg_workers m)")
      case True
      then show ?thesis using Inr ret by (simp add: admit_def)
    next
      case room: False
      obtain m1 r where n: "new_worker api now d m = (m1, r)" by (cases "new_worker api now d m")
      note f = new_worker_fields [OF n]
      show ?thesis
      proof (cases r)
        case (Inl e)
        have "ownership good over {} (set_pc i (Returned (Inl (PyError e))) m1)"
          by (rule owned_returned)
            (use owned_new_worker_failed [OF own] n Inl i idle in \<open>auto simp: f cam idle_def\<close>)
        then show ?thesis using n Inl \<open>ensure_admission _ m = Inr x\<close> room by (simp add: admit_def)
      next
        case (Inr u)
        have nw: "new_worker api now d m = (m1, Inr u)" using n Inr by simp
        note o = owned_new_worker [OF own nw none _ ctr idle]
        have "ownership good over {} (set_pc i (StartingNew u) m1)"
          by (rule owned_set_pc) (use o room i in \<open>simp_all add: f cam\<close>)
        then show ?thesis using nw \<open>ensure_admission _ m = Inr x\<close> room by (simp add: admit_def)
      qed
    qed
  qed
qed

subsection \<open>The steps of an operation\<close>

lemma owned_acquire:
  assumes own: "ownership good over {} m" and en: "m_enabled api moves m (Acquire now i)"
    and ctr: "\<And>d g w. wa_new api d g now = Inr w \<Longrightarrow> good w"
  shows "ownership good over {} (acquire api now i m)"
proof -
  let ?k = "op_kind (mg_ops m ! i)"
  have i: "i < length (mg_ops m)" using en by simp
  have idle: "idle {i} (op_camera ?k) m" using en by (auto simp: lock_free_idle intro: idle_mono)
  have own_i: "ownership good over {i} m" by (rule owned_mono [OF own]) simp
  note ret = owned_returned [OF own_i i idle]
  have hold: "ownership good over {} (set_pc i pc m)"
    if "pc_uid pc = Some u" "map_of (mg_workers m) (op_camera ?k) = Some u" "(\<exists>v. pc = StoppingOld v) \<longrightarrow> starts ?k \<noteq> None"
    for pc u
    by (rule owned_set_pc [OF own_i i idle]) (use that in auto)
  have adm: "ownership good over {} (admit api now i d m)"
    if "starts ?k = Some d" "map_of (mg_workers m) (op_camera ?k) = None" for d
  proof -
    have "op_camera ?k = cd_camera_id d" using that(1) by (cases ?k) auto
    then show ?thesis using owned_admit [OF own_i i that(1)] that(2) idle ctr by simp
  qed
  show ?thesis
  proof (cases "map_of (mg_workers m) (op_camera ?k)")
    case None
    then show ?thesis using ret adm by (cases ?k) (simp_all add: acquire_defs Let_def)
  next
    case (Some u)
    then show ?thesis using ret hold [of _ u] by (cases ?k) (simp_all add: acquire_defs Let_def)
  qed
qed

lemma owned_resume_started:
  assumes own: "ownership good over {} m" and i: "i < length (mg_ops m)" and pc: "op_pc (mg_ops m ! i) = StartingNew u"
  shows "ownership good over {} (resume_started api i u m)"
proof -
  let ?k = "op_kind (mg_ops m ! i)"
  have "op_ok i m" using own i by (simp add: ownership_def)
  then have u: "map_of (mg_workers m) (op_camera ?k) = Some u" and idle: "idle {i} (op_camera ?k) m"
    using pc by (simp_all add: op_ok_def Let_def)
  have own_i: "ownership good over {i} m" by (rule owned_mono [OF own]) simp
  have hold: "ownership good over {} (set_pc i pc m)" if "pc_uid pc = Some u" "\<forall>v. pc \<noteq> StoppingOld v" for pc
    by (rule owned_set_pc [OF own_i i idle]) (use that u in auto)
  have fin: "ownership good over {} (set_pc i (started_result ?k s) (remember s m))" for s
  proof -
    obtain r where r: "started_result ?k s = Returned r" by (cases ?k) auto
    have "ownership good over {i} (remember s m)" by (rule owned_frame [OF own_i]) simp_all
    then show ?thesis unfolding r by (rule owned_returned) (use i idle in \<open>simp_all add: idle_def\<close>)
  qed
  show ?thesis using own hold fin
    by (auto simp: resume_started_def Let_def split: option.split)
qed

lemma owned_resume:
  assumes own: "ownership good (wa_over api) {} m" and en: "m_enabled api moves m (Resume now failed i)"
    and ctr: "\<And>d g w. wa_new api d g now = Inr w \<Longrightarrow> good w"
  shows "ownership good (wa_over api) {} (resume api now failed i m)"
proof -
  let ?k = "op_kind (mg_ops m ! i)" and ?pc = "op_pc (mg_ops m ! i)"
  have i: "i < length (mg_ops m)" using en by simp
  show ?thesis
  proof (cases "pc_uid ?pc")
    case None
    then show ?thesis using en by (cases ?pc) simp_all
  next
    case (Some u)
    show ?thesis
    proof (cases "\<exists>v. ?pc = StartingNew v")
      case True
      then show ?thesis using owned_resume_started [OF own i] by (auto simp: resume_defs Let_def)
    next
      case False
      then have over: "wa_over api (worker_of u m)" using en Some by (cases ?pc) simp_all
      let ?m = "retire api (op_camera ?k) u m"
      note r = owned_retire [OF own i Some over]
      have ret: "ownership good (wa_over api) {} (set_pc i (Returned x) ?m)" for x
        by (rule owned_returned) (use r i in simp_all)
      have ret': "ownership good (wa_over api) {} (set_pc i (started_result ?k s) (remember s ?m))" for s
      proof -
        obtain x where x: "started_result ?k s = Returned x" by (cases ?k) auto
        have "ownership good (wa_over api) {i} (remember s ?m)" by (rule owned_frame [OF r(1)]) simp_all
        then show ?thesis unfolding x by (rule owned_returned) (use i r(2) in \<open>simp_all add: idle_def\<close>)
      qed
      have adm: "ownership good (wa_over api) {} (admit api now i d ?m)" if "starts ?k = Some d" for d
      proof -
        have "op_camera ?k = cd_camera_id d" using that by (cases ?k) auto
        then show ?thesis using owned_admit [OF r(1)] that r i ctr by simp
      qed
      have old: "starts ?k \<noteq> None" if "?pc = StoppingOld u" 
        using own i that by (auto simp: ownership_def op_ok_def Let_def)
      show ?thesis
      proof (cases ?pc)
        case (StoppingOld v)
        then have v: "v = u" "starts ?k \<noteq> None" using Some old by auto
        show ?thesis
        proof (cases "wa_failures api (worker_of u m) = []")
          case True
          then show ?thesis using v StoppingOld adm by (cases ?k) (simp_all add: resume_defs Let_def)
        next
          case False
          then show ?thesis using v StoppingOld ret by (simp add: resume_defs Let_def)
        qed
      next
        case (UndoingStart v s)
        then show ?thesis using Some ret ret' by (auto simp: resume_defs Let_def split: sum.split)
      qed (use Some ret False in \<open>simp_all add: resume_defs Let_def\<close>)
    qed
  qed
qed

lemma owned_spawn:
  assumes "ownership good over {} m"
  shows "ownership good over {} (fst (spawn ks m))"
proof -
  let ?m = "fst (spawn ks m)"
  have nth: "mg_ops ?m ! j = (if j < length (mg_ops m) then mg_ops m ! j else \<lparr>op_kind = ks ! (j - length (mg_ops m)), op_pc = WaitingLock\<rparr>)"
    if "j < length (mg_ops m) + length ks" for j
    using that by (auto simp: nth_append)
  have idle: "idle {j} c ?m" if "idle {j} c m" for j c
    using that unfolding idle_def by (auto simp: nth_append)
  have "op_ok j ?m" if j: "j < length (mg_ops ?m)" for j
  proof (cases "j < length (mg_ops m)")
    case True
    then have "op_ok j m" using assms by (simp add: ownership_def)
    with True idle show ?thesis by (auto simp: op_ok_def Let_def nth_append)
  next
    case False
    with j show ?thesis by (simp add: op_ok_def Let_def nth_append)
  qed
  moreover have "registry_ok good over ?m" using assms by (auto simp: ownership_def intro: registry_frame)
  ultimately show ?thesis by (simp add: ownership_def)
qed

lemma owned_worker_moves:
  assumes own: "ownership good over {} m" and u: "u < length (mg_objects m)"
    and good: "good w" and over: "over (worker_of u m) \<Longrightarrow> over w"
  shows "ownership good over {} (worker_moves u w pubs m)"
proof -
  let ?m = "m\<lparr>mg_objects := (mg_objects m)[u := (mg_objects m ! u)\<lparr>mo_worker := w\<rparr>]\<rparr>"
  have w: "worker_of v ?m = (if v = u then w else worker_of v m)" if "v < length (mg_objects m)" for v
    using that by (simp add: worker_of_def)
  have "registry_ok good over ?m" using own u good over w by (auto simp: ownership_def registry_ok_def)
  moreover have "op_ok j ?m" if "op_ok j m" for j using that by (simp add: op_ok_def idle_def)
  ultimately have "ownership good over {} ?m" using own by (simp add: ownership_def)
  then show ?thesis unfolding worker_moves_def by (rule owned_frame) simp_all
qed

subsection \<open>Shutdown\<close>

text \<open>A shutdown of camera \<open>c\<close> that has not returned.\<close>

definition pending :: "string \<Rightarrow> nat \<Rightarrow> ('c, 'w) manager \<Rightarrow> bool" where
  "pending c i m \<longleftrightarrow> i < length (mg_ops m) \<and> op_kind (mg_ops m ! i) = ShutdownOp c
     \<and> (\<forall>r. op_pc (mg_ops m ! i) \<noteq> Returned r)"

definition shutdown_ok :: "('c, 'w) manager \<Rightarrow> bool" where
  "shutdown_ok m \<longleftrightarrow> (mg_closed m \<longleftrightarrow> mg_shutdown m \<noteq> NotRequested)
     \<and> (case mg_shutdown m of
          ShutdownGathering pairs \<Rightarrow> (\<forall>c \<in> fst ` set (mg_workers m). \<exists>i. (c, i) \<in> set pairs \<and> pending c i m)
        | ShutdownFinished fs \<Rightarrow> mg_workers m = []
        | _ \<Rightarrow> True)"

lemma shutdown_ok_step:
  assumes "shutdown_ok m" "mg_closed m' = mg_closed m" "mg_shutdown m' = mg_shutdown m"
    "mg_closed m \<Longrightarrow> fst ` set (mg_workers m') \<subseteq> fst ` set (mg_workers m)"
    "\<And>c i. mg_closed m \<Longrightarrow> c \<in> fst ` set (mg_workers m') \<Longrightarrow> pending c i m \<Longrightarrow> pending c i m'"
  shows "shutdown_ok m'"
proof (cases "mg_shutdown m")
  case NotRequested
  then show ?thesis using assms(1-3) by (simp add: shutdown_ok_def)
next
  case ShutdownScheduled
  then show ?thesis using assms(1-3) by (simp add: shutdown_ok_def)
next
  case (ShutdownGathering pairs)
  then have closed: "mg_closed m" using assms(1) by (simp add: shutdown_ok_def)
  have "\<exists>i. (c, i) \<in> set pairs \<and> pending c i m'" if "c \<in> fst ` set (mg_workers m')" for c
  proof -
    have "c \<in> fst ` set (mg_workers m)" using that assms(4) [OF closed] by blast
    then obtain i where "(c, i) \<in> set pairs" "pending c i m"
      using assms(1) ShutdownGathering unfolding shutdown_ok_def by fastforce
    then show ?thesis using assms(5) [OF closed that] by blast
  qed
  then show ?thesis using assms(1-3) ShutdownGathering by (simp add: shutdown_ok_def)
next
  case (ShutdownFinished fs)
  then have "mg_closed m" "mg_workers m = []" using assms(1) by (simp_all add: shutdown_ok_def)
  then have "mg_workers m' = []" using assms(4) by simp
  then show ?thesis using assms(1-3) ShutdownFinished by (simp add: shutdown_ok_def)
qed

lemma pending_set_pc:
  assumes "pending c j m" "j = i \<Longrightarrow> \<forall>r. pc \<noteq> Returned r"
  shows "pending c j (set_pc i pc m)"
  using assms by (auto simp: pending_def)

lemma pending_frame: "pending c j m \<Longrightarrow> mg_ops m' = mg_ops m \<Longrightarrow> pending c j m'"
  by (simp add: pending_def)

lemma shutdown_ok_set_pc:
  assumes "shutdown_ok m" "\<And>c. op_kind (mg_ops m ! i) = ShutdownOp c \<Longrightarrow> c \<in> fst ` set (mg_workers m) \<Longrightarrow> \<forall>r. pc \<noteq> Returned r"
  shows "shutdown_ok (set_pc i pc m)"
proof (rule shutdown_ok_step [OF assms(1)])
  fix c j
  assume "c \<in> fst ` set (mg_workers (set_pc i pc m))" "pending c j m"
  then show "pending c j (set_pc i pc m)"
    using assms(2) by (intro pending_set_pc) (auto simp: pending_def)
qed simp_all

lemma shutdown_ok_remember: "shutdown_ok m \<Longrightarrow> shutdown_ok (remember s m)"
  by (rule shutdown_ok_step [of m]) (auto intro: pending_frame)

lemma shutdown_ok_retire:
  assumes "shutdown_ok m"
  shows "shutdown_ok (retire api c u m)"
proof (rule shutdown_ok_step [OF assms])
  show "fst ` set (mg_workers (retire api c u m)) \<subseteq> fst ` set (mg_workers m)"
    using dom_delete_subset [of c "mg_workers m"] by auto
qed (auto intro: pending_frame)

lemma admit_closed:
  "mg_closed (admit api now i d m) = mg_closed m \<and> mg_shutdown (admit api now i d m) = mg_shutdown m"
proof -
  obtain m1 r where n: "new_worker api now d m = (m1, r)" by (cases "new_worker api now d m")
  show ?thesis using new_worker_fields [OF n] n
    by (cases "ensure_admission (Some (cd_camera_id d)) m"; cases r) (simp_all add: admit_def)
qed

lemma shutdown_ok_admit:
  assumes "shutdown_ok m" "starts (op_kind (mg_ops m ! i)) \<noteq> None"
  shows "shutdown_ok (admit api now i d m)"
proof (cases "mg_closed m")
  case True
  then have "admit api now i d m = set_pc i (Returned (Inl (case shutdown_error m of Some e \<Rightarrow> e
      | None \<Rightarrow> OrchError (orch_err SHUTDOWN (Some (cd_camera_id d)) ''camera manager is shutting down'')))) m"
    by (simp add: admit_def ensure_admission_def)
  moreover have "shutdown_ok (set_pc i (Returned x) m)" for x
    by (rule shutdown_ok_set_pc [OF assms(1)]) (use assms(2) in auto)
  ultimately show ?thesis by simp
next
  case False
  then have "mg_shutdown m = NotRequested" using assms(1) by (simp add: shutdown_ok_def)
  moreover have "mg_closed (admit api now i d m) = mg_closed m \<and> mg_shutdown (admit api now i d m) = mg_shutdown m"
    by (rule admit_closed)
  ultimately show ?thesis using False by (simp add: shutdown_ok_def)
qed

lemma shutdown_ok_acquire:
  assumes "shutdown_ok m"
  shows "shutdown_ok (acquire api now i m)"
proof (cases "map_of (mg_workers m) (op_camera (op_kind (mg_ops m ! i)))")
  case None
  then have c: "op_camera (op_kind (mg_ops m ! i)) \<notin> fst ` set (mg_workers m)" by (simp add: map_of_eq_None_iff)
  have "shutdown_ok (set_pc i pc m)" for pc by (rule shutdown_ok_set_pc [OF assms]) (use c in auto)
  with None show ?thesis using shutdown_ok_admit [OF assms]
    by (cases "op_kind (mg_ops m ! i)") (simp_all add: acquire_defs Let_def)
next
  case (Some u)
  have "shutdown_ok (set_pc i pc m)" if "(\<forall>c. op_kind (mg_ops m ! i) \<noteq> ShutdownOp c) \<or> (\<forall>r. pc \<noteq> Returned r)" for pc
    by (rule shutdown_ok_set_pc [OF assms]) (use that in auto)
  with Some show ?thesis
    by (cases "op_kind (mg_ops m ! i)") (simp_all add: acquire_defs Let_def)
qed

lemma shutdown_ok_resume:
  assumes s: "shutdown_ok m" and own: "ownership good over {} m" and i: "i < length (mg_ops m)"
  shows "shutdown_ok (resume api now failed i m)"
proof -
  let ?k = "op_kind (mg_ops m ! i)" and ?pc = "op_pc (mg_ops m ! i)"
  have ok: "op_ok i m" using own i by (simp add: ownership_def)
  have started: "shutdown_ok (set_pc i (started_result ?k st) (remember st m'))"
    if "shutdown_ok m'" "mg_ops m' = mg_ops m" "\<And>c. ?k = ShutdownOp c \<Longrightarrow> c \<notin> fst ` set (mg_workers m')" for st m'
    by (rule shutdown_ok_set_pc) (use that shutdown_ok_remember in auto)
  have gone: "c \<notin> fst ` set (mg_workers (retire api (op_camera ?k) u m))"
    if "?k = ShutdownOp c" "pc_uid ?pc = Some u" for c u
  proof -
    have "map_of (mg_workers m) c = Some u" using ok that by (simp add: op_ok_def Let_def)
    then show ?thesis using that(1) by (simp add: map_of_eq_None_iff [symmetric])
  qed
  have ret: "shutdown_ok (set_pc i pc (retire api (op_camera ?k) u m))" if "pc_uid ?pc = Some u" for pc u
    by (rule shutdown_ok_set_pc [OF shutdown_ok_retire [OF s]]) (use gone that in auto)
  have und: "shutdown_ok (set_pc i (started_result ?k st) (remember st (retire api (op_camera ?k) u m)))"
    if "pc_uid ?pc = Some u" for u st
    by (rule started [OF shutdown_ok_retire [OF s]]) (use gone that in auto)
  show ?thesis
  proof (cases ?pc)
    case (StoppingOld u)
    then show ?thesis using ret [of u] shutdown_ok_retire [OF s] shutdown_ok_admit [OF shutdown_ok_retire [OF s]]
      by (cases ?k) (simp_all add: resume_defs Let_def)
  next
    case (StartingNew u)
    have hold: "shutdown_ok (set_pc i pc m)" if "\<forall>r. pc \<noteq> Returned r" for pc
      by (rule shutdown_ok_set_pc [OF s]) (use that in simp)
    have "shutdown_ok (set_pc i (started_result ?k st) (remember st m))" if "\<not> mg_closed m" for st
      using that s by (simp add: shutdown_ok_def)
    then show ?thesis using StartingNew hold s
      by (auto simp: resume_defs resume_started_def Let_def split: option.split)
  next
    case (SettlingFailed u e)
    then show ?thesis using ret [of u] by (simp add: resume_defs Let_def)
  next
    case (UndoingStart u st)
    then show ?thesis using ret [of u] und [of u] by (auto simp: resume_defs Let_def split: sum.split)
  next
    case (StoppingOne u)
    then show ?thesis using ret [of u] by (simp add: resume_defs Let_def)
  next
    case (ShuttingDown u)
    then show ?thesis using ret [of u] by (simp add: resume_defs Let_def)
  qed (use s in \<open>simp_all add: resume_defs\<close>)
qed

lemma shutdown_ok_spawn: "shutdown_ok m \<Longrightarrow> shutdown_ok (fst (spawn ks m))"
  by (rule shutdown_ok_step) (auto simp: pending_def nth_append)

lemma shutdown_ok_begin:
  assumes "shutdown_ok m" "mg_shutdown m = ShutdownScheduled"
  shows "shutdown_ok (begin_shutdown m)"
proof -
  let ?cs = "map fst (mg_workers m)" and ?n = "length (mg_ops m)"
  have "\<exists>i. (c, i) \<in> set (zip ?cs [?n..<?n + length ?cs]) \<and> pending c i (begin_shutdown m)" if "c \<in> set ?cs" for c
  proof -
    from that obtain k where k: "k < length ?cs" "?cs ! k = c" by (metis in_set_conv_nth)
    then have "(c, ?n + k) \<in> set (zip ?cs [?n..<?n + length ?cs])" by (auto simp: in_set_zip intro!: exI [of _ k])
    moreover have "pending c (?n + k) (begin_shutdown m)"
      using k by (simp add: pending_def begin_shutdown_def spawn_def nth_append)
    ultimately show ?thesis by blast
  qed
  moreover have "mg_workers (begin_shutdown m) = mg_workers m" "mg_closed (begin_shutdown m) = mg_closed m"
    "mg_shutdown (begin_shutdown m) = ShutdownGathering (zip ?cs [?n..<?n + length ?cs])"
    by (simp_all add: begin_shutdown_def spawn_def)
  ultimately show ?thesis using assms by (auto simp: shutdown_ok_def)
qed

lemma shutdown_ok_end:
  assumes "shutdown_ok m" "m_enabled api moves m EndShutdown"
  shows "shutdown_ok (end_shutdown m)"
proof -
  obtain pairs where p: "mg_shutdown m = ShutdownGathering pairs" "all_returned (map snd pairs) m"
    using assms(2) by (auto split: shutdown_pc.splits)
  have np: "\<not> pending c i m" if "(c, i) \<in> set pairs" for c i
  proof -
    have "op_result i m \<noteq> None" using p(2) that by (auto simp: all_returned_def list_all_iff)
    then show ?thesis by (auto simp: op_result_def pending_def split: op_pc.splits)
  qed
  have "c \<notin> fst ` set (mg_workers m)" for c
  proof
    assume c: "c \<in> fst ` set (mg_workers m)"
    have "\<forall>c \<in> fst ` set (mg_workers m). \<exists>i. (c, i) \<in> set pairs \<and> pending c i m"
      using assms(1) p(1) unfolding shutdown_ok_def by (simp only: shutdown_pc.case) blast
    then obtain i where "(c, i) \<in> set pairs" "pending c i m" using c by blast
    then show False using np by simp
  qed
  then have "mg_workers m = []" by (cases "mg_workers m") auto
  moreover have "mg_closed m" using assms(1) p(1) by (simp add: shutdown_ok_def)
  ultimately show ?thesis using p(1) by (simp add: shutdown_ok_def end_shutdown_def)
qed

subsection \<open>Retained statuses and generations\<close>

definition retained_ok :: "('c, 'w) manager \<Rightarrow> bool" where
  "retained_ok m \<longleftrightarrow> 1 \<le> mg_retained m \<and> dict_ok (mg_statuses m) \<and> length (mg_statuses m) \<le> mg_retained m
     \<and> dict_ok (mg_generations m) \<and> length (mg_generations m) \<le> mg_retained m"

lemma retained_frame:
  assumes "retained_ok m" "mg_retained m' = mg_retained m" "mg_statuses m' = mg_statuses m" "mg_generations m' = mg_generations m"
  shows "retained_ok m'"
  using assms by (simp add: retained_ok_def)

lemma retained_remember: "retained_ok m \<Longrightarrow> retained_ok (remember s m)"
  by (simp add: retained_ok_def remember_def recent.ok_put recent.size_put)

lemma retained_fold: "retained_ok m \<Longrightarrow> retained_ok (fold remember ss m)"
  by (induction ss arbitrary: m) (simp_all add: retained_remember)

lemma retained_set_pc [simp]: "retained_ok (set_pc i pc m) = retained_ok m"
  by (simp add: retained_ok_def)

lemma retained_retire: "retained_ok m \<Longrightarrow> retained_ok (retire api c u m)"
  by (rule retained_frame [OF retained_remember]) simp_all

lemma retained_new_worker: "retained_ok m \<Longrightarrow> new_worker api now d m = (m1, r) \<Longrightarrow> retained_ok m1"
  using new_worker_fields [of api now d m m1 r] by (simp add: retained_ok_def recent.ok_put recent.size_put)

lemma retained_admit:
  assumes "retained_ok m"
  shows "retained_ok (admit api now i d m)"
proof -
  obtain m1 r where n: "new_worker api now d m = (m1, r)" by (cases "new_worker api now d m")
  show ?thesis using retained_new_worker [OF assms n] assms n
    by (cases "ensure_admission (Some (cd_camera_id d)) m"; cases r) (simp_all add: admit_def)
qed

lemma retained_acquire: "retained_ok m \<Longrightarrow> retained_ok (acquire api now i m)"
  by (cases "op_kind (mg_ops m ! i)"; cases "map_of (mg_workers m) (op_camera (op_kind (mg_ops m ! i)))")
    (simp_all add: acquire_defs Let_def retained_admit)

lemma retained_resume:
  assumes "retained_ok m"
  shows "retained_ok (resume api now failed i m)"
proof -
  have s: "retained_ok (resume_started api i u m)" for u
    using assms by (auto simp: resume_started_def Let_def retained_remember split: option.split)
  show ?thesis
    using assms s
    by (cases "op_pc (mg_ops m ! i)"; cases "op_kind (mg_ops m ! i)")
      (simp_all add: resume_defs Let_def retained_admit retained_retire retained_remember split: sum.split)
qed

subsection \<open>The contract of a worker\<close>

definition mg_inv :: "('w \<Rightarrow> bool) \<Rightarrow> ('w \<Rightarrow> bool) \<Rightarrow> ('c, 'w) manager \<Rightarrow> bool" where
  "mg_inv good over m \<longleftrightarrow> ownership good over {} m \<and> shutdown_ok m \<and> retained_ok m"

lemma mg_inv_frame:
  assumes "mg_inv good over m"
  shows "mg_inv good over (m\<lparr>mg_jobs := js\<rparr>)"
proof -
  let ?m = "m\<lparr>mg_jobs := js\<rparr>"
  have "ownership good over {} ?m" by (rule owned_frame [of _ _ _ m]) (use assms in \<open>simp_all add: mg_inv_def\<close>)
  moreover have "shutdown_ok ?m"
    by (rule shutdown_ok_step [of m]) (use assms in \<open>auto simp: mg_inv_def pending_def\<close>)
  moreover have "retained_ok ?m" by (rule retained_frame [of m]) (use assms in \<open>simp_all add: mg_inv_def\<close>)
  ultimately show ?thesis by (simp add: mg_inv_def)
qed

lemma mg_inv_spawn:
  assumes "mg_inv good over m"
  shows "mg_inv good over (fst (spawn ks m))"
proof -
  have "retained_ok (fst (spawn ks m))" by (rule retained_frame [of m]) (use assms in \<open>simp_all add: mg_inv_def\<close>)
  then show ?thesis using assms owned_spawn shutdown_ok_spawn by (auto simp: mg_inv_def)
qed

lemma mg_inv_apply_desired:
  assumes "mg_inv good over m"
  shows "mg_inv good over (fst (apply_desired api desired m))"
  using mg_inv_spawn [OF assms] assms
  by (auto simp: apply_desired_def case_prod_unfold split: list.split)

lemma mg_inv_reconcile:
  assumes "mg_inv good over m"
  shows "mg_inv good over (fst (reconcile_begin api desired m))" "mg_inv good over (fst (reconcile_next api pc m))"
  using assms mg_inv_spawn [OF assms] mg_inv_apply_desired [OF assms]
  by (auto simp: reconcile_begin_def reconcile_next_def case_prod_unfold
      split: list.split sum.split reconcile_pc.split)

lemma mg_inv_init: "manager_init r n = Inr m \<Longrightarrow> mg_inv good over m"
  by (auto simp: manager_init_def mg_inv_def ownership_def registry_ok_def shutdown_ok_def retained_ok_def split: if_splits)

text \<open>
  What the manager relies on: the constructor gives a good worker, its steps keep it good, a worker
  whose supervisor task has ended stays ended, and then shows a terminal state.
\<close>

locale worker_contract =
  fixes api :: "('c, 'w) worker_api"
    and moves :: "'w \<Rightarrow> 'w \<Rightarrow> camera_status list \<Rightarrow> bool"
    and good :: "'w \<Rightarrow> bool"
  assumes new_good: "wa_new api d g now = Inr w \<Longrightarrow> good w"
    and moves_good: "good w \<Longrightarrow> moves w w' pubs \<Longrightarrow> good w'"
    and over_stable: "good w \<Longrightarrow> wa_over api w \<Longrightarrow> moves w w' pubs \<Longrightarrow> wa_over api w'"
    and over_terminal: "good w \<Longrightarrow> wa_over api w \<Longrightarrow> cs_state (wa_status api w) \<in> {STOPPED, FAILED}"
begin

abbreviation inv :: "('c, 'w) manager \<Rightarrow> bool" where
  "inv \<equiv> mg_inv good (wa_over api)"

lemma step_inv:
  assumes inv: "inv m" and en: "m_enabled api moves m s"
  shows "inv (m_perform api m s)"
proof -
  have own: "ownership good (wa_over api) {} m" and sh: "shutdown_ok m" and re: "retained_ok m"
    using inv by (simp_all add: mg_inv_def)
  show ?thesis
  proof (cases s)
    case (WorkerMoves u w pubs)
    then have u: "u < length (mg_objects m)" and mv: "moves (worker_of u m) w pubs" using en by simp_all
    have g: "good (worker_of u m)" using own u by (simp add: ownership_def registry_ok_def)
    have "ownership good (wa_over api) {} (worker_moves u w pubs m)"
      by (rule owned_worker_moves [OF own u]) (use moves_good [OF g mv] over_stable [OF g _ mv] in auto)
    moreover have "shutdown_ok (worker_moves u w pubs m)"
      by (rule shutdown_ok_step [OF sh]) (auto simp: worker_moves_def pending_def)
    moreover have "retained_ok (worker_moves u w pubs m)"
      unfolding worker_moves_def by (rule retained_fold, rule retained_frame [OF re]) simp_all
    ultimately show ?thesis using WorkerMoves by (simp add: mg_inv_def)
  next
    case (Call k)
    then show ?thesis using mg_inv_spawn [OF inv, of "[k]"] by simp
  next
    case (Acquire now i)
    then show ?thesis using en new_good own sh re owned_acquire [OF own] shutdown_ok_acquire retained_acquire
      by (auto simp: mg_inv_def)
  next
    case (Resume now failed i)
    then show ?thesis using en new_good owned_resume [OF own] shutdown_ok_resume [OF sh own] retained_resume [OF re]
      by (auto simp: mg_inv_def)
  next
    case RequestShutdown
    have "ownership good (wa_over api) {} (request_shutdown m)"
      by (rule owned_frame [OF own]) (simp_all add: request_shutdown_def)
    moreover have "shutdown_ok (request_shutdown m)"
      using sh by (auto simp: shutdown_ok_def request_shutdown_def pending_def split: shutdown_pc.splits)
    moreover have "retained_ok (request_shutdown m)" by (rule retained_frame [OF re]) (simp_all add: request_shutdown_def)
    ultimately show ?thesis using RequestShutdown by (simp add: mg_inv_def)
  next
    case BeginShutdown
    have f: "begin_shutdown m = fst (spawn (map ShutdownOp (map fst (mg_workers m))) m)
        \<lparr>mg_shutdown := mg_shutdown (begin_shutdown m)\<rparr>"
      by (simp add: begin_shutdown_def spawn_def)
    have sp: "mg_inv good (wa_over api) (fst (spawn (map ShutdownOp (map fst (mg_workers m))) m))" by (rule mg_inv_spawn [OF inv])
    have "ownership good (wa_over api) {} (begin_shutdown m)"
      by (subst f, rule owned_frame [of _ _ _ "fst (spawn (map ShutdownOp (map fst (mg_workers m))) m)"])
        (use sp in \<open>simp_all add: mg_inv_def\<close>)
    moreover have "retained_ok (begin_shutdown m)"
      by (rule retained_frame [OF re]) (simp_all add: begin_shutdown_def spawn_def)
    ultimately show ?thesis using BeginShutdown shutdown_ok_begin [OF sh] en by (simp add: mg_inv_def)
  next
    case EndShutdown
    have e: "end_shutdown m = m\<lparr>mg_shutdown := mg_shutdown (end_shutdown m)\<rparr>"
      by (simp add: end_shutdown_def split: shutdown_pc.split)
    have "ownership good (wa_over api) {} (end_shutdown m)" by (subst e, rule owned_frame [OF own]) simp_all
    moreover have "retained_ok (end_shutdown m)" by (subst e, rule retained_frame [OF re]) simp_all
    ultimately show ?thesis using EndShutdown shutdown_ok_end [OF sh] en by (simp add: mg_inv_def)
  next
    case (Reconcile desired)
    then show ?thesis using mg_inv_frame [OF mg_inv_reconcile(1) [OF inv]] by (simp add: case_prod_unfold)
  next
    case (ReconcileNext j)
    then show ?thesis using mg_inv_frame [OF mg_inv_reconcile(2) [OF inv]] by (simp add: case_prod_unfold)
  qed
qed

lemma reachable_inv:
  assumes "m_reachable api moves m0 m" "manager_init r n = Inr m0"
  shows "inv m"
  using assms by (induction rule: m_reachable.induct) (auto intro: mg_inv_init step_inv)

lemma unregistered_over:
  assumes "inv m" "u < length (mg_objects m)" "u \<notin> snd ` set (mg_workers m)"
  shows "wa_over api (worker_of u m)" "cs_state (wa_status api (worker_of u m)) \<in> {STOPPED, FAILED}"
  using assms over_terminal by (auto simp: mg_inv_def ownership_def registry_ok_def)

lemma holders_exclusive:
  assumes "inv m" "i < length (mg_ops m)" "j < length (mg_ops m)" "pc_uid (op_pc (mg_ops m ! i)) = Some u"
    "pc_uid (op_pc (mg_ops m ! j)) = Some v"
    "op_camera (op_kind (mg_ops m ! i)) = op_camera (op_kind (mg_ops m ! j))"
  shows "i = j"
proof (rule ccontr)
  assume "i \<noteq> j"
  have "op_ok j m" using assms(1,3) by (simp add: mg_inv_def ownership_def)
  then have "idle {j} (op_camera (op_kind (mg_ops m ! j))) m" using assms(5) by (simp add: op_ok_def Let_def)
  then show False using assms(2,4,6) \<open>i \<noteq> j\<close> by (simp add: idle_def)
qed

end

end
