(* ===== verification/Manager_Props.thy ===== *)
theory Manager_Props
  imports Manager_Inv Worker_Props
begin

section \<open>The manager over camera workers\<close>

text \<open>
  The contract of \<open>Manager_Inv\<close> is discharged for the model of \<open>CameraWorker\<close>, and the properties
  of the manager are stated for every run of the two together: the steps of the workers, of the
  operations, of reconciliations and of the shutdown, in any order.
\<close>

subsection \<open>Camera workers meet the contract\<close>

definition camera_worker_new :: "'c camera_definition \<Rightarrow> int \<Rightarrow> time \<Rightarrow> py_error + 'f worker" where
  "camera_worker_new d g now = bindE (fb_init (cd_frame_buffer_size d)) (\<lambda>buffer.
     worker_init (cd_camera_id d) buffer (nat (cd_event_queue_size d)) g 64 now)"

definition start_answer :: "'f worker \<Rightarrow> orch_error option option" where
  "start_answer w = (case w_started w of
     ResolvedStart \<Rightarrow> Some None | RejectedStart e \<Rightarrow> Some (Some e) | _ \<Rightarrow> None)"

definition camera_api :: "('c, 'f worker) worker_api" where
  "camera_api = \<lparr>wa_new = camera_worker_new, wa_status = worker_status, wa_failures = w_shutdown_failures,
     wa_answer = start_answer, wa_over = (\<lambda>w. w_sup w = SupDone)\<rparr>"

text \<open>Any run of the worker's steps; what it publishes carries its camera and generation.\<close>

definition camera_moves :: "'f worker \<Rightarrow> 'f worker \<Rightarrow> camera_status list \<Rightarrow> bool" where
  "camera_moves w w' pubs \<longleftrightarrow> (\<exists>ss. w_run w ss = Some w')
     \<and> list_all (\<lambda>s. cs_camera_id s = w_camera_id w \<and> cs_generation s = w_generation w) pubs"

lemma run_inv: "w_inv w \<Longrightarrow> w_run w ss = Some w' \<Longrightarrow> w_inv w'"
  by (induction ss arbitrary: w) (auto split: if_splits intro: perform_inv)

lemma done_step:
  assumes inv: "w_inv w" and d: "w_sup w = SupDone" and en: "enabled w s"
  shows "w_sup (perform w s) = SupDone"
proof -
  have p: "loops_over w" "w_ev w \<in> {EvNone, EvDone}" using inv d by (auto simp: w_inv_def)
  have t: "w_sup w' = w_sup w" if "transition t r now w = Inr w'" for t r now w'
    using that by (auto simp: transition_def split: if_splits)
  show ?thesis
  proof (cases s)
    case (Stop t c)
    then show ?thesis using d by (auto simp: w_stop_call_def sup_over_def)
  next
    case (Callback t e)
    then show ?thesis using d
      by (auto simp: queue_event_def drop_event_def record_failure_def split: sum.split)
  qed (use d en p in \<open>auto simp: w_start_def loops_over_def cap_done_def an_done_def\<close>)
qed

lemma done_run:
  assumes "w_inv w" "w_sup w = SupDone" "w_run w ss = Some w'"
  shows "w_sup w' = SupDone"
  using assms by (induction ss arbitrary: w) (auto split: if_splits dest: done_step perform_inv)

interpretation cam: worker_contract camera_api camera_moves w_inv
proof
  show "w_inv w" if "wa_new camera_api d g now = Inr w" for d :: "'a camera_definition" and g now and w :: "'b worker"
    using that by (auto simp: camera_api_def camera_worker_new_def bindE_eq_Inr intro: worker_init_inv)
  show "w_inv w'" if "w_inv w" "camera_moves w w' pubs" for w w' :: "'b worker" and pubs
    using that run_inv by (auto simp: camera_moves_def)
  show "wa_over camera_api w'" if "w_inv w" "wa_over camera_api w" "camera_moves w w' pubs" for w w' :: "'b worker" and pubs
    using that done_run by (auto simp: camera_moves_def camera_api_def)
  show "cs_state (wa_status camera_api w) \<in> {STOPPED, FAILED}" if "w_inv w" "wa_over camera_api w" for w :: "'b worker"
    using that by (auto simp: camera_api_def worker_status_def Let_def w_inv_def)
qed

subsection \<open>Limits and admission\<close>

lemma admit_limits:
  "mg_max_active (admit api now i d m) = mg_max_active m \<and> mg_retained (admit api now i d m) = mg_retained m
   \<and> (mg_closed m \<longrightarrow> mg_objects (admit api now i d m) = mg_objects m)"
proof -
  obtain m1 r where n: "new_worker api now d m = (m1, r)" by (cases "new_worker api now d m")
  have c: "mg_closed m \<Longrightarrow> \<exists>e. ensure_admission (Some (cd_camera_id d)) m = Inl e" by (simp add: ensure_admission_def)
  show ?thesis using new_worker_fields [OF n] n c
    by (cases "ensure_admission (Some (cd_camera_id d)) m"; cases r) (auto simp: admit_def)
qed

lemma acquire_limits:
  "mg_max_active (acquire api now i m) = mg_max_active m \<and> mg_retained (acquire api now i m) = mg_retained m
   \<and> (mg_closed m \<longrightarrow> mg_objects (acquire api now i m) = mg_objects m)"
  by (cases "op_kind (mg_ops m ! i)"; cases "map_of (mg_workers m) (op_camera (op_kind (mg_ops m ! i)))")
    (simp_all add: acquire_defs Let_def admit_limits)

lemma resume_limits:
  "mg_max_active (resume api now failed i m) = mg_max_active m \<and> mg_retained (resume api now failed i m) = mg_retained m
   \<and> (mg_closed m \<longrightarrow> mg_objects (resume api now failed i m) = mg_objects m)"
proof -
  have s: "mg_max_active (resume_started api i u m) = mg_max_active m \<and> mg_retained (resume_started api i u m) = mg_retained m
      \<and> mg_objects (resume_started api i u m) = mg_objects m" for u
    by (simp add: resume_started_def Let_def split: option.split)
  show ?thesis
    by (cases "op_pc (mg_ops m ! i)"; cases "op_kind (mg_ops m ! i)")
      (simp_all add: resume_defs Let_def admit_limits s split: sum.split)
qed

lemma reconcile_limits:
  "mg_max_active (fst (reconcile_begin api ds m)) = mg_max_active m \<and> mg_retained (fst (reconcile_begin api ds m)) = mg_retained m
   \<and> mg_objects (fst (reconcile_begin api ds m)) = mg_objects m"
  "mg_max_active (fst (reconcile_next api pc m)) = mg_max_active m \<and> mg_retained (fst (reconcile_next api pc m)) = mg_retained m
   \<and> mg_objects (fst (reconcile_next api pc m)) = mg_objects m"
proof -
  have a: "mg_max_active (fst (apply_desired api ds m)) = mg_max_active m \<and> mg_retained (fst (apply_desired api ds m)) = mg_retained m
      \<and> mg_objects (fst (apply_desired api ds m)) = mg_objects m" for ds
    by (simp add: apply_desired_def case_prod_unfold split: list.split)
  show "mg_max_active (fst (reconcile_begin api ds m)) = mg_max_active m \<and> mg_retained (fst (reconcile_begin api ds m)) = mg_retained m
      \<and> mg_objects (fst (reconcile_begin api ds m)) = mg_objects m"
    by (simp add: reconcile_begin_def case_prod_unfold a split: list.split sum.split)
  show "mg_max_active (fst (reconcile_next api pc m)) = mg_max_active m \<and> mg_retained (fst (reconcile_next api pc m)) = mg_retained m
      \<and> mg_objects (fst (reconcile_next api pc m)) = mg_objects m"
    by (simp add: reconcile_next_def a split: list.split reconcile_pc.split)
qed

lemma step_limits:
  "mg_max_active (m_perform api m s) = mg_max_active m" "mg_retained (m_perform api m s) = mg_retained m"
  "mg_closed m \<Longrightarrow> length (mg_objects (m_perform api m s)) = length (mg_objects m)"
proof -
  have "mg_max_active (m_perform api m s) = mg_max_active m \<and> mg_retained (m_perform api m s) = mg_retained m
      \<and> (mg_closed m \<longrightarrow> length (mg_objects (m_perform api m s)) = length (mg_objects m))"
  proof (cases s)
    case (Acquire t i)
    then show ?thesis using acquire_limits [of api t i m] by simp
  next
    case (Resume t f i)
    then show ?thesis using resume_limits [of api t f i m] by simp
  next
    case (Reconcile ds)
    then show ?thesis using reconcile_limits(1) [of api ds m] by (simp add: case_prod_unfold)
  next
    case (ReconcileNext j)
    then show ?thesis using reconcile_limits(2) [of api "mg_jobs m ! j" m] by (simp add: case_prod_unfold)
  next
    case EndShutdown
    then show ?thesis by (simp add: end_shutdown_def split: shutdown_pc.split)
  qed (simp_all add: worker_moves_def request_shutdown_def begin_shutdown_def case_prod_unfold Let_def)
  then show "mg_max_active (m_perform api m s) = mg_max_active m" "mg_retained (m_perform api m s) = mg_retained m"
    "mg_closed m \<Longrightarrow> length (mg_objects (m_perform api m s)) = length (mg_objects m)" by simp_all
qed

lemma closed_step:
  assumes "mg_closed m"
  shows "mg_closed (m_perform api m s)"
proof -
  have a: "mg_closed (admit api now i d m') = mg_closed m'" for now i d m' using admit_closed by blast
  have c: "mg_closed (acquire api now i m) = mg_closed m" for now i
    by (cases "op_kind (mg_ops m ! i)"; cases "map_of (mg_workers m) (op_camera (op_kind (mg_ops m ! i)))")
      (simp_all add: acquire_defs Let_def a)
  have t: "mg_closed (resume_started api i u m) = mg_closed m" for i u
    by (simp add: resume_started_def Let_def split: option.split)
  have r: "mg_closed (resume api now failed i m) = mg_closed m" for now failed i
    by (cases "op_pc (mg_ops m ! i)"; cases "op_kind (mg_ops m ! i)")
      (simp_all add: resume_defs Let_def a t split: sum.split)
  have p: "mg_closed (fst (apply_desired api ds m)) = mg_closed m" for ds
    by (simp add: apply_desired_def case_prod_unfold split: list.split)
  show ?thesis using assms
    by (cases s) (auto simp: c r p worker_moves_def request_shutdown_def begin_shutdown_def end_shutdown_def
        reconcile_begin_def reconcile_next_def case_prod_unfold Let_def
        split: shutdown_pc.split list.split sum.split reconcile_pc.split)
qed

lemma reachable_limits:
  assumes "m_reachable api moves m0 m" "manager_init r n = Inr m0"
  shows "mg_max_active m = nat n" "mg_retained m = nat r"
  using assms by (induction rule: m_reachable.induct) (auto simp: step_limits manager_init_def split: if_splits)

subsection \<open>Properties\<close>

lemma registered_or_done:
  assumes "m_reachable camera_api camera_moves m0 m" "manager_init r n = Inr m0" "u < length (mg_objects m)"
  shows "u \<in> snd ` set (mg_workers m) \<or> w_sup (worker_of u m) = SupDone" "w_inv (worker_of u m)"
  using cam.unregistered_over(1) [OF cam.reachable_inv [OF assms(1,2)] assms(3)]
    cam.reachable_inv [OF assms(1,2)] assms(3)
  by (auto simp: camera_api_def mg_inv_def ownership_def registry_ok_def)

text \<open>
  C21. Whatever operations, reconciliations and shutdowns run concurrently, the manager never registers
  more cameras than its capacity, registers a camera at most once, keeps its status and generation
  tables within their bound, and never loses a running worker: a worker that is not registered has ended.
\<close>
theorem manager_owns_workers:
  fixes m :: "('c, 'f worker) manager"
  assumes "manager_init r n = Inr m0" "m_reachable camera_api camera_moves m0 m"
  shows "int (length (mg_workers m)) \<le> n \<and> distinct (map fst (mg_workers m))
    \<and> int (length (mg_statuses m)) \<le> r \<and> int (length (mg_generations m)) \<le> r
    \<and> (\<forall>u < length (mg_objects m). u \<in> snd ` set (mg_workers m) \<or> w_sup (worker_of u m) = SupDone)"
proof -
  have inv: "cam.inv m" by (rule cam.reachable_inv [OF assms(2,1)])
  have "1 \<le> r" "1 \<le> n" using assms(1) by (auto simp: manager_init_def split: if_splits)
  then show ?thesis
    using inv reachable_limits [OF assms(2,1)] registered_or_done(1) [OF assms(2,1)]
    by (auto simp: mg_inv_def ownership_def registry_ok_def retained_ok_def dict_ok_def le_nat_iff)
qed

text \<open>
  C22. A finished shutdown leaves nothing behind: no camera is registered, admission stays closed, and of
  every worker ever created the supervisor has ended, in \<open>STOPPED\<close> or \<open>FAILED\<close>, with its capture device
  and pipeline closed and its buffer and queue empty.
\<close>
theorem manager_shutdown_complete:
  fixes m :: "('c, 'f worker) manager"
  assumes "manager_init r n = Inr m0" "m_reachable camera_api camera_moves m0 m"
    "mg_shutdown m = ShutdownFinished fs" "u < length (mg_objects m)"
  shows "mg_workers m = [] \<and> mg_closed m \<and> w_sup (worker_of u m) = SupDone
    \<and> w_state (worker_of u m) \<in> {STOPPED, FAILED} \<and> (w_capture (worker_of u m) \<longrightarrow> w_capture_closed (worker_of u m))
    \<and> (w_pipeline (worker_of u m) \<longrightarrow> w_pipeline_closed (worker_of u m))
    \<and> w_queue (worker_of u m) = [] \<and> fb_frames (w_buffer (worker_of u m)) = []"
proof -
  have "shutdown_ok m" using cam.reachable_inv [OF assms(2,1)] by (simp add: mg_inv_def)
  with assms(3) have w: "mg_workers m = []" "mg_closed m" by (simp_all add: shutdown_ok_def)
  then have d: "w_sup (worker_of u m) = SupDone" "w_inv (worker_of u m)"
    using registered_or_done [OF assms(2,1,4)] by auto
  then have "phase SupDone (worker_of u m)" by (simp add: w_inv_def)
  with w d show ?thesis by simp
qed

text \<open>
  C23. Operations on one camera exclude each other: two operations that hold a worker of the same camera
  are the same operation, and the worker is the registered one.
\<close>
theorem camera_operations_exclusive:
  fixes m :: "('c, 'f worker) manager"
  assumes "manager_init r n = Inr m0" "m_reachable camera_api camera_moves m0 m"
    "i < length (mg_ops m)" "j < length (mg_ops m)"
    "pc_uid (op_pc (mg_ops m ! i)) = Some u" "pc_uid (op_pc (mg_ops m ! j)) = Some v"
    "op_camera (op_kind (mg_ops m ! i)) = op_camera (op_kind (mg_ops m ! j))"
  shows "i = j \<and> map_of (mg_workers m) (op_camera (op_kind (mg_ops m ! i))) = Some u"
proof -
  have inv: "cam.inv m" by (rule cam.reachable_inv [OF assms(2,1)])
  then have "op_ok i m" using assms(3) by (simp add: mg_inv_def ownership_def)
  then show ?thesis using cam.holders_exclusive [OF inv assms(3-7)] assms(5) by (simp add: op_ok_def Let_def)
qed

text \<open>
  Once a shutdown has been requested no further worker is ever created.
\<close>
theorem closed_manager_creates_nothing:
  assumes "mg_closed m" "m_run api moves m ss = Some m'"
  shows "length (mg_objects m') = length (mg_objects m) \<and> mg_closed m'"
  using assms
proof (induction ss arbitrary: m)
  case (Cons s ss)
  have "mg_closed (m_perform api m s)"
    using Cons.prems(1) closed_step by blast
  then show ?case using Cons step_limits(3) [of m api s] by (auto split: if_splits)
qed simp

subsection \<open>A shutdown that meets a start\<close>

definition demo_camera :: "unit camera_definition" where
  "demo_camera = \<lparr>cd_camera_id = ''cam-1'', cd_source = StreamUrl ''0'', cd_config = (), cd_frame_buffer_size = 10,
     cd_event_queue_size = 100, cd_sink_timeout = 5, cd_reconnect_delay = 2, cd_frame_wait = 1 / 4\<rparr>"

definition demo_manager :: "(unit, 'w) manager" where
  "demo_manager = \<lparr>mg_retained = 1, mg_max_active = 2, mg_objects = [], mg_workers = [], mg_statuses = [],
     mg_generations = [], mg_closed = False, mg_shutdown = NotRequested, mg_ops = [], mg_jobs = []\<rparr>"

lemma demo_manager_init: "manager_init 1 2 = Inr demo_manager"
  by (simp add: manager_init_def demo_manager_def)

text \<open>
  The camera is being started when the shutdown is requested; the start sees the closed admission and
  stops the worker again; the shutdown of the camera then finds no worker.
\<close>

definition racing_steps :: "'w \<Rightarrow> 'w \<Rightarrow> (unit, 'w) mstep list" where
  "racing_steps w1 w2 = [Call (StartOp demo_camera), Acquire 0 0, RequestShutdown, BeginShutdown, WorkerMoves 0 w1 [],
     Resume 5 None 0, WorkerMoves 0 w2 [], Resume 6 None 0, Acquire 7 1, EndShutdown]"

lemmas manager_eval = spawn_def lock_free_def acquire_defs admit_def ensure_admission_def new_worker_def dict_get_def
  set_pc_def worker_of_def request_shutdown_def begin_shutdown_def worker_moves_def resume_defs resume_started_def
  retire_def remember_def remove_worker_def all_returned_def op_result_def end_shutdown_def camera_failures_def
  demo_manager_def demo_camera_def shutdown_error_def

lemma racing_run:
  assumes "wa_new api demo_camera 1 0 = Inr w0" "moves w0 w1 []" "wa_answer api w1 = Some None" "moves w1 w2 []" "wa_over api w2"
  shows "\<exists>m. m_run api moves demo_manager (racing_steps w1 w2) = Some m \<and> mg_shutdown m = ShutdownFinished []
    \<and> length (mg_objects m) = 1 \<and> worker_of 0 m = w2"
  using assms by (simp add: racing_steps_def manager_eval Let_def)

lemma racing_workers:
  obtains w0 w1 w2 :: "nat worker" where "camera_worker_new demo_camera 1 0 = Inr w0" "camera_moves w0 w1 []"
    "start_answer w1 = Some None" "camera_moves w1 w2 []" "w_sup w2 = SupDone" "w_shutdown_failures w2 \<noteq> []"
proof -
  let ?up = "[Start 1, CaptureCreated 2 None None, PipelineCreated 3 None None] :: nat wstep list"
  let ?down = "[Stop 4 (Some ''boom''), CaptureScheduled, AnalyticsScheduled, TasksDone 5 None True, Gathered 6,
    PipelineClosed 7 None, QueueJoined, EventTaken, EventsDone 8] :: nat wstep list"
  obtain w0 :: "nat worker" where w0: "camera_worker_new demo_camera 1 0 = Inr w0"
    by (simp add: camera_worker_new_def demo_camera_def fb_init_def worker_init_def)
  have "\<exists>w1 w2. w_run w0 ?up = Some w1 \<and> w_started w1 = ResolvedStart \<and> w_run w1 ?down = Some w2 \<and> w_sup w2 = SupDone
      \<and> w_shutdown_failures w2 \<noteq> []"
    using w0 [symmetric] by (simp add: camera_worker_new_def demo_camera_def fb_init_def worker_eval Let_def)
  then obtain w1 w2 where r: "w_run w0 ?up = Some w1" "w_started w1 = ResolvedStart" "w_run w1 ?down = Some w2"
    "w_sup w2 = SupDone" "w_shutdown_failures w2 \<noteq> []" by blast
  have "\<exists>ss. w_run w0 ss = Some w1" "\<exists>ss. w_run w1 ss = Some w2" using r(1,3) by blast+
  then have "camera_moves w0 w1 []" "camera_moves w1 w2 []" by (simp_all add: camera_moves_def)
  moreover have "start_answer w1 = Some None" using r(2) by (simp add: start_answer_def)
  ultimately show ?thesis using w0 r(4,5) that by blast
qed

text \<open>
  A cleanup failure can be lost: there is a run in which a worker's capture device failed to close, and
  the shutdown nevertheless finishes without any failure.
\<close>
theorem shutdown_loses_failure:
  "\<exists>(w1 :: nat worker) w2 m. m_run camera_api camera_moves demo_manager (racing_steps w1 w2) = Some m
     \<and> mg_shutdown m = ShutdownFinished [] \<and> w_shutdown_failures (worker_of 0 m) \<noteq> []"
proof -
  obtain w0 w1 w2 :: "nat worker" where w: "camera_worker_new demo_camera 1 0 = Inr w0" "camera_moves w0 w1 []"
    "start_answer w1 = Some None" "camera_moves w1 w2 []" "w_sup w2 = SupDone" "w_shutdown_failures w2 \<noteq> []"
    by (rule racing_workers)
  have "\<exists>m. m_run camera_api camera_moves demo_manager (racing_steps w1 w2) = Some m \<and> mg_shutdown m = ShutdownFinished []
      \<and> length (mg_objects m) = 1 \<and> worker_of 0 m = w2"
    by (rule racing_run [of _ w0]) (use w in \<open>simp_all add: camera_api_def\<close>)
  with w(6) show ?thesis by blast
qed

lemma racing_reachable:
  obtains m :: "(unit, nat worker) manager" where "m_reachable camera_api camera_moves demo_manager m"
    "mg_shutdown m = ShutdownFinished []" "length (mg_objects m) = 1"
proof -
  obtain w0 w1 w2 :: "nat worker" where w: "camera_worker_new demo_camera 1 0 = Inr w0" "camera_moves w0 w1 []"
    "start_answer w1 = Some None" "camera_moves w1 w2 []" "w_sup w2 = SupDone" "w_shutdown_failures w2 \<noteq> []"
    by (rule racing_workers)
  have "\<exists>m. m_run camera_api camera_moves demo_manager (racing_steps w1 w2) = Some m \<and> mg_shutdown m = ShutdownFinished []
      \<and> length (mg_objects m) = 1 \<and> worker_of 0 m = w2"
    by (rule racing_run [of _ w0]) (use w in \<open>simp_all add: camera_api_def\<close>)
  then obtain m where m: "m_run camera_api camera_moves demo_manager (racing_steps w1 w2) = Some m"
    "mg_shutdown m = ShutdownFinished []" "length (mg_objects m) = 1" by blast
  show ?thesis by (rule that [OF m_run_reachable [OF mreach_init m(1)] m(2,3)])
qed

lemma manager_owns_workers_witness:
  "\<exists>m :: (unit, nat worker) manager. m_reachable camera_api camera_moves demo_manager m
     \<and> int (length (mg_workers m)) \<le> 2 \<and> distinct (map fst (mg_workers m))"
proof -
  obtain m :: "(unit, nat worker) manager" where m: "m_reachable camera_api camera_moves demo_manager m"
    by (rule racing_reachable)
  then show ?thesis using manager_owns_workers [OF demo_manager_init m] by blast
qed

lemma manager_shutdown_complete_witness:
  "\<exists>m :: (unit, nat worker) manager. m_reachable camera_api camera_moves demo_manager m
     \<and> mg_shutdown m = ShutdownFinished [] \<and> w_sup (worker_of 0 m) = SupDone"
proof -
  obtain m :: "(unit, nat worker) manager" where m: "m_reachable camera_api camera_moves demo_manager m"
    "mg_shutdown m = ShutdownFinished []" "length (mg_objects m) = 1"
    by (rule racing_reachable)
  then have "w_sup (worker_of 0 m) = SupDone"
    using manager_shutdown_complete [OF demo_manager_init m(1,2), of 0] by simp
  with m show ?thesis by blast
qed

lemma holding_reachable:
  obtains m :: "(unit, nat worker) manager" where "m_reachable camera_api camera_moves demo_manager m"
    "length (mg_ops m) = 1" "pc_uid (op_pc (mg_ops m ! 0)) = Some 0" "op_camera (op_kind (mg_ops m ! 0)) = ''cam-1''"
proof -
  obtain w0 :: "nat worker" where w: "camera_worker_new demo_camera 1 0 = Inr w0" by (rule racing_workers)
  have "\<exists>m :: (unit, nat worker) manager. m_run camera_api camera_moves demo_manager [Call (StartOp demo_camera), Acquire 0 0] = Some m
      \<and> length (mg_ops m) = 1 \<and> pc_uid (op_pc (mg_ops m ! 0)) = Some 0 \<and> op_camera (op_kind (mg_ops m ! 0)) = ''cam-1''"
    using w by (simp add: manager_eval camera_api_def Let_def)
  then show ?thesis using m_run_reachable [OF mreach_init] that by blast
qed

lemma camera_operations_exclusive_witness:
  "\<exists>m :: (unit, nat worker) manager. m_reachable camera_api camera_moves demo_manager m
     \<and> map_of (mg_workers m) ''cam-1'' = Some 0"
proof -
  obtain m :: "(unit, nat worker) manager" where m: "m_reachable camera_api camera_moves demo_manager m"
    "length (mg_ops m) = 1" "pc_uid (op_pc (mg_ops m ! 0)) = Some 0" "op_camera (op_kind (mg_ops m ! 0)) = ''cam-1''"
    by (rule holding_reachable)
  then show ?thesis using camera_operations_exclusive [OF demo_manager_init m(1), of 0 0 0 0] by auto
qed

lemma closed_manager_creates_nothing_witness:
  "\<exists>m'. m_run camera_api camera_moves (demo_manager\<lparr>mg_closed := True, mg_shutdown := ShutdownScheduled\<rparr> :: (unit, nat worker) manager)
       [Call (StartOp demo_camera), Acquire 0 0] = Some m' \<and> length (mg_objects m') = 0"
proof -
  let ?m = "demo_manager\<lparr>mg_closed := True, mg_shutdown := ShutdownScheduled\<rparr> :: (unit, nat worker) manager"
  have "\<exists>m'. m_run camera_api camera_moves ?m [Call (StartOp demo_camera), Acquire 0 0] = Some m'"
    by (simp add: manager_eval)
  then obtain m' where r: "m_run camera_api camera_moves ?m [Call (StartOp demo_camera), Acquire 0 0] = Some m'" by blast
  have "length (mg_objects m') = length (mg_objects ?m)"
    using closed_manager_creates_nothing [OF _ r] by simp
  with r show ?thesis by (auto simp: demo_manager_def)
qed

end
