(* ===== verification/Central_Store.thy ===== *)
theory Central_Store
  imports Json
begin

section \<open>Central database and role-based access\<close>

text \<open>
  The tables of the central PostgreSQL database that \<open>webapp-backend\<close> works on (its schema is
  \<open>infra/postgres/init.sql\<close>), and \<open>services/rbac_service.py\<close>: \<open>authorize\<close>,
  \<open>assert_can_manage_target\<close> and \<open>protect_last_super_admin\<close>. A request handler is a function from
  the database to a reply and the new database (\<open>handler\<close>); \<open>Inl\<close> is the HTTP error of an
  exception, after which \<open>db.transaction()\<close> has rolled back and the old database stands. The
  advisory lock and \<open>FOR UPDATE\<close> make the handlers' transactions atomic. The time of a
  transaction (\<open>NOW()\<close>) and the UUID the database draws are arguments. Encrypted columns hold
  the plain value, a password hash the value of an abstract hash function; \<open>updated_at\<close> columns,
  which nothing reads, are left out.
\<close>

subsection \<open>Tables\<close>

datatype role = SuperAdmin | Admin | Staff | VaUser

datatype http_error = HttpError nat string

record user_row =
  us_id :: ident
  us_email :: string
  us_phone :: "string option"
  us_whatsapp :: "string option"
  us_password :: string
  us_role :: role
  us_active :: bool
  us_deleted :: bool
  us_created_by :: "ident option"
  us_created :: time

record license_row =
  li_id :: ident
  li_user :: ident
  li_key :: string
  li_features :: json
  li_max_cameras :: int
  li_modules :: json
  li_from :: time
  li_until :: time
  li_active :: bool
  li_created_by :: ident
  li_created :: time

record permission_row =
  pm_id :: ident
  pm_user :: ident
  pm_resource :: string
  pm_actions :: "string list"
  pm_constraints :: json
  pm_granted_by :: ident
  pm_created :: time

record login_row =
  lo_user :: ident
  lo_token :: string
  lo_device :: "string option"
  lo_expires :: time
  lo_revoked :: "time option"

text \<open>The payload of an outbox row is \<open>{}\<close> or \<open>{"sid": \<dots>}\<close>; \<open>ob_sid\<close> is \<open>payload.get("sid", "")\<close>.\<close>

datatype session_action = Revoke | Reconcile

record outbox_row =
  ob_id :: nat
  ob_user :: ident
  ob_action :: session_action
  ob_sid :: string
  ob_attempts :: nat
  ob_last_error :: "string option"
  ob_processed :: "time option"

record audit_row =
  au_user :: ident
  au_action :: string
  au_resource :: string
  au_resource_id :: "ident option"
  au_metadata :: json

record central_camera =
  vc_id :: ident
  vc_user :: ident
  vc_name :: string
  vc_url :: string
  vc_stream_type :: string
  vc_location :: "string option"
  vc_config :: json
  vc_zones :: json
  vc_active :: bool
  vc_created :: time

record central_event =
  ve_id :: ident
  ve_camera :: ident
  ve_type :: string
  ve_payload :: json
  ve_image :: "ident option"
  ve_synced :: time
  ve_created :: time

record central_alert =
  ca_id :: ident
  ca_camera :: ident
  ca_zone :: "string option"
  ca_image :: "ident option"
  ca_confidence :: "real option"
  ca_resolved :: bool
  ca_created :: time

record person_reg =
  pr_id :: ident
  pr_name :: string
  pr_phone :: string
  pr_aadhaar :: string
  pr_encoding :: string
  pr_image :: "ident option"
  pr_registered_by :: ident
  pr_entry_time :: "time option"
  pr_created :: time

record cleanup_row =
  cl_id :: nat
  cl_bucket :: string
  cl_object :: string
  cl_attempts :: nat
  cl_last_error :: "string option"
  cl_processed :: "time option"

record central_db =
  ct_users :: "user_row list"
  ct_licenses :: "license_row list"
  ct_permissions :: "permission_row list"
  ct_logins :: "login_row list"
  ct_outbox :: "outbox_row list"
  ct_audit :: "audit_row list"
  ct_cameras :: "central_camera list"
  ct_events :: "central_event list"
  ct_alerts :: "central_alert list"
  ct_persons :: "person_reg list"
  ct_cleanup :: "cleanup_row list"

type_synonym 'a handler = "central_db \<Rightarrow> http_error + 'a \<times> central_db"

definition table_update :: "('r \<Rightarrow> bool) \<Rightarrow> ('r \<Rightarrow> 'r) \<Rightarrow> 'r list \<Rightarrow> 'r list" where
  "table_update P f rows = map (\<lambda>r. if P r then f r else r) rows"

lemma table_update_simps [simp]:
  "table_update P f [] = []"
  "table_update P f (r # rs) = (if P r then f r else r) # table_update P f rs"
  by (simp_all add: table_update_def)

lemma in_table_update:
  "x \<in> set (table_update P f rows) \<longleftrightarrow> (\<exists>r \<in> set rows. x = (if P r then f r else r))"
  by (auto simp: table_update_def)

lemma map_table_update:
  "(\<And>r. g (f r) = g r) \<Longrightarrow> map g (table_update P f rows) = map g rows"
  by (simp add: table_update_def)

text \<open>\<open>write_audit_log\<close>; the client address it also stores is not modelled.\<close>

definition write_audit ::
  "ident \<Rightarrow> string \<Rightarrow> string \<Rightarrow> ident option \<Rightarrow> json \<Rightarrow> central_db \<Rightarrow> central_db" where
  "write_audit user action resource rid metadata db =
     db\<lparr>ct_audit := ct_audit db @ [\<lparr>au_user = user, au_action = action, au_resource = resource,
                                  au_resource_id = rid, au_metadata = metadata\<rparr>]\<rparr>"

text \<open>\<open>enqueue_session_action\<close>: the serial number is one more than any before.\<close>

definition enqueue_action :: "ident \<Rightarrow> session_action \<Rightarrow> string \<Rightarrow> central_db \<Rightarrow> central_db" where
  "enqueue_action user action sid db =
     db\<lparr>ct_outbox := ct_outbox db @ [\<lparr>ob_id = Suc (Max (insert 0 (set (map ob_id (ct_outbox db))))),
        ob_user = user, ob_action = action, ob_sid = sid, ob_attempts = 0, ob_last_error = None,
        ob_processed = None\<rparr>]\<rparr>"

definition revoke_logins :: "(login_row \<Rightarrow> bool) \<Rightarrow> time \<Rightarrow> central_db \<Rightarrow> central_db" where
  "revoke_logins P now db =
     db\<lparr>ct_logins := table_update (\<lambda>l. P l \<and> lo_revoked l = None) (\<lambda>l. l\<lparr>lo_revoked := Some now\<rparr>)
          (ct_logins db)\<rparr>"

definition find_user :: "ident \<Rightarrow> central_db \<Rightarrow> user_row option" where
  "find_user i db = List.find (\<lambda>u. us_id u = i \<and> \<not> us_deleted u) (ct_users db)"

definition update_users :: "ident \<Rightarrow> (user_row \<Rightarrow> user_row) \<Rightarrow> central_db \<Rightarrow> central_db" where
  "update_users i f db = db\<lparr>ct_users := table_update (\<lambda>u. us_id u = i \<and> \<not> us_deleted u) f (ct_users db)\<rparr>"

text \<open>\<open>SELECT \<dots> ORDER BY created_at DESC LIMIT size OFFSET (page - 1) * size\<close>.\<close>

definition page_of :: "('r \<Rightarrow> time) \<Rightarrow> nat \<Rightarrow> nat \<Rightarrow> 'r list \<Rightarrow> 'r list" where
  "page_of created page n rows =
     take n (drop ((page - 1) * n) (sort_key (\<lambda>r. - created r) rows))"

subsection \<open>Access decisions\<close>

record current_user =
  me_id :: ident
  me_email :: string
  me_role :: role
  me_session_id :: string
  me_license_id :: ident
  me_permissions :: "permission_row list"

fun role_resources :: "role \<Rightarrow> string list" where
  "role_resources SuperAdmin = [''*'']"
| "role_resources Admin = [''users'', ''licenses'', ''persons'', ''cameras'', ''analytics'']"
| "role_resources Staff = [''persons'']"
| "role_resources VaUser = [''cameras'', ''analytics'', ''sync'']"

definition matching_permission :: "current_user \<Rightarrow> string \<Rightarrow> string \<Rightarrow> permission_row option" where
  "matching_permission user resource action =
     List.find (\<lambda>p. pm_resource p \<in> {resource, ''*''} \<and> (action \<in> set (pm_actions p) \<or> ''*'' \<in> set (pm_actions p)))
       (me_permissions user)"

text \<open>
  The set \<open>{str(value) for value in allowed_ids}\<close>, cut to the texts that can equal an identity:
  the strings of a list, the keys of an object. The characters of a string and \<open>str\<close> of the other
  JSON values are no identities. Iterating a number or a Boolean raises \<open>TypeError\<close>.
\<close>

definition allowed_ids :: "json \<Rightarrow> http_error + string list" where
  "allowed_ids v = (case v of
       JList xs \<Rightarrow> Inr (concat (map (\<lambda>x. case x of JStr s \<Rightarrow> [s] | _ \<Rightarrow> []) xs))
     | JObj fs \<Rightarrow> Inr (map fst fs)
     | JStr s \<Rightarrow> Inr []
     | _ \<Rightarrow> Inl (HttpError 500 ''TypeError''))"

definition constraints_met :: "json \<Rightarrow> ident \<Rightarrow> ident option \<Rightarrow> ident option \<Rightarrow> http_error + unit" where
  "constraints_met constraints me owner_id resource_id =
     bindE (case jget constraints ''owner_only'' of
              None \<Rightarrow> Inr ()
            | Some v \<Rightarrow> guardE (truthy v \<longrightarrow> owner_id = Some me)
                (HttpError 403 ''Ownership constraint denied access'')) (\<lambda>_.
     (case jget constraints ''allowed_resource_ids'' of
        None \<Rightarrow> Inr ()
      | Some JNull \<Rightarrow> Inr ()
      | Some v \<Rightarrow>
          (case resource_id of
             None \<Rightarrow> Inl (HttpError 403 ''Resource constraint denied access'')
           | Some r \<Rightarrow> bindE (allowed_ids v) (\<lambda>ids. guardE (r \<in> set ids)
               (HttpError 403 ''Resource constraint denied access'')))))"

definition authorize ::
  "current_user \<Rightarrow> string \<Rightarrow> string \<Rightarrow> ident option \<Rightarrow> ident option \<Rightarrow> http_error + permission_row option" where
  "authorize user resource action owner_id resource_id =
     (if ''*'' \<notin> set (role_resources (me_role user)) \<and> resource \<notin> set (role_resources (me_role user))
      then Inl (HttpError 403 ''Role cannot access this resource'')
      else if me_role user \<in> {SuperAdmin, Admin} then Inr None
      else (case matching_permission user resource action of
              None \<Rightarrow> Inl (HttpError 403 ''Explicit permission is required'')
            | Some p \<Rightarrow> bindE (constraints_met (pm_constraints p) (me_id user) owner_id resource_id)
                          (\<lambda>_. Inr (Some p))))"

definition assert_can_manage :: "current_user \<Rightarrow> role \<Rightarrow> http_error + unit" where
  "assert_can_manage actor target =
     (if me_role actor = SuperAdmin then Inr ()
      else guardE (me_role actor = Admin \<and> target \<in> {Staff, VaUser})
             (HttpError 403 ''Cannot manage a higher-privileged account''))"

subsection \<open>The last super-administrator\<close>

definition license_current :: "time \<Rightarrow> license_row \<Rightarrow> bool" where
  "license_current now l \<longleftrightarrow> li_active l \<and> li_from l \<le> now \<and> li_until l > now"

text \<open>The licence a handler reads: the current one that lasts longest.\<close>

definition current_license :: "time \<Rightarrow> ident \<Rightarrow> central_db \<Rightarrow> license_row option" where
  "current_license now u db =
     (case sort_key (\<lambda>l. - li_until l) (filter (\<lambda>l. li_user l = u \<and> license_current now l) (ct_licenses db)) of
        [] \<Rightarrow> None | l # _ \<Rightarrow> Some l)"

definition licensed_now :: "time \<Rightarrow> central_db \<Rightarrow> ident \<Rightarrow> bool" where
  "licensed_now now db i \<longleftrightarrow> list_ex (\<lambda>l. li_user l = i \<and> license_current now l) (ct_licenses db)"

definition operational :: "time \<Rightarrow> central_db \<Rightarrow> user_row \<Rightarrow> bool" where
  "operational now db u \<longleftrightarrow>
     us_role u = SuperAdmin \<and> us_active u \<and> \<not> us_deleted u \<and> licensed_now now db (us_id u)"

definition protect_last_super_admin ::
  "time \<Rightarrow> central_db \<Rightarrow> ident \<Rightarrow> role \<Rightarrow> ident option \<Rightarrow> http_error + unit" where
  "protect_last_super_admin now db target target_role excluded =
     (if target_role \<noteq> SuperAdmin then Inr ()
      else if \<not> list_ex (\<lambda>u. us_id u = target \<and> operational now db u) (ct_users db) then Inr ()
      else if (case excluded of None \<Rightarrow> False
               | Some x \<Rightarrow> list_ex (\<lambda>l. li_user l = target \<and> li_id l \<noteq> x \<and> license_current now l) (ct_licenses db))
      then Inr ()
      else guardE (list_ex (\<lambda>u. us_id u \<noteq> target \<and> operational now db u) (ct_users db))
             (HttpError 409 ''The final active super-admin cannot be removed''))"

end
