(* ===== verification/Central_Admin.thy ===== *)
theory Central_Admin
  imports Central_Store
begin

section \<open>Administration of users, permissions and licences\<close>

text \<open>
  \<open>routers/users.py\<close> and \<open>routers/licenses.py\<close> of \<open>webapp-backend\<close>, with the request schemas of
  \<open>schemas/user.py\<close>, \<open>schemas/license.py\<close> and \<open>schemas/common.py\<close>. Each handler is one definition
  in the order of the code's checks; \<open>admin_request\<close> is the dispatcher with the role check of
  \<open>AdminUserDep\<close>. A constraint of the database that a statement violates is an \<open>Inl\<close>: 409 where
  the code catches it, 500 where it does not. The password hash and the licence key are
  parameters.
\<close>

subsection \<open>Request schemas\<close>

text \<open>
  \<open>StrictModel\<close> strips every text; the address pattern of \<open>EmailString\<close> is
  \<open>^[^@\s]+@[^@\s]+\.[^@\s]+$\<close> on the stripped and lowered text.
\<close>

definition trim_space :: "char \<Rightarrow> bool" where
  "trim_space c = (let n = (of_char c :: nat) in n = 32 \<or> (9 \<le> n \<and> n \<le> 13))"

definition trim :: "string \<Rightarrow> string" where
  "trim s = rev (dropWhile trim_space (rev (dropWhile trim_space s)))"

definition domain_ok :: "string \<Rightarrow> bool" where
  "domain_ok d \<longleftrightarrow> list_ex (\<lambda>i. d ! i = CHR ''.'') [1 ..< length d - 1]"

definition email_pattern :: "string \<Rightarrow> bool" where
  "email_pattern s \<longleftrightarrow>
     (let name = takeWhile (\<lambda>c. c \<noteq> CHR ''@'') s; rest = drop (length name) s
      in name \<noteq> [] \<and> list_all (\<lambda>c. \<not> trim_space c) s \<and>
         (case rest of [] \<Rightarrow> False | _ # d \<Rightarrow> CHR ''@'' \<notin> set d \<and> domain_ok d))"

definition email_string :: "string \<Rightarrow> http_error + string" where
  "email_string raw =
     (let s = py_lower (trim raw)
      in bindE (guardE (3 \<le> length s \<and> length s \<le> 255 \<and> email_pattern s) (HttpError 422 ''email''))
           (\<lambda>_. Inr s))"

definition text_field :: "string \<Rightarrow> nat \<Rightarrow> nat \<Rightarrow> string \<Rightarrow> http_error + string" where
  "text_field name lo hi raw =
     (let s = trim raw
      in bindE (guardE (lo \<le> length s \<and> length s \<le> hi) (HttpError 422 name)) (\<lambda>_. Inr s))"

definition optional_text :: "string \<Rightarrow> nat \<Rightarrow> string option \<Rightarrow> http_error + string option" where
  "optional_text name hi raw =
     (case raw of None \<Rightarrow> Inr None | Some s \<Rightarrow> bindE (text_field name 0 hi s) (\<lambda>t. Inr (Some t)))"

record user_create =
  uc_email :: string
  uc_password :: string
  uc_role :: role
  uc_phone :: "string option"
  uc_whatsapp :: "string option"

definition check_user_create :: "user_create \<Rightarrow> http_error + user_create" where
  "check_user_create p =
     bindE (email_string (uc_email p)) (\<lambda>email.
     bindE (text_field ''password'' 8 128 (uc_password p)) (\<lambda>password.
     bindE (guardE (uc_role p \<in> {Staff, VaUser}) (HttpError 422 ''role'')) (\<lambda>_.
     bindE (optional_text ''phone'' 20 (uc_phone p)) (\<lambda>phone.
     bindE (optional_text ''whatsapp_number'' 20 (uc_whatsapp p)) (\<lambda>whatsapp.
     Inr \<lparr>uc_email = email, uc_password = password, uc_role = uc_role p, uc_phone = phone,
          uc_whatsapp = whatsapp\<rparr>)))))"

text \<open>
  \<open>UserUpdate\<close>: a field is \<open>None\<close> where the request does not set it. The inner option of the
  phone numbers is the column's \<open>NULL\<close>.
\<close>

record user_update =
  up_email :: "string option"
  up_phone :: "string option option"
  up_whatsapp :: "string option option"
  up_role :: "role option"

definition opt_field :: "('a \<Rightarrow> http_error + 'b) \<Rightarrow> 'a option \<Rightarrow> http_error + 'b option" where
  "opt_field f x = (case x of None \<Rightarrow> Inr None | Some v \<Rightarrow> bindE (f v) (\<lambda>w. Inr (Some w)))"

definition check_user_update :: "user_update \<Rightarrow> http_error + user_update" where
  "check_user_update p =
     bindE (opt_field email_string (up_email p)) (\<lambda>email.
     bindE (opt_field (optional_text ''phone'' 20) (up_phone p)) (\<lambda>phone.
     bindE (opt_field (optional_text ''whatsapp_number'' 20) (up_whatsapp p)) (\<lambda>whatsapp.
     bindE (guardE (up_role p \<noteq> Some SuperAdmin) (HttpError 422 ''role'')) (\<lambda>_.
     Inr \<lparr>up_email = email, up_phone = phone, up_whatsapp = whatsapp, up_role = up_role p\<rparr>))))"

definition empty_user_update :: "user_update \<Rightarrow> bool" where
  "empty_user_update p \<longleftrightarrow>
     up_email p = None \<and> up_phone p = None \<and> up_whatsapp p = None \<and> up_role p = None"

text \<open>\<open>{"fields": list(values)}\<close>: the names that are set, in the order of the schema.\<close>

definition fields_of :: "(string \<times> bool) list \<Rightarrow> json" where
  "fields_of fs = JObj [(''fields'', JList (map (\<lambda>f. JStr (fst f)) (filter snd fs)))]"

definition user_fields :: "user_update \<Rightarrow> (string \<times> bool) list" where
  "user_fields p = [(''email'', up_email p \<noteq> None), (''phone'', up_phone p \<noteq> None),
     (''whatsapp_number'', up_whatsapp p \<noteq> None), (''role'', up_role p \<noteq> None)]"

definition apply_user_update :: "user_update \<Rightarrow> user_row \<Rightarrow> user_row" where
  "apply_user_update p u =
     u\<lparr>us_email := (case up_email p of None \<Rightarrow> us_email u | Some e \<Rightarrow> py_lower e),
       us_phone := (case up_phone p of None \<Rightarrow> us_phone u | Some v \<Rightarrow> v),
       us_whatsapp := (case up_whatsapp p of None \<Rightarrow> us_whatsapp u | Some v \<Rightarrow> v),
       us_role := (case up_role p of None \<Rightarrow> us_role u | Some r \<Rightarrow> r)\<rparr>"

record permission_create =
  pc_resource :: string
  pc_actions :: "string list"
  pc_constraints :: json

definition check_permission_create :: "permission_create \<Rightarrow> http_error + permission_create" where
  "check_permission_create p =
     bindE (text_field ''resource'' 1 100 (pc_resource p)) (\<lambda>resource.
     bindE (guardE (pc_actions p \<noteq> []) (HttpError 422 ''actions'')) (\<lambda>_.
     bindE (guardE (is_dict (pc_constraints p)) (HttpError 422 ''constraints'')) (\<lambda>_.
     Inr (p\<lparr>pc_resource := resource, pc_actions := map trim (pc_actions p)\<rparr>))))"

record license_create =
  lc_user :: ident
  lc_from :: time
  lc_until :: time
  lc_max_cameras :: int
  lc_features :: json
  lc_modules :: "string list"

definition check_license_create :: "license_create \<Rightarrow> http_error + license_create" where
  "check_license_create p =
     bindE (guardE (1 \<le> lc_max_cameras p \<and> lc_max_cameras p \<le> 64) (HttpError 422 ''max_cameras'')) (\<lambda>_.
     bindE (guardE (is_dict (lc_features p)) (HttpError 422 ''features'')) (\<lambda>_.
     bindE (guardE (lc_from p < lc_until p) (HttpError 422 ''valid_until must be after valid_from'')) (\<lambda>_.
     Inr (p\<lparr>lc_modules := map trim (lc_modules p)\<rparr>))))"

record license_update =
  lu_from :: "time option"
  lu_until :: "time option"
  lu_max_cameras :: "int option"
  lu_features :: "json option"
  lu_modules :: "string list option"
  lu_active :: "bool option"

definition check_license_update :: "license_update \<Rightarrow> http_error + license_update" where
  "check_license_update p =
     bindE (guardE (case lu_max_cameras p of None \<Rightarrow> True | Some n \<Rightarrow> 1 \<le> n \<and> n \<le> 64)
              (HttpError 422 ''max_cameras'')) (\<lambda>_.
     bindE (guardE (case lu_features p of None \<Rightarrow> True | Some f \<Rightarrow> is_dict f)
              (HttpError 422 ''features'')) (\<lambda>_.
     Inr (p\<lparr>lu_modules := map_option (map trim) (lu_modules p)\<rparr>)))"

definition empty_license_update :: "license_update \<Rightarrow> bool" where
  "empty_license_update p \<longleftrightarrow>
     lu_from p = None \<and> lu_until p = None \<and> lu_max_cameras p = None \<and> lu_features p = None \<and>
     lu_modules p = None \<and> lu_active p = None"

definition license_fields :: "license_update \<Rightarrow> (string \<times> bool) list" where
  "license_fields p = [(''valid_from'', lu_from p \<noteq> None), (''valid_until'', lu_until p \<noteq> None),
     (''max_cameras'', lu_max_cameras p \<noteq> None), (''features'', lu_features p \<noteq> None),
     (''analytics_modules'', lu_modules p \<noteq> None), (''is_active'', lu_active p \<noteq> None)]"

definition updated :: "'a option \<Rightarrow> 'a \<Rightarrow> 'a" where
  "updated x old = (case x of None \<Rightarrow> old | Some v \<Rightarrow> v)"

definition apply_license_update :: "license_update \<Rightarrow> license_row \<Rightarrow> license_row" where
  "apply_license_update p l =
     l\<lparr>li_from := updated (lu_from p) (li_from l), li_until := updated (lu_until p) (li_until l),
       li_max_cameras := updated (lu_max_cameras p) (li_max_cameras l),
       li_features := updated (lu_features p) (li_features l),
       li_modules := updated (map_option (\<lambda>m. JList (map JStr m)) (lu_modules p)) (li_modules l),
       li_active := updated (lu_active p) (li_active l)\<rparr>"

subsection \<open>Users\<close>

definition role_name :: "role \<Rightarrow> string" where
  "role_name r = (case r of SuperAdmin \<Rightarrow> ''super_admin'' | Admin \<Rightarrow> ''admin'' | Staff \<Rightarrow> ''staff''
     | VaUser \<Rightarrow> ''va_user'')"

definition create_user ::
  "(string \<Rightarrow> string) \<Rightarrow> current_user \<Rightarrow> time \<Rightarrow> ident \<Rightarrow> user_create \<Rightarrow> user_row handler" where
  "create_user hash actor now new_id payload db =
     bindE (check_user_create payload) (\<lambda>p.
     (let row = \<lparr>us_id = new_id, us_email = py_lower (uc_email p), us_phone = uc_phone p,
                 us_whatsapp = uc_whatsapp p, us_password = hash (uc_password p), us_role = uc_role p,
                 us_active = True, us_deleted = False, us_created_by = Some (me_id actor),
                 us_created = now\<rparr>
      in bindE (guardE (list_all (\<lambda>u. us_id u \<noteq> new_id \<and> us_email u \<noteq> us_email row) (ct_users db))
                  (HttpError 409 ''A user with that email already exists'')) (\<lambda>_.
         Inr (row, write_audit (me_id actor) ''create'' ''auth.user'' (Some new_id)
                     (JObj [(''role'', JStr (role_name (uc_role p)))])
                     (db\<lparr>ct_users := ct_users db @ [row]\<rparr>)))))"

definition list_users ::
  "nat \<Rightarrow> nat \<Rightarrow> role option \<Rightarrow> bool option \<Rightarrow> central_db \<Rightarrow> user_row list \<times> nat" where
  "list_users page n role active db =
     (let rows = filter (\<lambda>u. \<not> us_deleted u \<and> (case role of None \<Rightarrow> True | Some r \<Rightarrow> us_role u = r) \<and>
                            (case active of None \<Rightarrow> True | Some b \<Rightarrow> us_active u = b)) (ct_users db)
      in (page_of us_created page n rows, length rows))"

definition get_user :: "ident \<Rightarrow> central_db \<Rightarrow> http_error + user_row" where
  "get_user i db = (case find_user i db of None \<Rightarrow> Inl (HttpError 404 ''User not found'') | Some u \<Rightarrow> Inr u)"

definition update_user :: "current_user \<Rightarrow> time \<Rightarrow> ident \<Rightarrow> user_update \<Rightarrow> user_row handler" where
  "update_user actor now i payload db =
     bindE (check_user_update payload) (\<lambda>p.
     bindE (guardE (\<not> empty_user_update p) (HttpError 400 ''At least one field is required'')) (\<lambda>_.
     bindE (get_user i db) (\<lambda>target.
     bindE (assert_can_manage actor (us_role target)) (\<lambda>_.
     bindE (guardE (\<not> (up_role p = Some Admin \<and> me_role actor \<noteq> SuperAdmin))
              (HttpError 403 ''Only a super administrator can assign the admin role'')) (\<lambda>_.
     bindE (if up_role p \<noteq> None \<and> us_role target = SuperAdmin \<and> up_role p \<noteq> Some SuperAdmin
            then protect_last_super_admin now db i (us_role target) None else Inr ()) (\<lambda>_.
     bindE (guardE (list_all (\<lambda>u. us_id u = i \<or> us_email u \<noteq> us_email (apply_user_update p target)) (ct_users db))
              (HttpError 409 ''A user with that email already exists'')) (\<lambda>_.
     Inr (apply_user_update p target,
          write_audit (me_id actor) ''update'' ''auth.user'' (Some i) (fields_of (user_fields p))
            (update_users i (apply_user_update p) db)))))))))"

definition delete_user :: "current_user \<Rightarrow> time \<Rightarrow> ident \<Rightarrow> user_row handler" where
  "delete_user actor now i db =
     bindE (guardE (i \<noteq> me_id actor) (HttpError 400 ''You cannot delete your own account'')) (\<lambda>_.
     bindE (get_user i db) (\<lambda>target.
     bindE (assert_can_manage actor (us_role target)) (\<lambda>_.
     bindE (protect_last_super_admin now db i (us_role target) None) (\<lambda>_.
     (let db1 = update_users i (\<lambda>u. u\<lparr>us_deleted := True, us_active := False\<rparr>) db;
          db2 = revoke_logins (\<lambda>l. lo_user l = i) now db1;
          db3 = enqueue_action i Revoke [] db2
      in Inr (target, write_audit (me_id actor) ''delete'' ''auth.user'' (Some i) (JObj []) db3))))))"

definition toggle_active :: "current_user \<Rightarrow> time \<Rightarrow> ident \<Rightarrow> user_row handler" where
  "toggle_active actor now i db =
     bindE (guardE (i \<noteq> me_id actor) (HttpError 400 ''You cannot disable your own account'')) (\<lambda>_.
     bindE (get_user i db) (\<lambda>target.
     bindE (assert_can_manage actor (us_role target)) (\<lambda>_.
     bindE (if us_active target then protect_last_super_admin now db i (us_role target) None
            else Inr ()) (\<lambda>_.
     (let row = target\<lparr>us_active := \<not> us_active target\<rparr>;
          db1 = update_users i (\<lambda>u. u\<lparr>us_active := \<not> us_active u\<rparr>) db;
          db2 = (if us_active row then db1
                 else enqueue_action i Revoke [] (revoke_logins (\<lambda>l. lo_user l = i) now db1))
      in Inr (row, write_audit (me_id actor) ''toggle_active'' ''auth.user'' (Some i)
                     (JObj [(''is_active'', JBool (us_active row))]) db2))))))"

subsection \<open>Permissions\<close>

definition list_permissions :: "ident \<Rightarrow> central_db \<Rightarrow> http_error + permission_row list" where
  "list_permissions i db =
     bindE (get_user i db) (\<lambda>_. Inr (sort_key pm_created (filter (\<lambda>p. pm_user p = i) (ct_permissions db))))"

definition grant_permission ::
  "current_user \<Rightarrow> time \<Rightarrow> ident \<Rightarrow> ident \<Rightarrow> permission_create \<Rightarrow> permission_row handler" where
  "grant_permission actor now new_id i payload db =
     bindE (check_permission_create payload) (\<lambda>p.
     bindE (guardE (list_all (\<lambda>a. py_strip a \<noteq> []) (pc_actions p))
              (HttpError 422 ''Permission actions cannot be empty'')) (\<lambda>_.
     bindE (get_user i db) (\<lambda>target.
     bindE (assert_can_manage actor (us_role target)) (\<lambda>_.
     bindE (guardE (list_all (\<lambda>q. pm_id q \<noteq> new_id) (ct_permissions db)) (HttpError 500 ''Internal server error'')) (\<lambda>_.
     (let row = \<lparr>pm_id = new_id, pm_user = i, pm_resource = pc_resource p, pm_actions = pc_actions p,
                 pm_constraints = pc_constraints p, pm_granted_by = me_id actor, pm_created = now\<rparr>
      in Inr (row, write_audit (me_id actor) ''grant'' ''rbac.permission'' (Some new_id)
                     (JObj [(''user_id'', JStr i)])
                     (db\<lparr>ct_permissions := ct_permissions db @ [row]\<rparr>))))))))"

definition revoke_permission :: "current_user \<Rightarrow> ident \<Rightarrow> ident \<Rightarrow> unit handler" where
  "revoke_permission actor i permission_id db =
     bindE (get_user i db) (\<lambda>target.
     bindE (assert_can_manage actor (us_role target)) (\<lambda>_.
     bindE (guardE (list_ex (\<lambda>q. pm_id q = permission_id \<and> pm_user q = i) (ct_permissions db))
              (HttpError 404 ''Permission not found'')) (\<lambda>_.
     Inr ((), write_audit (me_id actor) ''revoke'' ''rbac.permission'' (Some permission_id)
                (JObj [(''user_id'', JStr i)])
                (db\<lparr>ct_permissions := filter (\<lambda>q. \<not> (pm_id q = permission_id \<and> pm_user q = i))
                      (ct_permissions db)\<rparr>)))))"

subsection \<open>Licences\<close>

definition create_license ::
  "(ident \<Rightarrow> time \<Rightarrow> string) \<Rightarrow> current_user \<Rightarrow> time \<Rightarrow> ident \<Rightarrow> license_create \<Rightarrow> license_row handler" where
  "create_license license_key actor now new_id payload db =
     bindE (check_license_create payload) (\<lambda>p.
     bindE (get_user (lc_user p) db) (\<lambda>target.
     bindE (assert_can_manage actor (us_role target)) (\<lambda>_.
     (let row = \<lparr>li_id = new_id, li_user = lc_user p, li_key = license_key (lc_user p) (lc_until p),
                 li_features = lc_features p, li_max_cameras = lc_max_cameras p,
                 li_modules = JList (map JStr (lc_modules p)), li_from = lc_from p,
                 li_until = lc_until p, li_active = True, li_created_by = me_id actor, li_created = now\<rparr>
      in bindE (guardE (list_all (\<lambda>l. li_id l \<noteq> new_id \<and> li_key l \<noteq> li_key row) (ct_licenses db))
                  (HttpError 500 ''Internal server error'')) (\<lambda>_.
         Inr (row, write_audit (me_id actor) ''create'' ''rbac.license'' (Some new_id)
                     (JObj [(''user_id'', JStr (lc_user p))])
                     (enqueue_action (lc_user p) Reconcile [] (db\<lparr>ct_licenses := ct_licenses db @ [row]\<rparr>))))))))"

definition list_licenses :: "nat \<Rightarrow> nat \<Rightarrow> central_db \<Rightarrow> license_row list \<times> nat" where
  "list_licenses page n db = (page_of li_created page n (ct_licenses db), length (ct_licenses db))"

definition find_license :: "ident \<Rightarrow> central_db \<Rightarrow> license_row option" where
  "find_license i db = List.find (\<lambda>l. li_id l = i) (ct_licenses db)"

definition get_license :: "ident \<Rightarrow> central_db \<Rightarrow> http_error + license_row" where
  "get_license i db = (case find_license i db of None \<Rightarrow> Inl (HttpError 404 ''License not found'') | Some l \<Rightarrow> Inr l)"

definition get_user_license :: "ident \<Rightarrow> central_db \<Rightarrow> http_error + license_row" where
  "get_user_license i db =
     (case sort_key (\<lambda>l. - li_until l) (filter (\<lambda>l. li_user l = i) (ct_licenses db)) of
        [] \<Rightarrow> Inl (HttpError 404 ''License not found'') | l # _ \<Rightarrow> Inr l)"

text \<open>The join of a licence with its user; the user may be deleted.\<close>

definition license_target :: "ident \<Rightarrow> central_db \<Rightarrow> http_error + license_row \<times> user_row" where
  "license_target i db =
     (case find_license i db of None \<Rightarrow> Inl (HttpError 404 ''License not found'')
      | Some l \<Rightarrow> (case List.find (\<lambda>u. us_id u = li_user l) (ct_users db) of
                     None \<Rightarrow> Inl (HttpError 404 ''License not found'')
                   | Some u \<Rightarrow> Inr (l, u)))"

definition update_licenses :: "ident \<Rightarrow> (license_row \<Rightarrow> license_row) \<Rightarrow> central_db \<Rightarrow> central_db" where
  "update_licenses i f db = db\<lparr>ct_licenses := table_update (\<lambda>l. li_id l = i) f (ct_licenses db)\<rparr>"

definition update_license :: "current_user \<Rightarrow> time \<Rightarrow> ident \<Rightarrow> license_update \<Rightarrow> license_row handler" where
  "update_license actor now i payload db =
     bindE (check_license_update payload) (\<lambda>p.
     bindE (guardE (\<not> empty_license_update p) (HttpError 400 ''At least one field is required'')) (\<lambda>_.
     bindE (license_target i db) (\<lambda>(l, u).
     bindE (assert_can_manage actor (us_role u)) (\<lambda>_.
     (let valid_from = updated (lu_from p) (li_from l);
          valid_until = updated (lu_until p) (li_until l);
          active = updated (lu_active p) (li_active l)
      in bindE (guardE (\<not> valid_until \<le> valid_from) (HttpError 422 ''valid_until must be after valid_from'')) (\<lambda>_.
         bindE (if active \<and> valid_from \<le> now \<and> valid_until > now then Inr ()
                else protect_last_super_admin now db (li_user l) (us_role u) (Some i)) (\<lambda>_.
         Inr (apply_license_update p l,
              write_audit (me_id actor) ''update'' ''rbac.license'' (Some i) (fields_of (license_fields p))
                (enqueue_action (li_user l) Reconcile [] (update_licenses i (apply_license_update p) db)))))))))) "

definition expire_license :: "current_user \<Rightarrow> time \<Rightarrow> ident \<Rightarrow> license_row handler" where
  "expire_license actor now i db =
     bindE (license_target i db) (\<lambda>(l, u).
     bindE (assert_can_manage actor (us_role u)) (\<lambda>_.
     bindE (protect_last_super_admin now db (us_id u) (us_role u) (Some i)) (\<lambda>_.
     (let expire = (\<lambda>l. l\<lparr>li_until := now, li_active := False\<rparr>)
      in Inr (expire l,
           write_audit (me_id actor) ''expire'' ''rbac.license'' (Some i) (JObj [])
             (enqueue_action (li_user l) Revoke []
               (revoke_logins (\<lambda>x. lo_user x = li_user l) now (update_licenses i expire db))))))))"

definition verify_license :: "current_user \<Rightarrow> time \<Rightarrow> ident \<Rightarrow> central_db \<Rightarrow> http_error + bool \<times> license_row" where
  "verify_license user now i db =
     (case find_license i db of None \<Rightarrow> Inl (HttpError 404 ''License not found'')
      | Some l \<Rightarrow> bindE (guardE (li_user l = me_id user) (HttpError 404 ''License not found''))
                   (\<lambda>_. Inr (license_current now l, l)))"

subsection \<open>The dispatcher\<close>

datatype admin_call =
    CreateUser user_create
  | UpdateUser ident user_update
  | DeleteUser ident
  | ToggleActive ident
  | GrantPermission ident permission_create
  | RevokePermission ident ident
  | CreateLicense license_create
  | UpdateLicense ident license_update
  | ExpireLicense ident

definition no_reply :: "http_error + 'a \<times> central_db \<Rightarrow> http_error + central_db" where
  "no_reply r = bindE r (\<lambda>x. Inr (snd x))"

fun admin_handler ::
  "(string \<Rightarrow> string) \<Rightarrow> (ident \<Rightarrow> time \<Rightarrow> string) \<Rightarrow> current_user \<Rightarrow> time \<Rightarrow> ident \<Rightarrow> admin_call \<Rightarrow>
     central_db \<Rightarrow> http_error + central_db" where
  "admin_handler hash license_key actor now new_id (CreateUser p) db = no_reply (create_user hash actor now new_id p db)"
| "admin_handler hash license_key actor now new_id (UpdateUser i p) db = no_reply (update_user actor now i p db)"
| "admin_handler hash license_key actor now new_id (DeleteUser i) db = no_reply (delete_user actor now i db)"
| "admin_handler hash license_key actor now new_id (ToggleActive i) db = no_reply (toggle_active actor now i db)"
| "admin_handler hash license_key actor now new_id (GrantPermission i p) db = no_reply (grant_permission actor now new_id i p db)"
| "admin_handler hash license_key actor now new_id (RevokePermission i q) db = no_reply (revoke_permission actor i q db)"
| "admin_handler hash license_key actor now new_id (CreateLicense p) db = no_reply (create_license license_key actor now new_id p db)"
| "admin_handler hash license_key actor now new_id (UpdateLicense i p) db = no_reply (update_license actor now i p db)"
| "admin_handler hash license_key actor now new_id (ExpireLicense i) db = no_reply (expire_license actor now i db)"

text \<open>\<open>AdminUserDep\<close>: \<open>require_roles("admin", "super_admin")\<close>.\<close>

definition admin_request ::
  "(string \<Rightarrow> string) \<Rightarrow> (ident \<Rightarrow> time \<Rightarrow> string) \<Rightarrow> current_user \<Rightarrow> time \<Rightarrow> ident \<Rightarrow> admin_call \<Rightarrow>
     central_db \<Rightarrow> http_error + central_db" where
  "admin_request hash license_key actor now new_id call db =
     bindE (guardE (me_role actor \<in> {Admin, SuperAdmin}) (HttpError 403 ''Insufficient permissions'')) (\<lambda>_.
     admin_handler hash license_key actor now new_id call db)"

end
