(* ===== verification/Central_Admin_Props.thy ===== *)
theory Central_Admin_Props
  imports Central_Admin
begin

section \<open>Properties of the administration\<close>

text \<open>
  The keys and checks of the schema are kept by every request, the central database never loses
  its last operational super-administrator, an administrator never touches a peer or a
  super-administrator, and every accepted request leaves one entry in the audit log.
\<close>

subsection \<open>Lookups\<close>

lemma find_user_Some:
  "find_user i db = Some u \<Longrightarrow> u \<in> set (ct_users db) \<and> us_id u = i \<and> \<not> us_deleted u"
  by (auto simp: find_user_def find_Some_iff)

lemma get_user_Inr: "get_user i db = Inr u \<Longrightarrow> u \<in> set (ct_users db) \<and> us_id u = i \<and> \<not> us_deleted u"
  by (auto simp: get_user_def dest!: find_user_Some split: option.splits)

lemma license_target_Inr:
  "license_target i db = Inr (l, u) \<Longrightarrow>
     l \<in> set (ct_licenses db) \<and> li_id l = i \<and> u \<in> set (ct_users db) \<and> us_id u = li_user l"
  by (auto simp: license_target_def find_license_def find_Some_iff split: option.splits)

lemma same_key: "distinct (map k xs) \<Longrightarrow> x \<in> set xs \<Longrightarrow> y \<in> set xs \<Longrightarrow> k x = k y \<Longrightarrow> x = y"
  by (auto simp: distinct_map dest: inj_onD)

subsection \<open>The database after a request\<close>

text \<open>The tables that the bookkeeping of a request leaves alone.\<close>

lemma bookkeeping_simps [simp]:
  "ct_users (write_audit a b c d e db) = ct_users db"
  "ct_licenses (write_audit a b c d e db) = ct_licenses db"
  "ct_permissions (write_audit a b c d e db) = ct_permissions db"
  "ct_logins (write_audit a b c d e db) = ct_logins db"
  "ct_outbox (write_audit a b c d e db) = ct_outbox db"
  "ct_users (enqueue_action i x y db) = ct_users db"
  "ct_licenses (enqueue_action i x y db) = ct_licenses db"
  "ct_permissions (enqueue_action i x y db) = ct_permissions db"
  "ct_logins (enqueue_action i x y db) = ct_logins db"
  "ct_audit (enqueue_action i x y db) = ct_audit db"
  "ct_users (revoke_logins P now db) = ct_users db"
  "ct_licenses (revoke_logins P now db) = ct_licenses db"
  "ct_permissions (revoke_logins P now db) = ct_permissions db"
  "ct_outbox (revoke_logins P now db) = ct_outbox db"
  "ct_audit (revoke_logins P now db) = ct_audit db"
  "ct_licenses (update_users i f db) = ct_licenses db"
  "ct_permissions (update_users i f db) = ct_permissions db"
  "ct_logins (update_users i f db) = ct_logins db"
  "ct_audit (update_users i f db) = ct_audit db"
  "ct_users (update_licenses i g db) = ct_users db"
  "ct_permissions (update_licenses i g db) = ct_permissions db"
  "ct_logins (update_licenses i g db) = ct_logins db"
  "ct_audit (update_licenses i g db) = ct_audit db"
  by (simp_all add: write_audit_def enqueue_action_def revoke_logins_def update_users_def update_licenses_def)

lemma users_update_users [simp]:
  "ct_users (update_users i f db) = table_update (\<lambda>u. us_id u = i \<and> \<not> us_deleted u) f (ct_users db)"
  by (simp add: update_users_def)

lemma licenses_update_licenses [simp]:
  "ct_licenses (update_licenses i g db) = table_update (\<lambda>l. li_id l = i) g (ct_licenses db)"
  by (simp add: update_licenses_def)

lemma audit_write_audit [simp]:
  "ct_audit (write_audit a b c d e db) =
     ct_audit db @ [\<lparr>au_user = a, au_action = b, au_resource = c, au_resource_id = d, au_metadata = e\<rparr>]"
  by (simp add: write_audit_def)

lemma apply_user_update_simps [simp]:
  "us_id (apply_user_update p u) = us_id u"
  "us_active (apply_user_update p u) = us_active u"
  "us_deleted (apply_user_update p u) = us_deleted u"
  "us_role (apply_user_update p u) = (case up_role p of None \<Rightarrow> us_role u | Some r \<Rightarrow> r)"
  by (simp_all add: apply_user_update_def)

lemma apply_license_update_simps [simp]:
  "li_id (apply_license_update p l) = li_id l"
  "li_user (apply_license_update p l) = li_user l"
  "li_key (apply_license_update p l) = li_key l"
  by (simp_all add: apply_license_update_def)

subsection \<open>What an accepted request has done\<close>

text \<open>
  The change of the tables \<open>users\<close>, \<open>licenses\<close> and \<open>permissions\<close> by each accepted call, with the
  guards that have passed.
\<close>

definition admin_change :: "current_user \<Rightarrow> time \<Rightarrow> ident \<Rightarrow> admin_call \<Rightarrow> central_db \<Rightarrow> central_db \<Rightarrow> bool" where
  "admin_change actor now new_id call db db' \<longleftrightarrow> (case call of
     CreateUser p0 \<Rightarrow> \<exists>p row. check_user_create p0 = Inr p \<and> us_role row = uc_role p \<and> us_id row = new_id \<and>
       us_email row \<notin> us_email ` set (ct_users db) \<and> new_id \<notin> us_id ` set (ct_users db) \<and>
       ct_users db' = ct_users db @ [row] \<and> ct_licenses db' = ct_licenses db \<and> ct_permissions db' = ct_permissions db
   | UpdateUser i p0 \<Rightarrow> \<exists>p t. check_user_update p0 = Inr p \<and> get_user i db = Inr t \<and>
       assert_can_manage actor (us_role t) = Inr () \<and> (up_role p = Some Admin \<longrightarrow> me_role actor = SuperAdmin) \<and>
       (up_role p \<noteq> None \<and> us_role t = SuperAdmin \<longrightarrow> protect_last_super_admin now db i (us_role t) None = Inr ()) \<and>
       (\<forall>u \<in> set (ct_users db). us_id u = i \<or> us_email u \<noteq> us_email (apply_user_update p t)) \<and>
       ct_users db' = table_update (\<lambda>u. us_id u = i \<and> \<not> us_deleted u) (apply_user_update p) (ct_users db) \<and>
       ct_licenses db' = ct_licenses db \<and> ct_permissions db' = ct_permissions db
   | DeleteUser i \<Rightarrow> \<exists>t. get_user i db = Inr t \<and> i \<noteq> me_id actor \<and>
       assert_can_manage actor (us_role t) = Inr () \<and> protect_last_super_admin now db i (us_role t) None = Inr () \<and>
       ct_users db' = table_update (\<lambda>u. us_id u = i \<and> \<not> us_deleted u) (\<lambda>u. u\<lparr>us_deleted := True, us_active := False\<rparr>) (ct_users db) \<and>
       ct_licenses db' = ct_licenses db \<and> ct_permissions db' = ct_permissions db
   | ToggleActive i \<Rightarrow> \<exists>t. get_user i db = Inr t \<and> i \<noteq> me_id actor \<and>
       assert_can_manage actor (us_role t) = Inr () \<and>
       (us_active t \<longrightarrow> protect_last_super_admin now db i (us_role t) None = Inr ()) \<and>
       ct_users db' = table_update (\<lambda>u. us_id u = i \<and> \<not> us_deleted u) (\<lambda>u. u\<lparr>us_active := \<not> us_active u\<rparr>) (ct_users db) \<and>
       ct_licenses db' = ct_licenses db \<and> ct_permissions db' = ct_permissions db
   | GrantPermission i p0 \<Rightarrow> \<exists>t row. get_user i db = Inr t \<and> assert_can_manage actor (us_role t) = Inr () \<and>
       pm_user row = i \<and> pm_id row = new_id \<and> new_id \<notin> pm_id ` set (ct_permissions db) \<and>
       ct_permissions db' = ct_permissions db @ [row] \<and> ct_users db' = ct_users db \<and> ct_licenses db' = ct_licenses db
   | RevokePermission i q \<Rightarrow> \<exists>t. get_user i db = Inr t \<and> assert_can_manage actor (us_role t) = Inr () \<and>
       ct_permissions db' = filter (\<lambda>p. \<not> (pm_id p = q \<and> pm_user p = i)) (ct_permissions db) \<and>
       ct_users db' = ct_users db \<and> ct_licenses db' = ct_licenses db
   | CreateLicense p0 \<Rightarrow> \<exists>t row. get_user (li_user row) db = Inr t \<and> assert_can_manage actor (us_role t) = Inr () \<and>
       li_id row = new_id \<and> new_id \<notin> li_id ` set (ct_licenses db) \<and> li_key row \<notin> li_key ` set (ct_licenses db) \<and>
       1 \<le> li_max_cameras row \<and> li_max_cameras row \<le> 64 \<and>
       ct_licenses db' = ct_licenses db @ [row] \<and> ct_users db' = ct_users db \<and> ct_permissions db' = ct_permissions db
   | UpdateLicense i p0 \<Rightarrow> \<exists>p l t. check_license_update p0 = Inr p \<and> license_target i db = Inr (l, t) \<and>
       assert_can_manage actor (us_role t) = Inr () \<and>
       (license_current now (apply_license_update p l) \<or>
        protect_last_super_admin now db (li_user l) (us_role t) (Some i) = Inr ()) \<and>
       ct_licenses db' = table_update (\<lambda>l. li_id l = i) (apply_license_update p) (ct_licenses db) \<and>
       ct_users db' = ct_users db \<and> ct_permissions db' = ct_permissions db
   | ExpireLicense i \<Rightarrow> \<exists>l t. license_target i db = Inr (l, t) \<and> assert_can_manage actor (us_role t) = Inr () \<and>
       protect_last_super_admin now db (li_user l) (us_role t) (Some i) = Inr () \<and>
       ct_licenses db' = table_update (\<lambda>l. li_id l = i) (\<lambda>l. l\<lparr>li_until := now, li_active := False\<rparr>) (ct_licenses db) \<and>
       ct_users db' = ct_users db \<and> ct_permissions db' = ct_permissions db)"

lemma update_user_change:
  "update_user actor now i p0 db = Inr (r, db') \<Longrightarrow> admin_change actor now new_id (UpdateUser i p0) db db'"
  by (auto simp: update_user_def bindE_eq_Inr admin_change_def check_user_update_def list_all_iff split: if_splits)

lemma update_license_change:
  assumes "update_license actor now i p0 db = Inr (r, db')"
  shows "admin_change actor now new_id (UpdateLicense i p0) db db'"
proof -
  obtain p l t where "check_license_update p0 = Inr p" "license_target i db = Inr (l, t)"
    "assert_can_manage actor (us_role t) = Inr ()"
    "(if updated (lu_active p) (li_active l) \<and> updated (lu_from p) (li_from l) \<le> now \<and> updated (lu_until p) (li_until l) > now
      then Inr () else protect_last_super_admin now db (li_user l) (us_role t) (Some i)) = Inr ()"
    "ct_licenses db' = table_update (\<lambda>l. li_id l = i) (apply_license_update p) (ct_licenses db)"
    "ct_users db' = ct_users db" "ct_permissions db' = ct_permissions db"
    using assms by (auto simp: update_license_def bindE_eq_Inr Let_def)
  then show ?thesis
    by (auto simp: admin_change_def license_current_def apply_license_update_def split: if_splits)
qed

lemma create_license_change:
  "create_license key actor now new_id p0 db = Inr (r, db') \<Longrightarrow> admin_change actor now new_id (CreateLicense p0) db db'"
  by (force simp: create_license_def bindE_eq_Inr Let_def admin_change_def check_license_create_def list_all_iff)

lemma create_user_change:
  "create_user hash actor now new_id p0 db = Inr (r, db') \<Longrightarrow> admin_change actor now new_id (CreateUser p0) db db'"
  by (force simp: create_user_def bindE_eq_Inr Let_def admin_change_def list_all_iff)

lemma delete_user_change:
  "delete_user actor now i db = Inr (r, db') \<Longrightarrow> admin_change actor now new_id (DeleteUser i) db db'"
  by (auto simp: delete_user_def bindE_eq_Inr Let_def admin_change_def)

lemma toggle_active_change:
  "toggle_active actor now i db = Inr (r, db') \<Longrightarrow> admin_change actor now new_id (ToggleActive i) db db'"
  by (auto simp: toggle_active_def bindE_eq_Inr Let_def admin_change_def split: if_splits)

lemma grant_permission_change:
  "grant_permission actor now new_id i p0 db = Inr (r, db') \<Longrightarrow> admin_change actor now new_id (GrantPermission i p0) db db'"
  by (force simp: grant_permission_def bindE_eq_Inr Let_def admin_change_def list_all_iff)

lemma revoke_permission_change:
  "revoke_permission actor i q db = Inr (r, db') \<Longrightarrow> admin_change actor now new_id (RevokePermission i q) db db'"
  by (auto simp: revoke_permission_def bindE_eq_Inr admin_change_def)

lemma expire_license_change:
  assumes "expire_license actor now i db = Inr (r, db')"
  shows "admin_change actor now new_id (ExpireLicense i) db db'"
proof -
  obtain l t where lt: "license_target i db = Inr (l, t)" "assert_can_manage actor (us_role t) = Inr ()"
    "protect_last_super_admin now db (us_id t) (us_role t) (Some i) = Inr ()"
    "ct_licenses db' = table_update (\<lambda>l. li_id l = i) (\<lambda>l. l\<lparr>li_until := now, li_active := False\<rparr>) (ct_licenses db)"
    "ct_users db' = ct_users db" "ct_permissions db' = ct_permissions db"
    using assms by (auto simp: expire_license_def bindE_eq_Inr Let_def)
  then show ?thesis using license_target_Inr [OF lt(1)] by (auto simp: admin_change_def)
qed

lemmas handler_changes = create_user_change update_user_change delete_user_change toggle_active_change
  grant_permission_change revoke_permission_change create_license_change update_license_change
  expire_license_change

lemma no_reply_Inr: "no_reply r = Inr db' \<longleftrightarrow> (\<exists>x. r = Inr (x, db'))"
  by (auto simp: no_reply_def bindE_eq_Inr)

lemma admin_request_change:
  assumes "admin_request hash key actor now new_id call db = Inr db'"
  shows "me_role actor \<in> {Admin, SuperAdmin} \<and> admin_change actor now new_id call db db'"
proof -
  have "me_role actor \<in> {Admin, SuperAdmin}" "admin_handler hash key actor now new_id call db = Inr db'"
    using assms by (auto simp: admin_request_def bindE_eq_Inr)
  moreover from this(2) have "admin_change actor now new_id call db db'"
    by (cases call) (simp only: admin_handler.simps no_reply_Inr; elim exE; erule handler_changes)+
  ultimately show ?thesis by blast
qed


subsection \<open>The constraints of the schema\<close>

text \<open>
  Primary keys and unique columns of \<open>infra/postgres/init.sql\<close>, and the bound on \<open>max_cameras\<close> of the
  request schemas.
\<close>

definition schema_ok :: "central_db \<Rightarrow> bool" where
  "schema_ok db \<longleftrightarrow>
     distinct (map us_id (ct_users db)) \<and> distinct (map us_email (ct_users db)) \<and>
     distinct (map li_id (ct_licenses db)) \<and> distinct (map li_key (ct_licenses db)) \<and>
     distinct (map pm_id (ct_permissions db)) \<and>
     (\<forall>l \<in> set (ct_licenses db). 1 \<le> li_max_cameras l \<and> li_max_cameras l \<le> 64)"

lemma distinct_map_table_update:
  assumes "distinct (map k rows)" "\<And>r. r \<in> set rows \<Longrightarrow> P r \<Longrightarrow> r = t"
    "\<And>r. r \<in> set rows \<Longrightarrow> r \<noteq> t \<Longrightarrow> k r \<noteq> k (f t)"
  shows "distinct (map k (table_update P f rows))"
  using assms
proof (induction rows)
  case Nil
  then show ?case by simp
next
  case (Cons r rs)
  have IH: "distinct (map k (table_update P f rs))"
    using Cons.prems by (intro Cons.IH) auto
  have "k (if P r then f r else r) \<notin> k ` set (table_update P f rs)"
  proof
    assume "k (if P r then f r else r) \<in> k ` set (table_update P f rs)"
    then obtain x where x: "x \<in> set rs" "k (if P r then f r else r) = k (if P x then f x else x)"
      by (auto simp: in_table_update)
    have "k r \<notin> k ` set rs" using Cons.prems(1) by simp
    then have ne: "k x \<noteq> k r" using imageI [OF x(1), of k] by metis
    show False
    proof (cases "P r")
      case True
      then have "r = t" using Cons.prems(2) by simp
      then have "x \<noteq> t" using ne by auto
      then have "\<not> P x" using Cons.prems(2) x(1) by auto
      then show False using Cons.prems(3) [of x] x True \<open>r = t\<close> \<open>x \<noteq> t\<close> by auto
    next
      case False
      show False
      proof (cases "P x")
        case True
        then have "x = t" using Cons.prems(2) x(1) by auto
        then show False using Cons.prems(3) [of r] x True False ne by auto
      next
        case False
        then show False using x(2) \<open>\<not> P r\<close> ne by simp
      qed
    qed
  qed
  with IH show ?case by simp
qed

lemma check_user_update_role: "check_user_update p0 = Inr p \<Longrightarrow> up_role p \<noteq> Some SuperAdmin"
  by (auto simp: check_user_update_def bindE_eq_Inr)

lemma check_user_create_role: "check_user_create p0 = Inr p \<Longrightarrow> uc_role p \<in> {Staff, VaUser}"
  by (auto simp: check_user_create_def bindE_eq_Inr)

lemma check_license_update_cameras:
  "check_license_update p0 = Inr p \<Longrightarrow> 1 \<le> li_max_cameras l \<and> li_max_cameras l \<le> 64 \<Longrightarrow>
     1 \<le> li_max_cameras (apply_license_update p l) \<and> li_max_cameras (apply_license_update p l) \<le> 64"
  by (auto simp: check_license_update_def bindE_eq_Inr apply_license_update_def updated_def split: option.splits)

lemma emails_after_update:
  assumes "distinct (map us_id us)" "distinct (map us_email us)" "t \<in> set us" "us_id t = i" "\<not> us_deleted t"
    "\<forall>u \<in> set us. us_id u = i \<or> us_email u \<noteq> us_email (apply_user_update p t)"
  shows "distinct (map us_email (table_update (\<lambda>u. us_id u = i \<and> \<not> us_deleted u) (apply_user_update p) us))"
proof (rule distinct_map_table_update [where t = t])
  show "r = t" if "r \<in> set us" "us_id r = i \<and> \<not> us_deleted r" for r
    using same_key [OF assms(1) that(1) assms(3)] that(2) assms(4) by simp
  show "us_email r \<noteq> us_email (apply_user_update p t)" if "r \<in> set us" "r \<noteq> t" for r
    using assms(6) same_key [OF assms(1) that(1) assms(3)] that assms(4) by blast
qed (rule assms(2))

lemma schema_step:
  assumes "admin_change actor now new_id call db db'" "schema_ok db"
  shows "schema_ok db'"
proof (cases call)
  case (UpdateUser i p0)
  then obtain p t where t: "get_user i db = Inr t"
    "\<forall>u \<in> set (ct_users db). us_id u = i \<or> us_email u \<noteq> us_email (apply_user_update p t)"
    "ct_users db' = table_update (\<lambda>u. us_id u = i \<and> \<not> us_deleted u) (apply_user_update p) (ct_users db)"
    "ct_licenses db' = ct_licenses db" "ct_permissions db' = ct_permissions db"
    using assms(1) by (auto simp: admin_change_def)
  have "t \<in> set (ct_users db)" "us_id t = i" "\<not> us_deleted t" using get_user_Inr [OF t(1)] by simp_all
  with t assms(2) show ?thesis
    using emails_after_update [of "ct_users db" t i p] by (simp add: schema_ok_def map_table_update)
next
  case (UpdateLicense i p0)
  then obtain p l t where l: "check_license_update p0 = Inr p"
    "ct_licenses db' = table_update (\<lambda>l. li_id l = i) (apply_license_update p) (ct_licenses db)"
    "ct_users db' = ct_users db" "ct_permissions db' = ct_permissions db"
    using assms(1) by (auto simp: admin_change_def)
  have "\<forall>r \<in> set (ct_licenses db'). 1 \<le> li_max_cameras r \<and> li_max_cameras r \<le> 64"
  proof
    fix r assume "r \<in> set (ct_licenses db')"
    then obtain r0 where "r0 \<in> set (ct_licenses db)" "r = (if li_id r0 = i then apply_license_update p r0 else r0)"
      using l(2) by (auto simp: in_table_update)
    then show "1 \<le> li_max_cameras r \<and> li_max_cameras r \<le> 64"
      using check_license_update_cameras [OF l(1), of r0] assms(2) by (auto simp: schema_ok_def)
  qed
  with l assms(2) show ?thesis by (simp add: schema_ok_def map_table_update)
qed (use assms in \<open>auto simp: admin_change_def schema_ok_def map_table_update in_table_update distinct_map_filter\<close>)

subsection \<open>The last super-administrator\<close>

definition has_operational :: "time \<Rightarrow> central_db \<Rightarrow> bool" where
  "has_operational now db \<longleftrightarrow> (\<exists>u \<in> set (ct_users db). operational now db u)"

lemma licensed_now_iff:
  "licensed_now now db i \<longleftrightarrow> (\<exists>l \<in> set (ct_licenses db). li_user l = i \<and> license_current now l)"
  by (auto simp: licensed_now_def list_ex_iff)

lemma operational_keep:
  assumes "operational now db u" "\<And>l. l \<in> set (ct_licenses db) \<Longrightarrow> li_user l = us_id u \<Longrightarrow> license_current now l \<Longrightarrow>
    \<exists>l' \<in> set (ct_licenses db'). li_user l' = us_id u \<and> license_current now l'"
  shows "operational now db' u"
  using assms by (auto simp: operational_def licensed_now_iff)

lemma has_operational_mono:
  assumes "has_operational now db" "set (ct_users db) \<subseteq> set (ct_users db')" "set (ct_licenses db) \<subseteq> set (ct_licenses db')"
  shows "has_operational now db'"
  using assms(1) unfolding has_operational_def
proof (elim bexE)
  fix u assume u: "u \<in> set (ct_users db)" "operational now db u"
  have "operational now db' u" by (rule operational_keep [OF u(2)]) (use assms(3) in blast)
  then show "\<exists>u \<in> set (ct_users db'). operational now db' u" using u(1) assms(2) by blast
qed

text \<open>When the guard lets a change of \<open>t\<close> pass, somebody stays operational without it.\<close>

lemma protect_survivor:
  assumes "protect_last_super_admin now db t (us_role u0) ex = Inr ()" "has_operational now db"
    "distinct (map us_id (ct_users db))" "u0 \<in> set (ct_users db)" "us_id u0 = t"
  obtains u where "u \<in> set (ct_users db)" "operational now db u"
    "us_id u \<noteq> t \<or> (\<exists>x l. ex = Some x \<and> l \<in> set (ct_licenses db) \<and> li_user l = t \<and> li_id l \<noteq> x \<and> license_current now l)"
proof -
  obtain u where u: "u \<in> set (ct_users db)" "operational now db u" using assms(2) by (auto simp: has_operational_def)
  show thesis
  proof (cases "us_id u = t")
    case False
    with u show ?thesis by (auto intro: that)
  next
    case True
    then have "u = u0" using same_key [OF assms(3) u(1) assms(4)] assms(5) by simp
    then have "us_role u0 = SuperAdmin" using u(2) by (simp add: operational_def)
    with assms(1) u True
    have "(\<exists>x. ex = Some x \<and> list_ex (\<lambda>l. li_user l = t \<and> li_id l \<noteq> x \<and> license_current now l) (ct_licenses db)) \<or>
          list_ex (\<lambda>v. us_id v \<noteq> t \<and> operational now db v) (ct_users db)"
      by (auto simp: protect_last_super_admin_def list_ex_iff split: if_splits option.splits)
    then consider x where "ex = Some x"
        "list_ex (\<lambda>l. li_user l = t \<and> li_id l \<noteq> x \<and> license_current now l) (ct_licenses db)"
      | "list_ex (\<lambda>v. us_id v \<noteq> t \<and> operational now db v) (ct_users db)" by blast
    then show ?thesis
    proof cases
      case 1
      then show ?thesis using that [OF u] by (auto simp: list_ex_iff)
    next
      case 2
      then show ?thesis using that by (auto simp: list_ex_iff)
    qed
  qed
qed

lemma survives_user_change:
  assumes "u \<in> set (ct_users db)" "operational now db u" "us_id u \<noteq> i"
    "ct_users db' = table_update (\<lambda>u. us_id u = i \<and> \<not> us_deleted u) f (ct_users db)" "ct_licenses db' = ct_licenses db"
  shows "has_operational now db'"
proof -
  have "u \<in> set (ct_users db')" using assms(1,3,4) by (force simp: in_table_update)
  moreover have "operational now db' u" by (rule operational_keep [OF assms(2)]) (use assms(5) in auto)
  ultimately show ?thesis by (auto simp: has_operational_def)
qed

lemma survives_license_change:
  assumes "u \<in> set (ct_users db)" "operational now db u" "ct_users db' = ct_users db"
    "ct_licenses db' = table_update (\<lambda>l. li_id l = i) g (ct_licenses db)"
    "us_id u \<noteq> li_user l0 \<or> (\<exists>x l. Some i = Some x \<and> l \<in> set (ct_licenses db) \<and> li_user l = li_user l0 \<and> li_id l \<noteq> x \<and> license_current now l)"
    "l0 \<in> set (ct_licenses db)" "li_id l0 = i" "distinct (map li_id (ct_licenses db))"
  shows "has_operational now db'"
proof -
  have "operational now db' u"
  proof (rule operational_keep [OF assms(2)])
    fix l assume l: "l \<in> set (ct_licenses db)" "li_user l = us_id u" "license_current now l"
    show "\<exists>l' \<in> set (ct_licenses db'). li_user l' = us_id u \<and> license_current now l'"
    proof (cases "us_id u = li_user l0")
      case False
      then have "li_id l \<noteq> i" using same_key [OF assms(8) l(1) assms(6)] l(2) assms(7) by auto
      then have "l \<in> set (ct_licenses db')" using l(1) assms(4) by (force simp: in_table_update)
      with l show ?thesis by blast
    next
      case True
      then obtain k where k: "k \<in> set (ct_licenses db)" "li_user k = li_user l0" "li_id k \<noteq> i" "license_current now k"
        using assms(5) by auto
      then have "k \<in> set (ct_licenses db')" using assms(4) by (force simp: in_table_update)
      with k True show ?thesis by auto
    qed
  qed
  then show ?thesis using assms(1,3) by (auto simp: has_operational_def)
qed


lemma survives_step:
  assumes "admin_change actor now new_id call db db'" "schema_ok db" "has_operational now db"
  shows "has_operational now db'"
proof (cases call)
  case (UpdateUser i p0)
  then obtain p t where t: "check_user_update p0 = Inr p" "get_user i db = Inr t"
    "up_role p \<noteq> None \<and> us_role t = SuperAdmin \<longrightarrow> protect_last_super_admin now db i (us_role t) None = Inr ()"
    "ct_users db' = table_update (\<lambda>u. us_id u = i \<and> \<not> us_deleted u) (apply_user_update p) (ct_users db)"
    "ct_licenses db' = ct_licenses db"
    using assms(1) by (auto simp: admin_change_def)
  have tt: "t \<in> set (ct_users db)" "us_id t = i" using get_user_Inr [OF t(2)] by simp_all
  have keys: "distinct (map us_id (ct_users db))" using assms(2) by (simp add: schema_ok_def)
  show ?thesis
  proof (cases "up_role p = None \<and> us_role t = SuperAdmin")
    case True
    obtain u where u: "u \<in> set (ct_users db)" "operational now db u" using assms(3) by (auto simp: has_operational_def)
    let ?v = "if us_id u = i \<and> \<not> us_deleted u then apply_user_update p u else u"
    have "?v \<in> set (ct_users db')" unfolding t(4) in_table_update using u(1) by blast
    moreover have "operational now db' ?v"
      using u(2) t(5) True by (auto simp: operational_def licensed_now_iff)
    ultimately show ?thesis by (auto simp: has_operational_def)
  next
    case False
    then have "protect_last_super_admin now db i (us_role t) None = Inr ()"
      using t(3) by (cases "us_role t") (auto simp: protect_last_super_admin_def)
    from protect_survivor [OF this assms(3) keys tt] show ?thesis
      using survives_user_change [OF _ _ _ t(4,5)] by auto
  qed
next
  case (DeleteUser i)
  then obtain t where t: "get_user i db = Inr t" "protect_last_super_admin now db i (us_role t) None = Inr ()"
    "ct_users db' = table_update (\<lambda>u. us_id u = i \<and> \<not> us_deleted u) (\<lambda>u. u\<lparr>us_deleted := True, us_active := False\<rparr>) (ct_users db)"
    "ct_licenses db' = ct_licenses db"
    using assms(1) by (auto simp: admin_change_def)
  have "t \<in> set (ct_users db)" "us_id t = i" using get_user_Inr [OF t(1)] by simp_all
  from protect_survivor [OF t(2) assms(3) _ this] assms(2) show ?thesis
    using survives_user_change [OF _ _ _ t(3,4)] by (auto simp: schema_ok_def)
next
  case (ToggleActive i)
  then obtain t where t: "get_user i db = Inr t" "us_active t \<longrightarrow> protect_last_super_admin now db i (us_role t) None = Inr ()"
    "ct_users db' = table_update (\<lambda>u. us_id u = i \<and> \<not> us_deleted u) (\<lambda>u. u\<lparr>us_active := \<not> us_active u\<rparr>) (ct_users db)"
    "ct_licenses db' = ct_licenses db"
    using assms(1) by (auto simp: admin_change_def)
  have tt: "t \<in> set (ct_users db)" "us_id t = i" using get_user_Inr [OF t(1)] by simp_all
  have keys: "distinct (map us_id (ct_users db))" using assms(2) by (simp add: schema_ok_def)
  show ?thesis
  proof (cases "us_active t")
    case True
    with t(2) have "protect_last_super_admin now db i (us_role t) None = Inr ()" by simp
    from protect_survivor [OF this assms(3) keys tt] show ?thesis
      using survives_user_change [OF _ _ _ t(3,4)] by auto
  next
    case False
    obtain u where u: "u \<in> set (ct_users db)" "operational now db u" using assms(3) by (auto simp: has_operational_def)
    then have "us_id u \<noteq> i" using same_key [OF keys u(1) tt(1)] tt(2) False by (auto simp: operational_def)
    then show ?thesis using survives_user_change [OF u _ t(3,4)] by blast
  qed
next
  case (UpdateLicense i p0)
  then obtain p l t where l: "license_target i db = Inr (l, t)"
    "license_current now (apply_license_update p l) \<or> protect_last_super_admin now db (li_user l) (us_role t) (Some i) = Inr ()"
    "ct_licenses db' = table_update (\<lambda>l. li_id l = i) (apply_license_update p) (ct_licenses db)"
    "ct_users db' = ct_users db"
    using assms(1) by (auto simp: admin_change_def)
  have lt: "l \<in> set (ct_licenses db)" "li_id l = i" "t \<in> set (ct_users db)" "us_id t = li_user l"
    using license_target_Inr [OF l(1)] by simp_all
  have keys: "distinct (map us_id (ct_users db))" "distinct (map li_id (ct_licenses db))"
    using assms(2) by (simp_all add: schema_ok_def)
  from l(2) show ?thesis
  proof
    assume cur: "license_current now (apply_license_update p l)"
    obtain u where u: "u \<in> set (ct_users db)" "operational now db u" using assms(3) by (auto simp: has_operational_def)
    have "operational now db' u"
    proof (rule operational_keep [OF u(2)])
      fix k assume k: "k \<in> set (ct_licenses db)" "li_user k = us_id u" "license_current now k"
      let ?k = "if li_id k = i then apply_license_update p k else k"
      have "?k \<in> set (ct_licenses db')" unfolding l(3) in_table_update using k(1) by blast
      moreover have "license_current now ?k"
        using k(3) cur same_key [OF keys(2) k(1) lt(1)] lt(2) by auto
      ultimately show "\<exists>l' \<in> set (ct_licenses db'). li_user l' = us_id u \<and> license_current now l'"
        using k(2) by (intro bexI [of _ ?k]) auto
    qed
    then show ?thesis using u(1) l(4) by (auto simp: has_operational_def)
  next
    assume "protect_last_super_admin now db (li_user l) (us_role t) (Some i) = Inr ()"
    from protect_survivor [OF this assms(3) keys(1) lt(3,4)] show ?thesis
      using survives_license_change [OF _ _ l(4,3) _ lt(1,2) keys(2)] by metis
  qed
next
  case (ExpireLicense i)
  then obtain l t where l: "license_target i db = Inr (l, t)"
    "protect_last_super_admin now db (li_user l) (us_role t) (Some i) = Inr ()"
    "ct_licenses db' = table_update (\<lambda>l. li_id l = i) (\<lambda>l. l\<lparr>li_until := now, li_active := False\<rparr>) (ct_licenses db)"
    "ct_users db' = ct_users db"
    using assms(1) by (auto simp: admin_change_def)
  have lt: "l \<in> set (ct_licenses db)" "li_id l = i" "t \<in> set (ct_users db)" "us_id t = li_user l"
    using license_target_Inr [OF l(1)] by simp_all
  have keys: "distinct (map us_id (ct_users db))" "distinct (map li_id (ct_licenses db))"
    using assms(2) by (simp_all add: schema_ok_def)
  from protect_survivor [OF l(2) assms(3) keys(1) lt(3,4)] show ?thesis
    using survives_license_change [OF _ _ l(4,3) _ lt(1,2) keys(2)] by metis
qed (rule has_operational_mono [OF assms(3)]; use assms(1) in \<open>auto simp: admin_change_def\<close>)+


subsection \<open>An example\<close>

text \<open>A super-administrator \<open>s\<close>, an administrator \<open>a\<close> and a member of staff \<open>v\<close>; one licence.\<close>

definition example_user :: "ident \<Rightarrow> role \<Rightarrow> user_row" where
  "example_user i r = \<lparr>us_id = i, us_email = i @ ''@x.org'', us_phone = None, us_whatsapp = None, us_password = [],
     us_role = r, us_active = True, us_deleted = False, us_created_by = None, us_created = 0\<rparr>"

definition example_license :: license_row where
  "example_license = \<lparr>li_id = ''l'', li_user = ''s'', li_key = ''k'', li_features = JObj [], li_max_cameras = 8,
     li_modules = JList [], li_from = 0, li_until = 100, li_active = True, li_created_by = ''s'', li_created = 0\<rparr>"

definition example_central :: central_db where
  "example_central = \<lparr>ct_users = [example_user ''s'' SuperAdmin, example_user ''a'' Admin, example_user ''v'' Staff],
     ct_licenses = [example_license], ct_permissions = [], ct_logins = [], ct_outbox = [], ct_audit = [],
     ct_cameras = [], ct_events = [], ct_alerts = [], ct_persons = [], ct_cleanup = []\<rparr>"

definition example_actor :: "ident \<Rightarrow> role \<Rightarrow> current_user" where
  "example_actor i r = \<lparr>me_id = i, me_email = [], me_role = r, me_session_id = [], me_license_id = ''l'', me_permissions = []\<rparr>"

lemma example_central_ok: "schema_ok example_central"
  by code_simp

lemma example_has_operational: "has_operational 5 example_central"
  by code_simp

lemma example_request:
  obtains db' where "admin_request id (\<lambda>i t. i) (example_actor ''a'' Admin) 5 ''n'' (DeleteUser ''v'') example_central = Inr db'"
    "map us_deleted (ct_users db') = [False, False, True]"
proof -
  have "(case admin_request id (\<lambda>i t. i) (example_actor ''a'' Admin) 5 ''n'' (DeleteUser ''v'') example_central of
      Inl e \<Rightarrow> False | Inr db' \<Rightarrow> map us_deleted (ct_users db') = [False, False, True])" by code_simp
  with that show thesis by (auto split: sum.splits)
qed

subsection \<open>The guarantees\<close>

text \<open>
  C6. The central database never loses its last operational super-administrator: if some active,
  not deleted super-administrator with a currently valid licence exists and the keys of the
  schema hold, one still exists after any accepted administrative request (create, update,
  delete or toggle a user, grant or revoke a permission, create, update or expire a licence).
\<close>
theorem last_super_admin_survives:
  assumes "admin_request hash key actor now new_id call db = Inr db'" "schema_ok db" "has_operational now db"
  shows "has_operational now db'"
  using survives_step admin_request_change [OF assms(1)] assms(2,3) by blast

lemma last_super_admin_survives_witness:
  "\<exists>db'. admin_request id (\<lambda>i t. i) (example_actor ''a'' Admin) 5 ''n'' (DeleteUser ''v'') example_central = Inr db'
     \<and> has_operational 5 db'"
proof -
  obtain db' where e: "admin_request id (\<lambda>i t. i) (example_actor ''a'' Admin) 5 ''n'' (DeleteUser ''v'') example_central = Inr db'"
    by (rule example_request)
  from last_super_admin_survives [OF this example_central_ok example_has_operational] e show ?thesis by blast
qed

text \<open>
  The keys of the schema survive every accepted request: the user, licence and permission
  identities, the addresses and the licence keys stay unique, and no licence allows fewer than 1
  or more than 64 cameras.
\<close>
theorem schema_preserved:
  assumes "admin_request hash key actor now new_id call db = Inr db'" "schema_ok db"
  shows "schema_ok db'"
  using schema_step admin_request_change [OF assms(1)] assms(2) by blast

lemma schema_preserved_witness:
  "\<exists>db'. admin_request id (\<lambda>i t. i) (example_actor ''a'' Admin) 5 ''n'' (DeleteUser ''v'') example_central = Inr db'
     \<and> schema_ok db'"
proof -
  obtain db' where e: "admin_request id (\<lambda>i t. i) (example_actor ''a'' Admin) 5 ''n'' (DeleteUser ''v'') example_central = Inr db'"
    by (rule example_request)
  from schema_preserved [OF this example_central_ok] e show ?thesis by blast
qed

subsection \<open>Who can change whom\<close>

definition privileged :: "role \<Rightarrow> bool" where
  "privileged r \<longleftrightarrow> r \<in> {SuperAdmin, Admin}"

definition privileged_id :: "central_db \<Rightarrow> ident \<Rightarrow> bool" where
  "privileged_id db i \<longleftrightarrow> list_ex (\<lambda>u. us_id u = i \<and> privileged (us_role u)) (ct_users db)"

lemma filter_table_update:
  assumes "\<And>r. r \<in> set rows \<Longrightarrow> P r \<Longrightarrow> \<not> Q r \<and> \<not> Q (f r)"
  shows "filter Q (table_update P f rows) = filter Q rows"
  using assms by (induction rows) auto

lemma managed_by_admin:
  assumes "assert_can_manage actor (us_role t) = Inr ()" "me_role actor = Admin"
  shows "\<not> privileged (us_role t)"
  using assms by (auto simp: assert_can_manage_def privileged_def)

lemma not_privileged_id:
  assumes "distinct (map us_id (ct_users db))" "t \<in> set (ct_users db)" "us_id t = i" "\<not> privileged (us_role t)"
  shows "\<not> privileged_id db i"
proof
  assume "privileged_id db i"
  then obtain u where u: "u \<in> set (ct_users db)" "us_id u = i" "privileged (us_role u)"
    by (auto simp: privileged_id_def list_ex_iff)
  have "u = t" using same_key [OF assms(1) u(1) assms(2)] u(2) assms(3) by simp
  with u(3) assms(4) show False by simp
qed

lemma not_privileged_iff: "\<not> privileged r \<longleftrightarrow> r = Staff \<or> r = VaUser"
  by (cases r) (auto simp: privileged_def)

definition peers_kept :: "central_db \<Rightarrow> central_db \<Rightarrow> bool" where
  "peers_kept db db' \<longleftrightarrow>
     filter (\<lambda>u. privileged (us_role u)) (ct_users db') = filter (\<lambda>u. privileged (us_role u)) (ct_users db) \<and>
     filter (\<lambda>l. privileged_id db (li_user l)) (ct_licenses db') = filter (\<lambda>l. privileged_id db (li_user l)) (ct_licenses db) \<and>
     filter (\<lambda>p. privileged_id db (pm_user p)) (ct_permissions db') = filter (\<lambda>p. privileged_id db (pm_user p)) (ct_permissions db)"

lemma peers_kept_user_update:
  assumes "get_user i db = Inr t" "\<not> privileged (us_role t)" "distinct (map us_id (ct_users db))"
    "\<And>u. us_role (f u) = us_role u \<or> \<not> privileged (us_role (f u))"
    "ct_users db' = table_update (\<lambda>u. us_id u = i \<and> \<not> us_deleted u) f (ct_users db)"
    "ct_licenses db' = ct_licenses db" "ct_permissions db' = ct_permissions db"
  shows "peers_kept db db'"
proof -
  have t: "t \<in> set (ct_users db)" "us_id t = i" using get_user_Inr [OF assms(1)] by simp_all
  have "\<not> privileged (us_role u) \<and> \<not> privileged (us_role (f u))"
    if "u \<in> set (ct_users db)" "us_id u = i \<and> \<not> us_deleted u" for u
  proof -
    have "u = t" using same_key [OF assms(3) that(1) t(1)] that(2) t(2) by simp
    then show ?thesis using assms(2) assms(4) [of u] by auto
  qed
  then show ?thesis unfolding peers_kept_def assms(5-7) by (simp add: filter_table_update)
qed

lemma peers_kept_license_update:
  assumes "license_target i db = Inr (l, t)" "\<not> privileged (us_role t)" "schema_ok db" "\<And>l. li_user (g l) = li_user l"
    "ct_licenses db' = table_update (\<lambda>l. li_id l = i) g (ct_licenses db)"
    "ct_users db' = ct_users db" "ct_permissions db' = ct_permissions db"
  shows "peers_kept db db'"
proof -
  have lt: "l \<in> set (ct_licenses db)" "li_id l = i" "t \<in> set (ct_users db)" "us_id t = li_user l"
    using license_target_Inr [OF assms(1)] by simp_all
  have keys: "distinct (map us_id (ct_users db))" "distinct (map li_id (ct_licenses db))"
    using assms(3) by (simp_all add: schema_ok_def)
  have np: "\<not> privileged_id db (li_user l)" by (rule not_privileged_id [OF keys(1) lt(3,4) assms(2)])
  have "\<not> privileged_id db (li_user k) \<and> \<not> privileged_id db (li_user (g k))"
    if "k \<in> set (ct_licenses db)" "li_id k = i" for k
    using same_key [OF keys(2) that(1) lt(1)] that(2) lt(2) np assms(4) by simp
  then show ?thesis unfolding peers_kept_def assms(5-7) by (simp add: filter_table_update)
qed

lemma peers_step:
  assumes "admin_change actor now new_id call db db'" "schema_ok db" "me_role actor = Admin"
  shows "peers_kept db db'"
proof -
  have keys: "distinct (map us_id (ct_users db))" using assms(2) by (simp add: schema_ok_def)
  note np = managed_by_admin [OF _ assms(3)]
  note target = get_user_Inr not_privileged_id [OF keys]
  show ?thesis
  proof (cases call)
    case (CreateUser p0)
    then obtain p row where p: "check_user_create p0 = Inr p" "us_role row = uc_role p" "ct_users db' = ct_users db @ [row]"
      "ct_licenses db' = ct_licenses db" "ct_permissions db' = ct_permissions db"
      using assms(1) by (auto simp: admin_change_def)
    then show ?thesis using check_user_create_role [OF p(1)] by (auto simp: peers_kept_def privileged_def)
  next
    case (UpdateUser i p0)
    then obtain p t where t: "check_user_update p0 = Inr p" "get_user i db = Inr t" "\<not> privileged (us_role t)"
      "up_role p = Some Admin \<longrightarrow> me_role actor = SuperAdmin"
      "ct_users db' = table_update (\<lambda>u. us_id u = i \<and> \<not> us_deleted u) (apply_user_update p) (ct_users db)"
      "ct_licenses db' = ct_licenses db" "ct_permissions db' = ct_permissions db"
      using assms(1) np by (auto simp: admin_change_def)
    show ?thesis
    proof (rule peers_kept_user_update [OF t(2,3) keys _ t(5-7)])
      fix u show "us_role (apply_user_update p u) = us_role u \<or> \<not> privileged (us_role (apply_user_update p u))"
        using t(4) check_user_update_role [OF t(1)] assms(3) by (auto simp: privileged_def split: option.splits)
    qed
  next
    case (DeleteUser i)
    then obtain t where "get_user i db = Inr t" "\<not> privileged (us_role t)"
      "ct_users db' = table_update (\<lambda>u. us_id u = i \<and> \<not> us_deleted u) (\<lambda>u. u\<lparr>us_deleted := True, us_active := False\<rparr>) (ct_users db)"
      "ct_licenses db' = ct_licenses db" "ct_permissions db' = ct_permissions db"
      using assms(1) np by (auto simp: admin_change_def)
    then show ?thesis by (intro peers_kept_user_update [OF _ _ keys]) auto
  next
    case (ToggleActive i)
    then obtain t where "get_user i db = Inr t" "\<not> privileged (us_role t)"
      "ct_users db' = table_update (\<lambda>u. us_id u = i \<and> \<not> us_deleted u) (\<lambda>u. u\<lparr>us_active := \<not> us_active u\<rparr>) (ct_users db)"
      "ct_licenses db' = ct_licenses db" "ct_permissions db' = ct_permissions db"
      using assms(1) np by (auto simp: admin_change_def)
    then show ?thesis by (intro peers_kept_user_update [OF _ _ keys]) auto
  next
    case (GrantPermission i p0)
    then obtain t row where t: "get_user i db = Inr t" "\<not> privileged (us_role t)" "pm_user row = i"
      "ct_permissions db' = ct_permissions db @ [row]" "ct_users db' = ct_users db" "ct_licenses db' = ct_licenses db"
      using assms(1) np by (auto simp: admin_change_def)
    then have "\<not> privileged_id db i" using target by blast
    with t show ?thesis by (simp add: peers_kept_def)
  next
    case (RevokePermission i q)
    then obtain t where t: "get_user i db = Inr t" "\<not> privileged (us_role t)"
      "ct_permissions db' = filter (\<lambda>p. \<not> (pm_id p = q \<and> pm_user p = i)) (ct_permissions db)"
      "ct_users db' = ct_users db" "ct_licenses db' = ct_licenses db"
      using assms(1) np by (auto simp: admin_change_def)
    then have "\<not> privileged_id db i" using target by blast
    with t show ?thesis by (auto simp: peers_kept_def intro!: filter_cong)
  next
    case (CreateLicense p0)
    then obtain t row where t: "get_user (li_user row) db = Inr t" "\<not> privileged (us_role t)"
      "ct_licenses db' = ct_licenses db @ [row]" "ct_users db' = ct_users db" "ct_permissions db' = ct_permissions db"
      using assms(1) np by (auto simp: admin_change_def)
    then have "\<not> privileged_id db (li_user row)" using target by blast
    with t show ?thesis by (simp add: peers_kept_def)
  next
    case (UpdateLicense i p0)
    then obtain p l t where "license_target i db = Inr (l, t)" "\<not> privileged (us_role t)"
      "ct_licenses db' = table_update (\<lambda>l. li_id l = i) (apply_license_update p) (ct_licenses db)"
      "ct_users db' = ct_users db" "ct_permissions db' = ct_permissions db"
      using assms(1) np by (auto simp: admin_change_def)
    then show ?thesis by (intro peers_kept_license_update [OF _ _ assms(2)]) auto
  next
    case (ExpireLicense i)
    then obtain l t where "license_target i db = Inr (l, t)" "\<not> privileged (us_role t)"
      "ct_licenses db' = table_update (\<lambda>l. li_id l = i) (\<lambda>l. l\<lparr>li_until := now, li_active := False\<rparr>) (ct_licenses db)"
      "ct_users db' = ct_users db" "ct_permissions db' = ct_permissions db"
      using assms(1) np by (auto simp: admin_change_def)
    then show ?thesis by (intro peers_kept_license_update [OF _ _ assms(2)]) auto
  qed
qed

text \<open>
  C7. An administrator who is no super-administrator never touches a peer or a super-administrator:
  an accepted request leaves every row of a privileged user, every licence and every permission
  of a privileged user, as it was, and makes nobody privileged.
\<close>
theorem admin_scope:
  assumes "admin_request hash key actor now new_id call db = Inr db'" "schema_ok db" "me_role actor = Admin"
  shows "filter (\<lambda>u. privileged (us_role u)) (ct_users db') = filter (\<lambda>u. privileged (us_role u)) (ct_users db) \<and>
     filter (\<lambda>l. privileged_id db (li_user l)) (ct_licenses db') = filter (\<lambda>l. privileged_id db (li_user l)) (ct_licenses db) \<and>
     filter (\<lambda>p. privileged_id db (pm_user p)) (ct_permissions db') = filter (\<lambda>p. privileged_id db (pm_user p)) (ct_permissions db)"
  using peers_step admin_request_change [OF assms(1)] assms(2,3) unfolding peers_kept_def by blast


lemma admin_scope_witness:
  "\<exists>db'. admin_request id (\<lambda>i t. i) (example_actor ''a'' Admin) 5 ''n'' (DeleteUser ''v'') example_central = Inr db'
     \<and> filter (\<lambda>u. privileged (us_role u)) (ct_users db') = [example_user ''s'' SuperAdmin, example_user ''a'' Admin]"
proof -
  obtain db' where e: "admin_request id (\<lambda>i t. i) (example_actor ''a'' Admin) 5 ''n'' (DeleteUser ''v'') example_central = Inr db'"
    by (rule example_request)
  have "me_role (example_actor ''a'' Admin) = Admin" by code_simp
  from admin_scope [OF e example_central_ok this]
  have "filter (\<lambda>u. privileged (us_role u)) (ct_users db') = filter (\<lambda>u. privileged (us_role u)) (ct_users example_central)" by simp
  also have "\<dots> = [example_user ''s'' SuperAdmin, example_user ''a'' Admin]"
    by (simp add: example_central_def example_user_def privileged_def)
  finally show ?thesis using e by blast
qed

lemma roles_kept:
  assumes "\<And>u. us_id (f u) = us_id u \<and> us_role (f u) = us_role u" "u \<in> set (table_update P f us)"
  shows "\<exists>v \<in> set us. us_id v = us_id u \<and> us_role v = us_role u"
  using assms by (auto simp: in_table_update)

text \<open>
  Nobody becomes a super-administrator through the interface, and only a super-administrator
  makes somebody an administrator.
\<close>
theorem no_privilege_escalation:
  assumes "admin_request hash key actor now new_id call db = Inr db'" "u \<in> set (ct_users db')" "privileged (us_role u)"
  shows "(\<exists>v \<in> set (ct_users db). us_id v = us_id u \<and> us_role v = us_role u) \<or>
     (us_role u = Admin \<and> me_role actor = SuperAdmin)"
proof -
  have change: "admin_change actor now new_id call db db'" using admin_request_change [OF assms(1)] by simp
  have "(\<exists>v \<in> set (ct_users db). us_id v = us_id u \<and> us_role v = us_role u) \<or> (us_role u = Admin \<and> me_role actor = SuperAdmin)"
  proof (cases call)
    case (CreateUser p0)
    then obtain p row where p: "check_user_create p0 = Inr p" "us_role row = uc_role p" "ct_users db' = ct_users db @ [row]"
      using change by (auto simp: admin_change_def)
    then show ?thesis using assms(2,3) check_user_create_role [OF p(1)] by (auto simp: privileged_def)
  next
    case (UpdateUser i p0)
    then obtain p where p: "check_user_update p0 = Inr p" "up_role p = Some Admin \<longrightarrow> me_role actor = SuperAdmin"
      "ct_users db' = table_update (\<lambda>u. us_id u = i \<and> \<not> us_deleted u) (apply_user_update p) (ct_users db)"
      using change by (auto simp: admin_change_def)
    obtain v where v: "v \<in> set (ct_users db)" "u = (if us_id v = i \<and> \<not> us_deleted v then apply_user_update p v else v)"
      using assms(2) p(3) by (auto simp: in_table_update)
    then have "us_id u = us_id v" "us_role u = us_role v \<or> up_role p = Some (us_role u)"
      by (auto split: option.splits)
    then show ?thesis using v(1) p(2) check_user_update_role [OF p(1)] assms(3) by (auto simp: privileged_def)
  next
    case (DeleteUser i)
    then show ?thesis using change assms(2) roles_kept [of "\<lambda>u. u\<lparr>us_deleted := True, us_active := False\<rparr>"]
      by (fastforce simp: admin_change_def)
  next
    case (ToggleActive i)
    then show ?thesis using change assms(2) roles_kept [of "\<lambda>u. u\<lparr>us_active := \<not> us_active u\<rparr>"]
      by (fastforce simp: admin_change_def)
  qed (use change assms(2) in \<open>auto simp: admin_change_def\<close>)
  then show ?thesis .
qed

lemma no_privilege_escalation_witness:
  "\<exists>db' u. admin_request id (\<lambda>i t. i) (example_actor ''a'' Admin) 5 ''n'' (DeleteUser ''v'') example_central = Inr db'
     \<and> u \<in> set (ct_users db') \<and> us_role u = SuperAdmin \<and> us_id u \<in> us_id ` set (ct_users example_central)"
proof -
  obtain db' where e: "admin_request id (\<lambda>i t. i) (example_actor ''a'' Admin) 5 ''n'' (DeleteUser ''v'') example_central = Inr db'"
    by (rule example_request)
  obtain u where u: "u \<in> set (ct_users db')" "us_role u = SuperAdmin"
    using survives_step [OF conjunct2 [OF admin_request_change [OF e]] example_central_ok example_has_operational]
    unfolding has_operational_def operational_def by blast
  have "privileged (us_role u)" using u(2) by (simp add: privileged_def)
  from no_privilege_escalation [OF e u(1) this] u(2)
  have "us_id u \<in> us_id ` set (ct_users example_central)" by (auto intro: rev_image_eqI)
  with e u show ?thesis by blast
qed

subsection \<open>Audit\<close>

lemma audit_step:
  assumes "admin_handler hash key actor now new_id call db = Inr db'"
  shows "\<exists>a. ct_audit db' = ct_audit db @ [a] \<and> au_user a = me_id actor"
  using assms
proof (cases call)
  case (CreateUser p)
  then show ?thesis using assms by (auto simp: no_reply_Inr create_user_def bindE_eq_Inr Let_def)
next
  case (UpdateUser i p)
  then show ?thesis using assms by (auto simp: no_reply_Inr update_user_def bindE_eq_Inr split: if_splits)
next
  case (DeleteUser i)
  then show ?thesis using assms by (auto simp: no_reply_Inr delete_user_def bindE_eq_Inr Let_def)
next
  case (ToggleActive i)
  then show ?thesis using assms by (auto simp: no_reply_Inr toggle_active_def bindE_eq_Inr Let_def split: if_splits)
next
  case (GrantPermission i p)
  then show ?thesis using assms by (auto simp: no_reply_Inr grant_permission_def bindE_eq_Inr Let_def)
next
  case (RevokePermission i q)
  then show ?thesis using assms by (auto simp: no_reply_Inr revoke_permission_def bindE_eq_Inr)
next
  case (CreateLicense p)
  then show ?thesis using assms by (auto simp: no_reply_Inr create_license_def bindE_eq_Inr Let_def)
next
  case (UpdateLicense i p)
  then show ?thesis using assms by (auto simp: no_reply_Inr update_license_def bindE_eq_Inr Let_def split: if_splits)
next
  case (ExpireLicense i)
  then show ?thesis using assms by (auto simp: no_reply_Inr expire_license_def bindE_eq_Inr Let_def)
qed

text \<open>Every accepted request of an administrator leaves exactly one audit entry, in its name.\<close>

lemma admin_audited:
  assumes "admin_request hash key actor now new_id call db = Inr db'"
  shows "\<exists>a. ct_audit db' = ct_audit db @ [a] \<and> au_user a = me_id actor"
  using assms audit_step by (auto simp: admin_request_def bindE_eq_Inr)

subsection \<open>Refusals\<close>

lemma protect_refuses:
  assumes "t \<in> set (ct_users db)" "operational now db t" "\<And>u. u \<in> set (ct_users db) \<Longrightarrow> operational now db u \<Longrightarrow> us_id u = us_id t"
    "\<And>x l. ex = Some x \<Longrightarrow> l \<in> set (ct_licenses db) \<Longrightarrow> li_user l = us_id t \<Longrightarrow> license_current now l \<Longrightarrow> li_id l = x"
  shows "protect_last_super_admin now db (us_id t) (us_role t) ex =
     Inl (HttpError 409 ''The final active super-admin cannot be removed'')"
proof -
  have "list_ex (\<lambda>u. us_id u = us_id t \<and> operational now db u) (ct_users db)"
    using assms(1,2) by (auto simp: list_ex_iff)
  moreover have "\<not> list_ex (\<lambda>u. us_id u \<noteq> us_id t \<and> operational now db u) (ct_users db)"
    using assms(3) by (auto simp: list_ex_iff)
  moreover have "\<not> list_ex (\<lambda>l. li_user l = us_id t \<and> li_id l \<noteq> x \<and> license_current now l) (ct_licenses db)" if "ex = Some x" for x
    using assms(4) [OF that] by (auto simp: list_ex_iff)
  moreover have "us_role t = SuperAdmin" using assms(2) by (simp add: operational_def)
  ultimately show ?thesis by (auto simp: protect_last_super_admin_def split: option.split)
qed

lemma find_user_keys:
  assumes "distinct (map us_id (ct_users db))" "t \<in> set (ct_users db)" "\<not> us_deleted t"
  shows "find_user (us_id t) db = Some t"
proof -
  have "List.find (\<lambda>u. us_id u = us_id t \<and> \<not> us_deleted u) us = Some t"
    if "distinct (map us_id us)" "t \<in> set us" for us
    using that assms(3)
  proof (induction us)
    case Nil
    then show ?case by simp
  next
    case (Cons u us)
    show ?case
    proof (cases "u = t")
      case True
      then show ?thesis using assms(3) by simp
    next
      case False
      then have "t \<in> set us" using Cons.prems(2) by auto
      moreover from this have "us_id u \<noteq> us_id t" using Cons.prems(1) by (auto simp: image_iff)
      ultimately show ?thesis using Cons by simp
    qed
  qed
  then show ?thesis using assms by (simp add: find_user_def)
qed

text \<open>
  Removing the last operational super-administrator is refused with 409, whoever asks:
  deleting or disabling the account (by another super-administrator) and expiring its only
  current licence.
\<close>
theorem last_super_admin_refused:
  assumes "schema_ok db" "t \<in> set (ct_users db)" "operational now db t" "me_role actor = SuperAdmin"
    "\<forall>u \<in> set (ct_users db). operational now db u \<longrightarrow> us_id u = us_id t"
    "l \<in> set (ct_licenses db)" "li_user l = us_id t"
    "\<forall>k \<in> set (ct_licenses db). li_user k = us_id t \<and> license_current now k \<longrightarrow> k = l"
  shows "(us_id t \<noteq> me_id actor \<longrightarrow>
       delete_user actor now (us_id t) db = Inl (HttpError 409 ''The final active super-admin cannot be removed'') \<and>
       toggle_active actor now (us_id t) db = Inl (HttpError 409 ''The final active super-admin cannot be removed'')) \<and>
     expire_license actor now (li_id l) db = Inl (HttpError 409 ''The final active super-admin cannot be removed'')"
proof -
  have keys: "distinct (map us_id (ct_users db))" "distinct (map li_id (ct_licenses db))"
    using assms(1) by (simp_all add: schema_ok_def)
  have t: "us_active t" "\<not> us_deleted t" using assms(3) by (simp_all add: operational_def)
  have get: "get_user (us_id t) db = Inr t" using find_user_keys [OF keys(1) assms(2) t(2)] by (simp add: get_user_def)
  have may: "assert_can_manage actor r = Inr ()" for r using assms(4) by (simp add: assert_can_manage_def)
  have refuse: "protect_last_super_admin now db (us_id t) (us_role t) ex =
      Inl (HttpError 409 ''The final active super-admin cannot be removed'')" if "ex = None \<or> ex = Some (li_id l)" for ex
    by (rule protect_refuses [OF assms(2,3)]) (use assms(5,8) that in auto)
  obtain l1 u where lu: "license_target (li_id l) db = Inr (l1, u)"
  proof -
    obtain l1 where l1: "find_license (li_id l) db = Some l1"
      using assms(6) by (cases "find_license (li_id l) db") (auto simp: find_license_def find_None_iff)
    then have "l1 = l" using same_key [OF keys(2) _ assms(6)] by (auto simp: find_license_def find_Some_iff)
    moreover obtain u where "List.find (\<lambda>u. us_id u = li_user l) (ct_users db) = Some u"
      using assms(2,7) by (cases "List.find (\<lambda>u. us_id u = li_user l) (ct_users db)") (auto simp: find_None_iff)
    ultimately show thesis using l1 by (intro that [of l u]) (simp add: license_target_def)
  qed
  have l1: "l1 = l" using license_target_Inr [OF lu] same_key [OF keys(2) _ assms(6)] by auto
  have "u = t" using license_target_Inr [OF lu] l1 assms(7) by (intro same_key [OF keys(1) _ assms(2)]) auto
  then have "expire_license actor now (li_id l) db = Inl (HttpError 409 ''The final active super-admin cannot be removed'')"
    using lu l1 may refuse [of "Some (li_id l)"] by (simp add: expire_license_def)
  then show ?thesis using get may refuse [of None] t by (simp add: delete_user_def toggle_active_def)
qed

lemma last_super_admin_refused_witness:
  "delete_user (example_actor ''z'' SuperAdmin) 5 ''s'' example_central
     = Inl (HttpError 409 ''The final active super-admin cannot be removed'')"
proof -
  let ?t = "example_user ''s'' SuperAdmin"
  have 1: "?t \<in> set (ct_users example_central)" by code_simp
  have 2: "operational 5 example_central ?t" by code_simp
  have 3: "me_role (example_actor ''z'' SuperAdmin) = SuperAdmin" by code_simp
  have 4: "\<forall>u \<in> set (ct_users example_central). operational 5 example_central u \<longrightarrow> us_id u = us_id ?t" by code_simp
  have 5: "example_license \<in> set (ct_licenses example_central)" "li_user example_license = us_id ?t" by code_simp+
  have 6: "\<forall>k \<in> set (ct_licenses example_central). li_user k = us_id ?t \<and> license_current 5 k \<longrightarrow> k = example_license"
    by (simp add: example_central_def)
  have 7: "us_id ?t = ''s''" "us_id ?t \<noteq> me_id (example_actor ''z'' SuperAdmin)" by code_simp+
  from last_super_admin_refused [OF example_central_ok 1 2 3 4 5 6] 7 show ?thesis by simp
qed

text \<open>
  The guard looks at the instant of the request only: a super-administrator may set the last
  current licence of the last operational super-administrator to end in the next microsecond,
  after which nobody is operational.
\<close>

lemma last_license_may_lapse:
  "case admin_request id (\<lambda>i t. i) (example_actor ''s'' SuperAdmin) 5 ''n''
      (UpdateLicense ''l'' \<lparr>lu_from = None, lu_until = Some 6, lu_max_cameras = None, lu_features = None,
         lu_modules = None, lu_active = None\<rparr>) example_central of
     Inl e \<Rightarrow> False | Inr db' \<Rightarrow> has_operational 5 db' \<and> \<not> has_operational 6 db'"
  by code_simp

end
