(* ===== verification/Central_Sessions.thy ===== *)
theory Central_Sessions
  imports Central_Admin_Props
begin

section \<open>Sessions of the central service\<close>

text \<open>
  \<open>services/session_service.py\<close>, \<open>services/auth_service.py\<close>, \<open>security.py\<close>, \<open>dependencies.py\<close> and
  \<open>routers/auth.py\<close> of \<open>webapp-backend\<close>. Redis holds one pair of keys \<open>session:<user>\<close> and
  \<open>refresh:<user>\<close> for each user, each with an absolute expiry in seconds; the three Lua scripts are
  atomic functions on them. SHA-256, the JWT library, bcrypt and the UUID parser are the fields of
  \<open>auth_env\<close>. PostgreSQL, Redis and the service read the same clock.
\<close>

subsection \<open>Tokens\<close>

text \<open>An absent claim is the empty text.\<close>

record token_claims =
  tk_sub :: string
  tk_type :: string
  tk_sid :: string
  tk_jti :: string
  tk_iat :: int
  tk_exp :: int

record auth_env =
  ae_hash :: "string \<Rightarrow> string"
  ae_jwt_encode :: "token_claims \<Rightarrow> string"
  ae_jwt_decode :: "time \<Rightarrow> string \<Rightarrow> token_claims option"
  ae_uuid :: "string \<Rightarrow> ident option"
  ae_verify :: "string \<Rightarrow> string \<Rightarrow> bool"
  ae_access_minutes :: int
  ae_refresh_days :: int

definition secs :: "time \<Rightarrow> int" where
  "secs t = (if 0 \<le> t then t div 1000000 else - (- t div 1000000))"

definition create_token :: "auth_env \<Rightarrow> time \<Rightarrow> string \<Rightarrow> string \<Rightarrow> time \<Rightarrow> string \<Rightarrow> string \<Rightarrow> string" where
  "create_token env now subject kind delta sid jti =
     ae_jwt_encode env \<lparr>tk_sub = subject, tk_type = kind, tk_sid = sid, tk_jti = jti, tk_iat = secs now,
       tk_exp = secs (now + delta)\<rparr>"

definition decode_token :: "auth_env \<Rightarrow> time \<Rightarrow> string \<Rightarrow> string \<Rightarrow> token_claims option" where
  "decode_token env now token expected =
     (case ae_jwt_decode env now token of
        None \<Rightarrow> None
      | Some c \<Rightarrow> if tk_type c \<noteq> expected \<or> tk_sub c = [] \<or> tk_sid c = [] \<or> tk_jti c = [] then None else Some c)"

text \<open>\<open>issue_token_pair\<close>: access token, refresh token; the token identities are drawn by \<open>uuid4\<close>.\<close>

definition issue_token_pair :: "auth_env \<Rightarrow> time \<Rightarrow> string \<Rightarrow> string \<Rightarrow> string \<Rightarrow> string \<Rightarrow> string \<times> string" where
  "issue_token_pair env now user sid access_jti refresh_jti =
     (create_token env now user ''access'' (ae_access_minutes env * 60 * 1000000) sid access_jti,
      create_token env now user ''refresh'' (ae_refresh_days env * 86400 * 1000000) sid refresh_jti)"

subsection \<open>The pair of keys\<close>

record session_val =
  sv_sid :: string
  sv_user :: ident
  sv_token_hash :: string
  sv_license :: ident
  sv_license_from :: int
  sv_license_until :: int
  sv_session_expires :: int
  sv_refresh_expires :: int

record refresh_val =
  rv_token_hash :: string
  rv_jti :: string
  rv_sid :: string
  rv_refresh_expires :: int

text \<open>A value that does not decode as JSON is \<open>Garbage\<close>.\<close>

datatype 'v stored = Garbage | Stored 'v

record redis_state =
  rd_session :: "ident \<Rightarrow> (session_val stored \<times> int) option"
  rd_refresh :: "ident \<Rightarrow> (refresh_val stored \<times> int) option"

text \<open>\<open>GET\<close>: a key is gone from its expiry on. \<open>SET\<close> and \<open>EXPIREAT\<close>: an expiry in the past deletes.\<close>

definition redis_get :: "time \<Rightarrow> ('v \<times> int) option \<Rightarrow> 'v option" where
  "redis_get now entry = (case entry of None \<Rightarrow> None | Some (v, x) \<Rightarrow> if secs now < x then Some v else None)"

definition redis_set :: "time \<Rightarrow> 'v \<Rightarrow> int \<Rightarrow> ('v \<times> int) option" where
  "redis_set now v x = (if secs now < x then Some (v, x) else None)"

text \<open>\<open>TTL\<close>: the remaining seconds, rounded; -2 for a missing key.\<close>

definition redis_ttl :: "time \<Rightarrow> ('v \<times> int) option \<Rightarrow> int" where
  "redis_ttl now entry =
     (case entry of None \<Rightarrow> - 2
      | Some (v, x) \<Rightarrow> if secs now < x then (x * 1000 - now div 1000 + 500) div 1000 else - 2)"

definition delete_pair :: "ident \<Rightarrow> redis_state \<Rightarrow> redis_state" where
  "delete_pair u rd = rd\<lparr>rd_session := (rd_session rd)(u := None), rd_refresh := (rd_refresh rd)(u := None)\<rparr>"

definition session_state ::
  "auth_env \<Rightarrow> string \<Rightarrow> ident \<Rightarrow> license_row \<Rightarrow> int \<Rightarrow> int \<Rightarrow> session_val" where
  "session_state env token user l session_expires refresh_expires =
     \<lparr>sv_sid = ae_hash env token, sv_user = user, sv_token_hash = ae_hash env token, sv_license = li_id l,
      sv_license_from = secs (li_from l), sv_license_until = secs (li_until l),
      sv_session_expires = session_expires, sv_refresh_expires = refresh_expires\<rparr>"

definition refresh_state :: "auth_env \<Rightarrow> string \<Rightarrow> string \<Rightarrow> string \<Rightarrow> int \<Rightarrow> refresh_val" where
  "refresh_state env token jti sid expires =
     \<lparr>rv_token_hash = ae_hash env token, rv_jti = jti, rv_sid = sid, rv_refresh_expires = expires\<rparr>"

definition activate_session ::
  "time \<Rightarrow> ident \<Rightarrow> session_val \<Rightarrow> refresh_val \<Rightarrow> int \<Rightarrow> int \<Rightarrow> redis_state \<Rightarrow> redis_state" where
  "activate_session now u s r session_expires refresh_expires rd =
     rd\<lparr>rd_session := (rd_session rd)(u := redis_set now (Stored s) session_expires),
        rd_refresh := (rd_refresh rd)(u := redis_set now (Stored r) refresh_expires)\<rparr>"

text \<open>\<open>ROTATE_REFRESH_LUA\<close>.\<close>

definition rotate_refresh ::
  "auth_env \<Rightarrow> time \<Rightarrow> ident \<Rightarrow> string \<Rightarrow> string \<Rightarrow> string \<Rightarrow> refresh_val \<Rightarrow> redis_state \<Rightarrow> bool \<times> redis_state" where
  "rotate_refresh env now u token jti sid replacement rd =
     (case (redis_get now (rd_refresh rd u), redis_get now (rd_session rd u)) of
        (Some (Stored r), Some (Stored s)) \<Rightarrow>
          (if rv_token_hash r \<noteq> ae_hash env token \<or> rv_jti r \<noteq> jti \<or> rv_sid r \<noteq> sid \<or> sv_sid s \<noteq> sid \<or>
              rv_sid replacement \<noteq> sid
           then (False, rd)
           else (let refresh_expiry = min (rv_refresh_expires replacement) (sv_license_until s);
                     session_expiry = min (sv_session_expires s) (sv_license_until s)
                 in if refresh_expiry \<le> secs now \<or> session_expiry \<le> secs now then (False, rd)
                    else (True, rd\<lparr>
                      rd_session := (rd_session rd)(u := redis_set now
                        (Stored (s\<lparr>sv_refresh_expires := rv_refresh_expires replacement\<rparr>)) session_expiry),
                      rd_refresh := (rd_refresh rd)(u := redis_set now (Stored replacement) refresh_expiry)\<rparr>)))
      | (Some _, Some _) \<Rightarrow> (False, delete_pair u rd)
      | _ \<Rightarrow> (False, rd))"

text \<open>\<open>DELETE_IF_SID_LUA\<close>; \<open>cjson.decode\<close> of a broken value raises.\<close>

definition delete_if_sid :: "time \<Rightarrow> ident \<Rightarrow> string \<Rightarrow> redis_state \<Rightarrow> string + bool \<times> redis_state" where
  "delete_if_sid now u sid rd =
     (case redis_get now (rd_session rd u) of
        None \<Rightarrow> Inr (True, rd\<lparr>rd_refresh := (rd_refresh rd)(u := None)\<rparr>)
      | Some Garbage \<Rightarrow> Inl ''cjson''
      | Some (Stored s) \<Rightarrow> if sv_sid s \<noteq> sid then Inr (False, rd) else Inr (True, delete_pair u rd))"

text \<open>\<open>RECONCILE_LUA\<close>, for the licence the caller has read.\<close>

definition reconcile_pair :: "time \<Rightarrow> ident \<Rightarrow> string \<Rightarrow> ident \<Rightarrow> int \<Rightarrow> int \<Rightarrow> redis_state \<Rightarrow> redis_state" where
  "reconcile_pair now u sid license valid_from valid_until rd =
     (case (redis_get now (rd_session rd u), redis_get now (rd_refresh rd u)) of
        (Some (Stored s), Some (Stored r)) \<Rightarrow>
          (if sv_sid s = [] \<or> sv_sid s \<noteq> rv_sid r \<or> (sid \<noteq> [] \<and> sv_sid s \<noteq> sid) then delete_pair u rd
           else if valid_from > secs now \<or> valid_until \<le> secs now then rd
           else (let session_expiry = min (sv_session_expires s) valid_until;
                     refresh_expiry = min (rv_refresh_expires r) valid_until
                 in if session_expiry \<le> secs now \<or> refresh_expiry \<le> secs now then delete_pair u rd
                    else rd\<lparr>
                      rd_session := (rd_session rd)(u := redis_set now
                        (Stored (s\<lparr>sv_license := license, sv_license_from := valid_from,
                           sv_license_until := valid_until, sv_refresh_expires := rv_refresh_expires r\<rparr>)) session_expiry),
                      rd_refresh := (rd_refresh rd)(u := redis_set now (Stored r) refresh_expiry)\<rparr>))
      | _ \<Rightarrow> delete_pair u rd)"

text \<open>\<open>reconciliation_expiries\<close>, the same rule in Python.\<close>

definition reconciliation_expiries :: "session_val \<Rightarrow> refresh_val \<Rightarrow> int \<Rightarrow> int \<Rightarrow> int \<Rightarrow> py_error + int \<times> int" where
  "reconciliation_expiries s r valid_from valid_until now =
     bindE (guardE (\<not> (valid_from > now \<or> valid_until \<le> now)) (ValueError ''license is not currently active'')) (\<lambda>_.
     bindE (guardE (\<not> (sv_sid s = [] \<or> sv_sid s \<noteq> rv_sid r))
              (ValueError ''session and refresh metadata do not form a pair'')) (\<lambda>_.
     (let session_effective = min (sv_session_expires s) valid_until;
          refresh_effective = min (rv_refresh_expires r) valid_until
      in bindE (guardE (\<not> (session_effective \<le> now \<or> refresh_effective \<le> now))
                  (ValueError ''session pair is already expired'')) (\<lambda>_.
         Inr (session_effective, refresh_effective)))))"

subsection \<open>Validation\<close>

record central_sys =
  sy_db :: central_db
  sy_redis :: redis_state

definition session_row_valid :: "time \<Rightarrow> central_db \<Rightarrow> ident \<Rightarrow> string \<Rightarrow> ident \<Rightarrow> user_row option" where
  "session_row_valid now db user_id token license_id =
     (if list_ex (\<lambda>s. lo_user s = user_id \<and> lo_token s = token \<and> lo_revoked s = None \<and> lo_expires s > now) (ct_logins db) \<and>
         list_ex (\<lambda>l. li_id l = license_id \<and> li_user l = user_id \<and> license_current now l) (ct_licenses db)
      then List.find (\<lambda>u. us_id u = user_id \<and> us_active u \<and> \<not> us_deleted u) (ct_users db)
      else None)"

definition validate_session_state ::
  "auth_env \<Rightarrow> time \<Rightarrow> ident \<Rightarrow> string \<Rightarrow> string option \<Rightarrow> central_sys \<Rightarrow>
     (session_val \<times> user_row \<times> permission_row list) option" where
  "validate_session_state env now user_id token expected_sid sys =
     (case redis_get now (rd_session (sy_redis sys) user_id) of
        Some (Stored s) \<Rightarrow>
          (let sid = ae_hash env token in
           if sv_token_hash s \<noteq> ae_hash env token \<or> sv_sid s \<noteq> sid \<or> (expected_sid \<noteq> None \<and> expected_sid \<noteq> Some sid)
           then None
           else if \<not> (sv_license_from s * 1000000 \<le> now \<and> now < sv_license_until s * 1000000) then None
           else (case session_row_valid now (sy_db sys) user_id token (sv_license s) of
                   None \<Rightarrow> None
                 | Some row \<Rightarrow> Some (s, row, sort_key pm_created (filter (\<lambda>p. pm_user p = user_id) (ct_permissions (sy_db sys))))))
      | _ \<Rightarrow> None)"

record credentials =
  cr_scheme :: string
  cr_token :: string

definition verify_dual_token ::
  "auth_env \<Rightarrow> time \<Rightarrow> credentials option \<Rightarrow> string \<Rightarrow> central_sys \<Rightarrow> http_error + current_user" where
  "verify_dual_token env now credentials token sys =
     (case credentials of
        None \<Rightarrow> Inl (HttpError 401 ''Both bearer and session tokens are required'')
      | Some c \<Rightarrow>
          if py_lower (cr_scheme c) \<noteq> ''bearer'' then Inl (HttpError 401 ''Both bearer and session tokens are required'')
          else (case decode_token env now (cr_token c) ''access'' of
             None \<Rightarrow> Inl (HttpError 401 ''Invalid or expired access token'')
           | Some payload \<Rightarrow>
               (case ae_uuid env (tk_sub payload) of
                  None \<Rightarrow> Inl (HttpError 401 ''Invalid token subject'')
                | Some user_id \<Rightarrow>
                    (case validate_session_state env now user_id token (Some (tk_sid payload)) sys of
                       None \<Rightarrow> Inl (HttpError 401 ''User is inactive or unavailable'')
                     | Some (s, u, perms) \<Rightarrow>
                         Inr \<lparr>me_id = us_id u, me_email = us_email u, me_role = us_role u, me_session_id = sv_sid s,
                              me_license_id = sv_license s, me_permissions = perms\<rparr>))))"

subsection \<open>The outbox of session actions\<close>

text \<open>
  The action of one row: the database part is committed on its own before Redis is called;
  \<open>fails\<close> is the error Redis raises, if it does.
\<close>

definition outbox_action :: "time \<Rightarrow> string option \<Rightarrow> outbox_row \<Rightarrow> central_sys \<Rightarrow> string option \<times> central_sys" where
  "outbox_action now fails row sys =
     (case ob_action row of
        Revoke \<Rightarrow>
          (case fails of Some e \<Rightarrow> (Some e, sys)
           | None \<Rightarrow>
               if ob_sid row \<noteq> []
               then (case delete_if_sid now (ob_user row) (ob_sid row) (sy_redis sys) of
                       Inl e \<Rightarrow> (Some e, sys) | Inr (_, rd) \<Rightarrow> (None, sys\<lparr>sy_redis := rd\<rparr>))
               else (None, sys\<lparr>sy_redis := delete_pair (ob_user row) (sy_redis sys)\<rparr>))
      | Reconcile \<Rightarrow>
          (case current_license now (ob_user row) (sy_db sys) of
             None \<Rightarrow>
               (let sys1 = sys\<lparr>sy_db := revoke_logins (\<lambda>l. lo_user l = ob_user row) now (sy_db sys)\<rparr>
                in case fails of Some e \<Rightarrow> (Some e, sys1)
                   | None \<Rightarrow> (None, sys1\<lparr>sy_redis := delete_pair (ob_user row) (sy_redis sys)\<rparr>))
           | Some l \<Rightarrow>
               (let sys1 = sys\<lparr>sy_db := (sy_db sys)\<lparr>ct_logins :=
                      table_update (\<lambda>x. lo_user x = ob_user row \<and> lo_revoked x = None)
                        (\<lambda>x. x\<lparr>lo_expires := li_until l\<rparr>) (ct_logins (sy_db sys))\<rparr>\<rparr>
                in case fails of Some e \<Rightarrow> (Some e, sys1)
                   | None \<Rightarrow> (None, sys1\<lparr>sy_redis := reconcile_pair now (ob_user row) (ob_sid row) (li_id l)
                                (secs (li_from l)) (secs (li_until l)) (sy_redis sys)\<rparr>))))"

definition outbox_mark :: "time \<Rightarrow> nat \<Rightarrow> string option \<Rightarrow> central_db \<Rightarrow> central_db" where
  "outbox_mark now i err db =
     db\<lparr>ct_outbox := table_update (\<lambda>r. ob_id r = i)
          (case err of
             None \<Rightarrow> (\<lambda>r. r\<lparr>ob_processed := Some now, ob_attempts := ob_attempts r + 1, ob_last_error := None\<rparr>)
           | Some e \<Rightarrow> (\<lambda>r. r\<lparr>ob_attempts := ob_attempts r + 1, ob_last_error := Some (take 2000 e)\<rparr>))
          (ct_outbox db)\<rparr>"

definition outbox_row_step :: "time \<Rightarrow> (nat \<Rightarrow> string option) \<Rightarrow> outbox_row \<Rightarrow> central_sys \<Rightarrow> central_sys" where
  "outbox_row_step now fails row sys =
     (let (err, sys1) = outbox_action now (fails (ob_id row)) row sys
      in sys1\<lparr>sy_db := outbox_mark now (ob_id row) err (sy_db sys1)\<rparr>)"

definition outbox_pending :: "nat \<Rightarrow> central_db \<Rightarrow> outbox_row list" where
  "outbox_pending n db = take n (sort_key ob_id (filter (\<lambda>r. ob_processed r = None) (ct_outbox db)))"

definition process_session_outbox_once :: "time \<Rightarrow> (nat \<Rightarrow> string option) \<Rightarrow> nat \<Rightarrow> central_sys \<Rightarrow> central_sys" where
  "process_session_outbox_once now fails n sys =
     foldl (\<lambda>s row. outbox_row_step now fails row s) sys (outbox_pending n (sy_db sys))"

subsection \<open>Login\<close>

record login_payload =
  lp_email :: string
  lp_password :: string
  lp_device :: "string option"

definition check_login :: "login_payload \<Rightarrow> http_error + login_payload" where
  "check_login p =
     bindE (email_string (lp_email p)) (\<lambda>email.
     bindE (text_field ''password'' 8 128 (lp_password p)) (\<lambda>password.
     bindE (optional_text ''device_fingerprint'' 512 (lp_device p)) (\<lambda>device.
     Inr \<lparr>lp_email = email, lp_password = password, lp_device = device\<rparr>)))"

text \<open>
  How the transaction ends: it commits; Redis does not activate the pair (the flag tells whether
  the keys were written all the same); or the commit fails after the activation (the flag tells
  whether the compensation reaches Redis).
\<close>

datatype login_end = LoginCommits | ActivationFails bool | CommitFails bool

record login_tokens =
  lt_session :: string
  lt_access_jti :: string
  lt_refresh_jti :: string

record login_reply =
  lr_access :: string
  lr_refresh :: string
  lr_session :: string
  lr_expires_in :: int
  lr_user :: user_row
  lr_permissions :: "permission_row list"

text \<open>The transaction for a user that the password check has let through.\<close>

definition login_transaction ::
  "auth_env \<Rightarrow> time \<Rightarrow> ident \<Rightarrow> string option \<Rightarrow> login_tokens \<Rightarrow> login_end \<Rightarrow> central_sys \<Rightarrow>
     (http_error + login_reply) \<times> central_sys" where
  "login_transaction env now user_id device t result sys =
     (let db = sy_db sys; sid = ae_hash env (lt_session t);
          (access, refresh) = issue_token_pair env now user_id sid (lt_access_jti t) (lt_refresh_jti t)
      in case decode_token env now refresh ''refresh'' of
        None \<Rightarrow> (Inl (HttpError 500 ''Internal server error''), sys)
      | Some claims \<Rightarrow>
        (case List.find (\<lambda>u. us_id u = user_id \<and> us_active u \<and> \<not> us_deleted u) (ct_users db) of
          None \<Rightarrow> (Inl (HttpError 401 ''User is inactive or unavailable''), sys)
        | Some u \<Rightarrow>
          (case current_license now user_id db of
            None \<Rightarrow> (Inl (HttpError 403 ''No active license''), sys)
          | Some l \<Rightarrow>
            if (li_until l - now) div 1000000 \<le> 0 then (Inl (HttpError 403 ''License has expired''), sys)
            else if list_ex (\<lambda>x. lo_token x = lt_session t) (ct_logins db)
            then (Inl (HttpError 500 ''Internal server error''), sys)
            else
              let db1 = revoke_logins (\<lambda>x. lo_user x = user_id) now db;
                  db2 = db1\<lparr>ct_logins := ct_logins db1 @ [\<lparr>lo_user = user_id, lo_token = lt_session t,
                           lo_device = device, lo_expires = li_until l, lo_revoked = None\<rparr>]\<rparr>;
                  db3 = write_audit user_id ''login'' ''auth.session'' None
                          (JObj [(''user_id'', JStr user_id), (''sid'', JStr sid)]) db2;
                  expires = min (tk_exp claims) (secs (li_until l));
                  rd = activate_session now user_id
                         (session_state env (lt_session t) user_id l (tk_exp claims) (tk_exp claims))
                         (refresh_state env refresh (lt_refresh_jti t) sid (tk_exp claims)) expires expires (sy_redis sys)
              in case result of
                   ActivationFails written \<Rightarrow>
                     (Inl (HttpError 500 ''Internal server error''), if written then sys\<lparr>sy_redis := rd\<rparr> else sys)
                 | CommitFails compensated \<Rightarrow>
                     (Inl (HttpError 500 ''Internal server error''),
                      sys\<lparr>sy_redis := (if compensated
                                       then (case delete_if_sid now user_id sid rd of Inl _ \<Rightarrow> rd | Inr (_, rd') \<Rightarrow> rd')
                                       else rd)\<rparr>)
                 | LoginCommits \<Rightarrow>
                     (Inr \<lparr>lr_access = access, lr_refresh = refresh, lr_session = lt_session t,
                           lr_expires_in = ae_access_minutes env * 60, lr_user = u,
                           lr_permissions = sort_key pm_created (filter (\<lambda>p. pm_user p = user_id) (ct_permissions db3))\<rparr>,
                      \<lparr>sy_db = db3, sy_redis = rd\<rparr>))))"

definition login_user :: "auth_env \<Rightarrow> login_payload \<Rightarrow> central_db \<Rightarrow> http_error + user_row" where
  "login_user env p db =
     (case List.find (\<lambda>u. py_lower (us_email u) = py_lower (lp_email p) \<and> us_active u \<and> \<not> us_deleted u) (ct_users db) of
        None \<Rightarrow> Inl (HttpError 401 ''Invalid credentials'')
      | Some u \<Rightarrow> bindE (guardE (ae_verify env (lp_password p) (us_password u)) (HttpError 401 ''Invalid credentials''))
                   (\<lambda>_. Inr u))"

definition login ::
  "auth_env \<Rightarrow> time \<Rightarrow> login_payload \<Rightarrow> login_tokens \<Rightarrow> login_end \<Rightarrow> central_sys \<Rightarrow>
     (http_error + login_reply) \<times> central_sys" where
  "login env now payload t result sys =
     (case bindE (check_login payload) (\<lambda>p. bindE (login_user env p (sy_db sys)) (\<lambda>u. Inr (p, u))) of
        Inl e \<Rightarrow> (Inl e, sys)
      | Inr (p, u) \<Rightarrow> login_transaction env now (us_id u) (lp_device p) t result sys)"

subsection \<open>Logout and refresh\<close>

text \<open>The caller is the \<open>current_user\<close> that \<open>verify_dual_token\<close> returned.\<close>

definition logout :: "time \<Rightarrow> (nat \<Rightarrow> string option) \<Rightarrow> current_user \<Rightarrow> string \<Rightarrow> central_sys \<Rightarrow> central_sys" where
  "logout now fails user token sys =
     (let db1 = revoke_logins (\<lambda>l. lo_user l = me_id user \<and> lo_token l = token) now (sy_db sys);
          db2 = enqueue_action (me_id user) Revoke (me_session_id user) db1;
          db3 = write_audit (me_id user) ''logout'' ''auth.session'' None (JObj []) db2
      in process_session_outbox_once now fails 100 (sys\<lparr>sy_db := db3\<rparr>))"

record refresh_reply =
  rr_access :: string
  rr_refresh :: string
  rr_expires_in :: int

text \<open>A refresh token that was not accepted: the session it belongs to is revoked.\<close>

definition refresh_replayed ::
  "time \<Rightarrow> (nat \<Rightarrow> string option) \<Rightarrow> ident \<Rightarrow> string \<Rightarrow> string \<Rightarrow> central_sys \<Rightarrow> central_sys" where
  "refresh_replayed now fails user_id token sid sys =
     (if (case redis_get now (rd_refresh (sy_redis sys) user_id) of
            Some (Stored r) \<Rightarrow> rv_sid r = sid | _ \<Rightarrow> True)
      then (let db1 = revoke_logins (\<lambda>l. lo_user l = user_id \<and> lo_token l = token) now (sy_db sys);
                db2 = enqueue_action user_id Revoke sid db1;
                db3 = write_audit user_id ''refresh_replay'' ''auth.session'' None (JObj [(''sid'', JStr sid)]) db2
            in process_session_outbox_once now fails 100 (sys\<lparr>sy_db := db3\<rparr>))
      else sys)"

text \<open>The rotation, for the claims of the token and the user they name.\<close>

definition refresh_rotate ::
  "auth_env \<Rightarrow> time \<Rightarrow> (nat \<Rightarrow> string option) \<Rightarrow> ident \<Rightarrow> string \<Rightarrow> token_claims \<Rightarrow> string \<Rightarrow> string \<Rightarrow> string \<Rightarrow>
     central_sys \<Rightarrow> (http_error + refresh_reply) \<times> central_sys" where
  "refresh_rotate env now fails user_id token claims session_token access_jti refresh_jti sys =
     (let sid = tk_sid claims;
          (access, replacement) = issue_token_pair env now user_id sid access_jti refresh_jti
      in case decode_token env now replacement ''refresh'' of
           None \<Rightarrow> (Inl (HttpError 500 ''Internal server error''), sys)
         | Some new_claims \<Rightarrow>
             (case rotate_refresh env now user_id token (tk_jti claims) sid
                     (refresh_state env replacement refresh_jti sid (tk_exp new_claims)) (sy_redis sys) of
                (False, rd) \<Rightarrow>
                  (Inl (HttpError 401 ''Refresh token was already consumed''),
                   refresh_replayed now fails user_id session_token sid (sys\<lparr>sy_redis := rd\<rparr>))
              | (True, rd) \<Rightarrow>
                  (Inr \<lparr>rr_access = access, rr_refresh = replacement, rr_expires_in = ae_access_minutes env * 60\<rparr>,
                   \<lparr>sy_db = write_audit user_id ''refresh'' ''auth.session'' None (JObj []) (sy_db sys), sy_redis = rd\<rparr>)))"

text \<open>
  \<open>RefreshRequest\<close> strips the token of the body and asks for 20 characters; \<open>compare_digest\<close> raises
  on a text that is not ASCII.
\<close>

definition refresh ::
  "auth_env \<Rightarrow> time \<Rightarrow> (nat \<Rightarrow> string option) \<Rightarrow> credentials option \<Rightarrow> string \<Rightarrow> string \<Rightarrow> string \<Rightarrow> string \<Rightarrow> central_sys \<Rightarrow>
     (http_error + refresh_reply) \<times> central_sys" where
  "refresh env now fails credentials body_token session_token access_jti refresh_jti sys =
     (let token = trim body_token in
      if length token < 20 then (Inl (HttpError 422 ''refresh_token''), sys)
      else if (case credentials of None \<Rightarrow> False | Some c \<Rightarrow> \<not> (ascii (cr_token c) \<and> ascii token))
      then (Inl (HttpError 500 ''Internal server error''), sys)
      else if (case credentials of None \<Rightarrow> True | Some c \<Rightarrow> cr_token c \<noteq> token)
      then (Inl (HttpError 401 ''Refresh and session tokens are required''), sys)
      else case decode_token env now token ''refresh'' of
        None \<Rightarrow> (Inl (HttpError 401 ''Invalid or expired refresh token''), sys)
      | Some claims \<Rightarrow>
        (case ae_uuid env (tk_sub claims) of
          None \<Rightarrow> (Inl (HttpError 401 ''Invalid or expired refresh token''), sys)
        | Some user_id \<Rightarrow>
          (case validate_session_state env now user_id session_token (Some (tk_sid claims)) sys of
             None \<Rightarrow> (Inl (HttpError 401 ''Refresh session is invalid or expired''), sys)
           | Some _ \<Rightarrow>
             if redis_ttl now (rd_session (sy_redis sys) user_id) \<le> 0
             then (Inl (HttpError 401 ''Refresh session is invalid or expired''), sys)
             else refresh_rotate env now fails user_id token claims session_token access_jti refresh_jti sys)))"

end
