(* ===== verification/Central_Session_Props.thy ===== *)
theory Central_Session_Props
  imports Central_Sessions
begin

section \<open>Properties of the central sessions\<close>

text \<open>
  The steps of the service as a relation, its invariant (one live login per user, a coherent pair
  of keys), and what follows: a revoked session is denied for ever,
  a refresh token works once and its replay revokes the session, a removed account is denied at
  once, and the outbox of revocations drains.
\<close>

subsection \<open>Steps\<close>

text \<open>
  A login, a logout and an administrative request are steps for whatever user and caller: the
  checks that let them through may have read an earlier state.
\<close>

inductive central_step :: "auth_env \<Rightarrow> central_sys \<Rightarrow> central_sys \<Rightarrow> bool" for env where
  step_login: "central_step env sys (snd (login_transaction env now user_id device t result sys))"
| step_refresh: "central_step env sys (snd (refresh env now fails credentials token session_token ajti rjti sys))"
| step_logout: "central_step env sys (logout now fails user session_token sys)"
| step_outbox: "central_step env sys (process_session_outbox_once now fails n sys)"
| step_admin: "admin_request hash key actor now new_id call (sy_db sys) = Inr db' \<Longrightarrow>
    central_step env sys (sys\<lparr>sy_db := db'\<rparr>)"

inductive central_reach :: "auth_env \<Rightarrow> central_sys \<Rightarrow> central_sys \<Rightarrow> bool" for env where
  reach_refl: "central_reach env sys sys"
| reach_step: "central_reach env sys sys1 \<Longrightarrow> central_step env sys1 sys2 \<Longrightarrow> central_reach env sys sys2"

lemma login_is_step: "snd (login env now payload t result sys) = sys \<or> central_step env sys (snd (login env now payload t result sys))"
  by (auto simp: login_def split: sum.split prod.split intro: step_login)

subsection \<open>The invariant\<close>

definition live_logins :: "ident \<Rightarrow> login_row list \<Rightarrow> login_row list" where
  "live_logins u ls = filter (\<lambda>l. lo_user l = u \<and> lo_revoked l = None) ls"

fun session_ok :: "(session_val stored \<times> int) option \<Rightarrow> bool" where
  "session_ok None = True"
| "session_ok (Some (Garbage, x)) = False"
| "session_ok (Some (Stored s, x)) = (x \<le> sv_license_until s \<and> x \<le> sv_session_expires s)"

fun refresh_ok :: "(refresh_val stored \<times> int) option \<Rightarrow> bool" where
  "refresh_ok None = True"
| "refresh_ok (Some (Garbage, y)) = False"
| "refresh_ok (Some (Stored r, y)) = (y \<le> rv_refresh_expires r)"

fun same_session :: "(session_val stored \<times> int) option \<Rightarrow> (refresh_val stored \<times> int) option \<Rightarrow> bool" where
  "same_session (Some (Stored s, x)) (Some (Stored r, y)) = (rv_sid r = sv_sid s \<and> y \<le> sv_license_until s)"
| "same_session _ _ = True"

definition pair_ok :: "(session_val stored \<times> int) option \<Rightarrow> (refresh_val stored \<times> int) option \<Rightarrow> bool" where
  "pair_ok a b \<longleftrightarrow> session_ok a \<and> refresh_ok b \<and> same_session a b"

definition logins_ok :: "login_row list \<Rightarrow> bool" where
  "logins_ok ls \<longleftrightarrow> distinct (map lo_token ls) \<and> (\<forall>u. length (live_logins u ls) \<le> 1)"

definition redis_ok :: "redis_state \<Rightarrow> bool" where
  "redis_ok rd \<longleftrightarrow> (\<forall>u. pair_ok (rd_session rd u) (rd_refresh rd u))"

definition central_inv :: "central_sys \<Rightarrow> bool" where
  "central_inv sys \<longleftrightarrow>
     logins_ok (ct_logins (sy_db sys)) \<and> redis_ok (sy_redis sys) \<and> distinct (map ob_id (ct_outbox (sy_db sys)))"

subsection \<open>Redis\<close>

lemma same_session_None [simp]: "same_session a None" "same_session None b"
  by (cases a rule: session_ok.cases; simp)+

lemma pair_ok_None [simp]: "pair_ok None None" "pair_ok a b \<Longrightarrow> pair_ok a None"
  by (simp_all add: pair_ok_def)

lemma pair_ok_set:
  assumes "x \<le> sv_license_until s" "x \<le> sv_session_expires s" "rv_sid r = sv_sid s" "y \<le> rv_refresh_expires r" "y \<le> sv_license_until s"
  shows "pair_ok (redis_set now (Stored s) x) (redis_set now (Stored r) y)"
  using assms by (simp add: redis_set_def pair_ok_def)

lemma redis_ok_upd:
  assumes "redis_ok rd" "pair_ok a b"
  shows "redis_ok (rd\<lparr>rd_session := (rd_session rd)(u := a), rd_refresh := (rd_refresh rd)(u := b)\<rparr>)"
  using assms by (simp add: redis_ok_def)

lemma redis_ok_delete [simp]: "redis_ok rd \<Longrightarrow> redis_ok (delete_pair u rd)"
  unfolding delete_pair_def by (rule redis_ok_upd) simp_all

lemma redis_ok_drop_refresh: "redis_ok rd \<Longrightarrow> redis_ok (rd\<lparr>rd_refresh := (rd_refresh rd)(u := None)\<rparr>)"
  unfolding redis_ok_def by (simp, blast intro: pair_ok_None(2))

lemma redis_ok_activate:
  assumes "redis_ok rd" "x \<le> sv_license_until s" "x \<le> sv_session_expires s" "rv_sid r = sv_sid s"
    "y \<le> rv_refresh_expires r" "y \<le> sv_license_until s"
  shows "redis_ok (activate_session now u s r x y rd)"
  unfolding activate_session_def
  by (rule redis_ok_upd [OF assms(1) pair_ok_set]) (use assms(2-) in auto)

lemma redis_get_Some: "redis_get now e = Some v \<longleftrightarrow> (\<exists>x. e = Some (v, x) \<and> secs now < x)"
  by (auto simp: redis_get_def split: option.splits)

lemma stored_cases [case_names none garbage stored]:
  obtains "e = None" | "e = Some Garbage" | v where "e = Some (Stored v)"
  by (metis not_Some_eq stored.exhaust)

lemma redis_ok_rotate:
  assumes "redis_ok rd" "rotate_refresh env now u token jti sid rep rd = (b, rd')"
  shows "redis_ok rd'"
proof (cases "\<exists>r s. redis_get now (rd_refresh rd u) = Some (Stored r) \<and> redis_get now (rd_session rd u) = Some (Stored s)")
  case True
  then obtain r s where rs: "redis_get now (rd_refresh rd u) = Some (Stored r)" "redis_get now (rd_session rd u) = Some (Stored s)" by blast
  have set: "redis_ok (rd\<lparr>rd_session := (rd_session rd)(u := redis_set now
        (Stored (s\<lparr>sv_refresh_expires := rv_refresh_expires rep\<rparr>)) (min (sv_session_expires s) (sv_license_until s))),
      rd_refresh := (rd_refresh rd)(u := redis_set now (Stored rep) (min (rv_refresh_expires rep) (sv_license_until s)))\<rparr>)"
    if "sv_sid s = sid" "rv_sid rep = sid"
    by (rule redis_ok_upd [OF assms(1) pair_ok_set]) (use that in auto)
  from assms rs set show ?thesis by (auto simp: rotate_refresh_def Let_def split: if_splits)
next
  case False
  then have "rd' = rd \<or> rd' = delete_pair u rd"
    using assms(2) by (cases "redis_get now (rd_refresh rd u)" rule: stored_cases; cases "redis_get now (rd_session rd u)" rule: stored_cases)
      (simp_all add: rotate_refresh_def)
  with assms(1) show ?thesis by auto
qed

lemma redis_ok_reconcile:
  assumes "redis_ok rd"
  shows "redis_ok (reconcile_pair now u sid lic vf vu rd)"
proof (cases "\<exists>r s. redis_get now (rd_refresh rd u) = Some (Stored r) \<and> redis_get now (rd_session rd u) = Some (Stored s)")
  case True
  then obtain r s where rs: "redis_get now (rd_refresh rd u) = Some (Stored r)" "redis_get now (rd_session rd u) = Some (Stored s)" by blast
  have set: "redis_ok (rd\<lparr>rd_session := (rd_session rd)(u := redis_set now
        (Stored (s\<lparr>sv_license := lic, sv_license_from := vf, sv_license_until := vu, sv_refresh_expires := rv_refresh_expires r\<rparr>))
        (min (sv_session_expires s) vu)),
      rd_refresh := (rd_refresh rd)(u := redis_set now (Stored r) (min (rv_refresh_expires r) vu))\<rparr>)"
    if "sv_sid s = rv_sid r"
    by (rule redis_ok_upd [OF assms pair_ok_set]) (use that in auto)
  from assms rs set show ?thesis by (simp add: reconcile_pair_def Let_def)
next
  case False
  then have "reconcile_pair now u sid lic vf vu rd = delete_pair u rd"
    by (cases "redis_get now (rd_refresh rd u)" rule: stored_cases; cases "redis_get now (rd_session rd u)" rule: stored_cases)
      (simp_all add: reconcile_pair_def)
  with assms show ?thesis by simp
qed

lemma redis_ok_delete_if_sid: "redis_ok rd \<Longrightarrow> delete_if_sid now u sid rd = Inr (b, rd') \<Longrightarrow> redis_ok rd'"
  by (auto simp: delete_if_sid_def redis_ok_drop_refresh split: option.splits stored.splits if_splits)

lemma delete_if_sid_total: "redis_ok rd \<Longrightarrow> \<exists>b rd'. delete_if_sid now u sid rd = Inr (b, rd')"
proof (cases "redis_get now (rd_session rd u)" rule: stored_cases)
  case none
  then show ?thesis by (auto simp: delete_if_sid_def)
next
  case garbage
  moreover assume "redis_ok rd"
  then have "session_ok (rd_session rd u)" by (simp add: redis_ok_def pair_ok_def)
  ultimately show ?thesis by (auto simp: redis_get_Some)
next
  case (stored v)
  then show ?thesis by (cases "sv_sid v = sid") (auto simp: delete_if_sid_def)
qed

subsection \<open>Logins\<close>

text \<open>Revoking, and changing the expiry of live logins, keep the invariant of the table.\<close>

definition logins_sub :: "login_row list \<Rightarrow> login_row list \<Rightarrow> bool" where
  "logins_sub ls ls' \<longleftrightarrow> list_all2 (\<lambda>l l'. lo_token l' = lo_token l \<and> lo_user l' = lo_user l \<and>
     (lo_revoked l \<noteq> None \<longrightarrow> l' = l)) ls ls'"

lemma logins_sub_refl [simp]: "logins_sub ls ls"
  by (simp add: logins_sub_def list_all2_refl)

lemma logins_sub_trans: assumes "logins_sub a b" "logins_sub b c" shows "logins_sub a c"
  unfolding logins_sub_def
  by (rule list_all2_trans [OF _ assms [unfolded logins_sub_def]]) auto

lemma logins_sub_update:
  assumes "\<And>l. P l \<Longrightarrow> lo_revoked l = None" "\<And>l. lo_token (f l) = lo_token l \<and> lo_user (f l) = lo_user l"
  shows "logins_sub ls (table_update P f ls)"
  using assms by (induction ls) (auto simp: logins_sub_def)

lemma logins_sub_tokens: "logins_sub ls ls' \<Longrightarrow> map lo_token ls' = map lo_token ls"
  unfolding logins_sub_def by (induction rule: list_all2_induct) auto

lemma live_logins_sub: "logins_sub ls ls' \<Longrightarrow> length (live_logins u ls') \<le> length (live_logins u ls)"
  unfolding logins_sub_def live_logins_def by (induction rule: list_all2_induct) auto

lemma logins_ok_sub: "logins_ok ls \<Longrightarrow> logins_sub ls ls' \<Longrightarrow> logins_ok ls'"
  using live_logins_sub logins_sub_tokens by (fastforce simp: logins_ok_def intro: order_trans)

lemma logins_sub_revoke: "logins_sub (ct_logins db) (ct_logins (revoke_logins P now db))"
  unfolding revoke_logins_def by simp (rule logins_sub_update; simp)

lemma live_logins_revoked: "live_logins u (ct_logins (revoke_logins (\<lambda>l. lo_user l = u) now db)) = []"
proof -
  have "live_logins u (table_update (\<lambda>l. lo_user l = u \<and> lo_revoked l = None) (\<lambda>l. l\<lparr>lo_revoked := Some now\<rparr>) ls) = []" for ls
    by (induction ls) (auto simp: live_logins_def)
  then show ?thesis by (simp add: revoke_logins_def)
qed

lemma logins_ok_new:
  assumes "logins_ok ls" "live_logins u ls = []" "token \<notin> lo_token ` set ls" "lo_user l = u" "lo_token l = token"
  shows "logins_ok (ls @ [l])"
  using assms by (auto simp: logins_ok_def live_logins_def)


subsection \<open>The operations keep the invariant\<close>

text \<open>What every operation does to the tables \<open>sessions\<close> and \<open>session_outbox\<close>.\<close>

lemma session_tables_simps [simp]:
  "ct_outbox (enqueue_action i a sid db) = ct_outbox db @ [\<lparr>ob_id = Suc (Max (insert 0 (set (map ob_id (ct_outbox db))))),
     ob_user = i, ob_action = a, ob_sid = sid, ob_attempts = 0, ob_last_error = None, ob_processed = None\<rparr>]"
  "ct_outbox (update_users i f db) = ct_outbox db"
  "ct_outbox (update_licenses i g db) = ct_outbox db"
  "ct_logins (outbox_mark now k err db) = ct_logins db"
  "ct_users (outbox_mark now k err db) = ct_users db"
  "ct_licenses (outbox_mark now k err db) = ct_licenses db"
  by (simp_all add: enqueue_action_def update_users_def update_licenses_def outbox_mark_def)

lemma enqueue_ids:
  "distinct (map ob_id (ct_outbox db)) \<Longrightarrow> distinct (map ob_id (ct_outbox (enqueue_action i a sid db)))"
proof -
  have "x < Suc (Max (insert 0 (set (map ob_id (ct_outbox db)))))" if "x \<in> ob_id ` set (ct_outbox db)" for x
    using that by (simp add: less_Suc_eq_le)
  then have "Suc (Max (insert 0 (set (map ob_id (ct_outbox db))))) \<notin> ob_id ` set (ct_outbox db)" by blast
  moreover assume "distinct (map ob_id (ct_outbox db))"
  ultimately show ?thesis by simp
qed

definition tables_step :: "central_db \<Rightarrow> central_db \<Rightarrow> bool" where
  "tables_step db db' \<longleftrightarrow> logins_sub (ct_logins db) (ct_logins db') \<and>
     (distinct (map ob_id (ct_outbox db)) \<longrightarrow> distinct (map ob_id (ct_outbox db')))"

lemma tables_step_refl [simp]: "tables_step db db"
  by (simp add: tables_step_def)

lemma tables_step_trans: "tables_step a b \<Longrightarrow> tables_step b c \<Longrightarrow> tables_step a c"
  unfolding tables_step_def using logins_sub_trans by blast

lemma tables_step_revoke: "tables_step db (revoke_logins P now db)"
  by (simp add: tables_step_def logins_sub_revoke)

lemma tables_step_enqueue: "tables_step db (enqueue_action i a sid db)"
  unfolding tables_step_def using enqueue_ids [of db i a sid] by (simp del: session_tables_simps)

lemma tables_step_same: "ct_logins db' = ct_logins db \<Longrightarrow> ct_outbox db' = ct_outbox db \<Longrightarrow> tables_step db db'"
  by (simp add: tables_step_def)

lemma tables_step_mark: "tables_step db (outbox_mark now k err db)"
  unfolding tables_step_def by (auto simp: outbox_mark_def map_table_update split: option.split)

lemma tables_step_expire:
  "tables_step db (db\<lparr>ct_logins := table_update (\<lambda>x. lo_user x = u \<and> lo_revoked x = None) (\<lambda>x. x\<lparr>lo_expires := t\<rparr>) (ct_logins db)\<rparr>)"
  unfolding tables_step_def by simp (rule logins_sub_update; simp)

lemma tables_step_audit [simp]: "tables_step db (write_audit a b c d e db)"
  by (rule tables_step_same) simp_all

lemma tables_step_after:
  "tables_step db db1 \<Longrightarrow> tables_step db (write_audit a b c d e db1)"
  "tables_step db db1 \<Longrightarrow> tables_step db (enqueue_action i x sid db1)"
  "tables_step db db1 \<Longrightarrow> tables_step db (revoke_logins P now db1)"
  "tables_step db (update_users i f db)"
  "tables_step db (update_licenses i g db)"
  using tables_step_trans tables_step_audit tables_step_enqueue tables_step_revoke
  by (blast, blast, blast, simp_all add: tables_step_same)

lemma admin_tables:
  assumes "admin_handler hash key actor now new_id call db = Inr db'"
  shows "tables_step db db'"
proof (cases call)
  case (DeleteUser i)
  then obtain t where "db' = write_audit (me_id actor) ''delete'' ''auth.user'' (Some i) (JObj [])
      (enqueue_action i Revoke [] (revoke_logins (\<lambda>l. lo_user l = i) now (update_users i (\<lambda>u. u\<lparr>us_deleted := True, us_active := False\<rparr>) db)))"
    using assms by (auto simp: no_reply_Inr delete_user_def bindE_eq_Inr Let_def)
  then show ?thesis
    by (simp only:) (intro tables_step_after)
next
  case (ToggleActive i)
  then consider a b c d e where "db' = write_audit a b c d e (update_users i (\<lambda>u. u\<lparr>us_active := \<not> us_active u\<rparr>) db)"
    | a b c d e where "db' = write_audit a b c d e (enqueue_action i Revoke []
        (revoke_logins (\<lambda>l. lo_user l = i) now (update_users i (\<lambda>u. u\<lparr>us_active := \<not> us_active u\<rparr>) db)))"
    using assms by (auto simp: no_reply_Inr toggle_active_def bindE_eq_Inr Let_def split: if_splits)
  then show ?thesis
    by cases (simp only:, intro tables_step_after)+
next
  case (CreateLicense p)
  then obtain a b c d e u row where "db' = write_audit a b c d e (enqueue_action u Reconcile [] (db\<lparr>ct_licenses := ct_licenses db @ [row]\<rparr>))"
    using assms by (auto simp: no_reply_Inr create_license_def bindE_eq_Inr Let_def)
  moreover have "tables_step db (db\<lparr>ct_licenses := ct_licenses db @ [row]\<rparr>)" by (rule tables_step_same) simp_all
  ultimately show ?thesis by (simp only:) (intro tables_step_after)
next
  case (UpdateLicense i p)
  then obtain a b c d e u g where "db' = write_audit a b c d e (enqueue_action u Reconcile [] (update_licenses i g db))"
    using assms by (auto simp: no_reply_Inr update_license_def bindE_eq_Inr Let_def split: if_splits)
  then show ?thesis
    by (simp only:) (intro tables_step_after)
next
  case (ExpireLicense i)
  then obtain a b c d e u f g where "db' = write_audit a b c d e (enqueue_action u Revoke [] (revoke_logins f now (update_licenses i g db)))"
    using assms by (auto simp: no_reply_Inr expire_license_def bindE_eq_Inr Let_def)
  then show ?thesis
    by (simp only:) (intro tables_step_after)
next
  case (CreateUser p)
  then show ?thesis using assms by (auto simp: no_reply_Inr create_user_def bindE_eq_Inr Let_def intro!: tables_step_same)
next
  case (UpdateUser i p)
  then show ?thesis using assms by (auto simp: no_reply_Inr update_user_def bindE_eq_Inr split: if_splits intro!: tables_step_same)
next
  case (GrantPermission i p)
  then show ?thesis using assms by (auto simp: no_reply_Inr grant_permission_def bindE_eq_Inr Let_def intro!: tables_step_same)
next
  case (RevokePermission i q)
  then show ?thesis using assms by (auto simp: no_reply_Inr revoke_permission_def bindE_eq_Inr intro!: tables_step_same)
qed

lemma outbox_action_step:
  assumes "outbox_action now fails row sys = (err, sys1)" "redis_ok (sy_redis sys)"
  shows "tables_step (sy_db sys) (sy_db sys1) \<and> redis_ok (sy_redis sys1)"
proof (cases "ob_action row")
  case Revoke
  with assms show ?thesis
    by (auto simp: outbox_action_def redis_ok_delete_if_sid split: option.splits if_splits sum.splits prod.splits)
next
  case Reconcile
  with assms show ?thesis
    by (auto simp: outbox_action_def Let_def redis_ok_reconcile split: option.splits
        intro!: tables_step_revoke tables_step_expire)
qed

lemma outbox_row_step_ok:
  assumes "redis_ok (sy_redis sys)"
  shows "tables_step (sy_db sys) (sy_db (outbox_row_step now fails row sys)) \<and> redis_ok (sy_redis (outbox_row_step now fails row sys))"
proof -
  obtain err sys1 where a: "outbox_action now (fails (ob_id row)) row sys = (err, sys1)" by fastforce
  then have "outbox_row_step now fails row sys = sys1\<lparr>sy_db := outbox_mark now (ob_id row) err (sy_db sys1)\<rparr>"
    by (simp add: outbox_row_step_def)
  then show ?thesis using outbox_action_step [OF a assms] tables_step_trans tables_step_mark by fastforce
qed

lemma outbox_fold_ok:
  assumes "redis_ok (sy_redis sys)"
  shows "tables_step (sy_db sys) (sy_db (foldl (\<lambda>s row. outbox_row_step now fails row s) sys rows)) \<and>
    redis_ok (sy_redis (foldl (\<lambda>s row. outbox_row_step now fails row s) sys rows))"
  using assms
proof (induction rows arbitrary: sys)
  case Nil
  then show ?case by simp
next
  case (Cons r rs)
  show ?case using outbox_row_step_ok [OF Cons.prems, of now fails r] Cons.IH tables_step_trans by fastforce
qed

lemma process_outbox_ok:
  assumes "redis_ok (sy_redis sys)"
  shows "tables_step (sy_db sys) (sy_db (process_session_outbox_once now fails n sys)) \<and>
    redis_ok (sy_redis (process_session_outbox_once now fails n sys))"
  unfolding process_session_outbox_once_def by (rule outbox_fold_ok [OF assms])

lemma central_inv_step:
  assumes "central_inv sys" "tables_step (sy_db sys) (sy_db sys')" "redis_ok (sy_redis sys')"
  shows "central_inv sys'"
  using assms logins_ok_sub unfolding central_inv_def tables_step_def by blast

lemma revoke_and_process:
  assumes "redis_ok (sy_redis sys)"
  shows "tables_step (sy_db sys) (sy_db (process_session_outbox_once now fails n
      (sys\<lparr>sy_db := write_audit a b c d e (enqueue_action u Revoke sid (revoke_logins P now (sy_db sys)))\<rparr>))) \<and>
    redis_ok (sy_redis (process_session_outbox_once now fails n
      (sys\<lparr>sy_db := write_audit a b c d e (enqueue_action u Revoke sid (revoke_logins P now (sy_db sys)))\<rparr>)))"
proof -
  let ?db = "write_audit a b c d e (enqueue_action u Revoke sid (revoke_logins P now (sy_db sys)))"
  have "tables_step (sy_db sys) ?db"
    by (intro tables_step_after) simp
  moreover have "redis_ok (sy_redis (sys\<lparr>sy_db := ?db\<rparr>))" using assms by simp
  note process_outbox_ok [OF this, of now fails n]
  ultimately show ?thesis using tables_step_trans by fastforce
qed

lemma logout_ok:
  assumes "redis_ok (sy_redis sys)"
  shows "tables_step (sy_db sys) (sy_db (logout now fails user token sys)) \<and> redis_ok (sy_redis (logout now fails user token sys))"
  unfolding logout_def Let_def by (rule revoke_and_process [OF assms])

lemma refresh_replayed_ok:
  assumes "redis_ok (sy_redis sys)"
  shows "tables_step (sy_db sys) (sy_db (refresh_replayed now fails u token sid sys)) \<and>
    redis_ok (sy_redis (refresh_replayed now fails u token sid sys))"
  using assms revoke_and_process [OF assms] by (simp add: refresh_replayed_def Let_def)

text \<open>The ways a refresh can go.\<close>

lemma refresh_cases:
  obtains (refused) e where "refresh env now fails c body st ajti rjti sys = (Inl e, sys)"
      "e \<noteq> HttpError 401 ''Refresh token was already consumed''"
  | (rotates) claims u x where
      "decode_token env now (trim body) ''refresh'' = Some claims" "ae_uuid env (tk_sub claims) = Some u"
      "validate_session_state env now u st (Some (tk_sid claims)) sys = Some x"
      "refresh env now fails c body st ajti rjti sys = refresh_rotate env now fails u (trim body) claims st ajti rjti sys"
  by (cases "decode_token env now (trim body) ''refresh''";
      cases "ae_uuid env (tk_sub (the (decode_token env now (trim body) ''refresh'')))";
      cases "validate_session_state env now (the (ae_uuid env (tk_sub (the (decode_token env now (trim body) ''refresh'')))))
        st (Some (tk_sid (the (decode_token env now (trim body) ''refresh'')))) sys")
     (force simp: refresh_def Let_def split: if_splits)+

lemma rotate_cases:
  obtains (error) "refresh_rotate env now fails u token claims st ajti rjti sys = (Inl (HttpError 500 ''Internal server error''), sys)"
  | (replayed) rep rd where
      "rotate_refresh env now u token (tk_jti claims) (tk_sid claims) rep (sy_redis sys) = (False, rd)"
      "refresh_rotate env now fails u token claims st ajti rjti sys =
         (Inl (HttpError 401 ''Refresh token was already consumed''), refresh_replayed now fails u st (tk_sid claims) (sys\<lparr>sy_redis := rd\<rparr>))"
  | (rotated) replacement expires rd reply db where
      "rotate_refresh env now u token (tk_jti claims) (tk_sid claims)
         (refresh_state env replacement rjti (tk_sid claims) expires) (sy_redis sys) = (True, rd)"
      "refresh_rotate env now fails u token claims st ajti rjti sys = (Inr reply, \<lparr>sy_db = db, sy_redis = rd\<rparr>)" "tables_step (sy_db sys) db"
proof -
  obtain access replacement where itp: "issue_token_pair env now u (tk_sid claims) ajti rjti = (access, replacement)" by fastforce
  show thesis
  proof (cases "decode_token env now replacement ''refresh''")
    case None
    with itp show ?thesis by (intro error) (simp add: refresh_rotate_def Let_def)
  next
    case (Some new)
    obtain b rd where b: "rotate_refresh env now u token (tk_jti claims) (tk_sid claims)
      (refresh_state env replacement rjti (tk_sid claims) (tk_exp new)) (sy_redis sys) = (b, rd)" by fastforce
    show ?thesis
    proof (cases b)
      case True
      with b Some itp
      have "refresh_rotate env now fails u token claims st ajti rjti sys =
        (Inr \<lparr>rr_access = access, rr_refresh = replacement, rr_expires_in = ae_access_minutes env * 60\<rparr>,
         \<lparr>sy_db = write_audit u ''refresh'' ''auth.session'' None (JObj []) (sy_db sys), sy_redis = rd\<rparr>)"
        by (simp add: refresh_rotate_def Let_def)
      from rotated [OF b [unfolded True [THEN eqTrueI]] this tables_step_audit] show ?thesis .
    next
      case False
      with b Some itp show ?thesis by (intro replayed) (simp_all add: refresh_rotate_def Let_def)
    qed
  qed
qed

lemma refresh_step_ok:
  assumes "redis_ok (sy_redis sys)"
  shows "tables_step (sy_db sys) (sy_db (snd (refresh env now fails c body st ajti rjti sys))) \<and>
    redis_ok (sy_redis (snd (refresh env now fails c body st ajti rjti sys)))"
proof (cases rule: refresh_cases [of env now fails c body st ajti rjti sys])
  case refused
  then show ?thesis using assms by simp
next
  case (rotates claims u x)
  show ?thesis
  proof (cases rule: rotate_cases [of env now fails u "trim body" claims st ajti rjti sys])
    case error
    then show ?thesis using assms rotates by simp
  next
    case (replayed rep rd)
    have "redis_ok (sy_redis (sys\<lparr>sy_redis := rd\<rparr>))" using redis_ok_rotate [OF assms replayed(1)] by simp
    from refresh_replayed_ok [OF this] show ?thesis using replayed(2) rotates(4) by simp
  next
    case (rotated replacement expires rd reply db)
    then show ?thesis using redis_ok_rotate [OF assms rotated(1)] rotates(4) by simp
  qed
qed

lemma login_cases:
  obtains (kept) rd where "snd (login_transaction env now uid device t result sys) = sys\<lparr>sy_redis := rd\<rparr>"
      "redis_ok (sy_redis sys) \<Longrightarrow> redis_ok rd"
  | (opened) rd l a b c d e where "lt_session t \<notin> lo_token ` set (ct_logins (sy_db sys))" "redis_ok (sy_redis sys) \<Longrightarrow> redis_ok rd"
      "snd (login_transaction env now uid device t result sys) = \<lparr>sy_db = write_audit a b c d e
         ((revoke_logins (\<lambda>x. lo_user x = uid) now (sy_db sys))\<lparr>ct_logins :=
            ct_logins (revoke_logins (\<lambda>x. lo_user x = uid) now (sy_db sys)) @ [l]\<rparr>), sy_redis = rd\<rparr>"
      "lo_user l = uid" "lo_token l = lt_session t"
proof -
  let ?r = "login_transaction env now uid device t result sys"
  let ?sid = "ae_hash env (lt_session t)"
  obtain access refresh where itp: "issue_token_pair env now uid ?sid (lt_access_jti t) (lt_refresh_jti t) = (access, refresh)" by fastforce
  have unchanged: thesis if "snd ?r = sys" by (rule kept [of "sy_redis sys"]) (use that in simp_all)
  show thesis
  proof (cases "decode_token env now refresh ''refresh''")
    case None
    then show thesis by (intro unchanged) (simp add: login_transaction_def Let_def itp)
  next
    case claims: (Some claims)
    show thesis
    proof (cases "List.find (\<lambda>u. us_id u = uid \<and> us_active u \<and> \<not> us_deleted u) (ct_users (sy_db sys))")
      case None
      then show thesis by (intro unchanged) (simp add: login_transaction_def Let_def itp claims)
    next
      case u: (Some u)
      show thesis
      proof (cases "current_license now uid (sy_db sys)")
        case None
        then show thesis by (intro unchanged) (simp add: login_transaction_def Let_def itp claims u)
      next
        case l: (Some l)
        let ?x = "min (tk_exp claims) (secs (li_until l))"
        define rd where "rd = activate_session now uid (session_state env (lt_session t) uid l (tk_exp claims) (tk_exp claims))
          (refresh_state env refresh (lt_refresh_jti t) ?sid (tk_exp claims)) ?x ?x (sy_redis sys)"
        have rd: "redis_ok rd" if "redis_ok (sy_redis sys)"
          unfolding rd_def by (rule redis_ok_activate [OF that]) (simp_all add: session_state_def refresh_state_def)
        note facts = login_transaction_def Let_def itp claims u l rd_def [symmetric]
        show thesis
        proof (cases "(li_until l - now) div 1000000 \<le> 0 \<or> list_ex (\<lambda>x. lo_token x = lt_session t) (ct_logins (sy_db sys))")
          case True
          then show thesis by (intro unchanged) (auto simp: facts)
        next
          case False
          then have fresh: "lt_session t \<notin> lo_token ` set (ct_logins (sy_db sys))" by (auto simp: list_ex_iff)
          show thesis
          proof (cases result)
            case LoginCommits
            with False show thesis by (intro opened [OF fresh rd]) (auto simp: facts)
          next
            case (ActivationFails w)
            with False show thesis by (cases w) (auto simp: facts intro: unchanged kept [of rd] rd)
          next
            case (CommitFails w)
            define rd1 where "rd1 = (if w then (case delete_if_sid now uid ?sid rd of Inl _ \<Rightarrow> rd | Inr (_, rd') \<Rightarrow> rd') else rd)"
            have "snd ?r = sys\<lparr>sy_redis := rd1\<rparr>" using False CommitFails by (auto simp: facts rd1_def split: sum.split)
            moreover have "redis_ok rd1" if "redis_ok (sy_redis sys)"
              using rd [OF that] by (auto simp: rd1_def intro: redis_ok_delete_if_sid split: sum.split prod.split)
            ultimately show thesis by (rule kept)
          qed
        qed
      qed
    qed
  qed
qed


lemma step_keeps_inv:
  assumes "central_step env sys sys'" "central_inv sys"
  shows "central_inv sys'"
  using assms(1)
proof cases
  case (step_login now uid device t result)
  have rd0: "redis_ok (sy_redis sys)" and ls: "logins_ok (ct_logins (sy_db sys))" using assms(2) by (simp_all add: central_inv_def)
  show ?thesis
  proof (cases rule: login_cases [of env now uid device t result sys])
    case (kept rd)
    then show ?thesis using assms(2) rd0 step_login by (simp add: central_inv_def)
  next
    case (opened rd l a b c d e)
    let ?rev = "ct_logins (revoke_logins (\<lambda>x. lo_user x = uid) now (sy_db sys))"
    have "map lo_token ?rev = map lo_token (ct_logins (sy_db sys))" by (rule logins_sub_tokens [OF logins_sub_revoke])
    then have "lt_session t \<notin> lo_token ` set ?rev" using opened(1) by (metis set_map)
    from logins_ok_new [OF logins_ok_sub [OF ls logins_sub_revoke] live_logins_revoked this opened(4,5)]
    show ?thesis using assms(2) opened(2) [OF rd0] opened(3) step_login by (simp add: central_inv_def)
  qed
next
  case (step_admin hash key actor now new_id call db')
  then have "tables_step (sy_db sys) db'" using admin_tables by (auto simp: admin_request_def bindE_eq_Inr)
  then show ?thesis using assms(2) step_admin(1) by (intro central_inv_step [OF assms(2)]) (simp_all add: central_inv_def)
qed (use assms(2) refresh_step_ok logout_ok process_outbox_ok central_inv_step [OF assms(2)] in \<open>auto simp: central_inv_def\<close>)

lemma reach_keeps_inv: "central_reach env sys sys' \<Longrightarrow> central_inv sys \<Longrightarrow> central_inv sys'"
  by (induction rule: central_reach.induct) (auto intro: step_keeps_inv)

text \<open>An empty service: no login, no key, an empty outbox.\<close>

definition fresh_sys :: "central_sys \<Rightarrow> bool" where
  "fresh_sys sys \<longleftrightarrow> ct_logins (sy_db sys) = [] \<and> ct_outbox (sy_db sys) = [] \<and>
     rd_session (sy_redis sys) = (\<lambda>_. None) \<and> rd_refresh (sy_redis sys) = (\<lambda>_. None)"

lemma fresh_inv: "fresh_sys sys \<Longrightarrow> central_inv sys"
  by (simp add: fresh_sys_def central_inv_def logins_ok_def redis_ok_def live_logins_def)

lemma sessions_reachable_inv: "fresh_sys sys0 \<Longrightarrow> central_reach env sys0 sys \<Longrightarrow> central_inv sys"
  using fresh_inv reach_keeps_inv by blast

subsection \<open>An example\<close>

text \<open>
  Tokens whose text is a pad and their identity; the super-administrator of the earlier example
  with a longer licence logs in, refreshes and replays the first refresh token.
\<close>

definition example_env :: auth_env where
  "example_env = \<lparr>ae_hash = (\<lambda>s. s), ae_jwt_encode = (\<lambda>c. replicate 20 CHR ''x'' @ tk_jti c),
     ae_jwt_decode = (\<lambda>t s. Some \<lparr>tk_sub = ''s'', tk_type = ''refresh'', tk_sid = ''tok'', tk_jti = drop 20 s, tk_iat = 0, tk_exp = 1000\<rparr>),
     ae_uuid = Some, ae_verify = (\<lambda>p h. True), ae_access_minutes = 15, ae_refresh_days = 7\<rparr>"

definition example_start :: central_sys where
  "example_start = \<lparr>sy_db = example_central\<lparr>ct_licenses := [example_license\<lparr>li_until := 900000000\<rparr>]\<rparr>,
     sy_redis = \<lparr>rd_session = (\<lambda>_. None), rd_refresh = (\<lambda>_. None)\<rparr>\<rparr>"

definition example_logged_in :: central_sys where
  "example_logged_in = snd (login_transaction example_env 5000000 ''s'' None
     \<lparr>lt_session = ''tok'', lt_access_jti = ''a1'', lt_refresh_jti = ''r1''\<rparr> LoginCommits example_start)"

definition example_refresh :: "time \<Rightarrow> string \<Rightarrow> central_sys \<Rightarrow> (http_error + refresh_reply) \<times> central_sys" where
  "example_refresh t jti sys = refresh example_env t (\<lambda>_. None)
     (Some \<lparr>cr_scheme = ''Bearer'', cr_token = replicate 20 CHR ''x'' @ ''r1''\<rparr>) (replicate 20 CHR ''x'' @ ''r1'') ''tok'' ''a2'' jti sys"

lemma example_start_fresh: "fresh_sys example_start"
  by (simp add: fresh_sys_def example_start_def example_central_def)

lemma example_login_reach: "central_reach example_env example_start example_logged_in"
  unfolding example_logged_in_def by (rule reach_step [OF reach_refl step_login])

lemma example_refreshed: "\<not> isl (fst (example_refresh 6000000 ''r2'' example_logged_in))"
  by code_simp

lemma example_replayed:
  "fst (example_refresh 7000000 ''r3'' (snd (example_refresh 6000000 ''r2'' example_logged_in))) =
     Inl (HttpError 401 ''Refresh token was already consumed'')"
  by code_simp

subsection \<open>Revoked logins\<close>

lemma validate_needs_login:
  assumes "validate_session_state env now u token x sys = Some v"
  shows "\<exists>l \<in> set (ct_logins (sy_db sys)). lo_user l = u \<and> lo_token l = token \<and> lo_revoked l = None"
  using assms by (auto simp: validate_session_state_def session_row_valid_def Let_def list_ex_iff
      split: option.splits stored.splits if_splits)

lemma logins_sub_keeps_revoked:
  "logins_sub ls ls' \<Longrightarrow> l \<in> set ls \<Longrightarrow> lo_revoked l \<noteq> None \<Longrightarrow> l \<in> set ls'"
  unfolding logins_sub_def by (induction rule: list_all2_induct) auto

lemma step_keeps_revoked:
  assumes "central_step env sys sys'" "central_inv sys" "l \<in> set (ct_logins (sy_db sys))" "lo_revoked l \<noteq> None"
  shows "l \<in> set (ct_logins (sy_db sys'))"
  using assms(1)
proof cases
  case (step_login now uid device t result)
  show ?thesis
  proof (cases rule: login_cases [of env now uid device t result sys])
    case (kept rd)
    then show ?thesis using assms(3) step_login by simp
  next
    case (opened rd k a b c d e)
    then show ?thesis
      using logins_sub_keeps_revoked [OF logins_sub_revoke assms(3,4), of "\<lambda>x. lo_user x = uid" now] step_login by simp
  qed
next
  case (step_admin hash key actor now new_id call db')
  then have "tables_step (sy_db sys) db'" using admin_tables by (auto simp: admin_request_def bindE_eq_Inr)
  then show ?thesis using logins_sub_keeps_revoked [OF _ assms(3,4)] step_admin(1) by (simp add: tables_step_def)
qed (use assms logins_sub_keeps_revoked [OF _ assms(3,4)] refresh_step_ok logout_ok process_outbox_ok
     in \<open>auto simp: central_inv_def tables_step_def\<close>)

lemma reach_keeps_revoked:
  "central_reach env sys sys' \<Longrightarrow> central_inv sys \<Longrightarrow> l \<in> set (ct_logins (sy_db sys)) \<Longrightarrow> lo_revoked l \<noteq> None \<Longrightarrow>
     l \<in> set (ct_logins (sy_db sys'))"
proof (induction rule: central_reach.induct)
  case (reach_step sys sys1 sys2)
  then show ?case using step_keeps_revoked reach_keeps_inv by blast
qed simp

lemma revoked_denied:
  assumes "central_inv sys" "l \<in> set (ct_logins (sy_db sys))" "lo_revoked l \<noteq> None"
  shows "validate_session_state env now u (lo_token l) x sys = None"
proof (rule ccontr)
  assume "validate_session_state env now u (lo_token l) x sys \<noteq> None"
  then obtain v where "validate_session_state env now u (lo_token l) x sys = Some v" by blast
  from validate_needs_login [OF this] obtain k where k: "k \<in> set (ct_logins (sy_db sys))" "lo_token k = lo_token l" "lo_revoked k = None"
    by blast
  have "distinct (map lo_token (ct_logins (sy_db sys)))" using assms(1) by (simp add: central_inv_def logins_ok_def)
  from same_key [OF this k(1) assms(2)] k assms(3) show False by simp
qed

text \<open>
  C9. A revoked session stays revoked: once the login of a session token has been revoked (by logout,
  by a newer login, by the removal of the account or licence, or by a replayed refresh token), the
  token is denied in every state the service ever reaches, whatever Redis still holds.
\<close>
theorem revoked_session_denied_forever:
  assumes "fresh_sys sys0" "central_reach env sys0 sys" "l \<in> set (ct_logins (sy_db sys))" "lo_revoked l \<noteq> None"
    "central_reach env sys sys'"
  shows "validate_session_state env now u (lo_token l) x sys' = None"
proof -
  have inv: "central_inv sys" using sessions_reachable_inv [OF assms(1,2)] .
  show ?thesis
    by (rule revoked_denied [OF reach_keeps_inv [OF assms(5) inv] reach_keeps_revoked [OF assms(5) inv assms(3,4)] assms(4)])
qed

lemma revoked_session_denied_forever_witness:
  "validate_session_state example_env 8000000 ''s'' ''tok'' None
     (snd (example_refresh 7000000 ''r3'' (snd (example_refresh 6000000 ''r2'' example_logged_in)))) = None"
proof -
  let ?s1 = "snd (example_refresh 6000000 ''r2'' example_logged_in)"
  let ?s2 = "snd (example_refresh 7000000 ''r3'' ?s1)"
  have "central_step example_env example_logged_in ?s1" "central_step example_env ?s1 ?s2"
    unfolding example_refresh_def by (rule step_refresh)+
  then have reach: "central_reach example_env example_start ?s2"
    using reach_step [OF reach_step [OF example_login_reach]] by blast
  have "list_ex (\<lambda>l. lo_token l = ''tok'' \<and> lo_revoked l \<noteq> None) (ct_logins (sy_db ?s2))" by code_simp
  then obtain l where l: "l \<in> set (ct_logins (sy_db ?s2))" "lo_revoked l \<noteq> None" "lo_token l = ''tok''"
    by (auto simp: list_ex_iff)
  from revoked_session_denied_forever [OF example_start_fresh reach l(1,2) reach_refl] l(3) show ?thesis by simp
qed

subsection \<open>Refresh tokens\<close>

lemma revoke_logins_all:
  assumes "l \<in> set (ct_logins (revoke_logins P now db))" "P l" "\<And>k. P (k\<lparr>lo_revoked := Some now\<rparr>) = P k"
  shows "lo_revoked l \<noteq> None"
proof -
  obtain k where k: "l = (if P k \<and> lo_revoked k = None then k\<lparr>lo_revoked := Some now\<rparr> else k)"
    using assms(1) by (auto simp: revoke_logins_def in_table_update)
  show ?thesis
  proof (cases "P k \<and> lo_revoked k = None")
    case True
    then have "lo_revoked l = Some now" by (simp add: k)
    then show ?thesis by simp
  next
    case False
    then have "l = k" using k by auto
    then show ?thesis using assms(2) False by simp
  qed
qed

lemma logins_sub_live:
  "logins_sub ls ls' \<Longrightarrow> l' \<in> set ls' \<Longrightarrow> lo_revoked l' = None \<Longrightarrow>
     \<exists>l \<in> set ls. lo_token l = lo_token l' \<and> lo_user l = lo_user l' \<and> lo_revoked l = None"
  unfolding logins_sub_def by (induction rule: list_all2_induct) auto

lemma revoked_now_denied:
  assumes "redis_ok (sy_redis sys)"
    "sys' = process_session_outbox_once now fails n (sys\<lparr>sy_db := write_audit a b c d e (enqueue_action u Revoke sid
       (revoke_logins (\<lambda>l. lo_user l = u \<and> lo_token l = token) now (sy_db sys)))\<rparr>)"
  shows "validate_session_state env now' u token x sys' = None"
proof (rule ccontr)
  let ?rev = "revoke_logins (\<lambda>l. lo_user l = u \<and> lo_token l = token) now (sy_db sys)"
  let ?sys = "sys\<lparr>sy_db := write_audit a b c d e (enqueue_action u Revoke sid ?rev)\<rparr>"
  have sub: "logins_sub (ct_logins ?rev) (ct_logins (sy_db sys'))"
    using process_outbox_ok [of ?sys now fails n] assms by (simp add: tables_step_def)
  assume "validate_session_state env now' u token x sys' \<noteq> None"
  then obtain v where "validate_session_state env now' u token x sys' = Some v" by blast
  from validate_needs_login [OF this] obtain l where "l \<in> set (ct_logins (sy_db sys'))" "lo_user l = u" "lo_token l = token" "lo_revoked l = None"
    by blast
  from logins_sub_live [OF sub this(1,4)] this(2,3) obtain k where "k \<in> set (ct_logins ?rev)" "lo_user k = u" "lo_token k = token" "lo_revoked k = None"
    by auto
  then show False using revoke_logins_all [of k "\<lambda>l. lo_user l = u \<and> lo_token l = token" now "sy_db sys"] by simp
qed

lemma validate_sid:
  assumes "validate_session_state env now u token (Some sid) sys = Some v"
  shows "\<exists>s x. rd_session (sy_redis sys) u = Some (Stored s, x) \<and> secs now < x \<and> sv_sid s = sid \<and> sid = ae_hash env token"
  using assms by (auto simp: validate_session_state_def Let_def redis_get_Some split: option.splits stored.splits if_splits)

lemma replay_revokes:
  assumes "central_inv sys" "validate_session_state env now u token (Some sid) sys = Some v"
    "rotate_refresh env now u t jti sid rep (sy_redis sys) = (False, rd)"
  shows "validate_session_state env now' u token x (refresh_replayed now fails u token sid (sys\<lparr>sy_redis := rd\<rparr>)) = None"
proof -
  have ok: "redis_ok (sy_redis sys)" using assms(1) by (simp add: central_inv_def)
  obtain s y where s: "rd_session (sy_redis sys) u = Some (Stored s, y)" "sv_sid s = sid" "secs now < y"
    using validate_sid [OF assms(2)] by blast
  have pair: "pair_ok (rd_session (sy_redis sys) u) (rd_refresh (sy_redis sys) u)" using ok by (simp add: redis_ok_def)
  have live: "redis_get now (rd_session (sy_redis sys) u) = Some (Stored s)" using s by (simp add: redis_get_Some)
  have "(case redis_get now (rd_refresh rd u) of Some (Stored r) \<Rightarrow> rv_sid r = sid | _ \<Rightarrow> True)"
  proof (cases "redis_get now (rd_refresh (sy_redis sys) u)" rule: stored_cases)
    case none
    then have "rd = sy_redis sys" using assms(3) by (simp add: rotate_refresh_def)
    with none show ?thesis by simp
  next
    case garbage
    then have "rd = delete_pair u (sy_redis sys)" using assms(3) live by (simp add: rotate_refresh_def)
    then show ?thesis by (simp add: delete_pair_def redis_get_def)
  next
    case (stored r)
    then have "rd = sy_redis sys" using assms(3) live by (auto simp: rotate_refresh_def Let_def split: if_splits)
    moreover have "rv_sid r = sid" using pair s stored by (auto simp: pair_ok_def redis_get_Some)
    ultimately show ?thesis using stored by simp
  qed
  then have "refresh_replayed now fails u token sid (sys\<lparr>sy_redis := rd\<rparr>) = process_session_outbox_once now fails 100
      ((sys\<lparr>sy_redis := rd\<rparr>)\<lparr>sy_db := write_audit u ''refresh_replay'' ''auth.session'' None (JObj [(''sid'', JStr sid)])
        (enqueue_action u Revoke sid (revoke_logins (\<lambda>l. lo_user l = u \<and> lo_token l = token) now (sy_db (sys\<lparr>sy_redis := rd\<rparr>))))\<rparr>)"
    by (simp add: refresh_replayed_def Let_def)
  from revoked_now_denied [OF _ this] redis_ok_rotate [OF ok assms(3)] show ?thesis by simp
qed

text \<open>
  A refresh token is spent for a user when Redis does not hold it as the user's current one. It
  stays spent as long as \<open>uuid4\<close> does not draw its identity again.
\<close>

definition spent :: "string \<Rightarrow> ident \<Rightarrow> redis_state \<Rightarrow> bool" where
  "spent jti u rd \<longleftrightarrow> (\<forall>r y. rd_refresh rd u = Some (Stored r, y) \<longrightarrow> rv_jti r \<noteq> jti)"

inductive step_avoiding :: "auth_env \<Rightarrow> string \<Rightarrow> central_sys \<Rightarrow> central_sys \<Rightarrow> bool" for env jti where
  avoid_login: "lt_refresh_jti t \<noteq> jti \<Longrightarrow>
    step_avoiding env jti sys (snd (login_transaction env now user_id device t result sys))"
| avoid_refresh: "rjti \<noteq> jti \<Longrightarrow>
    step_avoiding env jti sys (snd (refresh env now fails credentials token session_token ajti rjti sys))"
| avoid_logout: "step_avoiding env jti sys (logout now fails user session_token sys)"
| avoid_outbox: "step_avoiding env jti sys (process_session_outbox_once now fails n sys)"
| avoid_admin: "admin_request hash key actor now new_id call (sy_db sys) = Inr db' \<Longrightarrow>
    step_avoiding env jti sys (sys\<lparr>sy_db := db'\<rparr>)"

inductive reach_avoiding :: "auth_env \<Rightarrow> string \<Rightarrow> central_sys \<Rightarrow> central_sys \<Rightarrow> bool" for env jti where
  avoiding_refl: "reach_avoiding env jti sys sys"
| avoiding_step: "reach_avoiding env jti sys sys1 \<Longrightarrow> step_avoiding env jti sys1 sys2 \<Longrightarrow> reach_avoiding env jti sys sys2"

lemma avoiding_is_step: "step_avoiding env jti sys sys' \<Longrightarrow> central_step env sys sys'"
  by (induction rule: step_avoiding.induct) (auto intro: central_step.intros)

lemma avoiding_is_reach: "reach_avoiding env jti sys sys' \<Longrightarrow> central_reach env sys sys'"
  by (induction rule: reach_avoiding.induct) (auto intro: central_reach.intros avoiding_is_step)

lemma spent_same: "rd_refresh rd' u = rd_refresh rd u \<Longrightarrow> spent jti u rd \<Longrightarrow> spent jti u rd'"
  by (simp add: spent_def)

lemma spent_delete [simp]: "spent jti u rd \<Longrightarrow> spent jti u (delete_pair v rd)"
  by (simp add: spent_def delete_pair_def)

lemma spent_delete_if: "spent jti u rd \<Longrightarrow> delete_if_sid now v sid rd = Inr (b, rd') \<Longrightarrow> spent jti u rd'"
  by (auto simp: delete_if_sid_def spent_def delete_pair_def split: option.splits stored.splits if_splits)

lemma spent_activate:
  "spent jti u rd \<Longrightarrow> rv_jti r \<noteq> jti \<Longrightarrow> spent jti u (activate_session now v s r x y rd)"
  by (simp add: spent_def activate_session_def redis_set_def)

lemma spent_reconcile:
  assumes "spent jti u rd"
  shows "spent jti u (reconcile_pair now v sid lic vf vu rd)"
proof (cases "\<exists>r s. redis_get now (rd_refresh rd v) = Some (Stored r) \<and> redis_get now (rd_session rd v) = Some (Stored s)")
  case True
  then obtain r s y where rs: "redis_get now (rd_refresh rd v) = Some (Stored r)" "redis_get now (rd_session rd v) = Some (Stored s)"
    and y: "rd_refresh rd v = Some (Stored r, y)" by (auto simp: redis_get_Some)
  then have "v = u \<longrightarrow> rv_jti r \<noteq> jti" using assms by (auto simp: spent_def)
  with assms rs show ?thesis
    by (auto simp: reconcile_pair_def Let_def) (auto simp: spent_def redis_set_def split: if_splits)
next
  case False
  then have "reconcile_pair now v sid lic vf vu rd = delete_pair v rd"
    by (cases "redis_get now (rd_refresh rd v)" rule: stored_cases; cases "redis_get now (rd_session rd v)" rule: stored_cases)
      (simp_all add: reconcile_pair_def)
  with assms show ?thesis by simp
qed

lemma spent_rotate:
  assumes "spent jti u rd" "rotate_refresh env now v t j sid rep rd = (b, rd')" "rv_jti rep \<noteq> jti"
  shows "spent jti u rd'"
proof (cases "\<exists>r s. redis_get now (rd_refresh rd v) = Some (Stored r) \<and> redis_get now (rd_session rd v) = Some (Stored s)")
  case True
  then obtain r s where rs: "redis_get now (rd_refresh rd v) = Some (Stored r)" "redis_get now (rd_session rd v) = Some (Stored s)" by blast
  with assms show ?thesis
    by (auto simp: rotate_refresh_def Let_def split: if_splits) (auto simp: spent_def redis_set_def split: if_splits)
next
  case False
  then have "rd' = rd \<or> rd' = delete_pair v rd"
    using assms(2) by (cases "redis_get now (rd_refresh rd v)" rule: stored_cases; cases "redis_get now (rd_session rd v)" rule: stored_cases)
      (simp_all add: rotate_refresh_def)
  with assms(1) show ?thesis by auto
qed

lemma spent_outbox_row:
  assumes "spent jti u (sy_redis sys)"
  shows "spent jti u (sy_redis (outbox_row_step now fails row sys))"
proof -
  obtain err sys1 where a: "outbox_action now (fails (ob_id row)) row sys = (err, sys1)" by fastforce
  have "spent jti u (sy_redis sys1)"
  proof (cases "ob_action row")
    case Revoke
    with a assms spent_delete_if show ?thesis
      by (auto simp: outbox_action_def split: option.splits if_splits sum.splits prod.splits)
  next
    case Reconcile
    with a assms show ?thesis by (auto simp: outbox_action_def Let_def spent_reconcile split: option.splits)
  qed
  with a show ?thesis by (simp add: outbox_row_step_def)
qed

lemma spent_outbox:
  assumes "spent jti u (sy_redis sys)"
  shows "spent jti u (sy_redis (process_session_outbox_once now fails n sys))"
proof -
  have "spent jti u (sy_redis (foldl (\<lambda>s row. outbox_row_step now fails row s) sys rows))" for rows
    using assms by (induction rows arbitrary: sys) (simp_all add: spent_outbox_row)
  then show ?thesis by (simp add: process_session_outbox_once_def)
qed

lemma spent_login:
  assumes "spent jti u (sy_redis sys)" "lt_refresh_jti t \<noteq> jti"
  shows "spent jti u (sy_redis (snd (login_transaction env now v device t result sys)))"
proof -
  let ?sid = "ae_hash env (lt_session t)"
  obtain access refresh where itp: "issue_token_pair env now v ?sid (lt_access_jti t) (lt_refresh_jti t) = (access, refresh)" by fastforce
  define act where "act = (\<lambda>(c :: token_claims) l. activate_session now v
     (session_state env (lt_session t) v l (tk_exp c) (tk_exp c)) (refresh_state env refresh (lt_refresh_jti t) ?sid (tk_exp c))
     (min (tk_exp c) (secs (li_until l))) (min (tk_exp c) (secs (li_until l))) (sy_redis sys))"
  have a: "spent jti u (act c l)" for c l
    unfolding act_def by (rule spent_activate [OF assms(1)]) (simp add: refresh_state_def assms(2))
  have d: "spent jti u (case delete_if_sid now v ?sid (act c l) of Inl e \<Rightarrow> act c l | Inr (b, rd') \<Rightarrow> rd')" for c l
    using a spent_delete_if [OF a] by (auto split: sum.split prod.split)
  have "sy_redis (snd (login_transaction env now v device t result sys)) = sy_redis sys \<or>
    (\<exists>c l. sy_redis (snd (login_transaction env now v device t result sys)) = act c l
      \<or> sy_redis (snd (login_transaction env now v device t result sys))
         = (case delete_if_sid now v ?sid (act c l) of Inl e \<Rightarrow> act c l | Inr (b, rd') \<Rightarrow> rd'))"
    unfolding login_transaction_def Let_def itp prod.case act_def
    by (cases result) (auto split: option.split)
  with assms(1) a d show ?thesis by (elim disjE exE) simp_all
qed

lemma spent_refresh:
  assumes "spent jti u (sy_redis sys)" "rjti \<noteq> jti"
  shows "spent jti u (sy_redis (snd (refresh env now fails c body st ajti rjti sys)))"
proof (cases rule: refresh_cases [of env now fails c body st ajti rjti sys])
  case refused
  with assms(1) show ?thesis by simp
next
  case (rotates claims v x)
  have rep: "rv_jti (refresh_state env a rjti b e) \<noteq> jti" for a b e using assms(2) by (simp add: refresh_state_def)
  obtain access replacement where itp: "issue_token_pair env now v (tk_sid claims) ajti rjti = (access, replacement)" by fastforce
  show ?thesis
  proof (cases "decode_token env now replacement ''refresh''")
    case None
    with rotates(4) assms(1) show ?thesis by (simp add: refresh_rotate_def Let_def itp)
  next
    case (Some new_claims)
    obtain b rd where b: "rotate_refresh env now v (trim body) (tk_jti claims) (tk_sid claims)
      (refresh_state env replacement rjti (tk_sid claims) (tk_exp new_claims)) (sy_redis sys) = (b, rd)" by fastforce
    from spent_rotate [OF assms(1) this rep] have "spent jti u rd" .
    with rotates(4) Some b show ?thesis
      by (cases b) (simp_all add: refresh_rotate_def Let_def itp refresh_replayed_def spent_outbox)
  qed
qed

lemma spent_step: "step_avoiding env jti sys sys' \<Longrightarrow> spent jti u (sy_redis sys) \<Longrightarrow> spent jti u (sy_redis sys')"
  by (induction rule: step_avoiding.induct) (simp_all add: spent_login spent_refresh spent_outbox logout_def Let_def)

lemma spent_reach: "reach_avoiding env jti sys sys' \<Longrightarrow> spent jti u (sy_redis sys) \<Longrightarrow> spent jti u (sy_redis sys')"
  by (induction rule: reach_avoiding.induct) (auto intro: spent_step)

lemma rotated_jti:
  assumes "rotate_refresh env now u t jti sid (refresh_state env rep jti' sid e) rd = (True, rd')" "jti' \<noteq> jti"
  shows "spent jti u rd'"
  using assms by (auto simp: rotate_refresh_def Let_def refresh_state_def redis_set_def spent_def
      split: option.splits stored.splits if_splits)

lemma rotate_needs_jti:
  assumes "spent jti u rd"
  shows "fst (rotate_refresh env now u t jti sid rep rd) = False"
proof (cases "redis_get now (rd_refresh rd u)" rule: stored_cases)
  case (stored r)
  then have "rv_jti r \<noteq> jti" using assms by (auto simp: redis_get_Some spent_def)
  with stored show ?thesis by (auto simp: rotate_refresh_def split: option.split stored.split)
next
  case none
  then show ?thesis by (simp add: rotate_refresh_def)
next
  case garbage
  then show ?thesis by (auto simp: rotate_refresh_def split: option.split stored.split)
qed

text \<open>
  C8. A refresh token works once and a replay kills the session. After a successful refresh with a
  token, no refresh with the same token succeeds in any state the service reaches later, through
  whatever logins, rotations, logouts, outbox passes and administrative requests (and whatever the
  clock, the session token and Redis' part of the outbox); and if it gets as far as the answer that
  the token was already consumed, the session token it came with is denied from then on. The decoding
  of a token does not depend on the clock, and \<open>uuid4\<close> never draws the token's identity again.
\<close>
theorem refresh_single_use:
  assumes "central_inv sys" "refresh env now fails c body st ajti rjti sys = (Inr reply, sys1)"
    "ae_jwt_decode env now (trim body) = Some claims"
    "\<And>t claims'. ae_jwt_decode env t (trim body) = Some claims' \<Longrightarrow> claims' = claims"
    "rjti \<noteq> tk_jti claims" "reach_avoiding env (tk_jti claims) sys1 sys2"
    "refresh env now' fails' c' body st' ajti' rjti' sys2 = (answer, sys3)"
  shows "isl answer \<and>
    (answer = Inl (HttpError 401 ''Refresh token was already consumed'') \<longrightarrow>
       (\<exists>u. ae_uuid env (tk_sub claims) = Some u \<and> (\<forall>t x. validate_session_state env t u st' x sys3 = None)))"
proof (cases rule: refresh_cases [of env now fails c body st ajti rjti sys])
  case (rotates claims1 u x)
  have inv1: "central_inv sys1"
    using refresh_step_ok [of sys env now fails c body st ajti rjti] central_inv_step [OF assms(1)] assms(1,2)
    by (simp add: central_inv_def)
  have inv2: "central_inv sys2" by (rule reach_keeps_inv [OF avoiding_is_reach [OF assms(6)] inv1])
  have c1: "claims1 = claims" using rotates(1) assms(3) by (auto simp: decode_token_def split: option.splits if_splits)
  have "spent (tk_jti claims) u (sy_redis sys1)"
  proof (cases rule: rotate_cases [of env now fails u "trim body" claims1 st ajti rjti sys])
    case (rotated replacement expires rd reply db)
    have "sy_redis sys1 = rd" using rotated(2) assms(2) rotates(4) by auto
    then show ?thesis using rotated_jti [OF rotated(1)] assms(5) c1 by simp
  qed (use assms(2) rotates(4) in simp_all)
  then have "spent (tk_jti claims) u (sy_redis sys2)" by (rule spent_reach [OF assms(6)])
  then have stale: "fst (rotate_refresh env t u t1 (tk_jti claims) sid rep (sy_redis sys2)) = False" for t t1 sid rep
    by (rule rotate_needs_jti)
  show ?thesis
  proof (cases rule: refresh_cases [of env now' fails' c' body st' ajti' rjti' sys2])
    case (refused e)
    then show ?thesis using assms(7) by auto
  next
    case again: (rotates claims' u' x')
    have c2: "claims' = claims"
      using again(1) assms(4) by (auto simp: decode_token_def split: option.splits if_splits)
    then have u': "u' = u" using again(2) rotates(2) c1 by simp
    show ?thesis
    proof (cases rule: rotate_cases [of env now' fails' u "trim body" claims st' ajti' rjti' sys2])
      case error
      then show ?thesis using assms(7) again(4) c2 u' by auto
    next
      case (replayed rep rd)
      then have "sys3 = refresh_replayed now' fails' u st' (tk_sid claims) (sys2\<lparr>sy_redis := rd\<rparr>)"
        "answer = Inl (HttpError 401 ''Refresh token was already consumed'')"
        using assms(7) again(4) c2 u' by auto
      moreover have "validate_session_state env now' u st' (Some (tk_sid claims)) sys2 = Some x'"
        using again(3) c2 u' by simp
      ultimately show ?thesis using replay_revokes [OF inv2 _ replayed(1)] rotates(2) c1 by auto
    next
      case (rotated replacement expires rd reply db)
      have False using stale [of now' "trim body" "tk_sid claims" "refresh_state env replacement rjti' (tk_sid claims) expires"] rotated(1)
        by simp
      then show ?thesis ..
    qed
  qed
qed (use assms(2) in simp)

text \<open>The session is refreshed twice; then the first token is replayed.\<close>

definition example_second_refresh :: central_sys where
  "example_second_refresh = snd (refresh example_env 6500000 (\<lambda>_. None)
     (Some \<lparr>cr_scheme = ''Bearer'', cr_token = replicate 20 CHR ''x'' @ ''r2''\<rparr>) (replicate 20 CHR ''x'' @ ''r2'') ''tok'' ''a3'' ''r3''
     (snd (example_refresh 6000000 ''r2'' example_logged_in)))"

lemma example_late_replay:
  "fst (example_refresh 7000000 ''r4'' example_second_refresh) = Inl (HttpError 401 ''Refresh token was already consumed'')"
  by code_simp

lemma refresh_single_use_witness:
  "validate_session_state example_env 8000000 ''s'' ''tok'' None (snd (example_refresh 7000000 ''r4'' example_second_refresh)) = None"
proof -
  let ?t = "replicate 20 CHR ''x'' @ ''r1''"
  let ?claims = "\<lparr>tk_sub = ''s'', tk_type = ''refresh'', tk_sid = ''tok'', tk_jti = ''r1'', tk_iat = 0, tk_exp = 1000\<rparr>"
  obtain reply where r: "example_refresh 6000000 ''r2'' example_logged_in = (Inr reply, snd (example_refresh 6000000 ''r2'' example_logged_in))"
    using example_refreshed by (metis isl_def obj_sumE prod.collapse)
  have inv: "central_inv example_logged_in" by (rule sessions_reachable_inv [OF example_start_fresh example_login_reach])
  have dec: "ae_jwt_decode example_env t (trim ?t) = Some ?claims" for t
  proof -
    have "drop 20 (trim ?t) = ''r1''" by code_simp
    then show ?thesis by (simp add: example_env_def)
  qed
  have later: "reach_avoiding example_env (tk_jti ?claims) (snd (example_refresh 6000000 ''r2'' example_logged_in)) example_second_refresh"
    unfolding example_second_refresh_def by (rule avoiding_step [OF avoiding_refl avoid_refresh]) simp
  have "fst (example_refresh 7000000 ''r4'' example_second_refresh) = Inl (HttpError 401 ''Refresh token was already consumed'') \<longrightarrow>
    (\<exists>u. ae_uuid example_env (tk_sub ?claims) = Some u \<and>
      (\<forall>t x. validate_session_state example_env t u ''tok'' x (snd (example_refresh 7000000 ''r4'' example_second_refresh)) = None))"
    by (rule conjunct2, rule refresh_single_use [OF inv r [unfolded example_refresh_def] dec _ _ later [unfolded example_refresh_def]])
       (auto simp: dec example_refresh_def)
  then show ?thesis using example_late_replay by (auto simp: example_env_def)
qed

subsection \<open>Removed accounts\<close>

lemma removed_logins:
  assumes "db' = write_audit a b c d e (enqueue_action i Revoke [] (revoke_logins (\<lambda>l. lo_user l = i) now db1))"
  shows "validate_session_state env t i token x \<lparr>sy_db = db', sy_redis = rd\<rparr> = None \<and>
    (\<exists>r \<in> set (ct_outbox db'). ob_user r = i \<and> ob_action r = Revoke \<and> ob_processed r = None)"
proof -
  have "live_logins i (ct_logins db') = []" using live_logins_revoked assms by simp
  then have "\<not> (\<exists>l \<in> set (ct_logins db'). lo_user l = i \<and> lo_token l = token \<and> lo_revoked l = None)"
    by (auto simp: live_logins_def filter_empty_conv)
  moreover have "\<exists>l \<in> set (ct_logins db'). lo_user l = i \<and> lo_token l = token \<and> lo_revoked l = None"
    if "validate_session_state env t i token x \<lparr>sy_db = db', sy_redis = rd\<rparr> = Some v" for v
    using validate_needs_login [OF that] by simp
  ultimately have "validate_session_state env t i token x \<lparr>sy_db = db', sy_redis = rd\<rparr> = None"
    by (meson not_Some_eq)
  moreover have "\<exists>r \<in> set (ct_outbox db'). ob_user r = i \<and> ob_action r = Revoke \<and> ob_processed r = None"
    by (simp add: assms)
  ultimately show ?thesis by blast
qed

text \<open>
  Removing access takes effect at once: after an accepted request that deletes a user, disables
  a user or expires a licence of a user, every session token of that user is denied, even while
  Redis still holds the pair, and the revocation is queued for Redis.
\<close>
theorem removal_denies_at_once:
  assumes "admin_request hash key actor now new_id call db = Inr db'"
    "case call of DeleteUser j \<Rightarrow> j = i
       | ToggleActive j \<Rightarrow> j = i \<and> map_option us_active (find_user i db) = Some True
       | ExpireLicense k \<Rightarrow> map_option li_user (find_license k db) = Some i
       | _ \<Rightarrow> False"
  shows "validate_session_state env t i token x \<lparr>sy_db = db', sy_redis = rd\<rparr> = None \<and>
    (\<exists>r \<in> set (ct_outbox db'). ob_user r = i \<and> ob_action r = Revoke \<and> ob_processed r = None)"
proof -
  have h: "admin_handler hash key actor now new_id call db = Inr db'" using assms(1) by (auto simp: admin_request_def bindE_eq_Inr)
  have "\<exists>a b c d e db1. db' = write_audit a b c d e (enqueue_action i Revoke [] (revoke_logins (\<lambda>l. lo_user l = i) now db1))"
  proof (cases call)
    case (DeleteUser j)
    then have "db' = write_audit (me_id actor) ''delete'' ''auth.user'' (Some i) (JObj []) (enqueue_action i Revoke []
        (revoke_logins (\<lambda>l. lo_user l = i) now (update_users i (\<lambda>u. u\<lparr>us_deleted := True, us_active := False\<rparr>) db)))"
      using h assms(2) by (auto simp: no_reply_Inr delete_user_def bindE_eq_Inr Let_def)
    then show ?thesis by blast
  next
    case (ToggleActive j)
    then have "db' = write_audit (me_id actor) ''toggle_active'' ''auth.user'' (Some i) (JObj [(''is_active'', JBool False)])
        (enqueue_action i Revoke [] (revoke_logins (\<lambda>l. lo_user l = i) now (update_users i (\<lambda>u. u\<lparr>us_active := \<not> us_active u\<rparr>) db)))"
      using h assms(2)
      by (auto simp: no_reply_Inr toggle_active_def get_user_def bindE_eq_Inr Let_def split: if_splits option.splits)
    then show ?thesis by blast
  next
    case (ExpireLicense k)
    then obtain l u where "license_target k db = Inr (l, u)"
      "db' = write_audit (me_id actor) ''expire'' ''rbac.license'' (Some k) (JObj []) (enqueue_action (li_user l) Revoke []
         (revoke_logins (\<lambda>x. lo_user x = li_user l) now (update_licenses k (\<lambda>l. l\<lparr>li_until := now, li_active := False\<rparr>) db)))"
      using h by (auto simp: no_reply_Inr expire_license_def bindE_eq_Inr Let_def)
    moreover have "li_user l = i"
      using calculation(1) assms(2) ExpireLicense by (auto simp: license_target_def split: option.splits)
    ultimately show ?thesis by blast
  qed (use assms(2) in simp_all)
  then show ?thesis by (elim exE) (rule removed_logins)
qed

lemma removal_denies_at_once_witness:
  "\<exists>db'. admin_request id (\<lambda>i t. i) (example_actor ''a'' Admin) 5 ''n'' (DeleteUser ''v'') example_central = Inr db'
     \<and> validate_session_state example_env 6 ''v'' ''tok'' None \<lparr>sy_db = db', sy_redis = sy_redis example_start\<rparr> = None"
proof -
  obtain db' where e: "admin_request id (\<lambda>i t. i) (example_actor ''a'' Admin) 5 ''n'' (DeleteUser ''v'') example_central = Inr db'"
    by (rule example_request)
  from removal_denies_at_once [OF this, of "''v''"] e show ?thesis by auto
qed

subsection \<open>The outbox drains\<close>

lemma pending_mark_None:
  "filter (\<lambda>r. ob_processed r = None) (ct_outbox (outbox_mark now i None db)) =
     filter (\<lambda>r. ob_processed r = None \<and> ob_id r \<noteq> i) (ct_outbox db)"
proof -
  have "filter (\<lambda>r. ob_processed r = None) (table_update (\<lambda>r. ob_id r = i)
      (\<lambda>r. r\<lparr>ob_processed := Some now, ob_attempts := ob_attempts r + 1, ob_last_error := None\<rparr>) rows) =
    filter (\<lambda>r. ob_processed r = None \<and> ob_id r \<noteq> i) rows" for rows
    by (induction rows) auto
  then show ?thesis by (simp add: outbox_mark_def)
qed

lemma outbox_action_ok:
  assumes "redis_ok (sy_redis sys)"
  shows "\<exists>sys1. outbox_action now None row sys = (None, sys1) \<and> ct_outbox (sy_db sys1) = ct_outbox (sy_db sys)"
proof (cases "ob_action row")
  case Revoke
  obtain b rd where "delete_if_sid now (ob_user row) (ob_sid row) (sy_redis sys) = Inr (b, rd)"
    using delete_if_sid_total [OF assms] by blast
  with Revoke show ?thesis by (cases "ob_sid row = []") (simp_all add: outbox_action_def)
next
  case Reconcile
  then show ?thesis by (cases "current_license now (ob_user row) (sy_db sys)") (simp_all add: outbox_action_def Let_def)
qed

lemma fold_drains:
  assumes "redis_ok (sy_redis sys)"
  shows "filter (\<lambda>r. ob_processed r = None) (ct_outbox (sy_db (foldl (\<lambda>s row. outbox_row_step now (\<lambda>_. None) row s) sys rows))) =
    filter (\<lambda>r. ob_processed r = None \<and> ob_id r \<notin> ob_id ` set rows) (ct_outbox (sy_db sys))"
  using assms
proof (induction rows arbitrary: sys)
  case Nil
  then show ?case by simp
next
  case (Cons r rs)
  obtain sys1 where a: "outbox_action now None r sys = (None, sys1)" "ct_outbox (sy_db sys1) = ct_outbox (sy_db sys)"
    using outbox_action_ok [OF Cons.prems] by blast
  let ?s = "outbox_row_step now (\<lambda>_. None) r sys"
  have "?s = sys1\<lparr>sy_db := outbox_mark now (ob_id r) None (sy_db sys1)\<rparr>" using a(1) by (simp add: outbox_row_step_def)
  then have p: "filter (\<lambda>r. ob_processed r = None) (ct_outbox (sy_db ?s)) =
      filter (\<lambda>x. ob_processed x = None \<and> ob_id x \<noteq> ob_id r) (ct_outbox (sy_db sys))"
    using a(2) pending_mark_None [of now "ob_id r" "sy_db sys1"] by simp
  have "filter (\<lambda>x. ob_processed x = None \<and> ob_id x \<notin> ob_id ` set rs) (ct_outbox (sy_db ?s)) =
      filter (\<lambda>x. ob_id x \<notin> ob_id ` set rs) (filter (\<lambda>r. ob_processed r = None) (ct_outbox (sy_db ?s)))"
    by (simp add: conj_commute)
  also have "\<dots> = filter (\<lambda>x. ob_processed x = None \<and> ob_id x \<notin> ob_id ` set (r # rs)) (ct_outbox (sy_db sys))"
    unfolding p by (auto intro!: filter_cong)
  finally show ?case using Cons.IH [of ?s] outbox_row_step_ok [OF Cons.prems, of now "\<lambda>_. None" r] by simp
qed

lemma length_filter_remove:
  assumes "distinct (map k xs)" "set ys \<subseteq> set xs" "distinct ys"
  shows "length (filter (\<lambda>x. k x \<notin> k ` set ys) xs) = length xs - length ys"
proof -
  have inj: "inj_on k (set xs)" using assms(1) by (simp add: distinct_map)
  have "set (filter (\<lambda>x. k x \<notin> k ` set ys) xs) = set xs - set ys"
    using inj assms(2) by (auto dest: inj_onD)
  moreover have "distinct (filter (\<lambda>x. k x \<notin> k ` set ys) xs)" using assms(1) by (simp add: distinct_map)
  ultimately have "length (filter (\<lambda>x. k x \<notin> k ` set ys) xs) = card (set xs - set ys)" by (metis distinct_card)
  also have "\<dots> = card (set xs) - card (set ys)" using assms(2) by (simp add: card_Diff_subset)
  finally show ?thesis using assms(1,3) by (simp add: distinct_card distinct_map)
qed

text \<open>
  Revocations reach Redis: one pass over the outbox in which Redis answers settles the oldest
  \<open>n\<close> pending rows, so that the number of pending rows shrinks by \<open>n\<close>, down to none.
\<close>
theorem outbox_drains:
  assumes "fresh_sys sys0" "central_reach env sys0 sys"
  shows "length (filter (\<lambda>r. ob_processed r = None) (ct_outbox (sy_db (process_session_outbox_once now (\<lambda>_. None) n sys)))) =
    length (filter (\<lambda>r. ob_processed r = None) (ct_outbox (sy_db sys))) - n"
proof -
  have inv: "central_inv sys" using sessions_reachable_inv [OF assms] .
  let ?rows = "filter (\<lambda>r. ob_processed r = None) (ct_outbox (sy_db sys))"
  let ?first = "outbox_pending n (sy_db sys)"
  have d: "distinct (map ob_id ?rows)" using inv by (simp add: central_inv_def distinct_map_filter)
  have "distinct (sort_key ob_id ?rows)" using d by (simp add: distinct_map)
  then have f: "set ?first \<subseteq> set ?rows" "distinct ?first" "length ?first = min n (length ?rows)"
    using set_take_subset [of n "sort_key ob_id ?rows"] by (simp_all add: outbox_pending_def)
  have "filter (\<lambda>r. ob_processed r = None) (ct_outbox (sy_db (process_session_outbox_once now (\<lambda>_. None) n sys))) =
      filter (\<lambda>r. ob_processed r = None \<and> ob_id r \<notin> ob_id ` set ?first) (ct_outbox (sy_db sys))"
    unfolding process_session_outbox_once_def by (rule fold_drains) (use inv in \<open>simp add: central_inv_def\<close>)
  also have "\<dots> = filter (\<lambda>r. ob_id r \<notin> ob_id ` set ?first) ?rows" by (simp add: conj_commute)
  finally show ?thesis using length_filter_remove [OF d f(1,2)] f(3) by simp
qed

lemma outbox_drains_witness:
  "length (filter (\<lambda>r. ob_processed r = None)
     (ct_outbox (sy_db (process_session_outbox_once 8000000 (\<lambda>_. None) 5 example_logged_in)))) = 0"
proof -
  have "length (filter (\<lambda>r. ob_processed r = None) (ct_outbox (sy_db example_logged_in))) = 0" by code_simp
  then show ?thesis using outbox_drains [OF example_start_fresh example_login_reach, of 8000000 5] by simp
qed

end
