(* ===== verification/Central_License_Keys.thy ===== *)
theory Central_License_Keys
  imports Central_Session_Props
begin

section \<open>The keys of a session and the licence they were issued under\<close>

text \<open>
  Redis keeps a copy of the licence a session was issued under; the table \<open>licenses\<close> keeps the licence.
  Every request that changes a licence queues a row in the outbox, and its processing brings the copy
  up to date. The invariant relates the two: the copy is that of a row of the table, or a row of the
  outbox that will settle it is pending. \<open>RECONCILE_LUA\<close> leaves the keys alone in the last,
  partial second of a licence although its row counts as processed; that case is kept apart.
\<close>

definition settles :: "ident \<Rightarrow> outbox_row \<Rightarrow> bool" where
  "settles u r \<longleftrightarrow> ob_user r = u \<and> (ob_action r = Reconcile \<or> ob_sid r = [])"

definition settling :: "ident \<Rightarrow> central_db \<Rightarrow> bool" where
  "settling u db \<longleftrightarrow> (\<exists>r \<in> set (ct_outbox db). settles u r \<and> ob_processed r = None)"

definition last_second :: "ident \<Rightarrow> central_db \<Rightarrow> bool" where
  "last_second u db \<longleftrightarrow> (\<exists>r \<in> set (ct_outbox db). \<exists>t. ob_user r = u \<and> ob_action r = Reconcile \<and> ob_processed r = Some t
     \<and> (\<exists>l \<in> set (ct_licenses db). li_user l = u \<and> t < li_until l \<and> secs (li_until l) \<le> secs t))"

definition from_license :: "ident \<Rightarrow> central_db \<Rightarrow> session_val \<Rightarrow> bool" where
  "from_license u db s \<longleftrightarrow> (\<exists>l \<in> set (ct_licenses db). li_id l = sv_license s \<and> li_user l = u
     \<and> sv_license_from s = secs (li_from l) \<and> sv_license_until s = secs (li_until l))"

definition licensed_entry :: "ident \<Rightarrow> central_db \<Rightarrow> (session_val stored \<times> int) option \<Rightarrow> bool" where
  "licensed_entry u db e \<longleftrightarrow> settling u db \<or> last_second u db \<or> (\<forall>s x. e = Some (Stored s, x) \<longrightarrow> from_license u db s)"

definition licensed_keys :: "central_sys \<Rightarrow> bool" where
  "licensed_keys sys \<longleftrightarrow> (\<forall>u. licensed_entry u (sy_db sys) (rd_session (sy_redis sys) u))"

subsection \<open>Changes that keep the relation\<close>

definition same_terms :: "(session_val stored \<times> int) option \<Rightarrow> (session_val stored \<times> int) option \<Rightarrow> bool" where
  "same_terms e e' \<longleftrightarrow> (\<forall>s' x'. e' = Some (Stored s', x') \<longrightarrow> (\<exists>s x. e = Some (Stored s, x) \<and> sv_license s' = sv_license s
     \<and> sv_license_from s' = sv_license_from s \<and> sv_license_until s' = sv_license_until s))"

definition keeps_license :: "ident \<Rightarrow> central_db \<Rightarrow> central_db \<Rightarrow> bool" where
  "keeps_license u db db' \<longleftrightarrow> settling u db' \<or>
     ((\<forall>l \<in> set (ct_licenses db). li_user l = u \<longrightarrow> l \<in> set (ct_licenses db')) \<and> set (ct_outbox db) \<subseteq> set (ct_outbox db'))"

lemma same_terms_refl [simp]: "same_terms e e"
  by (simp add: same_terms_def)

lemma same_terms_None [simp]: "same_terms e None"
  by (simp add: same_terms_def)

lemma entry_same_terms: "licensed_entry u db e \<Longrightarrow> same_terms e e' \<Longrightarrow> licensed_entry u db e'"
  unfolding licensed_entry_def same_terms_def from_license_def by metis

lemma entry_keeps: "licensed_entry u db e \<Longrightarrow> keeps_license u db db' \<Longrightarrow> licensed_entry u db' e"
  unfolding licensed_entry_def keeps_license_def settling_def last_second_def from_license_def by blast

lemma keeps_same: "ct_licenses db' = ct_licenses db \<Longrightarrow> set (ct_outbox db) \<subseteq> set (ct_outbox db') \<Longrightarrow> keeps_license u db db'"
  by (simp add: keeps_license_def)

lemma same_terms_delete_pair: "same_terms (rd_session rd u) (rd_session (delete_pair v rd) u)"
  by (simp add: delete_pair_def)

lemma same_terms_delete_if: "delete_if_sid now v sid rd = Inr (b, rd') \<Longrightarrow> same_terms (rd_session rd u) (rd_session rd' u)"
  by (auto simp: delete_if_sid_def delete_pair_def split: option.splits stored.splits if_splits)

lemma same_terms_rotate:
  assumes "rotate_refresh env now v t j sid rep rd = (b, rd')"
  shows "same_terms (rd_session rd u) (rd_session rd' u)"
proof (cases "\<exists>r s. redis_get now (rd_refresh rd v) = Some (Stored r) \<and> redis_get now (rd_session rd v) = Some (Stored s)")
  case True
  then obtain r s y where rs: "redis_get now (rd_refresh rd v) = Some (Stored r)" "redis_get now (rd_session rd v) = Some (Stored s)"
    and y: "rd_session rd v = Some (Stored s, y)" by (auto simp: redis_get_Some)
  with assms show ?thesis
    by (auto simp: rotate_refresh_def Let_def split: if_splits) (auto simp: same_terms_def redis_set_def split: if_splits)
next
  case False
  then have "rd' = rd \<or> rd' = delete_pair v rd"
    using assms by (cases "redis_get now (rd_refresh rd v)" rule: stored_cases; cases "redis_get now (rd_session rd v)" rule: stored_cases)
      (simp_all add: rotate_refresh_def)
  then show ?thesis using same_terms_delete_pair by auto
qed

subsection \<open>The outbox\<close>

lemma secs_mono: "a \<le> b \<Longrightarrow> secs a \<le> secs b"
proof -
  assume "a \<le> b"
  then have "a div 1000000 \<le> b div 1000000" "(- b) div 1000000 \<le> (- a) div 1000000" by (simp_all add: zdiv_mono1)
  moreover have "a < 0 \<Longrightarrow> 0 \<le> (- a) div 1000000" "0 \<le> b \<Longrightarrow> 0 \<le> b div 1000000" by (simp_all add: pos_imp_zdiv_nonneg_iff)
  ultimately show ?thesis using \<open>a \<le> b\<close> by (auto simp: secs_def)
qed

lemma current_license_found:
  assumes "current_license now u db = Some l"
  shows "l \<in> set (ct_licenses db)" "li_user l = u" "li_from l \<le> now" "now < li_until l"
proof -
  let ?ls = "sort_key (\<lambda>l. - li_until l) (filter (\<lambda>l. li_user l = u \<and> license_current now l) (ct_licenses db))"
  have "l \<in> set ?ls" using assms by (cases ?ls) (simp_all add: current_license_def)
  then show "l \<in> set (ct_licenses db)" "li_user l = u" "li_from l \<le> now" "now < li_until l"
    by (simp_all add: license_current_def)
qed

lemma reconcile_entry:
  assumes l: "current_license now u db = Some l"
    and s: "rd_session (reconcile_pair now u sid (li_id l) (secs (li_from l)) (secs (li_until l)) rd) u = Some (Stored s, x)"
  shows "from_license u db s \<or> secs (li_until l) \<le> secs now"
proof (cases "\<exists>r s. redis_get now (rd_refresh rd u) = Some (Stored r) \<and> redis_get now (rd_session rd u) = Some (Stored s)")
  case True
  then obtain r s0 where rs: "redis_get now (rd_refresh rd u) = Some (Stored r)" "redis_get now (rd_session rd u) = Some (Stored s0)" by blast
  note c = current_license_found [OF l]
  have "\<not> secs now < secs (li_from l)" using secs_mono [OF c(3)] by simp
  then show ?thesis using s rs c
    by (auto simp: reconcile_pair_def Let_def delete_pair_def redis_set_def from_license_def split: if_splits)
next
  case False
  then have "reconcile_pair now u sid (li_id l) (secs (li_from l)) (secs (li_until l)) rd = delete_pair u rd"
    by (cases "redis_get now (rd_refresh rd u)" rule: stored_cases; cases "redis_get now (rd_session rd u)" rule: stored_cases)
      (simp_all add: reconcile_pair_def)
  with s show ?thesis by (simp add: delete_pair_def)
qed

text \<open>
  The last second: a licence that ends at 5.9 s is current at 5.5 s, but the script compares whole
  seconds, 5 and 5, and leaves a pair that lives until another licence's end as it is.
\<close>

lemma reconcile_last_second:
  assumes "redis_get now (rd_session rd u) = Some (Stored s)" "redis_get now (rd_refresh rd u) = Some (Stored r)"
    "sv_sid s \<noteq> []" "sv_sid s = rv_sid r" "secs (li_until l) \<le> secs now"
  shows "reconcile_pair now u [] (li_id l) (secs (li_from l)) (secs (li_until l)) rd = rd"
  using assms by (simp add: reconcile_pair_def)

lemma reconcile_other: "v \<noteq> u \<Longrightarrow> rd_session (reconcile_pair now v sid lic vf vu rd) u = rd_session rd u"
  by (simp add: reconcile_pair_def delete_pair_def Let_def split: option.split stored.split)

lemma outbox_action_tables:
  assumes "outbox_action now fails row sys = (err, sys1)"
  shows "ct_licenses (sy_db sys1) = ct_licenses (sy_db sys)" "ct_outbox (sy_db sys1) = ct_outbox (sy_db sys)"
  using assms by (auto simp: outbox_action_def Let_def revoke_logins_def split: session_action.splits option.splits if_splits sum.splits prod.splits)

text \<open>The action of a row on the keys of a user: other rows keep the terms, a row that settles brings them up to date.\<close>

lemma outbox_action_other:
  assumes "outbox_action now fails row sys = (err, sys1)" "\<not> settles u row"
  shows "same_terms (rd_session (sy_redis sys) u) (rd_session (sy_redis sys1) u)"
proof (cases "ob_action row")
  case Revoke
  with assms same_terms_delete_if same_terms_delete_pair show ?thesis
    by (auto simp: outbox_action_def settles_def split: option.splits if_splits sum.splits prod.splits)
next
  case Reconcile
  then have "ob_user row \<noteq> u" using assms(2) by (simp add: settles_def)
  with assms Reconcile same_terms_delete_pair show ?thesis
    by (auto simp: outbox_action_def Let_def reconcile_other split: option.splits)
qed

lemma outbox_action_settles:
  assumes "outbox_action now fails row sys = (None, sys1)" "settles u row" "rd_session (sy_redis sys1) u = Some (Stored s, x)"
  shows "ob_action row = Reconcile \<and>
    (from_license u (sy_db sys) s \<or> (\<exists>l \<in> set (ct_licenses (sy_db sys)). li_user l = u \<and> now < li_until l \<and> secs (li_until l) \<le> secs now))"
proof (cases "ob_action row")
  case Revoke
  with assms show ?thesis
    by (auto simp: outbox_action_def settles_def delete_pair_def split: option.splits if_splits)
next
  case Reconcile
  have u: "ob_user row = u" using assms(2) by (simp add: settles_def)
  obtain l where l: "current_license now u (sy_db sys) = Some l"
    "sy_redis sys1 = reconcile_pair now u (ob_sid row) (li_id l) (secs (li_from l)) (secs (li_until l)) (sy_redis sys)"
    using assms(1,3) Reconcile u by (auto simp: outbox_action_def Let_def delete_pair_def split: option.splits)
  from reconcile_entry [OF l(1), of "ob_sid row" "sy_redis sys"] assms(3) l(2)
  have "from_license u (sy_db sys) s \<or> secs (li_until l) \<le> secs now" by simp
  with current_license_found [OF l(1)] Reconcile show ?thesis by blast
qed

lemma outbox_mark_rows:
  assumes d: "distinct (map ob_id (ct_outbox db))" and r: "r \<in> set (ct_outbox db)"
  shows "w \<in> set (ct_outbox db) \<Longrightarrow> w \<noteq> r \<Longrightarrow> w \<in> set (ct_outbox (outbox_mark now (ob_id r) err db))"
    "\<exists>r' \<in> set (ct_outbox (outbox_mark now (ob_id r) err db)). ob_user r' = ob_user r \<and> ob_action r' = ob_action r \<and> ob_sid r' = ob_sid r
       \<and> ob_processed r' = (if err = None then Some now else ob_processed r)"
proof -
  have u: "w \<in> set (ct_outbox db) \<Longrightarrow> ob_id w = ob_id r \<Longrightarrow> w = r" for w by (rule same_key [OF d _ r])
  show "w \<in> set (ct_outbox (outbox_mark now (ob_id r) err db))" if "w \<in> set (ct_outbox db)" "w \<noteq> r"
    using that u [OF that(1)] by (auto simp: outbox_mark_def in_table_update intro!: bexI [of _ w])
  show "\<exists>r' \<in> set (ct_outbox (outbox_mark now (ob_id r) err db)). ob_user r' = ob_user r \<and> ob_action r' = ob_action r \<and> ob_sid r' = ob_sid r
       \<and> ob_processed r' = (if err = None then Some now else ob_processed r)"
  proof (cases err)
    case None
    show ?thesis by (rule bexI [of _ "r\<lparr>ob_processed := Some now, ob_attempts := ob_attempts r + 1, ob_last_error := None\<rparr>"])
      (use r None in \<open>auto simp: outbox_mark_def in_table_update intro!: bexI [of _ r]\<close>)
  next
    case (Some e)
    show ?thesis by (rule bexI [of _ "r\<lparr>ob_attempts := ob_attempts r + 1, ob_last_error := Some (take 2000 e)\<rparr>"])
      (use r Some in \<open>auto simp: outbox_mark_def in_table_update intro!: bexI [of _ r]\<close>)
  qed
qed

lemma outbox_row_keys:
  assumes k: "licensed_keys sys" and d: "distinct (map ob_id (ct_outbox (sy_db sys)))"
    and r: "r \<in> set (ct_outbox (sy_db sys))" "ob_processed r = None"
  shows "licensed_keys (outbox_row_step now fails r sys)"
    "w \<in> set (ct_outbox (sy_db sys)) \<Longrightarrow> w \<noteq> r \<Longrightarrow> w \<in> set (ct_outbox (sy_db (outbox_row_step now fails r sys)))"
    "ct_licenses (sy_db (outbox_row_step now fails r sys)) = ct_licenses (sy_db sys)"
    "distinct (map ob_id (ct_outbox (sy_db (outbox_row_step now fails r sys))))"
proof -
  obtain err sys1 where a: "outbox_action now (fails (ob_id r)) r sys = (err, sys1)" by fastforce
  note t = outbox_action_tables [OF a]
  let ?db = "outbox_mark now (ob_id r) err (sy_db sys1)"
  have s: "outbox_row_step now fails r sys = sys1\<lparr>sy_db := ?db\<rparr>" using a by (simp add: outbox_row_step_def)
  have d1: "distinct (map ob_id (ct_outbox (sy_db sys1)))" "r \<in> set (ct_outbox (sy_db sys1))" using d r(1) t by simp_all
  note m = outbox_mark_rows [OF d1]
  have lic: "ct_licenses ?db = ct_licenses (sy_db sys)" using t(1) by (simp add: outbox_mark_def)
  show "w \<in> set (ct_outbox (sy_db (outbox_row_step now fails r sys)))" if "w \<in> set (ct_outbox (sy_db sys))" "w \<noteq> r"
    using m(1) that t by (simp add: s)
  show "ct_licenses (sy_db (outbox_row_step now fails r sys)) = ct_licenses (sy_db sys)" by (simp add: s t)
  show "distinct (map ob_id (ct_outbox (sy_db (outbox_row_step now fails r sys))))"
    using d1(1) tables_step_mark [of "sy_db sys1" now "ob_id r" err] by (simp add: s tables_step_def)
  have "licensed_entry u ?db (rd_session (sy_redis sys1) u)" for u
  proof (cases "settles u r")
    case False
    have e: "licensed_entry u (sy_db sys) (rd_session (sy_redis sys1) u)"
      using entry_same_terms [OF _ outbox_action_other [OF a False]] k by (simp add: licensed_keys_def)
    moreover have "settling u (sy_db sys) \<Longrightarrow> settling u ?db"
      unfolding settling_def using m(1) t False by (metis)
    moreover have "last_second u (sy_db sys) \<Longrightarrow> last_second u ?db"
      unfolding last_second_def lic using m(1) t r(2) by (metis option.distinct(1))
    moreover have "from_license u (sy_db sys) s \<Longrightarrow> from_license u ?db s" for s by (simp add: from_license_def t)
    ultimately show ?thesis unfolding licensed_entry_def by blast
  next
    case True
    from m(2) [of now err] obtain r' where r': "r' \<in> set (ct_outbox ?db)" "settles u r'" "ob_user r' = ob_user r" "ob_action r' = ob_action r"
      "ob_processed r' = (if err = None then Some now else None)" using True r(2) by (auto simp: settles_def)
    show ?thesis
    proof (cases err)
      case (Some e)
      with r' have "settling u ?db" by (auto simp: settling_def)
      then show ?thesis by (simp add: licensed_entry_def)
    next
      case None
      have "last_second u ?db \<or> from_license u ?db s" if "rd_session (sy_redis sys1) u = Some (Stored s, x)" for s x
      proof -
        from outbox_action_settles [OF a [unfolded None] True that]
        have c: "ob_action r = Reconcile" "from_license u (sy_db sys) s \<or>
          (\<exists>l \<in> set (ct_licenses (sy_db sys)). li_user l = u \<and> now < li_until l \<and> secs (li_until l) \<le> secs now)" by blast+
        have "ob_user r' = u" "ob_processed r' = Some now" using True r' None by (simp_all add: settles_def)
        with c r'(1,4) show ?thesis unfolding last_second_def from_license_def lic by metis
      qed
      then show ?thesis by (auto simp: licensed_entry_def)
    qed
  qed
  then show "licensed_keys (outbox_row_step now fails r sys)" by (simp add: licensed_keys_def s)
qed

lemma outbox_fold_keys:
  assumes "licensed_keys sys" "distinct (map ob_id (ct_outbox (sy_db sys)))" "distinct rows"
    "\<forall>r \<in> set rows. r \<in> set (ct_outbox (sy_db sys)) \<and> ob_processed r = None"
  shows "licensed_keys (foldl (\<lambda>s row. outbox_row_step now fails row s) sys rows) \<and>
    ct_licenses (sy_db (foldl (\<lambda>s row. outbox_row_step now fails row s) sys rows)) = ct_licenses (sy_db sys)"
  using assms
proof (induction rows arbitrary: sys)
  case (Cons r rs)
  have r: "r \<in> set (ct_outbox (sy_db sys))" "ob_processed r = None" using Cons.prems by simp_all
  note one = outbox_row_keys [OF Cons.prems(1,2) r]
  have "\<forall>w \<in> set rs. w \<in> set (ct_outbox (sy_db (outbox_row_step now fails r sys))) \<and> ob_processed w = None"
    using Cons.prems one(2) by (metis distinct.simps(2) list.set_intros(2))
  with Cons.IH [OF one(1,4)] Cons.prems(3) one(3) show ?case by simp
qed simp

lemma process_keys:
  assumes "licensed_keys sys" "distinct (map ob_id (ct_outbox (sy_db sys)))"
  shows "licensed_keys (process_session_outbox_once now fails n sys)"
    "ct_licenses (sy_db (process_session_outbox_once now fails n sys)) = ct_licenses (sy_db sys)"
proof -
  have "distinct (outbox_pending n (sy_db sys))"
    using assms(2) by (auto simp: outbox_pending_def distinct_map intro!: distinct_take)
  moreover have "\<forall>r \<in> set (outbox_pending n (sy_db sys)). r \<in> set (ct_outbox (sy_db sys)) \<and> ob_processed r = None"
    by (auto simp: outbox_pending_def dest!: in_set_takeD)
  ultimately show "licensed_keys (process_session_outbox_once now fails n sys)"
    "ct_licenses (sy_db (process_session_outbox_once now fails n sys)) = ct_licenses (sy_db sys)"
    using outbox_fold_keys [OF assms] by (simp_all add: process_session_outbox_once_def)
qed

subsection \<open>Requests\<close>

lemma entry_tables:
  "ct_licenses db' = ct_licenses db \<Longrightarrow> ct_outbox db' = ct_outbox db \<Longrightarrow> licensed_entry u db' e = licensed_entry u db e"
  by (simp add: licensed_entry_def settling_def last_second_def from_license_def)

lemma login_tables:
  "ct_licenses (sy_db (snd (login_transaction env now v device t result sys))) = ct_licenses (sy_db sys) \<and>
   ct_outbox (sy_db (snd (login_transaction env now v device t result sys))) = ct_outbox (sy_db sys)"
proof (cases rule: login_cases [of env now v device t result sys])
  case (kept rd)
  then show ?thesis by simp
next
  case (opened rd l a b c d e)
  then show ?thesis by (simp add: revoke_logins_def)
qed

lemma login_keys:
  assumes "licensed_keys sys"
  shows "licensed_keys (snd (login_transaction env now v device t result sys))"
proof -
  let ?sid = "ae_hash env (lt_session t)" and ?db = "sy_db sys"
  let ?out = "sy_redis (snd (login_transaction env now v device t result sys))"
  obtain access refresh where itp: "issue_token_pair env now v ?sid (lt_access_jti t) (lt_refresh_jti t) = (access, refresh)" by fastforce
  define act where "act = (\<lambda>(c :: token_claims) l. activate_session now v
     (session_state env (lt_session t) v l (tk_exp c) (tk_exp c)) (refresh_state env refresh (lt_refresh_jti t) ?sid (tk_exp c))
     (min (tk_exp c) (secs (li_until l))) (min (tk_exp c) (secs (li_until l))) (sy_redis sys))"
  have a: "licensed_entry u ?db (rd_session (act c l) u)" if l: "current_license now v ?db = Some l" for c l u
  proof (cases "u = v")
    case True
    have "from_license v ?db (session_state env (lt_session t) v l (tk_exp c) (tk_exp c))"
      using current_license_found [OF l] by (auto simp: from_license_def session_state_def)
    with True show ?thesis by (auto simp: licensed_entry_def act_def activate_session_def redis_set_def)
  next
    case False
    then show ?thesis using assms by (simp add: act_def activate_session_def licensed_keys_def)
  qed
  have d: "licensed_entry u ?db (rd_session (case delete_if_sid now v ?sid (act c l) of Inl e \<Rightarrow> act c l | Inr (b, rd') \<Rightarrow> rd') u)"
    if l: "current_license now v ?db = Some l" for c l u
    using a [OF l] entry_same_terms [OF a [OF l] same_terms_delete_if] by (auto split: sum.split prod.split)
  have "?out = sy_redis sys \<or> (\<exists>c l. current_license now v ?db = Some l \<and>
      (?out = act c l \<or> ?out = (case delete_if_sid now v ?sid (act c l) of Inl e \<Rightarrow> act c l | Inr (b, rd') \<Rightarrow> rd')))"
    unfolding login_transaction_def Let_def itp prod.case act_def
    by (cases result) (auto split: option.split)
  then have "licensed_entry u ?db (rd_session ?out u)" for u
    using assms a d by (elim disjE exE conjE) (simp_all add: licensed_keys_def)
  then show ?thesis unfolding licensed_keys_def using entry_tables login_tables by metis
qed

lemma audit_enqueue_tables:
  "set (ct_outbox db) \<subseteq> set (ct_outbox (write_audit a b c d e (enqueue_action u act sid (revoke_logins P now db))))"
  "ct_licenses (write_audit a b c d e (enqueue_action u act sid (revoke_logins P now db))) = ct_licenses db"
  "distinct (map ob_id (ct_outbox db)) \<Longrightarrow>
     distinct (map ob_id (ct_outbox (write_audit a b c d e (enqueue_action u act sid (revoke_logins P now db)))))"
proof -
  show "set (ct_outbox db) \<subseteq> set (ct_outbox (write_audit a b c d e (enqueue_action u act sid (revoke_logins P now db))))"
    by (auto simp: revoke_logins_def)
  show "ct_licenses (write_audit a b c d e (enqueue_action u act sid (revoke_logins P now db))) = ct_licenses db"
    by (simp add: enqueue_action_def revoke_logins_def)
  assume "distinct (map ob_id (ct_outbox db))"
  then show "distinct (map ob_id (ct_outbox (write_audit a b c d e (enqueue_action u act sid (revoke_logins P now db)))))"
    using tables_step_after(1) [OF tables_step_after(2) [OF tables_step_revoke]] unfolding tables_step_def by blast
qed

lemma revoked_keys:
  assumes "licensed_keys sys" "distinct (map ob_id (ct_outbox (sy_db sys)))"
  shows "licensed_keys (process_session_outbox_once now fails n
      (sys\<lparr>sy_db := write_audit a b c d e (enqueue_action u act sid (revoke_logins P t (sy_db sys)))\<rparr>)) \<and>
    ct_licenses (sy_db (process_session_outbox_once now fails n
      (sys\<lparr>sy_db := write_audit a b c d e (enqueue_action u act sid (revoke_logins P t (sy_db sys)))\<rparr>))) = ct_licenses (sy_db sys)"
proof -
  let ?db = "write_audit a b c d e (enqueue_action u act sid (revoke_logins P t (sy_db sys)))"
  have "keeps_license v (sy_db sys) ?db" for v
    by (rule keeps_same) (rule audit_enqueue_tables)+
  then have "licensed_keys (sys\<lparr>sy_db := ?db\<rparr>)"
    using assms(1) entry_keeps by (simp add: licensed_keys_def) blast
  from process_keys [OF this] audit_enqueue_tables(2,3) assms(2) show ?thesis by simp
qed

lemma refresh_keys:
  assumes "licensed_keys sys" "distinct (map ob_id (ct_outbox (sy_db sys)))"
  shows "licensed_keys (snd (refresh env now fails c body st ajti rjti sys)) \<and>
    ct_licenses (sy_db (snd (refresh env now fails c body st ajti rjti sys))) = ct_licenses (sy_db sys)"
proof (cases rule: refresh_cases [of env now fails c body st ajti rjti sys])
  case refused
  with assms(1) show ?thesis by simp
next
  case (rotates claims v x)
  obtain access replacement where itp: "issue_token_pair env now v (tk_sid claims) ajti rjti = (access, replacement)" by fastforce
  show ?thesis
  proof (cases "decode_token env now replacement ''refresh''")
    case None
    with rotates(4) assms(1) show ?thesis by (simp add: refresh_rotate_def Let_def itp)
  next
    case (Some new_claims)
    obtain b rd where b: "rotate_refresh env now v (trim body) (tk_jti claims) (tk_sid claims)
      (refresh_state env replacement rjti (tk_sid claims) (tk_exp new_claims)) (sy_redis sys) = (b, rd)" by fastforce
    have k: "licensed_keys (sys\<lparr>sy_redis := rd\<rparr>)"
      using assms(1) entry_same_terms [OF _ same_terms_rotate [OF b]] by (simp add: licensed_keys_def)
    have audit: "licensed_entry u (write_audit v a e f g (sy_db sys)) x = licensed_entry u (sy_db sys) x" for u a e f g x
      by (rule entry_tables) simp_all
    show ?thesis
    proof (cases b)
      case True
      with rotates(4) Some b k audit show ?thesis
        by (simp add: refresh_rotate_def Let_def itp licensed_keys_def)
    next
      case False
      with rotates(4) Some b k revoked_keys [OF k] assms(2) show ?thesis
        by (simp add: refresh_rotate_def Let_def itp refresh_replayed_def)
    qed
  qed
qed

lemma logout_keys:
  assumes "licensed_keys sys" "distinct (map ob_id (ct_outbox (sy_db sys)))"
  shows "licensed_keys (logout now fails user token sys) \<and> ct_licenses (sy_db (logout now fails user token sys)) = ct_licenses (sy_db sys)"
  unfolding logout_def Let_def by (rule revoked_keys [OF assms])

lemma keeps_update:
  assumes "distinct (map li_id (ct_licenses db))" "license_target i db = Inr (l, t)"
    "db' = write_audit a b c d e (enqueue_action (li_user l) act [] db1)"
    "ct_licenses db1 = table_update (\<lambda>x. li_id x = i) f (ct_licenses db)" "ct_outbox db1 = ct_outbox db"
  shows "keeps_license u db db'"
proof (cases "u = li_user l")
  case True
  then show ?thesis by (auto simp: assms(3) keeps_license_def settling_def settles_def)
next
  case False
  have l: "l \<in> set (ct_licenses db)" "li_id l = i" using license_target_Inr [OF assms(2)] by simp_all
  have "x \<in> set (ct_licenses db')" if x: "x \<in> set (ct_licenses db)" "li_user x = u" for x
  proof -
    have "li_id x \<noteq> i" using same_key [OF assms(1) x(1) l(1)] x(2) False l(2) by auto
    with x(1) show ?thesis by (auto simp: assms(3,4) enqueue_action_def in_table_update intro!: bexI [of _ x])
  qed
  moreover have "set (ct_outbox db) \<subseteq> set (ct_outbox db')" by (auto simp: assms(3,5))
  ultimately show ?thesis by (simp add: keeps_license_def)
qed

lemma admin_keeps:
  assumes "admin_handler hash key actor now new_id call db = Inr db'" "distinct (map li_id (ct_licenses db))"
  shows "keeps_license u db db'"
proof (cases call)
  case (UpdateLicense i p)
  then obtain a b c d e l t g where t: "license_target i db = Inr (l, t)"
    "db' = write_audit a b c d e (enqueue_action (li_user l) Reconcile [] (update_licenses i g db))"
    using assms(1) by (auto simp: no_reply_Inr update_license_def bindE_eq_Inr Let_def split: if_splits)
  show ?thesis by (rule keeps_update [OF assms(2) t]) (simp_all add: update_licenses_def)
next
  case (ExpireLicense i)
  then obtain a b c d e l t f g where t: "license_target i db = Inr (l, t)"
    "db' = write_audit a b c d e (enqueue_action (li_user l) Revoke [] (revoke_logins f now (update_licenses i g db)))"
    using assms(1) by (auto simp: no_reply_Inr expire_license_def bindE_eq_Inr Let_def)
  show ?thesis by (rule keeps_update [OF assms(2) t]) (simp_all add: update_licenses_def revoke_logins_def)
next
  case (CreateLicense p)
  then obtain a b c d e v row where
    "db' = write_audit a b c d e (enqueue_action v Reconcile [] (db\<lparr>ct_licenses := ct_licenses db @ [row]\<rparr>))"
    using assms(1) by (auto simp: no_reply_Inr create_license_def bindE_eq_Inr Let_def)
  then show ?thesis by (auto simp: keeps_license_def enqueue_action_def)
next
  case (DeleteUser i)
  then have "db' = write_audit (me_id actor) ''delete'' ''auth.user'' (Some i) (JObj [])
      (enqueue_action i Revoke [] (revoke_logins (\<lambda>l. lo_user l = i) now (update_users i (\<lambda>u. u\<lparr>us_deleted := True, us_active := False\<rparr>) db)))"
    using assms(1) by (auto simp: no_reply_Inr delete_user_def bindE_eq_Inr Let_def)
  then show ?thesis by (auto simp: keeps_license_def enqueue_action_def revoke_logins_def update_users_def)
next
  case (ToggleActive i)
  then consider a b c d e where "db' = write_audit a b c d e (update_users i (\<lambda>u. u\<lparr>us_active := \<not> us_active u\<rparr>) db)"
    | a b c d e where "db' = write_audit a b c d e (enqueue_action i Revoke []
        (revoke_logins (\<lambda>l. lo_user l = i) now (update_users i (\<lambda>u. u\<lparr>us_active := \<not> us_active u\<rparr>) db)))"
    using assms(1) by (auto simp: no_reply_Inr toggle_active_def bindE_eq_Inr Let_def split: if_splits)
  then show ?thesis by cases (auto simp: keeps_license_def enqueue_action_def revoke_logins_def update_users_def)
next
  case (CreateUser p)
  then show ?thesis using assms(1) by (auto simp: no_reply_Inr create_user_def bindE_eq_Inr Let_def intro!: keeps_same)
next
  case (UpdateUser i p)
  then show ?thesis using assms(1)
    by (auto simp: no_reply_Inr update_user_def bindE_eq_Inr update_users_def split: if_splits intro!: keeps_same)
next
  case (GrantPermission i p)
  then show ?thesis using assms(1) by (auto simp: no_reply_Inr grant_permission_def bindE_eq_Inr Let_def intro!: keeps_same)
next
  case (RevokePermission i q)
  then show ?thesis using assms(1) by (auto simp: no_reply_Inr revoke_permission_def bindE_eq_Inr intro!: keeps_same)
qed

lemma license_ids_step:
  assumes "admin_change actor now new_id call db db'" "distinct (map li_id (ct_licenses db))"
  shows "distinct (map li_id (ct_licenses db'))"
  using assms by (cases call) (auto simp: admin_change_def map_table_update apply_license_update_def)

subsection \<open>Every reachable state\<close>

definition keys_inv :: "central_sys \<Rightarrow> bool" where
  "keys_inv sys \<longleftrightarrow> licensed_keys sys \<and> distinct (map li_id (ct_licenses (sy_db sys)))"

lemma step_keeps_keys:
  assumes "central_step env sys sys'" "central_inv sys" "keys_inv sys"
  shows "keys_inv sys'"
proof -
  have k: "licensed_keys sys" "distinct (map li_id (ct_licenses (sy_db sys)))" "distinct (map ob_id (ct_outbox (sy_db sys)))"
    using assms(2,3) by (simp_all add: keys_inv_def central_inv_def)
  from assms(1) show ?thesis
  proof cases
    case (step_admin hash key actor now new_id call db')
    have h: "admin_handler hash key actor now new_id call (sy_db sys) = Inr db'"
      using step_admin(2) by (auto simp: admin_request_def bindE_eq_Inr)
    have "licensed_keys sys'"
      unfolding licensed_keys_def step_admin(1)
    proof
      fix u
      have "licensed_entry u (sy_db sys) (rd_session (sy_redis sys) u)" using k(1) by (simp add: licensed_keys_def)
      from entry_keeps [OF this admin_keeps [OF h k(2)]]
      show "licensed_entry u (sy_db (sys\<lparr>sy_db := db'\<rparr>)) (rd_session (sy_redis (sys\<lparr>sy_db := db'\<rparr>)) u)" by simp
    qed
    moreover have "distinct (map li_id (ct_licenses db'))"
      using admin_request_change [OF step_admin(2)] k(2) license_ids_step by blast
    ultimately show ?thesis by (simp add: keys_inv_def step_admin(1))
  qed (use k login_keys login_tables refresh_keys logout_keys process_keys in \<open>auto simp: keys_inv_def\<close>)
qed

lemma reach_keeps_keys: "central_reach env sys sys' \<Longrightarrow> central_inv sys \<Longrightarrow> keys_inv sys \<Longrightarrow> keys_inv sys'"
proof (induction rule: central_reach.induct)
  case (reach_step sys sys1 sys2)
  then show ?case using step_keeps_keys reach_keeps_inv by blast
qed simp



end
