(* ===== verification/Central_Cameras.thy ===== *)
theory Central_Cameras
  imports Central_Admin
begin

section \<open>Cameras, synchronization and analytics of the central service\<close>

text \<open>
  \<open>routers/cameras.py\<close>, \<open>routers/sync.py\<close>, \<open>routers/analytics.py\<close>, the upserts and the connection
  manager of \<open>services/sync_service.py\<close> and the message store of \<open>routers/websockets.py\<close>, with the
  schemas of \<open>schemas/camera.py\<close> and \<open>schemas/analytics.py\<close>. A stream URL is represented by its plain
  value. Inputs that the JSON decoder has typed are records; the UUID parser and the identities and
  times the database draws are arguments.
\<close>

subsection \<open>Cameras\<close>

record central_camera_create =
  kc_id :: ident
  kc_name :: string
  kc_url :: string
  kc_stream_type :: string
  kc_location :: "string option"
  kc_config :: json
  kc_zones :: "json list"

definition stream_type_ok :: "string \<Rightarrow> http_error + unit" where
  "stream_type_ok t = guardE (t \<in> {''rtsp'', ''webcam'', ''nvr''}) (HttpError 422 ''stream_type'')"

definition check_camera_create :: "central_camera_create \<Rightarrow> http_error + central_camera_create" where
  "check_camera_create p =
     bindE (text_field ''name'' 1 255 (kc_name p)) (\<lambda>name.
     bindE (text_field ''stream_url'' 1 4096 (kc_url p)) (\<lambda>url.
     bindE (stream_type_ok (kc_stream_type p)) (\<lambda>_.
     bindE (optional_text ''location_label'' 255 (kc_location p)) (\<lambda>location.
     bindE (guardE (is_dict (kc_config p)) (HttpError 422 ''analytics_config'')) (\<lambda>_.
     bindE (guardE (list_all is_dict (kc_zones p)) (HttpError 422 ''zones'')) (\<lambda>_.
     Inr (p\<lparr>kc_name := name, kc_url := url, kc_location := location\<rparr>)))))))"

definition find_camera :: "ident \<Rightarrow> central_db \<Rightarrow> central_camera option" where
  "find_camera i db = List.find (\<lambda>c. vc_id c = i) (ct_cameras db)"

definition camera_create_matches :: "central_camera \<Rightarrow> central_camera_create \<Rightarrow> bool" where
  "camera_create_matches row p \<longleftrightarrow>
     vc_name row = kc_name p \<and> vc_url row = kc_url p \<and> vc_stream_type row = kc_stream_type p \<and>
     vc_location row = kc_location p \<and> vc_config row = kc_config p \<and> vc_zones row = JList (kc_zones p)"

definition camera_count :: "ident \<Rightarrow> central_db \<Rightarrow> nat" where
  "camera_count u db = length (filter (\<lambda>c. vc_user c = u) (ct_cameras db))"

definition create_camera :: "current_user \<Rightarrow> time \<Rightarrow> central_camera_create \<Rightarrow> central_camera handler" where
  "create_camera user now payload db =
     bindE (check_camera_create payload) (\<lambda>p.
     bindE (authorize user ''cameras'' ''create'' (Some (me_id user)) None) (\<lambda>_.
     (case find_camera (kc_id p) db of
        Some row \<Rightarrow>
          bindE (guardE (\<not> (vc_user row \<noteq> me_id user \<or> \<not> camera_create_matches row p))
                   (HttpError 409 ''Camera ID is already in use'')) (\<lambda>_. Inr (row, db))
      | None \<Rightarrow>
          (case current_license now (me_id user) db of
             None \<Rightarrow> Inl (HttpError 403 ''No active license'')
           | Some l \<Rightarrow>
               bindE (guardE (\<not> int (camera_count (me_id user) db) \<ge> li_max_cameras l)
                        (HttpError 409 ''License camera limit reached'')) (\<lambda>_.
               (let row = \<lparr>vc_id = kc_id p, vc_user = me_id user, vc_name = kc_name p, vc_url = kc_url p,
                           vc_stream_type = kc_stream_type p, vc_location = kc_location p, vc_config = kc_config p,
                           vc_zones = JList (kc_zones p), vc_active = True, vc_created = now\<rparr>
                in Inr (row, write_audit (me_id user) ''create'' ''va.camera'' (Some (kc_id p)) (JObj [])
                               (db\<lparr>ct_cameras := ct_cameras db @ [row]\<rparr>))))))))"

text \<open>The scope of a listing: the permission's \<open>allowed_resource_ids\<close>, where it has any.\<close>

definition listed_ids :: "permission_row option \<Rightarrow> http_error + string list option" where
  "listed_ids permission =
     (case permission of None \<Rightarrow> Inr None
      | Some p \<Rightarrow> (case jget (pm_constraints p) ''allowed_resource_ids'' of
                     None \<Rightarrow> Inr None | Some JNull \<Rightarrow> Inr None
                   | Some v \<Rightarrow> bindE (allowed_ids v) (\<lambda>ids. Inr (Some ids))))"

definition list_cameras ::
  "current_user \<Rightarrow> nat \<Rightarrow> nat \<Rightarrow> central_db \<Rightarrow> http_error + central_camera list \<times> nat" where
  "list_cameras user page n db =
     bindE (authorize user ''cameras'' ''read'' (Some (me_id user)) None) (\<lambda>permission.
     bindE (listed_ids permission) (\<lambda>ids.
     (let rows = filter (\<lambda>c. vc_user c = me_id user \<and>
                            (case ids of None \<Rightarrow> True | Some is \<Rightarrow> vc_id c \<in> set is)) (ct_cameras db)
      in Inr (page_of vc_created page n rows, length rows))))"

definition owned_camera :: "ident \<Rightarrow> ident \<Rightarrow> central_db \<Rightarrow> central_camera option" where
  "owned_camera u i db = List.find (\<lambda>c. vc_id c = i \<and> vc_user c = u) (ct_cameras db)"

definition get_camera :: "current_user \<Rightarrow> ident \<Rightarrow> central_db \<Rightarrow> http_error + central_camera" where
  "get_camera user i db =
     (case owned_camera (me_id user) i db of
        None \<Rightarrow> Inl (HttpError 404 ''Camera not found'')
      | Some row \<Rightarrow> bindE (authorize user ''cameras'' ''read'' (Some (vc_user row)) (Some i)) (\<lambda>_. Inr row))"

record central_camera_update =
  ku_name :: "string option"
  ku_url :: "string option"
  ku_stream_type :: "string option"
  ku_location :: "string option option"
  ku_active :: "bool option"

definition check_camera_update :: "central_camera_update \<Rightarrow> http_error + central_camera_update" where
  "check_camera_update p =
     bindE (opt_field (text_field ''name'' 1 255) (ku_name p)) (\<lambda>name.
     bindE (opt_field (text_field ''stream_url'' 1 4096) (ku_url p)) (\<lambda>url.
     bindE (opt_field (\<lambda>t. bindE (stream_type_ok t) (\<lambda>_. Inr t)) (ku_stream_type p)) (\<lambda>stream_type.
     bindE (opt_field (optional_text ''location_label'' 255) (ku_location p)) (\<lambda>location.
     Inr \<lparr>ku_name = name, ku_url = url, ku_stream_type = stream_type, ku_location = location, ku_active = ku_active p\<rparr>))))"

text \<open>The new URL is written under the key \<open>stream_url_encrypted\<close>, which comes last.\<close>

definition camera_fields :: "central_camera_update \<Rightarrow> (string \<times> bool) list" where
  "camera_fields p = [(''name'', ku_name p \<noteq> None), (''stream_type'', ku_stream_type p \<noteq> None),
     (''location_label'', ku_location p \<noteq> None), (''is_active'', ku_active p \<noteq> None),
     (''stream_url_encrypted'', ku_url p \<noteq> None)]"

definition apply_camera_update :: "central_camera_update \<Rightarrow> central_camera \<Rightarrow> central_camera" where
  "apply_camera_update p c =
     c\<lparr>vc_name := updated (ku_name p) (vc_name c), vc_url := updated (ku_url p) (vc_url c),
       vc_stream_type := updated (ku_stream_type p) (vc_stream_type c),
       vc_location := updated (ku_location p) (vc_location c), vc_active := updated (ku_active p) (vc_active c)\<rparr>"

definition update_cameras ::
  "ident \<Rightarrow> ident \<Rightarrow> (central_camera \<Rightarrow> central_camera) \<Rightarrow> central_db \<Rightarrow> central_db" where
  "update_cameras u i f db = db\<lparr>ct_cameras := table_update (\<lambda>c. vc_id c = i \<and> vc_user c = u) f (ct_cameras db)\<rparr>"

definition update_camera :: "current_user \<Rightarrow> ident \<Rightarrow> central_camera_update \<Rightarrow> central_camera handler" where
  "update_camera user i payload db =
     bindE (check_camera_update payload) (\<lambda>p.
     bindE (authorize user ''cameras'' ''update'' (Some (me_id user)) (Some i)) (\<lambda>_.
     bindE (guardE (list_ex snd (camera_fields p)) (HttpError 400 ''At least one field is required'')) (\<lambda>_.
     (case owned_camera (me_id user) i db of
        None \<Rightarrow> Inl (HttpError 404 ''Camera not found'')
      | Some c \<Rightarrow> Inr (apply_camera_update p c,
          write_audit (me_id user) ''update'' ''va.camera'' (Some i) (fields_of (camera_fields p))
            (update_cameras (me_id user) i (apply_camera_update p) db))))))"

text \<open>Events and alerts keep a foreign key to their camera.\<close>

definition camera_referenced :: "ident \<Rightarrow> central_db \<Rightarrow> bool" where
  "camera_referenced i db \<longleftrightarrow>
     list_ex (\<lambda>e. ve_camera e = i) (ct_events db) \<or> list_ex (\<lambda>a. ca_camera a = i) (ct_alerts db)"

definition delete_camera :: "current_user \<Rightarrow> ident \<Rightarrow> unit handler" where
  "delete_camera user i db =
     bindE (authorize user ''cameras'' ''delete'' (Some (me_id user)) (Some i)) (\<lambda>_.
     (case owned_camera (me_id user) i db of
        None \<Rightarrow> Inl (HttpError 404 ''Camera not found'')
      | Some c \<Rightarrow>
          bindE (guardE (\<not> camera_referenced i db)
                   (HttpError 409 ''Camera has analytics history and cannot be deleted'')) (\<lambda>_.
          Inr ((), write_audit (me_id user) ''delete'' ''va.camera'' (Some i) (JObj [])
                     (db\<lparr>ct_cameras := filter (\<lambda>c. \<not> (vc_id c = i \<and> vc_user c = me_id user)) (ct_cameras db)\<rparr>)))))"

definition update_analytics_config :: "current_user \<Rightarrow> ident \<Rightarrow> json \<Rightarrow> json list \<Rightarrow> central_camera handler" where
  "update_analytics_config user i config zones db =
     bindE (guardE (is_dict config) (HttpError 422 ''analytics_config'')) (\<lambda>_.
     bindE (guardE (list_all is_dict zones) (HttpError 422 ''zones'')) (\<lambda>_.
     bindE (authorize user ''cameras'' ''configure'' (Some (me_id user)) (Some i)) (\<lambda>_.
     (let configure = (\<lambda>c. c\<lparr>vc_config := config, vc_zones := JList zones\<rparr>)
      in case owned_camera (me_id user) i db of
           None \<Rightarrow> Inl (HttpError 404 ''Camera not found'')
         | Some c \<Rightarrow> Inr (configure c,
             write_audit (me_id user) ''configure_analytics'' ''va.camera'' (Some i) (JObj [])
               (update_cameras (me_id user) i configure db))))))"

subsection \<open>Upserts\<close>

record event_in =
  ei_id :: ident
  ei_camera :: ident
  ei_type :: string
  ei_payload :: json
  ei_image :: "ident option"
  ei_created :: time

record alert_in =
  ai_id :: ident
  ai_camera :: ident
  ai_zone :: "string option"
  ai_image :: "ident option"
  ai_confidence :: "real option"
  ai_resolved :: bool
  ai_created :: time

record count_in =
  ci_id :: ident
  ci_camera :: ident
  ci_in :: int
  ci_out :: int
  ci_time :: time

definition check_event_in :: "event_in \<Rightarrow> http_error + event_in" where
  "check_event_in e =
     bindE (text_field ''event_type'' 1 50 (ei_type e)) (\<lambda>t.
     bindE (guardE (is_dict (ei_payload e)) (HttpError 422 ''payload'')) (\<lambda>_. Inr (e\<lparr>ei_type := t\<rparr>)))"

definition check_alert_in :: "alert_in \<Rightarrow> http_error + alert_in" where
  "check_alert_in a =
     bindE (guardE (case ai_confidence a of None \<Rightarrow> True | Some x \<Rightarrow> 0 \<le> x \<and> x \<le> 1) (HttpError 422 ''confidence''))
       (\<lambda>_. Inr (a\<lparr>ai_zone := map_option trim (ai_zone a)\<rparr>))"

definition check_count_in :: "count_in \<Rightarrow> http_error + count_in" where
  "check_count_in c = bindE (guardE (0 \<le> ci_in c \<and> 0 \<le> ci_out c) (HttpError 422 ''count'')) (\<lambda>_. Inr c)"

text \<open>
  \<open>INSERT \<dots> ON CONFLICT(id) DO UPDATE \<dots> WHERE camera_id = EXCLUDED.camera_id RETURNING id\<close>: merge into
  the row with the item's key if it fits, no row when it does not, else a fresh row. A fresh row
  violates the foreign key when its camera does not exist.
\<close>

definition put_row ::
  "('r \<Rightarrow> 'k) \<Rightarrow> ('i \<Rightarrow> 'k) \<Rightarrow> ('i \<Rightarrow> 'r) \<Rightarrow> ('i \<Rightarrow> 'r \<Rightarrow> 'r) \<Rightarrow> ('i \<Rightarrow> 'r \<Rightarrow> bool) \<Rightarrow> 'i \<Rightarrow> 'r list \<Rightarrow> 'r list option" where
  "put_row rid iid fresh merge fits i rows =
     (case List.find (\<lambda>r. rid r = iid i) rows of
        Some r \<Rightarrow> if fits i r then Some (table_update (\<lambda>r. rid r = iid i) (merge i) rows) else None
      | None \<Rightarrow> Some (rows @ [fresh i]))"

definition camera_exists :: "ident \<Rightarrow> central_db \<Rightarrow> bool" where
  "camera_exists i db \<longleftrightarrow> list_ex (\<lambda>c. vc_id c = i) (ct_cameras db)"

definition foreign_key :: "bool \<Rightarrow> ident \<Rightarrow> central_db \<Rightarrow> http_error + unit" where
  "foreign_key present camera db = guardE (present \<or> camera_exists camera db) (HttpError 500 ''Internal server error'')"

definition fresh_event :: "time \<Rightarrow> event_in \<Rightarrow> central_event" where
  "fresh_event now item = \<lparr>ve_id = ei_id item, ve_camera = ei_camera item, ve_type = ei_type item,
     ve_payload = ei_payload item, ve_image = ei_image item, ve_synced = now, ve_created = ei_created item\<rparr>"

definition merge_event :: "time \<Rightarrow> event_in \<Rightarrow> central_event \<Rightarrow> central_event" where
  "merge_event now item e = e\<lparr>ve_payload := ei_payload item, ve_image := ei_image item, ve_synced := now\<rparr>"

definition upsert_event :: "time \<Rightarrow> event_in \<Rightarrow> central_db \<Rightarrow> http_error + central_db" where
  "upsert_event now item db =
     bindE (foreign_key (list_ex (\<lambda>e. ve_id e = ei_id item) (ct_events db)) (ei_camera item) db) (\<lambda>_.
     (case put_row ve_id ei_id (fresh_event now) (merge_event now) (\<lambda>i r. ve_camera r = ei_camera i) item (ct_events db) of
        None \<Rightarrow> Inl (HttpError 409 ''Event ID belongs to another camera'')
      | Some rows \<Rightarrow> Inr (db\<lparr>ct_events := rows\<rparr>)))"

definition fresh_alert :: "alert_in \<Rightarrow> central_alert" where
  "fresh_alert item = \<lparr>ca_id = ai_id item, ca_camera = ai_camera item, ca_zone = ai_zone item,
     ca_image = ai_image item, ca_confidence = ai_confidence item, ca_resolved = ai_resolved item, ca_created = ai_created item\<rparr>"

definition merge_alert :: "alert_in \<Rightarrow> central_alert \<Rightarrow> central_alert" where
  "merge_alert item a = a\<lparr>ca_image := ai_image item, ca_confidence := ai_confidence item,
     ca_resolved := ca_resolved a \<or> ai_resolved item\<rparr>"

definition upsert_alert :: "alert_in \<Rightarrow> central_db \<Rightarrow> http_error + central_db" where
  "upsert_alert item db =
     bindE (foreign_key (list_ex (\<lambda>a. ca_id a = ai_id item) (ct_alerts db)) (ai_camera item) db) (\<lambda>_.
     (case put_row ca_id ai_id fresh_alert merge_alert (\<lambda>i r. ca_camera r = ai_camera i) item (ct_alerts db) of
        None \<Rightarrow> Inl (HttpError 409 ''Alert ID belongs to another camera'')
      | Some rows \<Rightarrow> Inr (db\<lparr>ct_alerts := rows\<rparr>)))"

text \<open>The casts to \<open>int\<close> fail beyond 32 bits.\<close>

definition count_payload :: "int \<Rightarrow> int \<Rightarrow> json" where
  "count_payload i out = JObj [(''count_in'', JInt i), (''count_out'', JInt out)]"

definition fresh_count :: "time \<Rightarrow> count_in \<Rightarrow> central_event" where
  "fresh_count now item = \<lparr>ve_id = ci_id item, ve_camera = ci_camera item, ve_type = ''people_count'',
     ve_payload = count_payload (ci_in item) (ci_out item), ve_image = None, ve_synced = now, ve_created = ci_time item\<rparr>"

definition merge_count :: "time \<Rightarrow> count_in \<Rightarrow> central_event \<Rightarrow> central_event" where
  "merge_count now item e = e\<lparr>ve_payload := count_payload (ci_in item) (ci_out item), ve_synced := now\<rparr>"

definition upsert_people_count :: "time \<Rightarrow> count_in \<Rightarrow> central_db \<Rightarrow> http_error + central_db" where
  "upsert_people_count now item db =
     bindE (guardE (ci_in item < 2147483648 \<and> ci_out item < 2147483648) (HttpError 500 ''Internal server error'')) (\<lambda>_.
     bindE (foreign_key (list_ex (\<lambda>e. ve_id e = ci_id item) (ct_events db)) (ci_camera item) db) (\<lambda>_.
     (case put_row ve_id ci_id (fresh_count now) (merge_count now) (\<lambda>i r. ve_camera r = ci_camera i) item (ct_events db) of
        None \<Rightarrow> Inl (HttpError 409 ''Count ID belongs to another camera'')
      | Some rows \<Rightarrow> Inr (db\<lparr>ct_events := rows\<rparr>))))"

fun upsert_all :: "('i \<Rightarrow> central_db \<Rightarrow> http_error + central_db) \<Rightarrow> 'i list \<Rightarrow> central_db \<Rightarrow> http_error + central_db" where
  "upsert_all f [] db = Inr db"
| "upsert_all f (x # xs) db = bindE (f x db) (upsert_all f xs)"

subsection \<open>Synchronization requests\<close>

definition camera_owned :: "ident \<Rightarrow> central_db \<Rightarrow> ident \<Rightarrow> bool" where
  "camera_owned u db i \<longleftrightarrow> list_ex (\<lambda>c. vc_id c = i \<and> vc_user c = u) (ct_cameras db)"

definition ensure_owned_cameras :: "current_user \<Rightarrow> ident list \<Rightarrow> central_db \<Rightarrow> http_error + unit" where
  "ensure_owned_cameras user ids db =
     guardE (list_all (camera_owned (me_id user) db) ids)
       (HttpError 403 ''One or more cameras are not assigned to this user'')"

definition batch_ok :: "'i list \<Rightarrow> http_error + unit" where
  "batch_ok xs = guardE (1 \<le> length xs \<and> length xs \<le> 500) (HttpError 422 ''batch'')"

definition batch_metadata :: "string \<Rightarrow> ident list \<Rightarrow> json" where
  "batch_metadata batch ids = JObj [(''batch_id'', JStr batch), (''resource_ids'', JList (map JStr ids))]"

definition sync_batch ::
  "('i \<Rightarrow> http_error + 'i) \<Rightarrow> ('i \<Rightarrow> ident) \<Rightarrow> ('i \<Rightarrow> ident) \<Rightarrow> ('i \<Rightarrow> central_db \<Rightarrow> http_error + central_db) \<Rightarrow>
     string \<Rightarrow> string \<Rightarrow> string \<Rightarrow> current_user \<Rightarrow> 'i list \<Rightarrow> nat handler" where
  "sync_batch check item_id item_camera upsert action resource batch user payload db =
     bindE (batch_ok payload) (\<lambda>_.
     bindE (mapE check payload) (\<lambda>items.
     bindE (authorize user ''sync'' ''write'' (Some (me_id user)) None) (\<lambda>_.
     bindE (ensure_owned_cameras user (map item_camera items) db) (\<lambda>_.
     bindE (upsert_all upsert items db) (\<lambda>db1.
     Inr (length items, write_audit (me_id user) action resource None (batch_metadata batch (map item_id items)) db1))))))"

definition sync_events :: "time \<Rightarrow> string \<Rightarrow> current_user \<Rightarrow> event_in list \<Rightarrow> nat handler" where
  "sync_events now = sync_batch check_event_in ei_id ei_camera (upsert_event now) ''sync_events'' ''va.analytics_event''"

definition sync_alerts :: "string \<Rightarrow> current_user \<Rightarrow> alert_in list \<Rightarrow> nat handler" where
  "sync_alerts = sync_batch check_alert_in ai_id ai_camera upsert_alert ''sync_alerts'' ''va.intrusion_alert''"

definition sync_people_count :: "time \<Rightarrow> string \<Rightarrow> current_user \<Rightarrow> count_in list \<Rightarrow> nat handler" where
  "sync_people_count now =
     sync_batch check_count_in ci_id ci_camera (upsert_people_count now) ''sync_people_count'' ''va.analytics_event''"

definition heartbeat_event :: "time \<Rightarrow> time \<Rightarrow> ident \<Rightarrow> ident \<times> string \<Rightarrow> central_event" where
  "heartbeat_event now stamp new_id cs =
     \<lparr>ve_id = new_id, ve_camera = fst cs, ve_type = ''heartbeat'', ve_payload = JObj [(''status'', JStr (snd cs))],
      ve_image = None, ve_synced = now, ve_created = stamp\<rparr>"

fun insert_heartbeats :: "time \<Rightarrow> time \<Rightarrow> ident list \<Rightarrow> (ident \<times> string) list \<Rightarrow> central_db \<Rightarrow> http_error + central_db" where
  "insert_heartbeats now stamp (i # is) (cs # css) db =
     bindE (guardE (list_all (\<lambda>e. ve_id e \<noteq> i) (ct_events db) \<and> camera_exists (fst cs) db)
              (HttpError 500 ''Internal server error'')) (\<lambda>_.
     insert_heartbeats now stamp is css (db\<lparr>ct_events := ct_events db @ [heartbeat_event now stamp i cs]\<rparr>))"
| "insert_heartbeats now stamp is css db = Inr db"

text \<open>The dictionary \<open>{UUID(key): value \<dots>}\<close>: keys that name the same camera collapse.\<close>

fun parse_statuses ::
  "(string \<Rightarrow> ident option) \<Rightarrow> (string \<times> string) list \<Rightarrow> (ident \<times> string) list \<Rightarrow> http_error + (ident \<times> string) list" where
  "parse_statuses uuid [] acc = Inr acc"
| "parse_statuses uuid ((k, v) # rest) acc =
     (case uuid k of None \<Rightarrow> Inl (HttpError 422 ''Camera status keys must be UUIDs'')
      | Some i \<Rightarrow> parse_statuses uuid rest (AList.update i v acc))"

definition heartbeat ::
  "(string \<Rightarrow> ident option) \<Rightarrow> time \<Rightarrow> ident list \<Rightarrow> string \<Rightarrow> current_user \<Rightarrow> time \<Rightarrow> (string \<times> string) list \<Rightarrow> nat handler" where
  "heartbeat uuid now new_ids batch user stamp statuses db =
     bindE (batch_ok statuses) (\<lambda>_.
     bindE (guardE (list_all (\<lambda>s. snd s \<in> {''active'', ''inactive'', ''error''}) statuses) (HttpError 422 ''camera_statuses'')) (\<lambda>_.
     bindE (authorize user ''sync'' ''write'' (Some (me_id user)) None) (\<lambda>_.
     bindE (parse_statuses uuid statuses []) (\<lambda>css.
     bindE (ensure_owned_cameras user (map fst css) db) (\<lambda>_.
     bindE (insert_heartbeats now stamp new_ids css db) (\<lambda>db1.
     Inr (length css, write_audit (me_id user) ''heartbeat'' ''va.camera'' None (batch_metadata batch (map fst css)) db1)))))))"

subsection \<open>Messages of the socket\<close>

datatype ws_message =
    WsEvent event_in
  | WsAlert alert_in
  | WsCount count_in
  | WsHeartbeat time "(string \<times> string) list"
  | WsUnsupported

definition permission_error :: http_error where
  "permission_error = HttpError 403 ''PermissionError''"

fun store_heartbeats ::
  "(string \<Rightarrow> ident option) \<Rightarrow> time \<Rightarrow> ident \<Rightarrow> time \<Rightarrow> ident list \<Rightarrow> (string \<times> string) list \<Rightarrow> central_db \<Rightarrow> http_error + central_db" where
  "store_heartbeats uuid now u stamp (i # is) ((k, v) # rest) db =
     (case uuid k of None \<Rightarrow> Inl (HttpError 422 ''badly formed hexadecimal UUID string'')
      | Some c \<Rightarrow>
          bindE (guardE (camera_owned u db c) permission_error) (\<lambda>_.
          bindE (insert_heartbeats now stamp [i] [(c, v)] db) (store_heartbeats uuid now u stamp is rest)))"
| "store_heartbeats uuid now u stamp is rest db = Inr db"

text \<open>\<open>store_message\<close>; every \<open>Inl\<close> is answered with an error message and rolled back.\<close>

definition store_message ::
  "(string \<Rightarrow> ident option) \<Rightarrow> time \<Rightarrow> ident list \<Rightarrow> current_user \<Rightarrow> ws_message \<Rightarrow> central_db \<Rightarrow> http_error + central_db" where
  "store_message uuid now new_ids user m db =
     (case m of
        WsEvent e \<Rightarrow> bindE (check_event_in e) (\<lambda>item.
          bindE (guardE (camera_owned (me_id user) db (ei_camera item)) permission_error) (\<lambda>_. upsert_event now item db))
      | WsAlert a \<Rightarrow> bindE (check_alert_in a) (\<lambda>item.
          bindE (guardE (camera_owned (me_id user) db (ai_camera item)) permission_error) (\<lambda>_. upsert_alert item db))
      | WsCount c \<Rightarrow> bindE (check_count_in c) (\<lambda>item.
          bindE (guardE (camera_owned (me_id user) db (ci_camera item)) permission_error) (\<lambda>_. upsert_people_count now item db))
      | WsHeartbeat stamp statuses \<Rightarrow>
          bindE (batch_ok statuses) (\<lambda>_.
          bindE (guardE (list_all (\<lambda>s. snd s \<in> {''active'', ''inactive'', ''error''}) statuses) (HttpError 422 ''camera_statuses''))
            (\<lambda>_. store_heartbeats uuid now (me_id user) stamp new_ids statuses db))
      | WsUnsupported \<Rightarrow> Inl (HttpError 422 ''Unsupported message type''))"

text \<open>
  One message of a connection whose session has just been validated: \<open>validate_session\<close> asks for the
  permission to synchronize, and the message is stored with its audit entry in one transaction.
\<close>

fun message_kind :: "ws_message \<Rightarrow> string" where
  "message_kind (WsEvent e) = ''sync_event''"
| "message_kind (WsAlert a) = ''sync_alert''"
| "message_kind (WsCount c) = ''sync_people_count''"
| "message_kind (WsHeartbeat t ss) = ''sync_heartbeat''"
| "message_kind WsUnsupported = []"

fun message_ids :: "ident list \<Rightarrow> ws_message \<Rightarrow> ident option \<times> ident list" where
  "message_ids new_ids (WsEvent e) = (Some (ei_id e), [ei_id e])"
| "message_ids new_ids (WsAlert a) = (Some (ai_id a), [ai_id a])"
| "message_ids new_ids (WsCount c) = (Some (ci_id c), [ci_id c])"
| "message_ids new_ids (WsHeartbeat t ss) = (None, take (length ss) new_ids)"
| "message_ids new_ids WsUnsupported = (None, [])"

definition socket_message ::
  "(string \<Rightarrow> ident option) \<Rightarrow> time \<Rightarrow> ident list \<Rightarrow> current_user \<Rightarrow> ws_message \<Rightarrow> central_db \<Rightarrow> http_error + central_db" where
  "socket_message uuid now new_ids user m db =
     bindE (authorize user ''sync'' ''write'' (Some (me_id user)) None) (\<lambda>_.
     bindE (store_message uuid now new_ids user m db) (\<lambda>db1.
     Inr (write_audit (me_id user) (message_kind m) ''websocket.sync'' (fst (message_ids new_ids m))
            (JObj [(''resource_ids'', JList (map JStr (snd (message_ids new_ids m))))]) db1)))"

subsection \<open>Analytics\<close>

definition in_scope :: "current_user \<Rightarrow> central_db \<Rightarrow> ident \<Rightarrow> bool" where
  "in_scope user db camera \<longleftrightarrow>
     (if me_role user \<in> {Admin, SuperAdmin} then camera_exists camera db else camera_owned (me_id user) db camera)"

definition in_range :: "time option \<Rightarrow> time option \<Rightarrow> time \<Rightarrow> bool" where
  "in_range lo hi t \<longleftrightarrow>
     (case lo of None \<Rightarrow> True | Some a \<Rightarrow> a \<le> t) \<and> (case hi of None \<Rightarrow> True | Some b \<Rightarrow> t \<le> b)"

definition matches_opt :: "'a option \<Rightarrow> 'a \<Rightarrow> bool" where
  "matches_opt x y \<longleftrightarrow> x = None \<or> x = Some y"

definition central_events ::
  "current_user \<Rightarrow> nat \<Rightarrow> nat \<Rightarrow> ident option \<Rightarrow> string option \<Rightarrow> time option \<Rightarrow> time option \<Rightarrow> central_db \<Rightarrow>
     http_error + central_event list \<times> nat" where
  "central_events user page n camera event_type date_from date_to db =
     bindE (authorize user ''analytics'' ''read'' (Some (me_id user)) camera) (\<lambda>_.
     (let rows = filter (\<lambda>e. in_scope user db (ve_camera e) \<and> matches_opt camera (ve_camera e) \<and>
                   matches_opt event_type (ve_type e) \<and> in_range date_from date_to (ve_created e)) (ct_events db)
      in Inr (page_of ve_created page n rows, length rows)))"

definition get_event :: "current_user \<Rightarrow> ident \<Rightarrow> central_db \<Rightarrow> http_error + central_event" where
  "get_event user i db =
     (case List.find (\<lambda>e. in_scope user db (ve_camera e) \<and> ve_id e = i) (ct_events db) of
        None \<Rightarrow> Inl (HttpError 404 ''Analytics event not found'')
      | Some e \<Rightarrow> bindE (authorize user ''analytics'' ''read'' (Some (me_id user)) (Some (ve_camera e))) (\<lambda>_. Inr e))"

definition list_alerts ::
  "current_user \<Rightarrow> nat \<Rightarrow> nat \<Rightarrow> ident option \<Rightarrow> bool option \<Rightarrow> central_db \<Rightarrow> http_error + central_alert list \<times> nat" where
  "list_alerts user page n camera resolved db =
     bindE (authorize user ''analytics'' ''read'' (Some (me_id user)) camera) (\<lambda>_.
     (let rows = filter (\<lambda>a. in_scope user db (ca_camera a) \<and> matches_opt camera (ca_camera a) \<and>
                   matches_opt resolved (ca_resolved a)) (ct_alerts db)
      in Inr (page_of ca_created page n rows, length rows)))"

definition resolve_alert :: "current_user \<Rightarrow> ident \<Rightarrow> central_alert handler" where
  "resolve_alert user i db =
     (case List.find (\<lambda>a. in_scope user db (ca_camera a) \<and> ca_id a = i) (ct_alerts db) of
        None \<Rightarrow> Inl (HttpError 404 ''Alert not found'')
      | Some a \<Rightarrow>
          bindE (authorize user ''analytics'' ''resolve'' (Some (me_id user)) (Some (ca_camera a))) (\<lambda>_.
          Inr (a\<lparr>ca_resolved := True\<rparr>, write_audit (me_id user) ''resolve'' ''va.intrusion_alert'' (Some i) (JObj [])
                 (db\<lparr>ct_alerts := table_update (\<lambda>a. in_scope user db (ca_camera a) \<and> ca_id a = i)
                        (\<lambda>a. a\<lparr>ca_resolved := True\<rparr>) (ct_alerts db)\<rparr>))))"

definition dashboard :: "current_user \<Rightarrow> time \<Rightarrow> central_db \<Rightarrow> http_error + nat \<times> nat \<times> nat \<times> nat" where
  "dashboard user now db =
     bindE (authorize user ''analytics'' ''read'' (Some (me_id user)) None) (\<lambda>_.
     (let start = now - now mod 86400000000
      in Inr (length (ct_persons db),
              length (filter (\<lambda>p. case pr_entry_time p of None \<Rightarrow> False | Some t \<Rightarrow> start \<le> t) (ct_persons db)),
              length (filter (\<lambda>c. in_scope user db (vc_id c) \<and> vc_active c) (ct_cameras db)),
              length (filter (\<lambda>a. in_scope user db (ca_camera a) \<and> \<not> ca_resolved a) (ct_alerts db)))))"

text \<open>
  \<open>(payload->>'count_in')::int\<close>: \<open>NULL\<close> for a missing or null value; a text that is no integer, a
  fraction, a Boolean or a structure fails the cast. The conversion of a text is an argument.
\<close>

definition payload_int :: "(string \<Rightarrow> int option) \<Rightarrow> json \<Rightarrow> string \<Rightarrow> http_error + int option" where
  "payload_int int_of payload key =
     (case jget payload key of
        None \<Rightarrow> Inr None
      | Some JNull \<Rightarrow> Inr None
      | Some (JInt i) \<Rightarrow> if - 2147483648 \<le> i \<and> i < 2147483648 then Inr (Some i) else Inl (HttpError 500 ''Internal server error'')
      | Some (JStr s) \<Rightarrow>
          (case int_of s of
             Some i \<Rightarrow> if - 2147483648 \<le> i \<and> i < 2147483648 then Inr (Some i) else Inl (HttpError 500 ''Internal server error'')
           | None \<Rightarrow> Inl (HttpError 500 ''Internal server error''))
      | Some _ \<Rightarrow> Inl (HttpError 500 ''Internal server error''))"

definition people_count ::
  "(string \<Rightarrow> int option) \<Rightarrow> current_user \<Rightarrow> ident option \<Rightarrow> time option \<Rightarrow> time option \<Rightarrow> central_db \<Rightarrow>
     http_error + (central_event \<times> int option \<times> int option) list" where
  "people_count int_of user camera date_from date_to db =
     bindE (authorize user ''analytics'' ''read'' (Some (me_id user)) camera) (\<lambda>_.
     mapE (\<lambda>e. bindE (payload_int int_of (ve_payload e) ''count_in'') (\<lambda>i.
               bindE (payload_int int_of (ve_payload e) ''count_out'') (\<lambda>out. Inr (e, i, out))))
       (sort_key ve_created (filter (\<lambda>e. in_scope user db (ve_camera e) \<and> ve_type e = ''people_count'' \<and>
          matches_opt camera (ve_camera e) \<and> in_range date_from date_to (ve_created e)) (ct_events db))))"

subsection \<open>The dispatcher\<close>

datatype camera_call =
    CreateCamera central_camera_create
  | UpdateCamera ident central_camera_update
  | DeleteCamera ident
  | ConfigureCamera ident json "json list"
  | SyncEvents string "event_in list"
  | SyncAlerts string "alert_in list"
  | SyncCounts string "count_in list"
  | Heartbeat string time "(string \<times> string) list"
  | SocketMessage ws_message
  | ResolveAlert ident

fun camera_request ::
  "(string \<Rightarrow> ident option) \<Rightarrow> time \<Rightarrow> ident list \<Rightarrow> current_user \<Rightarrow> camera_call \<Rightarrow> central_db \<Rightarrow> http_error + central_db" where
  "camera_request uuid now new_ids user (CreateCamera p) db = no_reply (create_camera user now p db)"
| "camera_request uuid now new_ids user (UpdateCamera i p) db = no_reply (update_camera user i p db)"
| "camera_request uuid now new_ids user (DeleteCamera i) db = no_reply (delete_camera user i db)"
| "camera_request uuid now new_ids user (ConfigureCamera i c zs) db = no_reply (update_analytics_config user i c zs db)"
| "camera_request uuid now new_ids user (SyncEvents batch es) db = no_reply (sync_events now batch user es db)"
| "camera_request uuid now new_ids user (SyncAlerts batch xs) db = no_reply (sync_alerts batch user xs db)"
| "camera_request uuid now new_ids user (SyncCounts batch cs) db = no_reply (sync_people_count now batch user cs db)"
| "camera_request uuid now new_ids user (Heartbeat batch stamp ss) db = no_reply (heartbeat uuid now new_ids batch user stamp ss db)"
| "camera_request uuid now new_ids user (SocketMessage m) db = socket_message uuid now new_ids user m db"
| "camera_request uuid now new_ids user (ResolveAlert i) db = no_reply (resolve_alert user i db)"

end
