(* ===== verification/Central_Camera_Props.thy ===== *)
theory Central_Camera_Props
  imports Central_Cameras Central_Admin_Props
begin

section \<open>Properties of cameras and synchronization\<close>

text \<open>
  The foreign keys of events and alerts hold, a user never changes the rows of another user's
  cameras, a resolved alert stays resolved, the licence bounds the number of cameras, and a
  redelivered batch changes nothing: the upserts of the two tables are instances of one locale.
\<close>

subsection \<open>Redelivery\<close>

text \<open>
  An upsert on a table: merge into the row with the item's key if it is compatible, else add a
  fresh row. The locale names what makes it harmless to apply an item twice, up to a view of the
  rows that hides the time of the last write.
\<close>

fun put_rows :: "('i \<Rightarrow> 'r list \<Rightarrow> 'r list option) \<Rightarrow> 'i list \<Rightarrow> 'r list \<Rightarrow> 'r list option" where
  "put_rows put [] rows = Some rows"
| "put_rows put (i # is) rows = (case put i rows of None \<Rightarrow> None | Some rows' \<Rightarrow> put_rows put is rows')"

locale upsert =
  fixes rid :: "'r \<Rightarrow> 'k" and iid :: "'i \<Rightarrow> 'k" and fresh :: "'i \<Rightarrow> 'r" and merge :: "'i \<Rightarrow> 'r \<Rightarrow> 'r"
    and fits :: "'i \<Rightarrow> 'r \<Rightarrow> bool" and view :: "'r \<Rightarrow> 'v"
  assumes rid_fresh: "rid (fresh i) = iid i"
    and rid_merge: "rid (merge i r) = rid r"
    and fits_fresh: "fits i (fresh i)"
    and fits_merge: "fits i r \<Longrightarrow> fits i (merge i r)"
    and view_fresh: "view (merge i (fresh i)) = view (fresh i)"
    and view_merge: "view (merge i (merge i r)) = view (merge i r)"
begin

abbreviation put :: "'i \<Rightarrow> 'r list \<Rightarrow> 'r list option" where
  "put \<equiv> put_row rid iid fresh merge fits"

definition delivered :: "'i \<Rightarrow> 'r list \<Rightarrow> bool" where
  "delivered i rows \<longleftrightarrow> (\<exists>r. r \<in> set rows \<and> rid r = iid i \<and> fits i r \<and> view (merge i r) = view r)"

lemma put_distinct:
  assumes "put i rows = Some rows'" "distinct (map rid rows)"
  shows "distinct (map rid rows')"
proof (cases "List.find (\<lambda>r. rid r = iid i) rows")
  case None
  then have "iid i \<notin> rid ` set rows" by (auto simp: find_None_iff)
  moreover have "rows' = rows @ [fresh i]" using None assms(1) by (simp add: put_row_def)
  ultimately show ?thesis using assms(2) by (simp add: rid_fresh)
next
  case (Some r)
  then have "rows' = table_update (\<lambda>r. rid r = iid i) (merge i) rows" using assms(1) by (simp add: put_row_def split: if_splits)
  then show ?thesis using assms(2) by (simp add: map_table_update rid_merge)
qed

lemma put_delivers:
  assumes "put i rows = Some rows'"
  shows "delivered i rows'"
proof (cases "List.find (\<lambda>r. rid r = iid i) rows")
  case None
  then have "rows' = rows @ [fresh i]" using assms by (simp add: put_row_def)
  then show ?thesis by (auto simp: delivered_def rid_fresh fits_fresh view_fresh)
next
  case (Some r)
  then have r: "r \<in> set rows" "rid r = iid i" by (auto simp: find_Some_iff)
  from Some assms have "fits i r" "rows' = table_update (\<lambda>r. rid r = iid i) (merge i) rows"
    by (simp_all add: put_row_def split: if_splits)
  moreover from this r have "merge i r \<in> set rows'" by (auto simp: in_table_update)
  ultimately show ?thesis using r(2) by (auto simp: delivered_def rid_merge fits_merge view_merge)
qed

lemma put_keeps:
  assumes "put j rows = Some rows'" "delivered i rows" "iid i \<noteq> iid j"
  shows "delivered i rows'"
proof -
  obtain r where r: "r \<in> set rows" "rid r = iid i" "fits i r" "view (merge i r) = view r"
    using assms(2) by (auto simp: delivered_def)
  then have "r \<in> set rows'"
    using assms(1,3) by (force simp: put_row_def in_table_update split: option.splits if_splits)
  with r show ?thesis by (auto simp: delivered_def)
qed

lemma put_again:
  assumes "delivered i rows" "distinct (map rid rows)"
  shows "\<exists>rows'. put i rows = Some rows' \<and> map view rows' = map view rows"
proof -
  obtain r where r: "r \<in> set rows" "rid r = iid i" "fits i r" "view (merge i r) = view r"
    using assms(1) by (auto simp: delivered_def)
  have only: "k = r" if "k \<in> set rows" "rid k = iid i" for k
    using same_key [OF assms(2) that(1) r(1)] that(2) r(2) by simp
  have "List.find (\<lambda>k. rid k = iid i) rows = Some r"
  proof (cases "List.find (\<lambda>k. rid k = iid i) rows")
    case None
    then show ?thesis using r(1,2) by (auto simp: find_None_iff)
  next
    case (Some k)
    then have "k \<in> set rows" "rid k = iid i" by (auto simp: find_Some_iff)
    then show ?thesis using only Some by simp
  qed
  moreover have "map view (table_update (\<lambda>k. rid k = iid i) (merge i) rows) = map view rows"
    unfolding table_update_def by (auto dest!: only simp: r(4))
  ultimately show ?thesis using r(3) by (simp add: put_row_def)
qed

lemma put_rows_distinct:
  "put_rows put is rows = Some rows' \<Longrightarrow> distinct (map rid rows) \<Longrightarrow> distinct (map rid rows')"
  by (induction "is" arbitrary: rows) (auto dest: put_distinct split: option.splits)

lemma put_rows_keeps:
  "put_rows put is rows = Some rows' \<Longrightarrow> delivered i rows \<Longrightarrow> iid i \<notin> iid ` set is \<Longrightarrow> delivered i rows'"
  by (induction "is" arbitrary: rows) (auto dest: put_keeps split: option.splits)

lemma put_rows_delivers:
  "put_rows put is rows = Some rows' \<Longrightarrow> distinct (map iid is) \<Longrightarrow> i \<in> set is \<Longrightarrow> delivered i rows'"
  by (induction "is" arbitrary: rows) (auto dest: put_delivers put_rows_keeps split: option.splits)

lemma put_rows_again:
  assumes "\<And>i. i \<in> set is \<Longrightarrow> delivered i rows" "distinct (map rid rows)" "distinct (map iid is)"
  shows "\<exists>rows'. put_rows put is rows = Some rows' \<and> map view rows' = map view rows"
  using assms
proof (induction "is" arbitrary: rows)
  case Nil
  then show ?case by simp
next
  case (Cons j js)
  obtain rows1 where r1: "put j rows = Some rows1" "map view rows1 = map view rows"
    using put_again [of j rows] Cons.prems by auto
  have d: "delivered i rows1" if "i \<in> set js" for i
  proof (rule put_keeps [OF r1(1)])
    show "delivered i rows" using Cons.prems(1) that by simp
    show "iid i \<noteq> iid j" using Cons.prems(3) imageI [OF that, of iid] by auto
  qed
  obtain rows2 where "put_rows put js rows1 = Some rows2" "map view rows2 = map view rows1"
    using Cons.IH [OF d put_distinct [OF r1(1) Cons.prems(2)]] Cons.prems(3) by auto
  with r1 show ?case by simp
qed

text \<open>A batch of distinct items, delivered a second time, is accepted and changes no row.\<close>

lemma batch_again:
  assumes "put_rows put is rows = Some rows1" "distinct (map rid rows)" "distinct (map iid is)"
  shows "\<exists>rows2. put_rows put is rows1 = Some rows2 \<and> map view rows2 = map view rows1"
  using put_rows_again [of "is" rows1] put_rows_delivers [OF assms(1,3)] put_rows_distinct [OF assms(1,2)] assms(3) by blast

end

definition unsynced :: "central_event \<Rightarrow> central_event" where
  "unsynced e = e\<lparr>ve_synced := 0\<rparr>"

interpretation events: upsert ve_id ei_id "fresh_event now" "merge_event now" "\<lambda>i r. ve_camera r = ei_camera i" unsynced
  for now
  by unfold_locales (simp_all add: fresh_event_def merge_event_def unsynced_def)

interpretation alerts: upsert ca_id ai_id fresh_alert merge_alert "\<lambda>i r. ca_camera r = ai_camera i" id
  by unfold_locales (simp_all add: fresh_alert_def merge_alert_def)

interpretation counts: upsert ve_id ci_id "fresh_count now" "merge_count now" "\<lambda>i r. ve_camera r = ci_camera i" unsynced
  for now
  by unfold_locales (simp_all add: fresh_count_def merge_count_def unsynced_def)

lemma upsert_event_Inr:
  "upsert_event now i db = Inr db' \<longleftrightarrow>
     (list_ex (\<lambda>e. ve_id e = ei_id i) (ct_events db) \<or> camera_exists (ei_camera i) db) \<and>
     (\<exists>rows. events.put now i (ct_events db) = Some rows \<and> db' = db\<lparr>ct_events := rows\<rparr>)"
  by (auto simp: upsert_event_def foreign_key_def bindE_eq_Inr split: option.splits)

lemma upsert_alert_Inr:
  "upsert_alert i db = Inr db' \<longleftrightarrow>
     (list_ex (\<lambda>a. ca_id a = ai_id i) (ct_alerts db) \<or> camera_exists (ai_camera i) db) \<and>
     (\<exists>rows. alerts.put i (ct_alerts db) = Some rows \<and> db' = db\<lparr>ct_alerts := rows\<rparr>)"
  by (auto simp: upsert_alert_def foreign_key_def bindE_eq_Inr split: option.splits)

lemma upsert_count_Inr:
  "upsert_people_count now i db = Inr db' \<longleftrightarrow> ci_in i < 2147483648 \<and> ci_out i < 2147483648 \<and>
     (list_ex (\<lambda>e. ve_id e = ci_id i) (ct_events db) \<or> camera_exists (ci_camera i) db) \<and>
     (\<exists>rows. counts.put now i (ct_events db) = Some rows \<and> db' = db\<lparr>ct_events := rows\<rparr>)"
  by (auto simp: upsert_people_count_def foreign_key_def bindE_eq_Inr split: option.splits)


subsection \<open>The tables of cameras, events and alerts\<close>

text \<open>Primary keys, and the foreign keys of events and alerts to cameras.\<close>

definition store_ok :: "central_db \<Rightarrow> bool" where
  "store_ok db \<longleftrightarrow>
     distinct (map vc_id (ct_cameras db)) \<and> distinct (map ve_id (ct_events db)) \<and> distinct (map ca_id (ct_alerts db)) \<and>
     (\<forall>e \<in> set (ct_events db). camera_exists (ve_camera e) db) \<and> (\<forall>a \<in> set (ct_alerts db). camera_exists (ca_camera a) db)"

text \<open>What a request of \<open>u\<close> may do to the rows: only those of cameras in \<open>mine\<close> change, and no alert is reopened.\<close>

definition events_step :: "(ident \<Rightarrow> bool) \<Rightarrow> central_event list \<Rightarrow> central_event list \<Rightarrow> bool" where
  "events_step mine es es' \<longleftrightarrow>
     filter (\<lambda>e. \<not> mine (ve_camera e)) es' = filter (\<lambda>e. \<not> mine (ve_camera e)) es \<and>
     ve_camera ` set es' \<subseteq> ve_camera ` set es \<union> Collect mine"

definition alerts_step :: "(ident \<Rightarrow> bool) \<Rightarrow> central_alert list \<Rightarrow> central_alert list \<Rightarrow> bool" where
  "alerts_step mine as as' \<longleftrightarrow>
     filter (\<lambda>a. \<not> mine (ca_camera a)) as' = filter (\<lambda>a. \<not> mine (ca_camera a)) as \<and>
     ca_camera ` set as' \<subseteq> ca_camera ` set as \<union> Collect mine \<and>
     (\<forall>a \<in> set as. ca_resolved a \<longrightarrow> (\<exists>a' \<in> set as'. ca_id a' = ca_id a \<and> ca_resolved a'))"

lemma step_refl [simp]: "events_step mine es es" "alerts_step mine as as"
  by (auto simp: events_step_def alerts_step_def)

lemma within_trans: "B \<subseteq> A \<union> M \<Longrightarrow> C \<subseteq> B \<union> M \<Longrightarrow> C \<subseteq> A \<union> M"
  by blast

lemma events_step_trans: "events_step mine a b \<Longrightarrow> events_step mine b c \<Longrightarrow> events_step mine a c"
  unfolding events_step_def by (intro conjI; elim conjE) (simp, erule (1) within_trans)

lemma alerts_step_trans:
  assumes "alerts_step mine a b" "alerts_step mine b c"
  shows "alerts_step mine a c"
  unfolding alerts_step_def
proof (intro conjI ballI impI)
  show "filter (\<lambda>a. \<not> mine (ca_camera a)) c = filter (\<lambda>a. \<not> mine (ca_camera a)) a"
    using assms by (simp add: alerts_step_def)
  have "ca_camera ` set b \<subseteq> ca_camera ` set a \<union> Collect mine" "ca_camera ` set c \<subseteq> ca_camera ` set b \<union> Collect mine"
    using assms by (simp_all add: alerts_step_def)
  then show "ca_camera ` set c \<subseteq> ca_camera ` set a \<union> Collect mine" by (rule within_trans)
next
  fix x assume "x \<in> set a" "ca_resolved x"
  then obtain y where "y \<in> set b" "ca_id y = ca_id x" "ca_resolved y" using assms(1) by (auto simp: alerts_step_def)
  moreover from this obtain z where "z \<in> set c" "ca_id z = ca_id y" "ca_resolved z" using assms(2) by (auto simp: alerts_step_def)
  ultimately show "\<exists>z \<in> set c. ca_id z = ca_id x \<and> ca_resolved z" by auto
qed

lemma events_step_add: "mine (ve_camera e) \<Longrightarrow> events_step mine es (es @ [e])"
  by (auto simp: events_step_def)

lemma events_step_update:
  assumes "\<And>e. e \<in> set es \<Longrightarrow> P e \<Longrightarrow> mine (ve_camera e)" "\<And>e. ve_camera (f e) = ve_camera e"
  shows "events_step mine es (table_update P f es)"
  unfolding events_step_def using assms
  by (intro conjI filter_table_update) (auto simp: in_table_update)

lemma alerts_step_add: "mine (ca_camera a) \<Longrightarrow> alerts_step mine as (as @ [a])"
  by (auto simp: alerts_step_def)

lemma alerts_step_update:
  assumes "\<And>a. a \<in> set as \<Longrightarrow> P a \<Longrightarrow> mine (ca_camera a)"
    "\<And>a. ca_camera (f a) = ca_camera a \<and> ca_id (f a) = ca_id a \<and> (ca_resolved a \<longrightarrow> ca_resolved (f a))"
  shows "alerts_step mine as (table_update P f as)"
proof -
  have "\<exists>a' \<in> set (table_update P f as). ca_id a' = ca_id a \<and> ca_resolved a'" if "a \<in> set as" "ca_resolved a" for a
    using that assms(2) by (intro bexI [of _ "if P a then f a else a"]) (auto simp: in_table_update)
  then show ?thesis unfolding alerts_step_def using assms
    by (intro conjI filter_table_update) (auto simp: in_table_update)
qed

lemma put_event_step:
  assumes "put_row ve_id iid fresh merge (\<lambda>i r. ve_camera r = cam i) i es = Some es'" "distinct (map ve_id es)"
    "mine (cam i)" "ve_camera (fresh i) = cam i" "\<And>r. ve_camera (merge i r) = ve_camera r"
  shows "events_step mine es es'"
proof (cases "List.find (\<lambda>r. ve_id r = iid i) es")
  case None
  then have "es' = es @ [fresh i]" using assms(1) by (simp add: put_row_def)
  then show ?thesis using events_step_add assms(3,4) by simp
next
  case (Some r)
  then have r: "r \<in> set es" "ve_id r = iid i" by (auto simp: find_Some_iff)
  have es': "ve_camera r = cam i" "es' = table_update (\<lambda>r. ve_id r = iid i) (merge i) es"
    using Some assms(1) by (simp_all add: put_row_def split: if_splits)
  show ?thesis unfolding es'(2)
  proof (rule events_step_update)
    fix e assume "e \<in> set es" "ve_id e = iid i"
    then have "e = r" using same_key [OF assms(2) _ r(1)] r(2) by simp
    then show "mine (ve_camera e)" using es'(1) assms(3) by simp
  qed (rule assms(5))
qed

lemma put_alert_step:
  assumes "alerts.put i as = Some as'" "distinct (map ca_id as)" "mine (ai_camera i)"
  shows "alerts_step mine as as'"
proof (cases "List.find (\<lambda>r. ca_id r = ai_id i) as")
  case None
  then have "as' = as @ [fresh_alert i]" using assms(1) by (simp add: put_row_def)
  then show ?thesis using alerts_step_add [of mine "fresh_alert i"] assms(3) by (simp add: fresh_alert_def)
next
  case (Some r)
  then have r: "r \<in> set as" "ca_id r = ai_id i" by (auto simp: find_Some_iff)
  have as': "ca_camera r = ai_camera i" "as' = table_update (\<lambda>r. ca_id r = ai_id i) (merge_alert i) as"
    using Some assms(1) by (simp_all add: put_row_def split: if_splits)
  show ?thesis unfolding as'(2)
  proof (rule alerts_step_update)
    fix a assume "a \<in> set as" "ca_id a = ai_id i"
    then have "a = r" using same_key [OF assms(2) _ r(1)] r(2) by simp
    then show "mine (ca_camera a)" using as'(1) assms(3) by simp
  qed (simp add: merge_alert_def)
qed

text \<open>The effect of storing, on the whole database.\<close>

definition store_step :: "(ident \<Rightarrow> bool) \<Rightarrow> central_db \<Rightarrow> central_db \<Rightarrow> bool" where
  "store_step mine db db' \<longleftrightarrow> ct_cameras db' = ct_cameras db \<and>
     events_step mine (ct_events db) (ct_events db') \<and> alerts_step mine (ct_alerts db) (ct_alerts db') \<and>
     distinct (map ve_id (ct_events db')) \<and> distinct (map ca_id (ct_alerts db'))"

definition event_ids_ok :: "central_db \<Rightarrow> bool" where
  "event_ids_ok db \<longleftrightarrow> distinct (map ve_id (ct_events db)) \<and> distinct (map ca_id (ct_alerts db))"

lemma store_step_refl: "event_ids_ok db \<Longrightarrow> store_step mine db db"
  by (simp add: store_step_def event_ids_ok_def)

lemma store_step_trans: "store_step mine a b \<Longrightarrow> store_step mine b c \<Longrightarrow> store_step mine a c"
  unfolding store_step_def using events_step_trans alerts_step_trans by auto

lemma store_step_ids: "store_step mine db db' \<Longrightarrow> event_ids_ok db'"
  by (simp add: store_step_def event_ids_ok_def)

lemma upsert_event_step:
  assumes "upsert_event now i db = Inr db'" "event_ids_ok db" "mine (ei_camera i)"
  shows "store_step mine db db'"
proof -
  obtain rows where r: "events.put now i (ct_events db) = Some rows" "db' = db\<lparr>ct_events := rows\<rparr>"
    using assms(1) by (auto simp: upsert_event_Inr)
  have d: "distinct (map ve_id (ct_events db))" using assms(2) by (simp add: event_ids_ok_def)
  have "events_step mine (ct_events db) rows"
    by (rule put_event_step [OF r(1) d, where mine = mine]) (simp_all add: assms(3) fresh_event_def merge_event_def)
  then show ?thesis using r(2) events.put_distinct [OF r(1) d] assms(2) by (simp add: store_step_def event_ids_ok_def)
qed

lemma upsert_count_step:
  assumes "upsert_people_count now i db = Inr db'" "event_ids_ok db" "mine (ci_camera i)"
  shows "store_step mine db db'"
proof -
  obtain rows where r: "counts.put now i (ct_events db) = Some rows" "db' = db\<lparr>ct_events := rows\<rparr>"
    using assms(1) by (auto simp: upsert_count_Inr)
  have d: "distinct (map ve_id (ct_events db))" using assms(2) by (simp add: event_ids_ok_def)
  have "events_step mine (ct_events db) rows"
    by (rule put_event_step [OF r(1) d, where mine = mine]) (simp_all add: assms(3) fresh_count_def merge_count_def)
  then show ?thesis using r(2) counts.put_distinct [OF r(1) d] assms(2) by (simp add: store_step_def event_ids_ok_def)
qed

lemma upsert_alert_step:
  assumes "upsert_alert i db = Inr db'" "event_ids_ok db" "mine (ai_camera i)"
  shows "store_step mine db db'"
proof -
  obtain rows where r: "alerts.put i (ct_alerts db) = Some rows" "db' = db\<lparr>ct_alerts := rows\<rparr>"
    using assms(1) by (auto simp: upsert_alert_Inr)
  have d: "distinct (map ca_id (ct_alerts db))" using assms(2) by (simp add: event_ids_ok_def)
  show ?thesis using r(2) put_alert_step [OF r(1) d, of mine, OF assms(3)] alerts.put_distinct [OF r(1) d] assms(2)
    by (simp add: store_step_def event_ids_ok_def)
qed

lemma upsert_all_step:
  assumes "upsert_all f xs db = Inr db'" "event_ids_ok db" "\<And>x. x \<in> set xs \<Longrightarrow> mine (cam x)"
    "\<And>x db db'. f x db = Inr db' \<Longrightarrow> event_ids_ok db \<Longrightarrow> mine (cam x) \<Longrightarrow> store_step mine db db'"
  shows "store_step mine db db'"
  using assms(1-3)
proof (induction xs arbitrary: db)
  case Nil
  then show ?case using store_step_refl by simp
next
  case (Cons x xs)
  then obtain db1 where db1: "f x db = Inr db1" "upsert_all f xs db1 = Inr db'" by (auto simp: bindE_eq_Inr)
  have "store_step mine db db1" using assms(4) [OF db1(1) Cons.prems(2)] Cons.prems(3) by simp
  then show ?case using Cons.IH [OF db1(2)] Cons.prems(3) store_step_ids store_step_trans by fastforce
qed


subsection \<open>The effect of a request\<close>

lemma camera_tables_simps [simp]:
  "ct_cameras (write_audit a b c d e db) = ct_cameras db"
  "ct_events (write_audit a b c d e db) = ct_events db"
  "ct_alerts (write_audit a b c d e db) = ct_alerts db"
  "ct_events (update_cameras u i f db) = ct_events db"
  "ct_alerts (update_cameras u i f db) = ct_alerts db"
  "ct_cameras (update_cameras u i f db) = table_update (\<lambda>c. vc_id c = i \<and> vc_user c = u) f (ct_cameras db)"
  by (simp_all add: write_audit_def update_cameras_def)

lemma store_step_audit [simp]: "store_step mine db (write_audit a b c d e db') = store_step mine db db'"
  by (simp add: store_step_def)

lemma owned_in_scope: "camera_owned (me_id user) db c \<Longrightarrow> in_scope user db c"
  by (auto simp: in_scope_def camera_owned_def camera_exists_def list_ex_iff)

lemma in_scope_exists: "in_scope user db c \<Longrightarrow> camera_exists c db"
  by (auto simp: in_scope_def camera_owned_def camera_exists_def list_ex_iff split: if_splits)

lemma sync_batch_step:
  assumes "sync_batch check iid cam up action resource batch user xs db = Inr (n, db')" "event_ids_ok db"
    "\<And>x db1 db2. up x db1 = Inr db2 \<Longrightarrow> event_ids_ok db1 \<Longrightarrow> in_scope user db (cam x) \<Longrightarrow> store_step (in_scope user db) db1 db2"
  shows "store_step (in_scope user db) db db'"
proof -
  obtain items db1 where r: "upsert_all up items db = Inr db1" "store_step (in_scope user db) db db1 \<Longrightarrow> store_step (in_scope user db) db db'"
    "list_all (camera_owned (me_id user) db) (map cam items)"
    using assms(1) by (auto simp: sync_batch_def bindE_eq_Inr ensure_owned_cameras_def)
  have "in_scope user db (cam x)" if "x \<in> set items" for x
    using r(3) that owned_in_scope by (auto simp: list_all_iff)
  then have "store_step (in_scope user db) db db1"
    using assms(3) by (intro upsert_all_step [OF r(1) assms(2), where cam = cam]) blast+
  then show ?thesis by (rule r(2))
qed

lemma heartbeats_step:
  assumes "insert_heartbeats now stamp is css db = Inr db'" "event_ids_ok db" "\<And>cs. cs \<in> set css \<Longrightarrow> mine (fst cs)"
  shows "store_step mine db db'"
  using assms
proof (induction now stamp "is" css db rule: insert_heartbeats.induct)
  case (1 now stamp i "is" cs css db)
  let ?db1 = "db\<lparr>ct_events := ct_events db @ [heartbeat_event now stamp i cs]\<rparr>"
  have r: "list_all (\<lambda>e. ve_id e \<noteq> i) (ct_events db)" "insert_heartbeats now stamp is css ?db1 = Inr db'"
    using "1.prems"(1) by (auto simp: bindE_eq_Inr)
  have "store_step mine db ?db1"
    using "1.prems"(2,3) r(1) events_step_add [of mine "heartbeat_event now stamp i cs" "ct_events db"]
    by (auto simp: store_step_def event_ids_ok_def heartbeat_event_def list_all_iff)
  moreover from this have "store_step mine ?db1 db'"
    by (intro "1.IH" [OF r(2) store_step_ids]) (use "1.prems"(3) in auto)
  ultimately show ?case by (rule store_step_trans)
qed (simp_all add: store_step_refl)

lemma owned_same_cameras: "ct_cameras db' = ct_cameras db \<Longrightarrow> camera_owned u db' c = camera_owned u db c"
  by (simp add: camera_owned_def)

lemma store_heartbeats_step:
  assumes "store_heartbeats uuid now (me_id user) stamp is ss db = Inr db'" "event_ids_ok db" "ct_cameras db = ct_cameras db0"
  shows "store_step (in_scope user db0) db db'"
  using assms
proof (induction uuid now "me_id user" stamp "is" ss db rule: store_heartbeats.induct)
  case (1 uuid now stamp i "is" k v rest db)
  then obtain c db1 where c: "uuid k = Some c" "camera_owned (me_id user) db c" "insert_heartbeats now stamp [i] [(c, v)] db = Inr db1"
    "store_heartbeats uuid now (me_id user) stamp is rest db1 = Inr db'"
    by (auto simp: bindE_eq_Inr split: option.splits)
  have "in_scope user db0 c" using c(2) "1.prems"(3) owned_in_scope owned_same_cameras by blast
  then have step: "store_step (in_scope user db0) db db1" by (intro heartbeats_step [OF c(3) "1.prems"(2)]) simp
  have "store_step (in_scope user db0) db1 db'"
    by (rule "1.hyps" [OF c(1,4) store_step_ids [OF step]]) (use step "1.prems"(3) in \<open>simp add: store_step_def\<close>)
  with step show ?case by (rule store_step_trans)
qed (simp_all add: store_step_refl)

lemma store_message_step:
  assumes "store_message uuid now new_ids user m db = Inr db'" "event_ids_ok db"
  shows "store_step (in_scope user db) db db'"
proof (cases m)
  case (WsEvent e)
  then obtain item where "camera_owned (me_id user) db (ei_camera item)" "upsert_event now item db = Inr db'"
    using assms(1) by (auto simp: store_message_def bindE_eq_Inr)
  then show ?thesis using upsert_event_step [OF _ assms(2)] owned_in_scope by blast
next
  case (WsAlert a)
  then obtain item where "camera_owned (me_id user) db (ai_camera item)" "upsert_alert item db = Inr db'"
    using assms(1) by (auto simp: store_message_def bindE_eq_Inr)
  then show ?thesis using upsert_alert_step [OF _ assms(2)] owned_in_scope by blast
next
  case (WsCount c)
  then obtain item where "camera_owned (me_id user) db (ci_camera item)" "upsert_people_count now item db = Inr db'"
    using assms(1) by (auto simp: store_message_def bindE_eq_Inr)
  then show ?thesis using upsert_count_step [OF _ assms(2)] owned_in_scope by blast
next
  case (WsHeartbeat stamp ss)
  then have "store_heartbeats uuid now (me_id user) stamp new_ids ss db = Inr db'"
    using assms(1) by (auto simp: store_message_def bindE_eq_Inr)
  then show ?thesis using store_heartbeats_step [OF _ assms(2)] by simp
qed (use assms(1) in \<open>simp add: store_message_def\<close>)

lemma resolve_step:
  assumes "resolve_alert user i db = Inr (r, db')" "event_ids_ok db"
  shows "store_step (in_scope user db) db db'"
proof -
  obtain a b c d e where db': "db' = write_audit a b c d e
      (db\<lparr>ct_alerts := table_update (\<lambda>a. in_scope user db (ca_camera a) \<and> ca_id a = i) (\<lambda>a. a\<lparr>ca_resolved := True\<rparr>) (ct_alerts db)\<rparr>)"
    using assms(1) by (auto simp: resolve_alert_def bindE_eq_Inr split: option.splits)
  have "alerts_step (in_scope user db) (ct_alerts db)
      (table_update (\<lambda>a. in_scope user db (ca_camera a) \<and> ca_id a = i) (\<lambda>a. a\<lparr>ca_resolved := True\<rparr>) (ct_alerts db))"
    by (rule alerts_step_update) auto
  then show ?thesis using assms(2) by (simp add: db' store_step_def event_ids_ok_def map_table_update)
qed

text \<open>The calls that change the table of cameras.\<close>

definition cameras_step :: "ident \<Rightarrow> central_db \<Rightarrow> central_db \<Rightarrow> bool" where
  "cameras_step u db db' \<longleftrightarrow>
     ct_events db' = ct_events db \<and> ct_alerts db' = ct_alerts db \<and>
     filter (\<lambda>c. vc_user c \<noteq> u) (ct_cameras db') = filter (\<lambda>c. vc_user c \<noteq> u) (ct_cameras db) \<and>
     (distinct (map vc_id (ct_cameras db)) \<longrightarrow> distinct (map vc_id (ct_cameras db'))) \<and>
     (\<forall>c \<in> set (ct_cameras db). vc_id c \<in> vc_id ` set (ct_cameras db') \<or> \<not> camera_referenced (vc_id c) db)"

lemma cameras_step_update:
  assumes "\<And>c. vc_id (f c) = vc_id c \<and> vc_user (f c) = vc_user c"
  shows "cameras_step u db (write_audit a b d e x (update_cameras u i f db))"
proof -
  have "filter (\<lambda>c. vc_user c \<noteq> u) (table_update (\<lambda>c. vc_id c = i \<and> vc_user c = u) f (ct_cameras db)) =
      filter (\<lambda>c. vc_user c \<noteq> u) (ct_cameras db)"
    by (rule filter_table_update) (simp add: assms)
  moreover have "map vc_id (table_update (\<lambda>c. vc_id c = i \<and> vc_user c = u) f (ct_cameras db)) = map vc_id (ct_cameras db)"
    by (rule map_table_update) (simp add: assms)
  moreover from this have "vc_id ` set (table_update (\<lambda>c. vc_id c = i \<and> vc_user c = u) f (ct_cameras db)) = vc_id ` set (ct_cameras db)"
    by (metis set_map)
  ultimately show ?thesis by (simp add: cameras_step_def)
qed

lemma create_camera_cases:
  assumes "create_camera user now p0 db = Inr (row, db')"
  obtains (again) p where "check_camera_create p0 = Inr p" "db' = db" "find_camera (kc_id p) db = Some row"
      "vc_user row = me_id user" "camera_create_matches row p"
  | (new) p l where "check_camera_create p0 = Inr p" "find_camera (kc_id p) db = None" "current_license now (me_id user) db = Some l"
      "int (camera_count (me_id user) db) < li_max_cameras l" "vc_id row = kc_id p" "vc_user row = me_id user"
      "ct_cameras db' = ct_cameras db @ [row]" "ct_events db' = ct_events db" "ct_alerts db' = ct_alerts db" "ct_licenses db' = ct_licenses db"
proof -
  obtain p where p: "check_camera_create p0 = Inr p" using assms by (auto simp: create_camera_def bindE_eq_Inr)
  show thesis
  proof (cases "find_camera (kc_id p) db")
    case (Some c)
    then have "row = c" "db' = db" "vc_user c = me_id user" "camera_create_matches c p"
      using assms p by (auto simp: create_camera_def bindE_eq_Inr)
    with Some p show ?thesis by (intro again) auto
  next
    case None
    show ?thesis
    proof (cases "current_license now (me_id user) db")
      case n: None
      with None p assms show ?thesis by (simp add: create_camera_def bindE_eq_Inr)
    next
      case (Some l)
      with None p assms show ?thesis by (intro new [OF p None Some]) (auto simp: create_camera_def bindE_eq_Inr Let_def)
    qed
  qed
qed

lemma create_camera_step:
  assumes "create_camera user now p0 db = Inr (row, db')"
  shows "cameras_step (me_id user) db db'"
  using assms
proof (cases rule: create_camera_cases)
  case again
  then show ?thesis by (simp add: cameras_step_def)
next
  case (new p l)
  then have "kc_id p \<notin> vc_id ` set (ct_cameras db)" by (auto simp: find_camera_def find_None_iff)
  with new show ?thesis by (auto simp: cameras_step_def)
qed

lemma update_camera_step: "update_camera user i p db = Inr (r, db') \<Longrightarrow> cameras_step (me_id user) db db'"
  by (auto simp: update_camera_def bindE_eq_Inr apply_camera_update_def split: option.splits intro!: cameras_step_update)

lemma configure_step: "update_analytics_config user i c zs db = Inr (r, db') \<Longrightarrow> cameras_step (me_id user) db db'"
  by (auto simp: update_analytics_config_def bindE_eq_Inr Let_def split: option.splits intro!: cameras_step_update)

lemma delete_camera_step:
  assumes "delete_camera user i db = Inr (r, db')"
  shows "cameras_step (me_id user) db db'"
proof -
  have r: "\<not> camera_referenced i db" "ct_events db' = ct_events db" "ct_alerts db' = ct_alerts db"
    "ct_cameras db' = filter (\<lambda>c. \<not> (vc_id c = i \<and> vc_user c = me_id user)) (ct_cameras db)"
    using assms by (auto simp: delete_camera_def bindE_eq_Inr split: option.splits)
  have "filter (\<lambda>c. vc_user c \<noteq> me_id user) (ct_cameras db') = filter (\<lambda>c. vc_user c \<noteq> me_id user) (ct_cameras db)"
    unfolding r(4) filter_filter by (rule filter_cong) auto
  moreover have "vc_id c \<in> vc_id ` set (ct_cameras db')" if "c \<in> set (ct_cameras db)" "camera_referenced (vc_id c) db" for c
    using that r(1,4) by auto
  ultimately show ?thesis using r(2-4) by (auto simp: cameras_step_def distinct_map_filter)
qed

lemma request_step:
  assumes "camera_request uuid now new_ids user call db = Inr db'" "store_ok db"
  shows "cameras_step (me_id user) db db' \<or> store_step (in_scope user db) db db'"
proof -
  have ids: "event_ids_ok db" using assms(2) by (simp add: store_ok_def event_ids_ok_def)
  show ?thesis
  proof (cases call)
    case (SyncEvents batch es)
    then obtain n where "sync_events now batch user es db = Inr (n, db')" using assms(1) by (auto simp: no_reply_Inr)
    then show ?thesis by (intro disjI2) (rule sync_batch_step [OF _ ids], simp only: sync_events_def, rule upsert_event_step)
  next
    case (SyncAlerts batch xs)
    then obtain n where "sync_alerts batch user xs db = Inr (n, db')" using assms(1) by (auto simp: no_reply_Inr)
    then show ?thesis by (intro disjI2) (rule sync_batch_step [OF _ ids], simp only: sync_alerts_def, rule upsert_alert_step)
  next
    case (SyncCounts batch cs)
    then obtain n where "sync_people_count now batch user cs db = Inr (n, db')" using assms(1) by (auto simp: no_reply_Inr)
    then show ?thesis by (intro disjI2) (rule sync_batch_step [OF _ ids], simp only: sync_people_count_def, rule upsert_count_step)
  next
    case (Heartbeat batch stamp ss)
    then obtain css db1 where r: "list_all (camera_owned (me_id user) db) (map fst css)" "insert_heartbeats now stamp new_ids css db = Inr db1"
      "store_step (in_scope user db) db db1 \<Longrightarrow> store_step (in_scope user db) db db'"
      using assms(1) by (auto simp: no_reply_Inr heartbeat_def bindE_eq_Inr ensure_owned_cameras_def)
    have "in_scope user db (fst cs)" if "cs \<in> set css" for cs using r(1) that owned_in_scope by (auto simp: list_all_iff)
    then show ?thesis using heartbeats_step [OF r(2) ids] r(3) by blast
  next
    case (SocketMessage m)
    then obtain db1 where "store_message uuid now new_ids user m db = Inr db1"
      "store_step (in_scope user db) db db1 \<Longrightarrow> store_step (in_scope user db) db db'"
      using assms(1) by (auto simp: socket_message_def bindE_eq_Inr)
    then show ?thesis using store_message_step [OF _ ids] by blast
  next
    case (ResolveAlert i)
    then show ?thesis using assms(1) resolve_step [OF _ ids] by (auto simp: no_reply_Inr)
  qed (use assms(1) create_camera_step update_camera_step configure_step delete_camera_step in \<open>fastforce simp: no_reply_Inr\<close>)+
qed


subsection \<open>An example\<close>

text \<open>Two users \<open>u\<close> and \<open>w\<close> with a camera each, and permissions for \<open>u\<close> to synchronize and to manage cameras.\<close>

definition example_cameras :: central_db where
  "example_cameras = example_central\<lparr>
     ct_licenses := [example_license\<lparr>li_user := ''u'', li_max_cameras := 2\<rparr>],
     ct_cameras := map (\<lambda>(i, u). \<lparr>vc_id = i, vc_user = u, vc_name = ''n'', vc_url = ''rtsp'', vc_stream_type = ''rtsp'',
       vc_location = None, vc_config = JObj [], vc_zones = JList [], vc_active = True, vc_created = 0\<rparr>) [(''1'', ''u''), (''2'', ''w'')],
     ct_alerts := [\<lparr>ca_id = ''a'', ca_camera = ''1'', ca_zone = None, ca_image = None, ca_confidence = None, ca_resolved = True, ca_created = 0\<rparr>],
     ct_events := [\<lparr>ve_id = ''e'', ve_camera = ''2'', ve_type = ''t'', ve_payload = JObj [], ve_image = None, ve_synced = 0, ve_created = 0\<rparr>]\<rparr>"

definition example_client :: current_user where
  "example_client = (example_actor ''u'' VaUser)\<lparr>me_permissions := map (\<lambda>r. \<lparr>pm_id = r, pm_user = ''u'', pm_resource = r,
     pm_actions = [''*''], pm_constraints = JObj [], pm_granted_by = ''s'', pm_created = 0\<rparr>) [''sync'', ''cameras'', ''analytics'']\<rparr>"

definition example_alert :: alert_in where
  "example_alert = \<lparr>ai_id = ''a'', ai_camera = ''1'', ai_zone = None, ai_image = Some ''i'', ai_confidence = None,
     ai_resolved = False, ai_created = 0\<rparr>"

lemma example_cameras_ok: "store_ok example_cameras"
  by code_simp

lemma example_alerts_accepted:
  obtains db' where "camera_request Some 5 [] example_client (SyncAlerts ''b'' [example_alert]) example_cameras = Inr db'"
    "map ca_image (ct_alerts db') = [Some ''i'']"
proof -
  have "(case camera_request Some 5 [] example_client (SyncAlerts ''b'' [example_alert]) example_cameras of
     Inl e \<Rightarrow> False | Inr db' \<Rightarrow> map ca_image (ct_alerts db') = [Some ''i''])" by code_simp
  then show thesis using that by (auto split: sum.splits)
qed

subsection \<open>The guarantees\<close>

lemma step_keeps_store:
  assumes "cameras_step u db db' \<or> store_step (in_scope user db) db db'" "store_ok db"
  shows "store_ok db'"
  using assms(1)
proof
  assume c: "cameras_step u db db'"
  have "camera_exists i db'" if ex: "camera_exists i db" and rf: "camera_referenced i db" for i
  proof -
    obtain k where k: "k \<in> set (ct_cameras db)" "vc_id k = i" using ex by (auto simp: camera_exists_def list_ex_iff)
    then have "i \<in> vc_id ` set (ct_cameras db')" using c rf by (auto simp: cameras_step_def)
    then show ?thesis by (auto simp: camera_exists_def list_ex_iff)
  qed
  moreover have "camera_referenced (ve_camera e) db" if "e \<in> set (ct_events db)" for e
    using that by (auto simp: camera_referenced_def list_ex_iff)
  moreover have "camera_referenced (ca_camera a) db" if "a \<in> set (ct_alerts db)" for a
    using that by (auto simp: camera_referenced_def list_ex_iff)
  ultimately show ?thesis using c assms(2) by (simp add: store_ok_def cameras_step_def)
next
  assume st: "store_step (in_scope user db) db db'"
  have ex: "camera_exists i db' = camera_exists i db" for i using st by (simp add: store_step_def camera_exists_def)
  have "ve_camera e \<in> ve_camera ` set (ct_events db) \<union> Collect (in_scope user db)" if "e \<in> set (ct_events db')" for e
    using st that by (auto simp: store_step_def events_step_def)
  then have "camera_exists (ve_camera e) db" if "e \<in> set (ct_events db')" for e
    using that assms(2) in_scope_exists by (fastforce simp: store_ok_def)
  moreover have "ca_camera a \<in> ca_camera ` set (ct_alerts db) \<union> Collect (in_scope user db)" if "a \<in> set (ct_alerts db')" for a
    using st that by (auto simp: store_step_def alerts_step_def)
  then have "camera_exists (ca_camera a) db" if "a \<in> set (ct_alerts db')" for a
    using that assms(2) in_scope_exists by (fastforce simp: store_ok_def)
  ultimately show ?thesis using st assms(2) ex by (simp add: store_ok_def store_step_def)
qed

text \<open>
  The keys of the analytics tables survive every accepted request (cameras created, changed,
  deleted or configured, batches and socket messages stored, alerts resolved): camera, event and
  alert identities stay unique, and every event and alert still names an existing camera.
\<close>
theorem camera_store_preserved:
  assumes "camera_request uuid now new_ids user call db = Inr db'" "store_ok db"
  shows "store_ok db'"
  using step_keeps_store [OF request_step [OF assms] assms(2)] .

lemma camera_store_preserved_witness:
  "\<exists>db'. camera_request Some 5 [] example_client (SyncAlerts ''b'' [example_alert]) example_cameras = Inr db' \<and> store_ok db'"
proof -
  obtain db' where e: "camera_request Some 5 [] example_client (SyncAlerts ''b'' [example_alert]) example_cameras = Inr db'"
    by (rule example_alerts_accepted)
  from camera_store_preserved [OF this example_cameras_ok] e show ?thesis by blast
qed

text \<open>
  C12. A user who is no administrator changes only what belongs to the user's own cameras: an accepted
  request leaves every camera of another user, and every event and every alert of a camera the user
  does not own, exactly as it was.
\<close>
theorem camera_isolation:
  assumes "camera_request uuid now new_ids user call db = Inr db'" "store_ok db" "\<not> privileged (me_role user)"
  shows "filter (\<lambda>c. vc_user c \<noteq> me_id user) (ct_cameras db') = filter (\<lambda>c. vc_user c \<noteq> me_id user) (ct_cameras db) \<and>
     filter (\<lambda>e. \<not> camera_owned (me_id user) db (ve_camera e)) (ct_events db') =
       filter (\<lambda>e. \<not> camera_owned (me_id user) db (ve_camera e)) (ct_events db) \<and>
     filter (\<lambda>a. \<not> camera_owned (me_id user) db (ca_camera a)) (ct_alerts db') =
       filter (\<lambda>a. \<not> camera_owned (me_id user) db (ca_camera a)) (ct_alerts db)"
proof -
  have "in_scope user db c = camera_owned (me_id user) db c" for c
    using assms(3) by (auto simp: in_scope_def privileged_def)
  then have "in_scope user db = camera_owned (me_id user) db" by blast
  then show ?thesis using request_step [OF assms(1,2)]
    by (auto simp: cameras_step_def store_step_def events_step_def alerts_step_def)
qed

lemma camera_isolation_witness:
  "\<exists>db'. camera_request Some 5 [] example_client (SyncAlerts ''b'' [example_alert]) example_cameras = Inr db' \<and>
     length (filter (\<lambda>e. \<not> camera_owned ''u'' example_cameras (ve_camera e)) (ct_events db')) = 1"
proof -
  obtain db' where e: "camera_request Some 5 [] example_client (SyncAlerts ''b'' [example_alert]) example_cameras = Inr db'"
    by (rule example_alerts_accepted)
  have me: "me_id example_client = ''u''" "\<not> privileged (me_role example_client)" by code_simp+
  have "length (filter (\<lambda>e. \<not> camera_owned ''u'' example_cameras (ve_camera e)) (ct_events example_cameras)) = 1" by code_simp
  with camera_isolation [OF e example_cameras_ok me(2)] me(1) e show ?thesis by auto
qed

text \<open>
  A resolved alert stays resolved: no accepted request, in particular no late delivery of the
  unresolved alert by an edge device, removes it or opens it again.
\<close>
theorem alert_stays_resolved:
  assumes "camera_request uuid now new_ids user call db = Inr db'" "store_ok db" "a \<in> set (ct_alerts db)" "ca_resolved a"
  shows "\<exists>a' \<in> set (ct_alerts db'). ca_id a' = ca_id a \<and> ca_resolved a'"
  using request_step [OF assms(1,2)] assms(3,4) by (auto simp: cameras_step_def store_step_def alerts_step_def)

lemma alert_stays_resolved_witness:
  "\<exists>db' a'. camera_request Some 5 [] example_client (SyncAlerts ''b'' [example_alert]) example_cameras = Inr db' \<and>
     a' \<in> set (ct_alerts db') \<and> ca_id a' = ''a'' \<and> ca_resolved a'"
proof -
  obtain db' where e: "camera_request Some 5 [] example_client (SyncAlerts ''b'' [example_alert]) example_cameras = Inr db'"
    by (rule example_alerts_accepted)
  have "list_ex (\<lambda>a. ca_id a = ''a'' \<and> ca_resolved a) (ct_alerts example_cameras)" by code_simp
  then obtain a where "a \<in> set (ct_alerts example_cameras)" "ca_resolved a" "ca_id a = ''a''" by (auto simp: list_ex_iff)
  with alert_stays_resolved [OF e example_cameras_ok] e show ?thesis by metis
qed

lemma current_license_Some:
  assumes "current_license now u db = Some l"
  shows "l \<in> set (ct_licenses db) \<and> li_user l = u \<and> license_current now l"
proof -
  let ?xs = "filter (\<lambda>l. li_user l = u \<and> license_current now l) (ct_licenses db)"
  obtain rest where "sort_key (\<lambda>l. - li_until l) ?xs = l # rest"
    using assms by (auto simp: current_license_def split: list.splits)
  then have "l \<in> set (sort_key (\<lambda>l. - li_until l) ?xs)" by (simp del: set_sort)
  then show ?thesis by simp
qed

text \<open>
  The licence bounds the cameras: registering a camera either answers an identical camera that
  exists already and changes nothing, or adds exactly one, and then a current licence of the user
  allows as many cameras as the user has now.
\<close>
theorem camera_limit:
  assumes "create_camera user now payload db = Inr (row, db')"
  shows "vc_user row = me_id user \<and>
    (db' = db \<and> row \<in> set (ct_cameras db) \<or>
     camera_count (me_id user) db' = Suc (camera_count (me_id user) db) \<and>
     (\<exists>l \<in> set (ct_licenses db). li_user l = me_id user \<and> license_current now l \<and>
        int (camera_count (me_id user) db') \<le> li_max_cameras l))"
  using assms
proof (cases rule: create_camera_cases)
  case (again p)
  then have "row \<in> set (ct_cameras db)" by (auto simp: find_camera_def find_Some_iff)
  with again show ?thesis by simp
next
  case (new p l)
  have "camera_count (me_id user) db' = Suc (camera_count (me_id user) db)"
    using new(6,7) by (simp add: camera_count_def)
  moreover have "int (camera_count (me_id user) db') \<le> li_max_cameras l" using calculation new(4) by simp
  ultimately show ?thesis using current_license_Some [OF new(3)] new(6) by blast
qed

definition example_new_camera :: central_camera_create where
  "example_new_camera = \<lparr>kc_id = ''3'', kc_name = ''door'', kc_url = ''rtsp://h'', kc_stream_type = ''rtsp'', kc_location = None,
     kc_config = JObj [], kc_zones = []\<rparr>"

lemma camera_limit_witness:
  "\<exists>row db'. create_camera example_client 5 example_new_camera example_cameras = Inr (row, db') \<and> vc_user row = ''u''"
proof -
  have "\<not> isl (create_camera example_client 5 example_new_camera example_cameras)" by code_simp
  then obtain row db' where e: "create_camera example_client 5 example_new_camera example_cameras = Inr (row, db')"
    by (auto simp: isl_def) (metis obj_sumE surj_pair)
  have "me_id example_client = ''u''" by code_simp
  with camera_limit [OF e] e show ?thesis by auto
qed

subsection \<open>Redelivered batches\<close>

lemma upsert_all_events:
  assumes "upsert_all (upsert_event now) is db = Inr db'"
  shows "put_rows (events.put now) is (ct_events db) = Some (ct_events db') \<and> db' = db\<lparr>ct_events := ct_events db'\<rparr>"
  using assms
proof (induction "is" arbitrary: db)
  case Nil
  then show ?case by simp
next
  case (Cons i "is")
  then obtain rows where "events.put now i (ct_events db) = Some rows"
    "upsert_all (upsert_event now) is (db\<lparr>ct_events := rows\<rparr>) = Inr db'"
    by (auto simp: bindE_eq_Inr upsert_event_Inr)
  with Cons.IH [OF this(2)] show ?case by simp
qed

lemma upsert_all_alerts:
  assumes "upsert_all upsert_alert is db = Inr db'"
  shows "put_rows alerts.put is (ct_alerts db) = Some (ct_alerts db') \<and> db' = db\<lparr>ct_alerts := ct_alerts db'\<rparr>"
  using assms
proof (induction "is" arbitrary: db)
  case Nil
  then show ?case by simp
next
  case (Cons i "is")
  then obtain rows where "alerts.put i (ct_alerts db) = Some rows"
    "upsert_all upsert_alert is (db\<lparr>ct_alerts := rows\<rparr>) = Inr db'"
    by (auto simp: bindE_eq_Inr upsert_alert_Inr)
  with Cons.IH [OF this(2)] show ?case by simp
qed

text \<open>The converse, where no foreign key can fail.\<close>

lemma put_rows_alerts:
  assumes "put_rows alerts.put is (ct_alerts db) = Some rows" "\<forall>i \<in> set is. camera_exists (ai_camera i) db"
  shows "upsert_all upsert_alert is db = Inr (db\<lparr>ct_alerts := rows\<rparr>)"
  using assms
proof (induction "is" arbitrary: db)
  case Nil
  then show ?case by simp
next
  case (Cons i "is")
  then obtain rows1 where r: "alerts.put i (ct_alerts db) = Some rows1" "put_rows alerts.put is rows1 = Some rows"
    by (auto split: option.splits)
  then have "upsert_alert i db = Inr (db\<lparr>ct_alerts := rows1\<rparr>)" using Cons.prems(2) by (simp add: upsert_alert_Inr)
  moreover have "\<forall>i \<in> set is. camera_exists (ai_camera i) (db\<lparr>ct_alerts := rows1\<rparr>)"
    using Cons.prems(2) by (simp add: camera_exists_def)
  ultimately show ?case using Cons.IH [of "db\<lparr>ct_alerts := rows1\<rparr>"] r(2) by simp
qed

lemma mapE_alert_ids:
  assumes "mapE check_alert_in xs = Inr items"
  shows "map ai_id items = map ai_id xs"
proof -
  have "ai_id y = ai_id x" if "check_alert_in x = Inr y" for x y
    using that by (auto simp: check_alert_in_def bindE_eq_Inr)
  then show ?thesis using assms by (induction xs arbitrary: items) (auto simp: bindE_eq_Inr)
qed

text \<open>
  Delivering a batch of alerts again is harmless: after an accepted batch with distinct identities,
  the same batch (which the edge sends again when it has lost the answer) is accepted again with the
  same answer and changes no alert.
\<close>
theorem redelivery_harmless:
  assumes "sync_alerts batch user xs db = Inr (n, db1)" "store_ok db" "distinct (map ai_id xs)"
  shows "\<exists>db2. sync_alerts batch' user xs db1 = Inr (n, db2) \<and> ct_alerts db2 = ct_alerts db1"
proof -
  obtain items db0 where r: "batch_ok xs = Inr ()" "mapE check_alert_in xs = Inr items"
    "ensure_owned_cameras user (map ai_camera items) db = Inr ()" "upsert_all upsert_alert items db = Inr db0"
    "db1 = write_audit (me_id user) ''sync_alerts'' ''va.intrusion_alert'' None (batch_metadata batch (map ai_id items)) db0" "n = length items"
    and auth: "\<exists>p. authorize user ''sync'' ''write'' (Some (me_id user)) None = Inr p"
    using assms(1) by (auto simp: sync_alerts_def sync_batch_def bindE_eq_Inr)
  have "put_rows alerts.put items (ct_alerts db) = Some (ct_alerts db0)" and db0: "db0 = db\<lparr>ct_alerts := ct_alerts db0\<rparr>"
    using upsert_all_alerts [OF r(4)] by blast+
  then have put: "put_rows alerts.put items (ct_alerts db) = Some (ct_alerts db1)" using r(5) by simp
  have "ct_cameras db0 = ct_cameras db" by (subst db0) simp
  then have cams: "ct_cameras db1 = ct_cameras db" using r(5) by simp
  have "distinct (map ca_id (ct_alerts db))" "distinct (map ai_id items)"
    using assms(2,3) mapE_alert_ids [OF r(2)] by (simp_all add: store_ok_def)
  from alerts.batch_again [OF put this] have again: "put_rows alerts.put items (ct_alerts db1) = Some (ct_alerts db1)" by simp
  have own: "ensure_owned_cameras user (map ai_camera items) db1 = Inr ()"
    using r(3) cams by (simp add: ensure_owned_cameras_def camera_owned_def list_all_iff)
  then have "\<forall>i \<in> set items. camera_exists (ai_camera i) db1"
    by (auto simp: ensure_owned_cameras_def list_all_iff camera_owned_def camera_exists_def list_ex_iff)
  from put_rows_alerts [OF again this] r(1,2,6) own auth show ?thesis
    by (auto simp: sync_alerts_def sync_batch_def bindE_eq_Inr)
qed


lemma redelivery_harmless_witness:
  "\<exists>db1 db2. sync_alerts ''b'' example_client [example_alert] example_cameras = Inr (1, db1) \<and>
     sync_alerts ''c'' example_client [example_alert] db1 = Inr (1, db2) \<and> ct_alerts db2 = ct_alerts db1"
proof -
  have "(case sync_alerts ''b'' example_client [example_alert] example_cameras of Inl e \<Rightarrow> False | Inr (n, db1) \<Rightarrow> n = 1)"
    by code_simp
  then obtain db1 where e: "sync_alerts ''b'' example_client [example_alert] example_cameras = Inr (1, db1)"
    by (auto split: sum.splits prod.splits)
  from redelivery_harmless [OF this example_cameras_ok, of "''c''"] e show ?thesis by auto
qed

subsection \<open>Findings\<close>

text \<open>
  A permission restricted by \<open>allowed_resource_ids\<close> is refused wherever no resource is named: the
  filter of the camera listing by these identities never applies, and such a user cannot list at all.
\<close>

lemma listing_filter_unreachable:
  assumes "authorize user resource action owner None = Inr permission"
  shows "listed_ids permission = Inr None"
  using assms
  by (auto simp: authorize_def bindE_eq_Inr constraints_met_def listed_ids_def split: if_splits option.splits json.splits)

text \<open>An event of type \<open>people_count\<close> whose payload is no count is accepted, and breaks the listing of counts.\<close>

lemma poisoned_people_count:
  "case camera_request Some 5 [] example_client (SyncEvents ''b'' [\<lparr>ei_id = ''x'', ei_camera = ''1'', ei_type = ''people_count'',
       ei_payload = JObj [(''count_in'', JBool True)], ei_image = None, ei_created = 0\<rparr>]) example_cameras of
     Inl e \<Rightarrow> False
   | Inr db' \<Rightarrow> people_count (\<lambda>s. None) (example_actor ''s'' SuperAdmin) None None None db' = Inl (HttpError 500 ''Internal server error'')"
  by code_simp

end
