(* ===== verification/Central_Persons.thy ===== *)
theory Central_Persons
  imports Central_Admin "HOL-Library.List_Lexorder" "HOL-Library.Char_ord"
begin

section \<open>Registered persons and their face images\<close>

text \<open>
  \<open>routers/persons.py\<close>, \<open>services/cleanup_service.py\<close> and \<open>schemas/person.py\<close> of the central service. The
  object store is the set of its objects next to the database (\<open>st_objects\<close>, bucket and name); an
  upload puts an object under the name of a fresh UUID. Image decoding and the face encoder are one
  argument (\<open>engine\<close>), the outcome of a deletion in the store and whether a transaction is committed
  are others. A handler also changes the state when it fails, so it returns the state beside the
  reply. \<open>update_face\<close> reads the person before it prepares the image and writes afterwards, in a
  transaction of its own: the two halves are separate definitions. Names, phone numbers and digits are
  ASCII, presigned URLs are not modelled.
\<close>

record person_site =
  st_db :: central_db
  st_objects :: "(string \<times> string) list"

type_synonym 'a reply = "http_error + 'a"

subsection \<open>Face images\<close>

record upload =
  up_type :: string
  up_bytes :: string

definition max_image_size :: nat where
  "max_image_size = 10 * 1024 * 1024"

text \<open>The normalized image and its encoding, or the text of the \<open>ValueError\<close> or \<open>OSError\<close>.\<close>

type_synonym person_engine = "string \<Rightarrow> string + string \<times> string"

definition prepare_face :: "person_engine \<Rightarrow> upload \<Rightarrow> (string \<times> string) reply" where
  "prepare_face engine f =
     bindE (guardE (up_type f \<in> {''image/jpeg'', ''image/png''}) (HttpError 415 ''Face image must be JPEG or PNG'')) (\<lambda>_.
     (let raw = take (max_image_size + 1) (up_bytes f) in
      bindE (guardE (\<not> (raw = [] \<or> max_image_size < length raw))
               (HttpError 413 ''Face image must be between 1 byte and 10 MB'')) (\<lambda>_.
      (case engine raw of Inl text \<Rightarrow> Inl (HttpError 422 text) | Inr r \<Rightarrow> Inr r))))"

definition face_object :: "ident \<Rightarrow> string" where
  "face_object i = i @ ''.jpg''"

definition put_object :: "string \<Rightarrow> string \<Rightarrow> person_site \<Rightarrow> person_site" where
  "put_object bucket name s = s\<lparr>st_objects := (bucket, name) # st_objects s\<rparr>"

subsection \<open>The outbox of deletions\<close>

definition enqueue_cleanup :: "string \<Rightarrow> string \<Rightarrow> central_db \<Rightarrow> central_db" where
  "enqueue_cleanup bucket name db =
     (if list_ex (\<lambda>r. cl_bucket r = bucket \<and> cl_object r = name) (ct_cleanup db) then db
      else db\<lparr>ct_cleanup := ct_cleanup db @ [\<lparr>cl_id = Suc (Max (insert 0 (set (map cl_id (ct_cleanup db))))),
             cl_bucket = bucket, cl_object = name, cl_attempts = 0, cl_last_error = None, cl_processed = None\<rparr>]\<rparr>)"

definition update_cleanup :: "(cleanup_row \<Rightarrow> bool) \<Rightarrow> (cleanup_row \<Rightarrow> cleanup_row) \<Rightarrow> person_site \<Rightarrow> person_site" where
  "update_cleanup P f s = s\<lparr>st_db := (st_db s)\<lparr>ct_cleanup := table_update P f (ct_cleanup (st_db s))\<rparr>\<rparr>"

text \<open>One row: the store deletes the object, or raises an error.\<close>

definition cleanup_one :: "(nat \<Rightarrow> string option) \<Rightarrow> time \<Rightarrow> cleanup_row \<Rightarrow> person_site \<Rightarrow> person_site" where
  "cleanup_one failure now row s = (case failure (cl_id row) of
     Some text \<Rightarrow> update_cleanup (\<lambda>r. cl_id r = cl_id row \<and> cl_processed r = None)
       (\<lambda>r. r\<lparr>cl_attempts := cl_attempts r + 1, cl_last_error := Some (take 2000 text)\<rparr>) s
   | None \<Rightarrow> update_cleanup (\<lambda>r. cl_id r = cl_id row)
       (\<lambda>r. r\<lparr>cl_attempts := cl_attempts r + 1, cl_last_error := None, cl_processed := Some now\<rparr>)
       (s\<lparr>st_objects := filter (\<lambda>x. x \<noteq> (cl_bucket row, cl_object row)) (st_objects s)\<rparr>))"

definition cleanup_batch :: "nat \<Rightarrow> central_db \<Rightarrow> cleanup_row list" where
  "cleanup_batch limit db = take limit (sort_key cl_id (filter (\<lambda>r. cl_processed r = None) (ct_cleanup db)))"

definition process_cleanup :: "(nat \<Rightarrow> string option) \<Rightarrow> time \<Rightarrow> nat \<Rightarrow> person_site \<Rightarrow> person_site \<times> nat" where
  "process_cleanup failure now limit s =
     (let rows = cleanup_batch limit (st_db s)
      in (fold (cleanup_one failure now) rows s, length (filter (\<lambda>r. failure (cl_id r) = None) rows)))"

subsection \<open>Handlers\<close>

definition person_role :: "current_user \<Rightarrow> unit reply" where
  "person_role user = guardE (me_role user \<in> {Staff, Admin, SuperAdmin}) (HttpError 403 ''Insufficient permissions'')"

text \<open>What a reply shows: never the encoding, and the digits masked.\<close>

definition public_person :: "person_reg \<Rightarrow> person_reg" where
  "public_person p = p\<lparr>pr_aadhaar := ''****'', pr_encoding := []\<rparr>"

record person_form =
  fo_name :: string
  fo_phone :: string
  fo_aadhaar :: string

definition four_digits :: "string \<Rightarrow> bool" where
  "four_digits s \<longleftrightarrow> length s = 4 \<and> list_all is_digit_char s"

definition check_form :: "person_form \<Rightarrow> unit reply" where
  "check_form f =
     bindE (guardE (1 \<le> length (fo_name f) \<and> length (fo_name f) \<le> 255) (HttpError 422 ''full_name'')) (\<lambda>_.
     bindE (guardE (3 \<le> length (fo_phone f) \<and> length (fo_phone f) \<le> 20) (HttpError 422 ''phone'')) (\<lambda>_.
     guardE (four_digits (fo_aadhaar f)) (HttpError 422 ''aadhaar_last4'')))"

text \<open>
  The environment of a request that writes: the bucket, the encoder, the clock, the UUIDs of the
  image and of the row, and whether the transaction is committed.
\<close>

record person_env =
  pe_bucket :: string
  pe_engine :: person_engine
  pe_now :: time
  pe_image :: ident
  pe_row :: ident
  pe_commits :: bool

definition server_error :: http_error where
  "server_error = HttpError 500 ''Internal server error''"

definition after_failure :: "person_env \<Rightarrow> person_site \<Rightarrow> person_site" where
  "after_failure env s = s\<lparr>st_db := enqueue_cleanup (pe_bucket env) (face_object (pe_image env)) (st_db s)\<rparr>"

definition create_person ::
  "person_env \<Rightarrow> current_user \<Rightarrow> person_form \<Rightarrow> upload \<Rightarrow> person_site \<Rightarrow> person_site \<times> person_reg reply" where
  "create_person env user form face s =
     (case bindE (person_role user) (\<lambda>_. bindE (check_form form) (\<lambda>_.
             bindE (authorize user ''persons'' ''create'' (Some (me_id user)) None) (\<lambda>_. prepare_face (pe_engine env) face))) of
        Inl e \<Rightarrow> (s, Inl e)
      | Inr (jpeg, encoding) \<Rightarrow>
          let s1 = put_object (pe_bucket env) (face_object (pe_image env)) s;
              row = \<lparr>pr_id = pe_row env, pr_name = fo_name form, pr_phone = fo_phone form, pr_aadhaar = fo_aadhaar form,
                     pr_encoding = encoding, pr_image = Some (pe_image env), pr_registered_by = me_id user,
                     pr_entry_time = None, pr_created = pe_now env\<rparr>
          in if pe_commits env
             then (s1\<lparr>st_db := write_audit (me_id user) ''create'' ''events.registered_person'' (Some (pe_row env)) (JObj [])
                      ((st_db s1)\<lparr>ct_persons := ct_persons (st_db s1) @ [row]\<rparr>)\<rparr>, Inr (public_person row))
             else (after_failure env s1, Inl server_error))"

definition find_person :: "ident \<Rightarrow> central_db \<Rightarrow> person_reg option" where
  "find_person i db = List.find (\<lambda>p. pr_id p = i) (ct_persons db)"

text \<open>\<open>LIKE\<close>, on texts in lower case: \<open>%\<close> is any text, \<open>_\<close> any character, a backslash takes the next one.\<close>

fun sql_like :: "string \<Rightarrow> string \<Rightarrow> bool" where
  "sql_like [] t \<longleftrightarrow> t = []"
| "sql_like (c # p) [] \<longleftrightarrow> c = CHR ''%'' \<and> sql_like p []"
| "sql_like (c # p) (x # t) \<longleftrightarrow>
     (if c = CHR ''%'' then sql_like p (x # t) \<or> sql_like (c # p) t
      else if c = CHR ''_'' then sql_like p t
      else if c = CHR 0x5C then (case p of [] \<Rightarrow> False | e # p' \<Rightarrow> e = x \<and> sql_like p' t)
      else c = x \<and> sql_like p t)"

definition ilike :: "string \<Rightarrow> string \<Rightarrow> bool" where
  "ilike pattern text \<longleftrightarrow> sql_like (py_lower pattern) (py_lower text)"

definition owner_only :: "permission_row option \<Rightarrow> bool" where
  "owner_only permission = (case permission of None \<Rightarrow> False
     | Some p \<Rightarrow> (case jget (pm_constraints p) ''owner_only'' of None \<Rightarrow> False | Some v \<Rightarrow> truthy v))"

definition person_found :: "string option \<Rightarrow> bool \<Rightarrow> ident \<Rightarrow> person_reg \<Rightarrow> bool" where
  "person_found search own me p \<longleftrightarrow>
     (case search of None \<Rightarrow> True
      | Some text \<Rightarrow> text = [] \<or> ilike (''%'' @ text @ ''%'') (pr_name p) \<or> ilike (''%'' @ text @ ''%'') (pr_phone p))
     \<and> (\<not> own \<or> pr_registered_by p = me)"

definition list_persons ::
  "current_user \<Rightarrow> nat \<Rightarrow> nat \<Rightarrow> string option \<Rightarrow> central_db \<Rightarrow> (person_reg list \<times> nat) reply" where
  "list_persons user page n search db =
     bindE (authorize user ''persons'' ''read'' None None) (\<lambda>permission.
     (let rows = filter (person_found search (owner_only permission) (me_id user)) (ct_persons db)
      in Inr (map public_person (page_of pr_created page n rows), length rows)))"

definition get_person :: "current_user \<Rightarrow> ident \<Rightarrow> central_db \<Rightarrow> person_reg reply" where
  "get_person user i db = (case find_person i db of
     None \<Rightarrow> Inl (HttpError 404 ''Registered person not found'')
   | Some row \<Rightarrow> bindE (authorize user ''persons'' ''read'' (Some (pr_registered_by row)) (Some i)) (\<lambda>_.
       Inr (public_person row)))"

record person_update =
  pu_name :: "string option"
  pu_phone :: "string option"
  pu_aadhaar :: "string option"

definition check_person_update :: "person_update \<Rightarrow> person_update reply" where
  "check_person_update p =
     bindE (opt_field (text_field ''full_name'' 1 255) (pu_name p)) (\<lambda>name.
     bindE (opt_field (text_field ''phone'' 3 20) (pu_phone p)) (\<lambda>phone.
     bindE (opt_field (\<lambda>t. bindE (guardE (four_digits (trim t)) (HttpError 422 ''aadhaar_last4'')) (\<lambda>_. Inr (trim t)))
              (pu_aadhaar p)) (\<lambda>aadhaar.
     Inr \<lparr>pu_name = name, pu_phone = phone, pu_aadhaar = aadhaar\<rparr>)))"

definition person_fields :: "person_update \<Rightarrow> (string \<times> bool) list" where
  "person_fields p = [(''full_name'', pu_name p \<noteq> None), (''phone'', pu_phone p \<noteq> None),
     (''aadhaar_last4'', pu_aadhaar p \<noteq> None)]"

definition apply_person_update :: "person_update \<Rightarrow> person_reg \<Rightarrow> person_reg" where
  "apply_person_update p r =
     r\<lparr>pr_name := (case pu_name p of None \<Rightarrow> pr_name r | Some v \<Rightarrow> v),
       pr_phone := (case pu_phone p of None \<Rightarrow> pr_phone r | Some v \<Rightarrow> v),
       pr_aadhaar := (case pu_aadhaar p of None \<Rightarrow> pr_aadhaar r | Some v \<Rightarrow> v)\<rparr>"

definition update_persons :: "ident \<Rightarrow> (person_reg \<Rightarrow> person_reg) \<Rightarrow> central_db \<Rightarrow> central_db" where
  "update_persons i f db = db\<lparr>ct_persons := table_update (\<lambda>p. pr_id p = i) f (ct_persons db)\<rparr>"

definition may_change_person :: "current_user \<Rightarrow> string \<Rightarrow> ident \<Rightarrow> central_db \<Rightarrow> person_reg reply" where
  "may_change_person user action i db =
     bindE (person_role user) (\<lambda>_.
     (case find_person i db of
        None \<Rightarrow> Inl (HttpError 404 ''Registered person not found'')
      | Some row \<Rightarrow> bindE (authorize user ''persons'' action (Some (pr_registered_by row)) (Some i)) (\<lambda>_. Inr row)))"

definition update_person ::
  "current_user \<Rightarrow> ident \<Rightarrow> person_update \<Rightarrow> person_site \<Rightarrow> person_site \<times> person_reg reply" where
  "update_person user i payload s =
     (case bindE (check_person_update payload) (\<lambda>p.
             bindE (may_change_person user ''update'' i (st_db s)) (\<lambda>row.
             bindE (guardE (list_ex snd (person_fields p)) (HttpError 400 ''At least one field is required'')) (\<lambda>_. Inr (p, row)))) of
        Inl e \<Rightarrow> (s, Inl e)
      | Inr (p, row) \<Rightarrow>
          (s\<lparr>st_db := write_audit (me_id user) ''update'' ''events.registered_person'' (Some i) (fields_of (person_fields p))
               (update_persons i (apply_person_update p) (st_db s))\<rparr>, Inr (public_person (apply_person_update p row))))"

definition delete_person ::
  "person_env \<Rightarrow> (nat \<Rightarrow> string option) \<Rightarrow> current_user \<Rightarrow> ident \<Rightarrow> person_site \<Rightarrow> person_site \<times> unit reply" where
  "delete_person env failure user i s =
     (case may_change_person user ''delete'' i (st_db s) of
        Inl e \<Rightarrow> (s, Inl e)
      | Inr row \<Rightarrow>
          let db1 = (st_db s)\<lparr>ct_persons := filter (\<lambda>p. pr_id p \<noteq> i) (ct_persons (st_db s))\<rparr>;
              db2 = (case pr_image row of None \<Rightarrow> db1 | Some img \<Rightarrow> enqueue_cleanup (pe_bucket env) (face_object img) db1);
              db3 = write_audit (me_id user) ''delete'' ''events.registered_person'' (Some i) (JObj []) db2
          in (fst (process_cleanup failure (pe_now env) 25 (s\<lparr>st_db := db3\<rparr>)), Inr ()))"

text \<open>\<open>update_face\<close> up to the upload: the image the person had and the new encoding.\<close>

definition update_face_read ::
  "person_env \<Rightarrow> current_user \<Rightarrow> ident \<Rightarrow> upload \<Rightarrow> person_site \<Rightarrow> (ident option \<times> string) reply" where
  "update_face_read env user i face s =
     bindE (may_change_person user ''update'' i (st_db s)) (\<lambda>row.
     bindE (prepare_face (pe_engine env) face) (\<lambda>r. Inr (pr_image row, snd r)))"

text \<open>The upload and the transaction, which does not look whether the row still exists.\<close>

definition update_face_write ::
  "person_env \<Rightarrow> (nat \<Rightarrow> string option) \<Rightarrow> current_user \<Rightarrow> ident \<Rightarrow> ident option \<times> string \<Rightarrow> person_site
    \<Rightarrow> person_site \<times> person_reg reply" where
  "update_face_write env failure user i r s =
     (let s1 = put_object (pe_bucket env) (face_object (pe_image env)) s;
          change = (\<lambda>p. p\<lparr>pr_encoding := snd r, pr_image := Some (pe_image env)\<rparr>);
          db1 = update_persons i change (st_db s1);
          db2 = (case fst r of None \<Rightarrow> db1 | Some old \<Rightarrow> enqueue_cleanup (pe_bucket env) (face_object old) db1);
          db3 = write_audit (me_id user) ''update_face'' ''events.registered_person'' (Some i) (JObj []) db2;
          s2 = s1\<lparr>st_db := db3\<rparr>
      in if \<not> pe_commits env then (after_failure env s1, Inl server_error)
         else (case fst r of None \<Rightarrow> s2 | Some old \<Rightarrow> fst (process_cleanup failure (pe_now env) 25 s2),
               case find_person i (st_db s) of None \<Rightarrow> Inl server_error | Some p \<Rightarrow> Inr (public_person (change p))))"

definition update_face ::
  "person_env \<Rightarrow> (nat \<Rightarrow> string option) \<Rightarrow> current_user \<Rightarrow> ident \<Rightarrow> upload \<Rightarrow> person_site \<Rightarrow> person_site \<times> person_reg reply" where
  "update_face env failure user i face s =
     (case update_face_read env user i face s of Inl e \<Rightarrow> (s, Inl e) | Inr r \<Rightarrow> update_face_write env failure user i r s)"

subsection \<open>Export\<close>

text \<open>One page of the export, and the loop over the pages on a table that does not change.\<close>

definition export_page :: "nat \<Rightarrow> ident option \<Rightarrow> central_db \<Rightarrow> person_reg list" where
  "export_page n last_id db = take n (sort_key pr_id
     (filter (\<lambda>p. case last_id of None \<Rightarrow> True | Some l \<Rightarrow> l < pr_id p) (ct_persons db)))"

lemma export_page_rest:
  assumes "export_page n last_id db \<noteq> []"
  shows "length (filter (\<lambda>p. pr_id (List.last (export_page n last_id db)) < pr_id p) (ct_persons db))
       < length (filter (\<lambda>p. case last_id of None \<Rightarrow> True | Some l \<Rightarrow> l < pr_id p) (ct_persons db))"
proof -
  let ?P = "\<lambda>p. case last_id of None \<Rightarrow> True | Some l \<Rightarrow> l < pr_id p"
  let ?x = "List.last (export_page n last_id db)"
  have "?x \<in> set (export_page n last_id db)" using assms by (rule last_in_set)
  moreover have "set (export_page n last_id db) \<subseteq> {p \<in> set (ct_persons db). ?P p}"
    by (auto simp: export_page_def dest!: in_set_takeD)
  ultimately have x: "?x \<in> set (ct_persons db)" "?P ?x" by blast+
  have "filter (\<lambda>p. pr_id ?x < pr_id p) (ct_persons db) = filter (\<lambda>p. pr_id ?x < pr_id p) (filter ?P (ct_persons db))"
    using x(2) by (auto simp: filter_filter split: option.splits intro!: filter_cong)
  moreover have "length (filter (\<lambda>p. pr_id ?x < pr_id p) (filter ?P (ct_persons db))) < length (filter ?P (ct_persons db))"
    using x by (intro length_filter_less [of ?x]) auto
  ultimately show ?thesis by simp
qed

lemma export_page_step:
  "export_page n last_id db = r # rs \<Longrightarrow>
     length (filter (\<lambda>p. pr_id (List.last (r # rs)) < pr_id p) (ct_persons db))
       < length (filter (\<lambda>p. case last_id of None \<Rightarrow> True | Some l \<Rightarrow> l < pr_id p) (ct_persons db))"
  using export_page_rest [of n last_id db] by (metis list.distinct(1))

function export_from :: "nat \<Rightarrow> ident option \<Rightarrow> central_db \<Rightarrow> person_reg list" where
  "export_from n last_id db =
     (case export_page n last_id db of
        [] \<Rightarrow> []
      | r # rs \<Rightarrow> (r # rs) @ export_from n (Some (pr_id (List.last (r # rs)))) db)"
  by auto

termination export_from
  by (relation "measure (\<lambda>(n, last_id, db). length (filter (\<lambda>p. case last_id of None \<Rightarrow> True | Some l \<Rightarrow> l < pr_id p) (ct_persons db)))")
     (simp_all add: export_page_step del: last.simps)

definition export_persons :: "current_user \<Rightarrow> central_db \<Rightarrow> person_reg list reply" where
  "export_persons admin db =
     bindE (guardE (me_role admin \<in> {Admin, SuperAdmin}) (HttpError 403 ''Insufficient permissions'')) (\<lambda>_.
       Inr (export_from 500 None db))"

end
