(* ===== verification/Central_Person_Props.thy ===== *)
theory Central_Person_Props
  imports Central_Persons
begin

section \<open>Properties of the registered persons\<close>

text \<open>
  Every face image in the store is either the image of a person or waits in the outbox to be deleted,
  and no image of a person is ever deleted, as long as the requests do not overlap; where two
  \<open>update_face\<close> requests overlap, an image is lost. The export lists every person once, in order.
\<close>

subsection \<open>Accounting for the images\<close>

definition accounted :: "string \<Rightarrow> person_reg list \<Rightarrow> cleanup_row list \<Rightarrow> (string \<times> string) list \<Rightarrow> bool" where
  "accounted b persons cleanup objects \<longleftrightarrow>
     distinct (map pr_id persons) \<and> distinct (map cl_id cleanup)
   \<and> (\<forall>p \<in> set persons. \<forall>q \<in> set persons. \<forall>i. pr_image p = Some i \<and> pr_image q = Some i \<longrightarrow> pr_id p = pr_id q)
   \<and> (\<forall>p \<in> set persons. \<forall>i. pr_image p = Some i \<longrightarrow> (b, face_object i) \<in> set objects)
   \<and> (\<forall>p \<in> set persons. \<forall>i. \<forall>r \<in> set cleanup. pr_image p = Some i \<longrightarrow> (cl_bucket r, cl_object r) \<noteq> (b, face_object i))
   \<and> (\<forall>x \<in> set objects. (\<exists>p \<in> set persons. \<exists>i. pr_image p = Some i \<and> x = (b, face_object i))
        \<or> (\<exists>r \<in> set cleanup. cl_processed r = None \<and> x = (cl_bucket r, cl_object r)))"

definition images_ok :: "string \<Rightarrow> person_site \<Rightarrow> bool" where
  "images_ok b s \<longleftrightarrow> accounted b (ct_persons (st_db s)) (ct_cleanup (st_db s)) (st_objects s)"

lemma face_object_inj [simp]: "face_object i = face_object j \<longleftrightarrow> i = j"
  by (simp add: face_object_def)

lemma accountedD:
  assumes "accounted b persons cleanup objects"
  shows "distinct (map pr_id persons)" "distinct (map cl_id cleanup)"
    "\<And>p q i. p \<in> set persons \<Longrightarrow> q \<in> set persons \<Longrightarrow> pr_image p = Some i \<Longrightarrow> pr_image q = Some i \<Longrightarrow> pr_id p = pr_id q"
    "\<And>p i. p \<in> set persons \<Longrightarrow> pr_image p = Some i \<Longrightarrow> (b, face_object i) \<in> set objects"
    "\<And>p i r. p \<in> set persons \<Longrightarrow> pr_image p = Some i \<Longrightarrow> r \<in> set cleanup \<Longrightarrow> (cl_bucket r, cl_object r) \<noteq> (b, face_object i)"
    "\<And>x. x \<in> set objects \<Longrightarrow> (\<exists>p \<in> set persons. \<exists>i. pr_image p = Some i \<and> x = (b, face_object i))
        \<or> (\<exists>r \<in> set cleanup. cl_processed r = None \<and> x = (cl_bucket r, cl_object r))"
  using assms unfolding accounted_def by blast+

lemma accountedI:
  assumes "distinct (map pr_id persons)" "distinct (map cl_id cleanup)"
    "\<And>p q i. p \<in> set persons \<Longrightarrow> q \<in> set persons \<Longrightarrow> pr_image p = Some i \<Longrightarrow> pr_image q = Some i \<Longrightarrow> pr_id p = pr_id q"
    "\<And>p i. p \<in> set persons \<Longrightarrow> pr_image p = Some i \<Longrightarrow> (b, face_object i) \<in> set objects"
    "\<And>p i r. p \<in> set persons \<Longrightarrow> pr_image p = Some i \<Longrightarrow> r \<in> set cleanup \<Longrightarrow> (cl_bucket r, cl_object r) \<noteq> (b, face_object i)"
    "\<And>x. x \<in> set objects \<Longrightarrow> (\<exists>p \<in> set persons. \<exists>i. pr_image p = Some i \<and> x = (b, face_object i))
        \<or> (\<exists>r \<in> set cleanup. cl_processed r = None \<and> x = (cl_bucket r, cl_object r))"
  shows "accounted b persons cleanup objects"
  using assms unfolding accounted_def by blast

text \<open>Two persons with the same identity are the same.\<close>

lemma same_person:
  "distinct (map pr_id persons) \<Longrightarrow> p \<in> set persons \<Longrightarrow> q \<in> set persons \<Longrightarrow> pr_id p = pr_id q \<Longrightarrow> p = q"
  by (simp add: distinct_map inj_on_def)

lemma same_cleanup:
  "distinct (map cl_id rows) \<Longrightarrow> p \<in> set rows \<Longrightarrow> q \<in> set rows \<Longrightarrow> cl_id p = cl_id q \<Longrightarrow> p = q"
  by (simp add: distinct_map inj_on_def)

subsection \<open>The outbox\<close>

definition cleanup_key :: "cleanup_row \<Rightarrow> nat \<times> string \<times> string" where
  "cleanup_key r = (cl_id r, cl_bucket r, cl_object r)"

lemma cleanup_one_fields:
  "ct_persons (st_db (cleanup_one failure now row s)) = ct_persons (st_db s)"
  "map cleanup_key (ct_cleanup (st_db (cleanup_one failure now row s))) = map cleanup_key (ct_cleanup (st_db s))"
  by (simp_all add: cleanup_one_def update_cleanup_def map_table_update cleanup_key_def split: option.splits)

lemma cleanup_key_ids: "map cl_id rows = map fst (map cleanup_key rows)"
  by (simp add: cleanup_key_def)

lemma cleanup_one_ok:
  assumes ok: "images_ok b s" and row: "cleanup_key row \<in> cleanup_key ` set (ct_cleanup (st_db s))"
  shows "images_ok b (cleanup_one failure now row s)"
proof -
  let ?ps = "ct_persons (st_db s)" and ?cs = "ct_cleanup (st_db s)" and ?s = "cleanup_one failure now row s"
  note a = accountedD [OF ok [unfolded images_ok_def]]
  have keys: "map cleanup_key (ct_cleanup (st_db ?s)) = map cleanup_key ?cs" by (rule cleanup_one_fields)
  have ids: "distinct (map cl_id (ct_cleanup (st_db ?s)))" using a(2) unfolding cleanup_key_ids keys .
  have old: "\<exists>r' \<in> set ?cs. cl_bucket r' = cl_bucket r \<and> cl_object r' = cl_object r" if "r \<in> set (ct_cleanup (st_db ?s))" for r
  proof -
    from that have "cleanup_key r \<in> set (map cleanup_key (ct_cleanup (st_db ?s)))" by simp
    then have "cleanup_key r \<in> set (map cleanup_key ?cs)" unfolding keys .
    then show ?thesis by (auto simp: cleanup_key_def)
  qed
  have disjoint: "(cl_bucket r, cl_object r) \<noteq> (b, face_object i)"
    if "p \<in> set ?ps" "pr_image p = Some i" "r \<in> set (ct_cleanup (st_db ?s))" for p i r
    using old [OF that(3)] a(5) [OF that(1,2)] by auto
  from row obtain row' where row': "row' \<in> set ?cs" "cl_id row' = cl_id row" "cl_bucket row' = cl_bucket row"
    "cl_object row' = cl_object row" by (auto simp: cleanup_key_def)
  show ?thesis
  proof (cases "failure (cl_id row)")
    case None
    have obj: "st_objects ?s = filter (\<lambda>x. x \<noteq> (cl_bucket row, cl_object row)) (st_objects s)"
      using None by (simp add: cleanup_one_def update_cleanup_def)
    have stays: "r \<in> set (ct_cleanup (st_db ?s))" if "r \<in> set ?cs" "cl_id r \<noteq> cl_id row" for r
      using that None by (auto simp: cleanup_one_def update_cleanup_def in_table_update)
    show ?thesis unfolding images_ok_def cleanup_one_fields
    proof (rule accountedI [OF a(1) ids a(3) _ disjoint])
      fix p i assume p: "p \<in> set ?ps" "pr_image p = Some i"
      have "(cl_bucket row, cl_object row) \<noteq> (b, face_object i)" using a(5) [OF p row'(1)] row' by simp
      with a(4) [OF p] show "(b, face_object i) \<in> set (st_objects ?s)" by (auto simp: obj)
    next
      fix x assume "x \<in> set (st_objects ?s)"
      then have x: "x \<in> set (st_objects s)" "x \<noteq> (cl_bucket row, cl_object row)" by (auto simp: obj)
      from a(6) [OF x(1)] show "(\<exists>p \<in> set ?ps. \<exists>i. pr_image p = Some i \<and> x = (b, face_object i))
          \<or> (\<exists>r \<in> set (ct_cleanup (st_db ?s)). cl_processed r = None \<and> x = (cl_bucket r, cl_object r))"
      proof
        assume "\<exists>r \<in> set ?cs. cl_processed r = None \<and> x = (cl_bucket r, cl_object r)"
        then obtain r where r: "r \<in> set ?cs" "cl_processed r = None" "x = (cl_bucket r, cl_object r)" by blast
        have "cl_id r \<noteq> cl_id row"
        proof
          assume "cl_id r = cl_id row"
          with same_cleanup [OF a(2) r(1) row'(1)] row'(2) have "r = row'" by simp
          with r(3) x(2) row' show False by simp
        qed
        with stays [OF r(1)] r show ?thesis by blast
      qed blast
    qed
  next
    case (Some msg)
    have obj: "st_objects ?s = st_objects s"
      using Some by (simp add: cleanup_one_def update_cleanup_def)
    have cs: "ct_cleanup (st_db ?s) = table_update (\<lambda>r. cl_id r = cl_id row \<and> cl_processed r = None)
        (\<lambda>r. r\<lparr>cl_attempts := cl_attempts r + 1, cl_last_error := Some (take 2000 msg)\<rparr>) ?cs"
      using Some by (simp add: cleanup_one_def update_cleanup_def)
    have stays: "\<exists>r' \<in> set (ct_cleanup (st_db ?s)). cl_processed r' = None \<and> cl_bucket r' = cl_bucket r \<and> cl_object r' = cl_object r"
      if "r \<in> set ?cs" "cl_processed r = None" for r
    proof -
      let ?r = "if cl_id r = cl_id row \<and> cl_processed r = None
        then r\<lparr>cl_attempts := cl_attempts r + 1, cl_last_error := Some (take 2000 msg)\<rparr> else r"
      have "?r \<in> set (ct_cleanup (st_db ?s))"
        unfolding cs in_table_update by (rule bexI [OF refl that(1)])
      then show ?thesis using that(2) by (intro bexI [of _ ?r]) simp_all
    qed
    show ?thesis unfolding images_ok_def cleanup_one_fields obj
    proof (rule accountedI [OF a(1) ids a(3) a(4) disjoint])
      fix x assume "x \<in> set (st_objects s)"
      from a(6) [OF this] show "(\<exists>p \<in> set ?ps. \<exists>i. pr_image p = Some i \<and> x = (b, face_object i))
          \<or> (\<exists>r \<in> set (ct_cleanup (st_db ?s)). cl_processed r = None \<and> x = (cl_bucket r, cl_object r))"
      proof
        assume "\<exists>r \<in> set ?cs. cl_processed r = None \<and> x = (cl_bucket r, cl_object r)"
        then obtain r where r: "r \<in> set ?cs" "cl_processed r = None" "x = (cl_bucket r, cl_object r)" by blast
        from stays [OF r(1,2)] r(3) show ?thesis by auto
      qed blast
    qed
  qed
qed

lemma cleanup_fold_ok:
  assumes "images_ok b s" and "cleanup_key ` set rows \<subseteq> cleanup_key ` set (ct_cleanup (st_db s))"
  shows "images_ok b (fold (cleanup_one failure now) rows s)"
  using assms
proof (induction rows arbitrary: s)
  case (Cons row rows)
  have "cleanup_key ` set (ct_cleanup (st_db (cleanup_one failure now row s))) = cleanup_key ` set (ct_cleanup (st_db s))"
    by (metis cleanup_one_fields(2) list.set_map)
  with Cons.prems Cons.IH [OF cleanup_one_ok [OF Cons.prems(1)]] show ?case by simp
qed simp

lemma process_cleanup_ok: "images_ok b s \<Longrightarrow> images_ok b (fst (process_cleanup failure now n s))"
  unfolding process_cleanup_def Let_def fst_conv
  by (rule cleanup_fold_ok) (auto simp: cleanup_batch_def dest!: in_set_takeD)

text \<open>An object that is in the way of the account is put into the outbox.\<close>

lemma accounted_queue:
  assumes acc: "accounted b ps cs (filter (\<lambda>y. y \<noteq> (b, n)) obs)"
    and unused: "\<And>p i. p \<in> set ps \<Longrightarrow> pr_image p = Some i \<Longrightarrow> face_object i \<noteq> n"
    and new: "cl_id r \<notin> cl_id ` set cs" and r: "cl_bucket r = b" "cl_object r = n" "cl_processed r = None"
  shows "accounted b ps (cs @ [r]) obs"
proof -
  note a = accountedD [OF acc]
  show ?thesis
  proof (rule accountedI [OF a(1) _ a(3)])
    show "distinct (map cl_id (cs @ [r]))" using a(2) new by simp
  next
    fix p i assume p: "p \<in> set ps" "pr_image p = Some i"
    from a(4) [OF p] show "(b, face_object i) \<in> set obs" by simp
    fix q assume "q \<in> set (cs @ [r])"
    then show "(cl_bucket q, cl_object q) \<noteq> (b, face_object i)" using a(5) [OF p, of q] unused [OF p] r by auto
  next
    fix x assume x: "x \<in> set obs"
    show "(\<exists>p \<in> set ps. \<exists>i. pr_image p = Some i \<and> x = (b, face_object i))
        \<or> (\<exists>q \<in> set (cs @ [r]). cl_processed q = None \<and> x = (cl_bucket q, cl_object q))"
    proof (cases "x = (b, n)")
      case True
      then show ?thesis using r by (intro disjI2 bexI [of _ r]) simp_all
    next
      case False
      with a(6) [of x] x show ?thesis by auto
    qed
  qed
qed

lemma max_id_fresh: "Suc (Max (insert 0 (set ids))) \<notin> set ids" for ids :: "nat list"
proof
  assume "Suc (Max (insert 0 (set ids))) \<in> set ids"
  then have "Suc (Max (insert 0 (set ids))) \<le> Max (insert 0 (set ids))" by (intro Max_ge) auto
  then show False by simp
qed

lemma enqueue_cleanup_ok:
  assumes acc: "accounted b (ct_persons db) (ct_cleanup db) (filter (\<lambda>y. y \<noteq> (b, n)) obs)"
    and unused: "\<And>p i. p \<in> set (ct_persons db) \<Longrightarrow> pr_image p = Some i \<Longrightarrow> face_object i \<noteq> n"
    and fresh: "\<And>r. r \<in> set (ct_cleanup db) \<Longrightarrow> (cl_bucket r, cl_object r) \<noteq> (b, n)"
  shows "accounted b (ct_persons db) (ct_cleanup (enqueue_cleanup b n db)) obs"
proof -
  have "\<not> list_ex (\<lambda>r. cl_bucket r = b \<and> cl_object r = n) (ct_cleanup db)"
    using fresh by (auto simp: list_ex_iff)
  then show ?thesis
    using accounted_queue [OF acc unused] max_id_fresh [of "map cl_id (ct_cleanup db)"]
    by (simp add: enqueue_cleanup_def)
qed

lemma enqueue_cleanup_persons [simp]: "ct_persons (enqueue_cleanup b n db) = ct_persons db"
  by (simp add: enqueue_cleanup_def)

lemma write_audit_fields [simp]:
  "ct_persons (write_audit u a r i m db) = ct_persons db" "ct_cleanup (write_audit u a r i m db) = ct_cleanup db"
  by (simp_all add: write_audit_def)

text \<open>A UUID that was never drawn before.\<close>

definition fresh_image :: "person_env \<Rightarrow> person_site \<Rightarrow> bool" where
  "fresh_image env s \<longleftrightarrow> (pe_bucket env, face_object (pe_image env)) \<notin> set (st_objects s)
     \<and> (\<forall>r \<in> set (ct_cleanup (st_db s)). (cl_bucket r, cl_object r) \<noteq> (pe_bucket env, face_object (pe_image env)))
     \<and> pe_row env \<notin> pr_id ` set (ct_persons (st_db s))"

lemma fresh_unused:
  assumes "images_ok b s" "fresh_image env s" "pe_bucket env = b" "p \<in> set (ct_persons (st_db s))" "pr_image p = Some i"
  shows "i \<noteq> pe_image env"
  using accountedD(4) [OF assms(1) [unfolded images_ok_def] assms(4,5)] assms(2,3) by (auto simp: fresh_image_def)

lemma filter_absent: "x \<notin> set xs \<Longrightarrow> filter (\<lambda>y. y \<noteq> x) xs = xs"
  by (induction xs) auto

lemma failed_upload_ok:
  assumes ok: "images_ok b s" and f: "fresh_image env s" and b: "pe_bucket env = b"
  shows "images_ok b (after_failure env (put_object b (face_object (pe_image env)) s))"
proof -
  let ?n = "face_object (pe_image env)"
  have "filter (\<lambda>y. y \<noteq> (b, ?n)) ((b, ?n) # st_objects s) = st_objects s"
    using f b filter_absent [of "(b, ?n)" "st_objects s"] by (simp add: fresh_image_def)
  then have acc: "accounted b (ct_persons (st_db s)) (ct_cleanup (st_db s))
      (filter (\<lambda>y. y \<noteq> (b, ?n)) ((b, ?n) # st_objects s))"
    using ok by (simp add: images_ok_def)
  have "accounted b (ct_persons (st_db s)) (ct_cleanup (enqueue_cleanup b ?n (st_db s))) ((b, ?n) # st_objects s)"
  proof (rule enqueue_cleanup_ok [OF acc])
    fix p i assume "p \<in> set (ct_persons (st_db s))" "pr_image p = Some i"
    from fresh_unused [OF ok f b this] show "face_object i \<noteq> ?n" by simp
  next
    fix r assume "r \<in> set (ct_cleanup (st_db s))"
    with f b show "(cl_bucket r, cl_object r) \<noteq> (b, ?n)" by (simp add: fresh_image_def)
  qed
  then show ?thesis using b by (simp add: images_ok_def after_failure_def put_object_def)
qed

lemma accounted_add:
  assumes acc: "accounted b ps cs obs" and id: "pr_id row \<notin> pr_id ` set ps" and img: "pr_image row = Some g"
    and unused: "\<And>p. p \<in> set ps \<Longrightarrow> pr_image p \<noteq> Some g"
    and unqueued: "\<And>r. r \<in> set cs \<Longrightarrow> (cl_bucket r, cl_object r) \<noteq> (b, face_object g)"
  shows "accounted b (ps @ [row]) cs ((b, face_object g) # obs)"
proof -
  note a = accountedD [OF acc]
  show ?thesis
  proof (rule accountedI)
    show "distinct (map pr_id (ps @ [row]))" using a(1) id by auto
    show "distinct (map cl_id cs)" by (rule a(2))
  next
    fix p i assume p: "p \<in> set (ps @ [row])" "pr_image p = Some i"
    show "(b, face_object i) \<in> set ((b, face_object g) # obs)" using p a(4) img by auto
    fix q assume q: "q \<in> set (ps @ [row])" "pr_image q = Some i"
    show "pr_id p = pr_id q"
    proof (cases "i = g")
      case True
      then have "p = row" "q = row" using p q unused by auto
      then show ?thesis by simp
    next
      case False
      then have "p \<in> set ps" "q \<in> set ps" using p q img by auto
      then show ?thesis using p(2) q(2) by (rule a(3))
    qed
  next
    fix p i q assume "p \<in> set (ps @ [row])" "pr_image p = Some i" "q \<in> set cs"
    then show "(cl_bucket q, cl_object q) \<noteq> (b, face_object i)"
      using a(5) [of p i q] unqueued img by (cases "p = row") simp_all
  next
    fix x assume "x \<in> set ((b, face_object g) # obs)"
    then show "(\<exists>p \<in> set (ps @ [row]). \<exists>i. pr_image p = Some i \<and> x = (b, face_object i))
        \<or> (\<exists>q \<in> set cs. cl_processed q = None \<and> x = (cl_bucket q, cl_object q))"
      using a(6) [of x] img by auto
  qed
qed

lemma create_person_ok:
  assumes ok: "images_ok b s" and f: "fresh_image env s" and b: "pe_bucket env = b"
  shows "images_ok b (fst (create_person env user form face s))"
proof -
  have unused: "pr_image p \<noteq> Some (pe_image env)" if "p \<in> set (ct_persons (st_db s))" for p
    using fresh_unused [OF ok f b that] by blast
  have "accounted b (ct_persons (st_db s) @ [row]) (ct_cleanup (st_db s)) ((b, face_object (pe_image env)) # st_objects s)"
    if "pr_id row = pe_row env" "pr_image row = Some (pe_image env)" for row
    by (rule accounted_add [OF ok [unfolded images_ok_def] _ that(2) unused])
      (use f b that in \<open>simp_all add: fresh_image_def\<close>)
  with ok failed_upload_ok [OF ok f b] b show ?thesis
    by (auto simp: create_person_def Let_def put_object_def images_ok_def split: sum.splits)
qed

text \<open>A person leaves, and with the person the image.\<close>

lemma accounted_drop:
  assumes acc: "accounted b ps cs obs" and row: "row \<in> set ps" "pr_id row = i"
  shows "accounted b (filter (\<lambda>p. pr_id p \<noteq> i) ps) cs
      (case pr_image row of None \<Rightarrow> obs | Some g \<Rightarrow> filter (\<lambda>y. y \<noteq> (b, face_object g)) obs)"
    and "\<And>p j. p \<in> set (filter (\<lambda>p. pr_id p \<noteq> i) ps) \<Longrightarrow> pr_image p = Some j \<Longrightarrow> pr_image row \<noteq> Some j"
proof -
  note a = accountedD [OF acc]
  show other: "pr_image row \<noteq> Some j" if "p \<in> set (filter (\<lambda>p. pr_id p \<noteq> i) ps)" "pr_image p = Some j" for p j
    using a(3) [of p row j] that row by auto
  show "accounted b (filter (\<lambda>p. pr_id p \<noteq> i) ps) cs
      (case pr_image row of None \<Rightarrow> obs | Some g \<Rightarrow> filter (\<lambda>y. y \<noteq> (b, face_object g)) obs)"
  proof (rule accountedI)
    show "distinct (map pr_id (filter (\<lambda>p. pr_id p \<noteq> i) ps))" using a(1) by (rule distinct_map_filter)
    show "distinct (map cl_id cs)" by (rule a(2))
  next
    fix p j assume p: "p \<in> set (filter (\<lambda>p. pr_id p \<noteq> i) ps)" "pr_image p = Some j"
    show "(b, face_object j) \<in> set (case pr_image row of None \<Rightarrow> obs | Some g \<Rightarrow> filter (\<lambda>y. y \<noteq> (b, face_object g)) obs)"
      using a(4) [of p j] other [OF p] p by (cases "pr_image row") auto
    fix q assume "q \<in> set (filter (\<lambda>p. pr_id p \<noteq> i) ps)" "pr_image q = Some j"
    then show "pr_id p = pr_id q" using a(3) [of p q j] p by simp
  next
    fix p j r assume "p \<in> set (filter (\<lambda>p. pr_id p \<noteq> i) ps)" "pr_image p = Some j" "r \<in> set cs"
    then show "(cl_bucket r, cl_object r) \<noteq> (b, face_object j)" using a(5) [of p j r] by simp
  next
    fix x assume x: "x \<in> set (case pr_image row of None \<Rightarrow> obs | Some g \<Rightarrow> filter (\<lambda>y. y \<noteq> (b, face_object g)) obs)"
    then have "x \<in> set obs" by (cases "pr_image row") auto
    from a(6) [OF this] show "(\<exists>p \<in> set (filter (\<lambda>p. pr_id p \<noteq> i) ps). \<exists>j. pr_image p = Some j \<and> x = (b, face_object j))
        \<or> (\<exists>q \<in> set cs. cl_processed q = None \<and> x = (cl_bucket q, cl_object q))"
    proof
      assume "\<exists>p \<in> set ps. \<exists>j. pr_image p = Some j \<and> x = (b, face_object j)"
      then obtain p j where p: "p \<in> set ps" "pr_image p = Some j" "x = (b, face_object j)" by blast
      have "pr_id p \<noteq> i"
      proof
        assume "pr_id p = i"
        with same_person [OF a(1) p(1) row(1)] row(2) have "p = row" by simp
        with p x show False by simp
      qed
      with p show ?thesis by auto
    qed blast
  qed
qed

lemma may_change_person_found:
  assumes "may_change_person user action i db = Inr row"
  shows "find_person i db = Some row \<and> row \<in> set (ct_persons db) \<and> pr_id row = i"
proof -
  from assms have f: "find_person i db = Some row"
    by (auto simp: may_change_person_def bindE_eq_Inr split: option.splits)
  then have "row \<in> set (ct_persons db) \<and> pr_id row = i" by (auto simp: find_person_def find_Some_iff in_set_conv_nth)
  with f show ?thesis by simp
qed

lemma delete_person_ok:
  assumes ok: "images_ok b s" and b: "pe_bucket env = b"
  shows "images_ok b (fst (delete_person env failure user i s))"
proof (cases "may_change_person user ''delete'' i (st_db s)")
  case (Inl e)
  then show ?thesis using ok by (simp add: delete_person_def)
next
  case (Inr row)
  from may_change_person_found [OF Inr] have row: "row \<in> set (ct_persons (st_db s))" "pr_id row = i" by simp_all
  note acc = ok [unfolded images_ok_def]
  note d = accounted_drop [OF acc row]
  let ?db = "(st_db s)\<lparr>ct_persons := filter (\<lambda>p. pr_id p \<noteq> i) (ct_persons (st_db s))\<rparr>"
  let ?q = "case pr_image row of None \<Rightarrow> ?db | Some g \<Rightarrow> enqueue_cleanup b (face_object g) ?db"
  have "accounted b (ct_persons ?q) (ct_cleanup ?q) (st_objects s)"
  proof (cases "pr_image row")
    case None
    then show ?thesis using d(1) by simp
  next
    case (Some g)
    have "accounted b (ct_persons ?db) (ct_cleanup (enqueue_cleanup b (face_object g) ?db)) (st_objects s)"
    proof (rule enqueue_cleanup_ok)
      show "accounted b (ct_persons ?db) (ct_cleanup ?db) (filter (\<lambda>y. y \<noteq> (b, face_object g)) (st_objects s))"
        using d(1) Some by simp
    next
      fix p j assume "p \<in> set (ct_persons ?db)" "pr_image p = Some j"
      with d(2) [of p j] Some show "face_object j \<noteq> face_object g" by auto
    next
      fix r assume "r \<in> set (ct_cleanup ?db)"
      then show "(cl_bucket r, cl_object r) \<noteq> (b, face_object g)" using accountedD(5) [OF acc row(1) Some, of r] by simp
    qed
    then show ?thesis using Some by simp
  qed
  then have "images_ok b (s\<lparr>st_db := write_audit (me_id user) ''delete'' ''events.registered_person'' (Some i) (JObj []) ?q\<rparr>)"
    by (simp add: images_ok_def)
  then show ?thesis unfolding delete_person_def Inr b Let_def sum.case fst_conv by (rule process_cleanup_ok)
qed

lemma accounted_same_images:
  assumes acc: "accounted b ps cs obs" and same: "map (\<lambda>p. (pr_id p, pr_image p)) ps' = map (\<lambda>p. (pr_id p, pr_image p)) ps"
  shows "accounted b ps' cs obs"
proof -
  note a = accountedD [OF acc]
  have "map fst (map (\<lambda>p. (pr_id p, pr_image p)) ps') = map fst (map (\<lambda>p. (pr_id p, pr_image p)) ps)" using same by simp
  then have ids: "map pr_id ps' = map pr_id ps" by (simp add: comp_def)
  have fwd: "\<exists>q \<in> set ps. pr_id q = pr_id p \<and> pr_image q = pr_image p" if "p \<in> set ps'" for p
  proof -
    have "(pr_id p, pr_image p) \<in> set (map (\<lambda>p. (pr_id p, pr_image p)) ps')" using that by simp
    then show ?thesis unfolding same by auto
  qed
  have bwd: "\<exists>q \<in> set ps'. pr_id q = pr_id p \<and> pr_image q = pr_image p" if "p \<in> set ps" for p
  proof -
    have "(pr_id p, pr_image p) \<in> set (map (\<lambda>p. (pr_id p, pr_image p)) ps)" using that by simp
    then show ?thesis unfolding same [symmetric] by auto
  qed
  show ?thesis
  proof (rule accountedI)
    show "distinct (map pr_id ps')" using a(1) ids by simp
    show "distinct (map cl_id cs)" by (rule a(2))
  next
    fix p q i assume "p \<in> set ps'" "q \<in> set ps'" "pr_image p = Some i" "pr_image q = Some i"
    with fwd a(3) show "pr_id p = pr_id q" by metis
  next
    fix p i assume p: "p \<in> set ps'" "pr_image p = Some i"
    with fwd [OF p(1)] obtain q where q: "q \<in> set ps" "pr_image q = Some i" by auto
    show "(b, face_object i) \<in> set obs" by (rule a(4) [OF q])
    fix r assume "r \<in> set cs"
    then show "(cl_bucket r, cl_object r) \<noteq> (b, face_object i)" by (rule a(5) [OF q])
  next
    fix x assume "x \<in> set obs"
    from a(6) [OF this] bwd
    show "(\<exists>p \<in> set ps'. \<exists>i. pr_image p = Some i \<and> x = (b, face_object i))
        \<or> (\<exists>q \<in> set cs. cl_processed q = None \<and> x = (cl_bucket q, cl_object q))" by metis
  qed
qed

lemma update_person_ok:
  assumes "images_ok b s"
  shows "images_ok b (fst (update_person user i payload s))"
  using assms
  by (auto simp: update_person_def images_ok_def update_persons_def table_update_def apply_person_update_def comp_def
      split: sum.splits intro!: accounted_same_images [where ps = "ct_persons (st_db s)"])

lemma accounted_sets:
  assumes acc: "accounted b ps cs obs" and ps: "set ps' = set ps" and d: "distinct (map pr_id ps')"
    and obs: "set obs' = set obs"
  shows "accounted b ps' cs obs'"
  using acc d unfolding accounted_def ps obs by (elim conjE) (intro conjI)

lemma set_replaced:
  assumes "distinct (map pr_id ps)" "row \<in> set ps" "pr_id row = i"
  shows "set (table_update (\<lambda>p. pr_id p = i) f ps) = set (filter (\<lambda>p. pr_id p \<noteq> i) ps @ [f row])"
proof -
  have only: "p = row" if "p \<in> set ps" "pr_id p = i" for p
    by (rule same_person [OF assms(1) that(1) assms(2)]) (simp add: that assms(3))
  show ?thesis
  proof (intro set_eqI iffI)
    fix x assume "x \<in> set (table_update (\<lambda>p. pr_id p = i) f ps)"
    then obtain p where p: "p \<in> set ps" "x = (if pr_id p = i then f p else p)" unfolding in_table_update ..
    then show "x \<in> set (filter (\<lambda>p. pr_id p \<noteq> i) ps @ [f row])"
      using only [OF p(1)] by (cases "pr_id p = i") simp_all
  next
    fix x assume "x \<in> set (filter (\<lambda>p. pr_id p \<noteq> i) ps @ [f row])"
    then consider "x \<in> set ps" "pr_id x \<noteq> i" | "x = f row" by auto
    then show "x \<in> set (table_update (\<lambda>p. pr_id p = i) f ps)"
    proof cases
      case 1
      then show ?thesis unfolding in_table_update by (intro bexI [of _ x]) simp_all
    next
      case 2
      then show ?thesis unfolding in_table_update using assms(2,3) by (intro bexI [of _ row]) simp_all
    qed
  qed
qed

lemma update_face_write_ok:
  assumes ok: "images_ok b s" and f: "fresh_image env s" and b: "pe_bucket env = b"
    and found: "find_person i (st_db s) = Some row" and row: "row \<in> set (ct_persons (st_db s))" "pr_id row = i"
  shows "images_ok b (fst (update_face_write env failure user i (pr_image row, enc) s))"
proof (cases "pe_commits env")
  case False
  then show ?thesis using failed_upload_ok [OF ok f b] b by (simp add: update_face_write_def Let_def)
next
  case True
  let ?ps = "ct_persons (st_db s)" and ?cs = "ct_cleanup (st_db s)" and ?g = "pe_image env"
  let ?change = "\<lambda>p. p\<lparr>pr_encoding := enc, pr_image := Some ?g\<rparr>"
  let ?rest = "filter (\<lambda>p. pr_id p \<noteq> i) ?ps" and ?new = "table_update (\<lambda>p. pr_id p = i) ?change ?ps"
  let ?obs = "(b, face_object ?g) # st_objects s"
  note acc = ok [unfolded images_ok_def]
  note a = accountedD [OF acc] and d = accounted_drop [OF acc row]
  have unqueued: "(cl_bucket r, cl_object r) \<noteq> (b, face_object ?g)" if "r \<in> set ?cs" for r
    using f b that by (simp add: fresh_image_def)
  have unused: "pr_image p \<noteq> Some ?g" if "p \<in> set ?ps" for p using fresh_unused [OF ok f b that] by blast
  have add: "accounted b (?rest @ [?change row]) ?cs ((b, face_object ?g) #
      (case pr_image row of None \<Rightarrow> st_objects s | Some g \<Rightarrow> filter (\<lambda>y. y \<noteq> (b, face_object g)) (st_objects s)))"
    by (rule accounted_add [OF d(1) _ _ _ unqueued]) (use row unused in auto)
  have dist: "distinct (map pr_id ?new)" using a(1) by (simp add: map_table_update)
  have sets: "set ?new = set (?rest @ [?change row])" by (rule set_replaced [OF a(1) row])
  let ?db = "update_persons i ?change (st_db s)"
  let ?q = "case pr_image row of None \<Rightarrow> ?db | Some old \<Rightarrow> enqueue_cleanup b (face_object old) ?db"
  have db: "ct_persons ?db = ?new" "ct_cleanup ?db = ?cs" by (simp_all add: update_persons_def)
  have "accounted b (ct_persons ?q) (ct_cleanup ?q) ?obs"
  proof (cases "pr_image row")
    case None
    then show ?thesis using accounted_sets [OF add sets dist] by (simp add: db)
  next
    case (Some old)
    have ne: "old \<noteq> ?g" using unused [OF row(1)] Some by auto
    have "accounted b ?new ?cs (filter (\<lambda>y. y \<noteq> (b, face_object old)) ?obs)"
      by (rule accounted_sets [OF add sets dist]) (use Some ne in auto)
    then have "accounted b (ct_persons ?db) (ct_cleanup (enqueue_cleanup b (face_object old) ?db)) ?obs"
    proof (intro enqueue_cleanup_ok, unfold db)
      fix p j assume "p \<in> set ?new" "pr_image p = Some j"
      then have "p \<in> set ?rest \<and> pr_image p = Some j \<or> j = ?g" unfolding sets by auto
      with d(2) [of p j] Some ne show "face_object j \<noteq> face_object old" by auto
    next
      fix r assume "r \<in> set ?cs"
      then show "(cl_bucket r, cl_object r) \<noteq> (b, face_object old)" using a(5) [OF row(1) Some, of r] by simp
    qed
    then show ?thesis using Some by simp
  qed
  then have ok': "images_ok b (s\<lparr>st_objects := ?obs,
      st_db := write_audit (me_id user) ''update_face'' ''events.registered_person'' (Some i) (JObj []) ?q\<rparr>)"
    by (simp add: images_ok_def)
  show ?thesis
  proof (cases "pr_image row")
    case None
    then show ?thesis using ok' True b by (simp add: update_face_write_def Let_def put_object_def)
  next
    case (Some old)
    then show ?thesis using process_cleanup_ok [OF ok', of failure "pe_now env" 25] True b
      by (simp add: update_face_write_def Let_def put_object_def)
  qed
qed

lemma update_face_ok:
  assumes ok: "images_ok b s" and f: "fresh_image env s" and b: "pe_bucket env = b"
  shows "images_ok b (fst (update_face env failure user i face s))"
proof (cases "update_face_read env user i face s")
  case (Inl e)
  then show ?thesis using ok by (simp add: update_face_def)
next
  case (Inr r)
  then obtain row where m: "may_change_person user ''update'' i (st_db s) = Inr row" and r: "r = (pr_image row, snd r)"
    by (auto simp: update_face_read_def bindE_eq_Inr)
  from may_change_person_found [OF m] have "find_person i (st_db s) = Some row" "row \<in> set (ct_persons (st_db s))" "pr_id row = i"
    by simp_all
  from update_face_write_ok [OF ok f b this, of failure user "snd r"] r Inr show ?thesis by (simp add: update_face_def)
qed

subsection \<open>Requests in any order\<close>

datatype person_call =
    CreatePerson person_form upload
  | UpdatePerson ident person_update
  | DeletePerson ident
  | UpdateFace ident upload
  | CleanupPass

definition person_effect ::
  "person_env \<Rightarrow> (nat \<Rightarrow> string option) \<Rightarrow> current_user \<Rightarrow> person_call \<Rightarrow> person_site \<Rightarrow> person_site" where
  "person_effect env failure user c s = (case c of
     CreatePerson form face \<Rightarrow> fst (create_person env user form face s)
   | UpdatePerson i payload \<Rightarrow> fst (update_person user i payload s)
   | DeletePerson i \<Rightarrow> fst (delete_person env failure user i s)
   | UpdateFace i face \<Rightarrow> fst (update_face env failure user i face s)
   | CleanupPass \<Rightarrow> fst (process_cleanup failure (pe_now env) 25 s))"

inductive person_reach :: "string \<Rightarrow> person_site \<Rightarrow> person_site \<Rightarrow> bool" for b s0 where
  person_start: "person_reach b s0 s0"
| person_step: "person_reach b s0 s \<Longrightarrow> fresh_image env s \<Longrightarrow> pe_bucket env = b \<Longrightarrow>
     person_reach b s0 (person_effect env failure user c s)"

text \<open>
  C33. No image is lost and none is deleted too early: whatever requests and cleanup passes are made
  one after the other, by whomever, failing transactions and failing deletions included, every object
  of the store is the image of a registered person or has a pending row in the outbox, every image of
  a person is in the store, and no row of the outbox names the image of a person.
\<close>

theorem images_accounted:
  assumes "images_ok b s0" and "person_reach b s0 s"
  shows "(\<forall>x \<in> set (st_objects s). (\<exists>p \<in> set (ct_persons (st_db s)). \<exists>i. pr_image p = Some i \<and> x = (b, face_object i))
        \<or> (\<exists>r \<in> set (ct_cleanup (st_db s)). cl_processed r = None \<and> x = (cl_bucket r, cl_object r)))
    \<and> (\<forall>p \<in> set (ct_persons (st_db s)). \<forall>i. pr_image p = Some i \<longrightarrow> (b, face_object i) \<in> set (st_objects s)
        \<and> (\<forall>r \<in> set (ct_cleanup (st_db s)). (cl_bucket r, cl_object r) \<noteq> (b, face_object i)))"
proof -
  from assms(2) have "images_ok b s"
  proof (induction rule: person_reach.induct)
    case person_start
    show ?case by (rule assms(1))
  next
    case (person_step s env failure user c)
    then show ?case
      by (cases c) (auto simp: person_effect_def intro: create_person_ok update_person_ok delete_person_ok update_face_ok process_cleanup_ok)
  qed
  then show ?thesis unfolding images_ok_def accounted_def by blast
qed

subsection \<open>The export\<close>

lemma after_last_taken:
  assumes "sorted (map k xs)" "distinct (map k xs)" "take n xs \<noteq> []"
  shows "filter (\<lambda>x. k (List.last (take n xs)) < k x) xs = drop n xs"
proof -
  let ?l = "List.last (take n xs)"
  have l: "?l \<in> set (take n xs)" using assms(3) by (rule last_in_set)
  have split: "xs = take n xs @ drop n xs" by simp
  have sd: "sorted (map k (take n xs) @ map k (drop n xs))" "distinct (map k (take n xs) @ map k (drop n xs))"
    using assms(1,2) by (metis split map_append)+
  have none: "\<not> k ?l < k x" if "x \<in> set (take n xs)" for x
  proof -
    obtain ys where ys: "take n xs = ys @ [?l]" using assms(3) by (metis append_butlast_last_id)
    have "sorted (map k ys @ [k ?l])" using sd(1) ys by (metis sorted_append map_append list.map)
    then have le: "\<forall>y \<in> set ys. k y \<le> k ?l" by (auto simp: sorted_append)
    from that have "x \<in> set (ys @ [?l])" using ys by metis
    with le have "k x \<le> k ?l" by auto
    then show ?thesis by simp
  qed
  have all: "k ?l < k x" if "x \<in> set (drop n xs)" for x
  proof -
    have "k ?l \<le> k x" using sd(1) l that by (auto simp: sorted_append)
    moreover have "k ?l \<noteq> k x" using sd(2) l that by (auto simp: image_iff)
    ultimately show ?thesis by simp
  qed
  have "filter (\<lambda>x. k ?l < k x) (take n xs) = []" using none by (auto simp: filter_empty_conv)
  moreover have "filter (\<lambda>x. k ?l < k x) (drop n xs) = drop n xs" using all by (auto simp: filter_id_conv)
  ultimately show ?thesis by (metis split filter_append append_Nil)
qed

lemma export_from_rest:
  assumes "distinct (map pr_id (ct_persons db))" "0 < n"
  shows "export_from n l db = sort_key pr_id
    (filter (\<lambda>p. case l of None \<Rightarrow> True | Some x \<Rightarrow> x < pr_id p) (ct_persons db))"
  using assms
proof (induction n l db rule: export_from.induct)
  case (1 n l db)
  let ?P = "\<lambda>p. case l of None \<Rightarrow> True | Some x \<Rightarrow> x < pr_id p"
  let ?xs = "sort_key pr_id (filter ?P (ct_persons db))"
  have page: "export_page n l db = take n ?xs" by (simp add: export_page_def)
  show ?case
  proof (cases "export_page n l db")
    case Nil
    with page "1.prems"(2) show ?thesis by (simp add: take_eq_Nil)
  next
    case (Cons r rs)
    let ?last = "pr_id (List.last (r # rs))"
    have xs: "sorted (map pr_id ?xs)" "distinct (map pr_id ?xs)"
      using distinct_map_filter [OF "1.prems"(1), of ?P] by (simp_all add: distinct_map)
    have ne: "take n ?xs \<noteq> []" using Cons page by simp
    have above: "?P p" if "?last < pr_id p" for p
    proof (cases l)
      case (Some x)
      have "List.last (r # rs) \<in> set ?xs" using Cons page by (metis in_set_takeD last_in_set list.distinct(1))
      with Some have "x < ?last" by simp
      with that have "x < pr_id p" by (rule less_trans [rotated])
      with Some show ?thesis by simp
    qed simp
    have "filter (\<lambda>p. ?last < pr_id p) (ct_persons db) = filter (\<lambda>p. ?last < pr_id p) (filter ?P (ct_persons db))"
      unfolding filter_filter by (rule filter_cong [OF refl]) (use above in blast)
    then have "sort_key pr_id (filter (\<lambda>p. ?last < pr_id p) (ct_persons db)) = filter (\<lambda>p. ?last < pr_id p) ?xs"
      by (simp add: filter_sort)
    also have "\<dots> = drop n ?xs" using after_last_taken [OF xs ne] Cons page by simp
    finally have rest: "export_from n (Some ?last) db = drop n ?xs" using "1.IH" [OF Cons "1.prems"] by simp
    have "export_from n l db = (r # rs) @ export_from n (Some ?last) db"
      by (subst export_from.simps) (simp add: Cons del: export_from.simps)
    also have "\<dots> = take n ?xs @ drop n ?xs" using rest Cons page by simp
    finally show ?thesis by simp
  qed
qed

text \<open>
  The export, which reads the table in pages of 500 rows by identity, is exact: for an
  administrator it is the table of all persons in the order of their identities, each person once.
\<close>

theorem export_exact:
  assumes "distinct (map pr_id (ct_persons db))" and "me_role admin \<in> {Admin, SuperAdmin}"
  shows "export_persons admin db = Inr (sort_key pr_id (ct_persons db))"
  using assms export_from_rest [OF assms(1), of 500 None] by (simp add: export_persons_def del: export_from.simps)

subsection \<open>A site\<close>

definition demo_engine :: person_engine where
  "demo_engine raw = Inr (raw, ''code'')"

definition demo_env :: "ident \<Rightarrow> person_env" where
  "demo_env g = \<lparr>pe_bucket = ''faces'', pe_engine = demo_engine, pe_now = 7, pe_image = g, pe_row = ''p'' @ g, pe_commits = True\<rparr>"

definition demo_admin :: current_user where
  "demo_admin = \<lparr>me_id = ''root'', me_email = [], me_role = SuperAdmin, me_session_id = [], me_license_id = [], me_permissions = []\<rparr>"

definition empty_site :: person_site where
  "empty_site = \<lparr>st_db = \<lparr>ct_users = [], ct_licenses = [], ct_permissions = [], ct_logins = [], ct_outbox = [], ct_audit = [],
     ct_cameras = [], ct_events = [], ct_alerts = [], ct_persons = [], ct_cleanup = []\<rparr>, st_objects = []\<rparr>"

definition demo_face :: upload where
  "demo_face = \<lparr>up_type = ''image/png'', up_bytes = ''x''\<rparr>"

definition demo_form :: person_form where
  "demo_form = \<lparr>fo_name = ''Ann'', fo_phone = ''123'', fo_aadhaar = ''1234''\<rparr>"

definition one_person :: person_site where
  "one_person = person_effect (demo_env ''A'') (\<lambda>n. None) demo_admin (CreatePerson demo_form demo_face) empty_site"

lemma prepared: "prepare_face demo_engine demo_face = Inr (''x'', ''code'')"
  by (simp add: prepare_face_def demo_face_def demo_engine_def max_image_size_def)

lemma demo_allowed [simp]:
  "authorize demo_admin ''persons'' action owner rid = Inr None" "person_role demo_admin = Inr ()"
  by (simp_all add: authorize_def demo_admin_def person_role_def)

lemma one_person_eq:
  "ct_persons (st_db one_person) = [\<lparr>pr_id = ''pA'', pr_name = ''Ann'', pr_phone = ''123'', pr_aadhaar = ''1234'',
     pr_encoding = ''code'', pr_image = Some ''A'', pr_registered_by = ''root'', pr_entry_time = None, pr_created = 7\<rparr>]"
  "ct_cleanup (st_db one_person) = []" "st_objects one_person = [(''faces'', ''A.jpg'')]"
  by (simp_all add: one_person_def person_effect_def create_person_def demo_env_def prepared check_form_def demo_form_def
      four_digits_def is_digit_char_def empty_site_def put_object_def face_object_def write_audit_def Let_def)
     (simp_all add: demo_admin_def)

lemma empty_site_ok: "images_ok ''faces'' empty_site"
  by (simp add: images_ok_def accounted_def empty_site_def)

lemma one_person_reach: "person_reach ''faces'' empty_site one_person"
  unfolding one_person_def
  by (rule person_step [OF person_start]) (simp_all add: fresh_image_def empty_site_def demo_env_def)

lemma images_accounted_witness: "(''faces'', face_object ''A'') \<in> set (st_objects one_person)"
  using images_accounted [OF empty_site_ok one_person_reach] by (simp add: one_person_eq face_object_def)

lemma export_exact_witness: "export_persons demo_admin (st_db one_person) = Inr (ct_persons (st_db one_person))"
  using export_exact [of "st_db one_person" demo_admin]
  by (simp add: one_person_eq demo_admin_def del: export_from.simps)

subsection \<open>Requests that overlap\<close>

text \<open>
  Two \<open>update_face\<close> requests for one person that both read before either writes: the image of the
  first is neither the person's nor in the outbox.
\<close>

definition after_first :: person_site where
  "after_first = fst (update_face_write (demo_env ''B'') (\<lambda>n. None) demo_admin ''pA'' (Some ''A'', ''code'') one_person)"

definition after_both :: person_site where
  "after_both = fst (update_face_write (demo_env ''C'') (\<lambda>n. None) demo_admin ''pA'' (Some ''A'', ''code'') after_first)"

lemmas overlap_eval = update_face_write_def demo_env_def put_object_def face_object_def update_persons_def enqueue_cleanup_def
  write_audit_def process_cleanup_def cleanup_batch_def cleanup_one_def update_cleanup_def Let_def

lemma overlapping_updates_lose_image:
  "update_face_read (demo_env ''B'') demo_admin ''pA'' demo_face one_person = Inr (Some ''A'', ''code'')"
  "update_face_read (demo_env ''C'') demo_admin ''pA'' demo_face one_person = Inr (Some ''A'', ''code'')"
  "(''faces'', ''B.jpg'') \<in> set (st_objects after_both)"
  "map pr_image (ct_persons (st_db after_both)) = [Some ''C'']"
  "map (\<lambda>r. (cl_object r, cl_processed r)) (ct_cleanup (st_db after_both)) = [(''A.jpg'', Some 7)]"
  by (simp_all add: update_face_read_def may_change_person_def find_person_def one_person_eq prepared demo_env_def
      after_both_def after_first_def overlap_eval [unfolded demo_env_def])

text \<open>
  A person deleted between the two halves: the transaction commits, the request fails, and the new
  image stays in the store with nothing that refers to it.
\<close>

definition deleted_meanwhile :: person_site where
  "deleted_meanwhile = fst (delete_person (demo_env ''Z'') (\<lambda>n. None) demo_admin ''pA'' one_person)"

lemma face_of_deleted_person_lost:
  "snd (update_face_write (demo_env ''B'') (\<lambda>n. None) demo_admin ''pA'' (Some ''A'', ''code'') deleted_meanwhile) = Inl server_error"
  "st_objects (fst (update_face_write (demo_env ''B'') (\<lambda>n. None) demo_admin ''pA'' (Some ''A'', ''code'') deleted_meanwhile))
     = [(''faces'', ''B.jpg'')]"
  "ct_persons (st_db (fst (update_face_write (demo_env ''B'') (\<lambda>n. None) demo_admin ''pA'' (Some ''A'', ''code'') deleted_meanwhile))) = []"
  by (simp_all add: deleted_meanwhile_def delete_person_def may_change_person_def find_person_def one_person_eq overlap_eval)

end
