(* ===== verification/Storage_Names.thy ===== *)
theory Storage_Names
  imports Rsap_Prelude
begin

section \<open>Names of stored files\<close>

text \<open>
  The identities and object names of \<open>apps/file-server\<close>: \<open>str\<close> and the constructor of Python's
  \<open>uuid.UUID\<close> on 128-bit numbers, the stem of a \<open>PurePosixPath\<close>, and
  \<open>_file_id_from_object_name\<close> of \<open>app/minio_client.py\<close>. Strings are 8-bit characters; digits and
  white space outside ASCII do not occur.
\<close>

subsection \<open>Hexadecimal numbers\<close>

definition hex_char :: "nat \<Rightarrow> char" where
  "hex_char d = char_of (if d < 10 then 48 + d else 87 + d)"

definition hex_digit :: "char \<Rightarrow> nat option" where
  "hex_digit c =
     (let n = (of_char c :: nat)
      in if 48 \<le> n \<and> n \<le> 57 then Some (n - 48)
         else if 97 \<le> n \<and> n \<le> 102 then Some (n - 87)
         else if 65 \<le> n \<and> n \<le> 70 then Some (n - 55) else None)"

text \<open>\<open>int(s, 16)\<close>: white space around, a sign, the prefix, single underscores between digits.\<close>

fun hex_rest :: "nat \<Rightarrow> string \<Rightarrow> nat option" where
  "hex_rest acc [] = Some acc"
| "hex_rest acc (c # cs) =
     (case hex_digit c of
        Some d \<Rightarrow> hex_rest (16 * acc + d) cs
      | None \<Rightarrow>
          if c \<noteq> CHR ''_'' then None
          else (case cs of
                  [] \<Rightarrow> None
                | d # ds \<Rightarrow> (case hex_digit d of None \<Rightarrow> None | Some v \<Rightarrow> hex_rest (16 * acc + v) ds)))"

definition hex_digits :: "string \<Rightarrow> nat option" where
  "hex_digits s =
     (case s of [] \<Rightarrow> None
      | c # cs \<Rightarrow> (case hex_digit c of None \<Rightarrow> None | Some d \<Rightarrow> hex_rest d cs))"

definition hex_unsigned :: "string \<Rightarrow> nat option" where
  "hex_unsigned s =
     (if starts_with ''0x'' s \<or> starts_with ''0X'' s
      then let r = drop 2 s in hex_digits (if starts_with ''_'' r then drop 1 r else r)
      else hex_digits s)"

definition py_int_hex :: "string \<Rightarrow> int option" where
  "py_int_hex s =
     (let s = py_strip s
      in if starts_with ''-'' s then map_option (\<lambda>n. - int n) (hex_unsigned (drop 1 s))
         else map_option int (hex_unsigned (if starts_with ''+'' s then drop 1 s else s)))"

text \<open>The last \<open>k\<close> hexadecimal digits of a number, as \<open>'%0kx'\<close> prints them.\<close>

fun hex_text :: "nat \<Rightarrow> nat \<Rightarrow> string" where
  "hex_text 0 n = []"
| "hex_text (Suc k) n = hex_text k (n div 16) @ [hex_char (n mod 16)]"

subsection \<open>UUIDs\<close>

text \<open>\<open>s.replace(sub, '')\<close>.\<close>

function remove_sub :: "string \<Rightarrow> string \<Rightarrow> string" where
  "remove_sub p [] = []"
| "remove_sub p (c # cs) =
     (if p \<noteq> [] \<and> starts_with p (c # cs) then remove_sub p (drop (length p - 1) cs)
      else c # remove_sub p cs)"
  by pat_completeness auto
termination by (relation "measure (length \<circ> snd)") auto

definition strip_chars :: "string \<Rightarrow> string \<Rightarrow> string" where
  "strip_chars cs s =
     rev (dropWhile (\<lambda>c. c \<in> set cs) (rev (dropWhile (\<lambda>c. c \<in> set cs) s)))"

text \<open>\<open>UUID(text)\<close>, the error being \<open>ValueError\<close>.\<close>

definition uuid_of_text :: "string \<Rightarrow> nat option" where
  "uuid_of_text s =
     (let h = filter (\<lambda>c. c \<noteq> CHR ''-'') (strip_chars ''{}'' (remove_sub ''uuid:'' (remove_sub ''urn:'' s)))
      in if length h \<noteq> 32 then None
         else case py_int_hex h of
                None \<Rightarrow> None
              | Some i \<Rightarrow> if 0 \<le> i \<and> i < 2 ^ 128 then Some (nat i) else None)"

definition uuid_text :: "nat \<Rightarrow> string" where
  "uuid_text u =
     (let h = hex_text 32 u
      in take 8 h @ ''-'' @ take 4 (drop 8 h) @ ''-'' @ take 4 (drop 12 h) @ ''-''
         @ take 4 (drop 16 h) @ ''-'' @ drop 20 h)"

text \<open>\<open>UUID.version == 4\<close>: the version field counts for the RFC 4122 variant only.\<close>

definition uuid_is_v4 :: "nat \<Rightarrow> bool" where
  "uuid_is_v4 u \<longleftrightarrow> u div 2 ^ 62 mod 4 = 2 \<and> u div 2 ^ 76 mod 16 = 4"

subsection \<open>Paths\<close>

fun split_slash :: "string \<Rightarrow> string \<Rightarrow> string list" where
  "split_slash cur [] = [rev cur]"
| "split_slash cur (c # cs) =
     (if c = CHR ''/'' then rev cur # split_slash [] cs else split_slash (c # cur) cs)"

definition path_parts :: "string \<Rightarrow> string list" where
  "path_parts s = filter (\<lambda>p. p \<noteq> [] \<and> p \<noteq> ''.'') (split_slash [] s)"

definition path_name :: "string \<Rightarrow> string" where
  "path_name s = (if path_parts s = [] then [] else last (path_parts s))"

text \<open>\<open>PurePosixPath(s).stem\<close>: without the last suffix, unless the dot is the first or last character.\<close>

definition path_stem :: "string \<Rightarrow> string" where
  "path_stem s =
     (let name = path_name s;
          suffix = takeWhile (\<lambda>c. c \<noteq> CHR ''.'') (rev name);
          i = length name - length suffix - 1
      in if CHR ''.'' \<in> set name \<and> 0 < i \<and> suffix \<noteq> [] then take i name else name)"

definition file_id_from_object_name :: "string \<Rightarrow> nat option" where
  "file_id_from_object_name object_name =
     (case uuid_of_text (path_stem object_name) of
        None \<Rightarrow> None
      | Some file_id \<Rightarrow> if uuid_is_v4 file_id then Some file_id else None)"

subsection \<open>Reading back what was printed\<close>

lemma hex_char_code: "d < 16 \<Longrightarrow> of_char (hex_char d) = (if d < 10 then 48 + d else 87 + d)"
  by (simp add: hex_char_def)

lemma hex_digit_char [simp]: "d < 16 \<Longrightarrow> hex_digit (hex_char d) = Some d"
  by (auto simp: hex_digit_def hex_char_code Let_def)

lemma length_hex_text [simp]: "length (hex_text k n) = k"
  by (induction k arbitrary: n) simp_all

lemma hex_text_chars: "set (hex_text k n) \<subseteq> hex_char ` {..<16}"
  by (induction k arbitrary: n) auto

lemma hex_char_not:
  assumes "c \<in> hex_char ` {..<16}"
  shows "c \<noteq> CHR ''-''" "c \<noteq> CHR ''x''" "c \<noteq> CHR ''X''" "c \<noteq> CHR ''+''" "c \<noteq> CHR ''u''" "c \<noteq> CHR ''{''"
    "c \<noteq> CHR ''}''" "c \<noteq> CHR ''/''" "c \<noteq> CHR ''.''" "c \<noteq> CHR ''_''" "\<not> py_is_space c"
proof -
  obtain d where d: "d < 16" "c = hex_char d" using assms by auto
  then have "of_char c = (if d < 10 then 48 + d else (87 + d :: nat))" by (simp add: hex_char_code)
  then have range: "(of_char c :: nat) \<in> {48..57} \<union> {97..102}" using d(1) by auto
  then show "c \<noteq> CHR ''-''" "c \<noteq> CHR ''x''" "c \<noteq> CHR ''X''" "c \<noteq> CHR ''+''" "c \<noteq> CHR ''u''" "c \<noteq> CHR ''{''"
    "c \<noteq> CHR ''}''" "c \<noteq> CHR ''/''" "c \<noteq> CHR ''.''" "c \<noteq> CHR ''_''"
    by auto
  show "\<not> py_is_space c" using range by (auto simp: py_is_space_def Let_def)
qed

lemma hex_rest_append:
  "set xs \<subseteq> hex_char ` {..<16} \<Longrightarrow> hex_rest acc (xs @ ys) = (case hex_rest acc xs of Some v \<Rightarrow> hex_rest v ys | None \<Rightarrow> None)"
proof (induction xs arbitrary: acc)
  case (Cons x xs)
  then obtain d where "d < 16" "x = hex_char d" by auto
  with Cons show ?case by simp
qed simp

lemma hex_rest_text: "hex_rest acc (hex_text k n) = Some (acc * 16 ^ k + n mod 16 ^ k)"
proof (induction k arbitrary: n)
  case (Suc k)
  have "n mod 16 ^ Suc k = 16 * (n div 16 mod 16 ^ k) + n mod 16"
    by (simp add: mod_mult2_eq)
  then show ?case by (simp add: hex_rest_append [OF hex_text_chars] Suc algebra_simps)
qed simp

lemma dropWhile_none: "\<forall>c\<in>set s. \<not> P c \<Longrightarrow> dropWhile P s = s"
  by (cases s) auto

lemma py_strip_none: "\<forall>c\<in>set s. \<not> py_is_space c \<Longrightarrow> py_strip s = s"
  by (simp add: py_strip_def dropWhile_none)

lemma strip_chars_none: "\<forall>c\<in>set s. c \<notin> set cs \<Longrightarrow> strip_chars cs s = s"
  by (simp add: strip_chars_def dropWhile_none)

lemma remove_sub_none: "u \<notin> set s \<Longrightarrow> remove_sub (u # p) s = s"
proof (induction s)
  case (Cons c cs)
  then have "\<not> starts_with (u # p) (c # cs)" by (auto simp: starts_with_def)
  with Cons show ?case by simp
qed simp

lemma py_int_hex_text: "0 < k \<Longrightarrow> py_int_hex (hex_text k n) = Some (int (n mod 16 ^ k))"
proof -
  assume k: "0 < k"
  have no: "\<not> starts_with (x # y # zs) (hex_text k n)" if "y \<in> {CHR ''x'', CHR ''X''}" for x y zs
    using that hex_text_chars [of k n] hex_char_not(2,3)
    by (cases "hex_text k n"; cases "tl (hex_text k n)") (auto simp: starts_with_def)
  have sign: "\<not> starts_with [x] (hex_text k n)" if "x \<in> {CHR ''-'', CHR ''+''}" for x
    using that hex_text_chars [of k n] hex_char_not(1,4)
    by (cases "hex_text k n") (auto simp: starts_with_def)
  obtain c cs where eq: "hex_text k n = c # cs" using k length_hex_text [of k n] by (cases "hex_text k n") auto
  then obtain d where d: "d < 16" "c = hex_char d" using hex_text_chars [of k n] by auto
  have "hex_digits (hex_text k n) = hex_rest 0 (hex_text k n)"
    using d by (simp add: eq hex_digits_def)
  then have "hex_unsigned (hex_text k n) = Some (n mod 16 ^ k)"
    using no by (simp add: hex_unsigned_def hex_rest_text)
  moreover have "py_strip (hex_text k n) = hex_text k n"
    using hex_text_chars [of k n] hex_char_not(11) by (intro py_strip_none) blast
  ultimately show ?thesis using sign by (simp add: py_int_hex_def)
qed

lemma uuid_text_chars: "c \<in> set (uuid_text u) \<Longrightarrow> c \<in> hex_char ` {..<16} \<or> c = CHR ''-''"
  using hex_text_chars [of 32 u]
  by (auto simp: uuid_text_def Let_def dest!: in_set_takeD in_set_dropD)

lemma uuid_text_clean:
  assumes "c \<in> set (uuid_text u)"
  shows "c \<noteq> CHR ''u''" "c \<notin> {CHR ''{'', CHR ''}''}" "c \<noteq> CHR ''/''" "c \<noteq> CHR ''.''"
proof -
  have "c \<noteq> CHR ''u'' \<and> c \<notin> {CHR ''{'', CHR ''}''} \<and> c \<noteq> CHR ''/'' \<and> c \<noteq> CHR ''.''"
    using uuid_text_chars [OF assms]
  proof
    assume "c \<in> hex_char ` {..<16}"
    note hex_char_not(5-9) [OF this]
    then show ?thesis by simp
  qed simp
  then show "c \<noteq> CHR ''u''" "c \<notin> {CHR ''{'', CHR ''}''}" "c \<noteq> CHR ''/''" "c \<noteq> CHR ''.''"
    by simp_all
qed

lemma take_drop_split: "take n (drop m xs) @ drop (m + n) xs = drop m xs"
  by (metis append_take_drop_id drop_drop add.commute)

lemma uuid_text_digits: "filter (\<lambda>c. c \<noteq> CHR ''-'') (uuid_text u) = hex_text 32 u"
proof -
  have "filter (\<lambda>c. c \<noteq> CHR ''-'') xs = xs" if "set xs \<subseteq> set (hex_text 32 u)" for xs
    using that hex_text_chars [of 32 u] hex_char_not(1) by (intro filter_True) blast
  then have keep: "filter (\<lambda>c. c \<noteq> CHR ''-'') (take k (drop m (hex_text 32 u))) = take k (drop m (hex_text 32 u))"
    "filter (\<lambda>c. c \<noteq> CHR ''-'') (drop m (hex_text 32 u)) = drop m (hex_text 32 u)" for k m
    by (meson set_take_subset set_drop_subset subset_trans)+
  have "filter (\<lambda>c. c \<noteq> CHR ''-'') (uuid_text u)
      = take 8 (hex_text 32 u) @ take 4 (drop 8 (hex_text 32 u)) @ take 4 (drop 12 (hex_text 32 u))
        @ take 4 (drop 16 (hex_text 32 u)) @ drop 20 (hex_text 32 u)"
    using keep(1) [of _ 0] by (simp add: uuid_text_def Let_def keep)
  also have "\<dots> = hex_text 32 u"
    using take_drop_split [of 4 16 "hex_text 32 u"] take_drop_split [of 4 12 "hex_text 32 u"]
      take_drop_split [of 4 8 "hex_text 32 u"] by simp
  finally show ?thesis .
qed

lemma uuid_text_back:
  assumes "u < 2 ^ 128"
  shows "uuid_of_text (uuid_text u) = Some u"
proof -
  have "remove_sub ''uuid:'' (remove_sub ''urn:'' (uuid_text u)) = uuid_text u"
    using uuid_text_clean(1) by (metis remove_sub_none)
  moreover have "strip_chars ''{}'' (uuid_text u) = uuid_text u"
    using uuid_text_clean(2) by (intro strip_chars_none) auto
  moreover have "u mod 16 ^ 32 = u" using assms by simp
  ultimately show ?thesis using assms
    by (simp add: uuid_of_text_def uuid_text_digits py_int_hex_text)
qed

lemma split_slash_plain: "CHR ''/'' \<notin> set n \<Longrightarrow> split_slash cur n = [rev cur @ n]"
  by (induction n arbitrary: cur) auto

lemma split_slash_append: "split_slash cur (xs @ CHR ''/'' # ys) = split_slash cur xs @ split_slash [] ys"
  by (induction xs arbitrary: cur) auto

lemma path_name_plain: "CHR ''/'' \<notin> set n \<Longrightarrow> n \<noteq> [] \<Longrightarrow> n \<noteq> ''.'' \<Longrightarrow> path_name n = n"
  by (simp add: path_name_def path_parts_def split_slash_plain)

lemma path_name_dir:
  "CHR ''/'' \<notin> set n \<Longrightarrow> n \<noteq> [] \<Longrightarrow> n \<noteq> ''.'' \<Longrightarrow> path_name (d @ CHR ''/'' # n) = n"
  by (simp add: path_name_def path_parts_def split_slash_plain split_slash_append)

lemma path_stem_suffix:
  assumes "path_name s = n @ CHR ''.'' # ext" "n \<noteq> []" "ext \<noteq> []" "CHR ''.'' \<notin> set ext"
  shows "path_stem s = n"
proof -
  have "takeWhile (\<lambda>c. c \<noteq> CHR ''.'') (rev ext @ CHR ''.'' # rev n) = rev ext"
    using assms(4) by (subst takeWhile_append2) auto
  then show ?thesis using assms(2,3) by (simp add: path_stem_def assms(1))
qed

lemma length_uuid_text [simp]: "length (uuid_text u) = 36"
  by (simp add: uuid_text_def Let_def)

text \<open>The identity of a file is read back from the names the upload handlers give it.\<close>

lemma file_id_of_name:
  assumes "u < 2 ^ 128" "uuid_is_v4 u" "ext \<noteq> []" "CHR ''.'' \<notin> set ext" "CHR ''/'' \<notin> set ext"
  shows "file_id_from_object_name (uuid_text u @ CHR ''.'' # ext) = Some u"
    "file_id_from_object_name (d @ CHR ''/'' # uuid_text u @ CHR ''.'' # ext) = Some u"
proof -
  let ?n = "uuid_text u @ CHR ''.'' # ext"
  have n: "CHR ''/'' \<notin> set ?n" "?n \<noteq> []" "?n \<noteq> ''.''" "uuid_text u \<noteq> []"
    using uuid_text_clean(3) [of "CHR ''/''" u] assms(5) length_uuid_text [of u]
    by (auto simp del: length_uuid_text simp: append_eq_Cons_conv)
  have "path_stem ?n = uuid_text u" "path_stem (d @ CHR ''/'' # ?n) = uuid_text u"
    by (rule path_stem_suffix [OF path_name_plain [OF n(1-3)] n(4) assms(3,4)])
      (rule path_stem_suffix [OF path_name_dir [OF n(1-3)] n(4) assms(3,4)])
  then show "file_id_from_object_name (uuid_text u @ CHR ''.'' # ext) = Some u"
    "file_id_from_object_name (d @ CHR ''/'' # uuid_text u @ CHR ''.'' # ext) = Some u"
    using uuid_text_back [OF assms(1)] assms(2) by (simp_all add: file_id_from_object_name_def)
qed

end
