(* ===== verification/File_Server.thy ===== *)
theory File_Server
  imports Storage_Names
begin

section \<open>The file server\<close>

text \<open>
  \<open>apps/file-server\<close>: the checks of an upload (\<open>app/validation.py\<close>), the operations on the object
  store (\<open>app/minio_client.py\<close>, \<open>app/presigned.py\<close>) and the handlers (\<open>app/routers\<close>,
  \<open>app/auth.py\<close>, the exception handlers of \<open>main.py\<close>). The object store is the MinIO client, a
  third-party library: a record of its operations on a state of its own. Byte strings are lists of
  8-bit characters; the identity \<open>uuid4()\<close> returns and the date are arguments.
\<close>

subsection \<open>Errors and their responses\<close>

datatype file_error =
    InvalidBucketError
  | ObjectNotFoundError
  | S3Error string
  | TransportError \<comment> \<open>\<open>urllib3.exceptions.HTTPError\<close> or \<open>OSError\<close>\<close>
  | DuplicateObject \<comment> \<open>the \<open>RuntimeError\<close> of \<open>resolve_object_name\<close>\<close>
  | ExpiryError \<comment> \<open>the \<open>ValueError\<close> of \<open>clamp_presigned_expiry\<close>\<close>
  | HttpFailure nat
  | OtherError string

fun status_error_code :: "nat \<Rightarrow> string" where
  "status_error_code c =
     (if c = 400 then ''invalid_request'' else if c = 401 then ''invalid_service_token''
      else if c = 403 then ''forbidden'' else if c = 404 then ''not_found''
      else if c = 413 then ''file_too_large'' else if c = 415 then ''unsupported_media_type''
      else if c = 422 then ''validation_error'' else if c = 500 then ''internal_error''
      else if c = 502 then ''storage_error'' else if c = 503 then ''storage_unavailable''
      else ''request_error'')"

text \<open>Status and code of the response the exception handlers give.\<close>

fun error_response :: "file_error \<Rightarrow> nat \<times> string" where
  "error_response InvalidBucketError = (404, ''unknown_bucket'')"
| "error_response ObjectNotFoundError = (404, ''file_not_found'')"
| "error_response (S3Error _) = (502, ''storage_error'')"
| "error_response (HttpFailure c) = (c, status_error_code c)"
| "error_response _ = (500, ''internal_error'')"

subsection \<open>Validation\<close>

definition max_upload_size :: nat where
  "max_upload_size = 10 * 1024 * 1024"

definition image_content_types :: "(string \<times> string) list" where
  "image_content_types = [(''image/jpeg'', ''.jpg'')]"

abbreviation docx_type :: string where
  "docx_type \<equiv> ''application/vnd.openxmlformats-officedocument.wordprocessingml.document''"

abbreviation xlsx_type :: string where
  "xlsx_type \<equiv> ''application/vnd.openxmlformats-officedocument.spreadsheetml.sheet''"

definition document_content_types :: "(string \<times> string) list" where
  "document_content_types =
     [(''application/pdf'', ''.pdf''), (''image/jpeg'', ''.jpg''), (''image/png'', ''.png''),
      (''text/plain'', ''.txt''), (''text/csv'', ''.csv''), (docx_type, ''.docx''), (xlsx_type, ''.xlsx'')]"

text \<open>
  What the checks of the content ask of libraries: the format and the verification of an image
  (Pillow), the names in an archive. An exception is one of those \<open>_validate_content\<close> turns into
  status 422, or another one.
\<close>

datatype content_error = Mismatch | Unexpected string

record content_libs =
  cl_image_format :: "string \<Rightarrow> content_error + string"
  cl_image_verify :: "string \<Rightarrow> content_error + unit"
  cl_zip_names :: "string \<Rightarrow> content_error + string list"

definition validate_image :: "content_libs \<Rightarrow> string \<Rightarrow> string \<Rightarrow> content_error + unit" where
  "validate_image libs expected data =
     bindE (cl_image_format libs data) (\<lambda>format.
     bindE (guardE (format = expected) Mismatch) (\<lambda>_. cl_image_verify libs data))"

definition validate_pdf :: "string \<Rightarrow> content_error + unit" where
  "validate_pdf data =
     guardE (starts_with ''%PDF-'' data \<and> contains_sub ''%%EOF'' (drop (length data - 1024) data)) Mismatch"

text \<open>Strict UTF-8: no overlong form, no surrogate, nothing above U+10FFFF.\<close>

definition utf8_tail :: "char \<Rightarrow> bool" where
  "utf8_tail c = (let n = (of_char c :: nat) in 128 \<le> n \<and> n < 192)"

fun utf8_valid :: "string \<Rightarrow> bool" where
  "utf8_valid [] = True"
| "utf8_valid (a # s) =
     (let n = (of_char a :: nat)
      in if n < 128 then utf8_valid s
         else if 194 \<le> n \<and> n < 224
         then (case s of b # s \<Rightarrow> utf8_tail b \<and> utf8_valid s | _ \<Rightarrow> False)
         else if 224 \<le> n \<and> n < 240
         then (case s of
                 b # c # s \<Rightarrow>
                   utf8_tail b \<and> utf8_tail c \<and> (n = 224 \<longrightarrow> 160 \<le> (of_char b :: nat))
                   \<and> (n = 237 \<longrightarrow> (of_char b :: nat) < 160) \<and> utf8_valid s
               | _ \<Rightarrow> False)
         else if 240 \<le> n \<and> n < 245
         then (case s of
                 b # c # d # s \<Rightarrow>
                   utf8_tail b \<and> utf8_tail c \<and> utf8_tail d \<and> (n = 240 \<longrightarrow> 144 \<le> (of_char b :: nat))
                   \<and> (n = 244 \<longrightarrow> (of_char b :: nat) < 144) \<and> utf8_valid s
               | _ \<Rightarrow> False)
         else False)"

definition validate_utf8 :: "string \<Rightarrow> content_error + unit" where
  "validate_utf8 data = guardE (utf8_valid data) Mismatch"

definition validate_openxml :: "content_libs \<Rightarrow> string \<Rightarrow> string \<Rightarrow> content_error + unit" where
  "validate_openxml libs prefix data =
     bindE (cl_zip_names libs data) (\<lambda>names.
     guardE (''[Content_Types].xml'' \<in> set names \<and> list_ex (starts_with prefix) names) Mismatch)"

definition validate_content :: "content_libs \<Rightarrow> string \<Rightarrow> string \<Rightarrow> file_error + unit" where
  "validate_content libs data content_type =
     (case (if content_type = ''image/jpeg'' then validate_image libs ''JPEG'' data
            else if content_type = ''image/png'' then validate_image libs ''PNG'' data
            else if content_type = ''application/pdf'' then validate_pdf data
            else if content_type \<in> {''text/plain'', ''text/csv''} then validate_utf8 data
            else if content_type = docx_type then validate_openxml libs ''word/'' data
            else if content_type = xlsx_type then validate_openxml libs ''xl/'' data
            else Inl (Unexpected ''KeyError'')) of
        Inr u \<Rightarrow> Inr u
      | Inl Mismatch \<Rightarrow> Inl (HttpFailure 422)
      | Inl (Unexpected e) \<Rightarrow> Inl (OtherError e))"

text \<open>An upload: its declared type and what its successive reads return; an empty read is the end.\<close>

record file_upload =
  up_content_type :: "string option"
  up_reads :: "string list"

fun read_chunks :: "nat \<Rightarrow> string list \<Rightarrow> string list \<Rightarrow> file_error + string list" where
  "read_chunks read_size chunks [] = Inr (rev chunks)"
| "read_chunks read_size chunks (chunk # reads) =
     (if chunk = [] then Inr (rev chunks)
      else if read_size + length chunk \<ge> max_upload_size then Inl (HttpFailure 413)
      else read_chunks (read_size + length chunk) (chunk # chunks) reads)"

definition read_validated_upload ::
  "content_libs \<Rightarrow> file_upload \<Rightarrow> (string \<times> string) list \<Rightarrow> file_error + string \<times> string" where
  "read_validated_upload libs up allowed =
     (let content_type = py_strip (py_lower (case up_content_type up of None \<Rightarrow> [] | Some t \<Rightarrow> t))
      in bindE (guardE (content_type \<in> fst ` set allowed) (HttpFailure 415)) (\<lambda>_.
         bindE (read_chunks 0 [] (up_reads up)) (\<lambda>chunks.
         bindE (guardE (sum_list (map length chunks) \<noteq> 0) (HttpFailure 400)) (\<lambda>_.
         (let data = concat chunks
          in bindE (validate_content libs data content_type) (\<lambda>_. Inr (data, content_type)))))))"

text \<open>\<open>CATEGORY_PATTERN.fullmatch\<close>.\<close>

definition category_start :: "char \<Rightarrow> bool" where
  "category_start c = (let n = (of_char c :: nat) in (97 \<le> n \<and> n \<le> 122) \<or> (48 \<le> n \<and> n \<le> 57))"

definition category_char :: "char \<Rightarrow> bool" where
  "category_char c \<longleftrightarrow> category_start c \<or> c = CHR ''_'' \<or> c = CHR ''-''"

definition category_matches :: "string \<Rightarrow> bool" where
  "category_matches s =
     (case s of [] \<Rightarrow> False | c # cs \<Rightarrow> category_start c \<and> list_all category_char cs \<and> length cs \<le> 63)"

definition validate_category :: "string \<Rightarrow> file_error + string" where
  "validate_category category =
     (let normalized = py_lower (py_strip category)
      in bindE (guardE (category_matches normalized) (HttpFailure 422)) (\<lambda>_. Inr normalized))"

definition validate_uuid4 :: "nat \<Rightarrow> file_error + nat" where
  "validate_uuid4 value = bindE (guardE (uuid_is_v4 value) (HttpFailure 422)) (\<lambda>_. Inr value)"

subsection \<open>The object store and the settings\<close>

record stored_object =
  so_object_name :: string
  so_size :: "int option"
  so_etag :: "string option"
  so_last_modified :: "time option"

text \<open>
  The operations of the MinIO client. A listing is a generator: the objects it yields, and the
  exception it ends with, if any.
\<close>

record 's minio =
  mn_put_object :: "'s \<Rightarrow> string \<Rightarrow> string \<Rightarrow> string \<Rightarrow> string \<Rightarrow> file_error option \<times> 's"
  mn_stat_object :: "'s \<Rightarrow> string \<Rightarrow> string \<Rightarrow> file_error option"
  mn_list_objects :: "'s \<Rightarrow> string \<Rightarrow> stored_object list \<times> file_error option"
  mn_remove_object :: "'s \<Rightarrow> string \<Rightarrow> string \<Rightarrow> file_error option \<times> 's"
  mn_presigned_get :: "'s \<Rightarrow> string \<Rightarrow> string \<Rightarrow> int \<Rightarrow> file_error + string"
  mn_list_buckets :: "'s \<Rightarrow> file_error option"
  mn_bucket_exists :: "'s \<Rightarrow> string \<Rightarrow> file_error + bool"
  mn_make_bucket :: "'s \<Rightarrow> string \<Rightarrow> file_error option \<times> 's"
  mn_delete_policy :: "'s \<Rightarrow> string \<Rightarrow> file_error option \<times> 's"
  mn_set_lifecycle :: "'s \<Rightarrow> string \<Rightarrow> int \<Rightarrow> file_error option \<times> 's"

record storage_settings =
  ss_faces :: string
  ss_captures :: string
  ss_documents :: string
  ss_token :: string
  ss_retention_days :: int
  ss_default_expiry :: int
  ss_max_expiry :: int

definition buckets :: "storage_settings \<Rightarrow> string list" where
  "buckets st = [ss_faces st, ss_captures st, ss_documents st]"

definition require_bucket :: "storage_settings \<Rightarrow> string \<Rightarrow> file_error + string" where
  "require_bucket st bucket = (if bucket \<notin> set (buckets st) then Inl InvalidBucketError else Inr bucket)"

text \<open>
  The checks of \<open>app/config.py\<close> on credentials, bucket names and numbers. The two endpoints are
  checked apart, with the URL and address parsers of the standard library, and are not modelled.
  The length of a credential is checked before the validator strips it.
\<close>

definition credential :: "nat \<Rightarrow> string \<Rightarrow> string option" where
  "credential min_length value =
     (let stripped = py_strip value; normalized = py_lower stripped
      in if length value < min_length \<or> stripped = [] \<or> normalized = ''minioadmin''
            \<or> list_ex (\<lambda>p. starts_with p normalized) [''change_me'', ''changeme'', ''placeholder'', ''example'', ''your_'']
            \<or> (hd stripped = CHR ''<'' \<and> last stripped = CHR ''>'')
         then None else Some stripped)"

text \<open>\<open>ipaddress.ip_address\<close> on the characters a bucket name can have: four decimal octets.\<close>

fun split_dot :: "string \<Rightarrow> string \<Rightarrow> string list" where
  "split_dot cur [] = [rev cur]"
| "split_dot cur (c # cs) =
     (if c = CHR ''.'' then rev cur # split_dot [] cs else split_dot (c # cur) cs)"

definition octet :: "string \<Rightarrow> bool" where
  "octet s \<longleftrightarrow>
     s \<noteq> [] \<and> list_all is_digit_char s \<and> length s \<le> 3 \<and> (hd s = CHR ''0'' \<longrightarrow> length s = 1)
     \<and> digits_value 0 s \<le> 255"

definition is_ip_address :: "string \<Rightarrow> bool" where
  "is_ip_address s \<longleftrightarrow> length (split_dot [] s) = 4 \<and> list_all octet (split_dot [] s)"

definition bucket_name :: "string \<Rightarrow> string option" where
  "bucket_name value =
     (let v = py_lower (py_strip value)
      in if length v < 3 \<or> 63 < length v \<or> \<not> category_start (hd v) \<or> \<not> category_start (last v)
            \<or> \<not> list_all (\<lambda>c. category_start c \<or> c = CHR ''.'' \<or> c = CHR ''-'') v
            \<or> contains_sub ''..'' v \<or> contains_sub ''.-'' v \<or> contains_sub ''-.'' v \<or> is_ip_address v
         then None else Some v)"

record raw_settings =
  rw_access_key :: string
  rw_secret_key :: string
  rw_token :: string
  rw_faces :: string
  rw_captures :: string
  rw_documents :: string
  rw_retention_days :: int
  rw_default_expiry :: int
  rw_max_expiry :: int

definition load_settings :: "raw_settings \<Rightarrow> storage_settings option" where
  "load_settings r =
     (case (credential 3 (rw_access_key r), credential 16 (rw_secret_key r), credential 16 (rw_token r),
            bucket_name (rw_faces r), bucket_name (rw_captures r), bucket_name (rw_documents r)) of
        (Some _, Some _, Some token, Some faces, Some captures, Some documents) \<Rightarrow>
          if 1 \<le> rw_retention_days r \<and> rw_retention_days r \<le> 3650
             \<and> 60 \<le> rw_default_expiry r \<and> rw_default_expiry r \<le> 604800
             \<and> 60 \<le> rw_max_expiry r \<and> rw_max_expiry r \<le> 604800
             \<and> card {faces, captures, documents} = 3
          then Some \<lparr>ss_faces = faces, ss_captures = captures, ss_documents = documents, ss_token = token,
                     ss_retention_days = rw_retention_days r, ss_default_expiry = rw_default_expiry r,
                     ss_max_expiry = rw_max_expiry r\<rparr>
          else None
      | _ \<Rightarrow> None)"

definition min_presigned_expiry :: int where
  "min_presigned_expiry = 60"

definition clamp_presigned_expiry :: "storage_settings \<Rightarrow> int option \<Rightarrow> file_error + int" where
  "clamp_presigned_expiry st requested =
     (let requested = (case requested of None \<Rightarrow> ss_default_expiry st | Some r \<Rightarrow> r)
      in if requested < min_presigned_expiry then Inl ExpiryError
         else Inr (min requested (ss_max_expiry st)))"

definition raised :: "file_error option \<times> 's \<Rightarrow> (file_error + unit) \<times> 's" where
  "raised r = (case r of (None, s) \<Rightarrow> (Inr (), s) | (Some e, s) \<Rightarrow> (Inl e, s))"

subsection \<open>Storage operations\<close>

definition storage_upload ::
  "'s minio \<Rightarrow> storage_settings \<Rightarrow> string \<Rightarrow> string \<Rightarrow> string \<Rightarrow> string \<Rightarrow> 's \<Rightarrow> (file_error + unit) \<times> 's" where
  "storage_upload mn st bucket object_name data content_type s =
     (case require_bucket st bucket of
        Inl e \<Rightarrow> (Inl e, s)
      | Inr _ \<Rightarrow> raised (mn_put_object mn s bucket object_name data content_type))"

definition not_found_codes :: "string list" where
  "not_found_codes = [''NoSuchKey'', ''NoSuchObject'', ''NotFound'']"

definition resolve_object_name ::
  "'s minio \<Rightarrow> storage_settings \<Rightarrow> string \<Rightarrow> nat \<Rightarrow> 's \<Rightarrow> file_error + string" where
  "resolve_object_name mn st bucket file_id s =
     bindE (require_bucket st bucket) (\<lambda>_.
       let direct_name = uuid_text file_id @ ''.jpg''
       in if bucket = ss_faces st
          then (case mn_stat_object mn s bucket direct_name of
                  None \<Rightarrow> Inr direct_name
                | Some (S3Error code) \<Rightarrow>
                    if code \<in> set not_found_codes then Inl ObjectNotFoundError else Inl (S3Error code)
                | Some e \<Rightarrow> Inl e)
          else (case mn_list_objects mn s bucket of
                  (_, Some e) \<Rightarrow> Inl e
                | (objects, None) \<Rightarrow>
                    (let matches = filter (\<lambda>n. file_id_from_object_name n = Some file_id)
                                     (map so_object_name objects)
                     in case matches of
                          [] \<Rightarrow> Inl ObjectNotFoundError
                        | [n] \<Rightarrow> Inr n
                        | _ \<Rightarrow> Inl DuplicateObject)))"

definition presigned_url ::
  "'s minio \<Rightarrow> storage_settings \<Rightarrow> string \<Rightarrow> nat \<Rightarrow> int \<Rightarrow> 's \<Rightarrow> file_error + string" where
  "presigned_url mn st bucket file_id expires s =
     bindE (resolve_object_name mn st bucket file_id s) (\<lambda>object_name.
     bindE (clamp_presigned_expiry st (Some expires)) (\<lambda>effective_expiry.
     mn_presigned_get mn s bucket object_name effective_expiry))"

definition remove_file ::
  "'s minio \<Rightarrow> storage_settings \<Rightarrow> string \<Rightarrow> nat \<Rightarrow> 's \<Rightarrow> (file_error + unit) \<times> 's" where
  "remove_file mn st bucket file_id s =
     (case resolve_object_name mn st bucket file_id s of
        Inl e \<Rightarrow> (Inl e, s)
      | Inr object_name \<Rightarrow> raised (mn_remove_object mn s bucket object_name))"

record file_item =
  fi_file_id :: nat
  fi_object_name :: string
  fi_size :: int
  fi_etag :: "string option"
  fi_last_modified :: "time option"

definition file_item_of :: "nat \<Rightarrow> stored_object \<Rightarrow> file_item" where
  "file_item_of file_id obj =
     \<lparr>fi_file_id = file_id, fi_object_name = so_object_name obj,
      fi_size = (case so_size obj of None \<Rightarrow> 0 | Some n \<Rightarrow> n), fi_etag = so_etag obj,
      fi_last_modified = so_last_modified obj\<rparr>"

text \<open>The loop of \<open>list_files\<close>; the generator's exception surfaces only if the loop reaches it.\<close>

fun list_loop ::
  "int \<Rightarrow> int \<Rightarrow> file_error option \<Rightarrow> int \<Rightarrow> file_item list \<Rightarrow> stored_object list
    \<Rightarrow> file_error + file_item list \<times> bool" where
  "list_loop offset page_size end_error accepted items [] =
     (case end_error of Some e \<Rightarrow> Inl e | None \<Rightarrow> Inr (items, False))"
| "list_loop offset page_size end_error accepted items (obj # objs) =
     (case file_id_from_object_name (so_object_name obj) of
        None \<Rightarrow> list_loop offset page_size end_error accepted items objs
      | Some file_id \<Rightarrow>
          if accepted < offset then list_loop offset page_size end_error (accepted + 1) items objs
          else if int (length items) = page_size then Inr (items, True)
          else list_loop offset page_size end_error (accepted + 1) (items @ [file_item_of file_id obj]) objs)"

definition list_files ::
  "'s minio \<Rightarrow> storage_settings \<Rightarrow> string \<Rightarrow> int \<Rightarrow> int \<Rightarrow> 's \<Rightarrow> file_error + file_item list \<times> bool" where
  "list_files mn st bucket page page_size s =
     bindE (require_bucket st bucket) (\<lambda>_.
       case mn_list_objects mn s bucket of
         (objects, end_error) \<Rightarrow> list_loop ((page - 1) * page_size) page_size end_error 0 [] objects)"

text \<open>\<open>initialize\<close>: the buckets exist and have no policy, captures expire.\<close>

definition ensure_private :: "'s minio \<Rightarrow> string \<Rightarrow> 's \<Rightarrow> (file_error + unit) \<times> 's" where
  "ensure_private mn bucket s =
     (case mn_delete_policy mn s bucket of
        (None, s) \<Rightarrow> (Inr (), s)
      | (Some (S3Error code), s) \<Rightarrow>
          if code \<in> {''NoSuchBucketPolicy'', ''NoSuchPolicy'', ''NoSuchBucket''} then (Inr (), s)
          else (Inl (S3Error code), s)
      | (Some e, s) \<Rightarrow> (Inl e, s))"

definition ensure_bucket :: "'s minio \<Rightarrow> string \<Rightarrow> 's \<Rightarrow> (file_error + unit) \<times> 's" where
  "ensure_bucket mn bucket s =
     (case mn_bucket_exists mn s bucket of
        Inl e \<Rightarrow> (Inl e, s)
      | Inr True \<Rightarrow> (Inr (), s)
      | Inr False \<Rightarrow>
          (case mn_make_bucket mn s bucket of
             (None, s) \<Rightarrow> (Inr (), s)
           | (Some (S3Error code), s) \<Rightarrow>
               if code \<notin> {''BucketAlreadyOwnedByYou'', ''BucketAlreadyExists''} then (Inl (S3Error code), s)
               else (case mn_bucket_exists mn s bucket of
                       Inl e \<Rightarrow> (Inl e, s)
                     | Inr True \<Rightarrow> (Inr (), s)
                     | Inr False \<Rightarrow> (Inl (S3Error code), s))
           | (Some e, s) \<Rightarrow> (Inl e, s)))"

fun prepare_buckets :: "'s minio \<Rightarrow> string list \<Rightarrow> 's \<Rightarrow> (file_error + unit) \<times> 's" where
  "prepare_buckets mn [] s = (Inr (), s)"
| "prepare_buckets mn (b # bs) s =
     (case ensure_bucket mn b s of
        (Inl e, s) \<Rightarrow> (Inl e, s)
      | (Inr _, s) \<Rightarrow>
          (case ensure_private mn b s of
             (Inl e, s) \<Rightarrow> (Inl e, s)
           | (Inr _, s) \<Rightarrow> prepare_buckets mn bs s))"

definition initialize :: "'s minio \<Rightarrow> storage_settings \<Rightarrow> 's \<Rightarrow> (file_error + unit) \<times> 's" where
  "initialize mn st s =
     (case prepare_buckets mn (buckets st) s of
        (Inl e, s) \<Rightarrow> (Inl e, s)
      | (Inr _, s) \<Rightarrow> raised (mn_set_lifecycle mn s (ss_captures st) (ss_retention_days st)))"

text \<open>\<open>check_health\<close> and the health handler: status and code.\<close>

definition check_health :: "'s minio \<Rightarrow> 's \<Rightarrow> bool + file_error option" where
  "check_health mn s =
     (case mn_list_buckets mn s of
        None \<Rightarrow> Inr None
      | Some (S3Error _) \<Rightarrow> Inl False
      | Some TransportError \<Rightarrow> Inl False
      | Some e \<Rightarrow> Inr (Some e))"

definition health :: "'s minio \<Rightarrow> 's \<Rightarrow> nat \<times> string" where
  "health mn s =
     (case check_health mn s of
        Inl _ \<Rightarrow> (503, ''storage_unavailable'')
      | Inr (Some _) \<Rightarrow> (500, ''health_check_failed'')
      | Inr None \<Rightarrow> (200, ''ok''))"

subsection \<open>Handlers\<close>

definition verify_service_token :: "storage_settings \<Rightarrow> string option \<Rightarrow> file_error + unit" where
  "verify_service_token st supplied_token =
     guardE (supplied_token = Some (ss_token st)) (HttpFailure 401)"

record upload_response =
  ur_file_id :: nat
  ur_bucket :: string
  ur_object_name :: string
  ur_content_type :: string
  ur_size :: nat
  ur_url :: "string option"

definition store_upload ::
  "'s minio \<Rightarrow> storage_settings \<Rightarrow> nat \<Rightarrow> string \<Rightarrow> string \<Rightarrow> string \<Rightarrow> string \<Rightarrow> 's
    \<Rightarrow> (file_error + upload_response) \<times> 's" where
  "store_upload mn st file_id bucket object_name data content_type s =
     (case storage_upload mn st bucket object_name data content_type s of
        (Inl e, s) \<Rightarrow> (Inl e, s)
      | (Inr _, s) \<Rightarrow>
          (Inr \<lparr>ur_file_id = file_id, ur_bucket = bucket, ur_object_name = object_name,
                ur_content_type = content_type, ur_size = length data, ur_url = None\<rparr>, s))"

definition upload_face ::
  "content_libs \<Rightarrow> 's minio \<Rightarrow> storage_settings \<Rightarrow> nat \<Rightarrow> file_upload \<Rightarrow> 's
    \<Rightarrow> (file_error + upload_response) \<times> 's" where
  "upload_face libs mn st file_id file s =
     (case read_validated_upload libs file image_content_types of
        Inl e \<Rightarrow> (Inl e, s)
      | Inr (data, content_type) \<Rightarrow>
          (case store_upload mn st file_id (ss_faces st) (uuid_text file_id @ ''.jpg'') data content_type s of
             (Inl e, s) \<Rightarrow> (Inl e, s)
           | (Inr r, s) \<Rightarrow>
               (bindE (clamp_presigned_expiry st None) (\<lambda>expiry.
                bindE (presigned_url mn st (ss_faces st) file_id expiry s) (\<lambda>url.
                Inr (r\<lparr>ur_url := Some url\<rparr>))), s)))"

definition upload_capture ::
  "content_libs \<Rightarrow> 's minio \<Rightarrow> storage_settings \<Rightarrow> nat \<Rightarrow> string \<Rightarrow> file_upload \<Rightarrow> 's
    \<Rightarrow> (file_error + upload_response) \<times> 's" where
  "upload_capture libs mn st file_id today file s =
     (case read_validated_upload libs file image_content_types of
        Inl e \<Rightarrow> (Inl e, s)
      | Inr (data, content_type) \<Rightarrow>
          store_upload mn st file_id (ss_captures st) (today @ ''/'' @ uuid_text file_id @ ''.jpg'')
            data content_type s)"

definition upload_document ::
  "content_libs \<Rightarrow> 's minio \<Rightarrow> storage_settings \<Rightarrow> nat \<Rightarrow> string \<Rightarrow> file_upload \<Rightarrow> 's
    \<Rightarrow> (file_error + upload_response) \<times> 's" where
  "upload_document libs mn st file_id category file s =
     (case bindE (validate_category category) (\<lambda>category.
           bindE (read_validated_upload libs file document_content_types) (\<lambda>(data, content_type).
           Inr (category, data, content_type))) of
        Inl e \<Rightarrow> (Inl e, s)
      | Inr (category, data, content_type) \<Rightarrow>
          store_upload mn st file_id (ss_documents st)
            (category @ ''/'' @ uuid_text file_id @ the (map_of document_content_types content_type))
            data content_type s)"

definition get_presigned_url ::
  "'s minio \<Rightarrow> storage_settings \<Rightarrow> string \<Rightarrow> nat \<Rightarrow> int \<Rightarrow> 's \<Rightarrow> file_error + string \<times> int" where
  "get_presigned_url mn st bucket file_id expires s =
     bindE (guardE (60 \<le> expires \<and> expires \<le> 604800) (HttpFailure 422)) (\<lambda>_.
     bindE (validate_uuid4 file_id) (\<lambda>file_id.
     bindE (clamp_presigned_expiry st (Some expires)) (\<lambda>expires.
     bindE (presigned_url mn st bucket file_id expires s) (\<lambda>url. Inr (url, expires)))))"

definition redirect_to_file ::
  "'s minio \<Rightarrow> storage_settings \<Rightarrow> string \<Rightarrow> nat \<Rightarrow> 's \<Rightarrow> file_error + string" where
  "redirect_to_file mn st bucket file_id s =
     bindE (validate_uuid4 file_id) (\<lambda>file_id.
     bindE (clamp_presigned_expiry st None) (\<lambda>expiry. presigned_url mn st bucket file_id expiry s))"

record file_list =
  fl_bucket :: string
  fl_page :: int
  fl_page_size :: int
  fl_items :: "file_item list"
  fl_has_more :: bool

definition list_files_handler ::
  "'s minio \<Rightarrow> storage_settings \<Rightarrow> string \<Rightarrow> int \<Rightarrow> int \<Rightarrow> 's \<Rightarrow> file_error + file_list" where
  "list_files_handler mn st bucket page page_size s =
     bindE (guardE (1 \<le> page \<and> 1 \<le> page_size \<and> page_size \<le> 100) (HttpFailure 422)) (\<lambda>_.
     bindE (list_files mn st bucket page page_size s) (\<lambda>(items, has_more).
     Inr \<lparr>fl_bucket = bucket, fl_page = page, fl_page_size = page_size, fl_items = items,
          fl_has_more = has_more\<rparr>))"

definition delete_file ::
  "'s minio \<Rightarrow> storage_settings \<Rightarrow> string \<Rightarrow> nat \<Rightarrow> 's \<Rightarrow> (file_error + unit) \<times> 's" where
  "delete_file mn st bucket file_id s =
     (case validate_uuid4 file_id of
        Inl e \<Rightarrow> (Inl e, s)
      | Inr file_id \<Rightarrow> remove_file mn st bucket file_id s)"

text \<open>A request of \<open>batch_delete\<close> has 1 to 100 different references with identities of version 4.\<close>

type_synonym file_reference = "string \<times> nat"

definition batch_request :: "file_reference list \<Rightarrow> bool" where
  "batch_request files \<longleftrightarrow>
     1 \<le> length files \<and> length files \<le> 100
     \<and> list_all (\<lambda>(bucket, file_id). bucket \<noteq> [] \<and> uuid_is_v4 file_id) files \<and> distinct files"

record batch_result =
  br_deleted :: "file_reference list"
  br_failed :: "(file_reference \<times> string) list"

text \<open>What becomes of one reference: deleted, or failed with a code; other exceptions end the batch.\<close>

definition failure_code :: "file_error \<Rightarrow> string option" where
  "failure_code e =
     (case e of
        InvalidBucketError \<Rightarrow> Some ''not_found''
      | ObjectNotFoundError \<Rightarrow> Some ''not_found''
      | S3Error _ \<Rightarrow> Some ''storage_error''
      | TransportError \<Rightarrow> Some ''storage_error''
      | _ \<Rightarrow> None)"

fun batch_loop ::
  "'s minio \<Rightarrow> storage_settings \<Rightarrow> batch_result \<Rightarrow> file_reference list \<Rightarrow> 's
    \<Rightarrow> (file_error + batch_result) \<times> 's" where
  "batch_loop mn st r [] s = (Inr r, s)"
| "batch_loop mn st r ((bucket, file_id) # files) s =
     (case delete_file mn st bucket file_id s of
        (Inr _, s) \<Rightarrow> batch_loop mn st (r\<lparr>br_deleted := br_deleted r @ [(bucket, file_id)]\<rparr>) files s
      | (Inl e, s) \<Rightarrow>
          (case failure_code e of
             Some code \<Rightarrow> batch_loop mn st (r\<lparr>br_failed := br_failed r @ [((bucket, file_id), code)]\<rparr>) files s
           | None \<Rightarrow> (Inl e, s)))"

definition batch_delete ::
  "'s minio \<Rightarrow> storage_settings \<Rightarrow> file_reference list \<Rightarrow> 's \<Rightarrow> (file_error + batch_result) \<times> 's" where
  "batch_delete mn st files s =
     (if \<not> batch_request files then (Inl (HttpFailure 422), s)
      else batch_loop mn st \<lparr>br_deleted = [], br_failed = []\<rparr> files s)"

end
