(* ===== verification/File_Server_Props.thy ===== *)
theory File_Server_Props
  imports File_Server "HOL-Library.Multiset"
begin

section \<open>What the file server promises\<close>

text \<open>
  A page of the listing is that page of the files of the bucket; an uploaded file is found again
  under the identity the response names; a batch accounts for every reference.
\<close>

subsection \<open>Listing\<close>

text \<open>The files among the objects of a bucket.\<close>

definition listing :: "stored_object list \<Rightarrow> file_item list" where
  "listing objs =
     concat (map (\<lambda>obj. case file_id_from_object_name (so_object_name obj) of
                          None \<Rightarrow> [] | Some file_id \<Rightarrow> [file_item_of file_id obj]) objs)"

lemma listing_simps [simp]:
  "listing [] = []"
  "listing (obj # objs) =
     (case file_id_from_object_name (so_object_name obj) of
        None \<Rightarrow> listing objs | Some file_id \<Rightarrow> file_item_of file_id obj # listing objs)"
  by (auto simp: listing_def split: option.splits)

lemma list_loop_fill:
  assumes "offset \<le> accepted" "int (length items) \<le> page_size"
  shows "list_loop offset page_size end_error accepted items objs =
    (if page_size < int (length items + length (listing objs))
     then Inr (items @ take (nat page_size - length items) (listing objs), True)
     else case end_error of Some e \<Rightarrow> Inl e | None \<Rightarrow> Inr (items @ listing objs, False))"
  using assms
proof (induction objs arbitrary: accepted items)
  case Nil
  then show ?case by (auto split: option.splits)
next
  case (Cons obj objs)
  show ?case
  proof (cases "file_id_from_object_name (so_object_name obj)")
    case None
    then show ?thesis using Cons by (cases end_error) simp_all
  next
    case (Some file_id)
    show ?thesis
    proof (cases "int (length items) = page_size")
      case True
      then show ?thesis using Some Cons.prems by auto
    next
      case False
      then have less: "int (length items) < page_size" using Cons.prems by simp
      then have n: "nat page_size - length items = Suc (nat page_size - Suc (length items))" by linarith
      have "list_loop offset page_size end_error accepted items (obj # objs)
        = list_loop offset page_size end_error (accepted + 1) (items @ [file_item_of file_id obj]) objs"
        using Some False Cons.prems by simp
      also have "\<dots> = (if page_size < int (length items + length (listing (obj # objs)))
          then Inr (items @ take (nat page_size - length items) (listing (obj # objs)), True)
          else case end_error of Some e \<Rightarrow> Inl e | None \<Rightarrow> Inr (items @ listing (obj # objs), False))"
        using Cons.IH [of "accepted + 1" "items @ [file_item_of file_id obj]"] Cons.prems less Some n
        by (cases end_error) simp_all
      finally show ?thesis .
    qed
  qed
qed

lemma list_loop_page:
  assumes "accepted \<le> offset" "0 \<le> page_size"
  shows "list_loop offset page_size end_error accepted [] objs =
    (let rest = drop (nat (offset - accepted)) (listing objs)
     in if page_size < int (length rest) then Inr (take (nat page_size) rest, True)
        else case end_error of Some e \<Rightarrow> Inl e | None \<Rightarrow> Inr (rest, False))"
  using assms
proof (induction objs arbitrary: accepted)
  case Nil
  then show ?case by (auto split: option.splits)
next
  case (Cons obj objs)
  show ?case
  proof (cases "accepted < offset")
    case False
    then show ?thesis using list_loop_fill [of offset accepted "[]" page_size end_error "obj # objs"] Cons.prems
      by (cases end_error) (simp_all add: Let_def)
  next
    case True
    then have d: "nat (offset - accepted) = Suc (nat (offset - (accepted + 1)))" by linarith
    show ?thesis
    proof (cases "file_id_from_object_name (so_object_name obj)")
      case None
      then show ?thesis using Cons by (cases end_error) (simp_all add: Let_def)
    next
      case (Some file_id)
      then show ?thesis using Cons.IH [of "accepted + 1"] Cons.prems True
        by (cases end_error) (simp_all add: d Let_def)
    qed
  qed
qed

text \<open>
  C32. Page \<open>p\<close> of size \<open>n\<close> is the \<open>p\<close>-th block of \<open>n\<close> files of the bucket in the order of the
  store, and \<open>has_more\<close> says whether a file follows it; an error at the end of the listing is
  raised exactly when no file follows the page.
\<close>

theorem list_files_is_page:
  assumes "bucket \<in> set (buckets st)" "1 \<le> page" "1 \<le> page_size"
    and "mn_list_objects mn s bucket = (objects, end_error)"
  shows "list_files mn st bucket page page_size s =
    (let files = listing objects; first = nat (page - 1) * nat page_size
     in if first + nat page_size < length files
        then Inr (take (nat page_size) (drop first files), True)
        else case end_error of Some e \<Rightarrow> Inl e | None \<Rightarrow> Inr (drop first files, False))"
proof -
  have off: "nat ((page - 1) * page_size) = nat (page - 1) * nat page_size"
    using assms(2) by (simp add: nat_mult_distrib)
  have "0 \<le> (page - 1) * page_size" using assms(2,3) by simp
  from list_loop_page [OF this, of page_size end_error objects] assms(1,3,4)
  have "list_files mn st bucket page page_size s =
    (let rest = drop (nat (page - 1) * nat page_size) (listing objects)
     in if page_size < int (length rest) then Inr (take (nat page_size) rest, True)
        else case end_error of Some e \<Rightarrow> Inl e | None \<Rightarrow> Inr (rest, False))"
    by (simp add: list_files_def require_bucket_def off)
  moreover have "page_size < int (length (drop k xs)) \<longleftrightarrow> k + nat page_size < length xs"
    for k and xs :: "file_item list"
    using assms(3) by (simp, linarith)
  ultimately show ?thesis by (simp add: Let_def)
qed

subsection \<open>Uploads\<close>

lemma read_chunks_sound:
  assumes "read_chunks n chunks reads = Inr cs" "n = sum_list (map length chunks)" "n < max_upload_size"
  shows "cs = rev chunks @ takeWhile (\<lambda>c. c \<noteq> []) reads \<and> sum_list (map length cs) < max_upload_size"
  using assms
proof (induction n chunks reads rule: read_chunks.induct)
  case (2 n chunks chunk reads)
  have "sum_list (map length (rev chunks)) = sum_list (map length chunks)"
    by (simp flip: rev_map)
  with 2 show ?case by (cases "chunk = []") (auto simp: add.commute split: if_splits)
qed (auto simp flip: rev_map)

lemma upload_in_bounds:
  assumes "read_validated_upload libs up allowed = Inr (data, content_type)"
  shows "0 < length data \<and> length data < max_upload_size \<and> content_type \<in> fst ` set allowed
    \<and> data = concat (takeWhile (\<lambda>c. c \<noteq> []) (up_reads up)) \<and> validate_content libs data content_type = Inr ()"
proof -
  obtain cs where cs: "read_chunks 0 [] (up_reads up) = Inr cs" "data = concat cs"
    "sum_list (map length cs) \<noteq> 0" "content_type \<in> fst ` set allowed"
    "validate_content libs data content_type = Inr ()"
    using assms by (auto simp: read_validated_upload_def bindE_eq_Inr Let_def)
  from read_chunks_sound [OF cs(1)] have "cs = takeWhile (\<lambda>c. c \<noteq> []) (up_reads up)"
    "sum_list (map length cs) < max_upload_size" by (auto simp: max_upload_size_def)
  moreover have "length data = sum_list (map length cs)" by (simp add: cs(2) length_concat)
  moreover have "0 < sum_list (map length cs)" using cs(3) by (simp only: neq0_conv)
  ultimately show ?thesis using cs(2,4,5) by metis
qed

lemma category_clean:
  assumes "validate_category category = Inr c"
  shows "c \<noteq> []" "length c \<le> 64" "list_all category_char c" "CHR ''/'' \<notin> set c" "CHR ''.'' \<notin> set c"
proof -
  have "category_matches c" using assms by (auto simp: validate_category_def bindE_eq_Inr Let_def)
  then show chars: "c \<noteq> []" "length c \<le> 64" "list_all category_char c"
    by (auto simp: category_matches_def category_char_def split: list.splits)
  show "CHR ''/'' \<notin> set c" "CHR ''.'' \<notin> set c"
    using chars(3) by (auto simp: list_all_iff category_char_def category_start_def)
qed

text \<open>
  What is assumed of the store, as S3 documents it: after a put that succeeded the object can be
  stat'ed, and a complete listing of the bucket has the names it had before and the new one, each
  once.
\<close>

definition put_visible :: "'s minio \<Rightarrow> bool" where
  "put_visible mn \<longleftrightarrow>
     (\<forall>s bucket name data content_type s'. mn_put_object mn s bucket name data content_type = (None, s') \<longrightarrow>
        mn_stat_object mn s' bucket name = None
        \<and> (\<forall>before after. mn_list_objects mn s bucket = (before, None) \<longrightarrow>
              mn_list_objects mn s' bucket = (after, None) \<longrightarrow>
              distinct (map so_object_name after)
              \<and> set (map so_object_name after) = insert name (set (map so_object_name before))))"

lemma filter_single:
  assumes "distinct xs" "x \<in> set xs" "\<And>y. y \<in> set xs \<Longrightarrow> P y \<longleftrightarrow> y = x"
  shows "filter P xs = [x]"
proof -
  have "set (filter P xs) = {x}" using assms(2,3) by auto
  moreover have "distinct (filter P xs)" using assms(1) by simp
  ultimately show ?thesis by (metis distinct_length_2_or_more empty_set insert_not_empty list.exhaust
        list.set_intros(1,2) singletonD)
qed

lemma stored_resolves:
  assumes laws: "put_visible mn"
    and bucket: "bucket \<in> set (buckets st)"
    and put: "store_upload mn st u bucket name data content_type s = (Inr r, s')"
    and name: "file_id_from_object_name name = Some u"
      "bucket = ss_faces st \<Longrightarrow> name = uuid_text u @ ''.jpg''"
    and listed: "mn_list_objects mn s bucket = (before, None)" "mn_list_objects mn s' bucket = (after, None)"
    and fresh: "\<And>obj. obj \<in> set before \<Longrightarrow> file_id_from_object_name (so_object_name obj) \<noteq> Some u"
  shows "resolve_object_name mn st bucket u s' = Inr name"
proof -
  have "mn_put_object mn s bucket name data content_type = (None, s')"
    using put bucket by (auto simp: store_upload_def storage_upload_def require_bucket_def raised_def
        split: prod.splits sum.splits option.splits)
  with laws listed have vis: "mn_stat_object mn s' bucket name = None"
    "distinct (map so_object_name after)" 
    "set (map so_object_name after) = insert name (set (map so_object_name before))"
    unfolding put_visible_def by blast+
  show ?thesis
  proof (cases "bucket = ss_faces st")
    case True
    then show ?thesis using vis(1) name(2) bucket
      by (simp add: resolve_object_name_def require_bucket_def)
  next
    case False
    have "filter (\<lambda>n. file_id_from_object_name n = Some u) (map so_object_name after) = [name]"
      by (rule filter_single [OF vis(2)]) (use vis(3) name(1) fresh in auto)
    then show ?thesis using False bucket listed(2)
      by (simp add: resolve_object_name_def require_bucket_def Let_def)
  qed
qed

lemma document_suffix:
  assumes "content_type \<in> fst ` set document_content_types"
  shows "\<exists>ext. the (map_of document_content_types content_type) = CHR ''.'' # ext \<and> ext \<noteq> []
    \<and> CHR ''.'' \<notin> set ext \<and> CHR ''/'' \<notin> set ext"
  using assms by (auto simp: document_content_types_def)

lemma store_upload_fields:
  "store_upload mn st u bucket name data content_type s = (Inr r, s') \<Longrightarrow>
   ur_file_id r = u \<and> ur_bucket r = bucket \<and> ur_object_name r = name \<and> ur_size r = length data"
  by (auto simp: store_upload_def split: prod.splits sum.splits)

text \<open>What each handler stores, when it answers 201.\<close>

lemma upload_stores:
  assumes "upload_document libs mn st u category file s = (Inr r, s')
      \<or> upload_capture libs mn st u today file s = (Inr r, s')
      \<or> upload_face libs mn st u file s = (Inr r, s')"
    and "u < 2 ^ 128" "uuid_is_v4 u" "distinct (buckets st)"
  shows "\<exists>name data content_type bucket r0. store_upload mn st u bucket name data content_type s = (Inr r0, s')
    \<and> ur_file_id r = u \<and> ur_bucket r = bucket \<and> ur_object_name r = name \<and> ur_size r = length data
    \<and> bucket \<in> set (buckets st) \<and> file_id_from_object_name name = Some u
    \<and> (bucket = ss_faces st \<longrightarrow> name = uuid_text u @ ''.jpg'')
    \<and> 0 < length data \<and> length data < max_upload_size"
  using assms(1)
proof (elim disjE)
  assume "upload_document libs mn st u category file s = (Inr r, s')"
  then obtain c data content_type where up: "read_validated_upload libs file document_content_types = Inr (data, content_type)"
    and put: "store_upload mn st u (ss_documents st)
        (c @ ''/'' @ uuid_text u @ the (map_of document_content_types content_type)) data content_type s = (Inr r, s')"
    by (auto simp: upload_document_def bindE_eq_Inr split: sum.splits prod.splits)
  note ok = upload_in_bounds [OF up]
  then obtain ext where "the (map_of document_content_types content_type) = CHR ''.'' # ext" "ext \<noteq> []"
    "CHR ''.'' \<notin> set ext" "CHR ''/'' \<notin> set ext" using document_suffix by blast
  with put ok assms(2-4) file_id_of_name(2) [of u ext c] store_upload_fields [OF put] show ?thesis
    by (intro exI [of _ "c @ ''/'' @ uuid_text u @ the (map_of document_content_types content_type)"]
        exI [of _ data] exI [of _ content_type] exI [of _ "ss_documents st"] exI [of _ r])
      (auto simp: buckets_def)
next
  assume "upload_capture libs mn st u today file s = (Inr r, s')"
  then obtain data content_type where up: "read_validated_upload libs file image_content_types = Inr (data, content_type)"
    and put: "store_upload mn st u (ss_captures st) (today @ ''/'' @ uuid_text u @ ''.jpg'') data content_type s = (Inr r, s')"
    by (auto simp: upload_capture_def split: sum.splits prod.splits)
  with upload_in_bounds [OF up] assms(2-4) file_id_of_name(2) [of u "''jpg''" today] store_upload_fields [OF put]
  show ?thesis
    by (intro exI [of _ "today @ ''/'' @ uuid_text u @ ''.jpg''"] exI [of _ data] exI [of _ content_type]
        exI [of _ "ss_captures st"] exI [of _ r]) (auto simp: buckets_def)
next
  assume "upload_face libs mn st u file s = (Inr r, s')"
  then obtain data content_type r0 where up: "read_validated_upload libs file image_content_types = Inr (data, content_type)"
    and put: "store_upload mn st u (ss_faces st) (uuid_text u @ ''.jpg'') data content_type s = (Inr r0, s')"
    and r: "\<exists>url. r = r0\<lparr>ur_url := url\<rparr>"
    by (auto simp: upload_face_def bindE_eq_Inr split: sum.splits prod.splits)
  from r have "ur_file_id r = ur_file_id r0" "ur_bucket r = ur_bucket r0" "ur_object_name r = ur_object_name r0"
    "ur_size r = ur_size r0" by auto
  with put upload_in_bounds [OF up] assms(2-4) file_id_of_name(1) [of u "''jpg''"] store_upload_fields [OF put]
  show ?thesis
    by (intro exI [of _ "uuid_text u @ ''.jpg''"] exI [of _ data] exI [of _ content_type]
        exI [of _ "ss_faces st"] exI [of _ r0]) (auto simp: buckets_def)
qed

text \<open>
  C31. A file any upload handler accepted is non-empty and below the size limit, and resolving the
  identity of the response in its bucket gives the object name of the response, if the identity is
  new to the bucket.
\<close>

theorem upload_found_again:
  assumes "put_visible mn"
    and "upload_document libs mn st u category file s = (Inr r, s')
      \<or> upload_capture libs mn st u today file s = (Inr r, s')
      \<or> upload_face libs mn st u file s = (Inr r, s')"
    and "u < 2 ^ 128" "uuid_is_v4 u" "distinct (buckets st)"
    and "mn_list_objects mn s (ur_bucket r) = (before, None)" "mn_list_objects mn s' (ur_bucket r) = (after, None)"
    and "\<And>obj. obj \<in> set before \<Longrightarrow> file_id_from_object_name (so_object_name obj) \<noteq> Some u"
  shows "resolve_object_name mn st (ur_bucket r) (ur_file_id r) s' = Inr (ur_object_name r)
    \<and> ur_file_id r = u \<and> 0 < ur_size r \<and> ur_size r < max_upload_size"
proof -
  from upload_stores [OF assms(2-5)] obtain name data content_type bucket r0 where
    up: "store_upload mn st u bucket name data content_type s = (Inr r0, s')"
    "ur_file_id r = u" "ur_bucket r = bucket" "ur_object_name r = name" "ur_size r = length data"
    "bucket \<in> set (buckets st)" "file_id_from_object_name name = Some u"
    "bucket = ss_faces st \<longrightarrow> name = uuid_text u @ ''.jpg''" "0 < length data" "length data < max_upload_size"
    by blast
  have "resolve_object_name mn st bucket u s' = Inr name"
    using stored_resolves [OF assms(1) up(6,1,7)] up(3,8) assms(6-8) by blast
  then show ?thesis using up by simp
qed

subsection \<open>Deleting\<close>

lemma failure_codes: "failure_code e = Some code \<Longrightarrow> code \<in> {''not_found'', ''storage_error''}"
  by (auto simp: failure_code_def split: file_error.splits)

definition batch_codes :: "batch_result \<Rightarrow> bool" where
  "batch_codes r \<longleftrightarrow> snd ` set (br_failed r) \<subseteq> {''not_found'', ''storage_error''}"

definition batch_refs :: "batch_result \<Rightarrow> file_reference multiset" where
  "batch_refs r = mset (br_deleted r) + mset (map fst (br_failed r))"

lemma batch_loop_accounts:
  "batch_loop mn st r files s = (Inr r', s') \<Longrightarrow> batch_codes r \<Longrightarrow>
   batch_refs r' = batch_refs r + mset files \<and> batch_codes r'"
proof (induction mn st r files s rule: batch_loop.induct)
  case (2 mn st r bucket file_id files s)
  obtain d s1 where d: "delete_file mn st bucket file_id s = (d, s1)" by fastforce
  show ?case
  proof (cases d)
    case (Inr u)
    have "batch_loop mn st (r\<lparr>br_deleted := br_deleted r @ [(bucket, file_id)]\<rparr>) files s1 = (Inr r', s')"
      using 2(3) d Inr by simp
    from 2(2) [OF d [symmetric] Inr this] 2(4) show ?thesis
      by (simp add: batch_codes_def batch_refs_def)
  next
    case (Inl e)
    then obtain code where code: "failure_code e = Some code" using 2(3) d by (auto split: option.splits)
    have "batch_loop mn st (r\<lparr>br_failed := br_failed r @ [((bucket, file_id), code)]\<rparr>) files s1 = (Inr r', s')"
      using 2(3) d Inl code by simp
    from 2(1) [OF d [symmetric] Inl code this] 2(4) failure_codes [OF code] show ?thesis
      by (simp add: batch_codes_def batch_refs_def)
  qed
qed simp

lemma batch_loop_error:
  "batch_loop mn st r files s = (Inl e, s') \<Longrightarrow> failure_code e = None"
proof (induction mn st r files s rule: batch_loop.induct)
  case (2 mn st r bucket file_id files s)
  then show ?case by (auto split: prod.splits sum.splits option.splits)
qed simp

text \<open>
  A batch that answers accounts for every reference once, as deleted or as failed with one of
  two codes; a batch that does not answer ended in an exception of the store that is neither an
  absence nor a storage error.
\<close>

theorem batch_delete_accounts:
  assumes "batch_delete mn st files s = (outcome, s')" "batch_request files"
  shows "case outcome of
      Inr r \<Rightarrow> set (br_deleted r) \<union> fst ` set (br_failed r) = set files
        \<and> distinct (br_deleted r @ map fst (br_failed r))
        \<and> snd ` set (br_failed r) \<subseteq> {''not_found'', ''storage_error''}
    | Inl e \<Rightarrow> failure_code e = None"
proof (cases outcome)
  case (Inl e)
  then show ?thesis using assms batch_loop_error [of mn st "\<lparr>br_deleted = [], br_failed = []\<rparr>" files s e s']
    by (simp add: batch_delete_def)
next
  case (Inr r)
  have "batch_refs r = mset files \<and> batch_codes r"
    using batch_loop_accounts [of mn st "\<lparr>br_deleted = [], br_failed = []\<rparr>" files s r s'] assms Inr
    by (simp add: batch_delete_def batch_refs_def batch_codes_def)
  then have refs: "mset (br_deleted r @ map fst (br_failed r)) = mset files" and codes: "batch_codes r"
    by (simp_all add: batch_refs_def)
  have "set (br_deleted r @ map fst (br_failed r)) = set files" by (rule mset_eq_setD [OF refs])
  moreover have "distinct (br_deleted r @ map fst (br_failed r))"
    using mset_eq_imp_distinct_iff [OF refs] assms(2) by (simp add: batch_request_def)
  ultimately show ?thesis using Inr codes by (simp add: batch_codes_def)
qed

subsection \<open>A store with three documents\<close>

text \<open>A store that keeps bucket and name of each object.\<close>

definition demo_object :: "string \<Rightarrow> stored_object" where
  "demo_object name = \<lparr>so_object_name = name, so_size = Some 1, so_etag = None, so_last_modified = None\<rparr>"

definition demo_minio :: "(string \<times> string) list minio" where
  "demo_minio =
     \<lparr>mn_put_object = (\<lambda>s bucket name data content_type. (None, (bucket, name) # s)),
      mn_stat_object = (\<lambda>s bucket name. if (bucket, name) \<in> set s then None else Some (S3Error ''NoSuchKey'')),
      mn_list_objects = (\<lambda>s bucket. (map demo_object (remdups (map snd (filter (\<lambda>x. fst x = bucket) s))), None)),
      mn_remove_object = (\<lambda>s bucket name. (None, filter (\<lambda>x. x \<noteq> (bucket, name)) s)),
      mn_presigned_get = (\<lambda>s bucket name expires. Inr name),
      mn_list_buckets = (\<lambda>s. None), mn_bucket_exists = (\<lambda>s bucket. Inr True),
      mn_make_bucket = (\<lambda>s bucket. (None, s)), mn_delete_policy = (\<lambda>s bucket. (None, s)),
      mn_set_lifecycle = (\<lambda>s bucket days. (None, s))\<rparr>"

definition demo_settings :: storage_settings where
  "demo_settings =
     \<lparr>ss_faces = ''faces'', ss_captures = ''captures'', ss_documents = ''documents'', ss_token = ''token'',
      ss_retention_days = 90, ss_default_expiry = 3600, ss_max_expiry = 86400\<rparr>"

definition demo_id :: "nat \<Rightarrow> nat" where
  "demo_id k = 4 * 2 ^ 76 + 2 * 2 ^ 62 + k"

definition demo_name :: "string \<Rightarrow> nat \<Rightarrow> string" where
  "demo_name d k = d @ CHR ''/'' # uuid_text (demo_id k) @ CHR ''.'' # ''txt''"

lemma demo_names [simp]: "so_object_name (demo_object n) = n" "so_object_name \<circ> demo_object = (\<lambda>n. n)"
  by (simp_all add: demo_object_def comp_def)

lemma demo_put_visible: "put_visible demo_minio"
  by (auto simp: put_visible_def demo_minio_def image_iff)

lemma demo_id_v4: "demo_id 2 < 2 ^ 128" "uuid_is_v4 (demo_id 2)" "demo_id 3 < 2 ^ 128" "uuid_is_v4 (demo_id 3)"
  by (simp_all add: demo_id_def uuid_is_v4_def)

lemma demo_file_id:
  "file_id_from_object_name (demo_name d 2) = Some (demo_id 2)"
  "file_id_from_object_name (demo_name d 3) = Some (demo_id 3)"
  using file_id_of_name(2) [OF demo_id_v4(1,2), of "''txt''" d]
    file_id_of_name(2) [OF demo_id_v4(3,4), of "''txt''" d]
  by (simp_all add: demo_name_def)

definition demo_store :: "(string \<times> string) list" where
  "demo_store = [(''documents'', demo_name ''a'' 2), (''documents'', demo_name ''b'' 3), (''documents'', demo_name ''c'' 3)]"

lemma demo_distinct: "demo_name ''a'' 2 \<noteq> demo_name ''b'' 3" "demo_name ''a'' 2 \<noteq> demo_name ''c'' 3"
  "demo_name ''b'' 3 \<noteq> demo_name ''c'' 3"
  by (simp_all add: demo_name_def)

lemma demo_listing:
  "mn_list_objects demo_minio demo_store ''documents'' =
     ([demo_object (demo_name ''a'' 2), demo_object (demo_name ''b'' 3), demo_object (demo_name ''c'' 3)], None)"
  using demo_distinct by (auto simp: demo_minio_def demo_store_def)

lemma list_files_is_page_witness:
  "list_files demo_minio demo_settings ''documents'' 2 2 demo_store
     = Inr ([file_item_of (demo_id 3) (demo_object (demo_name ''c'' 3))], False)"
  using list_files_is_page [of "''documents''" demo_settings 2 2 demo_minio demo_store, OF _ _ _ demo_listing]
  by (simp add: buckets_def demo_settings_def demo_file_id demo_object_def Let_def)

definition demo_upload :: file_upload where
  "demo_upload = \<lparr>up_content_type = Some ''text/plain'', up_reads = [''hi'']\<rparr>"

definition demo_libs :: content_libs where
  "demo_libs = \<lparr>cl_image_format = (\<lambda>_. Inl Mismatch), cl_image_verify = (\<lambda>_. Inl Mismatch), cl_zip_names = (\<lambda>_. Inl Mismatch)\<rparr>"

lemma demo_read: "read_validated_upload demo_libs demo_upload document_content_types = Inr (''hi'', ''text/plain'')"
  by (simp add: read_validated_upload_def demo_upload_def demo_libs_def document_content_types_def
      max_upload_size_def validate_content_def validate_utf8_def Let_def py_lower_def py_lower_char_def
      py_strip_def py_is_space_def)

lemma demo_category: "validate_category ''notes'' = Inr ''notes''"
  by (simp add: validate_category_def category_matches_def category_char_def category_start_def
      py_lower_def py_lower_char_def py_strip_def py_is_space_def Let_def)

lemma demo_suffix: "map_of document_content_types ''text/plain'' = Some ''.txt''"
  by (simp add: document_content_types_def)

lemma demo_uploaded:
  "upload_document demo_libs demo_minio demo_settings (demo_id 2) ''notes'' demo_upload [] =
    (Inr \<lparr>ur_file_id = demo_id 2, ur_bucket = ''documents'', ur_object_name = demo_name ''notes'' 2,
          ur_content_type = ''text/plain'', ur_size = 2, ur_url = None\<rparr>, [(''documents'', demo_name ''notes'' 2)])"
  by (simp add: upload_document_def demo_category demo_read store_upload_def storage_upload_def
      require_bucket_def buckets_def demo_settings_def raised_def demo_minio_def demo_name_def
      demo_suffix)

lemma upload_found_again_witness:
  "resolve_object_name demo_minio demo_settings ''documents'' (demo_id 2) [(''documents'', demo_name ''notes'' 2)]
     = Inr (demo_name ''notes'' 2)"
  using upload_found_again [OF demo_put_visible disjI1 [OF demo_uploaded] demo_id_v4(1,2), of "[]"]
  by (simp add: buckets_def demo_settings_def demo_minio_def)

lemma demo_resolve:
  "resolve_object_name demo_minio demo_settings ''documents'' (demo_id 2) demo_store = Inr (demo_name ''a'' 2)"
  "resolve_object_name demo_minio demo_settings ''documents'' (demo_id 3) (tl demo_store) = Inl DuplicateObject"
  using demo_distinct
  by (simp_all add: resolve_object_name_def require_bucket_def buckets_def demo_settings_def demo_minio_def
      demo_store_def demo_object_def demo_file_id demo_id_def)

text \<open>A batch that ends in an internal error has deleted the files before the one that failed.\<close>

lemma batch_delete_partial:
  "batch_delete demo_minio demo_settings [(''documents'', demo_id 2), (''documents'', demo_id 3)] demo_store
     = (Inl DuplicateObject, tl demo_store)"
proof -
  have removed: "mn_remove_object demo_minio demo_store ''documents'' (demo_name ''a'' 2) = (None, tl demo_store)"
    using demo_distinct by (auto simp: demo_minio_def demo_store_def)
  have "batch_request [(''documents'', demo_id 2), (''documents'', demo_id 3)]"
    using demo_id_v4 by (simp add: batch_request_def demo_id_def)
  then show ?thesis
    using demo_id_v4(2,4)
    by (simp add: batch_delete_def delete_file_def validate_uuid4_def remove_file_def demo_resolve raised_def
        removed failure_code_def)
qed

lemma batch_delete_accounts_witness: "failure_code DuplicateObject = None"
  using batch_delete_accounts [OF batch_delete_partial] demo_id_v4(2,4)
  by (simp add: batch_request_def demo_id_def)

subsection \<open>Expiry and start\<close>

text \<open>Every presigned URL expires within the policy, and clamping twice changes nothing.\<close>

lemma presigned_expiry_clamped:
  assumes "clamp_presigned_expiry st r = Inr e" "60 \<le> ss_max_expiry st"
  shows "60 \<le> e \<and> e \<le> ss_max_expiry st \<and> clamp_presigned_expiry st (Some e) = Inr e"
  using assms by (auto simp: clamp_presigned_expiry_def min_presigned_expiry_def Let_def split: if_splits)

text \<open>Assumed of the store: a bucket that exists or was made is there and stays.\<close>

definition buckets_stay :: "'s minio \<Rightarrow> bool" where
  "buckets_stay mn \<longleftrightarrow>
     (\<forall>s b c. mn_bucket_exists mn s b = Inr True \<longrightarrow>
        mn_bucket_exists mn (snd (mn_make_bucket mn s c)) b = Inr True
        \<and> mn_bucket_exists mn (snd (mn_delete_policy mn s c)) b = Inr True)
   \<and> (\<forall>s b s'. mn_make_bucket mn s b = (None, s') \<longrightarrow> mn_bucket_exists mn s' b = Inr True)"

lemma ensure_bucket_there:
  assumes "buckets_stay mn" "ensure_bucket mn b s = (Inr (), s')"
  shows "mn_bucket_exists mn s' b = Inr True
    \<and> (\<forall>c. mn_bucket_exists mn s c = Inr True \<longrightarrow> mn_bucket_exists mn s' c = Inr True)"
proof (cases "mn_bucket_exists mn s b")
  case (Inr there)
  show ?thesis
  proof (cases there)
    case True
    then show ?thesis using assms(2) Inr by (simp add: ensure_bucket_def)
  next
    case False
    obtain r s1 where made: "mn_make_bucket mn s b = (r, s1)" by fastforce
    have s1: "s' = s1 \<and> (r = None \<or> mn_bucket_exists mn s1 b = Inr True)"
      using assms(2) Inr False made
      by (auto simp: ensure_bucket_def split: option.splits file_error.splits sum.splits if_splits bool.splits)
    have stay: "\<forall>c. mn_bucket_exists mn s c = Inr True \<longrightarrow> mn_bucket_exists mn s1 c = Inr True"
      using assms(1) made unfolding buckets_stay_def by (metis snd_conv)
    have "r = None \<Longrightarrow> mn_bucket_exists mn s1 b = Inr True"
      using assms(1) made unfolding buckets_stay_def by blast
    with s1 stay show ?thesis by blast
  qed
qed (use assms(2) in \<open>simp add: ensure_bucket_def\<close>)

lemma ensure_private_state:
  "ensure_private mn b s = (r, s') \<Longrightarrow> s' = snd (mn_delete_policy mn s b)"
  by (auto simp: ensure_private_def split: prod.splits option.splits file_error.splits if_splits)

lemma prepared_buckets_there:
  assumes "buckets_stay mn" "prepare_buckets mn bs s = (Inr (), s')"
  shows "(\<forall>b\<in>set bs. mn_bucket_exists mn s' b = Inr True)
    \<and> (\<forall>c. mn_bucket_exists mn s c = Inr True \<longrightarrow> mn_bucket_exists mn s' c = Inr True)"
  using assms(2)
proof (induction bs arbitrary: s)
  case (Cons b bs)
  obtain s1 s2 where s1: "ensure_bucket mn b s = (Inr (), s1)" and s2: "ensure_private mn b s1 = (Inr (), s2)"
    and rest: "prepare_buckets mn bs s2 = (Inr (), s')"
    using Cons.prems by (auto split: prod.splits sum.splits)
  have keep: "mn_bucket_exists mn s1 c = Inr True \<Longrightarrow> mn_bucket_exists mn s2 c = Inr True" for c
    using assms(1) ensure_private_state [OF s2] unfolding buckets_stay_def by blast
  from Cons.IH [OF rest] ensure_bucket_there [OF assms(1) s1] keep show ?case by auto
qed simp

subsection \<open>Settings\<close>

text \<open>Accepted settings name three buckets and keep the expiries within the policy's range.\<close>

lemma loaded_settings:
  assumes "load_settings r = Some st"
  shows "distinct (buckets st) \<and> 60 \<le> ss_default_expiry st \<and> 60 \<le> ss_max_expiry st \<and> ss_max_expiry st \<le> 604800
    \<and> list_all (\<lambda>b. 3 \<le> length b \<and> length b \<le> 63 \<and> CHR ''/'' \<notin> set b) (buckets st)"
proof -
  have name: "3 \<le> length v \<and> length v \<le> 63 \<and> CHR ''/'' \<notin> set v" if "bucket_name x = Some v" for x v
    using that by (auto simp: bucket_name_def Let_def list_all_iff category_start_def split: if_splits)
  have three: "distinct [a, b, c]" if "card {a, b, c} = 3" for a b c :: string
    using that by (auto simp: card_insert_if split: if_splits)
  from assms obtain t f c d where st: "bucket_name (rw_faces r) = Some f" "bucket_name (rw_captures r) = Some c"
    "bucket_name (rw_documents r) = Some d" "buckets st = [f, c, d]" "card {f, c, d} = 3"
    "60 \<le> ss_default_expiry st" "60 \<le> ss_max_expiry st" "ss_max_expiry st \<le> 604800"
    by (auto simp: load_settings_def buckets_def split: option.splits if_splits)
  then show ?thesis using name [OF st(1)] name [OF st(2)] name [OF st(3)] three [OF st(5)] by simp
qed

text \<open>A service token of one character passes the length check of sixteen when it is padded.\<close>

lemma padded_token_accepted:
  "load_settings
     \<lparr>rw_access_key = ''access-key'', rw_secret_key = ''secret-key-value'', rw_token = ''a               '',
      rw_faces = ''faces'', rw_captures = ''captures'', rw_documents = ''documents'',
      rw_retention_days = 90, rw_default_expiry = 3600, rw_max_expiry = 86400\<rparr>
   = Some \<lparr>ss_faces = ''faces'', ss_captures = ''captures'', ss_documents = ''documents'', ss_token = ''a'',
           ss_retention_days = 90, ss_default_expiry = 3600, ss_max_expiry = 86400\<rparr>"
  by (simp add: load_settings_def credential_def bucket_name_def category_start_def py_strip_def py_is_space_def
      py_lower_def py_lower_char_def starts_with_def is_ip_address_def Let_def)

end
