(* ===== verification/Edge_Client.thy ===== *)
theory Edge_Client
  imports Edge_Auth
begin

section \<open>The client of the central service\<close>

text \<open>
  \<open>CentralApiClient\<close> and \<open>FileServerClient\<close> of \<open>apps/desktop-backend/app/clients.py\<close>. The HTTP
  library is the argument \<open>send\<close>: what comes back for the \<open>n\<close>-th request of the client. A reply is
  a response, one of the two failures the code catches, or another exception of the library.
  Messages are left out; an error keeps its code, status and whether it may be retried.
\<close>

subsection \<open>Replies\<close>

record http_response =
  hr_status :: int
  hr_content_type :: string
  hr_body :: "json option" \<comment> \<open>\<open>None\<close> when the body is no JSON\<close>

datatype http_reply = Response http_response | TransportFailure | LibraryFailure string

datatype client_error =
    Ext ext_error
  | Escaped string \<comment> \<open>any other exception\<close>

definition ext :: "string \<Rightarrow> int \<Rightarrow> bool \<Rightarrow> client_error" where
  "ext code status retryable = Ext \<lparr>ee_code = code, ee_status = status, ee_retryable = retryable\<rparr>"

text \<open>The media type of a \<open>Content-Type\<close> header: up to the first semicolon, in lower case.\<close>

definition media_type :: "string \<Rightarrow> string" where
  "media_type header = py_lower (takeWhile (\<lambda>c. c \<noteq> CHR '';'') header)"

definition is_error :: "http_response \<Rightarrow> bool" where
  "is_error r \<longleftrightarrow> 400 \<le> hr_status r \<and> hr_status r \<le> 599"

definition unwrap :: "http_response \<Rightarrow> client_error + json" where
  "unwrap r =
     (if media_type (hr_content_type r) \<noteq> ''application/json''
      then Inl (ext ''invalid_response'' 502 (500 \<le> hr_status r))
      else case hr_body r of
             None \<Rightarrow> Inl (ext ''invalid_response'' 502 (500 \<le> hr_status r))
           | Some body \<Rightarrow>
               if is_error r \<or> \<not> is_dict body \<or> jget body ''success'' \<noteq> Some (JBool True)
               then Inl (ext ''central_rejected'' (hr_status r) (500 \<le> hr_status r))
               else Inr (case jget body ''data'' of None \<Rightarrow> JNull | Some d \<Rightarrow> d))"

subsection \<open>Requests and retries\<close>

text \<open>The outcome of a reply: a value, an error that ends the call, or one that may be retried.\<close>

datatype attempt_outcome = Answered json | Failed_Finally client_error | Failed_Retryably client_error

definition outcome_of :: "http_reply \<Rightarrow> attempt_outcome" where
  "outcome_of reply =
     (case reply of
        TransportFailure \<Rightarrow> Failed_Retryably (ext ''central_unavailable'' 503 True)
      | LibraryFailure e \<Rightarrow> Failed_Finally (Escaped e)
      | Response r \<Rightarrow>
          (case unwrap r of
             Inr v \<Rightarrow> Answered v
           | Inl (Ext e) \<Rightarrow> if ee_retryable e then Failed_Retryably (Ext e) else Failed_Finally (Ext e)
           | Inl e \<Rightarrow> Failed_Finally e))"

text \<open>
  The loop over \<open>range(attempts)\<close>: \<open>left\<close> attempts remain, \<open>attempt\<close> were made. The result comes
  with the number of requests sent and the delays slept.
\<close>

fun request_loop ::
  "(nat \<Rightarrow> http_reply) \<Rightarrow> real \<Rightarrow> nat \<Rightarrow> nat \<Rightarrow> nat \<Rightarrow> (client_error + json) \<times> nat \<times> real list" where
  "request_loop send base n attempt 0 = (Inl (Escaped ''AssertionError''), 0, [])"
| "request_loop send base n attempt (Suc left) =
     (case outcome_of (send n) of
        Answered v \<Rightarrow> (Inr v, 1, [])
      | Failed_Finally e \<Rightarrow> (Inl e, 1, [])
      | Failed_Retryably e \<Rightarrow>
          if left = 0 then (Inl e, 1, [])
          else (case request_loop send base (n + 1) (attempt + 1) left of
                  (r, sent, slept) \<Rightarrow> (r, sent + 1, base * 2 ^ attempt # slept)))"

record client_settings =
  cs_attempts :: nat
  cs_base_delay :: real

definition client_request ::
  "client_settings \<Rightarrow> (nat \<Rightarrow> http_reply) \<Rightarrow> nat \<Rightarrow> bool \<Rightarrow> (client_error + json) \<times> nat \<times> real list" where
  "client_request cs send n retry =
     request_loop send (cs_base_delay cs) n 0 (if retry then cs_attempts cs else 1)"

definition safe_to_retry :: "string \<Rightarrow> string \<Rightarrow> bool" where
  "safe_to_retry verb path \<longleftrightarrow>
     map (\<lambda>c. if 97 \<le> (of_char c :: nat) \<and> (of_char c :: nat) \<le> 122 then char_of ((of_char c :: nat) - 32) else c) verb
       \<in> {''GET'', ''PUT'', ''PATCH'', ''DELETE''}
     \<or> starts_with ''/api/v1/sync/'' path"

definition central_request ::
  "client_settings \<Rightarrow> (nat \<Rightarrow> http_reply) \<Rightarrow> nat \<Rightarrow> string \<Rightarrow> string
    \<Rightarrow> (client_error + json) \<times> nat \<times> real list" where
  "central_request cs send n verb path = client_request cs send n (safe_to_retry verb path)"

subsection \<open>Sessions\<close>

text \<open>\<open>isinstance(expires_in, int)\<close> and positive, as whole seconds; \<open>True\<close> is an integer.\<close>

definition positive_seconds :: "json option \<Rightarrow> int option" where
  "positive_seconds v =
     (case v of
        Some (JInt i) \<Rightarrow> if 0 < i then Some i else None
      | Some (JBool True) \<Rightarrow> Some 1
      | _ \<Rightarrow> None)"

text \<open>The last time a \<open>datetime\<close> can hold; later ones raise \<open>OverflowError\<close>.\<close>

definition last_datetime :: time where
  "last_datetime = 253402300799999999"

definition session_text :: "nat \<Rightarrow> json option \<Rightarrow> string option" where
  "session_text limit v =
     (case v of
        Some (JStr s) \<Rightarrow>
          (let t = py_strip s in if t = [] \<or> limit < length t then None else Some t)
      | _ \<Rightarrow> None)"

text \<open>\<open>LocalSession.model_validate\<close> on the reply of a login with its expiry put in.\<close>

definition session_keys :: "string list" where
  "session_keys = [''access_token'', ''session_token'', ''refresh_token'', ''token_type'', ''expires_in'', ''access_expires_at'', ''user'', ''license'']"

definition local_session_of :: "json \<Rightarrow> time \<Rightarrow> local_session option" where
  "local_session_of data expires =
     (case data of
        JObj kvs \<Rightarrow>
          (case (session_text 8192 (jget data ''access_token''), session_text 4096 (jget data ''session_token''),
                 (case jget data ''refresh_token'' of
                    None \<Rightarrow> Some None
                  | Some JNull \<Rightarrow> Some None
                  | Some v \<Rightarrow> map_option Some (session_text 8192 (Some v))),
                 jget data ''user'', jget data ''license'') of
             (Some access, Some session_token, Some refresh, Some (JObj user), license) \<Rightarrow>
               if set (map fst kvs) \<subseteq> set session_keys
                  \<and> jget data ''token_type'' \<in> {None, Some (JStr ''bearer'')}
                  \<and> (case license of None \<Rightarrow> True | Some v \<Rightarrow> v = JNull \<or> is_dict v)
               then Some \<lparr>ls_access_token = access, ls_session_token = session_token,
                          ls_refresh_token = refresh, ls_access_expires = expires, ls_user = JObj user,
                          ls_license = (case license of Some (JObj l) \<Rightarrow> Some (JObj l) | _ \<Rightarrow> None)\<rparr>
               else None
           | _ \<Rightarrow> None)
      | _ \<Rightarrow> None)"

definition client_login ::
  "client_settings \<Rightarrow> (nat \<Rightarrow> http_reply) \<Rightarrow> nat \<Rightarrow> time \<Rightarrow> client_error + local_session" where
  "client_login cs send n now =
     (case fst (client_request cs send n False) of
        Inl e \<Rightarrow> Inl e
      | Inr data \<Rightarrow>
          if \<not> is_dict data then Inl (ext ''invalid_response'' 502 False)
          else case positive_seconds (jget data ''expires_in'') of
                 None \<Rightarrow> Inl (ext ''invalid_response'' 502 False)
               | Some s \<Rightarrow>
                   if now + s * 1000000 > last_datetime then Inl (Escaped ''OverflowError'')
                   else (case local_session_of data (now + s * 1000000) of
                           None \<Rightarrow> Inl (Escaped ''ValidationError'')
                         | Some session \<Rightarrow> Inr session))"

text \<open>\<open>refresh\<close> sends one request and never retries; \<open>model_copy\<close> replaces the three fields.\<close>

definition nonempty_text :: "json option \<Rightarrow> string option" where
  "nonempty_text v = (case v of Some (JStr s) \<Rightarrow> if s = [] then None else Some s | _ \<Rightarrow> None)"

definition client_refresh ::
  "(nat \<Rightarrow> http_reply) \<Rightarrow> nat \<Rightarrow> time \<Rightarrow> local_session \<Rightarrow> (client_error + local_session) \<times> nat" where
  "client_refresh send n now session =
     (if (case ls_refresh_token session of None \<Rightarrow> True | Some t \<Rightarrow> t = [])
      then (Inl (ext ''refresh_unavailable'' 401 False), 0)
      else (case send n of
              TransportFailure \<Rightarrow> Inl (ext ''refresh_uncertain'' 503 False)
            | LibraryFailure e \<Rightarrow> Inl (Escaped e)
            | Response r \<Rightarrow>
                (case unwrap r of
                   Inl e \<Rightarrow> Inl e
                 | Inr data \<Rightarrow>
                     if \<not> is_dict data then Inl (ext ''invalid_response'' 502 False)
                     else case positive_seconds (jget data ''expires_in'') of
                            None \<Rightarrow> Inl (ext ''invalid_response'' 502 False)
                          | Some s \<Rightarrow>
                              (case (nonempty_text (jget data ''access_token''),
                                     nonempty_text (jget data ''refresh_token'')) of
                                 (Some access, Some refresh) \<Rightarrow>
                                   if now + s * 1000000 > last_datetime then Inl (Escaped ''OverflowError'')
                                   else Inr (session\<lparr>ls_access_token := access,
                                                     ls_refresh_token := Some refresh,
                                                     ls_access_expires := now + s * 1000000\<rparr>)
                               | _ \<Rightarrow> Inl (ext ''invalid_response'' 502 False))),
            1))"

definition client_logout :: "client_settings \<Rightarrow> (nat \<Rightarrow> http_reply) \<Rightarrow> nat \<Rightarrow> client_error + unit" where
  "client_logout cs send n =
     (case fst (client_request cs send n False) of Inl e \<Rightarrow> Inl e | Inr _ \<Rightarrow> Inr ())"

definition client_license :: "client_settings \<Rightarrow> (nat \<Rightarrow> http_reply) \<Rightarrow> nat \<Rightarrow> client_error + json" where
  "client_license cs send n =
     (case fst (client_request cs send n True) of
        Inl e \<Rightarrow> Inl e
      | Inr data \<Rightarrow> if is_dict data then Inr data else Inl (ext ''invalid_response'' 502 False))"

subsection \<open>The file service\<close>

text \<open>\<open>FileServerClient\<close>; \<open>validate\<close> is \<open>FileUploadResult.model_validate\<close> with the dump after it.\<close>

definition file_client_init :: "string \<Rightarrow> real \<Rightarrow> py_error + unit" where
  "file_client_init token timeout =
     (if token = [] then Inl (ValueError ''file service token is required'')
      else if \<not> (0 < timeout \<and> timeout \<le> 60)
      then Inl (ValueError ''file service timeout must be between 0 and 60 seconds'') else Inr ())"

definition file_upload_capture ::
  "(json \<Rightarrow> json option) \<Rightarrow> (nat \<Rightarrow> http_reply) \<Rightarrow> nat \<Rightarrow> client_error + json" where
  "file_upload_capture validate send n =
     (case send n of
        TransportFailure \<Rightarrow> Inl (Escaped ''TransportError'')
      | LibraryFailure e \<Rightarrow> Inl (Escaped e)
      | Response r \<Rightarrow>
          if is_error r then Inl (ext ''file_upload_failed'' (hr_status r) False)
          else if media_type (hr_content_type r) \<noteq> ''application/json''
          then Inl (ext ''invalid_file_response'' 502 False)
          else (case hr_body r of
                  None \<Rightarrow> Inl (ext ''invalid_file_response'' 502 False)
                | Some body \<Rightarrow>
                    (case validate body of
                       None \<Rightarrow> Inl (ext ''invalid_file_response'' 502 False)
                     | Some v \<Rightarrow> Inr v)))"

subsection \<open>What the retries promise\<close>

definition retryable :: "http_reply \<Rightarrow> bool" where
  "retryable reply = (case outcome_of reply of Failed_Retryably _ \<Rightarrow> True | _ \<Rightarrow> False)"

definition reply_result :: "http_reply \<Rightarrow> client_error + json" where
  "reply_result reply =
     (case outcome_of reply of Answered v \<Rightarrow> Inr v | Failed_Finally e \<Rightarrow> Inl e | Failed_Retryably e \<Rightarrow> Inl e)"

lemma request_loop_exact:
  assumes "request_loop send base n attempt limit = (r, sent, slept)" "0 < limit"
  shows "1 \<le> sent \<and> sent \<le> limit \<and> slept = map (\<lambda>i. base * 2 ^ (attempt + i)) [0..<sent - 1]
    \<and> (\<forall>i<sent - 1. retryable (send (n + i))) \<and> (retryable (send (n + sent - 1)) \<longrightarrow> sent = limit)
    \<and> r = reply_result (send (n + sent - 1))"
  using assms
proof (induction limit arbitrary: n attempt r sent slept)
  case (Suc left)
  show ?case
  proof (cases "retryable (send n) \<and> left \<noteq> 0")
    case False
    then show ?thesis using Suc.prems
      by (auto simp: retryable_def reply_result_def split: attempt_outcome.splits if_splits)
  next
    case True
    obtain r' sent' slept' where rest: "request_loop send base (n + 1) (attempt + 1) left = (r', sent', slept')"
      by (metis prod_cases3)
    with True Suc.prems(1) have now: "r = r'" "sent = sent' + 1" "slept = base * 2 ^ attempt # slept'"
      by (auto simp: retryable_def split: attempt_outcome.splits)
    from Suc.IH [OF rest] True have ih: "1 \<le> sent'" "sent' \<le> left"
      "slept' = map (\<lambda>i. base * 2 ^ (attempt + 1 + i)) [0..<sent' - 1]"
      "\<forall>i<sent' - 1. retryable (send (n + 1 + i))" "retryable (send (n + 1 + sent' - 1)) \<longrightarrow> sent' = left"
      "r' = reply_result (send (n + 1 + sent' - 1))" by simp_all
    have "[0..<sent - 1] = 0 # map Suc [0..<sent' - 1]"
      using now(2) ih(1) by (cases sent') (simp_all add: upt_conv_Cons map_Suc_upt)
    then have slept: "slept = map (\<lambda>i. base * 2 ^ (attempt + i)) [0..<sent - 1]"
      by (simp add: now(3) ih(3) comp_def)
    have "\<forall>i<sent - 1. retryable (send (n + i))"
    proof (intro allI impI)
      fix i
      assume "i < sent - 1"
      then show "retryable (send (n + i))" using True ih(4) now(2) by (cases i) auto
    qed
    then show ?thesis using now ih slept by auto
  qed
qed simp

text \<open>
  C34. A request to the central service is sent at least once and at most as often as configured, and
  exactly once if it is not safe to repeat; every reply before the last may be retried, the delays
  double, and the result is that of the last reply, which may be retried only if no attempt was left.
\<close>

theorem central_request_exact:
  assumes "central_request cs send n verb path = (r, sent, slept)" "0 < cs_attempts cs"
  shows "1 \<le> sent \<and> sent \<le> (if safe_to_retry verb path then cs_attempts cs else 1)
    \<and> slept = map (\<lambda>i. cs_base_delay cs * 2 ^ i) [0..<sent - 1]
    \<and> (\<forall>i<sent - 1. retryable (send (n + i)))
    \<and> (retryable (send (n + sent - 1)) \<longrightarrow> sent = (if safe_to_retry verb path then cs_attempts cs else 1))
    \<and> r = reply_result (send (n + sent - 1))"
  using request_loop_exact [of send "cs_base_delay cs" n 0 "if safe_to_retry verb path then cs_attempts cs else 1" r sent slept]
    assms by (simp add: central_request_def client_request_def)

definition demo_unavailable :: "nat \<Rightarrow> http_reply" where
  "demo_unavailable n =
     (if n < 2 then TransportFailure
      else Response \<lparr>hr_status = 200, hr_content_type = ''application/json'',
             hr_body = Some (JObj [(''success'', JBool True), (''data'', JInt 7)])\<rparr>)"

lemma demo_media: "media_type ''application/json'' = ''application/json''"
  by (simp add: media_type_def py_lower_def py_lower_char_def)

lemma demo_retried:
  "central_request \<lparr>cs_attempts = 3, cs_base_delay = 1\<rparr> demo_unavailable 0 ''GET'' ''/x'' = (Inr (JInt 7), 3, [1, 2])"
  by (simp add: central_request_def client_request_def safe_to_retry_def numeral_3_eq_3 outcome_of_def
      demo_unavailable_def ext_def unwrap_def demo_media is_error_def)

lemma central_request_exact_witness: "retryable (demo_unavailable 0) \<and> retryable (demo_unavailable 1)"
proof -
  from central_request_exact [OF demo_retried] have "\<forall>i<2. retryable (demo_unavailable i)" by simp
  then show ?thesis by simp
qed

text \<open>A refresh is never repeated: the central service consumes the token at the first request.\<close>

lemma refresh_sent_once: "snd (client_refresh send n now session) \<le> 1"
  by (simp add: client_refresh_def)

text \<open>The reply of the central login handler is a session for the client, with the same tokens.\<close>

lemma login_contract:
  assumes "session_text 8192 (Some (JStr access)) = Some access" "session_text 8192 (Some (JStr refresh)) = Some refresh"
    "session_text 4096 (Some (JStr token)) = Some token" "0 < minutes" "now + minutes * 60 * 1000000 \<le> last_datetime"
    and "send n = Response \<lparr>hr_status = 200, hr_content_type = ''application/json'',
      hr_body = Some (JObj [(''success'', JBool True),
        (''data'', JObj [(''access_token'', JStr access), (''refresh_token'', JStr refresh),
           (''session_token'', JStr token), (''token_type'', JStr ''bearer''), (''expires_in'', JInt (minutes * 60)),
           (''user'', JObj user)]),
        (''error'', JNull)])\<rparr>"
  shows "client_login cs send n now =
    Inr \<lparr>ls_access_token = access, ls_session_token = token, ls_refresh_token = Some refresh,
         ls_access_expires = now + minutes * 60 * 1000000, ls_user = JObj user, ls_license = None\<rparr>"
proof -
  let ?data = "JObj [(''access_token'', JStr access), (''refresh_token'', JStr refresh),
           (''session_token'', JStr token), (''token_type'', JStr ''bearer''), (''expires_in'', JInt (minutes * 60)),
           (''user'', JObj user)]"
  have "fst (client_request cs send n False) = Inr ?data"
    by (simp add: client_request_def outcome_of_def assms(6) unwrap_def demo_media is_error_def)
  moreover have "local_session_of ?data expires = Some \<lparr>ls_access_token = access, ls_session_token = token,
      ls_refresh_token = Some refresh, ls_access_expires = expires, ls_user = JObj user, ls_license = None\<rparr>" for expires
    by (simp add: local_session_of_def assms(1-3) session_keys_def)
  ultimately show ?thesis using assms(4,5) by (simp add: client_login_def positive_seconds_def)
qed

end
