(* ===== verification/Edge_Database.thy ===== *)
theory Edge_Database
  imports Rsap_Prelude "HOL-Library.List_Lexorder" "HOL-Library.Char_ord" "HOL-Library.Multiset"
begin

section \<open>Migrations of the edge database\<close>

text \<open>
  \<open>Database\<close> of \<open>apps/desktop-backend/app/database.py\<close>: the checks of the migration history, its
  application in one exclusive transaction, and the transactions every repository runs in. The
  database engine is the argument \<open>execute\<close>: what a statement makes of the contents, or that it
  fails; \<open>checksum\<close> is the hash of the standard library. A rollback restores what was there when the
  transaction began.
\<close>

subsection \<open>Migration files\<close>

datatype db_error = MigrationError string | DatabaseClosed | StatementError

definition version_digits :: "string \<Rightarrow> bool" where
  "version_digits s \<longleftrightarrow> length s = 4 \<and> list_all is_digit_char s"

text \<open>The glob \<open>[0-9][0-9][0-9][0-9]_*.sql\<close>.\<close>

definition migration_name :: "string \<Rightarrow> bool" where
  "migration_name name \<longleftrightarrow>
     version_digits (take 4 name) \<and> starts_with ''_'' (drop 4 name)
     \<and> 9 \<le> length name \<and> drop (length name - 4) name = ''.sql''"

definition version_of :: "string \<Rightarrow> string" where
  "version_of name = takeWhile (\<lambda>c. c \<noteq> CHR ''_'') name"

text \<open>\<open>f'{value:04d}'\<close>.\<close>

definition version_number :: "nat \<Rightarrow> string" where
  "version_number n = (let t = nat_text n in replicate (4 - length t) (CHR ''0'') @ t)"

type_synonym migration = "string \<times> string"

definition migrations_of :: "migration list \<Rightarrow> migration list" where
  "migrations_of files = sort_key fst (filter (\<lambda>f. migration_name (fst f)) files)"

definition check_files :: "migration list \<Rightarrow> db_error + string list" where
  "check_files migrations =
     (let versions = map (version_of \<circ> fst) migrations
      in if migrations = [] then Inl (MigrationError ''no desktop database migrations were found'')
         else if \<not> distinct versions then Inl (MigrationError ''duplicate migration versions are not allowed'')
         else if versions \<noteq> map version_number [1..<length versions + 1]
         then Inl (MigrationError ''migration versions must be contiguous from 0001'')
         else Inr versions)"

subsection \<open>Applying them\<close>

text \<open>The rows of \<open>schema_migrations\<close> (\<open>None\<close> before the table exists) and everything else.\<close>

record 's database =
  db_applied :: "(string \<times> string) list option"
  db_contents :: 's

definition applied_rows :: "'s database \<Rightarrow> (string \<times> string) list" where
  "applied_rows db = sort_key fst (case db_applied db of None \<Rightarrow> [] | Some rows \<Rightarrow> rows)"

definition check_history :: "string list \<Rightarrow> string list \<Rightarrow> db_error + unit" where
  "check_history known applied =
     (if \<not> distinct applied then Inl (MigrationError ''duplicate applied migration versions'')
      else if \<not> set applied \<subseteq> set known then Inl (MigrationError ''unknown applied migration versions'')
      else if applied \<noteq> take (length applied) known
      then Inl (MigrationError ''applied migration history contains a gap'')
      else Inr ())"

text \<open>\<open>sql.split(';')\<close>, each part stripped, the empty ones left out.\<close>

fun split_semicolon :: "string \<Rightarrow> string \<Rightarrow> string list" where
  "split_semicolon cur [] = [rev cur]"
| "split_semicolon cur (c # cs) =
     (if c = CHR '';'' then rev cur # split_semicolon [] cs else split_semicolon (c # cur) cs)"

definition statements :: "string \<Rightarrow> string list" where
  "statements sql = filter (\<lambda>s. s \<noteq> []) (map py_strip (split_semicolon [] sql))"

fun execute_all :: "(string \<Rightarrow> 's \<Rightarrow> 's option) \<Rightarrow> string list \<Rightarrow> 's \<Rightarrow> db_error + 's" where
  "execute_all execute [] s = Inr s"
| "execute_all execute (q # qs) s =
     (case execute q s of None \<Rightarrow> Inl StatementError | Some s \<Rightarrow> execute_all execute qs s)"

fun apply_migrations ::
  "(string \<Rightarrow> string) \<Rightarrow> (string \<Rightarrow> 's \<Rightarrow> 's option) \<Rightarrow> (string \<times> string) list \<Rightarrow> migration list
    \<Rightarrow> 's database \<Rightarrow> db_error + 's database" where
  "apply_migrations checksum execute applied [] db = Inr db"
| "apply_migrations checksum execute applied ((name, sql) # migrations) db =
     (case map_of applied (version_of name) of
        Some c \<Rightarrow>
          if c \<noteq> checksum sql then Inl (MigrationError ''checksum changed'')
          else apply_migrations checksum execute applied migrations db
      | None \<Rightarrow>
          bindE (execute_all execute (statements sql) (db_contents db)) (\<lambda>contents.
          apply_migrations checksum execute applied migrations
            (db\<lparr>db_contents := contents,
                db_applied := map_option (\<lambda>rows. rows @ [(version_of name, checksum sql)]) (db_applied db)\<rparr>)))"

definition migrate ::
  "(string \<Rightarrow> string) \<Rightarrow> (string \<Rightarrow> 's \<Rightarrow> 's option) \<Rightarrow> migration list \<Rightarrow> bool \<Rightarrow> 's database
    \<Rightarrow> (db_error + unit) \<times> 's database" where
  "migrate checksum execute files is_closed db =
     (let migrations = migrations_of files
      in case check_files migrations of
           Inl e \<Rightarrow> (Inl e, db)
         | Inr known \<Rightarrow>
             if is_closed then (Inl DatabaseClosed, db)
             else (let begun = db\<lparr>db_applied := Some (case db_applied db of None \<Rightarrow> [] | Some rows \<Rightarrow> rows)\<rparr>;
                       applied = applied_rows begun
                   in case bindE (check_history known (map fst applied)) (\<lambda>_.
                           apply_migrations checksum execute applied migrations begun) of
                        Inl e \<Rightarrow> (Inl e, db)
                      | Inr db' \<Rightarrow> (Inr (), db')))"

text \<open>\<open>read\<close> and \<open>write\<close>: a write that raises is undone; a read begins no transaction, so that every
  statement of it stands at once.\<close>

definition run_sync :: "bool \<Rightarrow> bool \<Rightarrow> ('s \<Rightarrow> ('e + 'a) \<times> 's) \<Rightarrow> 's \<Rightarrow> (db_error + 'e + 'a) \<times> 's" where
  "run_sync is_closed write operation s =
     (if is_closed then (Inl DatabaseClosed, s)
      else case operation s of
             (Inl e, s') \<Rightarrow> (Inr (Inl e), if write then s else s')
           | (Inr a, s') \<Rightarrow> (Inr (Inr a), s'))"

definition verify :: "bool \<Rightarrow> 's database \<Rightarrow> db_error + unit" where
  "verify is_closed db =
     (if is_closed then Inl DatabaseClosed
      else if db_applied db = None then Inl StatementError else Inr ())"

subsection \<open>A migration is complete, atomic and idempotent\<close>

definition row_of :: "(string \<Rightarrow> string) \<Rightarrow> migration \<Rightarrow> string \<times> string" where
  "row_of checksum m = (version_of (fst m), checksum (snd m))"

definition old_rows :: "'s database \<Rightarrow> (string \<times> string) list" where
  "old_rows db = (case db_applied db of None \<Rightarrow> [] | Some rows \<Rightarrow> rows)"

definition pending_statements :: "migration list \<Rightarrow> string list" where
  "pending_statements ms = concat (map (statements \<circ> snd) ms)"

lemma execute_all_append:
  "execute_all execute (xs @ ys) s = bindE (execute_all execute xs s) (execute_all execute ys)"
  by (induction xs arbitrary: s) (auto split: option.splits)

lemma apply_done:
  assumes "\<And>m. m \<in> set old \<Longrightarrow> map_of applied (version_of (fst m)) \<noteq> None"
    and "apply_migrations checksum execute applied (old @ ms) db = Inr db'"
  shows "apply_migrations checksum execute applied ms db = Inr db'
    \<and> (\<forall>m\<in>set old. map_of applied (version_of (fst m)) = Some (checksum (snd m)))"
  using assms
proof (induction "old")
  case (Cons m ms')
  then show ?case by (cases m) (fastforce split: if_splits)
qed simp

lemma apply_pending:
  assumes "\<And>m. m \<in> set ms \<Longrightarrow> map_of applied (version_of (fst m)) = None"
    and "apply_migrations checksum execute applied ms db = Inr db'" "db_applied db = Some rows"
  shows "db_applied db' = Some (rows @ map (row_of checksum) ms)
    \<and> execute_all execute (pending_statements ms) (db_contents db) = Inr (db_contents db')"
  using assms
proof (induction ms arbitrary: db rows)
  case Nil
  then show ?case by (simp add: pending_statements_def)
next
  case (Cons m ms)
  obtain name sql where m: "m = (name, sql)" by fastforce
  have "map_of applied (version_of name) = None" using Cons.prems(1) [of m] m by simp
  then obtain contents where c: "execute_all execute (statements sql) (db_contents db) = Inr contents"
    and rest: "apply_migrations checksum execute applied ms
      (db\<lparr>db_contents := contents, db_applied := Some (rows @ [row_of checksum m])\<rparr>) = Inr db'"
    using Cons.prems(2,3) m by (auto simp: bindE_eq_Inr row_of_def)
  from Cons.IH [OF _ rest, of "rows @ [row_of checksum m]"] Cons.prems(1) show ?case
    by (simp add: pending_statements_def m execute_all_append c)
qed

lemma check_files_Inr:
  "check_files ms = Inr known \<longleftrightarrow>
     ms \<noteq> [] \<and> known = map (version_of \<circ> fst) ms \<and> distinct known \<and> known = map version_number [1..<length ms + 1]"
  by (auto simp: check_files_def Let_def)

lemma check_history_Inr:
  "check_history known applied = Inr u \<longleftrightarrow> distinct applied \<and> applied = take (length applied) known"
proof -
  have "set applied \<subseteq> set known" if "applied = take (length applied) known"
    using that set_take_subset by metis
  then show ?thesis by (auto simp: check_history_def)
qed

subsection \<open>Order of the versions\<close>

lemma take_le: "xs \<le> ys \<Longrightarrow> take n xs \<le> take n ys" for xs ys :: string
proof (induction n arbitrary: xs ys)
  case (Suc n)
  then show ?case by (cases xs; cases ys) auto
qed simp

lemma version_take: "migration_name name \<Longrightarrow> version_of name = take 4 name"
proof -
  assume m: "migration_name name"
  then have d: "list_all is_digit_char (take 4 name)" and u: "starts_with ''_'' (drop 4 name)"
    by (simp_all add: migration_name_def version_digits_def)
  from u obtain tail where "name = take 4 name @ CHR ''_'' # tail"
    by (metis append_take_drop_id append_Cons append_Nil starts_with_def)
  moreover have "\<forall>c\<in>set (take 4 name). c \<noteq> CHR ''_''" using d by (auto simp: list_all_iff is_digit_char_def)
  moreover have "takeWhile (\<lambda>c. c \<noteq> CHR ''_'') (a @ CHR ''_'' # b) = a" if "\<forall>c\<in>set a. c \<noteq> CHR ''_''" for a b
    using that by (subst takeWhile_append2) auto
  ultimately show ?thesis unfolding version_of_def by metis
qed

lemma versions_sorted: "sorted (map (version_of \<circ> fst) (migrations_of files))"
proof -
  have names: "migration_name (fst m)" if "m \<in> set (migrations_of files)" for m
    using that by (simp add: migrations_of_def)
  have s: "sorted_wrt (\<lambda>x y. fst x \<le> fst y) (migrations_of files)"
    by (simp add: migrations_of_def flip: sorted_wrt_map)
  show ?thesis unfolding sorted_wrt_map
    by (rule sorted_wrt_mono_rel [OF _ s]) (simp add: names version_take take_le)
qed

lemma sort_key_prefix:
  assumes "sorted (map fst (sort_key fst rows @ new))" "distinct (map fst (sort_key fst rows @ new))"
  shows "sort_key fst (rows @ new) = sort_key fst rows @ new"
proof (rule sym, rule map_sorted_distinct_set_unique [of fst])
  show "inj_on fst (set (sort_key fst rows @ new) \<union> set (sort_key fst (rows @ new)))"
    using assms(2) unfolding distinct_map by simp
  show "distinct (map fst (sort_key fst (rows @ new)))"
    using assms(2) by (metis mset_map mset_eq_imp_distinct_iff mset_append mset_sort)
qed (use assms in auto)

lemma map_of_rows: "map_of (map (row_of checksum) ms) v \<noteq> None \<longleftrightarrow> v \<in> (version_of \<circ> fst) ` set ms"
  by (force simp: map_of_eq_None_iff row_of_def)

lemma apply_nothing:
  assumes "\<And>m. m \<in> set ms \<Longrightarrow> map_of applied (version_of (fst m)) = Some (checksum (snd m))"
  shows "apply_migrations checksum execute applied ms db = Inr db"
  using assms
proof (induction ms)
  case (Cons m ms)
  obtain a b where m: "m = (a, b)" by fastforce
  have "map_of applied (version_of a) = Some (checksum b)" using Cons.prems [of m] m by simp
  moreover have "apply_migrations checksum execute applied ms db = Inr db"
    using Cons.prems by (intro Cons.IH) simp
  ultimately show ?case using m by simp
qed simp

lemma migrate_again:
  assumes "check_files (migrations_of files) = Inr known" "\<not> is_closed"
    and "applied_rows db = map (row_of checksum) (migrations_of files)" "db_applied db \<noteq> None"
  shows "migrate checksum execute files is_closed db = (Inr (), db)"
proof -
  let ?ms = "migrations_of files" and ?rows = "map (row_of checksum) (migrations_of files)"
  have begun: "db\<lparr>db_applied := Some (case db_applied db of None \<Rightarrow> [] | Some rows \<Rightarrow> rows)\<rparr> = db"
    using assms(4) by auto
  have known: "known = map (version_of \<circ> fst) ?ms" "distinct known"
    using assms(1) unfolding check_files_Inr by blast+
  then have kn: "known = map fst ?rows" "distinct known" by (simp_all add: row_of_def comp_def)
  have "check_history known (map fst ?rows) = Inr ()"
    using kn check_history_Inr [of known "map fst ?rows" "()"] by simp
  moreover have "apply_migrations checksum execute ?rows ?ms db = Inr db"
  proof (rule apply_nothing)
    fix m
    assume "m \<in> set ?ms"
    then have "(version_of (fst m), checksum (snd m)) \<in> set ?rows" by (auto simp: row_of_def)
    then show "map_of ?rows (version_of (fst m)) = Some (checksum (snd m))"
      using kn by (intro map_of_is_SomeI) simp_all
  qed
  ultimately show ?thesis by (simp add: migrate_def assms(1-3) begun)
qed

text \<open>
  C35. A migration that succeeds leaves exactly the known versions applied, in order, each with the
  checksum of its file; it has executed the statements of the versions that were missing and no
  others, and running it again changes nothing. One that fails changes nothing.
\<close>

theorem migrate_complete:
  assumes "migrate checksum execute files is_closed db = (r, db')"
  shows "case r of
      Inl _ \<Rightarrow> db' = db
    | Inr _ \<Rightarrow>
        applied_rows db' = map (row_of checksum) (migrations_of files)
        \<and> execute_all execute (pending_statements (drop (length (old_rows db)) (migrations_of files)))
            (db_contents db) = Inr (db_contents db')
        \<and> migrate checksum execute files is_closed db' = (Inr (), db')"
proof (cases r)
  case (Inl e)
  then show ?thesis using assms
    by (auto simp: migrate_def Let_def split: sum.splits if_splits)
next
  case (Inr u)
  let ?ms = "migrations_of files" and ?rows = "sort_key fst (old_rows db)"
  let ?k = "length (old_rows db)"
  let ?begun = "db\<lparr>db_applied := Some (old_rows db)\<rparr>"
  have begun: "db\<lparr>db_applied := Some (case db_applied db of None \<Rightarrow> [] | Some rows \<Rightarrow> rows)\<rparr> = ?begun"
    "applied_rows ?begun = ?rows" by (simp_all add: old_rows_def applied_rows_def)
  from assms Inr obtain known where known: "check_files ?ms = Inr known" and op: "\<not> is_closed"
    and run: "bindE (check_history known (map fst ?rows)) (\<lambda>_. apply_migrations checksum execute ?rows ?ms ?begun) = Inr db'"
    by (auto simp: migrate_def Let_def begun split: sum.splits if_splits)
  from run obtain v where "check_history known (map fst ?rows) = Inr v"
    and app: "apply_migrations checksum execute ?rows ?ms ?begun = Inr db'"
    by (auto simp only: bindE_eq_Inr)
  then have hist: "distinct (map fst ?rows)" "map fst ?rows = take (length (map fst ?rows)) known"
    by (simp_all only: check_history_Inr)
  have kn: "known = map (version_of \<circ> fst) ?ms" "distinct known"
    using known unfolding check_files_Inr by blast+
  have first: "map fst ?rows = map (version_of \<circ> fst) (take ?k ?ms)"
    using hist(2) kn(1) by (simp add: take_map)
  have dist: "distinct (map (version_of \<circ> fst) (take ?k ?ms) @ map (version_of \<circ> fst) (drop ?k ?ms))"
    using kn by (metis append_take_drop_id map_append)
  have done_old: "map_of ?rows (version_of (fst m)) \<noteq> None" if "m \<in> set (take ?k ?ms)" for m
    using that arg_cong [OF first, of set] by (auto simp: map_of_eq_None_iff)
  have new: "map_of ?rows (version_of (fst m)) = None" if "m \<in> set (drop ?k ?ms)" for m
  proof -
    have "fst ` set ?rows = (version_of \<circ> fst) ` set (take ?k ?ms)"
      using arg_cong [OF first, of set] by simp
    then show ?thesis using that dist by (auto simp: map_of_eq_None_iff)
  qed
  from apply_done [OF done_old, of "take ?k ?ms" checksum execute "drop ?k ?ms" ?begun db'] app
  have rest: "apply_migrations checksum execute ?rows (drop ?k ?ms) ?begun = Inr db'"
    and sums: "\<And>m. m \<in> set (take ?k ?ms) \<Longrightarrow> map_of ?rows (version_of (fst m)) = Some (checksum (snd m))"
    by auto
  from apply_pending [OF new rest, of "old_rows db"]
  have ran: "db_applied db' = Some (old_rows db @ map (row_of checksum) (drop ?k ?ms))"
    "execute_all execute (pending_statements (drop ?k ?ms)) (db_contents db) = Inr (db_contents db')"
    by simp_all
  have old: "?rows = map (row_of checksum) (take ?k ?ms)"
  proof (rule nth_equalityI)
    show len: "length ?rows = length (map (row_of checksum) (take ?k ?ms))"
      using arg_cong [OF first, of length] by simp
    fix i
    assume i: "i < length ?rows"
    then have m: "take ?k ?ms ! i \<in> set (take ?k ?ms)" using len by (metis length_map nth_mem)
    have key: "fst (?rows ! i) = version_of (fst (take ?k ?ms ! i))"
      using arg_cong [OF first, of "\<lambda>xs. xs ! i"] i len by simp
    have "map_of ?rows (fst (?rows ! i)) = Some (snd (?rows ! i))"
      using hist(1) nth_mem [OF i] by (intro map_of_is_SomeI) simp_all
    with sums [OF m] key show "?rows ! i = map (row_of checksum) (take ?k ?ms) ! i"
      using i len by (simp add: row_of_def prod_eq_iff)
  qed
  have all: "?rows @ map (row_of checksum) (drop ?k ?ms) = map (row_of checksum) ?ms"
    unfolding old by (simp flip: map_append)
  have keys: "map fst (map (row_of checksum) ?ms) = known" by (simp add: kn(1) row_of_def)
  have "sort_key fst (old_rows db @ map (row_of checksum) (drop ?k ?ms)) = map (row_of checksum) ?ms"
    using sort_key_prefix [of "old_rows db" "map (row_of checksum) (drop ?k ?ms)"] versions_sorted [of files]
    unfolding all keys kn(1) by (simp only: kn(2) [unfolded kn(1)])
  then have rows: "applied_rows db' = map (row_of checksum) ?ms"
    by (simp only: applied_rows_def ran(1) option.case)
  have again: "migrate checksum execute files is_closed db' = (Inr (), db')"
    by (rule migrate_again [OF known op rows]) (simp add: ran(1))
  show ?thesis using Inr rows ran(2) again by simp
qed

definition demo_execute :: "string \<Rightarrow> string list \<Rightarrow> string list option" where
  "demo_execute q s = Some (s @ [q])"

definition demo_files :: "migration list" where
  "demo_files = [(''README'', ''''), (''0001_a.sql'', ''A; B'')]"

lemma demo_migrations: "migrations_of demo_files = [(''0001_a.sql'', ''A; B'')]"
  by (simp add: migrations_of_def demo_files_def migration_name_def version_digits_def is_digit_char_def
      starts_with_def)

lemma demo_version: "version_of ''0001_a.sql'' = ''0001''" "version_number (Suc 0) = ''0001''"
proof -
  show "version_of ''0001_a.sql'' = ''0001''" by (simp add: version_of_def)
  have "char_of (49 :: nat) = CHR ''1''" by code_simp
  then have "nat_text (Suc 0) = ''1''" by (simp add: nat_text.simps [of "Suc 0"])
  then show "version_number (Suc 0) = ''0001''" by (simp add: version_number_def numeral_3_eq_3)
qed

lemma demo_statements: "statements ''A; B'' = [''A'', ''B'']"
  by (simp add: statements_def py_strip_def py_is_space_def Let_def)

lemma demo_migrated:
  "migrate (\<lambda>s. s) demo_execute demo_files False \<lparr>db_applied = None, db_contents = []\<rparr>
     = (Inr (), \<lparr>db_applied = Some [(''0001'', ''A; B'')], db_contents = [''A'', ''B'']\<rparr>)"
  by (simp add: migrate_def demo_migrations check_files_def demo_version applied_rows_def check_history_def
      demo_statements demo_execute_def Let_def)

lemma migrate_complete_witness:
  "applied_rows \<lparr>db_applied = Some [(''0001'', ''A; B'')], db_contents = [''A'', ''B'']\<rparr> = [(''0001'', ''A; B'')]"
  using migrate_complete [OF demo_migrated] by (simp add: demo_migrations row_of_def demo_version)

end
