(* ===== verification/Edge_Container.thy ===== *)
theory Edge_Container
  imports Rsap_Prelude
begin

section \<open>Start and shutdown of the desktop backend\<close>

text \<open>
  \<open>Container.start\<close>, \<open>close\<close> and \<open>_settle_task\<close> of \<open>apps/desktop-backend/app/container.py\<close>, and the
  lifespan of \<open>apps/desktop-backend/main.py\<close> around them. The components have theories of their own
  (the orchestration service, the scheduler, the client, the database); here a call of one is how it
  ends, and the trace of the calls is kept.
\<close>

subsection \<open>Calls and their ends\<close>

datatype component = Migration | Verification | Orchestration_Start | Orchestration | Scheduler_C | Central_Client | Database_C

text \<open>How an awaited call ends. \<open>Cancelled_C\<close> is \<open>CancelledError\<close>, no \<open>Exception\<close>.\<close>

datatype call_end = Returned | Raised string | Cancelled_C

fun error_of :: "call_end \<Rightarrow> call_end option" where
  "error_of Returned = None"
| "error_of e = Some e"

record container =
  co_started :: bool
  co_close_result :: "call_end option" \<comment> \<open>the close task, once it has run\<close>
  co_trace :: "component list"

definition container_init :: container where
  "container_init = \<lparr>co_started = False, co_close_result = None, co_trace = []\<rparr>"

definition resources :: "component list" where
  "resources = [Orchestration, Scheduler_C, Central_Client, Database_C]"

text \<open>\<open>_close_impl\<close>: every resource is closed, whatever the others raise; the first error is raised.\<close>

fun close_all :: "(component \<Rightarrow> call_end) \<Rightarrow> component list \<Rightarrow> call_end option \<Rightarrow> call_end option \<times> component list" where
  "close_all ends [] first_error = (first_error, [])"
| "close_all ends (c # cs) first_error =
     (case close_all ends cs (case first_error of None \<Rightarrow> error_of (ends c) | Some e \<Rightarrow> Some e) of
        (e, called) \<Rightarrow> (e, c # called))"

definition close_impl :: "(component \<Rightarrow> call_end) \<Rightarrow> container \<Rightarrow> call_end \<times> container" where
  "close_impl ends c =
     (case close_all ends resources None of
        (e, called) \<Rightarrow>
          (case e of None \<Rightarrow> Returned | Some e \<Rightarrow> e,
           c\<lparr>co_started := False, co_trace := co_trace c @ called\<rparr>))"

text \<open>\<open>close\<close> when its task is let to its end; a later call gets the result of the same task.\<close>

definition container_close :: "(component \<Rightarrow> call_end) \<Rightarrow> container \<Rightarrow> call_end \<times> container" where
  "container_close ends c =
     (case co_close_result c of
        Some r \<Rightarrow> (r, c)
      | None \<Rightarrow> (case close_impl ends c of (r, c) \<Rightarrow> (r, c\<lparr>co_close_result := Some r\<rparr>)))"

text \<open>
  \<open>_settle_task\<close>: the waiter is cancelled as often as \<open>cancellations\<close> has entries before the task is
  done (\<open>False\<close>) or when it is (\<open>True\<close>); the task is shielded, so that its own end is the result.
\<close>

fun settle_task :: "call_end \<Rightarrow> bool list \<Rightarrow> call_end" where
  "settle_task task_end [] = task_end"
| "settle_task task_end (task_done # cancellations) =
     (if task_done then task_end else settle_task task_end cancellations)"

definition start_container ::
  "(component \<Rightarrow> call_end) \<Rightarrow> bool list \<Rightarrow> container \<Rightarrow> call_end \<times> container" where
  "start_container ends cancellations c =
     (if co_started c then (Returned, c)
      else let c = c\<lparr>co_trace := co_trace c @ [Migration]\<rparr>
      in if ends Migration \<noteq> Returned then (ends Migration, c)
      else let c = c\<lparr>co_trace := co_trace c @ [Verification]\<rparr>
      in if ends Verification \<noteq> Returned then (ends Verification, c)
      else let c = c\<lparr>co_trace := co_trace c @ [Orchestration_Start]\<rparr>
      in case ends Orchestration_Start of
           Returned \<Rightarrow> (Returned, c\<lparr>co_started := True\<rparr>)
         | Cancelled_C \<Rightarrow> (case container_close ends c of (_, c) \<Rightarrow> (Cancelled_C, c))
         | Raised e \<Rightarrow>
             (case container_close ends c of (r, c) \<Rightarrow>
                (case settle_task r cancellations of Returned \<Rightarrow> (Raised e, c) | r \<Rightarrow> (r, c))))"

text \<open>The lifespan: a failed start closes the container before it ends; otherwise it serves until it
  is told to end, and closes.\<close>

definition lifespan_start ::
  "(component \<Rightarrow> call_end) \<Rightarrow> bool list \<Rightarrow> bool list \<Rightarrow> container \<Rightarrow> call_end \<times> container" where
  "lifespan_start ends cancellations cleanup_cancellations c =
     (case start_container ends cancellations c of
        (Returned, c) \<Rightarrow> (Returned, c)
      | (Cancelled_C, c) \<Rightarrow> (case container_close ends c of (_, c) \<Rightarrow> (Cancelled_C, c))
      | (Raised e, c) \<Rightarrow>
          (case container_close ends c of (r, c) \<Rightarrow>
             (case settle_task r cleanup_cancellations of Returned \<Rightarrow> (Raised e, c) | r \<Rightarrow> (r, c))))"

definition lifespan ::
  "(component \<Rightarrow> call_end) \<Rightarrow> bool list \<Rightarrow> bool list \<Rightarrow> call_end \<times> container" where
  "lifespan ends cancellations cleanup_cancellations =
     (case lifespan_start ends cancellations cleanup_cancellations container_init of
        (Returned, c) \<Rightarrow> container_close ends c
      | (r, c) \<Rightarrow> (r, c))"

subsection \<open>Everything is closed, once and in order\<close>

lemma close_all_calls: "snd (close_all ends cs e) = cs"
proof (induction cs arbitrary: e)
  case (Cons c cs)
  have "snd (close_all ends (c # cs) e)
    = c # snd (close_all ends cs (case e of None \<Rightarrow> error_of (ends c) | Some e \<Rightarrow> Some e))"
    by (simp split: prod.splits)
  then show ?case by (simp only: Cons)
qed simp

lemma close_all_fst:
  "fst (close_all ends (c # cs) e) = fst (close_all ends cs (case e of None \<Rightarrow> error_of (ends c) | Some e \<Rightarrow> Some e))"
  by (simp split: prod.splits)

lemma close_all_first:
  "fst (close_all ends cs e) =
     (case e of Some x \<Rightarrow> Some x
      | None \<Rightarrow> (case filter (\<lambda>c. ends c \<noteq> Returned) cs of [] \<Rightarrow> None | c # _ \<Rightarrow> Some (ends c)))"
proof (induction cs arbitrary: e)
  case (Cons c cs)
  show ?case unfolding close_all_fst Cons by (cases e; cases "ends c") simp_all
qed (simp split: option.splits)

lemma close_once:
  assumes "co_close_result c = None"
  shows "container_close ends c =
    (let r = (case filter (\<lambda>x. ends x \<noteq> Returned) resources of [] \<Rightarrow> Returned | x # _ \<Rightarrow> ends x)
     in (r, c\<lparr>co_started := False, co_trace := co_trace c @ resources, co_close_result := Some r\<rparr>))"
  using close_all_calls [of ends resources None] close_all_first [of ends resources None] assms
  by (cases "close_all ends resources None")
    (auto simp: container_close_def close_impl_def Let_def split: list.splits)

lemma closed_stays: "co_close_result c = Some r \<Longrightarrow> container_close ends c = (r, c)"
  by (simp add: container_close_def)

lemma settle_task_end: "settle_task e cs = e"
  by (induction cs) auto

lemma start_outcome:
  assumes "start_container ends cancellations container_init = (r, c)"
  shows "(r = Returned \<and> list_all (\<lambda>x. ends x = Returned) [Migration, Verification, Orchestration_Start]
      \<and> co_close_result c = None \<and> co_trace c = [Migration, Verification, Orchestration_Start])
    \<or> (r \<noteq> Returned \<and> \<not> list_all (\<lambda>x. ends x = Returned) [Migration, Verification, Orchestration_Start]
      \<and> (\<exists>calls. set calls \<inter> set resources = {}
         \<and> (co_close_result c = None \<and> co_trace c = calls
            \<or> co_close_result c \<noteq> None \<and> \<not> co_started c \<and> co_trace c = calls @ resources)))"
proof -
  have one: "set [Migration] \<inter> set resources = {}" "set [Migration, Verification] \<inter> set resources = {}"
    "set [Migration, Verification, Orchestration_Start] \<inter> set resources = {}"
    by (simp_all add: resources_def)
  show ?thesis
  proof (cases "ends Migration = Returned \<and> ends Verification = Returned")
    case False
    then show ?thesis using assms one
      by (auto simp: start_container_def container_init_def Let_def split: if_splits)
  next
    case True
    then show ?thesis using assms one(3)
      by (cases "ends Orchestration_Start")
        (auto simp: start_container_def container_init_def Let_def settle_task_end close_once
          split: if_splits call_end.splits list.splits intro!: exI [of _ "[Migration, Verification, Orchestration_Start]"])
  qed
qed

lemma container_close_books:
  assumes "container_close ends c = (r, c')"
  shows "co_close_result c = None \<Longrightarrow>
      co_trace c' = co_trace c @ resources \<and> \<not> co_started c'
      \<and> (r = Returned \<longleftrightarrow> list_all (\<lambda>x. ends x = Returned) resources)"
    "co_close_result c \<noteq> None \<Longrightarrow> c' = c"
proof -
  assume none: "co_close_result c = None"
  have "filter (\<lambda>x. ends x \<noteq> Returned) resources = [] \<longleftrightarrow> list_all (\<lambda>x. ends x = Returned) resources"
    by (simp add: filter_empty_conv list_all_iff)
  moreover have "ends x \<noteq> Returned" if "filter (\<lambda>x. ends x \<noteq> Returned) resources = x # xs" for x xs
    using arg_cong [OF that, of set] by auto
  ultimately have first: "(case filter (\<lambda>x. ends x \<noteq> Returned) resources of [] \<Rightarrow> Returned | x # _ \<Rightarrow> ends x) = Returned
      \<longleftrightarrow> list_all (\<lambda>x. ends x = Returned) resources"
    by (cases "filter (\<lambda>x. ends x \<noteq> Returned) resources") simp_all
  from assms close_once [OF none, of ends]
  have "r = (case filter (\<lambda>x. ends x \<noteq> Returned) resources of [] \<Rightarrow> Returned | x # _ \<Rightarrow> ends x)"
    "co_trace c' = co_trace c @ resources" "\<not> co_started c'"
    by (simp_all add: Let_def) auto
  with first show "co_trace c' = co_trace c @ resources \<and> \<not> co_started c'
      \<and> (r = Returned \<longleftrightarrow> list_all (\<lambda>x. ends x = Returned) resources)"
    by (simp only:) simp
qed (use assms in \<open>auto simp: container_close_def\<close>)

text \<open>
  However the start, the closing and the cancellations go, the lifespan of the desktop backend
  ends with the orchestration, the scheduler, the client and the database closed, each once and in
  this order, after the calls of the start; it returns without an error only if every call did.
\<close>

theorem lifespan_closes_everything:
  assumes "lifespan ends cancellations cleanup_cancellations = (r, c)"
  shows "(\<exists>calls. co_trace c = calls @ resources \<and> set calls \<inter> set resources = {})
    \<and> \<not> co_started c
    \<and> (r = Returned \<longleftrightarrow> list_all (\<lambda>x. ends x = Returned) ([Migration, Verification, Orchestration_Start] @ resources))"
proof (cases "start_container ends cancellations container_init")
  case (Pair r0 c0)
  obtain r1 c1 where close: "container_close ends c0 = (r1, c1)" by fastforce
  note start = start_outcome [OF Pair] and books = container_close_books [OF close]
  show ?thesis
  proof (cases "r0 = Returned")
    case True
    then have "r = r1 \<and> c = c1" using assms Pair close by (simp add: lifespan_def lifespan_start_def)
    moreover have "set [Migration, Verification, Orchestration_Start] \<inter> set resources = {}"
      by (simp add: resources_def)
    moreover from start True have s: "list_all (\<lambda>x. ends x = Returned) [Migration, Verification, Orchestration_Start]"
      "co_close_result c0 = None" "co_trace c0 = [Migration, Verification, Orchestration_Start]"
      by blast+
    ultimately show ?thesis using books(1) [OF s(2)] s(1,3) by (metis list_all_append)
  next
    case False
    then have "r \<noteq> Returned \<and> c = c1" using assms Pair close
      by (auto simp: lifespan_def lifespan_start_def settle_task_end split: call_end.splits)
    moreover from start False obtain calls where s:
      "\<not> list_all (\<lambda>x. ends x = Returned) [Migration, Verification, Orchestration_Start]"
      "set calls \<inter> set resources = {}"
      "co_close_result c0 = None \<and> co_trace c0 = calls
        \<or> co_close_result c0 \<noteq> None \<and> \<not> co_started c0 \<and> co_trace c0 = calls @ resources" by blast
    moreover from s(3) books have "co_trace c1 = calls @ resources \<and> \<not> co_started c1" by metis
    ultimately show ?thesis by (metis list_all_append)
  qed
qed

lemma lifespan_closes_everything_witness:
  "\<not> co_started (snd (lifespan (\<lambda>x. if x = Scheduler_C then Raised ''scheduler'' else Returned) [] []))"
  using lifespan_closes_everything [OF surjective_pairing] by blast

end
