(* ===== verification/Central_Socket.thy ===== *)
theory Central_Socket
  imports Central_Cameras Central_Sessions
begin

section \<open>The synchronization socket of the central service\<close>

text \<open>
  \<open>sync_socket\<close> and \<open>validate_session\<close> of \<open>routers/websockets.py\<close> and \<open>ConnectionManager\<close> of
  \<open>services/sync_service.py\<close>. Every connection is a handler that runs from one \<open>await\<close> to the next;
  the handlers interleave with each other, with the shutdown and with every other request, which may
  change the database and Redis at any time. \<open>sk_at\<close> is the \<open>await\<close> a handler is suspended at,
  \<open>sk_cut\<close> says that \<open>close\<close> was called on its socket, after which sending raises.
\<close>

subsection \<open>State\<close>

text \<open>What \<open>receive_json\<close> within 30 seconds gives.\<close>

datatype socket_input =
    Timed_Out
  | Not_An_Object
  | Pong
  | Sync_Message ws_message

datatype socket_answer = Ack string "ident option" | Refused http_error | Not_Object_Error | Ping

datatype suspended_at =
    Validating
  | Replacing nat
  | Accepting
  | Fetching_Config
  | Sending_Config "central_camera list"
  | Receiving
  | Checking socket_input
  | Storing current_user ws_message
  | Answering socket_answer
  | Denying string
  | Over

record socket =
  sk_user :: ident
  sk_token :: string
  sk_registered :: bool
  sk_cut :: bool
  sk_at :: suspended_at

record socket_hub =
  hb_sys :: central_sys
  hb_now :: time
  hb_conns :: "ident \<rightharpoonup> nat" \<comment> \<open>\<open>manager.connections\<close>\<close>
  hb_sockets :: "socket list"
  hb_closing :: "nat list" \<comment> \<open>what \<open>close_all\<close> has still to close\<close>

definition update_socket :: "nat \<Rightarrow> (socket \<Rightarrow> socket) \<Rightarrow> socket_hub \<Rightarrow> socket_hub" where
  "update_socket i f h = h\<lparr>hb_sockets := (hb_sockets h)[i := f (hb_sockets h ! i)]\<rparr>"

definition goes_to :: "nat \<Rightarrow> suspended_at \<Rightarrow> socket_hub \<Rightarrow> socket_hub" where
  "goes_to i p h = update_socket i (\<lambda>s. s\<lparr>sk_at := p\<rparr>) h"

definition cut :: "nat \<Rightarrow> socket_hub \<Rightarrow> socket_hub" where
  "cut i h = update_socket i (\<lambda>s. s\<lparr>sk_cut := True\<rparr>) h"

subsection \<open>The connection manager\<close>

text \<open>\<open>connect\<close> up to its first \<open>await\<close>: the earlier connection of the user is taken out and closed.\<close>

definition manager_connect :: "nat \<Rightarrow> socket_hub \<Rightarrow> socket_hub" where
  "manager_connect i h =
     (let u = sk_user (hb_sockets h ! i) in
      case hb_conns h u of
        Some j \<Rightarrow> goes_to i (Replacing j) (h\<lparr>hb_conns := (hb_conns h)(u := None)\<rparr>)
      | None \<Rightarrow> goes_to i Accepting h)"

text \<open>The last line of \<open>connect\<close>, after \<open>accept\<close>, and \<open>registered = True\<close>.\<close>

definition manager_register :: "nat \<Rightarrow> socket_hub \<Rightarrow> socket_hub" where
  "manager_register i h =
     goes_to i Fetching_Config (update_socket i (\<lambda>s. s\<lparr>sk_registered := True\<rparr>)
       (h\<lparr>hb_conns := (hb_conns h)(sk_user (hb_sockets h ! i) \<mapsto> i)\<rparr>))"

definition manager_disconnect :: "nat \<Rightarrow> socket_hub \<Rightarrow> socket_hub" where
  "manager_disconnect i h =
     (let u = sk_user (hb_sockets h ! i) in
      if hb_conns h u = Some i then h\<lparr>hb_conns := (hb_conns h)(u := None)\<rparr> else h)"

text \<open>The \<open>finally\<close> of the handler, however it ends: \<open>WebSocketDisconnect\<close>, an error, cancellation, \<open>return\<close>.\<close>

definition socket_over :: "nat \<Rightarrow> socket_hub \<Rightarrow> socket_hub" where
  "socket_over i h =
     goes_to i Over (if sk_registered (hb_sockets h ! i) then manager_disconnect i h else h)"

text \<open>\<open>close_all\<close> up to its first \<open>await\<close>; \<open>order\<close> lists the connections as the dictionary does.\<close>

definition close_all_begin :: "nat list \<Rightarrow> socket_hub \<Rightarrow> socket_hub" where
  "close_all_begin order h = h\<lparr>hb_conns := (\<lambda>u. None), hb_closing := hb_closing h @ order\<rparr>"

definition close_all_next :: "socket_hub \<Rightarrow> socket_hub" where
  "close_all_next h = (case hb_closing h of [] \<Rightarrow> h | i # is \<Rightarrow> (cut i h)\<lparr>hb_closing := is\<rparr>)"

subsection \<open>The handler\<close>

definition validate_session ::
  "auth_env \<Rightarrow> time \<Rightarrow> ident \<Rightarrow> string \<Rightarrow> central_sys \<Rightarrow> current_user option" where
  "validate_session env now user_id token sys =
     (case validate_session_state env now user_id token None sys of
        None \<Rightarrow> None
      | Some (s, u, perms) \<Rightarrow>
          (let user = \<lparr>me_id = us_id u, me_email = us_email u, me_role = us_role u, me_session_id = sv_sid s,
                       me_license_id = sv_license s, me_permissions = perms\<rparr>
           in case authorize user ''sync'' ''write'' (Some (me_id user)) None of
                Inl _ \<Rightarrow> None
              | Inr _ \<Rightarrow> Some user))"

text \<open>The decision after the session of a received message, or of a silent peer, was validated.\<close>

fun after_check :: "current_user option \<Rightarrow> socket_input \<Rightarrow> suspended_at" where
  "after_check None m = Denying ''Authorization expired''"
| "after_check (Some user) Timed_Out = Answering Ping"
| "after_check (Some user) Not_An_Object = Answering Not_Object_Error"
| "after_check (Some user) Pong = Receiving"
| "after_check (Some user) (Sync_Message m) = Storing user m"

text \<open>
  How the \<open>await\<close> of a handler ends: it succeeds, with what was received or with the row identities the
  database drew; or it raises an error the handler does not catch, \<open>WebSocketDisconnect\<close> and cancellation
  included.
\<close>

datatype await_end = Succeeds | Gets socket_input | Draws "ident list" | Raises

fun rows_drawn :: "ws_message \<Rightarrow> nat" where
  "rows_drawn (WsHeartbeat t statuses) = length statuses"
| "rows_drawn m = 0"

definition enabled_end :: "socket \<Rightarrow> await_end \<Rightarrow> bool" where
  "enabled_end s e \<longleftrightarrow>
     (case sk_at s of
        Over \<Rightarrow> False
      | Receiving \<Rightarrow> e = Raises \<or> (\<exists>m. e = Gets m)
      | Storing _ m \<Rightarrow> e = Raises \<or> (\<exists>ids. e = Draws ids \<and> length ids = rows_drawn m)
      | Sending_Config _ \<Rightarrow> e = Raises \<or> e = Succeeds \<and> \<not> sk_cut s
      | Answering _ \<Rightarrow> e = Raises \<or> e = Succeeds \<and> \<not> sk_cut s
      | _ \<Rightarrow> e = Raises \<or> e = Succeeds)"

definition message_type :: "ws_message \<Rightarrow> string" where
  "message_type m = drop 5 (message_kind m)"

definition socket_step ::
  "auth_env \<Rightarrow> (string \<Rightarrow> ident option) \<Rightarrow> nat \<Rightarrow> await_end \<Rightarrow> socket_hub \<Rightarrow> socket_hub" where
  "socket_step env uuid i e h =
     (let s = hb_sockets h ! i; u = sk_user s;
          valid = validate_session env (hb_now h) u (sk_token s) (hb_sys h) in
      case sk_at s of
        Validating \<Rightarrow>
          (if e = Raises then goes_to i Over h
           else if valid = None then goes_to i (Denying ''Invalid session'') h
           else manager_connect i h)
      | Replacing j \<Rightarrow> goes_to i Accepting (cut j h)
      | Accepting \<Rightarrow> if e = Raises then socket_over i h else manager_register i h
      | Fetching_Config \<Rightarrow>
          (if e = Raises then socket_over i h
           else goes_to i (Sending_Config (filter (\<lambda>c. vc_user c = u \<and> vc_active c) (ct_cameras (sy_db (hb_sys h))))) h)
      | Sending_Config cs \<Rightarrow> if e = Raises then socket_over i h else goes_to i Receiving h
      | Receiving \<Rightarrow> (case e of Gets m \<Rightarrow> goes_to i (Checking m) h | _ \<Rightarrow> socket_over i h)
      | Checking m \<Rightarrow> if e = Raises then socket_over i h else goes_to i (after_check valid m) h
      | Storing user m \<Rightarrow>
          (case e of
             Draws ids \<Rightarrow>
               (case socket_message uuid (hb_now h) ids user m (sy_db (hb_sys h)) of
                  Inl err \<Rightarrow> goes_to i (Answering (Refused err)) h
                | Inr db \<Rightarrow> goes_to i (Answering (Ack (message_type m) (fst (message_ids ids m))))
                             (h\<lparr>hb_sys := (hb_sys h)\<lparr>sy_db := db\<rparr>\<rparr>))
           | _ \<Rightarrow> socket_over i h)
      | Answering a \<Rightarrow> if e = Raises then socket_over i h else goes_to i Receiving h
      | Denying r \<Rightarrow> socket_over i (cut i h)
      | Over \<Rightarrow> h)"

text \<open>
  An exception of \<open>previous.close\<close> is swallowed; a cancellation there ends the handler, which is the
  case \<open>Ends_Replacing\<close> of the relation below.
\<close>

inductive hub_next :: "auth_env \<Rightarrow> (string \<Rightarrow> ident option) \<Rightarrow> socket_hub \<Rightarrow> socket_hub \<Rightarrow> bool" for env uuid where
  Opens: "hub_next env uuid h (h\<lparr>hb_sockets := hb_sockets h @
     [\<lparr>sk_user = u, sk_token = t, sk_registered = False, sk_cut = False, sk_at = Validating\<rparr>]\<rparr>)"
| Runs: "i < length (hb_sockets h) \<Longrightarrow> enabled_end (hb_sockets h ! i) e \<Longrightarrow>
     hub_next env uuid h (socket_step env uuid i e h)"
| Ends_Replacing: "i < length (hb_sockets h) \<Longrightarrow> sk_at (hb_sockets h ! i) = Replacing j \<Longrightarrow>
     hub_next env uuid h (socket_over i h)"
| Others: "hb_now h \<le> now \<Longrightarrow> hub_next env uuid h (h\<lparr>hb_sys := sys, hb_now := now\<rparr>)"
| Shutdown: "distinct order \<Longrightarrow> set order = ran (hb_conns h) \<Longrightarrow> hub_next env uuid h (close_all_begin order h)"
| Closes: "hub_next env uuid h (close_all_next h)"

inductive hub_run :: "auth_env \<Rightarrow> (string \<Rightarrow> ident option) \<Rightarrow> socket_hub \<Rightarrow> socket_hub \<Rightarrow> bool" for env uuid where
  stay: "hub_run env uuid h h"
| step: "hub_run env uuid h h1 \<Longrightarrow> hub_next env uuid h1 h2 \<Longrightarrow> hub_run env uuid h h2"

definition hub_init :: "central_sys \<Rightarrow> time \<Rightarrow> socket_hub" where
  "hub_init sys now = \<lparr>hb_sys = sys, hb_now = now, hb_conns = (\<lambda>u. None), hb_sockets = [], hb_closing = []\<rparr>"

inductive_cases hub_nextE: "hub_next env uuid h h'"

end
