(* ===== verification/Central_Socket_Props.thy ===== *)
theory Central_Socket_Props
  imports Central_Socket Central_Session_Props Central_Camera_Props
begin

section \<open>Properties of the synchronization socket\<close>

text \<open>
  The registry of connections only names handlers that will take themselves out of it; every stored
  message was checked against the session after it had been received; and two connections opened at
  the same time escape the rule that the newer replaces the older.
\<close>

subsection \<open>What a step does to the parts of the state\<close>

lemma update_socket_simps [simp]:
  "hb_sys (update_socket i f h) = hb_sys h"
  "hb_now (update_socket i f h) = hb_now h"
  "hb_conns (update_socket i f h) = hb_conns h"
  "hb_closing (update_socket i f h) = hb_closing h"
  "length (hb_sockets (update_socket i f h)) = length (hb_sockets h)"
  by (simp_all add: update_socket_def)

lemma goes_to_simps [simp]:
  "hb_sys (goes_to i p h) = hb_sys h"
  "hb_now (goes_to i p h) = hb_now h"
  "hb_conns (goes_to i p h) = hb_conns h"
  "hb_closing (goes_to i p h) = hb_closing h"
  "length (hb_sockets (goes_to i p h)) = length (hb_sockets h)"
  by (simp_all add: goes_to_def)

lemma cut_simps [simp]:
  "hb_sys (cut i h) = hb_sys h"
  "hb_now (cut i h) = hb_now h"
  "hb_conns (cut i h) = hb_conns h"
  "hb_closing (cut i h) = hb_closing h"
  "length (hb_sockets (cut i h)) = length (hb_sockets h)"
  by (simp_all add: cut_def)

lemma nth_update_socket:
  "j < length (hb_sockets h) \<Longrightarrow>
     hb_sockets (update_socket i f h) ! j = (if j = i then f (hb_sockets h ! i) else hb_sockets h ! j)"
  by (simp add: update_socket_def nth_list_update)

lemma nth_goes_to:
  "j < length (hb_sockets h) \<Longrightarrow>
     hb_sockets (goes_to i p h) ! j = (if j = i then (hb_sockets h ! i)\<lparr>sk_at := p\<rparr> else hb_sockets h ! j)"
  by (simp add: goes_to_def nth_update_socket)

lemma nth_cut:
  "j < length (hb_sockets h) \<Longrightarrow>
     hb_sockets (cut i h) ! j = (if j = i then (hb_sockets h ! i)\<lparr>sk_cut := True\<rparr> else hb_sockets h ! j)"
  by (simp add: cut_def nth_update_socket)

lemmas nth_sockets = nth_update_socket nth_goes_to nth_cut

lemma disconnect_simps [simp]:
  "hb_sys (manager_disconnect i h) = hb_sys h"
  "hb_now (manager_disconnect i h) = hb_now h"
  "hb_sockets (manager_disconnect i h) = hb_sockets h"
  by (simp_all add: manager_disconnect_def Let_def)

lemma over_simps [simp]:
  "hb_sys (socket_over i h) = hb_sys h"
  "hb_now (socket_over i h) = hb_now h"
  "length (hb_sockets (socket_over i h)) = length (hb_sockets h)"
  by (simp_all add: socket_over_def)

lemma nth_over:
  "j < length (hb_sockets h) \<Longrightarrow>
     hb_sockets (socket_over i h) ! j = (if j = i then (hb_sockets h ! i)\<lparr>sk_at := Over\<rparr> else hb_sockets h ! j)"
  by (simp add: socket_over_def nth_goes_to)

lemma register_simps [simp]:
  "hb_sys (manager_register i h) = hb_sys h"
  "length (hb_sockets (manager_register i h)) = length (hb_sockets h)"
  by (simp_all add: manager_register_def)

lemma nth_register:
  "j < length (hb_sockets h) \<Longrightarrow> hb_sockets (manager_register i h) ! j =
     (if j = i then (hb_sockets h ! i)\<lparr>sk_registered := True, sk_at := Fetching_Config\<rparr> else hb_sockets h ! j)"
  by (simp add: manager_register_def nth_goes_to nth_update_socket)

lemma connect_simps [simp]:
  "hb_sys (manager_connect i h) = hb_sys h"
  "length (hb_sockets (manager_connect i h)) = length (hb_sockets h)"
  by (simp_all add: manager_connect_def Let_def split: option.splits)

lemma connect_sockets:
  "\<exists>p. (p = Accepting \<or> (\<exists>k. p = Replacing k)) \<and> hb_sockets (manager_connect i h) = hb_sockets (goes_to i p h)"
  by (cases "hb_conns h (sk_user (hb_sockets h ! i))") (auto simp: manager_connect_def Let_def goes_to_def update_socket_def)

lemma connect_conns:
  "hb_conns (manager_connect i h) = (hb_conns h)(sk_user (hb_sockets h ! i) := None)"
  by (cases "hb_conns h (sk_user (hb_sockets h ! i))") (auto simp: manager_connect_def Let_def)

lemma over_conns:
  "hb_conns (socket_over i h) u = Some j \<Longrightarrow> hb_conns h u = Some j"
  by (auto simp: socket_over_def manager_disconnect_def Let_def split: if_splits)

text \<open>The other handlers only ever get their socket closed.\<close>

definition same_task :: "socket \<Rightarrow> socket \<Rightarrow> bool" where
  "same_task s s' \<longleftrightarrow> sk_user s' = sk_user s \<and> sk_token s' = sk_token s \<and> sk_registered s' = sk_registered s \<and> sk_at s' = sk_at s"

lemma step_length [simp]: "length (hb_sockets (socket_step env uuid i e h)) = length (hb_sockets h)"
  by (simp add: socket_step_def Let_def split: suspended_at.splits await_end.splits sum.splits)

lemma step_other:
  assumes "j < length (hb_sockets h)" "j \<noteq> i"
  shows "same_task (hb_sockets h ! j) (hb_sockets (socket_step env uuid i e h) ! j)"
proof -
  obtain p where p: "hb_sockets (manager_connect i h) = hb_sockets (goes_to i p h)" using connect_sockets by blast
  show ?thesis
    using assms by (simp add: socket_step_def Let_def same_task_def p nth_sockets nth_over nth_register
        split: suspended_at.splits await_end.splits sum.splits)
qed

lemma step_user:
  assumes "i < length (hb_sockets h)"
  shows "sk_user (hb_sockets (socket_step env uuid i e h) ! i) = sk_user (hb_sockets h ! i)"
    "sk_token (hb_sockets (socket_step env uuid i e h) ! i) = sk_token (hb_sockets h ! i)"
proof -
  obtain p where p: "hb_sockets (manager_connect i h) = hb_sockets (goes_to i p h)" using connect_sockets by blast
  show "sk_user (hb_sockets (socket_step env uuid i e h) ! i) = sk_user (hb_sockets h ! i)"
    using assms by (simp add: socket_step_def Let_def p nth_sockets nth_over nth_register
        split: suspended_at.splits await_end.splits sum.splits)
  show "sk_token (hb_sockets (socket_step env uuid i e h) ! i) = sk_token (hb_sockets h ! i)"
    using assms by (simp add: socket_step_def Let_def p nth_sockets nth_over nth_register
        split: suspended_at.splits await_end.splits sum.splits)
qed

subsection \<open>Authority of stored messages\<close>

lemma validate_session_user:
  assumes "validate_session env now u token sys = Some user"
  shows "me_id user = u" "validate_session_state env now u token None sys \<noteq> None"
    "\<exists>p. authorize user ''sync'' ''write'' (Some u) None = Inr p"
proof -
  obtain s r ps where v: "validate_session_state env now u token None sys = Some (s, r, ps)"
    using assms by (auto simp: validate_session_def split: option.splits)
  then have r: "us_id r = u"
    by (auto simp: validate_session_state_def session_row_valid_def Let_def find_Some_iff
        split: option.splits stored.splits if_splits)
  show "validate_session_state env now u token None sys \<noteq> None" using v by simp
  show "me_id user = u" "\<exists>p. authorize user ''sync'' ''write'' (Some u) None = Inr p"
    using assms v r by (auto simp: validate_session_def Let_def split: sum.splits)
qed


lemma after_check_storing:
  "after_check v i = Storing user m \<longleftrightarrow> v = Some user \<and> i = Sync_Message m"
  by (cases v; cases i) auto

lemma step_storing:
  assumes "i < length (hb_sockets h)" "sk_at (hb_sockets (socket_step env uuid i e h) ! i) = Storing user m"
  shows "sk_at (hb_sockets h ! i) = Checking (Sync_Message m) \<and>
    validate_session env (hb_now h) (sk_user (hb_sockets h ! i)) (sk_token (hb_sockets h ! i)) (hb_sys h) = Some user"
proof -
  obtain p where p: "hb_sockets (manager_connect i h) = hb_sockets (goes_to i p h)" "p = Accepting \<or> (\<exists>k. p = Replacing k)"
    using connect_sockets by blast
  show ?thesis
  proof (cases "sk_at (hb_sockets h ! i)")
    case (Storing u n)
    then show ?thesis using assms
      by (cases e) (simp_all add: socket_step_def Let_def nth_sockets nth_over split: sum.splits)
  next
    case (Checking c)
    then show ?thesis using assms
      by (cases "e = Raises") (simp_all add: socket_step_def Let_def nth_sockets nth_over after_check_storing)
  next
    case Validating
    then show ?thesis using assms p(2)
      by (auto simp: socket_step_def Let_def p(1) nth_sockets split: if_splits)
  next
    case Receiving
    then show ?thesis using assms
      by (cases e) (simp_all add: socket_step_def Let_def nth_sockets nth_over)
  qed (use assms in \<open>auto simp: socket_step_def Let_def nth_sockets nth_over nth_register split: if_splits\<close>)
qed

lemma step_sys:
  assumes "hb_sys (socket_step env uuid i e h) \<noteq> hb_sys h"
  obtains user m ids db where "sk_at (hb_sockets h ! i) = Storing user m"
    "socket_message uuid (hb_now h) ids user m (sy_db (hb_sys h)) = Inr db"
    "hb_sys (socket_step env uuid i e h) = (hb_sys h)\<lparr>sy_db := db\<rparr>"
proof (cases "sk_at (hb_sockets h ! i)")
  case (Storing user m)
  show thesis
  proof (cases e)
    case (Draws ids)
    show thesis
    proof (cases "socket_message uuid (hb_now h) ids user m (sy_db (hb_sys h))")
      case (Inl err)
      with assms Storing Draws show thesis by (simp add: socket_step_def Let_def)
    next
      case (Inr db)
      show thesis by (rule that [OF Storing Inr]) (simp add: socket_step_def Let_def Storing Draws Inr)
    qed
  qed (use assms Storing in \<open>simp_all add: socket_step_def Let_def\<close>)
next
  case Receiving
  with assms show thesis by (cases e) (simp_all add: socket_step_def Let_def)
qed (use assms in \<open>simp_all add: socket_step_def Let_def split: if_splits\<close>)

text \<open>Where a handler that did not run stays; an opened one starts to validate.\<close>

definition checked_before :: "auth_env \<Rightarrow> (string \<Rightarrow> ident option) \<Rightarrow> socket_hub \<Rightarrow> socket_hub \<Rightarrow> nat \<Rightarrow> current_user \<Rightarrow> ws_message \<Rightarrow> bool" where
  "checked_before env uuid h0 h i user m \<longleftrightarrow>
     (\<exists>h1. hub_run env uuid h0 h1 \<and> hub_run env uuid h1 h \<and> i < length (hb_sockets h1) \<and>
       sk_at (hb_sockets h1 ! i) = Checking (Sync_Message m) \<and>
       validate_session env (hb_now h1) (sk_user (hb_sockets h ! i)) (sk_token (hb_sockets h ! i)) (hb_sys h1) = Some user)"

lemma checked_before_step:
  assumes "checked_before env uuid h0 h i user m" "hub_next env uuid h h'"
    "sk_user (hb_sockets h' ! i) = sk_user (hb_sockets h ! i)" "sk_token (hb_sockets h' ! i) = sk_token (hb_sockets h ! i)"
  shows "checked_before env uuid h0 h' i user m"
  using assms unfolding checked_before_def by (metis hub_run.step)

lemma close_next_sockets:
  "length (hb_sockets (close_all_next h)) = length (hb_sockets h)"
  "j < length (hb_sockets h) \<Longrightarrow> same_task (hb_sockets h ! j) (hb_sockets (close_all_next h) ! j)"
  by (auto simp: close_all_next_def same_task_def nth_cut split: list.splits)

lemma storing_checked:
  assumes "hub_run env uuid h0 h" "hb_sockets h0 = []" "i < length (hb_sockets h)"
    "sk_at (hb_sockets h ! i) = Storing user m"
  shows "checked_before env uuid h0 h i user m"
  using assms
proof (induction h rule: hub_run.induct)
  case stay
  then show ?case by simp
next
  case (step h0 h h')
  have keep: "checked_before env uuid h0 h' i user m"
    if "i < length (hb_sockets h)" "same_task (hb_sockets h ! i) (hb_sockets h' ! i)"
    using checked_before_step [OF step.IH step.hyps(2)] that step.prems by (simp add: same_task_def)
  from step.hyps(2) show ?case
  proof (cases rule: hub_next.cases)
    case (Opens u t)
    then have "i < length (hb_sockets h)" using step.prems by (cases "i = length (hb_sockets h)") auto
    then show ?thesis using keep Opens by (simp add: nth_append same_task_def)
  next
    case (Runs k e)
    then have l: "i < length (hb_sockets h)" using step.prems by simp
    show ?thesis
    proof (cases "i = k")
      case True
      note s = step_storing [OF l, of env uuid e user m]
      have "sk_at (hb_sockets h ! i) = Checking (Sync_Message m) \<and>
        validate_session env (hb_now h) (sk_user (hb_sockets h ! i)) (sk_token (hb_sockets h ! i)) (hb_sys h) = Some user"
        by (rule s) (use step.prems Runs True in simp)
      moreover have "hub_run env uuid h h'" by (rule hub_run.step [OF hub_run.stay step.hyps(2)])
      ultimately show ?thesis
        using step.hyps(1) l step_user [OF l, of env uuid e] Runs True unfolding checked_before_def by auto
    next
      case False
      then show ?thesis using keep [OF l] step_other [OF l False] Runs by simp
    qed
  next
    case (Ends_Replacing k j)
    then have l: "i < length (hb_sockets h)" using step.prems by simp
    have "i \<noteq> k" using step.prems Ends_Replacing l by (auto simp: nth_over)
    then show ?thesis using keep [OF l] Ends_Replacing l by (simp add: nth_over same_task_def)
  next
    case (Others now sys)
    then show ?thesis using keep step.prems by (simp add: same_task_def)
  next
    case (Shutdown order)
    then show ?thesis using keep step.prems by (simp add: same_task_def close_all_begin_def)
  next
    case Closes
    then show ?thesis using keep step.prems close_next_sockets by simp
  qed
qed


subsection \<open>The registry\<close>

fun in_loop :: "suspended_at \<Rightarrow> bool" where
  "in_loop Validating = False"
| "in_loop (Replacing j) = False"
| "in_loop Accepting = False"
| "in_loop Over = False"
| "in_loop p = True"

definition registry_entry :: "socket_hub \<Rightarrow> ident \<Rightarrow> nat \<Rightarrow> bool" where
  "registry_entry h u i \<longleftrightarrow> i < length (hb_sockets h) \<and> sk_user (hb_sockets h ! i) = u \<and>
     sk_registered (hb_sockets h ! i) \<and> in_loop (sk_at (hb_sockets h ! i))"

definition registry_ok :: "socket_hub \<Rightarrow> bool" where
  "registry_ok h \<longleftrightarrow> (\<forall>u i. hb_conns h u = Some i \<longrightarrow> registry_entry h u i)"

lemma registry_entry_same:
  "registry_entry h u i \<Longrightarrow> length (hb_sockets h) \<le> length (hb_sockets h') \<Longrightarrow>
     same_task (hb_sockets h ! i) (hb_sockets h' ! i) \<Longrightarrow> registry_entry h' u i"
  by (simp add: registry_entry_def same_task_def)

lemma step_conns:
  assumes "hb_conns (socket_step env uuid i e h) u = Some j" "j \<noteq> i"
  shows "hb_conns h u = Some j"
proof (cases "sk_at (hb_sockets h ! i)")
  case (Storing user m)
  with assms over_conns [of i h u j] show ?thesis
    by (cases e) (simp_all add: socket_step_def Let_def split: sum.splits)
next
  case Receiving
  with assms over_conns [of i h u j] show ?thesis by (cases e) (simp_all add: socket_step_def Let_def)
next
  case (Denying r)
  with assms over_conns [of i "cut i h" u j] show ?thesis by (simp add: socket_step_def Let_def)
qed (use assms over_conns [of i h u j] in
    \<open>auto simp: socket_step_def Let_def connect_conns manager_register_def split: if_splits\<close>)

lemma over_removes:
  assumes "registry_ok h" "i < length (hb_sockets h)"
  shows "hb_conns (socket_over i h) u \<noteq> Some i"
proof
  assume s: "hb_conns (socket_over i h) u = Some i"
  then have "registry_entry h u i" using assms over_conns [OF s] by (simp add: registry_ok_def)
  with s show False by (auto simp: registry_entry_def socket_over_def manager_disconnect_def Let_def split: if_splits)
qed

lemma registry_ok_cut: "registry_ok h \<Longrightarrow> registry_ok (cut i h)"
  by (auto simp: registry_ok_def registry_entry_def nth_cut)

lemma after_check_in_loop: "in_loop (after_check v m)"
  by (cases v; cases m) auto

lemma step_self:
  assumes ok: "registry_ok h" and l: "i < length (hb_sockets h)"
    and c: "hb_conns (socket_step env uuid i e h) u = Some i"
  shows "registry_entry (socket_step env uuid i e h) u i"
proof -
  have old: "hb_conns h u = Some i \<Longrightarrow> registry_entry h u i" using ok by (simp add: registry_ok_def)
  note over = over_removes [OF ok l, of u]
  show ?thesis
  proof (cases "sk_at (hb_sockets h ! i)")
    case (Storing user m)
    then show ?thesis using c old over l
      by (cases e) (auto simp: socket_step_def Let_def registry_entry_def nth_sockets split: sum.splits)
  next
    case Receiving
    then show ?thesis using c old over
      by (cases e) (auto simp: socket_step_def Let_def registry_entry_def nth_sockets)
  next
    case (Denying r)
    then show ?thesis using c over_removes [OF registry_ok_cut [OF ok], of i i u] l
      by (auto simp: socket_step_def Let_def)
  next
    case (Checking m)
    then show ?thesis using c old over
      by (cases "e = Raises") (simp_all add: socket_step_def Let_def registry_entry_def nth_sockets after_check_in_loop)
  next
    case Accepting
    then show ?thesis using c over l
      by (auto simp: socket_step_def Let_def registry_entry_def nth_register split: if_splits)
         (simp_all add: manager_register_def old [unfolded registry_entry_def] split: if_splits)
  qed (use c old over in
      \<open>auto simp: socket_step_def Let_def registry_entry_def nth_sockets connect_conns split: if_splits\<close>)
qed

lemma registry_ok_next:
  assumes "hub_next env uuid h h'" "registry_ok h"
  shows "registry_ok h'"
  using assms(1)
proof (cases rule: hub_next.cases)
  case (Runs k e)
  have "registry_entry h' u i" if c: "hb_conns h' u = Some i" for u i
  proof (cases "i = k")
    case True
    then show ?thesis using step_self [OF assms(2) Runs(2)] c Runs(1) by simp
  next
    case False
    have "hb_conns h u = Some i" by (rule step_conns [OF c [unfolded Runs(1)] False])
    then have r: "registry_entry h u i" using assms(2) by (simp add: registry_ok_def)
    then have "i < length (hb_sockets h)" by (simp add: registry_entry_def)
    from registry_entry_same [OF r _ step_other [OF this False]] show ?thesis using Runs(1) by simp
  qed
  then show ?thesis by (simp add: registry_ok_def)
next
  case (Ends_Replacing k j)
  have "registry_entry h' u i" if c: "hb_conns h' u = Some i" for u i
  proof -
    have "hb_conns h u = Some i" by (rule over_conns [of k]) (use c Ends_Replacing(1) in simp)
    then have r: "registry_entry h u i" using assms(2) by (simp add: registry_ok_def)
    then have "i \<noteq> k" using Ends_Replacing by (auto simp: registry_entry_def)
    then show ?thesis using r Ends_Replacing(1) by (simp add: registry_entry_def nth_over)
  qed
  then show ?thesis by (simp add: registry_ok_def)
next
  case (Opens u t)
  then show ?thesis using assms(2) by (auto simp: registry_ok_def registry_entry_def nth_append less_Suc_eq)
next
  case Closes
  have "hb_conns h' = hb_conns h" by (simp add: Closes close_all_next_def split: list.splits)
  then show ?thesis using assms(2) close_next_sockets Closes(1)
    by (simp add: registry_ok_def registry_entry_def same_task_def)
qed (use assms(2) in \<open>simp_all add: registry_ok_def registry_entry_def close_all_begin_def\<close>)

lemma registry_ok_run: "hub_run env uuid h h' \<Longrightarrow> registry_ok h \<Longrightarrow> registry_ok h'"
  by (induction rule: hub_run.induct) (auto intro: registry_ok_next)


subsection \<open>An example\<close>

text \<open>
  The super-administrator of the session example, with a camera, opens a connection and sends a count.
\<close>

definition socket_sys :: central_sys where
  "socket_sys = example_logged_in\<lparr>sy_db := (sy_db example_logged_in)\<lparr>ct_cameras := [\<lparr>vc_id = ''c'', vc_user = ''s'',
     vc_name = ''n'', vc_url = ''rtsp'', vc_stream_type = ''rtsp'', vc_location = None, vc_config = JObj [],
     vc_zones = JList [], vc_active = True, vc_created = 0\<rparr>], ct_events := []\<rparr>\<rparr>"

definition socket_count :: ws_message where
  "socket_count = WsCount \<lparr>ci_id = ''n'', ci_camera = ''c'', ci_in = 2, ci_out = 0, ci_time = 3\<rparr>"

definition at_hub :: "socket list \<Rightarrow> (ident \<rightharpoonup> nat) \<Rightarrow> socket_hub" where
  "at_hub ss conns = \<lparr>hb_sys = socket_sys, hb_now = 6000000, hb_conns = conns, hb_sockets = ss, hb_closing = []\<rparr>"

definition demo_socket :: "bool \<Rightarrow> suspended_at \<Rightarrow> socket" where
  "demo_socket r p = \<lparr>sk_user = ''s'', sk_token = ''tok'', sk_registered = r, sk_cut = False, sk_at = p\<rparr>"

lemma socket_session:
  "\<exists>user. validate_session example_env 6000000 ''s'' ''tok'' socket_sys = Some user \<and>
     (\<exists>db. socket_message Some 6000000 [] user socket_count (sy_db socket_sys) = Inr db \<and> ct_events db \<noteq> [])"
proof -
  have "(case validate_session example_env 6000000 ''s'' ''tok'' socket_sys of None \<Rightarrow> False | Some user \<Rightarrow>
      (case socket_message Some 6000000 [] user socket_count (sy_db socket_sys) of
         Inl e \<Rightarrow> False | Inr db \<Rightarrow> ct_events db \<noteq> []))"
    by code_simp
  then show ?thesis by (auto split: option.splits sum.splits)
qed


lemma runs_on:
  assumes "hub_run example_env Some h0 (at_hub ss c)" "i < length ss" "enabled_end (ss ! i) e"
    "socket_step example_env Some i e (at_hub ss c) = at_hub ss' c'"
  shows "hub_run example_env Some h0 (at_hub ss' c')"
  using hub_run.step [OF assms(1) hub_next.Runs [of i "at_hub ss c" e]] assms(2-4) by (simp add: at_hub_def)

lemma opens_on:
  assumes "hub_run example_env Some h0 (at_hub ss c)"
  shows "hub_run example_env Some h0 (at_hub (ss @ [demo_socket False Validating]) c)"
  using hub_run.step [OF assms hub_next.Opens [of _ _ _ "''s''" "''tok''"]] by (simp add: at_hub_def demo_socket_def)

lemmas socket_eval = socket_step_def enabled_end_def at_hub_def demo_socket_def Let_def manager_connect_def manager_register_def
  goes_to_def update_socket_def

definition demo_config :: "central_camera list" where
  "demo_config = filter (\<lambda>c. vc_user c = ''s'' \<and> vc_active c) (ct_cameras (sy_db socket_sys))"

text \<open>Two connections of one user that are accepted at the same time.\<close>

definition two_accepting :: socket_hub where
  "two_accepting = at_hub [demo_socket False Accepting, demo_socket False Accepting] (\<lambda>u. None)"

definition two_receiving :: socket_hub where
  "two_receiving = at_hub [demo_socket True Receiving, demo_socket True Receiving] ((\<lambda>u. None)(''s'' \<mapsto> 0, ''s'' \<mapsto> Suc 0))"

lemma two_accepting_run: "hub_run example_env Some (hub_init socket_sys 6000000) two_accepting"
proof -
  obtain user where v: "validate_session example_env 6000000 ''s'' ''tok'' socket_sys = Some user"
    using socket_session by blast
  have "hub_run example_env Some (hub_init socket_sys 6000000) (at_hub [] (\<lambda>u. None))"
    by (simp add: at_hub_def hub_init_def hub_run.stay)
  from opens_on [OF opens_on [OF this]]
  have a: "hub_run example_env Some (hub_init socket_sys 6000000)
      (at_hub [demo_socket False Validating, demo_socket False Validating] (\<lambda>u. None))" by simp
  have b: "hub_run example_env Some (hub_init socket_sys 6000000)
      (at_hub [demo_socket False Accepting, demo_socket False Validating] (\<lambda>u. None))"
    by (rule runs_on [OF a, where i = 0 and e = Succeeds]) (simp_all add: socket_eval v)
  show ?thesis unfolding two_accepting_def
    by (rule runs_on [OF b, where i = "Suc 0" and e = Succeeds]) (simp_all add: socket_eval v)
qed

lemma two_receiving_run: "hub_run example_env Some (hub_init socket_sys 6000000) two_receiving"
proof -
  let ?R = "hub_run example_env Some (hub_init socket_sys 6000000)"
  let ?c = "(\<lambda>u. None)(''s'' \<mapsto> 0)"
  have "?R (at_hub [demo_socket True Fetching_Config, demo_socket False Accepting] ?c)"
    by (rule runs_on [OF two_accepting_run [unfolded two_accepting_def], where i = 0 and e = Succeeds]) (simp_all add: socket_eval)
  from runs_on [OF this, where i = "Suc 0" and e = Succeeds and c' = "?c(''s'' \<mapsto> Suc 0)"
      and ss' = "[demo_socket True Fetching_Config, demo_socket True Fetching_Config]"]
  have "?R (at_hub [demo_socket True Fetching_Config, demo_socket True Fetching_Config] (?c(''s'' \<mapsto> Suc 0)))"
    by (simp add: socket_eval)
  from runs_on [OF this, where i = 0 and e = Succeeds and c' = "?c(''s'' \<mapsto> Suc 0)"
      and ss' = "[demo_socket True (Sending_Config demo_config), demo_socket True Fetching_Config]"]
  have "?R (at_hub [demo_socket True (Sending_Config demo_config), demo_socket True Fetching_Config] (?c(''s'' \<mapsto> Suc 0)))"
    by (simp add: socket_eval demo_config_def)
  from runs_on [OF this, where i = "Suc 0" and e = Succeeds and c' = "?c(''s'' \<mapsto> Suc 0)"
      and ss' = "[demo_socket True (Sending_Config demo_config), demo_socket True (Sending_Config demo_config)]"]
  have "?R (at_hub [demo_socket True (Sending_Config demo_config), demo_socket True (Sending_Config demo_config)] (?c(''s'' \<mapsto> Suc 0)))"
    by (simp add: socket_eval demo_config_def)
  from runs_on [OF this, where i = 0 and e = Succeeds and c' = "?c(''s'' \<mapsto> Suc 0)"
      and ss' = "[demo_socket True Receiving, demo_socket True (Sending_Config demo_config)]"]
  have "?R (at_hub [demo_socket True Receiving, demo_socket True (Sending_Config demo_config)] (?c(''s'' \<mapsto> Suc 0)))"
    by (simp add: socket_eval)
  from runs_on [OF this, where i = "Suc 0" and e = Succeeds and c' = "?c(''s'' \<mapsto> Suc 0)"
      and ss' = "[demo_socket True Receiving, demo_socket True Receiving]"]
  show ?thesis unfolding two_receiving_def by (simp add: socket_eval)
qed

text \<open>
  Both connections are served, the manager knows one of them, and a complete shutdown closes that one
  only: the rule that a newer connection replaces the older does not hold for concurrent connections.
\<close>

lemma concurrent_connection_survives:
  "\<exists>h. hub_run example_env Some (hub_init socket_sys 6000000) h \<and> hb_closing h = [] \<and> hb_conns h = (\<lambda>u. None) \<and>
     sk_at (hb_sockets h ! 0) = Receiving \<and> \<not> sk_cut (hb_sockets h ! 0) \<and> sk_cut (hb_sockets h ! Suc 0)"
proof -
  have r: "ran (hb_conns two_receiving) = {Suc 0}" by (auto simp: two_receiving_def at_hub_def ran_def)
  have a: "hub_run example_env Some (hub_init socket_sys 6000000) (close_all_begin [Suc 0] two_receiving)"
    by (rule hub_run.step [OF two_receiving_run hub_next.Shutdown]) (simp_all add: r)
  have b: "hub_run example_env Some (hub_init socket_sys 6000000) (close_all_next (close_all_begin [Suc 0] two_receiving))"
    by (rule hub_run.step [OF a hub_next.Closes])
  show ?thesis
    by (intro exI [of _ "close_all_next (close_all_begin [Suc 0] two_receiving)"] conjI b)
       (simp_all add: close_all_next_def close_all_begin_def two_receiving_def socket_eval cut_def)
qed

text \<open>The first of them sends the count.\<close>

lemma socket_storing_run:
  obtains user db where "hub_run example_env Some (hub_init socket_sys 6000000)
      (at_hub [demo_socket True (Storing user socket_count), demo_socket True Receiving] ((\<lambda>u. None)(''s'' \<mapsto> 0, ''s'' \<mapsto> Suc 0)))"
    "socket_message Some 6000000 [] user socket_count (sy_db socket_sys) = Inr db" "ct_events db \<noteq> []"
proof -
  obtain user db where v: "validate_session example_env 6000000 ''s'' ''tok'' socket_sys = Some user"
    "socket_message Some 6000000 [] user socket_count (sy_db socket_sys) = Inr db" "ct_events db \<noteq> []"
    using socket_session by blast
  let ?R = "hub_run example_env Some (hub_init socket_sys 6000000)"
  let ?c = "(\<lambda>u. None)(''s'' \<mapsto> 0, ''s'' \<mapsto> Suc 0)"
  from runs_on [OF two_receiving_run [unfolded two_receiving_def], where i = 0 and e = "Gets (Sync_Message socket_count)" and c' = ?c
      and ss' = "[demo_socket True (Checking (Sync_Message socket_count)), demo_socket True Receiving]"]
  have "?R (at_hub [demo_socket True (Checking (Sync_Message socket_count)), demo_socket True Receiving] ?c)"
    by (simp add: socket_eval)
  from runs_on [OF this, where i = 0 and e = Succeeds and c' = ?c
      and ss' = "[demo_socket True (Storing user socket_count), demo_socket True Receiving]"]
  have "?R (at_hub [demo_socket True (Storing user socket_count), demo_socket True Receiving] ?c)"
    by (simp add: socket_eval v(1))
  then show thesis using that v(2,3) by blast
qed

subsection \<open>Properties\<close>

text \<open>
  C11. Whatever requests, connections, replacements and shutdowns interleave: a step of a socket handler
  changes the central state only by storing one message that arrived on its connection, with the
  transaction of \<open>store_message\<close> and its audit entry, and between the arrival of that message and the
  transaction the session of the connection was validated and its user was authorized to synchronize.
\<close>

theorem socket_writes_authorized:
  assumes "hub_run env uuid (hub_init sys t) h" "i < length (hb_sockets h)"
    and "hb_sys (socket_step env uuid i e h) \<noteq> hb_sys h"
  shows "\<exists>user m ids db h1. sk_at (hb_sockets h ! i) = Storing user m \<and>
    socket_message uuid (hb_now h) ids user m (sy_db (hb_sys h)) = Inr db \<and>
    hb_sys (socket_step env uuid i e h) = (hb_sys h)\<lparr>sy_db := db\<rparr> \<and>
    hub_run env uuid (hub_init sys t) h1 \<and> hub_run env uuid h1 h \<and>
    sk_at (hb_sockets h1 ! i) = Checking (Sync_Message m) \<and>
    validate_session_state env (hb_now h1) (sk_user (hb_sockets h ! i)) (sk_token (hb_sockets h ! i)) None (hb_sys h1) \<noteq> None \<and>
    me_id user = sk_user (hb_sockets h ! i) \<and>
    (\<exists>p. authorize user ''sync'' ''write'' (Some (me_id user)) None = Inr p)"
proof -
  obtain user m ids db where s: "sk_at (hb_sockets h ! i) = Storing user m"
    "socket_message uuid (hb_now h) ids user m (sy_db (hb_sys h)) = Inr db"
    "hb_sys (socket_step env uuid i e h) = (hb_sys h)\<lparr>sy_db := db\<rparr>" by (rule step_sys [OF assms(3)])
  have "checked_before env uuid (hub_init sys t) h i user m"
    by (rule storing_checked [OF assms(1) _ assms(2) s(1)]) (simp add: hub_init_def)
  then obtain h1 where h1: "hub_run env uuid (hub_init sys t) h1" "hub_run env uuid h1 h"
    "sk_at (hb_sockets h1 ! i) = Checking (Sync_Message m)"
    "validate_session env (hb_now h1) (sk_user (hb_sockets h ! i)) (sk_token (hb_sockets h ! i)) (hb_sys h1) = Some user"
    by (auto simp: checked_before_def)
  note v = validate_session_user [OF h1(4)]
  obtain p where p: "authorize user ''sync'' ''write'' (Some (me_id user)) None = Inr p" using v(1,3) by auto
  show ?thesis by (intro exI conjI) (rule s h1 v p)+
qed

lemma socket_writes_authorized_witness:
  "\<exists>user m ids db h h1. sk_at (hb_sockets h ! 0) = Storing user m \<and>
    socket_message Some (hb_now h) ids user m (sy_db (hb_sys h)) = Inr db \<and>
    hub_run example_env Some (hub_init socket_sys 6000000) h1 \<and> hub_run example_env Some h1 h \<and>
    sk_at (hb_sockets h1 ! 0) = Checking (Sync_Message m) \<and>
    validate_session_state example_env (hb_now h1) (sk_user (hb_sockets h ! 0)) (sk_token (hb_sockets h ! 0)) None (hb_sys h1) \<noteq> None"
proof -
  obtain user db where r: "hub_run example_env Some (hub_init socket_sys 6000000)
      (at_hub [demo_socket True (Storing user socket_count), demo_socket True Receiving] ((\<lambda>u. None)(''s'' \<mapsto> 0, ''s'' \<mapsto> Suc 0)))"
      (is "hub_run _ _ _ ?h")
    and m: "socket_message Some 6000000 [] user socket_count (sy_db socket_sys) = Inr db" "ct_events db \<noteq> []"
    by (rule socket_storing_run)
  have "hb_sys (socket_step example_env Some 0 (Draws []) ?h) = socket_sys\<lparr>sy_db := db\<rparr>"
    by (simp add: socket_eval m(1))
  moreover have "ct_events (sy_db socket_sys) = []" by (simp add: socket_sys_def)
  then have "socket_sys\<lparr>sy_db := db\<rparr> \<noteq> socket_sys" using m(2) by (auto dest: arg_cong [where f = sy_db])
  moreover have "hb_sys ?h = socket_sys" "0 < length (hb_sockets ?h)" by (simp_all add: at_hub_def)
  ultimately have "hb_sys (socket_step example_env Some 0 (Draws []) ?h) \<noteq> hb_sys ?h" "0 < length (hb_sockets ?h)"
    by simp_all
  from socket_writes_authorized [OF r this(2,1)] show ?thesis by blast
qed

text \<open>
  C36. In every run, the connection the manager names for a user is a handler of that user that has been
  accepted and is still running, so that it takes itself out when it ends; when all handlers have ended
  the registry is empty.
\<close>

theorem socket_registry_sound:
  assumes "hub_run env uuid (hub_init sys t) h"
  shows "(\<forall>u i. hb_conns h u = Some i \<longrightarrow> i < length (hb_sockets h) \<and> sk_user (hb_sockets h ! i) = u \<and>
      sk_registered (hb_sockets h ! i) \<and> sk_at (hb_sockets h ! i) \<notin> {Validating, Accepting, Over}) \<and>
    ((\<forall>s \<in> set (hb_sockets h). sk_at s = Over) \<longrightarrow> hb_conns h = (\<lambda>u. None))"
proof -
  have "registry_ok (hub_init sys t)" by (simp add: registry_ok_def hub_init_def)
  then have r: "registry_ok h" by (rule registry_ok_run [OF assms])
  then have a: "i < length (hb_sockets h) \<and> sk_user (hb_sockets h ! i) = u \<and>
      sk_registered (hb_sockets h ! i) \<and> sk_at (hb_sockets h ! i) \<notin> {Validating, Accepting, Over}"
    if "hb_conns h u = Some i" for u i
  proof -
    have "registry_entry h u i" using r that by (simp add: registry_ok_def)
    then show ?thesis by (auto simp: registry_entry_def)
  qed
  moreover have "hb_conns h = (\<lambda>u. None)" if o: "\<forall>s \<in> set (hb_sockets h). sk_at s = Over"
  proof
    fix u
    show "hb_conns h u = None"
    proof (cases "hb_conns h u")
      case (Some i)
      with a [OF Some] o show ?thesis by auto
    qed
  qed
  ultimately show ?thesis by blast
qed


lemma socket_registry_sound_witness:
  "hb_conns two_receiving ''s'' = Some (Suc 0) \<and> sk_registered (hb_sockets two_receiving ! Suc 0) \<and>
     sk_user (hb_sockets two_receiving ! Suc 0) = ''s''"
proof -
  have c: "hb_conns two_receiving ''s'' = Some (Suc 0)" by (simp add: two_receiving_def at_hub_def)
  from socket_registry_sound [OF two_receiving_run] c show ?thesis by blast
qed

end
