(* ===== verification/Central_Startup.thy ===== *)
theory Central_Startup
  imports Central_Admin_Props Edge_Container
begin

section \<open>Configuration, start and seeding of the central service\<close>

text \<open>
  \<open>config.py\<close>, the lifespan of \<open>main.py\<close>, \<open>create_buckets_if_not_exist\<close> of \<open>services/file_service.py\<close>
  and \<open>scripts/seed.py\<close> of \<open>apps/webapp-backend\<close>. The libraries (PostgreSQL pool, Redis, MinIO, bcrypt,
  HMAC) are arguments or the ends of their calls.
\<close>

subsection \<open>Settings\<close>

record secrets =
  se_postgres_password :: string
  se_redis_url :: string
  se_minio_access_key :: string
  se_minio_secret_key :: string
  se_jwt_secret :: string
  se_aes_key :: string
  se_license_secret :: string
  se_jwt_algorithm :: string
  se_cors_origins :: string
  se_cleanup_interval :: real
  se_outbox_interval :: real

definition reject_placeholder :: "string \<Rightarrow> py_error + string" where
  "reject_placeholder value =
     (let normalized = py_lower (py_strip value) in
      if normalized = [] \<or> contains_sub ''change_me'' normalized \<or> normalized = ''minioadmin''
      then Inl (ValueError ''placeholder or empty secrets are not allowed'') else Inr value)"

definition min_length :: "nat \<Rightarrow> string \<Rightarrow> py_error + unit" where
  "min_length n value = guardE (n \<le> length value) (ValueError ''string_too_short'')"

definition check_interval :: "real \<Rightarrow> py_error + unit" where
  "check_interval x = guardE (0 < x \<and> x \<le> 300) (ValueError ''interval'')"

definition check_secrets :: "secrets \<Rightarrow> py_error + secrets" where
  "check_secrets s =
     bindE (mapE reject_placeholder [se_postgres_password s, se_redis_url s, se_minio_access_key s, se_minio_secret_key s,
              se_jwt_secret s, se_aes_key s, se_license_secret s]) (\<lambda>_.
     bindE (min_length 32 (se_jwt_secret s)) (\<lambda>_.
     bindE (min_length 16 (se_aes_key s)) (\<lambda>_.
     bindE (min_length 16 (se_license_secret s)) (\<lambda>_.
     bindE (guardE (se_jwt_algorithm s \<in> {''HS256'', ''HS384'', ''HS512''})
       (ValueError ''JWT_ALGORITHM must be an HMAC SHA-2 algorithm'')) (\<lambda>_.
     bindE (check_interval (se_cleanup_interval s)) (\<lambda>_.
     bindE (check_interval (se_outbox_interval s)) (\<lambda>_. Inr s)))))))"

fun split_comma :: "string \<Rightarrow> string \<Rightarrow> string list" where
  "split_comma cur [] = [rev cur]"
| "split_comma cur (c # cs) = (if c = CHR '','' then rev cur # split_comma [] cs else split_comma (c # cur) cs)"

definition allowed_origins :: "secrets \<Rightarrow> string list" where
  "allowed_origins s = filter (\<lambda>o1. o1 \<noteq> []) (map py_strip (split_comma [] (se_cors_origins s)))"

subsection \<open>The buckets\<close>

text \<open>
  The store: the buckets it has, the number of calls made so far, and how it answers each call. \<open>Taken\<close> is an
  \<open>S3Error\<close> that says that the bucket exists already, which another starting service may have created.
\<close>

datatype store_reply = Works | Taken | Down

record bucket_store =
  bu_buckets :: "string list"
  bu_calls :: nat
  bu_reply :: "nat \<Rightarrow> store_reply"

definition bucket_exists :: "string \<Rightarrow> bucket_store \<Rightarrow> bool option \<times> bucket_store" where
  "bucket_exists b st =
     (let st1 = st\<lparr>bu_calls := Suc (bu_calls st)\<rparr> in
      if bu_reply st (bu_calls st) = Down then (None, st1) else (Some (b \<in> set (bu_buckets st)), st1))"

text \<open>\<open>False\<close> is an exception other than the two the code accepts.\<close>

definition make_bucket :: "string \<Rightarrow> bucket_store \<Rightarrow> bool \<times> bucket_store" where
  "make_bucket b st =
     (let st1 = st\<lparr>bu_calls := Suc (bu_calls st)\<rparr> in
      if bu_reply st (bu_calls st) = Down then (False, st1)
      else (True, st1\<lparr>bu_buckets := List.insert b (bu_buckets st)\<rparr>))"

fun one_attempt :: "string list \<Rightarrow> bucket_store \<Rightarrow> bool \<times> bucket_store" where
  "one_attempt [] st = (True, st)"
| "one_attempt (b # bs) st =
     (case bucket_exists b st of
        (None, st) \<Rightarrow> (False, st)
      | (Some True, st) \<Rightarrow> one_attempt bs st
      | (Some False, st) \<Rightarrow>
          (case make_bucket b st of (False, st) \<Rightarrow> (False, st) | (True, st) \<Rightarrow> one_attempt bs st))"

text \<open>The result, the delays slept, and the store.\<close>

fun bucket_attempts :: "nat \<Rightarrow> nat \<Rightarrow> string list \<Rightarrow> bucket_store \<Rightarrow> bool \<times> nat list \<times> bucket_store" where
  "bucket_attempts 0 attempt bs st = (False, [], st)"
| "bucket_attempts (Suc n) attempt bs st =
     (case one_attempt bs st of
        (True, st) \<Rightarrow> (True, [], st)
      | (False, st) \<Rightarrow>
          (case bucket_attempts n (Suc attempt) bs st of
             (r, delays, st) \<Rightarrow> (r, (if n = 0 then [] else [min (2 ^ attempt) 10]) @ delays, st)))"

definition create_buckets_if_not_exist :: "nat \<Rightarrow> string list \<Rightarrow> bucket_store \<Rightarrow> (py_error + unit) \<times> nat list \<times> bucket_store" where
  "create_buckets_if_not_exist attempts bs st =
     (case bucket_attempts attempts 0 bs st of
        (True, delays, st) \<Rightarrow> (Inr (), delays, st)
      | (False, delays, st) \<Rightarrow> (Inl (RuntimeError ''MinIO did not become ready before the startup deadline''), delays, st))"

subsection \<open>The lifespan\<close>

datatype webapp_call =
    Create_Pool | Create_Redis | Create_File_Service | Ping_Redis | Create_Buckets | Start_Workers | Serve
  | Stop_Workers | Close_Sockets | Close_File_Service | Close_Redis | Close_Pool

text \<open>The calls made until one does not return, and how the last of them ended.\<close>

fun run_calls :: "('c \<Rightarrow> call_end) \<Rightarrow> 'c list \<Rightarrow> call_end \<times> 'c list" where
  "run_calls ends [] = (Returned, [])"
| "run_calls ends (c # cs) =
     (if ends c = Returned then (case run_calls ends cs of (r, t) \<Rightarrow> (r, c # t)) else (ends c, [c]))"

text \<open>The \<open>finally\<close> block: an \<open>Exception\<close> of a closing is logged, a cancellation leaves the block.\<close>

fun close_calls :: "('c \<Rightarrow> call_end) \<Rightarrow> 'c list \<Rightarrow> bool \<times> 'c list" where
  "close_calls ends [] = (True, [])"
| "close_calls ends (c # cs) =
     (if ends c = Cancelled_C then (False, [c]) else (case close_calls ends cs of (r, t) \<Rightarrow> (r, c # t)))"

definition startup_calls :: "webapp_call list" where
  "startup_calls = [Create_Pool, Create_Redis, Create_File_Service, Ping_Redis, Create_Buckets, Start_Workers, Serve]"

text \<open>What has to be closed after the calls that returned.\<close>

definition closing_calls :: "(webapp_call \<Rightarrow> call_end) \<Rightarrow> webapp_call list \<Rightarrow> webapp_call list" where
  "closing_calls ends called =
     (let made = (\<lambda>c. c \<in> set called \<and> ends c = Returned) in
      (if made Start_Workers then [Stop_Workers] else []) @ [Close_Sockets] @
      (if made Create_File_Service then [Close_File_Service] else []) @
      (if made Create_Redis then [Close_Redis] else []) @ (if made Create_Pool then [Close_Pool] else []))"

definition webapp_lifespan :: "(webapp_call \<Rightarrow> call_end) \<Rightarrow> call_end \<times> webapp_call list" where
  "webapp_lifespan ends =
     (case run_calls ends startup_calls of
        (r, called) \<Rightarrow>
          (case close_calls ends (closing_calls ends called) of
             (completed, ended) \<Rightarrow> (if completed then r else Cancelled_C, called @ ended)))"

subsection \<open>The first administrator\<close>

definition require_env :: "(string \<rightharpoonup> string) \<Rightarrow> string \<Rightarrow> py_error + string" where
  "require_env env name =
     (case env name of
        None \<Rightarrow> Inl (RuntimeError (name @ '' must be set to a non-placeholder value''))
      | Some value \<Rightarrow>
          if value = [] \<or> starts_with ''<required'' value \<or> contains_sub ''change_me'' (py_lower value)
          then Inl (RuntimeError (name @ '' must be set to a non-placeholder value'')) else Inr value)"

definition getenv :: "(string \<rightharpoonup> string) \<Rightarrow> string \<Rightarrow> string \<Rightarrow> string" where
  "getenv env name fallback = (case env name of None \<Rightarrow> fallback | Some v \<Rightarrow> v)"

definition seed_host :: "(string \<rightharpoonup> string) \<Rightarrow> (string \<Rightarrow> bool) \<Rightarrow> string" where
  "seed_host env resolves =
     (let host = getenv env ''POSTGRES_HOST'' ''localhost'' in
      if host = ''postgres'' \<and> \<not> resolves host then ''localhost'' else host)"

definition seed_admin_row :: "ident \<Rightarrow> string \<Rightarrow> string \<Rightarrow> time \<Rightarrow> user_row" where
  "seed_admin_row i email pw now = \<lparr>us_id = i, us_email = email, us_phone = None, us_whatsapp = None, us_password = pw,
     us_role = SuperAdmin, us_active = True, us_deleted = False, us_created_by = None, us_created = now\<rparr>"

definition seed_user :: "(string \<Rightarrow> string) \<Rightarrow> time \<Rightarrow> ident \<Rightarrow> string \<Rightarrow> string \<Rightarrow> central_db \<Rightarrow> ident \<times> central_db" where
  "seed_user hash now new_id email password db =
     (case List.find (\<lambda>u. py_lower (us_email u) = py_lower email) (ct_users db) of
        None \<Rightarrow> (new_id, db\<lparr>ct_users := ct_users db @ [seed_admin_row new_id email (hash password) now]\<rparr>)
      | Some u \<Rightarrow> (us_id u, db\<lparr>ct_users := table_update (\<lambda>r. us_id r = us_id u)
                     (\<lambda>r. r\<lparr>us_role := SuperAdmin, us_active := True, us_deleted := False\<rparr>) (ct_users db)\<rparr>))"

definition year :: time where
  "year = 365 * 86400 * 1000000"

definition seed_license :: "(ident \<Rightarrow> time \<Rightarrow> string) \<Rightarrow> time \<Rightarrow> ident \<Rightarrow> ident \<Rightarrow> central_db \<Rightarrow> py_error + central_db" where
  "seed_license license_key now new_license admin db =
     (if list_ex (\<lambda>l. li_user l = admin \<and> li_active l \<and> li_until l > now) (ct_licenses db) then Inr db
      else bindE (guardE (license_key admin (now + year) \<notin> li_key ` set (ct_licenses db)) IntegrityError) (\<lambda>_.
        Inr (db\<lparr>ct_licenses := ct_licenses db @ [\<lparr>li_id = new_license, li_user = admin, li_key = license_key admin (now + year),
          li_features = JObj [(''admin_console'', JBool True), (''desktop_sync'', JBool True)], li_max_cameras = 16,
          li_modules = JList [JStr ''people_counting'', JStr ''intrusion'', JStr ''face_recognition''],
          li_from = now, li_until = now + year, li_active = True, li_created_by = admin, li_created = now\<rparr>]\<rparr>)))"

definition ensure_admin ::
  "(string \<Rightarrow> string) \<Rightarrow> (ident \<Rightarrow> time \<Rightarrow> string) \<Rightarrow> (string \<rightharpoonup> string) \<Rightarrow> (string \<Rightarrow> int option) \<Rightarrow> (string \<Rightarrow> bool) \<Rightarrow>
     (string \<Rightarrow> int \<Rightarrow> bool) \<Rightarrow> time \<Rightarrow> ident \<Rightarrow> ident \<Rightarrow> central_db \<Rightarrow> py_error + central_db" where
  "ensure_admin hash license_key env to_int resolves connects now new_id new_license db =
     bindE (require_env env ''ADMIN_EMAIL'') (\<lambda>e. let email = py_lower (py_strip e) in
     bindE (require_env env ''ADMIN_PASSWORD'') (\<lambda>password.
     bindE (case to_int (getenv env ''POSTGRES_PORT'' ''5432'') of None \<Rightarrow> Inl (ValueError ''port'') | Some p \<Rightarrow> Inr p) (\<lambda>port.
     bindE (require_env env ''POSTGRES_DB'') (\<lambda>_.
     bindE (require_env env ''POSTGRES_USER'') (\<lambda>_.
     bindE (require_env env ''POSTGRES_PASSWORD'') (\<lambda>_.
     bindE (guardE (connects (seed_host env resolves) port) (LibraryError ''OSError'')) (\<lambda>_.
     (case seed_user hash now new_id email password db of
        (admin, db1) \<Rightarrow>
          bindE (seed_license license_key now new_license admin db1) (\<lambda>db2.
          Inr (write_audit admin ''seed_admin'' ''auth.user'' None (JObj [(''email'', JStr email)]) db2))))))))))"

text \<open>The exit code of the script.\<close>

definition seed_main :: "py_error + central_db \<Rightarrow> central_db \<Rightarrow> nat \<times> central_db" where
  "seed_main r db = (case r of Inl e \<Rightarrow> (Suc 0, db) | Inr db1 \<Rightarrow> (0, db1))"

end
