(* ===== verification/Central_Startup_Props.thy ===== *)
theory Central_Startup_Props
  imports Central_Startup
begin

section \<open>Properties of the start of the central service\<close>

text \<open>
  The lifespan closes what it has created, the buckets exist when their creation returns, and the
  seeded account can log in unless its licence is yet to begin.
\<close>

subsection \<open>Settings\<close>

lemma reject_placeholder_Inr: "reject_placeholder v = Inr w \<longleftrightarrow>
    w = v \<and> py_strip v \<noteq> [] \<and> \<not> contains_sub ''change_me'' (py_lower (py_strip v)) \<and> py_lower (py_strip v) \<noteq> ''minioadmin''"
  by (auto simp: reject_placeholder_def Let_def py_lower_def)

lemma accepted_secrets:
  assumes "check_secrets s = Inr s'"
  shows "s' = s" "32 \<le> length (se_jwt_secret s)" "16 \<le> length (se_aes_key s)" "16 \<le> length (se_license_secret s)"
    "se_jwt_algorithm s \<in> {''HS256'', ''HS384'', ''HS512''}"
    "v \<in> {se_postgres_password s, se_redis_url s, se_minio_access_key s, se_minio_secret_key s, se_jwt_secret s,
       se_aes_key s, se_license_secret s} \<Longrightarrow> reject_placeholder v = Inr v"
  using assms by (auto simp: check_secrets_def bindE_eq_Inr min_length_def dest: reject_placeholder_Inr [THEN iffD1])

lemma allowed_origin_clean: "o1 \<in> set (allowed_origins s) \<Longrightarrow> o1 \<noteq> []"
  by (simp add: allowed_origins_def)

subsection \<open>The buckets\<close>

lemma exists_keeps: "bu_buckets (snd (bucket_exists b st)) = bu_buckets st"
  by (simp add: bucket_exists_def Let_def)

lemma make_buckets: "set (bu_buckets (snd (make_bucket b st))) = set (bu_buckets st) \<union> (if fst (make_bucket b st) then {b} else {})"
  by (auto simp: make_bucket_def Let_def)

lemma one_attempt_sound:
  "one_attempt bs st = (r, st') \<Longrightarrow> set (bu_buckets st) \<subseteq> set (bu_buckets st') \<and>
     set (bu_buckets st') \<subseteq> set (bu_buckets st) \<union> set bs \<and> (r \<longrightarrow> set bs \<subseteq> set (bu_buckets st'))"
proof (induction bs arbitrary: st)
  case (Cons b bs)
  obtain a st1 where a: "bucket_exists b st = (a, st1)" by (cases "bucket_exists b st")
  have k: "bu_buckets st1 = bu_buckets st" using exists_keeps [of b st] a by simp
  show ?case
  proof (cases a)
    case None
    with Cons.prems a k show ?thesis by auto
  next
    case (Some known)
    show ?thesis
    proof (cases known)
      case True
      then have "b \<in> set (bu_buckets st)" using a Some by (auto simp: bucket_exists_def Let_def split: if_splits)
      with Cons.prems Cons.IH [of st1] a Some True k show ?thesis by auto
    next
      case False
      obtain made st2 where m: "make_bucket b st1 = (made, st2)" by (cases "make_bucket b st1")
      then have s: "set (bu_buckets st2) = set (bu_buckets st) \<union> (if made then {b} else {})"
        using make_buckets [of b st1] k by simp
      show ?thesis
      proof (cases made)
        case True
        with Cons.prems Cons.IH [of st2] a Some False m s show ?thesis by auto
      next
        case no: False
        with Cons.prems a Some False m s show ?thesis by auto
      qed
    qed
  qed
qed auto

lemma bucket_attempts_sound:
  "bucket_attempts n k bs st = (r, delays, st') \<Longrightarrow>
     (r \<longrightarrow> set bs \<subseteq> set (bu_buckets st')) \<and> set (bu_buckets st) \<subseteq> set (bu_buckets st') \<and>
     length delays \<le> n - 1 \<and> (\<not> r \<longrightarrow> length delays = n - 1) \<and> (\<forall>d \<in> set delays. d \<le> 10)"
proof (induction n arbitrary: k st r delays st')
  case (Suc n)
  obtain a st1 where a: "one_attempt bs st = (a, st1)" by (cases "one_attempt bs st")
  note s = one_attempt_sound [OF a]
  show ?case
  proof (cases a)
    case True
    with Suc.prems a s show ?thesis by auto
  next
    case False
    obtain r1 ds st2 where b: "bucket_attempts n (Suc k) bs st1 = (r1, ds, st2)" by (cases "bucket_attempts n (Suc k) bs st1")
    note i = Suc.IH [OF b]
    show ?thesis using Suc.prems a False b i s by (cases n) auto
  qed
qed auto

subsection \<open>The lifespan\<close>

lemma close_calls_all: "\<forall>c \<in> set cs. ends c \<noteq> Cancelled_C \<Longrightarrow> close_calls ends cs = (True, cs)"
  by (induction cs) auto

lemma run_calls_result: "run_calls ends cs = (r, t) \<Longrightarrow>
    (r = Returned \<longrightarrow> t = cs) \<and> (r \<noteq> Returned \<longrightarrow> t \<noteq> [] \<and> ends (last t) = r)"
  by (induction cs arbitrary: r t) (auto split: if_splits prod.splits)

lemma run_calls_prefix: "run_calls ends cs = (r, t) \<Longrightarrow> \<exists>rest. cs = t @ rest"
  by (induction cs arbitrary: r t) (auto split: if_splits prod.splits)

lemma webapp_lifespan_closes:
  assumes "\<forall>c \<in> {Stop_Workers, Close_Sockets, Close_File_Service, Close_Redis, Close_Pool}. ends c \<noteq> Cancelled_C"
    and "webapp_lifespan ends = (r, t)"
  shows "count_list t Close_Sockets = 1 \<and>
    count_list t Stop_Workers = (if Start_Workers \<in> set t \<and> ends Start_Workers = Returned then 1 else 0) \<and>
    count_list t Close_File_Service = (if Create_File_Service \<in> set t \<and> ends Create_File_Service = Returned then 1 else 0) \<and>
    count_list t Close_Redis = (if Create_Redis \<in> set t \<and> ends Create_Redis = Returned then 1 else 0) \<and>
    count_list t Close_Pool = (if Create_Pool \<in> set t \<and> ends Create_Pool = Returned then 1 else 0) \<and>
    (r \<noteq> Returned \<longrightarrow> (\<exists>c \<in> set t. ends c = r))"
proof -
  obtain r0 called where c: "run_calls ends startup_calls = (r0, called)" by (cases "run_calls ends startup_calls")
  have closing: "set (closing_calls ends called) \<subseteq> {Stop_Workers, Close_Sockets, Close_File_Service, Close_Redis, Close_Pool}"
    by (auto simp: closing_calls_def Let_def)
  then have "close_calls ends (closing_calls ends called) = (True, closing_calls ends called)"
    using assms(1) by (intro close_calls_all) blast
  then have t: "t = called @ closing_calls ends called" "r = r0" using assms(2) c by (simp_all add: webapp_lifespan_def)
  have pre: "set called \<subseteq> set startup_calls" by (metis run_calls_prefix [OF c] set_append sup_ge1)
  have notin: "count_list called x = 0" if "x \<in> {Stop_Workers, Close_Sockets, Close_File_Service, Close_Redis, Close_Pool}" for x
    using pre that by (auto simp: count_list_0_iff startup_calls_def)
  have other: "x \<in> set t \<longleftrightarrow> x \<in> set called" if "x \<in> {Start_Workers, Create_File_Service, Create_Redis, Create_Pool}" for x
    using closing that by (auto simp: t)
  have "r \<noteq> Returned \<longrightarrow> (\<exists>c \<in> set t. ends c = r)" using run_calls_result [OF c] t by (metis Un_iff last_in_set set_append)
  then show ?thesis
    unfolding other [of Start_Workers, simplified] other [of Create_File_Service, simplified]
      other [of Create_Redis, simplified] other [of Create_Pool, simplified]
    by (simp add: t(1) notin) (simp add: closing_calls_def Let_def)
qed


subsection \<open>The first administrator\<close>

lemma seed_user_row:
  assumes "seed_user hash now new_id email password db = (admin, db1)"
  shows "\<exists>u \<in> set (ct_users db1). us_id u = admin \<and> py_lower (us_email u) = py_lower email \<and> us_role u = SuperAdmin \<and>
      us_active u \<and> \<not> us_deleted u"
    "ct_licenses db1 = ct_licenses db"
proof -
  have "(\<exists>u \<in> set (ct_users db1). us_id u = admin \<and> py_lower (us_email u) = py_lower email \<and> us_role u = SuperAdmin \<and>
      us_active u \<and> \<not> us_deleted u) \<and> ct_licenses db1 = ct_licenses db"
  proof (cases "List.find (\<lambda>u. py_lower (us_email u) = py_lower email) (ct_users db)")
    case None
    with assms have "admin = new_id" "db1 = db\<lparr>ct_users := ct_users db @ [seed_admin_row new_id email (hash password) now]\<rparr>"
      by (auto simp: seed_user_def)
    then show ?thesis by (simp add: seed_admin_row_def)
  next
    case (Some u)
    then have u: "u \<in> set (ct_users db)" "py_lower (us_email u) = py_lower email"
      by (auto simp: find_Some_iff)
    let ?f = "\<lambda>r. r\<lparr>us_role := SuperAdmin, us_active := True, us_deleted := False\<rparr>"
    have "(us_id u, db\<lparr>ct_users := table_update (\<lambda>r. us_id r = us_id u) ?f (ct_users db)\<rparr>) = (admin, db1)"
      using assms unfolding seed_user_def Some by (simp only: option.case)
    then have e: "us_id u = admin" "db\<lparr>ct_users := table_update (\<lambda>r. us_id r = us_id u) ?f (ct_users db)\<rparr> = db1"
      by (blast dest: prod.inject [THEN iffD1])+
    have "?f u \<in> set (ct_users db1)"
      unfolding e(2) [symmetric] by (simp add: in_table_update) (rule bexI [OF _ u(1)], simp)
    moreover have "ct_licenses db1 = ct_licenses db" unfolding e(2) [symmetric] by simp
    ultimately show ?thesis using u(2) e(1) by (intro conjI bexI [of _ "?f u"]) simp_all
  qed
  then show "\<exists>u \<in> set (ct_users db1). us_id u = admin \<and> py_lower (us_email u) = py_lower email \<and> us_role u = SuperAdmin \<and>
      us_active u \<and> \<not> us_deleted u" "ct_licenses db1 = ct_licenses db" by blast+
qed


lemma seed_license_row:
  assumes "seed_license key now new_license admin db = Inr db2"
  shows "ct_users db2 = ct_users db" "set (ct_licenses db) \<subseteq> set (ct_licenses db2)"
    "\<exists>l \<in> set (ct_licenses db2). li_user l = admin \<and> li_active l \<and> li_until l > now \<and> (l \<in> set (ct_licenses db) \<or> li_from l \<le> now)"
  using assms by (auto simp: seed_license_def list_ex_iff bindE_eq_Inr year_def split: if_splits)

text \<open>
  The seeded account is the operational super-administrator, provided that no active licence of the
  account with that address is yet to begin.
\<close>

lemma seeded_admin_operational:
  assumes "ensure_admin hash key env to_int resolves connects now new_id new_license db = Inr db'"
    and "env ''ADMIN_EMAIL'' = Some e"
    and "\<forall>l \<in> set (ct_licenses db). li_active l \<longrightarrow> now < li_until l \<longrightarrow> li_from l \<le> now"
  shows "\<exists>u \<in> set (ct_users db'). py_lower (us_email u) = py_lower (py_lower (py_strip e)) \<and> operational now db' u"
proof -
  obtain password where
    "bindE (seed_license key now new_license (fst (seed_user hash now new_id (py_lower (py_strip e)) password db))
        (snd (seed_user hash now new_id (py_lower (py_strip e)) password db)))
      (\<lambda>db2. Inr (write_audit (fst (seed_user hash now new_id (py_lower (py_strip e)) password db)) ''seed_admin'' ''auth.user'' None
         (JObj [(''email'', JStr (py_lower (py_strip e)))]) db2)) = Inr db'"
    using assms(1,2)
    by (auto simp: ensure_admin_def require_env_def bindE_eq_Inr Let_def prod.case_eq_if split: if_splits option.splits)
  then obtain admin db1 db2 where
    u: "seed_user hash now new_id (py_lower (py_strip e)) password db = (admin, db1)" and
    l: "seed_license key now new_license admin db1 = Inr db2" and
    r: "db' = write_audit admin ''seed_admin'' ''auth.user'' None (JObj [(''email'', JStr (py_lower (py_strip e)))]) db2"
    by (auto simp: bindE_eq_Inr prod_eq_iff intro: prod.exhaust)
  obtain l0 where l0: "l0 \<in> set (ct_licenses db2)" "li_user l0 = admin" "li_active l0" "now < li_until l0"
    "l0 \<in> set (ct_licenses db1) \<or> li_from l0 \<le> now" using seed_license_row(3) [OF l] by blast
  have "li_from l0 \<le> now" using l0 assms(3) seed_user_row(2) [OF u] by auto
  with l0 have "licensed_now now db2 admin" by (auto simp: licensed_now_def list_ex_iff license_current_def)
  moreover obtain v where "v \<in> set (ct_users db1)" "us_id v = admin" "py_lower (us_email v) = py_lower (py_lower (py_strip e))"
    "us_role v = SuperAdmin" "us_active v" "\<not> us_deleted v" using seed_user_row(1) [OF u] by blast
  ultimately show ?thesis using seed_license_row(1) [OF l]
    by (intro bexI [of _ v]) (simp_all add: r write_audit_def operational_def licensed_now_def)
qed

text \<open>
  With such a licence the script reports success and the account cannot be used: the licence it looks
  for need not have begun, while every check of a session asks for one that has.
\<close>

definition unready_central :: central_db where
  "unready_central = example_central\<lparr>ct_users := [example_user ''s'' SuperAdmin],
     ct_licenses := [example_license\<lparr>li_from := 50\<rparr>]\<rparr>"

definition seed_env :: "string \<rightharpoonup> string" where
  "seed_env = map_of [(''ADMIN_EMAIL'', ''s@x.org''), (''ADMIN_PASSWORD'', ''pw''), (''POSTGRES_DB'', ''rsap''),
     (''POSTGRES_USER'', ''u''), (''POSTGRES_PASSWORD'', ''p'')]"

lemma seed_trusts_future_license:
  "case ensure_admin id (\<lambda>i t. i) seed_env (\<lambda>s. Some 5432) (\<lambda>h. True) (\<lambda>h p. True) 5 ''n'' ''m'' unready_central of
     Inl e \<Rightarrow> False | Inr db \<Rightarrow> \<not> list_ex (operational 5 db) (ct_users db)"
  by code_simp

end
