(* ===== verification/Edge_Api.thy ===== *)
theory Edge_Api
  imports Edge_Sync Orch_Adapters Central_Admin
begin

section \<open>The HTTP interface of the desktop backend\<close>

text \<open>
  \<open>app/dependencies.py\<close>, \<open>app/routers\<close>, the request bodies of \<open>app/schemas.py\<close> and the exception handlers
  of \<open>app/responses.py\<close>: how a request is authenticated, its body checked, the service called, and an
  exception turned into a status and a code. An answer \<open>Inl (HttpError status code)\<close> is the error
  envelope. The dependencies of a route run before its body is checked. FastAPI has parsed the types of
  the fields already; absent identities and times have been filled in. For a refused body the second
  component names the field.
\<close>

subsection \<open>Request bodies\<close>

definition stream_kind :: "string \<Rightarrow> http_error + string" where
  "stream_kind s = bindE (guardE (s \<in> {''rtsp'', ''webcam'', ''nvr''}) (HttpError 422 ''stream_type'')) (\<lambda>u. Inr s)"

definition check_edge_camera :: "camera_create \<Rightarrow> http_error + camera_create" where
  "check_edge_camera p =
     bindE (text_field ''name'' 1 255 (cc_name p)) (\<lambda>name.
     bindE (text_field ''stream_url'' 1 4096 (cc_url p)) (\<lambda>url.
     bindE (stream_kind (cc_stream_type p)) (\<lambda>kind.
     bindE (optional_text ''location_label'' 255 (cc_location p)) (\<lambda>location.
     Inr (p\<lparr>cc_name := name, cc_url := url, cc_location := location\<rparr>)))))"

definition check_edge_update :: "camera_update \<Rightarrow> http_error + camera_update" where
  "check_edge_update p =
     bindE (opt_field (text_field ''name'' 1 255) (cu_name p)) (\<lambda>name.
     bindE (opt_field (text_field ''stream_url'' 1 4096) (cu_url p)) (\<lambda>url.
     bindE (opt_field stream_kind (cu_stream_type p)) (\<lambda>kind.
     bindE (opt_field (optional_text ''location_label'' 255) (cu_location p)) (\<lambda>location.
     bindE (guardE (cu_name p \<noteq> None \<or> cu_url p \<noteq> None \<or> cu_stream_type p \<noteq> None \<or> cu_location p \<noteq> None \<or>
        cu_analytics p \<noteq> None \<or> cu_zones p \<noteq> None \<or> cu_active p \<noteq> None)
        (HttpError 422 ''at least one field is required'')) (\<lambda>u.
     Inr (p\<lparr>cu_name := name, cu_url := url, cu_location := location\<rparr>))))))"

definition check_edge_event :: "event_row \<Rightarrow> http_error + event_row" where
  "check_edge_event e =
     bindE (text_field ''event_type'' 1 50 (ev_type e)) (\<lambda>t.
     bindE (guardE (is_dict (ev_payload e)) (HttpError 422 ''payload'')) (\<lambda>u.
     bindE (optional_text ''captured_image_path'' 4096 (ev_image_path e)) (\<lambda>path.
     Inr (e\<lparr>ev_type := t, ev_image_path := path\<rparr>))))"

definition check_edge_alert :: "alert_row \<Rightarrow> http_error + alert_row" where
  "check_edge_alert a =
     bindE (optional_text ''zone_id'' 255 (al_zone a)) (\<lambda>z.
     bindE (optional_text ''image_path'' 4096 (al_image_path a)) (\<lambda>path.
     bindE (guardE (0 \<le> al_confidence a \<and> al_confidence a \<le> 1) (HttpError 422 ''confidence'')) (\<lambda>u.
     Inr (a\<lparr>al_zone := z, al_image_path := path\<rparr>))))"

definition check_edge_count :: "count_row \<Rightarrow> http_error + count_row" where
  "check_edge_count n =
     bindE (guardE (0 \<le> cn_in n \<and> cn_in n \<le> 2147483647 \<and> 0 \<le> cn_out n \<and> cn_out n \<le> 2147483647)
       (HttpError 422 ''count'')) (\<lambda>u. Inr n)"

definition check_paging :: "int \<Rightarrow> int \<Rightarrow> http_error + nat \<times> nat" where
  "check_paging limit off =
     bindE (guardE (1 \<le> limit \<and> limit \<le> 500 \<and> 0 \<le> off) (HttpError 422 ''validation_error'')) (\<lambda>u. Inr (nat limit, nat off))"

subsection \<open>Exceptions\<close>

text \<open>\<open>PermanentContractError\<close> is the subclass of \<open>ValueError\<close> that \<open>require_central_image_id\<close> raises.\<close>

fun python_response :: "py_error \<Rightarrow> http_error" where
  "python_response (ValueError m) =
     (if m = ''capture file has no central file identifier'' then HttpError 422 ''contract_error''
      else HttpError 500 ''internal_error'')"
| "python_response _ = HttpError 500 ''internal_error''"

fun service_response :: "service_error \<Rightarrow> http_error" where
  "service_response (AuthorizationError m) = HttpError 403 ''forbidden''"
| "service_response (AuthenticationError m) = HttpError 500 ''internal_error''"
| "service_response (ConflictError m) = HttpError 409 ''conflict''"
| "service_response (ExternalError e) = HttpError (nat (ee_status e)) (ee_code e)"
| "service_response (PermanentContract m) = HttpError 422 ''contract_error''"
| "service_response (PyError e) = python_response e"

definition answered :: "service_error + 'a \<Rightarrow> http_error + 'a" where
  "answered r = (case r of Inl e \<Rightarrow> Inl (service_response e) | Inr x \<Rightarrow> Inr x)"

text \<open>\<open>_operation_error\<close> of the orchestration router.\<close>

definition operation_error :: "failure_category \<Rightarrow> http_error" where
  "operation_error c = (if c \<in> {CAPACITY, CONFIGURATION, SHUTDOWN} then HttpError 409 ''http_409'' else HttpError 500 ''http_500'')"

subsection \<open>Authentication\<close>

record edge_credentials =
  ec_bearer :: "(string \<times> string) option" \<comment> \<open>scheme and token\<close>
  ec_session :: "string option"

definition current_session :: "edge_db \<Rightarrow> time \<Rightarrow> edge_credentials \<Rightarrow> edge_db \<times> (http_error + local_session)" where
  "current_session db now c =
     (case ec_bearer c of
        None \<Rightarrow> (db, Inl (HttpError 401 ''http_401''))
      | Some (scheme, token) \<Rightarrow>
          if py_lower scheme \<noteq> ''bearer'' \<or> or_else (ec_session c) [] = []
          then (db, Inl (HttpError 401 ''http_401''))
          else (case authenticate db now token (or_else (ec_session c) []) of
                  (db1, Inl (AuthenticationError m)) \<Rightarrow> (db1, Inl (HttpError 401 ''http_401''))
                | (db1, Inl e) \<Rightarrow> (db1, Inl (service_response e))
                | (db1, Inr s) \<Rightarrow> (db1, Inr s)))"

subsection \<open>The routes\<close>

datatype edge_call =
    CreateEdgeCamera ident camera_create
  | ListEdgeCameras int int
  | GetEdgeCamera ident
  | UpdateEdgeCamera ident camera_update
  | DeleteEdgeCamera ident
  | ListEdgeEvents int int
  | RecordEvent event_row
  | RecordAlert alert_row
  | RecordCount count_row
  | ListPeople int int
  | SyncStatus
  | DeadLetters int int
  | RetryDeadLetter ident
  | DiscardDeadLetter ident
  | OwnProfile

datatype edge_answer =
    AnCamera camera_row
  | AnCameras "camera_row list" nat
  | AnEvents "event_row list" nat
  | AnPeople "person_row list" nat
  | AnRecord json
  | AnStatus nat nat
  | AnDead "json sync_row list" nat
  | AnDone ident
  | AnProfile json

record edge_env =
  en_parse :: "string \<Rightarrow> parsed_time option"
  en_render :: "json \<Rightarrow> string"
  en_stamp :: "time \<Rightarrow> string"
  en_now :: time
  en_uuid :: ident \<comment> \<open>drawn for the queue row\<close>
  en_max_attempts :: int

definition as_caller :: "edge_env \<Rightarrow> local_session \<Rightarrow> caller" where
  "as_caller env s = \<lparr>ca_parse = en_parse env, ca_render = en_render env, ca_session = s, ca_now = en_now env\<rparr>"

definition not_found_error :: http_error where
  "not_found_error = HttpError 404 ''http_404''"

text \<open>\<open>Inl\<close> is an exception, after which the transaction is rolled back; a 404 is decided by the route after
  its service has returned.\<close>

type_synonym route_result = "http_error + (http_error + edge_answer) \<times> edge_db"

definition create_camera_route :: "edge_env \<Rightarrow> local_session \<Rightarrow> ident \<Rightarrow> camera_create \<Rightarrow> edge_db \<Rightarrow> route_result" where
  "create_camera_route env s i p db =
     bindE (check_edge_camera p) (\<lambda>p.
     bindE (answered (camera_service_create (as_caller env s) db i (en_uuid env) p (en_max_attempts env))) (\<lambda>(db1, row).
     Inr (Inr (AnCamera row), db1)))"

definition list_cameras_route :: "edge_env \<Rightarrow> local_session \<Rightarrow> int \<Rightarrow> int \<Rightarrow> edge_db \<Rightarrow> route_result" where
  "list_cameras_route env s limit off db =
     bindE (check_paging limit off) (\<lambda>(n, k).
     bindE (answered (camera_service_list (as_caller env s) db n k)) (\<lambda>(rows, n_all). Inr (Inr (AnCameras rows n_all), db)))"

definition get_camera_route :: "edge_env \<Rightarrow> local_session \<Rightarrow> ident \<Rightarrow> edge_db \<Rightarrow> route_result" where
  "get_camera_route env s i db =
     bindE (answered (camera_service_get (as_caller env s) db i)) (\<lambda>r.
     (case r of None \<Rightarrow> Inr (Inl not_found_error, db) | Some row \<Rightarrow> Inr (Inr (AnCamera row), db)))"

definition update_camera_route :: "edge_env \<Rightarrow> local_session \<Rightarrow> ident \<Rightarrow> camera_update \<Rightarrow> edge_db \<Rightarrow> route_result" where
  "update_camera_route env s i p db =
     bindE (check_edge_update p) (\<lambda>p.
     bindE (answered (camera_service_update (as_caller env s) db i (en_uuid env) p (en_max_attempts env))) (\<lambda>(db1, r).
     (case r of None \<Rightarrow> Inr (Inl not_found_error, db1) | Some row \<Rightarrow> Inr (Inr (AnCamera row), db1))))"

definition delete_camera_route :: "edge_env \<Rightarrow> local_session \<Rightarrow> ident \<Rightarrow> edge_db \<Rightarrow> route_result" where
  "delete_camera_route env s i db =
     bindE (answered (camera_service_delete (as_caller env s) db i (en_uuid env) (en_max_attempts env))) (\<lambda>(db1, deleted).
     Inr (if deleted then Inr (AnDone i) else Inl not_found_error, db1))"

definition list_events_route :: "edge_env \<Rightarrow> local_session \<Rightarrow> int \<Rightarrow> int \<Rightarrow> edge_db \<Rightarrow> route_result" where
  "list_events_route env s limit off db =
     bindE (check_paging limit off) (\<lambda>(n, k).
     bindE (answered (analytics_list (as_caller env s) db n k)) (\<lambda>(rows, n_all). Inr (Inr (AnEvents rows n_all), db)))"

definition record_event_route :: "edge_env \<Rightarrow> local_session \<Rightarrow> event_row \<Rightarrow> edge_db \<Rightarrow> route_result" where
  "record_event_route env s e db =
     bindE (check_edge_event e) (\<lambda>e.
     bindE (answered (analytics_event (en_stamp env) (as_caller env s) db (en_uuid env) e (en_max_attempts env))) (\<lambda>(db1, j).
     Inr (Inr (AnRecord j), db1)))"

definition record_alert_route :: "edge_env \<Rightarrow> local_session \<Rightarrow> alert_row \<Rightarrow> edge_db \<Rightarrow> route_result" where
  "record_alert_route env s a db =
     bindE (check_edge_alert a) (\<lambda>a.
     bindE (answered (analytics_alert (en_stamp env) (as_caller env s) db (en_uuid env) a (en_max_attempts env))) (\<lambda>(db1, j).
     Inr (Inr (AnRecord j), db1)))"

definition record_people_count_route :: "edge_env \<Rightarrow> local_session \<Rightarrow> count_row \<Rightarrow> edge_db \<Rightarrow> route_result" where
  "record_people_count_route env s n db =
     bindE (check_edge_count n) (\<lambda>n.
     bindE (answered (analytics_people_count (en_stamp env) (as_caller env s) db (en_uuid env) n (en_max_attempts env))) (\<lambda>(db1, j).
     Inr (Inr (AnRecord j), db1)))"

definition list_people_route :: "edge_env \<Rightarrow> local_session \<Rightarrow> int \<Rightarrow> int \<Rightarrow> edge_db \<Rightarrow> route_result" where
  "list_people_route env s limit off db =
     bindE (check_paging limit off) (\<lambda>(n, k).
     bindE (answered (person_service_list (as_caller env s) db n k)) (\<lambda>(rows, n_all). Inr (Inr (AnPeople rows n_all), db)))"

definition sync_status_route :: "edge_env \<Rightarrow> local_session \<Rightarrow> edge_db \<Rightarrow> route_result" where
  "sync_status_route env s db =
     bindE (answered (allowed (as_caller env s) ''sync.read'')) (\<lambda>u.
     Inr (Inr (AnStatus (queue_count active_states (db_queue db)) (dead_letter_count (db_queue db))), db))"

definition dead_letters_route :: "edge_env \<Rightarrow> local_session \<Rightarrow> int \<Rightarrow> int \<Rightarrow> edge_db \<Rightarrow> route_result" where
  "dead_letters_route env s limit off db =
     bindE (check_paging limit off) (\<lambda>(n, k).
     bindE (answered (allowed (as_caller env s) ''sync.read'')) (\<lambda>u.
     (case list_dead_letters (db_queue db) n k of (rows, n_all) \<Rightarrow> Inr (Inr (AnDead rows n_all), db))))"

definition retry_dead_letter_route :: "edge_env \<Rightarrow> local_session \<Rightarrow> ident \<Rightarrow> edge_db \<Rightarrow> route_result" where
  "retry_dead_letter_route env s i db =
     bindE (answered (allowed (as_caller env s) ''sync.manage'')) (\<lambda>u.
     (case retry_dead_letter (db_queue db) i (en_now env) of (q, ok) \<Rightarrow>
        Inr (if ok then Inr (AnDone i) else Inl not_found_error, db\<lparr>db_queue := q\<rparr>)))"

definition discard_dead_letter_route :: "edge_env \<Rightarrow> local_session \<Rightarrow> ident \<Rightarrow> edge_db \<Rightarrow> route_result" where
  "discard_dead_letter_route env s i db =
     bindE (answered (allowed (as_caller env s) ''sync.manage'')) (\<lambda>u.
     (case discard_dead_letter (db_queue db) i (en_now env) of (q, ok) \<Rightarrow>
        Inr (if ok then Inr (AnDone i) else Inl not_found_error, db\<lparr>db_queue := q\<rparr>)))"

definition me_route :: "edge_env \<Rightarrow> local_session \<Rightarrow> edge_db \<Rightarrow> route_result" where
  "me_route env s db = Inr (Inr (AnProfile (ls_user s)), db)"

fun edge_route :: "edge_env \<Rightarrow> local_session \<Rightarrow> edge_call \<Rightarrow> edge_db \<Rightarrow> route_result" where
  "edge_route env s (CreateEdgeCamera i p) db = create_camera_route env s i p db"
| "edge_route env s (ListEdgeCameras limit off) db = list_cameras_route env s limit off db"
| "edge_route env s (GetEdgeCamera i) db = get_camera_route env s i db"
| "edge_route env s (UpdateEdgeCamera i p) db = update_camera_route env s i p db"
| "edge_route env s (DeleteEdgeCamera i) db = delete_camera_route env s i db"
| "edge_route env s (ListEdgeEvents limit off) db = list_events_route env s limit off db"
| "edge_route env s (RecordEvent e) db = record_event_route env s e db"
| "edge_route env s (RecordAlert a) db = record_alert_route env s a db"
| "edge_route env s (RecordCount n) db = record_people_count_route env s n db"
| "edge_route env s (ListPeople limit off) db = list_people_route env s limit off db"
| "edge_route env s SyncStatus db = sync_status_route env s db"
| "edge_route env s (DeadLetters limit off) db = dead_letters_route env s limit off db"
| "edge_route env s (RetryDeadLetter i) db = retry_dead_letter_route env s i db"
| "edge_route env s (DiscardDeadLetter i) db = discard_dead_letter_route env s i db"
| "edge_route env s OwnProfile db = me_route env s db"

lemmas route_defs = create_camera_route_def list_cameras_route_def get_camera_route_def update_camera_route_def delete_camera_route_def list_events_route_def record_event_route_def record_alert_route_def record_people_count_route_def list_people_route_def sync_status_route_def dead_letters_route_def retry_dead_letter_route_def discard_dead_letter_route_def me_route_def

text \<open>
  The start, restart and stop of a camera up to the call of the camera manager, which has theories of its
  own; an orchestration error of the catalogue is raised outside the \<open>try\<close> of the route.
\<close>

definition start_request ::
  "adapter_env \<Rightarrow> edge_db \<Rightarrow> time \<Rightarrow> time \<Rightarrow> local_session \<Rightarrow> string \<Rightarrow> http_error + cv_config camera_definition" where
  "start_request env db now later s camera =
     bindE (answered (require (ae_parse env) (ae_render env) s now ''camera.update'')) (\<lambda>u.
     (case definition_for env db now later camera s True of
        Inl (ServiceRefused e) \<Rightarrow> Inl (service_response e)
      | Inl (PythonRaised e) \<Rightarrow> Inl (python_response e)
      | Inl (Orchestration e) \<Rightarrow> Inl (HttpError 500 ''internal_error'')
      | Inr None \<Rightarrow> Inl not_found_error
      | Inr (Some d) \<Rightarrow> Inr d))"

definition stop_request ::
  "adapter_env \<Rightarrow> edge_db \<Rightarrow> time \<Rightarrow> local_session \<Rightarrow> ident \<Rightarrow> http_error + ident" where
  "stop_request env db now s camera =
     bindE (answered (require (ae_parse env) (ae_render env) s now ''camera.update'')) (\<lambda>u.
     bindE (answered (has_camera env db now camera s)) (\<lambda>found.
     if found then Inr camera else Inl not_found_error))"

text \<open>
  A request: what the client gets and the database afterwards.
\<close>

definition edge_request :: "edge_env \<Rightarrow> edge_credentials \<Rightarrow> edge_call \<Rightarrow> edge_db \<Rightarrow> (http_error + edge_answer) \<times> edge_db" where
  "edge_request env credentials call db =
     (case current_session db (en_now env) credentials of
        (db1, Inl e) \<Rightarrow> (Inl e, db1)
      | (db1, Inr s) \<Rightarrow>
          (case edge_route env s call db1 of
             Inl e \<Rightarrow> (Inl e, db1)
           | Inr (answer, db2) \<Rightarrow> (answer, db2)))"


subsection \<open>Login, refresh and logout\<close>

text \<open>The replies of the central service are arguments, as they are for \<open>AuthService\<close>.\<close>

definition auth_response :: "nat \<Rightarrow> service_error \<Rightarrow> http_error" where
  "auth_response status e =
     (case e of AuthenticationError m \<Rightarrow> HttpError status (if status = 403 then ''http_403'' else ''http_401'')
      | _ \<Rightarrow> service_response e)"

definition login_route ::
  "edge_env \<Rightarrow> string \<Rightarrow> string \<Rightarrow> service_error + local_session \<Rightarrow> service_error + json \<Rightarrow> edge_db
    \<Rightarrow> (http_error + local_session) \<times> edge_db" where
  "login_route env email password login_reply license_reply db =
     (case bindE (text_field ''email'' 3 255 email) (\<lambda>e. bindE (text_field ''password'' 1 1024 password) (\<lambda>p. Inr (e, p))) of
        Inl err \<Rightarrow> (Inl err, db)
      | Inr (e, p) \<Rightarrow>
          (case auth_login (en_parse env) (en_render env) db (en_now env) e p login_reply license_reply of
             (db1, Inl err, calls) \<Rightarrow> (Inl (auth_response 403 err), db1)
           | (db1, Inr s, calls) \<Rightarrow> (Inr s, db1)))"

definition refresh_route ::
  "edge_env \<Rightarrow> string \<Rightarrow> string option \<Rightarrow> ext_error + local_session \<Rightarrow> edge_db \<Rightarrow> (http_error + local_session) \<times> edge_db" where
  "refresh_route env refresh_token session_token reply db =
     (case text_field ''refresh_token'' 1 8192 refresh_token of
        Inl err \<Rightarrow> (Inl err, db)
      | Inr token \<Rightarrow>
          if or_else session_token [] = [] then (Inl (HttpError 401 ''http_401''), db)
          else (case auth_refresh db (en_now env) token (or_else session_token []) reply of
                  (db1, Inl err) \<Rightarrow> (Inl (auth_response 401 err), db1)
                | (db1, Inr s) \<Rightarrow> (Inr s, db1)))"

definition logout_route ::
  "edge_env \<Rightarrow> edge_credentials \<Rightarrow> time \<Rightarrow> ident \<Rightarrow> int \<Rightarrow> ext_error option \<Rightarrow> edge_db \<Rightarrow> (http_error + logout_result) \<times> edge_db" where
  "logout_route env credentials later claim_token lease_seconds reply db =
     (case current_session db (en_now env) credentials of
        (db1, Inl err) \<Rightarrow> (Inl err, db1)
      | (db1, Inr s) \<Rightarrow>
          (case auth_logout db1 (en_now env) later (en_uuid env) claim_token (en_max_attempts env) lease_seconds reply of
             (db2, r) \<Rightarrow> (answered r, db2)))"

end
