(* ===== verification/Edge_Api_Props.thy ===== *)
theory Edge_Api_Props
  imports Edge_Api
begin

section \<open>Properties of the HTTP interface of the desktop backend\<close>

text \<open>
  No request reaches a service unless the bearer and the session token are those of the stored session, no
  answer is given without the permission of its route, and an error never leaves a partial change.
\<close>

text \<open>The permission each route asks for.\<close>

fun call_permission :: "edge_call \<Rightarrow> string option" where
  "call_permission (CreateEdgeCamera i p) = Some ''camera.create''"
| "call_permission (ListEdgeCameras n k) = Some ''camera.read''"
| "call_permission (GetEdgeCamera i) = Some ''camera.read''"
| "call_permission (UpdateEdgeCamera i p) = Some ''camera.update''"
| "call_permission (DeleteEdgeCamera i) = Some ''camera.delete''"
| "call_permission (ListEdgeEvents n k) = Some ''analytics.read''"
| "call_permission (RecordEvent e) = Some ''analytics.write''"
| "call_permission (RecordAlert a) = Some ''analytics.write''"
| "call_permission (RecordCount n) = Some ''analytics.write''"
| "call_permission (ListPeople n k) = Some ''persons.read''"
| "call_permission SyncStatus = Some ''sync.read''"
| "call_permission (DeadLetters n k) = Some ''sync.read''"
| "call_permission (RetryDeadLetter i) = Some ''sync.manage''"
| "call_permission (DiscardDeadLetter i) = Some ''sync.manage''"
| "call_permission OwnProfile = None"

lemma answered_Inr [simp]: "answered r = Inr x \<longleftrightarrow> r = Inr x"
  by (cases r) (simp_all add: answered_def)

lemma update_where_nothing:
  "length (filter P q) \<noteq> 1 \<Longrightarrow> distinct (map sq_id q) \<Longrightarrow> (\<And>r. P r \<Longrightarrow> sq_id r = i) \<Longrightarrow> update_where P f q = q"
proof -
  assume l: "length (filter P q) \<noteq> 1" and d: "distinct (map sq_id q)" and i: "\<And>r. P r \<Longrightarrow> sq_id r = i"
  have "filter P q = []"
  proof (rule ccontr)
    assume "filter P q \<noteq> []"
    then obtain a as where f: "filter P q = a # as" by (cases "filter P q") auto
    with l obtain b bs where "as = b # bs" by (cases as) auto
    with f have "a \<in> set (filter P q)" "b \<in> set (filter P q)" by simp_all
    then have "P a" "P b" by simp_all
    moreover have "sq_id a \<noteq> sq_id b" using distinct_map_filter [OF d, of P] f \<open>as = b # bs\<close> by simp
    ultimately show False using i by metis
  qed
  then show "update_where P f q = q" by (induction q) (auto simp: update_where_def split: if_splits)
qed

lemma camera_not_updated: "camera_update_op db now i u p n = (db', None) \<Longrightarrow> db' = db"
  by (auto simp: camera_update_op_def Let_def split: option.splits)

lemma camera_not_deleted: "camera_delete_op db now i u n = (db', False) \<Longrightarrow> db' = db"
  by (auto simp: camera_delete_op_def Let_def split: option.splits)

lemma route_keeps:
  assumes "edge_route env s call db = Inr (Inl e, db')" "distinct (map sq_id (db_queue db))"
  shows "db' = db"
proof (cases call)
  case (RetryDeadLetter i)
  with assms have l: "length (filter (dead_with_id i) (db_queue db)) \<noteq> 1"
    and d: "db' = db\<lparr>db_queue := update_where (dead_with_id i) (revive_row (en_now env)) (db_queue db)\<rparr>"
    by (auto simp: bindE_eq_Inr route_defs retry_dead_letter_def split: if_splits)
  show ?thesis unfolding d update_where_nothing [OF l assms(2), of i, unfolded dead_with_id_def, simplified, folded dead_with_id_def]
    by simp
next
  case (DiscardDeadLetter i)
  with assms have l: "length (filter (dead_with_id i) (db_queue db)) \<noteq> 1"
    and d: "\<exists>f. db' = db\<lparr>db_queue := update_where (dead_with_id i) f (db_queue db)\<rparr>"
    by (auto simp: bindE_eq_Inr route_defs discard_dead_letter_def split: if_splits)
  have "update_where (dead_with_id i) f (db_queue db) = db_queue db" for f
    by (rule update_where_nothing [OF l assms(2)]) (simp add: dead_with_id_def)
  with d show ?thesis by auto
qed (use assms in \<open>auto simp: bindE_eq_Inr route_defs camera_service_update_def camera_service_delete_def
    dest: camera_not_updated camera_not_deleted split: option.splits if_splits prod.splits\<close>)

lemma route_allowed:
  assumes "edge_route env s call db = Inr (r, db')" "call_permission call = Some permission"
  shows "require (en_parse env) (en_render env) s (en_now env) permission = Inr ()"
  using assms
  by (cases call) (auto simp: bindE_eq_Inr route_defs camera_service_create_def camera_service_list_def camera_service_get_def
    camera_service_update_def camera_service_delete_def analytics_list_def analytics_event_def analytics_alert_def
    analytics_people_count_def may_record_def person_service_list_def allowed_def as_caller_def)


subsection \<open>Who is admitted\<close>

text \<open>
  What a caller must present, against the row that is stored: the tokens of an active session, in ASCII,
  while the licence and the access token last. A stored session whose licence has lapsed is cleared by
  whoever presents any two tokens.
\<close>

definition tokens_given :: "edge_credentials \<Rightarrow> bool" where
  "tokens_given c \<longleftrightarrow> (\<exists>scheme token. ec_bearer c = Some (scheme, token) \<and> py_lower scheme = ''bearer'')
     \<and> or_else (ec_session c) [] \<noteq> []"

definition lapsed :: "edge_db \<Rightarrow> time \<Rightarrow> bool" where
  "lapsed db now \<longleftrightarrow> (\<exists>row. db_session db = Some row \<and> ss_status row = ActiveSession
     \<and> (license_unusable (ss_session row) \<or> expired_at (ss_license_until row) now))"

definition admitted :: "edge_db \<Rightarrow> time \<Rightarrow> edge_credentials \<Rightarrow> local_session \<Rightarrow> bool" where
  "admitted db now c s \<longleftrightarrow> (\<exists>row scheme. db_session db = Some row \<and> ss_session row = s \<and> ss_status row = ActiveSession
     \<and> \<not> lapsed db now \<and> now < ls_access_expires s
     \<and> ec_bearer c = Some (scheme, ls_access_token s) \<and> py_lower scheme = ''bearer''
     \<and> ec_session c = Some (ls_session_token s) \<and> ls_session_token s \<noteq> []
     \<and> ascii (ls_access_token s) \<and> ascii (ls_session_token s))"

definition foreign_text :: "edge_db \<Rightarrow> edge_credentials \<Rightarrow> bool" where
  "foreign_text db c \<longleftrightarrow> (\<exists>row scheme token. db_session db = Some row \<and> ec_bearer c = Some (scheme, token)
     \<and> (\<exists>t \<in> {ls_access_token (ss_session row), token, ls_session_token (ss_session row), or_else (ec_session c) []}. \<not> ascii t))"

definition refused :: "edge_db \<Rightarrow> edge_credentials \<Rightarrow> http_error \<Rightarrow> bool" where
  "refused db c e \<longleftrightarrow> e = HttpError 401 ''http_401'' \<or> (e = HttpError 500 ''internal_error'' \<and> foreign_text db c)"

definition after_refusal :: "edge_db \<Rightarrow> time \<Rightarrow> edge_credentials \<Rightarrow> edge_db" where
  "after_refusal db now c = (if tokens_given c \<and> lapsed db now then db\<lparr>db_session := None\<rparr> else db)"

lemma check_digest_Inl:
  "check_digest m a b = Inl e \<longleftrightarrow>
     (ascii a \<and> ascii b \<and> a \<noteq> b \<and> e = AuthenticationError m)
     \<or> (\<not> (ascii a \<and> ascii b) \<and> e = PyError (LibraryError ''TypeError''))"
  by (auto simp: check_digest_def compare_digest_def guardE_def)

lemma authenticate_cases:
  assumes a: "authenticate db now token st = (db1, r)" and g: "ec_bearer c = Some (scheme, token)" "py_lower scheme = ''bearer''"
    "or_else (ec_session c) [] = st" "st \<noteq> []"
  shows "(\<exists>s. r = Inr s \<and> admitted db now c s \<and> db1 = db) \<or>
    (\<forall>s. \<not> admitted db now c s) \<and> db1 = after_refusal db now c \<and>
      ((\<exists>m. r = Inl (AuthenticationError m)) \<or> (r = Inl (PyError (LibraryError ''TypeError'')) \<and> foreign_text db c))"
proof (cases "db_session db")
  case None
  with a show ?thesis by (auto simp: authenticate_def session_get_record_def admitted_def after_refusal_def lapsed_def)
next
  case (Some row)
  have given: "tokens_given c" using g by (auto simp: tokens_given_def)
  have e: "ec_session c = Some st" using g(3,4) by (cases "ec_session c") (auto simp: or_else_def)
  have clear: "fst (session_clear db (Some (ss_generation row))) = db\<lparr>db_session := None\<rparr>"
    using Some by (simp add: session_clear_def)
  show ?thesis
  proof (cases "ss_status row = ActiveSession \<and> \<not> lapsed db now \<and> now < ls_access_expires (ss_session row)")
    case False
    then have "\<forall>s. \<not> admitted db now c s" using Some by (auto simp: admitted_def)
    moreover have "db1 = after_refusal db now c \<and> (\<exists>m. r = Inl (AuthenticationError m))"
      using a Some False given by (auto simp: authenticate_def session_get_record_def Let_def lapsed_def after_refusal_def
        clear split: if_splits)
    ultimately show ?thesis by blast
  next
    case True
    let ?s = "ss_session row"
    have r: "db1 = db" "r = bindE (check_digest ''Local session token mismatch'' (ls_access_token ?s) token) (\<lambda>u.
        bindE (check_digest ''Local session token mismatch'' (ls_session_token ?s) st) (\<lambda>u. Inr ?s))"
      using a Some True by (auto simp: authenticate_def session_get_record_def Let_def lapsed_def split: if_splits)
    have n: "after_refusal db now c = db" using True by (simp add: after_refusal_def)
    show ?thesis
    proof (cases r)
      case (Inr s)
      then have "s = ?s" "token = ls_access_token ?s" "st = ls_session_token ?s" "ascii token" "ascii st"
        using r(2) by (auto simp: bindE_eq_Inr check_digest_Inr)
      then have "admitted db now c s" using Some True g e by (auto simp: admitted_def)
      with Inr r(1) show ?thesis by simp
    next
      case (Inl x)
      have "\<not> admitted db now c s" for s
      proof
        assume "admitted db now c s"
        then have "s = ?s" "token = ls_access_token ?s" "st = ls_session_token ?s" "ascii token" "ascii st"
          using Some g e by (auto simp: admitted_def)
        then have "r = Inr ?s" using r(2) by (simp add: check_digest_def compare_digest_def guardE_def)
        with Inl show False by simp
      qed
      moreover have "(\<exists>m. x = AuthenticationError m) \<or> (x = PyError (LibraryError ''TypeError'') \<and> foreign_text db c)"
      proof (cases "check_digest ''Local session token mismatch'' (ls_access_token ?s) token")
        case f: (Inl y)
        with r(2) Inl have "x = y" by simp
        with f show ?thesis using Some g(1) by (auto simp: check_digest_Inl foreign_text_def)
      next
        case (Inr u)
        with r(2) Inl have "check_digest ''Local session token mismatch'' (ls_session_token ?s) st = Inl x"
          by (cases "check_digest ''Local session token mismatch'' (ls_session_token ?s) st") auto
        then show ?thesis using Some g(1,3) by (auto simp: check_digest_Inl foreign_text_def)
      qed
      ultimately show ?thesis using Inl r(1) n by auto
    qed
  qed
qed

lemma no_session_no_access:
  assumes "current_session db now c = (db1, r)"
  shows "(\<exists>s. r = Inr s \<and> admitted db now c s \<and> db1 = db) \<or>
    (\<forall>s. \<not> admitted db now c s) \<and> db1 = after_refusal db now c \<and> (\<exists>e. r = Inl e \<and> refused db c e)"
proof (cases "tokens_given c")
  case False
  then have "\<forall>s. \<not> admitted db now c s" by (auto simp: tokens_given_def admitted_def or_else_def)
  moreover have "db1 = db" "r = Inl (HttpError 401 ''http_401'')"
    using assms False by (auto simp: current_session_def tokens_given_def split: option.splits if_splits)
  ultimately show ?thesis using False by (simp add: after_refusal_def refused_def)
next
  case True
  then obtain scheme token where g: "ec_bearer c = Some (scheme, token)" "py_lower scheme = ''bearer''" "or_else (ec_session c) [] \<noteq> []"
    by (auto simp: tokens_given_def)
  obtain db2 a where a: "authenticate db now token (or_else (ec_session c) []) = (db2, a)"
    by (cases "authenticate db now token (or_else (ec_session c) [])")
  have d: "(db1, r) = (case a of Inl (AuthenticationError m) \<Rightarrow> (db2, Inl (HttpError 401 ''http_401''))
      | Inl e \<Rightarrow> (db2, Inl (service_response e)) | Inr s \<Rightarrow> (db2, Inr s))"
    using assms g a by (cases a) (auto simp: current_session_def split: service_error.splits)
  from authenticate_cases [OF a g(1,2) refl g(3)] show ?thesis
  proof
    assume "\<exists>s. a = Inr s \<and> admitted db now c s \<and> db2 = db"
    with d show ?thesis by auto
  next
    assume h: "(\<forall>s. \<not> admitted db now c s) \<and> db2 = after_refusal db now c \<and>
      ((\<exists>m. a = Inl (AuthenticationError m)) \<or> (a = Inl (PyError (LibraryError ''TypeError'')) \<and> foreign_text db c))"
    then have "db1 = after_refusal db now c" "\<exists>e. r = Inl e \<and> refused db c e" using d by (auto simp: refused_def)
    with h show ?thesis by blast
  qed
qed

text \<open>
  C5. A request to the desktop backend that does not carry the bearer and the session token of the stored,
  active, unlapsed session is refused, 401 or 500 when a token is not ASCII, and changes nothing, except
  that a stored session whose licence has lapsed is cleared when tokens were given. One that carries them
  either fails and leaves the database exactly as it was, or is answered with the permission of its route.
\<close>

theorem edge_request_guarded:
  assumes "edge_request env c call db = (r, db')" "distinct (map sq_id (db_queue db))"
  shows "(\<forall>s. \<not> admitted db (en_now env) c s) \<and> db' = after_refusal db (en_now env) c \<and> (\<exists>e. r = Inl e \<and> refused db c e) \<or>
    (\<exists>s. admitted db (en_now env) c s \<and> (isl r \<longrightarrow> db' = db) \<and>
       (\<not> isl r \<longrightarrow> (case call_permission call of None \<Rightarrow> True
          | Some permission \<Rightarrow> require (en_parse env) (en_render env) s (en_now env) permission = Inr ())))"
proof -
  obtain db1 a where a: "current_session db (en_now env) c = (db1, a)" by (cases "current_session db (en_now env) c")
  from no_session_no_access [OF a] show ?thesis
  proof
    assume "\<exists>s. a = Inr s \<and> admitted db (en_now env) c s \<and> db1 = db"
    then obtain s where s: "a = Inr s" "admitted db (en_now env) c s" "db1 = db" by blast
    have "isl r \<longrightarrow> db' = db" "\<not> isl r \<longrightarrow> (case call_permission call of None \<Rightarrow> True
          | Some permission \<Rightarrow> require (en_parse env) (en_render env) s (en_now env) permission = Inr ())"
      using assms(1) a s route_keeps [OF _ assms(2)] route_allowed
      by (auto simp: edge_request_def isl_def split: sum.splits option.splits)
    with s(2) show ?thesis by blast
  next
    assume h: "(\<forall>s. \<not> admitted db (en_now env) c s) \<and> db1 = after_refusal db (en_now env) c \<and> (\<exists>e. a = Inl e \<and> refused db c e)"
    with a assms(1) show ?thesis by (auto simp: edge_request_def)
  qed
qed


text \<open>An administrator registers a camera.\<close>

definition api_session :: local_session where
  "api_session = \<lparr>ls_access_token = ''a'', ls_session_token = ''s'', ls_refresh_token = None, ls_access_expires = 900,
     ls_user = JObj [(''id'', JStr ''u''), (''role'', JStr ''admin'')],
     ls_license = Some (JObj [(''is_active'', JBool True), (''valid_until'', JStr ''t''), (''max_cameras'', JInt 4)])\<rparr>"

definition api_db :: edge_db where
  "api_db = \<lparr>db_session = Some \<lparr>ss_session = api_session, ss_user_id = ''u'', ss_license_until = Some 1000, ss_updated = 0,
     ss_generation = 1, ss_status = ActiveSession, ss_last_error = None\<rparr>, db_cameras = [], db_events = [], db_alerts = [],
     db_counts = [], db_persons = [], db_queue = []\<rparr>"

definition api_env :: edge_env where
  "api_env = \<lparr>en_parse = (\<lambda>s. Some (Aware 1000)), en_render = (\<lambda>v. []), en_stamp = (\<lambda>t. []), en_now = 500, en_uuid = ''q'',
     en_max_attempts = 8\<rparr>"

definition api_tokens :: edge_credentials where
  "api_tokens = \<lparr>ec_bearer = Some (''Bearer'', ''a''), ec_session = Some ''s''\<rparr>"

definition api_call :: edge_call where
  "api_call = CreateEdgeCamera ''c'' \<lparr>cc_name = '' door'', cc_url = ''rtsp://x'', cc_stream_type = ''rtsp'', cc_location = None,
     cc_analytics = JObj [], cc_zones = JList []\<rparr>"

lemma api_answer: "\<not> isl (fst (edge_request api_env api_tokens api_call api_db))"
  by code_simp

theorem edge_request_guarded_witness:
  "require (en_parse api_env) (en_render api_env) api_session (en_now api_env) ''camera.create'' = Inr ()"
proof -
  have "distinct (map sq_id (db_queue api_db))" by (simp add: api_db_def)
  from edge_request_guarded [OF prod.collapse [symmetric] this, of api_env api_tokens api_call] api_answer
  obtain s where "admitted api_db (en_now api_env) api_tokens s"
    "require (en_parse api_env) (en_render api_env) s (en_now api_env) ''camera.create'' = Inr ()"
    by (auto simp: api_call_def)
  then show ?thesis by (auto simp: admitted_def api_db_def)
qed

text \<open>
  Recording an event of a camera that does not exist is an error of the client, and answered 500: the
  repository raises a plain \<open>ValueError\<close>, for which there is no handler.
\<close>

lemma unknown_camera_is_internal_error:
  "fst (edge_request (api_env\<lparr>en_now := 500\<rparr>) api_tokens
     (RecordEvent \<lparr>ev_id = ''e'', ev_camera = ''x'', ev_type = ''motion'', ev_payload = JObj [], ev_image_path = None,
        ev_synced = False, ev_created = 0, ev_image_id = None\<rparr>) api_db)
     = Inl (HttpError 500 ''internal_error'')"
  by code_simp

end
