(* ===== verification/Edge_Config.thy ===== *)
theory Edge_Config
  imports Rsap_Prelude
begin

section \<open>Configuration and field encryption of the desktop backend\<close>

text \<open>
  \<open>app/config.py\<close> and \<open>app/crypto.py\<close> of \<open>apps/desktop-backend\<close>, with what they use of Python's
  \<open>base64\<close> and \<open>urllib.parse\<close>. A byte is a character. AES-GCM is the parameter \<open>aead\<close>; texts are ASCII,
  so that \<open>encode\<close> and \<open>decode\<close> change nothing.
\<close>

subsection \<open>Base 64\<close>

text \<open>The alphabet \<open>A-Za-z0-9-_\<close>.\<close>

definition b64_char :: "nat \<Rightarrow> char" where
  "b64_char n = char_of (if n < 26 then n + 65 else if n < 52 then n + 71 else if n < 62 then n - 4
     else if n = 62 then 45 else 95)"

text \<open>The decoder translates \<open>-_\<close> to \<open>+/\<close>, so that it takes both.\<close>

definition sextet :: "char \<Rightarrow> nat option" where
  "sextet c =
     (let n = (of_char c :: nat) in
      if 65 \<le> n \<and> n \<le> 90 then Some (n - 65)
      else if 97 \<le> n \<and> n \<le> 122 then Some (n - 71)
      else if 48 \<le> n \<and> n \<le> 57 then Some (n + 4)
      else if n = 45 \<or> n = 43 then Some 62
      else if n = 95 \<or> n = 47 then Some 63 else None)"

fun b64_encode :: "nat list \<Rightarrow> string" where
  "b64_encode [] = []"
| "b64_encode [a] = [b64_char (a div 4), b64_char (a mod 4 * 16), CHR ''='', CHR ''='']"
| "b64_encode [a, b] = [b64_char (a div 4), b64_char (a mod 4 * 16 + b div 16), b64_char (b mod 16 * 4), CHR ''='']"
| "b64_encode (a # b # c # rest) =
     [b64_char (a div 4), b64_char (a mod 4 * 16 + b div 16), b64_char (b mod 16 * 4 + c div 64), b64_char (c mod 64)]
     @ b64_encode rest"

text \<open>
  \<open>binascii.a2b_base64\<close>: characters outside the alphabet are skipped, or refused when \<open>strict\<close>; a padding
  that completes a group ends the input, after which \<open>strict\<close> allows nothing. The arguments are the
  position in the group, the bits left, the padding seen, and the bytes so far.
\<close>

fun a2b :: "bool \<Rightarrow> string \<Rightarrow> nat \<Rightarrow> nat \<Rightarrow> nat \<Rightarrow> nat list \<Rightarrow> nat list option" where
  "a2b strict [] quad left pads out = (if quad = 0 then Some (rev out) else None)"
| "a2b strict (c # cs) quad left pads out =
     (if c = CHR ''='' then
        (if 2 \<le> quad \<and> 4 \<le> quad + Suc pads then (if strict \<and> cs \<noteq> [] then None else Some (rev out))
         else a2b strict cs quad left (if 2 \<le> quad then Suc pads else pads) out)
      else (case sextet c of
          None \<Rightarrow> if strict then None else a2b strict cs quad left pads out
        | Some v \<Rightarrow>
            if strict \<and> 0 < pads then None
            else if quad = 0 then a2b strict cs 1 v 0 out
            else if quad = 1 then a2b strict cs 2 (v mod 16) 0 ((left * 4 + v div 16) # out)
            else if quad = 2 then a2b strict cs 3 (v mod 4) 0 ((left * 16 + v div 4) # out)
            else a2b strict cs 0 0 0 ((left * 64 + v) # out)))"

definition bytes_of :: "string \<Rightarrow> nat list" where
  "bytes_of s = map of_char s"

definition text_of :: "nat list \<Rightarrow> string" where
  "text_of bs = map char_of bs"

definition urlsafe_b64encode :: "string \<Rightarrow> string" where
  "urlsafe_b64encode s = b64_encode (bytes_of s)"

definition b64decode :: "bool \<Rightarrow> string \<Rightarrow> string option" where
  "b64decode strict s = map_option text_of (a2b strict s 0 0 0 [])"

subsection \<open>Keys\<close>

definition zero_byte :: char where
  "zero_byte = char_of (0 :: nat)"

definition decode_key :: "string \<Rightarrow> py_error + string" where
  "decode_key raw =
     (case b64decode True (raw @ replicate ((4 - length raw mod 4) mod 4) CHR ''='') of
        None \<Rightarrow> Inl (ValueError ''must be URL-safe base64'')
      | Some decoded \<Rightarrow>
          if length decoded \<noteq> 32 then Inl (ValueError ''must decode to exactly 32 bytes'')
          else if decoded = replicate 32 zero_byte \<or> length (remdups decoded) < 8
          then Inl (ValueError ''is not valid cryptographic key material'')
          else if list_ex (\<lambda>m. contains_sub m (py_lower decoded)) [''change'', ''placeholder'', ''example'', ''default'']
          then Inl (ValueError ''contains placeholder key material'')
          else Inr decoded)"

subsection \<open>Settings\<close>

text \<open>\<open>urlparse\<close>: the scheme, the authority, and whether there is a query or a fragment.\<close>

definition url_clean :: "string \<Rightarrow> string" where
  "url_clean s = filter (\<lambda>c. of_char c \<notin> {9, 10, 13 :: nat}) (dropWhile (\<lambda>c. of_char c \<le> (32 :: nat)) s)"

definition scheme_char :: "char \<Rightarrow> bool" where
  "scheme_char c \<longleftrightarrow> (let n = (of_char (py_lower_char c) :: nat) in
     (97 \<le> n \<and> n \<le> 122) \<or> (48 \<le> n \<and> n \<le> 57) \<or> c \<in> {CHR ''+'', CHR ''-'', CHR ''.''})"

definition url_scheme :: "string \<Rightarrow> string \<times> string" where
  "url_scheme s =
     (let u = takeWhile (\<lambda>c. c \<noteq> CHR '':'') s in
      if length u < length s \<and> u \<noteq> [] \<and> scheme_char (hd u) \<and> hd u \<notin> {CHR ''+'', CHR ''-'', CHR ''.''}
         \<and> \<not> is_digit_char (hd u) \<and> list_all scheme_char u
      then (py_lower u, drop (Suc (length u)) s) else ([], s))"

definition url_authority :: "string \<Rightarrow> string \<times> string" where
  "url_authority rest =
     (if starts_with ''//'' rest
      then (let r = drop 2 rest; n = takeWhile (\<lambda>c. c \<notin> {CHR ''/'', CHR ''?'', CHR ''#''}) r in (n, drop (length n) r))
      else ([], rest))"

text \<open>\<open>username\<close> or \<open>password\<close> is not empty: the text before the last \<open>@\<close> is more than a colon.\<close>

definition has_credentials :: "string \<Rightarrow> bool" where
  "has_credentials netloc \<longleftrightarrow>
     CHR ''@'' \<in> set netloc \<and> (let u = rev (tl (dropWhile (\<lambda>c. c \<noteq> CHR ''@'') (rev netloc))) in u \<noteq> [] \<and> u \<noteq> '':'')"

definition rstrip_slash :: "string \<Rightarrow> string" where
  "rstrip_slash s = rev (dropWhile (\<lambda>c. c = CHR ''/'') (rev s))"

definition validate_central_url :: "string \<Rightarrow> py_error + string" where
  "validate_central_url value =
     (case url_scheme (url_clean value) of (scheme, rest) \<Rightarrow>
      (case url_authority rest of (netloc, path) \<Rightarrow>
         (let fragment = tl (dropWhile (\<lambda>c. c \<noteq> CHR ''#'') path); before = takeWhile (\<lambda>c. c \<noteq> CHR ''#'') path;
              query = tl (dropWhile (\<lambda>c. c \<noteq> CHR ''?'') before) in
          if scheme \<notin> {''http'', ''https''} \<or> netloc = []
          then Inl (ValueError ''central_api_url must be an absolute HTTP(S) URL'')
          else if has_credentials netloc \<or> query \<noteq> [] \<or> fragment \<noteq> []
          then Inl (ValueError ''central_api_url must not contain credentials, query, or fragment'')
          else Inr (rstrip_slash value))))"

record edge_settings =
  st_environment :: string
  st_host :: string
  st_port :: int
  st_data_dir :: string
  st_database_path :: "string option"
  st_driver :: string
  st_database_key :: string
  st_field_key :: string
  st_central_url :: string
  st_request_timeout :: real
  st_connect_timeout :: real
  st_retry_attempts :: int
  st_retry_delay :: real
  st_queue_lease :: int
  st_queue_attempts :: int
  st_succeeded_days :: int
  st_dead_days :: int

definition is_absolute :: "string \<Rightarrow> bool" where
  "is_absolute p \<longleftrightarrow> starts_with ''/'' p"

definition settings_fields :: "edge_settings \<Rightarrow> bool" where
  "settings_fields s \<longleftrightarrow>
     st_environment s \<in> {''development'', ''test'', ''production''} \<and> st_driver s \<in> {''sqlcipher'', ''sqlite-test''} \<and>
     1 \<le> st_port s \<and> st_port s \<le> 65535 \<and> 0 < st_request_timeout s \<and> st_request_timeout s \<le> 60 \<and>
     0 < st_connect_timeout s \<and> st_connect_timeout s \<le> 30 \<and> 1 \<le> st_retry_attempts s \<and> st_retry_attempts s \<le> 5 \<and>
     0 \<le> st_retry_delay s \<and> st_retry_delay s \<le> 5 \<and> 5 \<le> st_queue_lease s \<and> st_queue_lease s \<le> 600 \<and>
     1 \<le> st_queue_attempts s \<and> st_queue_attempts s \<le> 100 \<and> 1 \<le> st_succeeded_days s \<and> st_succeeded_days s \<le> 90 \<and>
     1 \<le> st_dead_days s \<and> st_dead_days s \<le> 365"

text \<open>\<open>validate_security\<close>; a path is joined with \<open>/\<close>.\<close>

definition validate_security :: "edge_settings \<Rightarrow> py_error + edge_settings" where
  "validate_security s =
     bindE (decode_key (st_database_key s)) (\<lambda>database_key.
     bindE (decode_key (st_field_key s)) (\<lambda>field_key.
     bindE (guardE (database_key \<noteq> field_key) (ValueError ''database and field encryption keys must be distinct'')) (\<lambda>_.
     bindE (guardE (\<not> (st_driver s = ''sqlite-test'' \<and> st_environment s \<noteq> ''test''))
       (ValueError ''sqlite-test driver is permitted only in the test environment'')) (\<lambda>_.
     bindE (guardE (\<not> (st_environment s = ''production'' \<and> \<not> starts_with ''https://'' (st_central_url s)))
       (ValueError ''production central_api_url must use HTTPS'')) (\<lambda>_.
     bindE (guardE (is_absolute (st_data_dir s)) (ValueError ''data_dir must be absolute'')) (\<lambda>_.
     (case st_database_path s of
        None \<Rightarrow> Inr (s\<lparr>st_database_path := Some (st_data_dir s @ ''/local.db'')\<rparr>)
      | Some p \<Rightarrow> bindE (guardE (is_absolute p) (ValueError ''database_path must be absolute'')) (\<lambda>_. Inr s))))))))"

definition load_edge_settings :: "edge_settings \<Rightarrow> py_error + edge_settings" where
  "load_edge_settings s =
     bindE (guardE (settings_fields s) (ValueError ''field'')) (\<lambda>_.
     bindE (guardE (st_host s \<in> {''127.0.0.1'', ''localhost'', ''::1''})
       (ValueError ''desktop backend must bind only to loopback'')) (\<lambda>_.
     bindE (validate_central_url (st_central_url s)) (\<lambda>url.
     validate_security (s\<lparr>st_central_url := url\<rparr>))))"

subsection \<open>Field encryption\<close>

text \<open>Key, nonce, data, purpose; decryption fails with \<open>InvalidTag\<close>.\<close>

record aead =
  ad_encrypt :: "string \<Rightarrow> string \<Rightarrow> string \<Rightarrow> string \<Rightarrow> string"
  ad_decrypt :: "string \<Rightarrow> string \<Rightarrow> string \<Rightarrow> string \<Rightarrow> string option"

datatype crypto_error = DecryptionError string

definition cipher_init :: "string \<Rightarrow> py_error + string" where
  "cipher_init key = bindE (guardE (length key = 32) (ValueError ''field encryption key must contain 32 bytes'')) (\<lambda>_. Inr key)"

definition field_encrypt :: "aead \<Rightarrow> string \<Rightarrow> string \<Rightarrow> string \<Rightarrow> string \<Rightarrow> string" where
  "field_encrypt aes key nonce plaintext purpose =
     urlsafe_b64encode (''v1'' @ nonce @ ad_encrypt aes key nonce plaintext purpose)"

definition field_decrypt :: "aead \<Rightarrow> string \<Rightarrow> string \<Rightarrow> string \<Rightarrow> crypto_error + string" where
  "field_decrypt aes key encoded purpose =
     (case b64decode False encoded of
        None \<Rightarrow> Inl (DecryptionError ''encrypted local value could not be authenticated'')
      | Some payload \<Rightarrow>
          if take 2 payload \<noteq> ''v1'' \<or> length payload < 31
          then Inl (DecryptionError ''encrypted local value could not be authenticated'')
          else (case ad_decrypt aes key (take 12 (drop 2 payload)) (drop 14 payload) purpose of
                  None \<Rightarrow> Inl (DecryptionError ''encrypted local value could not be authenticated'')
                | Some t \<Rightarrow> Inr t))"

end
