(* ===== verification/Edge_Config_Props.thy ===== *)
theory Edge_Config_Props
  imports Edge_Config
begin

section \<open>Properties of configuration and field encryption\<close>

text \<open>
  The decoder inverts the encoder, so that an encrypted field is read back under its purpose only, except
  the empty text, which is written and can never be read.
\<close>

subsection \<open>Base 64\<close>

lemma of_b64_char:
  assumes "n < 64"
  shows "of_char (b64_char n) = (if n < 26 then n + 65 else if n < 52 then n + 71 else if n < 62 then n - 4
     else if n = 62 then 45 else 95)"
  using assms by (simp add: b64_char_def)

lemma sextet_b64:
  assumes "n < 64"
  shows "sextet (b64_char n) = Some n" "b64_char n \<noteq> CHR ''=''"
proof -
  show "sextet (b64_char n) = Some n" using assms by (auto simp: sextet_def of_b64_char Let_def)
  have "of_char (b64_char n) \<noteq> (of_char (CHR ''='') :: nat)"
    unfolding of_b64_char [OF assms] using assms by (simp, linarith)
  then show "b64_char n \<noteq> CHR ''=''" by metis
qed

lemma a2b_char:
  "n < 64 \<Longrightarrow> a2b strict (b64_char n # cs) 0 l 0 out = a2b strict cs 1 n 0 out"
  "n < 64 \<Longrightarrow> a2b strict (b64_char n # cs) 1 l 0 out = a2b strict cs 2 (n mod 16) 0 ((l * 4 + n div 16) # out)"
  "n < 64 \<Longrightarrow> a2b strict (b64_char n # cs) 2 l 0 out = a2b strict cs 3 (n mod 4) 0 ((l * 16 + n div 4) # out)"
  "n < 64 \<Longrightarrow> a2b strict (b64_char n # cs) 3 l 0 out = a2b strict cs 0 0 0 ((l * 64 + n) # out)"
  by (simp_all add: sextet_b64 del: One_nat_def)

lemma a2b_pad:
  "a2b strict ''=='' 2 l 0 out = Some (rev out)" "a2b strict ''='' 3 l 0 out = Some (rev out)"
  by simp_all

declare a2b.simps(2) [simp del]

lemma split_number:
  fixes k x y :: nat
  assumes "y < k"
  shows "(x * k + y) div k = x" "(x * k + y) mod k = y"
  using assms by simp_all

lemma join_number:
  fixes x y k m :: nat
  assumes "x < m" "y < k"
  shows "x * k + y < m * k"
proof -
  have "x * k + y < (x + 1) * k" using assms(2) by simp
  also have "\<dots> \<le> m * k" using assms(1) by (intro mult_le_mono1) simp
  finally show ?thesis .
qed

lemma byte_parts:
  fixes a b c :: nat
  assumes "a < 256" "b < 256" "c < 256"
  shows "a div 4 < 64" "a mod 4 * 16 < 64" "b mod 16 * 4 < 64" "c mod 64 < 64"
    "a mod 4 * 16 + b div 16 < 64" "b mod 16 * 4 + c div 64 < 64"
    "a div 4 * 4 + a mod 4 * 16 div 16 = a"
    "a div 4 * 4 + (a mod 4 * 16 + b div 16) div 16 = a"
    "(a mod 4 * 16 + b div 16) mod 16 * 16 + b mod 16 * 4 div 4 = b"
    "(a mod 4 * 16 + b div 16) mod 16 * 16 + (b mod 16 * 4 + c div 64) div 4 = b"
    "(b mod 16 * 4 + c div 64) mod 4 * 64 + c mod 64 = c"
proof -
  have b: "b div 16 < 16" "c div 64 < 4" using assms by (simp_all add: less_mult_imp_div_less)
  have m: "a mod 4 < 4" "b mod 16 < 16" "c mod 64 < 64" by simp_all
  show "a div 4 < 64" using assms by (simp add: less_mult_imp_div_less)
  show "a mod 4 * 16 < 64" "b mod 16 * 4 < 64" "c mod 64 < 64" using m by simp_all
  show "a mod 4 * 16 + b div 16 < 64" "b mod 16 * 4 + c div 64 < 64"
    using join_number [OF m(1) b(1)] join_number [OF m(2) b(2)] by simp_all
  show "a div 4 * 4 + a mod 4 * 16 div 16 = a" by simp
  show "a div 4 * 4 + (a mod 4 * 16 + b div 16) div 16 = a" by (simp only: split_number [OF b(1)] div_mult_mod_eq)
  show "(a mod 4 * 16 + b div 16) mod 16 * 16 + b mod 16 * 4 div 4 = b" by (simp only: split_number [OF b(1)]) simp
  show "(a mod 4 * 16 + b div 16) mod 16 * 16 + (b mod 16 * 4 + c div 64) div 4 = b"
    by (simp only: split_number [OF b(1)] split_number [OF b(2)] div_mult_mod_eq)
  show "(b mod 16 * 4 + c div 64) mod 4 * 64 + c mod 64 = c" by (simp only: split_number [OF b(2)] div_mult_mod_eq)
qed

lemma a2b_encode:
  assumes "list_all (\<lambda>n. n < 256) bs"
  shows "a2b strict (b64_encode bs) 0 0 0 out = Some (rev out @ bs)"
  using assms
proof (induction bs arbitrary: out rule: b64_encode.induct)
  case (2 a)
  then show ?case using byte_parts [of a 0 0] by (simp add: a2b_char a2b_pad del: One_nat_def)
next
  case (3 a b)
  then show ?case using byte_parts [of a b 0] by (simp add: a2b_char a2b_pad del: One_nat_def)
next
  case (4 a b c rest)
  then have "b div 16 < 16" "c div 64 < 4" by (simp_all add: less_mult_imp_div_less)
  with 4 show ?case using byte_parts [of a b c]
    by (simp add: a2b_char a2b_pad del: One_nat_def)
qed simp


lemma bytes_small: "list_all (\<lambda>n. n < 256) (bytes_of s)"
  by (simp add: bytes_of_def list_all_iff)

lemma text_of_bytes: "text_of (bytes_of s) = s"
  by (simp add: text_of_def bytes_of_def comp_def)

lemma b64_round_trip: "b64decode strict (urlsafe_b64encode s) = Some s"
  using a2b_encode [OF bytes_small, of strict s "[]"] by (simp add: b64decode_def urlsafe_b64encode_def text_of_bytes)


subsection \<open>Keys\<close>

text \<open>A key the settings accept has 32 bytes, not all zero, at least eight different ones, and no marker.\<close>

lemma decode_key_Inr:
  "decode_key raw = Inr key \<longleftrightarrow> b64decode True (raw @ replicate ((4 - length raw mod 4) mod 4) CHR ''='') = Some key \<and>
     length key = 32 \<and> key \<noteq> replicate 32 zero_byte \<and> 8 \<le> length (remdups key) \<and>
     \<not> list_ex (\<lambda>m. contains_sub m (py_lower key)) [''change'', ''placeholder'', ''example'', ''default'']"
  by (auto simp: decode_key_def split: option.splits)

lemma b64_length: "length (b64_encode bs) mod 4 = 0"
  by (induction bs rule: b64_encode.induct) simp_all

text \<open>The encoded key is accepted with and without its padding.\<close>

lemma padding_restored:
  assumes "length bs mod 3 = 2"
  shows "butlast (b64_encode bs) @ replicate ((4 - length (butlast (b64_encode bs)) mod 4) mod 4) CHR ''='' = b64_encode bs"
proof -
  have ne: "b64_encode bs \<noteq> []" "last (b64_encode bs) = CHR ''=''"
    using assms by (induction bs rule: b64_encode.induct) auto
  have "length (butlast (b64_encode bs)) mod 4 = 3"
  proof -
    obtain k where k: "length (b64_encode bs) = 4 * k" using b64_length [of bs] by (auto elim: dvdE simp: mod_eq_0_iff_dvd)
    with ne(1) obtain j where "k = Suc j" by (cases k) auto
    with k show ?thesis by simp
  qed
  then have "replicate ((4 - length (butlast (b64_encode bs)) mod 4) mod 4) CHR ''='' = [CHR ''='']" by simp
  then show ?thesis using append_butlast_last_id [OF ne(1)] ne(2) by simp
qed

lemma key_round_trip:
  assumes "length key = 32" "key \<noteq> replicate 32 zero_byte" "8 \<le> length (remdups key)"
    "\<not> list_ex (\<lambda>m. contains_sub m (py_lower key)) [''change'', ''placeholder'', ''example'', ''default'']"
  shows "decode_key (urlsafe_b64encode key) = Inr key" "decode_key (butlast (urlsafe_b64encode key)) = Inr key"
proof -
  have l: "length (bytes_of key) mod 3 = 2" using assms(1) by (simp add: bytes_of_def)
  show "decode_key (urlsafe_b64encode key) = Inr key"
    using assms b64_length [of "bytes_of key"] b64_round_trip [of True key]
    by (simp add: decode_key_Inr urlsafe_b64encode_def)
  show "decode_key (butlast (urlsafe_b64encode key)) = Inr key"
    using assms b64_round_trip [of True key] padding_restored [OF l] by (simp add: decode_key_Inr urlsafe_b64encode_def)
qed

text \<open>What a loaded configuration guarantees.\<close>

lemma secured_settings:
  assumes "validate_security s = Inr t"
  shows "t = s\<lparr>st_database_path := st_database_path t\<rparr>" "\<exists>p. st_database_path t = Some p \<and> is_absolute p"
    "\<exists>k f. decode_key (st_database_key s) = Inr k \<and> decode_key (st_field_key s) = Inr f \<and> k \<noteq> f"
    "st_driver s = ''sqlite-test'' \<longrightarrow> st_environment s = ''test''"
    "st_environment s = ''production'' \<longrightarrow> starts_with ''https://'' (st_central_url s)"
proof -
  obtain k f where k: "decode_key (st_database_key s) = Inr k" "decode_key (st_field_key s) = Inr f" "k \<noteq> f"
    "\<not> (st_driver s = ''sqlite-test'' \<and> st_environment s \<noteq> ''test'')"
    "\<not> (st_environment s = ''production'' \<and> \<not> starts_with ''https://'' (st_central_url s))" "is_absolute (st_data_dir s)"
    and t: "(case st_database_path s of
        None \<Rightarrow> Inr (s\<lparr>st_database_path := Some (st_data_dir s @ ''/local.db'')\<rparr>)
      | Some p \<Rightarrow> bindE (guardE (is_absolute p) (ValueError ''database_path must be absolute'')) (\<lambda>_. Inr s)) = Inr t"
    using assms unfolding validate_security_def bindE_eq_Inr guardE_eq_Inr by blast
  show "\<exists>k f. decode_key (st_database_key s) = Inr k \<and> decode_key (st_field_key s) = Inr f \<and> k \<noteq> f"
    "st_driver s = ''sqlite-test'' \<longrightarrow> st_environment s = ''test''"
    "st_environment s = ''production'' \<longrightarrow> starts_with ''https://'' (st_central_url s)" using k by blast+
  have path: "is_absolute (st_data_dir s @ x)" for x
    using k(6) by (cases "st_data_dir s") (simp_all add: is_absolute_def starts_with_def)
  show "t = s\<lparr>st_database_path := st_database_path t\<rparr>" "\<exists>p. st_database_path t = Some p \<and> is_absolute p"
    using t path [of "''/local.db''"] by (cases "st_database_path s"; auto simp: bindE_eq_Inr)+
qed

lemma loaded_edge_settings:
  assumes "load_edge_settings s = Inr t"
  shows "st_host t \<in> {''127.0.0.1'', ''localhost'', ''::1''}" "settings_fields t"
    "\<exists>k f. decode_key (st_database_key t) = Inr k \<and> decode_key (st_field_key t) = Inr f \<and> k \<noteq> f"
    "st_driver t = ''sqlite-test'' \<longrightarrow> st_environment t = ''test''"
    "st_environment t = ''production'' \<longrightarrow> starts_with ''https://'' (st_central_url t)"
    "\<exists>p. st_database_path t = Some p \<and> is_absolute p"
proof -
  obtain url where f: "settings_fields s" "st_host s \<in> {''127.0.0.1'', ''localhost'', ''::1''}"
    and v: "validate_security (s\<lparr>st_central_url := url\<rparr>) = Inr t"
    using assms unfolding load_edge_settings_def bindE_eq_Inr guardE_eq_Inr by blast
  note p = secured_settings [OF v]
  have t: "t = s\<lparr>st_central_url := url, st_database_path := st_database_path t\<rparr>" using p(1) by simp
  show "\<exists>p. st_database_path t = Some p \<and> is_absolute p" by (rule p(2))
  have e: "st_host t = st_host s" "settings_fields t = settings_fields s" "st_database_key t = st_database_key s"
    "st_field_key t = st_field_key s" "st_driver t = st_driver s" "st_environment t = st_environment s" "st_central_url t = url"
    by (subst t, simp add: settings_fields_def)+
  show "st_host t \<in> {''127.0.0.1'', ''localhost'', ''::1''}" "settings_fields t"
    "\<exists>k f. decode_key (st_database_key t) = Inr k \<and> decode_key (st_field_key t) = Inr f \<and> k \<noteq> f"
    "st_driver t = ''sqlite-test'' \<longrightarrow> st_environment t = ''test''"
    "st_environment t = ''production'' \<longrightarrow> starts_with ''https://'' (st_central_url t)"
    unfolding e using f p(3-5) by simp_all
qed

subsection \<open>Field encryption\<close>

text \<open>
  With a cipher that decrypts what it encrypted and adds a tag of 16 bytes, a field is read back under its
  purpose, unless it is the empty text: \<open>encrypt\<close> accepts it and \<open>decrypt\<close> takes 30 bytes for a corrupt
  value. Under another purpose, for which the cipher refuses, nothing is read.
\<close>

lemma field_decrypt_exact:
  assumes "length nonce = 12" "length (ad_encrypt aes key nonce t p) = length t + 16"
    "ad_decrypt aes key nonce (ad_encrypt aes key nonce t p) p = Some t"
  shows "field_decrypt aes key (field_encrypt aes key nonce t p) p =
      (if t = [] then Inl (DecryptionError ''encrypted local value could not be authenticated'') else Inr t)"
    "ad_decrypt aes key nonce (ad_encrypt aes key nonce t p) q = None \<Longrightarrow>
      field_decrypt aes key (field_encrypt aes key nonce t p) q = Inl (DecryptionError ''encrypted local value could not be authenticated'')"
proof -
  have d: "b64decode False (field_encrypt aes key nonce t p) = Some (''v1'' @ nonce @ ad_encrypt aes key nonce t p)"
    by (simp add: field_encrypt_def b64_round_trip)
  show "field_decrypt aes key (field_encrypt aes key nonce t p) p =
      (if t = [] then Inl (DecryptionError ''encrypted local value could not be authenticated'') else Inr t)"
    using assms d by (cases t) (simp_all add: field_decrypt_def)
  show "ad_decrypt aes key nonce (ad_encrypt aes key nonce t p) q = None \<Longrightarrow>
      field_decrypt aes key (field_encrypt aes key nonce t p) q = Inl (DecryptionError ''encrypted local value could not be authenticated'')"
    using assms d by (cases t) (simp_all add: field_decrypt_def)
qed

text \<open>A cipher of this shape: the text followed by sixteen zero bytes.\<close>

definition plain_aead :: aead where
  "plain_aead = \<lparr>ad_encrypt = (\<lambda>k n t p. t @ replicate 16 zero_byte), ad_decrypt = (\<lambda>k n c p. Some (take (length c - 16) c))\<rparr>"

lemma empty_field_unreadable:
  "field_decrypt plain_aead key (field_encrypt plain_aead key (replicate 12 zero_byte) [] p) p =
     Inl (DecryptionError ''encrypted local value could not be authenticated'')"
  "field_decrypt plain_aead key (field_encrypt plain_aead key (replicate 12 zero_byte) ''x'' p) p = Inr ''x''"
  using field_decrypt_exact(1) [of "replicate 12 zero_byte" plain_aead key _ p] by (simp_all add: plain_aead_def)

end
