(* ===== verification/Spec2Isabelle.thy ===== *)
theory Spec2Isabelle
  imports Zone_Analyzer Intrusion_Detector People_Counter Frame_Buffer Sort_Props Capture Pipeline_Props Pipeline_Life_Props Cv_Models
    Edge_Sync_Props Edge_Props Orch_Adapter_Props Orch_Scheduler Orch_Service_Props Worker_Props Manager_Props
    Central_Admin_Props Central_Session_Props Central_License_Keys Central_Camera_Props Central_Person_Props
    File_Server_Props Edge_Client Edge_Database Edge_Container
    Central_Socket_Props Central_Startup_Props Edge_Api_Props Edge_Config_Props
begin

text \<open>
  Verification library of the RSAP surveillance platform: a model of its Python code, and the
  theorems that say what the code promises. Paths are relative to the root of the repository.

  \<^bold>\<open>The program.\<close> Three services and a package.
  \<^item> \<open>packages/cv-engine\<close> turns frames into events. A \<open>ResilientCapture\<close> reads frames and reconnects; a
    \<open>FrameBuffer\<close> keeps the latest; a \<open>FramePipeline\<close> runs detector, tracker, faces, zones, people
    counter and intrusion detector on a frame and hands the events to callbacks.
  \<^item> \<open>apps/desktop-backend\<close>, the edge, runs one \<open>CameraWorker\<close> per camera under a \<open>CameraWorkerManager\<close>
    and a \<open>CameraOrchestrationService\<close>, keeps cameras, events and the session of its user in SQLite,
    and delivers what it recorded through a durable queue.
  \<^item> \<open>apps/webapp-backend\<close>, the centre, keeps users, licences, cameras, events and registered persons in
    PostgreSQL and the sessions in Redis, joined by a transactional outbox.
  \<^item> \<open>apps/file-server\<close> stores images and documents in MinIO under identities it assigns.

  The edge logs in at the centre (\<open>clients.py\<close>), its catalogue gives the orchestration the cameras the
  session and the licence allow, the pipelines' events go through the event sink into the local tables
  and the queue, and \<open>SyncService\<close> delivers the queue to the routes and the socket of the centre.

  \<^bold>\<open>The theories.\<close> Each opens with the files it models; theories named \<open>_Props\<close>, \<open>_Inv\<close>, \<open>_Order\<close>,
  \<open>_Leases\<close>, \<open>_Supervisor\<close> and \<open>_Keys\<close> hold lemmas about the definitions of others.
  \<^item> \<open>Rsap_Prelude\<close>: the type names, the exceptions as values (\<open>py_error\<close>, \<open>bindE\<close>, \<open>guardE\<close>, \<open>mapE\<close>),
    Python's string and rounding helpers, dictionaries, the collections \<open>op_defs\<close> and \<open>inv_intros\<close>.
    \<open>Json\<close>: JSON values. \<open>Recent_Map\<close>: the bounded \<open>OrderedDict\<close> idiom, stated as the locale
    \<open>bounded_map\<close> and interpreted on the code's operation.
  \<^item> Computer vision. \<open>Cv_Types\<close>, \<open>Cv_Zones\<close> (\<open>types.py\<close>); \<open>Cv_Config\<close> (\<open>device.py\<close>, \<open>config.py\<close>);
    \<open>Cv_Models\<close> (\<open>models/detector.py\<close>, \<open>face_engine.py\<close>); \<open>Sort_Tracker\<close>, \<open>Sort_Props\<close>
    (\<open>models/tracker.py\<close>); \<open>Zone_Analyzer\<close>, \<open>People_Counter\<close>, \<open>Intrusion_Detector\<close> (\<open>pipeline/\<close>);
    \<open>Frame_Buffer\<close>, \<open>Capture\<close> (\<open>streaming/\<close>); \<open>Frame_Pipeline\<close>, \<open>Pipeline_Props\<close> (the sequential part
    of \<open>pipeline/frame_pipeline.py\<close>), \<open>Pipeline_Life\<close>, \<open>Pipeline_Life_Props\<close> (its threads, callbacks
    and shutdown).
  \<^item> Edge data. \<open>Sync_Queue\<close>, \<open>Sync_Order\<close>, \<open>Sync_Leases\<close> (table \<open>sync_queue\<close>); \<open>Edge_Store\<close>,
    \<open>Edge_Records\<close>, \<open>Edge_Props\<close> (\<open>repositories.py\<close>, \<open>dtos.py\<close>); \<open>Edge_Auth\<close>
    (\<open>authorization.py\<close>, \<open>AuthService\<close>); \<open>Edge_Sync\<close>, \<open>Edge_Sync_Props\<close> (the other services);
    \<open>Edge_Client\<close> (\<open>clients.py\<close>); \<open>Edge_Database\<close> (\<open>database.py\<close>); \<open>Edge_Container\<close>
    (\<open>container.py\<close>, \<open>main.py\<close>); \<open>Edge_Config\<close>, \<open>Edge_Config_Props\<close> (\<open>config.py\<close>, \<open>crypto.py\<close>);
    \<open>Edge_Api\<close>, \<open>Edge_Api_Props\<close> (\<open>routers/\<close>, \<open>dependencies.py\<close>, \<open>responses.py\<close>).
  \<^item> Orchestration (\<open>apps/desktop-backend/app/orchestration\<close>). \<open>Orch_Security\<close> (\<open>security.py\<close>),
    \<open>Orch_Models\<close> (\<open>models.py\<close>, \<open>errors.py\<close>), \<open>Camera_Worker\<close>, \<open>Worker_Inv\<close>, \<open>Worker_Supervisor\<close>,
    \<open>Worker_Props\<close> (\<open>worker.py\<close>), \<open>Camera_Manager\<close>, \<open>Manager_Inv\<close>, \<open>Manager_Props\<close> (\<open>manager.py\<close>),
    \<open>Orch_Service\<close>, \<open>Orch_Service_Props\<close> (\<open>service.py\<close>), \<open>Orch_Adapters\<close>, \<open>Orch_Adapter_Props\<close>,
    \<open>Orch_Scheduler\<close> (\<open>adapters.py\<close>).
  \<^item> Centre. \<open>Central_Store\<close> (the tables of \<open>infra/postgres/init.sql\<close>, \<open>rbac_service.py\<close>);
    \<open>Central_Admin\<close>, \<open>Central_Admin_Props\<close> (\<open>routers/users.py\<close>, \<open>licenses.py\<close>); \<open>Central_Sessions\<close>,
    \<open>Central_Session_Props\<close>, \<open>Central_License_Keys\<close> (\<open>session_service.py\<close>, \<open>routers/auth.py\<close>,
    \<open>dependencies.py\<close>); \<open>Central_Cameras\<close>, \<open>Central_Camera_Props\<close> (\<open>routers/cameras.py\<close>, \<open>sync.py\<close>,
    \<open>analytics.py\<close>); \<open>Central_Socket\<close>, \<open>Central_Socket_Props\<close> (\<open>routers/websockets.py\<close>,
    \<open>ConnectionManager\<close>); \<open>Central_Persons\<close>, \<open>Central_Person_Props\<close> (\<open>routers/persons.py\<close>,
    \<open>cleanup_service.py\<close>); \<open>Central_Startup\<close>, \<open>Central_Startup_Props\<close> (\<open>config.py\<close>, \<open>main.py\<close>,
    \<open>file_service.py\<close>, \<open>scripts/seed.py\<close>).
  \<^item> File server. \<open>Storage_Names\<close>, \<open>File_Server\<close>, \<open>File_Server_Props\<close> (\<open>app/\<close> of \<open>apps/file-server\<close>).
\<close>

text \<open>
  \<^bold>\<open>How the code is rendered.\<close> A class is a record of its fields and a method a function on it that
  returns the record updated. An exception is a value: \<open>Inl\<close> of \<open>py_error\<close>, of the error classes of
  the service or of an HTTP answer. One SQL transaction is one function on the tables; JSON texts and
  encrypted fields are represented by their values, with \<open>crypto.py\<close> modelled on its own. Times are
  integers in microseconds and real numbers stand for floating point, with the not-a-numbers and
  infinities a check must reject as values of \<open>raw_float\<close>.

  Concurrent code is a step function on the state with a condition of enabledness, one step being
  the code between two awaits, or one critical section of a thread; runs and reachable states
  quantify over all schedules. This holds for the four tasks of a worker, the operations of the
  manager, the calls of the orchestration service, the scheduler, the threads inside a capture, the
  pipeline with its event loop and shutdown, and the handlers of the synchronization socket.

  What is not under the repository is an argument: the clock, \<open>uuid4\<close>, hashes, the JWT library and
  AES-GCM, the HTTP client's replies, MinIO, Pillow, OpenCV, the YOLO model, the face library, the
  linear solver and the assignment of SciPy, PyTorch, SQLite's engine and \<open>fromisoformat\<close>. Where a
  theorem needs documented behaviour of one of them it is a named hypothesis (an assignment uses no
  row or column twice, an object that was put is listed) and its witness instantiates it.

  \<^bold>\<open>Interfaces.\<close> The manager asks of its workers the locale \<open>worker_contract\<close>, discharged for the
  model of \<open>CameraWorker\<close> by its invariant; a consumer of frames asks of its buffer the locale
  \<open>frame_source\<close>, discharged for \<open>FrameBuffer\<close>; the three upserts of the centre are interpretations of
  the locale \<open>upsert\<close>; the bounded tables of manager and pipeline rest on \<open>bounded_map\<close>.

  \<^bold>\<open>What the lemmas show.\<close>
  \<^item> Queue: in every run of all statements that change the table, rows of one key are leased one at a
    time and leave in version order; a leased row changes only through its holder or the end of its
    lease; a pass of \<open>flush_once\<close> settles and counts all it claimed. The key \<open>session:revoke\<close> is
    exempt: \<open>logouts_overlap\<close> shows two of its rows leased at once. A deletion may withdraw the
    newest row of its camera while the registration is in flight (\<open>deletion_overtakes\<close>).
  \<^item> Access: what a request without the tokens of the active session can do at the edge (nothing, but
    clear a lapsed session), who may change which user, licence, camera and event at the centre, that
    the last super-administrator survives, that a refresh token works once and a revoked session
    stays denied in all later states, that the keys in Redis do not outlive the licence, and that the
    socket stores a message only after a validation that follows its arrival.
  \<^item> Life cycles: invariants at every program counter; no refused transition, nothing closed twice or
    left open, no event lost, exclusion of operations, completeness of shutdowns. The ends of runs are
    counted: a worker told to stop makes at most 27 steps and two for each slot of its event queue, a
    service that is stopped nine, the calls in a closed capture at most the sum of their ranks, and
    the shutdown of a pipeline lowers a well-founded rank while some step is enabled whenever the
    event loop is free. None of these is a bound put into the model: the step functions have no fuel.
    \<open>close_on_loop_deadlocks\<close> is the exception the code allows.
  \<^item> Vision: what a frame may emit, from which tracks and zones and in which order; that a reported
    object is one detection of its frame; that the crossings counted are the changes of side; that the
    ring buffer is the last frames put; alternation of zone events and the rate limit of alerts.
  \<^item> Storage: an accepted upload (at most 10 MB) is found again under its identity, a page is that block
    of the listing, no face image is lost or deleted early, migrations are complete and idempotent.

  Loops whose end depends on data are structural recursions over the batch (25 queue rows, 500 exported
  persons, the attempts of a request), so every function is total. Where the code is wrong, a lemma
  shows the run that goes wrong, and the property next to it states the hypothesis that excludes it.

  \<^bold>\<open>Assumptions and what is left out.\<close> Transactions are atomic and the row locks of PostgreSQL are not
  separate steps; key constraints of the central schema are conditions of the handlers that insert,
  and the unique central identity of a local camera is not checked. Statements of a migration are
  assumed not to write the history table themselves, and the compensating entry of a failed image
  upload to be stored. Cancellation of tasks from outside is modelled for the start and shutdown of the
  edge and for socket handlers only. The identity counter shared by all trackers is read and written
  in one step, which the threads of several pipelines do not guarantee: identities are proved unique
  only under that condition (\<open>track_identities\<close>), and no other property uses it. Not modelled are drawing,
  packaging, benchmarks, the scripts for developer machines, the construction of connection pools and
  clients, the endpoint syntax of the file server's settings, health views, and the user interfaces.
\<close>

end
